(* ===== verification/Go_Prelude.thy ===== *)
theory Go_Prelude
  imports Main "HOL-Library.Char_ord" "HOL-Library.List_Lexorder" "HOL-Library.Sublist"
begin

text \<open>
  Conventions shared by the components, and the parts of Go's standard library that the operator
  uses.

  \<^item> A Go \<^verbatim>\<open>string\<close> is a byte sequence: \<^typ>\<open>string\<close>, a list of 8-bit characters. Go orders strings
    byte by byte, which is the lexicographic order of \<^verbatim>\<open>HOL-Library.List_Lexorder\<close> over
    \<^verbatim>\<open>HOL-Library.Char_ord\<close>, so \<^verbatim>\<open>slices.Sort\<close> and \<^verbatim>\<open>sort.Strings\<close> are \<^const>\<open>sort\<close>.
  \<^item> A pointer that may be nil is an \<^typ>\<open>'a option\<close>.
  \<^item> A Go map that is only looked up is \<^typ>\<open>'k \<Rightarrow> 'v option\<close>; one the code ranges over is an association
    list whose order is the iteration order. Go leaves that order open, so every theorem is about
    all orders of such a list.
  \<^item> \<^verbatim>\<open>time.Time\<close> and \<^verbatim>\<open>time.Duration\<close> are integers counting nanoseconds; \<^verbatim>\<open>0\<close> is Go's zero time,
    the one \<^verbatim>\<open>IsZero\<close> recognises.
\<close>

subsection \<open>Collections of rewrite rules\<close>

named_theorems go_string_simps \<open>lemmas about Go's string functions\<close>
named_theorems go_map_simps \<open>lemmas about association lists read as Go maps\<close>

subsection \<open>Times\<close>

type_synonym gotime = int
type_synonym duration = int

definition second :: duration where
  "second = 1000000000"

definition minute :: duration where
  "minute = 60 * second"

definition hour :: duration where
  "hour = 60 * minute"

definition is_zero_time :: "gotime \<Rightarrow> bool" where
  "is_zero_time t \<longleftrightarrow> t = 0"

text \<open>\<^verbatim>\<open>(*metav1.Time).IsZero\<close>: a nil pointer is zero as well.\<close>

fun is_zero_ptr :: "gotime option \<Rightarrow> bool" where
  "is_zero_ptr None = True"
| "is_zero_ptr (Some t) = is_zero_time t"

subsection \<open>Strings\<close>

text \<open>\<^verbatim>\<open>strings.HasPrefix\<close>, \<^verbatim>\<open>strings.CutPrefix\<close>, \<^verbatim>\<open>strings.Contains\<close>, \<^verbatim>\<open>strings.Join\<close>.\<close>

definition has_prefix :: "string \<Rightarrow> string \<Rightarrow> bool" where
  "has_prefix s p \<longleftrightarrow> take (length p) s = p"

definition cut_prefix :: "string \<Rightarrow> string \<Rightarrow> string option" where
  "cut_prefix s p = (if has_prefix s p then Some (drop (length p) s) else None)"

fun contains_sub :: "string \<Rightarrow> string \<Rightarrow> bool" where
  "contains_sub [] p \<longleftrightarrow> p = []"
| "contains_sub (c # s) p \<longleftrightarrow> has_prefix (c # s) p \<or> contains_sub s p"

fun join :: "string \<Rightarrow> string list \<Rightarrow> string" where
  "join sep [] = []"
| "join sep [s] = s"
| "join sep (s # t # ss) = s @ sep @ join sep (t # ss)"

text \<open>\<^verbatim>\<open>strings.LastIndex\<close> for a one-byte separator, followed by the slice after it.\<close>

fun after_last :: "char \<Rightarrow> string \<Rightarrow> string option" where
  "after_last c [] = None"
| "after_last c (d # s) =
     (case after_last c s of Some t \<Rightarrow> Some t | None \<Rightarrow> if d = c then Some s else None)"

subsection \<open>Decimal integers\<close>

definition is_digit :: "char \<Rightarrow> bool" where
  "is_digit c \<longleftrightarrow> CHR ''0'' \<le> c \<and> c \<le> CHR ''9''"

definition digit_val :: "char \<Rightarrow> nat" where
  "digit_val c = of_char c - 48"

definition digit_char :: "nat \<Rightarrow> char" where
  "digit_char d = char_of (48 + d)"

fun utoa :: "nat \<Rightarrow> string" where
  "utoa n = (if n < 10 then [digit_char n] else utoa (n div 10) @ [digit_char (n mod 10)])"

declare utoa.simps [simp del]

text \<open>\<^verbatim>\<open>strconv.Itoa\<close> and the verb \<^verbatim>\<open>%d\<close>.\<close>

definition itoa :: "int \<Rightarrow> string" where
  "itoa i = (if i < 0 then CHR ''-'' # utoa (nat (- i)) else utoa (nat i))"

fun atou :: "nat \<Rightarrow> string \<Rightarrow> nat" where
  "atou acc [] = acc"
| "atou acc (c # s) = atou (10 * acc + digit_val c) s"

text \<open>
  \<^verbatim>\<open>strconv.Atoi\<close>: an optional sign and at least one decimal digit, and the value fits a 64-bit
  \<^verbatim>\<open>int\<close>. \<^const>\<open>None\<close> is every error it returns.
\<close>

definition atoi :: "string \<Rightarrow> int option" where
  "atoi s =
     (let neg = (s \<noteq> [] \<and> hd s = CHR ''-'');
          ds = (if s \<noteq> [] \<and> (hd s = CHR ''-'' \<or> hd s = CHR ''+'') then tl s else s)
      in if ds = [] \<or> \<not> list_all is_digit ds then None
         else let v = (if neg then - int (atou 0 ds) else int (atou 0 ds))
              in if - (2 ^ 63) \<le> v \<and> v < 2 ^ 63 then Some v else None)"

subsection \<open>Association lists as Go maps\<close>

text \<open>Assignment \<^verbatim>\<open>m[k] = v\<close>: an existing key keeps its place, a new key is added at the end.\<close>

fun upd :: "'k \<Rightarrow> 'v \<Rightarrow> ('k \<times> 'v) list \<Rightarrow> ('k \<times> 'v) list" where
  "upd k v [] = [(k, v)]"
| "upd k v ((k', v') # m) = (if k = k' then (k, v) # m else (k', v') # upd k v m)"

definition del :: "'k \<Rightarrow> ('k \<times> 'v) list \<Rightarrow> ('k \<times> 'v) list" where
  "del k m = filter (\<lambda>(k', v). k' \<noteq> k) m"

text \<open>Reading a missing key of a string-valued Go map yields the empty string.\<close>

definition str_at :: "(string \<Rightarrow> string option) \<Rightarrow> string \<Rightarrow> string" where
  "str_at m k = (case m k of None \<Rightarrow> [] | Some v \<Rightarrow> v)"

subsection \<open>Lemmas on strings and integers\<close>

lemma has_prefix_append [simp, go_string_simps]: "has_prefix (p @ s) p"
  by (simp add: has_prefix_def)

lemma has_prefix_iff: "has_prefix s p \<longleftrightarrow> (\<exists>t. s = p @ t)"
  by (auto simp: has_prefix_def) (metis append_take_drop_id)

lemma cut_prefix_append [simp, go_string_simps]: "cut_prefix (p @ s) p = Some s"
  by (simp add: cut_prefix_def)

lemma cut_prefix_eq_Some: "cut_prefix s p = Some t \<longleftrightarrow> s = p @ t"
  by (auto simp: cut_prefix_def has_prefix_iff)

lemma length_join_Cons:
  "ss \<noteq> [] \<Longrightarrow> join sep (s # ss) = s @ sep @ join sep ss"
  by (cases ss) auto

lemma set_join_subset:
  "set (join sep ss) \<subseteq> set sep \<union> (\<Union>s\<in>set ss. set s)"
  by (induction sep ss rule: join.induct) auto

lemma after_last_none [go_string_simps]: "c \<notin> set s \<Longrightarrow> after_last c s = None"
  by (induction s) auto

lemma after_last_append [go_string_simps]:
  "c \<notin> set t \<Longrightarrow> after_last c (s @ c # t) = Some t"
  by (induction s) (auto simp: after_last_none)

lemma of_char_digit_char [simp]: "d < 10 \<Longrightarrow> of_char (digit_char d) = 48 + d"
  by (simp add: digit_char_def of_char_of)

lemma digit_val_digit_char [simp]: "d < 10 \<Longrightarrow> digit_val (digit_char d) = d"
  by (simp add: digit_val_def)

lemma is_digit_digit_char [simp]: "d < 10 \<Longrightarrow> is_digit (digit_char d)"
  by (simp add: is_digit_def less_eq_char_def digit_char_def of_char_of)

lemma utoa_digits [simp]: "list_all is_digit (utoa n)"
proof (induction n rule: utoa.induct)
  case (1 n)
  then show ?case
    by (subst utoa.simps) simp
qed

lemma utoa_nonempty [simp]: "utoa n \<noteq> []"
  by (subst utoa.simps) simp

lemma atou_append [simp]: "atou acc (s @ t) = atou (atou acc s) t"
  by (induction s arbitrary: acc) auto

lemma atou_utoa [simp]: "atou 0 (utoa n) = n"
proof (induction n rule: utoa.induct)
  case (1 n)
  show ?case
  proof (cases "n < 10")
    case True
    then show ?thesis by (subst utoa.simps) simp
  next
    case False
    with 1 have "atou 0 (utoa (n div 10)) = n div 10" by simp
    with False show ?thesis by (subst utoa.simps) simp
  qed
qed

lemma digit_not_sign: "is_digit c \<Longrightarrow> c \<noteq> CHR ''-'' \<and> c \<noteq> CHR ''+''"
  by (auto simp: is_digit_def less_eq_char_def)

lemma hd_utoa_digit: "is_digit (hd (utoa n))"
  using utoa_digits [of n] utoa_nonempty [of n]
  by (cases "utoa n") auto

lemma utoa_no_dash [simp]: "CHR ''-'' \<notin> set (utoa n)"
  using utoa_digits [of n] digit_not_sign by (auto simp: list_all_iff)

lemma atoi_itoa [simp]:
  assumes "0 \<le> i" and "i < 2 ^ 63"
  shows "atoi (itoa i) = Some i"
proof -
  have "hd (utoa (nat i)) \<noteq> CHR ''-''" and "hd (utoa (nat i)) \<noteq> CHR ''+''"
    using digit_not_sign [OF hd_utoa_digit] by auto
  with assms show ?thesis
    by (simp add: atoi_def itoa_def)
qed

lemma utoa_length: "0 < k \<Longrightarrow> n < 10 ^ k \<Longrightarrow> length (utoa n) \<le> k"
proof (induction n arbitrary: k rule: utoa.induct)
  case (1 n)
  show ?case
  proof (cases "n < 10")
    case True
    with 1 show ?thesis by (subst utoa.simps) simp
  next
    case False
    with 1(2,3) obtain j where k: "k = Suc j" and "0 < j"
      by (cases k; cases "k - 1") auto
    with 1(3) have "n div 10 < 10 ^ j" by (simp add: less_mult_imp_div_less mult.commute)
    with 1(1) False \<open>0 < j\<close> have "length (utoa (n div 10)) \<le> j" by simp
    with False k show ?thesis by (subst utoa.simps) simp
  qed
qed

lemma utoa_inj: "utoa m = utoa n \<Longrightarrow> m = n"
  by (metis atou_utoa)

subsection \<open>Digit strings in lexicographic order\<close>

lemma atou_acc: "atou acc s = acc * 10 ^ length s + atou 0 s"
proof (induction s arbitrary: acc)
  case (Cons c s)
  show ?case using Cons [of "10 * acc + digit_val c"] Cons [of "digit_val c"]
    by (simp add: algebra_simps)
qed simp

lemma digit_val_less: "is_digit c \<Longrightarrow> digit_val c < 10"
  by (auto simp: is_digit_def digit_val_def less_eq_char_def)

lemma digit_val_mono: "is_digit c \<Longrightarrow> is_digit d \<Longrightarrow> c < d \<Longrightarrow> digit_val c < digit_val d"
  by (auto simp: is_digit_def digit_val_def less_eq_char_def less_char_def)

lemma atou_bound: "list_all is_digit s \<Longrightarrow> atou 0 s < 10 ^ length s"
proof (induction s)
  case (Cons c s)
  then have "atou 0 s < 10 ^ length s" "digit_val c < 10" by (auto simp: digit_val_less)
  then have "digit_val c * 10 ^ length s + atou 0 s < (digit_val c + 1) * 10 ^ length s"
    by simp
  also have "\<dots> \<le> 10 * 10 ^ length s"
    using \<open>digit_val c < 10\<close> by (intro mult_right_mono) auto
  finally show ?case using atou_acc [of "digit_val c" s] by simp
qed simp

lemma atou_mono:
  "list_all is_digit s \<Longrightarrow> list_all is_digit t \<Longrightarrow> length s = length t \<Longrightarrow> s < t \<Longrightarrow>
   atou 0 s < atou 0 t"
proof (induction s arbitrary: t)
  case (Cons c s)
  then obtain d t' where t: "t = d # t'" by (cases t) auto
  have e: "atou 0 (c # s) = digit_val c * 10 ^ length s + atou 0 s"
    "atou 0 t = digit_val d * 10 ^ length s + atou 0 t'"
    using atou_acc [of "digit_val c" s] atou_acc [of "digit_val d" t'] Cons.prems t by auto
  show ?case
  proof (cases "c = d")
    case True
    with Cons t e show ?thesis by auto
  next
    case False
    with Cons.prems t have "digit_val c < digit_val d" by (auto intro: digit_val_mono)
    then have "(digit_val c + 1) * 10 ^ length s \<le> digit_val d * 10 ^ length s"
      by (intro mult_right_mono) auto
    moreover have "atou 0 s < 10 ^ length s" using Cons.prems by (auto intro: atou_bound)
    ultimately show ?thesis unfolding e by (simp add: algebra_simps)
  qed
qed simp

lemma less_eq_split:
  "length a = length b \<Longrightarrow> a @ s \<le> b @ t \<Longrightarrow> a < b \<or> a = b \<and> s \<le> (t :: 'a :: linorder list)"
proof (induction a arbitrary: b)
  case (Cons x a)
  then obtain y b' where "b = y # b'" by (cases b) auto
  with Cons show ?case by auto
qed simp

lemma take_less_eq: "s \<le> t \<Longrightarrow> take n s \<le> take n (t :: 'a :: linorder list)"
proof (induction s arbitrary: t n)
  case (Cons x s)
  then show ?case by (cases t; cases n) auto
qed simp

lemma div_pred:
  fixes y k :: int
  assumes "0 < k"
  shows "y div k = (y - 1) div k + (if y mod k = 0 then 1 else 0)"
proof -
  define q r where "q = y div k" and "r = y mod k"
  have y: "y = k * q + r" and r: "0 \<le> r" "r < k"
    using assms by (auto simp: q_def r_def)
  have "(y - 1) div k = (if r = 0 then q - 1 else q)"
  proof (cases "r = 0")
    case True
    have "y - 1 = k * (q - 1) + (k - 1)" using y True by (simp add: algebra_simps)
    moreover have "(k * (q - 1) + (k - 1)) div k = q - 1" using assms by simp
    ultimately show ?thesis using True by metis
  next
    case False
    have "(k * q + (r - 1)) div k = q" using assms r False by simp
    moreover have "y - 1 = k * q + (r - 1)" using y by simp
    ultimately show ?thesis using False by metis
  qed
  then show ?thesis by (simp add: q_def r_def)
qed

subsection \<open>Lemmas on association lists\<close>

lemma map_of_upd [simp, go_map_simps]: "map_of (upd k v m) = (map_of m)(k \<mapsto> v)"
  by (induction k v m rule: upd.induct) auto

lemma map_of_del [simp, go_map_simps]: "map_of (del k m) = (map_of m)(k := None)"
  by (induction m) (auto simp: del_def)

lemma set_fst_upd [simp, go_map_simps]: "fst ` set (upd k v m) = insert k (fst ` set m)"
  by (induction k v m rule: upd.induct) auto

lemma distinct_upd [simp, go_map_simps]:
  "distinct (map fst (upd k v m)) = distinct (map fst m)"
proof (induction k v m rule: upd.induct)
  case (2 k v k' v' m)
  have "k' \<in> fst ` set (upd k v m) \<longleftrightarrow> k' = k \<or> k' \<in> fst ` set m" by simp
  with 2 show ?case by auto
qed simp

lemma str_at_upd [simp, go_map_simps]:
  "str_at (m(k \<mapsto> v)) k' = (if k' = k then v else str_at m k')"
  by (simp add: str_at_def)

lemma str_at_del [simp, go_map_simps]:
  "str_at (m(k := None)) k' = (if k' = k then [] else str_at m k')"
  by (simp add: str_at_def)

lemma str_at_empty [simp, go_map_simps]: "str_at Map.empty k = []"
  by (simp add: str_at_def)

lemma find_SomeD: "find P xs = Some x \<Longrightarrow> x \<in> set xs \<and> P x"
  by (auto simp: find_Some_iff)

end
