(* ===== verification/Kube_Model.thy ===== *)
theory Kube_Model
  imports Go_Prelude "HOL-Library.State_Monad"
begin

text \<open>
  The objects the operator reads and writes, and its dealings with the Kubernetes API server.

  \<^item> Pods, PersistentVolumeClaims, status conditions and the \<^verbatim>\<open>Shard\<close> resource as records, with the
    fields the modelled code touches. Fields of third-party types that the code only carries along
    (affinity, tolerations) are opaque strings.
  \<^item> The label and annotation keys of \<^verbatim>\<open>src/pkg/util/metadata/labels.go\<close> and its label builders.
  \<^item> The API server is not part of the repository. A reconcile is a computation in the state monad
    over the list of API calls made so far, and the server is an argument of type \<^verbatim>\<open>kube\<close>: for each
    kind of call a function from the calls made before and the call itself to the answer. A theorem
    for all \<^verbatim>\<open>kube\<close> holds whatever the server and the other clients do between two calls.

  Log lines, metrics and tracing spans are not modelled.
\<close>

subsection \<open>Status conditions, pods and claims\<close>

datatype cstatus = ConditionTrue | ConditionFalse | ConditionUnknown

record condition =
  c_type :: string
  c_status :: cstatus
  c_observed_generation :: int
  c_last_transition :: gotime
  c_reason :: string
  c_message :: string

record pod_condition =
  pc_type :: string
  pc_status :: cstatus
  pc_last_transition :: gotime

datatype pod_phase = PodPending | PodRunning | PodSucceeded | PodFailed | PodUnknown

record container =
  ct_name :: string
  ct_args :: "string list"

text \<open>A container's state: the reason when waiting, and whether it is terminated.\<close>

record container_status =
  cs_waiting :: "string option"
  cs_terminated :: bool
  cs_restart_count :: int

text \<open>A volume is the claim it mounts, or \<^const>\<open>None\<close> for every other kind of volume.\<close>

record pod =
  p_name :: string
  p_namespace :: string
  p_uid :: string
  p_labels :: "string \<Rightarrow> string option"
  p_annotations :: "string \<Rightarrow> string option"
  p_deletion :: "gotime option"
  p_creation :: gotime
  p_node :: string
  p_containers :: "container list"
  p_volumes :: "string option list"
  p_phase :: pod_phase
  p_conditions :: "pod_condition list"
  p_cstatuses :: "container_status list"
  p_init_cstatuses :: "container_status list"

record pvc =
  v_name :: string
  v_namespace :: string
  v_resource_version :: string
  v_labels :: "string \<Rightarrow> string option"
  v_owners :: "string list"
  v_deletion :: "gotime option"
  v_request :: "int option"
  v_bound :: bool
  v_class :: "string option"
  v_modes :: "string list"
  v_conditions :: "pod_condition list"

subsection \<open>The Shard resource\<close>

record pvc_deletion_policy =
  WhenDeleted :: string
  WhenScaled :: string

record storage_spec =
  st_size :: string
  st_class :: string
  st_access_modes :: "string list"

text \<open>\<^verbatim>\<open>corev1.ResourceRequirements\<close>: the merge code distinguishes a nil map from an empty one.\<close>

record resources =
  r_requests :: "(string \<times> string) list option"
  r_limits :: "(string \<times> string) list option"
  r_claims :: "string list option"

record container_config =
  cc_resources :: resources
  cc_run_as_user :: "int option"
  cc_run_as_group :: "int option"

record pool_spec =
  ps_type :: string
  ps_cells :: "string list"
  ps_replicas_per_cell :: "int option"
  ps_storage :: storage_spec
  ps_postgres :: container_config
  ps_multipooler :: container_config
  ps_affinity :: "string option"
  ps_tolerations :: "string list"
  ps_fs_group :: "int option"
  ps_pvc_deletion_policy :: "pvc_deletion_policy option"

record backup_spec =
  bk_type :: string
  bk_filesystem :: "storage_spec option"

record shard =
  s_name :: string
  s_namespace :: string
  s_uid :: string
  s_generation :: int
  s_labels :: "string \<Rightarrow> string option"
  s_database_name :: string
  s_table_group_name :: string
  s_shard_name :: string
  s_topo_address :: string
  s_topo_root :: string
  s_pools :: "(string \<times> pool_spec) list"
  s_pvc_deletion_policy :: "pvc_deletion_policy option"
  s_backup :: "backup_spec option"
  s_topology_pruning :: "bool option option"
  s_durability_policy :: string
  s_replicas :: "int option"
  s_conditions :: "condition list"
  s_pod_roles :: "(string \<times> string) list"
  s_pod_postures :: "(string \<times> string) list"
  s_last_backup_time :: "gotime option"
  s_last_backup_type :: string

subsection \<open>Label and annotation keys\<close>

abbreviation LabelAppName :: string where "LabelAppName \<equiv> ''app.kubernetes.io/name''"
abbreviation LabelAppInstance :: string where "LabelAppInstance \<equiv> ''app.kubernetes.io/instance''"
abbreviation LabelAppComponent :: string where "LabelAppComponent \<equiv> ''app.kubernetes.io/component''"
abbreviation LabelAppPartOf :: string where "LabelAppPartOf \<equiv> ''app.kubernetes.io/part-of''"
abbreviation LabelAppManagedBy :: string where "LabelAppManagedBy \<equiv> ''app.kubernetes.io/managed-by''"
abbreviation AppNameMultigres :: string where "AppNameMultigres \<equiv> ''multigres''"
abbreviation ManagedByMultigres :: string where "ManagedByMultigres \<equiv> ''multigres-operator''"
abbreviation LabelMultigresCell :: string where "LabelMultigresCell \<equiv> ''multigres.com/cell''"
abbreviation LabelMultigresCluster :: string where "LabelMultigresCluster \<equiv> ''multigres.com/cluster''"
abbreviation LabelMultigresShard :: string where "LabelMultigresShard \<equiv> ''multigres.com/shard''"
abbreviation LabelMultigresDatabase :: string where "LabelMultigresDatabase \<equiv> ''multigres.com/database''"
abbreviation LabelMultigresTableGroup :: string where "LabelMultigresTableGroup \<equiv> ''multigres.com/tablegroup''"
abbreviation LabelMultigresPool :: string where "LabelMultigresPool \<equiv> ''multigres.com/pool''"
abbreviation LabelMultigresZoneID :: string where "LabelMultigresZoneID \<equiv> ''multigres.com/zone-id''"
abbreviation LabelMultigresRegion :: string where "LabelMultigresRegion \<equiv> ''multigres.com/region''"
abbreviation AnnotationSpecHash :: string where "AnnotationSpecHash \<equiv> ''multigres.com/spec-hash''"
abbreviation AnnotationDrainState :: string where "AnnotationDrainState \<equiv> ''drain.multigres.com/state''"
abbreviation DrainStateRequested :: string where "DrainStateRequested \<equiv> ''requested''"
abbreviation DrainStateDraining :: string where "DrainStateDraining \<equiv> ''draining''"
abbreviation DrainStateAcknowledged :: string where "DrainStateAcknowledged \<equiv> ''acknowledged''"
abbreviation DrainStateReadyForDeletion :: string where
  "DrainStateReadyForDeletion \<equiv> ''ready-for-deletion''"
abbreviation AnnotationDrainRequestedAt :: string where
  "AnnotationDrainRequestedAt \<equiv> ''drain.multigres.com/requested-at''"
abbreviation AnnotationMaintenanceSurge :: string where
  "AnnotationMaintenanceSurge \<equiv> ''maintenance.multigres.com/surge''"
abbreviation LabelOrphan :: string where "LabelOrphan \<equiv> ''multigres.com/orphan-since''"
abbreviation PoolComponentName :: string where "PoolComponentName \<equiv> ''shard-pool''"

subsection \<open>Label builders\<close>

type_synonym labels = "string \<Rightarrow> string option"

definition BuildStandardLabels :: "string \<Rightarrow> string \<Rightarrow> labels" where
  "BuildStandardLabels clusterName component =
     [LabelAppName \<mapsto> AppNameMultigres,
      LabelAppInstance \<mapsto> clusterName,
      LabelAppComponent \<mapsto> component,
      LabelAppPartOf \<mapsto> AppNameMultigres,
      LabelAppManagedBy \<mapsto> ManagedByMultigres]"

definition AddCellLabel :: "labels \<Rightarrow> string \<Rightarrow> labels" where
  "AddCellLabel ls cellName = ls(LabelMultigresCell \<mapsto> cellName)"

definition AddClusterLabel :: "labels \<Rightarrow> string \<Rightarrow> labels" where
  "AddClusterLabel ls clusterName = ls(LabelMultigresCluster \<mapsto> clusterName)"

definition AddShardLabel :: "labels \<Rightarrow> string \<Rightarrow> labels" where
  "AddShardLabel ls shardName = ls(LabelMultigresShard \<mapsto> shardName)"

definition AddDatabaseLabel :: "labels \<Rightarrow> string \<Rightarrow> labels" where
  "AddDatabaseLabel ls databaseName = ls(LabelMultigresDatabase \<mapsto> databaseName)"

definition AddTableGroupLabel :: "labels \<Rightarrow> string \<Rightarrow> labels" where
  "AddTableGroupLabel ls tableGroupName = ls(LabelMultigresTableGroup \<mapsto> tableGroupName)"

definition AddPoolLabel :: "labels \<Rightarrow> string \<Rightarrow> labels" where
  "AddPoolLabel ls poolName = ls(LabelMultigresPool \<mapsto> poolName)"

definition AddZoneIDLabel :: "labels \<Rightarrow> string \<Rightarrow> labels" where
  "AddZoneIDLabel ls zoneID = ls(LabelMultigresZoneID \<mapsto> zoneID)"

definition AddRegionLabel :: "labels \<Rightarrow> string \<Rightarrow> labels" where
  "AddRegionLabel ls regionName = ls(LabelMultigresRegion \<mapsto> regionName)"

definition selectorLabelsAllowList :: "string list" where
  "selectorLabelsAllowList =
     [LabelAppComponent, LabelAppInstance, LabelMultigresCluster, LabelMultigresDatabase,
      LabelMultigresTableGroup, LabelMultigresShard, LabelMultigresPool, LabelMultigresCell]"

definition GetSelectorLabels :: "labels \<Rightarrow> labels" where
  "GetSelectorLabels ls = (\<lambda>k. if k \<in> set selectorLabelsAllowList then ls k else None)"

definition MergeLabels :: "labels \<Rightarrow> labels \<Rightarrow> labels" where
  "MergeLabels standardLabels customLabels = customLabels ++ standardLabels"

definition buildPoolLabelsWithCell :: "shard \<Rightarrow> string \<Rightarrow> string \<Rightarrow> labels" where
  "buildPoolLabelsWithCell shd poolName cellName =
     (let clusterName = str_at (s_labels shd) LabelMultigresCluster;
          ls = BuildStandardLabels clusterName PoolComponentName;
          ls = AddShardLabel ls (s_shard_name shd);
          ls = AddCellLabel ls cellName;
          ls = AddPoolLabel ls poolName;
          ls = AddDatabaseLabel ls (s_database_name shd);
          ls = AddTableGroupLabel ls (s_table_group_name shd)
      in MergeLabels ls (s_labels shd))"

subsection \<open>The API server\<close>

datatype api_error = NotFound | AlreadyExists | Conflict | OtherApiError string

text \<open>
  A call names whether it reads past the controller's cache, the namespace and the label selector;
  \<^verbatim>\<open>SelectPvcs\<close> carries requirements, a key with its value or, for \<^const>\<open>None\<close>, a key that must exist.
  A patch carries the object before and after the change and whether it is conditioned on the
  resource version; a delete may carry a resource version precondition. A storage
  class is read for whether it allows expansion; a server-side apply carries the kind and the name. Objects of other kinds are
  listed, read, patched and deleted by kind and name; a patch of one names what it changes. An event carries its type,
  its reason and the object it is about.
\<close>

datatype kcall =
    ListPods bool string "labels"
  | ListPvcs bool string "labels"
  | SelectPvcs string "(string \<times> string option) list"
  | GetPvc bool string string
  | GetStorageClass string
  | PatchPod pod pod
  | CreatePod pod
  | DeletePod pod
  | CreatePvc pvc
  | PatchPvc bool pvc pvc
  | DeletePvc "string option" pvc
  | ApplyObject string string
  | ListObjects string string "labels"
  | GetObject string string string
  | PatchObject string string string
  | DeleteObject string string
  | EmitEvent string string string

type_synonym history = "kcall list"
type_synonym 'a kio = "(history, 'a) state"

record kube =
  k_list_pods :: "history \<Rightarrow> kcall \<Rightarrow> api_error + pod list"
  k_list_pvcs :: "history \<Rightarrow> kcall \<Rightarrow> api_error + pvc list"
  k_get_pvc :: "history \<Rightarrow> kcall \<Rightarrow> api_error + pvc"
  k_get_class :: "history \<Rightarrow> kcall \<Rightarrow> api_error + bool option"
  k_patch_pod :: "history \<Rightarrow> kcall \<Rightarrow> api_error + pod"
  k_patch_pvc :: "history \<Rightarrow> kcall \<Rightarrow> api_error + pvc"
  k_list_objects :: "history \<Rightarrow> kcall \<Rightarrow> api_error + (string \<times> gotime option) list"
  k_get_object :: "history \<Rightarrow> kcall \<Rightarrow> api_error + gotime option"
  k_write :: "history \<Rightarrow> kcall \<Rightarrow> api_error option"

text \<open>The operations are the same for every kind of call; the controllers of the custom resources use their own.\<close>

definition ask :: "('c list \<Rightarrow> 'c \<Rightarrow> 'r) \<Rightarrow> 'c \<Rightarrow> ('c list, 'r) state" where
  "ask f c = State (\<lambda>h. (f h c, h @ [c]))"

definition emit :: "'c \<Rightarrow> ('c list, unit) state" where
  "emit c = State (\<lambda>h. ((), h @ [c]))"

lemma run_ask [simp]: "run_state (ask f c) h = (f h c, h @ [c])"
  by (simp add: ask_def)

lemma run_emit [simp]: "run_state (emit c) h = ((), h @ [c])"
  by (simp add: emit_def)

lemma run_cases [simp]:
  "run_state (case r of Inl e \<Rightarrow> f e | Inr x \<Rightarrow> g x) h
     = (case r of Inl e \<Rightarrow> run_state (f e) h | Inr x \<Rightarrow> run_state (g x) h)"
  "run_state (case v of None \<Rightarrow> m | Some y \<Rightarrow> m' y) h
     = (case v of None \<Rightarrow> run_state m h | Some y \<Rightarrow> run_state (m' y) h)"
  "run_state (if b then m1 else m2) h = (if b then run_state m1 h else run_state m2 h)"
  "run_state (case q of (a, c) \<Rightarrow> n a c) h = (case q of (a, c) \<Rightarrow> run_state (n a c) h)"
  by (simp_all split: sum.split option.split prod.split)

text \<open>
  The calls a computation adds. Computations only ever append to the history; \<^verbatim>\<open>appends\<close> says so and
  that everything appended satisfies a predicate, and is closed under the monad's operations.
\<close>

definition appends :: "('c \<Rightarrow> bool) \<Rightarrow> ('c list, 'a) state \<Rightarrow> bool" where
  "appends P m \<longleftrightarrow> (\<forall>h. \<exists>cs. snd (run_state m h) = h @ cs \<and> list_all P cs)"

named_theorems appends_intros \<open>closure of the append property under the monad's operations\<close>

lemma appends_return [appends_intros]: "appends P (State_Monad.return x)"
  by (simp add: appends_def)

lemma appends_ask [appends_intros]: "P c \<Longrightarrow> appends P (ask f c)"
  by (simp add: appends_def)

lemma appends_emit [appends_intros]: "P c \<Longrightarrow> appends P (emit c)"
  by (simp add: appends_def)

lemma appends_bind [appends_intros]:
  assumes m: "appends P m" and f: "\<And>x. appends P (f x)"
  shows "appends P (State_Monad.bind m f)"
  unfolding appends_def
proof
  fix h
  obtain x h1 where r: "run_state m h = (x, h1)" by force
  with m obtain cs where "h1 = h @ cs" and cs: "list_all P cs"
    unfolding appends_def by (metis snd_conv)
  moreover obtain ds where "snd (run_state (f x) h1) = h1 @ ds" and "list_all P ds"
    using f [of x] unfolding appends_def by blast
  ultimately show "\<exists>cs. snd (run_state (State_Monad.bind m f) h) = h @ cs \<and> list_all P cs"
    using r by (intro exI [of _ "cs @ ds"]) simp
qed

lemma appends_imp: "appends P m \<Longrightarrow> (\<And>c. P c \<Longrightarrow> Q c) \<Longrightarrow> appends Q m"
  unfolding appends_def by (metis list_all_iff)

lemma appends_if [appends_intros]:
  "(b \<Longrightarrow> appends P m) \<Longrightarrow> (\<not> b \<Longrightarrow> appends P n) \<Longrightarrow> appends P (if b then m else n)"
  by simp

lemma appends_sum [appends_intros]:
  "(\<And>e. appends P (f e)) \<Longrightarrow> (\<And>x. appends P (g x)) \<Longrightarrow>
   appends P (case r of Inl e \<Rightarrow> f e | Inr x \<Rightarrow> g x)"
  by (simp split: sum.split)

lemma appends_option [appends_intros]:
  "appends P m \<Longrightarrow> (\<And>x. appends P (g x)) \<Longrightarrow>
   appends P (case r of None \<Rightarrow> m | Some x \<Rightarrow> g x)"
  by (simp split: option.split)

text \<open>
  Guarded histories: every call a computation makes from a given history on satisfies a guard that
  sees the calls made before it. \<^verbatim>\<open>seen\<close> says that a call was made in a history and how the server
  answered it, which no later call changes.
\<close>

fun guarded :: "('c list \<Rightarrow> 'c \<Rightarrow> bool) \<Rightarrow> 'c list \<Rightarrow> 'c list \<Rightarrow> bool" where
  "guarded G h [] = True"
| "guarded G h (c # cs) = (G h c \<and> guarded G (h @ [c]) cs)"

lemma guarded_append [simp]: "guarded G h (cs @ ds) \<longleftrightarrow> guarded G h cs \<and> guarded G (h @ cs) ds"
  by (induction cs arbitrary: h) auto

lemma guarded_nth:
  "guarded G h cs \<Longrightarrow> cs = pre @ c # post \<Longrightarrow> G (h @ pre) c"
  by auto

definition keeps :: "('c list \<Rightarrow> 'c \<Rightarrow> bool) \<Rightarrow> ('c list, 'a) state \<Rightarrow> 'c list \<Rightarrow> bool" where
  "keeps G m h \<longleftrightarrow> (\<exists>cs. snd (run_state m h) = h @ cs \<and> guarded G h cs)"

named_theorems keeps_intros \<open>guarded calls under the monad's operations\<close>

lemma keeps_return [keeps_intros]: "keeps G (State_Monad.return x) h"
  by (simp add: keeps_def)

lemma keeps_ask [keeps_intros]: "G h c \<Longrightarrow> keeps G (ask f c) h"
  by (simp add: keeps_def)

lemma keeps_emit [keeps_intros]: "G h c \<Longrightarrow> keeps G (emit c) h"
  by (simp add: keeps_def)

lemma keeps_bind:
  assumes "keeps G m h" and "\<And>x h'. run_state m h = (x, h') \<Longrightarrow> keeps G (f x) h'"
  shows "keeps G (State_Monad.bind m f) h"
proof -
  obtain x h' where r: "run_state m h = (x, h')" by force
  with assms(1) obtain cs where cs: "h' = h @ cs" "guarded G h cs" by (auto simp: keeps_def)
  moreover from assms(2) [OF r] obtain ds where "snd (run_state (f x) h') = h' @ ds" "guarded G h' ds"
    by (auto simp: keeps_def)
  ultimately show ?thesis using r by (auto simp: keeps_def intro!: exI [of _ "cs @ ds"])
qed

lemma keeps_appends: "appends P m \<Longrightarrow> (\<And>h c. P c \<Longrightarrow> G h c) \<Longrightarrow> keeps G m h"
proof -
  assume a: "appends P m" and g: "\<And>h c. P c \<Longrightarrow> G h c"
  then obtain cs where cs: "snd (run_state m h) = h @ cs" "list_all P cs"
    unfolding appends_def by blast
  have "list_all P cs \<Longrightarrow> guarded G h' cs" for h'
    using g by (induction cs arbitrary: h') auto
  with cs show "keeps G m h" by (auto simp: keeps_def)
qed

definition seen :: "('c list \<Rightarrow> 'c \<Rightarrow> 'r) \<Rightarrow> 'c list \<Rightarrow> 'c \<Rightarrow> 'r \<Rightarrow> bool" where
  "seen f h c r \<longleftrightarrow> (\<exists>g rest. h = g @ c # rest \<and> f g c = r)"

lemma seen_last: "f h c = r \<Longrightarrow> seen f (h @ [c]) c r"
  by (auto simp: seen_def)

lemma seen_mono:
  assumes "seen f h c r"
  shows "seen f (h @ cs) c r"
proof -
  from assms obtain g rest where "h = g @ c # rest" "f g c = r" unfolding seen_def by blast
  then have "h @ cs = g @ c # (rest @ cs) \<and> f g c = r" by simp
  then show ?thesis unfolding seen_def by blast
qed

subsection \<open>Selectors\<close>

lemma MergeLabels_standard: "std k = Some v \<Longrightarrow> MergeLabels std cust k = Some v"
  by (simp add: MergeLabels_def)

text \<open>The contract of the functions that add one label, used through the interpretations below.\<close>

locale label_adder =
  fixes add :: "labels \<Rightarrow> string \<Rightarrow> labels" and key :: string
  assumes add_eq: "add ls v = ls(key \<mapsto> v)"
begin

lemma look_add: "add ls v k = (if k = key then Some v else ls k)"
  by (simp add: add_eq)

lemma select_add:
  "GetSelectorLabels (add ls v) =
     (if key \<in> set selectorLabelsAllowList then (GetSelectorLabels ls)(key \<mapsto> v) else GetSelectorLabels ls)"
  by (auto simp: GetSelectorLabels_def add_eq)

lemma merge_add: "MergeLabels (add ls v) cust = add (MergeLabels ls cust) v"
  by (simp add: MergeLabels_def add_eq)

end

interpretation cell_label: label_adder AddCellLabel LabelMultigresCell
  by unfold_locales (simp add: AddCellLabel_def)

interpretation cluster_label: label_adder AddClusterLabel LabelMultigresCluster
  by unfold_locales (simp add: AddClusterLabel_def)

interpretation shard_label: label_adder AddShardLabel LabelMultigresShard
  by unfold_locales (simp add: AddShardLabel_def)

interpretation database_label: label_adder AddDatabaseLabel LabelMultigresDatabase
  by unfold_locales (simp add: AddDatabaseLabel_def)

interpretation tablegroup_label: label_adder AddTableGroupLabel LabelMultigresTableGroup
  by unfold_locales (simp add: AddTableGroupLabel_def)

interpretation pool_label: label_adder AddPoolLabel LabelMultigresPool
  by unfold_locales (simp add: AddPoolLabel_def)

interpretation zone_label: label_adder AddZoneIDLabel LabelMultigresZoneID
  by unfold_locales (simp add: AddZoneIDLabel_def)

interpretation region_label: label_adder AddRegionLabel LabelMultigresRegion
  by unfold_locales (simp add: AddRegionLabel_def)

lemmas label_looks =
  cell_label.look_add cluster_label.look_add shard_label.look_add database_label.look_add
  tablegroup_label.look_add pool_label.look_add zone_label.look_add region_label.look_add

lemmas label_selects =
  cell_label.select_add cluster_label.select_add shard_label.select_add database_label.select_add
  tablegroup_label.select_add pool_label.select_add zone_label.select_add region_label.select_add

lemmas label_merges =
  cell_label.merge_add cluster_label.merge_add shard_label.merge_add database_label.merge_add
  tablegroup_label.merge_add pool_label.merge_add zone_label.merge_add region_label.merge_add

lemma map_le_upd: "f \<subseteq>\<^sub>m g \<Longrightarrow> g k = Some v \<Longrightarrow> f(k \<mapsto> v) \<subseteq>\<^sub>m g"
  by (simp add: map_le_def)

lemma select_upd:
  "GetSelectorLabels (ls(k \<mapsto> v)) =
     (if k \<in> set selectorLabelsAllowList then (GetSelectorLabels ls)(k \<mapsto> v) else GetSelectorLabels ls)"
  by (auto simp: GetSelectorLabels_def)

lemma select_empty: "GetSelectorLabels Map.empty = Map.empty"
  by (simp add: GetSelectorLabels_def)

lemma pool_label_values:
  fixes shd poolName cellName defines "ls \<equiv> buildPoolLabelsWithCell shd poolName cellName"
  shows "ls LabelAppComponent = Some PoolComponentName"
    and "ls LabelAppInstance = Some (str_at (s_labels shd) LabelMultigresCluster)"
    and "ls LabelMultigresShard = Some (s_shard_name shd)"
    and "ls LabelMultigresDatabase = Some (s_database_name shd)"
    and "ls LabelMultigresTableGroup = Some (s_table_group_name shd)"
    and "ls LabelMultigresCell = Some cellName"
    and "ls LabelMultigresPool = Some poolName"
    and "ls LabelMultigresCluster = s_labels shd LabelMultigresCluster"
  unfolding ls_def buildPoolLabelsWithCell_def Let_def label_merges label_looks
  by (simp_all add: MergeLabels_def BuildStandardLabels_def)

lemma GetSelectorLabels_idem [simp]: "GetSelectorLabels (GetSelectorLabels ls) = GetSelectorLabels ls"
  by (auto simp: GetSelectorLabels_def)

subsection \<open>Sample objects\<close>

text \<open>Concrete objects, and a server that stores what it is sent, on which witnesses evaluate.\<close>

definition sample_pod :: pod where
  "sample_pod =
     \<lparr>p_name = ''c-pool-main-z1-0'', p_namespace = ''ns'', p_uid = ''u1'',
      p_labels = [LabelMultigresPool \<mapsto> ''main'', LabelMultigresCell \<mapsto> ''z1''],
      p_annotations = Map.empty, p_deletion = None, p_creation = 0, p_node = ''n1'',
      p_containers = [], p_volumes = [], p_phase = PodRunning, p_conditions = [],
      p_cstatuses = [], p_init_cstatuses = []\<rparr>"

definition sample_resources :: resources where
  "sample_resources = \<lparr>r_requests = None, r_limits = None, r_claims = None\<rparr>"

definition sample_config :: container_config where
  "sample_config = \<lparr>cc_resources = sample_resources, cc_run_as_user = None, cc_run_as_group = None\<rparr>"

definition sample_pool :: pool_spec where
  "sample_pool =
     \<lparr>ps_type = ''readWrite'', ps_cells = [''z1''], ps_replicas_per_cell = Some 3,
      ps_storage = \<lparr>st_size = ''1Gi'', st_class = [], st_access_modes = []\<rparr>,
      ps_postgres = sample_config, ps_multipooler = sample_config, ps_affinity = None,
      ps_tolerations = [], ps_fs_group = None, ps_pvc_deletion_policy = None\<rparr>"

definition sample_shard :: shard where
  "sample_shard =
     \<lparr>s_name = ''c-db-tg-0'', s_namespace = ''ns'', s_uid = ''s1'', s_generation = 1,
      s_labels = [LabelMultigresCluster \<mapsto> ''c''], s_database_name = ''db'',
      s_table_group_name = ''tg'', s_shard_name = ''0'', s_topo_address = ''etcd'',
      s_topo_root = ''/mg'', s_pools = [(''main'', sample_pool)], s_pvc_deletion_policy = None, s_backup = None,
      s_topology_pruning = None, s_durability_policy = ''AT_LEAST_2'', s_replicas = None,
      s_conditions = [], s_pod_roles = [], s_pod_postures = [], s_last_backup_time = None,
      s_last_backup_type = []\<rparr>"

definition echo_kube :: kube where
  "echo_kube =
     \<lparr>k_list_pods = (\<lambda>h c. Inr []), k_list_pvcs = (\<lambda>h c. Inr []), k_get_pvc = (\<lambda>h c. Inl NotFound),
      k_get_class = (\<lambda>h c. Inl NotFound),
      k_patch_pod = (\<lambda>h c. case c of PatchPod p q \<Rightarrow> Inr q | _ \<Rightarrow> Inl Conflict),
      k_patch_pvc = (\<lambda>h c. case c of PatchPvc b p q \<Rightarrow> Inr q | _ \<Rightarrow> Inl Conflict),
      k_list_objects = (\<lambda>h c. Inr []), k_get_object = (\<lambda>h c. Inl NotFound),
      k_write = (\<lambda>h c. None)\<rparr>"

lemmas sample_defs =
  sample_pod_def sample_resources_def sample_config_def sample_pool_def sample_shard_def

end
