(* ===== verification/Name_Hash.thy ===== *)
theory Name_Hash
  imports Kube_Model "HOL-Library.Word"
begin

text \<open>
  Names of Kubernetes objects: \<^verbatim>\<open>src/pkg/util/name/name.go\<close> and the builders that call it. A name is the
  transformed parts joined by dashes, cut to the length the object kind allows, followed by the
  32-bit FNV-1a hash of the original parts in hexadecimal.

  A panic of \<^verbatim>\<open>JoinWithConstraints\<close> is \<^const>\<open>None\<close>. Strings are byte sequences, so \<^verbatim>\<open>strings.Map\<close> first decodes
  UTF-8; \<^verbatim>\<open>rune_width\<close> is the number of bytes the decoder consumes, 1 for an invalid byte.
\<close>

unbundle bit_operations_syntax

subsection \<open>FNV-1a, 32 bit\<close>

definition fnv_byte :: "32 word \<Rightarrow> char \<Rightarrow> 32 word" where
  "fnv_byte h c = (h XOR of_nat (of_char c)) * 16777619"

definition fnv_write :: "32 word \<Rightarrow> string \<Rightarrow> 32 word" where
  "fnv_write h s = foldl fnv_byte h s"

definition hex_digit :: "nat \<Rightarrow> char" where
  "hex_digit d = (if d < 10 then char_of (48 + d) else char_of (87 + d))"

text \<open>\<^verbatim>\<open>Sum\<close> appends the four bytes, the most significant first, and \<^verbatim>\<open>hex.EncodeToString\<close> writes two
  lower-case digits for each.\<close>

definition hex32 :: "32 word \<Rightarrow> string" where
  "hex32 w = map (\<lambda>i. hex_digit (unat (drop_bit (4 * i) w AND 15))) [7, 6, 5, 4, 3, 2, 1, 0]"

fun hash_parts :: "32 word \<Rightarrow> string list \<Rightarrow> 32 word" where
  "hash_parts h [] = h"
| "hash_parts h (part # parts) = hash_parts (fnv_write (fnv_write h part) [CHR 0x00]) parts"

definition Hash :: "string list \<Rightarrow> string" where
  "Hash parts = hex32 (hash_parts 2166136261 parts)"

subsection \<open>Runes\<close>

definition in_range :: "nat \<Rightarrow> nat \<Rightarrow> char \<Rightarrow> bool" where
  "in_range lo hi c \<longleftrightarrow> lo \<le> of_char c \<and> (of_char c :: nat) \<le> hi"

text \<open>The bytes of the rune at the start of a non-empty string, as \<^verbatim>\<open>utf8.DecodeRune\<close> counts them.\<close>

fun rune_width :: "string \<Rightarrow> nat" where
  "rune_width (a # b # s) =
     (if in_range 0xC2 0xDF a \<and> in_range 0x80 0xBF b then 2
      else if in_range 0xE0 0xEF a
           \<and> (if in_range 0xE0 0xE0 a then in_range 0xA0 0xBF b
               else if in_range 0xED 0xED a then in_range 0x80 0x9F b
               else in_range 0x80 0xBF b)
           \<and> (case s of c # _ \<Rightarrow> in_range 0x80 0xBF c | [] \<Rightarrow> False) then 3
      else if in_range 0xF0 0xF4 a
           \<and> (if in_range 0xF0 0xF0 a then in_range 0x90 0xBF b
               else if in_range 0xF4 0xF4 a then in_range 0x80 0x8F b
               else in_range 0x80 0xBF b)
           \<and> (case s of c # d # _ \<Rightarrow> in_range 0x80 0xBF c \<and> in_range 0x80 0xBF d | _ \<Rightarrow> False) then 4
      else 1)"
| "rune_width _ = 1"

definition isLowercaseLetter :: "char \<Rightarrow> bool" where
  "isLowercaseLetter r \<longleftrightarrow> CHR ''a'' \<le> r \<and> r \<le> CHR ''z''"

definition isUppercaseLetter :: "char \<Rightarrow> bool" where
  "isUppercaseLetter r \<longleftrightarrow> CHR ''A'' \<le> r \<and> r \<le> CHR ''Z''"

definition isDigit :: "char \<Rightarrow> bool" where
  "isDigit r \<longleftrightarrow> CHR ''0'' \<le> r \<and> r \<le> CHR ''9''"

definition isLowercaseAlphanumeric :: "char \<Rightarrow> bool" where
  "isLowercaseAlphanumeric r \<longleftrightarrow> isLowercaseLetter r \<or> isDigit r"

text \<open>
  The transformation on a rune of width 1. A rune of more bytes is neither a letter nor a digit of
  ASCII, so it becomes a dash.
\<close>

definition transform :: "char \<Rightarrow> char" where
  "transform r =
     (if isLowercaseAlphanumeric r \<or> r = CHR ''-'' then r
      else if isUppercaseLetter r then char_of ((of_char r :: nat) + 32)
      else CHR ''-'')"

function map_transform :: "string \<Rightarrow> string" where
  "map_transform [] = []"
| "map_transform (c # s) =
     (let w = rune_width (c # s)
      in (if w = 1 then transform c else CHR ''-'') # map_transform (drop w (c # s)))"
  by pat_completeness auto

lemma rune_width_pos: "0 < rune_width s"
  by (induction s rule: rune_width.induct) auto

termination map_transform
proof (relation "measure length")
  fix x c s
  assume "x = rune_width (c # s)"
  then show "(drop x (c # s), c # s) \<in> measure length"
    using rune_width_pos [of "c # s"] by auto
qed simp

subsection \<open>Names under constraints\<close>

record Constraints =
  MaxLength :: int
  ValidFirstChar :: "char \<Rightarrow> bool"

definition DefaultConstraints :: Constraints where
  "DefaultConstraints = \<lparr>MaxLength = 253, ValidFirstChar = isLowercaseAlphanumeric\<rparr>"

definition ServiceConstraints :: Constraints where
  "ServiceConstraints = \<lparr>MaxLength = 63, ValidFirstChar = isLowercaseLetter\<rparr>"

definition StatefulSetConstraints :: Constraints where
  "StatefulSetConstraints = \<lparr>MaxLength = 52, ValidFirstChar = isLowercaseLetter\<rparr>"

definition PodConstraints :: Constraints where
  "PodConstraints = \<lparr>MaxLength = 60, ValidFirstChar = isLowercaseLetter\<rparr>"

abbreviation truncationMark :: string where
  "truncationMark \<equiv> ''---''"

abbreviation minTruncatedLength :: int where
  "minTruncatedLength \<equiv> 12"

definition prefix_first :: "Constraints \<Rightarrow> string list \<Rightarrow> string list" where
  "prefix_first cons newParts =
     (case newParts of
        [] \<Rightarrow> []
      | firstPart # rest \<Rightarrow>
          (if firstPart = [] \<or> \<not> ValidFirstChar cons (hd firstPart)
           then (CHR ''x'' # firstPart) # rest else newParts))"

definition JoinWithConstraints :: "Constraints \<Rightarrow> string list \<Rightarrow> string option" where
  "JoinWithConstraints cons parts =
     (if MaxLength cons < minTruncatedLength then None
      else if parts = [] then Some []
      else
        let hash = Hash parts;
            newParts = prefix_first cons (map map_transform parts);
            partialResult = join ''-'' newParts;
            predictedLength = int (length partialResult) + 1 + int (length hash)
        in if predictedLength \<le> MaxLength cons then Some (partialResult @ ''-'' @ hash)
           else
             let cutLength = predictedLength - MaxLength cons + 2
             in if cutLength \<le> int (length partialResult)
                then Some (take (nat (int (length partialResult) - cutLength)) partialResult
                           @ truncationMark @ hash)
                else None)"

subsection \<open>Builders of object names\<close>

text \<open>
  The builders use the four constraint sets above, for which \<^const>\<open>JoinWithConstraints\<close> never panics
  (\<^verbatim>\<open>JoinWithConstraints_defined\<close> below); \<^verbatim>\<open>joined\<close> is the value.
\<close>

definition joined :: "Constraints \<Rightarrow> string list \<Rightarrow> string" where
  "joined cons parts = (case JoinWithConstraints cons parts of Some s \<Rightarrow> s | None \<Rightarrow> [])"

definition shard_parts :: "shard \<Rightarrow> string list" where
  "shard_parts shd =
     [str_at (s_labels shd) LabelMultigresCluster, s_database_name shd, s_table_group_name shd,
      s_shard_name shd]"

definition BuildPoolPodName :: "shard \<Rightarrow> string \<Rightarrow> string \<Rightarrow> int \<Rightarrow> string" where
  "BuildPoolPodName shd poolName cellName index =
     joined PodConstraints (shard_parts shd @ [''pool'', poolName, cellName]) @ ''-'' @ itoa index"

definition poolDataPVCNamePrefix :: "shard \<Rightarrow> string \<Rightarrow> string \<Rightarrow> string" where
  "poolDataPVCNamePrefix shd poolName cellName =
     ''data-'' @ joined PodConstraints (shard_parts shd @ [''pool'', poolName, cellName]) @ ''-''"

definition BuildPoolDataPVCName :: "shard \<Rightarrow> string \<Rightarrow> string \<Rightarrow> int \<Rightarrow> string" where
  "BuildPoolDataPVCName shd poolName cellName index =
     poolDataPVCNamePrefix shd poolName cellName @ itoa index"

definition BuildSharedBackupPVCName :: "shard \<Rightarrow> string" where
  "BuildSharedBackupPVCName shd = joined ServiceConstraints (''backup-data'' # shard_parts shd)"

definition legacyCellBackupPVCName :: "shard \<Rightarrow> string \<Rightarrow> string" where
  "legacyCellBackupPVCName shd cellName =
     joined ServiceConstraints (''backup-data'' # shard_parts shd @ [cellName])"

definition buildHeadlessServiceName :: "shard \<Rightarrow> string \<Rightarrow> string \<Rightarrow> string" where
  "buildHeadlessServiceName shd poolName cellName =
     joined ServiceConstraints (shard_parts shd @ [''pool'', poolName, cellName, ''headless''])"

definition buildPoolHeadlessServiceName :: "shard \<Rightarrow> string \<Rightarrow> string \<Rightarrow> string" where
  "buildPoolHeadlessServiceName shd poolName cellName =
     joined ServiceConstraints (shard_parts shd @ [''pool'', poolName, cellName, ''headless''])"

definition buildMultiorchNameWithCell :: "shard \<Rightarrow> string \<Rightarrow> Constraints \<Rightarrow> string" where
  "buildMultiorchNameWithCell shd cellName constraints =
     joined constraints (shard_parts shd @ [''multiorch'', cellName])"

definition ManagedLocalTopoServerName :: "string \<Rightarrow> string" where
  "ManagedLocalTopoServerName cellResourceName =
     joined StatefulSetConstraints [cellResourceName, ''topo'']"

definition ManagedLocalTopoServerAddress :: "string \<Rightarrow> string \<Rightarrow> string" where
  "ManagedLocalTopoServerAddress cellResourceName namespace =
     ManagedLocalTopoServerName cellResourceName @ ''.'' @ namespace @ ''.svc:2379''"

definition TableGroupName :: "string \<Rightarrow> string \<Rightarrow> string \<Rightarrow> string" where
  "TableGroupName clusterName db tg = joined DefaultConstraints [clusterName, db, tg]"

definition isShardBuiltPVC :: "shard \<Rightarrow> pvc \<Rightarrow> bool" where
  "isShardBuiltPVC shd v =
     (let poolName = str_at (v_labels v) LabelMultigresPool;
          cellName = str_at (v_labels v) LabelMultigresCell
      in if poolName = [] then
           (if v_name v = BuildSharedBackupPVCName shd then True
            else cellName \<noteq> [] \<and> v_name v = legacyCellBackupPVCName shd cellName)
         else if cellName = [] then False
         else (case cut_prefix (v_name v) (poolDataPVCNamePrefix shd poolName cellName) of
                 None \<Rightarrow> False
               | Some sfx \<Rightarrow>
                   (case atoi sfx of
                      None \<Rightarrow> False
                    | Some index \<Rightarrow> 0 \<le> index \<and> itoa index = sfx)))"

text \<open>The index after the last dash; the pair of a value and a flag is an option.\<close>

definition resolvePodIndex :: "string \<Rightarrow> int option" where
  "resolvePodIndex podName =
     (case after_last (CHR ''-'') podName of
        None \<Rightarrow> None
      | Some sfx \<Rightarrow> atoi sfx)"

subsection \<open>The shape of a name\<close>

definition name_char :: "char \<Rightarrow> bool" where
  "name_char c \<longleftrightarrow> isLowercaseAlphanumeric c \<or> c = CHR ''-''"

lemmas char_class_defs =
  isLowercaseLetter_def isUppercaseLetter_def isDigit_def isLowercaseAlphanumeric_def

lemma transform_name_char [simp]: "name_char (transform c)"
proof (cases "isUppercaseLetter c")
  case True
  then have "(65::nat) \<le> of_char c" and "(of_char c :: nat) \<le> 90"
    by (auto simp: isUppercaseLetter_def less_eq_char_def)
  then show ?thesis
    by (auto simp: name_char_def transform_def char_class_defs less_eq_char_def of_char_of)
qed (auto simp: name_char_def transform_def)

lemma name_char_dash [simp]: "name_char (CHR ''-'')"
  by (simp add: name_char_def)

lemma map_transform_chars: "list_all name_char (map_transform s)"
  by (induction s rule: map_transform.induct) (auto simp: Let_def)

lemma hex_digit_char: "d < 16 \<Longrightarrow> isLowercaseAlphanumeric (hex_digit d)"
  by (auto simp: hex_digit_def char_class_defs less_eq_char_def of_char_of)

lemma nibble_less: "unat (w AND (15 :: 32 word)) < 16"
proof -
  have "w AND (15 :: 32 word) \<le> 15" by (rule word_and_le1)
  then show ?thesis by (simp add: word_le_nat_alt)
qed

lemma Hash_chars: "list_all isLowercaseAlphanumeric (Hash parts)"
  by (simp add: Hash_def hex32_def hex_digit_char nibble_less)

lemma length_Hash [simp]: "length (Hash parts) = 8"
  by (simp add: Hash_def hex32_def)

lemma join_chars:
  "(\<forall>s\<in>set ss. list_all name_char s) \<Longrightarrow> list_all name_char (join ''-'' ss)"
  using set_join_subset [of "''-''" ss] by (fastforce simp: list_all_iff name_char_def)

lemma prefix_first_chars:
  "(\<forall>s\<in>set ss. list_all name_char s) \<Longrightarrow> (\<forall>s\<in>set (prefix_first cons ss). list_all name_char s)"
  by (cases ss)
    (auto simp: prefix_first_def name_char_def char_class_defs less_eq_char_def)

lemma hd_join_prefix_first:
  assumes "ValidFirstChar cons (CHR ''x'')" and "ss \<noteq> []"
  shows "join ''-'' (prefix_first cons ss) \<noteq> []
         \<and> ValidFirstChar cons (hd (join ''-'' (prefix_first cons ss)))"
proof -
  obtain f rest where ss: "ss = f # rest" using assms(2) by (cases ss) auto
  define g where "g = (if f = [] \<or> \<not> ValidFirstChar cons (hd f) then CHR ''x'' # f else f)"
  have pf: "prefix_first cons ss = g # rest"
    by (simp add: ss prefix_first_def g_def)
  have g: "g \<noteq> []" "ValidFirstChar cons (hd g)"
    using assms(1) by (auto simp: g_def)
  show ?thesis
    using g unfolding pf by (cases rest) auto
qed

lemma join_result:
  fixes cons :: Constraints
  assumes m: "12 \<le> MaxLength cons" and p: "parts \<noteq> []"
  defines "pr \<equiv> join ''-'' (prefix_first cons (map map_transform parts))"
  shows "\<exists>keep mark. JoinWithConstraints cons parts = Some (take keep pr @ mark @ Hash parts)
           \<and> mark \<in> {''-'', ''---''} \<and> int (keep + length mark) + 8 \<le> MaxLength cons
           \<and> (0 < keep \<or> pr = [])"
proof (cases "int (length pr) + 9 \<le> MaxLength cons")
  case True
  with m p show ?thesis
    by (intro exI [of _ "length pr"] exI [of _ "''-''"])
      (simp add: JoinWithConstraints_def Let_def pr_def)
next
  case False
  define cut where "cut = int (length pr) + 9 - MaxLength cons + 2"
  have "cut \<le> int (length pr)" and keep: "int (length pr) - cut = MaxLength cons - 11"
    using m by (auto simp: cut_def)
  with False m p show ?thesis
    by (intro exI [of _ "nat (MaxLength cons - 11)"] exI [of _ "''---''"])
      (auto simp: JoinWithConstraints_def Let_def pr_def [symmetric] cut_def)
qed

lemma JoinWithConstraints_defined:
  "12 \<le> MaxLength cons \<Longrightarrow> \<exists>s. JoinWithConstraints cons parts = Some s"
  using join_result [of cons parts] by (cases "parts = []") (auto simp: JoinWithConstraints_def)

lemma JoinWithConstraints_shape:
  assumes m: "12 \<le> MaxLength cons" and p: "parts \<noteq> []"
    and v: "ValidFirstChar cons (CHR ''x'')"
  shows "\<exists>s. JoinWithConstraints cons parts = Some s
           \<and> int (length s) \<le> MaxLength cons \<and> list_all name_char s
           \<and> s \<noteq> [] \<and> ValidFirstChar cons (hd s) \<and> isLowercaseAlphanumeric (last s)"
proof -
  define pr where "pr = join ''-'' (prefix_first cons (map map_transform parts))"
  have pr: "pr \<noteq> []" "ValidFirstChar cons (hd pr)" "list_all name_char pr"
    using hd_join_prefix_first [OF v, of "map map_transform parts"] p
      join_chars [OF prefix_first_chars, of "map map_transform parts" cons] map_transform_chars
    by (simp_all add: pr_def)
  obtain keep mark where
      r: "JoinWithConstraints cons parts = Some (take keep pr @ mark @ Hash parts)"
    and mark: "mark \<in> {''-'', ''---''}"
    and len: "int (keep + length mark) + 8 \<le> MaxLength cons" and keep: "0 < keep"
    using join_result [OF m p] pr(1) unfolding pr_def by blast
  have h: "Hash parts \<noteq> []" "list_all isLowercaseAlphanumeric (Hash parts)"
    using length_Hash [of parts] Hash_chars [of parts] by (auto simp del: length_Hash)
  have "list_all name_char (take keep pr)"
    using pr(3) by (auto simp: list_all_iff dest: in_set_takeD)
  moreover have "hd (take keep pr @ mark @ Hash parts) = hd pr" "take keep pr \<noteq> []"
    using keep pr(1) by (auto simp: hd_take)
  moreover have "isLowercaseAlphanumeric (last (Hash parts))"
    using h by (metis last_in_set list_all_iff)
  ultimately show ?thesis
    using r mark len h pr(2) by (auto simp: list_all_iff name_char_def)
qed

lemma builder_constraints [simp]:
  "MaxLength DefaultConstraints = 253" "MaxLength ServiceConstraints = 63"
  "MaxLength StatefulSetConstraints = 52" "MaxLength PodConstraints = 60"
  "ValidFirstChar ServiceConstraints = isLowercaseLetter"
  "ValidFirstChar StatefulSetConstraints = isLowercaseLetter"
  "ValidFirstChar PodConstraints = isLowercaseLetter"
  "ValidFirstChar DefaultConstraints = isLowercaseAlphanumeric"
  "isLowercaseLetter (CHR ''x'')" "isLowercaseAlphanumeric (CHR ''x'')"
  by (simp_all add: DefaultConstraints_def ServiceConstraints_def StatefulSetConstraints_def
      PodConstraints_def char_class_defs less_eq_char_def)

lemma joined_shape:
  assumes "12 \<le> MaxLength cons" "parts \<noteq> []" "ValidFirstChar cons (CHR ''x'')"
  shows "int (length (joined cons parts)) \<le> MaxLength cons \<and> list_all name_char (joined cons parts)
         \<and> joined cons parts \<noteq> [] \<and> ValidFirstChar cons (hd (joined cons parts))"
  using JoinWithConstraints_shape [OF assms] by (auto simp: joined_def)

lemma join_same_state:
  "Hash (a # parts) = Hash (b # parts) \<Longrightarrow> map_transform a = map_transform b \<Longrightarrow>
   JoinWithConstraints cons (a # parts) = JoinWithConstraints cons (b # parts)"
  by (simp add: JoinWithConstraints_def)

lemma hash_same_state:
  "fnv_write 2166136261 a = fnv_write 2166136261 b \<Longrightarrow> Hash (a # parts) = Hash (b # parts)"
  by (simp add: Hash_def)

lemma itoa_utoa: "0 \<le> i \<Longrightarrow> itoa i = utoa (nat i)"
  by (simp add: itoa_def)

lemma itoa_chars: "0 \<le> i \<Longrightarrow> list_all is_digit (itoa i) \<and> itoa i \<noteq> []"
  by (simp add: itoa_utoa)

lemma is_digit_name_char: "is_digit c \<Longrightarrow> isLowercaseAlphanumeric c"
  by (simp add: is_digit_def char_class_defs)

subsection \<open>Properties\<close>

text \<open>
  C38: for constraints that admit at least 12 characters and the filler letter x,
  \<^const>\<open>JoinWithConstraints\<close> of at least one part does not panic, and its result fits the maximum length,
  consists of lower-case letters, digits and dashes, starts with a valid first character and ends
  with a letter or digit.
\<close>

theorem JoinWithConstraints_valid:
  assumes "12 \<le> MaxLength cons" and "parts \<noteq> []" and "ValidFirstChar cons (CHR ''x'')"
  shows "\<exists>s. JoinWithConstraints cons parts = Some s \<and> s \<noteq> []
           \<and> int (length s) \<le> MaxLength cons
           \<and> (\<forall>c\<in>set s. isLowercaseAlphanumeric c \<or> c = CHR ''-'')
           \<and> ValidFirstChar cons (hd s) \<and> isLowercaseAlphanumeric (last s)"
  using JoinWithConstraints_shape [OF assms] by (auto simp: list_all_iff name_char_def)

theorem JoinWithConstraints_valid_witness:
  "\<exists>s. JoinWithConstraints PodConstraints [''Prod_DB'', ''0''] = Some s
      \<and> int (length s) \<le> 60 \<and> isLowercaseLetter (hd s)"
  using JoinWithConstraints_valid [of PodConstraints "[''Prod_DB'', ''0'']"] by auto

text \<open>
  a pod name of replica index 0 to 99 is a DNS label of at most 63 characters that starts with a
  letter, and the index can be read back from it. So two replicas of one pool and cell never share a
  name, nor a data claim.
\<close>

theorem BuildPoolPodName_roundtrip:
  assumes "0 \<le> index" and "index \<le> 99"
  shows "resolvePodIndex (BuildPoolPodName shd poolName cellName index) = Some index
         \<and> length (BuildPoolPodName shd poolName cellName index) \<le> 63
         \<and> isLowercaseLetter (hd (BuildPoolPodName shd poolName cellName index))
         \<and> (\<forall>c\<in>set (BuildPoolPodName shd poolName cellName index).
               isLowercaseAlphanumeric c \<or> c = CHR ''-'')"
proof -
  define base where "base = joined PodConstraints (shard_parts shd @ [''pool'', poolName, cellName])"
  have base: "length base \<le> 60" "list_all name_char base" "base \<noteq> []" "isLowercaseLetter (hd base)"
    using joined_shape [of PodConstraints "shard_parts shd @ [''pool'', poolName, cellName]"]
    by (auto simp: base_def)
  have idx: "CHR ''-'' \<notin> set (itoa index)" "length (itoa index) \<le> 2"
    using assms utoa_length [of 2 "nat index"] by (simp_all add: itoa_utoa)
  have "atoi (itoa index) = Some index" using assms by simp
  have "list_all isLowercaseAlphanumeric (itoa index)"
    using itoa_chars [of index] assms is_digit_name_char by (auto simp: list_all_iff)
  with base idx \<open>atoi (itoa index) = Some index\<close> show ?thesis
    by (auto simp: BuildPoolPodName_def base_def [symmetric] resolvePodIndex_def
        after_last_append list_all_iff name_char_def)
qed

theorem BuildPoolPodName_roundtrip_witness:
  "\<forall>shd. resolvePodIndex (BuildPoolPodName shd ''main'' ''zone-1'' 12) = Some 12"
  using BuildPoolPodName_roundtrip [of 12 _ "''main''" "''zone-1''"] by simp

text \<open>
  the name check on a claim accepts every data claim the builder makes for the pool and cell on
  the claim's labels, and nothing but such a claim, among the claims with both labels.
\<close>

theorem isShardBuiltPVC_pool:
  assumes "str_at (v_labels v) LabelMultigresPool = poolName" and "poolName \<noteq> []"
    and "str_at (v_labels v) LabelMultigresCell = cellName" and "cellName \<noteq> []"
  shows "isShardBuiltPVC shd v \<longleftrightarrow>
    (\<exists>index. 0 \<le> index \<and> index < 2 ^ 63 \<and> v_name v = BuildPoolDataPVCName shd poolName cellName index)"
proof
  assume "isShardBuiltPVC shd v"
  then obtain sfx index where "v_name v = poolDataPVCNamePrefix shd poolName cellName @ sfx"
      and a: "atoi sfx = Some index" "0 \<le> index" "itoa index = sfx"
    using assms by (auto simp: isShardBuiltPVC_def cut_prefix_eq_Some split: option.splits)
  moreover have "index < 2 ^ 63"
    using a(1) by (auto simp: atoi_def Let_def split: if_splits)
  ultimately show "\<exists>index. 0 \<le> index \<and> index < 2 ^ 63
      \<and> v_name v = BuildPoolDataPVCName shd poolName cellName index"
    by (auto simp: BuildPoolDataPVCName_def)
next
  assume "\<exists>index. 0 \<le> index \<and> index < 2 ^ 63
    \<and> v_name v = BuildPoolDataPVCName shd poolName cellName index"
  then show "isShardBuiltPVC shd v"
    using assms by (auto simp: isShardBuiltPVC_def BuildPoolDataPVCName_def)
qed

theorem isShardBuiltPVC_pool_witness:
  "\<forall>shd. isShardBuiltPVC shd
     \<lparr>v_name = BuildPoolDataPVCName shd ''main'' ''zone-1'' 3, v_namespace = ''ns'',
      v_resource_version = ''1'',
      v_labels = [LabelMultigresPool \<mapsto> ''main'', LabelMultigresCell \<mapsto> ''zone-1''],
      v_owners = [], v_deletion = None, v_request = None, v_bound = True, v_class = None, v_modes = [], v_conditions = []\<rparr>"
proof
  fix shd
  let ?v = "\<lparr>v_name = BuildPoolDataPVCName shd ''main'' ''zone-1'' 3, v_namespace = ''ns'',
      v_resource_version = ''1'',
      v_labels = [LabelMultigresPool \<mapsto> ''main'', LabelMultigresCell \<mapsto> ''zone-1''],
      v_owners = [], v_deletion = None, v_request = None, v_bound = True, v_class = None, v_modes = [], v_conditions = []\<rparr>"
  have "isShardBuiltPVC shd ?v \<longleftrightarrow>
      (\<exists>index. 0 \<le> index \<and> index < 2 ^ 63
         \<and> v_name ?v = BuildPoolDataPVCName shd ''main'' ''zone-1'' index)"
    by (rule isShardBuiltPVC_pool) (simp_all add: str_at_def)
  then show "isShardBuiltPVC shd ?v"
    by (auto intro: exI [of _ 3])
qed

text \<open>
  the hash has 32 bits, so a name does not determine its parts, contrary to the comment on
  \<^const>\<open>JoinWithConstraints\<close>. The two names below are legal cluster names of 19 characters that
  differ only in dots and dashes and leave FNV-1a in the same state; therefore every name built from
  one of them as first part equals the name built from the other, whatever the remaining parts.
\<close>

theorem JoinWithConstraints_collision:
  "''q.g.d-q-g-p-y.o.o-m'' \<noteq> ''q-g.d-q-g.p.y.o.o.m''
   \<and> JoinWithConstraints cons (''q.g.d-q-g-p-y.o.o-m'' # parts)
       = JoinWithConstraints cons (''q-g.d-q-g.p.y.o.o.m'' # parts)"
proof -
  have "fnv_write 2166136261 ''q.g.d-q-g-p-y.o.o-m'' = fnv_write 2166136261 ''q-g.d-q-g.p.y.o.o.m''"
    by (simp add: fnv_write_def fnv_byte_def)
  then have "Hash (''q.g.d-q-g-p-y.o.o-m'' # parts) = Hash (''q-g.d-q-g.p.y.o.o.m'' # parts)"
    by (rule hash_same_state)
  moreover have "''q.g.d-q-g-p-y.o.o-m'' \<noteq> ''q-g.d-q-g.p.y.o.o.m''"
    by simp
  moreover have "map_transform ''q.g.d-q-g-p-y.o.o-m'' = map_transform ''q-g.d-q-g.p.y.o.o.m''"
    by code_simp
  ultimately show ?thesis
    using join_same_state [of "''q.g.d-q-g-p-y.o.o-m''" parts "''q-g.d-q-g.p.y.o.o.m''" cons]
    by blast
qed

end
