(* ===== verification/Drain_Machine.thy ===== *)
theory Drain_Machine
  imports Name_Hash "HOL-Library.Monad_Syntax"
begin

text \<open>
  The drain state machine that takes a pod out of service: \<^verbatim>\<open>src/pkg/data-handler/drain/drain.go\<close>, the
  helpers of \<^verbatim>\<open>shard/drain_helpers.go\<close> and the loop \<^verbatim>\<open>reconcileDrainState\<close> with its staleness test of
  \<^verbatim>\<open>shard/reconcile_data_plane.go\<close>.

  The state of a drain is an annotation on the pod, so it survives restarts of the operator and is
  written by merge patches that may fail. A Go function that changes the pod it is given returns the
  changed pod beside its result. The current time, \<^verbatim>\<open>time.Parse\<close> for RFC 3339 and \<^verbatim>\<open>time.Format\<close> are
  arguments; so is \<^verbatim>\<open>desiredHash\<close>, the spec hash of the pod \<^verbatim>\<open>BuildPoolPod\<close> makes (\<^const>\<open>None\<close> when it
  returns an error).
\<close>

type_synonym pod_hash = "shard \<Rightarrow> string \<Rightarrow> string \<Rightarrow> pool_spec \<Rightarrow> int \<Rightarrow> string option"

abbreviation drain_state :: "pod \<Rightarrow> string" where
  "drain_state p \<equiv> str_at (p_annotations p) AnnotationDrainState"

definition DrainTimeout :: duration where
  "DrainTimeout = 5 * minute"

definition DefaultPoolReplicas :: int where
  "DefaultPoolReplicas = 1"

subsection \<open>Operations\<close>

definition set_drain_state :: "string \<Rightarrow> pod \<Rightarrow> pod" where
  "set_drain_state newState p =
     p\<lparr>p_annotations := (p_annotations p)(AnnotationDrainState \<mapsto> newState)\<rparr>"

text \<open>After a successful patch the client overwrites the object with the server's answer.\<close>

definition UpdateDrainState :: "kube \<Rightarrow> pod \<Rightarrow> string \<Rightarrow> (pod \<times> (api_error + bool)) kio" where
  "UpdateDrainState k p newState = do {
     let p' = set_drain_state newState p;
     r \<leftarrow> ask (k_patch_pod k) (PatchPod p p');
     case r of
       Inl err \<Rightarrow> State_Monad.return (p', Inl err)
     | Inr p'' \<Rightarrow> State_Monad.return (p'', Inr True)
   }"

definition drain_start :: "(string \<Rightarrow> gotime option) \<Rightarrow> gotime \<Rightarrow> pod \<Rightarrow> gotime" where
  "drain_start parseTime now p =
     (let reqAtStr = str_at (p_annotations p) AnnotationDrainRequestedAt;
          drainStart = (if reqAtStr \<noteq> []
                        then (case parseTime reqAtStr of Some reqAt \<Rightarrow> reqAt | None \<Rightarrow> now)
                        else 0)
      in if is_zero_time drainStart \<and> \<not> is_zero_ptr (p_deletion p)
         then the (p_deletion p) else drainStart)"

definition ExecuteDrainStateMachine ::
  "kube \<Rightarrow> (string \<Rightarrow> gotime option) \<Rightarrow> gotime \<Rightarrow> bool \<Rightarrow> pod \<Rightarrow> (pod \<times> (api_error + bool)) kio" where
  "ExecuteDrainStateMachine k parseTime now recorder p =
     (let state = drain_state p;
          drainStart = drain_start parseTime now p
      in if state = [] \<or> state = DrainStateReadyForDeletion
         then State_Monad.return (p, Inr False)
         else if \<not> is_zero_time drainStart \<and> DrainTimeout < now - drainStart
         then UpdateDrainState k p DrainStateReadyForDeletion
         else if state = DrainStateRequested then UpdateDrainState k p DrainStateDraining
         else if state = DrainStateDraining then UpdateDrainState k p DrainStateAcknowledged
         else if state = DrainStateAcknowledged
         then do {
           (if recorder then emit (EmitEvent ''Normal'' ''DrainCompleted'' (p_name p))
            else State_Monad.return ());
           UpdateDrainState k p DrainStateReadyForDeletion
         }
         else State_Monad.return (p, Inr False))"

text \<open>\<^verbatim>\<open>clearDrainAnnotations\<close> and \<^verbatim>\<open>initiateDrain\<close> of \<^verbatim>\<open>drain_helpers.go\<close>.\<close>

definition cleared :: "pod \<Rightarrow> pod" where
  "cleared p =
     p\<lparr>p_annotations := (p_annotations p)(AnnotationDrainState := None,
                                           AnnotationDrainRequestedAt := None)\<rparr>"

definition clearDrainAnnotations :: "kube \<Rightarrow> pod \<Rightarrow> (pod \<times> api_error option) kio" where
  "clearDrainAnnotations k p = do {
     r \<leftarrow> ask (k_patch_pod k) (PatchPod p (cleared p));
     case r of
       Inl err \<Rightarrow> State_Monad.return (cleared p, Some err)
     | Inr p' \<Rightarrow> State_Monad.return (p', None)
   }"

definition requested :: "string \<Rightarrow> pod \<Rightarrow> pod" where
  "requested stamp p =
     p\<lparr>p_annotations := (p_annotations p)(AnnotationDrainState \<mapsto> DrainStateRequested,
                                           AnnotationDrainRequestedAt \<mapsto> stamp)\<rparr>"

definition initiateDrain ::
  "kube \<Rightarrow> (gotime \<Rightarrow> string) \<Rightarrow> gotime \<Rightarrow> pod \<Rightarrow> (pod \<times> api_error option) kio" where
  "initiateDrain k formatTime now p = do {
     let p' = requested (formatTime now) p;
     r \<leftarrow> ask (k_patch_pod k) (PatchPod p p');
     case r of
       Inl err \<Rightarrow> State_Monad.return (p', Some err)
     | Inr p'' \<Rightarrow> State_Monad.return (p'', None)
   }"

text \<open>\<^verbatim>\<open>resolvePodRole\<close>: the role under the pod's name or under a name that continues it with a dot.\<close>

definition resolvePodRole :: "shard \<Rightarrow> string \<Rightarrow> string" where
  "resolvePodRole shd podName =
     (case map_of (s_pod_roles shd) podName of
        Some role \<Rightarrow> role
      | None \<Rightarrow> (case find (\<lambda>(k, v). has_prefix k (podName @ ''.'')) (s_pod_roles shd) of
                    Some (k, v) \<Rightarrow> v
                  | None \<Rightarrow> []))"

definition podNeedsUpdate ::
  "pod_hash \<Rightarrow> pod \<Rightarrow> shard \<Rightarrow> string \<Rightarrow> string \<Rightarrow> pool_spec \<Rightarrow> int \<Rightarrow> bool" where
  "podNeedsUpdate desiredHash existing shd poolName cellName poolSpec index =
     (if \<not> is_zero_ptr (p_deletion existing) then False
      else (case p_annotations existing AnnotationSpecHash of
              None \<Rightarrow> True
            | Some existingHash \<Rightarrow>
                (case desiredHash shd poolName cellName poolSpec index of
                   None \<Rightarrow> False
                 | Some desired \<Rightarrow> existingHash \<noteq> desired)))"

definition replicas_of :: "pool_spec \<Rightarrow> int" where
  "replicas_of poolSpec =
     (case ps_replicas_per_cell poolSpec of Some n \<Rightarrow> n | None \<Rightarrow> DefaultPoolReplicas)"

definition isDrainStale :: "pod_hash \<Rightarrow> shard \<Rightarrow> pod \<Rightarrow> string \<Rightarrow> bool" where
  "isDrainStale desiredHash shd p state =
     (if state \<noteq> DrainStateRequested then False
      else if \<not> is_zero_ptr (p_deletion p) then False
      else
        let poolName = str_at (p_labels p) LabelMultigresPool;
            cellName = str_at (p_labels p) LabelMultigresCell
        in if poolName = [] \<or> cellName = [] then False
           else (case map_of (s_pools shd) poolName of
                   None \<Rightarrow> False
                 | Some poolSpec \<Rightarrow>
                     (case resolvePodIndex (p_name p) of
                        None \<Rightarrow> False
                      | Some index \<Rightarrow>
                          if replicas_of poolSpec \<le> index then False
                          else \<not> podNeedsUpdate desiredHash p shd poolName cellName poolSpec index)))"

definition pool_selector :: "shard \<Rightarrow> labels" where
  "pool_selector shd =
     [LabelMultigresCluster \<mapsto> str_at (s_labels shd) LabelMultigresCluster,
      LabelMultigresDatabase \<mapsto> s_database_name shd,
      LabelMultigresTableGroup \<mapsto> s_table_group_name shd,
      LabelMultigresShard \<mapsto> s_shard_name shd,
      LabelAppComponent \<mapsto> PoolComponentName]"

text \<open>One iteration of the loop of \<^verbatim>\<open>reconcileDrainState\<close>: the value is the requeue flag.\<close>

definition drain_pod ::
  "kube \<Rightarrow> (string \<Rightarrow> gotime option) \<Rightarrow> gotime \<Rightarrow> pod_hash \<Rightarrow> shard \<Rightarrow> pod \<Rightarrow> bool kio" where
  "drain_pod k parseTime now desiredHash shd p =
     (let state = drain_state p in
      if state = [] then State_Monad.return False
      else if isDrainStale desiredHash shd p state then do {
        _ \<leftarrow> clearDrainAnnotations k p;
        emit (EmitEvent ''Normal'' ''DrainCancelled'' (p_name p));
        State_Monad.return False
      }
      else do {
        (_, r) \<leftarrow> ExecuteDrainStateMachine k parseTime now True p;
        State_Monad.return (case r of Inl _ \<Rightarrow> False | Inr shouldRequeue \<Rightarrow> shouldRequeue)
      })"

fun drain_pods ::
  "kube \<Rightarrow> (string \<Rightarrow> gotime option) \<Rightarrow> gotime \<Rightarrow> pod_hash \<Rightarrow> shard \<Rightarrow> pod list \<Rightarrow> bool \<Rightarrow> bool kio" where
  "drain_pods k parseTime now desiredHash shd [] requeue = State_Monad.return requeue"
| "drain_pods k parseTime now desiredHash shd (p # ps) requeue = do {
     again \<leftarrow> drain_pod k parseTime now desiredHash shd p;
     drain_pods k parseTime now desiredHash shd ps (requeue \<or> again)
   }"

definition reconcileDrainState ::
  "kube \<Rightarrow> (string \<Rightarrow> gotime option) \<Rightarrow> gotime \<Rightarrow> pod_hash \<Rightarrow> shard \<Rightarrow> (api_error + bool) kio" where
  "reconcileDrainState k parseTime now desiredHash shd = do {
     r \<leftarrow> ask (k_list_pods k) (ListPods False (s_namespace shd) (pool_selector shd));
     case r of
       Inl err \<Rightarrow> State_Monad.return (Inl err)
     | Inr pods \<Rightarrow> do {
         requeue \<leftarrow> drain_pods k parseTime now desiredHash shd pods False;
         State_Monad.return (Inr requeue)
       }
   }"

subsection \<open>One pass\<close>

fun drain_rank :: "string \<Rightarrow> nat" where
  "drain_rank s =
     (if s = DrainStateRequested then 1
      else if s = DrainStateDraining then 2
      else if s = DrainStateAcknowledged then 3
      else if s = DrainStateReadyForDeletion then 4
      else 0)"

declare drain_rank.simps [simp del]

lemma drain_rank_values [simp]:
  "drain_rank [] = 0" "drain_rank DrainStateRequested = 1" "drain_rank DrainStateDraining = 2"
  "drain_rank DrainStateAcknowledged = 3" "drain_rank DrainStateReadyForDeletion = 4"
  by (simp_all add: drain_rank.simps)

lemma drain_rank_inv:
  "drain_rank s = Suc 0 \<longleftrightarrow> s = DrainStateRequested"
  "0 < drain_rank s \<longleftrightarrow>
     s \<in> {DrainStateRequested, DrainStateDraining, DrainStateAcknowledged, DrainStateReadyForDeletion}"
  by (auto simp: drain_rank.simps)

definition drain_timed_out :: "(string \<Rightarrow> gotime option) \<Rightarrow> gotime \<Rightarrow> pod \<Rightarrow> bool" where
  "drain_timed_out parseTime now p \<longleftrightarrow>
     \<not> is_zero_time (drain_start parseTime now p) \<and> DrainTimeout < now - drain_start parseTime now p"

text \<open>The state a pass writes, if it writes one.\<close>

definition drain_target :: "(string \<Rightarrow> gotime option) \<Rightarrow> gotime \<Rightarrow> pod \<Rightarrow> string option" where
  "drain_target parseTime now p =
     (if drain_state p = [] \<or> drain_state p = DrainStateReadyForDeletion then None
      else if drain_timed_out parseTime now p then Some DrainStateReadyForDeletion
      else if drain_state p = DrainStateRequested then Some DrainStateDraining
      else if drain_state p = DrainStateDraining then Some DrainStateAcknowledged
      else if drain_state p = DrainStateAcknowledged then Some DrainStateReadyForDeletion
      else None)"

definition completes :: "(string \<Rightarrow> gotime option) \<Rightarrow> gotime \<Rightarrow> bool \<Rightarrow> pod \<Rightarrow> history" where
  "completes parseTime now recorder p =
     (if recorder \<and> drain_state p = DrainStateAcknowledged \<and> \<not> drain_timed_out parseTime now p
      then [EmitEvent ''Normal'' ''DrainCompleted'' (p_name p)] else [])"

lemma drain_state_set [simp]: "drain_state (set_drain_state s p) = s"
  by (simp add: set_drain_state_def)

lemma drain_state_cleared [simp]: "drain_state (cleared p) = []"
  by (simp add: cleared_def)

lemma drain_state_requested [simp]: "drain_state (requested stamp p) = DrainStateRequested"
  by (simp add: requested_def)

lemma run_UpdateDrainState:
  "run_state (UpdateDrainState k p s) h =
     ((case k_patch_pod k h (PatchPod p (set_drain_state s p)) of
         Inl e \<Rightarrow> (set_drain_state s p, Inl e)
       | Inr q \<Rightarrow> (q, Inr True)),
      h @ [PatchPod p (set_drain_state s p)])"
  by (simp add: UpdateDrainState_def Let_def split: sum.split)

lemma run_Execute:
  "run_state (ExecuteDrainStateMachine k parseTime now recorder p) h =
     (case drain_target parseTime now p of
        None \<Rightarrow> ((p, Inr False), h)
      | Some s \<Rightarrow> run_state (UpdateDrainState k p s) (h @ completes parseTime now recorder p))"
  by (auto simp: ExecuteDrainStateMachine_def Let_def drain_target_def drain_timed_out_def
      completes_def)

lemma drain_target_rank:
  "drain_target parseTime now p = Some s \<Longrightarrow>
   drain_rank s = (if drain_timed_out parseTime now p then 4 else Suc (drain_rank (drain_state p)))
   \<and> drain_rank (drain_state p) < 4"
  by (auto simp: drain_target_def drain_rank.simps split: if_splits)

lemma drain_target_Some:
  "drain_state p \<in> {DrainStateRequested, DrainStateDraining, DrainStateAcknowledged} \<Longrightarrow>
   \<exists>s. drain_target parseTime now p = Some s"
  by (auto simp: drain_target_def)

lemma drain_target_mono:
  "drain_target parseTime now p = Some s \<Longrightarrow> drain_rank (drain_state p) < drain_rank s"
  using drain_target_rank [of parseTime now p s] by auto

subsection \<open>The calls of a pass\<close>

lemma run_drain_pod:
  "snd (run_state (drain_pod k parseTime now desiredHash shd p) h) = h @
     (if drain_state p = [] then []
      else if isDrainStale desiredHash shd p (drain_state p)
      then [PatchPod p (cleared p), EmitEvent ''Normal'' ''DrainCancelled'' (p_name p)]
      else (case drain_target parseTime now p of
              None \<Rightarrow> []
            | Some s \<Rightarrow> completes parseTime now True p @ [PatchPod p (set_drain_state s p)]))"
  by (simp add: drain_pod_def Let_def run_Execute run_UpdateDrainState clearDrainAnnotations_def
      case_prod_beta split: option.split sum.split)

lemma run_initiateDrain:
  "run_state (initiateDrain k formatTime now p) h =
     ((case k_patch_pod k h (PatchPod p (requested (formatTime now) p)) of
         Inl err \<Rightarrow> (requested (formatTime now) p, Some err)
       | Inr q \<Rightarrow> (q, None)),
      h @ [PatchPod p (requested (formatTime now) p)])"
  by (simp add: initiateDrain_def Let_def split: sum.split)

lemma isDrainStale_iff:
  "isDrainStale desiredHash shd p state \<longleftrightarrow>
     state = DrainStateRequested \<and> is_zero_ptr (p_deletion p)
     \<and> str_at (p_labels p) LabelMultigresPool \<noteq> [] \<and> str_at (p_labels p) LabelMultigresCell \<noteq> []
     \<and> (\<exists>spec index. map_of (s_pools shd) (str_at (p_labels p) LabelMultigresPool) = Some spec
          \<and> resolvePodIndex (p_name p) = Some index \<and> index < replicas_of spec
          \<and> \<not> podNeedsUpdate desiredHash p shd (str_at (p_labels p) LabelMultigresPool)
                (str_at (p_labels p) LabelMultigresCell) spec index)"
  by (auto simp: isDrainStale_def Let_def not_le split: option.splits)

subsection \<open>Repeated passes\<close>

text \<open>
  A server that keeps the pods of a namespace and applies the patches it is sent: after a history of calls a pod is
  what the last patch of it made it, and a listing answers with the pods that the selector selects. The passes run one after
  the other, each with its own time and its own state of the shard.
\<close>

definition pod_id :: "pod \<Rightarrow> string \<times> string" where
  "pod_id p = (p_namespace p, p_name p)"

definition apply_patch :: "pod \<Rightarrow> kcall \<Rightarrow> pod" where
  "apply_patch p c = (case c of PatchPod a b \<Rightarrow> if pod_id a = pod_id p then b else p | _ \<Rightarrow> p)"

abbreviation pod_after :: "pod \<Rightarrow> history \<Rightarrow> pod" where
  "pod_after \<equiv> foldl apply_patch"

definition selected :: "string \<Rightarrow> labels \<Rightarrow> pod \<Rightarrow> bool" where
  "selected ns sel p \<longleftrightarrow> p_namespace p = ns \<and> sel \<subseteq>\<^sub>m p_labels p"

definition keeps_pods :: "kube \<Rightarrow> pod list \<Rightarrow> bool" where
  "keeps_pods k ps \<longleftrightarrow>
     (\<forall>h live ns sel. k_list_pods k h (ListPods live ns sel) = Inr (filter (selected ns sel) (map (\<lambda>p. pod_after p h) ps)))
     \<and> (\<forall>h p q. k_patch_pod k h (PatchPod p q) = Inr q)"

fun drain_rounds ::
  "kube \<Rightarrow> (string \<Rightarrow> gotime option) \<Rightarrow> pod_hash \<Rightarrow> (gotime \<times> shard) list \<Rightarrow> unit kio" where
  "drain_rounds k parseTime desiredHash [] = State_Monad.return ()"
| "drain_rounds k parseTime desiredHash ((now, shd) # rounds) = do {
     _ \<leftarrow> reconcileDrainState k parseTime now desiredHash shd;
     drain_rounds k parseTime desiredHash rounds
   }"

definition drain_calls ::
  "(string \<Rightarrow> gotime option) \<Rightarrow> gotime \<Rightarrow> pod_hash \<Rightarrow> shard \<Rightarrow> pod \<Rightarrow> history" where
  "drain_calls parseTime now desiredHash shd p =
     (if drain_state p = [] then []
      else if isDrainStale desiredHash shd p (drain_state p)
      then [PatchPod p (cleared p), EmitEvent ''Normal'' ''DrainCancelled'' (p_name p)]
      else (case drain_target parseTime now p of
              None \<Rightarrow> []
            | Some s \<Rightarrow> completes parseTime now True p @ [PatchPod p (set_drain_state s p)]))"

definition drained_once ::
  "(string \<Rightarrow> gotime option) \<Rightarrow> gotime \<Rightarrow> pod_hash \<Rightarrow> shard \<Rightarrow> pod \<Rightarrow> pod" where
  "drained_once parseTime now desiredHash shd p =
     (if drain_state p = [] then p
      else if isDrainStale desiredHash shd p (drain_state p) then cleared p
      else (case drain_target parseTime now p of None \<Rightarrow> p | Some s \<Rightarrow> set_drain_state s p))"

lemma drained_once_id [simp]:
  "pod_id (drained_once parseTime now desiredHash shd p) = pod_id p"
  "p_labels (drained_once parseTime now desiredHash shd p) = p_labels p"
  "selected ns sel (drained_once parseTime now desiredHash shd p) = selected ns sel p"
  by (auto simp: drained_once_def pod_id_def selected_def cleared_def set_drain_state_def split: option.split)

lemma run_drain_pods:
  "snd (run_state (drain_pods k parseTime now desiredHash shd ps b) h)
     = h @ concat (map (drain_calls parseTime now desiredHash shd) ps)"
  by (induction ps arbitrary: b h) (simp_all add: run_drain_pod drain_calls_def split_beta)

lemma stored_drain_calls:
  "pod_after q (drain_calls parseTime now desiredHash shd p)
     = (if pod_id p = pod_id q then (if drain_calls parseTime now desiredHash shd p = [] then q
                                     else drained_once parseTime now desiredHash shd p) else q)"
  by (auto simp: drain_calls_def drained_once_def apply_patch_def completes_def split: option.split)

lemma drain_calls_Nil:
  "drain_calls parseTime now desiredHash shd p = [] \<Longrightarrow> drained_once parseTime now desiredHash shd p = p"
  by (auto simp: drain_calls_def drained_once_def split: if_splits option.splits)

lemma stored_other:
  "pod_id q \<notin> pod_id ` set ps \<Longrightarrow> pod_after q (concat (map (drain_calls parseTime now desiredHash shd) ps)) = q"
  by (induction ps) (auto simp: stored_drain_calls)

lemma stored_concat:
  "distinct (map pod_id ps) \<Longrightarrow> q \<in> set ps \<Longrightarrow>
   pod_after q (concat (map (drain_calls parseTime now desiredHash shd) ps)) = drained_once parseTime now desiredHash shd q"
proof (induction ps)
  case (Cons p ps)
  show ?case
  proof (cases "p = q")
    case True
    with Cons.prems(1) show ?thesis
      by (auto simp: stored_drain_calls drain_calls_Nil stored_other)
  next
    case False
    with Cons show ?thesis by (auto simp: stored_drain_calls)
  qed
qed simp

text \<open>One pass, from a history in which the pods kept their names and labels.\<close>

definition same_pods :: "pod list \<Rightarrow> history \<Rightarrow> bool" where
  "same_pods ps h \<longleftrightarrow> (\<forall>p\<in>set ps. pod_id (pod_after p h) = pod_id p \<and> p_labels (pod_after p h) = p_labels p)"

lemma stored_round:
  assumes k: "keeps_pods k ps" and d: "distinct (map pod_id ps)" and same: "same_pods ps h"
    and run: "run_state (reconcileDrainState k parseTime now desiredHash shd) h = (r, h')"
  shows "\<forall>p\<in>set ps. pod_after p h' = (if selected (s_namespace shd) (pool_selector shd) p
      then drained_once parseTime now desiredHash shd (pod_after p h) else pod_after p h)"
    and "same_pods ps h'"
proof -
  let ?sel = "selected (s_namespace shd) (pool_selector shd)"
  let ?listed = "filter ?sel (map (\<lambda>p. pod_after p h) ps)"
  let ?calls = "concat (map (drain_calls parseTime now desiredHash shd) ?listed)"
  from k have "k_list_pods k h (ListPods False (s_namespace shd) (pool_selector shd)) = Inr ?listed"
    unfolding keeps_pods_def by blast
  with run have h': "h' = (h @ [ListPods False (s_namespace shd) (pool_selector shd)]) @ ?calls"
    using run_drain_pods [of k parseTime now desiredHash shd ?listed False]
    by (auto simp: reconcileDrainState_def split_beta)
  have after: "pod_after p h' = pod_after (pod_after p h) ?calls" for p
    unfolding h' by (simp add: apply_patch_def)
  have ids: "map pod_id (map (\<lambda>p. pod_after p h) ps) = map pod_id ps"
    using same by (simp add: same_pods_def)
  then have dist: "distinct (map pod_id ?listed)" using d by (metis distinct_map_filter)
  have sel: "?sel (pod_after p h) = ?sel p" if "p \<in> set ps" for p
    using same that by (auto simp: same_pods_def selected_def pod_id_def)
  show one: "\<forall>p\<in>set ps. pod_after p h' = (if ?sel p then drained_once parseTime now desiredHash shd (pod_after p h) else pod_after p h)"
  proof
    fix p assume p: "p \<in> set ps"
    show "pod_after p h' = (if ?sel p then drained_once parseTime now desiredHash shd (pod_after p h) else pod_after p h)"
    proof (cases "?sel p")
      case True
      with p sel have "pod_after p h \<in> set ?listed" by auto
      with stored_concat [OF dist this] after True show ?thesis by simp
    next
      case False
      have "pod_id (pod_after p h) \<notin> pod_id ` set ?listed"
      proof
        assume "pod_id (pod_after p h) \<in> pod_id ` set ?listed"
        then obtain q where q: "q \<in> set ps" "?sel (pod_after q h)" "pod_id (pod_after p h) = pod_id (pod_after q h)" by auto
        with same p have "pod_id p = pod_id q" by (simp add: same_pods_def)
        with d p q(1) have "p = q" by (meson distinct_map inj_onD)
        with q(2) sel [OF p] False show False by simp
      qed
      with stored_other after False show ?thesis by simp
    qed
  qed
  with same show "same_pods ps h'" by (auto simp: same_pods_def)
qed

lemma isDrainStale_requested: "isDrainStale desiredHash shd p s \<Longrightarrow> s = DrainStateRequested"
  by (simp add: isDrainStale_iff)

lemma drained_once_rank:
  assumes "0 < drain_rank (drain_state p)" and "\<not> isDrainStale desiredHash shd p (drain_state p)"
  shows "min 4 (Suc (drain_rank (drain_state p))) \<le> drain_rank (drain_state (drained_once parseTime now desiredHash shd p))"
proof -
  consider "drain_state p = DrainStateReadyForDeletion"
    | "drain_state p \<in> {DrainStateRequested, DrainStateDraining, DrainStateAcknowledged}"
    using assms(1) unfolding drain_rank_inv(2) by blast
  then show ?thesis
  proof cases
    case 1
    then show ?thesis by (simp add: drained_once_def drain_target_def isDrainStale_iff)
  next
    case 2
    then obtain s where "drain_target parseTime now p = Some s" using drain_target_Some by blast
    with drain_target_mono [OF this] assms(2) 2 show ?thesis by (auto simp: drained_once_def)
  qed
qed

lemma rounds_rank:
  assumes "keeps_pods k ps" and "distinct (map pod_id ps)" and "p \<in> set ps"
  shows "same_pods ps h \<Longrightarrow> \<forall>(now, shd)\<in>set rounds. selected (s_namespace shd) (pool_selector shd) p \<Longrightarrow>
    run_state (drain_rounds k parseTime desiredHash rounds) h = (u, h') \<Longrightarrow>
    (drain_state (pod_after p h) = [] \<longrightarrow> drain_state (pod_after p h') = [])
    \<and> (2 \<le> drain_rank (drain_state (pod_after p h)) \<longrightarrow>
        min 4 (drain_rank (drain_state (pod_after p h)) + length rounds) \<le> drain_rank (drain_state (pod_after p h')))"
proof (induction rounds arbitrary: h)
  case (Cons x rounds)
  obtain now shd where x: "x = (now, shd)" by force
  obtain r g where run: "run_state (reconcileDrainState k parseTime now desiredHash shd) h = (r, g)" by force
  note round = stored_round [OF assms(1,2) Cons.prems(1) run]
  from round(1) assms(3) Cons.prems(2) x
  have g: "pod_after p g = drained_once parseTime now desiredHash shd (pod_after p h)" by auto
  have rest: "run_state (drain_rounds k parseTime desiredHash rounds) g = (u, h')"
    using Cons.prems(3) run x by simp
  have IH: "(drain_state (pod_after p g) = [] \<longrightarrow> drain_state (pod_after p h') = [])
    \<and> (2 \<le> drain_rank (drain_state (pod_after p g)) \<longrightarrow>
        min 4 (drain_rank (drain_state (pod_after p g)) + length rounds) \<le> drain_rank (drain_state (pod_after p h')))"
    using Cons.IH [OF round(2) _ rest] Cons.prems(2) by simp
  have nil: "drain_state (pod_after p g) = []" if "drain_state (pod_after p h) = []"
    using that by (simp add: g drained_once_def)
  have up: "min 4 (Suc (drain_rank (drain_state (pod_after p h)))) \<le> drain_rank (drain_state (pod_after p g))"
    if two: "2 \<le> drain_rank (drain_state (pod_after p h))"
    unfolding g by (rule drained_once_rank) (use two in \<open>auto dest: isDrainStale_requested\<close>)
  from IH nil up show ?case by fastforce
qed (simp add: same_pods_def)

lemma appends_drain_pods [appends_intros]:
  "(\<And>p. appends P (drain_pod k parseTime now desiredHash shd p)) \<Longrightarrow>
   appends P (drain_pods k parseTime now desiredHash shd ps b)"
  by (induction ps arbitrary: b) (simp_all add: appends_intros)

lemma drain_rank_4: "4 \<le> drain_rank s \<Longrightarrow> s = DrainStateReadyForDeletion"
  by (simp add: drain_rank.simps split: if_splits)

subsection \<open>Properties\<close>

text \<open>
  one pass of \<^const>\<open>ExecuteDrainStateMachine\<close> over a pod that is being drained sends exactly one
  patch, which changes nothing but the state annotation: to the next state in the order requested,
  draining, acknowledged, ready for deletion, or straight to ready for deletion once the drain is
  older than \<^const>\<open>DrainTimeout\<close>. Beside the patch there is at most the completion event.
\<close>

theorem ExecuteDrainStateMachine_advances:
  assumes "drain_state p \<in> {DrainStateRequested, DrainStateDraining, DrainStateAcknowledged}"
  shows "\<exists>s evs. snd (run_state (ExecuteDrainStateMachine k parseTime now recorder p) h)
             = h @ evs @ [PatchPod p (p\<lparr>p_annotations := (p_annotations p)(AnnotationDrainState \<mapsto> s)\<rparr>)]
         \<and> set evs \<subseteq> {EmitEvent ''Normal'' ''DrainCompleted'' (p_name p)}
         \<and> (if drain_start parseTime now p \<noteq> 0 \<and> DrainTimeout < now - drain_start parseTime now p
            then s = DrainStateReadyForDeletion
            else drain_rank s = Suc (drain_rank (drain_state p)))"
proof -
  obtain s where s: "drain_target parseTime now p = Some s"
    using drain_target_Some [OF assms] by blast
  with drain_target_rank [OF s] drain_rank_4 [of s] show ?thesis
    by (intro exI [of _ s] exI [of _ "completes parseTime now recorder p"])
      (auto simp: run_Execute run_UpdateDrainState set_drain_state_def completes_def
        drain_timed_out_def is_zero_time_def)
qed

theorem ExecuteDrainStateMachine_advances_witness:
  "\<exists>s. snd (run_state (ExecuteDrainStateMachine echo_kube (\<lambda>s. Some 7) 9 True
          (set_drain_state DrainStateDraining sample_pod)) [])
     = [PatchPod (set_drain_state DrainStateDraining sample_pod)
          (set_drain_state s sample_pod)] \<and> drain_rank s = 3"
  using ExecuteDrainStateMachine_advances
    [of "set_drain_state DrainStateDraining sample_pod" echo_kube "\<lambda>s. Some 7" 9 True "[]"]
  by (auto simp: run_Execute run_UpdateDrainState drain_target_def drain_timed_out_def
      drain_start_def set_drain_state_def completes_def DrainTimeout_def minute_def second_def
      sample_pod_def)

text \<open>
  C31: drains end. Take a server that keeps the pods and applies the patches it is sent, and a pod of the shard with a drain
  requested, draining or acknowledged. After three or more passes of the drain loop, at whatever times and with whatever
  changes to the specification of the shard in between, the pod is ready for deletion, unless the first pass found the drain
  merely requested and stale: then the drain was cancelled and stays so.
\<close>

theorem drain_completes:
  assumes "keeps_pods k ps" and "distinct (map pod_id ps)" and "p \<in> set ps"
    and "drain_state p \<in> {DrainStateRequested, DrainStateDraining, DrainStateAcknowledged}"
    and "rounds = (now, shd) # later" and "2 \<le> length later"
    and "\<forall>(t, s)\<in>set rounds. selected (s_namespace s) (pool_selector s) p"
  shows "drain_state (pod_after p (snd (run_state (drain_rounds k parseTime desiredHash rounds) [])))
    = (if isDrainStale desiredHash shd p (drain_state p) then [] else DrainStateReadyForDeletion)"
proof -
  obtain r g where run: "run_state (reconcileDrainState k parseTime now desiredHash shd) [] = (r, g)" by force
  obtain u h' where rest: "run_state (drain_rounds k parseTime desiredHash later) g = (u, h')" by (rule prod.exhaust)
  have final: "snd (run_state (drain_rounds k parseTime desiredHash rounds) []) = h'"
    using assms(5) run rest by simp
  have same: "same_pods ps []" by (simp add: same_pods_def)
  note round = stored_round [OF assms(1,2) same run]
  from round(1) assms(3,5,7) have g: "pod_after p g = drained_once parseTime now desiredHash shd p" by auto
  have later: "(drain_state (pod_after p g) = [] \<longrightarrow> drain_state (pod_after p h') = [])
    \<and> (2 \<le> drain_rank (drain_state (pod_after p g)) \<longrightarrow>
        min 4 (drain_rank (drain_state (pod_after p g)) + length later) \<le> drain_rank (drain_state (pod_after p h')))"
    by (rule rounds_rank [OF assms(1-3) round(2) _ rest]) (use assms(5,7) in simp)
  show ?thesis
  proof (cases "isDrainStale desiredHash shd p (drain_state p)")
    case True
    with assms(4) have "drain_state (pod_after p g) = []" by (auto simp: g drained_once_def)
    with later True final show ?thesis by simp
  next
    case False
    have pos: "0 < drain_rank (drain_state p)" using assms(4) by auto
    from drained_once_rank [OF pos False, of parseTime now] have "2 \<le> drain_rank (drain_state (pod_after p g))"
      using pos by (simp add: g)
    with later assms(6) have "4 \<le> drain_rank (drain_state (pod_after p h'))" by linarith
    with False final drain_rank_4 show ?thesis by simp
  qed
qed

definition pod_store :: "pod list \<Rightarrow> kube" where
  "pod_store ps = echo_kube\<lparr>k_list_pods := \<lambda>h c. case c of
     ListPods live ns sel \<Rightarrow> Inr (filter (selected ns sel) (map (\<lambda>p. pod_after p h) ps)) | _ \<Rightarrow> Inr []\<rparr>"

definition shard_pod :: pod where
  "shard_pod = (requested ''now'' sample_pod)\<lparr>p_labels := (pool_selector sample_shard)
     (LabelMultigresPool \<mapsto> ''main'', LabelMultigresCell \<mapsto> ''z1'')\<rparr>"

theorem drain_completes_witness:
  "drain_state (pod_after shard_pod (snd (run_state (drain_rounds (pod_store [shard_pod]) (\<lambda>s. None) (\<lambda>_ _ _ _ _. Some ''new'')
      [(10, sample_shard), (20, sample_shard), (30, sample_shard\<lparr>s_pools := []\<rparr>)]) []))) = DrainStateReadyForDeletion"
proof -
  have k: "keeps_pods (pod_store [shard_pod]) [shard_pod]"
    by (simp add: keeps_pods_def pod_store_def echo_kube_def)
  have sel: "selected (s_namespace s) (pool_selector s) shard_pod" if "s = sample_shard \<or> s = sample_shard\<lparr>s_pools := []\<rparr>" for s
    using that by (auto simp: selected_def shard_pod_def requested_def pool_selector_def sample_pod_def sample_shard_def map_le_def)
  have fresh: "\<not> isDrainStale (\<lambda>_ _ _ _ _. Some ''new'') sample_shard shard_pod (drain_state shard_pod)"
  proof -
    have "p_annotations shard_pod AnnotationSpecHash = None" "is_zero_ptr (p_deletion shard_pod)"
      by (simp_all add: shard_pod_def requested_def sample_pod_def)
    then show ?thesis by (simp add: isDrainStale_iff podNeedsUpdate_def)
  qed
  have "drain_state shard_pod = DrainStateRequested" by (simp add: shard_pod_def requested_def)
  then have state: "drain_state shard_pod \<in> {DrainStateRequested, DrainStateDraining, DrainStateAcknowledged}" by simp
  show ?thesis
    by (rule drain_completes [OF k _ _ state HOL.refl, where shd = sample_shard and desiredHash = "\<lambda>_ _ _ _ _. Some ''new''", unfolded if_not_P [OF fresh]])
      (use sel [of sample_shard] sel [of "sample_shard\<lparr>s_pools := []\<rparr>"] in auto)
qed

text \<open>
  the drain loop only ever lists pods, emits events and patches pods that carry a drain state;
  each patch moves the drain forward, or removes the annotations of a merely requested drain of a pod
  that is not being deleted, whose index is within the pool's replicas and whose spec is current. It
  never creates or deletes anything.
\<close>

theorem reconcileDrainState_calls:
  "\<exists>cs. snd (run_state (reconcileDrainState k parseTime now desiredHash shd) h) = h @ cs
     \<and> list_all (\<lambda>c. case c of
           ListPods live ns sel \<Rightarrow> ns = s_namespace shd \<and> sel = pool_selector shd
         | EmitEvent ty reason about \<Rightarrow> True
         | PatchPod p q \<Rightarrow>
             (drain_state p \<noteq> [] \<and> (\<exists>s. q = set_drain_state s p
                \<and> drain_rank (drain_state p) < drain_rank s))
             \<or> (drain_state p = DrainStateRequested \<and> q = cleared p \<and> is_zero_ptr (p_deletion p)
                \<and> (\<exists>spec index. map_of (s_pools shd) (str_at (p_labels p) LabelMultigresPool) = Some spec
                     \<and> resolvePodIndex (p_name p) = Some index \<and> index < replicas_of spec
                     \<and> \<not> podNeedsUpdate desiredHash p shd (str_at (p_labels p) LabelMultigresPool)
                           (str_at (p_labels p) LabelMultigresCell) spec index))
         | _ \<Rightarrow> False) cs"
  (is "\<exists>cs. _ \<and> list_all ?P cs")
proof -
  have one: "appends ?P (drain_pod k parseTime now desiredHash shd p)" for p
    unfolding appends_def run_drain_pod
    by (auto simp: completes_def isDrainStale_iff split: option.split
        dest!: drain_target_mono)
  have "appends ?P (reconcileDrainState k parseTime now desiredHash shd)"
    unfolding reconcileDrainState_def
    by (intro appends_intros appends_drain_pods one) simp
  then show ?thesis unfolding appends_def by blast
qed

end
