(* ===== verification/Topo_Poolers.thy ===== *)
theory Topo_Poolers
  imports Drain_Machine
begin

text \<open>
  Queries on the poolers of a shard in the topology, \<^verbatim>\<open>src/pkg/data-handler/topo/pooler.go\<close>.

  The topology client is a third-party package. A read of the poolers of a cell is the argument
  \<^verbatim>\<open>getPoolers\<close>, from the cell's name to an error or the poolers that pass the shard's filter; it is
  one snapshot per call of a Go function, as the code reads each cell once. An error carries the code
  the package documents and its text, which \<^verbatim>\<open>IsTopoUnavailable\<close> searches.
\<close>

subsection \<open>Topology records\<close>

datatype topo_code = NodeExists | NoNode | NoUpdateNeeded | OtherCode

record topo_error =
  te_code :: topo_code
  te_message :: string

datatype pooler_id = PoolerId (pid_component: string) (pid_cell: string) (pid_name: string)

datatype lifecycle_status = LIFECYCLE_UNKNOWN | LIFECYCLE_ACTIVE | LIFECYCLE_SHUTDOWN
  | LIFECYCLE_QUARANTINED

record pooler_lifecycle =
  lc_status :: lifecycle_status
  lc_reason :: string
  lc_updated :: gotime

datatype routing_role = ROUTING_ROLE_UNKNOWN | ROUTING_ROLE_PRIMARY | ROUTING_ROLE_REPLICA

record pooler =
  mp_id :: "pooler_id option"
  mp_hostname :: string
  mp_lifecycle :: "pooler_lifecycle option"
  mp_routing :: "routing_role option"

type_synonym pooler_query = "string \<Rightarrow> topo_error + pooler list"

subsection \<open>Reading poolers\<close>

definition IsTopoUnavailable :: "topo_error option \<Rightarrow> bool" where
  "IsTopoUnavailable err =
     (case err of
        None \<Rightarrow> False
      | Some e \<Rightarrow> contains_sub (te_message e) ''UNAVAILABLE''
                  \<or> contains_sub (te_message e) ''no connection available'')"

text \<open>The generated getters read a field of a missing message as its default value.\<close>

definition PoolerRoutingRole :: "pooler option \<Rightarrow> routing_role" where
  "PoolerRoutingRole mp =
     (case mp of
        None \<Rightarrow> ROUTING_ROLE_UNKNOWN
      | Some p \<Rightarrow> (case mp_routing p of None \<Rightarrow> ROUTING_ROLE_UNKNOWN | Some r \<Rightarrow> r))"

definition IsPrimaryPooler :: "pooler \<Rightarrow> bool" where
  "IsPrimaryPooler p \<longleftrightarrow> PoolerRoutingRole (Some p) = ROUTING_ROLE_PRIMARY"

definition isLifecycleShutdown :: "pooler \<Rightarrow> bool" where
  "isLifecycleShutdown p \<longleftrightarrow> map_option lc_status (mp_lifecycle p) = Some LIFECYCLE_SHUTDOWN"

definition isLifecycleQuarantined :: "pooler \<Rightarrow> bool" where
  "isLifecycleQuarantined p \<longleftrightarrow> map_option lc_status (mp_lifecycle p) = Some LIFECYCLE_QUARANTINED"

definition CollectCells :: "shard \<Rightarrow> string list" where
  "CollectCells shd = sort (remdups (concat (map (\<lambda>(name, pool). ps_cells pool) (s_pools shd))))"

definition PodMatchesPooler :: "string \<Rightarrow> pooler \<Rightarrow> bool" where
  "PodMatchesPooler podName p \<longleftrightarrow>
     map_option pid_name (mp_id p) = Some podName
     \<or> mp_hostname p = podName \<or> has_prefix (mp_hostname p) (podName @ ''.'')"

text \<open>The first matching name, or the empty string.\<close>

definition matchPoolerToPod :: "pooler \<Rightarrow> string list \<Rightarrow> string" where
  "matchPoolerToPod p podNames =
     (case find (\<lambda>n. PodMatchesPooler n p) podNames of Some n \<Rightarrow> n | None \<Rightarrow> [])"

record PoolerStatusResult =
  Roles :: "(string \<times> string) list"
  QuerySuccess :: bool

definition pooler_role :: "pooler \<Rightarrow> string" where
  "pooler_role p =
     (if isLifecycleQuarantined p then ''QUARANTINED''
      else if IsPrimaryPooler p then ''PRIMARY'' else ''REPLICA'')"

definition add_role :: "string list \<Rightarrow> (string \<times> string) list \<Rightarrow> pooler \<Rightarrow> (string \<times> string) list" where
  "add_role managedPodNames roles p =
     (if isLifecycleShutdown p then roles
      else let podName = matchPoolerToPod p managedPodNames
           in if podName = [] then roles else upd podName (pooler_role p) roles)"

fun pooler_status_cells ::
  "pooler_query \<Rightarrow> string list \<Rightarrow> PoolerStatusResult \<Rightarrow> string list \<Rightarrow> PoolerStatusResult" where
  "pooler_status_cells getPoolers managedPodNames result [] = result"
| "pooler_status_cells getPoolers managedPodNames result (cell # cells) =
     (case getPoolers cell of
        Inr poolers \<Rightarrow>
          pooler_status_cells getPoolers managedPodNames
            (result\<lparr>Roles := foldl (add_role managedPodNames) (Roles result) poolers\<rparr>) cells
      | Inl err \<Rightarrow>
          pooler_status_cells getPoolers managedPodNames (result\<lparr>QuerySuccess := False\<rparr>) cells)"

definition GetPoolerStatus :: "pooler_query \<Rightarrow> shard \<Rightarrow> string list \<Rightarrow> PoolerStatusResult" where
  "GetPoolerStatus getPoolers shd managedPodNames =
     pooler_status_cells getPoolers managedPodNames \<lparr>Roles = [], QuerySuccess = True\<rparr>
       (CollectCells shd)"

record QuarantinedPod =
  qp_pod_name :: string
  qp_reason :: string

definition quarantined_of :: "string list \<Rightarrow> pooler \<Rightarrow> QuarantinedPod list" where
  "quarantined_of managedPodNames p =
     (if \<not> isLifecycleQuarantined p then []
      else let podName = matchPoolerToPod p managedPodNames
           in if podName \<noteq> []
              then [\<lparr>qp_pod_name = podName,
                     qp_reason = (case mp_lifecycle p of None \<Rightarrow> [] | Some l \<Rightarrow> lc_reason l)\<rparr>]
              else [])"

text \<open>An error beside the cell it concerns.\<close>

fun quarantined_cells ::
  "pooler_query \<Rightarrow> string list \<Rightarrow> string list \<Rightarrow> (string \<times> topo_error) + QuarantinedPod list" where
  "quarantined_cells getPoolers managedPodNames [] = Inr []"
| "quarantined_cells getPoolers managedPodNames (cell # cells) =
     (case getPoolers cell of
        Inl err \<Rightarrow>
          (if IsTopoUnavailable (Some err) then quarantined_cells getPoolers managedPodNames cells
           else Inl (cell, err))
      | Inr poolers \<Rightarrow>
          (case quarantined_cells getPoolers managedPodNames cells of
             Inl e \<Rightarrow> Inl e
           | Inr rest \<Rightarrow> Inr (concat (map (quarantined_of managedPodNames) poolers) @ rest)))"

text \<open>Two entries of one pod keep their order here; \<^verbatim>\<open>slices.SortFunc\<close> leaves that order open.\<close>

definition GetQuarantinedPods ::
  "pooler_query \<Rightarrow> shard \<Rightarrow> string list \<Rightarrow> (string \<times> topo_error) + QuarantinedPod list" where
  "GetQuarantinedPods getPoolers shd managedPodNames =
     (case quarantined_cells getPoolers managedPodNames (CollectCells shd) of
        Inl e \<Rightarrow> Inl e
      | Inr quarantined \<Rightarrow> Inr (sort_key qp_pod_name quarantined))"

datatype find_error = ListingPoolers string topo_error | AllCellsUnavailable nat

fun find_primary_cells ::
  "pooler_query \<Rightarrow> bool \<Rightarrow> string list \<Rightarrow> find_error + (pooler option \<times> bool)" where
  "find_primary_cells getPoolers anySuccess [] = Inr (None, anySuccess)"
| "find_primary_cells getPoolers anySuccess (cell # cells) =
     (case getPoolers cell of
        Inl err \<Rightarrow>
          (if IsTopoUnavailable (Some err) then find_primary_cells getPoolers anySuccess cells
           else Inl (ListingPoolers cell err))
      | Inr poolers \<Rightarrow>
          (case find (\<lambda>p. IsPrimaryPooler p \<and> \<not> isLifecycleShutdown p
                           \<and> \<not> isLifecycleQuarantined p) poolers of
             Some p \<Rightarrow> Inr (Some p, True)
           | None \<Rightarrow> find_primary_cells getPoolers True cells))"

definition FindPrimaryPooler :: "pooler_query \<Rightarrow> string list \<Rightarrow> find_error + pooler option" where
  "FindPrimaryPooler getPoolers cells =
     (case find_primary_cells getPoolers False cells of
        Inl e \<Rightarrow> Inl e
      | Inr (Some p, _) \<Rightarrow> Inr (Some p)
      | Inr (None, anySuccess) \<Rightarrow>
          (if \<not> anySuccess \<and> cells \<noteq> [] then Inl (AllCellsUnavailable (length cells)) else Inr None))"

fun live_cells ::
  "pooler_query \<Rightarrow> string list \<Rightarrow> (string \<times> bool) list \<Rightarrow> string list
     \<Rightarrow> (string \<times> topo_error) + (string \<times> bool) list" where
  "live_cells getPoolers podNames live [] = Inr live"
| "live_cells getPoolers podNames live (cell # cells) =
     (case getPoolers cell of
        Inl err \<Rightarrow> Inl (cell, err)
      | Inr poolers \<Rightarrow>
          live_cells getPoolers podNames
            (foldl (\<lambda>l p. if isLifecycleShutdown p then l
                          else foldl (\<lambda>l n. if PodMatchesPooler n p then upd n True l else l) l podNames)
               live poolers) cells)"

definition LivePoolerPods ::
  "pooler_query \<Rightarrow> shard \<Rightarrow> string list \<Rightarrow> (string \<times> topo_error) + (string \<times> bool) list" where
  "LivePoolerPods getPoolers shd podNames = live_cells getPoolers podNames [] (CollectCells shd)"

subsection \<open>Marking dead poolers\<close>

text \<open>
  \<^verbatim>\<open>MarkDeadPoolers\<close> writes to the topology. \<^verbatim>\<open>updateFields\<close> is the outcome of writing the entry of an
  identity; the writes attempted are returned, in order, beside the count and the error.
\<close>

abbreviation deadPoolerReason :: string where
  "deadPoolerReason \<equiv> ''operator: no backing pod for pooler''"

record mark_result =
  mr_marked :: nat
  mr_error :: "(string \<times> topo_error) option"
  mr_writes :: "(pooler_id option \<times> pooler_lifecycle) list"

definition poolerMatchesAnyActivePod :: "pooler \<Rightarrow> string list \<Rightarrow> bool" where
  "poolerMatchesAnyActivePod p activePodNames \<longleftrightarrow> list_ex (\<lambda>n. PodMatchesPooler n p) activePodNames"

definition mark_pooler ::
  "(pooler_id option \<Rightarrow> topo_error option) \<Rightarrow> gotime \<Rightarrow> string list \<Rightarrow> mark_result \<Rightarrow> pooler
     \<Rightarrow> mark_result" where
  "mark_pooler updateFields now activePodNames r p =
     (if poolerMatchesAnyActivePod p activePodNames then r
      else if isLifecycleShutdown p then r
      else
        let entry = \<lparr>lc_status = LIFECYCLE_SHUTDOWN, lc_reason = deadPoolerReason, lc_updated = now\<rparr>;
            r' = r\<lparr>mr_writes := mr_writes r @ [(mp_id p, entry)]\<rparr>
        in (case updateFields (mp_id p) of
              Some err \<Rightarrow> r'
            | None \<Rightarrow> r'\<lparr>mr_marked := Suc (mr_marked r)\<rparr>))"

fun mark_cells ::
  "pooler_query \<Rightarrow> (pooler_id option \<Rightarrow> topo_error option) \<Rightarrow> gotime \<Rightarrow> string list \<Rightarrow> mark_result
     \<Rightarrow> string list \<Rightarrow> mark_result" where
  "mark_cells getPoolers updateFields now activePodNames r [] = r"
| "mark_cells getPoolers updateFields now activePodNames r (cell # cells) =
     (case getPoolers cell of
        Inl err \<Rightarrow>
          (if IsTopoUnavailable (Some err)
           then mark_cells getPoolers updateFields now activePodNames r cells
           else r\<lparr>mr_error := Some (cell, err)\<rparr>)
      | Inr poolers \<Rightarrow>
          mark_cells getPoolers updateFields now activePodNames
            (foldl (mark_pooler updateFields now activePodNames) r poolers) cells)"

definition MarkDeadPoolers ::
  "pooler_query \<Rightarrow> (pooler_id option \<Rightarrow> topo_error option) \<Rightarrow> gotime \<Rightarrow> shard \<Rightarrow> string list
     \<Rightarrow> mark_result" where
  "MarkDeadPoolers getPoolers updateFields now shd activePodNames =
     mark_cells getPoolers updateFields now activePodNames
       \<lparr>mr_marked = 0, mr_error = None, mr_writes = []\<rparr> (CollectCells shd)"

definition isPoolerPruningEnabled :: "shard \<Rightarrow> bool" where
  "isPoolerPruningEnabled shd =
     (case s_topology_pruning shd of
        None \<Rightarrow> True
      | Some None \<Rightarrow> True
      | Some (Some enabled) \<Rightarrow> enabled)"

definition hasPrimary :: "(string \<times> string) list \<Rightarrow> bool" where
  "hasPrimary podRoles \<longleftrightarrow> list_ex (\<lambda>(pod, role). role = ''PRIMARY'') podRoles"

text \<open>The value is what \<^verbatim>\<open>MarkDeadPoolers\<close> did, if it was called.\<close>

definition reconcilePoolerPrune ::
  "kube \<Rightarrow> pooler_query \<Rightarrow> (pooler_id option \<Rightarrow> topo_error option) \<Rightarrow> gotime \<Rightarrow> shard
     \<Rightarrow> mark_result option kio" where
  "reconcilePoolerPrune k getPoolers updateFields now shd =
     (if \<not> isPoolerPruningEnabled shd then State_Monad.return None
      else do {
        r \<leftarrow> ask (k_list_pods k) (ListPods False (s_namespace shd) (pool_selector shd));
        case r of
          Inl err \<Rightarrow> State_Monad.return None
        | Inr pods \<Rightarrow> do {
            let res = MarkDeadPoolers getPoolers updateFields now shd (map p_name pods);
            (if 0 < mr_marked res
             then emit (EmitEvent ''Normal'' ''DeadPoolersMarked'' (s_name shd))
             else State_Monad.return ());
            State_Monad.return (Some res)
          }
      })"

subsection \<open>Lemmas\<close>

lemma set_CollectCells [simp]:
  "set (CollectCells shd) = (\<Union>(name, pool)\<in>set (s_pools shd). set (ps_cells pool))"
  by (auto simp: CollectCells_def)

lemma sorted_CollectCells: "sorted (CollectCells shd) \<and> distinct (CollectCells shd)"
  by (simp add: CollectCells_def)

definition dead :: "string list \<Rightarrow> pooler \<Rightarrow> bool" where
  "dead activePodNames p \<longleftrightarrow>
     \<not> (\<exists>n\<in>set activePodNames. PodMatchesPooler n p) \<and> \<not> isLifecycleShutdown p"

definition shutdown_entry :: "gotime \<Rightarrow> pooler_lifecycle" where
  "shutdown_entry now =
     \<lparr>lc_status = LIFECYCLE_SHUTDOWN, lc_reason = deadPoolerReason, lc_updated = now\<rparr>"

lemma mark_pooler_eq:
  "mark_pooler updateFields now act r p =
     (if dead act p
      then r\<lparr>mr_writes := mr_writes r @ [(mp_id p, shutdown_entry now)],
             mr_marked := mr_marked r + (if updateFields (mp_id p) = None then 1 else 0)\<rparr>
      else r)"
  by (simp add: mark_pooler_def dead_def poolerMatchesAnyActivePod_def list_ex_iff Let_def
      shutdown_entry_def split: option.split)

lemma foldl_mark_pooler:
  "foldl (mark_pooler updateFields now act) r ps =
     r\<lparr>mr_writes := mr_writes r @ map (\<lambda>p. (mp_id p, shutdown_entry now)) (filter (dead act) ps),
       mr_marked := mr_marked r
         + length (filter (\<lambda>p. updateFields (mp_id p) = None) (filter (dead act) ps))\<rparr>"
  by (induction ps arbitrary: r) (simp_all add: mark_pooler_eq)

definition readable :: "pooler_query \<Rightarrow> string list \<Rightarrow> pooler list" where
  "readable getPoolers cells =
     concat (map (\<lambda>c. case getPoolers c of Inl _ \<Rightarrow> [] | Inr ps \<Rightarrow> ps) cells)"

lemma mark_cells_ok:
  assumes "\<forall>c\<in>set cells. \<forall>e. getPoolers c = Inl e \<longrightarrow> IsTopoUnavailable (Some e)"
  shows "mark_cells getPoolers updateFields now act r cells =
     r\<lparr>mr_writes := mr_writes r
         @ map (\<lambda>p. (mp_id p, shutdown_entry now)) (filter (dead act) (readable getPoolers cells)),
       mr_marked := mr_marked r + length (filter (\<lambda>p. updateFields (mp_id p) = None)
         (filter (dead act) (readable getPoolers cells)))\<rparr>"
  using assms
  by (induction cells arbitrary: r) (simp_all add: readable_def foldl_mark_pooler split: sum.splits)

lemma mark_cells_writes:
  "w \<in> set (mr_writes (mark_cells getPoolers updateFields now act r cells)) \<Longrightarrow>
   w \<in> set (mr_writes r) \<or>
   (\<exists>cell\<in>set cells. \<exists>ps p. getPoolers cell = Inr ps \<and> p \<in> set ps \<and> dead act p
      \<and> w = (mp_id p, shutdown_entry now))"
proof (induction cells arbitrary: r)
  case (Cons cell cells)
  show ?case
  proof (cases "getPoolers cell")
    case (Inl err)
    with Cons show ?thesis by (auto split: if_splits)
  next
    case (Inr ps)
    with Cons.prems Cons.IH [of "foldl (mark_pooler updateFields now act) r ps"]
    show ?thesis by (auto simp: foldl_mark_pooler)
  qed
qed simp

lemma matchPoolerToPod_SomeD:
  "matchPoolerToPod p podNames \<noteq> [] \<Longrightarrow>
   matchPoolerToPod p podNames \<in> set podNames \<and> PodMatchesPooler (matchPoolerToPod p podNames) p"
  by (auto simp: matchPoolerToPod_def split: option.splits dest: find_SomeD)

lemma map_of_upd_True:
  "map_of (foldl (\<lambda>l n. if Q n then upd n True l else l) live ns) m = Some True
     \<longleftrightarrow> map_of live m = Some True \<or> (m \<in> set ns \<and> Q m)"
  by (induction ns arbitrary: live) auto

lemma map_of_live_poolers:
  "map_of (foldl (\<lambda>l p. if isLifecycleShutdown p then l
                   else foldl (\<lambda>l n. if PodMatchesPooler n p then upd n True l else l) l podNames)
             live ps) m = Some True
     \<longleftrightarrow> map_of live m = Some True
         \<or> (m \<in> set podNames \<and> (\<exists>p\<in>set ps. \<not> isLifecycleShutdown p \<and> PodMatchesPooler m p))"
  by (induction ps arbitrary: live) (auto simp: map_of_upd_True)

lemma live_cells_iff:
  "live_cells getPoolers podNames live cells = Inr res \<Longrightarrow>
   map_of res m = Some True \<longleftrightarrow> map_of live m = Some True
     \<or> (m \<in> set podNames \<and> (\<exists>cell\<in>set cells. \<exists>ps p. getPoolers cell = Inr ps \<and> p \<in> set ps
          \<and> \<not> isLifecycleShutdown p \<and> PodMatchesPooler m p))"
proof (induction cells arbitrary: live)
  case (Cons cell cells)
  then obtain ps where ps: "getPoolers cell = Inr ps" by (auto split: sum.splits)
  with Cons.prems have "live_cells getPoolers podNames
      (foldl (\<lambda>l p. if isLifecycleShutdown p then l
                   else foldl (\<lambda>l n. if PodMatchesPooler n p then upd n True l else l) l podNames)
         live ps) cells = Inr res" by simp
  from Cons.IH [OF this] ps show ?case
    unfolding map_of_live_poolers by auto
qed simp

lemma live_cells_error:
  "(\<exists>e. live_cells getPoolers podNames live cells = Inl e)
     \<longleftrightarrow> (\<exists>cell\<in>set cells. \<exists>err. getPoolers cell = Inl err)"
  by (induction cells arbitrary: live) (auto split: sum.splits)

definition routable_primary :: "pooler \<Rightarrow> bool" where
  "routable_primary p \<longleftrightarrow>
     IsPrimaryPooler p \<and> \<not> isLifecycleShutdown p \<and> \<not> isLifecycleQuarantined p"

lemma find_primary_cells_Some:
  "find_primary_cells getPoolers b cells = Inr (Some p, c) \<Longrightarrow>
   \<exists>cell\<in>set cells. \<exists>ps. getPoolers cell = Inr ps \<and> p \<in> set ps \<and> routable_primary p"
proof (induction cells arbitrary: b)
  case (Cons cell cells)
  then show ?case
    by (auto simp: routable_primary_def split: sum.splits if_splits option.splits dest!: find_SomeD)
qed simp

definition no_primary_in :: "pooler_query \<Rightarrow> string \<Rightarrow> bool" where
  "no_primary_in getPoolers cell \<longleftrightarrow>
     (case getPoolers cell of
        Inl e \<Rightarrow> IsTopoUnavailable (Some e)
      | Inr ps \<Rightarrow> \<forall>p\<in>set ps. \<not> routable_primary p)"

lemma find_primary_cells_None:
  "find_primary_cells getPoolers b cells = Inr (None, c) \<Longrightarrow>
   (\<forall>cell\<in>set cells. no_primary_in getPoolers cell)
   \<and> (c \<longleftrightarrow> b \<or> (\<exists>cell\<in>set cells. \<exists>ps. getPoolers cell = Inr ps))"
proof (induction cells arbitrary: b)
  case (Cons cell cells)
  show ?case
  proof (cases "getPoolers cell")
    case (Inl e)
    with Cons show ?thesis by (auto simp: no_primary_in_def [of _ cell] split: if_splits)
  next
    case (Inr ps)
    with Cons.prems have none: "find (\<lambda>p. IsPrimaryPooler p \<and> \<not> isLifecycleShutdown p
          \<and> \<not> isLifecycleQuarantined p) ps = None"
      and rest: "find_primary_cells getPoolers True cells = Inr (None, c)"
      by (auto split: option.splits)
    from none have "no_primary_in getPoolers cell"
      by (auto simp: no_primary_in_def Inr routable_primary_def find_None_iff)
    with Cons.IH [OF rest] Inr show ?thesis by auto
  qed
qed simp

subsection \<open>Properties\<close>

text \<open>
  \<^const>\<open>MarkDeadPoolers\<close> only ever writes a shutdown entry, and only to a pooler it read in one of
  the shard's cells that matches none of the active pods and is not shut down already. Unless a cell
  fails for a reason other than an unavailable topology, it does so for every such pooler of the
  readable cells, in order, and the count is the number of writes the store accepted.
\<close>

theorem MarkDeadPoolers_exact:
  "(\<forall>w\<in>set (mr_writes (MarkDeadPoolers getPoolers updateFields now shd act)).
      \<exists>cell\<in>set (CollectCells shd). \<exists>ps p. getPoolers cell = Inr ps \<and> p \<in> set ps
        \<and> \<not> (\<exists>n\<in>set act. PodMatchesPooler n p) \<and> \<not> isLifecycleShutdown p
        \<and> w = (mp_id p, \<lparr>lc_status = LIFECYCLE_SHUTDOWN, lc_reason = deadPoolerReason,
                         lc_updated = now\<rparr>))
   \<and> ((\<forall>c\<in>set (CollectCells shd). \<forall>e. getPoolers c = Inl e \<longrightarrow> IsTopoUnavailable (Some e)) \<longrightarrow>
      map fst (mr_writes (MarkDeadPoolers getPoolers updateFields now shd act))
        = map mp_id (filter (dead act) (readable getPoolers (CollectCells shd)))
      \<and> mr_error (MarkDeadPoolers getPoolers updateFields now shd act) = None
      \<and> mr_marked (MarkDeadPoolers getPoolers updateFields now shd act)
        = length (filter (\<lambda>i. updateFields i = None)
            (map fst (mr_writes (MarkDeadPoolers getPoolers updateFields now shd act)))))"
proof (intro conjI ballI impI)
  fix w
  assume "w \<in> set (mr_writes (MarkDeadPoolers getPoolers updateFields now shd act))"
  from mark_cells_writes [OF this [unfolded MarkDeadPoolers_def]]
  show "\<exists>cell\<in>set (CollectCells shd). \<exists>ps p. getPoolers cell = Inr ps \<and> p \<in> set ps
        \<and> \<not> (\<exists>n\<in>set act. PodMatchesPooler n p) \<and> \<not> isLifecycleShutdown p
        \<and> w = (mp_id p, \<lparr>lc_status = LIFECYCLE_SHUTDOWN, lc_reason = deadPoolerReason,
                         lc_updated = now\<rparr>)"
    by (auto simp: dead_def shutdown_entry_def)
qed (simp_all add: MarkDeadPoolers_def mark_cells_ok comp_def filter_map)

theorem MarkDeadPoolers_exact_witness:
  "let p = \<lparr>mp_id = None, mp_hostname = ''a'', mp_lifecycle = None, mp_routing = None\<rparr>;
       r = MarkDeadPoolers (\<lambda>c. Inr [p]) (\<lambda>i. None) 5 sample_shard [''b'']
   in map fst (mr_writes r) = [None] \<and> mr_error r = None"
proof -
  let ?p = "\<lparr>mp_id = None, mp_hostname = ''a'', mp_lifecycle = None, mp_routing = None\<rparr> :: pooler"
  have c: "CollectCells sample_shard = [''z1'']"
    by (simp add: CollectCells_def sample_defs)
  have d: "dead [''b''] ?p"
    by (simp add: dead_def PodMatchesPooler_def isLifecycleShutdown_def has_prefix_def)
  show ?thesis
    using MarkDeadPoolers_exact [of "\<lambda>c. Inr [?p]" "\<lambda>i. None" 5 sample_shard "[''b'']"] c d
    by (simp add: readable_def Let_def)
qed

text \<open>
  \<^const>\<open>LivePoolerPods\<close> fails exactly when some cell of the shard cannot be read, whatever the reason;
  otherwise it reports exactly those of the given pods for which a pooler that is not shut down is
  registered. An unreadable cell is never taken for an empty one.
\<close>

theorem LivePoolerPods_exact:
  "(case LivePoolerPods getPoolers shd podNames of
      Inl _ \<Rightarrow> \<exists>cell\<in>set (CollectCells shd). \<exists>err. getPoolers cell = Inl err
    | Inr live \<Rightarrow>
        \<not> (\<exists>cell\<in>set (CollectCells shd). \<exists>err. getPoolers cell = Inl err)
        \<and> (\<forall>n. map_of live n = Some True \<longleftrightarrow>
             n \<in> set podNames \<and> (\<exists>cell\<in>set (CollectCells shd). \<exists>ps p. getPoolers cell = Inr ps
               \<and> p \<in> set ps \<and> \<not> isLifecycleShutdown p \<and> PodMatchesPooler n p)))"
proof (cases "LivePoolerPods getPoolers shd podNames")
  case (Inl e)
  then show ?thesis
    using live_cells_error [of getPoolers podNames "[]" "CollectCells shd"]
    by (auto simp: LivePoolerPods_def)
next
  case (Inr live)
  then have "live_cells getPoolers podNames [] (CollectCells shd) = Inr live"
    by (simp add: LivePoolerPods_def)
  with live_cells_iff [OF this] live_cells_error [of getPoolers podNames "[]" "CollectCells shd"]
  show ?thesis by (auto simp: Inr simp del: set_CollectCells)
qed

text \<open>
  \<^const>\<open>FindPrimaryPooler\<close> returns a pooler only if it advertises the primary role in one of the given
  cells and is neither shut down nor quarantined. It answers that there is none only if no readable
  cell holds such a pooler, every other cell failed as unavailable, and at least one cell was read
  when any was given.
\<close>

theorem FindPrimaryPooler_sound:
  "case FindPrimaryPooler getPoolers cells of
     Inl e \<Rightarrow> True
   | Inr (Some p) \<Rightarrow> \<exists>cell\<in>set cells. \<exists>ps. getPoolers cell = Inr ps \<and> p \<in> set ps
       \<and> IsPrimaryPooler p \<and> \<not> isLifecycleShutdown p \<and> \<not> isLifecycleQuarantined p
   | Inr None \<Rightarrow> (cells = [] \<or> (\<exists>cell\<in>set cells. \<exists>ps. getPoolers cell = Inr ps))
       \<and> (\<forall>cell\<in>set cells. case getPoolers cell of
             Inl e \<Rightarrow> IsTopoUnavailable (Some e)
           | Inr ps \<Rightarrow> \<forall>p\<in>set ps. \<not> (IsPrimaryPooler p \<and> \<not> isLifecycleShutdown p
                \<and> \<not> isLifecycleQuarantined p))"
proof (cases "find_primary_cells getPoolers False cells")
  case (Inl e)
  then show ?thesis by (simp add: FindPrimaryPooler_def)
next
  case (Inr r)
  obtain v c where r: "r = (v, c)" by force
  show ?thesis
  proof (cases v)
    case None
    from find_primary_cells_None [OF Inr [unfolded r None],
        unfolded no_primary_in_def routable_primary_def] Inr r None show ?thesis
      by (auto simp: FindPrimaryPooler_def)
  next
    case (Some p)
    from find_primary_cells_Some [OF Inr [unfolded r Some]] Inr r Some show ?thesis
      by (simp add: FindPrimaryPooler_def routable_primary_def)
  qed
qed

theorem FindPrimaryPooler_sound_witness:
  "FindPrimaryPooler (\<lambda>c. Inr [\<lparr>mp_id = None, mp_hostname = ''a'', mp_lifecycle = None,
     mp_routing = Some ROUTING_ROLE_PRIMARY\<rparr>]) [''z1''] =
   Inr (Some \<lparr>mp_id = None, mp_hostname = ''a'', mp_lifecycle = None,
     mp_routing = Some ROUTING_ROLE_PRIMARY\<rparr>)"
  using FindPrimaryPooler_sound
    [where getPoolers = "\<lambda>c. Inr [\<lparr>mp_id = None, mp_hostname = ''a'', mp_lifecycle = None,
       mp_routing = Some ROUTING_ROLE_PRIMARY\<rparr>]" and cells = "[''z1'']"]
  by (simp add: FindPrimaryPooler_def IsPrimaryPooler_def PoolerRoutingRole_def
      isLifecycleShutdown_def isLifecycleQuarantined_def)

end
