(* ===== verification/Status_Conditions.thy ===== *)
theory Status_Conditions
  imports Kube_Model
begin

text \<open>
  The shared status helpers of \<^verbatim>\<open>src/pkg/util/status\<close>: condition lists (\<^verbatim>\<open>conditions.go\<close>), the phase
  of a workload (\<^verbatim>\<open>phase.go\<close>) and the watch filter that notices a wiped status (\<^verbatim>\<open>predicate.go\<close>).

  The locale \<^verbatim>\<open>condition_store\<close> is what the controllers rely on when they publish conditions: reading
  a type back after writing it, and leaving every other type alone. It is interpreted on
  \<^verbatim>\<open>SetCondition\<close> and the lookup that the readers perform.
\<close>

subsection \<open>Conditions\<close>

fun SetCondition :: "condition list \<Rightarrow> condition \<Rightarrow> condition list" where
  "SetCondition [] cnd = [cnd]"
| "SetCondition (c # conditions) cnd =
     (if c_type c = c_type cnd
      then (if c_status c \<noteq> c_status cnd then cnd # conditions
            else cnd\<lparr>c_last_transition := c_last_transition c\<rparr> # conditions)
      else c # SetCondition conditions cnd)"

fun IsConditionTrue :: "condition list \<Rightarrow> string \<Rightarrow> bool" where
  "IsConditionTrue [] condType = False"
| "IsConditionTrue (c # conditions) condType =
     (if c_type c = condType then c_status c = ConditionTrue
      else IsConditionTrue conditions condType)"

fun IsConditionFalse :: "condition list \<Rightarrow> string \<Rightarrow> bool" where
  "IsConditionFalse [] condType = False"
| "IsConditionFalse (c # conditions) condType =
     (if c_type c = condType then c_status c = ConditionFalse
      else IsConditionFalse conditions condType)"

subsection \<open>Phases\<close>

datatype Phase = PhaseInitializing | PhaseProgressing | PhaseHealthy | PhaseDegraded | PhaseUnknown
  | PhaseUnset

definition ComputePhase :: "int \<Rightarrow> int \<Rightarrow> Phase" where
  "ComputePhase ready tot =
     (if tot = 0 then PhaseInitializing
      else if ready = tot then PhaseHealthy
      else PhaseProgressing)"

abbreviation crashLoopRestartThreshold :: int where
  "crashLoopRestartThreshold \<equiv> 3"

definition isContainerCrashLooping :: "container_status \<Rightarrow> bool" where
  "isContainerCrashLooping cs \<longleftrightarrow>
     (case cs_waiting cs of
        Some reason \<Rightarrow> reason \<in> set [''CrashLoopBackOff'', ''OOMKilled'', ''ImagePullBackOff'']
      | None \<Rightarrow> False)
     \<or> (cs_terminated cs \<and> crashLoopRestartThreshold \<le> cs_restart_count cs)"

definition IsCrashLooping :: "pod \<Rightarrow> bool" where
  "IsCrashLooping p \<longleftrightarrow>
     list_ex isContainerCrashLooping (p_cstatuses p)
     \<or> list_ex isContainerCrashLooping (p_init_cstatuses p)"

fun AnyCrashLooping :: "pod list \<Rightarrow> bool" where
  "AnyCrashLooping [] = False"
| "AnyCrashLooping (p # ps) =
     (if p_deletion p \<noteq> None then AnyCrashLooping ps
      else if IsCrashLooping p then True
      else AnyCrashLooping ps)"

record WorkloadPhaseInput =
  Ready :: int
  Total :: int
  GenerationCurrent :: int
  GenerationObserved :: int
  Pods :: "pod list option"
  ComponentName :: string

record WorkloadPhaseResult =
  wr_phase :: Phase
  wr_message :: string

definition ComputeWorkloadPhase :: "WorkloadPhaseInput \<Rightarrow> WorkloadPhaseResult" where
  "ComputeWorkloadPhase inp =
     (if (case Pods inp of None \<Rightarrow> False | Some pods \<Rightarrow> AnyCrashLooping pods)
      then \<lparr>wr_phase = PhaseDegraded,
            wr_message = ComponentName inp @ '': one or more pods are crash-looping''\<rparr>
      else
        let phase = ComputePhase (Ready inp) (Total inp) in
        if GenerationCurrent inp \<noteq> GenerationObserved inp
        then \<lparr>wr_phase = PhaseProgressing, wr_message = ComponentName inp @ '' is progressing''\<rparr>
        else if phase \<noteq> PhaseHealthy
        then \<lparr>wr_phase = phase,
              wr_message = ComponentName inp @ '': '' @ itoa (Ready inp) @ ''/'' @ itoa (Total inp)
                             @ '' replicas ready''\<rparr>
        else \<lparr>wr_phase = PhaseHealthy, wr_message = ''Ready''\<rparr>)"

text \<open>
  The watch filter. An event carries the objects before and after; \<^const>\<open>None\<close> is an object that is
  not of the watched type. The empty phase is \<^const>\<open>PhaseUnset\<close>.
\<close>

datatype 'o watch_event =
    CreateEvent 'o | DeleteEvent 'o | GenericEvent 'o | UpdateEvent "'o option" "'o option"

fun PhaseClearedPredicate :: "('o \<Rightarrow> Phase) \<Rightarrow> 'o watch_event \<Rightarrow> bool" where
  "PhaseClearedPredicate phase (UpdateEvent (Some oldObj) (Some newObj)) =
     (phase oldObj \<noteq> PhaseUnset \<and> phase newObj = PhaseUnset)"
| "PhaseClearedPredicate phase _ = False"

subsection \<open>The contract of a condition store\<close>

definition look :: "condition list \<Rightarrow> string \<Rightarrow> condition option" where
  "look conditions t = find (\<lambda>c. c_type c = t) conditions"

definition carry :: "condition option \<Rightarrow> condition \<Rightarrow> condition" where
  "carry old new =
     (case old of
        Some c \<Rightarrow> if c_status c = c_status new
                  then new\<lparr>c_last_transition := c_last_transition c\<rparr> else new
      | None \<Rightarrow> new)"

text \<open>
  The transition time of a stored condition moves only when the status does; that is what \<^const>\<open>carry\<close>
  says, and what a client of the store can count on.
\<close>

locale condition_store =
  fixes put :: "'s \<Rightarrow> condition \<Rightarrow> 's"
    and get :: "'s \<Rightarrow> string \<Rightarrow> condition option"
  assumes get_put_same: "get (put s c) (c_type c) = Some (carry (get s (c_type c)) c)"
    and get_put_other: "t \<noteq> c_type c \<Longrightarrow> get (put s c) t = get s t"
begin

lemma get_put: "get (put s c) t = (if t = c_type c then Some (carry (get s t) c) else get s t)"
  by (simp add: get_put_same get_put_other)

lemma get_foldl_other:
  "t \<notin> c_type ` set cs \<Longrightarrow> get (foldl put s cs) t = get s t"
  by (induction cs arbitrary: s) (auto simp: get_put)

lemma status_put: "map_option c_status (get (put s c) (c_type c)) = Some (c_status c)"
  by (simp add: get_put carry_def split: option.split)

lemma transition_kept:
  assumes "get s (c_type c) = Some old" and "c_status old = c_status c"
  shows "map_option c_last_transition (get (put s c) (c_type c)) = Some (c_last_transition old)"
  using assms by (simp add: get_put carry_def)

lemma transition_moved:
  assumes "get s (c_type c) = Some old" and "c_status old \<noteq> c_status c"
  shows "get (put s c) (c_type c) = Some c"
  using assms by (simp add: get_put carry_def)

lemma put_again:
  "c_status d = c_status c \<Longrightarrow> c_type d = c_type c \<Longrightarrow>
   map_option c_last_transition (get (put (put s c) d) (c_type d))
     = map_option c_last_transition (get (put s c) (c_type c))"
  by (auto simp: get_put carry_def split: option.splits)

end

lemma look_simps [simp]:
  "look [] t = None"
  "look (c # cs) t = (if c_type c = t then Some c else look cs t)"
  by (simp_all add: look_def)

lemma look_SetCondition:
  "look (SetCondition conditions c) t
     = (if t = c_type c then Some (carry (look conditions t) c) else look conditions t)"
  by (induction conditions c rule: SetCondition.induct) (auto simp: carry_def)

interpretation conds: condition_store SetCondition look
  by unfold_locales (simp_all add: look_SetCondition)

lemma IsConditionTrue_look:
  "IsConditionTrue conditions t \<longleftrightarrow> map_option c_status (look conditions t) = Some ConditionTrue"
  by (induction conditions) auto

lemma IsConditionFalse_look:
  "IsConditionFalse conditions t \<longleftrightarrow> map_option c_status (look conditions t) = Some ConditionFalse"
  by (induction conditions) auto

lemma types_SetCondition:
  "map c_type (SetCondition conditions c)
     = (if c_type c \<in> set (map c_type conditions) then map c_type conditions
        else map c_type conditions @ [c_type c])"
  by (induction conditions c rule: SetCondition.induct) auto

lemma distinct_SetCondition [intro]:
  "distinct (map c_type conditions) \<Longrightarrow> distinct (map c_type (SetCondition conditions c))"
  by (simp add: types_SetCondition)

lemma AnyCrashLooping_iff:
  "AnyCrashLooping pods \<longleftrightarrow> (\<exists>p\<in>set pods. p_deletion p = None \<and> IsCrashLooping p)"
  by (induction pods) auto

subsection \<open>Properties\<close>

text \<open>
  \<^const>\<open>SetCondition\<close> stores the condition under its type, keeps the transition time of the
  previous entry exactly when the status did not change, leaves the conditions of every other type
  alone, and never lets two conditions share a type.
\<close>

theorem SetCondition_contract:
  "look (SetCondition cs c) (c_type c)
     = Some (case look cs (c_type c) of
               Some old \<Rightarrow> if c_status old = c_status c
                           then c\<lparr>c_last_transition := c_last_transition old\<rparr> else c
             | None \<Rightarrow> c)
   \<and> (\<forall>t. t \<noteq> c_type c \<longrightarrow> look (SetCondition cs c) t = look cs t)
   \<and> (distinct (map c_type cs) \<longrightarrow> distinct (map c_type (SetCondition cs c)))"
  using conds.get_put_same [of cs c] conds.get_put_other [of _ c cs]
  by (simp add: carry_def distinct_SetCondition split: option.splits)

theorem SetCondition_contract_witness:
  "let old = \<lparr>c_type = ''A'', c_status = ConditionTrue, c_observed_generation = 1,
              c_last_transition = 5, c_reason = ''R'', c_message = []\<rparr>;
       new = \<lparr>c_type = ''A'', c_status = ConditionTrue, c_observed_generation = 2,
              c_last_transition = 9, c_reason = ''S'', c_message = []\<rparr>
   in look (SetCondition [old] new) ''A'' = Some (new\<lparr>c_last_transition := 5\<rparr>)
      \<and> distinct (map c_type (SetCondition [old] new))
      \<and> look (SetCondition [old] new) ''B'' = None"
  using SetCondition_contract
    [of "[\<lparr>c_type = ''A'', c_status = ConditionTrue, c_observed_generation = 1,
            c_last_transition = 5, c_reason = ''R'', c_message = []\<rparr>]"
        "\<lparr>c_type = ''A'', c_status = ConditionTrue, c_observed_generation = 2,
            c_last_transition = 9, c_reason = ''S'', c_message = []\<rparr>"]
  by (simp add: Let_def)

text \<open>
  The phase of a workload. It is Degraded exactly when a pod that is not terminating crash-loops,
  Healthy exactly when none does, the observed generation is current and all of a non-zero number of
  replicas are ready, Initializing exactly when none does, the generation is current and no replicas
  are wanted, and Progressing otherwise; never Unknown and never empty.
\<close>

theorem ComputeWorkloadPhase_phase:
  "wr_phase (ComputeWorkloadPhase inp) =
     (if \<exists>pods. Pods inp = Some pods \<and> (\<exists>p\<in>set pods. p_deletion p = None \<and> IsCrashLooping p)
      then PhaseDegraded
      else if GenerationCurrent inp = GenerationObserved inp \<and> Total inp = 0 then PhaseInitializing
      else if GenerationCurrent inp = GenerationObserved inp \<and> Ready inp = Total inp
      then PhaseHealthy
      else PhaseProgressing)"
  by (simp add: ComputeWorkloadPhase_def ComputePhase_def Let_def flip: AnyCrashLooping_iff
      split: option.split)

end
