(* ===== verification/Posture.thy ===== *)
theory Posture
  imports Topo_Poolers Status_Conditions
begin

text \<open>
  Observation of the data plane, \<^verbatim>\<open>src/pkg/data-handler/posture/posture.go\<close>: what each pooler reports
  about its PostgreSQL, whether that agrees with the role the topology advertises, and whether the
  pooler is ready to serve.

  The pooler's status RPC is third-party. A response is a record whose message fields are options,
  read through the generated getters, which take a missing message for one with default values. The
  two nested messages around a consensus position are one option, as the code only ever reads through
  both. \<^verbatim>\<open>idString\<close> is \<^verbatim>\<open>topoclient.ClusterIDString\<close>; it is also called on a missing identity.
\<close>

subsection \<open>Status responses\<close>

datatype postgres_status = POSTGRES_STATUS_UNKNOWN | POSTGRES_STATUS_PRIMARY
  | POSTGRES_STATUS_STANDBY | POSTGRES_STATUS_PROMOTING | POSTGRES_STATUS_STARTING

datatype eligibility_signal = ELIGIBILITY_UNSPECIFIED | ELIGIBLE | INELIGIBLE

datatype leadership_signal = LEADERSHIP_UNSPECIFIED | REQUESTING_DEMOTION

record primary_status =
  pr_ready :: bool
  pr_connected :: "pooler_id list"

record pooler_status =
  st_initialized :: bool
  st_pg_ready :: bool
  st_pg_status :: postgres_status
  st_pg_action :: string
  st_primary :: "primary_status option"

record leadership_status =
  ls_signal :: leadership_signal
  ls_term :: int

record availability =
  av_eligibility :: "eligibility_signal option"
  av_leadership :: "leadership_status option"

record durability_policy =
  dp_name :: string
  dp_quorum :: string
  dp_required :: int

record shard_rule =
  ru_number :: "int option"
  ru_leader :: "pooler_id option"
  ru_cohort :: "pooler_id list"
  ru_policy :: "durability_policy option"

record rule_position =
  rp_decision :: "shard_rule option"
  rp_proposal :: "string option"

record consensus_status =
  cs_id :: "pooler_id option"
  cs_position :: "rule_position option"
  cs_recruit_blocked_until :: "gotime option"
  cs_revocation :: "string option"

record status_response =
  sr_status :: "pooler_status option"
  sr_availability :: "availability option"
  sr_consensus :: "consensus_status option"

type_synonym id_string = "pooler_id option \<Rightarrow> string"
type_synonym status_rpc = "pooler \<Rightarrow> string + status_response"

definition get_status :: "status_response option \<Rightarrow> pooler_status" where
  "get_status resp =
     (case Option.bind resp sr_status of
        Some s \<Rightarrow> s
      | None \<Rightarrow> \<lparr>st_initialized = False, st_pg_ready = False, st_pg_status = POSTGRES_STATUS_UNKNOWN,
                 st_pg_action = [], st_primary = None\<rparr>)"

definition get_position :: "status_response option \<Rightarrow> rule_position option" where
  "get_position resp = Option.bind (Option.bind resp sr_consensus) cs_position"

definition get_decision :: "rule_position option \<Rightarrow> shard_rule option" where
  "get_decision pos = Option.bind pos rp_decision"

definition get_proposal :: "rule_position option \<Rightarrow> string option" where
  "get_proposal pos = Option.bind pos rp_proposal"

definition get_cohort :: "shard_rule option \<Rightarrow> pooler_id list" where
  "get_cohort rule = (case rule of Some r \<Rightarrow> ru_cohort r | None \<Rightarrow> [])"

subsection \<open>Readiness of a pooler\<close>

abbreviation ConditionConsistent :: string where
  "ConditionConsistent \<equiv> ''PostureConsistent''"

record Readiness =
  rd_ready :: bool
  rd_reason :: string
  rd_message :: string

definition not_ready :: "string \<Rightarrow> string \<Rightarrow> Readiness" where
  "not_ready reason message = \<lparr>rd_ready = False, rd_reason = reason, rd_message = message\<rparr>"

abbreviation reasonAwaitingRegistration :: string where
  "reasonAwaitingRegistration \<equiv> ''AwaitingRegistration''"

definition postureString :: "postgres_status \<Rightarrow> string" where
  "postureString s =
     (case s of
        POSTGRES_STATUS_PRIMARY \<Rightarrow> ''PRIMARY''
      | POSTGRES_STATUS_STANDBY \<Rightarrow> ''STANDBY''
      | POSTGRES_STATUS_PROMOTING \<Rightarrow> ''PROMOTING''
      | POSTGRES_STATUS_STARTING \<Rightarrow> ''STARTING''
      | POSTGRES_STATUS_UNKNOWN \<Rightarrow> ''UNKNOWN'')"

definition committedCohortContains ::
  "id_string \<Rightarrow> status_response option \<Rightarrow> pooler_id option \<Rightarrow> bool" where
  "committedCohortContains idString resp poolerID =
     (case (get_decision (get_position resp), poolerID) of
        (Some decision, Some i) \<Rightarrow>
          list_ex (\<lambda>member. idString (Some member) = idString (Some i)) (ru_cohort decision)
      | _ \<Rightarrow> False)"

definition poolerReadiness ::
  "id_string \<Rightarrow> status_response option \<Rightarrow> pooler_id option \<Rightarrow> string \<times> Readiness" where
  "poolerReadiness idString resp poolerID =
     (let status = get_status resp;
          posture = postureString (st_pg_status status)
      in if \<not> st_initialized status
         then (posture, not_ready ''NotInitialized'' ''pooler initialization has not completed'')
         else if \<not> st_pg_ready status
         then (posture, not_ready ''PostgresNotReady'' ''PostgreSQL is not accepting connections'')
         else if Option.bind (Option.bind resp sr_availability) av_eligibility \<noteq> Some ELIGIBLE
         then (posture, not_ready ''CohortIneligible''
                          ''pooler is not eligible to participate in the shard cohort'')
         else if \<not> committedCohortContains idString resp poolerID
         then (posture, not_ready ''NotCohortMember''
                          ''pooler is not a member of its committed shard cohort'')
         else (posture, \<lparr>rd_ready = True, rd_reason = ''DataPlaneReady'',
                 rd_message = ''PostgreSQL is ready and the pooler is an eligible shard cohort member''\<rparr>))"

definition observePooler :: "id_string \<Rightarrow> status_rpc \<Rightarrow> pooler \<Rightarrow> string \<times> Readiness" where
  "observePooler idString rpc p =
     (case rpc p of
        Inl err \<Rightarrow> (''UNKNOWN'', not_ready ''StatusUnavailable''
                                   (''multipooler status RPC failed: '' @ err))
      | Inr resp \<Rightarrow> poolerReadiness idString (Some resp) (mp_id p))"

subsection \<open>Evaluating a shard\<close>

record Result =
  Postures :: "(string \<times> string) list"
  res_readiness :: "(string \<times> Readiness) list"
  MultiplePrimaries :: bool
  Mismatches :: "string list"
  PrimaryCount :: nat
  Incomplete :: bool
  Message :: string

text \<open>The maps the loop of \<^verbatim>\<open>Evaluate\<close> fills.\<close>

record scan =
  sc_postures :: "(string \<times> string) list"
  sc_readiness :: "(string \<times> Readiness) list"
  sc_topo_primary :: "(string \<times> bool) list"
  sc_incomplete :: bool

definition scan_pooler :: "id_string \<Rightarrow> status_rpc \<Rightarrow> string list \<Rightarrow> scan \<Rightarrow> pooler \<Rightarrow> scan" where
  "scan_pooler idString rpc managedPodNames s p =
     (if isLifecycleShutdown p then s
      else let podName = matchPoolerToPod p managedPodNames
           in if podName = [] then s\<lparr>sc_incomplete := True\<rparr>
              else let (posture, readiness) = observePooler idString rpc p
                   in s\<lparr>sc_topo_primary := upd podName (IsPrimaryPooler p) (sc_topo_primary s),
                        sc_postures := upd podName posture (sc_postures s),
                        sc_readiness := upd podName readiness (sc_readiness s),
                        sc_incomplete := (sc_incomplete s \<or> posture = ''UNKNOWN'')\<rparr>)"

fun scan_cells ::
  "id_string \<Rightarrow> pooler_query \<Rightarrow> status_rpc \<Rightarrow> string list \<Rightarrow> scan \<Rightarrow> string list
     \<Rightarrow> (string \<times> topo_error) + scan" where
  "scan_cells idString getPoolers rpc managedPodNames s [] = Inr s"
| "scan_cells idString getPoolers rpc managedPodNames s (cell # cells) =
     (case getPoolers cell of
        Inl err \<Rightarrow>
          (if IsTopoUnavailable (Some err)
           then scan_cells idString getPoolers rpc managedPodNames (s\<lparr>sc_incomplete := True\<rparr>) cells
           else Inl (cell, err))
      | Inr poolers \<Rightarrow>
          scan_cells idString getPoolers rpc managedPodNames
            (foldl (scan_pooler idString rpc managedPodNames) s poolers) cells)"

definition mismatchMessage :: "string list \<Rightarrow> string" where
  "mismatchMessage mismatches =
     (case mismatches of
        [m] \<Rightarrow> ''pod '' @ m @ '' reports postgres primary but topology role is REPLICA''
      | _ \<Rightarrow> ''pods '' @ join '', '' mismatches
               @ '' report postgres primary but topology role is REPLICA'')"

text \<open>The verb \<^verbatim>\<open>%v\<close> prints a slice of strings between brackets, separated by spaces.\<close>

definition summarize :: "scan \<Rightarrow> Result" where
  "summarize s =
     (let primaries = sort (map fst (filter (\<lambda>(pod, observed). observed = ''PRIMARY'') (sc_postures s)));
          mismatches = filter (\<lambda>pod. map_of (sc_topo_primary s) pod \<noteq> Some True) primaries;
          n = length primaries
      in \<lparr>Postures = sc_postures s, res_readiness = sc_readiness s, MultiplePrimaries = (1 < n),
          Mismatches = mismatches, PrimaryCount = n, Incomplete = sc_incomplete s,
          Message =
            (if 1 < n then ''observed '' @ utoa n @ '' write-capable primaries: [''
                            @ join '' '' primaries @ '']''
             else if mismatches \<noteq> [] then mismatchMessage mismatches
             else if sc_incomplete s then ''posture observation incomplete''
             else ''postures consistent with topology roles'')\<rparr>)"

definition seed :: "string list \<Rightarrow> scan" where
  "seed managedPodNames =
     \<lparr>sc_postures = [],
      sc_readiness = foldl (\<lambda>m n. upd n (not_ready reasonAwaitingRegistration
        ''pooler has not registered in the shard topology'') m) [] managedPodNames,
      sc_topo_primary = [], sc_incomplete = False\<rparr>"

definition Evaluate ::
  "id_string \<Rightarrow> pooler_query \<Rightarrow> status_rpc \<Rightarrow> shard \<Rightarrow> string list
     \<Rightarrow> (string \<times> topo_error) + Result option" where
  "Evaluate idString getPoolers rpc shd managedPodNames =
     (case scan_cells idString getPoolers rpc managedPodNames (seed managedPodNames)
             (CollectCells shd) of
        Inl err \<Rightarrow> Inl err
      | Inr s \<Rightarrow>
          (if sc_postures s = [] \<and> \<not> sc_incomplete s then Inr None else Inr (Some (summarize s))))"

definition Apply :: "gotime \<Rightarrow> shard \<Rightarrow> Result option \<Rightarrow> shard" where
  "Apply now shd result =
     (case result of
        None \<Rightarrow> shd
      | Some r \<Rightarrow>
          let shd = shd\<lparr>s_pod_postures := Postures r\<rparr>;
              cond = (\<lambda>st reason. \<lparr>c_type = ConditionConsistent, c_status = st,
                        c_observed_generation = s_generation shd, c_last_transition = now,
                        c_reason = reason, c_message = Message r\<rparr>);
              publish = (\<lambda>c. shd\<lparr>s_conditions := SetCondition (s_conditions shd) c\<rparr>)
          in if MultiplePrimaries r then publish (cond ConditionFalse ''MultiplePrimaries'')
             else if Mismatches r \<noteq> [] then publish (cond ConditionFalse ''RoleMismatch'')
             else if Incomplete r
             then (if IsConditionFalse (s_conditions shd) ConditionConsistent then shd
                   else publish (cond ConditionUnknown ''ObservationIncomplete''))
             else publish (cond ConditionTrue ''Consistent''))"

subsection \<open>Lemmas\<close>

lemma poolerReadiness_ready:
  "rd_ready (snd (poolerReadiness idString resp i)) \<longleftrightarrow>
     st_initialized (get_status resp) \<and> st_pg_ready (get_status resp)
     \<and> Option.bind (Option.bind resp sr_availability) av_eligibility = Some ELIGIBLE
     \<and> committedCohortContains idString resp i"
  by (simp add: poolerReadiness_def Let_def not_ready_def)

lemma fst_poolerReadiness:
  "fst (poolerReadiness idString resp i) = postureString (st_pg_status (get_status resp))"
  by (simp add: poolerReadiness_def Let_def)

text \<open>A pooler that leaves the observation incomplete.\<close>

definition unobservable :: "id_string \<Rightarrow> status_rpc \<Rightarrow> string list \<Rightarrow> pooler \<Rightarrow> bool" where
  "unobservable idString rpc managedPodNames p \<longleftrightarrow>
     \<not> isLifecycleShutdown p \<and>
     (matchPoolerToPod p managedPodNames = [] \<or> fst (observePooler idString rpc p) = ''UNKNOWN'')"

lemma scan_pooler_incomplete:
  "sc_incomplete (scan_pooler idString rpc names s p) \<longleftrightarrow>
     sc_incomplete s \<or> unobservable idString rpc names p"
  by (auto simp: scan_pooler_def unobservable_def Let_def split: prod.split)

lemma foldl_scan_incomplete:
  "sc_incomplete (foldl (scan_pooler idString rpc names) s ps) \<longleftrightarrow>
     sc_incomplete s \<or> (\<exists>p\<in>set ps. unobservable idString rpc names p)"
  by (induction ps arbitrary: s) (auto simp: scan_pooler_incomplete)

lemma scan_cells_incomplete:
  "scan_cells idString getPoolers rpc names s cells = Inr t \<Longrightarrow>
   sc_incomplete t \<longleftrightarrow> sc_incomplete s
     \<or> (\<exists>cell\<in>set cells. (\<exists>e. getPoolers cell = Inl e)
          \<or> (\<exists>ps p. getPoolers cell = Inr ps \<and> p \<in> set ps \<and> unobservable idString rpc names p))"
proof (induction cells arbitrary: s)
  case (Cons cell cells)
  show ?case
  proof (cases "getPoolers cell")
    case (Inl e)
    with Cons.prems have "scan_cells idString getPoolers rpc names (s\<lparr>sc_incomplete := True\<rparr>) cells = Inr t"
      by (simp split: if_splits)
    from Cons.IH [OF this] Inl show ?thesis by auto
  next
    case (Inr ps)
    with Cons.prems
    have "scan_cells idString getPoolers rpc names (foldl (scan_pooler idString rpc names) s ps) cells = Inr t"
      by simp
    from Cons.IH [OF this] Inr show ?thesis by (auto simp: foldl_scan_incomplete)
  qed
qed simp

lemma distinct_scan_pooler:
  "distinct (map fst (sc_postures s)) \<Longrightarrow>
   distinct (map fst (sc_postures (scan_pooler idString rpc names s p)))"
  by (auto simp: scan_pooler_def Let_def split: prod.split)

lemma distinct_foldl_scan:
  "distinct (map fst (sc_postures s)) \<Longrightarrow>
   distinct (map fst (sc_postures (foldl (scan_pooler idString rpc names) s ps)))"
  by (induction ps arbitrary: s) (simp_all add: distinct_scan_pooler)

lemma distinct_scan_cells:
  "distinct (map fst (sc_postures s)) \<Longrightarrow>
   scan_cells idString getPoolers rpc names s cells = Inr t \<Longrightarrow>
   distinct (map fst (sc_postures t))"
proof (induction cells arbitrary: s)
  case (Cons cell cells)
  show ?case
  proof (cases "getPoolers cell")
    case (Inl e)
    with Cons.prems show ?thesis
      by (intro Cons.IH [of "s\<lparr>sc_incomplete := True\<rparr>"]) (simp_all split: if_splits)
  next
    case (Inr ps)
    with Cons.prems show ?thesis
      by (intro Cons.IH [of "foldl (scan_pooler idString rpc names) s ps"])
        (simp_all add: distinct_foldl_scan)
  qed
qed simp

lemma summarize_counts:
  "PrimaryCount (summarize s) = length (filter (\<lambda>(pod, observed). observed = ''PRIMARY'') (sc_postures s))"
  "Mismatches (summarize s) = [] \<longleftrightarrow>
     (\<forall>(pod, observed)\<in>set (sc_postures s). observed = ''PRIMARY'' \<longrightarrow>
        map_of (sc_topo_primary s) pod = Some True)"
  by (auto simp: summarize_def Let_def filter_empty_conv)

subsection \<open>Properties\<close>

text \<open>
  \<^const>\<open>Evaluate\<close> reports an observation as incomplete exactly when it should. A result it returns is
  complete iff every cell of the shard was read and every pooler in it that is not shut down matched a
  managed pod and answered its status RPC with a known PostgreSQL state.
\<close>

theorem Evaluate_complete_iff:
  assumes "Evaluate idString getPoolers rpc shd managed = Inr (Some r)"
  shows "\<not> Incomplete r \<longleftrightarrow>
     (\<forall>cell\<in>set (CollectCells shd). \<exists>ps. getPoolers cell = Inr ps
        \<and> (\<forall>p\<in>set ps. \<not> isLifecycleShutdown p \<longrightarrow>
             matchPoolerToPod p managed \<noteq> []
             \<and> (\<exists>resp. rpc p = Inr resp
                  \<and> st_pg_status (get_status (Some resp)) \<noteq> POSTGRES_STATUS_UNKNOWN)))"
proof -
  obtain t where t: "scan_cells idString getPoolers rpc managed (seed managed) (CollectCells shd) = Inr t"
      and r: "r = summarize t"
    using assms by (auto simp: Evaluate_def split: sum.splits if_splits)
  have post: "fst (observePooler idString rpc p) = ''UNKNOWN'' \<longleftrightarrow>
      \<not> (\<exists>resp. rpc p = Inr resp
            \<and> st_pg_status (get_status (Some resp)) \<noteq> POSTGRES_STATUS_UNKNOWN)" for p
    by (auto simp: observePooler_def fst_poolerReadiness postureString_def
        split: sum.split postgres_status.splits)
  have cell: "\<not> ((\<exists>e. getPoolers c = Inl e) \<or> (\<exists>ps p. getPoolers c = Inr ps \<and> p \<in> set ps
        \<and> unobservable idString rpc managed p))
      \<longleftrightarrow> (\<exists>ps. getPoolers c = Inr ps \<and> (\<forall>p\<in>set ps. \<not> isLifecycleShutdown p \<longrightarrow>
             matchPoolerToPod p managed \<noteq> []
             \<and> (\<exists>resp. rpc p = Inr resp
                  \<and> st_pg_status (get_status (Some resp)) \<noteq> POSTGRES_STATUS_UNKNOWN)))" for c
    by (cases "getPoolers c") (auto simp: unobservable_def post)
  have "Incomplete r = sc_incomplete t" by (simp add: r summarize_def Let_def)
  also have "\<dots> \<longleftrightarrow> (\<exists>cell\<in>set (CollectCells shd). (\<exists>e. getPoolers cell = Inl e)
      \<or> (\<exists>ps p. getPoolers cell = Inr ps \<and> p \<in> set ps \<and> unobservable idString rpc managed p))"
    using scan_cells_incomplete [OF t] by (simp add: seed_def)
  finally show ?thesis
    by (simp add: cell [symmetric] del: set_CollectCells)
qed

theorem Evaluate_complete_iff_witness:
  "\<exists>r. Evaluate (\<lambda>i. []) (\<lambda>c. Inr [\<lparr>mp_id = None, mp_hostname = ''p'', mp_lifecycle = None,
      mp_routing = None\<rparr>]) (\<lambda>p. Inl ''timeout'') sample_shard [''p''] = Inr (Some r) \<and> Incomplete r"
proof -
  let ?q = "\<lambda>c :: string. Inr [\<lparr>mp_id = None, mp_hostname = ''p'', mp_lifecycle = None,
      mp_routing = None\<rparr>] :: topo_error + pooler list"
  have c: "CollectCells sample_shard = [''z1'']"
    by (simp add: CollectCells_def sample_defs)
  obtain r where r: "Evaluate (\<lambda>i. []) ?q (\<lambda>p. Inl ''timeout'') sample_shard [''p''] = Inr (Some r)"
    by (simp add: Evaluate_def c scan_pooler_def isLifecycleShutdown_def matchPoolerToPod_def
        PodMatchesPooler_def observePooler_def Let_def)
  have "Incomplete r"
    using Evaluate_complete_iff [OF r] by (simp add: c isLifecycleShutdown_def)
  with r show ?thesis by blast
qed

text \<open>
  Two write-capable primaries are noticed. A result reports several primaries exactly when two
  different pods were observed as primary, and it then counts every pod observed so.
\<close>

theorem Evaluate_multiple_primaries:
  assumes "Evaluate idString getPoolers rpc shd managed = Inr (Some r)"
  shows "(MultiplePrimaries r \<longleftrightarrow> (\<exists>a b. a \<noteq> b \<and> (a, ''PRIMARY'') \<in> set (Postures r)
            \<and> (b, ''PRIMARY'') \<in> set (Postures r)))
         \<and> PrimaryCount r = card {a. (a, ''PRIMARY'') \<in> set (Postures r)}"
proof -
  obtain t where t: "scan_cells idString getPoolers rpc managed (seed managed) (CollectCells shd) = Inr t"
      and r: "r = summarize t"
    using assms by (auto simp: Evaluate_def split: sum.splits if_splits)
  define f where "f = filter (\<lambda>(pod, observed). observed = ''PRIMARY'') (sc_postures t)"
  have "distinct (map fst (sc_postures t))"
    by (rule distinct_scan_cells [OF _ t]) (simp add: seed_def)
  then have d: "distinct (map fst f)" by (simp add: f_def distinct_map_filter)
  have s: "{a. (a, ''PRIMARY'') \<in> set (Postures r)} = set (map fst f)"
    by (force simp: r f_def summarize_def Let_def)
  have n: "PrimaryCount r = card (set (map fst f))"
    using distinct_card [OF d] by (simp add: r f_def summarize_counts)
  have "MultiplePrimaries r \<longleftrightarrow> 1 < card (set (map fst f))"
    using n by (simp add: r summarize_def Let_def)
  also have "\<dots> \<longleftrightarrow> (\<exists>a b. a \<noteq> b \<and> a \<in> set (map fst f) \<and> b \<in> set (map fst f))"
    by (metis List.finite_set One_nat_def card_le_Suc0_iff_eq not_less)
  finally show ?thesis using n unfolding s [symmetric] by simp
qed

theorem Evaluate_multiple_primaries_witness:
  "\<exists>r. Evaluate (\<lambda>i. []) (\<lambda>c. Inr [\<lparr>mp_id = None, mp_hostname = ''p'', mp_lifecycle = None,
      mp_routing = None\<rparr>]) (\<lambda>p. Inl ''timeout'') sample_shard [''p''] = Inr (Some r)
    \<and> PrimaryCount r = card {a. (a, ''PRIMARY'') \<in> set (Postures r)}"
proof -
  have c: "CollectCells sample_shard = [''z1'']"
    by (simp add: CollectCells_def sample_defs)
  obtain r where r: "Evaluate (\<lambda>i. []) (\<lambda>c. Inr [\<lparr>mp_id = None, mp_hostname = ''p'',
      mp_lifecycle = None, mp_routing = None\<rparr>]) (\<lambda>p. Inl ''timeout'') sample_shard [''p'']
      = Inr (Some r)"
    by (simp add: Evaluate_def c scan_pooler_def isLifecycleShutdown_def matchPoolerToPod_def
        PodMatchesPooler_def observePooler_def Let_def)
  with Evaluate_multiple_primaries [OF r] show ?thesis by blast
qed

text \<open>
  what \<^const>\<open>Apply\<close> publishes. The consistency condition becomes true exactly on a complete
  observation with at most one primary and no mismatch; it is false exactly when several primaries or
  a mismatch were seen, or when the observation is incomplete and it was false before, so that a
  partial scan never clears a confirmed failure. No condition of another type changes.
\<close>

theorem Apply_condition:
  "let shd' = Apply now shd (Some r) in
     (IsConditionTrue (s_conditions shd') ConditionConsistent \<longleftrightarrow>
        \<not> MultiplePrimaries r \<and> Mismatches r = [] \<and> \<not> Incomplete r)
   \<and> (IsConditionFalse (s_conditions shd') ConditionConsistent \<longleftrightarrow>
        MultiplePrimaries r \<or> Mismatches r \<noteq> []
        \<or> Incomplete r \<and> IsConditionFalse (s_conditions shd) ConditionConsistent)
   \<and> (\<forall>t. t = ConditionConsistent \<or> look (s_conditions shd') t = look (s_conditions shd) t)
   \<and> s_pod_postures shd' = Postures r"
  by (auto simp: Apply_def Let_def IsConditionTrue_look IsConditionFalse_look look_SetCondition
      carry_def split: option.splits)

theorem Apply_condition_witness:
  "IsConditionFalse (s_conditions (Apply 5 sample_shard (Some \<lparr>Postures = [(''a'', ''PRIMARY'')],
     res_readiness = [], MultiplePrimaries = False, Mismatches = [''a''], PrimaryCount = 1,
     Incomplete = True, Message = ''m''\<rparr>))) ConditionConsistent"
  using Apply_condition [of 5 sample_shard "\<lparr>Postures = [(''a'', ''PRIMARY'')],
     res_readiness = [], MultiplePrimaries = False, Mismatches = [''a''], PrimaryCount = 1,
     Incomplete = True, Message = ''m''\<rparr>"]
  by (simp add: Let_def)

end
