(* ===== verification/Backup_Health.thy ===== *)
theory Backup_Health
  imports Topo_Poolers Status_Conditions
begin

text \<open>
  Health of a shard's backups, \<^verbatim>\<open>src/pkg/data-handler/backuphealth/backuphealth.go\<close>: the newest completed
  backup of the primary pooler, its age, and the condition published from it.

  The RPC that lists backups is third-party and an argument. \<^verbatim>\<open>time.Parse\<close> is modelled for the one layout
  the code uses, \<^verbatim>\<open>20060102-150405\<close>. The human-readable messages are values of \<^verbatim>\<open>health_message\<close>, since
  they format ages as floating-point hours; \<^verbatim>\<open>render\<close> stands for that formatting.
\<close>

subsection \<open>Times in backup identifiers\<close>

definition is_leap :: "int \<Rightarrow> bool" where
  "is_leap y \<longleftrightarrow> y mod 4 = 0 \<and> (y mod 100 \<noteq> 0 \<or> y mod 400 = 0)"

definition days_in :: "int \<Rightarrow> int \<Rightarrow> int" where
  "days_in y m =
     (if m = 2 then (if is_leap y then 29 else 28)
      else if m \<in> {4, 6, 9, 11} then 30 else 31)"

text \<open>Days from 1 January of year 1, the zero time, to the first day of a year and of a month.\<close>

definition days_before_year :: "int \<Rightarrow> int" where
  "days_before_year y = 365 * (y - 1) + (y - 1) div 4 - (y - 1) div 100 + (y - 1) div 400"

fun days_before_month :: "int \<Rightarrow> nat \<Rightarrow> int" where
  "days_before_month y 0 = 0"
| "days_before_month y (Suc n) = days_before_month y n + days_in y (int (Suc n))"

record civil =
  cv_year :: int
  cv_month :: int
  cv_day :: int
  cv_hour :: int
  cv_minute :: int
  cv_second :: int

definition civil_valid :: "civil \<Rightarrow> bool" where
  "civil_valid c \<longleftrightarrow>
     1 \<le> cv_month c \<and> cv_month c \<le> 12 \<and> 1 \<le> cv_day c \<and> cv_day c \<le> days_in (cv_year c) (cv_month c)
     \<and> cv_hour c < 24 \<and> cv_minute c < 60 \<and> cv_second c < 60"

definition civil_days :: "civil \<Rightarrow> int" where
  "civil_days c =
     days_before_year (cv_year c) + days_before_month (cv_year c) (nat (cv_month c - 1)) + cv_day c - 1"

definition civil_time :: "civil \<Rightarrow> gotime" where
  "civil_time c =
     (((civil_days c * 24 + cv_hour c) * 60 + cv_minute c) * 60 + cv_second c) * second"

text \<open>The number in bytes \<^verbatim>\<open>i\<close> to \<^verbatim>\<open>i + n - 1\<close>.\<close>

definition num_at :: "string \<Rightarrow> nat \<Rightarrow> nat \<Rightarrow> int" where
  "num_at s i n = int (atou 0 (take n (drop i s)))"

definition read_civil :: "string \<Rightarrow> civil" where
  "read_civil s =
     \<lparr>cv_year = num_at s 0 4, cv_month = num_at s 4 2, cv_day = num_at s 6 2,
      cv_hour = num_at s 9 2, cv_minute = num_at s 11 2, cv_second = num_at s 13 2\<rparr>"

definition parse_backup_layout :: "string \<Rightarrow> gotime option" where
  "parse_backup_layout s =
     (if length s = 15 \<and> list_all is_digit (take 8 s) \<and> s ! 8 = CHR ''-'' \<and> list_all is_digit (drop 9 s)
         \<and> civil_valid (read_civil s)
      then Some (civil_time (read_civil s)) else None)"

definition ParseTime :: "string \<Rightarrow> gotime" where
  "ParseTime backupID =
     (if length backupID < 15 then 0
      else (case parse_backup_layout (take 15 backupID) of None \<Rightarrow> 0 | Some t \<Rightarrow> t))"

subsection \<open>Evaluating backups\<close>

definition BackupStaleThreshold :: duration where
  "BackupStaleThreshold = 25 * hour"

abbreviation ConditionHealthy :: string where
  "ConditionHealthy \<equiv> ''BackupHealthy''"

datatype backup_status = BACKUP_UNKNOWN | BACKUP_INCOMPLETE | BACKUP_COMPLETE

record backup_metadata =
  bm_id :: string
  bm_status :: backup_status
  bm_type :: string

datatype health_message =
    NoBackups | NoCompletedBackups | UnparsableBackupID string
  | LastBackupOld duration | LastBackupRecent string duration

record Result =
  Healthy :: bool
  LastBackupTime :: "gotime option"
  LastBackupType :: string
  res_message :: health_message

definition newer :: "backup_metadata option \<Rightarrow> backup_metadata \<Rightarrow> backup_metadata option" where
  "newer latest b =
     (if bm_status b \<noteq> BACKUP_COMPLETE then latest
      else (case latest of
              None \<Rightarrow> Some b
            | Some l \<Rightarrow> if bm_id l < bm_id b then Some b else latest))"

definition latest_backup :: "backup_metadata list \<Rightarrow> backup_metadata option" where
  "latest_backup backups = foldl newer None backups"

definition EvaluateBackups :: "gotime \<Rightarrow> backup_metadata list \<Rightarrow> Result" where
  "EvaluateBackups now backups =
     (if backups = []
      then \<lparr>Healthy = False, LastBackupTime = None, LastBackupType = [], res_message = NoBackups\<rparr>
      else (case latest_backup backups of
              None \<Rightarrow> \<lparr>Healthy = False, LastBackupTime = None, LastBackupType = [],
                        res_message = NoCompletedBackups\<rparr>
            | Some latest \<Rightarrow>
                let backupTime = ParseTime (bm_id latest) in
                if is_zero_time backupTime
                then \<lparr>Healthy = False, LastBackupTime = None, LastBackupType = [],
                      res_message = UnparsableBackupID (bm_id latest)\<rparr>
                else let age = now - backupTime in
                  if BackupStaleThreshold < age
                  then \<lparr>Healthy = False, LastBackupTime = Some backupTime,
                        LastBackupType = bm_type latest, res_message = LastBackupOld age\<rparr>
                  else \<lparr>Healthy = True, LastBackupTime = Some backupTime,
                        LastBackupType = bm_type latest,
                        res_message = LastBackupRecent (bm_type latest) age\<rparr>))"

datatype backup_error =
    FindingPrimary find_error | QueryingBackups "pooler_id option" string | NilResponse "pooler_id option"

definition Evaluate ::
  "pooler_query \<Rightarrow> (pooler \<Rightarrow> string + backup_metadata list option) \<Rightarrow> gotime \<Rightarrow> shard
     \<Rightarrow> backup_error + Result option" where
  "Evaluate getPoolers getBackups now shd =
     (case FindPrimaryPooler getPoolers (CollectCells shd) of
        Inl err \<Rightarrow> Inl (FindingPrimary err)
      | Inr None \<Rightarrow> Inr None
      | Inr (Some primary) \<Rightarrow>
          (case getBackups primary of
             Inl err \<Rightarrow> Inl (QueryingBackups (mp_id primary) err)
           | Inr None \<Rightarrow> Inl (NilResponse (mp_id primary))
           | Inr (Some backups) \<Rightarrow> Inr (Some (EvaluateBackups now backups))))"

definition Apply :: "(health_message \<Rightarrow> string) \<Rightarrow> gotime \<Rightarrow> shard \<Rightarrow> Result option \<Rightarrow> shard" where
  "Apply render now shd result =
     (case result of
        None \<Rightarrow> shd
      | Some r \<Rightarrow>
          let shd' = shd\<lparr>s_last_backup_time := LastBackupTime r, s_last_backup_type := LastBackupType r\<rparr>;
              condition = \<lparr>c_type = ConditionHealthy,
                 c_status = (if Healthy r then ConditionTrue else ConditionFalse),
                 c_observed_generation = s_generation shd, c_last_transition = now,
                 c_reason = (if Healthy r then ''BackupRecent'' else ''BackupStale''),
                 c_message = render (res_message r)\<rparr>
          in shd'\<lparr>s_conditions := SetCondition (s_conditions shd) condition\<rparr>)"

subsection \<open>The newest backup\<close>

lemma newer_None: "newer l b = None \<longleftrightarrow> l = None \<and> bm_status b \<noteq> BACKUP_COMPLETE"
  by (auto simp: newer_def split: option.splits)

lemma foldl_newer:
  "(foldl newer l bs = None \<longleftrightarrow> l = None \<and> (\<forall>b\<in>set bs. bm_status b \<noteq> BACKUP_COMPLETE))
   \<and> (\<forall>m. foldl newer l bs = Some m \<longrightarrow>
        (l = Some m \<or> m \<in> set bs \<and> bm_status m = BACKUP_COMPLETE)
        \<and> (\<forall>k. l = Some k \<longrightarrow> bm_id k \<le> bm_id m)
        \<and> (\<forall>b\<in>set bs. bm_status b = BACKUP_COMPLETE \<longrightarrow> bm_id b \<le> bm_id m))"
proof (induction bs arbitrary: l)
  case (Cons b bs)
  show ?case
    using Cons.IH [of "newer l b"]
    by (auto simp: newer_def split: option.splits if_splits intro: order.trans less_imp_le)
qed simp

lemma latest_backup_None:
  "latest_backup bs = None \<longleftrightarrow> (\<forall>b\<in>set bs. bm_status b \<noteq> BACKUP_COMPLETE)"
  using foldl_newer [of None bs] by (simp add: latest_backup_def)

lemma latest_backup_Some:
  "latest_backup bs = Some m \<Longrightarrow> m \<in> set bs \<and> bm_status m = BACKUP_COMPLETE
   \<and> (\<forall>b\<in>set bs. bm_status b = BACKUP_COMPLETE \<longrightarrow> bm_id b \<le> bm_id m)"
  using foldl_newer [of None bs] by (simp add: latest_backup_def)

subsection \<open>Identifiers order as times\<close>

lemma leap_mods: "(y :: int) mod 400 = 0 \<Longrightarrow> y mod 100 = 0" "(y :: int) mod 100 = 0 \<Longrightarrow> y mod 4 = 0"
  using dvd_trans [of 100 400 y] dvd_trans [of 4 100 y] by (simp_all add: dvd_eq_mod_eq_0)

lemma days_before_year_step:
  "days_before_year (y + 1) = days_before_year y + (if is_leap y then 366 else 365)"
proof -
  have k: "y div 4 = (y - 1) div 4 + (if y mod 4 = 0 then 1 else 0)"
    "y div 100 = (y - 1) div 100 + (if y mod 100 = 0 then 1 else 0)"
    "y div 400 = (y - 1) div 400 + (if y mod 400 = 0 then 1 else 0)"
    by (rule div_pred, simp)+
  have e: "days_before_year (y + 1) = 365 * y + y div 4 - y div 100 + y div 400"
    by (simp add: days_before_year_def)
  have "(y mod 400 = 0 \<longrightarrow> y mod 100 = 0) \<and> (y mod 100 = 0 \<longrightarrow> y mod 4 = 0)"
    using leap_mods [of y] by blast
  then show ?thesis
    unfolding e k is_leap_def by (simp only: days_before_year_def) (cases "y mod 4 = 0";
      cases "y mod 100 = 0"; cases "y mod 400 = 0"; simp)
qed

lemma days_before_year_mono: "y \<le> z \<Longrightarrow> days_before_year y \<le> days_before_year z"
proof (induction z rule: int_ge_induct)
  case (step i)
  then show ?case using days_before_year_step [of i] by auto
qed simp

lemma days_in_pos: "0 < days_in y m"
  by (simp add: days_in_def)

lemma days_before_month_mono: "m \<le> n \<Longrightarrow> days_before_month y m \<le> days_before_month y n"
proof (induction n rule: dec_induct)
  case (step n)
  then show ?case using days_in_pos [of y "int (Suc n)"] by simp
qed simp

lemma days_before_month_year:
  "m \<le> 12 \<Longrightarrow> days_before_month y m \<le> (if is_leap y then 366 else 365)"
  using days_before_month_mono [of m 12 y]
  by (auto simp: eval_nat_numeral days_in_def split: if_splits)

lemma civil_day_of_year:
  assumes "civil_valid c"
  shows "0 \<le> civil_days c - days_before_year (cv_year c)
       \<and> civil_days c < days_before_year (cv_year c)
           + days_before_month (cv_year c) (nat (cv_month c))"
proof -
  obtain n where n: "cv_month c = int (Suc n)"
    using assms by (auto simp: civil_valid_def intro: that [of "nat (cv_month c - 1)"])
  then have e: "nat (cv_month c) = Suc n" "nat (cv_month c - 1) = n" by auto
  have "days_before_month (cv_year c) 0 \<le> days_before_month (cv_year c) n"
    by (rule days_before_month_mono) simp
  then show ?thesis
    using assms n unfolding civil_days_def e by (simp add: civil_valid_def)
qed

lemma civil_days_mono:
  assumes "civil_valid c" "civil_valid d"
    and "cv_year c * 10000 + cv_month c * 100 + cv_day c < cv_year d * 10000 + cv_month d * 100 + cv_day d"
  shows "civil_days c < civil_days d"
proof -
  have small: "cv_day e \<le> 31" "1 \<le> cv_day e" "cv_month e \<le> 12" "1 \<le> cv_month e" if "civil_valid e" for e
    using that by (auto simp: civil_valid_def days_in_def split: if_splits)
  note bounds = small [OF assms(1)] small [OF assms(2)]
  consider "cv_year c < cv_year d" | "cv_year c = cv_year d" "cv_month c < cv_month d"
    | "cv_year c = cv_year d" "cv_month c = cv_month d" "cv_day c < cv_day d"
    using assms(3) bounds by linarith
  then show ?thesis
  proof cases
    case 1
    have "civil_days c < days_before_year (cv_year c + 1)"
      using civil_day_of_year [OF assms(1)] days_before_month_year [of "nat (cv_month c)" "cv_year c"]
        bounds days_before_year_step [of "cv_year c"] by linarith
    also have "\<dots> \<le> days_before_year (cv_year d)" using 1 by (intro days_before_year_mono) simp
    also have "\<dots> \<le> civil_days d" using civil_day_of_year [OF assms(2)] by simp
    finally show ?thesis .
  next
    case 2
    have "days_before_month (cv_year c) (nat (cv_month c))
        \<le> days_before_month (cv_year c) (nat (cv_month d - 1))"
      using 2 bounds by (intro days_before_month_mono) simp
    with civil_day_of_year [OF assms(1)] 2 bounds show ?thesis by (simp add: civil_days_def)
  next
    case 3
    then show ?thesis by (simp add: civil_days_def)
  qed
qed

lemma fifteen:
  assumes "length u = 15"
  obtains a0 a1 a2 a3 a4 a5 a6 a7 a8 a9 a10 a11 a12 a13 a14
  where "u = [a0, a1, a2, a3, a4, a5, a6, a7, a8, a9, a10, a11, a12, a13, a14]"
  using assms by (auto simp: length_Suc_conv numeral_eq_Suc)

lemma read_civil_numbers:
  assumes "length u = 15"
  shows "cv_year (read_civil u) * 10000 + cv_month (read_civil u) * 100 + cv_day (read_civil u)
           = int (atou 0 (take 8 u))"
    and "cv_hour (read_civil u) * 10000 + cv_minute (read_civil u) * 100 + cv_second (read_civil u)
           = int (atou 0 (drop 9 u))"
  by (rule fifteen [OF assms], simp add: read_civil_def num_at_def algebra_simps)+

definition day_seconds :: "civil \<Rightarrow> int" where
  "day_seconds c = cv_hour c * 3600 + cv_minute c * 60 + cv_second c"

lemma civil_time_split: "civil_time c = (civil_days c * 86400 + day_seconds c) * second"
  by (simp add: civil_time_def day_seconds_def algebra_simps)

lemma read_civil_nonneg: "0 \<le> cv_hour (read_civil u)" "0 \<le> cv_minute (read_civil u)" "0 \<le> cv_second (read_civil u)"
  by (simp_all add: read_civil_def num_at_def)

lemma day_seconds_bounds:
  "civil_valid (read_civil u) \<Longrightarrow> 0 \<le> day_seconds (read_civil u) \<and> day_seconds (read_civil u) < 86400"
  using read_civil_nonneg [of u] by (simp add: civil_valid_def day_seconds_def)

lemma date_fields:
  assumes "take 8 s = take 8 t"
  shows "cv_year (read_civil s) = cv_year (read_civil t)
       \<and> cv_month (read_civil s) = cv_month (read_civil t)
       \<and> cv_day (read_civil s) = cv_day (read_civil t)"
proof -
  have "num_at s i n = num_at t i n" if "i + n \<le> 8" for i n
  proof -
    have "num_at u i n = int (atou 0 (take n (drop i (take 8 u))))" for u
      using that by (simp add: num_at_def drop_take min_def)
    then show ?thesis by (simp only: assms)
  qed
  then show ?thesis by (simp add: read_civil_def)
qed

lemma day_seconds_mono:
  assumes "civil_valid (read_civil s)" "civil_valid (read_civil t)"
    and "cv_hour (read_civil s) * 10000 + cv_minute (read_civil s) * 100 + cv_second (read_civil s)
      < cv_hour (read_civil t) * 10000 + cv_minute (read_civil t) * 100 + cv_second (read_civil t)"
  shows "day_seconds (read_civil s) \<le> day_seconds (read_civil t)"
proof -
  let ?c = "read_civil s" and ?d = "read_civil t"
  have small: "cv_minute ?c < 60" "cv_second ?c < 60" "cv_minute ?d < 60" "cv_second ?d < 60"
    using assms(1,2) by (auto simp: civil_valid_def)
  consider "cv_hour ?c < cv_hour ?d" | "cv_hour ?c = cv_hour ?d" "cv_minute ?c < cv_minute ?d"
    | "cv_hour ?c = cv_hour ?d" "cv_minute ?c = cv_minute ?d" "cv_second ?c < cv_second ?d"
    using assms(3) small read_civil_nonneg [of s] read_civil_nonneg [of t] by linarith
  then show ?thesis
    unfolding day_seconds_def
    using small read_civil_nonneg [of s] read_civil_nonneg [of t] by cases linarith+
qed

lemma parse_backup_layout_mono:
  assumes "parse_backup_layout s = Some a" and "parse_backup_layout t = Some b" and "s \<le> t"
  shows "a \<le> b"
proof -
  have shape: "list_all is_digit (take 8 u)" "drop 8 u = CHR ''-'' # drop 9 u"
      "list_all is_digit (drop 9 u)" "length u = 15" "civil_valid (read_civil u)"
      "v = civil_time (read_civil u)" if "parse_backup_layout u = Some v" for u v
    using that Cons_nth_drop_Suc [of 8 u] by (auto simp: parse_backup_layout_def split: if_splits)
  note s = shape [OF assms(1)] and t = shape [OF assms(2)]
  have "take 8 s < take 8 t \<or> take 8 s = take 8 t \<and> drop 8 s \<le> drop 8 t"
    using less_eq_split [of "take 8 s" "take 8 t" "drop 8 s" "drop 8 t"] assms(3) s(4) t(4) by simp
  then consider "take 8 s < take 8 t" | "take 8 s = take 8 t" "drop 9 s < drop 9 t"
      | "take 8 s = take 8 t" "drop 9 s = drop 9 t"
    unfolding s(2) t(2) by (auto simp: le_less)
  then have "civil_days (read_civil s) * 86400 + day_seconds (read_civil s)
      \<le> civil_days (read_civil t) * 86400 + day_seconds (read_civil t)"
  proof cases
    case 1
    then have "atou 0 (take 8 s) < atou 0 (take 8 t)"
      using s t by (intro atou_mono) auto
    then have "civil_days (read_civil s) < civil_days (read_civil t)"
      using s(4,5) t(4,5) by (intro civil_days_mono) (simp_all add: read_civil_numbers)
    with day_seconds_bounds [OF s(5)] day_seconds_bounds [OF t(5)] show ?thesis by linarith
  next
    case 2
    then have lt: "atou 0 (drop 9 s) < atou 0 (drop 9 t)"
      using s t by (intro atou_mono) auto
    have "civil_days (read_civil s) = civil_days (read_civil t)"
      using date_fields [OF 2(1)] by (simp add: civil_days_def)
    moreover have "day_seconds (read_civil s) \<le> day_seconds (read_civil t)"
      using lt s(4,5) t(4,5) by (intro day_seconds_mono) (simp_all add: read_civil_numbers)
    ultimately show ?thesis by simp
  next
    case 3
    then have "s = t" using s(2) t(2) by (metis append_take_drop_id)
    then show ?thesis by simp
  qed
  then show ?thesis unfolding s(6) t(6) civil_time_split by (simp add: second_def)
qed
lemma ParseTime_mono:
  assumes "parse_backup_layout (take 15 a) \<noteq> None" "parse_backup_layout (take 15 b) \<noteq> None" "a \<le> b"
  shows "ParseTime a \<le> ParseTime b"
proof -
  obtain u v where uv: "parse_backup_layout (take 15 a) = Some u" "parse_backup_layout (take 15 b) = Some v"
    using assms by auto
  then have "15 \<le> length a" "15 \<le> length b"
    by (auto simp: parse_backup_layout_def split: if_splits)
  with uv parse_backup_layout_mono [OF uv take_less_eq [OF assms(3)]] show ?thesis
    by (simp add: ParseTime_def)
qed

lemma EvaluateBackups_healthyD:
  "Healthy (EvaluateBackups now bs) \<Longrightarrow>
   \<exists>b\<in>set bs. bm_status b = BACKUP_COMPLETE \<and> ParseTime (bm_id b) \<noteq> 0
     \<and> now - ParseTime (bm_id b) \<le> BackupStaleThreshold"
  by (auto simp: EvaluateBackups_def Let_def is_zero_time_def not_less
      split: if_splits option.splits dest!: latest_backup_Some)

lemma Apply_healthy:
  "IsConditionTrue (s_conditions (Apply render now shd (Some res))) ConditionHealthy \<longleftrightarrow> Healthy res"
  by (simp add: Apply_def Let_def IsConditionTrue_look look_SetCondition carry_def split: option.split)

subsection \<open>Properties\<close>

text \<open>
  \<^const>\<open>EvaluateBackups\<close> reports healthy backups exactly when the completed backup with the greatest
  identifier has a readable time no older than \<^const>\<open>BackupStaleThreshold\<close>.
\<close>

theorem EvaluateBackups_healthy_iff:
  "Healthy (EvaluateBackups now bs) \<longleftrightarrow>
     (\<exists>b\<in>set bs. bm_status b = BACKUP_COMPLETE
        \<and> (\<forall>c\<in>set bs. bm_status c = BACKUP_COMPLETE \<longrightarrow> bm_id c \<le> bm_id b)
        \<and> ParseTime (bm_id b) \<noteq> 0 \<and> now - ParseTime (bm_id b) \<le> BackupStaleThreshold)"
proof (cases "latest_backup bs")
  case None
  then show ?thesis using latest_backup_None [of bs] by (auto simp: EvaluateBackups_def)
next
  case (Some m)
  have "bs \<noteq> []" using Some by (auto simp: latest_backup_def)
  with Some have h: "Healthy (EvaluateBackups now bs) \<longleftrightarrow>
      ParseTime (bm_id m) \<noteq> 0 \<and> now - ParseTime (bm_id m) \<le> BackupStaleThreshold"
    by (auto simp: EvaluateBackups_def Let_def is_zero_time_def)
  have same: "bm_id b = bm_id m" if "b \<in> set bs" "bm_status b = BACKUP_COMPLETE"
      "\<forall>c\<in>set bs. bm_status c = BACKUP_COMPLETE \<longrightarrow> bm_id c \<le> bm_id b" for b
    using that latest_backup_Some [OF Some] by (auto intro: antisym)
  show ?thesis
    unfolding h
  proof
    assume "ParseTime (bm_id m) \<noteq> 0 \<and> now - ParseTime (bm_id m) \<le> BackupStaleThreshold"
    with latest_backup_Some [OF Some] show "\<exists>b\<in>set bs. bm_status b = BACKUP_COMPLETE
        \<and> (\<forall>c\<in>set bs. bm_status c = BACKUP_COMPLETE \<longrightarrow> bm_id c \<le> bm_id b)
        \<and> ParseTime (bm_id b) \<noteq> 0 \<and> now - ParseTime (bm_id b) \<le> BackupStaleThreshold"
      by (intro bexI [of _ m]) simp_all
  next
    assume "\<exists>b\<in>set bs. bm_status b = BACKUP_COMPLETE
        \<and> (\<forall>c\<in>set bs. bm_status c = BACKUP_COMPLETE \<longrightarrow> bm_id c \<le> bm_id b)
        \<and> ParseTime (bm_id b) \<noteq> 0 \<and> now - ParseTime (bm_id b) \<le> BackupStaleThreshold"
    then obtain b :: backup_metadata where "bm_id b = bm_id m" "ParseTime (bm_id b) \<noteq> 0"
        "now - ParseTime (bm_id b) \<le> BackupStaleThreshold"
      using same by blast
    then show "ParseTime (bm_id m) \<noteq> 0 \<and> now - ParseTime (bm_id m) \<le> BackupStaleThreshold"
      by simp
  qed
qed

theorem EvaluateBackups_healthy_iff_witness:
  "Healthy (EvaluateBackups (ParseTime ''20240301-120000F'')
     [\<lparr>bm_id = ''20240229-120000F'', bm_status = BACKUP_COMPLETE, bm_type = ''full''\<rparr>])"
proof -
  have "ParseTime ''20240301-120000F'' - ParseTime ''20240229-120000F'' = 24 * hour
      \<and> ParseTime ''20240229-120000F'' \<noteq> 0" by code_simp
  then show ?thesis
    unfolding EvaluateBackups_healthy_iff
    by (simp add: BackupStaleThreshold_def hour_def minute_def second_def)
qed

text \<open>
  Comparing identifiers finds the most recent backup. If the identifiers of all completed backups
  carry a time, the time published is the latest of them.
\<close>

theorem EvaluateBackups_most_recent:
  assumes "\<forall>b\<in>set bs. bm_status b = BACKUP_COMPLETE \<longrightarrow> parse_backup_layout (take 15 (bm_id b)) \<noteq> None"
    and "LastBackupTime (EvaluateBackups now bs) = Some t"
  shows "(\<exists>b\<in>set bs. bm_status b = BACKUP_COMPLETE \<and> ParseTime (bm_id b) = t)
         \<and> (\<forall>b\<in>set bs. bm_status b = BACKUP_COMPLETE \<longrightarrow> ParseTime (bm_id b) \<le> t)"
proof -
  obtain m where m: "latest_backup bs = Some m" and t: "t = ParseTime (bm_id m)"
    using assms(2) by (auto simp: EvaluateBackups_def Let_def split: if_splits option.splits)
  with assms(1) latest_backup_Some [OF m] show ?thesis
    by (auto intro!: ParseTime_mono)
qed

theorem EvaluateBackups_most_recent_witness:
  "\<exists>t. LastBackupTime (EvaluateBackups 0
       [\<lparr>bm_id = ''20231231-235959F'', bm_status = BACKUP_COMPLETE, bm_type = ''full''\<rparr>,
        \<lparr>bm_id = ''20240101-000000F'', bm_status = BACKUP_COMPLETE, bm_type = ''full''\<rparr>]) = Some t
     \<and> ParseTime ''20231231-235959F'' \<le> t"
proof -
  let ?bs = "[\<lparr>bm_id = ''20231231-235959F'', bm_status = BACKUP_COMPLETE, bm_type = ''full''\<rparr>,
        \<lparr>bm_id = ''20240101-000000F'', bm_status = BACKUP_COMPLETE, bm_type = ''full''\<rparr>]"
  have e: "LastBackupTime (EvaluateBackups 0 ?bs) = Some (ParseTime ''20240101-000000F'')" by code_simp
  have p: "parse_backup_layout (take 15 ''20231231-235959F'') \<noteq> None"
    "parse_backup_layout (take 15 ''20240101-000000F'') \<noteq> None" by code_simp+
  have "(\<exists>b\<in>set ?bs. bm_status b = BACKUP_COMPLETE \<and> ParseTime (bm_id b) = ParseTime ''20240101-000000F'')
         \<and> (\<forall>b\<in>set ?bs. bm_status b = BACKUP_COMPLETE \<longrightarrow>
              ParseTime (bm_id b) \<le> ParseTime ''20240101-000000F'')"
    by (rule EvaluateBackups_most_recent [OF _ e]) (use p in simp)
  with e show ?thesis by simp
qed

end
