(* ===== verification/Pvc_Lifecycle.thy ===== *)
theory Pvc_Lifecycle
  imports Drain_Machine Status_Conditions
begin

text \<open>
  The life of a PersistentVolumeClaim beside its pods: orphan marks (\<^verbatim>\<open>src/pkg/util/pvc/orphan.go\<close>),
  retention policies (\<^verbatim>\<open>retention.go\<close> and \<^verbatim>\<open>MergePVCDeletionPolicy\<close>), the garbage collector
  (\<^verbatim>\<open>src/pkg/gc/pvc/pvc.go\<close>) and the guard against deleting or creating pods on claims that are being
  deleted (\<^verbatim>\<open>shard/terminating_pvc.go\<close>).

  The layout of orphan timestamps is read and written by \<^verbatim>\<open>time.Parse\<close> and \<^verbatim>\<open>time.Format\<close>, which are the
  arguments \<^verbatim>\<open>parseStamp\<close> and \<^verbatim>\<open>formatStamp\<close>. \<^verbatim>\<open>meta.SetStatusCondition\<close> of apimachinery is the argument
  \<^verbatim>\<open>setStatus\<close>.
\<close>

subsection \<open>Deletion policies\<close>

abbreviation DeletePVCRetentionPolicy :: string where
  "DeletePVCRetentionPolicy \<equiv> ''Delete''"

abbreviation RetainPVCRetentionPolicy :: string where
  "RetainPVCRetentionPolicy \<equiv> ''Retain''"

definition MergePVCDeletionPolicy ::
  "pvc_deletion_policy option \<Rightarrow> pvc_deletion_policy option \<Rightarrow> pvc_deletion_policy option" where
  "MergePVCDeletionPolicy child parent =
     (case child of
        None \<Rightarrow> parent
      | Some c \<Rightarrow>
          let pick = (\<lambda>f. if f c \<noteq> [] then f c else (case parent of Some p \<Rightarrow> f p | None \<Rightarrow> []));
              merged = \<lparr>WhenDeleted = pick WhenDeleted, WhenScaled = pick WhenScaled\<rparr>
          in if WhenDeleted merged = [] \<and> WhenScaled merged = [] then None else Some merged)"

definition BuildRetentionPolicy :: "pvc_deletion_policy option \<Rightarrow> pvc_deletion_policy" where
  "BuildRetentionPolicy policy =
     (let conv = (\<lambda>s. if s = DeletePVCRetentionPolicy then DeletePVCRetentionPolicy
                      else RetainPVCRetentionPolicy)
      in case policy of
           None \<Rightarrow> \<lparr>WhenDeleted = RetainPVCRetentionPolicy, WhenScaled = RetainPVCRetentionPolicy\<rparr>
         | Some p \<Rightarrow> \<lparr>WhenDeleted = conv (WhenDeleted p), WhenScaled = conv (WhenScaled p)\<rparr>)"

subsection \<open>Orphan marks\<close>

datatype pvc_error =
    NilPVC
  | ErrTerminating string string
  | PvcApi api_error
  | GetPVCFailed string api_error
  | ReclaimFailed string pvc_error

definition IsTerminating :: "pvc option \<Rightarrow> bool" where
  "IsTerminating v = (case v of None \<Rightarrow> False | Some p \<Rightarrow> \<not> is_zero_ptr (v_deletion p))"

definition HasOrphanLabel :: "pvc option \<Rightarrow> bool" where
  "HasOrphanLabel v = (case v of None \<Rightarrow> False | Some p \<Rightarrow> v_labels p LabelOrphan \<noteq> None)"

text \<open>The caller's claim as \<^verbatim>\<open>MarkOrphan\<close> leaves it before the patch.\<close>

definition orphaned :: "string \<Rightarrow> string \<Rightarrow> pvc \<Rightarrow> pvc" where
  "orphaned stamp ownerUID v =
     v\<lparr>v_labels := (if v_labels v LabelOrphan = None then (v_labels v)(LabelOrphan \<mapsto> stamp)
                    else v_labels v),
       v_owners := (if ownerUID \<noteq> [] then filter (\<lambda>u. u \<noteq> ownerUID) (v_owners v) else v_owners v)\<rparr>"

definition MarkOrphan ::
  "kube \<Rightarrow> (gotime \<Rightarrow> string) \<Rightarrow> pvc option \<Rightarrow> string \<Rightarrow> gotime \<Rightarrow> (pvc option \<times> pvc_error option) kio" where
  "MarkOrphan k formatStamp v ownerUID now =
     (case v of
        None \<Rightarrow> State_Monad.return (None, Some NilPVC)
      | Some base \<Rightarrow>
          let marked = orphaned (formatStamp now) ownerUID base;
              mutated = (v_labels base LabelOrphan = None
                         \<or> length (v_owners marked) \<noteq> length (v_owners base))
          in if \<not> mutated then State_Monad.return (Some base, None)
             else do {
               r \<leftarrow> ask (k_patch_pvc k) (PatchPvc False base marked);
               case r of
                 Inl err \<Rightarrow> State_Monad.return (Some marked, Some (PvcApi err))
               | Inr stored \<Rightarrow> State_Monad.return (Some stored, None)
             })"

definition unmarked :: "pvc \<Rightarrow> pvc" where
  "unmarked v = v\<lparr>v_labels := (v_labels v)(LabelOrphan := None)\<rparr>"

text \<open>The patch is conditioned on the resource version; on failure the caller's copy is restored.\<close>

definition ClearOrphan :: "kube \<Rightarrow> pvc option \<Rightarrow> (pvc option \<times> pvc_error option) kio" where
  "ClearOrphan k v =
     (case v of
        None \<Rightarrow> State_Monad.return (None, Some NilPVC)
      | Some p \<Rightarrow>
          if IsTerminating (Some p)
          then State_Monad.return (Some p, Some (ErrTerminating (v_namespace p) (v_name p)))
          else if v_labels p LabelOrphan = None then State_Monad.return (Some p, None)
          else do {
            r \<leftarrow> ask (k_patch_pvc k) (PatchPvc True p (unmarked p));
            case r of
              Inl err \<Rightarrow> State_Monad.return (Some p, Some (PvcApi err))
            | Inr stored \<Rightarrow> State_Monad.return (Some stored, None)
          })"

subsection \<open>The garbage collector\<close>

record Options =
  Retention :: duration
  opt_namespace :: string
  DryRun :: bool

record Results =
  Scanned :: nat
  Deleted :: nat
  WouldDelete :: nat
  Skipped :: nat
  InUse :: nat
  Malformed :: nat
  Errors :: nat

definition buildSelector :: "(string \<times> string option) list" where
  "buildSelector = [(LabelAppManagedBy, Some ManagedByMultigres), (LabelOrphan, None)]"

text \<open>\<^verbatim>\<open>claimUsers.byNamespace\<close>: namespace to claim name to the name of a pod using it.\<close>

type_synonym claim_users = "(string \<times> (string \<times> string) list) list"

definition pod_claims :: "pod \<Rightarrow> string list" where
  "pod_claims p = List.map_filter id (p_volumes p)"

definition claims_of :: "pod list \<Rightarrow> (string \<times> string) list" where
  "claims_of pods =
     foldl (\<lambda>m p. foldl (\<lambda>m c. upd c (p_name p) m) m (pod_claims p)) [] pods"

definition podUsing ::
  "kube \<Rightarrow> claim_users \<Rightarrow> string \<Rightarrow> string \<Rightarrow> (claim_users \<times> (api_error + string)) kio" where
  "podUsing k users namespace claim =
     (case map_of users namespace of
        Some claims \<Rightarrow> State_Monad.return (users, Inr (str_at (map_of claims) claim))
      | None \<Rightarrow> do {
          r \<leftarrow> ask (k_list_pods k) (ListPods True namespace Map.empty);
          case r of
            Inl err \<Rightarrow> State_Monad.return (users, Inl err)
          | Inr pods \<Rightarrow>
              let claims = claims_of pods
              in State_Monad.return (upd namespace claims users, Inr (str_at (map_of claims) claim))
        })"

definition processPVC ::
  "kube \<Rightarrow> (string \<Rightarrow> gotime option) \<Rightarrow> bool \<Rightarrow> pvc \<Rightarrow> gotime \<Rightarrow> claim_users \<Rightarrow> Results
     \<Rightarrow> (claim_users \<times> (api_error + Results)) kio" where
  "processPVC k parseStamp dryRun v cutoff users res =
     (case v_labels v LabelOrphan of
        None \<Rightarrow> State_Monad.return (users, Inr (res\<lparr>Malformed := Suc (Malformed res)\<rparr>))
      | Some raw \<Rightarrow>
        (case parseStamp raw of
           None \<Rightarrow> State_Monad.return (users, Inr (res\<lparr>Malformed := Suc (Malformed res)\<rparr>))
         | Some orphanedAt \<Rightarrow>
           if cutoff < orphanedAt
           then State_Monad.return (users, Inr (res\<lparr>Skipped := Suc (Skipped res)\<rparr>))
           else if \<not> is_zero_ptr (v_deletion v)
           then State_Monad.return (users, Inr (res\<lparr>Skipped := Suc (Skipped res)\<rparr>))
           else do {
             (users', r) \<leftarrow> podUsing k users (v_namespace v) (v_name v);
             case r of
               Inl err \<Rightarrow> State_Monad.return (users', Inl err)
             | Inr user \<Rightarrow>
                 if user \<noteq> [] then State_Monad.return (users', Inr (res\<lparr>InUse := Suc (InUse res)\<rparr>))
                 else if dryRun
                 then State_Monad.return (users', Inr (res\<lparr>WouldDelete := Suc (WouldDelete res)\<rparr>))
                 else do {
                   e \<leftarrow> ask (k_write k) (DeletePvc (Some (v_resource_version v)) v);
                   State_Monad.return (users', Inr (case e of
                     None \<Rightarrow> res\<lparr>Deleted := Suc (Deleted res)\<rparr>
                   | Some NotFound \<Rightarrow> res
                   | Some err \<Rightarrow> res\<lparr>Errors := Suc (Errors res)\<rparr>))
                 }
           }))"

text \<open>The loop of \<^verbatim>\<open>Clean\<close>; an error stops it and the results so far are returned beside it.\<close>

fun clean_loop ::
  "kube \<Rightarrow> (string \<Rightarrow> gotime option) \<Rightarrow> bool \<Rightarrow> gotime \<Rightarrow> claim_users \<Rightarrow> Results \<Rightarrow> pvc list
     \<Rightarrow> (Results \<times> api_error option) kio" where
  "clean_loop k parseStamp dryRun cutoff users res [] = State_Monad.return (res, None)"
| "clean_loop k parseStamp dryRun cutoff users res (v # vs) = do {
     (users', r) \<leftarrow> processPVC k parseStamp dryRun v cutoff users res;
     case r of
       Inl err \<Rightarrow> State_Monad.return (res, Some err)
     | Inr res' \<Rightarrow> clean_loop k parseStamp dryRun cutoff users' res' vs
   }"

definition Clean ::
  "kube \<Rightarrow> (string \<Rightarrow> gotime option) \<Rightarrow> gotime \<Rightarrow> Options \<Rightarrow> (Results option \<times> api_error option) kio" where
  "Clean k parseStamp now opts = do {
     r \<leftarrow> ask (k_list_pvcs k) (SelectPvcs (opt_namespace opts) buildSelector);
     case r of
       Inl err \<Rightarrow> State_Monad.return (None, Some err)
     | Inr pvcs \<Rightarrow> do {
         (res, e) \<leftarrow> clean_loop k parseStamp (DryRun opts) (now - Retention opts) []
            \<lparr>Scanned = length pvcs, Deleted = 0, WouldDelete = 0, Skipped = 0, InUse = 0,
             Malformed = 0, Errors = 0\<rparr> pvcs;
         State_Monad.return (Some res, e)
       }
   }"

subsection \<open>Claims that are being deleted under a pod\<close>

definition stuckDeletionSlack :: duration where
  "stuckDeletionSlack = 2 * minute"

definition shardSelector :: "shard \<Rightarrow> labels" where
  "shardSelector shd =
     [LabelMultigresCluster \<mapsto> str_at (s_labels shd) LabelMultigresCluster,
      LabelMultigresDatabase \<mapsto> s_database_name shd,
      LabelMultigresTableGroup \<mapsto> s_table_group_name shd,
      LabelMultigresShard \<mapsto> s_shard_name shd]"

definition terminatingClaimsInUse :: "pod list \<Rightarrow> pvc list \<Rightarrow> gotime \<Rightarrow> string list" where
  "terminatingClaimsInUse pods pvcs now =
     (let terminating = map v_name (filter (\<lambda>v. IsTerminating (Some v)) pvcs);
          going = (\<lambda>p. case p_deletion p of
                     Some t \<Rightarrow> \<not> is_zero_time t \<and> now < t + stuckDeletionSlack
                   | None \<Rightarrow> False);
          names = foldl (\<lambda>ns p. if going p then ns
                    else foldl (\<lambda>ns c. if c \<in> set terminating \<and> c \<notin> set ns then ns @ [c] else ns)
                           ns (pod_claims p)) [] pods
      in sort names)"

datatype list_error = ListShardPVCs api_error | ListShardPods api_error

text \<open>\<^verbatim>\<open>live\<close> says whether the reader given bypasses the cache.\<close>

definition mountedTerminatingPVCs ::
  "kube \<Rightarrow> bool \<Rightarrow> gotime \<Rightarrow> shard \<Rightarrow> (list_error + string list) kio" where
  "mountedTerminatingPVCs k live now shd = do {
     r \<leftarrow> ask (k_list_pvcs k) (ListPvcs live (s_namespace shd) (shardSelector shd));
     case r of
       Inl err \<Rightarrow> State_Monad.return (Inl (ListShardPVCs err))
     | Inr pvcs \<Rightarrow>
         if \<not> list_ex (\<lambda>v. IsTerminating (Some v)) pvcs then State_Monad.return (Inr [])
         else do {
           r \<leftarrow> ask (k_list_pods k) (ListPods live (s_namespace shd) (shardSelector shd));
           case r of
             Inl err \<Rightarrow> State_Monad.return (Inl (ListShardPods err))
           | Inr pods \<Rightarrow> State_Monad.return (Inr (terminatingClaimsInUse pods pvcs now))
         }
   }"

text \<open>The first claim of the pod that is being deleted, or the empty string.\<close>

fun terminating_claim_loop ::
  "kube \<Rightarrow> string \<Rightarrow> string list \<Rightarrow> (pvc_error + string) kio" where
  "terminating_claim_loop k namespace [] = State_Monad.return (Inr [])"
| "terminating_claim_loop k namespace (claim # claims) = do {
     r \<leftarrow> ask (k_get_pvc k) (GetPvc True namespace claim);
     case r of
       Inl err \<Rightarrow> (if err = NotFound then terminating_claim_loop k namespace claims
                    else State_Monad.return (Inl (GetPVCFailed claim err)))
     | Inr v \<Rightarrow> (if IsTerminating (Some v) then State_Monad.return (Inr (v_name v))
                  else terminating_claim_loop k namespace claims)
   }"

definition podTerminatingClaim :: "kube \<Rightarrow> pod \<Rightarrow> (pvc_error + string) kio" where
  "podTerminatingClaim k p = terminating_claim_loop k (p_namespace p) (pod_claims p)"

fun claim_volumes_loop :: "kube \<Rightarrow> string \<Rightarrow> string list \<Rightarrow> (pvc_error + string) kio" where
  "claim_volumes_loop k namespace [] = State_Monad.return (Inr [])"
| "claim_volumes_loop k namespace (claim # claims) = do {
     r \<leftarrow> ask (k_get_pvc k) (GetPvc True namespace claim);
     case r of
       Inl err \<Rightarrow> (if err = NotFound then claim_volumes_loop k namespace claims
                    else State_Monad.return (Inl (GetPVCFailed claim err)))
     | Inr v \<Rightarrow>
         (if IsTerminating (Some v) then State_Monad.return (Inr (v_name v))
          else do {
            (_, e) \<leftarrow> ClearOrphan k (Some v);
            case e of
              Some err \<Rightarrow> State_Monad.return (Inl (ReclaimFailed (v_name v) err))
            | None \<Rightarrow> claim_volumes_loop k namespace claims
          })
   }"

definition claimPodVolumes :: "kube \<Rightarrow> pod \<Rightarrow> (pvc_error + string) kio" where
  "claimPodVolumes k p = claim_volumes_loop k (p_namespace p) (pod_claims p)"

text \<open>The claim is updated in place; the flag says that it turned out to be terminating.\<close>

definition reclaimPVC :: "kube \<Rightarrow> pvc \<Rightarrow> (pvc \<times> (pvc_error + bool)) kio" where
  "reclaimPVC k v =
     (if \<not> HasOrphanLabel (Some v) then State_Monad.return (v, Inr False)
      else do {
        r \<leftarrow> ask (k_get_pvc k) (GetPvc True (v_namespace v) (v_name v));
        case r of
          Inl err \<Rightarrow> State_Monad.return (v, Inl (GetPVCFailed (v_name v) err))
        | Inr fresh \<Rightarrow>
            if IsTerminating (Some fresh) then State_Monad.return (fresh, Inr True)
            else do {
              (v', e) \<leftarrow> ClearOrphan k (Some fresh);
              State_Monad.return (case v' of Some w \<Rightarrow> w | None \<Rightarrow> fresh,
                case e of Some err \<Rightarrow> Inl err | None \<Rightarrow> Inr False)
            }
      })"

abbreviation ConditionPVCTerminating :: string where
  "ConditionPVCTerminating \<equiv> ''PVCTerminating''"

abbreviation reasonMountedPVCBeingDeleted :: string where
  "reasonMountedPVCBeingDeleted \<equiv> ''MountedPVCBeingDeleted''"

abbreviation reasonNoMountedPVCBeingDeleted :: string where
  "reasonNoMountedPVCBeingDeleted \<equiv> ''NoMountedPVCBeingDeleted''"

definition mountedPVCBeingDeletedMessage :: "string list \<Rightarrow> string" where
  "mountedPVCBeingDeletedMessage names =
     ''PVCs being deleted while shard pods still use them: '' @ join '', '' names
     @ ''. Each one's data is released when the last pod using it is deleted, and the PVC ''
     @ ''is then recreated empty. The operator will not start a drain, ''
     @ ''delete, replace or add pods that use them. To keep the data, copy it ''
     @ ''off or set the bound PersistentVolume's reclaim policy to Retain, ''
     @ ''then delete the pods that use them''"

definition setPVCTerminatingCondition ::
  "(condition list \<Rightarrow> condition \<Rightarrow> condition list) \<Rightarrow> shard \<Rightarrow> string list \<Rightarrow> (shard \<times> bool) kio" where
  "setPVCTerminatingCondition setStatus shd names =
     (let previous = look (s_conditions shd) ConditionPVCTerminating;
          wasTrue = (map_option c_status previous = Some ConditionTrue);
          clear = \<lparr>c_type = ConditionPVCTerminating, c_status = ConditionFalse,
                   c_observed_generation = s_generation shd, c_last_transition = 0,
                   c_reason = reasonNoMountedPVCBeingDeleted,
                   c_message = ''No shard pod mounts a PVC that is being deleted''\<rparr>;
          cond = (if names \<noteq> []
                  then clear\<lparr>c_status := ConditionTrue, c_reason := reasonMountedPVCBeingDeleted,
                             c_message := mountedPVCBeingDeletedMessage names\<rparr>
                  else clear)
      in do {
        (if names \<noteq> []
         then (if \<not> wasTrue \<or> map_option c_message previous \<noteq> Some (c_message cond)
               then emit (EmitEvent ''Warning'' reasonMountedPVCBeingDeleted (s_name shd))
               else State_Monad.return ())
         else if wasTrue then emit (EmitEvent ''Warning'' ''MountedPVCReleased'' (s_name shd))
         else State_Monad.return ());
        State_Monad.return
          (shd\<lparr>s_conditions := setStatus (s_conditions shd) cond\<rparr>, names \<noteq> [])
      })"

subsection \<open>Lemmas on the collector\<close>

lemma in_pod_claims [simp]: "c \<in> set (pod_claims p) \<longleftrightarrow> Some c \<in> set (p_volumes p)"
  by (force simp: pod_claims_def List.map_filter_def)

lemma map_of_claims_step:
  "map_of (foldl (\<lambda>m c. upd c n m) m cs) c = (if c \<in> set cs then Some n else map_of m c)"
  by (induction cs arbitrary: m) auto

lemma map_of_claims_of:
  "map_of (foldl (\<lambda>m p. foldl (\<lambda>m c. upd c (p_name p) m) m (pod_claims p)) m pods) c = Some n \<Longrightarrow>
   map_of m c = Some n \<or> (\<exists>p\<in>set pods. c \<in> set (pod_claims p) \<and> p_name p = n)"
proof (induction pods arbitrary: m)
  case (Cons p pods)
  show ?case
    using Cons.IH [of "foldl (\<lambda>m c. upd c (p_name p) m) m (pod_claims p)"] Cons.prems
    by (auto simp: map_of_claims_step split: if_splits)
qed simp

lemma claims_of_covers:
  "(\<exists>n. map_of m c = Some n \<and> n \<noteq> []) \<or> (\<exists>p\<in>set pods. c \<in> set (pod_claims p)) \<Longrightarrow>
   \<forall>p\<in>set pods. p_name p \<noteq> [] \<Longrightarrow>
   \<exists>n. map_of (foldl (\<lambda>m p. foldl (\<lambda>m c. upd c (p_name p) m) m (pod_claims p)) m pods) c = Some n
     \<and> n \<noteq> []"
proof (induction pods arbitrary: m)
  case (Cons p pods)
  show ?case
    using Cons.prems by (simp, intro Cons.IH) (auto simp: map_of_claims_step)
qed simp

lemma unused_claim:
  "\<forall>p\<in>set pods. p_name p \<noteq> [] \<Longrightarrow> str_at (map_of (claims_of pods)) c = [] \<Longrightarrow>
   \<forall>p\<in>set pods. c \<notin> set (pod_claims p)"
proof (rule ccontr)
  assume named: "\<forall>p\<in>set pods. p_name p \<noteq> []" and empty: "str_at (map_of (claims_of pods)) c = []"
    and "\<not> (\<forall>p\<in>set pods. c \<notin> set (pod_claims p))"
  then have "\<exists>p\<in>set pods. c \<in> set (pod_claims p)" by blast
  with claims_of_covers [of "[]" c pods] named obtain n where "map_of (claims_of pods) c = Some n" "n \<noteq> []"
    unfolding claims_of_def by blast
  with empty show False by (simp add: str_at_def)
qed

text \<open>What a run of the collector may rely on about its cache of claim users.\<close>

definition users_sound :: "kube \<Rightarrow> claim_users \<Rightarrow> bool" where
  "users_sound k users \<longleftrightarrow>
     (\<forall>ns claims. map_of users ns = Some claims \<longrightarrow>
        (\<exists>h pods. k_list_pods k h (ListPods True ns Map.empty) = Inr pods \<and> claims = claims_of pods))"

definition expendable :: "kube \<Rightarrow> (string \<Rightarrow> gotime option) \<Rightarrow> gotime \<Rightarrow> pvc \<Rightarrow> bool" where
  "expendable k parseStamp cutoff v \<longleftrightarrow>
     (\<exists>raw t. v_labels v LabelOrphan = Some raw \<and> parseStamp raw = Some t \<and> t \<le> cutoff)
     \<and> is_zero_ptr (v_deletion v)
     \<and> (\<exists>h pods. k_list_pods k h (ListPods True (v_namespace v) Map.empty) = Inr pods
          \<and> str_at (map_of (claims_of pods)) (v_name v) = [])"

definition gc_call :: "kube \<Rightarrow> (string \<Rightarrow> gotime option) \<Rightarrow> bool \<Rightarrow> gotime \<Rightarrow> pvc list \<Rightarrow> kcall \<Rightarrow> bool" where
  "gc_call k parseStamp dryRun cutoff vs c =
     (case c of
        ListPods live ns sel \<Rightarrow> live \<and> sel = Map.empty
      | DeletePvc rv v \<Rightarrow> \<not> dryRun \<and> v \<in> set vs \<and> rv = Some (v_resource_version v)
          \<and> expendable k parseStamp cutoff v
      | _ \<Rightarrow> False)"

lemma run_podUsing:
  assumes "users_sound k users" and "run_state (podUsing k users ns claim) h = ((users', r), h')"
  shows "users_sound k users' \<and> (h' = h \<or> h' = h @ [ListPods True ns Map.empty])
    \<and> (\<forall>u. r = Inr u \<longrightarrow> (\<exists>g pods. k_list_pods k g (ListPods True ns Map.empty) = Inr pods
         \<and> u = str_at (map_of (claims_of pods)) claim))"
  using assms
  by (auto simp: podUsing_def users_sound_def Let_def split: option.splits sum.splits if_splits) blast+

lemma processPVC_calls:
  assumes "users_sound k users"
    and "run_state (processPVC k parseStamp dryRun v cutoff users res) h = ((users', r), h')"
  shows "users_sound k users' \<and> (\<exists>cs. h' = h @ cs \<and> list_all (gc_call k parseStamp dryRun cutoff [v]) cs)"
proof (cases "\<exists>raw t. v_labels v LabelOrphan = Some raw \<and> parseStamp raw = Some t \<and> t \<le> cutoff
    \<and> is_zero_ptr (v_deletion v)")
  case False
  with assms show ?thesis
    by (auto simp: processPVC_def not_less split: option.splits if_splits)
next
  case True
  then obtain raw t where l: "v_labels v LabelOrphan = Some raw" "parseStamp raw = Some t" "t \<le> cutoff"
    and z: "is_zero_ptr (v_deletion v)" by blast
  obtain us u g where pu: "run_state (podUsing k users (v_namespace v) (v_name v)) h = ((us, u), g)"
    by (metis surj_pair)
  note sound = run_podUsing [OF assms(1) pu]
  show ?thesis
  proof (cases "u = Inr [] \<and> \<not> dryRun")
    case True
    with sound obtain g' pods where
        "k_list_pods k g' (ListPods True (v_namespace v) Map.empty) = Inr pods"
        "str_at (map_of (claims_of pods)) (v_name v) = []" by force
    with l z have "expendable k parseStamp cutoff v" by (auto simp: expendable_def)
    with True assms(2) l z pu sound show ?thesis
      by (auto simp: processPVC_def gc_call_def)
  next
    case False
    with assms(2) l z pu sound show ?thesis
      by (auto simp: processPVC_def gc_call_def split: sum.splits if_splits)
  qed
qed

lemma gc_call_mono: "gc_call k ps d c vs x \<Longrightarrow> set vs \<subseteq> set ws \<Longrightarrow> gc_call k ps d c ws x"
  by (auto simp: gc_call_def split: kcall.splits)

lemma clean_loop_calls:
  assumes "users_sound k users"
  shows "\<exists>cs. snd (run_state (clean_loop k parseStamp dryRun cutoff users res vs) h) = h @ cs
    \<and> list_all (gc_call k parseStamp dryRun cutoff vs) cs"
  using assms
proof (induction vs arbitrary: users res h)
  case (Cons v vs)
  obtain us r g where pr: "run_state (processPVC k parseStamp dryRun v cutoff users res) h = ((us, r), g)"
    by (metis surj_pair)
  from processPVC_calls [OF Cons.prems pr] obtain cs where us: "users_sound k us"
      and g: "g = h @ cs" and cs: "list_all (gc_call k parseStamp dryRun cutoff [v]) cs" by blast
  have cs': "list_all (gc_call k parseStamp dryRun cutoff (v # vs)) cs"
    using cs by (auto simp: list_all_iff intro: gc_call_mono)
  show ?case
  proof (cases r)
    case (Inl e)
    with pr g cs' show ?thesis by auto
  next
    case (Inr res')
    from Cons.IH [OF us, of res' g] obtain ds where
        "snd (run_state (clean_loop k parseStamp dryRun cutoff us res' vs) g) = g @ ds"
      and "list_all (gc_call k parseStamp dryRun cutoff vs) ds" by blast
    moreover from this(2) have "list_all (gc_call k parseStamp dryRun cutoff (v # vs)) ds"
      by (auto simp: list_all_iff intro: gc_call_mono)
    ultimately show ?thesis
      using pr g cs' Inr by (intro exI [of _ "cs @ ds"]) simp
  qed
qed simp

lemma orphaned_simps [simp]:
  "v_labels (orphaned stamp uid v) LabelOrphan
     = (case v_labels v LabelOrphan of None \<Rightarrow> Some stamp | Some s \<Rightarrow> Some s)"
  "v_resource_version (orphaned stamp uid v) = v_resource_version v"
  "v_deletion (orphaned stamp uid v) = v_deletion v"
  by (simp_all add: orphaned_def split: option.split)

lemma orphaned_owners:
  "uid \<noteq> [] \<Longrightarrow> uid \<notin> set (v_owners (orphaned stamp uid v))"
  by (simp add: orphaned_def)

lemma filter_length_id: "length (filter P xs) = length xs \<Longrightarrow> filter P xs = xs"
  by (metis filter_id_conv length_filter_less less_irrefl)

definition accepts_pvc_patches :: "kube \<Rightarrow> bool" where
  "accepts_pvc_patches k \<longleftrightarrow> (\<forall>h b p q. k_patch_pvc k h (PatchPvc b p q) = Inr q)"

lemma MarkOrphan_settled:
  assumes "v_labels v LabelOrphan \<noteq> None" and "uid = [] \<or> uid \<notin> set (v_owners v)"
  shows "run_state (MarkOrphan k formatStamp (Some v) uid now) h = ((Some v, None), h)"
proof -
  have "length (v_owners (orphaned (formatStamp now) uid v)) = length (v_owners v)"
    using assms(2) by (auto simp: orphaned_def intro!: arg_cong [where f = length] filter_True)
  with assms(1) show ?thesis by (simp add: MarkOrphan_def Let_def)
qed

lemma MarkOrphan_orphaned:
  "run_state (MarkOrphan k formatStamp (Some (orphaned stamp uid v)) uid now) h
     = ((Some (orphaned stamp uid v), None), h)"
  by (rule MarkOrphan_settled) (auto simp: orphaned_owners split: option.split)

definition claim_ready :: "kube \<Rightarrow> history \<Rightarrow> string \<Rightarrow> string \<Rightarrow> bool" where
  "claim_ready k h ns c \<longleftrightarrow>
     seen (k_get_pvc k) h (GetPvc True ns c) (Inl NotFound)
     \<or> (\<exists>v. seen (k_get_pvc k) h (GetPvc True ns c) (Inr v) \<and> is_zero_ptr (v_deletion v)
          \<and> (v_labels v LabelOrphan = None
             \<or> (\<exists>stored. seen (k_patch_pvc k) h (PatchPvc True v (unmarked v)) (Inr stored))))"

lemma claim_volumes_loop_extends: "\<exists>ds. snd (run_state (claim_volumes_loop k ns cs) h) = h @ ds"
proof (induction cs arbitrary: h)
  case (Cons c cs)
  show ?case
  proof (cases "k_get_pvc k h (GetPvc True ns c)")
    case (Inl e)
    with Cons.IH [of "h @ [GetPvc True ns c]"] show ?thesis by auto
  next
    case (Inr v)
    with Cons.IH [of "h @ [GetPvc True ns c]"] Cons.IH [of "h @ [GetPvc True ns c, PatchPvc True v (unmarked v)]"]
    show ?thesis by (auto simp: ClearOrphan_def split: sum.splits)
  qed
qed simp

lemma claim_ready_mono: "claim_ready k h ns c \<Longrightarrow> claim_ready k (h @ ds) ns c"
  by (auto simp: claim_ready_def intro: seen_mono)

lemma claim_ready_loop: "claim_ready k h ns c \<Longrightarrow> claim_ready k (snd (run_state (claim_volumes_loop k ns cs) h)) ns c"
  using claim_volumes_loop_extends [of k ns cs h] claim_ready_mono by auto

lemma claim_volumes_loop_ready:
  "fst (run_state (claim_volumes_loop k ns cs) h) = Inr [] \<Longrightarrow>
   (\<And>h c v. k_get_pvc k h (GetPvc True ns c) = Inr v \<Longrightarrow> v_name v = c) \<Longrightarrow> [] \<notin> set cs \<Longrightarrow>
   \<forall>c\<in>set cs. claim_ready k (snd (run_state (claim_volumes_loop k ns cs) h)) ns c"
proof (induction cs arbitrary: h)
  case (Cons c cs)
  let ?g = "GetPvc True ns c"
  show ?case
  proof (cases "k_get_pvc k h ?g")
    case (Inl e)
    with Cons.prems have e: "e = NotFound"
      and rest: "fst (run_state (claim_volumes_loop k ns cs) (h @ [?g])) = Inr []"
      by (auto split: if_splits)
    have "claim_ready k (h @ [?g]) ns c" using Inl e by (auto simp: claim_ready_def intro: seen_last)
    with Cons.IH [OF rest] Cons.prems Inl e show ?thesis by (auto intro: claim_ready_loop)
  next
    case (Inr v)
    have nt: "is_zero_ptr (v_deletion v)"
      using Cons.prems(1,3) Inr Cons.prems(2) [OF Inr] by (auto simp: IsTerminating_def split: if_splits)
    have got: "seen (k_get_pvc k) (h @ [?g]) ?g (Inr v)" using Inr by (rule seen_last)
    show ?thesis
    proof (cases "v_labels v LabelOrphan = None")
      case True
      with Cons.prems Inr nt
      have rest: "fst (run_state (claim_volumes_loop k ns cs) (h @ [?g])) = Inr []"
        by (simp add: IsTerminating_def ClearOrphan_def)
      have "claim_ready k (h @ [?g]) ns c" using got nt True by (auto simp: claim_ready_def)
      with Cons.IH [OF rest] Cons.prems Inr nt True show ?thesis
        by (auto simp: IsTerminating_def ClearOrphan_def intro: claim_ready_loop)
    next
      case False
      let ?w = "PatchPvc True v (unmarked v)"
      from False Cons.prems(1) Inr nt obtain stored where st: "k_patch_pvc k (h @ [?g]) ?w = Inr stored"
        and rest: "fst (run_state (claim_volumes_loop k ns cs) (h @ [?g, ?w])) = Inr []"
        by (auto simp: IsTerminating_def ClearOrphan_def split: sum.splits)
      have "seen (k_patch_pvc k) (h @ [?g, ?w]) ?w (Inr stored)" using seen_last [where h = "h @ [?g]"] st by fastforce
      moreover have "seen (k_get_pvc k) (h @ [?g, ?w]) ?g (Inr v)" using seen_mono [OF got, of "[?w]"] by simp
      ultimately have "claim_ready k (h @ [?g, ?w]) ns c" using nt by (auto simp: claim_ready_def)
      with Cons.IH [OF rest] Cons.prems Inr nt st False show ?thesis
        by (auto simp: IsTerminating_def ClearOrphan_def intro: claim_ready_loop)
    qed
  qed
qed simp

lemma Clean_calls:
  assumes "snd (run_state (Clean k parseStamp now opts) h) = h @ cs" and "c \<in> set cs"
  shows "c = SelectPvcs (opt_namespace opts) buildSelector
    \<or> (\<exists>vs. k_list_pvcs k h (SelectPvcs (opt_namespace opts) buildSelector) = Inr vs
         \<and> gc_call k parseStamp (DryRun opts) (now - Retention opts) vs c)"
proof -
  have "users_sound k []" by (simp add: users_sound_def)
  note loop = clean_loop_calls [OF this, of parseStamp "DryRun opts" "now - Retention opts"]
  show ?thesis
  proof (cases "k_list_pvcs k h (SelectPvcs (opt_namespace opts) buildSelector)")
    case (Inl e)
    with assms show ?thesis by (auto simp: Clean_def)
  next
    case (Inr vs)
    obtain ds where "cs = SelectPvcs (opt_namespace opts) buildSelector # ds"
        "list_all (gc_call k parseStamp (DryRun opts) (now - Retention opts) vs) ds"
      using assms(1) loop [of "\<lparr>Scanned = length vs, Deleted = 0, WouldDelete = 0, Skipped = 0,
          InUse = 0, Malformed = 0, Errors = 0\<rparr>" vs
          "h @ [SelectPvcs (opt_namespace opts) buildSelector]"] Inr
      by (auto simp: Clean_def case_prod_beta)
    with assms(2) Inr show ?thesis by (auto simp: list_all_iff)
  qed
qed

subsection \<open>The collector beside the operator\<close>

text \<open>
  What a server stores under the name of one claim, the oldest object first: every write gives a new resource version, and a
  deletion stamp is never taken back. The requests of any client are answered out of that history: a read or a listing gives
  one of its objects, whether current or not; a locked patch is taken only as the next write after the object of its version,
  and a deletion under a precondition only on the object of that version, which then gets its stamp or is gone.
\<close>

definition claim_objects :: "pvc list \<Rightarrow> string \<Rightarrow> string \<Rightarrow> bool" where
  "claim_objects objs ns c \<longleftrightarrow>
     distinct (map v_resource_version objs) \<and> (\<forall>v\<in>set objs. v_namespace v = ns \<and> v_name v = c)
     \<and> (\<forall>i j. i \<le> j \<and> j < length objs \<and> \<not> is_zero_ptr (v_deletion (objs ! i)) \<longrightarrow> \<not> is_zero_ptr (v_deletion (objs ! j)))"

definition serves_claim :: "pvc list \<Rightarrow> string \<Rightarrow> string \<Rightarrow> kube \<Rightarrow> bool" where
  "serves_claim objs ns c k \<longleftrightarrow>
     (\<forall>h v. k_get_pvc k h (GetPvc True ns c) = Inr v \<longrightarrow> v \<in> set objs)
     \<and> (\<forall>h c' v. k_get_pvc k h (GetPvc True ns c') = Inr v \<longrightarrow> v_name v = c')
     \<and> (\<forall>h n sel vs v. k_list_pvcs k h (SelectPvcs n sel) = Inr vs \<and> v \<in> set vs \<and> v_namespace v = ns \<and> v_name v = c \<longrightarrow> v \<in> set objs)
     \<and> (\<forall>h v w stored. k_patch_pvc k h (PatchPvc True v w) = Inr stored \<and> v_namespace v = ns \<and> v_name v = c \<longrightarrow>
          (\<exists>i. Suc i < length objs \<and> v_resource_version (objs ! i) = v_resource_version v
             \<and> objs ! Suc i = w\<lparr>v_resource_version := v_resource_version (objs ! Suc i)\<rparr>))
     \<and> (\<forall>h rv v. k_write k h (DeletePvc (Some rv) v) = None \<and> v_namespace v = ns \<and> v_name v = c \<longrightarrow>
          (\<exists>i<length objs. v_resource_version (objs ! i) = rv
             \<and> (Suc i = length objs \<or> \<not> is_zero_ptr (v_deletion (objs ! Suc i)))))"

text \<open>The object a run that claimed the volumes rested on: the one it read, or the one its own patch made of it.\<close>

definition rested_on :: "kube \<Rightarrow> history \<Rightarrow> string \<Rightarrow> string \<Rightarrow> pvc \<Rightarrow> bool" where
  "rested_on k h ns c v \<longleftrightarrow>
     (\<exists>u. seen (k_get_pvc k) h (GetPvc True ns c) (Inr u)
        \<and> (v = u \<or> (\<exists>stored. seen (k_patch_pvc k) h (PatchPvc True u (unmarked u)) (Inr stored)
                      \<and> v = (unmarked u)\<lparr>v_resource_version := v_resource_version v\<rparr>)))"

lemma version_unique:
  "distinct (map v_resource_version objs) \<Longrightarrow> v \<in> set objs \<Longrightarrow> i < length objs \<Longrightarrow>
   v_resource_version (objs ! i) = v_resource_version v \<Longrightarrow> objs ! i = v"
  by (metis in_set_conv_nth length_map nth_eq_iff_index_eq nth_map)

lemma changes_between:
  "i < (j::nat) \<Longrightarrow> \<not> P i \<Longrightarrow> P j \<Longrightarrow> \<exists>m. i \<le> m \<and> m < j \<and> \<not> P m \<and> P (Suc m)"
proof (induction j)
  case (Suc j)
  show ?case
  proof (cases "i < j \<and> P j")
    case True
    with Suc show ?thesis using less_SucI by blast
  next
    case False
    with Suc have "\<not> P j" by (metis less_antisym)
    with Suc.prems show ?thesis by (intro exI [of _ j]) simp
  qed
qed simp

lemma serves_claimD:
  assumes "serves_claim objs ns c k"
  shows "k_get_pvc k h (GetPvc True ns c) = Inr v \<Longrightarrow> v \<in> set objs"
    and "k_list_pvcs k h (SelectPvcs n sel) = Inr vs \<Longrightarrow> v \<in> set vs \<Longrightarrow> v_namespace v = ns \<Longrightarrow> v_name v = c \<Longrightarrow> v \<in> set objs"
    and "k_patch_pvc k h (PatchPvc True v w) = Inr stored \<Longrightarrow> v_namespace v = ns \<Longrightarrow> v_name v = c \<Longrightarrow>
      \<exists>i. Suc i < length objs \<and> v_resource_version (objs ! i) = v_resource_version v
        \<and> objs ! Suc i = w\<lparr>v_resource_version := v_resource_version (objs ! Suc i)\<rparr>"
    and "k_write k h (DeletePvc (Some rv) v) = None \<Longrightarrow> v_namespace v = ns \<Longrightarrow> v_name v = c \<Longrightarrow>
      \<exists>i<length objs. v_resource_version (objs ! i) = rv \<and> (Suc i = length objs \<or> \<not> is_zero_ptr (v_deletion (objs ! Suc i)))"
  using assms unfolding serves_claim_def by blast+

lemma ready_object:
  assumes "claim_objects objs ns c" and "serves_claim objs ns c k" and "claim_ready k h ns c"
    and "\<not> seen (k_get_pvc k) h (GetPvc True ns c) (Inl NotFound)"
  shows "\<exists>j<length objs. rested_on k h ns c (objs ! j) \<and> v_labels (objs ! j) LabelOrphan = None \<and> is_zero_ptr (v_deletion (objs ! j))"
proof -
  from assms(3,4) obtain u where u: "seen (k_get_pvc k) h (GetPvc True ns c) (Inr u)" and z: "is_zero_ptr (v_deletion u)"
    and free: "v_labels u LabelOrphan = None \<or> (\<exists>stored. seen (k_patch_pvc k) h (PatchPvc True u (unmarked u)) (Inr stored))"
    by (auto simp: claim_ready_def)
  from u assms(2) have mem: "u \<in> set objs" by (auto simp: seen_def serves_claim_def)
  show ?thesis
  proof (cases "v_labels u LabelOrphan = None")
    case True
    with mem u z show ?thesis by (auto simp: rested_on_def in_set_conv_nth)
  next
    case False
    with free obtain stored where st: "seen (k_patch_pvc k) h (PatchPvc True u (unmarked u)) (Inr stored)" by auto
    have "v_namespace u = ns" "v_name u = c" using mem assms(1) by (auto simp: claim_objects_def)
    with st obtain i where "Suc i < length objs"
        and new: "objs ! Suc i = (unmarked u)\<lparr>v_resource_version := v_resource_version (objs ! Suc i)\<rparr>"
      unfolding seen_def using serves_claimD(3) [OF assms(2)] by blast
    moreover have "v_labels (objs ! Suc i) LabelOrphan = None" "is_zero_ptr (v_deletion (objs ! Suc i))"
      using z by (subst new, simp add: unmarked_def)+
    ultimately show ?thesis using u st by (auto simp: rested_on_def)
  qed
qed

lemma terminating_names:
  "set (foldl (\<lambda>ns c. if c \<in> T \<and> c \<notin> set ns then ns @ [c] else ns) ns cs) = set ns \<union> (set cs \<inter> T)
   \<and> (distinct ns \<longrightarrow> distinct (foldl (\<lambda>ns c. if c \<in> T \<and> c \<notin> set ns then ns @ [c] else ns) ns cs))"
  by (induction cs arbitrary: ns) auto

lemma terminating_names_pods:
  "set (foldl (\<lambda>ns p. if G p then ns
         else foldl (\<lambda>ns c. if c \<in> T \<and> c \<notin> set ns then ns @ [c] else ns) ns (pod_claims p)) ns ps)
     = set ns \<union> (\<Union>p\<in>{p\<in>set ps. \<not> G p}. set (pod_claims p) \<inter> T)
   \<and> (distinct ns \<longrightarrow> distinct (foldl (\<lambda>ns p. if G p then ns
         else foldl (\<lambda>ns c. if c \<in> T \<and> c \<notin> set ns then ns @ [c] else ns) ns (pod_claims p)) ns ps))"
proof (induction ps arbitrary: ns)
  case (Cons p ps)
  show ?case
  proof (cases "G p")
    case True
    then show ?thesis using Cons.IH [of ns] by auto
  next
    case False
    let ?ns = "foldl (\<lambda>ns c. if c \<in> T \<and> c \<notin> set ns then ns @ [c] else ns) ns (pod_claims p)"
    have "set ?ns = set ns \<union> (set (pod_claims p) \<inter> T)" "distinct ns \<longrightarrow> distinct ?ns"
      using terminating_names [of T ns "pod_claims p"] by blast+
    with Cons.IH [of ?ns] False show ?thesis by (auto simp del: in_pod_claims)
  qed
qed simp

subsection \<open>Properties\<close>

text \<open>
  C30: the collector deletes only what nobody can miss. Every claim \<^const>\<open>Clean\<close> deletes carries an orphan
  mark older than the retention, is not being deleted already, and is mounted by no pod of a listing of
  its namespace taken during the run; the deletion is conditioned on the resource version listed, and
  a dry run deletes nothing.
\<close>

theorem Clean_deletes_only_expendable:
  assumes "DeletePvc rv v \<in> set cs"
    and "snd (run_state (Clean k parseStamp now opts) h) = h @ cs"
  shows "\<not> DryRun opts \<and> rv = Some (v_resource_version v)
    \<and> (\<exists>raw t. v_labels v LabelOrphan = Some raw \<and> parseStamp raw = Some t \<and> t \<le> now - Retention opts)
    \<and> is_zero_ptr (v_deletion v)
    \<and> (\<exists>g pods. k_list_pods k g (ListPods True (v_namespace v) Map.empty) = Inr pods
         \<and> ((\<forall>p\<in>set pods. p_name p \<noteq> []) \<longrightarrow> (\<forall>p\<in>set pods. Some (v_name v) \<notin> set (p_volumes p))))"
proof -
  obtain vs where "gc_call k parseStamp (DryRun opts) (now - Retention opts) vs (DeletePvc rv v)"
    using Clean_calls [OF assms(2) assms(1)] by auto
  then have d: "\<not> DryRun opts" "rv = Some (v_resource_version v)"
    "expendable k parseStamp (now - Retention opts) v" by (auto simp: gc_call_def)
  from d(3) obtain raw t g pods where "v_labels v LabelOrphan = Some raw" "parseStamp raw = Some t"
      "t \<le> now - Retention opts" "is_zero_ptr (v_deletion v)"
    and pods: "k_list_pods k g (ListPods True (v_namespace v) Map.empty) = Inr pods"
      "str_at (map_of (claims_of pods)) (v_name v) = []"
    by (auto simp: expendable_def)
  moreover have "(\<forall>p\<in>set pods. p_name p \<noteq> []) \<longrightarrow> (\<forall>p\<in>set pods. Some (v_name v) \<notin> set (p_volumes p))"
    using unused_claim [OF _ pods(2)] by simp
  ultimately show ?thesis using d(1,2) by blast
qed

theorem Clean_deletes_only_expendable_witness:
  "let v = \<lparr>v_name = ''data-0'', v_namespace = ''ns'', v_resource_version = ''7'',
            v_labels = [LabelOrphan \<mapsto> ''t''], v_owners = [], v_deletion = None, v_request = None, v_bound = True, v_class = None, v_modes = [],
            v_conditions = []\<rparr>;
       k = echo_kube\<lparr>k_list_pvcs := (\<lambda>h c. Inr [v])\<rparr>
   in DeletePvc (Some ''7'') v
        \<in> set (snd (run_state (Clean k (\<lambda>s. Some 5) 100 \<lparr>Retention = 10, opt_namespace = [], DryRun = False\<rparr>) []))
      \<and> is_zero_ptr (v_deletion v)"
proof -
  let ?v = "\<lparr>v_name = ''data-0'', v_namespace = ''ns'', v_resource_version = ''7'',
            v_labels = [LabelOrphan \<mapsto> ''t''], v_owners = [], v_deletion = None, v_request = None, v_bound = True, v_class = None, v_modes = [],
            v_conditions = []\<rparr> :: pvc"
  let ?k = "echo_kube\<lparr>k_list_pvcs := (\<lambda>h c. Inr [?v])\<rparr>"
  let ?opts = "\<lparr>Retention = 10, opt_namespace = [], DryRun = False\<rparr>"
  have r: "snd (run_state (Clean ?k (\<lambda>s. Some 5) 100 ?opts) [])
      = [] @ [SelectPvcs [] buildSelector, ListPods True ''ns'' Map.empty, DeletePvc (Some ''7'') ?v]"
    by (simp add: Clean_def echo_kube_def processPVC_def podUsing_def Let_def claims_of_def)
  have d: "DeletePvc (Some ''7'') ?v
      \<in> set [SelectPvcs [] buildSelector, ListPods True ''ns'' Map.empty, DeletePvc (Some ''7'') ?v]"
    by simp
  from Clean_deletes_only_expendable [OF d r] r d show ?thesis unfolding Let_def by simp
qed

text \<open>
  C6: the collector does not take a claim away from the operator. Let the operator's claiming of a pod's volumes succeed, on a
  claim it found, and let the server take a deletion the collector asks for, each answered out of the one history of the
  claim and in whatever order their requests interleave. Then the object the operator rested on, which carried no orphan mark
  and no deletion stamp, comes before the object the collector had judged and deleted, and between the two some write has put
  the mark on again: the collector can only delete what was retired after the operator claimed it.
\<close>

theorem gc_never_collects_claimed:
  assumes "claim_objects objs ns c" and "serves_claim objs ns c k" and "serves_claim objs ns c g"
    and "run_state (claimPodVolumes k p) [] = (Inr [], h)" and "p_namespace p = ns"
    and "Some c \<in> set (p_volumes p)" and "Some [] \<notin> set (p_volumes p)"
    and "\<not> seen (k_get_pvc k) h (GetPvc True ns c) (Inl NotFound)"
    and "snd (run_state (Clean g parseStamp now opts) []) = before @ DeletePvc rv v # after"
    and "k_write g before (DeletePvc rv v) = None" and "v_namespace v = ns" and "v_name v = c"
  shows "\<exists>j i m. i < length objs \<and> rested_on k h ns c (objs ! j) \<and> objs ! i = v \<and> j \<le> m \<and> m < i
    \<and> v_labels (objs ! j) LabelOrphan = None \<and> is_zero_ptr (v_deletion (objs ! j))
    \<and> v_labels (objs ! m) LabelOrphan = None \<and> v_labels (objs ! Suc m) LabelOrphan \<noteq> None"
proof -
  from assms(9) have "snd (run_state (Clean g parseStamp now opts) []) = [] @ (before @ DeletePvc rv v # after)" by simp
  from Clean_calls [OF this, of "DeletePvc rv v"] obtain vs where
      vs: "k_list_pvcs g [] (SelectPvcs (opt_namespace opts) buildSelector) = Inr vs" "v \<in> set vs"
      and rv: "rv = Some (v_resource_version v)" and marked: "v_labels v LabelOrphan \<noteq> None"
    by (auto simp: gc_call_def expendable_def)
  from serves_claimD(2) [OF assms(3) vs assms(11,12)] have mem: "v \<in> set objs" .
  from serves_claimD(4) [OF assms(3) assms(10) [unfolded rv] assms(11,12)] obtain i where i: "i < length objs" "v_resource_version (objs ! i) = v_resource_version v"
      and gone: "Suc i = length objs \<or> \<not> is_zero_ptr (v_deletion (objs ! Suc i))"
    by blast
  with mem assms(1) have iv: "objs ! i = v" by (auto simp: claim_objects_def intro: version_unique)
  have "c \<in> set (pod_claims p)" "[] \<notin> set (pod_claims p)" using assms(6,7) by simp_all
  with claim_volumes_loop_ready [of k ns "pod_claims p" "[]"] assms(2,4,5) have "claim_ready k h ns c"
    by (simp add: claimPodVolumes_def serves_claim_def)
  from ready_object [OF assms(1,2) this assms(8)] obtain j where j: "j < length objs" "rested_on k h ns c (objs ! j)"
      "v_labels (objs ! j) LabelOrphan = None" "is_zero_ptr (v_deletion (objs ! j))" by blast
  have "\<not> i < j" using gone j(1,4) assms(1) by (auto simp: claim_objects_def dest: Suc_leI)
  moreover have "j \<noteq> i" using j(3) iv marked by auto
  ultimately have "j < i" by simp
  from changes_between [OF this, of "\<lambda>n. v_labels (objs ! n) LabelOrphan \<noteq> None"] j(3) iv marked
  obtain m where "j \<le> m" "m < i" "v_labels (objs ! m) LabelOrphan = None" "v_labels (objs ! Suc m) LabelOrphan \<noteq> None" by auto
  with i(1) iv j show ?thesis by blast
qed

text \<open>
  A claim that was marked, claimed, retired, deleted: the operator reads the first object and clears its mark, the collector
  lists the third.
\<close>

definition marked_claim :: "string \<Rightarrow> pvc" where
  "marked_claim rv = \<lparr>v_name = ''data-0'', v_namespace = ''ns'', v_resource_version = rv,
     v_labels = [LabelOrphan \<mapsto> ''t''], v_owners = [], v_deletion = None, v_request = None, v_bound = True, v_class = None, v_modes = [],
     v_conditions = []\<rparr>"

definition sample_objects :: "pvc list" where
  "sample_objects = [marked_claim ''1'', (unmarked (marked_claim ''1''))\<lparr>v_resource_version := ''2''\<rparr>, marked_claim ''3'',
     (marked_claim ''4'')\<lparr>v_deletion := Some 9\<rparr>]"

definition sample_server :: kube where
  "sample_server = echo_kube\<lparr>
     k_get_pvc := (\<lambda>h c. if c = GetPvc True ''ns'' ''data-0'' then Inr (marked_claim ''1'') else Inl NotFound),
     k_list_pvcs := (\<lambda>h c. Inr [marked_claim ''3'']),
     k_patch_pvc := (\<lambda>h c. if c = PatchPvc True (marked_claim ''1'') (unmarked (marked_claim ''1'')) then Inr (sample_objects ! 1) else Inl Conflict),
     k_write := (\<lambda>h c. if c = DeletePvc (Some ''3'') (marked_claim ''3'') then None else Some Conflict)\<rparr>"

lemma sample_served: "claim_objects sample_objects ''ns'' ''data-0''" "serves_claim sample_objects ''ns'' ''data-0'' sample_server"
proof -
  have stamped: "i < 4 \<Longrightarrow> \<not> is_zero_ptr (v_deletion (sample_objects ! i)) \<longleftrightarrow> i = 3" for i
    by (auto simp: sample_objects_def marked_claim_def unmarked_def is_zero_time_def nth_Cons' split: if_splits)
  have "distinct (map v_resource_version sample_objects) \<and> length sample_objects = 4
      \<and> (\<forall>v\<in>set sample_objects. v_namespace v = ''ns'' \<and> v_name v = ''data-0'')"
    by (simp add: sample_objects_def marked_claim_def unmarked_def)
  then show "claim_objects sample_objects ''ns'' ''data-0''"
    unfolding claim_objects_def using stamped le_less_trans by fastforce
  have patched: "\<exists>i. Suc i < length sample_objects \<and> v_resource_version (sample_objects ! i) = ''1''
      \<and> sample_objects ! Suc i = (unmarked (marked_claim ''1''))\<lparr>v_resource_version := v_resource_version (sample_objects ! Suc i)\<rparr>"
    by (intro exI [of _ 0]) (simp add: sample_objects_def marked_claim_def)
  have deleted: "\<exists>i<length sample_objects. v_resource_version (sample_objects ! i) = ''3''
      \<and> (Suc i = length sample_objects \<or> \<not> is_zero_ptr (v_deletion (sample_objects ! Suc i)))"
    by (intro exI [of _ 2]) (simp add: sample_objects_def marked_claim_def is_zero_time_def)
  have "marked_claim ''1'' \<in> set sample_objects" "marked_claim ''3'' \<in> set sample_objects" by (simp_all add: sample_objects_def)
  moreover have "v_name (marked_claim rv) = ''data-0''" "v_resource_version (marked_claim rv) = rv" for rv by (simp_all add: marked_claim_def)
  ultimately show "serves_claim sample_objects ''ns'' ''data-0'' sample_server"
    unfolding serves_claim_def sample_server_def using patched deleted by (auto split: if_splits)
qed

theorem gc_never_collects_claimed_witness:
  "\<exists>j i m. rested_on sample_server (snd (run_state (claimPodVolumes sample_server (sample_pod\<lparr>p_namespace := ''ns'', p_volumes := [Some ''data-0'']\<rparr>)) []))
        ''ns'' ''data-0'' (sample_objects ! j)
      \<and> sample_objects ! i = marked_claim ''3'' \<and> j \<le> m \<and> m < i
      \<and> v_labels (sample_objects ! m) LabelOrphan = None \<and> v_labels (sample_objects ! Suc m) LabelOrphan \<noteq> None"
proof -
  let ?p = "sample_pod\<lparr>p_namespace := ''ns'', p_volumes := [Some ''data-0'']\<rparr>"
  let ?h = "[GetPvc True ''ns'' ''data-0'', PatchPvc True (marked_claim ''1'') (unmarked (marked_claim ''1''))]"
  let ?opts = "\<lparr>Retention = 10, opt_namespace = [], DryRun = False\<rparr>"
  have claim: "run_state (claimPodVolumes sample_server ?p) [] = (Inr [], ?h)"
    by (simp add: claimPodVolumes_def pod_claims_def List.map_filter_def sample_server_def IsTerminating_def ClearOrphan_def marked_claim_def)
  have found: "\<not> seen (k_get_pvc sample_server) ?h (GetPvc True ''ns'' ''data-0'') (Inl NotFound)"
    by (auto simp: seen_def sample_server_def)
  have clean: "snd (run_state (Clean sample_server (\<lambda>s. Some 5) 100 ?opts) [])
      = [SelectPvcs [] buildSelector, ListPods True ''ns'' Map.empty] @ DeletePvc (Some ''3'') (marked_claim ''3'') # []"
    by (simp add: Clean_def sample_server_def echo_kube_def processPVC_def podUsing_def Let_def claims_of_def marked_claim_def)
  have "k_write sample_server g (DeletePvc (Some ''3'') (marked_claim ''3'')) = None" for g by (simp add: sample_server_def)
  from gc_never_collects_claimed [OF sample_served(1,2,2) claim _ _ _ found clean this] show ?thesis
    unfolding claim by (auto simp: marked_claim_def)
qed

text \<open>
  with a server that accepts patches, \<^const>\<open>MarkOrphan\<close> leaves the claim marked and without the given
  owner, keeps an earlier mark, and is idempotent: a second call makes no request and changes nothing.
\<close>

theorem MarkOrphan_marks:
  assumes "accepts_pvc_patches k"
  shows "\<exists>v' cs. run_state (MarkOrphan k formatStamp (Some v) uid now) h = ((Some v', None), h @ cs)
     \<and> v_labels v' LabelOrphan
         = (case v_labels v LabelOrphan of None \<Rightarrow> Some (formatStamp now) | Some s \<Rightarrow> Some s)
     \<and> (uid \<noteq> [] \<longrightarrow> uid \<notin> set (v_owners v'))
     \<and> (\<forall>later g. run_state (MarkOrphan k formatStamp (Some v') uid later) g = ((Some v', None), g))"
proof (cases "v_labels v LabelOrphan = None
    \<or> length (v_owners (orphaned (formatStamp now) uid v)) \<noteq> length (v_owners v)")
  case True
  then have "run_state (MarkOrphan k formatStamp (Some v) uid now) h
      = ((Some (orphaned (formatStamp now) uid v), None),
         h @ [PatchPvc False v (orphaned (formatStamp now) uid v)])"
    using assms by (simp add: MarkOrphan_def Let_def accepts_pvc_patches_def)
  then show ?thesis
    by (auto simp: MarkOrphan_orphaned orphaned_owners)
next
  case False
  have own: "uid = [] \<or> uid \<notin> set (v_owners v)"
  proof (cases "uid = []")
    case nonempty: False
    then have "length (filter (\<lambda>u. u \<noteq> uid) (v_owners v)) = length (v_owners v)"
      using False by (simp add: orphaned_def)
    then have "filter (\<lambda>u. u \<noteq> uid) (v_owners v) = v_owners v" by (rule filter_length_id)
    then show ?thesis by (auto simp: filter_id_conv)
  qed simp
  have settled: "run_state (MarkOrphan k formatStamp (Some v) uid l) g = ((Some v, None), g)" for l g
    using False own by (intro MarkOrphan_settled) auto
  from False obtain s where "v_labels v LabelOrphan = Some s" by auto
  with settled own show ?thesis
    by (intro exI [of _ v] exI [of _ "[]"]) auto
qed

theorem MarkOrphan_marks_witness:
  "\<exists>v'. fst (run_state (MarkOrphan echo_kube (\<lambda>t. ''now'') (Some (marked_claim ''1'')) ''uid'' 5) [])
      = (Some v', None) \<and> v_labels v' LabelOrphan = Some ''t''"
proof -
  have a: "accepts_pvc_patches echo_kube" by (simp add: accepts_pvc_patches_def echo_kube_def)
  show ?thesis
    using MarkOrphan_marks [OF a, of "\<lambda>t. ''now''" "marked_claim ''1''" "''uid''" 5 "[]"]
    by (auto simp: marked_claim_def)
qed

text \<open>
  the comment in \<^const>\<open>MarkOrphan\<close> says that the caller's object is not changed before the API call
  succeeds, but the code changes it first. After a failed patch the caller's copy carries the mark, and
  calling again with that copy makes no request and reports success: the claim is never marked.
\<close>

theorem MarkOrphan_lost_mark:
  assumes "k_patch_pvc k h (PatchPvc False v (orphaned (formatStamp now) uid v)) = Inl err"
    and "v_labels v LabelOrphan = None"
  shows "\<exists>v'. run_state (MarkOrphan k formatStamp (Some v) uid now) h
       = ((Some v', Some (PvcApi err)), h @ [PatchPvc False v v'])
     \<and> run_state (MarkOrphan k formatStamp (Some v') uid later) g = ((Some v', None), g)"
proof (intro exI conjI)
  show "run_state (MarkOrphan k formatStamp (Some v) uid now) h
       = ((Some (orphaned (formatStamp now) uid v), Some (PvcApi err)),
          h @ [PatchPvc False v (orphaned (formatStamp now) uid v)])"
    using assms by (simp add: MarkOrphan_def Let_def)
qed (rule MarkOrphan_orphaned)

theorem MarkOrphan_lost_mark_witness:
  "let k = echo_kube\<lparr>k_patch_pvc := (\<lambda>h c. Inl Conflict)\<rparr>;
       v = (marked_claim ''1'')\<lparr>v_labels := Map.empty\<rparr>
   in \<exists>v'. run_state (MarkOrphan k (\<lambda>t. ''now'') (Some v) [] 5) []
         = ((Some v', Some (PvcApi Conflict)), [PatchPvc False v v'])
       \<and> run_state (MarkOrphan k (\<lambda>t. ''now'') (Some v') [] 9) [] = ((Some v', None), [])"
  using MarkOrphan_lost_mark
    [of "echo_kube\<lparr>k_patch_pvc := (\<lambda>h c. Inl Conflict)\<rparr>" "[]" "(marked_claim ''1'')\<lparr>v_labels := Map.empty\<rparr>"
        "\<lambda>t. ''now''" 5 "[]" Conflict 9 "[]"]
  by (simp add: Let_def)

text \<open>
  when \<^const>\<open>claimPodVolumes\<close> reports no terminating claim and no error, every claim the pod mounts was
  read past the cache and was then either absent, or not being deleted and free of an orphan mark, or
  not being deleted and had its mark removed under the resource version just read.
\<close>

theorem claimPodVolumes_ready:
  assumes "run_state (claimPodVolumes k p) [] = (Inr [], h)"
    and "\<And>h c v. k_get_pvc k h (GetPvc True (p_namespace p) c) = Inr v \<Longrightarrow> v_name v = c"
    and "Some [] \<notin> set (p_volumes p)" and "Some c \<in> set (p_volumes p)"
  shows "seen (k_get_pvc k) h (GetPvc True (p_namespace p) c) (Inl NotFound)
    \<or> (\<exists>v. seen (k_get_pvc k) h (GetPvc True (p_namespace p) c) (Inr v) \<and> is_zero_ptr (v_deletion v)
         \<and> (v_labels v LabelOrphan = None
            \<or> (\<exists>stored. seen (k_patch_pvc k) h (PatchPvc True v (unmarked v)) (Inr stored))))"
  using claim_volumes_loop_ready [of k "p_namespace p" "pod_claims p" "[]"] assms
  by (simp add: claim_ready_def claimPodVolumes_def)

theorem claimPodVolumes_ready_witness:
  "seen (k_get_pvc echo_kube) [GetPvc True ''ns'' ''data-0''] (GetPvc True ''ns'' ''data-0'') (Inl NotFound)"
proof -
  let ?p = "sample_pod\<lparr>p_namespace := ''ns'', p_volumes := [Some ''data-0'']\<rparr>"
  have "run_state (claimPodVolumes echo_kube ?p) [] = (Inr [], [GetPvc True ''ns'' ''data-0''])"
    by (simp add: claimPodVolumes_def pod_claims_def List.map_filter_def echo_kube_def)
  from claimPodVolumes_ready [OF this, of "''data-0''"] show ?thesis
    by (auto simp: echo_kube_def seen_def)
qed

text \<open>
  The claims reported as being deleted under a pod are, sorted and without repetition, exactly the
  terminating claims that a pod mounts which is not itself on its way out within the slack.
\<close>

theorem terminatingClaimsInUse_exact:
  "set (terminatingClaimsInUse pods pvcs now) =
     {c. (\<exists>v\<in>set pvcs. v_name v = c \<and> IsTerminating (Some v))
         \<and> (\<exists>p\<in>set pods. Some c \<in> set (p_volumes p)
              \<and> (case p_deletion p of Some t \<Rightarrow> t = 0 \<or> t + stuckDeletionSlack \<le> now | None \<Rightarrow> True))}
   \<and> sorted (terminatingClaimsInUse pods pvcs now) \<and> distinct (terminatingClaimsInUse pods pvcs now)"
proof -
  let ?T = "set (map v_name (filter (\<lambda>v. IsTerminating (Some v)) pvcs))"
  let ?G = "\<lambda>p. case p_deletion p of
       Some t \<Rightarrow> \<not> is_zero_time t \<and> now < t + stuckDeletionSlack | None \<Rightarrow> False"
  have G: "\<not> ?G p \<longleftrightarrow> (case p_deletion p of Some t \<Rightarrow> t = 0 \<or> t + stuckDeletionSlack \<le> now | None \<Rightarrow> True)"
    for p :: pod by (auto simp: is_zero_time_def split: option.split)
  show ?thesis
    using terminating_names_pods [of ?G ?T "[]" pods]
    unfolding terminatingClaimsInUse_def Let_def by (auto simp: G)
qed

end
