(* ===== verification/Condition_Writers.thy ===== *)
theory Condition_Writers
  imports Posture Backup_Health Pvc_Lifecycle
begin

text \<open>
  Several components of a reconcile pass publish a condition each on the same shard: the posture
  evaluation and the backup health evaluation among them. The contract of such
  a writer, as the locale \<^verbatim>\<open>condition_writer\<close>, and two writers of the code as its interpretations.
\<close>

locale condition_writer =
  fixes publish :: "shard \<Rightarrow> shard" and kind :: string
  assumes others_kept: "t \<noteq> kind \<Longrightarrow> look (s_conditions (publish s)) t = look (s_conditions s) t"
    and generation_kept: "s_generation (publish s) = s_generation s"
    and own_local: "look (s_conditions s) kind = look (s_conditions s') kind \<Longrightarrow> s_generation s = s_generation s' \<Longrightarrow>
      look (s_conditions (publish s)) kind = look (s_conditions (publish s')) kind"
begin

lemma truth_kept: "t \<noteq> kind \<Longrightarrow> IsConditionTrue (s_conditions (publish s)) t = IsConditionTrue (s_conditions s) t"
  by (simp add: IsConditionTrue_look others_kept)

end

text \<open>Two writers of different conditions do not disturb each other, in whichever order they run.\<close>

locale writer_pair = first: condition_writer publish1 kind1 + second: condition_writer publish2 kind2
  for publish1 kind1 publish2 kind2 +
  assumes distinct_kinds: "kind1 \<noteq> kind2"
begin

lemma order_irrelevant:
  "look (s_conditions (publish1 (publish2 s))) t = look (s_conditions (publish2 (publish1 s))) t"
proof -
  consider "t = kind1" | "t = kind2" | "t \<noteq> kind1" "t \<noteq> kind2" by blast
  then show ?thesis
  proof cases
    case 1
    have "look (s_conditions (publish1 (publish2 s))) kind1 = look (s_conditions (publish1 s)) kind1"
      using distinct_kinds by (intro first.own_local) (simp_all add: second.others_kept second.generation_kept)
    with 1 distinct_kinds show ?thesis by (simp add: second.others_kept)
  next
    case 2
    have "look (s_conditions (publish2 (publish1 s))) kind2 = look (s_conditions (publish2 s)) kind2"
      using distinct_kinds by (intro second.own_local) (simp_all add: first.others_kept first.generation_kept)
    with 2 distinct_kinds show ?thesis by (simp add: first.others_kept)
  next
    case 3
    then show ?thesis by (simp add: first.others_kept second.others_kept)
  qed
qed

end

interpretation posture_writer: condition_writer "\<lambda>shd. Posture.Apply now shd result" ConditionConsistent
  for now result
proof
  fix t and s s' :: shard
  show "t \<noteq> ConditionConsistent \<Longrightarrow>
      look (s_conditions (Posture.Apply now s result)) t = look (s_conditions s) t"
    by (auto simp: Posture.Apply_def Let_def look_SetCondition split: option.split)
  show "s_generation (Posture.Apply now s result) = s_generation s"
    by (auto simp: Posture.Apply_def Let_def split: option.split)
  show "look (s_conditions s) ConditionConsistent = look (s_conditions s') ConditionConsistent \<Longrightarrow>
      s_generation s = s_generation s' \<Longrightarrow>
      look (s_conditions (Posture.Apply now s result)) ConditionConsistent
        = look (s_conditions (Posture.Apply now s' result)) ConditionConsistent"
    by (auto simp: Posture.Apply_def Let_def look_SetCondition IsConditionFalse_look split: option.split)
qed

interpretation backup_writer: condition_writer "\<lambda>shd. Backup_Health.Apply render now shd result" ConditionHealthy
  for render now result
proof
  fix t and s s' :: shard
  show "t \<noteq> ConditionHealthy \<Longrightarrow>
      look (s_conditions (Backup_Health.Apply render now s result)) t = look (s_conditions s) t"
    by (auto simp: Backup_Health.Apply_def Let_def look_SetCondition split: option.split)
  show "s_generation (Backup_Health.Apply render now s result) = s_generation s"
    by (auto simp: Backup_Health.Apply_def Let_def split: option.split)
  show "look (s_conditions s) ConditionHealthy = look (s_conditions s') ConditionHealthy \<Longrightarrow>
      s_generation s = s_generation s' \<Longrightarrow>
      look (s_conditions (Backup_Health.Apply render now s result)) ConditionHealthy
        = look (s_conditions (Backup_Health.Apply render now s' result)) ConditionHealthy"
    by (auto simp: Backup_Health.Apply_def Let_def look_SetCondition split: option.split)
qed

interpretation posture_backup:
  writer_pair "\<lambda>shd. Posture.Apply now shd result" ConditionConsistent
    "\<lambda>shd. Backup_Health.Apply render now' shd result'" ConditionHealthy
  for now result render now' result'
  by unfold_locales simp

subsection \<open>The writes of the data-plane phase\<close>

text \<open>
  The other places of \<^verbatim>\<open>reconcileDataPlane\<close> (\<^verbatim>\<open>shard/reconcile_data_plane.go\<close>) that change the two conditions: when the RPC
  client cannot be built and when the backups cannot be evaluated. The texts of errors are arguments.
\<close>

definition setPostureUnknownUnlessFalse :: "gotime \<Rightarrow> shard \<Rightarrow> string \<Rightarrow> string \<Rightarrow> shard" where
  "setPostureUnknownUnlessFalse now shd reason message =
     (if IsConditionFalse (s_conditions shd) ConditionConsistent then shd
      else shd\<lparr>s_conditions := SetCondition (s_conditions shd)
        \<lparr>c_type = ConditionConsistent, c_status = ConditionUnknown, c_observed_generation = s_generation shd,
         c_last_transition = now, c_reason = reason, c_message = message\<rparr>\<rparr>)"

definition setBackupUnknownUnlessFalse :: "gotime \<Rightarrow> shard \<Rightarrow> string \<Rightarrow> shard" where
  "setBackupUnknownUnlessFalse now shd message =
     (if IsConditionFalse (s_conditions shd) ConditionHealthy then shd
      else shd\<lparr>s_conditions := SetCondition (s_conditions shd)
        \<lparr>c_type = ConditionHealthy, c_status = ConditionUnknown, c_observed_generation = s_generation shd,
         c_last_transition = now, c_reason = ''BackupCheckUnavailable'', c_message = message\<rparr>\<rparr>)"

text \<open>What the resolver error of the client does to the conditions, and the phase that evaluates the backups.\<close>

definition client_unavailable :: "gotime \<Rightarrow> shard \<Rightarrow> string \<Rightarrow> shard" where
  "client_unavailable now shd err =
     (let message = ''Failed to build multipooler RPC client: '' @ err
      in setBackupUnknownUnlessFalse now
           (setPostureUnknownUnlessFalse now shd ''PoolerClientUnavailable'' message) message)"

text \<open>
  The posture phase, by the number of observations in a row that were not settled: an observation without poolers, one that is
  accepted, and one that still needs confirmation.
\<close>

definition postureStrikeThreshold :: nat where "postureStrikeThreshold = 2"

definition posture_phase :: "gotime \<Rightarrow> shard \<Rightarrow> Posture.Result option \<Rightarrow> nat \<Rightarrow> shard" where
  "posture_phase now shd result strikes =
     (case result of
        None \<Rightarrow> setPostureUnknownUnlessFalse now shd ''AwaitingPoolerRegistration'' ''Waiting for multipoolers to register in topology''
      | Some r \<Rightarrow>
          if \<not> (MultiplePrimaries r \<or> Mismatches r \<noteq> [] \<or> Incomplete r) \<or> postureStrikeThreshold \<le> strikes
          then Posture.Apply now shd result
          else
            let shd = shd\<lparr>s_pod_postures := Postures r\<rparr> in
            (case look (s_conditions shd) ConditionConsistent of
               None \<Rightarrow> shd
             | Some c \<Rightarrow>
                 if c_status c \<noteq> ConditionUnknown then shd
                 else shd\<lparr>s_conditions := SetCondition (s_conditions shd)
                   \<lparr>c_type = ConditionConsistent, c_status = ConditionUnknown, c_observed_generation = s_generation shd,
                    c_last_transition = now, c_reason = ''ObservationPending'', c_message = Message r\<rparr>\<rparr>))"

definition backup_phase ::
  "(health_message \<Rightarrow> string) \<Rightarrow> (backup_error \<Rightarrow> string) \<Rightarrow> pooler_query \<Rightarrow> (pooler \<Rightarrow> string + backup_metadata list option)
     \<Rightarrow> gotime \<Rightarrow> shard \<Rightarrow> shard" where
  "backup_phase render errText getPoolers getBackups now shd =
     (case Backup_Health.Evaluate getPoolers getBackups now shd of
        Inl err \<Rightarrow> setBackupUnknownUnlessFalse now shd (''Failed to check backup health: '' @ errText err)
      | Inr result \<Rightarrow> Backup_Health.Apply render now shd result)"

datatype data_plane_write =
    ClientUnavailable gotime string
  | PostureObserved gotime "Posture.Result option" nat
  | BackupsEvaluated pooler_query "pooler \<Rightarrow> string + backup_metadata list option" gotime

fun write_conditions ::
  "(health_message \<Rightarrow> string) \<Rightarrow> (backup_error \<Rightarrow> string) \<Rightarrow> shard \<Rightarrow> data_plane_write \<Rightarrow> shard" where
  "write_conditions render errText shd (ClientUnavailable now err) = client_unavailable now shd err"
| "write_conditions render errText shd (PostureObserved now result strikes) = posture_phase now shd result strikes"
| "write_conditions render errText shd (BackupsEvaluated getPoolers getBackups now) =
     backup_phase render errText getPoolers getBackups now shd"

abbreviation data_plane_writes ::
  "(health_message \<Rightarrow> string) \<Rightarrow> (backup_error \<Rightarrow> string) \<Rightarrow> shard \<Rightarrow> data_plane_write list \<Rightarrow> shard" where
  "data_plane_writes render errText \<equiv> foldl (write_conditions render errText)"

lemma write_conditions_pools: "s_pools (write_conditions render errText shd x) = s_pools shd"
  by (cases x) (auto simp: client_unavailable_def posture_phase_def setBackupUnknownUnlessFalse_def setPostureUnknownUnlessFalse_def Let_def
      backup_phase_def Backup_Health.Apply_def Posture.Apply_def split: sum.split option.split)

lemma writes_pools: "s_pools (data_plane_writes render errText shd ws) = s_pools shd"
  by (induction ws arbitrary: shd) (simp_all add: write_conditions_pools)

text \<open>A write that leaves the backups healthy found a fresh backup on the primary, or found the backups healthy and did not look.\<close>

definition fresh_backup :: "shard \<Rightarrow> data_plane_write \<Rightarrow> bool" where
  "fresh_backup shd x \<longleftrightarrow>
     (\<exists>getPoolers getBackups now primary backups. x = BackupsEvaluated getPoolers getBackups now
        \<and> FindPrimaryPooler getPoolers (CollectCells shd) = Inr (Some primary) \<and> getBackups primary = Inr (Some backups)
        \<and> (\<exists>b\<in>set backups. bm_status b = BACKUP_COMPLETE \<and> ParseTime (bm_id b) \<noteq> 0
              \<and> now - ParseTime (bm_id b) \<le> BackupStaleThreshold))"

definition no_news :: "shard \<Rightarrow> data_plane_write \<Rightarrow> bool" where
  "no_news shd x \<longleftrightarrow>
     (case x of
        ClientUnavailable now err \<Rightarrow> False
      | PostureObserved now result strikes \<Rightarrow> True
      | BackupsEvaluated getPoolers getBackups now \<Rightarrow> FindPrimaryPooler getPoolers (CollectCells shd) = Inr None)"

lemma backup_unknown: "\<not> IsConditionTrue (s_conditions (setBackupUnknownUnlessFalse now shd message)) ConditionHealthy"
  by (auto simp: setBackupUnknownUnlessFalse_def IsConditionTrue_look IsConditionFalse_look look_SetCondition carry_def
      split: option.splits)

lemma posture_phase_truth:
  "IsConditionTrue (s_conditions (posture_phase now shd result strikes)) ConditionHealthy = IsConditionTrue (s_conditions shd) ConditionHealthy"
  unfolding posture_phase_def setPostureUnknownUnlessFalse_def Let_def
  by (auto simp: posture_writer.truth_kept IsConditionTrue_look look_SetCondition Posture.Apply_def Let_def split: option.split)

lemma write_conditions_healthy:
  assumes "IsConditionTrue (s_conditions (write_conditions render errText shd x)) ConditionHealthy"
  shows "fresh_backup shd x \<or> no_news shd x \<and> IsConditionTrue (s_conditions shd) ConditionHealthy"
proof (cases x)
  case (BackupsEvaluated getPoolers getBackups now)
  have ev: "backup_phase render errText getPoolers getBackups now shd = write_conditions render errText shd x"
    using BackupsEvaluated by simp
  show ?thesis
  proof (cases "Backup_Health.Evaluate getPoolers getBackups now shd")
    case (Inl e)
    then have "\<not> IsConditionTrue (s_conditions (backup_phase render errText getPoolers getBackups now shd)) ConditionHealthy"
      by (simp add: backup_phase_def backup_unknown)
    with assms ev show ?thesis by simp
  next
    case (Inr r)
    with assms ev have ok: "IsConditionTrue (s_conditions (Backup_Health.Apply render now shd r)) ConditionHealthy"
      by (simp add: backup_phase_def)
    show ?thesis
    proof (cases r)
      case None
      with Inr ok BackupsEvaluated show ?thesis
        by (auto simp: no_news_def Backup_Health.Apply_def Backup_Health.Evaluate_def split: sum.splits option.splits)
    next
      case (Some res)
      with Inr obtain primary backups where "FindPrimaryPooler getPoolers (CollectCells shd) = Inr (Some primary)"
        "getBackups primary = Inr (Some backups)" "res = EvaluateBackups now backups"
        by (auto simp: Backup_Health.Evaluate_def split: sum.splits option.splits)
      with Some ok BackupsEvaluated EvaluateBackups_healthyD show ?thesis
        by (auto simp: fresh_backup_def Apply_healthy)
    qed
  qed
next
  case (ClientUnavailable now err)
  with assms backup_unknown show ?thesis by (simp add: client_unavailable_def Let_def)
next
  case (PostureObserved now result strikes)
  with assms show ?thesis by (simp add: no_news_def posture_phase_truth)
qed

lemma CollectCells_writes: "CollectCells (data_plane_writes render errText shd ws) = CollectCells shd"
  by (simp add: CollectCells_def writes_pools)

lemma writes_healthy:
  assumes "\<not> IsConditionTrue (s_conditions shd) ConditionHealthy"
    and "IsConditionTrue (s_conditions (data_plane_writes render errText shd ws)) ConditionHealthy"
  shows "\<exists>before x after. ws = before @ x # after \<and> fresh_backup shd x \<and> list_all (no_news shd) after"
  using assms(2)
proof (induction ws rule: rev_induct)
  case (snoc x ws)
  let ?shd = "data_plane_writes render errText shd ws"
  have same: "fresh_backup ?shd x = fresh_backup shd x" "no_news ?shd x = no_news shd x"
    by (simp_all add: fresh_backup_def no_news_def CollectCells_writes split: data_plane_write.split)
  from snoc.prems have "fresh_backup shd x \<or> no_news shd x \<and> IsConditionTrue (s_conditions ?shd) ConditionHealthy"
    using write_conditions_healthy [of render errText ?shd x] same by simp
  then show ?case
  proof
    assume "no_news shd x \<and> IsConditionTrue (s_conditions ?shd) ConditionHealthy"
    with snoc.IH obtain before y after where "ws = before @ y # after" "fresh_backup shd y" "list_all (no_news shd) (after @ [x])"
      by auto
    then show ?thesis by fastforce
  qed force
qed (use assms(1) in simp)

end
