(* ===== verification/Disruption_Check.thy ===== *)
theory Disruption_Check
  imports Posture
begin

text \<open>
  The preflight before a planned removal of a pod, \<^verbatim>\<open>src/pkg/data-handler/posture/disruption.go\<close>:
  \<^verbatim>\<open>ObserveDisruption\<close> asks every registered pooler for its status, and \<^verbatim>\<open>Check\<close> decides on that
  observation whether the removal is safe.

  The consensus package is third-party; the functions of it that the code calls are the record
  \<^verbatim>\<open>consensus_lib\<close>. The status RPCs run concurrently, but each fills its own slot and the slots are read
  in order afterwards, so the answers are a function from the pooler; a probe that misses the deadline
  is an error like any other. Where the code ranges over a map only to word a message, the messages
  are values of \<^verbatim>\<open>refusal\<close> that carry what they name.
\<close>

record consensus_lib =
  cl_id_string :: id_string
  cl_compare :: "rule_position option \<Rightarrow> rule_position option \<Rightarrow> int"
  cl_self_revoked :: "consensus_status option \<Rightarrow> bool"
  cl_new_policy :: "durability_policy option \<Rightarrow> string + durability_policy"
  cl_satisfied_by :: "durability_policy \<Rightarrow> pooler_id list \<Rightarrow> string option"
  cl_sufficient_recruitment :: "durability_policy \<Rightarrow> pooler_id list \<Rightarrow> pooler_id list \<Rightarrow> string option"

record DisruptionTarget =
  dt_name :: string
  Unscheduled :: bool
  MayBeUnregistered :: bool

record DisruptionObservation =
  ob_registered :: "(string \<times> pooler_id) list"
  ob_observed :: "(string \<times> status_response) list"
  ob_unobserved :: "(string \<times> string) list"
  ob_stale_primaries :: "string list"
  ob_leader :: "pooler_id option"
  ob_rule :: "shard_rule option"

datatype refusal =
    TopologyUnavailable string topo_error
  | NoMatchingIdentity string
  | DuplicateIdentity string
  | PrimaryObservationsDisagree
  | AwaitingCommittedPrimary "string list"
  | StalePrimary string
  | TargetBecamePrimary
  | TargetUnsettled
  | PrimaryIneligible
  | PrimaryNotServing
  | MemberNotRecovered string string
  | FollowerNotStandby string
  | InvalidPolicy string
  | CannotSatisfyDurability string
  | CannotRecruitLeader string
  | NotConnected string

text \<open>\<^verbatim>\<open>errors.Is\<close> against the two exported sentinel errors.\<close>

definition isInsufficientRemainder :: "refusal \<Rightarrow> bool" where
  "isInsufficientRemainder e =
     (case e of CannotSatisfyDurability _ \<Rightarrow> True | CannotRecruitLeader _ \<Rightarrow> True | _ \<Rightarrow> False)"

definition isTopologyUnavailable :: "refusal \<Rightarrow> bool" where
  "isTopologyUnavailable e = (case e of TopologyUnavailable _ _ \<Rightarrow> True | _ \<Rightarrow> False)"

subsection \<open>Observing\<close>

record probe =
  pb_name :: string
  pb_pooler :: pooler
  pb_id :: pooler_id

definition cell_probes :: "string list \<Rightarrow> pooler list \<Rightarrow> probe list" where
  "cell_probes podNames poolers =
     concat (map (\<lambda>p. let name = matchPoolerToPod p podNames
                      in case mp_id p of
                           None \<Rightarrow> []
                         | Some i \<Rightarrow> if name = [] then []
                                     else [\<lparr>pb_name = name, pb_pooler = p, pb_id = i\<rparr>]) poolers)"

fun collect_probes :: "pooler_query \<Rightarrow> string list \<Rightarrow> string list \<Rightarrow> refusal + probe list" where
  "collect_probes getPoolers podNames [] = Inr []"
| "collect_probes getPoolers podNames (cell # cells) =
     (case getPoolers cell of
        Inl err \<Rightarrow> Inl (TopologyUnavailable cell err)
      | Inr poolers \<Rightarrow>
          (case collect_probes getPoolers podNames cells of
             Inl e \<Rightarrow> Inl e
           | Inr rest \<Rightarrow> Inr (cell_probes podNames poolers @ rest)))"

text \<open>What the loop over the answered probes gathers.\<close>

record answers =
  an_observed :: "(string \<times> status_response) list"
  an_unobserved :: "(string \<times> string) list"
  an_topo_primary :: "(probe \<times> status_response) list"
  an_others :: "(probe \<times> status_response) list"

definition record_probe :: "consensus_lib \<Rightarrow> status_rpc \<Rightarrow> answers \<Rightarrow> probe \<Rightarrow> refusal + answers" where
  "record_probe lib rpc a p =
     (case rpc (pb_pooler p) of
        Inl err \<Rightarrow> Inr (a\<lparr>an_unobserved := upd (pb_name p) err (an_unobserved a)\<rparr>)
      | Inr resp \<Rightarrow>
          let i = Option.bind (sr_consensus resp) cs_id;
              key = cl_id_string lib (Some (pb_id p))
          in if i \<noteq> Some (pb_id p)
             then (if i = None
                   then Inr (a\<lparr>an_unobserved := upd (pb_name p) ''no consensus status'' (an_unobserved a)\<rparr>)
                   else Inl (NoMatchingIdentity (pb_name p)))
             else if map_of (an_observed a) key \<noteq> None then Inl (DuplicateIdentity key)
             else
               let a' = a\<lparr>an_observed := upd key resp (an_observed a)\<rparr>
               in if st_pg_status (get_status (Some resp)) \<noteq> POSTGRES_STATUS_PRIMARY then Inr a'
                  else if IsPrimaryPooler (pb_pooler p)
                  then Inr (a'\<lparr>an_topo_primary := an_topo_primary a @ [(p, resp)]\<rparr>)
                  else Inr (a'\<lparr>an_others := an_others a @ [(p, resp)]\<rparr>))"

fun record_probes :: "consensus_lib \<Rightarrow> status_rpc \<Rightarrow> answers \<Rightarrow> probe list \<Rightarrow> refusal + answers" where
  "record_probes lib rpc a [] = Inr a"
| "record_probes lib rpc a (p # ps) =
     (case record_probe lib rpc a p of
        Inl e \<Rightarrow> Inl e
      | Inr a' \<Rightarrow> record_probes lib rpc a' ps)"

text \<open>A pooler outside topology's choice that still runs as primary must be strictly behind.\<close>

definition behind :: "consensus_lib \<Rightarrow> shard_rule option \<Rightarrow> status_response \<Rightarrow> bool" where
  "behind lib rule resp \<longleftrightarrow>
     get_proposal (get_position (Some resp)) = None
     \<and> cl_compare lib (get_position (Some resp)) (Some \<lparr>rp_decision = rule, rp_proposal = None\<rparr>) < 0"

fun order_others ::
  "consensus_lib \<Rightarrow> shard_rule option \<Rightarrow> string list \<Rightarrow> (probe \<times> status_response) list
     \<Rightarrow> refusal + string list" where
  "order_others lib rule stale [] = Inr stale"
| "order_others lib rule stale ((p, resp) # others) =
     (if \<not> behind lib rule resp then Inl PrimaryObservationsDisagree
      else order_others lib rule (stale @ [pb_name p]) others)"

definition ObserveDisruption ::
  "consensus_lib \<Rightarrow> pooler_query \<Rightarrow> status_rpc \<Rightarrow> shard \<Rightarrow> string list
     \<Rightarrow> refusal + DisruptionObservation" where
  "ObserveDisruption lib getPoolers rpc shd podNames =
     (case collect_probes getPoolers podNames (CollectCells shd) of
        Inl e \<Rightarrow> Inl e
      | Inr probes \<Rightarrow>
          (case record_probes lib rpc
                  \<lparr>an_observed = [], an_unobserved = [], an_topo_primary = [], an_others = []\<rparr> probes of
             Inl e \<Rightarrow> Inl e
           | Inr a \<Rightarrow>
               let o1 = \<lparr>ob_registered = foldl (\<lambda>m p. upd (pb_name p) (pb_id p) m) [] probes,
                         ob_observed = an_observed a, ob_unobserved = an_unobserved a,
                         ob_stale_primaries = [], ob_leader = None, ob_rule = None\<rparr>
               in if an_topo_primary a = [] \<and> an_others a = [] then Inr o1
                  else (case an_topo_primary a of
                          [(leader, resp)] \<Rightarrow>
                            let rule = get_decision (get_position (Some resp))
                            in (case order_others lib rule [] (an_others a) of
                                  Inl e \<Rightarrow> Inl e
                                | Inr stale \<Rightarrow>
                                    Inr (o1\<lparr>ob_stale_primaries := stale,
                                            ob_leader := Some (pb_id leader), ob_rule := rule\<rparr>))
                        | _ \<Rightarrow> Inl PrimaryObservationsDisagree)))"

definition Serving :: "consensus_lib \<Rightarrow> DisruptionObservation \<Rightarrow> string \<Rightarrow> bool" where
  "Serving lib ob podName =
     (case map_of (ob_registered ob) podName of
        None \<Rightarrow> False
      | Some i \<Rightarrow>
          rd_ready (snd (poolerReadiness (cl_id_string lib)
            (map_of (ob_observed ob) (cl_id_string lib (Some i))) (Some i))))"

definition PostgresAction :: "consensus_lib \<Rightarrow> DisruptionObservation \<Rightarrow> string \<Rightarrow> string option" where
  "PostgresAction lib ob podName =
     (case map_of (ob_registered ob) podName of
        None \<Rightarrow> None
      | Some i \<Rightarrow>
          (case map_of (ob_observed ob) (cl_id_string lib (Some i)) of
             None \<Rightarrow> None
           | Some resp \<Rightarrow> Some (st_pg_action (get_status (Some resp)))))"

definition Unobserved :: "DisruptionObservation \<Rightarrow> (string \<times> string) list" where
  "Unobserved ob = ob_unobserved ob"

subsection \<open>Deciding\<close>

definition unobservedSummary :: "DisruptionObservation \<Rightarrow> string list" where
  "unobservedSummary ob = sort (map fst (ob_unobserved ob))"

definition unobservedMember :: "DisruptionObservation \<Rightarrow> pooler_id \<Rightarrow> string" where
  "unobservedMember ob member =
     (case find (\<lambda>(name, i). i = member) (ob_registered ob) of
        Some (name, i) \<Rightarrow>
          (if map_of (ob_unobserved ob) name \<noteq> None then '' (pod '' @ name @ '' did not answer)'' else [])
      | None \<Rightarrow> '' (not registered in topology)'')"

definition observed_at :: "consensus_lib \<Rightarrow> DisruptionObservation \<Rightarrow> pooler_id option \<Rightarrow> status_response option" where
  "observed_at lib ob i = map_of (ob_observed ob) (cl_id_string lib i)"

definition target_unsettled ::
  "consensus_lib \<Rightarrow> shard_rule option \<Rightarrow> status_response \<Rightarrow> bool" where
  "target_unsettled lib rule targetStatus =
     (let position = get_position (Some targetStatus);
          comparison = cl_compare lib position (Some \<lparr>rp_decision = rule, rp_proposal = None\<rparr>);
          conflicting = (comparison = 0 \<and> get_decision position \<noteq> rule)
      in get_proposal position \<noteq> None \<or> 0 < comparison \<or> conflicting)"

definition get_leadership :: "status_response option \<Rightarrow> leadership_status" where
  "get_leadership resp =
     (case Option.bind (Option.bind resp sr_availability) av_leadership of
        Some l \<Rightarrow> l
      | None \<Rightarrow> \<lparr>ls_signal = LEADERSHIP_UNSPECIFIED, ls_term = 0\<rparr>)"

definition get_primary_status :: "status_response option \<Rightarrow> primary_status" where
  "get_primary_status resp =
     (case st_primary (get_status resp) of
        Some s \<Rightarrow> s
      | None \<Rightarrow> \<lparr>pr_ready = False, pr_connected = []\<rparr>)"

definition resigning :: "shard_rule option \<Rightarrow> status_response option \<Rightarrow> bool" where
  "resigning rule primary =
     (let leadership = get_leadership primary;
          coordinatorTerm = (case Option.bind rule ru_number of Some t \<Rightarrow> t | None \<Rightarrow> 0)
      in ls_signal leadership = REQUESTING_DEMOTION \<and> ls_term leadership \<noteq> 0
         \<and> ls_term leadership = coordinatorTerm)"

definition recovered ::
  "consensus_lib \<Rightarrow> DisruptionObservation \<Rightarrow> shard_rule option \<Rightarrow> pooler_id \<Rightarrow> bool" where
  "recovered lib ob rule member =
     (let resp = observed_at lib ob (Some member);
          ready = snd (poolerReadiness (cl_id_string lib) resp (Some member));
          cs = Option.bind resp sr_consensus;
          position = get_position resp;
          settled = (get_decision position = rule \<and> get_proposal position = None);
          eligible = (\<not> cl_self_revoked lib cs \<and> Option.bind cs cs_recruit_blocked_until = None)
      in rd_ready ready \<and> settled \<and> eligible)"

fun check_members ::
  "consensus_lib \<Rightarrow> DisruptionObservation \<Rightarrow> shard_rule option \<Rightarrow> pooler_id option \<Rightarrow> pooler_id option
     \<Rightarrow> pooler_id list \<Rightarrow> pooler_id list \<Rightarrow> refusal + pooler_id list" where
  "check_members lib ob rule target leader remaining [] = Inr remaining"
| "check_members lib ob rule target leader remaining (member # members) =
     (if Some member = target \<and> Some member \<noteq> leader
      then check_members lib ob rule target leader remaining members
      else if \<not> recovered lib ob rule member
      then Inl (MemberNotRecovered (cl_id_string lib (Some member)) (unobservedMember ob member))
      else if Some member \<noteq> target
      then (if Some member \<noteq> leader
               \<and> st_pg_status (get_status (observed_at lib ob (Some member))) \<noteq> POSTGRES_STATUS_STANDBY
            then Inl (FollowerNotStandby (cl_id_string lib (Some member)))
            else check_members lib ob rule target leader (remaining @ [member]) members)
      else check_members lib ob rule target leader remaining members)"

definition check_connected ::
  "consensus_lib \<Rightarrow> pooler_id option \<Rightarrow> status_response option \<Rightarrow> pooler_id list \<Rightarrow> refusal option" where
  "check_connected lib leader primary remaining =
     (let connected = cl_id_string lib leader
            # map (\<lambda>f. cl_id_string lib (Some f)) (pr_connected (get_primary_status primary))
      in case find (\<lambda>m. cl_id_string lib (Some m) \<notin> set connected) remaining of
           Some m \<Rightarrow> Some (NotConnected (cl_id_string lib (Some m)))
         | None \<Rightarrow> None)"

text \<open>The second half of \<^verbatim>\<open>Check\<close>: the committed cohort without the target.\<close>

definition check_policy ::
  "consensus_lib \<Rightarrow> shard_rule option \<Rightarrow> pooler_id option \<Rightarrow> status_response option \<Rightarrow> pooler_id list
     \<Rightarrow> refusal option" where
  "check_policy lib rule leader primary remaining =
     (case cl_new_policy lib (Option.bind rule ru_policy) of
        Inl err \<Rightarrow> Some (InvalidPolicy err)
      | Inr policy \<Rightarrow>
          (case cl_satisfied_by lib policy remaining of
             Some err \<Rightarrow> Some (CannotSatisfyDurability err)
           | None \<Rightarrow>
               (case cl_sufficient_recruitment lib policy (get_cohort rule) remaining of
                  Some err \<Rightarrow> Some (CannotRecruitLeader err)
                | None \<Rightarrow> check_connected lib leader primary remaining)))"

definition check_remainder ::
  "consensus_lib \<Rightarrow> DisruptionObservation \<Rightarrow> shard_rule option \<Rightarrow> pooler_id option \<Rightarrow> pooler_id option
     \<Rightarrow> status_response option \<Rightarrow> refusal option" where
  "check_remainder lib ob rule target leader primary =
     (case check_members lib ob rule target leader [] (get_cohort rule) of
        Inl e \<Rightarrow> Some e
      | Inr remaining \<Rightarrow> check_policy lib rule leader primary remaining)"

text \<open>\<^const>\<open>None\<close> is the nil error: the removal may go ahead.\<close>

definition Check ::
  "consensus_lib \<Rightarrow> DisruptionObservation \<Rightarrow> shard \<Rightarrow> DisruptionTarget \<Rightarrow> refusal option" where
  "Check lib ob shd targetPod =
     (let targetName = dt_name targetPod;
          target = map_of (ob_registered ob) targetName;
          leader = ob_leader ob;
          rule = ob_rule ob
      in if (target = None \<and> \<not> Unscheduled targetPod \<and> \<not> MayBeUnregistered targetPod)
            \<or> leader = None \<or> Option.bind rule ru_number = None
            \<or> Option.bind rule ru_leader \<noteq> leader
         then Some (AwaitingCommittedPrimary (unobservedSummary ob))
         else (case find (\<lambda>n. n \<noteq> targetName) (sort (ob_stale_primaries ob)) of
           Some n \<Rightarrow> Some (StalePrimary n)
         | None \<Rightarrow>
         if target = leader \<and> map_of (s_pod_roles shd) targetName \<noteq> Some ''PRIMARY''
         then Some TargetBecamePrimary
         else if (case observed_at lib ob target of
                    Some targetStatus \<Rightarrow> target_unsettled lib rule targetStatus
                  | None \<Rightarrow> False)
         then Some TargetUnsettled
         else
         let primary = observed_at lib ob leader in
         if \<not> rd_ready (snd (poolerReadiness (cl_id_string lib) primary leader))
         then Some PrimaryIneligible
         else if resigning rule primary \<or> \<not> pr_ready (get_primary_status primary)
         then Some PrimaryNotServing
         else check_remainder lib ob rule target leader primary))"

definition CheckDisruption ::
  "consensus_lib \<Rightarrow> pooler_query \<Rightarrow> status_rpc \<Rightarrow> shard \<Rightarrow> string list \<Rightarrow> DisruptionTarget
     \<Rightarrow> refusal option" where
  "CheckDisruption lib getPoolers rpc shd podNames targetPod =
     (case ObserveDisruption lib getPoolers rpc shd (podNames @ [dt_name targetPod]) of
        Inl err \<Rightarrow> Some err
      | Inr observation \<Rightarrow> Check lib observation shd targetPod)"

subsection \<open>Lemmas on the decision\<close>

lemma check_members_Inr:
  "check_members lib ob rule target leader acc ms = Inr rem \<longleftrightarrow>
     (\<forall>m\<in>set ms. Some m \<noteq> target \<or> Some m = leader \<longrightarrow> recovered lib ob rule m)
     \<and> (\<forall>m\<in>set ms. Some m \<noteq> target \<and> Some m \<noteq> leader \<longrightarrow>
          st_pg_status (get_status (observed_at lib ob (Some m))) = POSTGRES_STATUS_STANDBY)
     \<and> rem = acc @ filter (\<lambda>m. Some m \<noteq> target) ms"
  by (induction ms arbitrary: acc) auto

lemma check_connected_None:
  "check_connected lib leader primary remaining = None \<longleftrightarrow>
     (\<forall>m\<in>set remaining. cl_id_string lib (Some m) = cl_id_string lib leader
        \<or> (\<exists>f\<in>set (pr_connected (get_primary_status primary)).
              cl_id_string lib (Some m) = cl_id_string lib (Some f)))"
  by (auto simp: check_connected_def Let_def find_None_iff split: option.splits dest!: find_SomeD)

lemma check_members_refusal:
  "check_members lib ob rule target leader acc ms = Inl e \<Longrightarrow> \<not> isInsufficientRemainder e"
  by (induction ms arbitrary: acc) (auto simp: isInsufficientRemainder_def split: if_splits)

lemma check_connected_refusal:
  "check_connected lib leader primary remaining = Some e \<Longrightarrow> \<not> isInsufficientRemainder e"
  by (auto simp: check_connected_def isInsufficientRemainder_def Let_def split: option.splits)

text \<open>
  The evidence \<^const>\<open>Check\<close> asks for before it looks at the durability policy: a committed, serving,
  ready leader, no other primary, and every other member of the committed cohort recovered.
\<close>

definition settled_cohort ::
  "consensus_lib \<Rightarrow> DisruptionObservation \<Rightarrow> shard \<Rightarrow> DisruptionTarget \<Rightarrow> pooler_id \<Rightarrow> shard_rule
     \<Rightarrow> bool" where
  "settled_cohort lib ob shd t leader rule \<longleftrightarrow>
     (let target = map_of (ob_registered ob) (dt_name t);
          primary = observed_at lib ob (Some leader)
      in ob_leader ob = Some leader \<and> ob_rule ob = Some rule
         \<and> ru_number rule \<noteq> None \<and> ru_leader rule = Some leader
         \<and> (target \<noteq> None \<or> Unscheduled t \<or> MayBeUnregistered t)
         \<and> set (ob_stale_primaries ob) \<subseteq> {dt_name t}
         \<and> (target = Some leader \<longrightarrow> map_of (s_pod_roles shd) (dt_name t) = Some ''PRIMARY'')
         \<and> (\<forall>st. observed_at lib ob target = Some st \<longrightarrow> \<not> target_unsettled lib (Some rule) st)
         \<and> rd_ready (snd (poolerReadiness (cl_id_string lib) primary (Some leader)))
         \<and> \<not> resigning (Some rule) primary \<and> pr_ready (get_primary_status primary)
         \<and> (\<forall>m\<in>set (ru_cohort rule). Some m \<noteq> target \<or> m = leader \<longrightarrow> recovered lib ob (Some rule) m)
         \<and> (\<forall>m\<in>set (ru_cohort rule). Some m \<noteq> target \<and> m \<noteq> leader \<longrightarrow>
              st_pg_status (get_status (observed_at lib ob (Some m))) = POSTGRES_STATUS_STANDBY))"

definition survivors :: "DisruptionObservation \<Rightarrow> DisruptionTarget \<Rightarrow> shard_rule \<Rightarrow> pooler_id list" where
  "survivors ob t rule =
     filter (\<lambda>m. Some m \<noteq> map_of (ob_registered ob) (dt_name t)) (ru_cohort rule)"

lemma find_other_None: "find (\<lambda>n. n \<noteq> a) (sort xs) = None \<longleftrightarrow> set xs \<subseteq> {a}"
  by (auto simp: find_None_iff)

lemma Check_eq:
  assumes "ob_leader ob = Some leader" "ob_rule ob = Some rule" "ru_number rule \<noteq> None"
    "ru_leader rule = Some leader"
    "map_of (ob_registered ob) (dt_name t) \<noteq> None \<or> Unscheduled t \<or> MayBeUnregistered t"
    "set (ob_stale_primaries ob) \<subseteq> {dt_name t}"
  shows "Check lib ob shd t =
    (let target = map_of (ob_registered ob) (dt_name t);
         primary = observed_at lib ob (Some leader)
     in if target = Some leader \<and> map_of (s_pod_roles shd) (dt_name t) \<noteq> Some ''PRIMARY''
        then Some TargetBecamePrimary
        else if \<exists>st. observed_at lib ob target = Some st \<and> target_unsettled lib (Some rule) st
        then Some TargetUnsettled
        else if \<not> rd_ready (snd (poolerReadiness (cl_id_string lib) primary (Some leader)))
        then Some PrimaryIneligible
        else if resigning (Some rule) primary \<or> \<not> pr_ready (get_primary_status primary)
        then Some PrimaryNotServing
        else check_remainder lib ob (Some rule) target (Some leader) primary)"
proof -
  have f: "find (\<lambda>n. n \<noteq> dt_name t) (sort (ob_stale_primaries ob)) = None"
    using assms(6) by (simp only: find_other_None)
  have b: "\<not> ((map_of (ob_registered ob) (dt_name t) = None \<and> \<not> Unscheduled t \<and> \<not> MayBeUnregistered t)
      \<or> Some leader = None \<or> Option.bind (Some rule) ru_number = None
      \<or> Option.bind (Some rule) ru_leader \<noteq> Some leader)"
    using assms(3-5) by auto
  have o: "(case v of Some st \<Rightarrow> P st | None \<Rightarrow> False) \<longleftrightarrow> (\<exists>st. v = Some st \<and> P st)"
    for v :: "status_response option" and P
    by (cases v) auto
  show ?thesis
    unfolding Check_def Let_def f assms(1,2) option.case if_not_P [OF b] o ..
qed

lemma Check_settled:
  assumes "settled_cohort lib ob shd t leader rule"
  shows "Check lib ob shd t =
    check_policy lib (Some rule) (Some leader) (observed_at lib ob (Some leader)) (survivors ob t rule)"
proof -
  have m: "check_members lib ob (Some rule) (map_of (ob_registered ob) (dt_name t)) (Some leader) []
      (ru_cohort rule) = Inr (survivors ob t rule)"
    using assms by (auto simp: check_members_Inr settled_cohort_def Let_def survivors_def)
  have "Check lib ob shd t = check_remainder lib ob (Some rule)
      (map_of (ob_registered ob) (dt_name t)) (Some leader) (observed_at lib ob (Some leader))"
    using assms by (subst Check_eq [of _ leader rule]) (auto simp: settled_cohort_def Let_def)
  then show ?thesis by (simp add: check_remainder_def get_cohort_def m)
qed

lemma early_refusals:
  "\<not> isInsufficientRemainder TargetBecamePrimary" "\<not> isInsufficientRemainder TargetUnsettled"
  "\<not> isInsufficientRemainder PrimaryIneligible" "\<not> isInsufficientRemainder PrimaryNotServing"
  "\<not> isInsufficientRemainder (AwaitingCommittedPrimary ns)" "\<not> isInsufficientRemainder (StalePrimary n)"
  by (simp_all add: isInsufficientRemainder_def)

lemma Check_unsettled:
  assumes "\<And>leader rule. \<not> settled_cohort lib ob shd t leader rule"
  shows "\<exists>e. Check lib ob shd t = Some e \<and> \<not> isInsufficientRemainder e"
proof (cases "\<exists>leader rule. ob_leader ob = Some leader \<and> ob_rule ob = Some rule
    \<and> ru_number rule \<noteq> None \<and> ru_leader rule = Some leader
    \<and> (map_of (ob_registered ob) (dt_name t) \<noteq> None \<or> Unscheduled t \<or> MayBeUnregistered t)")
  case False
  then have "Check lib ob shd t = Some (AwaitingCommittedPrimary (unobservedSummary ob))"
    unfolding Check_def Let_def by (cases "ob_leader ob"; cases "ob_rule ob") auto
  then show ?thesis by (simp add: early_refusals)
next
  case True
  then obtain leader rule where lr: "ob_leader ob = Some leader" "ob_rule ob = Some rule"
      "ru_number rule \<noteq> None" "ru_leader rule = Some leader"
      "map_of (ob_registered ob) (dt_name t) \<noteq> None \<or> Unscheduled t \<or> MayBeUnregistered t"
    by blast
  show ?thesis
  proof (cases "set (ob_stale_primaries ob) \<subseteq> {dt_name t}")
    case False
    then obtain n where "find (\<lambda>n. n \<noteq> dt_name t) (sort (ob_stale_primaries ob)) = Some n"
      unfolding find_other_None [symmetric] by auto
    with lr have "Check lib ob shd t = Some (StalePrimary n)"
      by (auto simp: Check_def Let_def)
    then show ?thesis by (simp add: early_refusals)
  next
    case stale: True
    show ?thesis
    proof (cases "check_members lib ob (Some rule) (map_of (ob_registered ob) (dt_name t))
        (Some leader) [] (ru_cohort rule)")
      case (Inl e)
      with check_members_refusal [OF Inl] show ?thesis
        unfolding Check_eq [OF lr stale] Let_def
        by (simp add: check_remainder_def get_cohort_def early_refusals)
    next
      case (Inr rem)
      with assms [of leader rule] lr stale show ?thesis
        unfolding Check_eq [OF lr stale]
        by (auto simp: check_members_Inr settled_cohort_def Let_def early_refusals)
    qed
  qed
qed

subsection \<open>Lemmas on the observation\<close>

lemma collect_probes_Inr:
  "collect_probes getPoolers podNames cells = Inr probes \<Longrightarrow>
   (\<forall>cell\<in>set cells. \<exists>ps. getPoolers cell = Inr ps)
   \<and> set probes = (\<Union>cell\<in>set cells. \<Union>ps\<in>{ps. getPoolers cell = Inr ps}. set (cell_probes podNames ps))"
proof (induction cells arbitrary: probes)
  case (Cons cell cells)
  then obtain ps rest where ps: "getPoolers cell = Inr ps"
      and rest: "collect_probes getPoolers podNames cells = Inr rest"
      and probes: "probes = cell_probes podNames ps @ rest"
    by (auto split: sum.splits)
  from Cons.IH [OF rest] ps probes show ?case by auto
qed simp

lemma in_cell_probes:
  "p \<in> set ps \<Longrightarrow> mp_id p = Some i \<Longrightarrow> matchPoolerToPod p podNames \<noteq> [] \<Longrightarrow>
   \<lparr>pb_name = matchPoolerToPod p podNames, pb_pooler = p, pb_id = i\<rparr> \<in> set (cell_probes podNames ps)"
  by (force simp: cell_probes_def Let_def)

definition reports_primary :: "status_rpc \<Rightarrow> probe \<Rightarrow> status_response \<Rightarrow> bool" where
  "reports_primary rpc p resp \<longleftrightarrow>
     rpc (pb_pooler p) = Inr resp \<and> Option.bind (sr_consensus resp) cs_id = Some (pb_id p)
     \<and> st_pg_status (get_status (Some resp)) = POSTGRES_STATUS_PRIMARY"

lemma record_probe_keeps:
  assumes "record_probe lib rpc a p = Inr b"
  shows "set (an_topo_primary a) \<subseteq> set (an_topo_primary b) \<and> set (an_others a) \<subseteq> set (an_others b)"
  using assms by (auto simp: record_probe_def Let_def split: sum.splits if_splits)

lemma record_probe_primary:
  assumes "record_probe lib rpc a p = Inr b" and "reports_primary rpc p resp"
  shows "if IsPrimaryPooler (pb_pooler p) then (p, resp) \<in> set (an_topo_primary b)
         else (p, resp) \<in> set (an_others b)"
  using assms by (auto simp: record_probe_def reports_primary_def Let_def split: sum.splits if_splits)

lemma record_probes_keeps:
  "record_probes lib rpc a ps = Inr b \<Longrightarrow>
   set (an_topo_primary a) \<subseteq> set (an_topo_primary b) \<and> set (an_others a) \<subseteq> set (an_others b)"
proof (induction ps arbitrary: a)
  case (Cons p ps)
  then obtain c where c: "record_probe lib rpc a p = Inr c" "record_probes lib rpc c ps = Inr b"
    by (auto split: sum.splits)
  from record_probe_keeps [OF c(1)] Cons.IH [OF c(2)] show ?case by blast
qed simp

lemma record_probes_primary:
  "record_probes lib rpc a ps = Inr b \<Longrightarrow> p \<in> set ps \<Longrightarrow> reports_primary rpc p resp \<Longrightarrow>
   if IsPrimaryPooler (pb_pooler p) then (p, resp) \<in> set (an_topo_primary b)
   else (p, resp) \<in> set (an_others b)"
proof (induction ps arbitrary: a)
  case (Cons q ps)
  then obtain c where c: "record_probe lib rpc a q = Inr c" "record_probes lib rpc c ps = Inr b"
    by (auto split: sum.splits)
  show ?case
  proof (cases "p = q")
    case True
    with record_probe_primary [OF c(1), of resp] record_probes_keeps [OF c(2)] Cons.prems(3)
    show ?thesis by (auto split: if_splits)
  next
    case False
    with Cons.prems Cons.IH [OF c(2)] show ?thesis by simp
  qed
qed simp

lemma record_probe_sound:
  assumes "record_probe lib rpc a p = Inr b" and "x \<in> set (an_topo_primary b)" and "x \<notin> set (an_topo_primary a)"
  shows "fst x = p \<and> IsPrimaryPooler (pb_pooler p) \<and> reports_primary rpc p (snd x)"
  using assms by (auto simp: record_probe_def reports_primary_def Let_def split: sum.splits if_splits)

lemma record_probes_sound:
  "record_probes lib rpc a ps = Inr b \<Longrightarrow> x \<in> set (an_topo_primary b) \<Longrightarrow> x \<notin> set (an_topo_primary a) \<Longrightarrow>
   fst x \<in> set ps \<and> IsPrimaryPooler (pb_pooler (fst x)) \<and> reports_primary rpc (fst x) (snd x)"
proof (induction ps arbitrary: a)
  case (Cons q ps)
  then obtain c where c: "record_probe lib rpc a q = Inr c" "record_probes lib rpc c ps = Inr b"
    by (auto split: sum.splits)
  show ?case
    using record_probe_sound [OF c(1), of x] Cons.IH [OF c(2)] Cons.prems(2,3)
    by (cases "x \<in> set (an_topo_primary c)") auto
qed simp

lemma cell_probes_member:
  "pb \<in> set (cell_probes podNames ps) \<Longrightarrow>
   pb_pooler pb \<in> set ps \<and> mp_id (pb_pooler pb) = Some (pb_id pb) \<and> pb_name pb = matchPoolerToPod (pb_pooler pb) podNames
   \<and> pb_name pb \<noteq> []"
  by (auto simp: cell_probes_def Let_def split: option.splits if_splits)

lemma order_others_Inr:
  "order_others lib rule stale others = Inr res \<Longrightarrow>
   (\<forall>(p, resp)\<in>set others. behind lib rule resp) \<and> res = stale @ map (pb_name \<circ> fst) others"
  by (induction lib rule stale others rule: order_others.induct) (auto split: if_splits)

lemma ObserveDisruption_leader:
  assumes "ObserveDisruption lib getPoolers rpc shd names = Inr ob" and "ob_leader ob = Some l"
  obtains probes a p resp where
    "collect_probes getPoolers names (CollectCells shd) = Inr probes"
    "record_probes lib rpc
       \<lparr>an_observed = [], an_unobserved = [], an_topo_primary = [], an_others = []\<rparr> probes = Inr a"
    "an_topo_primary a = [(p, resp)]" "pb_id p = l"
    "ob_stale_primaries ob = map (pb_name \<circ> fst) (an_others a)"
    "\<forall>(q, r)\<in>set (an_others a). behind lib (ob_rule ob) r"
    "ob_rule ob = get_decision (get_position (Some resp))"
  using assms
  by (auto simp: ObserveDisruption_def Let_def split: sum.splits if_splits list.splits
      dest!: order_others_Inr)

lemma Check_None_settled:
  assumes "Check lib ob shd t = None"
  shows "\<exists>leader rule policy. settled_cohort lib ob shd t leader rule
    \<and> cl_new_policy lib (ru_policy rule) = Inr policy
    \<and> cl_satisfied_by lib policy (survivors ob t rule) = None
    \<and> cl_sufficient_recruitment lib policy (ru_cohort rule) (survivors ob t rule) = None"
proof -
  from assms Check_unsettled [of lib ob shd t] obtain leader rule
    where s: "settled_cohort lib ob shd t leader rule" by force
  from assms [unfolded Check_settled [OF s]] have "\<exists>policy. cl_new_policy lib (ru_policy rule) = Inr policy
    \<and> cl_satisfied_by lib policy (survivors ob t rule) = None
    \<and> cl_sufficient_recruitment lib policy (ru_cohort rule) (survivors ob t rule) = None"
    by (auto simp: check_policy_def get_cohort_def split: sum.splits option.splits)
  with s show ?thesis by blast
qed

subsection \<open>A sample shard\<close>

text \<open>Three poolers in one cell, the first of them the leader, and a library that asks for \<^verbatim>\<open>n\<close> survivors.\<close>

definition sample_id :: "string \<Rightarrow> pooler_id" where
  "sample_id n = PoolerId ''pooler'' ''z1'' n"

definition sample_rule :: shard_rule where
  "sample_rule =
     \<lparr>ru_number = Some 1, ru_leader = Some (sample_id ''a''),
      ru_cohort = [sample_id ''a'', sample_id ''b'', sample_id ''c''],
      ru_policy = Some \<lparr>dp_name = ''AT_LEAST_2'', dp_quorum = ''AT_LEAST_N'', dp_required = 2\<rparr>\<rparr>"

definition sample_pooler :: "string \<Rightarrow> pooler" where
  "sample_pooler n =
     \<lparr>mp_id = Some (sample_id n), mp_hostname = n, mp_lifecycle = None,
      mp_routing = Some (if n = ''a'' then ROUTING_ROLE_PRIMARY else ROUTING_ROLE_REPLICA)\<rparr>"

definition sample_response :: "string \<Rightarrow> status_response" where
  "sample_response n =
     \<lparr>sr_status = Some \<lparr>st_initialized = True, st_pg_ready = True,
         st_pg_status = (if n = ''a'' then POSTGRES_STATUS_PRIMARY else POSTGRES_STATUS_STANDBY),
         st_pg_action = [],
         st_primary = (if n = ''a'' then Some \<lparr>pr_ready = True,
           pr_connected = [sample_id ''b'', sample_id ''c'']\<rparr> else None)\<rparr>,
      sr_availability = Some \<lparr>av_eligibility = Some ELIGIBLE, av_leadership = None\<rparr>,
      sr_consensus = Some \<lparr>cs_id = Some (sample_id n),
         cs_position = Some \<lparr>rp_decision = Some sample_rule, rp_proposal = None\<rparr>,
         cs_recruit_blocked_until = None, cs_revocation = None\<rparr>\<rparr>"

definition sample_lib :: "nat \<Rightarrow> consensus_lib" where
  "sample_lib n =
     \<lparr>cl_id_string = (\<lambda>i. case i of Some j \<Rightarrow> pid_name j | None \<Rightarrow> []), cl_compare = (\<lambda>a b. 0),
      cl_self_revoked = (\<lambda>c. False),
      cl_new_policy = (\<lambda>p. case p of Some q \<Rightarrow> Inr q | None \<Rightarrow> Inl ''missing''),
      cl_satisfied_by = (\<lambda>p ms. if length ms < n then Some ''too few'' else None),
      cl_sufficient_recruitment = (\<lambda>p c ms. None)\<rparr>"

definition sample_observation :: DisruptionObservation where
  "sample_observation =
     \<lparr>ob_registered = map (\<lambda>n. (n, sample_id n)) [''a'', ''b'', ''c''],
      ob_observed = map (\<lambda>n. (n, sample_response n)) [''a'', ''b'', ''c''],
      ob_unobserved = [], ob_stale_primaries = [], ob_leader = Some (sample_id ''a''),
      ob_rule = Some sample_rule\<rparr>"

definition sample_target :: DisruptionTarget where
  "sample_target = \<lparr>dt_name = ''c'', Unscheduled = False, MayBeUnregistered = False\<rparr>"

subsection \<open>Properties\<close>

text \<open>
  C3: the exact conditions under which \<^const>\<open>Check\<close> lets a pod be removed. There are a committed
  leader and rule for which the evidence \<^const>\<open>settled_cohort\<close> holds: the leader is ready, serving and not
  resigning, no other pod runs as primary, the target has no unsettled rule, every cohort member other
  than the target has recovered on the committed rule, and the followers among them are standbys. The
  members without the target satisfy the committed durability policy and can recruit a leader, and
  each of them is connected to the primary.
\<close>

theorem Check_permits_iff:
  "Check lib ob shd t = None \<longleftrightarrow>
     (\<exists>leader rule policy. settled_cohort lib ob shd t leader rule
        \<and> cl_new_policy lib (ru_policy rule) = Inr policy
        \<and> cl_satisfied_by lib policy (survivors ob t rule) = None
        \<and> cl_sufficient_recruitment lib policy (ru_cohort rule) (survivors ob t rule) = None
        \<and> (\<forall>m\<in>set (survivors ob t rule).
              cl_id_string lib (Some m) = cl_id_string lib (Some leader)
              \<or> (\<exists>f\<in>set (pr_connected (get_primary_status (observed_at lib ob (Some leader)))).
                    cl_id_string lib (Some m) = cl_id_string lib (Some f))))"
proof (cases "\<exists>leader rule. settled_cohort lib ob shd t leader rule")
  case True
  then obtain leader rule where s: "settled_cohort lib ob shd t leader rule" by blast
  have unique: "l = leader \<and> r = rule" if "settled_cohort lib ob shd t l r" for l r
    using that s by (simp add: settled_cohort_def Let_def)
  have "Check lib ob shd t = None \<longleftrightarrow> (\<exists>policy. cl_new_policy lib (ru_policy rule) = Inr policy
      \<and> cl_satisfied_by lib policy (survivors ob t rule) = None
      \<and> cl_sufficient_recruitment lib policy (ru_cohort rule) (survivors ob t rule) = None
      \<and> check_connected lib (Some leader) (observed_at lib ob (Some leader)) (survivors ob t rule) = None)"
    unfolding Check_settled [OF s] check_policy_def get_cohort_def
    by (auto split: sum.splits option.splits)
  then show ?thesis
    unfolding check_connected_None using s unique by blast
next
  case False
  with Check_unsettled [of lib ob shd t] show ?thesis by auto
qed

theorem Check_permits_iff_witness:
  "\<exists>leader rule. settled_cohort (sample_lib 2) sample_observation sample_shard sample_target leader rule"
proof -
  have "Check (sample_lib 2) sample_observation sample_shard sample_target = None" by code_simp
  then show ?thesis unfolding Check_permits_iff by blast
qed

text \<open>
  the refusal that more poolers can resolve is given exactly when everything else is in order: the
  evidence \<^const>\<open>settled_cohort\<close> holds, the committed policy is valid, and only the members left without the
  target fail it, for durability or for recruiting a leader.
\<close>

theorem Check_insufficient_iff:
  "(\<exists>e. Check lib ob shd t = Some e \<and> isInsufficientRemainder e) \<longleftrightarrow>
     (\<exists>leader rule policy. settled_cohort lib ob shd t leader rule
        \<and> cl_new_policy lib (ru_policy rule) = Inr policy
        \<and> (cl_satisfied_by lib policy (survivors ob t rule) \<noteq> None
           \<or> cl_sufficient_recruitment lib policy (ru_cohort rule) (survivors ob t rule) \<noteq> None))"
proof (cases "\<exists>leader rule. settled_cohort lib ob shd t leader rule")
  case True
  then obtain leader rule where s: "settled_cohort lib ob shd t leader rule" by blast
  have unique: "l = leader \<and> r = rule" if "settled_cohort lib ob shd t l r" for l r
    using that s by (simp add: settled_cohort_def Let_def)
  have "(\<exists>e. Check lib ob shd t = Some e \<and> isInsufficientRemainder e) \<longleftrightarrow>
      (\<exists>policy. cl_new_policy lib (ru_policy rule) = Inr policy
        \<and> (cl_satisfied_by lib policy (survivors ob t rule) \<noteq> None
           \<or> cl_sufficient_recruitment lib policy (ru_cohort rule) (survivors ob t rule) \<noteq> None))"
    unfolding Check_settled [OF s] check_policy_def get_cohort_def
    by (auto split: sum.splits option.splits dest: check_connected_refusal
        simp: isInsufficientRemainder_def)
  then show ?thesis using s unique by blast
next
  case False
  with Check_unsettled [of lib ob shd t] show ?thesis by auto
qed

theorem Check_insufficient_iff_witness:
  "\<exists>leader rule. settled_cohort (sample_lib 3) sample_observation sample_shard sample_target leader rule"
proof -
  have "Check (sample_lib 3) sample_observation sample_shard sample_target
      = Some (CannotSatisfyDurability ''too few'')" by code_simp
  then have "\<exists>e. Check (sample_lib 3) sample_observation sample_shard sample_target = Some e
      \<and> isInsufficientRemainder e" by (simp add: isInsufficientRemainder_def)
  then show ?thesis unfolding Check_insufficient_iff by blast
qed

text \<open>
  C4: no removal in a split brain. If \<^const>\<open>CheckDisruption\<close> permits the removal, then every cell of the
  shard was read, and there is a committed leader: a pooler registered for one of the pods as the routing
  primary, which answered under its own identity, reports a PostgreSQL primary, and whose own committed
  decision is a numbered rule that names it as leader. Every other registered pooler of the pods that
  answered under its own identity and reports a PostgreSQL primary is the target itself, is not registered as
  primary, has nothing proposed, and the library orders its position strictly before that decision.
\<close>

theorem CheckDisruption_no_split_brain:
  fixes podNames t defines "names \<equiv> podNames @ [dt_name t]"
  assumes "CheckDisruption lib getPoolers rpc shd podNames t = None"
  shows "\<exists>c0 ps0 l leader answer rule. c0 \<in> set (CollectCells shd) \<and> getPoolers c0 = Inr ps0 \<and> l \<in> set ps0
      \<and> IsPrimaryPooler l \<and> mp_id l = Some leader \<and> matchPoolerToPod l names \<noteq> [] \<and> rpc l = Inr answer
      \<and> Option.bind (sr_consensus answer) cs_id = Some leader
      \<and> st_pg_status (get_status (Some answer)) = POSTGRES_STATUS_PRIMARY
      \<and> get_decision (get_position (Some answer)) = Some rule \<and> ru_leader rule = Some leader \<and> ru_number rule \<noteq> None
      \<and> (\<forall>cell\<in>set (CollectCells shd). \<exists>ps. getPoolers cell = Inr ps
          \<and> (\<forall>p\<in>set ps. \<forall>i resp.
               mp_id p = Some i \<and> matchPoolerToPod p names \<noteq> []
               \<and> rpc p = Inr resp \<and> Option.bind (sr_consensus resp) cs_id = Some i
               \<and> st_pg_status (get_status (Some resp)) = POSTGRES_STATUS_PRIMARY \<longrightarrow>
               i = leader
               \<or> \<not> IsPrimaryPooler p \<and> matchPoolerToPod p names = dt_name t
                  \<and> get_proposal (get_position (Some resp)) = None
                  \<and> cl_compare lib (get_position (Some resp)) (Some \<lparr>rp_decision = Some rule, rp_proposal = None\<rparr>) < 0))"
proof -
  obtain ob where ob: "ObserveDisruption lib getPoolers rpc shd names = Inr ob"
      and ok: "Check lib ob shd t = None"
    using assms(2) unfolding names_def by (auto simp: CheckDisruption_def split: sum.splits)
  obtain l rule where l: "ob_leader ob = Some l" and rule: "ob_rule ob = Some rule"
      and committed: "ru_leader rule = Some l" "ru_number rule \<noteq> None"
      and stale: "set (ob_stale_primaries ob) \<subseteq> {dt_name t}"
    using ok Check_unsettled [of lib ob shd t] by (force simp: settled_cohort_def Let_def)
  obtain probes a q r where probes: "collect_probes getPoolers names (CollectCells shd) = Inr probes"
      and rec: "record_probes lib rpc
        \<lparr>an_observed = [], an_unobserved = [], an_topo_primary = [], an_others = []\<rparr> probes = Inr a"
      and top: "an_topo_primary a = [(q, r)]" and q: "pb_id q = l"
      and st: "ob_stale_primaries ob = map (pb_name \<circ> fst) (an_others a)"
      and beh: "\<forall>(p, r)\<in>set (an_others a). behind lib (ob_rule ob) r"
      and dec: "ob_rule ob = get_decision (get_position (Some r))"
    using ObserveDisruption_leader [OF ob l] by metis
  have sound: "q \<in> set probes" "IsPrimaryPooler (pb_pooler q)" "reports_primary rpc q r"
    using record_probes_sound [OF rec, of "(q, r)"] top by auto
  then obtain c0 ps0 where c0: "c0 \<in> set (CollectCells shd)" "getPoolers c0 = Inr ps0" "q \<in> set (cell_probes names ps0)"
    using collect_probes_Inr [OF probes] by (auto simp del: set_CollectCells)
  have one: "i = l \<or> \<not> IsPrimaryPooler p \<and> matchPoolerToPod p names = dt_name t \<and> behind lib (Some rule) resp"
    if cell: "cell \<in> set (CollectCells shd)" "getPoolers cell = Inr ps" "p \<in> set ps"
      and p: "mp_id p = Some i" "matchPoolerToPod p names \<noteq> []" "rpc p = Inr resp"
        "Option.bind (sr_consensus resp) cs_id = Some i"
        "st_pg_status (get_status (Some resp)) = POSTGRES_STATUS_PRIMARY"
    for cell ps p i resp
  proof -
    let ?pb = "\<lparr>pb_name = matchPoolerToPod p names, pb_pooler = p, pb_id = i\<rparr>"
    have "?pb \<in> set probes"
      using collect_probes_Inr [OF probes] in_cell_probes [OF cell(3) p(1,2)] cell(1,2)
      by (auto simp del: set_CollectCells)
    moreover have "reports_primary rpc ?pb resp"
      using p by (simp add: reports_primary_def)
    ultimately have "if IsPrimaryPooler p then (?pb, resp) \<in> set (an_topo_primary a)
        else (?pb, resp) \<in> set (an_others a)"
      using record_probes_primary [OF rec] by fastforce
    then show ?thesis
      using top q st stale beh rule by (force split: if_splits)
  qed
  have "\<exists>ps. getPoolers cell = Inr ps" if "cell \<in> set (CollectCells shd)" for cell
    using collect_probes_Inr [OF probes] that by (auto simp del: set_CollectCells)
  with c0 sound cell_probes_member [OF c0(3)] q rule dec committed one show ?thesis
    unfolding reports_primary_def behind_def
    by (intro exI [of _ c0] exI [of _ ps0] exI [of _ "pb_pooler q"] exI [of _ l] exI [of _ r] exI [of _ rule]) (metis (no_types, lifting))
qed

theorem CheckDisruption_no_split_brain_witness:
  "\<exists>l leader rule. l \<in> set (map sample_pooler [''a'', ''b'', ''c'']) \<and> IsPrimaryPooler l \<and> mp_id l = Some leader
     \<and> get_decision (get_position (Some (sample_response (mp_hostname l)))) = Some rule \<and> ru_leader rule = Some leader
     \<and> (\<forall>p\<in>set (map sample_pooler [''a'', ''b'', ''c'']).
          st_pg_status (get_status (Some (sample_response (mp_hostname p)))) = POSTGRES_STATUS_PRIMARY
          \<longrightarrow> mp_id p = Some leader \<or> matchPoolerToPod p [''a'', ''b'', ''c''] = ''c'')"
proof -
  let ?ps = "map sample_pooler [''a'', ''b'', ''c'']" and ?rpc = "\<lambda>p. sample_response (mp_hostname p)"
  have permitted: "CheckDisruption (sample_lib 2) (\<lambda>c. Inr ?ps) (\<lambda>p. Inr (?rpc p)) sample_shard [''a'', ''b''] sample_target
      = None" by code_simp
  have names: "dt_name sample_target = ''c''"
    by (simp add: sample_target_def)
  have each: "list_all (\<lambda>p. mp_id p \<noteq> None \<and> matchPoolerToPod p [''a'', ''b'', ''c''] \<noteq> []
      \<and> Option.bind (sr_consensus (?rpc p)) cs_id = mp_id p) ?ps" by code_simp
  obtain c0 ps0 l leader answer rule where c0: "c0 \<in> set (CollectCells sample_shard)"
      "(Inr ?ps :: topo_error + pooler list) = Inr ps0" "l \<in> set ps0" "IsPrimaryPooler l" "mp_id l = Some leader"
      "(Inr (?rpc l) :: string + status_response) = Inr answer"
      "get_decision (get_position (Some answer)) = Some rule" "ru_leader rule = Some leader"
    and others: "\<forall>cell\<in>set (CollectCells sample_shard). \<exists>ps. (Inr ?ps :: topo_error + pooler list) = Inr ps
      \<and> (\<forall>p\<in>set ps. \<forall>i resp. mp_id p = Some i \<and> matchPoolerToPod p [''a'', ''b'', ''c''] \<noteq> []
          \<and> (Inr (?rpc p) :: string + status_response) = Inr resp \<and> Option.bind (sr_consensus resp) cs_id = Some i
          \<and> st_pg_status (get_status (Some resp)) = POSTGRES_STATUS_PRIMARY
          \<longrightarrow> i = leader \<or> \<not> IsPrimaryPooler p \<and> matchPoolerToPod p [''a'', ''b'', ''c''] = ''c''
            \<and> get_proposal (get_position (Some resp)) = None
            \<and> cl_compare (sample_lib 2) (get_position (Some resp)) (Some \<lparr>rp_decision = Some rule, rp_proposal = None\<rparr>) < 0)"
    using CheckDisruption_no_split_brain [OF permitted, unfolded names append.simps] by (elim exE conjE) (rule that)
  have "mp_id p = Some leader \<or> matchPoolerToPod p [''a'', ''b'', ''c''] = ''c''"
    if "p \<in> set ?ps" "st_pg_status (get_status (Some (?rpc p))) = POSTGRES_STATUS_PRIMARY" for p
  proof -
    from each that(1) obtain i where "mp_id p = Some i" "matchPoolerToPod p [''a'', ''b'', ''c''] \<noteq> []"
      "Option.bind (sr_consensus (?rpc p)) cs_id = Some i" unfolding list_all_iff by fastforce
    with bspec [OF others c0(1)] that show ?thesis unfolding sum.inject by blast
  qed
  with c0 show ?thesis unfolding sum.inject by blast
qed

end
