(* ===== verification/Pool_Pods.thy ===== *)
theory Pool_Pods
  imports Disruption_Check Pvc_Lifecycle
begin

text \<open>
  Judgements on the pods of a pool, without side effects: readiness and health of a pool
  (\<^verbatim>\<open>shard/reconcile_pool_pods.go\<close>), maintenance surges and capacity (\<^verbatim>\<open>shard/maintenance_surge.go\<close>), the
  disruption budget (\<^verbatim>\<open>shard/shard_pdb.go\<close>), stuck pods (\<^verbatim>\<open>shard/stuck_pods.go\<close>), quarantine
  (\<^verbatim>\<open>shard/reconcile_quarantine.go\<close>) and the choice of the pod to drain.

  A Go map from pod names to pods is an association list keyed by name. \<^verbatim>\<open>int32\<close> arithmetic wraps
  explicitly where the code computes with it.
\<close>

subsection \<open>32-bit arithmetic\<close>

definition wrap32 :: "int \<Rightarrow> int" where
  "wrap32 x = (x + 2 ^ 31) mod 2 ^ 32 - 2 ^ 31"

lemma wrap32_id [simp]: "- (2 ^ 31) \<le> x \<Longrightarrow> x < 2 ^ 31 \<Longrightarrow> wrap32 x = x"
  by (simp add: wrap32_def)

lemma wrap32_range: "- (2 ^ 31) \<le> wrap32 x \<and> wrap32 x < 2 ^ 31"
  by (simp add: wrap32_def)

subsection \<open>Readiness and health\<close>

abbreviation PodReady :: string where "PodReady \<equiv> ''Ready''"
abbreviation PodScheduled :: string where "PodScheduled \<equiv> ''PodScheduled''"

definition has_true :: "string \<Rightarrow> pod \<Rightarrow> bool" where
  "has_true t p \<longleftrightarrow> list_ex (\<lambda>c. pc_type c = t \<and> pc_status c = ConditionTrue) (p_conditions p)"

definition isPodReady :: "pod option \<Rightarrow> bool" where
  "isPodReady p = (case p of None \<Rightarrow> False | Some q \<Rightarrow> has_true PodReady q)"

definition is_busy :: "pod \<Rightarrow> bool" where
  "is_busy p \<longleftrightarrow> drain_state p \<noteq> [] \<or> \<not> is_zero_ptr (p_deletion p)"

definition pool_pod_blocks :: "int \<Rightarrow> shard \<Rightarrow> pod \<Rightarrow> bool" where
  "pool_pod_blocks effectiveReplicas shd p =
     (case resolvePodIndex (p_name p) of
        None \<Rightarrow> False
      | Some idx \<Rightarrow>
          (if effectiveReplicas \<le> idx then False
           else if resolvePodRole shd (p_name p) = ''QUARANTINED'' then False
           else if \<not> is_zero_ptr (p_deletion p) then True
           else if drain_state p \<noteq> [] then True
           else \<not> isPodReady (Some p)))"

definition isPoolHealthy :: "(string \<times> pod) list \<Rightarrow> int \<Rightarrow> shard \<Rightarrow> bool" where
  "isPoolHealthy existingPods effectiveReplicas shd =
     (if wrap32 (int (length existingPods)) < effectiveReplicas then False
      else \<not> list_ex (\<lambda>(name, p). pool_pod_blocks effectiveReplicas shd p) existingPods)"

definition pool_cell_key :: "pod \<Rightarrow> string" where
  "pool_cell_key p =
     str_at (p_labels p) LabelMultigresPool @ ''/'' @ str_at (p_labels p) LabelMultigresCell"

definition group_pods :: "pod list \<Rightarrow> string \<Rightarrow> (string \<times> pod) list" where
  "group_pods pods key =
     foldl (\<lambda>m p. upd (p_name p) p m) [] (filter (\<lambda>p. pool_cell_key p = key) pods)"

definition poolReplicas :: "pool_spec \<Rightarrow> int" where
  "poolReplicas pool =
     (case ps_replicas_per_cell pool of Some n \<Rightarrow> n | None \<Rightarrow> DefaultPoolReplicas)"

text \<open>The decision of \<^verbatim>\<open>isShardHealthy\<close> on the pods it listed.\<close>

definition shard_healthy :: "shard \<Rightarrow> pod list \<Rightarrow> bool" where
  "shard_healthy shd pods =
     (if list_ex is_busy pods then False
      else list_all (\<lambda>(poolName, pool).
             list_all (\<lambda>cell. isPoolHealthy (group_pods pods (poolName @ ''/'' @ cell))
                                (poolReplicas pool) shd) (ps_cells pool)) (s_pools shd))"

definition poolUsesCell :: "pool_spec \<Rightarrow> string \<Rightarrow> bool" where
  "poolUsesCell pool cellName \<longleftrightarrow> cellName \<in> set (ps_cells pool)"

definition findPodByName :: "pod list \<Rightarrow> string \<Rightarrow> pod option" where
  "findPodByName pods name = find (\<lambda>p. p_name p = name) pods"

abbreviation maintenanceAnnotationTrue :: string where
  "maintenanceAnnotationTrue \<equiv> ''true''"

definition isMaintenanceSurge :: "pod option \<Rightarrow> bool" where
  "isMaintenanceSurge p =
     (case p of
        None \<Rightarrow> False
      | Some q \<Rightarrow> str_at (p_annotations q) AnnotationMaintenanceSurge = maintenanceAnnotationTrue)"

fun desired_name_upto :: "shard \<Rightarrow> string \<Rightarrow> string \<Rightarrow> string \<Rightarrow> nat \<Rightarrow> bool" where
  "desired_name_upto shd poolName cellName name 0 = False"
| "desired_name_upto shd poolName cellName name (Suc n) =
     (desired_name_upto shd poolName cellName name n
      \<or> name = BuildPoolPodName shd poolName cellName (int n))"

definition isDesiredPooler :: "shard \<Rightarrow> pod option \<Rightarrow> bool" where
  "isDesiredPooler shd p =
     (case p of
        None \<Rightarrow> False
      | Some q \<Rightarrow>
          let poolName = str_at (p_labels q) LabelMultigresPool;
              cellName = str_at (p_labels q) LabelMultigresCell
          in (case map_of (s_pools shd) poolName of
                None \<Rightarrow> False
              | Some pool \<Rightarrow>
                  (if \<not> poolUsesCell pool cellName then False
                   else desired_name_upto shd poolName cellName (p_name q) (nat (poolReplicas pool)))))"

definition isActiveMaintenanceSurge :: "shard \<Rightarrow> pod \<Rightarrow> bool" where
  "isActiveMaintenanceSurge shd p \<longleftrightarrow>
     isMaintenanceSurge (Some p) \<and> \<not> isDesiredPooler shd (Some p)"

definition isAvailablePooler :: "pod option \<Rightarrow> bool" where
  "isAvailablePooler p =
     (case p of
        None \<Rightarrow> False
      | Some q \<Rightarrow> is_zero_ptr (p_deletion q) \<and> drain_state q = [] \<and> isPodReady (Some q))"

subsection \<open>The disruption budget and maintenance capacity\<close>

definition shardPDBLabels :: "shard \<Rightarrow> labels" where
  "shardPDBLabels shd =
     (let clusterName = str_at (s_labels shd) LabelMultigresCluster;
          ls = BuildStandardLabels clusterName PoolComponentName;
          ls = AddClusterLabel ls clusterName;
          ls = AddShardLabel ls (s_shard_name shd);
          ls = AddDatabaseLabel ls (s_database_name shd)
      in AddTableGroupLabel ls (s_table_group_name shd))"

definition shardCells :: "shard \<Rightarrow> string list" where
  "shardCells shd = sort (remdups (concat (map (\<lambda>(name, pool). ps_cells pool) (s_pools shd))))"

fun total_replicas :: "int \<Rightarrow> (string \<times> pool_spec) list \<Rightarrow> int" where
  "total_replicas total_so_far [] = total_so_far"
| "total_replicas total_so_far ((name, pool) # pools) =
     total_replicas
       (wrap32 (total_so_far + wrap32 (poolReplicas pool * wrap32 (int (length (ps_cells pool)))))) pools"

definition shardTotalReplicas :: "shard \<Rightarrow> int" where
  "shardTotalReplicas shd =
     (case s_replicas shd of Some n \<Rightarrow> n | None \<Rightarrow> total_replicas 0 (s_pools shd))"

definition minAvailableForTotal :: "int \<Rightarrow> int" where
  "minAvailableForTotal t =
     (let minAvailable = wrap32 (t - 1) in if minAvailable < 2 then 2 else minAvailable)"

definition shardMinAvailable :: "shard \<Rightarrow> int" where
  "shardMinAvailable shd = minAvailableForTotal (shardTotalReplicas shd)"

record pod_disruption_budget =
  pdb_name :: string
  pdb_namespace :: string
  pdb_labels :: labels
  pdb_min_available :: int
  pdb_selector :: labels

definition BuildShardPodDisruptionBudget :: "shard \<Rightarrow> pod_disruption_budget" where
  "BuildShardPodDisruptionBudget shd =
     \<lparr>pdb_name = joined ServiceConstraints (shard_parts shd @ [''pdb'']),
      pdb_namespace = s_namespace shd, pdb_labels = shardPDBLabels shd,
      pdb_min_available = shardMinAvailable shd,
      pdb_selector = GetSelectorLabels (shardPDBLabels shd)\<rparr>"

definition BuildShardPodDisruptionBudgets :: "shard \<Rightarrow> pod_disruption_budget list" where
  "BuildShardPodDisruptionBudgets shd = [BuildShardPodDisruptionBudget shd]"

abbreviation multiCellAtLeast2Policy :: string where
  "multiCellAtLeast2Policy \<equiv> ''MULTI_CELL_AT_LEAST_2''"

definition requiresTwoCellMaintenanceSurge :: "shard \<Rightarrow> bool" where
  "requiresTwoCellMaintenanceSurge shd \<longleftrightarrow>
     s_durability_policy shd = multiCellAtLeast2Policy \<and> length (shardCells shd) = 2"

text \<open>The counting of \<^verbatim>\<open>maintenanceCapacityWithout\<close> over the poolers listed.\<close>

definition capacity_without ::
  "shard \<Rightarrow> string \<Rightarrow> string \<Rightarrow> (pod option \<Rightarrow> bool) \<Rightarrow> pod list \<Rightarrow> bool" where
  "capacity_without shd cellName excludedPodName available poolers =
     (let surgeCount = wrap32 (int (length (filter (isActiveMaintenanceSurge shd) poolers)));
          staying = filter (\<lambda>p. p_name p \<noteq> excludedPodName \<and> available (Some p)) poolers;
          readyAfterDisruption = wrap32 (int (length staying));
          readyInCellAfterDisruption =
            length (filter (\<lambda>p. str_at (p_labels p) LabelMultigresCell = cellName) staying);
          requiredReady = minAvailableForTotal (wrap32 (shardTotalReplicas shd + surgeCount))
      in requiredReady \<le> readyAfterDisruption \<and> 1 \<le> readyInCellAfterDisruption)"

subsection \<open>Choosing pods\<close>

definition pod_score :: "shard \<Rightarrow> pod \<Rightarrow> int" where
  "pod_score shd p =
     (let score = (case resolvePodIndex (p_name p) of Some i \<Rightarrow> i | None \<Rightarrow> 0);
          score = (if resolvePodRole shd (p_name p) = ''PRIMARY'' then score - 1000 else score)
      in if \<not> isPodReady (Some p) then score + 500 else score)"

fun select_best :: "shard \<Rightarrow> (pod \<times> int) option \<Rightarrow> pod list \<Rightarrow> pod option" where
  "select_best shd best [] = map_option fst best"
| "select_best shd best (p # ps) =
     (case best of
        None \<Rightarrow> select_best shd (Some (p, pod_score shd p)) ps
      | Some (b, bestScore) \<Rightarrow>
          if bestScore < pod_score shd p then select_best shd (Some (p, pod_score shd p)) ps
          else select_best shd best ps)"

definition selectPodToDrain :: "shard \<Rightarrow> pod list \<Rightarrow> pod option" where
  "selectPodToDrain shd extraPods = select_best shd None extraPods"

text \<open>The candidates of \<^verbatim>\<open>selectShardScaleDownPod\<close>, over the pods it listed, in name order.\<close>

definition scale_down_candidates :: "shard \<Rightarrow> pod list \<Rightarrow> pod list \<Rightarrow> pod list" where
  "scale_down_candidates shd localExtras pods =
     (let candidates = foldl (\<lambda>m p. upd (p_name p) p m) [] localExtras;
          extras = concat (map (\<lambda>(poolName, pool).
                     concat (map (\<lambda>cell.
                       filter (\<lambda>p. (case resolvePodIndex (p_name p) of
                                       Some index \<Rightarrow> poolReplicas pool \<le> index | None \<Rightarrow> False)
                                    \<and> \<not> isMaintenanceSurge (Some p))
                         (map snd (group_pods pods (poolName @ ''/'' @ cell)))) (ps_cells pool)))
                     (s_pools shd));
          candidates = foldl (\<lambda>m p. upd (p_name p) p m) candidates extras
      in map snd (sort_key fst candidates))"

definition missingDesiredPods :: "shard \<Rightarrow> pod list \<Rightarrow> string list" where
  "missingDesiredPods shd pods =
     sort (filter (\<lambda>name. name \<notin> p_name ` set pods)
       (concat (map (\<lambda>(poolName, pool).
          concat (map (\<lambda>cell. map (\<lambda>i. BuildPoolPodName shd poolName cell (int i))
                     [0..<nat (poolReplicas pool)]) (ps_cells pool))) (s_pools shd))))"

definition is_unready_extra :: "shard \<Rightarrow> pod \<Rightarrow> bool" where
  "is_unready_extra shd p =
     (case map_of (s_pools shd) (str_at (p_labels p) LabelMultigresPool) of
        None \<Rightarrow> False
      | Some poolSpec \<Rightarrow>
          (case resolvePodIndex (p_name p) of
             None \<Rightarrow> False
           | Some index \<Rightarrow>
               let role = resolvePodRole shd (p_name p) in
               poolUsesCell poolSpec (str_at (p_labels p) LabelMultigresCell)
               \<and> \<not> index < poolReplicas poolSpec
               \<and> \<not> (isPodReady (Some p) \<or> isMaintenanceSurge (Some p) \<or> role = ''PRIMARY''
                     \<or> role = ''QUARANTINED'' \<or> \<not> is_zero_ptr (p_deletion p) \<or> drain_state p \<noteq> [])))"

definition unreadyExtras :: "shard \<Rightarrow> pod list \<Rightarrow> pod list" where
  "unreadyExtras shd pods = sort_key p_name (filter (is_unready_extra shd) pods)"

record rolloutCandidates =
  rc_unready :: "pod list"
  rc_ready :: "pod list"
  rc_primary :: "pod option"
  rc_current :: "pod list"

definition classify_pod :: "pod_hash \<Rightarrow> shard \<Rightarrow> rolloutCandidates \<Rightarrow> pod \<Rightarrow> rolloutCandidates" where
  "classify_pod desiredHash shd c p =
     (let poolName = str_at (p_labels p) LabelMultigresPool;
          cellName = str_at (p_labels p) LabelMultigresCell
      in case map_of (s_pools shd) poolName of
           None \<Rightarrow> c
         | Some poolSpec \<Rightarrow>
             if \<not> poolUsesCell poolSpec cellName then c
             else (case resolvePodIndex (p_name p) of
                     None \<Rightarrow> c
                   | Some index \<Rightarrow>
                       let desired = (index < poolReplicas poolSpec \<or> isActiveMaintenanceSurge shd p);
                           role = resolvePodRole shd (p_name p)
                       in if \<not> desired \<or> \<not> is_zero_ptr (p_deletion p) \<or> drain_state p \<noteq> [] then c
                          else if role = ''QUARANTINED'' then c
                          else if \<not> podNeedsUpdate desiredHash p shd poolName cellName poolSpec index
                          then c\<lparr>rc_current := rc_current c @ [p]\<rparr>
                          else if role = ''PRIMARY''
                          then (if \<not> isPodReady (Some p) then c\<lparr>rc_primary := Some p\<rparr> else c)
                          else if isPodReady (Some p) then c\<lparr>rc_ready := rc_ready c @ [p]\<rparr>
                          else c\<lparr>rc_unready := rc_unready c @ [p]\<rparr>))"

definition classifyDesiredPods :: "pod_hash \<Rightarrow> shard \<Rightarrow> pod list \<Rightarrow> rolloutCandidates" where
  "classifyDesiredPods desiredHash shd pods =
     foldl (classify_pod desiredHash shd)
       \<lparr>rc_unready = [], rc_ready = [], rc_primary = None, rc_current = []\<rparr> (sort_key p_name pods)"

abbreviation PoolerDataReadyCondition :: string where
  "PoolerDataReadyCondition \<equiv> ''multigres.com/pooler-data-ready''"

definition poolerDataReady :: "pod \<Rightarrow> bool" where
  "poolerDataReady p =
     (case find (\<lambda>c. pc_type c = PoolerDataReadyCondition) (p_conditions p) of
        Some c \<Rightarrow> pc_status c = ConditionTrue
      | None \<Rightarrow> False)"

abbreviation multipoolerContainerName :: string where "multipoolerContainerName \<equiv> ''multipooler''"
abbreviation topoGlobalAddressFlag :: string where "topoGlobalAddressFlag \<equiv> ''--topo-global-server-addresses=''"
abbreviation topoGlobalRootFlag :: string where "topoGlobalRootFlag \<equiv> ''--topo-global-root=''"

fun topo_args :: "string option \<Rightarrow> string option \<Rightarrow> string list \<Rightarrow> string option \<times> string option" where
  "topo_args addr root [] = (addr, root)"
| "topo_args addr root (arg # args) =
     (case cut_prefix arg topoGlobalAddressFlag of
        Some v \<Rightarrow> topo_args (Some v) root args
      | None \<Rightarrow> (case cut_prefix arg topoGlobalRootFlag of
                    Some v \<Rightarrow> topo_args addr (Some v) args
                  | None \<Rightarrow> topo_args addr root args))"

definition podTopoDrifted :: "pod option \<Rightarrow> shard \<Rightarrow> bool" where
  "podTopoDrifted p shd =
     (case p of
        None \<Rightarrow> False
      | Some q \<Rightarrow>
          if is_busy q \<or> poolerDataReady q then False
          else (case find (\<lambda>c. ct_name c = multipoolerContainerName) (p_containers q) of
                  None \<Rightarrow> False
                | Some c \<Rightarrow>
                    (case topo_args None None (ct_args c) of
                       (Some addr, Some root) \<Rightarrow> addr \<noteq> s_topo_address shd \<or> root \<noteq> s_topo_root shd
                     | _ \<Rightarrow> False)))"

definition poolHealthyExcluding :: "(string \<times> pod) list \<Rightarrow> pod \<Rightarrow> string list \<Rightarrow> bool" where
  "poolHealthyExcluding pods target quarantined =
     list_all (\<lambda>(name, p).
       name = p_name target \<or> name \<in> set quarantined
       \<or> str_at (p_labels p) LabelMultigresPool \<noteq> str_at (p_labels target) LabelMultigresPool
       \<or> str_at (p_labels p) LabelMultigresCell \<noteq> str_at (p_labels target) LabelMultigresCell
       \<or> is_busy p \<or> isPodReady (Some p)) pods"

definition pvcNeedsFilesystemResize :: "(string \<times> pvc) list \<Rightarrow> string \<Rightarrow> bool" where
  "pvcNeedsFilesystemResize pvcs pvcName =
     (case map_of pvcs pvcName of
        None \<Rightarrow> False
      | Some v \<Rightarrow> list_ex (\<lambda>c. pc_type c = ''FileSystemResizePending'' \<and> pc_status c = ConditionTrue)
                    (v_conditions v))"

subsection \<open>Lemmas on the choice and the health of pods\<close>

definition is_primary :: "shard \<Rightarrow> pod \<Rightarrow> bool" where
  "is_primary shd p \<longleftrightarrow> resolvePodRole shd (p_name p) = ''PRIMARY''"

definition index_or_zero :: "pod \<Rightarrow> int" where
  "index_or_zero p = (case resolvePodIndex (p_name p) of Some i \<Rightarrow> i | None \<Rightarrow> 0)"

lemma pod_score_eq:
  "pod_score shd p = index_or_zero p - (if is_primary shd p then 1000 else 0)
     + (if isPodReady (Some p) then 0 else 500)"
  by (simp add: pod_score_def index_or_zero_def is_primary_def Let_def)

lemma select_best_max:
  "select_best shd (Some (b, pod_score shd b)) ps = Some p \<Longrightarrow>
     p \<in> set (b # ps) \<and> (\<forall>q\<in>set (b # ps). pod_score shd q \<le> pod_score shd p)"
proof (induction ps arbitrary: b)
  case (Cons q ps)
  show ?case
  proof (cases "pod_score shd b < pod_score shd q")
    case True
    then have "select_best shd (Some (q, pod_score shd q)) ps = Some p" using Cons.prems by simp
    from Cons.IH [OF this] True show ?thesis by force
  next
    case False
    then have "select_best shd (Some (b, pod_score shd b)) ps = Some p" using Cons.prems by simp
    from Cons.IH [OF this] False show ?thesis by force
  qed
qed simp

lemma select_best_Some: "best \<noteq> None \<or> ps \<noteq> [] \<Longrightarrow> \<exists>p. select_best shd best ps = Some p"
proof (induction ps arbitrary: best)
  case (Cons p ps)
  then show ?case by (cases best) auto
qed auto

text \<open>
  when the indices are below 500, \<^verbatim>\<open>selectPodToDrain\<close> picks from any non-empty list a pod of it that is
  the primary only if all are, that is ready only if every pod of its kind is, and that has the highest
  index among those equal to it in both.
\<close>

theorem selectPodToDrain_order:
  assumes "ps \<noteq> []" and "\<forall>p\<in>set ps. 0 \<le> index_or_zero p \<and> index_or_zero p < 500"
  shows "\<exists>p\<in>set ps. selectPodToDrain shd ps = Some p
    \<and> (is_primary shd p \<longrightarrow> (\<forall>q\<in>set ps. is_primary shd q))
    \<and> (\<forall>q\<in>set ps. is_primary shd q = is_primary shd p \<and> isPodReady (Some p) \<longrightarrow> isPodReady (Some q))
    \<and> (\<forall>q\<in>set ps. is_primary shd q = is_primary shd p \<and> isPodReady (Some q) = isPodReady (Some p)
         \<longrightarrow> index_or_zero q \<le> index_or_zero p)"
proof -
  obtain r rs where ps: "ps = r # rs" using assms(1) by (cases ps) auto
  obtain p where p: "selectPodToDrain shd ps = Some p"
    using select_best_Some [of None ps shd] assms(1) by (auto simp: selectPodToDrain_def)
  then have "select_best shd (Some (r, pod_score shd r)) rs = Some p" by (simp add: ps selectPodToDrain_def)
  from select_best_max [OF this] have "p \<in> set ps" and m: "\<And>q. q \<in> set ps \<Longrightarrow> pod_score shd q \<le> pod_score shd p"
    unfolding ps by auto
  have lex: "(is_primary shd p \<longrightarrow> is_primary shd q)
      \<and> (is_primary shd q = is_primary shd p \<and> isPodReady (Some p) \<longrightarrow> isPodReady (Some q))
      \<and> (is_primary shd q = is_primary shd p \<and> isPodReady (Some q) = isPodReady (Some p)
           \<longrightarrow> index_or_zero q \<le> index_or_zero p)" if "q \<in> set ps" for q
  proof -
    have "0 \<le> index_or_zero p" "index_or_zero p < 500" "0 \<le> index_or_zero q" "index_or_zero q < 500"
      using assms(2) that \<open>p \<in> set ps\<close> by auto
    with m [OF that] show ?thesis unfolding pod_score_eq by (simp split: if_splits)
  qed
  show ?thesis
    using \<open>p \<in> set ps\<close> p lex by (intro bexI [of _ p]) auto
qed

lemma pool_blocks:
  "pool_pod_blocks replicas shd p \<longleftrightarrow>
     (\<exists>idx. resolvePodIndex (p_name p) = Some idx \<and> idx < replicas
        \<and> resolvePodRole shd (p_name p) \<noteq> ''QUARANTINED'' \<and> (is_busy p \<or> \<not> isPodReady (Some p)))"
  by (auto simp: pool_pod_blocks_def is_busy_def not_le split: option.splits if_splits)

lemma isPoolHealthy_iff:
  assumes "length pods < 2 ^ 31"
  shows "isPoolHealthy pods replicas shd \<longleftrightarrow>
     replicas \<le> int (length pods)
     \<and> (\<forall>(name, p)\<in>set pods. \<forall>idx. resolvePodIndex (p_name p) = Some idx \<and> idx < replicas
          \<and> resolvePodRole shd (p_name p) \<noteq> ''QUARANTINED'' \<longrightarrow> \<not> is_busy p \<and> isPodReady (Some p))"
proof -
  have "wrap32 (int (length pods)) = int (length pods)" using assms by simp
  then show ?thesis
    unfolding isPoolHealthy_def list_ex_iff pool_blocks by (auto simp: not_less case_prod_beta)
qed


lemma shardPDB_selector:
  "GetSelectorLabels (shardPDBLabels shd) =
     [LabelAppInstance \<mapsto> str_at (s_labels shd) LabelMultigresCluster,
      LabelAppComponent \<mapsto> PoolComponentName,
      LabelMultigresCluster \<mapsto> str_at (s_labels shd) LabelMultigresCluster,
      LabelMultigresShard \<mapsto> s_shard_name shd, LabelMultigresDatabase \<mapsto> s_database_name shd,
      LabelMultigresTableGroup \<mapsto> s_table_group_name shd]"
  unfolding shardPDBLabels_def Let_def label_selects BuildStandardLabels_def select_upd select_empty
  by (simp add: selectorLabelsAllowList_def)

subsection \<open>A sample pool\<close>

definition scale_pod :: "nat \<Rightarrow> pod" where
  "scale_pod i =
     sample_pod\<lparr>p_name := ''p-'' @ utoa i, p_uid := utoa i, p_volumes := [Some (''d-'' @ utoa i)],
       p_conditions := [\<lparr>pc_type = PodReady, pc_status = ConditionTrue, pc_last_transition = 0\<rparr>]\<rparr>"

definition keyed :: "pod list \<Rightarrow> (string \<times> pod) list" where
  "keyed pods = map (\<lambda>p. (p_name p, p)) pods"

theorem selectPodToDrain_order_witness:
  "\<exists>p\<in>{scale_pod 0, scale_pod 1}. selectPodToDrain sample_shard [scale_pod 0, scale_pod 1] = Some p
     \<and> index_or_zero (scale_pod 1) \<le> index_or_zero p"
proof -
  let ?ps = "[scale_pod 0, scale_pod 1]"
  have a: "\<forall>p\<in>set ?ps. 0 \<le> index_or_zero p \<and> index_or_zero p < 500" by code_simp
  have b: "\<not> is_primary sample_shard (scale_pod 0)" "\<not> is_primary sample_shard (scale_pod 1)"
    "isPodReady (Some (scale_pod 0))" "isPodReady (Some (scale_pod 1))" by code_simp+
  from selectPodToDrain_order [OF _ a, of sample_shard] b show ?thesis by auto
qed

text \<open>
  \<^verbatim>\<open>isPoolHealthy\<close> is decided by a count and by the pods that are there: with two replicas wanted, a pool
  whose slot 1 has no pod at all is healthy as soon as an extra pod makes up the count.
\<close>

theorem isPoolHealthy_missing_slot:
  "isPoolHealthy (keyed [scale_pod 0, scale_pod 2]) 2 sample_shard
   \<and> Some 1 \<notin> set (map (\<lambda>p. resolvePodIndex (p_name p)) [scale_pod 0, scale_pod 2])"
  by code_simp

text \<open>
  the capacity check keeps the shard inside its disruption budget. When \<^verbatim>\<open>maintenanceCapacityWithout\<close>
  lets a pod go, the poolers that are available without it are at least the \<^verbatim>\<open>minAvailable\<close> of the shard's
  PodDisruptionBudget, which is never below two, and one of them is in the cell of the pod.
\<close>

theorem capacity_within_budget:
  assumes "capacity_without shd cellName name isAvailablePooler poolers"
    and "0 \<le> shardTotalReplicas shd" and "shardTotalReplicas shd + int (length poolers) < 2 ^ 31"
  shows "2 \<le> pdb_min_available (BuildShardPodDisruptionBudget shd)
    \<and> pdb_min_available (BuildShardPodDisruptionBudget shd)
        \<le> int (length (filter (\<lambda>p. p_name p \<noteq> name \<and> isAvailablePooler (Some p)) poolers))
    \<and> (\<exists>p\<in>set poolers. p_name p \<noteq> name \<and> isAvailablePooler (Some p)
         \<and> str_at (p_labels p) LabelMultigresCell = cellName)"
proof -
  let ?stay = "filter (\<lambda>p. p_name p \<noteq> name \<and> isAvailablePooler (Some p)) poolers"
  let ?surges = "int (length (filter (isActiveMaintenanceSurge shd) poolers))"
  have le: "?surges \<le> int (length poolers)" "int (length ?stay) \<le> int (length poolers)" by simp_all
  have w: "wrap32 ?surges = ?surges" "wrap32 (int (length ?stay)) = int (length ?stay)"
    "wrap32 (shardTotalReplicas shd + ?surges) = shardTotalReplicas shd + ?surges"
    using le assms(2,3) by - (rule wrap32_id, linarith, linarith)+
  have m: "minAvailableForTotal t = max 2 (t - 1)" if "0 \<le> t" "t < 2 ^ 31" for t
    using that by (simp add: minAvailableForTotal_def Let_def max_def)
  have pdb: "pdb_min_available (BuildShardPodDisruptionBudget shd) = max 2 (shardTotalReplicas shd - 1)"
    using m [of "shardTotalReplicas shd"] assms(2,3)
    by (simp add: BuildShardPodDisruptionBudget_def shardMinAvailable_def)
  have "minAvailableForTotal (shardTotalReplicas shd + ?surges) = max 2 (shardTotalReplicas shd + ?surges - 1)"
    using m [of "shardTotalReplicas shd + ?surges"] le assms(2,3) by linarith
  with assms(1) w have "max 2 (shardTotalReplicas shd + ?surges - 1) \<le> int (length ?stay)"
    and cell: "1 \<le> length (filter (\<lambda>p. str_at (p_labels p) LabelMultigresCell = cellName) ?stay)"
    by (simp_all add: capacity_without_def Let_def)
  moreover from cell have "filter (\<lambda>p. str_at (p_labels p) LabelMultigresCell = cellName) ?stay \<noteq> []" by auto
  then have "\<exists>p\<in>set ?stay. str_at (p_labels p) LabelMultigresCell = cellName"
    by (auto simp: filter_empty_conv)
  ultimately show ?thesis using pdb by auto
qed

theorem capacity_within_budget_witness:
  "2 \<le> pdb_min_available (BuildShardPodDisruptionBudget sample_shard)"
proof -
  let ?ps = "[scale_pod 0, scale_pod 1, scale_pod 2]"
  have "capacity_without sample_shard ''z1'' ''p-0'' isAvailablePooler ?ps" by code_simp
  moreover have "0 \<le> shardTotalReplicas sample_shard"
    "shardTotalReplicas sample_shard + int (length ?ps) < 2 ^ 31" by code_simp+
  ultimately show ?thesis using capacity_within_budget [of sample_shard "''z1''" "''p-0''" ?ps] by blast
qed

end
