(* ===== verification/Scale_Down.thy ===== *)
theory Scale_Down
  imports Pool_Pods
begin

text \<open>
  Removing pods: the disruption preflight of \<^verbatim>\<open>shard/disruption.go\<close>, and \<^verbatim>\<open>handleScaleDown\<close> with the
  release of data claims from \<^verbatim>\<open>shard/reconcile_pool_pods.go\<close>.

  \<^verbatim>\<open>disruption_env\<close> gathers what the reconciler's fields supply: the RPC clients (absent, failing, or a
  client), the topology store (or that it cannot be opened), the consensus package, the clock, the
  grace for unregistered pods and the time formats. The reader of \<^verbatim>\<open>disruptionReader\<close> is the uncached one.
  The tracker that the pools of one pass share is passed in and returned.
\<close>

record disruption_env =
  de_clients :: "status_rpc option option"
  de_store :: "pooler_query option"
  de_lib :: consensus_lib
  de_now :: gotime
  de_grace :: duration
  de_format_time :: "gotime \<Rightarrow> string"
  de_format_stamp :: "gotime \<Rightarrow> string"
  de_refusal_text :: "refusal \<Rightarrow> string"

record shardRolloutTracker =
  tr_started :: bool
  tr_waiting_for_recovery :: bool
  tr_surge_started_cells :: "string list"
  tr_blocked :: string
  tr_blocked_again :: bool
  tr_unready_decided :: bool
  tr_unready_pending :: bool
  tr_unready_deferred :: bool

definition block :: "string \<Rightarrow> shardRolloutTracker \<Rightarrow> shardRolloutTracker" where
  "block reason t = (if tr_blocked t = [] then t\<lparr>tr_blocked := reason\<rparr> else t)"

definition SetStarted :: "shardRolloutTracker \<Rightarrow> shardRolloutTracker" where
  "SetStarted t = t\<lparr>tr_started := True\<rparr>"

definition HasStarted :: "shardRolloutTracker \<Rightarrow> bool" where
  "HasStarted t = tr_started t"

definition HasSurgeStarted :: "string \<Rightarrow> shardRolloutTracker \<Rightarrow> bool" where
  "HasSurgeStarted cellName t \<longleftrightarrow> cellName \<in> set (tr_surge_started_cells t)"

definition SetSurgeStarted :: "string \<Rightarrow> shardRolloutTracker \<Rightarrow> shardRolloutTracker" where
  "SetSurgeStarted cellName t =
     (if HasSurgeStarted cellName t then t
      else t\<lparr>tr_surge_started_cells := tr_surge_started_cells t @ [cellName]\<rparr>)"

datatype scale_error =
    ListOngoing api_error | CheckTerminating list_error | ListHealth api_error
  | ListCandidates api_error | ListCapacity api_error | TerminatingClaim pvc_error
  | FetchPVC string api_error | MarkPVC string pvc_error | InitiateDrain string api_error
  | DeleteDrained string api_error

subsection \<open>The preflight\<close>

definition defaultUnregisteredPodGrace :: duration where
  "defaultUnregisteredPodGrace = 2 * minute"

definition listDisruptionPods :: "kube \<Rightarrow> shard \<Rightarrow> (api_error + pod list) kio" where
  "listDisruptionPods k shd = ask (k_list_pods k) (ListPods True (s_namespace shd) (pool_selector shd))"

definition scheduled_at :: "pod \<Rightarrow> gotime" where
  "scheduled_at p =
     foldl (\<lambda>t c. if pc_type c = PodScheduled \<and> pc_status c = ConditionTrue then pc_last_transition c else t)
       0 (p_conditions p)"

definition mayBeUnregistered :: "disruption_env \<Rightarrow> pod \<Rightarrow> bool" where
  "mayBeUnregistered env p =
     (let grace = (if de_grace env = 0 then defaultUnregisteredPodGrace else de_grace env);
          scheduled = scheduled_at p
      in \<not> isPodReady (Some p) \<and> \<not> is_zero_time scheduled \<and> grace \<le> de_now env - scheduled)"

record disruptionPreflight =
  pf_pods :: "pod list"
  pf_observation :: DisruptionObservation

text \<open>
  The part of \<^verbatim>\<open>observeDisruption\<close> after the API reads: \<^const>\<open>Inl\<close> is a reason to wait, empty when a
  disruption is in flight or a mounted claim is being deleted.
\<close>

definition observe_pods ::
  "disruption_env \<Rightarrow> shard \<Rightarrow> pod list \<Rightarrow> string list \<Rightarrow> string + disruptionPreflight" where
  "observe_pods env shd pods terminating =
     (if terminating \<noteq> [] then Inl []
      else if list_ex is_busy pods then Inl []
      else (case de_clients env of
              None \<Rightarrow> Inl ''no multipooler RPC client is configured''
            | Some None \<Rightarrow> Inl ''no multipooler RPC client''
            | Some (Some rpc) \<Rightarrow>
                (case de_store env of
                   None \<Rightarrow> Inl ''cannot open the shard's topology''
                 | Some getPoolers \<Rightarrow>
                     (case ObserveDisruption (de_lib env) getPoolers rpc shd (map p_name pods) of
                        Inl err \<Rightarrow>
                          (if isTopologyUnavailable err then Inl ''cannot read the shard's topology''
                           else Inl (de_refusal_text env err))
                      | Inr observation \<Rightarrow>
                          Inr \<lparr>pf_pods = pods, pf_observation = observation\<rparr>))))"

definition observeDisruption ::
  "kube \<Rightarrow> disruption_env \<Rightarrow> shard \<Rightarrow> pod list option \<Rightarrow> (scale_error + (string + disruptionPreflight)) kio" where
  "observeDisruption k env shd given = do {
     r \<leftarrow> (case given of
            Some pods \<Rightarrow> State_Monad.return (Inr pods)
          | None \<Rightarrow> listDisruptionPods k shd);
     case r of
       Inl err \<Rightarrow> State_Monad.return (Inl (ListOngoing err))
     | Inr pods \<Rightarrow> do {
         t \<leftarrow> mountedTerminatingPVCs k True (de_now env) shd;
         case t of
           Inl err \<Rightarrow> State_Monad.return (Inl (CheckTerminating err))
         | Inr terminating \<Rightarrow> State_Monad.return (Inr (observe_pods env shd pods terminating))
       }
   }"

definition disruption_target :: "disruption_env \<Rightarrow> pod list \<Rightarrow> pod \<Rightarrow> DisruptionTarget" where
  "disruption_target env pods target =
     foldl (\<lambda>t p.
        if p_name p \<noteq> p_name target \<or> p_uid p \<noteq> p_uid target then t
        else t\<lparr>MayBeUnregistered := mayBeUnregistered env p,
               Unscheduled := p_node p = [] \<and> p_phase p = PodPending \<and> \<not> has_true PodScheduled p\<rparr>)
       \<lparr>dt_name = p_name target, Unscheduled = False, MayBeUnregistered = False\<rparr> pods"

definition disruptionCheck ::
  "disruption_env \<Rightarrow> shard \<Rightarrow> disruptionPreflight \<Rightarrow> pod \<Rightarrow> refusal option" where
  "disruptionCheck env shd preflight target =
     Check (de_lib env) (pf_observation preflight) shd
       (disruption_target env (pf_pods preflight) target)"

definition recordDisruptionBlocked :: "shard \<Rightarrow> string \<Rightarrow> unit kio" where
  "recordDisruptionBlocked shd target = emit (EmitEvent ''Normal'' ''DisruptionBlocked'' target)"

definition disruptionAllowed ::
  "disruption_env \<Rightarrow> shard \<Rightarrow> disruptionPreflight \<Rightarrow> pod \<Rightarrow> bool kio" where
  "disruptionAllowed env shd preflight target =
     (case disruptionCheck env shd preflight target of
        Some err \<Rightarrow> do { recordDisruptionBlocked shd (p_name target); State_Monad.return False }
      | None \<Rightarrow> State_Monad.return True)"

text \<open>A refusal of any kind, an error included, makes the tracker wait for recovery.\<close>

definition canStartDisruption ::
  "kube \<Rightarrow> disruption_env \<Rightarrow> shard \<Rightarrow> pod \<Rightarrow> shardRolloutTracker
     \<Rightarrow> (shardRolloutTracker \<times> (scale_error + bool)) kio" where
  "canStartDisruption k env shd target tracker =
     (if tr_waiting_for_recovery tracker then State_Monad.return (tracker, Inr False)
      else
        let waiting = tracker\<lparr>tr_waiting_for_recovery := True\<rparr> in do {
          r \<leftarrow> observeDisruption k env shd None;
          case r of
            Inl err \<Rightarrow> State_Monad.return (waiting, Inl err)
          | Inr (Inl why) \<Rightarrow> do {
              (if why \<noteq> [] then recordDisruptionBlocked shd [] else State_Monad.return ());
              State_Monad.return (waiting, Inr False)
            }
          | Inr (Inr preflight) \<Rightarrow> do {
              allowed \<leftarrow> disruptionAllowed env shd preflight target;
              State_Monad.return (if allowed then tracker else waiting, Inr allowed)
            }
        })"

definition isShardHealthy :: "kube \<Rightarrow> shard \<Rightarrow> (scale_error + bool) kio" where
  "isShardHealthy k shd = do {
     r \<leftarrow> listDisruptionPods k shd;
     State_Monad.return (case r of Inl err \<Rightarrow> Inl (ListHealth err) | Inr pods \<Rightarrow> Inr (shard_healthy shd pods))
   }"

definition selectShardScaleDownPod :: "kube \<Rightarrow> shard \<Rightarrow> pod list \<Rightarrow> (scale_error + pod option) kio" where
  "selectShardScaleDownPod k shd localExtras = do {
     r \<leftarrow> listDisruptionPods k shd;
     State_Monad.return (case r of
        Inl err \<Rightarrow> Inl (ListCandidates err)
      | Inr pods \<Rightarrow> Inr (selectPodToDrain shd (scale_down_candidates shd localExtras pods)))
   }"

definition maintenanceCapacityWithout ::
  "kube \<Rightarrow> shard \<Rightarrow> string \<Rightarrow> string \<Rightarrow> (pod option \<Rightarrow> bool) \<Rightarrow> (scale_error + bool) kio" where
  "maintenanceCapacityWithout k shd cellName excludedPodName available =
     (if \<not> requiresTwoCellMaintenanceSurge shd then State_Monad.return (Inr True)
      else do {
        r \<leftarrow> ask (k_list_pods k)
              (ListPods False (s_namespace shd) (GetSelectorLabels (shardPDBLabels shd)));
        State_Monad.return (case r of
           Inl err \<Rightarrow> Inl (ListCapacity err)
         | Inr poolers \<Rightarrow> Inr (capacity_without shd cellName excludedPodName available poolers))
      })"

definition hasMaintenanceCapacityForPod ::
  "kube \<Rightarrow> shard \<Rightarrow> string \<Rightarrow> string \<Rightarrow> (scale_error + bool) kio" where
  "hasMaintenanceCapacityForPod k shd cellName excludedPodName =
     maintenanceCapacityWithout k shd cellName excludedPodName isAvailablePooler"

subsection \<open>Releasing the claim of a drained pod\<close>

definition cleanupPodPVC ::
  "kube \<Rightarrow> disruption_env \<Rightarrow> shard \<Rightarrow> pod \<Rightarrow> string \<Rightarrow> scale_error option kio" where
  "cleanupPodPVC k env shd p poolName =
     (case resolvePodIndex (p_name p) of
        None \<Rightarrow> State_Monad.return None
      | Some idx \<Rightarrow>
          let cellName = str_at (p_labels p) LabelMultigresCell;
              pvcName = BuildPoolDataPVCName shd poolName cellName idx
          in do {
            r \<leftarrow> ask (k_get_pvc k) (GetPvc False (p_namespace p) pvcName);
            case r of
              Inl err \<Rightarrow> State_Monad.return (if err = NotFound then None else Some (FetchPVC pvcName err))
            | Inr v \<Rightarrow> do {
                (_, e) \<leftarrow> MarkOrphan k (de_format_stamp env) (Some v) (s_uid shd) (de_now env);
                State_Monad.return (map_option (MarkPVC pvcName) e)
              }
          })"

definition scaled_policy :: "pvc_deletion_policy option \<Rightarrow> string" where
  "scaled_policy mergedPolicy =
     (case mergedPolicy of
        Some p \<Rightarrow> if WhenScaled p \<noteq> [] then WhenScaled p else DeletePVCRetentionPolicy
      | None \<Rightarrow> DeletePVCRetentionPolicy)"

definition releaseDrainedPodPVC ::
  "kube \<Rightarrow> disruption_env \<Rightarrow> shard \<Rightarrow> pod \<Rightarrow> string \<Rightarrow> pool_spec \<Rightarrow> int \<Rightarrow> scale_error option kio" where
  "releaseDrainedPodPVC k env shd p poolName poolSpec replicas =
     (if scaled_policy (MergePVCDeletionPolicy (ps_pvc_deletion_policy poolSpec) (s_pvc_deletion_policy shd))
           = DeletePVCRetentionPolicy
      then (case resolvePodIndex (p_name p) of
              None \<Rightarrow> State_Monad.return None
            | Some idx \<Rightarrow> if replicas \<le> idx then cleanupPodPVC k env shd p poolName
                           else State_Monad.return None)
      else State_Monad.return None)"

definition cleanupDrainedPod ::
  "kube \<Rightarrow> disruption_env \<Rightarrow> shard \<Rightarrow> pod \<Rightarrow> string \<Rightarrow> pool_spec \<Rightarrow> int \<Rightarrow> scale_error option kio" where
  "cleanupDrainedPod k env shd p poolName poolSpec replicas = do {
     e \<leftarrow> releaseDrainedPodPVC k env shd p poolName poolSpec replicas;
     case e of
       Some err \<Rightarrow> State_Monad.return (Some err)
     | None \<Rightarrow> do {
         emit (EmitEvent ''Normal'' ''DrainCompleted'' (p_name p));
         State_Monad.return None
       }
   }"

subsection \<open>Scaling down\<close>

definition handleExternalDeletion :: "kube \<Rightarrow> disruption_env \<Rightarrow> pod \<Rightarrow> scale_error option kio" where
  "handleExternalDeletion k env p =
     (if \<not> has_true PodScheduled p then State_Monad.return None
      else if drain_state p \<noteq> [] then State_Monad.return None
      else do {
        (_, e) \<leftarrow> initiateDrain k (de_format_time env) (de_now env) p;
        case e of
          Some err \<Rightarrow> State_Monad.return (Some (InitiateDrain (p_name p) err))
        | None \<Rightarrow> do {
            emit (EmitEvent ''Warning'' ''ExternalDeletion'' (p_name p));
            State_Monad.return None
          }
      })"

text \<open>
  The three lists of the first loop of \<^verbatim>\<open>handleScaleDown\<close>, over the pods in name order: those ready for
  deletion, whether another disruption is in progress, and the pods past the wanted indices.
\<close>

definition ready_for_deletion :: "pod \<Rightarrow> bool" where
  "ready_for_deletion p \<longleftrightarrow> drain_state p = DrainStateReadyForDeletion"

definition is_extra :: "int \<Rightarrow> pod \<Rightarrow> bool" where
  "is_extra effectiveReplicas p =
     (case resolvePodIndex (p_name p) of None \<Rightarrow> True | Some idx \<Rightarrow> effectiveReplicas \<le> idx)"

definition in_name_order :: "(string \<times> pod) list \<Rightarrow> pod list" where
  "in_name_order existingPods = map snd (sort_key fst existingPods)"

record scale_state =
  sc_tracker :: shardRolloutTracker
  sc_action_taken :: bool
  sc_in_progress :: bool

definition acted :: "scale_state \<Rightarrow> scale_state" where
  "acted s = s\<lparr>sc_action_taken := True, sc_tracker := SetStarted (sc_tracker s)\<rparr>"

fun external_deletions ::
  "kube \<Rightarrow> disruption_env \<Rightarrow> scale_state \<Rightarrow> pod list \<Rightarrow> (scale_state \<times> scale_error option) kio" where
  "external_deletions k env s [] = State_Monad.return (s, None)"
| "external_deletions k env s (p # extraPods) =
     (if \<not> is_zero_ptr (p_deletion p) \<and> drain_state p = []
         \<and> \<not> sc_action_taken s \<and> \<not> HasStarted (sc_tracker s)
      then do {
        e \<leftarrow> handleExternalDeletion k env p;
        case e of
          Some err \<Rightarrow> State_Monad.return (s, Some err)
        | None \<Rightarrow> external_deletions k env (acted s) extraPods
      }
      else external_deletions k env s extraPods)"

fun delete_drained ::
  "kube \<Rightarrow> disruption_env \<Rightarrow> shard \<Rightarrow> string \<Rightarrow> pool_spec \<Rightarrow> int \<Rightarrow> scale_state \<Rightarrow> pod list
     \<Rightarrow> (scale_state \<times> scale_error option) kio" where
  "delete_drained k env shd poolName poolSpec replicas s [] = State_Monad.return (s, None)"
| "delete_drained k env shd poolName poolSpec replicas s (p # ps) = do {
     r \<leftarrow> podTerminatingClaim k p;
     case r of
       Inl err \<Rightarrow> State_Monad.return (s, Some (TerminatingClaim err))
     | Inr claim \<Rightarrow>
         if claim \<noteq> []
         then do {
           e \<leftarrow> releaseDrainedPodPVC k env shd p poolName poolSpec replicas;
           case e of
             Some err \<Rightarrow> State_Monad.return (s, Some err)
           | None \<Rightarrow> delete_drained k env shd poolName poolSpec replicas (s\<lparr>sc_in_progress := True\<rparr>) ps
         }
         else do {
           e \<leftarrow> cleanupDrainedPod k env shd p poolName poolSpec replicas;
           case e of
             Some err \<Rightarrow> State_Monad.return (s, Some err)
           | None \<Rightarrow> do {
               d \<leftarrow> ask (k_write k) (DeletePod p);
               case d of
                 Some err \<Rightarrow>
                   (if err = NotFound
                    then delete_drained k env shd poolName poolSpec replicas (acted s) ps
                    else State_Monad.return (s, Some (DeleteDrained (p_name p) err)))
               | None \<Rightarrow> delete_drained k env shd poolName poolSpec replicas (acted s) ps
             }
         }
   }"

text \<open>The drain of one pod, from the preflight on.\<close>

definition drain_extra ::
  "kube \<Rightarrow> disruption_env \<Rightarrow> shard \<Rightarrow> scale_state \<Rightarrow> pod \<Rightarrow> (scale_state \<times> scale_error option) kio" where
  "drain_extra k env shd s p = do {
     (tracker, r) \<leftarrow> canStartDisruption k env shd p (sc_tracker s);
     let s = s\<lparr>sc_tracker := tracker\<rparr>;
     case r of
       Inl err \<Rightarrow> State_Monad.return (s, Some err)
     | Inr allowed \<Rightarrow>
         if \<not> allowed then State_Monad.return (s, None)
         else do {
           c \<leftarrow> hasMaintenanceCapacityForPod k shd (str_at (p_labels p) LabelMultigresCell) (p_name p);
           case c of
             Inl err \<Rightarrow> State_Monad.return (s, Some err)
           | Inr capacity \<Rightarrow>
               if \<not> capacity then State_Monad.return (s, None)
               else do {
                 (_, e) \<leftarrow> initiateDrain k (de_format_time env) (de_now env) p;
                 case e of
                   Some err \<Rightarrow> State_Monad.return (s, Some (InitiateDrain (p_name p) err))
                 | None \<Rightarrow> do {
                     emit (EmitEvent ''Normal'' ''DrainStarted'' (p_name p));
                     State_Monad.return (acted s, None)
                   }
               }
         }
   }"

definition start_scale_down ::
  "kube \<Rightarrow> disruption_env \<Rightarrow> shard \<Rightarrow> (string \<times> pod) list \<Rightarrow> int \<Rightarrow> scale_state \<Rightarrow> pod list
     \<Rightarrow> (scale_state \<times> scale_error option) kio" where
  "start_scale_down k env shd existingPods effectiveReplicas s extraPods =
     (if \<not> isPoolHealthy existingPods effectiveReplicas shd
      then do {
        emit (EmitEvent ''Warning'' ''ScaleDownBlocked'' ''current pool has non-ready pods'');
        State_Monad.return (s, None)
      }
      else do {
        r \<leftarrow> isShardHealthy k shd;
        case r of
          Inl err \<Rightarrow> State_Monad.return (s, Some err)
        | Inr healthy \<Rightarrow>
            if \<not> healthy
            then do {
              emit (EmitEvent ''Warning'' ''ScaleDownBlocked'' ''shard has non-ready pods'');
              State_Monad.return (s, None)
            }
            else do {
              r \<leftarrow> selectShardScaleDownPod k shd extraPods;
              case r of
                Inl err \<Rightarrow> State_Monad.return (s, Some err)
              | Inr None \<Rightarrow> State_Monad.return (s, None)
              | Inr (Some podToDrain) \<Rightarrow>
                  if map_of existingPods (p_name podToDrain) = None then State_Monad.return (s, None)
                  else if drain_state podToDrain \<noteq> [] then State_Monad.return (s, None)
                  else drain_extra k env shd s podToDrain
            }
      })"

definition handleScaleDown ::
  "kube \<Rightarrow> disruption_env \<Rightarrow> shard \<Rightarrow> string \<Rightarrow> pool_spec \<Rightarrow> (string \<times> pod) list \<Rightarrow> int \<Rightarrow> int \<Rightarrow> bool
     \<Rightarrow> shardRolloutTracker \<Rightarrow> (scale_state \<times> scale_error option) kio" where
  "handleScaleDown k env shd poolName poolSpec existingPods replicas effectiveReplicas actionTaken tracker =
     (let pods = in_name_order existingPods;
          readyForDeletion = filter ready_for_deletion pods;
          others = filter (\<lambda>p. \<not> ready_for_deletion p) pods;
          extraPods = filter (is_extra effectiveReplicas) others;
          s = \<lparr>sc_tracker = tracker, sc_action_taken = actionTaken, sc_in_progress = list_ex is_busy others\<rparr>
      in do {
        (s, e) \<leftarrow> external_deletions k env s extraPods;
        case e of
          Some err \<Rightarrow> State_Monad.return (s, Some err)
        | None \<Rightarrow> do {
            (s, e) \<leftarrow> delete_drained k env shd poolName poolSpec replicas s readyForDeletion;
            case e of
              Some err \<Rightarrow> State_Monad.return (s, Some err)
            | None \<Rightarrow>
                if \<not> sc_action_taken s \<and> \<not> sc_in_progress s \<and> \<not> HasStarted (sc_tracker s) \<and> extraPods \<noteq> []
                then start_scale_down k env shd existingPods effectiveReplicas s extraPods
                else State_Monad.return (s, None)
          }
      })"

subsection \<open>What a scale-down may call\<close>

definition no_terminating_claims :: "kube \<Rightarrow> history \<Rightarrow> gotime \<Rightarrow> shard \<Rightarrow> bool" where
  "no_terminating_claims k h now shd \<longleftrightarrow>
     (\<exists>pvcs. seen (k_list_pvcs k) h (ListPvcs True (s_namespace shd) (shardSelector shd)) (Inr pvcs)
        \<and> (list_all (\<lambda>v. is_zero_ptr (v_deletion v)) pvcs
           \<or> (\<exists>pods. seen (k_list_pods k) h (ListPods True (s_namespace shd) (shardSelector shd)) (Inr pods)
                \<and> terminatingClaimsInUse pods pvcs now = [])))"

definition preflight_passed :: "kube \<Rightarrow> disruption_env \<Rightarrow> shard \<Rightarrow> history \<Rightarrow> pod \<Rightarrow> bool" where
  "preflight_passed k env shd h p \<longleftrightarrow>
     no_terminating_claims k h (de_now env) shd
     \<and> (\<exists>pods preflight.
          seen (k_list_pods k) h (ListPods True (s_namespace shd) (pool_selector shd)) (Inr pods)
          \<and> observe_pods env shd pods [] = Inr preflight
          \<and> disruptionCheck env shd preflight p = None)"

lemma no_terminating_claims_mono:
  "no_terminating_claims k h now shd \<Longrightarrow> no_terminating_claims k (h @ cs) now shd"
  unfolding no_terminating_claims_def using seen_mono by metis

lemma preflight_passed_mono: "preflight_passed k env shd h p \<Longrightarrow> preflight_passed k env shd (h @ cs) p"
  unfolding preflight_passed_def using seen_mono no_terminating_claims_mono by metis

definition reads :: "kcall \<Rightarrow> bool" where
  "reads c = (case c of ListPods a b d \<Rightarrow> True | ListPvcs a b d \<Rightarrow> True | GetPvc a b d \<Rightarrow> True
     | GetStorageClass n \<Rightarrow> True | EmitEvent a b d \<Rightarrow> True | _ \<Rightarrow> False)"

lemma reads_simps [simp]:
  "reads (ListPods a b d)" "reads (ListPvcs a b d)" "reads (GetPvc a b x)" "reads (GetStorageClass b)" "reads (EmitEvent b x y)"
  by (simp_all add: reads_def)

lemma run_mountedTerminatingPVCs:
  assumes "run_state (mountedTerminatingPVCs k True now shd) h = (r, h')"
  shows "(\<exists>cs. h' = h @ cs \<and> list_all reads cs)
    \<and> (r = Inr [] \<longrightarrow> no_terminating_claims k h' now shd)"
proof (cases "k_list_pvcs k h (ListPvcs True (s_namespace shd) (shardSelector shd))")
  case (Inl e)
  with assms show ?thesis by (auto simp: mountedTerminatingPVCs_def reads_def)
next
  case (Inr pvcs)
  let ?c = "ListPvcs True (s_namespace shd) (shardSelector shd)"
  let ?d = "ListPods True (s_namespace shd) (shardSelector shd)"
  have s: "seen (k_list_pvcs k) ((h @ [?c]) @ cs) ?c (Inr pvcs)" for cs
    using Inr by (intro seen_mono seen_last)
  show ?thesis
  proof (cases "list_ex (\<lambda>v. IsTerminating (Some v)) pvcs")
    case False
    then have z: "list_all (\<lambda>v. is_zero_ptr (v_deletion v)) pvcs"
      by (auto simp: IsTerminating_def list_all_iff list_ex_iff)
    have "h' = h @ [?c]" using assms Inr False by (auto simp: mountedTerminatingPVCs_def)
    moreover have "no_terminating_claims k (h @ [?c]) now shd"
      unfolding no_terminating_claims_def using s [of "[]"] z by auto
    ultimately show ?thesis by (simp add: reads_def)
  next
    case True
    then have h': "h' = (h @ [?c]) @ [?d]"
      and r: "r = (case k_list_pods k (h @ [?c]) ?d of Inl err \<Rightarrow> Inl (ListShardPods err)
                   | Inr pods \<Rightarrow> Inr (terminatingClaimsInUse pods pvcs now))"
      using assms Inr by (auto simp: mountedTerminatingPVCs_def split: sum.splits)
    have "no_terminating_claims k h' now shd" if "r = Inr []"
    proof -
      from that r obtain pods where "k_list_pods k (h @ [?c]) ?d = Inr pods"
        and "terminatingClaimsInUse pods pvcs now = []" by (auto split: sum.splits)
      with s [of "[?d]"] h' show ?thesis
        unfolding no_terminating_claims_def by (metis seen_last)
    qed
    with h' show ?thesis by (simp add: reads_def)
  qed
qed

lemma observe_pods_terminating: "observe_pods env shd pods ts = Inr pf \<Longrightarrow> ts = []"
  by (auto simp: observe_pods_def split: if_splits)

lemma observe_pods_Inr:
  assumes "observe_pods env shd pods ts = Inr pf"
  shows "\<exists>rpc getPoolers ob. de_clients env = Some (Some rpc) \<and> de_store env = Some getPoolers
    \<and> ObserveDisruption (de_lib env) getPoolers rpc shd (map p_name pods) = Inr ob
    \<and> pf = \<lparr>pf_pods = pods, pf_observation = ob\<rparr>"
  using assms by (auto simp: observe_pods_def split: if_splits option.splits sum.splits)

lemma run_observeDisruption:
  assumes "run_state (observeDisruption k env shd None) h = (r, h')"
  shows "(\<exists>cs. h' = h @ cs \<and> list_all reads cs)
    \<and> (\<forall>pf p. r = Inr (Inr pf) \<and> disruptionCheck env shd pf p = None \<longrightarrow> preflight_passed k env shd h' p)"
proof (cases "k_list_pods k h (ListPods True (s_namespace shd) (pool_selector shd))")
  case (Inl e)
  with assms show ?thesis by (auto simp: observeDisruption_def listDisruptionPods_def reads_def)
next
  case (Inr pods)
  let ?c = "ListPods True (s_namespace shd) (pool_selector shd)"
  obtain t g where t: "run_state (mountedTerminatingPVCs k True (de_now env) shd) (h @ [?c]) = (t, g)"
    by force
  from run_mountedTerminatingPVCs [OF t] obtain cs where g: "g = (h @ [?c]) @ cs" and cs: "list_all reads cs"
    and none: "t = Inr [] \<longrightarrow> no_terminating_claims k g (de_now env) shd" by blast
  have s: "seen (k_list_pods k) g ?c (Inr pods)"
    unfolding g using Inr by (intro seen_mono seen_last)
  from assms Inr t have h': "h' = g"
    and r: "r = (case t of Inl err \<Rightarrow> Inl (CheckTerminating err)
              | Inr terminating \<Rightarrow> Inr (observe_pods env shd pods terminating))"
    by (auto simp: observeDisruption_def listDisruptionPods_def split: sum.splits)
  have "preflight_passed k env shd g p"
    if "r = Inr (Inr pf)" "disruptionCheck env shd pf p = None" for pf p
  proof -
    from that(1) r obtain ts where ts: "t = Inr ts" "observe_pods env shd pods ts = Inr pf"
      by (auto split: sum.splits)
    with observe_pods_terminating [OF ts(2)] none s that(2) show ?thesis
      unfolding preflight_passed_def by blast
  qed
  with h' g cs show ?thesis by (auto simp: reads_def)
qed

lemma run_canStartDisruption:
  assumes "run_state (canStartDisruption k env shd p tr) h = ((tr', r), h')"
  shows "(\<exists>cs. h' = h @ cs \<and> list_all reads cs)
    \<and> (r = Inr True \<longrightarrow> tr' = tr \<and> preflight_passed k env shd h' p)
    \<and> tr_started tr' = tr_started tr"
proof (cases "tr_waiting_for_recovery tr")
  case True
  with assms show ?thesis by (auto simp: canStartDisruption_def)
next
  case False
  obtain ob g where o: "run_state (observeDisruption k env shd None) h = (ob, g)" by force
  from run_observeDisruption [OF o] obtain cs where g: "g = h @ cs" and cs: "list_all reads cs"
    and ok: "\<And>pf. ob = Inr (Inr pf) \<Longrightarrow> disruptionCheck env shd pf p = None \<Longrightarrow> preflight_passed k env shd g p"
    by blast
  consider (err) e where "ob = Inl e" | (wait) w where "ob = Inr (Inl w)" | (pf) pf where "ob = Inr (Inr pf)"
    by (metis obj_sumE)
  then show ?thesis
  proof cases
    case err
    with assms False o g cs show ?thesis by (auto simp: canStartDisruption_def Let_def)
  next
    case wait
    with assms False o g cs show ?thesis
      by (auto simp: canStartDisruption_def Let_def recordDisruptionBlocked_def reads_def split: if_splits)
  next
    case pf
    with assms False o g cs ok show ?thesis
      by (auto simp: canStartDisruption_def Let_def disruptionAllowed_def recordDisruptionBlocked_def
          reads_def split: option.splits)
  qed
qed


definition capacity_seen :: "kube \<Rightarrow> shard \<Rightarrow> history \<Rightarrow> pod \<Rightarrow> bool" where
  "capacity_seen k shd h p \<longleftrightarrow>
     (if requiresTwoCellMaintenanceSurge shd
      then \<exists>poolers. seen (k_list_pods k) h
             (ListPods False (s_namespace shd) (GetSelectorLabels (shardPDBLabels shd))) (Inr poolers)
           \<and> capacity_without shd (str_at (p_labels p) LabelMultigresCell) (p_name p) isAvailablePooler poolers
      else True)"

lemma run_capacity:
  assumes "run_state (hasMaintenanceCapacityForPod k shd (str_at (p_labels p) LabelMultigresCell) (p_name p)) h
             = (r, h')"
  shows "(\<exists>cs. h' = h @ cs \<and> list_all reads cs) \<and> (r = Inr True \<longrightarrow> capacity_seen k shd h' p)"
proof (cases "requiresTwoCellMaintenanceSurge shd")
  case True
  let ?c = "ListPods False (s_namespace shd) (GetSelectorLabels (shardPDBLabels shd))"
  from True assms have h': "h' = h @ [?c]"
    and r: "r = (case k_list_pods k h ?c of Inl err \<Rightarrow> Inl (ListCapacity err)
          | Inr poolers \<Rightarrow> Inr (capacity_without shd (str_at (p_labels p) LabelMultigresCell) (p_name p)
                                  isAvailablePooler poolers))"
    by (simp_all add: hasMaintenanceCapacityForPod_def maintenanceCapacityWithout_def)
  have "capacity_seen k shd h' p" if "r = Inr True"
  proof -
    from that r obtain poolers where "k_list_pods k h ?c = Inr poolers"
      and "capacity_without shd (str_at (p_labels p) LabelMultigresCell) (p_name p) isAvailablePooler poolers"
      by (auto split: sum.splits)
    with True h' show ?thesis by (auto simp: capacity_seen_def intro!: exI [of _ poolers] seen_last)
  qed
  with h' show ?thesis by (auto simp: reads_def)
next
  case False
  with assms show ?thesis
    by (auto simp: hasMaintenanceCapacityForPod_def maintenanceCapacityWithout_def capacity_seen_def)
qed

text \<open>The calls of a computation that are patches of pods.\<close>

definition pod_patches :: "kcall list \<Rightarrow> (pod \<times> pod) list" where
  "pod_patches cs = concat (map (\<lambda>c. case c of PatchPod p q \<Rightarrow> [(p, q)] | _ \<Rightarrow> []) cs)"

lemma pod_patches_simps [simp]:
  "pod_patches [] = []" "pod_patches (PatchPod p q # cs) = (p, q) # pod_patches cs"
  "pod_patches (EmitEvent a b d # cs) = pod_patches cs" "pod_patches (DeletePod p # cs) = pod_patches cs"
  "pod_patches (cs @ ds) = pod_patches cs @ pod_patches ds"
  by (simp_all add: pod_patches_def)

lemma pod_patches_reads [simp]: "list_all reads cs \<Longrightarrow> pod_patches cs = []"
  by (induction cs) (auto simp: pod_patches_def reads_def split: kcall.splits)

lemma guarded_reads: "list_all reads cs \<Longrightarrow> (\<And>h c. reads c \<Longrightarrow> G h c) \<Longrightarrow> guarded G h cs"
  by (induction cs arbitrary: h) auto

lemma acted_simps [simp]:
  "sc_action_taken (acted s) = True" "tr_started (sc_tracker (acted s)) = True"
  "sc_in_progress (acted s) = sc_in_progress s"
  by (simp_all add: acted_def SetStarted_def)

lemma run_drain_extra:
  assumes "run_state (drain_extra k env shd s p) h = ((s', e), h')"
  shows "(\<exists>cs. h' = h @ cs \<and> list_all reads cs \<and> s' = s\<lparr>sc_tracker := sc_tracker s'\<rparr>)
    \<or> (\<exists>cs ds. h' = h @ cs @ PatchPod p (requested (de_format_time env (de_now env)) p) # ds
          \<and> list_all reads cs \<and> list_all reads ds
          \<and> preflight_passed k env shd (h @ cs) p \<and> capacity_seen k shd (h @ cs) p
          \<and> (e = None \<longrightarrow> sc_action_taken s' \<and> tr_started (sc_tracker s')))"
proof -
  obtain tr r g where c: "run_state (canStartDisruption k env shd p (sc_tracker s)) h = ((tr, r), g)"
    by (metis surj_pair)
  from run_canStartDisruption [OF c] obtain cs where g: "g = h @ cs" "list_all reads cs"
    and ok: "r = Inr True \<Longrightarrow> tr = sc_tracker s \<and> preflight_passed k env shd g p" by blast
  show ?thesis
  proof (cases "r = Inr True")
    case False
    have "h' = g \<and> s' = s\<lparr>sc_tracker := tr\<rparr>"
      using assms c False by (cases r) (auto simp: drain_extra_def Let_def)
    with g show ?thesis by auto
  next
    case True
    obtain cap g2 where d: "run_state (hasMaintenanceCapacityForPod k shd
        (str_at (p_labels p) LabelMultigresCell) (p_name p)) g = (cap, g2)" by force
    from run_capacity [OF d] obtain ds where g2: "g2 = g @ ds" "list_all reads ds"
      and ok2: "cap = Inr True \<Longrightarrow> capacity_seen k shd g2 p" by blast
    have pp: "preflight_passed k env shd g2 p"
      using ok True g2 preflight_passed_mono by blast
    show ?thesis
    proof (cases "cap = Inr True")
      case False
      have "h' = g2 \<and> s' = s\<lparr>sc_tracker := tr\<rparr>"
        using assms c d False True by (cases cap) (auto simp: drain_extra_def Let_def)
      with g g2 show ?thesis by auto
    next
      case capTrue: True
      let ?q = "requested (de_format_time env (de_now env)) p"
      have "(h' = g2 @ [PatchPod p ?q] \<and> e \<noteq> None)
          \<or> (h' = g2 @ PatchPod p ?q # [EmitEvent ''Normal'' ''DrainStarted'' (p_name p)]
             \<and> s' = acted (s\<lparr>sc_tracker := tr\<rparr>))"
        using assms c d True capTrue
        by (auto simp: drain_extra_def Let_def run_initiateDrain split: sum.splits)
      moreover have "reads (EmitEvent ''Normal'' ''DrainStarted'' (p_name p))" by (simp add: reads_def)
      ultimately show ?thesis
        using g g2 pp ok2 [OF capTrue]
        by - (rule disjI2, rule exI [of _ "cs @ ds"], auto)
    qed
  qed
qed

text \<open>
  A live, undrained pod is only ever drained when the pool at hand and the whole shard are healthy,
  the pod is the one chosen among all extras of the shard, and the preflight and the capacity check
  passed, each on answers of the server seen before the patch.
\<close>

definition drain_permitted ::
  "kube \<Rightarrow> disruption_env \<Rightarrow> shard \<Rightarrow> (string \<times> pod) list \<Rightarrow> int \<Rightarrow> pod list \<Rightarrow> history \<Rightarrow> pod \<Rightarrow> bool" where
  "drain_permitted k env shd existingPods effectiveReplicas extraPods h p \<longleftrightarrow>
     isPoolHealthy existingPods effectiveReplicas shd
     \<and> p_name p \<in> fst ` set existingPods \<and> drain_state p = []
     \<and> (\<exists>pods. seen (k_list_pods k) h (ListPods True (s_namespace shd) (pool_selector shd)) (Inr pods)
          \<and> shard_healthy shd pods)
     \<and> (\<exists>pods. seen (k_list_pods k) h (ListPods True (s_namespace shd) (pool_selector shd)) (Inr pods)
          \<and> selectPodToDrain shd (scale_down_candidates shd extraPods pods) = Some p)
     \<and> preflight_passed k env shd h p \<and> capacity_seen k shd h p"

lemma start_scale_down_cases:
  fixes shd :: shard
  defines "c \<equiv> ListPods True (s_namespace shd) (pool_selector shd)"
  assumes "run_state (start_scale_down k env shd existingPods eff s extraPods) h = ((s', e), h')"
  shows "(\<exists>cs. h' = h @ cs \<and> list_all reads cs \<and> s' = s)
    \<or> (\<exists>ps qs p. isPoolHealthy existingPods eff shd
          \<and> k_list_pods k h c = Inr ps \<and> shard_healthy shd ps
          \<and> k_list_pods k (h @ [c]) c = Inr qs
          \<and> selectPodToDrain shd (scale_down_candidates shd extraPods qs) = Some p
          \<and> map_of existingPods (p_name p) \<noteq> None \<and> drain_state p = []
          \<and> run_state (drain_extra k env shd s p) (h @ [c, c]) = ((s', e), h'))"
proof -
  note defs = start_scale_down_def isShardHealthy_def selectShardScaleDownPod_def listDisruptionPods_def
  consider (unhealthy) "\<not> isPoolHealthy existingPods eff shd"
    | (err) e1 where "isPoolHealthy existingPods eff shd" "k_list_pods k h c = Inl e1"
    | (sick) ps where "isPoolHealthy existingPods eff shd" "k_list_pods k h c = Inr ps" "\<not> shard_healthy shd ps"
    | (well) ps where "isPoolHealthy existingPods eff shd" "k_list_pods k h c = Inr ps" "shard_healthy shd ps"
    by (metis obj_sumE)
  then show ?thesis
  proof cases
    case well
    show ?thesis
    proof (cases "\<exists>qs p. k_list_pods k (h @ [c]) c = Inr qs
        \<and> selectPodToDrain shd (scale_down_candidates shd extraPods qs) = Some p
        \<and> map_of existingPods (p_name p) \<noteq> None \<and> drain_state p = []")
      case False
      have "h' = h @ [c, c] \<and> s' = s"
        using assms(2) well False unfolding c_def
        by (auto simp: defs split: sum.splits option.splits if_splits)
      then show ?thesis by (simp add: reads_def c_def)
    next
      case True
      with assms(2) well show ?thesis unfolding c_def by (intro disjI2) (auto simp: defs)
    qed
  qed (use assms(2) in \<open>auto simp: defs reads_def c_def\<close>)
qed

lemma run_start_scale_down:
  assumes "run_state (start_scale_down k env shd existingPods eff s extraPods) h = ((s', e), h')"
  shows "(\<exists>cs. h' = h @ cs \<and> list_all reads cs \<and> s' = s\<lparr>sc_tracker := sc_tracker s'\<rparr>)
    \<or> (\<exists>p cs ds. h' = h @ cs @ PatchPod p (requested (de_format_time env (de_now env)) p) # ds
          \<and> list_all reads cs \<and> list_all reads ds
          \<and> drain_permitted k env shd existingPods eff extraPods (h @ cs) p
          \<and> (e = None \<longrightarrow> sc_action_taken s' \<and> tr_started (sc_tracker s')))"
    (is "?quiet \<or> ?drains")
  using start_scale_down_cases [OF assms]
proof (elim disjE exE conjE)
  let ?c = "ListPods True (s_namespace shd) (pool_selector shd)"
  fix ps qs p
  assume healthy: "isPoolHealthy existingPods eff shd"
    and ps: "k_list_pods k h ?c = Inr ps" "shard_healthy shd ps"
    and qs: "k_list_pods k (h @ [?c]) ?c = Inr qs"
      "selectPodToDrain shd (scale_down_candidates shd extraPods qs) = Some p"
    and p: "map_of existingPods (p_name p) \<noteq> None" "drain_state p = []"
    and run: "run_state (drain_extra k env shd s p) (h @ [?c, ?c]) = ((s', e), h')"
  have n: "p_name p \<in> fst ` set existingPods"
    using p(1) by (auto dest: map_of_SomeD intro: rev_image_eqI)
  have "seen (k_list_pods k) ((h @ [?c]) @ ?c # cs) ?c (Inr ps)" for cs
    using ps(1) by (intro seen_mono seen_last)
  moreover have "seen (k_list_pods k) (((h @ [?c]) @ [?c]) @ cs) ?c (Inr qs)" for cs
    using qs(1) by (intro seen_mono seen_last)
  ultimately have perm: "drain_permitted k env shd existingPods eff extraPods (h @ ?c # ?c # cs) p"
    if "preflight_passed k env shd (h @ ?c # ?c # cs) p" "capacity_seen k shd (h @ ?c # ?c # cs) p" for cs
    unfolding drain_permitted_def using healthy n p(2) ps(2) qs(2) that
    by (metis (no_types, lifting) append.assoc append_Cons append_Nil)
  have rc: "list_all reads cs \<Longrightarrow> list_all reads (?c # ?c # cs)" for cs by (simp add: reads_def)
  from run_drain_extra [OF run] show ?thesis
  proof (elim disjE exE conjE)
    fix cs assume "h' = (h @ [?c, ?c]) @ cs" "list_all reads cs" "s' = s\<lparr>sc_tracker := sc_tracker s'\<rparr>"
    with rc [of cs] have ?quiet by (intro exI [of _ "?c # ?c # cs"]) simp
    then show ?thesis by blast
  next
    fix cs ds
    assume "h' = (h @ [?c, ?c]) @ cs @ PatchPod p (requested (de_format_time env (de_now env)) p) # ds"
      and "list_all reads cs" "list_all reads ds" and "preflight_passed k env shd ((h @ [?c, ?c]) @ cs) p"
      and "capacity_seen k shd ((h @ [?c, ?c]) @ cs) p"
      and "e = None \<longrightarrow> sc_action_taken s' \<and> tr_started (sc_tracker s')"
    with rc [of cs] perm [of cs] have ?drains
      by (intro exI [of _ p] exI [of _ "?c # ?c # cs"] exI [of _ ds]) simp
    then show ?thesis by blast
  qed
qed auto

text \<open>An extra pod that somebody else is deleting: it is drained without a preflight.\<close>

definition deleted_extra :: "int \<Rightarrow> pod \<Rightarrow> bool" where
  "deleted_extra effectiveReplicas p \<longleftrightarrow>
     is_extra effectiveReplicas p \<and> \<not> is_zero_ptr (p_deletion p) \<and> drain_state p = []
     \<and> has_true PodScheduled p"

lemma external_deletions_acted:
  "sc_action_taken s \<Longrightarrow> run_state (external_deletions k env s ps) h = ((s, None), h)"
  by (induction ps) simp_all

lemma run_external_deletions:
  assumes "run_state (external_deletions k env s ps) h = ((s', e), h')"
    and "list_all (is_extra eff) ps"
  shows "(h' = h \<and> (s' = s \<and> e = None \<or> s' = acted s) \<and> (sc_action_taken s \<or> HasStarted (sc_tracker s) \<longrightarrow> s' = s))
    \<or> (\<not> sc_action_taken s \<and> \<not> HasStarted (sc_tracker s)
       \<and> (\<exists>p\<in>set ps. deleted_extra eff p \<and> (e \<noteq> None \<or> s' = acted s)
          \<and> (\<exists>ds. h' = h @ PatchPod p (requested (de_format_time env (de_now env)) p) # ds
               \<and> list_all reads ds)))"
  using assms
proof (induction ps)
  case (Cons p ps)
  show ?case
  proof (cases "\<not> is_zero_ptr (p_deletion p) \<and> drain_state p = [] \<and> \<not> sc_action_taken s \<and> \<not> HasStarted (sc_tracker s)")
    case False
    with Cons show ?thesis by auto
  next
    case True
    have nop: "run_state (external_deletions k env (acted s) ps) g = ((acted s, None), g)" for g
      by (simp add: external_deletions_acted)
    show ?thesis
    proof (cases "has_true PodScheduled p")
      case False
      with Cons.prems True nop show ?thesis by (simp add: handleExternalDeletion_def)
    next
      case sched: True
      let ?q = "requested (de_format_time env (de_now env)) p"
      have "h' = h @ PatchPod p ?q # [] \<and> e \<noteq> None
        \<or> h' = h @ PatchPod p ?q # [EmitEvent ''Warning'' ''ExternalDeletion'' (p_name p)] \<and> s' = acted s"
        using Cons.prems(1) True sched nop
        by (auto simp: handleExternalDeletion_def run_initiateDrain split: sum.splits)
      moreover have "reads (EmitEvent ''Warning'' ''ExternalDeletion'' (p_name p))" by (simp add: reads_def)
      moreover have "deleted_extra eff p" using True sched Cons.prems(2) by (simp add: deleted_extra_def)
      ultimately have "\<exists>p\<in>set (p # ps). deleted_extra eff p \<and> (e \<noteq> None \<or> s' = acted s)
          \<and> (\<exists>ds. h' = h @ PatchPod p (requested (de_format_time env (de_now env)) p) # ds
               \<and> list_all reads ds)"
        by (intro bexI [of _ p]) auto
      with True show ?thesis by blast
    qed
  qed
qed simp

subsection \<open>What the removal of drained pods may call\<close>

definition claims_settled :: "kube \<Rightarrow> history \<Rightarrow> pod \<Rightarrow> bool" where
  "claims_settled k h p \<longleftrightarrow>
     (\<forall>c\<in>set (pod_claims p).
        seen (k_get_pvc k) h (GetPvc True (p_namespace p) c) (Inl NotFound)
        \<or> (\<exists>v. seen (k_get_pvc k) h (GetPvc True (p_namespace p) c) (Inr v) \<and> is_zero_ptr (v_deletion v)))"

definition released :: "kube \<Rightarrow> disruption_env \<Rightarrow> shard \<Rightarrow> string \<Rightarrow> pool_spec \<Rightarrow> int \<Rightarrow> history \<Rightarrow> pod
    \<Rightarrow> pvc \<Rightarrow> pvc \<Rightarrow> bool" where
  "released k env shd poolName poolSpec replicas h p v w \<longleftrightarrow>
     scaled_policy (MergePVCDeletionPolicy (ps_pvc_deletion_policy poolSpec) (s_pvc_deletion_policy shd))
       = DeletePVCRetentionPolicy
     \<and> w = orphaned (de_format_stamp env (de_now env)) (s_uid shd) v
     \<and> (\<exists>idx. resolvePodIndex (p_name p) = Some idx \<and> replicas \<le> idx
          \<and> seen (k_get_pvc k) h
              (GetPvc False (p_namespace p)
                 (BuildPoolDataPVCName shd poolName (str_at (p_labels p) LabelMultigresCell) idx)) (Inr v))"

definition removal_guard ::
  "kube \<Rightarrow> disruption_env \<Rightarrow> shard \<Rightarrow> string \<Rightarrow> pool_spec \<Rightarrow> int \<Rightarrow> pod list \<Rightarrow> history \<Rightarrow> kcall \<Rightarrow> bool" where
  "removal_guard k env shd poolName poolSpec replicas ps h c =
     (case c of
        DeletePod p \<Rightarrow> p \<in> set ps \<and> claims_settled k h p
      | PatchPvc locked v w \<Rightarrow> \<exists>p\<in>set ps. released k env shd poolName poolSpec replicas h p v w
      | _ \<Rightarrow> reads c)"

lemma removal_guard_reads: "reads c \<Longrightarrow> removal_guard k env shd poolName poolSpec replicas ps h c"
  by (auto simp: removal_guard_def reads_def split: kcall.splits)

lemma removal_guard_mono:
  "removal_guard k env shd poolName poolSpec replicas ps h c \<Longrightarrow> set ps \<subseteq> set qs \<Longrightarrow>
   removal_guard k env shd poolName poolSpec replicas qs h c"
  by (auto simp: removal_guard_def split: kcall.splits)

lemma guarded_mono: "guarded G h cs \<Longrightarrow> (\<And>h c. G h c \<Longrightarrow> G' h c) \<Longrightarrow> guarded G' h cs"
  by (induction cs arbitrary: h) auto

lemma run_terminating_claim_loop:
  assumes names: "\<And>h c v. k_get_pvc k h (GetPvc True ns c) = Inr v \<Longrightarrow> v_name v = c"
  shows "run_state (terminating_claim_loop k ns cs) h = (r, h') \<Longrightarrow> [] \<notin> set cs \<Longrightarrow>
    (\<exists>ds. h' = h @ ds \<and> list_all reads ds)
    \<and> (r = Inr [] \<longrightarrow> (\<forall>c\<in>set cs. seen (k_get_pvc k) h' (GetPvc True ns c) (Inl NotFound)
         \<or> (\<exists>v. seen (k_get_pvc k) h' (GetPvc True ns c) (Inr v) \<and> is_zero_ptr (v_deletion v))))"
proof (induction cs arbitrary: h)
  case (Cons c cs)
  let ?g = "GetPvc True ns c"
  have rg: "reads ?g" by (simp add: reads_def)
  show ?case
  proof (cases "k_get_pvc k h ?g = Inl NotFound \<or> (\<exists>v. k_get_pvc k h ?g = Inr v \<and> is_zero_ptr (v_deletion v))")
    case False
    with Cons.prems have "h' = h @ [?g] \<and> r \<noteq> Inr []"
      using names [of h c] by (cases "k_get_pvc k h ?g") (auto simp: IsTerminating_def split: if_splits)
    with rg show ?thesis by simp
  next
    case True
    then have rest: "run_state (terminating_claim_loop k ns cs) (h @ [?g]) = (r, h')"
      using Cons.prems(1) by (auto simp: IsTerminating_def)
    with Cons obtain ds where ds: "h' = (h @ [?g]) @ ds" "list_all reads ds"
      and ok: "r = Inr [] \<Longrightarrow> \<forall>c\<in>set cs. seen (k_get_pvc k) h' (GetPvc True ns c) (Inl NotFound)
         \<or> (\<exists>v. seen (k_get_pvc k) h' (GetPvc True ns c) (Inr v) \<and> is_zero_ptr (v_deletion v))" by force
    from True have "seen (k_get_pvc k) h' ?g (Inl NotFound)
         \<or> (\<exists>v. seen (k_get_pvc k) h' ?g (Inr v) \<and> is_zero_ptr (v_deletion v))"
      unfolding ds(1) by (metis seen_last seen_mono)
    with ok ds rg show ?thesis by auto
  qed
qed simp

lemma run_cleanupPodPVC:
  assumes "run_state (cleanupPodPVC k env shd p poolName) h = (e, h')"
    and "resolvePodIndex (p_name p) = Some idx" and "replicas \<le> idx"
    and "scaled_policy (MergePVCDeletionPolicy (ps_pvc_deletion_policy poolSpec) (s_pvc_deletion_policy shd))
           = DeletePVCRetentionPolicy"
  shows "\<exists>cs. h' = h @ cs \<and> guarded (removal_guard k env shd poolName poolSpec replicas [p]) h cs"
proof -
  let ?g = "GetPvc False (p_namespace p)
     (BuildPoolDataPVCName shd poolName (str_at (p_labels p) LabelMultigresCell) idx)"
  have rg: "removal_guard k env shd poolName poolSpec replicas [p] g ?g" for g
    by (intro removal_guard_reads) (simp add: reads_def)
  show ?thesis
  proof (cases "k_get_pvc k h ?g")
    case (Inl err)
    with assms(1,2) rg show ?thesis by (auto simp: cleanupPodPVC_def Let_def)
  next
    case (Inr v)
    let ?w = "orphaned (de_format_stamp env (de_now env)) (s_uid shd) v"
    have "released k env shd poolName poolSpec replicas (h @ [?g]) p v ?w"
      using assms Inr by (auto simp: released_def intro: seen_last)
    then have "removal_guard k env shd poolName poolSpec replicas [p] (h @ [?g]) (PatchPvc False v ?w)"
      by (simp add: removal_guard_def)
    moreover have "h' = h @ [?g] \<or> h' = h @ [?g, PatchPvc False v ?w]"
      using assms(1,2) Inr
      by (auto simp: cleanupPodPVC_def MarkOrphan_def Let_def split: if_splits sum.splits)
    ultimately show ?thesis using rg by auto
  qed
qed

lemma run_releaseDrainedPodPVC:
  assumes "run_state (releaseDrainedPodPVC k env shd p poolName poolSpec replicas) h = (e, h')"
  shows "\<exists>cs. h' = h @ cs \<and> guarded (removal_guard k env shd poolName poolSpec replicas [p]) h cs"
  using assms
  by (auto simp: releaseDrainedPodPVC_def split: if_splits option.splits
      intro: run_cleanupPodPVC)


lemma run_cleanupDrainedPod:
  assumes "run_state (cleanupDrainedPod k env shd p poolName poolSpec replicas) h = (e, h')"
  shows "\<exists>cs. h' = h @ cs \<and> guarded (removal_guard k env shd poolName poolSpec replicas [p]) h cs"
proof -
  obtain e1 g where r: "run_state (releaseDrainedPodPVC k env shd p poolName poolSpec replicas) h = (e1, g)"
    by force
  from run_releaseDrainedPodPVC [OF r] obtain cs where g: "g = h @ cs"
    and cs: "guarded (removal_guard k env shd poolName poolSpec replicas [p]) h cs" by blast
  have ev: "removal_guard k env shd poolName poolSpec replicas [p] x (EmitEvent a b c)" for x a b c
    by (intro removal_guard_reads) (simp add: reads_def)
  have "h' = g \<or> h' = g @ [EmitEvent ''Normal'' ''DrainCompleted'' (p_name p)]"
    using assms r by (auto simp: cleanupDrainedPod_def split: option.splits)
  with g cs ev show ?thesis by auto
qed

definition names_kept :: "kube \<Rightarrow> bool" where
  "names_kept k \<longleftrightarrow> (\<forall>h live ns c v. k_get_pvc k h (GetPvc live ns c) = Inr v \<longrightarrow> v_name v = c)"

lemma run_podTerminatingClaim:
  assumes "names_kept k" and "[] \<notin> set (pod_claims p)"
    and "run_state (podTerminatingClaim k p) h = (r, h')"
  shows "(\<exists>cs. h' = h @ cs \<and> list_all reads cs) \<and> (r = Inr [] \<longrightarrow> claims_settled k h' p)"
  using run_terminating_claim_loop [of k "p_namespace p" "pod_claims p" h r h'] assms
  by (simp add: names_kept_def podTerminatingClaim_def claims_settled_def)

lemma claims_settled_mono: "claims_settled k h p \<Longrightarrow> claims_settled k (h @ cs) p"
  unfolding claims_settled_def using seen_mono by metis

text \<open>One pod of the loop: what it calls, and where the loop goes on.\<close>

lemma delete_drained_step:
  assumes names: "names_kept k" "[] \<notin> set (pod_claims p)"
    and run: "run_state (delete_drained k env shd poolName poolSpec replicas s (p # ps)) h = ((s', e), h')"
  shows "\<exists>cs. guarded (removal_guard k env shd poolName poolSpec replicas [p]) h cs
    \<and> (h' = h @ cs \<and> s' = s
       \<or> (\<exists>t. (t = acted s \<or> t = s\<lparr>sc_in_progress := True\<rparr>)
            \<and> run_state (delete_drained k env shd poolName poolSpec replicas t ps) (h @ cs) = ((s', e), h')))"
proof -
  let ?G = "removal_guard k env shd poolName poolSpec replicas [p]"
  obtain r g where c: "run_state (podTerminatingClaim k p) h = (r, g)" by force
  from run_podTerminatingClaim [OF names c] obtain cs where g: "g = h @ cs" and "list_all reads cs"
    and ok: "r = Inr [] \<Longrightarrow> claims_settled k g p" by blast
  then have cs: "guarded ?G h cs" by (intro guarded_reads removal_guard_reads)
  consider (err) x where "r = Inl x" | (held) claim where "r = Inr claim" "claim \<noteq> []" | (free) "r = Inr []"
    by (metis obj_sumE)
  then show ?thesis
  proof cases
    case err
    with run c g cs show ?thesis by auto
  next
    case held
    obtain e1 g1 where rel: "run_state (releaseDrainedPodPVC k env shd p poolName poolSpec replicas) g = (e1, g1)"
      by force
    from run_releaseDrainedPodPVC [OF rel] obtain ds where "g1 = g @ ds" "guarded ?G g ds" by blast
    with run c held rel g cs show ?thesis
      by (cases e1) (auto intro!: exI [of _ "cs @ ds"])
  next
    case free
    obtain e1 g1 where cl: "run_state (cleanupDrainedPod k env shd p poolName poolSpec replicas) g = (e1, g1)"
      by force
    from run_cleanupDrainedPod [OF cl] obtain ds where g1: "g1 = g @ ds" and ds: "guarded ?G g ds" by blast
    show ?thesis
    proof (cases e1)
      case (Some x)
      with run c free cl g g1 cs ds show ?thesis by (auto intro!: exI [of _ "cs @ ds"])
    next
      case None
      have "?G g1 (DeletePod p)"
        using ok [OF free] claims_settled_mono g1 by (simp add: removal_guard_def)
      then have all: "guarded ?G h (cs @ ds @ [DeletePod p])" using g g1 cs ds by simp
      have "h' = g1 @ [DeletePod p] \<and> s' = s
        \<or> run_state (delete_drained k env shd poolName poolSpec replicas (acted s) ps) (g1 @ [DeletePod p])
            = ((s', e), h')"
        using run c free cl None by (auto split: option.splits if_splits)
      with all g g1 show ?thesis by (intro exI [of _ "cs @ ds @ [DeletePod p]"]) auto
    qed
  qed
qed

lemma run_delete_drained:
  assumes "names_kept k"
  shows "run_state (delete_drained k env shd poolName poolSpec replicas s ps) h = ((s', e), h') \<Longrightarrow>
    \<forall>p\<in>set ps. [] \<notin> set (pod_claims p) \<Longrightarrow>
    \<exists>cs. h' = h @ cs \<and> guarded (removal_guard k env shd poolName poolSpec replicas ps) h cs
      \<and> (sc_action_taken s \<longrightarrow> sc_action_taken s') \<and> (sc_in_progress s \<longrightarrow> sc_in_progress s')
      \<and> (HasStarted (sc_tracker s) \<longrightarrow> HasStarted (sc_tracker s'))"
proof (induction ps arbitrary: s h)
  case (Cons p ps)
  let ?G = "removal_guard k env shd poolName poolSpec replicas"
  from delete_drained_step [OF assms _ Cons.prems(1)] Cons.prems(2) obtain cs where
      cs: "guarded (?G [p]) h cs"
    and c: "h' = h @ cs \<and> s' = s
       \<or> (\<exists>t. (t = acted s \<or> t = s\<lparr>sc_in_progress := True\<rparr>)
            \<and> run_state (delete_drained k env shd poolName poolSpec replicas t ps) (h @ cs) = ((s', e), h'))"
    by auto
  have cs': "guarded (?G (p # ps)) h cs"
    by (rule guarded_mono [OF cs]) (auto intro: removal_guard_mono)
  from c show ?case
  proof
    assume "\<exists>t. (t = acted s \<or> t = s\<lparr>sc_in_progress := True\<rparr>)
       \<and> run_state (delete_drained k env shd poolName poolSpec replicas t ps) (h @ cs) = ((s', e), h')"
    then obtain t where t: "t = acted s \<or> t = s\<lparr>sc_in_progress := True\<rparr>"
      and run: "run_state (delete_drained k env shd poolName poolSpec replicas t ps) (h @ cs) = ((s', e), h')"
      by blast
    from Cons.IH [OF run] Cons.prems(2) obtain ds where ds: "h' = (h @ cs) @ ds" "guarded (?G ps) (h @ cs) ds"
      and m: "sc_action_taken t \<longrightarrow> sc_action_taken s'" "sc_in_progress t \<longrightarrow> sc_in_progress s'"
        "HasStarted (sc_tracker t) \<longrightarrow> HasStarted (sc_tracker s')"
      by auto
    have "guarded (?G (p # ps)) (h @ cs) ds"
      by (rule guarded_mono [OF ds(2)]) (auto intro: removal_guard_mono)
    with cs' ds(1) m t show ?case by (intro exI [of _ "cs @ ds"]) (auto simp: HasStarted_def)
  qed (use cs' in auto)
qed simp

lemma removal_no_patches:
  "guarded (removal_guard k env shd poolName poolSpec replicas ps) h cs \<Longrightarrow> pod_patches cs = []"
proof (induction cs arbitrary: h)
  case (Cons c cs)
  then have "pod_patches [c] = []"
    by (cases c) (simp_all add: removal_guard_def reads_def pod_patches_def)
  with Cons show ?case using pod_patches_simps(5) [of "[c]" cs] by auto
qed simp

subsection \<open>What a scale-down may call, altogether\<close>


lemma run_external_deletions_quiet:
  assumes "run_state (external_deletions k env s ps) h = ((s', None), h')"
    and "list_all (is_extra eff) ps" and "\<not> sc_action_taken s'"
  shows "h' = h \<and> s' = s"
  using run_external_deletions [OF assms(1,2)] assms(3) by auto

text \<open>
  The history of one call in its three phases: at most one drain, in the first or the last of them, and
  only when nothing was done or started before.
\<close>

definition extras_of :: "(string \<times> pod) list \<Rightarrow> int \<Rightarrow> pod list" where
  "extras_of existingPods eff =
     filter (is_extra eff) (filter (\<lambda>p. \<not> ready_for_deletion p) (in_name_order existingPods))"

definition drained_of :: "(string \<times> pod) list \<Rightarrow> pod list" where
  "drained_of existingPods = filter ready_for_deletion (in_name_order existingPods)"

definition undisturbed :: "(string \<times> pod) list \<Rightarrow> bool" where
  "undisturbed existingPods \<longleftrightarrow> (\<forall>p\<in>snd ` set existingPods. is_busy p \<longrightarrow> ready_for_deletion p)"

definition scale_trace ::
  "kube \<Rightarrow> disruption_env \<Rightarrow> shard \<Rightarrow> string \<Rightarrow> pool_spec \<Rightarrow> (string \<times> pod) list \<Rightarrow> int \<Rightarrow> int \<Rightarrow> bool
     \<Rightarrow> history \<Rightarrow> history \<Rightarrow> bool" where
  "scale_trace k env shd poolName poolSpec existingPods replicas eff idle h h' \<longleftrightarrow>
     (let stamp = de_format_time env (de_now env); extras = extras_of existingPods eff in
      \<exists>as bs cs. h' = h @ as @ bs @ cs
        \<and> guarded (removal_guard k env shd poolName poolSpec replicas (drained_of existingPods)) (h @ as) bs
        \<and> (as = [] \<and> list_all reads cs
           \<or> idle \<and> cs = [] \<and> (\<exists>p\<in>set extras. deleted_extra eff p
                \<and> (\<exists>ds. as = PatchPod p (requested stamp p) # ds \<and> list_all reads ds))
           \<or> idle \<and> as = [] \<and> undisturbed existingPods
              \<and> (\<exists>p xs ys. cs = xs @ PatchPod p (requested stamp p) # ys
                    \<and> list_all reads xs \<and> list_all reads ys
                    \<and> drain_permitted k env shd existingPods eff extras (h @ bs @ xs) p)))"

lemma set_in_name_order: "set (in_name_order existingPods) = snd ` set existingPods"
  by (simp add: in_name_order_def)

lemma scale_trace_without_start:
  assumes first: "g = h \<or> idle \<and> (\<exists>p\<in>set (extras_of existingPods eff). deleted_extra eff p
      \<and> (\<exists>ds. g = h @ PatchPod p (requested (de_format_time env (de_now env)) p) # ds \<and> list_all reads ds))"
    and bs: "guarded (removal_guard k env shd poolName poolSpec replicas (drained_of existingPods)) g bs"
  shows "scale_trace k env shd poolName poolSpec existingPods replicas eff idle h (g @ bs)"
  using first
proof (elim disjE conjE bexE exE)
  assume "g = h"
  with bs show ?thesis
    unfolding scale_trace_def Let_def by (intro exI [of _ "[]"] exI [of _ bs]) simp
next
  fix p ds
  assume "idle" "p \<in> set (extras_of existingPods eff)" "deleted_extra eff p" "list_all reads ds"
    "g = h @ PatchPod p (requested (de_format_time env (de_now env)) p) # ds"
  with bs show ?thesis
    unfolding scale_trace_def Let_def
    by (intro exI [of _ "PatchPod p (requested (de_format_time env (de_now env)) p) # ds"]
        exI [of _ bs] exI [of _ "[]"]) auto
qed

lemma scale_trace_with_start:
  assumes bs: "guarded (removal_guard k env shd poolName poolSpec replicas (drained_of existingPods)) h bs"
    and run: "run_state (start_scale_down k env shd existingPods eff s (extras_of existingPods eff)) (h @ bs)
           = ((s', e), h')"
    and idle: "idle" "undisturbed existingPods"
  shows "scale_trace k env shd poolName poolSpec existingPods replicas eff idle h h'"
  using run_start_scale_down [OF run]
proof (elim disjE conjE exE)
  fix cs assume "h' = (h @ bs) @ cs" "list_all reads cs"
  with bs show ?thesis
    unfolding scale_trace_def Let_def by (intro exI [of _ "[]"] exI [of _ bs] exI [of _ cs]) simp
next
  fix p xs ys
  assume "h' = (h @ bs) @ xs @ PatchPod p (requested (de_format_time env (de_now env)) p) # ys"
    "list_all reads xs" "list_all reads ys"
    "drain_permitted k env shd existingPods eff (extras_of existingPods eff) ((h @ bs) @ xs) p"
  with bs idle show ?thesis
    unfolding scale_trace_def Let_def
    by (intro exI [of _ "[]"] exI [of _ bs]
        exI [of _ "xs @ PatchPod p (requested (de_format_time env (de_now env)) p) # ys"]) auto
qed

lemma handleScaleDown_trace:
  assumes run: "run_state (handleScaleDown k env shd poolName poolSpec existingPods replicas eff acted0 tracker) h
      = ((s', e), h')"
    and names: "names_kept k" "\<forall>p\<in>snd ` set existingPods. [] \<notin> set (pod_claims p)"
  shows "scale_trace k env shd poolName poolSpec existingPods replicas eff
           (\<not> acted0 \<and> \<not> HasStarted tracker) h h'"
proof -
  define s0 where "s0 = \<lparr>sc_tracker = tracker, sc_action_taken = acted0,
    sc_in_progress = list_ex is_busy (filter (\<lambda>p. \<not> ready_for_deletion p) (in_name_order existingPods))\<rparr>"
  define extras where "extras = extras_of existingPods eff"
  have ex: "list_all (is_extra eff) extras" by (simp add: extras_def extras_of_def list_all_iff)
  have dr: "\<forall>p\<in>set (drained_of existingPods). [] \<notin> set (pod_claims p)"
    using names(2) by (auto simp: drained_of_def set_in_name_order)
  obtain s1 e1 g1 where r1: "run_state (external_deletions k env s0 extras) h = ((s1, e1), g1)"
    by (metis surj_pair)
  obtain s2 e2 g2 where
      r2: "run_state (delete_drained k env shd poolName poolSpec replicas s1 (drained_of existingPods)) g1
             = ((s2, e2), g2)"
    by (metis surj_pair)
  from run_delete_drained [OF names(1) r2 dr] obtain bs where g2: "g2 = g1 @ bs"
    and bs: "guarded (removal_guard k env shd poolName poolSpec replicas (drained_of existingPods)) g1 bs"
    and m: "sc_action_taken s1 \<longrightarrow> sc_action_taken s2" "sc_in_progress s1 \<longrightarrow> sc_in_progress s2"
      "HasStarted (sc_tracker s1) \<longrightarrow> HasStarted (sc_tracker s2)" by blast
  have first: "g1 = h \<or> (\<not> acted0 \<and> \<not> HasStarted tracker) \<and> (\<exists>p\<in>set extras. deleted_extra eff p
      \<and> (\<exists>ds. g1 = h @ PatchPod p (requested (de_format_time env (de_now env)) p) # ds \<and> list_all reads ds))"
    using run_external_deletions [OF r1 ex] by (auto simp: s0_def)
  note trace = scale_trace_without_start [OF first [unfolded extras_def]]
  have whole: "run_state (handleScaleDown k env shd poolName poolSpec existingPods replicas eff acted0 tracker) h
    = (if e1 \<noteq> None then ((s1, e1), g1) else if e2 \<noteq> None then ((s2, e2), g2)
       else if \<not> sc_action_taken s2 \<and> \<not> sc_in_progress s2 \<and> \<not> HasStarted (sc_tracker s2) \<and> extras \<noteq> []
       then run_state (start_scale_down k env shd existingPods eff s2 extras) g2 else ((s2, None), g2))"
    using r1 r2
    by (simp add: handleScaleDown_def Let_def extras_def extras_of_def drained_of_def s0_def split: option.splits)
  show ?thesis
  proof (cases "e1 = None \<and> e2 = None \<and> \<not> sc_action_taken s2 \<and> \<not> sc_in_progress s2
      \<and> \<not> HasStarted (sc_tracker s2) \<and> extras \<noteq> []")
    case False
    then have "h' = g1 @ [] \<or> h' = g1 @ bs" using run whole g2 by (auto split: if_splits)
    with trace [OF bs] trace [of k shd poolName poolSpec replicas "[]"] show ?thesis by auto
  next
    case True
    then have q: "g1 = h" "s1 = s0"
      using run_external_deletions_quiet [of k env s0 extras h s1 g1 eff] r1 ex m(1) by auto
    have "run_state (start_scale_down k env shd existingPods eff s2 extras) (h @ bs) = ((s', e), h')"
      using run whole True q g2 by simp
    moreover have "\<not> acted0 \<and> \<not> HasStarted tracker" "undisturbed existingPods"
      using True m q by (auto simp: s0_def undisturbed_def list_ex_iff set_in_name_order)
    ultimately show ?thesis
      using bs unfolding extras_def q(1) by (metis (no_types, lifting) scale_trace_with_start)
  qed
qed

definition scale_guard ::
  "kube \<Rightarrow> disruption_env \<Rightarrow> shard \<Rightarrow> string \<Rightarrow> pool_spec \<Rightarrow> (string \<times> pod) list \<Rightarrow> int \<Rightarrow> int \<Rightarrow> bool
     \<Rightarrow> history \<Rightarrow> kcall \<Rightarrow> bool" where
  "scale_guard k env shd poolName poolSpec existingPods replicas eff idle h c =
     (case c of
        PatchPod p q \<Rightarrow> idle \<and> q = requested (de_format_time env (de_now env)) p
          \<and> (p \<in> set (extras_of existingPods eff) \<and> deleted_extra eff p
             \<or> undisturbed existingPods
               \<and> drain_permitted k env shd existingPods eff (extras_of existingPods eff) h p)
      | _ \<Rightarrow> removal_guard k env shd poolName poolSpec replicas (drained_of existingPods) h c)"

lemma scale_guard_weaken:
  "removal_guard k env shd poolName poolSpec replicas (drained_of existingPods) h c \<Longrightarrow>
   scale_guard k env shd poolName poolSpec existingPods replicas eff idle h c"
  by (cases c) (simp_all add: scale_guard_def removal_guard_def reads_def)

lemma scale_trace_guarded:
  assumes "scale_trace k env shd poolName poolSpec existingPods replicas eff idle h h'"
  shows "\<exists>cs. h' = h @ cs \<and> guarded (scale_guard k env shd poolName poolSpec existingPods replicas eff idle) h cs
    \<and> length (pod_patches cs) \<le> (if idle then 1 else 0)"
proof -
  let ?G = "scale_guard k env shd poolName poolSpec existingPods replicas eff idle"
  have r: "list_all reads xs \<Longrightarrow> guarded ?G g xs" for g xs
    by (intro guarded_reads scale_guard_weaken removal_guard_reads)
  have w: "guarded (removal_guard k env shd poolName poolSpec replicas (drained_of existingPods)) g xs
      \<Longrightarrow> guarded ?G g xs" for g xs
    by (erule guarded_mono) (rule scale_guard_weaken)
  from assms obtain as bs cs where h': "h' = h @ as @ bs @ cs"
    and bs: "guarded (removal_guard k env shd poolName poolSpec replicas (drained_of existingPods)) (h @ as) bs"
    and c: "as = [] \<and> list_all reads cs
       \<or> idle \<and> cs = [] \<and> (\<exists>p\<in>set (extras_of existingPods eff). deleted_extra eff p
            \<and> (\<exists>ds. as = PatchPod p (requested (de_format_time env (de_now env)) p) # ds \<and> list_all reads ds))
       \<or> idle \<and> as = [] \<and> undisturbed existingPods
          \<and> (\<exists>p xs ys. cs = xs @ PatchPod p (requested (de_format_time env (de_now env)) p) # ys
                \<and> list_all reads xs \<and> list_all reads ys
                \<and> drain_permitted k env shd existingPods eff (extras_of existingPods eff) (h @ bs @ xs) p)"
    unfolding scale_trace_def Let_def by blast
  have "guarded ?G h (as @ bs @ cs) \<and> length (pod_patches (as @ bs @ cs)) \<le> (if idle then 1 else 0)"
    using c w [OF bs] r removal_no_patches [OF bs]
    by (auto simp: scale_guard_def)
  with h' show ?thesis by blast
qed

lemma handleScaleDown_guarded:
  assumes "run_state (handleScaleDown k env shd poolName poolSpec existingPods replicas eff acted0 tracker) h
      = ((s', e), h @ cs)"
    and "names_kept k" "\<forall>p\<in>snd ` set existingPods. [] \<notin> set (pod_claims p)"
  shows "guarded (scale_guard k env shd poolName poolSpec existingPods replicas eff
           (\<not> acted0 \<and> \<not> HasStarted tracker)) h cs
    \<and> length (pod_patches cs) \<le> (if \<not> acted0 \<and> \<not> HasStarted tracker then 1 else 0)"
  using scale_trace_guarded [OF handleScaleDown_trace [OF assms]] by auto

text \<open>
  C5: \<^verbatim>\<open>handleScaleDown\<close> asks a pod that nobody is deleting to drain only when no action was taken and no
  disruption was started in this pass, no pod of the pool is draining or terminating, the pool and (on
  a live listing) the whole shard are healthy, the pod is the one chosen among the extras of the shard,
  the disruption preflight on a live listing found no busy pod, no terminating claim and let it pass,
  and the maintenance capacity is there without it.
\<close>

theorem handleScaleDown_drain_guarded:
  assumes "run_state (handleScaleDown k env shd poolName poolSpec existingPods replicas eff acted0 tracker) h
      = ((s', e), h @ before @ PatchPod p q # after)"
    and "names_kept k" and "\<forall>p\<in>snd ` set existingPods. [] \<notin> set (pod_claims p)"
    and "is_zero_ptr (p_deletion p)"
  shows "\<not> acted0 \<and> \<not> HasStarted tracker \<and> undisturbed existingPods
    \<and> q = requested (de_format_time env (de_now env)) p
    \<and> drain_permitted k env shd existingPods eff (extras_of existingPods eff) (h @ before) p"
  using handleScaleDown_guarded [OF assms(1-3)] assms(4)
  by (auto simp: scale_guard_def deleted_extra_def)

text \<open>
  C11: \<^verbatim>\<open>handleScaleDown\<close>, given a server that answers a read of a claim with a claim of that name and pods that
  mount no claim with an empty name, deletes only pods of the pool whose drain is complete, and only after reading
  each claim they mount past the cache and finding it gone or not being deleted. Other parts of the operator delete
  pods under rules of their own: failed pods that are recreated, quarantined pods, the pods of a deleted shard.
\<close>

theorem handleScaleDown_deletes_drained:
  assumes "run_state (handleScaleDown k env shd poolName poolSpec existingPods replicas eff acted0 tracker) h
      = ((s', e), h @ before @ DeletePod p # after)"
    and "names_kept k" and "\<forall>p\<in>snd ` set existingPods. [] \<notin> set (pod_claims p)"
  shows "p \<in> snd ` set existingPods \<and> drain_state p = DrainStateReadyForDeletion
    \<and> claims_settled k (h @ before) p"
  using handleScaleDown_guarded [OF assms]
  by (auto simp: scale_guard_def removal_guard_def drained_of_def set_in_name_order ready_for_deletion_def)

text \<open>
  \<^verbatim>\<open>handleScaleDown\<close> never deletes or creates a claim, and the only change it makes to one is to mark it
  orphaned and drop the shard's owner reference: the data claim of a drained pod whose index is past
  the wanted replicas, when the merged retention policy for scaling says Delete.
\<close>

theorem handleScaleDown_releases:
  assumes "run_state (handleScaleDown k env shd poolName poolSpec existingPods replicas eff acted0 tracker) h
      = ((s', e), h @ before @ c # after)"
    and "names_kept k" and "\<forall>p\<in>snd ` set existingPods. [] \<notin> set (pod_claims p)"
  shows "case c of
      CreatePvc v \<Rightarrow> False
    | DeletePvc rv v \<Rightarrow> False
    | PatchPvc locked v w \<Rightarrow>
        \<exists>p\<in>snd ` set existingPods. drain_state p = DrainStateReadyForDeletion
          \<and> released k env shd poolName poolSpec replicas (h @ before) p v w
    | _ \<Rightarrow> True"
  using handleScaleDown_guarded [OF assms]
  by (auto simp: scale_guard_def removal_guard_def drained_of_def set_in_name_order
      ready_for_deletion_def reads_def split: kcall.splits)

subsection \<open>A sample pool\<close>

definition drained_pod :: pod where
  "drained_pod = (scale_pod 2)\<lparr>p_annotations := [AnnotationDrainState \<mapsto> DrainStateReadyForDeletion]\<rparr>"

definition scale_shard :: shard where
  "scale_shard = sample_shard\<lparr>s_pools := [(''main'', sample_pool\<lparr>ps_replicas_per_cell := Some 2\<rparr>)]\<rparr>"

definition scale_pvc :: "string \<Rightarrow> pvc" where
  "scale_pvc n = \<lparr>v_name = n, v_namespace = ''ns'', v_resource_version = ''1'', v_labels = Map.empty,
     v_owners = [''s1''], v_deletion = None, v_request = None, v_bound = True, v_class = None, v_modes = [], v_conditions = []\<rparr>"

definition scale_kube :: "pod list \<Rightarrow> kube" where
  "scale_kube pods = echo_kube\<lparr>k_list_pods := \<lambda>h c. Inr pods,
     k_get_pvc := \<lambda>h c. case c of GetPvc live ns n \<Rightarrow> Inr (scale_pvc n) | _ \<Rightarrow> Inl NotFound\<rparr>"

definition scale_env :: disruption_env where
  "scale_env = \<lparr>de_clients = Some (Some (\<lambda>p. case mp_id p of
         Some (PoolerId c z n) \<Rightarrow> Inr (sample_response n) | None \<Rightarrow> Inl ''no id'')),
     de_store = Some (\<lambda>c. Inr [(sample_pooler ''a'')\<lparr>mp_hostname := ''p-0''\<rparr>,
        (sample_pooler ''b'')\<lparr>mp_hostname := ''p-1''\<rparr>, (sample_pooler ''c'')\<lparr>mp_hostname := ''p-2''\<rparr>]),
     de_lib = sample_lib 2, de_now = 1000, de_grace = 0, de_format_time = (\<lambda>t. ''now''),
     de_format_stamp = (\<lambda>t. ''stamp''), de_refusal_text = (\<lambda>e. ''refused'')\<rparr>"

definition fresh_tracker :: shardRolloutTracker where
  "fresh_tracker = \<lparr>tr_started = False, tr_waiting_for_recovery = False, tr_surge_started_cells = [],
     tr_blocked = [], tr_blocked_again = False, tr_unready_decided = False, tr_unready_pending = False,
     tr_unready_deferred = False\<rparr>"

definition scale_run :: "pod list \<Rightarrow> (scale_state \<times> scale_error option) \<times> history" where
  "scale_run pods = run_state (handleScaleDown (scale_kube pods) scale_env scale_shard ''main'' sample_pool
     (keyed pods) 2 2 False fresh_tracker) []"

lemma scale_sample_names:
  "names_kept (scale_kube pods)"
  "\<forall>p\<in>snd ` set (keyed [scale_pod 0, scale_pod 1, scale_pod 2]). [] \<notin> set (pod_claims p)"
  "\<forall>p\<in>snd ` set (keyed [scale_pod 0, scale_pod 1, drained_pod]). [] \<notin> set (pod_claims p)"
proof -
  show "names_kept (scale_kube pods)" by (simp add: names_kept_def scale_kube_def scale_pvc_def)
qed (simp_all add: keyed_def pod_claims_def scale_pod_def drained_pod_def)

lemma split_call: "list_ex P cs \<Longrightarrow> \<exists>before c after. cs = before @ c # after \<and> P c"
  by (metis list_ex_iff split_list)

lemma scale_run_drains:
  fixes ps defines "ps \<equiv> [scale_pod 0, scale_pod 1, scale_pod 2]"
  shows "\<exists>before p q after. is_zero_ptr (p_deletion p)
    \<and> run_state (handleScaleDown (scale_kube ps) scale_env scale_shard ''main'' sample_pool
        (keyed ps) 2 2 False fresh_tracker) []
        = ((fst (fst (scale_run ps)), snd (fst (scale_run ps))), [] @ before @ PatchPod p q # after)"
proof -
  have "list_ex (\<lambda>c. case c of PatchPod p q \<Rightarrow> is_zero_ptr (p_deletion p) | _ \<Rightarrow> False) (snd (scale_run ps))"
    unfolding ps_def by code_simp
  from split_call [OF this] obtain before x after where "snd (scale_run ps) = before @ x # after"
      "case x of PatchPod p q \<Rightarrow> is_zero_ptr (p_deletion p) | _ \<Rightarrow> False" by blast
  then obtain p q where c: "snd (scale_run ps) = before @ PatchPod p q # after"
      and p: "is_zero_ptr (p_deletion p)" by (cases x) auto
  then have "scale_run ps
      = ((fst (fst (scale_run ps)), snd (fst (scale_run ps))), [] @ before @ PatchPod p q # after)"
    by (metis append_Nil prod.collapse)
  with p show ?thesis unfolding scale_run_def by blast
qed

theorem handleScaleDown_drain_guarded_witness:
  "\<exists>before p. preflight_passed (scale_kube [scale_pod 0, scale_pod 1, scale_pod 2]) scale_env scale_shard before p"
proof -
  let ?ps = "[scale_pod 0, scale_pod 1, scale_pod 2]"
  from scale_run_drains obtain before p q after where
      run: "run_state (handleScaleDown (scale_kube ?ps) scale_env scale_shard ''main'' sample_pool
        (keyed ?ps) 2 2 False fresh_tracker) []
        = ((fst (fst (scale_run ?ps)), snd (fst (scale_run ?ps))), [] @ before @ PatchPod p q # after)"
    and p: "is_zero_ptr (p_deletion p)" by blast
  have "drain_permitted (scale_kube ?ps) scale_env scale_shard (keyed ?ps) 2 (extras_of (keyed ?ps) 2) ([] @ before) p"
    using handleScaleDown_drain_guarded [OF run scale_sample_names(1,2) p] by blast
  then show ?thesis by (auto simp: drain_permitted_def)
qed

theorem handleScaleDown_deletes_drained_witness:
  "\<exists>before after. snd (scale_run [scale_pod 0, scale_pod 1, drained_pod]) = before @ DeletePod drained_pod # after
     \<and> claims_settled (scale_kube [scale_pod 0, scale_pod 1, drained_pod]) before drained_pod"
proof -
  let ?ps = "[scale_pod 0, scale_pod 1, drained_pod]"
  have "list_ex (\<lambda>c. case c of DeletePod p \<Rightarrow> True | _ \<Rightarrow> False) (snd (scale_run ?ps))" by code_simp
  from split_call [OF this] obtain before x after where "snd (scale_run ?ps) = before @ x # after"
      "case x of DeletePod p \<Rightarrow> True | _ \<Rightarrow> False" by blast
  then obtain p where c: "snd (scale_run ?ps) = before @ DeletePod p # after" by (cases x) auto
  then have run: "scale_run ?ps
      = ((fst (fst (scale_run ?ps)), snd (fst (scale_run ?ps))), [] @ before @ DeletePod p # after)"
    by (metis append_Nil prod.collapse)
  note d = handleScaleDown_deletes_drained [OF run [unfolded scale_run_def] scale_sample_names(1,3)]
  have "drain_state (scale_pod 0) \<noteq> DrainStateReadyForDeletion" "drain_state (scale_pod 1) \<noteq> DrainStateReadyForDeletion"
    by code_simp+
  with d have "p = drained_pod" by (auto simp: keyed_def)
  with c d show ?thesis by auto
qed

theorem handleScaleDown_releases_witness:
  "\<exists>before after locked v w. snd (scale_run [scale_pod 0, scale_pod 1, drained_pod]) = before @ PatchPvc locked v w # after
     \<and> w = orphaned ''stamp'' ''s1'' v"
proof -
  let ?ps = "[scale_pod 0, scale_pod 1, drained_pod]"
  have "list_ex (\<lambda>c. case c of PatchPvc a v w \<Rightarrow> True | _ \<Rightarrow> False) (snd (scale_run ?ps))" by code_simp
  from split_call [OF this] obtain before x after where "snd (scale_run ?ps) = before @ x # after"
      "case x of PatchPvc a v w \<Rightarrow> True | _ \<Rightarrow> False" by blast
  then obtain a v w where c: "snd (scale_run ?ps) = before @ PatchPvc a v w # after" by (cases x) auto
  then have run: "scale_run ?ps
      = ((fst (fst (scale_run ?ps)), snd (fst (scale_run ?ps))), [] @ before @ PatchPvc a v w # after)"
    by (metis append_Nil prod.collapse)
  have "w = orphaned ''stamp'' ''s1'' v"
    using handleScaleDown_releases [OF run [unfolded scale_run_def] scale_sample_names(1,3)]
    by (auto simp: released_def scale_env_def scale_shard_def sample_shard_def)
  with c show ?thesis by blast
qed

end
