(* ===== verification/Quarantine.thy ===== *)
theory Quarantine
  imports Scale_Down Backup_Health
begin

text \<open>
  Quarantine remediation, \<^verbatim>\<open>shard/reconcile_quarantine.go\<close>: the only place where the operator deletes a data
  claim whose pod is wanted. The pods come from the cached listing, the quarantined ones from topology,
  the claims being deleted from uncached reads.
\<close>

definition quarantineRemediationMinPodAge :: duration where
  "quarantineRemediationMinPodAge = 3 * minute"

datatype quarantine_error =
    ListForQuarantine api_error | CheckMountedClaims list_error
  | DeleteQuarantinedPod string api_error | FetchDataPVC string string api_error
  | DeleteDataPVC string string api_error

text \<open>The second half of \<^verbatim>\<open>wipeQuarantinedPod\<close>, after the pod is gone.\<close>

definition wipe_claim :: "kube \<Rightarrow> string \<Rightarrow> string \<Rightarrow> string \<Rightarrow> quarantine_error option kio" where
  "wipe_claim k namespace podName pvcName = do {
     r \<leftarrow> ask (k_get_pvc k) (GetPvc False namespace pvcName);
     case r of
       Inl err \<Rightarrow> State_Monad.return (if err = NotFound then None else Some (FetchDataPVC pvcName podName err))
     | Inr v \<Rightarrow> do {
         d \<leftarrow> ask (k_write k) (DeletePvc None v);
         State_Monad.return (case d of
            None \<Rightarrow> None
          | Some err \<Rightarrow> if err = NotFound then None else Some (DeleteDataPVC pvcName podName err))
       }
   }"

definition wipeQuarantinedPod :: "kube \<Rightarrow> shard \<Rightarrow> pod \<Rightarrow> quarantine_error option kio" where
  "wipeQuarantinedPod k shd p =
     (case resolvePodIndex (p_name p) of
        None \<Rightarrow> State_Monad.return None
      | Some idx \<Rightarrow>
          let poolName = str_at (p_labels p) LabelMultigresPool;
              cellName = str_at (p_labels p) LabelMultigresCell;
              pvcName = BuildPoolDataPVCName shd poolName cellName idx
          in do {
            emit (EmitEvent ''Warning'' ''QuarantineRemediation'' (p_name p));
            d \<leftarrow> ask (k_write k) (DeletePod p);
            case d of
              None \<Rightarrow> wipe_claim k (p_namespace p) (p_name p) pvcName
            | Some err \<Rightarrow>
                if err = NotFound then wipe_claim k (p_namespace p) (p_name p) pvcName
                else State_Monad.return (Some (DeleteQuarantinedPod (p_name p) err))
          })"

text \<open>The loop over the quarantined pods in name order; it ends with the first one replaced.\<close>

fun remediate ::
  "kube \<Rightarrow> gotime \<Rightarrow> shard \<Rightarrow> (string \<times> pod) list \<Rightarrow> string list \<Rightarrow> QuarantinedPod list
     \<Rightarrow> (quarantine_error + bool) kio" where
  "remediate k now shd pods quarantinedSet [] = State_Monad.return (Inr False)"
| "remediate k now shd pods quarantinedSet (q # qs) =
     (case map_of pods (qp_pod_name q) of
        None \<Rightarrow> remediate k now shd pods quarantinedSet qs
      | Some p \<Rightarrow>
          if \<not> is_zero_ptr (p_deletion p) then remediate k now shd pods quarantinedSet qs
          else if map_of (s_pod_roles shd) (qp_pod_name q) = Some ''PRIMARY''
          then remediate k now shd pods quarantinedSet qs
          else if now - p_creation p < quarantineRemediationMinPodAge
          then remediate k now shd pods quarantinedSet qs
          else if \<not> poolHealthyExcluding pods p quarantinedSet
          then do {
            emit (EmitEvent ''Warning'' ''QuarantineRemediationDeferred'' (qp_pod_name q));
            remediate k now shd pods quarantinedSet qs
          }
          else do {
            e \<leftarrow> wipeQuarantinedPod k shd p;
            State_Monad.return (case e of Some err \<Rightarrow> Inl err | None \<Rightarrow> Inr True)
          })"

definition reconcileQuarantineRemediation ::
  "kube \<Rightarrow> pooler_query \<Rightarrow> gotime \<Rightarrow> shard \<Rightarrow> (quarantine_error + bool) kio" where
  "reconcileQuarantineRemediation k getPoolers now shd = do {
     r \<leftarrow> ask (k_list_pods k) (ListPods False (s_namespace shd) (shardSelector shd));
     case r of
       Inl err \<Rightarrow> State_Monad.return (Inl (ListForQuarantine err))
     | Inr podList \<Rightarrow>
         (case GetQuarantinedPods getPoolers shd (map p_name podList) of
            Inl err \<Rightarrow> State_Monad.return (Inr False)
          | Inr quarantined \<Rightarrow>
              if quarantined = [] then State_Monad.return (Inr False)
              else if \<not> IsConditionTrue (s_conditions shd) ConditionHealthy
              then do {
                emit (EmitEvent ''Warning'' ''QuarantineRemediationBlocked'' (s_name shd));
                State_Monad.return (Inr False)
              }
              else do {
                t \<leftarrow> mountedTerminatingPVCs k True now shd;
                case t of
                  Inl err \<Rightarrow> State_Monad.return (Inl (CheckMountedClaims err))
                | Inr terminating \<Rightarrow>
                    if terminating \<noteq> [] then State_Monad.return (Inr False)
                    else remediate k now shd (foldl (\<lambda>m p. upd (p_name p) p m) [] podList)
                           (map qp_pod_name quarantined) quarantined
              })
   }"

subsection \<open>What remediation may delete\<close>

definition wipe_permitted :: "gotime \<Rightarrow> shard \<Rightarrow> (string \<times> pod) list \<Rightarrow> string list \<Rightarrow> pod \<Rightarrow> bool" where
  "wipe_permitted now shd pods quarantinedSet p \<longleftrightarrow>
     (\<exists>name\<in>set quarantinedSet. map_of pods name = Some p \<and> map_of (s_pod_roles shd) name \<noteq> Some ''PRIMARY'')
     \<and> is_zero_ptr (p_deletion p) \<and> quarantineRemediationMinPodAge \<le> now - p_creation p
     \<and> poolHealthyExcluding pods p quarantinedSet"

text \<open>The calls that replace one pod: its deletion, the read of its data claim and the deletion of that.\<close>

definition wipe_calls :: "kube \<Rightarrow> shard \<Rightarrow> history \<Rightarrow> pod \<Rightarrow> kcall list \<Rightarrow> bool" where
  "wipe_calls k shd h p cs \<longleftrightarrow>
     (\<exists>idx ds. resolvePodIndex (p_name p) = Some idx
        \<and> cs = EmitEvent ''Warning'' ''QuarantineRemediation'' (p_name p) # DeletePod p # ds
        \<and> (let get = GetPvc False (p_namespace p)
                 (BuildPoolDataPVCName shd (str_at (p_labels p) LabelMultigresPool)
                    (str_at (p_labels p) LabelMultigresCell) idx);
               h2 = h @ [EmitEvent ''Warning'' ''QuarantineRemediation'' (p_name p), DeletePod p]
           in ds = [] \<or> ds = [get]
              \<or> (\<exists>v. k_get_pvc k h2 get = Inr v \<and> ds = [get, DeletePvc None v])))"

lemma run_wipe_claim:
  "snd (run_state (wipe_claim k ns podName pvcName) h) =
     h @ GetPvc False ns pvcName #
       (case k_get_pvc k h (GetPvc False ns pvcName) of Inl e \<Rightarrow> [] | Inr v \<Rightarrow> [DeletePvc None v])"
  by (simp add: wipe_claim_def split: sum.split)

lemma run_wipeQuarantinedPod:
  assumes "run_state (wipeQuarantinedPod k shd p) h = (e, h')"
  shows "h' = h \<or> (\<exists>cs. h' = h @ cs \<and> wipe_calls k shd h p cs)"
proof (cases "resolvePodIndex (p_name p)")
  case None
  with assms show ?thesis by (simp add: wipeQuarantinedPod_def)
next
  case (Some idx)
  let ?a = "EmitEvent ''Warning'' ''QuarantineRemediation'' (p_name p)"
  let ?n = "BuildPoolDataPVCName shd (str_at (p_labels p) LabelMultigresPool)
       (str_at (p_labels p) LabelMultigresCell) idx"
  let ?g = "GetPvc False (p_namespace p) ?n"
  let ?w = "wipe_claim k (p_namespace p) (p_name p) ?n"
  have "h' = h @ [?a, DeletePod p] \<or> h' = snd (run_state ?w (h @ [?a, DeletePod p]))"
    using assms Some
    by (auto simp: wipeQuarantinedPod_def Let_def split: option.splits if_splits)
  then have "h' = h @ [?a, DeletePod p]
      \<or> h' = h @ [?a, DeletePod p, ?g]
      \<or> (\<exists>v. k_get_pvc k (h @ [?a, DeletePod p]) ?g = Inr v
           \<and> h' = h @ [?a, DeletePod p, ?g, DeletePvc None v])"
    unfolding run_wipe_claim by (auto split: sum.splits)
  with Some show ?thesis unfolding wipe_calls_def Let_def by auto
qed

lemma run_remediate:
  assumes "run_state (remediate k now shd pods names qs) h = (r, h')"
    and "set (map qp_pod_name qs) \<subseteq> set names"
  shows "\<exists>xs. list_all reads xs \<and> (h' = h @ xs
    \<or> (\<exists>p cs. h' = h @ xs @ cs \<and> wipe_permitted now shd pods names p \<and> wipe_calls k shd (h @ xs) p cs))"
  using assms
proof (induction qs arbitrary: h)
  case Nil
  then show ?case by (intro exI [of _ "[]"]) auto
next
  case (Cons q qs)
  have sub: "set (map qp_pod_name qs) \<subseteq> set names" and q: "qp_pod_name q \<in> set names"
    using Cons.prems(2) by auto
  consider (skip) "run_state (remediate k now shd pods names qs) h = (r, h')"
    | (deferred) "run_state (remediate k now shd pods names qs)
        (h @ [EmitEvent ''Warning'' ''QuarantineRemediationDeferred'' (qp_pod_name q)]) = (r, h')"
    | (wipe) p e where "run_state (wipeQuarantinedPod k shd p) h = (e, h')"
        "wipe_permitted now shd pods names p"
    using Cons.prems(1) q
    by (auto simp: wipe_permitted_def not_less split: option.splits if_splits prod.splits)
  then show ?case
  proof cases
    case skip
    from Cons.IH [OF skip sub] show ?thesis .
  next
    case deferred
    let ?e = "EmitEvent ''Warning'' ''QuarantineRemediationDeferred'' (qp_pod_name q)"
    from Cons.IH [OF deferred sub] obtain xs where xs: "list_all reads xs"
      and c: "h' = (h @ [?e]) @ xs \<or> (\<exists>p cs. h' = (h @ [?e]) @ xs @ cs
        \<and> wipe_permitted now shd pods names p \<and> wipe_calls k shd ((h @ [?e]) @ xs) p cs)" by blast
    with xs show ?thesis by (intro exI [of _ "?e # xs"]) simp
  next
    case wipe
    from run_wipeQuarantinedPod [OF wipe(1)] wipe(2) show ?thesis
      by (intro exI [of _ "[]"]) auto
  qed
qed

text \<open>
  C8: quarantine remediation deletes only with a way back. If \<^verbatim>\<open>reconcileQuarantineRemediation\<close> calls anything
  but reads and events, the shard's backups are recorded healthy, no claim mounted by the shard's pods
  was seen being deleted, and the rest is the replacement of a single pod that topology reports as
  quarantined, that is not the recorded primary, not being deleted, at least three minutes old and in an
  otherwise healthy pool: the deletion of that pod, then of the data claim of its own slot, in this order.
\<close>

theorem reconcileQuarantineRemediation_wipes_one:
  assumes "run_state (reconcileQuarantineRemediation k getPoolers now shd) h = (r, h')"
  shows "\<exists>xs. list_all reads xs \<and> (h' = h @ xs
    \<or> (\<exists>podList quarantined p cs. h' = h @ xs @ cs
        \<and> IsConditionTrue (s_conditions shd) ConditionHealthy
        \<and> no_terminating_claims k (h @ xs) now shd
        \<and> seen (k_list_pods k) (h @ xs) (ListPods False (s_namespace shd) (shardSelector shd)) (Inr podList)
        \<and> GetQuarantinedPods getPoolers shd (map p_name podList) = Inr quarantined
        \<and> wipe_permitted now shd (foldl (\<lambda>m p. upd (p_name p) p m) [] podList)
             (map qp_pod_name quarantined) p
        \<and> wipe_calls k shd (h @ xs) p cs))"
proof -
  let ?c = "ListPods False (s_namespace shd) (shardSelector shd)"
  have rc: "reads ?c" by (simp add: reads_def)
  consider (quiet) xs where "h' = h @ [?c] @ xs" "list_all reads xs"
    | (check) podList quarantined where "k_list_pods k h ?c = Inr podList"
        "GetQuarantinedPods getPoolers shd (map p_name podList) = Inr quarantined" "quarantined \<noteq> []"
        "IsConditionTrue (s_conditions shd) ConditionHealthy"
    using assms
    by (auto simp: reconcileQuarantineRemediation_def reads_def split: sum.splits if_splits)
  then show ?thesis
  proof cases
    case quiet
    with rc show ?thesis by (intro exI [of _ "?c # xs"]) simp
  next
    case check
    obtain t g where t: "run_state (mountedTerminatingPVCs k True now shd) (h @ [?c]) = (t, g)" by force
    from run_mountedTerminatingPVCs [OF t] obtain xs where g: "g = (h @ [?c]) @ xs" and xs: "list_all reads xs"
      and none: "t = Inr [] \<Longrightarrow> no_terminating_claims k g now shd" by blast
    let ?pods = "foldl (\<lambda>m p. upd (p_name p) p m) [] podList"
    show ?thesis
    proof (cases "t = Inr []")
      case False
      with assms check t have "h' = g"
        by (auto simp: reconcileQuarantineRemediation_def split: sum.splits if_splits)
      with g xs rc show ?thesis by (intro exI [of _ "?c # xs"]) simp
    next
      case True
      with assms check t have "run_state (remediate k now shd ?pods (map qp_pod_name quarantined) quarantined) g
          = (r, h')"
        by (simp add: reconcileQuarantineRemediation_def)
      from run_remediate [OF this] obtain ys where ys: "list_all reads ys" and c: "h' = g @ ys
        \<or> (\<exists>p cs. h' = g @ ys @ cs \<and> wipe_permitted now shd ?pods (map qp_pod_name quarantined) p
             \<and> wipe_calls k shd (g @ ys) p cs)" by auto
      have all: "list_all reads (?c # xs @ ys)" using rc xs ys by simp
      have hist: "g @ ys = h @ ?c # xs @ ys" using g by simp
      have sn: "seen (k_list_pods k) ((h @ [?c]) @ xs @ ys) ?c (Inr podList)"
        using check(1) by (intro seen_mono seen_last)
      have nt: "no_terminating_claims k (g @ ys) now shd"
        using none [OF True] by (rule no_terminating_claims_mono)
      from c show ?thesis
      proof
        assume "h' = g @ ys"
        with all hist show ?thesis by (intro exI [of _ "?c # xs @ ys"]) simp
      next
        assume "\<exists>p cs. h' = g @ ys @ cs \<and> wipe_permitted now shd ?pods (map qp_pod_name quarantined) p
             \<and> wipe_calls k shd (g @ ys) p cs"
        then obtain p cs where "h' = (g @ ys) @ cs" "wipe_permitted now shd ?pods (map qp_pod_name quarantined) p"
          "wipe_calls k shd (g @ ys) p cs" by auto
        with all hist sn nt check(2,4) show ?thesis
          by (intro exI [of _ "?c # xs @ ys"] conjI disjI2 exI [of _ podList] exI [of _ quarantined]
              exI [of _ p] exI [of _ cs]) simp_all
      qed
    qed
  qed
qed

lemma reconcileQuarantineRemediation_unhealthy:
  assumes "run_state (reconcileQuarantineRemediation k getPoolers now shd) h = (r, h @ cs)"
    and "\<not> IsConditionTrue (s_conditions shd) ConditionHealthy"
  shows "list_all reads cs"
  using assms by (auto simp: reconcileQuarantineRemediation_def split: sum.splits if_splits)

subsection \<open>A sample remediation\<close>

definition sick_pooler :: pooler where
  "sick_pooler = (sample_pooler ''c'')\<lparr>mp_hostname := ''p-2'',
     mp_lifecycle := Some \<lparr>lc_status = LIFECYCLE_QUARANTINED, lc_reason = ''diverged'', lc_updated = 0\<rparr>\<rparr>"

definition backed_up :: shard where
  "backed_up = sample_shard\<lparr>s_conditions := [\<lparr>c_type = ConditionHealthy, c_status = ConditionTrue,
     c_observed_generation = 1, c_last_transition = 0, c_reason = [], c_message = []\<rparr>]\<rparr>"

definition quarantine_run :: "shard \<Rightarrow> (quarantine_error + bool) \<times> history" where
  "quarantine_run shd = run_state (reconcileQuarantineRemediation
     (scale_kube [scale_pod 0, scale_pod 1, scale_pod 2]) (\<lambda>c. Inr [sick_pooler]) (10 * minute) shd) []"

theorem reconcileQuarantineRemediation_wipes_one_witness:
  "\<exists>xs p cs. snd (quarantine_run backed_up) = xs @ cs \<and> list_all reads xs
     \<and> wipe_calls (scale_kube [scale_pod 0, scale_pod 1, scale_pod 2]) backed_up xs p cs"
proof -
  have "\<not> list_all reads (snd (quarantine_run backed_up))" by code_simp
  with reconcileQuarantineRemediation_wipes_one
    [of "scale_kube [scale_pod 0, scale_pod 1, scale_pod 2]" "\<lambda>c. Inr [sick_pooler]" "10 * minute" backed_up "[]"
      "fst (quarantine_run backed_up)" "snd (quarantine_run backed_up)"]
  show ?thesis unfolding quarantine_run_def by auto
qed

end
