(* ===== verification/Pool_Storage.thy ===== *)
theory Pool_Storage
  imports Scale_Down
begin

text \<open>
  The claims of a shard: the builders of \<^verbatim>\<open>shard/pool_pvc.go\<close>, the retention predicates of
  \<^verbatim>\<open>shard/shard_controller.go\<close>, the expansion of existing claims (\<^verbatim>\<open>shard/reconcile_pool_pods.go\<close>) and the report
  of storage changes that cannot be applied (\<^verbatim>\<open>shard/storage_spec_ignored.go\<close>).

  Parameters for code outside the repository: the parser of quantities (an integer number of bytes, or
  an error), and the library function that sets a controller reference. The template of a pool pod
  (\<^verbatim>\<open>BuildPoolPod\<close>), the hash of its spec and the headless service of a pool (of which only the name is
  kept) are parameters as well; only what the reconciler does with them is modelled here.
\<close>

type_synonym quantity_parser = "string \<Rightarrow> string + int"

record pool_builder =
  bl_parse_quantity :: quantity_parser
  bl_set_owner :: "shard \<Rightarrow> pvc \<Rightarrow> string + pvc"
  bl_build_pod :: "shard \<Rightarrow> string \<Rightarrow> string \<Rightarrow> pool_spec \<Rightarrow> int \<Rightarrow> string + pod"
  bl_spec_hash :: "pod \<Rightarrow> string"
  bl_build_service :: "shard \<Rightarrow> string \<Rightarrow> string \<Rightarrow> pool_spec \<Rightarrow> string + string"

definition desired_hash :: "pool_builder \<Rightarrow> pod_hash" where
  "desired_hash bl shd poolName cellName poolSpec index =
     (case bl_build_pod bl shd poolName cellName poolSpec index of
        Inl err \<Rightarrow> None
      | Inr p \<Rightarrow> Some (bl_spec_hash bl p))"

datatype storage_error =
    InvalidStorageSize string string | SetOwnerFailed string string
  | GetStorageClassFailed string api_error | ExpandFailed string api_error

subsection \<open>Building claims\<close>

abbreviation DefaultDataVolumeSize :: string where "DefaultDataVolumeSize \<equiv> ''1Gi''"
abbreviation ReadWriteOnce :: string where "ReadWriteOnce \<equiv> ''ReadWriteOnce''"
abbreviation BackupTypeFilesystem :: string where "BackupTypeFilesystem \<equiv> ''filesystem''"
abbreviation BackupTypeS3 :: string where "BackupTypeS3 \<equiv> ''s3''"

definition ShouldDeletePVCOnShardRemoval :: "shard \<Rightarrow> pool_spec \<Rightarrow> bool" where
  "ShouldDeletePVCOnShardRemoval shd poolSpec =
     (case MergePVCDeletionPolicy (ps_pvc_deletion_policy poolSpec) (s_pvc_deletion_policy shd) of
        None \<Rightarrow> False
      | Some policy \<Rightarrow> WhenDeleted policy = DeletePVCRetentionPolicy)"

definition ShouldDeleteShardLevelPVCOnRemoval :: "shard \<Rightarrow> bool" where
  "ShouldDeleteShardLevelPVCOnRemoval shd =
     (case s_pvc_deletion_policy shd of
        None \<Rightarrow> False
      | Some p \<Rightarrow> WhenDeleted p = DeletePVCRetentionPolicy)"

definition poolStorageRequest :: "quantity_parser \<Rightarrow> pool_spec \<Rightarrow> storage_error + int" where
  "poolStorageRequest parse poolSpec =
     (let size = (if st_size (ps_storage poolSpec) \<noteq> [] then st_size (ps_storage poolSpec)
                  else DefaultDataVolumeSize)
      in case parse size of
           Inl err \<Rightarrow> Inl (InvalidStorageSize size err)
         | Inr qty \<Rightarrow> Inr qty)"

definition new_pvc :: "string \<Rightarrow> string \<Rightarrow> labels \<Rightarrow> int \<Rightarrow> string option \<Rightarrow> string list \<Rightarrow> pvc" where
  "new_pvc name namespace ls request storageClass accessModes =
     \<lparr>v_name = name, v_namespace = namespace, v_resource_version = [], v_labels = ls, v_owners = [],
      v_deletion = None, v_request = Some request, v_bound = False, v_class = storageClass,
      v_modes = accessModes, v_conditions = []\<rparr>"

definition non_empty :: "string \<Rightarrow> string option" where
  "non_empty s = (if s \<noteq> [] then Some s else None)"

definition modes_or_default :: "string list \<Rightarrow> string list" where
  "modes_or_default modes = (if modes \<noteq> [] then modes else [ReadWriteOnce])"

definition own_if :: "pool_builder \<Rightarrow> bool \<Rightarrow> shard \<Rightarrow> pvc \<Rightarrow> storage_error + pvc" where
  "own_if bl deleteOnShardRemoval shd v =
     (if deleteOnShardRemoval
      then (case bl_set_owner bl shd v of
              Inl err \<Rightarrow> Inl (SetOwnerFailed (v_name v) err)
            | Inr w \<Rightarrow> Inr w)
      else Inr v)"

definition BuildPoolDataPVC ::
  "pool_builder \<Rightarrow> shard \<Rightarrow> string \<Rightarrow> string \<Rightarrow> pool_spec \<Rightarrow> int \<Rightarrow> bool \<Rightarrow> storage_error + pvc" where
  "BuildPoolDataPVC bl shd poolName cellName poolSpec index deleteOnShardRemoval =
     (let pvcName = BuildPoolDataPVCName shd poolName cellName index;
          ls = AddClusterLabel (buildPoolLabelsWithCell shd poolName cellName)
                 (str_at (s_labels shd) LabelMultigresCluster)
      in case poolStorageRequest (bl_parse_quantity bl) poolSpec of
           Inl err \<Rightarrow> Inl err
         | Inr storageSize \<Rightarrow>
             own_if bl deleteOnShardRemoval shd
               (new_pvc pvcName (s_namespace shd) ls storageSize
                  (non_empty (st_class (ps_storage poolSpec)))
                  (modes_or_default (st_access_modes (ps_storage poolSpec)))))"

definition backup_storage :: "shard \<Rightarrow> storage_spec" where
  "backup_storage shd =
     (let none = \<lparr>st_size = [], st_class = [], st_access_modes = []\<rparr>
      in case s_backup shd of
           None \<Rightarrow> none
         | Some b \<Rightarrow> if bk_type b = BackupTypeFilesystem
                      then (case bk_filesystem b of None \<Rightarrow> none | Some st \<Rightarrow> st) else none)"

definition BuildSharedBackupPVC :: "pool_builder \<Rightarrow> shard \<Rightarrow> bool \<Rightarrow> storage_error + pvc" where
  "BuildSharedBackupPVC bl shd deleteOnShardRemoval =
     (let clusterName = str_at (s_labels shd) LabelMultigresCluster;
          ls = BuildStandardLabels clusterName PoolComponentName;
          ls = AddClusterLabel ls clusterName;
          ls = AddDatabaseLabel ls (s_database_name shd);
          ls = AddTableGroupLabel ls (s_table_group_name shd);
          ls = AddShardLabel ls (s_shard_name shd);
          st = backup_storage shd;
          storageSize = (if st_size st \<noteq> [] then st_size st else ''10Gi'')
      in case bl_parse_quantity bl storageSize of
           Inl err \<Rightarrow> Inl (InvalidStorageSize storageSize err)
         | Inr qty \<Rightarrow>
             own_if bl deleteOnShardRemoval shd
               (new_pvc (BuildSharedBackupPVCName shd) (s_namespace shd) ls qty
                  (non_empty (st_class st)) (modes_or_default (st_access_modes st))))"

subsection \<open>Expanding claims\<close>

abbreviation reasonShrink :: string where "reasonShrink \<equiv> ''a PVC cannot shrink''"
abbreviation reasonUnbound :: string where "reasonUnbound \<equiv> ''only a bound PVC can be expanded''"
abbreviation reasonNoClass :: string where
  "reasonNoClass \<equiv> ''the PVC has no StorageClass, so it cannot be expanded''"

definition current_request :: "pvc \<Rightarrow> int" where
  "current_request v = (case v_request v of None \<Rightarrow> 0 | Some q \<Rightarrow> q)"

text \<open>\<^verbatim>\<open>%q\<close> of a class name is the name in double quotes; class names hold no characters to escape.\<close>

definition quoted :: "string \<Rightarrow> string" where
  "quoted s = [CHR 0x22] @ s @ [CHR 0x22]"

definition storageRequestFor :: "kube \<Rightarrow> pvc \<Rightarrow> int \<Rightarrow> (storage_error + (int \<times> string)) kio" where
  "storageRequestFor k v want =
     (let current = current_request v;
          className = (case v_class v of None \<Rightarrow> [] | Some c \<Rightarrow> c)
      in if want = current then State_Monad.return (Inr (want, []))
         else if want < current then State_Monad.return (Inr (current, reasonShrink))
         else if \<not> v_bound v then State_Monad.return (Inr (current, reasonUnbound))
         else if className = [] then State_Monad.return (Inr (current, reasonNoClass))
         else do {
           r \<leftarrow> ask (k_get_class k) (GetStorageClass className);
           State_Monad.return (case r of
              Inl err \<Rightarrow>
                (if err = NotFound
                 then Inr (current, ''StorageClass '' @ quoted className @ '' does not exist'')
                 else Inl (GetStorageClassFailed className err))
            | Inr allow \<Rightarrow>
                (if allow = Some True then Inr (want, [])
                 else Inr (current, ''StorageClass '' @ quoted className @ '' does not allow volume expansion'')))
         })"

text \<open>The claim is the caller's object: the patch answer replaces it, a failed patch leaves it changed.\<close>

definition expandPVCIfNeeded ::
  "kube \<Rightarrow> quantity_parser \<Rightarrow> pvc \<Rightarrow> pool_spec \<Rightarrow> (pvc \<times> storage_error option) kio" where
  "expandPVCIfNeeded k parse v poolSpec =
     (case poolStorageRequest parse poolSpec of
        Inl err \<Rightarrow> State_Monad.return (v, Some err)
      | Inr want \<Rightarrow> do {
          r \<leftarrow> storageRequestFor k v want;
          case r of
            Inl err \<Rightarrow> State_Monad.return (v, Some err)
          | Inr (desired, reason) \<Rightarrow>
              if desired \<le> current_request v then State_Monad.return (v, None)
              else
                let w = v\<lparr>v_request := Some desired\<rparr> in do {
                  p \<leftarrow> ask (k_patch_pvc k) (PatchPvc False v w);
                  case p of
                    Inl err \<Rightarrow> do {
                      emit (EmitEvent ''Warning'' ''ExpandPVCFailed'' (v_name v));
                      State_Monad.return (w, Some (ExpandFailed (v_name v) err))
                    }
                  | Inr stored \<Rightarrow> do {
                      emit (EmitEvent ''Normal'' ''PVCExpanded'' (v_name stored));
                      State_Monad.return (stored, None)
                    }
                }
        })"

subsection \<open>Storage changes that are not applied\<close>

record pvcStorageWant =
  sw_request :: int
  sw_class :: string
  sw_modes :: "string list"

definition storageWantFor ::
  "pool_builder \<Rightarrow> shard \<Rightarrow> pvc \<Rightarrow> storage_error + pvcStorageWant option" where
  "storageWantFor bl shd v =
     (let poolName = str_at (v_labels v) LabelMultigresPool
      in if poolName \<noteq> []
         then (case map_of (s_pools shd) poolName of
                 None \<Rightarrow> Inr None
               | Some poolSpec \<Rightarrow>
                   (case poolStorageRequest (bl_parse_quantity bl) poolSpec of
                      Inl err \<Rightarrow> Inl err
                    | Inr request \<Rightarrow>
                        Inr (Some \<lparr>sw_request = request, sw_class = st_class (ps_storage poolSpec),
                                   sw_modes = st_access_modes (ps_storage poolSpec)\<rparr>)))
         else if v_name v \<noteq> BuildSharedBackupPVCName shd
                 \<or> (case s_backup shd of None \<Rightarrow> False | Some b \<Rightarrow> bk_type b = BackupTypeS3)
         then Inr None
         else (case BuildSharedBackupPVC bl shd False of
                 Inl err \<Rightarrow> Inl err
               | Inr desired \<Rightarrow>
                   Inr (Some \<lparr>sw_request = current_request desired,
                              sw_class = (case v_class desired of None \<Rightarrow> [] | Some c \<Rightarrow> c),
                              sw_modes = v_modes desired\<rparr>)))"

definition sameAccessModes :: "string list \<Rightarrow> string list \<Rightarrow> bool" where
  "sameAccessModes a b \<longleftrightarrow> sort a = sort b"

text \<open>What a report says about one claim; its rendering as text is left out.\<close>

datatype ignored_change =
    KeepsRequest string int int string
  | KeepsClass string string string
  | KeepsModes string "string list" "string list"
  | CannotTell string storage_error

definition describeIgnoredStorage ::
  "kube \<Rightarrow> pvc \<Rightarrow> pvcStorageWant \<Rightarrow> (storage_error + ignored_change list) kio" where
  "describeIgnoredStorage k v want = do {
     r \<leftarrow> storageRequestFor k v (sw_request want);
     State_Monad.return (case r of
        Inl err \<Rightarrow> Inl err
      | Inr (request, reason) \<Rightarrow>
          Inr ((if reason \<noteq> [] then [KeepsRequest (v_name v) request (sw_request want) reason] else [])
               @ (if sw_class want \<noteq> [] \<and> v_class v \<noteq> Some (sw_class want)
                  then [KeepsClass (v_name v) (case v_class v of None \<Rightarrow> [] | Some c \<Rightarrow> c) (sw_class want)]
                  else [])
               @ (if sw_modes want \<noteq> [] \<and> \<not> sameAccessModes (v_modes v) (sw_modes want)
                  then [KeepsModes (v_name v) (v_modes v) (sw_modes want)] else [])))
   }"

fun ignored_loop ::
  "kube \<Rightarrow> pool_builder \<Rightarrow> shard \<Rightarrow> pvc list \<Rightarrow> (storage_error + ignored_change list) kio" where
  "ignored_loop k bl shd [] = State_Monad.return (Inr [])"
| "ignored_loop k bl shd (v # vs) =
     (if HasOrphanLabel (Some v) \<or> \<not> is_zero_ptr (v_deletion v) then ignored_loop k bl shd vs
      else (case storageWantFor bl shd v of
              Inl err \<Rightarrow> do {
                r \<leftarrow> ignored_loop k bl shd vs;
                State_Monad.return (map_sum id (\<lambda>rest. CannotTell (v_name v) err # rest) r)
              }
            | Inr None \<Rightarrow> ignored_loop k bl shd vs
            | Inr (Some want) \<Rightarrow> do {
                d \<leftarrow> describeIgnoredStorage k v want;
                case d of
                  Inl err \<Rightarrow> State_Monad.return (Inl err)
                | Inr details \<Rightarrow> do {
                    r \<leftarrow> ignored_loop k bl shd vs;
                    State_Monad.return (map_sum id (\<lambda>rest. details @ rest) r)
                  }
              }))"

definition ignoredStorageChanges ::
  "kube \<Rightarrow> pool_builder \<Rightarrow> shard \<Rightarrow> ((api_error + storage_error) + ignored_change list) kio" where
  "ignoredStorageChanges k bl shd = do {
     r \<leftarrow> ask (k_list_pvcs k) (ListPvcs False (s_namespace shd) (shardSelector shd));
     case r of
       Inl err \<Rightarrow> State_Monad.return (Inl (Inl err))
     | Inr pvcs \<Rightarrow> do {
         d \<leftarrow> ignored_loop k bl shd (sort_key v_name pvcs);
         State_Monad.return (map_sum Inr id d)
       }
   }"

end
