(* ===== verification/Pool_Create.thy ===== *)
theory Pool_Create
  imports Pool_Storage
begin

text \<open>
  Creating what a pool lacks: \<^verbatim>\<open>createMissingResources\<close> of \<^verbatim>\<open>shard/reconcile_pool_pods.go\<close> and the temporary
  poolers of \<^verbatim>\<open>shard/maintenance_surge.go\<close>.

  The maps of existing pods and claims hold the caller's objects, which the calls change in place; the
  model passes them on, but for the annotations that \<^verbatim>\<open>handleExternalDeletion\<close> puts on a pod being deleted,
  which counts as busy without them. A pool's pods are visited in the order of the association list where the code
  ranges over a map.
\<close>

datatype pool_error =
    StorageFailed storage_error | CreatePvcFailed string api_error | ClearOrphanFailed string pvc_error
  | BuildPodFailed string string | ClaimVolumesFailed pvc_error | CreatePodFailed string api_error
  | DeleteTerminalFailed string api_error | DisruptionFailed scale_error | ListFailed string api_error
  | PatchPodFailed string api_error | NoCells string | CheckMounted list_error

abbreviation AnnotationMaintenanceRequested :: string where
  "AnnotationMaintenanceRequested \<equiv> ''maintenance.multigres.com/requested''"
abbreviation AnnotationMaintenanceReady :: string where
  "AnnotationMaintenanceReady \<equiv> ''maintenance.multigres.com/ready''"

text \<open>A create whose target already exists counts as done.\<close>

definition create_or_exists :: "kube \<Rightarrow> kcall \<Rightarrow> api_error option kio" where
  "create_or_exists k c = do {
     e \<leftarrow> ask (k_write k) c;
     State_Monad.return (if e = Some AlreadyExists then None else e)
   }"

subsection \<open>Claims\<close>

definition take_back ::
  "kube \<Rightarrow> quantity_parser \<Rightarrow> pool_spec \<Rightarrow> pvc \<Rightarrow> (pvc \<times> pool_error option) kio" where
  "take_back k parse poolSpec v =
     (if IsTerminating (Some v) then State_Monad.return (v, None)
      else do {
        (v', r) \<leftarrow> reclaimPVC k v;
        case r of
          Inl err \<Rightarrow> State_Monad.return (v', Some (ClearOrphanFailed (v_name v) err))
        | Inr terminating \<Rightarrow>
            if terminating then State_Monad.return (v', None)
            else do {
              (v'', e) \<leftarrow> expandPVCIfNeeded k parse v' poolSpec;
              State_Monad.return (v'', map_option StorageFailed e)
            }
      })"

definition ensure_claim ::
  "kube \<Rightarrow> pool_builder \<Rightarrow> shard \<Rightarrow> string \<Rightarrow> string \<Rightarrow> pool_spec \<Rightarrow> int \<Rightarrow> (string \<times> pvc) list
     \<Rightarrow> ((string \<times> pvc) list \<times> pool_error option) kio" where
  "ensure_claim k bl shd poolName cellName poolSpec index existingPVCs =
     (let pvcName = BuildPoolDataPVCName shd poolName cellName index
      in case map_of existingPVCs pvcName of
           None \<Rightarrow>
             (case BuildPoolDataPVC bl shd poolName cellName poolSpec index
                     (ShouldDeletePVCOnShardRemoval shd poolSpec) of
                Inl err \<Rightarrow> State_Monad.return (existingPVCs, Some (StorageFailed err))
              | Inr desiredPVC \<Rightarrow> do {
                  e \<leftarrow> create_or_exists k (CreatePvc desiredPVC);
                  State_Monad.return (existingPVCs, map_option (CreatePvcFailed pvcName) e)
                })
         | Some v \<Rightarrow> do {
             (v', e) \<leftarrow> take_back k (bl_parse_quantity bl) poolSpec v;
             State_Monad.return (upd pvcName v' existingPVCs, e)
           })"

subsection \<open>Pods\<close>

record create_state =
  cr_drifted :: nat
  cr_action_taken :: bool
  cr_tracker :: shardRolloutTracker
  cr_pvcs :: "(string \<times> pvc) list"
  cr_pods :: "(string \<times> pod) list"

definition cr_acted :: "create_state \<Rightarrow> create_state" where
  "cr_acted s = s\<lparr>cr_action_taken := True, cr_tracker := SetStarted (cr_tracker s)\<rparr>"

definition create_missing_pod ::
  "kube \<Rightarrow> pool_builder \<Rightarrow> shard \<Rightarrow> string \<Rightarrow> string \<Rightarrow> pool_spec \<Rightarrow> int \<Rightarrow> create_state
     \<Rightarrow> (create_state \<times> pool_error option) kio" where
  "create_missing_pod k bl shd poolName cellName poolSpec index s =
     (let podName = BuildPoolPodName shd poolName cellName index
      in case bl_build_pod bl shd poolName cellName poolSpec index of
           Inl err \<Rightarrow> State_Monad.return (s, Some (BuildPodFailed podName err))
         | Inr desiredPod \<Rightarrow> do {
             r \<leftarrow> claimPodVolumes k desiredPod;
             case r of
               Inl err \<Rightarrow> State_Monad.return (s, Some (ClaimVolumesFailed err))
             | Inr claim \<Rightarrow>
                 if claim \<noteq> [] then State_Monad.return (s, None)
                 else do {
                   e \<leftarrow> create_or_exists k (CreatePod desiredPod);
                   case e of
                     Some err \<Rightarrow> State_Monad.return (s, Some (CreatePodFailed podName err))
                   | None \<Rightarrow> do {
                       emit (EmitEvent ''Normal'' ''PodCreated'' podName);
                       State_Monad.return (s\<lparr>cr_action_taken := True\<rparr>, None)
                     }
                 }
           })"

definition replace_terminal_pod :: "kube \<Rightarrow> pod \<Rightarrow> create_state \<Rightarrow> (create_state \<times> pool_error option) kio" where
  "replace_terminal_pod k p s = do {
     r \<leftarrow> podTerminatingClaim k p;
     case r of
       Inl err \<Rightarrow> State_Monad.return (s, Some (DisruptionFailed (TerminatingClaim err)))
     | Inr claim \<Rightarrow>
         if claim \<noteq> [] then State_Monad.return (s, None)
         else if cr_action_taken s then State_Monad.return (s, None)
         else do {
           d \<leftarrow> ask (k_write k) (DeletePod p);
           State_Monad.return
             (if d = None \<or> d = Some NotFound then (s\<lparr>cr_action_taken := True\<rparr>, None)
              else (s, map_option (DeleteTerminalFailed (p_name p)) d))
         }
   }"

text \<open>The drain for a filesystem resize, from the health gate on; every refusal leaves the pod for later.\<close>

definition drain_for_resize ::
  "kube \<Rightarrow> disruption_env \<Rightarrow> shard \<Rightarrow> string \<Rightarrow> pod \<Rightarrow> create_state \<Rightarrow> (create_state \<times> pool_error option) kio" where
  "drain_for_resize k env shd cellName p s = do {
     r \<leftarrow> isShardHealthy k shd;
     case r of
       Inl err \<Rightarrow> State_Monad.return (s, Some (DisruptionFailed err))
     | Inr healthy \<Rightarrow>
         if \<not> healthy then State_Monad.return (s, None)
         else do {
           c \<leftarrow> hasMaintenanceCapacityForPod k shd cellName (p_name p);
           case c of
             Inl err \<Rightarrow> State_Monad.return (s, Some (DisruptionFailed err))
           | Inr capacity \<Rightarrow>
               if \<not> capacity then State_Monad.return (s, None)
               else do {
                 (tracker, a) \<leftarrow> canStartDisruption k env shd p (cr_tracker s);
                 let s = s\<lparr>cr_tracker := tracker\<rparr>;
                 case a of
                   Inl err \<Rightarrow> State_Monad.return (s, Some (DisruptionFailed err))
                 | Inr allowed \<Rightarrow>
                     if \<not> allowed then State_Monad.return (s, None)
                     else do {
                       (q, e) \<leftarrow> initiateDrain k (de_format_time env) (de_now env) p;
                       case e of
                         Some err \<Rightarrow>
                           State_Monad.return (s, Some (DisruptionFailed (InitiateDrain (p_name p) err)))
                       | None \<Rightarrow> do {
                           emit (EmitEvent ''Normal'' ''FilesystemResize'' (p_name p));
                           State_Monad.return (cr_acted (s\<lparr>cr_pods := upd (p_name p) q (cr_pods s)\<rparr>), None)
                         }
                     }
               }
         }
   }"

definition existing_pod_slot ::
  "kube \<Rightarrow> pool_builder \<Rightarrow> disruption_env \<Rightarrow> shard \<Rightarrow> string \<Rightarrow> string \<Rightarrow> pool_spec \<Rightarrow> int \<Rightarrow> pod \<Rightarrow> create_state
     \<Rightarrow> (create_state \<times> pool_error option) kio" where
  "existing_pod_slot k bl env shd poolName cellName poolSpec index p s =
     (if (p_phase p = PodFailed \<or> p_phase p = PodSucceeded) \<and> is_zero_ptr (p_deletion p)
      then replace_terminal_pod k p s
      else if \<not> is_zero_ptr (p_deletion p)
      then (if \<not> cr_action_taken s \<and> \<not> HasStarted (cr_tracker s)
            then do {
              e \<leftarrow> handleExternalDeletion k env p;
              case e of
                Some err \<Rightarrow> State_Monad.return (s, Some (DisruptionFailed err))
              | None \<Rightarrow> State_Monad.return (cr_acted s, None)
            }
            else State_Monad.return (s, None))
      else
        let s = (if podNeedsUpdate (desired_hash bl) p shd poolName cellName poolSpec index
                 then s\<lparr>cr_drifted := Suc (cr_drifted s)\<rparr> else s);
            pvcName = BuildPoolDataPVCName shd poolName cellName index
        in if \<not> cr_action_taken s \<and> \<not> HasStarted (cr_tracker s)
              \<and> pvcNeedsFilesystemResize (cr_pvcs s) pvcName \<and> drain_state p = []
           then drain_for_resize k env shd cellName p s
           else State_Monad.return (s, None))"

definition create_slot ::
  "kube \<Rightarrow> pool_builder \<Rightarrow> disruption_env \<Rightarrow> shard \<Rightarrow> string \<Rightarrow> string \<Rightarrow> pool_spec \<Rightarrow> int \<Rightarrow> create_state
     \<Rightarrow> (create_state \<times> pool_error option) kio" where
  "create_slot k bl env shd poolName cellName poolSpec index s = do {
     (pvcs, e) \<leftarrow> ensure_claim k bl shd poolName cellName poolSpec index (cr_pvcs s);
     let s = s\<lparr>cr_pvcs := pvcs\<rparr>;
     case e of
       Some err \<Rightarrow> State_Monad.return (s, Some err)
     | None \<Rightarrow>
         (case map_of (cr_pods s) (BuildPoolPodName shd poolName cellName index) of
            None \<Rightarrow> create_missing_pod k bl shd poolName cellName poolSpec index s
          | Some p \<Rightarrow> existing_pod_slot k bl env shd poolName cellName poolSpec index p s)
   }"

fun create_slots ::
  "kube \<Rightarrow> pool_builder \<Rightarrow> disruption_env \<Rightarrow> shard \<Rightarrow> string \<Rightarrow> string \<Rightarrow> pool_spec \<Rightarrow> create_state
     \<Rightarrow> int list \<Rightarrow> (create_state \<times> pool_error option) kio" where
  "create_slots k bl env shd poolName cellName poolSpec s [] = State_Monad.return (s, None)"
| "create_slots k bl env shd poolName cellName poolSpec s (i # is) = do {
     (s, e) \<leftarrow> create_slot k bl env shd poolName cellName poolSpec i s;
     case e of
       Some err \<Rightarrow> State_Monad.return (s, Some err)
     | None \<Rightarrow> create_slots k bl env shd poolName cellName poolSpec s is
   }"

definition createMissingResources ::
  "kube \<Rightarrow> pool_builder \<Rightarrow> disruption_env \<Rightarrow> shard \<Rightarrow> string \<Rightarrow> string \<Rightarrow> pool_spec \<Rightarrow> (string \<times> pod) list
     \<Rightarrow> (string \<times> pvc) list \<Rightarrow> int \<Rightarrow> shardRolloutTracker \<Rightarrow> (create_state \<times> pool_error option) kio" where
  "createMissingResources k bl env shd poolName cellName poolSpec existingPods existingPVCs effectiveReplicas tracker =
     create_slots k bl env shd poolName cellName poolSpec
       \<lparr>cr_drifted = 0, cr_action_taken = False, cr_tracker = tracker, cr_pvcs = existingPVCs,
        cr_pods = existingPods\<rparr>
       (map int [0..<nat effectiveReplicas])"

subsection \<open>Maintenance surges\<close>

definition listCellPoolers :: "kube \<Rightarrow> shard \<Rightarrow> string \<Rightarrow> (pool_error + pod list) kio" where
  "listCellPoolers k shd cellName = do {
     r \<leftarrow> ask (k_list_pods k)
       (ListPods False (s_namespace shd) (GetSelectorLabels (AddCellLabel (shardPDBLabels shd) cellName)));
     State_Monad.return (case r of Inl err \<Rightarrow> Inl (ListFailed cellName err) | Inr pods \<Rightarrow> Inr pods)
   }"

definition annotated :: "string \<Rightarrow> pod \<Rightarrow> pod" where
  "annotated key p = p\<lparr>p_annotations := (p_annotations p)(key \<mapsto> maintenanceAnnotationTrue)\<rparr>"

definition unannotated :: "string \<Rightarrow> pod \<Rightarrow> pod" where
  "unannotated key p = p\<lparr>p_annotations := (p_annotations p)(key := None)\<rparr>"

definition surge_claim ::
  "kube \<Rightarrow> pool_builder \<Rightarrow> shard \<Rightarrow> string \<Rightarrow> string \<Rightarrow> pool_spec \<Rightarrow> int \<Rightarrow> (string \<times> pvc) list
     \<Rightarrow> pool_error option kio" where
  "surge_claim k bl shd poolName cellName poolSpec index existingPVCs =
     (let pvcName = BuildPoolDataPVCName shd poolName cellName index
      in case map_of existingPVCs pvcName of
           None \<Rightarrow>
             (case BuildPoolDataPVC bl shd poolName cellName poolSpec index
                     (ShouldDeletePVCOnShardRemoval shd poolSpec) of
                Inl err \<Rightarrow> State_Monad.return (Some (StorageFailed err))
              | Inr desiredPVC \<Rightarrow> do {
                  e \<leftarrow> create_or_exists k (CreatePvc desiredPVC);
                  State_Monad.return (map_option (CreatePvcFailed pvcName) e)
                })
         | Some v \<Rightarrow> do {
             (v', r) \<leftarrow> reclaimPVC k v;
             case r of
               Inl err \<Rightarrow> State_Monad.return (Some (ClearOrphanFailed pvcName err))
             | Inr terminating \<Rightarrow>
                 if terminating then State_Monad.return None
                 else do {
                   (_, e) \<leftarrow> expandPVCIfNeeded k (bl_parse_quantity bl) v' poolSpec;
                   State_Monad.return (map_option StorageFailed e)
                 }
           })"

definition create_surge_pod ::
  "kube \<Rightarrow> pool_builder \<Rightarrow> shard \<Rightarrow> string \<Rightarrow> string \<Rightarrow> pool_spec \<Rightarrow> int \<Rightarrow> pool_error option kio" where
  "create_surge_pod k bl shd poolName cellName poolSpec index =
     (let podName = BuildPoolPodName shd poolName cellName index
      in case bl_build_pod bl shd poolName cellName poolSpec index of
           Inl err \<Rightarrow> State_Monad.return (Some (BuildPodFailed podName err))
         | Inr p \<Rightarrow> do {
             r \<leftarrow> claimPodVolumes k p;
             case r of
               Inl err \<Rightarrow> State_Monad.return (Some (ClaimVolumesFailed err))
             | Inr claim \<Rightarrow>
                 if claim \<noteq> [] then State_Monad.return None
                 else do {
                   e \<leftarrow> create_or_exists k (CreatePod (annotated AnnotationMaintenanceSurge p));
                   case e of
                     Some err \<Rightarrow> State_Monad.return (Some (CreatePodFailed podName err))
                   | None \<Rightarrow> do {
                       emit (EmitEvent ''Normal'' ''MaintenanceSurgeCreated'' podName);
                       State_Monad.return None
                     }
                 }
           })"

definition createOrAdoptMaintenanceSurge ::
  "kube \<Rightarrow> pool_builder \<Rightarrow> shard \<Rightarrow> string \<Rightarrow> string \<Rightarrow> pool_spec \<Rightarrow> (string \<times> pod) list \<Rightarrow> (string \<times> pvc) list \<Rightarrow> int
     \<Rightarrow> pool_error option kio" where
  "createOrAdoptMaintenanceSurge k bl shd poolName cellName poolSpec existingPods existingPVCs replicas =
     (case map_of existingPods (BuildPoolPodName shd poolName cellName replicas) of
        Some p \<Rightarrow>
          if is_busy p then State_Monad.return None
          else do {
            r \<leftarrow> ask (k_patch_pod k) (PatchPod p (annotated AnnotationMaintenanceSurge p));
            State_Monad.return (case r of Inl err \<Rightarrow> Some (PatchPodFailed (p_name p) err) | Inr _ \<Rightarrow> None)
          }
      | None \<Rightarrow> do {
          e \<leftarrow> surge_claim k bl shd poolName cellName poolSpec replicas existingPVCs;
          case e of
            Some err \<Rightarrow> State_Monad.return (Some err)
          | None \<Rightarrow> create_surge_pod k bl shd poolName cellName poolSpec replicas
        })"

text \<open>
  The first loop of \<^verbatim>\<open>reconcileCellMaintenanceSurge\<close>: surges that have become desired pods lose their mark,
  on the server and in the caller's map.
\<close>

record surge_scan =
  su_pods :: "pod list"
  su_existing :: "(string \<times> pod) list"
  su_surges :: "pod list"
  su_action :: bool

definition unmark_local :: "string \<Rightarrow> (string \<times> pod) list \<Rightarrow> (string \<times> pod) list" where
  "unmark_local name existingPods =
     (case map_of existingPods name of
        None \<Rightarrow> existingPods
      | Some p \<Rightarrow> upd name (unannotated AnnotationMaintenanceSurge p) existingPods)"

fun scan_surges :: "kube \<Rightarrow> shard \<Rightarrow> surge_scan \<Rightarrow> pod list \<Rightarrow> (surge_scan \<times> pool_error option) kio" where
  "scan_surges k shd s [] = State_Monad.return (s, None)"
| "scan_surges k shd s (p # ps) =
     (if isMaintenanceSurge (Some p)
      then (if isDesiredPooler shd (Some p)
            then do {
              r \<leftarrow> ask (k_patch_pod k) (PatchPod p (unannotated AnnotationMaintenanceSurge p));
              case r of
                Inl err \<Rightarrow> State_Monad.return (s, Some (PatchPodFailed (p_name p) err))
              | Inr q \<Rightarrow>
                  scan_surges k shd
                    (s\<lparr>su_pods := su_pods s @ [q], su_action := True,
                       su_existing := unmark_local (p_name q) (su_existing s)\<rparr>) ps
            }
            else scan_surges k shd
                   (s\<lparr>su_pods := su_pods s @ [p], su_surges := su_surges s @ [p]\<rparr>) ps)
      else scan_surges k shd (s\<lparr>su_pods := su_pods s @ [p]\<rparr>) ps)"

definition requests_maintenance :: "pod \<Rightarrow> bool" where
  "requests_maintenance p \<longleftrightarrow> str_at (p_annotations p) AnnotationMaintenanceRequested = maintenanceAnnotationTrue"

text \<open>Whether the desired pods of the cell are unsettled, and whether one of the pool's own is to be replaced.\<close>

definition slot_unsettled ::
  "pool_builder \<Rightarrow> shard \<Rightarrow> string \<Rightarrow> pod list \<Rightarrow> string \<Rightarrow> pool_spec \<Rightarrow> int \<Rightarrow> bool \<times> bool" where
  "slot_unsettled bl shd cellName cellPods desiredPoolName desiredPool index =
     (case findPodByName cellPods (BuildPoolPodName shd desiredPoolName cellName index) of
        None \<Rightarrow> (True, False)
      | Some p \<Rightarrow>
          let stable = (isAvailablePooler (Some p) \<and> drain_state p = []);
              drifted = podNeedsUpdate (desired_hash bl) p shd desiredPoolName cellName desiredPool index
          in (\<not> stable \<or> drifted, drifted \<and> stable))"

definition cell_unsettled :: "pool_builder \<Rightarrow> shard \<Rightarrow> string \<Rightarrow> string \<Rightarrow> pod list \<Rightarrow> bool \<times> bool" where
  "cell_unsettled bl shd poolName cellName cellPods =
     foldl (\<lambda>(unsettled, trigger) (name, pool).
        if \<not> poolUsesCell pool cellName then (unsettled, trigger)
        else foldl (\<lambda>(unsettled, trigger) i.
               let (u, t) = slot_unsettled bl shd cellName cellPods name pool (int i)
               in (unsettled \<or> u, trigger \<or> (t \<and> name = poolName)))
             (unsettled, trigger) [0..<nat (poolReplicas pool)])
       (False, False) (s_pools shd)"

fun mark_ready ::
  "kube \<Rightarrow> shard \<Rightarrow> string \<Rightarrow> (string \<times> pod) list \<Rightarrow> bool \<Rightarrow> (string \<times> pod) list
     \<Rightarrow> ((string \<times> pod) list \<times> bool \<times> pool_error option) kio" where
  "mark_ready k shd cellName existingPods action [] = State_Monad.return (existingPods, action, None)"
| "mark_ready k shd cellName existingPods action ((name, p) # rest) = do {
     w \<leftarrow> (if requests_maintenance p
           then hasMaintenanceCapacityForPod k shd cellName (p_name p)
           else State_Monad.return (Inr False));
     case w of
       Inl err \<Rightarrow> State_Monad.return (existingPods, False, Some (DisruptionFailed err))
     | Inr wantReady \<Rightarrow>
         if (str_at (p_annotations p) AnnotationMaintenanceReady = maintenanceAnnotationTrue) = wantReady
         then mark_ready k shd cellName existingPods action rest
         else
           let q = (if wantReady then annotated AnnotationMaintenanceReady p
                    else unannotated AnnotationMaintenanceReady p)
           in do {
             r \<leftarrow> ask (k_patch_pod k) (PatchPod p q);
             case r of
               Inl err \<Rightarrow> State_Monad.return (existingPods, False, Some (PatchPodFailed (p_name p) err))
             | Inr stored \<Rightarrow> mark_ready k shd cellName (upd name stored existingPods) True rest
           }
   }"

record surge_result =
  sr_active :: int
  sr_action :: bool
  sr_pods :: "(string \<times> pod) list"
  sr_tracker :: shardRolloutTracker

definition reconcileCellMaintenanceSurge ::
  "kube \<Rightarrow> pool_builder \<Rightarrow> shard \<Rightarrow> string \<Rightarrow> string \<Rightarrow> pool_spec \<Rightarrow> (string \<times> pod) list \<Rightarrow> (string \<times> pvc) list \<Rightarrow> int
     \<Rightarrow> shardRolloutTracker \<Rightarrow> (surge_result \<times> pool_error option) kio" where
  "reconcileCellMaintenanceSurge k bl shd poolName cellName poolSpec existingPods existingPVCs replicas rollout =
     (let res = (\<lambda>n a pods t. \<lparr>sr_active = n, sr_action = a, sr_pods = pods, sr_tracker = t\<rparr>)
      in if \<not> requiresTwoCellMaintenanceSurge shd
         then State_Monad.return (res 0 False existingPods rollout, None)
         else do {
           l \<leftarrow> listCellPoolers k shd cellName;
           case l of
             Inl err \<Rightarrow> State_Monad.return (res 0 False existingPods rollout, Some err)
           | Inr cellPods \<Rightarrow> do {
               (sc, e) \<leftarrow> scan_surges k shd
                 \<lparr>su_pods = [], su_existing = existingPods, su_surges = [], su_action = False\<rparr> cellPods;
               case e of
                 Some err \<Rightarrow> State_Monad.return (res 0 False (su_existing sc) rollout, Some err)
               | None \<Rightarrow>
                   let requests = filter (\<lambda>p. \<not> isMaintenanceSurge (Some p) \<and> requests_maintenance p) cellPods;
                       explicitRequest = (requests \<noteq> []);
                       localExplicitRequest =
                         list_ex (\<lambda>p. str_at (p_labels p) LabelMultigresPool = poolName) requests;
                       readyCount = length (filter (\<lambda>p. isAvailablePooler (Some p)) cellPods);
                       (unsettled, trigger) = cell_unsettled bl shd poolName cellName (su_pods sc);
                       resizing = list_ex (\<lambda>i. pvcNeedsFilesystemResize existingPVCs
                                      (BuildPoolDataPVCName shd poolName cellName (int i))) [0..<nat replicas];
                       baseUnsettled = (unsettled \<or> resizing);
                       localInternalTrigger = (trigger \<or> resizing);
                       hasSurge = (su_surges sc \<noteq> []);
                       keepSurge = (explicitRequest \<or> (hasSurge \<and> baseUnsettled));
                       active = (if hasSurge \<and> keepSurge
                                 then wrap32 (int (length (filter
                                        (\<lambda>p. str_at (p_labels p) LabelMultigresPool = poolName) (su_surges sc))))
                                 else 0)
                   in if \<not> hasSurge \<and> readyCount \<le> 1 \<and> (localExplicitRequest \<or> localInternalTrigger)
                      then (if HasSurgeStarted cellName rollout
                            then State_Monad.return (res 0 False (su_existing sc) rollout, None)
                            else do {
                              e \<leftarrow> createOrAdoptMaintenanceSurge k bl shd poolName cellName poolSpec
                                    (su_existing sc) existingPVCs replicas;
                              State_Monad.return (case e of
                                 Some err \<Rightarrow> (res 0 False (su_existing sc) rollout, Some err)
                               | None \<Rightarrow> (res 0 True (su_existing sc) (SetSurgeStarted cellName rollout), None))
                            })
                      else do {
                        (pods, action, e) \<leftarrow>
                          mark_ready k shd cellName (su_existing sc) (su_action sc) (su_existing sc);
                        State_Monad.return (res active action pods rollout, e)
                      }
             }
         })"

definition requestMaintenanceSurge ::
  "kube \<Rightarrow> pool_builder \<Rightarrow> shard \<Rightarrow> pod \<Rightarrow> shardRolloutTracker \<Rightarrow> (shardRolloutTracker \<times> pool_error option) kio" where
  "requestMaintenanceSurge k bl shd p rollout =
     (let poolName = str_at (p_labels p) LabelMultigresPool;
          cellName = str_at (p_labels p) LabelMultigresCell
      in if \<not> requiresTwoCellMaintenanceSurge shd then State_Monad.return (rollout, None)
         else (case map_of (s_pools shd) poolName of
           None \<Rightarrow> State_Monad.return (rollout, None)
         | Some poolSpec \<Rightarrow>
             if HasSurgeStarted cellName rollout then State_Monad.return (rollout, None)
             else do {
               l \<leftarrow> listCellPoolers k shd cellName;
               case l of
                 Inl err \<Rightarrow> State_Monad.return (rollout, Some err)
               | Inr cellPods \<Rightarrow>
                   if list_ex (isActiveMaintenanceSurge shd) cellPods then State_Monad.return (rollout, None)
                   else do {
                     v \<leftarrow> ask (k_list_pvcs k) (ListPvcs False (s_namespace shd)
                           (GetSelectorLabels (buildPoolLabelsWithCell shd poolName cellName)));
                     case v of
                       Inl err \<Rightarrow> State_Monad.return (rollout, Some (ListFailed cellName err))
                     | Inr pvcs \<Rightarrow> do {
                         e \<leftarrow> createOrAdoptMaintenanceSurge k bl shd poolName cellName poolSpec
                               (foldl (\<lambda>m p. upd (p_name p) p m) []
                                  (filter (\<lambda>p. str_at (p_labels p) LabelMultigresPool = poolName) cellPods))
                               (foldl (\<lambda>m v. upd (v_name v) v m) [] pvcs) (poolReplicas poolSpec);
                         State_Monad.return (case e of
                            Some err \<Rightarrow> (rollout, Some err)
                          | None \<Rightarrow> (SetSurgeStarted cellName rollout, None))
                       }
                   }
             }))"

end
