(* ===== verification/Rolling_Update.thy ===== *)
theory Rolling_Update
  imports Pool_Create
begin

text \<open>
  Rolling changes out, the second half of \<^verbatim>\<open>shard/reconcile_pool_pods.go\<close>: pods stranded on an earlier
  topology, pods that are drifted and not ready, and the drain of one drifted pod at a time.

  \<^verbatim>\<open>setStatus\<close> is the library's \<^verbatim>\<open>meta.SetStatusCondition\<close>. A reason for not replacing a pod is \<^const>\<open>None\<close> where
  the code has the empty string; the reasons themselves are never empty.
\<close>

type_synonym status_setter = "condition list \<Rightarrow> condition \<Rightarrow> condition list"

subsection \<open>Pods stranded on an earlier topology\<close>

definition topoStrandedPod ::
  "kube \<Rightarrow> disruption_env \<Rightarrow> shard \<Rightarrow> (string \<times> pod) list \<Rightarrow> pod option kio" where
  "topoStrandedPod k env shd pods =
     (let candidates = filter (\<lambda>p. podTopoDrifted (Some p) shd) (in_name_order pods)
      in if candidates = [] then State_Monad.return None
         else do {
           r \<leftarrow> listDisruptionPods k shd;
           State_Monad.return (case r of
              Inl err \<Rightarrow> None
            | Inr shardPods \<Rightarrow>
                if list_ex is_busy shardPods then None
                else (case de_store env of
                        None \<Rightarrow> None
                      | Some getPoolers \<Rightarrow>
                          (case LivePoolerPods getPoolers shd (map p_name candidates) of
                             Inl err \<Rightarrow> None
                           | Inr live \<Rightarrow> find (\<lambda>p. map_of live (p_name p) \<noteq> Some True) candidates)))
         })"

subsection \<open>Drifted pods that are not ready\<close>

definition serving_pod :: "consensus_lib \<Rightarrow> DisruptionObservation \<Rightarrow> pod option \<Rightarrow> bool" where
  "serving_pod lib observation p =
     (case p of
        None \<Rightarrow> False
      | Some q \<Rightarrow> is_zero_ptr (p_deletion q) \<and> drain_state q = [] \<and> Serving lib observation (p_name q))"

datatype replacement_block =
    InFlightAction string | TooFewServing string | PostureRefusal refusal

definition unreadyReplacementBlocked ::
  "kube \<Rightarrow> disruption_env \<Rightarrow> shard \<Rightarrow> disruptionPreflight \<Rightarrow> pod \<Rightarrow> bool
     \<Rightarrow> (scale_error + (replacement_block option \<times> bool)) kio" where
  "unreadyReplacementBlocked k env shd preflight p extra =
     (let observation = pf_observation preflight;
          lib = de_lib env;
          inFlight = (if extra then None else PostgresAction lib observation (p_name p));
          cellName = str_at (p_labels p) LabelMultigresCell;
          serving = serving_pod lib observation;
          needsSurge = (requiresTwoCellMaintenanceSurge shd
            \<and> \<not> list_ex (\<lambda>q. p_name q \<noteq> p_name p \<and> str_at (p_labels q) LabelMultigresCell = cellName
                              \<and> serving (Some q)) (pf_pods preflight));
          verdict = (case disruptionCheck env shd preflight p of
                     Some err \<Rightarrow> (Some (PostureRefusal err), needsSurge \<and> isInsufficientRemainder err)
                   | None \<Rightarrow> (None, False))
      in if inFlight = Some ''POSTGRES_ACTION_RESTORING_FROM_BACKUP''
            \<or> inFlight = Some ''POSTGRES_ACTION_CREATING_FIRST_BACKUP''
         then State_Monad.return (Inr (Some (InFlightAction (the inFlight)), False))
         else if Serving lib observation (p_name p)
         then do {
           r \<leftarrow> maintenanceCapacityWithout k shd cellName (p_name p) serving;
           State_Monad.return (case r of
              Inl err \<Rightarrow> Inl err
            | Inr capacity \<Rightarrow>
                Inr (if \<not> capacity then (Some (TooFewServing cellName), needsSurge) else verdict))
         }
         else State_Monad.return (Inr verdict))"

definition block_text :: "disruption_env \<Rightarrow> replacement_block \<Rightarrow> string" where
  "block_text env b =
     (case b of
        InFlightAction action \<Rightarrow> ''pooler reports in-flight postgres action '' @ action
      | TooFewServing cell \<Rightarrow> ''too few serving poolers would remain in the shard or in cell '' @ cell
      | PostureRefusal err \<Rightarrow> de_refusal_text env err)"

datatype candidate_result = Drained | Held string "pod option" | CandidateFailed pool_error

text \<open>The loop over the candidates: the first one that passes is drained.\<close>

fun try_candidates ::
  "kube \<Rightarrow> disruption_env \<Rightarrow> shard \<Rightarrow> disruptionPreflight \<Rightarrow> string list \<Rightarrow> string \<Rightarrow> pod option \<Rightarrow> pod list
     \<Rightarrow> candidate_result kio" where
  "try_candidates k env shd preflight extras firstBlock surgeFor [] =
     State_Monad.return (Held firstBlock surgeFor)"
| "try_candidates k env shd preflight extras firstBlock surgeFor (p # ps) = do {
     r \<leftarrow> unreadyReplacementBlocked k env shd preflight p (p_name p \<in> set extras);
     case r of
       Inl err \<Rightarrow> State_Monad.return (CandidateFailed (DisruptionFailed err))
     | Inr (blocked, needsSurge) \<Rightarrow>
         let surgeFor = (if needsSurge \<and> surgeFor = None then Some p else surgeFor)
         in (case blocked of
               Some b \<Rightarrow>
                 try_candidates k env shd preflight extras
                   (if firstBlock = []
                    then ''not replacing pod '' @ p_name p @ '': '' @ block_text env b else firstBlock)
                   surgeFor ps
             | None \<Rightarrow> do {
                 (_, e) \<leftarrow> initiateDrain k (de_format_time env) (de_now env) p;
                 case e of
                   Some err \<Rightarrow>
                     State_Monad.return (CandidateFailed (DisruptionFailed (InitiateDrain (p_name p) err)))
                 | None \<Rightarrow> do {
                     emit (EmitEvent ''Normal'' ''PodUpdated'' (p_name p));
                     State_Monad.return Drained
                   }
               })
   }"

definition replacement_candidates :: "rolloutCandidates \<Rightarrow> pod list \<Rightarrow> pod list" where
  "replacement_candidates desired extras =
     (let candidates = extras @ rc_unready desired
      in case rc_primary desired of
           None \<Rightarrow> candidates
         | Some primary \<Rightarrow> candidates @ rc_ready desired @ [primary])"

text \<open>The part after the waits: the preflight over the pods listed, and the candidates.\<close>

definition replace_observed ::
  "kube \<Rightarrow> pool_builder \<Rightarrow> disruption_env \<Rightarrow> shard \<Rightarrow> pod list \<Rightarrow> rolloutCandidates \<Rightarrow> shardRolloutTracker
     \<Rightarrow> (shardRolloutTracker \<times> pool_error option) kio" where
  "replace_observed k bl env shd pods desired rollout =
     (let extras = unreadyExtras shd pods;
          waiting = rollout\<lparr>tr_waiting_for_recovery := True\<rparr>
      in do {
        r \<leftarrow> observeDisruption k env shd (Some pods);
        case r of
          Inl err \<Rightarrow> State_Monad.return (rollout, Some (DisruptionFailed err))
        | Inr (Inl why) \<Rightarrow>
            State_Monad.return
              (if why \<noteq> [] then block (''cannot observe the data plane: '' @ why) waiting else waiting, None)
        | Inr (Inr preflight) \<Rightarrow>
            (case find (\<lambda>p. \<not> Serving (de_lib env) (pf_observation preflight) (p_name p)) (rc_current desired) of
               Some p \<Rightarrow>
                 State_Monad.return
                   (block (''pod '' @ p_name p
                      @ '' on the desired spec is not serving; not replacing more pods onto it'') waiting, None)
             | None \<Rightarrow> do {
                 c \<leftarrow> try_candidates k env shd preflight (map p_name extras) [] None
                       (replacement_candidates desired extras);
                 case c of
                   CandidateFailed err \<Rightarrow> State_Monad.return (rollout, Some err)
                 | Drained \<Rightarrow> State_Monad.return (SetStarted rollout, None)
                 | Held firstBlock surgeFor \<Rightarrow> do {
                     (rollout, e) \<leftarrow> (case surgeFor of
                        None \<Rightarrow> State_Monad.return (rollout, None)
                      | Some p \<Rightarrow> requestMaintenanceSurge k bl shd p rollout);
                     State_Monad.return (case e of
                        Some err \<Rightarrow> (rollout, Some err)
                      | None \<Rightarrow> (block firstBlock (rollout\<lparr>tr_waiting_for_recovery := True\<rparr>), None))
                   }
               })
      })"

text \<open>The flag says that such pods exist; the decision is taken once per pass and kept in the tracker.\<close>

definition replaceUnreadyDriftedPod ::
  "kube \<Rightarrow> pool_builder \<Rightarrow> disruption_env \<Rightarrow> shard \<Rightarrow> shardRolloutTracker
     \<Rightarrow> (shardRolloutTracker \<times> bool \<times> pool_error option) kio" where
  "replaceUnreadyDriftedPod k bl env shd rollout =
     (if tr_unready_decided rollout then State_Monad.return (rollout, tr_unready_pending rollout, None)
      else
        let rollout = rollout\<lparr>tr_unready_decided := True\<rparr> in do {
          r \<leftarrow> listDisruptionPods k shd;
          case r of
            Inl err \<Rightarrow> State_Monad.return (rollout, False, Some (DisruptionFailed (ListOngoing err)))
          | Inr pods \<Rightarrow>
              let desired = classifyDesiredPods (desired_hash bl) shd pods in
              if rc_unready desired = [] \<and> rc_primary desired = None
              then State_Monad.return (rollout, False, None)
              else
                let rollout = rollout\<lparr>tr_unready_pending := True\<rparr> in
                if tr_waiting_for_recovery rollout
                then State_Monad.return (rollout\<lparr>tr_unready_deferred := True\<rparr>, True, None)
                else (case missingDesiredPods shd pods of
                  name # _ \<Rightarrow>
                    State_Monad.return
                      (block (''desired pod '' @ name
                         @ '' does not exist yet; not replacing more pods until it is up'') rollout, True, None)
                | [] \<Rightarrow>
                    (case find (\<lambda>p. \<not> isPodReady (Some p)) (rc_current desired) of
                       Some p \<Rightarrow>
                         State_Monad.return
                           (block (''pod '' @ p_name p
                              @ '' on the desired spec is not Ready; not replacing more pods onto it'') rollout,
                            True, None)
                     | None \<Rightarrow> do {
                         (rollout, e) \<leftarrow> replace_observed k bl env shd pods desired rollout;
                         State_Monad.return (rollout, True, e)
                       }))
        })"

subsection \<open>Rolling updates\<close>

definition rolling_condition :: "nat \<Rightarrow> bool \<Rightarrow> string \<Rightarrow> condition" where
  "rolling_condition driftedCount inProgress poolName =
     (if inProgress
      then \<lparr>c_type = ''RollingUpdate'', c_status = ConditionTrue, c_observed_generation = 0,
            c_last_transition = 0, c_reason = ''PodsDrifted'',
            c_message = utoa driftedCount @ '' pods need update in pool '' @ poolName\<rparr>
      else \<lparr>c_type = ''RollingUpdate'', c_status = ConditionFalse, c_observed_generation = 0,
            c_last_transition = 0, c_reason = ''PodsUpToDate'',
            c_message = ''All pods up to date in pool '' @ poolName\<rparr>)"

text \<open>The drain of one drifted pod behind the capacity check and the preflight.\<close>

definition drain_drifted ::
  "kube \<Rightarrow> disruption_env \<Rightarrow> shard \<Rightarrow> string \<Rightarrow> string \<Rightarrow> shardRolloutTracker \<Rightarrow> pod
     \<Rightarrow> (shardRolloutTracker \<times> pool_error option) kio" where
  "drain_drifted k env shd cellName event rollout p = do {
     c \<leftarrow> hasMaintenanceCapacityForPod k shd cellName (p_name p);
     case c of
       Inl err \<Rightarrow> State_Monad.return (rollout, Some (DisruptionFailed err))
     | Inr capacity \<Rightarrow>
         if \<not> capacity then State_Monad.return (rollout, None)
         else do {
           (rollout, a) \<leftarrow> canStartDisruption k env shd p rollout;
           case a of
             Inl err \<Rightarrow> State_Monad.return (rollout, Some (DisruptionFailed err))
           | Inr allowed \<Rightarrow>
               if \<not> allowed then State_Monad.return (rollout, None)
               else do {
                 (_, e) \<leftarrow> initiateDrain k (de_format_time env) (de_now env) p;
                 case e of
                   Some err \<Rightarrow>
                     State_Monad.return (rollout, Some (DisruptionFailed (InitiateDrain (p_name p) err)))
                 | None \<Rightarrow> do {
                     emit (EmitEvent ''Normal'' event (p_name p));
                     State_Monad.return (SetStarted rollout, None)
                   }
               }
         }
   }"

text \<open>
  The pod the final loop acts on: the first drifted pod in name order that is not the primary, or else
  the last drifted primary, if it is not draining.
\<close>

definition drifted_pods ::
  "pool_builder \<Rightarrow> shard \<Rightarrow> string \<Rightarrow> string \<Rightarrow> pool_spec \<Rightarrow> (string \<times> pod) list \<Rightarrow> pod list" where
  "drifted_pods bl shd poolName cellName poolSpec existingPods =
     filter (\<lambda>p. podNeedsUpdate (desired_hash bl) p shd poolName cellName poolSpec
                    (case resolvePodIndex (p_name p) of Some i \<Rightarrow> i | None \<Rightarrow> 0))
       (in_name_order existingPods)"

definition roll_one ::
  "kube \<Rightarrow> disruption_env \<Rightarrow> shard \<Rightarrow> string \<Rightarrow> pod list \<Rightarrow> shardRolloutTracker
     \<Rightarrow> (shardRolloutTracker \<times> pool_error option) kio" where
  "roll_one k env shd cellName drifted rollout =
     (case find (\<lambda>p. resolvePodRole shd (p_name p) \<noteq> ''PRIMARY'') drifted of
        Some p \<Rightarrow> drain_drifted k env shd cellName ''PodUpdated'' rollout p
      | None \<Rightarrow>
          (if drifted = [] then State_Monad.return (rollout, None)
           else if drain_state (last drifted) \<noteq> [] then State_Monad.return (rollout, None)
           else drain_drifted k env shd cellName ''RollingUpdateStarted'' rollout (last drifted)))"

definition drain_stranded ::
  "kube \<Rightarrow> disruption_env \<Rightarrow> shard \<Rightarrow> pod \<Rightarrow> shardRolloutTracker \<Rightarrow> (shardRolloutTracker \<times> pool_error option) kio" where
  "drain_stranded k env shd p rollout = do {
     t \<leftarrow> mountedTerminatingPVCs k True (de_now env) shd;
     case t of
       Inl err \<Rightarrow> State_Monad.return (rollout, Some (CheckMounted err))
     | Inr terminating \<Rightarrow>
         if terminating \<noteq> [] then State_Monad.return (rollout, None)
         else do {
           (_, e) \<leftarrow> initiateDrain k (de_format_time env) (de_now env) p;
           case e of
             Some err \<Rightarrow> State_Monad.return (rollout, Some (DisruptionFailed (InitiateDrain (p_name p) err)))
           | None \<Rightarrow> do {
               emit (EmitEvent ''Normal'' ''PodUpdated'' (p_name p));
               State_Monad.return (SetStarted rollout, None)
             }
         }
   }"

definition start_rolling ::
  "kube \<Rightarrow> pool_builder \<Rightarrow> disruption_env \<Rightarrow> shard \<Rightarrow> string \<Rightarrow> string \<Rightarrow> pool_spec \<Rightarrow> (string \<times> pod) list
     \<Rightarrow> shardRolloutTracker \<Rightarrow> (shardRolloutTracker \<times> pool_error option) kio" where
  "start_rolling k bl env shd poolName cellName poolSpec existingPods rollout = do {
     stranded \<leftarrow> topoStrandedPod k env shd existingPods;
     case stranded of
       Some p \<Rightarrow> drain_stranded k env shd p rollout
     | None \<Rightarrow> do {
         (rollout, handled, e) \<leftarrow> replaceUnreadyDriftedPod k bl env shd rollout;
         if e \<noteq> None \<or> handled then State_Monad.return (rollout, e)
         else do {
           r \<leftarrow> isShardHealthy k shd;
           case r of
             Inl err \<Rightarrow> State_Monad.return (rollout, Some (DisruptionFailed err))
           | Inr healthy \<Rightarrow>
               if \<not> healthy then State_Monad.return (rollout, None)
               else roll_one k env shd cellName
                      (drifted_pods bl shd poolName cellName poolSpec existingPods) rollout
         }
       }
   }"

definition handleRollingUpdates ::
  "kube \<Rightarrow> pool_builder \<Rightarrow> disruption_env \<Rightarrow> status_setter \<Rightarrow> shard \<Rightarrow> string \<Rightarrow> string \<Rightarrow> pool_spec
     \<Rightarrow> (string \<times> pod) list \<Rightarrow> nat \<Rightarrow> bool \<Rightarrow> bool \<Rightarrow> shardRolloutTracker
     \<Rightarrow> (shard \<times> shardRolloutTracker \<times> pool_error option) kio" where
  "handleRollingUpdates k bl env setStatus shd poolName cellName poolSpec existingPods driftedCount
       actionTaken isAnyPodDraining rollout =
     (let inProgress = (isAnyPodDraining \<or> 0 < driftedCount);
          shd = shd\<lparr>s_conditions := setStatus (s_conditions shd)
                                       (rolling_condition driftedCount inProgress poolName)\<rparr>
      in if actionTaken \<or> isAnyPodDraining \<or> driftedCount = 0 \<or> HasStarted rollout
         then State_Monad.return (shd, rollout, None)
         else do {
           (rollout, e) \<leftarrow> start_rolling k bl env shd poolName cellName poolSpec existingPods rollout;
           State_Monad.return (shd, rollout, e)
         })"

end
