(* ===== verification/Pool_Reconcile.thy ===== *)
theory Pool_Reconcile
  imports Rolling_Update
begin

text \<open>
  One pass over the pools of a shard: \<^verbatim>\<open>reconcilePoolPods\<close> of \<^verbatim>\<open>shard/reconcile_pool_pods.go\<close>, \<^verbatim>\<open>reconcilePool\<close>
  and the loop over the pools of \<^verbatim>\<open>shard/shard_controller.go\<close>, with the settlement of the RollingUpdate
  condition after it. The tracker is created fresh for the pass and shared by its pools.
\<close>

definition by_name :: "('a \<Rightarrow> string) \<Rightarrow> 'a list \<Rightarrow> (string \<times> 'a) list" where
  "by_name name xs = foldl (\<lambda>m x. upd (name x) x m) [] xs"

text \<open>The phases after the listings.\<close>

definition pool_phases ::
  "kube \<Rightarrow> pool_builder \<Rightarrow> disruption_env \<Rightarrow> status_setter \<Rightarrow> shard \<Rightarrow> string \<Rightarrow> string \<Rightarrow> pool_spec
     \<Rightarrow> (string \<times> pod) list \<Rightarrow> (string \<times> pvc) list \<Rightarrow> shardRolloutTracker
     \<Rightarrow> (shard \<times> shardRolloutTracker \<times> pool_error option) kio" where
  "pool_phases k bl env setStatus shd poolName cellName poolSpec existingPods existingPVCs rollout =
     (let replicas = poolReplicas poolSpec in do {
        (sr, e) \<leftarrow> reconcileCellMaintenanceSurge k bl shd poolName cellName poolSpec existingPods existingPVCs
                    replicas rollout;
        if e \<noteq> None \<or> sr_action sr then State_Monad.return (shd, sr_tracker sr, e)
        else
          let effectiveReplicas = wrap32 (replicas + sr_active sr) in do {
            (cr, e) \<leftarrow> createMissingResources k bl env shd poolName cellName poolSpec (sr_pods sr) existingPVCs
                        effectiveReplicas (sr_tracker sr);
            if e \<noteq> None then State_Monad.return (shd, cr_tracker cr, e)
            else do {
              (sc, e) \<leftarrow> handleScaleDown k env shd poolName poolSpec (cr_pods cr) replicas effectiveReplicas
                          (cr_action_taken cr) (cr_tracker cr);
              if e \<noteq> None then State_Monad.return (shd, sc_tracker sc, map_option DisruptionFailed e)
              else handleRollingUpdates k bl env setStatus shd poolName cellName poolSpec (cr_pods cr)
                     (cr_drifted cr) (sc_action_taken sc) (sc_in_progress sc) (sc_tracker sc)
            }
          }
      })"

definition reconcilePoolPods ::
  "kube \<Rightarrow> pool_builder \<Rightarrow> disruption_env \<Rightarrow> status_setter \<Rightarrow> shard \<Rightarrow> string \<Rightarrow> string \<Rightarrow> pool_spec
     \<Rightarrow> shardRolloutTracker \<Rightarrow> (shard \<times> shardRolloutTracker \<times> pool_error option) kio" where
  "reconcilePoolPods k bl env setStatus shd poolName cellName poolSpec rollout =
     (let selector = GetSelectorLabels (buildPoolLabelsWithCell shd poolName cellName) in do {
        r \<leftarrow> ask (k_list_pods k) (ListPods False (s_namespace shd) selector);
        case r of
          Inl err \<Rightarrow> State_Monad.return (shd, rollout, Some (ListFailed poolName err))
        | Inr podList \<Rightarrow> do {
            v \<leftarrow> ask (k_list_pvcs k) (ListPvcs False (s_namespace shd) selector);
            case v of
              Inl err \<Rightarrow> State_Monad.return (shd, rollout, Some (ListFailed poolName err))
            | Inr pvcList \<Rightarrow>
                pool_phases k bl env setStatus shd poolName cellName poolSpec
                  (by_name p_name podList) (by_name v_name pvcList) rollout
          }
      })"

definition reconcilePoolHeadlessService ::
  "kube \<Rightarrow> pool_builder \<Rightarrow> shard \<Rightarrow> string \<Rightarrow> string \<Rightarrow> pool_spec \<Rightarrow> pool_error option kio" where
  "reconcilePoolHeadlessService k bl shd poolName cellName poolSpec =
     (case bl_build_service bl shd poolName cellName poolSpec of
        Inl err \<Rightarrow> State_Monad.return (Some (BuildPodFailed poolName err))
      | Inr name \<Rightarrow> do {
          e \<leftarrow> ask (k_write k) (ApplyObject ''Service'' name);
          State_Monad.return (map_option (CreatePodFailed name) e)
        })"

text \<open>A step of a pass works on the shard, whose status it changes, and on the tracker.\<close>

type_synonym pass_step = "shard \<Rightarrow> shardRolloutTracker \<Rightarrow> (shard \<times> shardRolloutTracker \<times> pool_error option) kio"

text \<open>A loop that stops at the first error, as the loops over cells and over pools do.\<close>

fun each_step :: "('p \<Rightarrow> pass_step) \<Rightarrow> 'p list \<Rightarrow> pass_step" where
  "each_step step [] shd rollout = State_Monad.return (shd, rollout, None)"
| "each_step step (x # xs) shd rollout = do {
     (shd, rollout, e) \<leftarrow> step x shd rollout;
     case e of
       Some err \<Rightarrow> State_Monad.return (shd, rollout, Some err)
     | None \<Rightarrow> each_step step xs shd rollout
   }"

definition reconcile_cell ::
  "kube \<Rightarrow> pool_builder \<Rightarrow> disruption_env \<Rightarrow> status_setter \<Rightarrow> string \<Rightarrow> pool_spec \<Rightarrow> string \<Rightarrow> pass_step" where
  "reconcile_cell k bl env setStatus poolName poolSpec cellName shd rollout = do {
     (shd, rollout, e) \<leftarrow> reconcilePoolPods k bl env setStatus shd poolName cellName poolSpec rollout;
     case e of
       Some err \<Rightarrow> State_Monad.return (shd, rollout, Some err)
     | None \<Rightarrow> do {
         e \<leftarrow> reconcilePoolHeadlessService k bl shd poolName cellName poolSpec;
         State_Monad.return (shd, rollout, e)
       }
   }"

definition reconcilePool ::
  "kube \<Rightarrow> pool_builder \<Rightarrow> disruption_env \<Rightarrow> status_setter \<Rightarrow> string \<times> pool_spec \<Rightarrow> pass_step" where
  "reconcilePool k bl env setStatus pool shd rollout =
     (if ps_cells (snd pool) = [] then State_Monad.return (shd, rollout, Some (NoCells (fst pool)))
      else each_step (reconcile_cell k bl env setStatus (fst pool) (snd pool)) (ps_cells (snd pool)) shd rollout)"

definition reconcile_or_report ::
  "kube \<Rightarrow> pool_builder \<Rightarrow> disruption_env \<Rightarrow> status_setter \<Rightarrow> string \<times> pool_spec \<Rightarrow> pass_step" where
  "reconcile_or_report k bl env setStatus pool shd rollout = do {
     (shd, rollout, e) \<leftarrow> reconcilePool k bl env setStatus pool shd rollout;
     case e of
       None \<Rightarrow> State_Monad.return (shd, rollout, None)
     | Some err \<Rightarrow> do {
         emit (EmitEvent ''Warning'' ''FailedApply'' (fst pool));
         State_Monad.return (shd, rollout, Some err)
       }
   }"

definition emptyTracker :: shardRolloutTracker where
  "emptyTracker = \<lparr>tr_started = False, tr_waiting_for_recovery = False, tr_surge_started_cells = [],
     tr_blocked = [], tr_blocked_again = False, tr_unready_decided = False, tr_unready_pending = False,
     tr_unready_deferred = False\<rparr>"

text \<open>The first condition of the type is the one \<^verbatim>\<open>meta.FindStatusCondition\<close> returns and the code changes.\<close>

fun restore_time :: "condition \<Rightarrow> condition list \<Rightarrow> condition list" where
  "restore_time b [] = []"
| "restore_time b (c # conditions) =
     (if c_type c \<noteq> c_type b then c # restore_time b conditions
      else if c_status c = c_status b then c\<lparr>c_last_transition := c_last_transition b\<rparr> # conditions
      else c # conditions)"

definition keepTransitionTime :: "condition list \<Rightarrow> condition option \<Rightarrow> condition list" where
  "keepTransitionTime conditions before =
     (case before of None \<Rightarrow> conditions | Some b \<Rightarrow> restore_time b conditions)"

definition finishRollingUpdateCondition ::
  "status_setter \<Rightarrow> condition list \<Rightarrow> shardRolloutTracker \<Rightarrow> condition option
     \<Rightarrow> condition list \<times> shardRolloutTracker" where
  "finishRollingUpdateCondition setStatus conditions rollout before =
     (let blockedBefore = (case before of None \<Rightarrow> False | Some b \<Rightarrow> c_reason b = ''RolloutBlocked'');
          rollout' = (if tr_blocked rollout \<noteq> []
                      then rollout\<lparr>tr_blocked_again :=
                             blockedBefore \<and> map_option c_message before = Some (tr_blocked rollout)\<rparr>
                      else rollout);
          conditions =
            (if tr_blocked rollout \<noteq> []
             then setStatus conditions
                    \<lparr>c_type = ''RollingUpdate'', c_status = ConditionTrue, c_observed_generation = 0,
                     c_last_transition = 0, c_reason = ''RolloutBlocked'', c_message = tr_blocked rollout\<rparr>
             else conditions);
          conditions =
            (if tr_blocked rollout = [] \<and> tr_unready_deferred rollout \<and> blockedBefore
             then setStatus conditions (the before) else conditions)
      in (keepTransitionTime conditions before, rollout'))"

definition reconcilePools ::
  "kube \<Rightarrow> pool_builder \<Rightarrow> disruption_env \<Rightarrow> status_setter \<Rightarrow> shard
     \<Rightarrow> (shard \<times> shardRolloutTracker \<times> pool_error option) kio" where
  "reconcilePools k bl env setStatus shd =
     (let rollingBefore = look (s_conditions shd) ''RollingUpdate'' in do {
        (shd, rollout, e) \<leftarrow> each_step (reconcile_or_report k bl env setStatus) (s_pools shd) shd emptyTracker;
        State_Monad.return
          (case e of
             Some err \<Rightarrow> (shd, rollout, Some err)
           | None \<Rightarrow>
               let (conditions, rollout) =
                 finishRollingUpdateCondition setStatus (s_conditions shd) rollout rollingBefore
               in (shd\<lparr>s_conditions := conditions\<rparr>, rollout, None))
      })"

definition disruptionRecoveryRequeue :: duration where "disruptionRecoveryRequeue = 5 * second"
definition repeatedRefusalRequeue :: duration where "repeatedRefusalRequeue = 30 * second"

text \<open>The deferred adjustment of the requeue delay at the end of a pass without error.\<close>

definition pass_requeue :: "shardRolloutTracker \<Rightarrow> duration \<Rightarrow> duration" where
  "pass_requeue rollout requeueAfter =
     (let requeue = (if tr_blocked_again rollout then repeatedRefusalRequeue else disruptionRecoveryRequeue)
      in if tr_waiting_for_recovery rollout \<and> (requeueAfter = 0 \<or> requeue < requeueAfter) then requeue
         else requeueAfter)"

end
