(* ===== verification/One_Disruption.thy ===== *)
theory One_Disruption
  imports Pool_Reconcile
begin

text \<open>
  One pass over a shard starts at most one drain. The pools of a pass, and the cells of a pool, are
  worked on one after the other and share the tracker; each of the places that may start a drain
  looks at the tracker and marks it. The contract of a step is a budget: from the tracker it is given,
  the drains it starts plus what the tracker and error it returns leave is at most what was left before.
  The contract is a locale, closed under the loops, and each handler of a pass is an instance of it.
\<close>

subsection \<open>Counting calls\<close>

text \<open>\<^verbatim>\<open>spends P n m r\<close>: the calls of \<^verbatim>\<open>m\<close> that satisfy \<^verbatim>\<open>P\<close>, plus what the result leaves, are at most \<^verbatim>\<open>n\<close>.\<close>

definition spends :: "(kcall \<Rightarrow> bool) \<Rightarrow> nat \<Rightarrow> 'a kio \<Rightarrow> ('a \<Rightarrow> nat) \<Rightarrow> bool" where
  "spends P n m r \<longleftrightarrow>
     (\<forall>h. \<exists>cs. snd (run_state m h) = h @ cs \<and> length (filter P cs) + r (fst (run_state m h)) \<le> n)"

named_theorems spends_intros \<open>call budgets under the monad's operations\<close>

lemma spends_return [spends_intros]: "r x \<le> n \<Longrightarrow> spends P n (State_Monad.return x) r"
  by (simp add: spends_def)

lemma spends_bind:
  assumes m: "spends P n m q" and f: "\<And>h h' x. run_state m h = (x, h') \<Longrightarrow> spends P (q x) (f x) r"
  shows "spends P n (State_Monad.bind m f) r"
  unfolding spends_def
proof
  fix h
  obtain x h1 where run: "run_state m h = (x, h1)" by force
  with m obtain cs where cs: "h1 = h @ cs" "length (filter P cs) + q x \<le> n"
    unfolding spends_def by (metis fst_conv snd_conv)
  obtain ds where "snd (run_state (f x) h1) = h1 @ ds"
      "length (filter P ds) + r (fst (run_state (f x) h1)) \<le> q x"
    using f [OF run] unfolding spends_def by blast
  with run cs show "\<exists>cs. snd (run_state (State_Monad.bind m f) h) = h @ cs
      \<and> length (filter P cs) + r (fst (run_state (State_Monad.bind m f) h)) \<le> n"
    by (intro exI [of _ "cs @ ds"]) simp
qed

lemma spends_quiet:
  assumes "appends (\<lambda>c. \<not> P c) m"
  shows "spends P n m (\<lambda>_. n)"
  unfolding spends_def
proof
  fix h
  from assms obtain cs where "snd (run_state m h) = h @ cs" "list_all (\<lambda>c. \<not> P c) cs"
    unfolding appends_def by blast
  then show "\<exists>cs. snd (run_state m h) = h @ cs \<and> length (filter P cs) + n \<le> n"
    by (auto simp: list_all_iff filter_empty_conv)
qed

lemma spends_after_quiet:
  "appends (\<lambda>c. \<not> P c) m \<Longrightarrow> (\<And>x. spends P n (f x) r) \<Longrightarrow> spends P n (State_Monad.bind m f) r"
  by (rule spends_bind [OF spends_quiet])

lemma spends_one: "spends P n (ask g c) (\<lambda>_. n - 1)" if "0 < n"
  using that by (auto simp: spends_def)

lemma spends_weaken: "spends P n m r \<Longrightarrow> n \<le> n' \<Longrightarrow> (\<And>x. r' x \<le> r x) \<Longrightarrow> spends P n' m r'"
  unfolding spends_def by (meson add_le_mono dual_order.trans order_refl)

subsection \<open>Drains and the tracker\<close>

definition starts_drain :: "kcall \<Rightarrow> bool" where
  "starts_drain c = (case c of PatchPod p q \<Rightarrow> drain_state p = [] \<and> drain_state q \<noteq> [] | _ \<Rightarrow> False)"

text \<open>Most of a pass is free of drains: it leaves the drain state of every pod it patches as it is.\<close>

definition sets_drain :: "kcall \<Rightarrow> bool" where
  "sets_drain c = (case c of PatchPod p q \<Rightarrow> drain_state q \<noteq> drain_state p | _ \<Rightarrow> False)"

abbreviation drain_free :: "'a kio \<Rightarrow> bool" where
  "drain_free \<equiv> appends (\<lambda>c. \<not> sets_drain c)"

lemma starts_sets_drain: "starts_drain c \<Longrightarrow> sets_drain c"
  by (auto simp: starts_drain_def sets_drain_def split: kcall.splits)

lemma drain_free_starts: "drain_free m \<Longrightarrow> appends (\<lambda>c. \<not> starts_drain c) m"
  by (erule appends_imp) (use starts_sets_drain in blast)

lemma spends_after_free [spends_intros]:
  "drain_free m \<Longrightarrow> (\<And>x. spends starts_drain n (f x) r) \<Longrightarrow> spends starts_drain n (State_Monad.bind m f) r"
  by (intro spends_after_quiet drain_free_starts)

text \<open>What a tracker leaves, and what a result leaves: an error ends the pass.\<close>

definition room :: "shardRolloutTracker \<Rightarrow> nat" where
  "room t = (if HasStarted t then 0 else 1)"

definition left :: "shardRolloutTracker \<times> 'e option \<Rightarrow> nat" where
  "left r = (if snd r = None then room (fst r) else 0)"

abbreviation drains_within :: "nat \<Rightarrow> 'a kio \<Rightarrow> ('a \<Rightarrow> shardRolloutTracker \<times> 'e option) \<Rightarrow> bool" where
  "drains_within n m out \<equiv> spends starts_drain n m (\<lambda>x. left (out x))"

lemma room_simps [simp]:
  "room (SetStarted t) = 0" "room (block w t) = room t"
  "room (t\<lparr>tr_waiting_for_recovery := b\<rparr>) = room t" "room (t\<lparr>tr_unready_decided := b\<rparr>) = room t"
  "room (t\<lparr>tr_unready_pending := b\<rparr>) = room t" "room (t\<lparr>tr_unready_deferred := b\<rparr>) = room t"
  "room (SetSurgeStarted c t) = room t"
  by (simp_all add: room_def SetStarted_def HasStarted_def block_def SetSurgeStarted_def)

lemma left_simps [simp]: "left (t, None) = room t" "left (t, Some err) = 0"
  by (simp_all add: left_def)

lemma left_le_room [simp]: "left (t, e) \<le> room t"
  by (simp add: left_def)

lemma room_pos: "\<not> HasStarted t \<Longrightarrow> 0 < room t" and room_le: "room t \<le> 1"
  by (simp_all add: room_def)

lemma sets_drain_simps [simp]:
  "\<not> sets_drain (ListPods l ns sel)" "\<not> sets_drain (ListPvcs l ns sel)"
  "\<not> sets_drain (GetPvc l ns n)" "\<not> sets_drain (GetStorageClass c)"
  "\<not> sets_drain (CreatePod p)" "\<not> sets_drain (DeletePod p)" "\<not> sets_drain (CreatePvc v)"
  "\<not> sets_drain (PatchPvc b v w)" "\<not> sets_drain (ApplyObject a n)" "\<not> sets_drain (EmitEvent t r x)"
  "\<not> sets_drain (PatchPod p (annotated AnnotationMaintenanceSurge p))"
  "\<not> sets_drain (PatchPod p (annotated AnnotationMaintenanceReady p))"
  "\<not> sets_drain (PatchPod p (unannotated AnnotationMaintenanceSurge p))"
  "\<not> sets_drain (PatchPod p (unannotated AnnotationMaintenanceReady p))"
  by (simp_all add: sets_drain_def annotated_def unannotated_def str_at_def)

subsection \<open>Reads, claims and surges start no drain\<close>

lemma drain_free_claims [appends_intros]:
  "drain_free (terminating_claim_loop k ns claims)" "drain_free (claim_volumes_loop k ns claims)"
proof -
  show "drain_free (terminating_claim_loop k ns claims)"
    by (induction claims) (auto intro!: appends_intros)
  show "drain_free (claim_volumes_loop k ns claims)"
    by (induction claims) (auto intro!: appends_intros simp: ClearOrphan_def split: prod.split)
qed

lemma drain_free_reads [appends_intros]:
  "drain_free (listDisruptionPods k shd)" "drain_free (mountedTerminatingPVCs k live now shd)"
  "drain_free (podTerminatingClaim k p)" "drain_free (claimPodVolumes k p)"
  "drain_free (isShardHealthy k shd)" "drain_free (selectShardScaleDownPod k shd ps)"
  "drain_free (maintenanceCapacityWithout k shd c n av)" "drain_free (hasMaintenanceCapacityForPod k shd c n)"
  "drain_free (listCellPoolers k shd c)"
  unfolding listDisruptionPods_def mountedTerminatingPVCs_def podTerminatingClaim_def claimPodVolumes_def
    isShardHealthy_def selectShardScaleDownPod_def maintenanceCapacityWithout_def
    hasMaintenanceCapacityForPod_def listCellPoolers_def
  by (auto intro!: appends_intros)

lemma drain_free_ClearOrphan [appends_intros]: "drain_free (ClearOrphan k v)"
  unfolding ClearOrphan_def by (auto intro!: appends_intros split: option.split)

lemma drain_free_create [appends_intros]:
  "\<not> sets_drain c \<Longrightarrow> drain_free (create_or_exists k c)"
  unfolding create_or_exists_def by (auto intro!: appends_intros)

lemma drain_free_storageRequestFor [appends_intros]: "drain_free (storageRequestFor k v n)"
  unfolding storageRequestFor_def by (auto intro!: appends_intros simp: Let_def split: option.split)

lemma drain_free_MarkOrphan [appends_intros]: "drain_free (MarkOrphan k f v uid now)"
  unfolding MarkOrphan_def by (auto intro!: appends_intros simp: Let_def split: option.split)

lemma drain_free_reclaim [appends_intros]: "drain_free (reclaimPVC k w)"
  unfolding reclaimPVC_def by (auto intro!: appends_intros simp: Let_def split: option.split prod.split)

lemma drain_free_expand [appends_intros]: "drain_free (expandPVCIfNeeded k parse w spec)"
  unfolding expandPVCIfNeeded_def
  by (auto intro!: appends_intros simp: Let_def split: option.split sum.split prod.split)

lemma drain_free_ensure [appends_intros]:
  "drain_free (ensure_claim k bl shd poolName cellName poolSpec index vs)"
  unfolding ensure_claim_def take_back_def
  by (auto intro!: appends_intros simp: Let_def split: option.split sum.split prod.split)

lemma drain_free_surge [appends_intros]:
  "drain_free (createOrAdoptMaintenanceSurge k bl shd poolName cellName poolSpec ps vs n)"
  unfolding createOrAdoptMaintenanceSurge_def surge_claim_def create_surge_pod_def
  by (auto intro!: appends_intros simp: Let_def split: option.split sum.split prod.split)

lemma drain_free_scan [appends_intros]: "drain_free (scan_surges k shd s ps)"
  by (induction ps arbitrary: s) (auto intro!: appends_intros split: sum.split)

lemma drain_free_mark [appends_intros]: "drain_free (mark_ready k shd c ps a qs)"
  by (induction qs arbitrary: ps a) (auto intro!: appends_intros simp: Let_def split: sum.split prod.split)

lemma drain_free_missing_pod [appends_intros]:
  "drain_free (create_missing_pod k bl shd poolName cellName poolSpec index s)"
  unfolding create_missing_pod_def
  by (auto intro!: appends_intros simp: Let_def split: option.split sum.split)

lemma drain_free_terminal [appends_intros]: "drain_free (replace_terminal_pod k p s)"
  unfolding replace_terminal_pod_def by (auto intro!: appends_intros split: sum.split)

lemma drain_free_cleanup [appends_intros]:
  "drain_free (releaseDrainedPodPVC k env shd p poolName poolSpec n)"
  "drain_free (cleanupDrainedPod k env shd p poolName poolSpec n)"
proof -
  show *: "drain_free (releaseDrainedPodPVC k env shd p poolName poolSpec n)"
    unfolding releaseDrainedPodPVC_def cleanupPodPVC_def
    by (auto intro!: appends_intros simp: Let_def split: option.split sum.split prod.split)
  show "drain_free (cleanupDrainedPod k env shd p poolName poolSpec n)"
    unfolding cleanupDrainedPod_def by (auto intro!: appends_intros * split: option.split)
qed

lemma drain_free_request [appends_intros]: "drain_free (requestMaintenanceSurge k bl shd p t)"
  unfolding requestMaintenanceSurge_def
  by (auto intro!: appends_intros simp: Let_def split: option.split sum.split)

lemma drain_free_observe [appends_intros]: "drain_free (observeDisruption k env shd given)"
  unfolding observeDisruption_def by (auto intro!: appends_intros split: option.split sum.split)

lemma drain_free_allowed [appends_intros]: "drain_free (disruptionAllowed env shd preflight p)"
  unfolding disruptionAllowed_def recordDisruptionBlocked_def
  by (auto intro!: appends_intros split: option.split)

subsection \<open>The places that start a drain\<close>

lemma spends_initiateDrain:
  "spends starts_drain 1 (initiateDrain k f now p) (\<lambda>_. 0)"
  unfolding initiateDrain_def Let_def
  by (rule spends_bind [OF spends_one]) (auto intro!: spends_intros split: sum.split)

lemma spends_bind_drain:
  assumes "\<And>x. spends starts_drain 0 (f x) r" and "0 < n"
  shows "spends starts_drain n (State_Monad.bind (initiateDrain k fmt now p) f) r"
  by (rule spends_weaken [OF spends_bind [OF spends_initiateDrain assms(1)]]) (use assms(2) in auto)

lemma canStartDisruption_room:
  "run_state (canStartDisruption k env shd p t) h = (r, h') \<Longrightarrow> room (fst r) = room t"
  unfolding canStartDisruption_def
  by (auto simp: Let_def split: if_splits sum.splits prod.splits)

lemma drain_free_can [appends_intros]: "drain_free (canStartDisruption k env shd p t)"
  unfolding canStartDisruption_def recordDisruptionBlocked_def Let_def
  by (auto intro!: appends_intros split: sum.split)

lemma spends_bind_can:
  assumes "\<And>t' a. room t' = n \<Longrightarrow> spends starts_drain n (f (t', a)) r" and "room t = n"
  shows "spends starts_drain n (State_Monad.bind (canStartDisruption k env shd p t) f) r"
  by (rule spends_bind [OF spends_quiet [OF drain_free_starts [OF drain_free_can]]])
    (use assms canStartDisruption_room in \<open>metis prod.collapse\<close>)

abbreviation create_out :: "create_state \<times> pool_error option \<Rightarrow> shardRolloutTracker \<times> pool_error option" where
  "create_out r \<equiv> (cr_tracker (fst r), snd r)"

lemma drain_for_resize_budget:
  assumes "\<not> HasStarted (cr_tracker s)"
  shows "drains_within (room (cr_tracker s)) (drain_for_resize k env shd cellName p s) create_out"
  unfolding drain_for_resize_def Let_def
  using assms
  by (auto intro!: spends_intros appends_intros spends_bind_can spends_bind_drain
      simp: room_pos cr_acted_def split: sum.split option.split)

lemma external_deletion_budget:
  "spends starts_drain 1 (handleExternalDeletion k env p) (\<lambda>_. 0)"
  unfolding handleExternalDeletion_def
  by (auto intro!: spends_intros appends_intros spends_bind_drain split: option.split)

lemma drain_free_external [intro]: "drain_state p \<noteq> [] \<Longrightarrow> drain_free (handleExternalDeletion k env p)"
  unfolding handleExternalDeletion_def by (auto intro!: appends_intros)

lemma terminal_budget:
  "drains_within (room (cr_tracker s)) (replace_terminal_pod k p s) create_out"
  unfolding replace_terminal_pod_def
  by (auto intro!: spends_intros appends_intros split: sum.split)

lemma missing_budget:
  "drains_within (room (cr_tracker s)) (create_missing_pod k bl shd poolName cellName poolSpec index s) create_out"
  unfolding create_missing_pod_def Let_def
  by (auto intro!: spends_intros appends_intros split: sum.split option.split)

lemma spends_bind_external:
  assumes "\<And>e. spends starts_drain 0 (f e) r" and "0 < n"
  shows "spends starts_drain n (State_Monad.bind (handleExternalDeletion k env p) f) r"
  by (rule spends_weaken [OF spends_bind [OF external_deletion_budget assms(1)]]) (use assms(2) in auto)

lemma resize_drifted_budget:
  "\<not> HasStarted (cr_tracker s) \<Longrightarrow>
   drains_within (room (cr_tracker s)) (drain_for_resize k env shd cellName p (s\<lparr>cr_drifted := n\<rparr>)) create_out"
  using drain_for_resize_budget [of "s\<lparr>cr_drifted := n\<rparr>"] by simp

lemma existing_pod_slot_budget:
  "drains_within (room (cr_tracker s)) (existing_pod_slot k bl env shd poolName cellName poolSpec index p s)
     create_out"
  unfolding existing_pod_slot_def Let_def
  by (auto intro!: spends_intros terminal_budget spends_bind_external drain_for_resize_budget
        resize_drifted_budget
      simp: room_pos cr_acted_def split: option.split)

lemma create_slot_budget:
  "drains_within (room (cr_tracker s)) (create_slot k bl env shd poolName cellName poolSpec i s) create_out"
proof -
  have "room (cr_tracker s) = room (cr_tracker (s\<lparr>cr_pvcs := vs\<rparr>))" for vs by simp
  then show ?thesis
    unfolding create_slot_def Let_def
    using existing_pod_slot_budget [of "s\<lparr>cr_pvcs := _\<rparr>"] missing_budget [of "s\<lparr>cr_pvcs := _\<rparr>"]
    by (auto intro!: spends_intros appends_intros split: option.split)
qed

text \<open>The contract of a handler of the pass.\<close>

locale drain_budget =
  fixes run :: "shardRolloutTracker \<Rightarrow> 'r kio" and out :: "'r \<Rightarrow> shardRolloutTracker \<times> 'e option"
  assumes within: "drains_within (room t) (run t) out"
begin

lemma calls:
  obtains cs where "snd (run_state (run t) h) = h @ cs"
    and "length (filter starts_drain cs) + left (out (fst (run_state (run t) h))) \<le> room t"
  using within [of t] unfolding spends_def by blast

lemma at_most_one:
  "\<exists>cs. snd (run_state (run t) h) = h @ cs \<and> length (filter starts_drain cs) \<le> 1"
  using calls [of t h] room_le [of t] by (metis add_leD1 le_trans)

lemma none_once_started:
  "HasStarted t \<Longrightarrow> \<exists>cs. snd (run_state (run t) h) = h @ cs \<and> filter starts_drain cs = []"
  using calls [of t h] by (force simp: room_def)

lemma start_is_recorded:
  assumes "run_state (run t) h = (r, h @ cs)" and "filter starts_drain cs \<noteq> []"
  shows "snd (out r) \<noteq> None \<or> HasStarted (fst (out r))"
proof (rule ccontr)
  assume "\<not> ?thesis"
  then have "left (out r) = 1" by (simp add: left_def room_def)
  moreover have "length (filter starts_drain cs) + left (out r) \<le> room t"
    using calls [of t h] assms(1) by (metis fst_conv same_append_eq snd_conv)
  ultimately show False using assms(2) room_le [of t] by (cases "filter starts_drain cs") auto
qed

end

text \<open>A pass works through its items in order and stops at the first error.\<close>

locale drain_budget_items =
  fixes step :: "'p \<Rightarrow> pass_step"
  assumes item: "drain_budget (step x shd) snd"
begin

lemma loop_within:
  "drains_within (room t) (each_step step xs shd t) snd"
proof (induction xs arbitrary: shd t)
  case (Cons x xs)
  show ?case
    unfolding each_step.simps
    by (rule spends_bind [OF drain_budget.within [OF item]])
      (auto intro!: spends_intros Cons.IH split: option.split)
qed (simp add: spends_return)

end

sublocale drain_budget_items \<subseteq> items: drain_budget "each_step step xs shd" snd for xs shd
  by unfold_locales (rule loop_within)


subsection \<open>The handlers of a pass\<close>

lemma create_slots_budget:
  "drains_within (room (cr_tracker s)) (create_slots k bl env shd poolName cellName poolSpec s is) create_out"
proof (induction "is" arbitrary: s)
  case (Cons i "is")
  show ?case
    unfolding create_slots.simps
    by (rule spends_bind [OF create_slot_budget]) (auto intro!: spends_intros Cons.IH split: option.split)
qed (simp add: spends_return)

interpretation create_missing: drain_budget
  "createMissingResources k bl env shd poolName cellName poolSpec pods pvcs n" create_out
  for k bl env shd poolName cellName poolSpec pods pvcs n
  unfolding createMissingResources_def
  by unfold_locales
    (rule create_slots_budget [where s = "\<lparr>cr_drifted = 0, cr_action_taken = False, cr_tracker = t, cr_pvcs = pvcs,
        cr_pods = pods\<rparr>" for t,
        simplified])

abbreviation scale_out :: "scale_state \<times> scale_error option \<Rightarrow> shardRolloutTracker \<times> scale_error option" where
  "scale_out r \<equiv> (sc_tracker (fst r), snd r)"

lemma external_deletions_budget:
  "drains_within (room (sc_tracker s)) (external_deletions k env s ps) scale_out"
proof (induction ps arbitrary: s)
  case (Cons p ps)
  have "spends starts_drain 0 (external_deletions k env (acted s) ps) (\<lambda>r. left (scale_out r))"
    using Cons.IH [of "acted s"] by (simp add: acted_def)
  then show ?case
    by (auto intro!: spends_intros Cons.IH spends_bind_external simp: room_pos split: option.split)
qed (simp add: spends_return)

lemma delete_drained_budget:
  "drains_within (room (sc_tracker s)) (delete_drained k env shd poolName poolSpec n s ps) scale_out"
proof (induction ps arbitrary: s)
  case (Cons p ps)
  have *: "drains_within (room (sc_tracker s)) (delete_drained k env shd poolName poolSpec n (acted s) ps) scale_out"
    using Cons.IH [of "acted s"] by (auto simp: acted_def elim: spends_weaken)
  have "drains_within (room (sc_tracker s))
      (delete_drained k env shd poolName poolSpec n (s\<lparr>sc_in_progress := True\<rparr>) ps) scale_out"
    using Cons.IH [of "s\<lparr>sc_in_progress := True\<rparr>"] by simp
  with * show ?case
    by (auto intro!: spends_intros appends_intros split: option.split sum.split)
qed (simp add: spends_return)

lemma drain_extra_budget:
  "\<not> HasStarted (sc_tracker s) \<Longrightarrow>
   drains_within (room (sc_tracker s)) (drain_extra k env shd s p) scale_out"
  unfolding drain_extra_def Let_def
  by (auto intro!: spends_intros appends_intros spends_bind_can spends_bind_drain
      simp: room_pos acted_def split: sum.split option.split)

lemma start_scale_down_budget:
  "\<not> HasStarted (sc_tracker s) \<Longrightarrow>
   drains_within (room (sc_tracker s)) (start_scale_down k env shd pods n s extras) scale_out"
  unfolding start_scale_down_def
  by (auto intro!: spends_intros appends_intros drain_extra_budget split: sum.split option.split)

interpretation scale_down: drain_budget
  "handleScaleDown k env shd poolName poolSpec pods n m action" scale_out
  for k env shd poolName poolSpec pods n m action
proof unfold_locales
  fix t
  let ?s = "\<lambda>b. \<lparr>sc_tracker = t, sc_action_taken = action, sc_in_progress = b\<rparr>"
  show "drains_within (room t) (handleScaleDown k env shd poolName poolSpec pods n m action t) scale_out"
    unfolding handleScaleDown_def Let_def
    apply (rule spends_bind [OF external_deletions_budget [of "?s _", simplified]])
    apply (auto intro!: spends_intros spends_bind [OF delete_drained_budget] start_scale_down_budget
          split: option.split)
    done
qed

lemma drain_drifted_budget:
  "\<not> HasStarted t \<Longrightarrow> drains_within (room t) (drain_drifted k env shd cellName event t p) (\<lambda>r. r)"
  unfolding drain_drifted_def
  by (auto intro!: spends_intros appends_intros spends_bind_can spends_bind_drain
      simp: room_pos split: sum.split option.split)

lemma drain_stranded_budget:
  "\<not> HasStarted t \<Longrightarrow> drains_within (room t) (drain_stranded k env shd p t) (\<lambda>r. r)"
  unfolding drain_stranded_def
  by (auto intro!: spends_intros appends_intros spends_bind_drain simp: room_pos split: sum.split option.split)

lemma drain_free_stranded [appends_intros]: "drain_free (topoStrandedPod k env shd pods)"
  unfolding topoStrandedPod_def by (auto intro!: appends_intros simp: Let_def)

lemma drain_free_unready [appends_intros]: "drain_free (unreadyReplacementBlocked k env shd pf p x)"
  unfolding unreadyReplacementBlocked_def Let_def
  by (intro appends_intros)

definition candidate_room :: "candidate_result \<Rightarrow> nat" where
  "candidate_room c = (case c of Held b s \<Rightarrow> 1 | _ \<Rightarrow> 0)"

lemma candidate_room_simps [simp]:
  "candidate_room Drained = 0" "candidate_room (Held b sf) = 1" "candidate_room (CandidateFailed e) = 0"
  by (simp_all add: candidate_room_def)

lemma try_candidates_budget:
  "spends starts_drain 1 (try_candidates k env shd pf xs b sf ps) candidate_room"
proof (induction ps arbitrary: b sf)
  case (Cons p ps)
  from Cons.IH show ?case
    by (auto intro!: spends_intros appends_intros spends_bind_drain simp: Let_def split: sum.split option.split)
qed (simp add: spends_return)

lemma request_surge_budget:
  "drains_within (room t) (requestMaintenanceSurge k bl shd p t) (\<lambda>r. r)"
  unfolding requestMaintenanceSurge_def Let_def
  by (auto intro!: spends_intros appends_intros split: option.split sum.split)

lemma held_budget:
  "drains_within (room t)
     (do { (t', e) \<leftarrow> (case surgeFor of
                        None \<Rightarrow> State_Monad.return (t, None)
                      | Some p \<Rightarrow> requestMaintenanceSurge k bl shd p t);
           State_Monad.return (case e of
              Some err \<Rightarrow> (t', Some err)
            | None \<Rightarrow> (block w (t'\<lparr>tr_waiting_for_recovery := True\<rparr>), None)) }) (\<lambda>r. r)"
proof -
  have "drains_within (room t) (case surgeFor of None \<Rightarrow> State_Monad.return (t, None)
      | Some p \<Rightarrow> requestMaintenanceSurge k bl shd p t) (\<lambda>r. r)"
    by (auto intro: spends_intros request_surge_budget split: option.split)
  then show ?thesis
    by (rule spends_bind) (auto intro!: spends_intros split: option.split)
qed

lemma replace_observed_budget:
  assumes "\<not> HasStarted t"
  shows "drains_within (room t) (replace_observed k bl env shd pods desired t) (\<lambda>r. r)"
proof -
  let ?extras = "unreadyExtras shd pods"
  have room: "room t = 1" using assms by (simp add: room_def)
  have one: "drains_within (room t) (do {
      c \<leftarrow> try_candidates k env shd pf (map p_name ?extras) [] None (replacement_candidates desired ?extras);
      case c of
        CandidateFailed err \<Rightarrow> State_Monad.return (t, Some err)
      | Drained \<Rightarrow> State_Monad.return (SetStarted t, None)
      | Held firstBlock surgeFor \<Rightarrow> do {
          (rollout, e) \<leftarrow> (case surgeFor of
             None \<Rightarrow> State_Monad.return (t, None)
           | Some p \<Rightarrow> requestMaintenanceSurge k bl shd p t);
          State_Monad.return (case e of
             Some err \<Rightarrow> (rollout, Some err)
           | None \<Rightarrow> (block firstBlock (rollout\<lparr>tr_waiting_for_recovery := True\<rparr>), None))
        }
    }) (\<lambda>r. r)" for pf
    unfolding room
    by (rule spends_bind [OF try_candidates_budget])
      (use held_budget [of t] in \<open>auto intro!: spends_intros simp: room split: candidate_result.split\<close>)
  show ?thesis
    unfolding replace_observed_def Let_def
    by (auto intro!: spends_intros appends_intros one split: sum.split option.split)
qed

lemma replace_unready_budget:
  assumes "\<not> HasStarted t"
  shows "drains_within (room t) (replaceUnreadyDriftedPod k bl env shd t) (\<lambda>(t, b, e). (t, e))"
proof -
  let ?t = "t\<lparr>tr_unready_decided := True, tr_unready_pending := True\<rparr>"
  have "drains_within (room t) (replace_observed k bl env shd pods desired ?t) (\<lambda>r. r)" for pods desired
    using replace_observed_budget [of ?t] assms by (simp add: HasStarted_def)
  then have "drains_within (room t) (do { (t', e) \<leftarrow> replace_observed k bl env shd pods desired ?t;
      State_Monad.return (t', True, e) }) (\<lambda>(t, b, e). (t, e))" for pods desired
    by (rule spends_bind) (auto intro!: spends_intros)
  then show ?thesis
    unfolding replaceUnreadyDriftedPod_def Let_def
    by (auto intro!: spends_intros appends_intros split: sum.split option.split list.split)
qed

lemma roll_one_budget:
  "\<not> HasStarted t \<Longrightarrow> drains_within (room t) (roll_one k env shd cellName drifted t) (\<lambda>r. r)"
  unfolding roll_one_def by (auto intro!: spends_intros drain_drifted_budget split: option.split)

lemma not_handled:
  assumes "run_state (replaceUnreadyDriftedPod k bl env shd t) h = ((t', False, None), h')"
  shows "HasStarted t' = HasStarted t"
  using assms unfolding replaceUnreadyDriftedPod_def
  by (auto simp: Let_def HasStarted_def split: if_splits sum.splits option.splits list.splits prod.splits)

lemma start_rolling_budget:
  assumes "\<not> HasStarted t"
  shows "drains_within (room t) (start_rolling k bl env shd poolName cellName poolSpec pods t) (\<lambda>r. r)"
proof -
  have "drains_within (room t) (do {
      (t', handled, e) \<leftarrow> replaceUnreadyDriftedPod k bl env shd t;
      if e \<noteq> None \<or> handled then State_Monad.return (t', e)
      else do {
        r \<leftarrow> isShardHealthy k shd;
        case r of
          Inl err \<Rightarrow> State_Monad.return (t', Some (DisruptionFailed err))
        | Inr healthy \<Rightarrow>
            if \<not> healthy then State_Monad.return (t', None)
            else roll_one k env shd cellName (drifted_pods bl shd poolName cellName poolSpec pods) t'
      } }) (\<lambda>r. r)"
    by (rule spends_bind [OF replace_unready_budget [OF assms]])
      (use assms in \<open>auto intro!: spends_intros appends_intros roll_one_budget dest!: not_handled split: sum.split\<close>)
  then show ?thesis
    unfolding start_rolling_def
    by (auto intro!: spends_intros appends_intros drain_stranded_budget assms split: option.split)
qed

interpretation rolling: drain_budget
  "handleRollingUpdates k bl env setStatus shd poolName cellName poolSpec pods n action draining" snd
  for k bl env setStatus shd poolName cellName poolSpec pods n action draining
proof unfold_locales
  fix t
  have "drains_within (room t) (do { (t', e) \<leftarrow> start_rolling k bl env shd' poolName cellName poolSpec pods t;
      State_Monad.return (shd', t', e) }) snd" if "\<not> HasStarted t" for shd'
    by (rule spends_bind [OF start_rolling_budget [OF that]]) (auto intro!: spends_intros)
  then show "drains_within (room t)
      (handleRollingUpdates k bl env setStatus shd poolName cellName poolSpec pods n action draining t) snd"
    unfolding handleRollingUpdates_def Let_def by (auto intro!: spends_intros)
qed

interpretation cell_surge: drain_budget
  "reconcileCellMaintenanceSurge k bl shd poolName cellName poolSpec pods pvcs n" "\<lambda>(s, e). (sr_tracker s, e)"
  for k bl shd poolName cellName poolSpec pods pvcs n
  unfolding reconcileCellMaintenanceSurge_def Let_def
  by unfold_locales (auto intro!: spends_intros appends_intros split: sum.split option.split prod.split)

lemma pool_phases_budget:
  "drains_within (room t) (pool_phases k bl env setStatus shd poolName cellName poolSpec pods pvcs t) snd"
  unfolding pool_phases_def Let_def
  by (rule spends_bind [OF cell_surge.within])
    (auto intro!: spends_intros spends_bind [OF create_missing.within] spends_bind [OF scale_down.within]
      rolling.within)

interpretation pool_pods: drain_budget
  "reconcilePoolPods k bl env setStatus shd poolName cellName poolSpec" snd
  for k bl env setStatus shd poolName cellName poolSpec
  unfolding reconcilePoolPods_def Let_def
  by unfold_locales (auto intro!: spends_intros appends_intros pool_phases_budget split: sum.split)

lemma drain_free_service [appends_intros]:
  "drain_free (reconcilePoolHeadlessService k bl shd poolName cellName poolSpec)"
  unfolding reconcilePoolHeadlessService_def by (auto intro!: appends_intros split: sum.split)

interpretation cells: drain_budget_items "reconcile_cell k bl env setStatus poolName poolSpec"
  for k bl env setStatus poolName poolSpec
proof (unfold_locales, unfold reconcile_cell_def)
  fix x shd t
  show "drains_within (room t) (do {
     (shd, rollout, e) \<leftarrow> reconcilePoolPods k bl env setStatus shd poolName x poolSpec t;
     case e of
       Some err \<Rightarrow> State_Monad.return (shd, rollout, Some err)
     | None \<Rightarrow> do {
         e \<leftarrow> reconcilePoolHeadlessService k bl shd poolName x poolSpec;
         State_Monad.return (shd, rollout, e)
       } }) snd"
    by (rule spends_bind [OF pool_pods.within]) (auto intro!: spends_intros appends_intros split: option.split)
qed

lemma reconcilePool_budget:
  "drains_within (room t) (reconcilePool k bl env setStatus pool shd t) snd"
  unfolding reconcilePool_def by (auto intro!: spends_intros cells.loop_within)

interpretation pools: drain_budget_items "reconcile_or_report k bl env setStatus"
  for k bl env setStatus
proof (unfold_locales, unfold reconcile_or_report_def)
  fix x shd t
  show "drains_within (room t) (do {
     (shd, rollout, e) \<leftarrow> reconcilePool k bl env setStatus x shd t;
     case e of
       None \<Rightarrow> State_Monad.return (shd, rollout, None)
     | Some err \<Rightarrow> do {
         emit (EmitEvent ''Warning'' ''FailedApply'' (fst x));
         State_Monad.return (shd, rollout, Some err)
       } }) snd"
    by (rule spends_bind [OF reconcilePool_budget]) (auto intro!: spends_intros appends_intros split: option.split)
qed

subsection \<open>The pass\<close>

text \<open>
  C2: one pass over the pools of a shard (\<^const>\<open>reconcilePools\<close>: every pool and every cell of it, with its
  maintenance surge, creation, scale-down and rolling update, the external deletions among them) starts
  at most one drain, whatever the API server answers to any call and whatever the data plane reports:
  of the calls it makes, at most one gives a pod without a drain state a drain state.\<close>

theorem one_drain_per_pass:
  "\<exists>cs. snd (run_state (reconcilePools k bl env setStatus shd) h) = h @ cs
      \<and> length (filter starts_drain cs) \<le> 1"
proof -
  obtain cs where cs: "snd (run_state (each_step (reconcile_or_report k bl env setStatus) (s_pools shd) shd
      emptyTracker) h) = h @ cs" "length (filter starts_drain cs) \<le> 1"
    using pools.items.at_most_one [of k bl env setStatus "s_pools shd" shd emptyTracker h] by blast
  then show ?thesis
    unfolding reconcilePools_def Let_def by (auto simp: split_beta)
qed

end
