(* ===== verification/Drain_Evidence.thy ===== *)
theory Drain_Evidence
  imports One_Disruption
begin

text \<open>
  Why a drain may start. Every drain that a pass over a shard starts rests on evidence the pass itself
  gathered before it, of one of three kinds: somebody else is deleting the pod; the disruption preflight
  passed for it; or the pod is stranded on an earlier topology, in which no pooler is live under its
  name. The evidence survives later calls, so it is enough that each handler obtains it before it patches.

  The pass updates the conditions of the shard as it goes; the evidence does not depend on them.
\<close>

definition stranded_clear :: "kube \<Rightarrow> disruption_env \<Rightarrow> shard \<Rightarrow> history \<Rightarrow> pod \<Rightarrow> bool" where
  "stranded_clear k env shd h p \<longleftrightarrow>
     podTopoDrifted (Some p) shd \<and> no_terminating_claims k h (de_now env) shd
     \<and> (\<exists>pods getPoolers names live.
          seen (k_list_pods k) h (ListPods True (s_namespace shd) (pool_selector shd)) (Inr pods)
          \<and> \<not> list_ex is_busy pods \<and> de_store env = Some getPoolers \<and> p_name p \<in> set names
          \<and> LivePoolerPods getPoolers shd names = Inr live \<and> map_of live (p_name p) \<noteq> Some True)"

definition drain_evidence :: "kube \<Rightarrow> disruption_env \<Rightarrow> shard \<Rightarrow> history \<Rightarrow> pod \<Rightarrow> bool" where
  "drain_evidence k env shd h p \<longleftrightarrow>
     \<not> is_zero_ptr (p_deletion p) \<or> preflight_passed k env shd h p \<or> stranded_clear k env shd h p"

lemma conditions_unread [simp]:
  fixes shd :: shard
  shows "pool_selector (shd\<lparr>s_conditions := conds\<rparr>) = pool_selector shd"
    and "shardSelector (shd\<lparr>s_conditions := conds\<rparr>) = shardSelector shd"
    and "podTopoDrifted x (shd\<lparr>s_conditions := conds\<rparr>) = podTopoDrifted x shd"
    and "CollectCells (shd\<lparr>s_conditions := conds\<rparr>) = CollectCells shd"
    and "Check lib ob (shd\<lparr>s_conditions := conds\<rparr>) t = Check lib ob shd t"
proof -
  let ?shd = "shd\<lparr>s_conditions := conds\<rparr>"
  show "pool_selector ?shd = pool_selector shd" "shardSelector ?shd = shardSelector shd"
    "CollectCells ?shd = CollectCells shd"
    by (simp_all add: pool_selector_def shardSelector_def CollectCells_def)
  have reads: "s_pod_roles ?shd = s_pod_roles shd" "s_topo_address ?shd = s_topo_address shd"
    "s_topo_root ?shd = s_topo_root shd"
    by simp_all
  show "podTopoDrifted x ?shd = podTopoDrifted x shd" unfolding podTopoDrifted_def reads ..
  show "Check lib ob ?shd t = Check lib ob shd t" unfolding Check_def reads ..
qed

lemma observation_unread [simp]:
  fixes shd :: shard
  shows "ObserveDisruption lib g rpc (shd\<lparr>s_conditions := conds\<rparr>) names = ObserveDisruption lib g rpc shd names"
    and "observe_pods env (shd\<lparr>s_conditions := conds\<rparr>) pods ts = observe_pods env shd pods ts"
    and "disruptionCheck env (shd\<lparr>s_conditions := conds\<rparr>) pf p = disruptionCheck env shd pf p"
proof -
  show o: "ObserveDisruption lib g rpc (shd\<lparr>s_conditions := conds\<rparr>) names = ObserveDisruption lib g rpc shd names"
    for lib g rpc names unfolding ObserveDisruption_def conditions_unread ..
  show "observe_pods env (shd\<lparr>s_conditions := conds\<rparr>) pods ts = observe_pods env shd pods ts"
    unfolding observe_pods_def o ..
  show "disruptionCheck env (shd\<lparr>s_conditions := conds\<rparr>) pf p = disruptionCheck env shd pf p"
    by (simp add: disruptionCheck_def)
qed

lemma preflight_conditions [simp]:
  "preflight_passed k env (shd\<lparr>s_conditions := conds\<rparr>) h p = preflight_passed k env shd h p"
  by (simp add: preflight_passed_def no_terminating_claims_def)

lemma stranded_conditions [simp]:
  "stranded_clear k env (shd\<lparr>s_conditions := conds\<rparr>) h p = stranded_clear k env shd h p"
  by (simp add: stranded_clear_def no_terminating_claims_def LivePoolerPods_def)

definition drain_guard :: "kube \<Rightarrow> disruption_env \<Rightarrow> shard \<Rightarrow> history \<Rightarrow> kcall \<Rightarrow> bool" where
  "drain_guard k env shd h c =
     (sets_drain c \<longrightarrow> (case c of PatchPod p q \<Rightarrow> drain_state p = [] \<and> drain_evidence k env shd h p | _ \<Rightarrow> True))"

lemma drain_evidenceI:
  "preflight_passed k env (shd\<lparr>s_conditions := conds\<rparr>) h p \<Longrightarrow> drain_evidence k env shd h p"
  "stranded_clear k env (shd\<lparr>s_conditions := conds\<rparr>) h p \<Longrightarrow> drain_evidence k env shd h p"
  "\<not> is_zero_ptr (p_deletion p) \<Longrightarrow> drain_evidence k env shd h p"
  by (simp_all add: drain_evidence_def)

lemma stranded_clear_mono: "stranded_clear k env shd h p \<Longrightarrow> stranded_clear k env shd (h @ cs) p"
  unfolding stranded_clear_def using seen_mono no_terminating_claims_mono by metis

lemma drain_evidence_mono: "drain_evidence k env shd h p \<Longrightarrow> drain_evidence k env shd (h @ cs) p"
  unfolding drain_evidence_def using preflight_passed_mono stranded_clear_mono by metis

subsection \<open>The rules\<close>

lemma keeps_drain_free: "drain_free m \<Longrightarrow> keeps (drain_guard k env shd) m h"
  by (erule keeps_appends) (simp add: drain_guard_def)

lemma drain_free_run: "drain_free m \<Longrightarrow> run_state m h = (x, h') \<Longrightarrow> \<exists>cs. h' = h @ cs"
  unfolding appends_def by (metis snd_conv)

named_theorems evidence_intros \<open>evidence for drains under the monad's operations\<close>

lemma keeps_after_quiet [evidence_intros]:
  assumes "drain_free m" and "\<And>x cs. keeps (drain_guard k env shd) (f x) (h @ cs)"
  shows "keeps (drain_guard k env shd) (State_Monad.bind m f) h"
  by (rule keeps_bind [OF keeps_drain_free [OF assms(1)]])
    (use drain_free_run [OF assms(1)] assms(2) in blast)

lemmas [evidence_intros] = keeps_return

lemma keeps_bind_drain [evidence_intros]:
  assumes "drain_state p = [] \<and> drain_evidence k env shd h p" and "\<And>x cs. keeps (drain_guard k env shd) (f x) (h @ cs)"
  shows "keeps (drain_guard k env shd) (State_Monad.bind (initiateDrain k fmt now p) f) h"
proof (rule keeps_bind)
  show "keeps (drain_guard k env shd) (initiateDrain k fmt now p) h"
    unfolding initiateDrain_def Let_def using assms(1)
    by (auto simp: keeps_def drain_guard_def split: sum.split)
  show "keeps (drain_guard k env shd) (f x) h'" if "run_state (initiateDrain k fmt now p) h = (x, h')" for x h'
    using that assms(2) by (simp add: run_initiateDrain) blast
qed

lemma keeps_bind_can [evidence_intros]:
  fixes shd :: shard and conds defines "shd' \<equiv> shd\<lparr>s_conditions := conds\<rparr>"
  assumes "\<And>t' a cs. (a = Inr True \<Longrightarrow> drain_evidence k env shd (h @ cs) p)
    \<Longrightarrow> keeps (drain_guard k env shd) (f (t', a)) (h @ cs)"
  shows "keeps (drain_guard k env shd) (State_Monad.bind (canStartDisruption k env shd' p t) f) h"
proof (rule keeps_bind [OF keeps_drain_free [OF drain_free_can]])
  fix x h' assume "run_state (canStartDisruption k env shd' p t) h = (x, h')"
  moreover obtain t' a where "x = (t', a)" by force
  ultimately show "keeps (drain_guard k env shd) (f x) h'"
    using run_canStartDisruption [of k env shd' p t h t' a h'] assms(2) drain_evidenceI(1)
    unfolding shd'_def by blast
qed

subsection \<open>Creation, scale-down and rolling updates\<close>

lemma external_evidence [evidence_intros]:
  "\<not> is_zero_ptr (p_deletion p) \<Longrightarrow> keeps (drain_guard k env shd) (handleExternalDeletion k env p) h"
  unfolding handleExternalDeletion_def
  by (auto intro!: evidence_intros appends_intros drain_evidenceI(3) split: option.split)

lemma keeps_bind_any:
  assumes "keeps G m h" and "\<And>x cs. keeps G (f x) (h @ cs)"
  shows "keeps G (State_Monad.bind m f) h"
  by (rule keeps_bind [OF assms(1)]) (use assms in \<open>auto simp: keeps_def\<close>)

lemma resize_evidence:
  "drain_state p = [] \<Longrightarrow> keeps (drain_guard k env shd) (drain_for_resize k env (shd\<lparr>s_conditions := conds\<rparr>) cellName p s) h"
  unfolding drain_for_resize_def Let_def
  by (auto intro!: appends_intros evidence_intros split: sum.split option.split)

lemma drain_extra_evidence:
  "drain_state p = [] \<Longrightarrow> keeps (drain_guard k env shd) (drain_extra k env (shd\<lparr>s_conditions := conds\<rparr>) s p) h"
  unfolding drain_extra_def Let_def
  by (auto intro!: appends_intros evidence_intros drain_evidence_mono
      simp del: append_assoc split: sum.split option.split)

lemma drain_drifted_evidence:
  "drain_state p = [] \<Longrightarrow> keeps (drain_guard k env shd) (drain_drifted k env (shd\<lparr>s_conditions := conds\<rparr>) cellName event t p) h"
  unfolding drain_drifted_def
  by (auto intro!: appends_intros evidence_intros split: sum.split option.split)


lemma slot_evidence:
  "keeps (drain_guard k env shd)
     (existing_pod_slot k bl env (shd\<lparr>s_conditions := conds\<rparr>) poolName cellName poolSpec index p s) h"
  unfolding existing_pod_slot_def Let_def
  by (auto intro!: keeps_drain_free [OF drain_free_terminal] keeps_bind_any resize_evidence external_evidence keeps_return
      split: option.split)

lemma create_slot_evidence:
  "keeps (drain_guard k env shd)
     (create_slot k bl env (shd\<lparr>s_conditions := conds\<rparr>) poolName cellName poolSpec i s) h"
  unfolding create_slot_def Let_def
  by (auto intro!: appends_intros evidence_intros slot_evidence
      keeps_drain_free [OF drain_free_missing_pod] split: option.split)

lemma create_slots_evidence:
  "keeps (drain_guard k env shd)
     (create_slots k bl env (shd\<lparr>s_conditions := conds\<rparr>) poolName cellName poolSpec s is) h"
  by (induction "is" arbitrary: s h)
    (auto intro!: keeps_bind_any keeps_return create_slot_evidence split: option.split)

lemma external_deletions_evidence:
  "keeps (drain_guard k env shd) (external_deletions k env s ps) h"
  by (induction ps arbitrary: s h)
    (auto intro!: keeps_return keeps_bind_any external_evidence split: option.split)

lemma drain_free_delete_drained [appends_intros]:
  "drain_free (delete_drained k env shd poolName poolSpec n s ps)"
  by (induction ps arbitrary: s) (auto intro!: appends_intros split: option.split sum.split)

lemma start_scale_down_evidence:
  "keeps (drain_guard k env shd) (start_scale_down k env (shd\<lparr>s_conditions := conds\<rparr>) pods n s extras) h"
  unfolding start_scale_down_def
  by (auto intro!: appends_intros evidence_intros drain_extra_evidence split: sum.split option.split)

lemma scale_down_evidence:
  "keeps (drain_guard k env shd)
     (handleScaleDown k env (shd\<lparr>s_conditions := conds\<rparr>) poolName poolSpec pods n m action t) h"
  unfolding handleScaleDown_def Let_def
  by (auto intro!: keeps_bind_any external_deletions_evidence keeps_drain_free [OF drain_free_delete_drained]
      start_scale_down_evidence keeps_return split: option.split)

text \<open>A scale-down that takes no action and sees nothing in progress has found no pod of the pool under drain.\<close>

lemma external_deletions_state:
  "run_state (external_deletions k env s ps) h = ((s', e), h') \<Longrightarrow>
   sc_in_progress s' = sc_in_progress s \<and> (sc_action_taken s \<longrightarrow> sc_action_taken s')"
proof (induction ps arbitrary: s h)
  case (Cons p ps)
  from Cons.prems show ?case
    by (auto simp: split_beta acted_def split: if_splits option.splits dest!: Cons.IH)
qed simp

lemma delete_drained_state:
  "run_state (delete_drained k env shd poolName poolSpec n s ps) h = ((s', None), h') \<Longrightarrow>
   (sc_in_progress s \<longrightarrow> sc_in_progress s') \<and> (sc_action_taken s \<longrightarrow> sc_action_taken s')
   \<and> (ps \<noteq> [] \<longrightarrow> sc_in_progress s' \<or> sc_action_taken s')"
proof (induction ps arbitrary: s h)
  case (Cons p ps)
  from Cons.prems show ?case
    by (auto simp: split_beta acted_def split: if_splits option.splits sum.splits dest!: Cons.IH)
qed simp

lemma start_scale_down_state:
  "run_state (start_scale_down k env shd pods n s extras) h = ((s', None), h') \<Longrightarrow>
   sc_in_progress s' = sc_in_progress s \<and> (sc_action_taken s \<longrightarrow> sc_action_taken s')"
  unfolding start_scale_down_def drain_extra_def
  by (auto simp: split_beta Let_def acted_def split: if_splits option.splits sum.splits)

lemma scale_down_idle:
  assumes "run_state (handleScaleDown k env shd poolName poolSpec pods n m action t) h = ((s, None), h')"
    and "\<not> sc_action_taken s" and "\<not> sc_in_progress s"
  shows "\<forall>p\<in>snd ` set pods. drain_state p = []"
proof -
  let ?others = "filter (\<lambda>p. \<not> ready_for_deletion p) (in_name_order pods)"
  let ?drained = "filter ready_for_deletion (in_name_order pods)"
  let ?s = "\<lparr>sc_tracker = t, sc_action_taken = action, sc_in_progress = list_ex is_busy ?others\<rparr>"
  obtain s1 e1 h1 where ex: "run_state (external_deletions k env ?s (filter (is_extra m) ?others)) h = ((s1, e1), h1)"
    by (metis surj_pair)
  with assms(1) have "e1 = None" by (auto simp: handleScaleDown_def Let_def split: option.splits)
  moreover obtain s2 e2 h2 where del: "run_state (delete_drained k env shd poolName poolSpec n s1 ?drained) h1 = ((s2, e2), h2)"
    by (metis surj_pair)
  ultimately have "e2 = None" using assms(1) ex by (auto simp: handleScaleDown_def Let_def split: option.splits)
  have "s = s2 \<or> (\<exists>g. run_state (start_scale_down k env shd pods m s2 (filter (is_extra m) ?others)) h2 = ((s, None), g))"
    using assms(1) ex del \<open>e1 = None\<close> \<open>e2 = None\<close> by (auto simp: handleScaleDown_def Let_def split: if_splits)
  then have s2: "\<not> sc_in_progress s2" "\<not> sc_action_taken s2"
    using assms(2,3) start_scale_down_state by blast+
  with delete_drained_state [OF del [unfolded \<open>e2 = None\<close>]] have none: "?drained = []" "\<not> sc_in_progress s1" by auto
  with external_deletions_state [OF ex] have "\<not> list_ex is_busy ?others" by simp
  with none(1) show ?thesis
    by (auto simp: list_ex_iff is_busy_def filter_empty_conv set_in_name_order)
qed

lemma scale_down_idle_pod:
  "run_state (handleScaleDown k env shd poolName poolSpec pods n m action t) h = ((s, None), h') \<Longrightarrow>
   \<not> sc_action_taken s \<Longrightarrow> \<not> sc_in_progress s \<Longrightarrow> (name, p) \<in> set pods \<Longrightarrow> drain_state p = []"
  using scale_down_idle by force

text \<open>Candidates that are drifted and not ready: the check each must pass is on one observation.\<close>

lemma unready_unblocked:
  assumes "run_state (unreadyReplacementBlocked k env shd pf p x) h = (Inr (None, b), h')"
  shows "disruptionCheck env shd pf p = None"
  using assms unfolding unreadyReplacementBlocked_def
  by (auto simp: Let_def split: if_splits sum.splits option.splits prod.splits)

lemma try_candidates_evidence:
  assumes "\<And>p cs. disruptionCheck env shd' pf p = None \<Longrightarrow> drain_evidence k env shd (h @ cs) p"
    and "\<forall>p\<in>set ps. drain_state p = []"
  shows "keeps (drain_guard k env shd) (try_candidates k env shd' pf xs b sf ps) h"
  using assms
proof (induction ps arbitrary: b sf h)
  case (Cons p ps)
  show ?case
    unfolding try_candidates.simps
  proof (rule keeps_bind [OF keeps_drain_free [OF drain_free_unready]])
    fix r h' assume run: "run_state (unreadyReplacementBlocked k env shd' pf p (p_name p \<in> set xs)) h = (r, h')"
    then obtain cs where h': "h' = h @ cs" using drain_free_run [OF drain_free_unready] by blast
    have ev: "drain_evidence k env shd (h' @ ds) q" if "disruptionCheck env shd' pf q = None" for q ds
      using Cons.prems(1) [OF that, of "cs @ ds"] h' by simp
    have here: "drain_evidence k env shd h' p" if "r = Inr (None, n)" for n
      using ev [of p "[]"] unready_unblocked run that by simp
    show "keeps (drain_guard k env shd) (case r of
        Inl err \<Rightarrow> State_Monad.return (CandidateFailed (DisruptionFailed err))
      | Inr (blocked, needsSurge) \<Rightarrow>
         let surgeFor = (if needsSurge \<and> sf = None then Some p else sf)
         in (case blocked of
               Some w \<Rightarrow>
                 try_candidates k env shd' pf xs
                   (if b = [] then ''not replacing pod '' @ p_name p @ '': '' @ block_text env w else b) surgeFor ps
             | None \<Rightarrow> do {
                 (_, e) \<leftarrow> initiateDrain k (de_format_time env) (de_now env) p;
                 case e of
                   Some err \<Rightarrow>
                     State_Monad.return (CandidateFailed (DisruptionFailed (InitiateDrain (p_name p) err)))
                 | None \<Rightarrow> do {
                     emit (EmitEvent ''Normal'' ''PodUpdated'' (p_name p));
                     State_Monad.return Drained
                   }
               })) h'"
      using Cons.IH [of h'] ev here Cons.prems(2)
      by (auto intro!: appends_intros evidence_intros simp: Let_def split: sum.split option.split)
  qed
qed (simp add: keeps_return)

lemma observe_given:
  assumes run: "run_state (observeDisruption k env shd (Some pods)) h = (Inr (Inr pf), h')"
    and pods: "seen (k_list_pods k) h (ListPods True (s_namespace shd) (pool_selector shd)) (Inr pods)"
    and ok: "disruptionCheck env shd pf p = None"
  shows "preflight_passed k env shd h' p"
proof -
  obtain t g where t: "run_state (mountedTerminatingPVCs k True (de_now env) shd) h = (t, g)" by force
  with run obtain ts where ts: "t = Inr ts" "observe_pods env shd pods ts = Inr pf" "h' = g"
    by (auto simp: observeDisruption_def split: sum.splits)
  moreover from ts have "ts = []" by (rule_tac observe_pods_terminating)
  moreover obtain cs where "g = h @ cs" using run_mountedTerminatingPVCs [OF t] by blast
  ultimately show ?thesis
    using run_mountedTerminatingPVCs [OF t] seen_mono [OF pods] ok
    unfolding preflight_passed_def by blast
qed

text \<open>The candidates of a replacement are under no drain.\<close>

definition idle_candidates :: "rolloutCandidates \<Rightarrow> bool" where
  "idle_candidates c \<longleftrightarrow>
     (\<forall>p\<in>set (rc_unready c) \<union> set (rc_ready c) \<union> set_option (rc_primary c). drain_state p = [])"

lemma classify_idle: "idle_candidates (classifyDesiredPods desiredHash shd pods)"
proof -
  have step: "idle_candidates (classify_pod desiredHash shd c p)" if "idle_candidates c" for c p
    using that unfolding classify_pod_def Let_def
    by (auto simp: idle_candidates_def split: option.split)
  have fold: "idle_candidates c \<Longrightarrow> idle_candidates (foldl (classify_pod desiredHash shd) c ps)" for c ps
    by (induction ps arbitrary: c) (simp_all add: step)
  show ?thesis unfolding classifyDesiredPods_def by (rule fold) (simp add: idle_candidates_def)
qed

lemma candidates_idle:
  "idle_candidates desired \<Longrightarrow> p \<in> set (replacement_candidates desired (unreadyExtras shd pods)) \<Longrightarrow> drain_state p = []"
  by (auto simp: replacement_candidates_def idle_candidates_def unreadyExtras_def is_unready_extra_def Let_def
      split: option.splits if_splits)

lemma replace_observed_evidence:
  assumes "seen (k_list_pods k) h (ListPods True (s_namespace shd) (pool_selector shd)) (Inr pods)"
    and "idle_candidates desired"
  shows "keeps (drain_guard k env shd) (replace_observed k bl env (shd\<lparr>s_conditions := conds\<rparr>) pods desired t) h"
proof -
  let ?shd = "shd\<lparr>s_conditions := conds\<rparr>"
  have cand: "keeps (drain_guard k env shd)
      (try_candidates k env ?shd pf xs b sf (replacement_candidates desired (unreadyExtras ?shd pods))) h'"
    if "run_state (observeDisruption k env ?shd (Some pods)) h = (Inr (Inr pf), h')" for h' pf xs b sf
  proof (rule try_candidates_evidence)
    fix p cs assume "disruptionCheck env ?shd pf p = None"
    with observe_given [OF that] assms(1) have "preflight_passed k env ?shd h' p" by simp
    then show "drain_evidence k env shd (h' @ cs) p" by (intro drain_evidence_mono drain_evidenceI(1))
  qed (use candidates_idle [OF assms(2)] in blast)
  show ?thesis
    unfolding replace_observed_def Let_def
    by (rule keeps_bind [OF keeps_drain_free [OF drain_free_observe]])
      (auto intro!: keeps_return keeps_bind_any cand keeps_drain_free [OF drain_free_request]
        split: sum.split option.split candidate_result.split)
qed

lemma replace_unready_evidence:
  "keeps (drain_guard k env shd) (replaceUnreadyDriftedPod k bl env (shd\<lparr>s_conditions := conds\<rparr>) t) h"
proof -
  let ?c = "ListPods True (s_namespace shd) (pool_selector shd)"
  have obs: "keeps (drain_guard k env shd) (replace_observed k bl env (shd\<lparr>s_conditions := conds\<rparr>) pods
      (classifyDesiredPods hash (shd\<lparr>s_conditions := conds\<rparr>) pods) t')
      (h @ [?c])" if "k_list_pods k h ?c = Inr pods" for pods hash t'
    using that by (intro replace_observed_evidence seen_last classify_idle)
  have quiet: "keeps (drain_guard k env shd) (listDisruptionPods k (shd\<lparr>s_conditions := conds\<rparr>)) h"
    by (intro keeps_drain_free appends_intros)
  show ?thesis
  proof (cases "tr_unready_decided t")
    case False
    then show ?thesis
      unfolding replaceUnreadyDriftedPod_def Let_def if_not_P [OF False]
      by (intro keeps_bind [OF quiet])
        (auto intro!: keeps_return keeps_bind_any obs simp: listDisruptionPods_def split: sum.split option.split list.split)
  qed (simp add: replaceUnreadyDriftedPod_def keeps_return)
qed

text \<open>Pods stranded on an earlier topology.\<close>

lemma podTopoDrifted_idle: "podTopoDrifted (Some p) shd \<Longrightarrow> drain_state p = []"
  by (auto simp: podTopoDrifted_def is_busy_def split: if_splits)

lemma run_topoStrandedPod:
  assumes "run_state (topoStrandedPod k env shd pods) h = (Some p, h')"
  shows "podTopoDrifted (Some p) shd
    \<and> (\<exists>shardPods getPoolers names live.
         seen (k_list_pods k) h' (ListPods True (s_namespace shd) (pool_selector shd)) (Inr shardPods)
         \<and> \<not> list_ex is_busy shardPods \<and> de_store env = Some getPoolers \<and> p_name p \<in> set names
         \<and> LivePoolerPods getPoolers shd names = Inr live \<and> map_of live (p_name p) \<noteq> Some True)"
proof -
  let ?c = "ListPods True (s_namespace shd) (pool_selector shd)"
  let ?cand = "filter (\<lambda>p. podTopoDrifted (Some p) shd) (in_name_order pods)"
  from assms have h': "h' = h @ [?c]"
    by (auto simp: topoStrandedPod_def listDisruptionPods_def Let_def split: if_splits)
  from assms obtain shardPods getPoolers live where
      a: "k_list_pods k h ?c = Inr shardPods" "\<not> list_ex is_busy shardPods" "de_store env = Some getPoolers"
        "LivePoolerPods getPoolers shd (map p_name ?cand) = Inr live"
    and f: "find (\<lambda>p. map_of live (p_name p) \<noteq> Some True) ?cand = Some p"
    by (auto simp: topoStrandedPod_def listDisruptionPods_def Let_def
        split: if_splits sum.splits option.splits)
  have p: "p \<in> set ?cand" "map_of live (p_name p) \<noteq> Some True"
    using find_SomeD [OF f] by blast+
  then have "p_name p \<in> set (map p_name ?cand)" "podTopoDrifted (Some p) shd" by auto
  moreover have "seen (k_list_pods k) h' ?c (Inr shardPods)" unfolding h' by (rule seen_last [where f = "k_list_pods k", OF a(1)])
  ultimately show ?thesis using a p(2) by blast
qed

lemma stranded_evidence:
  assumes "run_state (topoStrandedPod k env (shd\<lparr>s_conditions := conds\<rparr>) pods) h = (Some p, h')"
  shows "keeps (drain_guard k env shd) (drain_stranded k env (shd\<lparr>s_conditions := conds\<rparr>) p t) h'"
proof -
  let ?shd = "shd\<lparr>s_conditions := conds\<rparr>"
  have ev: "drain_evidence k env shd g p"
    if "run_state (mountedTerminatingPVCs k True (de_now env) ?shd) h' = (Inr [], g)" for g
  proof -
    from run_mountedTerminatingPVCs [OF that] obtain cs where "g = h' @ cs"
      and "no_terminating_claims k g (de_now env) ?shd" by blast
    with run_topoStrandedPod [OF assms] have "stranded_clear k env ?shd g p"
      unfolding stranded_clear_def by (metis seen_mono)
    then show ?thesis by (rule drain_evidenceI(2))
  qed
  show ?thesis
    unfolding drain_stranded_def
    by (rule keeps_bind [OF keeps_drain_free [OF drain_free_reads(2)]])
      (use podTopoDrifted_idle run_topoStrandedPod [OF assms] in
        \<open>auto intro!: evidence_intros appends_intros dest: ev split: sum.split option.split\<close>)
qed

lemma start_rolling_evidence:
  assumes "\<forall>p\<in>snd ` set pods. drain_state p = []"
  shows "keeps (drain_guard k env shd)
     (start_rolling k bl env (shd\<lparr>s_conditions := conds\<rparr>) poolName cellName poolSpec pods t) h"
proof -
  have roll: "keeps (drain_guard k env shd) (roll_one k env (shd\<lparr>s_conditions := conds\<rparr>) cellName
      (drifted_pods bl shd' poolName cellName poolSpec pods) t') h'" for shd' t' h'
  proof -
    have idle: "drain_state p = []" if "p \<in> set (drifted_pods bl shd' poolName cellName poolSpec pods)" for p
      using that assms by (auto simp: drifted_pods_def set_in_name_order)
    then show ?thesis
      unfolding roll_one_def by (auto intro!: keeps_return drain_drifted_evidence idle dest!: find_SomeD split: option.split)
  qed
  show ?thesis
    unfolding start_rolling_def
    by (rule keeps_bind [OF keeps_drain_free [OF drain_free_stranded]])
      (auto intro!: stranded_evidence keeps_bind_any replace_unready_evidence keeps_return roll
        keeps_drain_free [OF drain_free_reads(5)] split: option.split sum.split)
qed

lemma rolling_evidence:
  "(\<not> action \<Longrightarrow> \<not> draining \<Longrightarrow> \<forall>p\<in>snd ` set pods. drain_state p = []) \<Longrightarrow> keeps (drain_guard k env shd)
     (handleRollingUpdates k bl env setStatus (shd\<lparr>s_conditions := conds\<rparr>) poolName cellName poolSpec pods n
        action draining t) h"
  unfolding handleRollingUpdates_def Let_def
  by (auto intro!: keeps_return keeps_bind_any start_rolling_evidence)

subsection \<open>The pass\<close>

text \<open>A step keeps the shard but for its conditions, and has evidence for its drains.\<close>

definition evidenced :: "kube \<Rightarrow> disruption_env \<Rightarrow> pass_step \<Rightarrow> bool" where
  "evidenced k env step \<longleftrightarrow>
     (\<forall>shd conds t h. keeps (drain_guard k env shd) (step (shd\<lparr>s_conditions := conds\<rparr>) t) h
        \<and> (\<exists>conds'. fst (fst (run_state (step (shd\<lparr>s_conditions := conds\<rparr>) t) h)) = shd\<lparr>s_conditions := conds'\<rparr>))"

locale evidenced_items =
  fixes k :: kube and env :: disruption_env and step :: "'p \<Rightarrow> pass_step"
  assumes item: "evidenced k env (step x)"
begin

lemma loop_evidenced: "evidenced k env (each_step step xs)"
proof (induction xs)
  case Nil
  show ?case by (auto simp: evidenced_def keeps_return)
next
  case (Cons x xs)
  show ?case
    unfolding evidenced_def
  proof (intro allI conjI)
    fix shd conds t h
    obtain shd' t' e h' where run: "run_state (step x (shd\<lparr>s_conditions := conds\<rparr>) t) h = ((shd', t', e), h')"
      by (metis surj_pair)
    with item obtain conds' where shd': "shd' = shd\<lparr>s_conditions := conds'\<rparr>"
      unfolding evidenced_def by (metis fst_conv)
    have first: "keeps (drain_guard k env shd) (step x (shd\<lparr>s_conditions := conds\<rparr>) t) h"
      using item by (simp add: evidenced_def)
    show "keeps (drain_guard k env shd) (each_step step (x # xs) (shd\<lparr>s_conditions := conds\<rparr>) t) h"
      unfolding each_step.simps
      by (rule keeps_bind [OF first]) (use run shd' Cons in \<open>auto simp: evidenced_def keeps_return split: option.split\<close>)
    show "\<exists>conds'. fst (fst (run_state (each_step step (x # xs) (shd\<lparr>s_conditions := conds\<rparr>) t) h))
        = shd\<lparr>s_conditions := conds'\<rparr>"
      using run shd' Cons by (auto simp: evidenced_def split: option.split)
  qed
qed

end

lemma roll_shard:
  "\<exists>conds'. fst (fst (run_state (handleRollingUpdates k bl env setStatus (shd\<lparr>s_conditions := conds\<rparr>) poolName
      cellName poolSpec pods n action draining t) h)) = shd\<lparr>s_conditions := conds'\<rparr>"
  unfolding handleRollingUpdates_def by (auto simp: Let_def split_beta)

lemma pool_phases_evidence:
  "keeps (drain_guard k env shd)
     (pool_phases k bl env setStatus (shd\<lparr>s_conditions := conds\<rparr>) poolName cellName poolSpec pods pvcs t) h"
  "\<exists>conds'. fst (fst (run_state (pool_phases k bl env setStatus (shd\<lparr>s_conditions := conds\<rparr>) poolName cellName
      poolSpec pods pvcs t) h)) = shd\<lparr>s_conditions := conds'\<rparr>"
proof -
  have surge: "drain_free (reconcileCellMaintenanceSurge k bl shd poolName cellName poolSpec pods pvcs n t)" for shd n
    unfolding reconcileCellMaintenanceSurge_def Let_def
    by (auto intro!: appends_intros split: sum.split option.split prod.split)
  show "keeps (drain_guard k env shd)
     (pool_phases k bl env setStatus (shd\<lparr>s_conditions := conds\<rparr>) poolName cellName poolSpec pods pvcs t) h"
    unfolding pool_phases_def Let_def createMissingResources_def
    by (auto intro!: keeps_return keeps_bind_any keeps_drain_free [OF surge] create_slots_evidence
        keeps_bind [OF scale_down_evidence] rolling_evidence) (erule (3) scale_down_idle_pod)
  show "\<exists>conds'. fst (fst (run_state (pool_phases k bl env setStatus (shd\<lparr>s_conditions := conds\<rparr>) poolName cellName
      poolSpec pods pvcs t) h)) = shd\<lparr>s_conditions := conds'\<rparr>"
    unfolding pool_phases_def by (auto simp: Let_def split_beta roll_shard)
qed

interpretation cell_steps: evidenced_items k env "reconcile_cell k bl env setStatus poolName poolSpec"
  for k env bl setStatus poolName poolSpec
proof (unfold_locales, unfold evidenced_def, intro allI conjI)
  fix x t h and shd :: shard and conds :: "condition list"
  let ?shd = "shd\<lparr>s_conditions := conds\<rparr>"
  have pods: "keeps (drain_guard k env shd) (reconcilePoolPods k bl env setStatus ?shd poolName x poolSpec t) h"
    unfolding reconcilePoolPods_def Let_def
    by (auto intro!: evidence_intros appends_intros pool_phases_evidence(1) split: sum.split)
  show "keeps (drain_guard k env shd) (reconcile_cell k bl env setStatus poolName poolSpec x ?shd t) h"
    unfolding reconcile_cell_def
    by (rule keeps_bind_any [OF pods]) (auto intro!: evidence_intros drain_free_service split: option.split)
  have "\<exists>conds'. fst (fst (run_state (reconcilePoolPods k bl env setStatus ?shd poolName x poolSpec t) h))
      = shd\<lparr>s_conditions := conds'\<rparr>"
    unfolding reconcilePoolPods_def by (auto simp: Let_def pool_phases_evidence(2) split: sum.split)
  then show "\<exists>conds'. fst (fst (run_state (reconcile_cell k bl env setStatus poolName poolSpec x ?shd t) h))
      = shd\<lparr>s_conditions := conds'\<rparr>"
    unfolding reconcile_cell_def by (auto simp: split_beta split: option.split)
qed

interpretation pool_steps: evidenced_items k env "reconcile_or_report k bl env setStatus" for k env bl setStatus
proof (unfold_locales, unfold evidenced_def, intro allI conjI)
  fix x t h and shd :: shard and conds :: "condition list"
  let ?shd = "shd\<lparr>s_conditions := conds\<rparr>"
  have pool: "keeps (drain_guard k env shd) (reconcilePool k bl env setStatus x ?shd t) h"
    "\<exists>conds'. fst (fst (run_state (reconcilePool k bl env setStatus x ?shd t) h)) = shd\<lparr>s_conditions := conds'\<rparr>"
    using cell_steps.loop_evidenced [of k env bl setStatus "fst x" "snd x" "ps_cells (snd x)"]
    unfolding reconcilePool_def evidenced_def by (auto simp: keeps_return)
  show "keeps (drain_guard k env shd) (reconcile_or_report k bl env setStatus x ?shd t) h"
    unfolding reconcile_or_report_def
    by (rule keeps_bind_any [OF pool(1)]) (auto intro!: evidence_intros appends_intros split: option.split)
  show "\<exists>conds'. fst (fst (run_state (reconcile_or_report k bl env setStatus x ?shd t) h)) = shd\<lparr>s_conditions := conds'\<rparr>"
    using pool(2) unfolding reconcile_or_report_def by (auto simp: split_beta split: option.split)
qed

lemma pass_evidence: "keeps (drain_guard k env shd) (reconcilePools k bl env setStatus shd) h"
proof -
  have "keeps (drain_guard k env shd)
      (each_step (reconcile_or_report k bl env setStatus) (s_pools shd) (shd\<lparr>s_conditions := s_conditions shd\<rparr>) emptyTracker) h"
    using pool_steps.loop_evidenced unfolding evidenced_def by blast
  then show ?thesis
    unfolding reconcilePools_def Let_def by (auto intro!: keeps_bind_any keeps_return)
qed

lemma pass_drain_evidence:
  assumes "run_state (reconcilePools k bl env setStatus shd) h = (r, h @ before @ PatchPod p q # after)"
    and "starts_drain (PatchPod p q)"
  shows "drain_evidence k env shd (h @ before) p"
proof -
  from pass_evidence [of k env shd bl setStatus h] assms(1)
  have "guarded (drain_guard k env shd) h (before @ PatchPod p q # after)" by (auto simp: keeps_def)
  with assms(2) starts_sets_drain [OF assms(2)] show ?thesis by (simp add: drain_guard_def)
qed

lemma pass_drain_fresh:
  assumes "run_state (reconcilePools k bl env setStatus shd) h = (r, h @ before @ PatchPod p q # after)"
    and "drain_state q \<noteq> drain_state p"
  shows "drain_state p = []"
proof -
  from pass_evidence [of k env shd bl setStatus h] assms(1)
  have "guarded (drain_guard k env shd) h (before @ PatchPod p q # after)" by (auto simp: keeps_def)
  with assms(2) show ?thesis by (simp add: drain_guard_def sets_drain_def)
qed

text \<open>
  C10: no drain without evidence. Every drain that a pass over the pools of a shard starts, in whatever
  pool and handler, is of a pod that somebody else is deleting, or of a pod for which the disruption
  preflight passed on a live listing read earlier in the same pass, or of a pod stranded on an earlier
  topology, which no live pooler is registered under, while no pod of the shard is draining or
  terminating; and for the latter two no mounted claim of the shard was being deleted.
\<close>

theorem every_drain_has_evidence:
  assumes "run_state (reconcilePools k bl env setStatus shd) h = (r, h @ before @ PatchPod p q # after)"
    and "drain_state p = []" and "drain_state q \<noteq> []"
  shows "\<not> is_zero_ptr (p_deletion p)
    \<or> no_terminating_claims k (h @ before) (de_now env) shd
      \<and> (preflight_passed k env shd (h @ before) p \<or> stranded_clear k env shd (h @ before) p)"
  using pass_drain_evidence [OF assms(1)] assms(2,3)
  by (auto simp: starts_drain_def drain_evidence_def preflight_passed_def stranded_clear_def)

subsection \<open>A sample pass\<close>

definition sample_builder :: pool_builder where
  "sample_builder = \<lparr>bl_parse_quantity = (\<lambda>s. Inr 1), bl_set_owner = (\<lambda>shd v. Inr v),
     bl_build_pod = (\<lambda>shd pool cell spec i. Inr sample_pod), bl_spec_hash = (\<lambda>p. ''h''),
     bl_build_service = (\<lambda>shd pool cell spec. Inr ''svc'')\<rparr>"

definition idle_shard :: shard where
  "idle_shard = sample_shard\<lparr>s_pools := [(''main'', sample_pool\<lparr>ps_replicas_per_cell := Some 0\<rparr>)]\<rparr>"

definition pass_kube :: kube where
  "pass_kube = scale_kube [scale_pod 0, scale_pod 1, scale_pod 2]"

definition pass_run :: "(shard \<times> shardRolloutTracker \<times> pool_error option) \<times> history" where
  "pass_run = run_state (reconcilePools pass_kube sample_builder scale_env (\<lambda>cs c. cs @ [c]) idle_shard) []"

lemma pass_run_drains:
  "\<exists>before p q after. run_state (reconcilePools pass_kube sample_builder scale_env (\<lambda>cs c. cs @ [c]) idle_shard) []
      = (fst pass_run, [] @ before @ PatchPod p q # after)
    \<and> drain_state p = [] \<and> drain_state q \<noteq> [] \<and> is_zero_ptr (p_deletion p) \<and> \<not> podTopoDrifted (Some p) idle_shard"
proof -
  let ?P = "\<lambda>c. case c of PatchPod p q \<Rightarrow> drain_state p = [] \<and> drain_state q \<noteq> [] \<and> is_zero_ptr (p_deletion p)
      \<and> \<not> podTopoDrifted (Some p) idle_shard | _ \<Rightarrow> False"
  have "list_ex ?P (snd pass_run)" by code_simp
  from split_call [OF this] obtain before x after where x: "snd pass_run = before @ x # after" "?P x" by blast
  then obtain p q where "x = PatchPod p q" by (cases x) auto
  with x have "pass_run = (fst pass_run, [] @ before @ PatchPod p q # after) \<and> ?P (PatchPod p q)"
    by (metis append_Nil prod.collapse)
  then show ?thesis unfolding pass_run_def by auto
qed

theorem every_drain_has_evidence_witness:
  "\<exists>before. no_terminating_claims pass_kube before (de_now scale_env) idle_shard"
proof -
  from pass_run_drains obtain before p q after where
      run: "run_state (reconcilePools pass_kube sample_builder scale_env (\<lambda>cs c. cs @ [c]) idle_shard) []
        = (fst pass_run, [] @ before @ PatchPod p q # after)"
    and p: "drain_state p = []" "drain_state q \<noteq> []" "is_zero_ptr (p_deletion p)" by blast
  from every_drain_has_evidence [OF run p(1,2)] p(3) show ?thesis by blast
qed

end
