(* ===== verification/Shard_Deletion.thy ===== *)
theory Shard_Deletion
  imports Pool_Storage
begin

text \<open>
  The end of a shard (\<^verbatim>\<open>pkg/resource-handler/controller/shard/reconcile_deletion.go\<close>): the drain of a shard that is to be
  deleted, up to the condition that lets its parent delete it, and the cleanup of a shard that is being deleted. The
  shard's finalizers are an argument; so is the topology store, \<^const>\<open>None\<close> when it cannot be opened. A patch of the shard
  names what it changes; what the server answers to it is taken to be the shard that was sent.
\<close>

abbreviation shardFinalizer :: string where "shardFinalizer \<equiv> ''multigres.com/shard-pvc-orphan''"
abbreviation ConditionReadyForDeletion :: string where "ConditionReadyForDeletion \<equiv> ''ReadyForDeletion''"

definition terminatingTimeout :: duration where "terminatingTimeout = 60 * second"
definition podTerminationRequeueDelay :: duration where "podTerminationRequeueDelay = 2 * second"
definition topoUnavailableRequeueDelay :: duration where "topoUnavailableRequeueDelay = 5 * second"

datatype deletion_error =
    DeletionListFailed string api_error | DeletionDeleteFailed string string api_error
  | DeletionGetClusterFailed api_error | DeletionReleaseFailed string api_error | DeletionMarkFailed string pvc_error
  | FinalizerFailed api_error | DrainInitFailed string api_error | SetReadyFailed api_error

subsection \<open>Claims of a deleted shard\<close>

definition clusterIsChurning :: "kube \<Rightarrow> string \<Rightarrow> string \<Rightarrow> (api_error + bool) kio" where
  "clusterIsChurning k ns clusterName =
     (if clusterName = [] then State_Monad.return (Inr False)
      else do {
        r \<leftarrow> ask (k_get_object k) (GetObject ''MultigresCluster'' ns clusterName);
        State_Monad.return (case r of
          Inl err \<Rightarrow> if err = NotFound then Inr False else Inl err
        | Inr deletion \<Rightarrow> Inr (\<not> is_zero_ptr deletion))
      })"

definition released :: "string \<Rightarrow> pvc \<Rightarrow> pvc" where
  "released uid v = v\<lparr>v_owners := filter (\<lambda>u. u \<noteq> uid) (v_owners v)\<rparr>"

definition releasePVCFromShard :: "kube \<Rightarrow> shard \<Rightarrow> pvc \<Rightarrow> deletion_error option kio" where
  "releasePVCFromShard k shd v =
     (if s_uid shd \<notin> set (v_owners v) then State_Monad.return None
      else do {
        r \<leftarrow> ask (k_patch_pvc k) (PatchPvc False v (released (s_uid shd) v));
        State_Monad.return (case r of
          Inl err \<Rightarrow> if err = NotFound then None else Some (DeletionReleaseFailed (v_name v) err)
        | Inr _ \<Rightarrow> None)
      })"

definition shardPVCShouldBeCleaned :: "shard \<Rightarrow> pvc \<Rightarrow> bool" where
  "shardPVCShouldBeCleaned shd v =
     (if \<not> isShardBuiltPVC shd v then False
      else let poolName = str_at (v_labels v) LabelMultigresPool
           in if poolName = [] then ShouldDeleteShardLevelPVCOnRemoval shd
              else case map_of (s_pools shd) poolName of
                     None \<Rightarrow> ShouldDeleteShardLevelPVCOnRemoval shd
                   | Some poolSpec \<Rightarrow> ShouldDeletePVCOnShardRemoval shd poolSpec)"

definition cleanup_claim :: "kube \<Rightarrow> (gotime \<Rightarrow> string) \<Rightarrow> gotime \<Rightarrow> shard \<Rightarrow> bool \<Rightarrow> pvc \<Rightarrow> deletion_error option kio" where
  "cleanup_claim k formatStamp now shd churning v =
     (if \<not> shardPVCShouldBeCleaned shd v then releasePVCFromShard k shd v
      else if churning then do {
        w \<leftarrow> ask (k_write k) (DeletePvc None v);
        State_Monad.return (case w of
          None \<Rightarrow> None
        | Some err \<Rightarrow> if err = NotFound then None else Some (DeletionDeleteFailed ''PersistentVolumeClaim'' (v_name v) err))
      }
      else do {
        (_, e) \<leftarrow> MarkOrphan k formatStamp (Some v) (s_uid shd) now;
        State_Monad.return (map_option (DeletionMarkFailed (v_name v)) e)
      })"

fun each_until :: "('a \<Rightarrow> 'e option kio) \<Rightarrow> 'a list \<Rightarrow> 'e option kio" where
  "each_until f [] = State_Monad.return None"
| "each_until f (x # xs) = do {
     e \<leftarrow> f x;
     case e of None \<Rightarrow> each_until f xs | Some err \<Rightarrow> State_Monad.return (Some err)
   }"

definition cleanupShardPVCs :: "kube \<Rightarrow> (gotime \<Rightarrow> string) \<Rightarrow> gotime \<Rightarrow> shard \<Rightarrow> deletion_error option kio" where
  "cleanupShardPVCs k formatStamp now shd = do {
     r \<leftarrow> ask (k_list_pvcs k) (ListPvcs False (s_namespace shd) (shardSelector shd));
     case r of
       Inl err \<Rightarrow> State_Monad.return (Some (DeletionListFailed ''PVCs'' err))
     | Inr claims \<Rightarrow> do {
         c \<leftarrow> clusterIsChurning k (s_namespace shd) (str_at (s_labels shd) LabelMultigresCluster);
         case c of
           Inl err \<Rightarrow> State_Monad.return (Some (DeletionGetClusterFailed err))
         | Inr churning \<Rightarrow> each_until (cleanup_claim k formatStamp now shd churning) claims
       }
   }"

subsection \<open>A shard that is being deleted\<close>

definition delete_deployment :: "kube \<Rightarrow> string \<times> gotime option \<Rightarrow> deletion_error option kio" where
  "delete_deployment k = (\<lambda>(name, deletion).
     if is_zero_ptr deletion then do {
       w \<leftarrow> ask (k_write k) (DeleteObject ''Deployment'' name);
       State_Monad.return (case w of
         None \<Rightarrow> None
       | Some err \<Rightarrow> if err = NotFound then None else Some (DeletionDeleteFailed ''Deployment'' name err))
     }
     else State_Monad.return None)"

definition stuck_terminating :: "gotime \<Rightarrow> pod \<Rightarrow> bool" where
  "stuck_terminating now p \<longleftrightarrow> (case p_deletion p of None \<Rightarrow> False | Some t \<Rightarrow> terminatingTimeout \<le> now - t)"

text \<open>The loop over the pods gives how many block the cleanup.\<close>

fun delete_pods :: "kube \<Rightarrow> gotime \<Rightarrow> pod list \<Rightarrow> nat \<Rightarrow> (deletion_error + nat) kio" where
  "delete_pods k now [] blocking = State_Monad.return (Inr blocking)"
| "delete_pods k now (p # ps) blocking =
     (if is_zero_ptr (p_deletion p) then do {
        w \<leftarrow> ask (k_write k) (DeletePod p);
        case w of
          Some err \<Rightarrow>
            if err = NotFound then delete_pods k now ps (Suc blocking)
            else State_Monad.return (Inl (DeletionDeleteFailed ''Pod'' (p_name p) err))
        | None \<Rightarrow> delete_pods k now ps (Suc blocking)
      }
      else delete_pods k now ps (if stuck_terminating now p then blocking else Suc blocking))"

definition remove_finalizer :: "kube \<Rightarrow> shard \<Rightarrow> string list \<Rightarrow> deletion_error option kio" where
  "remove_finalizer k shd finalizers =
     (if shardFinalizer \<in> set finalizers then do {
        w \<leftarrow> ask (k_write k) (PatchObject ''Shard'' (s_name shd) ''finalizers'');
        State_Monad.return (map_option FinalizerFailed w)
      }
      else State_Monad.return None)"

definition finish_deletion ::
  "kube \<Rightarrow> (gotime \<Rightarrow> string) \<Rightarrow> gotime \<Rightarrow> shard \<Rightarrow> string list \<Rightarrow> (deletion_error + duration option) kio" where
  "finish_deletion k formatStamp now shd finalizers = do {
     e \<leftarrow> cleanupShardPVCs k formatStamp now shd;
     case e of
       Some err \<Rightarrow> State_Monad.return (Inl err)
     | None \<Rightarrow> do {
         f \<leftarrow> remove_finalizer k shd finalizers;
         State_Monad.return (case f of Some err \<Rightarrow> Inl err | None \<Rightarrow> Inr None)
       }
   }"

definition handleDeletion ::
  "kube \<Rightarrow> (gotime \<Rightarrow> string) \<Rightarrow> gotime \<Rightarrow> shard \<Rightarrow> string list \<Rightarrow> (deletion_error + duration option) kio" where
  "handleDeletion k formatStamp now shd finalizers = do {
     r \<leftarrow> ask (k_list_objects k) (ListObjects ''Deployment'' (s_namespace shd) (shardSelector shd));
     case r of
       Inl err \<Rightarrow> State_Monad.return (Inl (DeletionListFailed ''deployments'' err))
     | Inr deploys \<Rightarrow> do {
         e \<leftarrow> each_until (delete_deployment k) deploys;
         case e of
           Some err \<Rightarrow> State_Monad.return (Inl err)
         | None \<Rightarrow> do {
             r \<leftarrow> ask (k_list_pods k) (ListPods False (s_namespace shd) (shardSelector shd));
             case r of
               Inl err \<Rightarrow> State_Monad.return (Inl (DeletionListFailed ''pods'' err))
             | Inr pods \<Rightarrow> do {
                 b \<leftarrow> delete_pods k now pods 0;
                 case b of
                   Inl err \<Rightarrow> State_Monad.return (Inl err)
                 | Inr blocking \<Rightarrow>
                     if 0 < blocking then State_Monad.return (Inr (Some podTerminationRequeueDelay))
                     else finish_deletion k formatStamp now shd finalizers
               }
           }
       }
   }"

subsection \<open>A shard that is to be deleted\<close>

definition pending_selector :: "shard \<Rightarrow> labels" where
  "pending_selector shd =
     (shardSelector shd)(LabelAppComponent \<mapsto> PoolComponentName, LabelAppManagedBy \<mapsto> ManagedByMultigres)"

definition listPendingDeletionPods :: "kube \<Rightarrow> shard \<Rightarrow> (api_error + pod list) kio" where
  "listPendingDeletionPods k shd = ask (k_list_pods k) (ListPods True (s_namespace shd) (pending_selector shd))"

record drain_clock =
  dc_now :: gotime
  dc_format_time :: "gotime \<Rightarrow> string"
  dc_parse_time :: "string \<Rightarrow> gotime option"

text \<open>One pod of the loop: an error ends it, otherwise the value says whether the pod counts as drained.\<close>

definition drain_pending :: "kube \<Rightarrow> drain_clock \<Rightarrow> pod \<Rightarrow> (deletion_error + bool) kio" where
  "drain_pending k clock p =
     (if \<not> is_zero_ptr (p_deletion p)
      then (if stuck_terminating (dc_now clock) p then do {
              emit (EmitEvent ''Warning'' ''StuckTerminating'' (p_name p));
              State_Monad.return (Inr True)
            }
            else State_Monad.return (Inr False))
      else if drain_state p = DrainStateReadyForDeletion then do {
        w \<leftarrow> ask (k_write k) (DeletePod p);
        State_Monad.return (case w of
          None \<Rightarrow> Inr False
        | Some err \<Rightarrow> if err = NotFound then Inr False else Inl (DeletionDeleteFailed ''Pod'' (p_name p) err))
      }
      else if drain_state p = [] then do {
        (_, e) \<leftarrow> initiateDrain k (dc_format_time clock) (dc_now clock) p;
        case e of
          Some err \<Rightarrow> State_Monad.return (Inl (DrainInitFailed (p_name p) err))
        | None \<Rightarrow> do {
            emit (EmitEvent ''Normal'' ''DrainStarted'' (p_name p));
            State_Monad.return (Inr False)
          }
      }
      else do {
        _ \<leftarrow> ExecuteDrainStateMachine k (dc_parse_time clock) (dc_now clock) True p;
        State_Monad.return (Inr False)
      })"

fun drain_all :: "kube \<Rightarrow> drain_clock \<Rightarrow> pod list \<Rightarrow> bool \<Rightarrow> (deletion_error + bool) kio" where
  "drain_all k clock [] allDrained = State_Monad.return (Inr allDrained)"
| "drain_all k clock (p # ps) allDrained = do {
     r \<leftarrow> drain_pending k clock p;
     case r of
       Inl err \<Rightarrow> State_Monad.return (Inl err)
     | Inr d \<Rightarrow> drain_all k clock ps (allDrained \<and> d)
   }"

definition ready_condition :: "drain_clock \<Rightarrow> shard \<Rightarrow> condition" where
  "ready_condition clock shd =
     \<lparr>c_type = ConditionReadyForDeletion, c_status = ConditionTrue, c_observed_generation = s_generation shd,
      c_last_transition = dc_now clock, c_reason = ''DrainComplete'', c_message = ''All pods drained; shard is ready for deletion''\<rparr>"

definition set_ready :: "kube \<Rightarrow> drain_clock \<Rightarrow> shard \<Rightarrow> (shard \<times> (deletion_error + duration option)) kio" where
  "set_ready k clock shd =
     (if IsConditionTrue (s_conditions shd) ConditionReadyForDeletion then State_Monad.return (shd, Inr None)
      else do {
        let shd' = shd\<lparr>s_conditions := SetCondition (s_conditions shd) (ready_condition clock shd)\<rparr>;
        w \<leftarrow> ask (k_write k) (PatchObject ''Shard'' (s_name shd) ConditionReadyForDeletion);
        case w of
          Some err \<Rightarrow> State_Monad.return (shd', Inl (SetReadyFailed err))
        | None \<Rightarrow> do {
            emit (EmitEvent ''Normal'' ''ReadyForDeletion'' (s_name shd));
            State_Monad.return (shd', Inr None)
          }
      })"

text \<open>\<^verbatim>\<open>reconcilePodRoles\<close> of \<^verbatim>\<open>reconcile_data_plane.go\<close>: the roles the topology reports, published on the shard's status.\<close>

definition update_roles :: "PoolerStatusResult \<Rightarrow> (string \<times> string) list \<Rightarrow> (string \<times> string) list \<times> bool" where
  "update_roles status roles =
     (let reported = Roles status;
          changed = list_ex (\<lambda>(podName, role). str_at (map_of roles) podName \<noteq> role) reported;
          roles = foldl (\<lambda>m (podName, role). upd podName role m) roles reported;
          gone = (\<lambda>(podName, role). podName \<notin> fst ` set reported)
      in if QuerySuccess status then (filter (\<lambda>x. \<not> gone x) roles, changed \<or> list_ex gone roles)
         else (roles, changed))"

definition reconcilePodRoles :: "kube \<Rightarrow> pooler_query \<Rightarrow> shard \<Rightarrow> shard kio" where
  "reconcilePodRoles k getPoolers shd = do {
     r \<leftarrow> ask (k_list_pods k) (ListPods False (s_namespace shd) (pool_selector shd));
     case r of
       Inl err \<Rightarrow> State_Monad.return shd
     | Inr pods \<Rightarrow>
         let (roles, changed) = update_roles (GetPoolerStatus getPoolers shd (map p_name pods)) (s_pod_roles shd);
             shd' = shd\<lparr>s_pod_roles := roles\<rparr>
         in if changed then do {
              _ \<leftarrow> ask (k_write k) (PatchObject ''Shard'' (s_name shd) ''podRoles'');
              State_Monad.return shd'
            }
            else State_Monad.return shd'
   }"

definition handlePendingDeletion ::
  "kube \<Rightarrow> drain_clock \<Rightarrow> pooler_query option \<Rightarrow> shard \<Rightarrow> (shard \<times> (deletion_error + duration option)) kio" where
  "handlePendingDeletion k clock topology shd = do {
     r \<leftarrow> listPendingDeletionPods k shd;
     case r of
       Inl err \<Rightarrow> State_Monad.return (shd, Inl (DeletionListFailed ''pods'' err))
     | Inr pods \<Rightarrow>
         if pods \<noteq> [] \<and> topology = None then do {
           emit (EmitEvent ''Warning'' ''TopologyError'' (s_name shd));
           State_Monad.return (shd, Inr (Some topoUnavailableRequeueDelay))
         }
         else do {
           shd \<leftarrow> (if pods = [] then State_Monad.return shd else reconcilePodRoles k (the topology) shd);
           d \<leftarrow> drain_all k clock pods True;
           case d of
             Inl err \<Rightarrow> State_Monad.return (shd, Inl err)
           | Inr allDrained \<Rightarrow>
               if \<not> allDrained then State_Monad.return (shd, Inr (Some (2 * second)))
               else set_ready k clock shd
         }
   }"

subsection \<open>The claims are touched last\<close>

definition pods_gone :: "kube \<Rightarrow> gotime \<Rightarrow> shard \<Rightarrow> history \<Rightarrow> bool" where
  "pods_gone k now shd h \<longleftrightarrow>
     (\<exists>pods. seen (k_list_pods k) h (ListPods False (s_namespace shd) (shardSelector shd)) (Inr pods)
        \<and> (\<forall>p\<in>set pods. stuck_terminating now p))"

definition cluster_going :: "kube \<Rightarrow> shard \<Rightarrow> history \<Rightarrow> bool" where
  "cluster_going k shd h \<longleftrightarrow>
     (\<exists>d. seen (k_get_object k) h (GetObject ''MultigresCluster'' (s_namespace shd) (str_at (s_labels shd) LabelMultigresCluster)) (Inr d)
        \<and> \<not> is_zero_ptr d)"

text \<open>A claim is settled when nothing of it depends on the shard any more: gone, marked and disowned, or released.\<close>

definition claim_settled :: "kube \<Rightarrow> (gotime \<Rightarrow> string) \<Rightarrow> gotime \<Rightarrow> shard \<Rightarrow> bool \<Rightarrow> history \<Rightarrow> pvc \<Rightarrow> bool" where
  "claim_settled k formatStamp now shd churning h v \<longleftrightarrow>
     (if \<not> shardPVCShouldBeCleaned shd v
      then s_uid shd \<notin> set (v_owners v)
        \<or> (\<exists>r. seen (k_patch_pvc k) h (PatchPvc False v (released (s_uid shd) v)) r \<and> (r = Inl NotFound \<or> \<not> isl r))
      else if churning
      then \<exists>w. seen (k_write k) h (DeletePvc None v) w \<and> (w = None \<or> w = Some NotFound)
      else orphaned (formatStamp now) (s_uid shd) v = v
        \<or> (\<exists>stored. seen (k_patch_pvc k) h (PatchPvc False v (orphaned (formatStamp now) (s_uid shd) v)) (Inr stored)))"

definition claims_settled :: "kube \<Rightarrow> (gotime \<Rightarrow> string) \<Rightarrow> gotime \<Rightarrow> shard \<Rightarrow> history \<Rightarrow> bool" where
  "claims_settled k formatStamp now shd h \<longleftrightarrow>
     (\<exists>claims churning. seen (k_list_pvcs k) h (ListPvcs False (s_namespace shd) (shardSelector shd)) (Inr claims)
        \<and> (churning \<longrightarrow> cluster_going k shd h) \<and> (\<forall>v\<in>set claims. claim_settled k formatStamp now shd churning h v))"

text \<open>What a claim becomes: deleted only with the cluster, marked as an orphan, or released; and by whom.\<close>

definition claim_guard :: "kube \<Rightarrow> (gotime \<Rightarrow> string) \<Rightarrow> gotime \<Rightarrow> shard \<Rightarrow> history \<Rightarrow> kcall \<Rightarrow> bool" where
  "claim_guard k formatStamp now shd h c =
     (case c of
        DeletePvc pre v \<Rightarrow> pods_gone k now shd h \<and> cluster_going k shd h \<and> shardPVCShouldBeCleaned shd v
      | PatchPvc opt v w \<Rightarrow> pods_gone k now shd h
          \<and> w = (if shardPVCShouldBeCleaned shd v then orphaned (formatStamp now) (s_uid shd) v else released (s_uid shd) v)
      | PatchObject kind n what \<Rightarrow> pods_gone k now shd h \<and> claims_settled k formatStamp now shd h
          \<and> kind = ''Shard'' \<and> what = ''finalizers''
      | CreatePod p \<Rightarrow> False
      | CreatePvc v \<Rightarrow> False
      | PatchPod p q \<Rightarrow> False
      | DeletePod p \<Rightarrow> is_zero_ptr (p_deletion p)
      | _ \<Rightarrow> True)"

lemma keeps_extends: "keeps G m h \<Longrightarrow> run_state m h = (x, h') \<Longrightarrow> \<exists>cs. h' = h @ cs"
  by (auto simp: keeps_def)

lemma pods_gone_mono: "pods_gone k now shd h \<Longrightarrow> pods_gone k now shd (h @ cs)"
  unfolding pods_gone_def using seen_mono by metis

lemma cluster_going_mono: "cluster_going k shd h \<Longrightarrow> cluster_going k shd (h @ cs)"
  unfolding cluster_going_def using seen_mono by metis

lemma keeps_each_until:
  assumes step: "\<And>x h. I h \<Longrightarrow> keeps G (f x) h" and stable: "\<And>h cs. I h \<Longrightarrow> I (h @ cs)" and start: "I h"
  shows "keeps G (each_until f xs) h"
  using start
proof (induction xs arbitrary: h)
  case (Cons x xs)
  show ?case unfolding each_until.simps
  proof (rule keeps_bind)
    show "keeps G (f x) h" by (rule step [OF Cons.prems])
    fix e h'
    assume "run_state (f x) h = (e, h')"
    then obtain cs where "h' = h @ cs" using keeps_extends [OF step [OF Cons.prems]] by blast
    then have "I h'" using stable [OF Cons.prems] by simp
    then show "keeps G (case e of None \<Rightarrow> each_until f xs | Some err \<Rightarrow> State_Monad.return (Some err)) h'"
      using Cons.IH by (cases e) (simp_all add: keeps_return)
  qed
qed (simp add: keeps_return)

lemma claim_guard_reads [simp]:
  "claim_guard k fmt now shd h (ListPods b ns ls)" "claim_guard k fmt now shd h (ListPvcs b ns ls)"
  "claim_guard k fmt now shd h (ListObjects kind ns ls)" "claim_guard k fmt now shd h (GetObject kind ns n)"
  "claim_guard k fmt now shd h (DeleteObject kind n)" "claim_guard k fmt now shd h (DeletePod p) \<longleftrightarrow> is_zero_ptr (p_deletion p)"
  by (simp_all add: claim_guard_def)

lemma keeps_cleanup_claim:
  assumes "pods_gone k now shd h \<and> (churning \<longrightarrow> cluster_going k shd h)"
  shows "keeps (claim_guard k fmt now shd) (cleanup_claim k fmt now shd churning v) h"
proof -
  have "keeps (claim_guard k fmt now shd) (releasePVCFromShard k shd v) h" if "\<not> shardPVCShouldBeCleaned shd v"
    using that assms unfolding releasePVCFromShard_def
    by (auto intro!: keeps_intros keeps_bind simp: claim_guard_def)
  moreover have "keeps (claim_guard k fmt now shd) (MarkOrphan k fmt (Some v) (s_uid shd) now) h" if "shardPVCShouldBeCleaned shd v"
    using that assms unfolding MarkOrphan_def Let_def
    by (auto intro!: keeps_intros keeps_bind simp: claim_guard_def split: sum.splits)
  moreover have "keeps (claim_guard k fmt now shd) (ask (k_write k) (DeletePvc None v)) h" if "shardPVCShouldBeCleaned shd v" "churning"
    using that assms by (auto intro!: keeps_intros simp: claim_guard_def)
  ultimately show ?thesis
    unfolding cleanup_claim_def by (auto intro!: keeps_bind keeps_return split: prod.splits)
qed

lemma clusterIsChurning_seen:
  assumes "run_state (clusterIsChurning k (s_namespace shd) (str_at (s_labels shd) LabelMultigresCluster)) h = (Inr True, h')"
  shows "cluster_going k shd h'"
proof -
  let ?c = "GetObject ''MultigresCluster'' (s_namespace shd) (str_at (s_labels shd) LabelMultigresCluster)"
  obtain d where d: "k_get_object k h ?c = Inr d" "\<not> is_zero_ptr d" and h': "h' = h @ [?c]"
    using assms by (auto simp: clusterIsChurning_def split: if_splits sum.splits)
  then show ?thesis unfolding cluster_going_def h' using seen_last [of "k_get_object k" h ?c "Inr d"] by blast
qed

lemma keeps_cleanupShardPVCs:
  assumes "pods_gone k now shd h"
  shows "keeps (claim_guard k fmt now shd) (cleanupShardPVCs k fmt now shd) h"
  unfolding cleanupShardPVCs_def
proof (rule keeps_bind)
  fix r h1
  assume r: "run_state (ask (k_list_pvcs k) (ListPvcs False (s_namespace shd) (shardSelector shd))) h = (r, h1)"
  then have gone: "pods_gone k now shd h1" using pods_gone_mono [OF assms] by auto
  let ?churn = "clusterIsChurning k (s_namespace shd) (str_at (s_labels shd) LabelMultigresCluster)"
  have churn: "keeps (claim_guard k fmt now shd) ?churn h1"
    unfolding clusterIsChurning_def by (auto intro!: keeps_intros keeps_bind)
  show "keeps (claim_guard k fmt now shd) (case r of
        Inl err \<Rightarrow> State_Monad.return (Some (DeletionListFailed ''PVCs'' err))
      | Inr claims \<Rightarrow> ?churn \<bind> (\<lambda>c. case c of
            Inl err \<Rightarrow> State_Monad.return (Some (DeletionGetClusterFailed err))
          | Inr churning \<Rightarrow> each_until (cleanup_claim k fmt now shd churning) claims)) h1"
  proof (cases r)
    case (Inr claims)
    have "keeps (claim_guard k fmt now shd) (?churn \<bind> (\<lambda>c. case c of
            Inl err \<Rightarrow> State_Monad.return (Some (DeletionGetClusterFailed err))
          | Inr churning \<Rightarrow> each_until (cleanup_claim k fmt now shd churning) claims)) h1"
    proof (rule keeps_bind [OF churn])
      fix c h2
      assume c: "run_state ?churn h1 = (c, h2)"
      then obtain cs where h2: "h2 = h1 @ cs" using keeps_extends [OF churn] by blast
      have "pods_gone k now shd h2 \<and> (churning \<longrightarrow> cluster_going k shd h2)" if "c = Inr churning" for churning
        using clusterIsChurning_seen c that pods_gone_mono [OF gone] h2 by (cases churning) auto
      then show "keeps (claim_guard k fmt now shd) (case c of
            Inl err \<Rightarrow> State_Monad.return (Some (DeletionGetClusterFailed err))
          | Inr churning \<Rightarrow> each_until (cleanup_claim k fmt now shd churning) claims) h2"
        by (cases c) (auto intro!: keeps_return
            keeps_each_until [where I = "\<lambda>h. pods_gone k now shd h \<and> (projr c \<longrightarrow> cluster_going k shd h)"]
            keeps_cleanup_claim pods_gone_mono cluster_going_mono)
    qed
    then show ?thesis by (simp add: Inr)
  qed (simp add: keeps_return)
qed (simp add: keeps_ask)

lemma claim_settled_mono: "claim_settled k fmt now shd churning h v \<Longrightarrow> claim_settled k fmt now shd churning (h @ cs) v"
  unfolding claim_settled_def using seen_mono by (metis (no_types, lifting))

lemma orphaned_same:
  assumes "v_labels v LabelOrphan \<noteq> None" and "length (v_owners (orphaned stamp uid v)) = length (v_owners v)"
  shows "orphaned stamp uid v = v"
proof -
  have "filter (\<lambda>u. u \<noteq> uid) (v_owners v) = v_owners v" if "uid \<noteq> []"
  proof (rule filter_True, rule ballI)
    fix u
    assume u: "u \<in> set (v_owners v)"
    have "length (filter (\<lambda>u. u \<noteq> uid) (v_owners v)) = length (v_owners v)" using assms(2) that by (simp add: orphaned_def)
    then show "u \<noteq> uid" using length_filter_less [OF u, of "\<lambda>u. u \<noteq> uid"] by auto
  qed
  then show ?thesis using assms(1) by (auto simp: orphaned_def)
qed

lemma cleanup_claim_settled:
  assumes "run_state (cleanup_claim k fmt now shd churning v) h = (None, h')"
  shows "claim_settled k fmt now shd churning h' v" and "\<exists>cs. h' = h @ cs"
proof -
  show "\<exists>cs. h' = h @ cs"
    using assms by (auto simp: cleanup_claim_def releasePVCFromShard_def MarkOrphan_def Let_def split: if_splits sum.splits option.splits)
  show "claim_settled k fmt now shd churning h' v"
  proof (cases "shardPVCShouldBeCleaned shd v")
    case False
    then show ?thesis using assms seen_last [of "k_patch_pvc k" h "PatchPvc False v (released (s_uid shd) v)"]
      by (fastforce simp: cleanup_claim_def releasePVCFromShard_def claim_settled_def split: if_splits sum.splits)
  next
    case True
    show ?thesis
    proof (cases churning)
      case t: True
      with True show ?thesis using assms seen_last [of "k_write k" h "DeletePvc None v"]
        by (fastforce simp: cleanup_claim_def claim_settled_def split: if_splits option.splits)
    next
      case f: False
      let ?p = "PatchPvc False v (orphaned (fmt now) (s_uid shd) v)"
      have "orphaned (fmt now) (s_uid shd) v = v \<or> (\<exists>stored. k_patch_pvc k h ?p = Inr stored \<and> h' = h @ [?p])"
        using assms True f orphaned_same [of v "fmt now" "s_uid shd"]
        by (auto simp: cleanup_claim_def MarkOrphan_def Let_def split: if_splits sum.splits)
      then show ?thesis using True f seen_last [of "k_patch_pvc k" h ?p] by (auto simp: claim_settled_def)
    qed
  qed
qed

lemma each_until_None:
  assumes "\<And>x h h'. run_state (f x) h = (None, h') \<Longrightarrow> Q x h' \<and> (\<exists>cs. h' = h @ cs)"
    and mono: "\<And>x h cs. Q x h \<Longrightarrow> Q x (h @ cs)"
  shows "run_state (each_until f xs) h = (None, h') \<Longrightarrow> (\<forall>x\<in>set xs. Q x h') \<and> (\<exists>cs. h' = h @ cs)"
proof (induction xs arbitrary: h)
  case (Cons x xs)
  then obtain h1 where h1: "run_state (f x) h = (None, h1)" "run_state (each_until f xs) h1 = (None, h')"
    by (cases "run_state (f x) h"; cases "fst (run_state (f x) h)") auto
  from Cons.IH [OF h1(2)] assms(1) [OF h1(1)] mono show ?case by auto
qed auto

lemma cleanupShardPVCs_settled:
  assumes "run_state (cleanupShardPVCs k fmt now shd) h = (None, h')"
  shows "claims_settled k fmt now shd h'" and "\<exists>cs. h' = h @ cs"
proof -
  let ?l = "ListPvcs False (s_namespace shd) (shardSelector shd)"
  let ?churn = "clusterIsChurning k (s_namespace shd) (str_at (s_labels shd) LabelMultigresCluster)"
  obtain claims where claims: "k_list_pvcs k h ?l = Inr claims"
    using assms by (cases "k_list_pvcs k h ?l") (auto simp: cleanupShardPVCs_def)
  obtain churning h1 where churn: "run_state ?churn (h @ [?l]) = (Inr churning, h1)"
    and rest: "run_state (each_until (cleanup_claim k fmt now shd churning) claims) h1 = (None, h')"
    using assms claims by (cases "run_state ?churn (h @ [?l])"; cases "fst (run_state ?churn (h @ [?l]))") (auto simp: cleanupShardPVCs_def)
  have h1: "\<exists>cs. h1 = (h @ [?l]) @ cs"
    using churn by (auto simp: clusterIsChurning_def split: if_splits)
  have all: "(\<forall>v\<in>set claims. claim_settled k fmt now shd churning h' v) \<and> (\<exists>cs. h' = h1 @ cs)"
    using rest by (rule each_until_None [rotated 2]) (auto intro: cleanup_claim_settled claim_settled_mono)
  then obtain cs ds where h': "h' = ((h @ [?l]) @ cs) @ ds" and ds: "h' = h1 @ ds" using h1 by blast
  have "seen (k_list_pvcs k) h' ?l (Inr claims)"
    unfolding h' by (intro seen_mono seen_last claims)
  moreover have "cluster_going k shd h'" if churning
    using clusterIsChurning_seen [of k shd "h @ [?l]" h1] churn that cluster_going_mono ds by auto
  ultimately show "claims_settled k fmt now shd h'" unfolding claims_settled_def using all by blast
  show "\<exists>cs. h' = h @ cs" using h' by simp
qed

lemma delete_pods_Inr:
  assumes "run_state (delete_pods k now ps b) h = (Inr n, h')"
  shows "b \<le> n \<and> (n = b \<longrightarrow> (\<forall>p\<in>set ps. stuck_terminating now p)) \<and> (\<exists>cs. h' = h @ cs)"
  using assms
proof (induction ps arbitrary: b h)
  case (Cons p ps)
  show ?case
  proof (cases "is_zero_ptr (p_deletion p)")
    case True
    with Cons.prems have "run_state (delete_pods k now ps (Suc b)) (h @ [DeletePod p]) = (Inr n, h')"
      by (auto split: option.splits if_splits)
    from Cons.IH [OF this] show ?thesis by auto
  next
    case False
    with Cons.prems have r: "run_state (delete_pods k now ps (if stuck_terminating now p then b else Suc b)) h = (Inr n, h')" by simp
    from Cons.IH [OF r] show ?thesis by (cases "stuck_terminating now p") auto
  qed
qed simp

lemma keeps_delete_pods: "keeps (claim_guard k fmt now shd) (delete_pods k now ps b) h"
  by (induction ps arbitrary: b h) (auto intro!: keeps_intros keeps_bind split: option.split)

lemma keeps_finish:
  assumes "pods_gone k now shd h"
  shows "keeps (claim_guard k fmt now shd) (finish_deletion k fmt now shd fs) h"
  unfolding finish_deletion_def
proof (rule keeps_bind [OF keeps_cleanupShardPVCs [OF assms]])
  fix e h'
  assume e: "run_state (cleanupShardPVCs k fmt now shd) h = (e, h')"
  then obtain cs where h': "h' = h @ cs" using keeps_extends [OF keeps_cleanupShardPVCs [OF assms]] by blast
  have "claim_guard k fmt now shd h' (PatchObject ''Shard'' (s_name shd) ''finalizers'')" if "e = None"
    using cleanupShardPVCs_settled [of k fmt now shd h h'] e that pods_gone_mono [OF assms] h' by (simp add: claim_guard_def)
  then show "keeps (claim_guard k fmt now shd) (case e of
        Some err \<Rightarrow> State_Monad.return (Inl err)
      | None \<Rightarrow> remove_finalizer k shd fs \<bind> (\<lambda>f. State_Monad.return (case f of Some err \<Rightarrow> Inl err | None \<Rightarrow> Inr None))) h'"
    by (cases e) (auto intro!: keeps_return keeps_bind keeps_ask simp: remove_finalizer_def)
qed

lemma keeps_handleDeletion: "keeps (claim_guard k fmt now shd) (handleDeletion k fmt now shd fs) h"
proof -
  let ?pods = "ListPods False (s_namespace shd) (shardSelector shd)"
  have deploys: "keeps (claim_guard k fmt now shd) (each_until (delete_deployment k) ds) h" for ds h
    by (rule keeps_each_until [where I = "\<lambda>_. True"]) (auto simp: delete_deployment_def intro!: keeps_intros keeps_bind)
  have after: "keeps (claim_guard k fmt now shd) (delete_pods k now pods 0 \<bind> (\<lambda>b. case b of
        Inl err \<Rightarrow> State_Monad.return (Inl err)
      | Inr blocking \<Rightarrow> if 0 < blocking then State_Monad.return (Inr (Some podTerminationRequeueDelay))
          else finish_deletion k fmt now shd fs)) (h @ [?pods])"
    if pods: "k_list_pods k h ?pods = Inr pods" for pods h
  proof (rule keeps_bind [OF keeps_delete_pods])
    fix b h'
    assume "run_state (delete_pods k now pods 0) (h @ [?pods]) = (b, h')"
    moreover have "pods_gone k now shd h'" if "\<forall>p\<in>set pods. stuck_terminating now p" "h' = (h @ [?pods]) @ cs" for cs
      unfolding pods_gone_def that(2) using that(1) by (blast intro: seen_mono seen_last pods)
    ultimately show "keeps (claim_guard k fmt now shd) (case b of
        Inl err \<Rightarrow> State_Monad.return (Inl err)
      | Inr blocking \<Rightarrow> if 0 < blocking then State_Monad.return (Inr (Some podTerminationRequeueDelay))
          else finish_deletion k fmt now shd fs) h'"
      using delete_pods_Inr [of k now pods 0 "h @ [?pods]" _ h'] by (cases b) (auto intro!: keeps_return keeps_finish)
  qed
  have "keeps (claim_guard k fmt now shd) (ask (k_list_pods k) ?pods \<bind> (\<lambda>r. case r of
        Inl err \<Rightarrow> State_Monad.return (Inl (DeletionListFailed ''pods'' err))
      | Inr pods \<Rightarrow> delete_pods k now pods 0 \<bind> (\<lambda>b. case b of
            Inl err \<Rightarrow> State_Monad.return (Inl err)
          | Inr blocking \<Rightarrow> if 0 < blocking then State_Monad.return (Inr (Some podTerminationRequeueDelay))
              else finish_deletion k fmt now shd fs))) h" (is "keeps _ ?tail h") for h
  proof (rule keeps_bind)
    fix r h'
    assume "run_state (ask (k_list_pods k) ?pods) h = (r, h')"
    then have r: "k_list_pods k h ?pods = r" "h' = h @ [?pods]" by auto
    show "keeps (claim_guard k fmt now shd) (case r of
        Inl err \<Rightarrow> State_Monad.return (Inl (DeletionListFailed ''pods'' err))
      | Inr pods \<Rightarrow> delete_pods k now pods 0 \<bind> (\<lambda>b. case b of
            Inl err \<Rightarrow> State_Monad.return (Inl err)
          | Inr blocking \<Rightarrow> if 0 < blocking then State_Monad.return (Inr (Some podTerminationRequeueDelay))
              else finish_deletion k fmt now shd fs)) h'"
      unfolding r(2) using r(1) after [of h] by (cases r) (simp_all add: keeps_return)
  qed (simp add: keeps_ask)
  note tail = this
  have "keeps (claim_guard k fmt now shd) (each_until (delete_deployment k) ds \<bind> (\<lambda>e. case e of
      Some err \<Rightarrow> State_Monad.return (Inl err) | None \<Rightarrow> ?tail)) h" for ds h
    by (rule keeps_bind [OF deploys], rename_tac e h', case_tac e) (simp_all add: tail keeps_return)
  note rest = this
  show ?thesis unfolding handleDeletion_def
    by (rule keeps_bind, simp add: keeps_ask, rename_tac r h', case_tac r) (simp_all add: rest keeps_return)
qed

text \<open>
  C18: when a shard is deleted its volumes go last and nobody else's go at all. Every change to a claim comes after this
  pass listed the shard's pods and found none but those stuck for a minute; a claim is deleted only when the whole cluster
  was read as being deleted and the claim is one the shard built under a Delete policy; one it built otherwise is marked as
  an orphan, and any other is only released. The finalizer goes after every listed claim is settled.
\<close>

theorem handleDeletion_claims_last:
  "\<exists>cs. snd (run_state (handleDeletion k formatStamp now shd finalizers) []) = cs
     \<and> guarded (claim_guard k formatStamp now shd) [] cs"
  using keeps_handleDeletion [of k formatStamp now shd finalizers "[]"] by (simp add: keeps_def)

subsection \<open>When a shard may be deleted\<close>

definition pending_pods_gone :: "kube \<Rightarrow> gotime \<Rightarrow> shard \<Rightarrow> history \<Rightarrow> bool" where
  "pending_pods_gone k now shd h \<longleftrightarrow>
     (\<exists>pods. seen (k_list_pods k) h (ListPods True (s_namespace shd) (pending_selector shd)) (Inr pods)
        \<and> (\<forall>p\<in>set pods. stuck_terminating now p))"

text \<open>
  What a draining shard may do: nothing to claims, deletions of drained pods only, the roles of its pods on its status, and
  the condition only at the end.
\<close>

definition pending_guard :: "kube \<Rightarrow> gotime \<Rightarrow> shard \<Rightarrow> history \<Rightarrow> kcall \<Rightarrow> bool" where
  "pending_guard k now shd h c =
     (case c of
        DeletePod p \<Rightarrow> drain_state p = DrainStateReadyForDeletion
      | PatchPod p q \<Rightarrow> is_zero_ptr (p_deletion p)
      | PatchObject kind n what \<Rightarrow>
          kind = ''Shard'' \<and> n = s_name shd
          \<and> (what = ''podRoles'' \<or> what = ConditionReadyForDeletion \<and> pending_pods_gone k now shd h)
      | DeletePvc pre v \<Rightarrow> False
      | PatchPvc opt v w \<Rightarrow> False
      | CreatePod p \<Rightarrow> False
      | CreatePvc v \<Rightarrow> False
      | _ \<Rightarrow> True)"

lemma keeps_initiateDrain: "G h (PatchPod p (requested (fmt now) p)) \<Longrightarrow> keeps G (initiateDrain k fmt now p) h"
  unfolding initiateDrain_def Let_def by (rule keeps_bind, simp add: keeps_ask, rename_tac r h', case_tac r) (simp_all add: keeps_return)

lemma keeps_Execute:
  assumes "\<And>h q. G h (PatchPod p q)" and "\<And>h a b c. G h (EmitEvent a b c)"
  shows "keeps G (ExecuteDrainStateMachine k parse now recorder p) h"
  using assms by (cases "drain_target parse now p") (auto simp: keeps_def run_Execute run_UpdateDrainState completes_def)

lemma keeps_drain_pending: "keeps (pending_guard k (dc_now clock) shd) (drain_pending k clock p) h"
proof -
  have "keeps (pending_guard k (dc_now clock) shd) (initiateDrain k (dc_format_time clock) (dc_now clock) p) h" if "is_zero_ptr (p_deletion p)" for h
    by (rule keeps_initiateDrain) (simp add: pending_guard_def that)
  moreover have "keeps (pending_guard k (dc_now clock) shd) (ExecuteDrainStateMachine k (dc_parse_time clock) (dc_now clock) True p) h"
    if "is_zero_ptr (p_deletion p)" for h
    by (rule keeps_Execute) (simp_all add: pending_guard_def that)
  ultimately show ?thesis
    unfolding drain_pending_def
    by (auto intro!: keeps_return keeps_bind keeps_ask keeps_emit simp: pending_guard_def split: prod.split option.split)
qed

lemma drain_pending_True:
  "run_state (drain_pending k clock p) h = (Inr True, h') \<Longrightarrow> stuck_terminating (dc_now clock) p"
  by (auto simp: drain_pending_def split: if_splits option.splits prod.splits)

lemma drain_all_True:
  assumes "run_state (drain_all k clock ps b) h = (Inr True, h')"
  shows "b \<and> (\<forall>p\<in>set ps. stuck_terminating (dc_now clock) p)"
  using assms
proof (induction ps arbitrary: b h)
  case (Cons p ps)
  obtain r h1 where r: "run_state (drain_pending k clock p) h = (r, h1)" by force
  with Cons.prems obtain d where d: "r = Inr d" "run_state (drain_all k clock ps (b \<and> d)) h1 = (Inr True, h')"
    by (cases r) auto
  from Cons.IH [OF d(2)] drain_pending_True [of k clock p h h1] r d(1) show ?case by auto
qed simp

lemma keeps_drain_all: "keeps (pending_guard k (dc_now clock) shd) (drain_all k clock ps b) h"
proof (induction ps arbitrary: b h)
  case (Cons p ps)
  show ?case unfolding drain_all.simps
    by (rule keeps_bind [OF keeps_drain_pending], rename_tac r h', case_tac r) (simp_all add: Cons.IH keeps_return)
qed (simp add: keeps_return)

text \<open>The roles of the pods are all that the pass changes of the shard before the last step.\<close>

lemma keeps_set_ready:
  assumes "pending_pods_gone k now shd h"
  shows "keeps (pending_guard k now shd) (set_ready k clock (shd\<lparr>s_pod_roles := roles\<rparr>)) h"
  using assms unfolding set_ready_def Let_def
  by (auto intro!: keeps_return keeps_bind keeps_ask keeps_emit simp: pending_guard_def split: option.split)

lemma keeps_roles: "keeps (pending_guard k now shd) (reconcilePodRoles k getPoolers shd) h"
  unfolding reconcilePodRoles_def
  by (auto intro!: keeps_return keeps_bind keeps_ask simp: Let_def split_beta pending_guard_def split: sum.split)

lemma roles_only:
  assumes "run_state (if pods = [] then State_Monad.return shd else reconcilePodRoles k getPoolers shd) h = (shd', h')"
  shows "(\<exists>roles. shd' = shd\<lparr>s_pod_roles := roles\<rparr>) \<and> (\<exists>cs. h' = h @ cs)"
proof -
  have "shd' = shd\<lparr>s_pod_roles := s_pod_roles shd'\<rparr>" and "\<exists>cs. h' = h @ cs"
    using assms by (auto simp: reconcilePodRoles_def Let_def split_beta split: if_splits sum.splits)
  then show ?thesis by blast
qed

lemma keeps_drain_then_ready:
  assumes listed: "seen (k_list_pods k) h (ListPods True (s_namespace shd) (pending_selector shd)) (Inr pods)"
  shows "keeps (pending_guard k (dc_now clock) shd) (drain_all k clock pods True \<bind> (\<lambda>d. case d of
        Inl err \<Rightarrow> State_Monad.return (shd\<lparr>s_pod_roles := roles\<rparr>, Inl err)
      | Inr allDrained \<Rightarrow>
          if \<not> allDrained then State_Monad.return (shd\<lparr>s_pod_roles := roles\<rparr>, Inr (Some (2 * second)))
          else set_ready k clock (shd\<lparr>s_pod_roles := roles\<rparr>))) h"
proof (rule keeps_bind [OF keeps_drain_all])
  fix d h'
  assume d: "run_state (drain_all k clock pods True) h = (d, h')"
  have "pending_pods_gone k (dc_now clock) shd h'" if "d = Inr True"
  proof -
    obtain cs where h': "h' = h @ cs" using keeps_extends [OF keeps_drain_all d] by blast
    have "seen (k_list_pods k) h' (ListPods True (s_namespace shd) (pending_selector shd)) (Inr pods)"
      unfolding h' by (rule seen_mono [OF listed])
    then show ?thesis unfolding pending_pods_gone_def using drain_all_True d that by blast
  qed
  then show "keeps (pending_guard k (dc_now clock) shd) (case d of
        Inl err \<Rightarrow> State_Monad.return (shd\<lparr>s_pod_roles := roles\<rparr>, Inl err)
      | Inr allDrained \<Rightarrow>
          if \<not> allDrained then State_Monad.return (shd\<lparr>s_pod_roles := roles\<rparr>, Inr (Some (2 * second)))
          else set_ready k clock (shd\<lparr>s_pod_roles := roles\<rparr>)) h'"
    by (cases d) (auto intro!: keeps_return keeps_set_ready)
qed

lemma keeps_handlePendingDeletion:
  "keeps (pending_guard k (dc_now clock) shd) (handlePendingDeletion k clock topology shd) h"
proof -
  let ?l = "ListPods True (s_namespace shd) (pending_selector shd)"
  have work: "keeps (pending_guard k (dc_now clock) shd)
      (do { shd \<leftarrow> (if pods = [] then State_Monad.return shd else reconcilePodRoles k getPoolers shd);
            d \<leftarrow> drain_all k clock pods True;
            case d of
              Inl err \<Rightarrow> State_Monad.return (shd, Inl err)
            | Inr allDrained \<Rightarrow>
                if \<not> allDrained then State_Monad.return (shd, Inr (Some (2 * second)))
                else set_ready k clock shd }) (h @ [?l])"
    if pods: "k_list_pods k h ?l = Inr pods" for pods getPoolers
  proof (rule keeps_bind)
    show "keeps (pending_guard k (dc_now clock) shd)
        (if pods = [] then State_Monad.return shd else reconcilePodRoles k getPoolers shd) (h @ [?l])"
      by (simp add: keeps_return keeps_roles)
    fix shd' h'
    assume "run_state (if pods = [] then State_Monad.return shd else reconcilePodRoles k getPoolers shd) (h @ [?l])
        = (shd', h')"
    from roles_only [OF this] obtain roles cs where shd': "shd' = shd\<lparr>s_pod_roles := roles\<rparr>" "h' = (h @ [?l]) @ cs" by blast
    show "keeps (pending_guard k (dc_now clock) shd) (drain_all k clock pods True \<bind> (\<lambda>d. case d of
        Inl err \<Rightarrow> State_Monad.return (shd', Inl err)
      | Inr allDrained \<Rightarrow>
          if \<not> allDrained then State_Monad.return (shd', Inr (Some (2 * second))) else set_ready k clock shd')) h'"
      unfolding shd' by (intro keeps_drain_then_ready seen_mono seen_last pods)
  qed
  have ask: "keeps (pending_guard k (dc_now clock) shd) (ask (k_list_pods k) ?l) h"
    by (simp add: keeps_ask pending_guard_def)
  show ?thesis
    unfolding handlePendingDeletion_def listPendingDeletionPods_def
  proof (rule keeps_bind [OF ask])
    fix r h'
    assume "run_state (ask (k_list_pods k) ?l) h = (r, h')"
    then have r: "k_list_pods k h ?l = r" and h': "h' = h @ [?l]" by auto
    show "keeps (pending_guard k (dc_now clock) shd) (case r of
        Inl err \<Rightarrow> State_Monad.return (shd, Inl (DeletionListFailed ''pods'' err))
      | Inr pods \<Rightarrow>
         if pods \<noteq> [] \<and> topology = None then do {
           emit (EmitEvent ''Warning'' ''TopologyError'' (s_name shd));
           State_Monad.return (shd, Inr (Some topoUnavailableRequeueDelay))
         }
         else do {
           shd \<leftarrow> (if pods = [] then State_Monad.return shd else reconcilePodRoles k (the topology) shd);
           d \<leftarrow> drain_all k clock pods True;
           case d of
             Inl err \<Rightarrow> State_Monad.return (shd, Inl err)
           | Inr allDrained \<Rightarrow>
               if \<not> allDrained then State_Monad.return (shd, Inr (Some (2 * second)))
               else set_ready k clock shd
         }) h'"
    proof (cases r)
      case (Inr pods)
      then show ?thesis
      proof (cases "pods \<noteq> [] \<and> topology = None")
        case True
        with Inr show ?thesis by (auto intro!: keeps_return keeps_bind [OF keeps_emit] simp: pending_guard_def)
      next
        case False
        show ?thesis unfolding h' Inr sum.case if_not_P [OF False] by (rule work) (use r Inr in simp)
      qed
    qed (simp add: keeps_return)
  qed
qed


end
