(* ===== verification/Drain_Order.thy ===== *)
theory Drain_Order
  imports Drain_Evidence Shard_Deletion
begin

text \<open>
  Drains only move forward. Three computations write the drain state of a pod: the pass over the pools, which starts
  drains, the drain loop, and the drain of a shard that is to be deleted. \<^verbatim>\<open>initiateDrain\<close> itself does not look at the
  state it overwrites; that it never restarts a drain is due to each of its callers, and shown here for all of them.
\<close>

lemma pass_extends: "\<exists>cs. snd (run_state (reconcilePools k bl env setStatus shd) h) = h @ cs"
  using pass_evidence [of k env shd bl setStatus h] by (auto simp: keeps_def)

lemma pass_keeps_drains:
  assumes "snd (run_state (reconcilePools k bl env setStatus shd) h) = h @ cs" and "PatchPod p q \<in> set cs"
  shows "drain_state p = [] \<or> drain_state q = drain_state p"
proof -
  from assms(2) obtain before after where "cs = before @ PatchPod p q # after" by (meson split_list)
  with assms(1) have "run_state (reconcilePools k bl env setStatus shd) h
      = (fst (run_state (reconcilePools k bl env setStatus shd) h), h @ before @ PatchPod p q # after)"
    by (metis prod.collapse)
  from pass_drain_fresh [OF this] show ?thesis by blast
qed

definition forward :: "kcall \<Rightarrow> bool" where
  "forward c = (case c of PatchPod p q \<Rightarrow> drain_rank (drain_state p) < drain_rank (drain_state q) | _ \<Rightarrow> True)"

lemma forward_simps [simp]:
  "forward (ListPods l ns sel)" "forward (EmitEvent t r x)" "forward (DeletePod p)" "forward (PatchObject a b c)"
  by (simp_all add: forward_def)

lemma forward_Execute: "appends forward (ExecuteDrainStateMachine k parse now recorder p)"
  unfolding appends_def run_Execute run_UpdateDrainState
  by (auto simp: completes_def forward_def drain_target_mono split: option.split)

lemma forward_pending: "appends forward (drain_pending k clock p)"
  unfolding drain_pending_def initiateDrain_def Let_def
  by (auto intro!: appends_intros forward_Execute simp: forward_def split: option.split)

lemma forward_drain_all: "appends forward (drain_all k clock ps b)"
  by (induction ps arbitrary: b) (auto intro!: appends_intros forward_pending)

lemma forward_roles: "appends forward (reconcilePodRoles k getPoolers shd)"
  unfolding reconcilePodRoles_def Let_def split_beta by (intro appends_intros) simp_all

lemma forward_set_ready: "appends forward (set_ready k clock shd)"
  unfolding set_ready_def Let_def by (intro appends_intros) simp_all

lemma forward_handlePendingDeletion: "appends forward (Shard_Deletion.handlePendingDeletion k clock topology shd)"
  unfolding Shard_Deletion.handlePendingDeletion_def listPendingDeletionPods_def
  by (intro appends_intros forward_drain_all forward_roles forward_set_ready) simp_all

text \<open>
  C7: drains are never undone. Whatever the server answers, every patch of a pod that a pass over the pools sends leaves the
  drain state it read as it is, unless there was none. Every patch that the drain loop sends moves the drain it read
  forward, in the order requested, draining, acknowledged, ready for deletion, or cancels a drain it read as merely requested,
  of a pod that is not being deleted, whose index is within the replicas of its pool and whose specification is current. Every
  patch that the drain of a shard to be deleted sends moves the drain it read forward.
\<close>

theorem drain_never_undone:
  "(\<forall>cs p q. snd (run_state (reconcilePools k bl env setStatus shd) h) = h @ cs \<and> PatchPod p q \<in> set cs
      \<longrightarrow> drain_state p = [] \<or> drain_state q = drain_state p)
   \<and> (\<forall>cs p q. snd (run_state (reconcileDrainState k parseTime now desiredHash shd) h) = h @ cs \<and> PatchPod p q \<in> set cs
      \<longrightarrow> drain_rank (drain_state p) < drain_rank (drain_state q)
          \<or> drain_state p = DrainStateRequested \<and> q = cleared p \<and> is_zero_ptr (p_deletion p)
             \<and> (\<exists>spec index. map_of (s_pools shd) (str_at (p_labels p) LabelMultigresPool) = Some spec
                  \<and> resolvePodIndex (p_name p) = Some index \<and> index < replicas_of spec
                  \<and> \<not> podNeedsUpdate desiredHash p shd (str_at (p_labels p) LabelMultigresPool)
                        (str_at (p_labels p) LabelMultigresCell) spec index))
   \<and> (\<forall>cs p q. snd (run_state (Shard_Deletion.handlePendingDeletion k clock topology shd) h) = h @ cs \<and> PatchPod p q \<in> set cs
      \<longrightarrow> drain_rank (drain_state p) < drain_rank (drain_state q))"
proof (intro conjI allI impI; elim conjE)
  fix cs p q
  assume "snd (run_state (reconcilePools k bl env setStatus shd) h) = h @ cs" and "PatchPod p q \<in> set cs"
  then show "drain_state p = [] \<or> drain_state q = drain_state p" by (rule pass_keeps_drains)
next
  fix cs p q
  assume run: "snd (run_state (reconcileDrainState k parseTime now desiredHash shd) h) = h @ cs" and "PatchPod p q \<in> set cs"
  then show "drain_rank (drain_state p) < drain_rank (drain_state q)
      \<or> drain_state p = DrainStateRequested \<and> q = cleared p \<and> is_zero_ptr (p_deletion p)
        \<and> (\<exists>spec index. map_of (s_pools shd) (str_at (p_labels p) LabelMultigresPool) = Some spec
             \<and> resolvePodIndex (p_name p) = Some index \<and> index < replicas_of spec
             \<and> \<not> podNeedsUpdate desiredHash p shd (str_at (p_labels p) LabelMultigresPool)
                   (str_at (p_labels p) LabelMultigresCell) spec index)"
    using reconcileDrainState_calls [of k parseTime now desiredHash shd h] by (force simp: list_all_iff)
next
  fix cs p q
  assume "snd (run_state (Shard_Deletion.handlePendingDeletion k clock topology shd) h) = h @ cs" and "PatchPod p q \<in> set cs"
  moreover obtain ds where "snd (run_state (Shard_Deletion.handlePendingDeletion k clock topology shd) h) = h @ ds"
    "list_all forward ds"
    using forward_handlePendingDeletion [of k clock topology shd] unfolding appends_def by blast
  ultimately have "forward (PatchPod p q)" by (simp add: list_all_iff)
  then show "drain_rank (drain_state p) < drain_rank (drain_state q)" by (simp add: forward_def)
qed

text \<open>The drain loop on a pod that is draining, by a server that lists it.\<close>

definition draining_pod :: pod where
  "draining_pod = set_drain_state DrainStateDraining sample_pod"

definition draining_run :: history where
  "draining_run = snd (run_state (reconcileDrainState (scale_kube [draining_pod]) (\<lambda>s. None) 5 (\<lambda>_ _ _ _ _. None) sample_shard) [])"

theorem drain_never_undone_witness:
  "\<exists>p q. PatchPod p q \<in> set draining_run \<and> drain_state p = DrainStateDraining \<and> 2 < drain_rank (drain_state q)"
proof -
  let ?P = "\<lambda>c. case c of PatchPod p q \<Rightarrow> drain_state p = DrainStateDraining | _ \<Rightarrow> False"
  have "list_ex ?P draining_run" by code_simp
  then obtain c where c: "c \<in> set draining_run" "?P c" unfolding list_ex_iff by blast
  moreover from c(2) obtain p q where "c = PatchPod p q" "drain_state p = DrainStateDraining" by (cases c) auto
  ultimately have pq: "PatchPod p q \<in> set draining_run" "drain_state p = DrainStateDraining" by auto
  have run: "snd (run_state (reconcileDrainState (scale_kube [draining_pod]) (\<lambda>s. None) 5 (\<lambda>_ _ _ _ _. None) sample_shard) [])
      = [] @ draining_run" by (simp add: draining_run_def)
  have "drain_rank (drain_state p) < drain_rank (drain_state q)"
    using conjunct1 [OF conjunct2 [OF drain_never_undone [where h = "[]" and k = "scale_kube [draining_pod]"
      and parseTime = "\<lambda>s. None" and now = 5 and desiredHash = "\<lambda>_ _ _ _ _. None" and shd = sample_shard]],
      rule_format, OF conjI [OF run pq(1)]] pq(2) by simp
  with pq show ?thesis by (intro exI [of _ p] exI [of _ q]) simp
qed

end
