(* ===== verification/Go_Text.thy ===== *)
theory Go_Text
  imports Go_Prelude
begin

text \<open>
  More of Go's standard library, for the code that reads and writes configuration text: \<^verbatim>\<open>strings.TrimSpace\<close>,
  \<^verbatim>\<open>TrimRight\<close>, \<^verbatim>\<open>ToLower\<close>, \<^verbatim>\<open>Cut\<close>, \<^verbatim>\<open>Split\<close>, \<^verbatim>\<open>ReplaceAll\<close>, and the syntax and range accepted by \<^verbatim>\<open>strconv.ParseFloat\<close>.
  The bytes above 127 are ordinary characters here: Go also trims and lower-cases some characters that
  are not ASCII.
\<close>

definition is_space :: "char \<Rightarrow> bool" where
  "is_space c \<longleftrightarrow> c = CHR 0x20 \<or> (CHR 0x09 \<le> c \<and> c \<le> CHR 0x0D)"

definition trim_left :: "string \<Rightarrow> string" where
  "trim_left s = dropWhile is_space s"

definition trim_right :: "string \<Rightarrow> string" where
  "trim_right s = rev (dropWhile is_space (rev s))"

definition trim_space :: "string \<Rightarrow> string" where
  "trim_space s = trim_right (trim_left s)"

definition trim_newlines :: "string \<Rightarrow> string" where
  "trim_newlines s = rev (dropWhile (\<lambda>c. c = CHR 0x0A) (rev s))"

definition lower_char :: "char \<Rightarrow> char" where
  "lower_char c = (if CHR ''A'' \<le> c \<and> c \<le> CHR ''Z'' then char_of (of_char c + 32 :: nat) else c)"

definition to_lower :: "string \<Rightarrow> string" where
  "to_lower s = map lower_char s"

text \<open>\<^verbatim>\<open>strings.Cut\<close> at a one-byte separator; \<^const>\<open>None\<close> when it does not occur.\<close>

fun cut_at :: "char \<Rightarrow> string \<Rightarrow> (string \<times> string) option" where
  "cut_at sep [] = None"
| "cut_at sep (c # s) =
     (if c = sep then Some ([], s) else map_option (\<lambda>(a, b). (c # a, b)) (cut_at sep s))"

fun split_at :: "char \<Rightarrow> string \<Rightarrow> string list" where
  "split_at sep [] = [[]]"
| "split_at sep (c # s) =
     (if c = sep then [] # split_at sep s
      else case split_at sep s of [] \<Rightarrow> [[c]] | t # ts \<Rightarrow> (c # t) # ts)"

text \<open>\<^verbatim>\<open>strings.ReplaceAll\<close> of a single quote by two, and of two by one.\<close>

definition double_quotes :: "string \<Rightarrow> string" where
  "double_quotes s = concat (map (\<lambda>c. if c = CHR 0x27 then [c, c] else [c]) s)"

fun single_quotes :: "string \<Rightarrow> string" where
  "single_quotes (c # d # s) =
     (if c = CHR 0x27 \<and> d = CHR 0x27 then c # single_quotes s else c # single_quotes (d # s))"
| "single_quotes s = s"

subsection \<open>Floating point literals\<close>

definition is_letter :: "char \<Rightarrow> bool" where
  "is_letter c \<longleftrightarrow> CHR ''a'' \<le> c \<and> c \<le> CHR ''z'' \<or> CHR ''A'' \<le> c \<and> c \<le> CHR ''Z''"

definition float_digit :: "bool \<Rightarrow> char \<Rightarrow> bool" where
  "float_digit hex c \<longleftrightarrow> is_digit c \<or> hex \<and> CHR ''a'' \<le> lower_char c \<and> lower_char c \<le> CHR ''f''"

definition float_digit_val :: "char \<Rightarrow> nat" where
  "float_digit_val c = (if is_digit c then digit_val c else of_char (lower_char c) - 87)"

text \<open>The mantissa: its digits, how many follow the point, whether there is an underscore, and the rest.\<close>

fun mantissa :: "bool \<Rightarrow> bool \<Rightarrow> nat list \<Rightarrow> nat \<Rightarrow> bool \<Rightarrow> string \<Rightarrow> nat list \<times> nat \<times> bool \<times> string" where
  "mantissa hex dot ds frac und [] = (ds, frac, und, [])"
| "mantissa hex dot ds frac und (c # s) =
     (if c = CHR ''_'' then mantissa hex dot ds frac True s
      else if c = CHR ''.'' then (if dot then (ds, frac, und, c # s) else mantissa hex True ds frac und s)
      else if float_digit hex c
      then mantissa hex dot (ds @ [float_digit_val c]) (if dot then Suc frac else frac) und s
      else (ds, frac, und, c # s))"

fun exponent :: "int \<Rightarrow> bool \<Rightarrow> string \<Rightarrow> int \<times> bool \<times> string" where
  "exponent e und [] = (e, und, [])"
| "exponent e und (c # s) =
     (if c = CHR ''_'' then exponent e True s
      else if is_digit c then exponent (if e < 10000 then 10 * e + int (digit_val c) else e) und s
      else (e, und, c # s))"

datatype char_class = StartClass | DigitClass | UnderscoreClass | OtherClass

fun underscores_ok :: "bool \<Rightarrow> char_class \<Rightarrow> string \<Rightarrow> bool" where
  "underscores_ok hex k [] \<longleftrightarrow> k \<noteq> UnderscoreClass"
| "underscores_ok hex k (c # s) \<longleftrightarrow>
     (if float_digit hex c then underscores_ok hex DigitClass s
      else if c = CHR ''_'' then k = DigitClass \<and> underscores_ok hex UnderscoreClass s
      else k \<noteq> UnderscoreClass \<and> underscores_ok hex OtherClass s)"

text \<open>The magnitude from which rounding to 64 bits overflows.\<close>

definition float64_overflow :: nat where
  "float64_overflow = 2 ^ 1024 - 2 ^ 970"

definition scaled_overflows :: "nat \<Rightarrow> nat \<Rightarrow> int \<Rightarrow> bool" where
  "scaled_overflows base m e =
     (if 0 \<le> e then float64_overflow \<le> m * base ^ nat e else float64_overflow * base ^ nat (- e) \<le> m)"

definition float_number_ok :: "string \<Rightarrow> bool" where
  "float_number_ok s =
     (let unsigned = (if s \<noteq> [] \<and> (hd s = CHR ''+'' \<or> hd s = CHR ''-'') then tl s else s);
          hex = (2 < length unsigned \<and> unsigned ! 0 = CHR ''0'' \<and> lower_char (unsigned ! 1) = CHR ''x'');
          body = (if hex then drop 2 unsigned else unsigned);
          (ds, frac, und, rest) = mantissa hex False [] 0 False body;
          base = (if hex then 16 else 10);
          m = foldl (\<lambda>n d. base * n + d) 0 ds;
          under = (\<lambda>u. \<not> u \<or> underscores_ok hex (if hex then DigitClass else StartClass) body);
          in_range = (\<lambda>e. if hex then \<not> scaled_overflows 2 m (e - 4 * int frac)
                           else \<not> scaled_overflows 10 m (e - int frac))
      in if ds = [] then False
         else (case rest of
                 [] \<Rightarrow> \<not> hex \<and> under und \<and> in_range 0
               | c # t \<Rightarrow>
                   if lower_char c \<noteq> (if hex then CHR ''p'' else CHR ''e'') then False
                   else
                     let neg = (t \<noteq> [] \<and> hd t = CHR ''-'');
                         digits = (if t \<noteq> [] \<and> (hd t = CHR ''+'' \<or> hd t = CHR ''-'') then tl t else t);
                         (e, und, left_over) = exponent 0 und digits
                     in digits \<noteq> [] \<and> is_digit (hd digits) \<and> left_over = [] \<and> under und
                        \<and> in_range (if neg then - e else e)))"

definition parse_float_ok :: "string \<Rightarrow> bool" where
  "parse_float_ok s =
     (let low = to_lower s;
          unsigned = (if low \<noteq> [] \<and> (hd low = CHR ''+'' \<or> hd low = CHR ''-'') then tl low else low)
      in low = ''nan'' \<or> unsigned = ''inf'' \<or> unsigned = ''infinity'' \<or> float_number_ok s)"

subsection \<open>Lemmas\<close>

lemma trim_space_nil [simp]: "trim_space [] = []"
  by (simp add: trim_space_def trim_left_def trim_right_def)

lemma set_trim: "set (trim_left s) \<subseteq> set s" "set (trim_right s) \<subseteq> set s" "set (trim_space s) \<subseteq> set s"
proof -
  show l: "set (trim_left s) \<subseteq> set s" for s by (auto simp: trim_left_def dest: set_dropWhileD)
  show r: "set (trim_right s) \<subseteq> set s" for s
    using set_dropWhileD [of _ is_space "rev s"] by (auto simp: trim_right_def)
  show "set (trim_space s) \<subseteq> set s" using l [of s] r [of "trim_left s"] by (auto simp: trim_space_def)
qed

lemma trim_right_snoc: "\<not> is_space c \<Longrightarrow> trim_right (s @ c # t) = s @ c # trim_right t"
proof -
  assume c: "\<not> is_space c"
  show ?thesis
  proof (cases "list_all is_space t")
    case True
    then have "dropWhile is_space (rev t @ c # rev s) = c # rev s"
      using c by (simp add: dropWhile_append list_all_iff)
    moreover from True have "dropWhile is_space (rev t) = []" by (simp add: list_all_iff)
    ultimately show ?thesis by (simp add: trim_right_def)
  next
    case False
    then have "\<exists>x\<in>set (rev t). \<not> is_space x" by (simp add: list_all_iff)
    then show ?thesis by (auto simp: trim_right_def dropWhile_append1)
  qed
qed

lemma trim_left_cons: "\<not> is_space c \<Longrightarrow> trim_left (c # s) = c # s"
  by (simp add: trim_left_def)

lemma cut_at_eq: "sep \<notin> set a \<Longrightarrow> cut_at sep (a @ sep # b) = Some (a, b)"
  by (induction a) auto

lemma cut_at_None: "cut_at sep s = None \<longleftrightarrow> sep \<notin> set s"
  by (induction s) auto

lemma cut_at_SomeD: "cut_at sep s = Some (a, b) \<Longrightarrow> sep \<notin> set a \<and> s = a @ sep # b"
  by (induction s arbitrary: a) (auto split: if_splits)

lemma split_at_nonempty [simp]: "split_at sep s \<noteq> []"
  by (induction s) (auto split: list.split)

lemma split_at_none: "sep \<notin> set s \<Longrightarrow> split_at sep s = [s]"
  by (induction s) auto

lemma split_at_append:
  "split_at sep (s @ sep # t) = split_at sep s @ split_at sep t"
  by (induction s) (auto split: list.split)

lemma split_at_line: "sep \<notin> set s \<Longrightarrow> split_at sep (s @ sep # t) = s # split_at sep t"
  by (simp add: split_at_append split_at_none)

lemma double_quotes_Cons [simp]:
  "double_quotes [] = []" "double_quotes (c # s) = (if c = CHR 0x27 then c # c # double_quotes s else c # double_quotes s)"
  by (simp_all add: double_quotes_def)

lemma single_quotes_other: "c \<noteq> CHR 0x27 \<Longrightarrow> single_quotes (c # s) = c # single_quotes s"
  by (cases s) auto

lemma single_double_quotes: "single_quotes (double_quotes s) = s"
  by (induction s) (auto simp: single_quotes_other)

end
