(* ===== verification/Pg_Catalog.thy ===== *)
theory Pg_Catalog
  imports Go_Text
begin

text \<open>
  The PostgreSQL parameters the operator knows: \<^verbatim>\<open>pkg/postgresconfig/validate.go\<close> and \<^verbatim>\<open>classify.go\<close>, with the
  embedded catalog \<^verbatim>\<open>catalog/pg_settings_17.txt\<close> as its lines, each split at the tabs.
\<close>

definition pgSettingsCatalog :: "string list list" where
  "pgSettingsCatalog =
     [[''allow_alter_system'', ''bool'', ''sighup''], [''allow_in_place_tablespaces'', ''bool'', ''superuser''],
      [''allow_system_table_mods'', ''bool'', ''superuser''], [''application_name'', ''string'', ''user''],
      [''archive_cleanup_command'', ''string'', ''sighup''], [''archive_command'', ''string'', ''sighup''],
      [''archive_library'', ''string'', ''sighup''], [''archive_mode'', ''enum'', ''postmaster''],
      [''archive_timeout'', ''integer'', ''sighup''], [''array_nulls'', ''bool'', ''user''],
      [''authentication_timeout'', ''integer'', ''sighup''], [''autovacuum'', ''bool'', ''sighup''],
      [''autovacuum_analyze_scale_factor'', ''real'', ''sighup''],
      [''autovacuum_analyze_threshold'', ''integer'', ''sighup''],
      [''autovacuum_freeze_max_age'', ''integer'', ''postmaster''],
      [''autovacuum_max_workers'', ''integer'', ''postmaster''],
      [''autovacuum_multixact_freeze_max_age'', ''integer'', ''postmaster''],
      [''autovacuum_naptime'', ''integer'', ''sighup''], [''autovacuum_vacuum_cost_delay'', ''real'', ''sighup''],
      [''autovacuum_vacuum_cost_limit'', ''integer'', ''sighup''],
      [''autovacuum_vacuum_insert_scale_factor'', ''real'', ''sighup''],
      [''autovacuum_vacuum_insert_threshold'', ''integer'', ''sighup''],
      [''autovacuum_vacuum_scale_factor'', ''real'', ''sighup''],
      [''autovacuum_vacuum_threshold'', ''integer'', ''sighup''],
      [''autovacuum_work_mem'', ''integer'', ''sighup''], [''backend_flush_after'', ''integer'', ''user''],
      [''backslash_quote'', ''enum'', ''user''], [''backtrace_functions'', ''string'', ''superuser''],
      [''bgwriter_delay'', ''integer'', ''sighup''], [''bgwriter_flush_after'', ''integer'', ''sighup''],
      [''bgwriter_lru_maxpages'', ''integer'', ''sighup''], [''bgwriter_lru_multiplier'', ''real'', ''sighup''],
      [''block_size'', ''integer'', ''internal''], [''bonjour'', ''bool'', ''postmaster''],
      [''bonjour_name'', ''string'', ''postmaster''], [''bytea_output'', ''enum'', ''user''],
      [''check_function_bodies'', ''bool'', ''user''], [''checkpoint_completion_target'', ''real'', ''sighup''],
      [''checkpoint_flush_after'', ''integer'', ''sighup''], [''checkpoint_timeout'', ''integer'', ''sighup''],
      [''checkpoint_warning'', ''integer'', ''sighup''],
      [''client_connection_check_interval'', ''integer'', ''user''], [''client_encoding'', ''string'', ''user''],
      [''client_min_messages'', ''enum'', ''user''], [''cluster_name'', ''string'', ''postmaster''],
      [''commit_delay'', ''integer'', ''superuser''], [''commit_siblings'', ''integer'', ''user''],
      [''commit_timestamp_buffers'', ''integer'', ''postmaster''], [''compute_query_id'', ''enum'', ''superuser''],
      [''config_file'', ''string'', ''postmaster''], [''constraint_exclusion'', ''enum'', ''user''],
      [''cpu_index_tuple_cost'', ''real'', ''user''], [''cpu_operator_cost'', ''real'', ''user''],
      [''cpu_tuple_cost'', ''real'', ''user''], [''createrole_self_grant'', ''string'', ''user''],
      [''cursor_tuple_fraction'', ''real'', ''user''], [''data_checksums'', ''bool'', ''internal''],
      [''data_directory'', ''string'', ''postmaster''], [''data_directory_mode'', ''integer'', ''internal''],
      [''data_sync_retry'', ''bool'', ''postmaster''], [''deadlock_timeout'', ''integer'', ''superuser''],
      [''debug_assertions'', ''bool'', ''internal''], [''debug_deadlocks'', ''bool'', ''superuser''],
      [''debug_discard_caches'', ''integer'', ''superuser''], [''debug_io_direct'', ''string'', ''postmaster''],
      [''debug_logical_replication_streaming'', ''enum'', ''user''],
      [''debug_parallel_query'', ''enum'', ''user''], [''debug_pretty_print'', ''bool'', ''user''],
      [''debug_print_parse'', ''bool'', ''user''], [''debug_print_plan'', ''bool'', ''user''],
      [''debug_print_rewritten'', ''bool'', ''user''], [''default_statistics_target'', ''integer'', ''user''],
      [''default_table_access_method'', ''string'', ''user''], [''default_tablespace'', ''string'', ''user''],
      [''default_text_search_config'', ''string'', ''user''], [''default_toast_compression'', ''enum'', ''user''],
      [''default_transaction_deferrable'', ''bool'', ''user''],
      [''default_transaction_isolation'', ''enum'', ''user''],
      [''default_transaction_read_only'', ''bool'', ''user''], [''default_with_oids'', ''bool'', ''user''],
      [''dynamic_library_path'', ''string'', ''superuser''],
      [''dynamic_shared_memory_type'', ''enum'', ''postmaster''],
      [''effective_cache_size'', ''integer'', ''user''], [''effective_io_concurrency'', ''integer'', ''user''],
      [''enable_async_append'', ''bool'', ''user''], [''enable_bitmapscan'', ''bool'', ''user''],
      [''enable_gathermerge'', ''bool'', ''user''], [''enable_group_by_reordering'', ''bool'', ''user''],
      [''enable_hashagg'', ''bool'', ''user''], [''enable_hashjoin'', ''bool'', ''user''],
      [''enable_incremental_sort'', ''bool'', ''user''], [''enable_indexonlyscan'', ''bool'', ''user''],
      [''enable_indexscan'', ''bool'', ''user''], [''enable_material'', ''bool'', ''user''],
      [''enable_memoize'', ''bool'', ''user''], [''enable_mergejoin'', ''bool'', ''user''],
      [''enable_nestloop'', ''bool'', ''user''], [''enable_parallel_append'', ''bool'', ''user''],
      [''enable_parallel_hash'', ''bool'', ''user''], [''enable_partition_pruning'', ''bool'', ''user''],
      [''enable_partitionwise_aggregate'', ''bool'', ''user''],
      [''enable_partitionwise_join'', ''bool'', ''user''], [''enable_presorted_aggregate'', ''bool'', ''user''],
      [''enable_seqscan'', ''bool'', ''user''], [''enable_sort'', ''bool'', ''user''],
      [''enable_tidscan'', ''bool'', ''user''], [''escape_string_warning'', ''bool'', ''user''],
      [''event_source'', ''string'', ''postmaster''], [''event_triggers'', ''bool'', ''superuser''],
      [''exit_on_error'', ''bool'', ''user''], [''external_pid_file'', ''string'', ''postmaster''],
      [''extra_float_digits'', ''integer'', ''user''], [''from_collapse_limit'', ''integer'', ''user''],
      [''fsync'', ''bool'', ''sighup''], [''full_page_writes'', ''bool'', ''sighup''],
      [''geqo'', ''bool'', ''user''], [''geqo_effort'', ''integer'', ''user''],
      [''geqo_generations'', ''integer'', ''user''], [''geqo_pool_size'', ''integer'', ''user''],
      [''geqo_seed'', ''real'', ''user''], [''geqo_selection_bias'', ''real'', ''user''],
      [''geqo_threshold'', ''integer'', ''user''], [''gin_fuzzy_search_limit'', ''integer'', ''user''],
      [''gin_pending_list_limit'', ''integer'', ''user''], [''gss_accept_delegation'', ''bool'', ''sighup''],
      [''hash_mem_multiplier'', ''real'', ''user''], [''hba_file'', ''string'', ''postmaster''],
      [''hot_standby'', ''bool'', ''postmaster''], [''hot_standby_feedback'', ''bool'', ''sighup''],
      [''huge_page_size'', ''integer'', ''postmaster''], [''huge_pages'', ''enum'', ''postmaster''],
      [''huge_pages_status'', ''enum'', ''internal''], [''icu_validation_level'', ''enum'', ''user''],
      [''ident_file'', ''string'', ''postmaster''],
      [''idle_in_transaction_session_timeout'', ''integer'', ''user''],
      [''idle_session_timeout'', ''integer'', ''user''], [''ignore_checksum_failure'', ''bool'', ''superuser''],
      [''ignore_invalid_pages'', ''bool'', ''postmaster''], [''ignore_system_indexes'', ''bool'', ''backend''],
      [''in_hot_standby'', ''bool'', ''internal''], [''integer_datetimes'', ''bool'', ''internal''],
      [''io_combine_limit'', ''integer'', ''user''], [''is_superuser'', ''bool'', ''internal''],
      [''jit'', ''bool'', ''user''], [''jit_above_cost'', ''real'', ''user''],
      [''jit_debugging_support'', ''bool'', ''superuser-backend''],
      [''jit_dump_bitcode'', ''bool'', ''superuser''], [''jit_expressions'', ''bool'', ''user''],
      [''jit_inline_above_cost'', ''real'', ''user''], [''jit_optimize_above_cost'', ''real'', ''user''],
      [''jit_profiling_support'', ''bool'', ''superuser-backend''], [''jit_provider'', ''string'', ''postmaster''],
      [''jit_tuple_deforming'', ''bool'', ''user''], [''join_collapse_limit'', ''integer'', ''user''],
      [''krb_caseins_users'', ''bool'', ''sighup''], [''krb_server_keyfile'', ''string'', ''sighup''],
      [''lc_messages'', ''string'', ''superuser''], [''lc_monetary'', ''string'', ''user''],
      [''lc_numeric'', ''string'', ''user''], [''lc_time'', ''string'', ''user''],
      [''listen_addresses'', ''string'', ''postmaster''], [''lo_compat_privileges'', ''bool'', ''superuser''],
      [''local_preload_libraries'', ''string'', ''user''], [''lock_timeout'', ''integer'', ''user''],
      [''log_autovacuum_min_duration'', ''integer'', ''sighup''],
      [''log_btree_build_stats'', ''bool'', ''superuser''], [''log_checkpoints'', ''bool'', ''sighup''],
      [''log_connections'', ''bool'', ''superuser-backend''], [''log_destination'', ''string'', ''sighup''],
      [''log_directory'', ''string'', ''sighup''], [''log_disconnections'', ''bool'', ''superuser-backend''],
      [''log_duration'', ''bool'', ''superuser''], [''log_error_verbosity'', ''enum'', ''superuser''],
      [''log_executor_stats'', ''bool'', ''superuser''], [''log_file_mode'', ''integer'', ''sighup''],
      [''log_filename'', ''string'', ''sighup''], [''log_hostname'', ''bool'', ''sighup''],
      [''log_line_prefix'', ''string'', ''sighup''], [''log_lock_waits'', ''bool'', ''superuser''],
      [''log_min_duration_sample'', ''integer'', ''superuser''],
      [''log_min_duration_statement'', ''integer'', ''superuser''],
      [''log_min_error_statement'', ''enum'', ''superuser''], [''log_min_messages'', ''enum'', ''superuser''],
      [''log_parameter_max_length'', ''integer'', ''superuser''],
      [''log_parameter_max_length_on_error'', ''integer'', ''user''],
      [''log_parser_stats'', ''bool'', ''superuser''], [''log_planner_stats'', ''bool'', ''superuser''],
      [''log_recovery_conflict_waits'', ''bool'', ''sighup''],
      [''log_replication_commands'', ''bool'', ''superuser''], [''log_rotation_age'', ''integer'', ''sighup''],
      [''log_rotation_size'', ''integer'', ''sighup''],
      [''log_startup_progress_interval'', ''integer'', ''sighup''], [''log_statement'', ''enum'', ''superuser''],
      [''log_statement_sample_rate'', ''real'', ''superuser''], [''log_statement_stats'', ''bool'', ''superuser''],
      [''log_temp_files'', ''integer'', ''superuser''], [''log_timezone'', ''string'', ''sighup''],
      [''log_transaction_sample_rate'', ''real'', ''superuser''],
      [''log_truncate_on_rotation'', ''bool'', ''sighup''], [''logging_collector'', ''bool'', ''postmaster''],
      [''logical_decoding_work_mem'', ''integer'', ''user''],
      [''maintenance_io_concurrency'', ''integer'', ''user''], [''maintenance_work_mem'', ''integer'', ''user''],
      [''max_connections'', ''integer'', ''postmaster''], [''max_files_per_process'', ''integer'', ''postmaster''],
      [''max_function_args'', ''integer'', ''internal''], [''max_identifier_length'', ''integer'', ''internal''],
      [''max_index_keys'', ''integer'', ''internal''],
      [''max_locks_per_transaction'', ''integer'', ''postmaster''],
      [''max_logical_replication_workers'', ''integer'', ''postmaster''],
      [''max_notify_queue_pages'', ''integer'', ''postmaster''],
      [''max_parallel_apply_workers_per_subscription'', ''integer'', ''sighup''],
      [''max_parallel_maintenance_workers'', ''integer'', ''user''],
      [''max_parallel_workers'', ''integer'', ''user''],
      [''max_parallel_workers_per_gather'', ''integer'', ''user''],
      [''max_pred_locks_per_page'', ''integer'', ''sighup''],
      [''max_pred_locks_per_relation'', ''integer'', ''sighup''],
      [''max_pred_locks_per_transaction'', ''integer'', ''postmaster''],
      [''max_prepared_transactions'', ''integer'', ''postmaster''],
      [''max_replication_slots'', ''integer'', ''postmaster''],
      [''max_slot_wal_keep_size'', ''integer'', ''sighup''], [''max_stack_depth'', ''integer'', ''superuser''],
      [''max_standby_archive_delay'', ''integer'', ''sighup''],
      [''max_standby_streaming_delay'', ''integer'', ''sighup''],
      [''max_sync_workers_per_subscription'', ''integer'', ''sighup''],
      [''max_wal_senders'', ''integer'', ''postmaster''], [''max_wal_size'', ''integer'', ''sighup''],
      [''max_worker_processes'', ''integer'', ''postmaster''],
      [''min_dynamic_shared_memory'', ''integer'', ''postmaster''],
      [''min_parallel_index_scan_size'', ''integer'', ''user''],
      [''min_parallel_table_scan_size'', ''integer'', ''user''], [''min_wal_size'', ''integer'', ''sighup''],
      [''multixact_member_buffers'', ''integer'', ''postmaster''],
      [''multixact_offset_buffers'', ''integer'', ''postmaster''],
      [''notify_buffers'', ''integer'', ''postmaster''], [''parallel_leader_participation'', ''bool'', ''user''],
      [''parallel_setup_cost'', ''real'', ''user''], [''parallel_tuple_cost'', ''real'', ''user''],
      [''password_encryption'', ''enum'', ''user''], [''plan_cache_mode'', ''enum'', ''user''],
      [''port'', ''integer'', ''postmaster''], [''post_auth_delay'', ''integer'', ''backend''],
      [''pre_auth_delay'', ''integer'', ''sighup''], [''primary_conninfo'', ''string'', ''sighup''],
      [''primary_slot_name'', ''string'', ''sighup''], [''quote_all_identifiers'', ''bool'', ''user''],
      [''random_page_cost'', ''real'', ''user''], [''recovery_end_command'', ''string'', ''sighup''],
      [''recovery_init_sync_method'', ''enum'', ''sighup''],
      [''recovery_min_apply_delay'', ''integer'', ''sighup''], [''recovery_prefetch'', ''enum'', ''sighup''],
      [''recovery_target'', ''string'', ''postmaster''], [''recovery_target_action'', ''enum'', ''postmaster''],
      [''recovery_target_inclusive'', ''bool'', ''postmaster''],
      [''recovery_target_lsn'', ''string'', ''postmaster''],
      [''recovery_target_name'', ''string'', ''postmaster''],
      [''recovery_target_time'', ''string'', ''postmaster''],
      [''recovery_target_timeline'', ''string'', ''postmaster''],
      [''recovery_target_xid'', ''string'', ''postmaster''], [''recursive_worktable_factor'', ''real'', ''user''],
      [''remove_temp_files_after_crash'', ''bool'', ''sighup''],
      [''reserved_connections'', ''integer'', ''postmaster''], [''restart_after_crash'', ''bool'', ''sighup''],
      [''restore_command'', ''string'', ''sighup''], [''restrict_nonsystem_relation_kind'', ''string'', ''user''],
      [''role'', ''string'', ''user''], [''row_security'', ''bool'', ''user''],
      [''scram_iterations'', ''integer'', ''user''], [''search_path'', ''string'', ''user''],
      [''seed'', ''real'', ''user''], [''segment_size'', ''integer'', ''internal''],
      [''send_abort_for_crash'', ''bool'', ''sighup''], [''send_abort_for_kill'', ''bool'', ''sighup''],
      [''seq_page_cost'', ''real'', ''user''], [''serializable_buffers'', ''integer'', ''postmaster''],
      [''server_encoding'', ''string'', ''internal''], [''server_version'', ''string'', ''internal''],
      [''server_version_num'', ''integer'', ''internal''], [''session_authorization'', ''string'', ''user''],
      [''session_preload_libraries'', ''string'', ''superuser''],
      [''session_replication_role'', ''enum'', ''superuser''], [''shared_buffers'', ''integer'', ''postmaster''],
      [''shared_memory_size'', ''integer'', ''internal''],
      [''shared_memory_size_in_huge_pages'', ''integer'', ''internal''],
      [''shared_memory_type'', ''enum'', ''postmaster''],
      [''shared_preload_libraries'', ''string'', ''postmaster''], [''ssl'', ''bool'', ''sighup''],
      [''ssl_ca_file'', ''string'', ''sighup''], [''ssl_cert_file'', ''string'', ''sighup''],
      [''ssl_ciphers'', ''string'', ''sighup''], [''ssl_crl_dir'', ''string'', ''sighup''],
      [''ssl_crl_file'', ''string'', ''sighup''], [''ssl_dh_params_file'', ''string'', ''sighup''],
      [''ssl_ecdh_curve'', ''string'', ''sighup''], [''ssl_key_file'', ''string'', ''sighup''],
      [''ssl_library'', ''string'', ''internal''], [''ssl_max_protocol_version'', ''enum'', ''sighup''],
      [''ssl_min_protocol_version'', ''enum'', ''sighup''], [''ssl_passphrase_command'', ''string'', ''sighup''],
      [''ssl_passphrase_command_supports_reload'', ''bool'', ''sighup''],
      [''ssl_prefer_server_ciphers'', ''bool'', ''sighup''], [''ssl_renegotiation_limit'', ''integer'', ''user''],
      [''standard_conforming_strings'', ''bool'', ''user''], [''statement_timeout'', ''integer'', ''user''],
      [''stats_fetch_consistency'', ''enum'', ''user''], [''subtransaction_buffers'', ''integer'', ''postmaster''],
      [''summarize_wal'', ''bool'', ''sighup''], [''superuser_reserved_connections'', ''integer'', ''postmaster''],
      [''sync_replication_slots'', ''bool'', ''sighup''], [''synchronize_seqscans'', ''bool'', ''user''],
      [''synchronized_standby_slots'', ''string'', ''sighup''], [''synchronous_commit'', ''enum'', ''user''],
      [''synchronous_standby_names'', ''string'', ''sighup''], [''syslog_facility'', ''enum'', ''sighup''],
      [''syslog_ident'', ''string'', ''sighup''], [''syslog_sequence_numbers'', ''bool'', ''sighup''],
      [''syslog_split_messages'', ''bool'', ''sighup''], [''tcp_keepalives_count'', ''integer'', ''user''],
      [''tcp_keepalives_idle'', ''integer'', ''user''], [''tcp_keepalives_interval'', ''integer'', ''user''],
      [''tcp_user_timeout'', ''integer'', ''user''], [''temp_buffers'', ''integer'', ''user''],
      [''temp_file_limit'', ''integer'', ''superuser''], [''temp_tablespaces'', ''string'', ''user''],
      [''timezone_abbreviations'', ''string'', ''user''],
      [''trace_connection_negotiation'', ''bool'', ''postmaster''],
      [''trace_lock_oidmin'', ''integer'', ''superuser''], [''trace_lock_table'', ''integer'', ''superuser''],
      [''trace_locks'', ''bool'', ''superuser''], [''trace_lwlocks'', ''bool'', ''superuser''],
      [''trace_notify'', ''bool'', ''user''], [''trace_sort'', ''bool'', ''user''],
      [''trace_syncscan'', ''bool'', ''user''], [''trace_userlocks'', ''bool'', ''superuser''],
      [''track_activities'', ''bool'', ''superuser''],
      [''track_activity_query_size'', ''integer'', ''postmaster''],
      [''track_commit_timestamp'', ''bool'', ''postmaster''], [''track_counts'', ''bool'', ''superuser''],
      [''track_functions'', ''enum'', ''superuser''], [''track_io_timing'', ''bool'', ''superuser''],
      [''track_wal_io_timing'', ''bool'', ''superuser''], [''transaction_buffers'', ''integer'', ''postmaster''],
      [''transaction_deferrable'', ''bool'', ''user''], [''transaction_isolation'', ''enum'', ''user''],
      [''transaction_read_only'', ''bool'', ''user''], [''transaction_timeout'', ''integer'', ''user''],
      [''transform_null_equals'', ''bool'', ''user''], [''unix_socket_directories'', ''string'', ''postmaster''],
      [''unix_socket_group'', ''string'', ''postmaster''],
      [''unix_socket_permissions'', ''integer'', ''postmaster''],
      [''update_process_title'', ''bool'', ''superuser''], [''vacuum_buffer_usage_limit'', ''integer'', ''user''],
      [''vacuum_cost_delay'', ''real'', ''user''], [''vacuum_cost_limit'', ''integer'', ''user''],
      [''vacuum_cost_page_dirty'', ''integer'', ''user''], [''vacuum_cost_page_hit'', ''integer'', ''user''],
      [''vacuum_cost_page_miss'', ''integer'', ''user''], [''vacuum_failsafe_age'', ''integer'', ''user''],
      [''vacuum_freeze_min_age'', ''integer'', ''user''], [''vacuum_freeze_table_age'', ''integer'', ''user''],
      [''vacuum_multixact_failsafe_age'', ''integer'', ''user''],
      [''vacuum_multixact_freeze_min_age'', ''integer'', ''user''],
      [''vacuum_multixact_freeze_table_age'', ''integer'', ''user''],
      [''wal_block_size'', ''integer'', ''internal''], [''wal_buffers'', ''integer'', ''postmaster''],
      [''wal_compression'', ''enum'', ''superuser''], [''wal_consistency_checking'', ''string'', ''superuser''],
      [''wal_debug'', ''bool'', ''superuser''], [''wal_decode_buffer_size'', ''integer'', ''postmaster''],
      [''wal_init_zero'', ''bool'', ''superuser''], [''wal_keep_size'', ''integer'', ''sighup''],
      [''wal_level'', ''enum'', ''postmaster''], [''wal_log_hints'', ''bool'', ''postmaster''],
      [''wal_receiver_create_temp_slot'', ''bool'', ''sighup''],
      [''wal_receiver_status_interval'', ''integer'', ''sighup''],
      [''wal_receiver_timeout'', ''integer'', ''sighup''], [''wal_recycle'', ''bool'', ''superuser''],
      [''wal_retrieve_retry_interval'', ''integer'', ''sighup''],
      [''wal_segment_size'', ''integer'', ''internal''], [''wal_sender_timeout'', ''integer'', ''user''],
      [''wal_skip_threshold'', ''integer'', ''user''], [''wal_summary_keep_time'', ''integer'', ''sighup''],
      [''wal_sync_method'', ''enum'', ''sighup''], [''wal_writer_delay'', ''integer'', ''sighup''],
      [''wal_writer_flush_after'', ''integer'', ''sighup''], [''work_mem'', ''integer'', ''user''],
      [''xmlbinary'', ''enum'', ''user''], [''xmloption'', ''enum'', ''user''],
      [''zero_damaged_pages'', ''bool'', ''superuser'']]"

record catalogEntry =
  ce_typ :: string
  ce_context :: string

definition parseCatalog :: "string list list \<Rightarrow> (string \<times> catalogEntry) list" where
  "parseCatalog lines =
     foldl (\<lambda>m fields.
        case fields of
          name # typ # rest \<Rightarrow>
            upd name \<lparr>ce_typ = typ, ce_context = (case rest of [] \<Rightarrow> [] | c # _ \<Rightarrow> c)\<rparr> m
        | _ \<Rightarrow> m) [] lines"

definition pg_catalog :: "(string \<times> catalogEntry) list" where
  "pg_catalog = parseCatalog pgSettingsCatalog"

definition pinned :: string where
  "pinned = ''pinned by the operator on the pgctld command line''"

definition managedGUCs :: "(string \<times> string) list" where
  "managedGUCs =
     [(''port'', pinned), (''listen_addresses'', pinned), (''unix_socket_directories'', pinned),
      (''data_directory'', pinned), (''hba_file'', pinned), (''ident_file'', pinned),
      (''wal_level'', ''managed by the operator; multigres requires wal_level=logical'')]"

subsection \<open>Validation\<close>

definition isIntegerWithOptionalUnit :: "string \<Rightarrow> bool" where
  "isIntegerWithOptionalUnit v =
     (let v = trim_space v;
          v = (if v \<noteq> [] \<and> (hd v = CHR ''-'' \<or> hd v = CHR ''+'') then tl v else v)
      in takeWhile is_digit v \<noteq> [] \<and> list_all is_letter (trim_space (dropWhile is_digit v)))"

definition valueMatchesType :: "string \<Rightarrow> string \<Rightarrow> bool" where
  "valueMatchesType value typ =
     (let v = trim_space value
      in if typ = ''bool''
         then to_lower v \<in> {''on'', ''off'', ''true'', ''false'', ''yes'', ''no'', ''1'', ''0''}
         else if typ = ''integer'' then isIntegerWithOptionalUnit v
         else if typ = ''real'' then parse_float_ok v
         else True)"

datatype guc_error =
    ManagedParameter string string | UnknownParameter string | WrongType string string string

definition validateGUC :: "string \<Rightarrow> string \<Rightarrow> guc_error option" where
  "validateGUC name value =
     (if CHR ''.'' \<in> set name then None
      else
        let lower = to_lower (trim_space name)
        in case map_of managedGUCs lower of
             Some reason \<Rightarrow> Some (ManagedParameter name reason)
           | None \<Rightarrow>
               (case map_of pg_catalog lower of
                  None \<Rightarrow> Some (UnknownParameter name)
                | Some entry \<Rightarrow>
                    if valueMatchesType value (ce_typ entry) then None
                    else Some (WrongType name (ce_typ entry) value)))"

text \<open>The problems in the order of the names; none means that the map is accepted.\<close>

definition Validate :: "(string \<times> string) list \<Rightarrow> guc_error list" where
  "Validate cfg =
     List.map_filter (\<lambda>name. validateGUC name (str_at (map_of cfg) name)) (sort (map fst cfg))"

subsection \<open>Restart or reload\<close>

definition restartContexts :: "string list" where
  "restartContexts = [''postmaster'', ''internal'', ''backend'', ''superuser-backend'']"

definition RequiresRestart :: "string \<Rightarrow> bool" where
  "RequiresRestart name =
     (let lower = to_lower (trim_space name)
      in if CHR ''.'' \<in> set lower then True
         else (case map_of pg_catalog lower of
                 None \<Rightarrow> True
               | Some entry \<Rightarrow> if ce_context entry = [] then True else ce_context entry \<in> set restartContexts))"

subsection \<open>Lemmas\<close>

text \<open>The names of the catalog have no equality sign and no line break.\<close>

fun none_of :: "char \<Rightarrow> char \<Rightarrow> string \<Rightarrow> bool" where
  "none_of a b [] = True"
| "none_of a b (c # s) = (if c = a then False else if c = b then False else none_of a b s)"

lemma none_of_iff: "none_of a b s \<longleftrightarrow> a \<notin> set s \<and> b \<notin> set s"
  by (induction s) auto

lemma catalog_names_plain: "list_all (\<lambda>fields. none_of (CHR ''='') (CHR 0x0A) (hd fields)) pgSettingsCatalog"
  unfolding pgSettingsCatalog_def list.pred_inject list.sel by (intro conjI TrueI) simp_all

lemma parseCatalog_names:
  "map_of (parseCatalog ls) k = Some e \<Longrightarrow> \<exists>fields\<in>set ls. hd fields = k"
proof -
  let ?step = "\<lambda>m fields. case fields of
      name # typ # rest \<Rightarrow> upd name \<lparr>ce_typ = typ, ce_context = (case rest of [] \<Rightarrow> [] | c # _ \<Rightarrow> c)\<rparr> m
    | _ \<Rightarrow> m"
  have "map_of (foldl ?step m ls) k = Some e \<Longrightarrow> map_of m k = Some e \<or> (\<exists>fields\<in>set ls. hd fields = k)" for m
  proof (induction ls arbitrary: m)
    case (Cons fields ls)
    from Cons.IH [of "?step m fields"] Cons.prems show ?case
      by (auto split: list.splits if_splits)
  qed simp
  then show "map_of (parseCatalog ls) k = Some e \<Longrightarrow> \<exists>fields\<in>set ls. hd fields = k"
    unfolding parseCatalog_def by force
qed

lemma catalog_name: "map_of pg_catalog k = Some e \<Longrightarrow> CHR ''='' \<notin> set k \<and> CHR 0x0A \<notin> set k"
  unfolding pg_catalog_def using parseCatalog_names [of pgSettingsCatalog k e] catalog_names_plain
  by (auto simp: list_all_iff none_of_iff)

text \<open>A parameter that passes validation and is not an extension's is in the catalog and not managed.\<close>

lemma validateGUC_None:
  assumes "validateGUC name value = None" and "CHR ''.'' \<notin> set name"
  shows "map_of managedGUCs (to_lower (trim_space name)) = None
    \<and> (\<exists>e. map_of pg_catalog (to_lower (trim_space name)) = Some e)"
  using assms by (auto simp: validateGUC_def Let_def split: option.splits)

lemma Validate_Nil_iff: "Validate cfg = [] \<longleftrightarrow> (\<forall>name\<in>fst ` set cfg. validateGUC name (str_at (map_of cfg) name) = None)"
  by (auto simp: Validate_def List.map_filter_def filter_empty_conv)

text \<open>A lookup reads the last line that names the parameter.\<close>

fun catalog_entry :: "string list \<Rightarrow> catalogEntry option" where
  "catalog_entry (name # typ # rest) = Some \<lparr>ce_typ = typ, ce_context = (case rest of [] \<Rightarrow> [] | c # _ \<Rightarrow> c)\<rparr>"
| "catalog_entry _ = None"

primrec catalog_find :: "string list list \<Rightarrow> string \<Rightarrow> catalogEntry option" where
  "catalog_find [] k = None"
| "catalog_find (line # ls) k =
     (case catalog_find ls k of
        Some e \<Rightarrow> Some e
      | None \<Rightarrow> if line \<noteq> [] \<and> hd line = k then catalog_entry line else None)"

lemma catalog_lookup: "map_of (parseCatalog ls) k = catalog_find ls k"
proof -
  let ?step = "\<lambda>m line. case line of
      name # typ # rest \<Rightarrow> upd name \<lparr>ce_typ = typ, ce_context = (case rest of [] \<Rightarrow> [] | c # _ \<Rightarrow> c)\<rparr> m
    | _ \<Rightarrow> m"
  have "map_of (foldl ?step m ls) k = (case catalog_find ls k of Some e \<Rightarrow> Some e | None \<Rightarrow> map_of m k)" for m
  proof (induction ls arbitrary: m)
    case (Cons line ls)
    then show ?case
      by (cases line rule: catalog_entry.cases) (auto split: list.splits option.splits)
  qed simp
  then show ?thesis unfolding parseCatalog_def by (auto split: option.splits)
qed

lemma catalog_work_mem: "map_of pg_catalog ''work_mem'' = Some \<lparr>ce_typ = ''integer'', ce_context = ''user''\<rparr>"
  unfolding pg_catalog_def catalog_lookup pgSettingsCatalog_def by code_simp

end
