(* ===== verification/Pg_Sizing.thy ===== *)
theory Pg_Sizing
  imports Go_Prelude "HOL-Library.Word"
begin

text \<open>
  Sizing PostgreSQL from the resources of a shard: \<^verbatim>\<open>pkg/postgresconfig/sizing.go\<close> and the \<^verbatim>\<open>Config\<close> of
  \<^verbatim>\<open>render.go\<close>.

  An \<^verbatim>\<open>int64\<close> is an \<^typ>\<open>int\<close> with the wrap-around written where a product may leave the range, and division
  truncates as Go's does; the WAL computation is on \<^verbatim>\<open>uint64\<close>, here \<^typ>\<open>64 word\<close>. The two floating point
  fields, which no code changes, are kept as the text the template prints for them.
\<close>

subsection \<open>Fixed-width integers\<close>

definition wrap64 :: "int \<Rightarrow> int" where
  "wrap64 i = (i + 2 ^ 63) mod 2 ^ 64 - 2 ^ 63"

definition quot64 :: "int \<Rightarrow> int \<Rightarrow> int" where
  "quot64 a b = (if a < 0 then - ((- a) div b) else a div b)"

lemma wrap64_id: "- (2 ^ 63) \<le> i \<Longrightarrow> i < 2 ^ 63 \<Longrightarrow> wrap64 i = i"
  by (simp add: wrap64_def)

lemma quot64_nonneg [simp]: "0 \<le> a \<Longrightarrow> quot64 a b = a div b"
  by (simp add: quot64_def)

subsection \<open>The configuration\<close>

record pg_config =
  MaxConnections :: int
  SharedBuffers :: string
  MaintenanceWorkMem :: string
  WorkMem :: string
  MaxWorkerProcesses :: int
  EffectiveIoConcurrency :: int
  MaxParallelWorkers :: int
  MaxParallelWorkersPerGather :: int
  MaxParallelMaintenanceWorkers :: int
  WalBuffers :: string
  MinWalSize :: string
  MaxWalSize :: string
  WalKeepSize :: string
  MaxSlotWalKeepSize :: string
  CheckpointCompletionTarget :: string
  MaxWalSenders :: int
  MaxReplicationSlots :: int
  EffectiveCacheSize :: string
  RandomPageCost :: string
  DefaultStatisticsTarget :: int
  ClusterName :: string

definition Defaults :: pg_config where
  "Defaults =
     \<lparr>MaxConnections = 60, SharedBuffers = ''64MB'', MaintenanceWorkMem = ''16MB'', WorkMem = ''1092kB'',
      MaxWorkerProcesses = 6, EffectiveIoConcurrency = 200, MaxParallelWorkers = 2,
      MaxParallelWorkersPerGather = 1, MaxParallelMaintenanceWorkers = 1, WalBuffers = ''1920kB'',
      MinWalSize = ''80MB'', MaxWalSize = ''1024MB'', WalKeepSize = ''1000MB'', MaxSlotWalKeepSize = ''1024MB'',
      CheckpointCompletionTarget = ''0.9'', MaxWalSenders = 25, MaxReplicationSlots = 25,
      EffectiveCacheSize = ''192MB'', RandomPageCost = ''1.1'', DefaultStatisticsTarget = 100,
      ClusterName = ''default''\<rparr>"

definition kib :: int where "kib = 2 ^ 10"
definition mib :: int where "mib = 2 ^ 20"
definition gib :: int where "gib = 2 ^ 30"
definition maintenanceWorkMemCapBytes :: int where "maintenanceWorkMemCapBytes = 2 * gib"

definition formatBytes :: "int \<Rightarrow> string" where
  "formatBytes b =
     (let kb = quot64 b kib
      in if kb \<le> 0 then ''0kB''
         else if kb mod (kib * kib) = 0 then itoa (kb div (kib * kib)) @ ''GB''
         else if kb mod kib = 0 then itoa (kb div kib) @ ''MB''
         else itoa kb @ ''kB'')"

definition clampInt64 :: "int \<Rightarrow> int \<Rightarrow> int \<Rightarrow> int" where
  "clampInt64 v lo hi = min (max v lo) hi"

definition deriveMaxConnections :: "int \<Rightarrow> int" where
  "deriveMaxConnections memBytes =
     (let memGiB = quot64 memBytes gib
      in if memGiB < 2 then 60 else if memGiB < 4 then 90 else if memGiB < 8 then 120
         else if memGiB < 16 then 160 else if memGiB < 32 then 240 else if memGiB < 64 then 380
         else if memGiB < 128 then 480 else if memGiB < 192 then 490 else if memGiB < 384 then 500
         else if memGiB < 768 then 750 else 1000)"

definition deriveWalSenders :: "int \<Rightarrow> int" where
  "deriveWalSenders memBytes =
     (let memGiB = quot64 memBytes gib
      in if memGiB < 2 then 5 else if memGiB < 16 then 10 else if memGiB < 32 then 24 else 80)"

subsection \<open>The WAL on disk\<close>

definition megabyte :: "64 word" where "megabyte = 2 ^ 20"
definition defaultWalSegmentSizeBytes :: "64 word" where "defaultWalSegmentSizeBytes = 16 * megabyte"
definition maxWalSizeCapMB :: "64 word" where "maxWalSizeCapMB = 4096"

record walSettings =
  minWalSizeMB :: "64 word"
  maxWalSizeMB :: "64 word"
  walKeepSizeMB :: "64 word"
  maxSlotWalKeepSizeMB :: "64 word"

definition clampUint64 :: "64 word \<Rightarrow> 64 word \<Rightarrow> 64 word \<Rightarrow> 64 word" where
  "clampUint64 v lo hi = min (max v lo) hi"

datatype wal_error = BadSegmentSize "64 word" | SegmentAboveCap "64 word" "64 word"

definition deriveWalSettings :: "64 word \<Rightarrow> 64 word \<Rightarrow> wal_error + walSettings" where
  "deriveWalSettings volumeBytes walSegmentSizeBytes =
     (if walSegmentSizeBytes = 0 \<or> walSegmentSizeBytes mod megabyte \<noteq> 0
      then Inl (BadSegmentSize walSegmentSizeBytes)
      else
        let volMB = volumeBytes div megabyte;
            walSegmentSizeMB = walSegmentSizeBytes div megabyte;
            maxWalFloor = max 64 (4 * walSegmentSizeMB)
        in if maxWalSizeCapMB < maxWalFloor then Inl (SegmentAboveCap walSegmentSizeMB maxWalSizeCapMB)
           else
             let minWalFloor = max 32 (2 * walSegmentSizeMB);
                 maxWal = clampUint64 (volMB div 4) maxWalFloor maxWalSizeCapMB
             in Inr \<lparr>minWalSizeMB = clampUint64 (maxWal div 4) minWalFloor (max 1024 minWalFloor),
                     maxWalSizeMB = maxWal,
                     walKeepSizeMB = clampUint64 (volMB div 8) (max 32 walSegmentSizeMB) (max 1000 walSegmentSizeMB),
                     maxSlotWalKeepSizeMB = maxWal\<rparr>)"

subsection \<open>Sizing\<close>

definition size_cpu :: "int \<Rightarrow> pg_config \<Rightarrow> pg_config" where
  "size_cpu cpuMillicores cfg =
     (if 0 < cpuMillicores
      then let cores = cpuMillicores div 1000
           in cfg\<lparr>MaxWorkerProcesses := max cores (MaxWorkerProcesses cfg),
                  MaxParallelWorkers := max cores (MaxParallelWorkers cfg),
                  MaxParallelWorkersPerGather := max (cores div 2) (MaxParallelWorkersPerGather cfg),
                  MaxParallelMaintenanceWorkers := min (max (cores div 2) (MaxParallelMaintenanceWorkers cfg)) 4\<rparr>
      else cfg)"

definition size_memory :: "int \<Rightarrow> pg_config \<Rightarrow> pg_config" where
  "size_memory memBytes cfg =
     (if 0 < memBytes
      then let conns0 = deriveMaxConnections memBytes;
               senders = deriveWalSenders memBytes;
               shared = memBytes div 4;
               parallel = max (MaxParallelWorkersPerGather cfg) 1;
               conns = max conns0 1
           in cfg\<lparr>MaxConnections := conns0, MaxWalSenders := senders, MaxReplicationSlots := senders,
                  SharedBuffers := formatBytes shared,
                  EffectiveCacheSize := formatBytes (quot64 (wrap64 (memBytes * 3)) 4),
                  MaintenanceWorkMem := formatBytes (min (memBytes div 16) maintenanceWorkMemCapBytes),
                  WalBuffers := formatBytes (clampInt64 (shared * 3 div 100) (32 * kib) (16 * mib)),
                  WorkMem := formatBytes (max ((memBytes - shared) div (conns * 3) div parallel) (64 * kib))\<rparr>
      else cfg)"

definition size_disk :: "int \<Rightarrow> pg_config \<Rightarrow> wal_error + pg_config" where
  "size_disk diskBytes cfg =
     (if 0 < diskBytes
      then (case deriveWalSettings (word_of_int diskBytes) defaultWalSegmentSizeBytes of
              Inl err \<Rightarrow> Inl err
            | Inr ws \<Rightarrow>
                Inr (cfg\<lparr>MinWalSize := utoa (unat (minWalSizeMB ws)) @ ''MB'',
                         MaxWalSize := utoa (unat (maxWalSizeMB ws)) @ ''MB'',
                         WalKeepSize := utoa (unat (walKeepSizeMB ws)) @ ''MB'',
                         MaxSlotWalKeepSize := utoa (unat (maxSlotWalKeepSizeMB ws)) @ ''MB''\<rparr>))
      else Inr cfg)"

definition ApplyResourceSizing :: "pg_config \<Rightarrow> int \<Rightarrow> int \<Rightarrow> int \<Rightarrow> wal_error + pg_config" where
  "ApplyResourceSizing cfg memBytes cpuMillicores diskBytes =
     size_disk diskBytes (size_memory memBytes (size_cpu cpuMillicores cfg))"

subsection \<open>Sizes as PostgreSQL reads them\<close>

text \<open>The number of kilobytes a size string of \<^verbatim>\<open>postgresql.conf\<close> stands for.\<close>

definition unit_kb :: "string \<Rightarrow> nat option" where
  "unit_kb u = (if u = ''kB'' then Some 1 else if u = ''MB'' then Some 1024
     else if u = ''GB'' then Some (1024 * 1024) else None)"

definition size_kb :: "string \<Rightarrow> nat option" where
  "size_kb s =
     (let ds = takeWhile is_digit s
      in if ds = [] then None
         else map_option (\<lambda>u. atou 0 ds * u) (unit_kb (dropWhile is_digit s)))"

lemma size_kb_utoa:
  assumes "u \<in> {''kB'', ''MB'', ''GB''}"
  shows "size_kb (utoa n @ u) = map_option (\<lambda>k. n * k) (unit_kb u)"
proof -
  have "\<not> is_digit CHR ''k'' \<and> \<not> is_digit CHR ''M'' \<and> \<not> is_digit CHR ''G''" by code_simp
  with assms have u: "takeWhile is_digit u = []" "dropWhile is_digit u = u" by auto
  have "\<forall>c\<in>set (utoa n). is_digit c" using utoa_digits [of n] by (simp add: list_all_iff)
  then have "takeWhile is_digit (utoa n @ u) = utoa n" "dropWhile is_digit (utoa n @ u) = u"
    using u by (simp_all add: takeWhile_append dropWhile_append)
  then show ?thesis by (simp add: size_kb_def)
qed

lemma div_exact:
  fixes x n :: int
  assumes "x mod n = 0" "0 < n" "0 < x"
  shows "0 < x div n" and "nat (x div n) * nat n = nat x"
proof -
  have n: "n dvd x" using assms(1) by (rule mod_0_imp_dvd)
  have "n \<le> x" using n assms(3) by (rule zdvd_imp_le)
  then show pos: "0 < x div n" using assms(2) by (simp only: pos_imp_zdiv_pos_iff)
  have "nat (x div n) * nat n = nat (x div n * n)"
    using pos by (intro nat_mult_distrib [symmetric]) simp
  also have "x div n * n = x" using n by (rule dvd_div_mult_self)
  finally show "nat (x div n) * nat n = nat x" .
qed

definition kb_unit :: "int \<Rightarrow> string \<times> int" where
  "kb_unit kb = (if kb mod (1024 * 1024) = 0 then (''GB'', 1024 * 1024)
     else if kb mod 1024 = 0 then (''MB'', 1024) else (''kB'', 1))"

lemma kb_unit: "kb mod snd (kb_unit kb) = 0" "0 < snd (kb_unit kb)"
  "unit_kb (fst (kb_unit kb)) = Some (nat (snd (kb_unit kb)))" "fst (kb_unit kb) \<in> {''kB'', ''MB'', ''GB''}"
  by (simp_all add: kb_unit_def unit_kb_def)

lemma formatBytes_pos:
  fixes b :: int defines "kb \<equiv> b div 1024"
  assumes kb: "0 < kb"
  shows "formatBytes b = utoa (nat (kb div snd (kb_unit kb))) @ fst (kb_unit kb)"
proof -
  have q: "quot64 b kib = kb"
    using kb by (simp add: kb_def quot64_def kib_def pos_imp_zdiv_pos_iff)
  have itoa: "itoa n = utoa (nat n)" if "0 < n" for n using that by (simp add: itoa_def)
  have "formatBytes b = itoa (kb div snd (kb_unit kb)) @ fst (kb_unit kb)"
    using kb by (simp only: formatBytes_def q Let_def) (simp add: kib_def kb_unit_def)
  then show ?thesis unfolding itoa [OF div_exact(1) [OF kb_unit(1,2) kb]] .
qed

lemma size_kb_formatBytes: "size_kb (formatBytes b) = Some (nat (b div 1024))"
proof (cases "0 < b div 1024")
  case True
  let ?u = "kb_unit (b div 1024)"
  have "size_kb (formatBytes b) = Some (nat (b div 1024 div snd ?u) * nat (snd ?u))"
    unfolding formatBytes_pos [OF True] size_kb_utoa [OF kb_unit(4)] kb_unit(3) by simp
  then show ?thesis unfolding div_exact(2) [OF kb_unit(1,2) True] .
next
  case False
  then have "quot64 b kib \<le> 0" by (auto simp: quot64_def kib_def)
  moreover have "size_kb ''0kB'' = Some 0" by code_simp
  ultimately show ?thesis using False by (simp add: formatBytes_def)
qed

text \<open>
  \<^const>\<open>formatBytes\<close> writes a size that PostgreSQL reads back as the number of whole kilobytes of the
  argument (zero for a negative one), for every \<^verbatim>\<open>int64\<close>, and, when there is one, in the largest unit
  that divides it.
\<close>

theorem formatBytes_exact:
  "size_kb (formatBytes b) = Some (nat (b div 1024))
   \<and> (b div 1024 \<le> 0 \<or> (\<exists>n. formatBytes b = utoa n @ fst (kb_unit (b div 1024))))"
  using size_kb_formatBytes [of b] formatBytes_pos [of b] by fastforce

subsection \<open>Bounds\<close>

lemma unat_MB_le: "unat (w div megabyte) \<le> 2 ^ 44" for w :: "64 word"
proof -
  have "unat w < 2 ^ 64" using unsigned_less [of w] by simp
  then have "unat w div 2 ^ 20 \<le> 2 ^ 44" by simp
  then show ?thesis by (simp add: unat_div megabyte_def)
qed

lemma unat_times_small:
  fixes w :: "64 word"
  assumes "unat w \<le> 2 ^ 44"
  shows "unat (4 * w) = 4 * unat w" "unat (2 * w) = 2 * unat w"
  using assms by (simp_all add: unat_word_ariths)

lemma unat_min_max: "unat (min a b) = min (unat a) (unat b)" "unat (max a b) = max (unat a) (unat b)"
  for a b :: "64 word"
  by (simp_all add: min_def max_def word_le_nat_alt)

text \<open>The settings in natural numbers, for a whole number of megabytes per segment.\<close>

lemma deriveWalSettings_nat:
  fixes vol seg :: "64 word"
  defines "v \<equiv> unat (vol div megabyte)" and "g \<equiv> unat (seg div megabyte)"
  assumes "deriveWalSettings vol seg = Inr ws"
  shows "seg \<noteq> 0 \<and> seg mod megabyte = 0 \<and> max 64 (4 * g) \<le> 4096
    \<and> unat (maxWalSizeMB ws) = min (max (v div 4) (max 64 (4 * g))) 4096
    \<and> unat (minWalSizeMB ws)
        = min (max (unat (maxWalSizeMB ws) div 4) (max 32 (2 * g))) (max 1024 (max 32 (2 * g)))
    \<and> unat (walKeepSizeMB ws) = min (max (v div 8) (max 32 g)) (max 1000 g)
    \<and> maxSlotWalKeepSizeMB ws = maxWalSizeMB ws"
proof -
  have four: "unat (4 * (seg div megabyte)) = 4 * g" and two: "unat (2 * (seg div megabyte)) = 2 * g"
    using unat_times_small [OF unat_MB_le] by (simp_all add: g_def)
  let ?floor = "max 64 (4 * (seg div megabyte))"
  let ?max = "clampUint64 (vol div megabyte div 4) ?floor maxWalSizeCapMB"
  from assms(3) have ok: "seg \<noteq> 0" "seg mod megabyte = 0" "\<not> maxWalSizeCapMB < ?floor"
    and ws: "ws = \<lparr>minWalSizeMB = clampUint64 (?max div 4) (max 32 (2 * (seg div megabyte)))
          (max 1024 (max 32 (2 * (seg div megabyte)))),
        maxWalSizeMB = ?max,
        walKeepSizeMB = clampUint64 (vol div megabyte div 8) (max 32 (seg div megabyte)) (max 1000 (seg div megabyte)),
        maxSlotWalKeepSizeMB = ?max\<rparr>"
    by (auto simp only: deriveWalSettings_def Let_def sum.inject split: if_splits)
  have div48: "unat (w div 4) = unat w div 4" "unat (w div 8) = unat w div 8" for w :: "64 word"
    by (simp_all add: unat_div)
  note nats = unat_min_max div48 four two v_def [symmetric] g_def [symmetric]
  have "max 64 (4 * g) \<le> 4096"
    using ok(3) by (simp only: maxWalSizeCapMB_def word_less_nat_alt nats) simp
  moreover have m: "unat ?max = min (max (v div 4) (max 64 (4 * g))) 4096"
    by (simp only: clampUint64_def maxWalSizeCapMB_def nats) simp
  moreover have "unat (minWalSizeMB ws) = min (max (unat ?max div 4) (max 32 (2 * g))) (max 1024 (max 32 (2 * g)))"
    unfolding ws by (simp only: walSettings.select_convs clampUint64_def [of "_ div 4"] nats) simp
  moreover have "unat (walKeepSizeMB ws) = min (max (v div 8) (max 32 g)) (max 1000 g)"
    unfolding ws by (simp only: walSettings.select_convs clampUint64_def nats) simp
  moreover have "maxWalSizeMB ws = ?max" "maxSlotWalKeepSizeMB ws = ?max" unfolding ws by simp_all
  ultimately show ?thesis using ok(1,2) by (simp only: simp_thms)
qed

lemma wal_arith:
  fixes v g M m k :: nat
  assumes "max 64 (4 * g) \<le> 4096" and M: "M = min (max (v div 4) (max 64 (4 * g))) 4096"
    and m: "m = min (max (M div 4) (max 32 (2 * g))) (max 1024 (max 32 (2 * g)))"
    and k: "k = min (max (v div 8) (max 32 g)) (max 1000 g)"
  shows "2 * g \<le> m \<and> 2 * m \<le> M \<and> 4 * g \<le> M \<and> M \<le> 4096 \<and> g \<le> k \<and> (v < 256 \<or> v < 16 * g \<or> M + k \<le> v div 2)"
proof (intro conjI)
  have floor: "max 64 (4 * g) \<le> M" and cap: "M \<le> 4096" using assms(1) M by simp_all
  then show "4 * g \<le> M" "M \<le> 4096" by simp_all
  show "2 * g \<le> m" "g \<le> k" unfolding m k by (simp_all add: le_max_iff_disj)
  have "m \<le> max (M div 4) (max 32 (2 * g))" using m by simp
  moreover have "2 * (M div 4) \<le> M" by simp
  moreover have "2 * max 32 (2 * g) \<le> M" using floor by (simp add: max_def split: if_splits)
  ultimately show "2 * m \<le> M" by (auto simp: max_def split: if_splits)
  have "M \<le> v div 4" if "256 \<le> v" "16 * g \<le> v" using M that by simp
  moreover have "k \<le> v div 8" if "256 \<le> v" "16 * g \<le> v"
  proof -
    have "k \<le> max (v div 8) (max 32 g)" using k by simp
    moreover have "max 32 g \<le> v div 8" using that by (simp add: less_eq_div_iff_mult_less_eq)
    ultimately show ?thesis by simp
  qed
  moreover have "v div 4 + v div 8 \<le> v div 2" by simp
  ultimately show "v < 256 \<or> v < 16 * g \<or> M + k \<le> v div 2" by linarith
qed

lemma unat_MB: "unat (w div megabyte) = unat w div 2 ^ 20" for w :: "64 word"
  by (simp add: unat_div megabyte_def)

lemma whole_MB: "unat w mod 2 ^ 20 = 0 \<longleftrightarrow> w mod megabyte = 0" for w :: "64 word"
proof -
  have "unat megabyte = 2 ^ 20" by (simp add: megabyte_def)
  then show ?thesis by (metis unat_mod unat_eq_zero)
qed

lemma deriveWalSettings_Inl:
  assumes "deriveWalSettings vol seg = Inl e"
  shows "seg = 0 \<or> unat seg mod 2 ^ 20 \<noteq> 0 \<or> 1024 < unat seg div 2 ^ 20"
proof -
  have "seg = 0 \<or> seg mod megabyte \<noteq> 0 \<or> maxWalSizeCapMB < max 64 (4 * (seg div megabyte))"
  proof (rule ccontr)
    assume "\<not> ?thesis"
    then have "\<not> (seg = 0 \<or> seg mod megabyte \<noteq> 0)" "\<not> maxWalSizeCapMB < max 64 (4 * (seg div megabyte))"
      by blast+
    with assms show False unfolding deriveWalSettings_def Let_def by (simp only: if_False simp_thms sum.simps)
  qed
  moreover have "maxWalSizeCapMB < max 64 (4 * (seg div megabyte)) \<longleftrightarrow> 1024 < unat seg div 2 ^ 20"
    by (simp only: maxWalSizeCapMB_def word_less_nat_alt unat_min_max
        unat_times_small(1) [OF unat_MB_le] unat_MB) auto
  ultimately show ?thesis using whole_MB by blast
qed

text \<open>
  the WAL settings for a volume. The computation fails exactly for a segment size that is zero, not a
  whole number of megabytes, or so large that four segments exceed the cap. Otherwise, for every volume
  size, \<^verbatim>\<open>min_wal_size\<close> is at least two segments (what PostgreSQL requires), half of \<^verbatim>\<open>max_wal_size\<close> at most, and
  \<^verbatim>\<open>max_wal_size\<close> is between four segments and the cap; and on a volume of 256 megabytes and sixteen
  segments or more what the server may keep, \<^verbatim>\<open>max_wal_size\<close> and \<^verbatim>\<open>wal_keep_size\<close> together, leaves half of it free.
\<close>

theorem deriveWalSettings_bounds:
  fixes vol seg :: "64 word"
  defines "v \<equiv> unat vol div 2 ^ 20" and "g \<equiv> unat seg div 2 ^ 20"
  shows "case deriveWalSettings vol seg of
      Inl e \<Rightarrow> seg = 0 \<or> unat seg mod 2 ^ 20 \<noteq> 0 \<or> 1024 < g
    | Inr ws \<Rightarrow>
        0 < g \<and> unat seg = g * 2 ^ 20
        \<and> 2 * g \<le> unat (minWalSizeMB ws) \<and> 2 * unat (minWalSizeMB ws) \<le> unat (maxWalSizeMB ws)
        \<and> 4 * g \<le> unat (maxWalSizeMB ws) \<and> unat (maxWalSizeMB ws) \<le> 4096
        \<and> g \<le> unat (walKeepSizeMB ws) \<and> maxSlotWalKeepSizeMB ws = maxWalSizeMB ws
        \<and> (v < 256 \<or> v < 16 * g \<or> unat (maxWalSizeMB ws) + unat (walKeepSizeMB ws) \<le> v div 2)"
proof (cases "deriveWalSettings vol seg")
  case (Inl e)
  then show ?thesis using deriveWalSettings_Inl [OF Inl] by (simp add: g_def)
next
  case (Inr ws)
  note n = deriveWalSettings_nat [OF Inr, unfolded unat_MB, folded v_def g_def]
  then have seg: "seg \<noteq> 0" "unat seg mod 2 ^ 20 = 0" using whole_MB [of seg] by auto
  then have s: "unat seg = g * 2 ^ 20" by (simp add: g_def mod_eq_0_iff_dvd)
  with seg(1) have "0 < g" by (cases g) (auto simp: unat_eq_zero)
  note arith = wal_arith [of g "unat (maxWalSizeMB ws)" v "unat (minWalSizeMB ws)" "unat (walKeepSizeMB ws)"]
  have "2 * g \<le> unat (minWalSizeMB ws) \<and> 2 * unat (minWalSizeMB ws) \<le> unat (maxWalSizeMB ws)
      \<and> 4 * g \<le> unat (maxWalSizeMB ws) \<and> unat (maxWalSizeMB ws) \<le> 4096 \<and> g \<le> unat (walKeepSizeMB ws)
      \<and> (v < 256 \<or> v < 16 * g \<or> unat (maxWalSizeMB ws) + unat (walKeepSizeMB ws) \<le> v div 2)"
    using n arith by blast
  with n s \<open>0 < g\<close> show ?thesis unfolding Inr sum.case by blast
qed

theorem deriveWalSettings_bounds_witness:
  "case deriveWalSettings 10737418240 16777216 of Inl e \<Rightarrow> False
   | Inr ws \<Rightarrow> 32 \<le> unat (minWalSizeMB ws) \<and> unat (maxWalSizeMB ws) + unat (walKeepSizeMB ws) \<le> 5120"
  using deriveWalSettings_bounds [where vol = 10737418240 and seg = 16777216] by (auto split: sum.splits)

lemma default_segment:
  "unat defaultWalSegmentSizeBytes = 16 * 2 ^ 20" "defaultWalSegmentSizeBytes \<noteq> 0"
  by (simp_all add: defaultWalSegmentSizeBytes_def megabyte_def)

lemma sizing_total: "ApplyResourceSizing cfg mem cpu disk \<noteq> Inl e"
proof -
  have "deriveWalSettings vol defaultWalSegmentSizeBytes \<noteq> Inl e'" for vol e'
    using deriveWalSettings_Inl [of vol defaultWalSegmentSizeBytes e'] default_segment by auto
  then show ?thesis by (auto simp: ApplyResourceSizing_def size_disk_def split: sum.splits)
qed

lemma size_memory_fields:
  assumes "0 < m"
  shows "SharedBuffers (size_memory m d) = formatBytes (m div 4)"
    and "EffectiveCacheSize (size_memory m d) = formatBytes (quot64 (wrap64 (m * 3)) 4)"
    and "MaintenanceWorkMem (size_memory m d) = formatBytes (min (m div 16) maintenanceWorkMemCapBytes)"
    and "WalBuffers (size_memory m d) = formatBytes (clampInt64 (m div 4 * 3 div 100) (32 * kib) (16 * mib))"
    and "WorkMem (size_memory m d) = formatBytes (max ((m - m div 4) div (max (deriveMaxConnections m) 1 * 3)
           div max (MaxParallelWorkersPerGather d) 1) (64 * kib))"
    and "MaxConnections (size_memory m d) = deriveMaxConnections m"
    and "MaxReplicationSlots (size_memory m d) = MaxWalSenders (size_memory m d)"
    and "MaxParallelWorkersPerGather (size_memory m d) = MaxParallelWorkersPerGather d"
  using assms by (simp_all add: size_memory_def Let_def)

text \<open>
  C36: sizing from memory. For every memory size below 2 to the 61 bytes, \<^verbatim>\<open>shared_buffers\<close> is a quarter of it
  and \<^verbatim>\<open>effective_cache_size\<close> three quarters; and unless \<^verbatim>\<open>work_mem\<close> is at its floor of 64 kilobytes, three
  times \<^verbatim>\<open>work_mem\<close> for every connection and every parallel worker fits beside \<^verbatim>\<open>shared_buffers\<close> in the memory.
  The floors and caps of \<^verbatim>\<open>maintenance_work_mem\<close> and \<^verbatim>\<open>wal_buffers\<close> hold, and there are as many replication slots
  as WAL senders.
\<close>

theorem sizing_fits_memory:
  assumes "ApplyResourceSizing cfg mem cpu disk = Inr c" and "0 < mem" and "mem < 2 ^ 61"
  shows "size_kb (SharedBuffers c) = Some (nat (mem div 4 div 1024))
    \<and> size_kb (EffectiveCacheSize c) = Some (nat (mem * 3 div 4 div 1024))
    \<and> MaxReplicationSlots c = MaxWalSenders c
    \<and> (\<exists>m. size_kb (MaintenanceWorkMem c) = Some m \<and> m \<le> 2 * 1024 * 1024)
    \<and> (\<exists>b. size_kb (WalBuffers c) = Some b \<and> 32 \<le> b \<and> b \<le> 16 * 1024)
    \<and> (\<exists>w. size_kb (WorkMem c) = Some w \<and> 64 \<le> w
         \<and> (w = 64 \<or> int w * 1024 * 3 * MaxConnections c * max (MaxParallelWorkersPerGather c) 1 + mem div 4 \<le> mem))"
proof -
  define d where "d = size_cpu cpu cfg"
  have c: "SharedBuffers c = SharedBuffers (size_memory mem d)" "WorkMem c = WorkMem (size_memory mem d)"
    "EffectiveCacheSize c = EffectiveCacheSize (size_memory mem d)"
    "MaintenanceWorkMem c = MaintenanceWorkMem (size_memory mem d)" "WalBuffers c = WalBuffers (size_memory mem d)"
    "MaxConnections c = MaxConnections (size_memory mem d)"
    "MaxReplicationSlots c = MaxReplicationSlots (size_memory mem d)" "MaxWalSenders c = MaxWalSenders (size_memory mem d)"
    "MaxParallelWorkersPerGather c = MaxParallelWorkersPerGather (size_memory mem d)"
    using assms(1) by (auto simp: ApplyResourceSizing_def size_disk_def d_def split: if_splits sum.splits)
  define n p where "n = max (deriveMaxConnections mem) 1" and "p = max (MaxParallelWorkersPerGather d) 1"
  define x where "x = (mem - mem div 4) div (n * 3) div p"
  have n: "n = deriveMaxConnections mem" "0 < n" and p: "0 < p"
    by (simp_all add: n_def p_def deriveMaxConnections_def Let_def)
  have le: "a div b * b \<le> a" if "0 < b" for a b :: int
    using that by (metis div_mult_mod_eq le_add_same_cancel1 pos_mod_sign)
  have "x * p \<le> (mem - mem div 4) div (n * 3)" unfolding x_def using le [OF p] .
  then have "x * p * (n * 3) \<le> (mem - mem div 4) div (n * 3) * (n * 3)"
    using n(2) by (intro mult_right_mono) simp_all
  also have "\<dots> \<le> mem - mem div 4" using n(2) by (intro le) simp
  finally have x: "x * p * (n * 3) \<le> mem - mem div 4" .
  have wrap: "wrap64 (mem * 3) = mem * 3" using assms(2,3) by (intro wrap64_id) auto
  have f: "SharedBuffers (size_memory mem d) = formatBytes (mem div 4)"
    "EffectiveCacheSize (size_memory mem d) = formatBytes (mem * 3 div 4)"
    "MaintenanceWorkMem (size_memory mem d) = formatBytes (min (mem div 16) (2 * 2 ^ 30))"
    "WalBuffers (size_memory mem d) = formatBytes (min (max (mem div 4 * 3 div 100) (32 * 2 ^ 10)) (16 * 2 ^ 20))"
    "WorkMem (size_memory mem d) = formatBytes (max x (64 * 2 ^ 10))"
    "MaxConnections (size_memory mem d) = n" "MaxReplicationSlots (size_memory mem d) = MaxWalSenders (size_memory mem d)"
    "MaxParallelWorkersPerGather (size_memory mem d) = MaxParallelWorkersPerGather d"
    unfolding size_memory_fields [OF assms(2)] wrap maintenanceWorkMemCapBytes_def gib_def clampInt64_def kib_def mib_def
      x_def p_def n_def [symmetric] n(1) [symmetric]
    using assms(2) n(2) by (simp_all add: quot64_def)
  define y where "y = max x (64 * 2 ^ 10)"
  have y: "65536 \<le> y" "y = x \<or> y = 65536" by (auto simp: y_def max_def)
  have w1: "64 \<le> y div 1024" using zdiv_mono1 [OF y(1), of 1024] by simp
  have w2: "y div 1024 = 64 \<or> y div 1024 * 1024 \<le> x" using y(2) le [of 1024 y] by auto
  have fits: "int (nat (y div 1024)) * 1024 * 3 * n * p + mem div 4 \<le> mem" if "y div 1024 * 1024 \<le> x"
  proof -
    have "int (nat (y div 1024)) * 1024 \<le> x" using that w1 by simp
    then have "int (nat (y div 1024)) * 1024 * (p * (n * 3)) \<le> x * (p * (n * 3))"
      using n(2) p by (intro mult_right_mono) simp_all
    with x show ?thesis by (simp add: algebra_simps)
  qed
  have "nat (y div 1024) = 64 \<or> int (nat (y div 1024)) * 1024 * 3 * n * p + mem div 4 \<le> mem"
    using w2 fits by auto
  moreover have "64 \<le> nat (y div 1024)" using w1 by simp
  moreover have "nat (min (mem div 16) (2 * 2 ^ 30) div 1024) \<le> 2 * 1024 * 1024"
  proof -
    have "min (mem div 16) (2 * 2 ^ 30) \<le> 2 * 2 ^ 30" by simp
    then show ?thesis by simp
  qed
  moreover have "32 \<le> nat (z div 1024) \<and> nat (z div 1024) \<le> 16 * 1024"
    if "32 * 2 ^ 10 \<le> z" "z \<le> 16 * 2 ^ 20" for z :: int
    using that by (simp add: le_nat_iff) linarith
  then have "32 \<le> nat (min (max q (32 * 2 ^ 10)) (16 * 2 ^ 20) div 1024)
    \<and> nat (min (max q (32 * 2 ^ 10)) (16 * 2 ^ 20) div 1024) \<le> 16 * 1024" for q :: int
    by simp
  ultimately show ?thesis
    unfolding c f size_kb_formatBytes p_def [symmetric] y_def [symmetric] option.inject by blast
qed

theorem sizing_fits_memory_witness:
  "\<exists>c. ApplyResourceSizing Defaults 4294967296 2000 10737418240 = Inr c
     \<and> size_kb (SharedBuffers c) = Some 1048576 \<and> MaxReplicationSlots c = MaxWalSenders c"
proof -
  obtain c where c: "ApplyResourceSizing Defaults 4294967296 2000 10737418240 = Inr c"
    by (cases "ApplyResourceSizing Defaults 4294967296 2000 10737418240") (simp_all add: sizing_total)
  from sizing_fits_memory [OF c] c show ?thesis by auto
qed

end
