(* ===== verification/Pg_Settings.thy ===== *)
theory Pg_Settings
  imports Pg_Catalog Pg_Sizing
begin

text \<open>
  The rendered \<^verbatim>\<open>postgresql.conf\<close>: \<^verbatim>\<open>pkg/postgresconfig/render.go\<close>, \<^verbatim>\<open>hash.go\<close> and \<^verbatim>\<open>reload_marker.go\<close>, with the embedded
  template as its lines. The hash function is an argument; \<^verbatim>\<open>text/template\<close> prints integers in decimal.
\<close>

abbreviation newline :: char where "newline \<equiv> CHR 0x0A"
abbreviation single_quote :: char where "single_quote \<equiv> CHR 0x27"

text \<open>The template up to, at and after the line that sets \<^verbatim>\<open>wal_level\<close>.\<close>

definition template_before :: "pg_config \<Rightarrow> string list" where
  "template_before cfg =
     [''# PostgreSQL configuration rendered by multigres-operator.'',
      ''# port, listen_addresses, unix_socket_directories, data_directory, hba_file and'',
      ''# ident_file are intentionally omitted: pgctld pins them via command-line args.'',
      [],
      ''#------------------------------------------------------------------------------'',
      ''# CONNECTIONS AND AUTHENTICATION'',
      ''#------------------------------------------------------------------------------'',
      [],
      ''max_connections = '' @ itoa (MaxConnections cfg),
      [],
      ''authentication_timeout = 1min'' @ [CHR 0x09, CHR 0x09] @ ''# 1s-600s'',
      ''password_encryption = scram-sha-256'' @ [CHR 0x09] @ ''# scram-sha-256 or md5'',
      [],
      ''# - SSL -'',
      ''ssl = off'',
      ''ssl_ca_file = '' @ [CHR 0x27, CHR 0x27],
      ''ssl_cert_file = '' @ [CHR 0x27, CHR 0x27],
      ''ssl_crl_file = '' @ [CHR 0x27, CHR 0x27],
      ''ssl_crl_dir = '' @ [CHR 0x27, CHR 0x27],
      ''ssl_key_file = '' @ [CHR 0x27, CHR 0x27],
      ''ssl_ciphers = '' @ [CHR 0x27] @ ''HIGH:MEDIUM:+3DES:!aNULL'' @ [CHR 0x27] @ '' # allowed SSL ciphers'',
      ''ssl_prefer_server_ciphers = on'',
      ''ssl_ecdh_curve = '' @ [CHR 0x27] @ ''prime256v1'' @ [CHR 0x27],
      ''ssl_min_protocol_version = '' @ [CHR 0x27] @ ''TLSv1.2'' @ [CHR 0x27],
      ''ssl_max_protocol_version = '' @ [CHR 0x27, CHR 0x27],
      ''ssl_dh_params_file = '' @ [CHR 0x27, CHR 0x27],
      ''ssl_passphrase_command = '' @ [CHR 0x27, CHR 0x27],
      ''ssl_passphrase_command_supports_reload = off'',
      [],
      ''#------------------------------------------------------------------------------'',
      ''# RESOURCE USAGE (except WAL)'',
      ''#------------------------------------------------------------------------------'',
      [],
      ''# - Memory -'',
      ''shared_buffers = '' @ SharedBuffers cfg @ [CHR 0x09, CHR 0x09, CHR 0x09] @ ''# min 128kB (change requires restart)'',
      ''maintenance_work_mem = '' @ MaintenanceWorkMem cfg @ [CHR 0x09, CHR 0x09] @ ''# min 1MB'',
      ''work_mem = '' @ WorkMem cfg @ [CHR 0x09, CHR 0x09, CHR 0x09, CHR 0x09] @ ''# min 64kB'',
      [],
      ''# - Kernel Resources -'',
      ''max_worker_processes = '' @ itoa (MaxWorkerProcesses cfg) @ [CHR 0x09, CHR 0x09] @ ''# (change requires restart)'',
      [],
      ''# - Asynchronous Behavior -'',
      ''effective_io_concurrency = '' @ itoa (EffectiveIoConcurrency cfg) @ [CHR 0x09] @ ''# 1-1000; 0 disables prefetching'',
      ''max_parallel_workers = '' @ itoa (MaxParallelWorkers cfg) @ [CHR 0x09, CHR 0x09] @ ''# max number of parallel workers'',
      ''max_parallel_workers_per_gather = '' @ itoa (MaxParallelWorkersPerGather cfg),
      ''max_parallel_maintenance_workers = '' @ itoa (MaxParallelMaintenanceWorkers cfg),
      [],
      ''#------------------------------------------------------------------------------'',
      ''# WRITE-AHEAD LOG'',
      ''#------------------------------------------------------------------------------'',
      []]"

definition wal_level_line :: string where
  "wal_level_line = ''wal_level = logical'' @ [CHR 0x09, CHR 0x09, CHR 0x09] @ ''# minimal, replica, or logical (change requires restart)''"

definition template_after :: "pg_config \<Rightarrow> string list" where
  "template_after cfg =
     [''wal_buffers = '' @ WalBuffers cfg @ [CHR 0x09, CHR 0x09, CHR 0x09] @ ''# min 32kB (change requires restart)'',
      ''min_wal_size = '' @ MinWalSize cfg,
      ''max_wal_size = '' @ MaxWalSize cfg,
      ''wal_keep_size = '' @ WalKeepSize cfg,
      [],
      ''# - Checkpoints -'',
      ''checkpoint_completion_target = '' @ CheckpointCompletionTarget cfg @ [CHR 0x09] @ ''# 0.0 - 1.0'',
      ''checkpoint_flush_after = 256kB'' @ [CHR 0x09, CHR 0x09] @ ''# measured in pages, 0 disables'',
      [],
      ''#------------------------------------------------------------------------------'',
      ''# REPLICATION'',
      ''#------------------------------------------------------------------------------'',
      [],
      ''max_wal_senders = '' @ itoa (MaxWalSenders cfg) @ [CHR 0x09, CHR 0x09] @ ''# (change requires restart)'',
      ''max_replication_slots = '' @ itoa (MaxReplicationSlots cfg) @ [CHR 0x09] @ ''# (change requires restart)'',
      ''# Protect the primary'' @ [CHR 0x27] @ ''s disk; a logical consumer that exceeds this cap can'',
      ''# lose its slot at checkpoint and require resynchronization.'',
      ''max_slot_wal_keep_size = '' @ MaxSlotWalKeepSize cfg @ ''   # in megabytes; -1 disables'',
      [],
      ''# - Standby Servers -'',
      ''# Lets a replica report its oldest needed xmin back to the primary so'',
      ''# autovacuum does not remove rows a replica query still has open.'',
      ''hot_standby_feedback = on'',
      [],
      ''#------------------------------------------------------------------------------'',
      ''# QUERY TUNING'',
      ''#------------------------------------------------------------------------------'',
      [],
      ''effective_cache_size = '' @ EffectiveCacheSize cfg,
      ''random_page_cost = '' @ RandomPageCost cfg @ [CHR 0x09, CHR 0x09, CHR 0x09] @ ''# same scale as above'',
      ''default_statistics_target = '' @ itoa (DefaultStatisticsTarget cfg) @ [CHR 0x09] @ ''# range 1-10000'',
      [],
      ''#------------------------------------------------------------------------------'',
      ''# REPORTING AND LOGGING'',
      ''#------------------------------------------------------------------------------'',
      [],
      ''log_line_prefix = '' @ [CHR 0x27] @ ''%h %m [%p] %q%u@%d '' @ [CHR 0x27],
      ''log_statement = '' @ [CHR 0x27] @ ''ddl'' @ [CHR 0x27, CHR 0x09, CHR 0x09, CHR 0x09] @ ''# none, ddl, mod, all'',
      ''log_timezone = '' @ [CHR 0x27] @ ''UTC'' @ [CHR 0x27],
      [],
      ''#------------------------------------------------------------------------------'',
      ''# PROCESS TITLE'',
      ''#------------------------------------------------------------------------------'',
      [],
      ''cluster_name = '' @ [CHR 0x27] @ ClusterName cfg @ [CHR 0x27, CHR 0x09, CHR 0x09] @ ''# added to process titles if nonempty (change requires restart)'',
      [],
      ''#------------------------------------------------------------------------------'',
      ''# CLIENT CONNECTION DEFAULTS'',
      ''#------------------------------------------------------------------------------'',
      [],
      ''row_security = on'',
      ''timezone = '' @ [CHR 0x27] @ ''UTC'' @ [CHR 0x27],
      ''lc_messages = '' @ [CHR 0x27] @ ''en_US.UTF-8'' @ [CHR 0x27],
      ''lc_monetary = '' @ [CHR 0x27] @ ''en_US.UTF-8'' @ [CHR 0x27],
      ''lc_numeric = '' @ [CHR 0x27] @ ''en_US.UTF-8'' @ [CHR 0x27],
      ''lc_time = '' @ [CHR 0x27] @ ''en_US.UTF-8'' @ [CHR 0x27],
      ''default_text_search_config = '' @ [CHR 0x27] @ ''pg_catalog.english'' @ [CHR 0x27],
      ''jit_provider = '' @ [CHR 0x27] @ ''llvmjit'' @ [CHR 0x27, CHR 0x09, CHR 0x09] @ ''# JIT library to use'',
      [],
      ''#------------------------------------------------------------------------------'',
      ''# CUSTOMIZED OPTIONS'',
      ''#------------------------------------------------------------------------------'',
      [],
      ''auto_explain.log_min_duration = 10s'',
      ''cron.database_name = '' @ [CHR 0x27] @ ''postgres'' @ [CHR 0x27],
      ''# Run pg_cron jobs in background workers. Otherwise pg_cron connects through'',
      ''# libpq as the job owner, and since pg_hba.conf requires scram-sha-256'',
      ''# everywhere, jobs owned by roles without a password source fail to connect.'',
      ''cron.use_background_workers = on'',
      ''wal_log_hints = '' @ [CHR 0x27] @ ''on'' @ [CHR 0x27]]"

definition template_lines :: "pg_config \<Rightarrow> string list" where
  "template_lines cfg = template_before cfg @ wal_level_line # template_after cfg"

definition render_lines :: "string list \<Rightarrow> string" where
  "render_lines ls = concat (map (\<lambda>l. l @ [newline]) ls)"

definition base_template :: "pg_config \<Rightarrow> string" where
  "base_template cfg = render_lines (template_lines cfg)"

definition quote :: "string \<Rightarrow> string" where
  "quote v = [single_quote] @ double_quotes v @ [single_quote]"

definition writeSortedMap :: "(string \<times> string) list \<Rightarrow> string" where
  "writeSortedMap m = concat (map (\<lambda>k. k @ '' = '' @ quote (str_at (map_of m) k) @ [newline]) (sort (map fst m)))"

definition Render :: "pg_config \<Rightarrow> string \<Rightarrow> (string \<times> string) list \<Rightarrow> string" where
  "Render cfg refContent inline =
     (let trimmed = trim_newlines refContent
      in (if trimmed \<noteq> [] then ''# postgresConfigRef'' @ [newline] @ trimmed @ [newline, newline] else [])
         @ base_template cfg
         @ (if inline \<noteq> [] then [newline] @ ''# spec.postgresConfig'' @ [newline] @ writeSortedMap inline else []))"

subsection \<open>Reading it back\<close>

text \<open>\<^verbatim>\<open>stripInlineComment\<close>, the flag saying whether the position is inside quotes.\<close>

fun strip_comment :: "bool \<Rightarrow> string \<Rightarrow> string" where
  "strip_comment inQuote [] = []"
| "strip_comment inQuote (c # s) =
     (if c = single_quote
      then (case s of
              d # t \<Rightarrow> if inQuote \<and> d = single_quote then c # d # strip_comment inQuote t
                       else c # strip_comment (\<not> inQuote) s
            | [] \<Rightarrow> [c])
      else if c = CHR ''#'' \<and> \<not> inQuote then []
      else c # strip_comment inQuote s)"

definition stripInlineComment :: "string \<Rightarrow> string" where
  "stripInlineComment s = strip_comment False s"

definition parse_line :: "(string \<times> string) list \<Rightarrow> string \<Rightarrow> (string \<times> string) list" where
  "parse_line m line =
     (let line = trim_space line
      in if line = [] \<or> has_prefix line ''#'' then m
         else (case cut_at (CHR ''='') line of
                 None \<Rightarrow> m
               | Some (key, val) \<Rightarrow>
                   let key = to_lower (trim_space key)
                   in if key = [] then m else upd key (trim_space (stripInlineComment val)) m))"

definition parseEffectiveConfig :: "string \<Rightarrow> (string \<times> string) list" where
  "parseEffectiveConfig rendered = foldl parse_line [] (split_at newline rendered)"

definition unquoteValue :: "string \<Rightarrow> string" where
  "unquoteValue v =
     (let v = trim_space v
      in if 2 \<le> length v \<and> hd v = single_quote \<and> last v = single_quote
         then single_quotes (butlast (tl v)) else v)"

subsection \<open>Hashes and the marker\<close>

abbreviation ReloadMarkerGUC :: string where "ReloadMarkerGUC \<equiv> ''multigres.config_reload_marker''"

definition reloadMarkerLine :: "string \<Rightarrow> string" where
  "reloadMarkerLine reloadHash =
     [newline] @ ''# Operator-managed config-version marker; do not edit.'' @ [newline]
     @ ReloadMarkerGUC @ '' = '' @ [single_quote] @ reloadHash @ [single_quote, newline]"

definition hash_input :: "(string \<times> string) list \<Rightarrow> string" where
  "hash_input m = concat (map (\<lambda>k. k @ ''='' @ str_at (map_of m) k @ [newline]) (sort (map fst m)))"

definition hashSettings :: "(string \<Rightarrow> string) \<Rightarrow> (string \<times> string) list \<Rightarrow> string" where
  "hashSettings sha m = sha (hash_input m)"

record ConfigSplit =
  RestartHash :: string
  ReloadHash :: string
  ReloadSettings :: "(string \<times> string) list"

definition StampAndSplit :: "(string \<Rightarrow> string) \<Rightarrow> string \<Rightarrow> string \<times> ConfigSplit" where
  "StampAndSplit sha rendered =
     (let settings = map (\<lambda>(k, v). (k, unquoteValue v)) (parseEffectiveConfig rendered);
          restart = filter (\<lambda>(k, v). RequiresRestart k) settings;
          reload = filter (\<lambda>(k, v). \<not> RequiresRestart k) settings;
          reloadHash = hashSettings sha reload
      in (rendered @ reloadMarkerLine reloadHash,
          \<lparr>RestartHash = hashSettings sha restart, ReloadHash = reloadHash,
           ReloadSettings = upd ReloadMarkerGUC reloadHash reload\<rparr>))"

subsection \<open>Quoting\<close>

lemma not_space [simp]: "\<not> is_space single_quote" "\<not> is_space (CHR ''='')" "\<not> is_space (CHR ''#'')"
  "is_space (CHR '' '')" "is_space newline"
  by code_simp+

lemma trim_quote: "trim_space (single_quote # s @ [single_quote]) = single_quote # s @ [single_quote]"
  using trim_right_snoc [of single_quote "single_quote # s" "[]"]
  by (simp add: trim_space_def trim_left_cons trim_right_def)

lemma unquote_quote: "unquoteValue (quote v) = v"
  by (simp add: unquoteValue_def quote_def trim_quote single_double_quotes)

lemma strip_quoted_tail: "strip_comment True (double_quotes v @ single_quote # t) = double_quotes v @ strip_comment True (single_quote # t)"
  by (induction v) auto

lemma strip_quote: "stripInlineComment (CHR '' '' # quote v) = CHR '' '' # quote v"
  by (simp add: stripInlineComment_def quote_def strip_quoted_tail list.case_eq_if)

subsection \<open>Lines\<close>

definition settings_of :: "string list \<Rightarrow> string \<Rightarrow> string option" where
  "settings_of ls = map_of (foldl parse_line [] ls)"

lemma map_of_parse_line: "map_of (parse_line m l) = map_of m ++ map_of (parse_line [] l)"
  by (auto simp: parse_line_def Let_def split: option.split)

lemma foldl_parse: "map_of (foldl parse_line m ls) = map_of m ++ settings_of ls"
proof (induction ls arbitrary: m)
  case (Cons l ls)
  have "map_of (foldl parse_line m (l # ls)) = map_of (parse_line m l) ++ settings_of ls"
    using Cons.IH by simp
  also have "\<dots> = map_of m ++ (map_of (parse_line [] l) ++ settings_of ls)"
    by (subst map_of_parse_line) simp
  also have "map_of (parse_line [] l) ++ settings_of ls = settings_of (l # ls)"
    using Cons.IH [of "parse_line [] l"] by (simp add: settings_of_def)
  finally show ?case .
qed (simp add: settings_of_def)

lemma settings_of_append: "settings_of (ls @ ls') = settings_of ls ++ settings_of ls'"
  using foldl_parse [of "foldl parse_line [] ls" ls'] by (simp add: settings_of_def)

lemma parse_append_line:
  "map_of (parseEffectiveConfig (s @ newline # t)) = map_of (parseEffectiveConfig s) ++ map_of (parseEffectiveConfig t)"
  using foldl_parse [of "foldl parse_line [] (split_at newline s)" "split_at newline t"]
  by (simp add: parseEffectiveConfig_def split_at_append settings_of_def)

lemma parse_render_lines:
  assumes "\<forall>l\<in>set ls. newline \<notin> set l"
  shows "map_of (parseEffectiveConfig (render_lines ls @ t)) = settings_of ls ++ map_of (parseEffectiveConfig t)"
  using assms
proof (induction ls)
  case (Cons l ls)
  have "map_of (parseEffectiveConfig (l @ newline # render_lines ls @ t))
      = map_of (parseEffectiveConfig l) ++ map_of (parseEffectiveConfig (render_lines ls @ t))"
    by (rule parse_append_line)
  moreover have "map_of (parseEffectiveConfig l) = settings_of [l]"
    using Cons.prems by (simp add: parseEffectiveConfig_def split_at_none settings_of_def)
  moreover have "settings_of (l # ls) = settings_of [l] ++ settings_of ls"
    using settings_of_append [of "[l]" ls] by simp
  ultimately show ?case using Cons by (simp add: render_lines_def)
qed (simp add: render_lines_def settings_of_def)


subsection \<open>One assignment\<close>

text \<open>A line that assigns: a key without an equality sign, spaces around it allowed.\<close>

lemma parse_assignment:
  fixes name :: string
  assumes "CHR ''='' \<notin> set name"
  shows "map_of (parse_line [] (name @ CHR ''='' # rest)) =
    (let key = to_lower (trim_space name)
     in if key = [] \<or> has_prefix (trim_space name) ''#'' then Map.empty
        else [key \<mapsto> trim_space (stripInlineComment (trim_right rest))])"
proof -
  let ?n = "trim_left name"
  have n: "trim_space (name @ CHR ''='' # rest) = ?n @ CHR ''='' # trim_right rest"
  proof -
    have "trim_left (name @ CHR ''='' # rest) = ?n @ CHR ''='' # rest"
    proof (cases "list_all is_space name")
      case True
      then show ?thesis by (simp add: trim_left_def dropWhile_append list_all_iff)
    next
      case False
      then show ?thesis by (auto simp: trim_left_def list_all_iff dropWhile_append1)
    qed
    then show ?thesis by (simp add: trim_space_def trim_right_snoc)
  qed
  have eq: "CHR ''='' \<notin> set ?n" using assms set_trim(1) by blast
  have t: "trim_space ?n = trim_space name"
    by (simp add: trim_space_def trim_left_def)
  have p: "has_prefix (?n @ CHR ''='' # trim_right rest) ''#'' = has_prefix (trim_space name) ''#''"
  proof (cases ?n)
    case Nil
    then show ?thesis by (simp add: trim_space_def trim_right_def has_prefix_def)
  next
    case (Cons c u)
    then have "\<not> is_space c" by (auto simp: trim_left_def dropWhile_eq_Cons_conv)
    with Cons have "trim_space name = c # trim_right u"
      using trim_right_snoc [of c "[]" u] by (simp add: trim_space_def)
    with Cons show ?thesis by (simp add: has_prefix_def)
  qed
  show ?thesis
    unfolding parse_line_def n Let_def
    by (simp add: p cut_at_eq [OF eq] t)
qed


lemma parse_comment [simp]: "parse_line m (CHR ''#'' # s) = m"
proof -
  have "trim_space (CHR ''#'' # s) = CHR ''#'' # trim_right s"
    using trim_right_snoc [of "CHR ''#''" "[]" s] by (simp add: trim_space_def trim_left_cons)
  then show ?thesis by (simp add: parse_line_def has_prefix_def)
qed

lemma parse_blank [simp]: "parse_line m [] = m"
  by (simp add: parse_line_def)

lemma no_assignment:
  assumes "to_lower (trim_space (takeWhile (\<lambda>c. c \<noteq> CHR ''='') l)) \<noteq> k"
  shows "map_of (parse_line [] l) k = None"
proof (cases "CHR ''='' \<in> set l")
  case True
  then obtain a b where l: "l = a @ CHR ''='' # b" "CHR ''='' \<notin> set a" by (metis split_list_first)
  then have "takeWhile (\<lambda>c. c \<noteq> CHR ''='') l = a" by (simp add: takeWhile_append)
  with assms show ?thesis unfolding l(1) parse_assignment [OF l(2)] by (simp add: Let_def)
next
  case False
  then have "CHR ''='' \<notin> set (trim_space l)" using set_trim(3) by blast
  then show ?thesis by (simp add: parse_line_def Let_def cut_at_None [THEN iffD2])
qed

lemma settings_of_Cons: "settings_of (l # ls) = map_of (parse_line [] l) ++ settings_of ls"
  using settings_of_append [of "[l]" ls] by (simp add: settings_of_def)

lemma settings_of_None:
  "(\<And>l. l \<in> set ls \<Longrightarrow> map_of (parse_line [] l) k = None) \<Longrightarrow> settings_of ls k = None"
  by (induction ls) (simp add: settings_of_def, simp add: settings_of_Cons map_add_def)

subsection \<open>The layers\<close>

definition clean_config :: "pg_config \<Rightarrow> bool" where
  "clean_config cfg \<longleftrightarrow> list_all (\<lambda>s. newline \<notin> set s)
     [SharedBuffers cfg, MaintenanceWorkMem cfg, WorkMem cfg, WalBuffers cfg, MinWalSize cfg, MaxWalSize cfg,
      WalKeepSize cfg, MaxSlotWalKeepSize cfg, CheckpointCompletionTarget cfg, EffectiveCacheSize cfg,
      RandomPageCost cfg, ClusterName cfg]"

lemma itoa_no_newline [simp]: "newline \<notin> set (itoa i)"
proof -
  have "\<not> is_digit newline" by code_simp
  then have "newline \<notin> set (utoa n)" for n using utoa_digits [of n] by (auto simp: list_all_iff)
  then show ?thesis by (simp add: itoa_def)
qed

lemma none_of_append [simp]: "none_of a b (s @ t) \<longleftrightarrow> none_of a b s \<and> none_of a b t"
  by (induction s) auto

lemma template_clean:
  assumes "clean_config cfg"
  shows "\<forall>l\<in>set (template_lines cfg). newline \<notin> set l"
proof -
  have symbolic: "none_of newline newline s" if "s \<in> set
      [SharedBuffers cfg, MaintenanceWorkMem cfg, WorkMem cfg, WalBuffers cfg, MinWalSize cfg, MaxWalSize cfg,
       WalKeepSize cfg, MaxSlotWalKeepSize cfg, CheckpointCompletionTarget cfg, EffectiveCacheSize cfg,
       RandomPageCost cfg, ClusterName cfg]" for s
    using that assms unfolding clean_config_def list_all_iff none_of_iff by blast
  have "none_of newline newline (itoa i)" for i by (simp add: none_of_iff)
  note symbolic = symbolic this
  have "list_all (none_of newline newline) (template_lines cfg)"
    unfolding template_lines_def template_before_def template_after_def wal_level_line_def list.pred_inject
      list_all_append
    by (intro conjI TrueI) (simp_all add: symbolic)
  then show ?thesis by (simp add: list_all_iff none_of_iff)
qed

definition inline_line :: "(string \<times> string) list \<Rightarrow> string \<Rightarrow> string" where
  "inline_line m k = k @ '' = '' @ quote (str_at (map_of m) k)"

definition inline_lines :: "(string \<times> string) list \<Rightarrow> string list" where
  "inline_lines m = map (inline_line m) (sort (map fst m))"

definition single_lines :: "(string \<times> string) list \<Rightarrow> bool" where
  "single_lines m \<longleftrightarrow> list_all (\<lambda>(k, v). newline \<notin> set k \<and> newline \<notin> set v) m"

lemma writeSortedMap_lines: "writeSortedMap m = render_lines (inline_lines m)"
  by (simp add: writeSortedMap_def render_lines_def inline_lines_def inline_line_def comp_def)

lemma inline_clean:
  assumes "single_lines m"
  shows "\<forall>l\<in>set (inline_lines m). newline \<notin> set l"
proof -
  have "newline \<notin> set (double_quotes v)" if "newline \<notin> set v" for v
    using that by (auto simp: double_quotes_def split: if_splits)
  moreover have "newline \<notin> set (str_at (map_of m) k)" for k
  proof (cases "map_of m k")
    case (Some v)
    with assms show ?thesis by (auto simp: single_lines_def list_all_iff str_at_def dest: map_of_SomeD)
  qed (simp add: str_at_def)
  ultimately show ?thesis
    using assms by (auto simp: inline_lines_def inline_line_def quote_def single_lines_def list_all_iff)
qed

lemma Render_settings:
  assumes "clean_config cfg" and "single_lines inline"
  shows "map_of (parseEffectiveConfig (Render cfg refContent inline)) =
    map_of (parseEffectiveConfig (trim_newlines refContent)) ++ settings_of (template_lines cfg)
      ++ settings_of (inline_lines inline)"
proof -
  let ?tail = "if inline \<noteq> [] then [newline] @ ''# spec.postgresConfig'' @ [newline] @ writeSortedMap inline else []"
  have nil: "map_of (parseEffectiveConfig []) = Map.empty"
    by (simp add: parseEffectiveConfig_def)
  have comment: "map_of (parseEffectiveConfig (CHR ''#'' # s)) = Map.empty" if "newline \<notin> set s" for s
    using that by (simp add: parseEffectiveConfig_def split_at_none)
  have "map_of (parseEffectiveConfig ?tail) = settings_of (inline_lines inline)"
  proof (cases "inline = []")
    case True
    then show ?thesis by (simp add: nil inline_lines_def settings_of_def)
  next
    case False
    have "?tail = [] @ newline # (''# spec.postgresConfig'' @ newline # writeSortedMap inline)"
      using False by simp
    then have "map_of (parseEffectiveConfig ?tail) = map_of (parseEffectiveConfig (writeSortedMap inline @ []))"
      by (simp only: parse_append_line) (simp add: nil comment)
    then show ?thesis
      unfolding writeSortedMap_lines parse_render_lines [OF inline_clean [OF assms(2)]] nil by simp
  qed
  then have body: "map_of (parseEffectiveConfig (base_template cfg @ ?tail))
      = settings_of (template_lines cfg) ++ settings_of (inline_lines inline)"
    unfolding base_template_def parse_render_lines [OF template_clean [OF assms(1)]] by simp
  show ?thesis
  proof (cases "trim_newlines refContent = []")
    case True
    then show ?thesis using body by (simp add: Render_def nil)
  next
    case False
    then have "Render cfg refContent inline = ''# postgresConfigRef'' @ newline # (trim_newlines refContent
        @ newline # ([] @ newline # (base_template cfg @ ?tail)))"
      by (simp add: Render_def)
    then show ?thesis
      by (simp only: parse_append_line body nil) (simp add: comment)
  qed
qed


subsection \<open>The inline layer wins\<close>

definition key_of :: "string \<Rightarrow> string" where
  "key_of name = to_lower (trim_space name)"

definition plain_name :: "string \<Rightarrow> bool" where
  "plain_name name \<longleftrightarrow> CHR ''='' \<notin> set name \<and> trim_space name \<noteq> [] \<and> \<not> has_prefix (trim_space name) ''#''"

lemma to_lower_Nil [simp]: "to_lower s = [] \<longleftrightarrow> s = []"
  by (simp add: to_lower_def)

lemma trim_right_space: "is_space c \<Longrightarrow> trim_right (s @ [c]) = trim_right s"
  by (simp add: trim_right_def)

lemma trim_space_tail: "is_space c \<Longrightarrow> trim_space (s @ [c]) = trim_space s"
proof (cases "list_all is_space s")
  case True
  moreover assume "is_space c"
  ultimately show ?thesis
    by (simp add: trim_space_def trim_left_def list_all_iff dropWhile_append dropWhile_eq_Nil_conv [THEN iffD2])
next
  case False
  moreover assume "is_space c"
  ultimately show ?thesis
    by (auto simp: trim_space_def trim_left_def list_all_iff dropWhile_append1 trim_right_space)
qed

lemma parse_inline_line:
  assumes "plain_name k"
  shows "map_of (parse_line [] (inline_line m k)) = [key_of k \<mapsto> quote (str_at (map_of m) k)]"
proof -
  let ?v = "quote (str_at (map_of m) k)"
  have l: "inline_line m k = (k @ '' '') @ CHR ''='' # CHR '' '' # ?v"
    by (simp add: inline_line_def)
  have eq: "CHR ''='' \<notin> set (k @ '' '')" using assms by (simp add: plain_name_def)
  have v: "trim_right (CHR '' '' # ?v) = CHR '' '' # ?v"
    using trim_right_snoc [of single_quote "CHR '' '' # single_quote # double_quotes (str_at (map_of m) k)" "[]"]
    by (simp add: quote_def trim_right_def)
  have t: "trim_space (CHR '' '' # ?v) = ?v"
    using trim_quote by (simp add: trim_space_def trim_left_def quote_def)
  show ?thesis
    unfolding l parse_assignment [OF eq] v strip_quote t
    using assms by (simp add: trim_space_tail key_of_def plain_name_def Let_def)
qed

lemma settings_of_unique:
  assumes "distinct ls" and "l \<in> set ls" and "map_of (parse_line [] l) k = Some v"
    and "\<And>l'. l' \<in> set ls \<Longrightarrow> l' \<noteq> l \<Longrightarrow> map_of (parse_line [] l') k = None"
  shows "settings_of ls k = Some v"
proof -
  from assms(2) obtain xs ys where ls: "ls = xs @ l # ys" by (meson split_list)
  with assms(1) have "l \<notin> set ys" by simp
  then have "settings_of ys k = None"
    using assms(4) ls by (intro settings_of_None) auto
  with assms(3) show ?thesis unfolding ls settings_of_append settings_of_Cons by (simp add: map_add_def)
qed

lemma inline_settings:
  assumes "distinct (map (key_of \<circ> fst) m)" and "list_all (\<lambda>(k, v). plain_name k) m" and "(k, v) \<in> set m"
  shows "settings_of (inline_lines m) (key_of k) = Some (quote v)"
proof -
  have d: "distinct (map fst m)" using assms(1) by (metis distinct_map map_map)
  have inj: "key_of a = key_of b \<Longrightarrow> a = b" if "a \<in> fst ` set m" "b \<in> fst ` set m" for a b
    using assms(1) that by (auto simp: distinct_map inj_on_def)
  have v: "str_at (map_of m) k = v" using d assms(3) by (simp add: str_at_def)
  have plain: "plain_name a" if "a \<in> fst ` set m" for a using assms(2) that by (auto simp: list_all_iff)
  have line: "map_of (parse_line [] (inline_line m a)) = [key_of a \<mapsto> quote (str_at (map_of m) a)]"
    if "a \<in> fst ` set m" for a using that by (intro parse_inline_line plain)
  have k: "k \<in> fst ` set m" using assms(3) by force
  show ?thesis
  proof (rule settings_of_unique [of _ "inline_line m k"])
    show "distinct (inline_lines m)"
    proof -
      have "inj_on (inline_line m) (fst ` set m)"
      proof (rule inj_onI)
        fix a b assume ab: "a \<in> fst ` set m" "b \<in> fst ` set m" "inline_line m a = inline_line m b"
        then have "[key_of a \<mapsto> quote (str_at (map_of m) a)] = [key_of b \<mapsto> quote (str_at (map_of m) b)]"
          using line by metis
        then have "key_of a = key_of b" by (metis fun_upd_apply option.distinct(1))
        then show "a = b" using inj ab by blast
      qed
      then show ?thesis using d by (simp add: inline_lines_def distinct_map)
    qed
    show "inline_line m k \<in> set (inline_lines m)" using k by (simp add: inline_lines_def)
    show "map_of (parse_line [] (inline_line m k)) (key_of k) = Some (quote v)" using line [OF k] v by simp
    show "map_of (parse_line [] l') (key_of k) = None"
      if l': "l' \<in> set (inline_lines m)" "l' \<noteq> inline_line m k" for l'
    proof -
      from l' obtain a where a: "a \<in> fst ` set m" "l' = inline_line m a" by (auto simp: inline_lines_def)
      with l'(2) have "a \<noteq> k" by blast
      with inj [OF a(1) k] line [OF a(1)] a(2) show ?thesis by auto
    qed
  qed
qed


lemma unmanaged_wal_level: "map_of managedGUCs ''wal_level'' \<noteq> None"
  by code_simp

lemma set_dropWhile: "c \<in> set s \<Longrightarrow> \<not> P c \<Longrightarrow> c \<in> set (dropWhile P s)"
  by (induction s) auto

lemma set_trim_space: "c \<in> set s \<Longrightarrow> \<not> is_space c \<Longrightarrow> c \<in> set (trim_space s)"
  by (simp add: trim_space_def trim_right_def trim_left_def set_dropWhile)

lemma settings_of_last:
  "map_of (parse_line [] l) k = Some v \<Longrightarrow> \<forall>l'\<in>set post. map_of (parse_line [] l') k = None
   \<Longrightarrow> settings_of (pre @ l # post) k = Some v"
  using settings_of_None [of post k] by (simp add: settings_of_append settings_of_Cons map_add_def)

lemma other_initial:
  assumes "\<not> is_space c" and "lower_char c \<noteq> d"
  shows "map_of (parse_line [] (c # s)) (d # k) = None"
proof (rule no_assignment)
  show "to_lower (trim_space (takeWhile (\<lambda>x. x \<noteq> CHR ''='') (c # s))) \<noteq> d # k"
  proof (cases "c = CHR ''=''")
    case False
    then have "takeWhile (\<lambda>x. x \<noteq> CHR ''='') (c # s) = c # takeWhile (\<lambda>x. x \<noteq> CHR ''='') s" by simp
    moreover have "trim_space (c # u) = c # trim_right u" for u
      using trim_right_snoc [of c "[]" u] assms(1) by (simp add: trim_space_def trim_left_cons)
    ultimately show ?thesis using assms(2) by (simp add: to_lower_def)
  qed (simp add: to_lower_def)
qed

lemma template_after_silent:
  "\<forall>l\<in>set (template_after cfg). map_of (parse_line [] l) ''wal_level'' = None"
proof -
  have initials: "list_all (\<lambda>c. \<not> is_space c \<and> lower_char c \<noteq> CHR ''w'') ''mchertldjas''" by code_simp
  have others: "map_of (parse_line [] (c # s)) ''wal_level'' = None" if "c \<in> set ''mchertldjas''" for c s
    using that initials other_initial unfolding list_all_iff by blast
  have wal: "map_of (parse_line [] (''wal_buffers ='' @ s)) ''wal_level'' = None"
    "map_of (parse_line [] (''wal_keep_size ='' @ s)) ''wal_level'' = None"
    "map_of (parse_line [] (''wal_log_hints ='' @ s)) ''wal_level'' = None" for s
    by (rule no_assignment, simp add: trim_space_def trim_left_def trim_right_def to_lower_def)+
  show ?thesis
    unfolding template_after_def
    using others wal [simplified]
    by (simp only: list.set ball_simps append_Cons append_Nil parse_comment parse_blank map_of.simps simp_thms
        insert_iff)
qed

lemma template_wal_level: "settings_of (template_lines cfg) ''wal_level'' = Some ''logical''"
proof -
  have "map_of (parse_line [] wal_level_line) ''wal_level'' = Some ''logical''" by code_simp
  from settings_of_last [OF this template_after_silent] show ?thesis unfolding template_lines_def .
qed

end
