(* ===== verification/Pg_Effective.thy ===== *)
theory Pg_Effective
  imports Pg_Settings
begin

text \<open>
  What the server reads from the rendered file, and what the split hashes and the config-version marker say about it
  (\<^verbatim>\<open>pkg/postgresconfig/hash.go\<close>, \<^verbatim>\<open>reload_marker.go\<close>): the theorems over the definitions of \<^verbatim>\<open>Pg_Settings\<close>.
\<close>

text \<open>
  C35: an entry of \<^verbatim>\<open>spec.postgresConfig\<close> is what the server ends up with, whatever the template and the legacy
  ConfigMap say: reading the rendered file back gives the value exactly as written, quotes and hash signs in it included.
  This holds when no name or value of the entries and no text of the template contains a newline, no two names agree after
  trimming and lower-casing, and no name contains an equals sign, is blank or starts with a hash sign. Validation does
  not demand these conditions.
\<close>

theorem inline_settings_win:
  assumes "clean_config cfg" and "single_lines inline"
    and "distinct (map (key_of \<circ> fst) inline)" and "list_all (\<lambda>(k, v). plain_name k) inline"
    and "(k, v) \<in> set inline"
  shows "map_option unquoteValue (map_of (parseEffectiveConfig (Render cfg refContent inline)) (key_of k)) = Some v"
  using Render_settings [OF assms(1,2)] inline_settings [OF assms(3-5)]
  by (simp add: map_add_def unquote_quote)

lemma Defaults_clean: "clean_config Defaults"
  unfolding clean_config_def by code_simp

lemma work_mem_valid: "Validate [(''work_mem'', ''64MB'')] = []"
proof -
  have "to_lower (trim_space ''work_mem'') = ''work_mem''" "map_of managedGUCs ''work_mem'' = None"
    "valueMatchesType ''64MB'' ''integer''"
    by code_simp+
  then show ?thesis by (simp add: Validate_def validateGUC_def List.map_filter_def catalog_work_mem str_at_def)
qed

lemma inline_settings_win_witness:
  "map_option unquoteValue (map_of (parseEffectiveConfig (Render Defaults [] [(''Work_Mem'', ''it'' @ [single_quote] @ ''s #1'')])) (key_of ''Work_Mem''))
   = Some (''it'' @ [single_quote] @ ''s #1'')"
proof -
  have "single_lines [(''Work_Mem'', ''it'' @ [single_quote] @ ''s #1'')]" "plain_name ''Work_Mem''"
    unfolding single_lines_def plain_name_def by code_simp+
  then show ?thesis by (intro inline_settings_win [OF Defaults_clean]) simp_all
qed

text \<open>
  validation protects \<^verbatim>\<open>wal_level\<close>, which logical replication needs: when every name is validated (none has a dot,
  which exempts it) and validation passes, the rendered file sets \<^verbatim>\<open>wal_level\<close> to \<^verbatim>\<open>logical\<close>, whatever the legacy
  ConfigMap holds.
\<close>

theorem validated_wal_level:
  assumes "clean_config cfg" and "single_lines inline" and "Validate inline = []"
    and "list_all (\<lambda>(k, v). CHR ''.'' \<notin> set k) inline"
  shows "map_of (parseEffectiveConfig (Render cfg refContent inline)) ''wal_level'' = Some ''logical''"
proof -
  have "settings_of (inline_lines inline) ''wal_level'' = None"
  proof (rule settings_of_None)
    fix l assume "l \<in> set (inline_lines inline)"
    then obtain k where k: "k \<in> fst ` set inline" "l = inline_line inline k" by (auto simp: inline_lines_def)
    with assms(3) have "validateGUC k (str_at (map_of inline) k) = None" by (auto simp: Validate_Nil_iff)
    moreover have "CHR ''.'' \<notin> set k" using assms(4) k(1) by (auto simp: list_all_iff)
    ultimately obtain e where m: "map_of managedGUCs (key_of k) = None" and e: "map_of pg_catalog (key_of k) = Some e"
      using validateGUC_None by (auto simp: key_of_def)
    have eq: "CHR ''='' \<notin> set k"
    proof
      assume "CHR ''='' \<in> set k"
      then have "CHR ''='' \<in> set (trim_space k)" by (rule set_trim_space) simp
      moreover have "lower_char (CHR ''='') = CHR ''=''" by code_simp
      ultimately have "CHR ''='' \<in> set (key_of k)" unfolding key_of_def to_lower_def by force
      with catalog_name [OF e] show False by blast
    qed
    then have "takeWhile (\<lambda>c. c \<noteq> CHR ''='') l = k @ '' ''"
      unfolding k(2) inline_line_def by (simp add: takeWhile_append)
    then have "to_lower (trim_space (takeWhile (\<lambda>c. c \<noteq> CHR ''='') l)) = key_of k"
      by (simp add: key_of_def trim_space_tail)
    moreover have "key_of k \<noteq> ''wal_level''" using m unmanaged_wal_level by auto
    ultimately show "map_of (parse_line [] l) ''wal_level'' = None" by (intro no_assignment) simp
  qed
  with Render_settings [OF assms(1,2)] template_wal_level show ?thesis by (simp add: map_add_def)
qed


lemma validated_wal_level_witness:
  "Validate [(''work_mem'', ''64MB'')] = []
   \<and> map_of (parseEffectiveConfig (Render Defaults ''wal_level = minimal'' [(''work_mem'', ''64MB'')])) ''wal_level'' = Some ''logical''"
proof -
  have "single_lines [(''work_mem'', ''64MB'')]" unfolding single_lines_def by code_simp
  from validated_wal_level [OF Defaults_clean this work_mem_valid] work_mem_valid show ?thesis by simp
qed


subsection \<open>The marker and the hashes\<close>

text \<open>What a settings map read from a file looks like.\<close>

definition file_settings :: "(string \<times> string) list \<Rightarrow> bool" where
  "file_settings m \<longleftrightarrow> distinct (map fst m)
     \<and> list_all (\<lambda>(k, v). CHR ''='' \<notin> set k \<and> newline \<notin> set k \<and> newline \<notin> set v) m"

lemma list_all_upd: "list_all P m \<Longrightarrow> P (k, v) \<Longrightarrow> list_all P (upd k v m)"
  by (induction k v m rule: upd.induct) auto

lemma lower_char_low:
  assumes "lower_char d = c" and "(of_char c :: nat) < 65"
  shows "d = c"
proof (rule ccontr)
  assume "d \<noteq> c"
  with assms(1) have d: "CHR ''A'' \<le> d" "d \<le> CHR ''Z''" "c = char_of (of_char d + 32 :: nat)"
    by (auto simp: lower_char_def split: if_splits)
  then have "65 \<le> (of_char d :: nat)" "(of_char d :: nat) \<le> 90" by (simp_all add: less_eq_char_def)
  with d(3) have "(of_char c :: nat) = of_char d + 32" by (simp add: of_char_of)
  with assms(2) \<open>65 \<le> (of_char d :: nat)\<close> show False by simp
qed

lemma to_lower_low: "c \<in> set (to_lower s) \<Longrightarrow> (of_char c :: nat) < 65 \<Longrightarrow> c \<in> set s"
  unfolding to_lower_def by (auto dest: lower_char_low [OF refl])

lemma strip_comment_subset: "set (strip_comment b s) \<subseteq> set s"
proof (induction b s rule: strip_comment.induct)
  case (2 b c s)
  show ?case unfolding strip_comment.simps(2) [of b c s]
    using 2 by (auto simp del: strip_comment.simps split: list.split)
qed simp

lemma parse_line_file:
  assumes "file_settings m" and "newline \<notin> set l"
  shows "file_settings (parse_line m l)"
proof (cases "cut_at (CHR ''='') (trim_space l)")
  case (Some kv)
  then obtain key val where kv: "cut_at (CHR ''='') (trim_space l) = Some (key, val)" by (cases kv) auto
  from cut_at_SomeD [OF this] have key: "CHR ''='' \<notin> set key" and l: "trim_space l = key @ CHR ''='' # val" by auto
  have "newline \<notin> set (trim_space l)" using assms(2) set_trim(3) by blast
  then have nl: "newline \<notin> set key" "newline \<notin> set val" unfolding l by auto
  have k: "CHR ''='' \<notin> set (to_lower (trim_space key))" "newline \<notin> set (to_lower (trim_space key))"
    using to_lower_low [of _ "trim_space key"] set_trim(3) [of key] key nl(1) by fastforce+
  have v: "newline \<notin> set (trim_space (stripInlineComment val))"
    using nl(2) set_trim(3) strip_comment_subset unfolding stripInlineComment_def by blast
  show ?thesis
    using assms(1) k v unfolding parse_line_def Let_def kv file_settings_def by (auto intro!: list_all_upd)
qed (use assms in \<open>simp add: parse_line_def Let_def\<close>)

lemma split_at_lines: "l \<in> set (split_at c s) \<Longrightarrow> c \<notin> set l"
  by (induction s arbitrary: l) (auto split: list.splits if_splits)

lemma parse_file: "file_settings (parseEffectiveConfig s)"
proof -
  have "file_settings m \<Longrightarrow> \<forall>l\<in>set ls. newline \<notin> set l \<Longrightarrow> file_settings (foldl parse_line m ls)" for m ls
    by (induction ls arbitrary: m) (auto intro: parse_line_file)
  then show ?thesis
    unfolding parseEffectiveConfig_def using split_at_lines by (simp add: file_settings_def)
qed

lemma single_quotes_subset: "set (single_quotes s) \<subseteq> set s"
  by (induction s rule: single_quotes.induct) auto

lemma set_unquoteValue: "set (unquoteValue v) \<subseteq> set v"
proof -
  have "set (butlast (tl w)) \<subseteq> set w" for w :: string
    by (cases w) (auto dest: in_set_butlastD)
  then show ?thesis
    unfolding unquoteValue_def Let_def using single_quotes_subset set_trim(3) by (simp, blast)
qed

lemma unquote_file:
  "file_settings m \<Longrightarrow> file_settings (filter (\<lambda>(k, v). P k) (map (\<lambda>(k, v). (k, unquoteValue v)) m))"
proof (induction m)
  case (Cons x m)
  then show ?case using set_unquoteValue [of "snd x"] by (cases x) (force simp: file_settings_def)
qed (simp add: file_settings_def)

lemma hash_input_lines: "hash_input m = render_lines (map (\<lambda>k. k @ ''='' @ str_at (map_of m) k) (sort (map fst m)))"
  by (simp add: hash_input_def render_lines_def comp_def)

lemma render_lines_inj:
  "render_lines xs = render_lines ys \<Longrightarrow> \<forall>l\<in>set xs. newline \<notin> set l \<Longrightarrow> \<forall>l\<in>set ys. newline \<notin> set l \<Longrightarrow> xs = ys"
proof -
  have "\<forall>l\<in>set xs. newline \<notin> set l \<Longrightarrow> split_at newline (render_lines xs) = xs @ [[]]" for xs
    by (induction xs) (auto simp: render_lines_def split_at_line)
  then show "render_lines xs = render_lines ys \<Longrightarrow> \<forall>l\<in>set xs. newline \<notin> set l \<Longrightarrow> \<forall>l\<in>set ys. newline \<notin> set l \<Longrightarrow> xs = ys"
    by (metis append_same_eq)
qed

lemma hash_input_inj:
  assumes a: "file_settings a" and b: "file_settings b" and eq: "hash_input a = hash_input b"
  shows "map_of a = map_of b"
proof -
  let ?line = "\<lambda>m k. k @ ''='' @ str_at (map_of m) k"
  have clean: "\<forall>l\<in>set (map (?line m) (sort (map fst m))). newline \<notin> set l" if "file_settings m" for m
  proof -
    have "newline \<notin> set (?line m k)" if k: "(k, v) \<in> set m" for k v
    proof -
      have "str_at (map_of m) k = v" using k \<open>file_settings m\<close> by (simp add: file_settings_def str_at_def)
      with k \<open>file_settings m\<close> show ?thesis by (auto simp: file_settings_def list_all_iff)
    qed
    then show ?thesis by auto
  qed
  have lines: "map (?line a) (sort (map fst a)) = map (?line b) (sort (map fst b))"
    using eq unfolding hash_input_lines by (rule render_lines_inj) (use clean a b in blast)+
  have cut: "cut_at (CHR ''='') (?line m k) = Some (k, str_at (map_of m) k)"
    if "file_settings m" "k \<in> fst ` set m" for m k
    using that cut_at_eq [of "CHR ''=''" k] by (auto simp: file_settings_def list_all_iff)
  have pairs: "map (\<lambda>l. the (cut_at (CHR ''='') l)) (map (?line m) (sort (map fst m)))
      = map (\<lambda>k. (k, str_at (map_of m) k)) (sort (map fst m))" if "file_settings m" for m
    using cut [OF that] by simp
  have "map (\<lambda>k. (k, str_at (map_of a) k)) (sort (map fst a)) = map (\<lambda>k. (k, str_at (map_of b) k)) (sort (map fst b))"
    unfolding pairs [OF a, symmetric] pairs [OF b, symmetric] lines ..
  from arg_cong [where f = set, OF this]
  have "(\<lambda>k. (k, str_at (map_of a) k)) ` fst ` set a = (\<lambda>k. (k, str_at (map_of b) k)) ` fst ` set b"
    by simp
  moreover have "set m = (\<lambda>k. (k, str_at (map_of m) k)) ` fst ` set m" if "file_settings m" for m
  proof -
    have "map_of m (fst x) = Some (snd x)" if "x \<in> set m" for x
      using that \<open>file_settings m\<close> by (intro map_of_is_SomeI) (simp_all add: file_settings_def)
    then have "(fst x, str_at (map_of m) (fst x)) = x" if "x \<in> set m" for x using that by (simp add: str_at_def)
    then show ?thesis by (simp add: image_image)
  qed
  ultimately have "set a = set b" using a b by metis
  with a b show ?thesis by (simp add: file_settings_def map_of_inject_set)
qed

lemma marker_line_settings:
  assumes "newline \<notin> set hash" and "single_quote \<notin> set hash"
  shows "map_of (parseEffectiveConfig (s @ reloadMarkerLine hash))
    = (map_of (parseEffectiveConfig s))(ReloadMarkerGUC \<mapsto> quote hash)"
proof -
  have h: "double_quotes hash = hash" using assms(2) by (induction hash) auto
  let ?c = "''# Operator-managed config-version marker; do not edit.''"
  have m: "reloadMarkerLine hash = newline # ?c @ newline # inline_line [(ReloadMarkerGUC, hash)] ReloadMarkerGUC @ newline # []"
    by (simp add: reloadMarkerLine_def inline_line_def quote_def h str_at_def)
  have nl: "newline \<notin> set (inline_line [(ReloadMarkerGUC, hash)] ReloadMarkerGUC)"
    using assms h by (simp add: inline_line_def quote_def str_at_def)
  have plain: "plain_name ReloadMarkerGUC" "key_of ReloadMarkerGUC = ReloadMarkerGUC"
    unfolding plain_name_def key_of_def by code_simp+
  have line: "map_of (parseEffectiveConfig (inline_line [(ReloadMarkerGUC, hash)] ReloadMarkerGUC)) = [ReloadMarkerGUC \<mapsto> quote hash]"
    unfolding parseEffectiveConfig_def split_at_none [OF nl]
    using parse_inline_line [OF plain(1), of "[(ReloadMarkerGUC, hash)]"] plain(2) by (simp add: str_at_def)
  have c: "map_of (parseEffectiveConfig ?c) = Map.empty" "map_of (parseEffectiveConfig []) = Map.empty"
    by (simp_all add: parseEffectiveConfig_def split_at_none)
  show ?thesis unfolding m parse_append_line line c by simp
qed

lemma map_of_map_filter:
  "distinct (map fst m) \<Longrightarrow>
   map_of (filter (\<lambda>(k, v). P k) (map (\<lambda>(k, v). (k, f v)) m)) k = (if P k then map_option f (map_of m k) else None)"
  by (induction m) auto

lemma distinct_parse: "distinct (map fst m) \<Longrightarrow> distinct (map fst (foldl parse_line m ls))"
proof (induction ls arbitrary: m)
  case (Cons l ls)
  have "distinct (map fst (parse_line m l))"
    using Cons.prems by (auto simp: parse_line_def Let_def split: option.split)
  with Cons.IH show ?case by simp
qed simp

lemma split_settings:
  fixes rendered :: string
  defines "settings \<equiv> map_of (parseEffectiveConfig rendered)"
  shows "map_of (ReloadSettings (snd (StampAndSplit sha rendered))) k =
      (if k = ReloadMarkerGUC then Some (ReloadHash (snd (StampAndSplit sha rendered)))
       else if RequiresRestart k then None else map_option unquoteValue (settings k))"
  using distinct_parse [of "[]" "split_at newline rendered"]
  by (simp add: StampAndSplit_def Let_def settings_def parseEffectiveConfig_def map_of_map_filter)

text \<open>
  the stamped file carries what the reload is verified against: it is the rendered file with the marker added, every
  expected setting sent with the reload has that value in the file, and every setting of the file that a reload can apply
  is among them.
\<close>

theorem stamped_file_verifiable:
  fixes rendered :: string and sha :: "string \<Rightarrow> string"
  defines "stamped \<equiv> fst (StampAndSplit sha rendered)" and "split \<equiv> snd (StampAndSplit sha rendered)"
  assumes "\<And>x. newline \<notin> set (sha x) \<and> single_quote \<notin> set (sha x)"
  shows "map_of (parseEffectiveConfig stamped) =
      (map_of (parseEffectiveConfig rendered))(ReloadMarkerGUC \<mapsto> quote (ReloadHash split))
    \<and> (\<forall>k v. map_of (ReloadSettings split) k = Some v \<longrightarrow>
        map_option unquoteValue (map_of (parseEffectiveConfig stamped) k) = Some v)
    \<and> (\<forall>k v. map_of (parseEffectiveConfig rendered) k = Some v \<and> \<not> RequiresRestart k \<longrightarrow>
        map_of (ReloadSettings split) k = Some (unquoteValue v))"
proof -
  have h: "ReloadHash split = sha (hash_input (filter (\<lambda>(k, v). \<not> RequiresRestart k)
      (map (\<lambda>(k, v). (k, unquoteValue v)) (parseEffectiveConfig rendered))))"
    and st: "stamped = rendered @ reloadMarkerLine (ReloadHash split)"
    by (simp_all add: split_def stamped_def StampAndSplit_def Let_def hashSettings_def)
  have parsed: "map_of (parseEffectiveConfig stamped) =
      (map_of (parseEffectiveConfig rendered))(ReloadMarkerGUC \<mapsto> quote (ReloadHash split))"
    unfolding st by (rule marker_line_settings) (use assms(3) in \<open>auto simp: h\<close>)
  have "RequiresRestart ReloadMarkerGUC" by code_simp
  with parsed split_settings [of sha rendered] show ?thesis
    by (auto simp: split_def unquote_quote split: if_splits)
qed


lemma hash_input_cong:
  assumes "distinct (map fst a)" and "distinct (map fst b)" and "map_of a = map_of b"
  shows "hash_input a = hash_input b"
proof -
  have "sort (map fst a) = sort (map fst b)"
    using assms by (intro sorted_distinct_set_unique) (auto simp: dom_map_of_conv_image_fst [symmetric])
  with assms(3) show ?thesis by (simp add: hash_input_def)
qed

definition effective :: "string \<Rightarrow> string \<Rightarrow> string option" where
  "effective rendered k = map_option unquoteValue (map_of (parseEffectiveConfig rendered) k)"

definition settings_part :: "(string \<Rightarrow> bool) \<Rightarrow> string \<Rightarrow> (string \<times> string) list" where
  "settings_part P rendered = filter (\<lambda>(k, v). P k) (map (\<lambda>(k, v). (k, unquoteValue v)) (parseEffectiveConfig rendered))"

definition hash_inputs :: "string \<Rightarrow> string set" where
  "hash_inputs rendered = {hash_input (settings_part RequiresRestart rendered),
     hash_input (settings_part (\<lambda>k. \<not> RequiresRestart k) rendered)}"

lemma map_of_settings_part: "map_of (settings_part P rendered) k = (if P k then effective rendered k else None)"
  using parse_file [of rendered] by (simp add: settings_part_def effective_def file_settings_def map_of_map_filter)

lemma hash_input_iff:
  "hash_input (settings_part P a) = hash_input (settings_part P b) \<longleftrightarrow> (\<forall>k. P k \<longrightarrow> effective a k = effective b k)"
proof -
  have f: "file_settings (settings_part P r)" for r
    unfolding settings_part_def by (intro unquote_file parse_file)
  have "hash_input (settings_part P a) = hash_input (settings_part P b)
      \<longleftrightarrow> map_of (settings_part P a) = map_of (settings_part P b)"
    using hash_input_inj [OF f f] hash_input_cong f unfolding file_settings_def by blast
  also have "\<dots> \<longleftrightarrow> (\<forall>k. P k \<longrightarrow> effective a k = effective b k)"
    by (auto simp: fun_eq_iff map_of_settings_part)
  finally show ?thesis .
qed

lemma split_hashes:
  "RestartHash (snd (StampAndSplit sha r)) = sha (hash_input (settings_part RequiresRestart r))"
  "ReloadHash (snd (StampAndSplit sha r)) = sha (hash_input (settings_part (\<lambda>k. \<not> RequiresRestart k) r))"
  by (simp_all add: StampAndSplit_def Let_def hashSettings_def settings_part_def)

text \<open>
  C34: the hashes follow the settings and nothing else. Unless the digest collides on the inputs of the two files, their
  restart hashes agree exactly when every setting that needs a restart has the same effective value in both, and
  their reload hashes exactly when every other setting has: an edit of layout, comments or order moves neither.
\<close>

theorem hashes_follow_settings:
  assumes "inj_on sha (hash_inputs a \<union> hash_inputs b)"
  shows "(RestartHash (snd (StampAndSplit sha a)) = RestartHash (snd (StampAndSplit sha b))
      \<longleftrightarrow> (\<forall>k. RequiresRestart k \<longrightarrow> effective a k = effective b k))
    \<and> (ReloadHash (snd (StampAndSplit sha a)) = ReloadHash (snd (StampAndSplit sha b))
      \<longleftrightarrow> (\<forall>k. \<not> RequiresRestart k \<longrightarrow> effective a k = effective b k))"
proof -
  have "sha x = sha y \<longleftrightarrow> x = y" if "x \<in> hash_inputs a" "y \<in> hash_inputs b" for x y
    using inj_on_eq_iff [OF assms] that by blast
  then show ?thesis
    unfolding split_hashes by (simp add: hash_inputs_def hash_input_iff)
qed

lemma work_mem_reloads: "\<not> RequiresRestart ''work_mem''"
proof -
  have "to_lower (trim_space ''work_mem'') = ''work_mem''" "''user'' \<notin> set restartContexts" by code_simp+
  then show ?thesis by (simp add: RequiresRestart_def catalog_work_mem)
qed

lemma work_mem_line: "effective (''work_mem = '' @ v) ''work_mem'' = Some v" if "v = ''1MB'' \<or> v = ''2MB''"
proof -
  have "effective (''work_mem = '' @ ''1MB'') ''work_mem'' = Some ''1MB''" "effective (''work_mem = '' @ ''2MB'') ''work_mem'' = Some ''2MB''"
    by code_simp+
  with that show ?thesis by auto
qed

lemma hashes_follow_settings_witness:
  "inj_on id (hash_inputs ''work_mem = 1MB'' \<union> hash_inputs ''work_mem = 2MB'')
   \<and> ReloadHash (snd (StampAndSplit id ''work_mem = 1MB'')) \<noteq> ReloadHash (snd (StampAndSplit id ''work_mem = 2MB''))"
proof -
  have "effective ''work_mem = 1MB'' ''work_mem'' \<noteq> effective ''work_mem = 2MB'' ''work_mem''"
    using work_mem_line [of "''1MB''"] work_mem_line [of "''2MB''"] by simp
  with work_mem_reloads hashes_follow_settings [of id "''work_mem = 1MB''" "''work_mem = 2MB''"] show ?thesis by auto
qed

lemma stamped_file_verifiable_witness:
  "map_of (ReloadSettings (snd (StampAndSplit (\<lambda>_. ''a1'') ''work_mem = 1MB''))) ''work_mem'' = Some ''1MB''"
proof -
  have "map_of (parseEffectiveConfig ''work_mem = 1MB'') ''work_mem'' = Some ''1MB''" "unquoteValue ''1MB'' = ''1MB''"
    by code_simp+
  with work_mem_reloads stamped_file_verifiable [of "\<lambda>_. ''a1''" "''work_mem = 1MB''"] show ?thesis by force
qed

lemma dotted_line: "map_of (parse_line [] (''wal_level=minimal #. = '' @ s)) ''wal_level'' = Some ''minimal''"
proof -
  let ?k = "''wal_level''" and ?v = "\<lambda>t. ''minimal #. ='' @ t"
  have "\<not> is_space (CHR ''w'')" and key: "trim_space ?k = ?k" "to_lower ?k = ?k" and v: "trim_space ''minimal '' = ''minimal''"
    by code_simp+
  then have "trim_space (?k @ CHR ''='' # ?v (CHR '' '' # s)) = ?k @ CHR ''='' # ?v (trim_right (CHR '' '' # s))"
    using trim_right_snoc [of "CHR ''=''" "?k @ ''=minimal #. ''" "CHR '' '' # s"] by (simp add: trim_space_def trim_left_cons)
  moreover have "cut_at (CHR ''='') (?k @ CHR ''='' # t) = Some (?k, t)" for t by (rule cut_at_eq) simp
  moreover have "stripInlineComment (?v t) = ''minimal ''" for t by (simp add: stripInlineComment_def)
  ultimately have "parse_line [] (?k @ CHR ''='' # ?v (CHR '' '' # s)) = [(?k, ''minimal'')]"
    using key v by (simp add: parse_line_def Let_def has_prefix_def)
  then show ?thesis by simp
qed

text \<open>
  C39: the exemption of dotted names lets an inline entry set a parameter the operator manages: the name
  \<^verbatim>\<open>wal_level=minimal #.\<close> passes validation, and its line in the rendered file assigns \<^verbatim>\<open>minimal\<close> to \<^verbatim>\<open>wal_level\<close>.
\<close>

theorem dotted_name_overrides:
  assumes "clean_config cfg" and "newline \<notin> set v"
  shows "Validate [(''wal_level=minimal #.'', v)] = []
   \<and> map_of (parseEffectiveConfig (Render cfg refContent [(''wal_level=minimal #.'', v)])) ''wal_level'' = Some ''minimal''"
proof -
  let ?m = "[(''wal_level=minimal #.'', v)]"
  have "single_lines ?m" using assms(2) by (simp add: single_lines_def)
  moreover have "settings_of (inline_lines ?m) ''wal_level'' = Some ''minimal''"
    using dotted_line [of "quote v"] by (simp add: inline_lines_def inline_line_def settings_of_def str_at_def)
  ultimately show ?thesis
    using Render_settings [OF assms(1), of ?m refContent] by (simp add: Validate_def validateGUC_def List.map_filter_def)
qed

lemma dotted_name_overrides_witness:
  "map_of (parseEffectiveConfig (Render Defaults [] [(''wal_level=minimal #.'', ''x'')])) ''wal_level'' = Some ''minimal''"
  using dotted_name_overrides [OF Defaults_clean, of "''x''" "[]"] by simp

end
