(* ===== verification/Custom_Resources.thy ===== *)
theory Custom_Resources
  imports Pool_Pods
begin

text \<open>
  The custom resources of the operator as its controllers see each other's: an object is listed, applied, stamped for
  deletion, and deleted. \<^verbatim>\<open>AnnotationPendingDeletion\<close> on a child asks its controller to drain it; the condition
  \<^verbatim>\<open>ReadyForDeletion\<close> is the answer, after which the parent deletes it. The interface \<^verbatim>\<open>handshake\<close> is what every parent
  keeps of that protocol. The gate that pauses objects (\<^verbatim>\<open>pkg/features\<close>) stands here because every controller passes it.
\<close>

abbreviation AnnotationPendingDeletion :: string where "AnnotationPendingDeletion \<equiv> ''multigres.com/pending-deletion''"

subsection \<open>Objects and calls\<close>

text \<open>A child resource; \<^verbatim>\<open>co_key\<close> is the name its parent's specification uses, \<^verbatim>\<open>co_pending\<close> the annotation (empty if absent).\<close>

record cobject =
  co_name :: string
  co_key :: string
  co_uid :: string
  co_version :: string
  co_generation :: int
  co_pending :: string
  co_deletion :: "gotime option"
  co_conditions :: "condition list"
  co_observed_generation :: int
  co_phase :: Phase

datatype ccall =
    ListChildren bool string string labels
  | ApplyChild string string
  | StampPending string cobject string
  | CancelPending string cobject
  | DeleteChild string cobject "(string \<times> string) option"
  | ApplyStatus string string
  | RecordEvent string string

type_synonym 'a cio = "(ccall list, 'a) state"

text \<open>Server-side apply answers with the generation and the resource version the object settled on.\<close>

record capi =
  ca_list :: "ccall list \<Rightarrow> ccall \<Rightarrow> api_error + cobject list"
  ca_apply :: "ccall list \<Rightarrow> ccall \<Rightarrow> api_error + int"
  ca_version :: "ccall list \<Rightarrow> ccall \<Rightarrow> string"
  ca_write :: "ccall list \<Rightarrow> ccall \<Rightarrow> api_error option"

definition ready_for_deletion_child :: "cobject \<Rightarrow> bool" where
  "ready_for_deletion_child o' \<longleftrightarrow> IsConditionTrue (co_conditions o') ''ReadyForDeletion''"

definition draining :: "cobject \<Rightarrow> bool" where
  "draining o' \<longleftrightarrow> co_pending o' \<noteq> [] \<or> co_deletion o' \<noteq> None"

text \<open>\<^verbatim>\<open>tgCleanupInProgress\<close> and \<^verbatim>\<open>observedCleanupInProgress\<close>: the first object of that name decides.\<close>

definition cleanup_in_progress :: "cobject list \<Rightarrow> string \<Rightarrow> bool" where
  "cleanup_in_progress items name = (case find (\<lambda>o'. co_name o' = name) items of None \<Rightarrow> False | Some o' \<Rightarrow> draining o')"

lemma find_unique: "distinct (map co_name items) \<Longrightarrow> o' \<in> set items \<Longrightarrow> find (\<lambda>x. co_name x = co_name o') items = Some o'"
  by (induction items) (auto simp: image_iff)

subsection \<open>The reconcile gate\<close>

abbreviation ReconcileLabel :: string where "ReconcileLabel \<equiv> ''multigres.com/reconcile''"
abbreviation Disabled :: string where "Disabled \<equiv> ''disabled''"

text \<open>\<^verbatim>\<open>laptop\<close> is the namespace claimed by laptop mode; the namespace's labels are the answer of one read.\<close>

definition gated :: "string \<Rightarrow> string \<Rightarrow> labels \<Rightarrow> (api_error + labels) \<Rightarrow> bool \<Rightarrow> api_error + bool" where
  "gated laptop ns objectLabels namespace missingNamespaceGated =
     (if laptop \<noteq> [] \<and> ns \<noteq> laptop then Inr True
      else case namespace of
             Inl err \<Rightarrow> if err = NotFound then Inr missingNamespaceGated else Inl err
           | Inr nsLabels \<Rightarrow>
               let nsDisabled = (str_at nsLabels ReconcileLabel = Disabled)
               in if laptop \<noteq> [] then Inr (\<not> nsDisabled)
                  else Inr (nsDisabled \<or> str_at objectLabels ReconcileLabel = Disabled))"

definition Gated :: "string \<Rightarrow> string \<Rightarrow> labels \<Rightarrow> (api_error + labels) \<Rightarrow> api_error + bool" where
  "Gated laptop ns objectLabels namespace = gated laptop ns objectLabels namespace False"

text \<open>The deployed operator and a laptop that claimed the namespace never both reconcile an object of a namespace they can read.\<close>

lemma gate_exclusive:
  assumes "laptop \<noteq> []" and "Gated laptop ns objectLabels (Inr nsLabels) = Inr False"
  shows "Gated [] ns objectLabels (Inr nsLabels) = Inr True"
  using assms by (auto simp: Gated_def gated_def Let_def split: if_splits)

subsection \<open>The handshake\<close>

text \<open>
  What a parent does to its children of a kind: it deletes only what it saw stamped and ready, and stamps only what it saw
  unstamped, both only where, by what it saw, it no longer wants the object.
\<close>

definition handshake_guard ::
  "capi \<Rightarrow> ccall \<Rightarrow> (cobject list \<Rightarrow> cobject \<Rightarrow> bool) \<Rightarrow> ccall list \<Rightarrow> ccall \<Rightarrow> bool" where
  "handshake_guard api l wanted h c =
     (case c of
        StampPending kind o' stamp \<Rightarrow>
          \<exists>items. seen (ca_list api) h l (Inr items) \<and> o' \<in> set items \<and> \<not> wanted items o' \<and> co_pending o' = []
      | DeleteChild kind o' pre \<Rightarrow>
          \<exists>items. seen (ca_list api) h l (Inr items) \<and> o' \<in> set items \<and> \<not> wanted items o'
            \<and> co_pending o' \<noteq> [] \<and> ready_for_deletion_child o'
      | _ \<Rightarrow> True)"

definition fresh_guard :: "capi \<Rightarrow> ccall \<Rightarrow> ccall list \<Rightarrow> ccall \<Rightarrow> bool" where
  "fresh_guard api l h c =
     (case c of
        ApplyChild kind name \<Rightarrow> \<exists>items. seen (ca_list api) h l (Inr items) \<and> \<not> cleanup_in_progress items name
      | _ \<Rightarrow> True)"

locale handshake =
  fixes pass :: "capi \<Rightarrow> 'a cio" and listing :: ccall and wanted :: "cobject list \<Rightarrow> cobject \<Rightarrow> bool"
  assumes guarded_pass: "keeps (handshake_guard api listing wanted) (pass api) h"
begin

text \<open>Any deletion or stamp of a pass rests on what the pass itself read.\<close>

lemma deletes_drained:
  assumes "snd (run_state (pass api) []) = pre @ DeleteChild kind o' p # post"
  shows "\<exists>items. seen (ca_list api) pre listing (Inr items) \<and> o' \<in> set items \<and> \<not> wanted items o'
    \<and> co_pending o' \<noteq> [] \<and> ready_for_deletion_child o'"
proof -
  have "guarded (handshake_guard api listing wanted) [] (pre @ DeleteChild kind o' p # post)"
    using guarded_pass [of api "[]"] assms by (auto simp: keeps_def)
  then show ?thesis by (simp add: handshake_guard_def)
qed

lemma stamps_unwanted:
  assumes "snd (run_state (pass api) []) = pre @ StampPending kind o' stamp # post"
  shows "\<exists>items. seen (ca_list api) pre listing (Inr items) \<and> o' \<in> set items \<and> \<not> wanted items o' \<and> co_pending o' = []"
proof -
  have "guarded (handshake_guard api listing wanted) [] (pre @ StampPending kind o' stamp # post)"
    using guarded_pass [of api "[]"] assms by (auto simp: keeps_def)
  then show ?thesis by (simp add: handshake_guard_def)
qed

end

text \<open>A parent that also leaves alone every name it saw on its way out.\<close>

locale fresh_handshake = handshake pass listing wanted
  for pass :: "capi \<Rightarrow> 'a cio" and listing :: ccall and wanted :: "cobject list \<Rightarrow> cobject \<Rightarrow> bool" +
  assumes fresh_pass: "keeps (fresh_guard api listing) (pass api) h"
begin

lemma applies_fresh:
  assumes "snd (run_state (pass api) []) = pre @ ApplyChild kind name # post"
  shows "\<exists>items. seen (ca_list api) pre listing (Inr items) \<and> \<not> cleanup_in_progress items name"
proof -
  have "guarded (fresh_guard api listing) [] (pre @ ApplyChild kind name # post)"
    using fresh_pass [of api "[]"] assms by (auto simp: keeps_def)
  then show ?thesis by (simp add: fresh_guard_def)
qed

end

subsection \<open>Guards through a pass\<close>

text \<open>A loop whose body keeps a guard as long as a fact about the history holds that no call undoes.\<close>

lemma keeps_run: "keeps G m h \<Longrightarrow> \<exists>cs. snd (run_state m h) = h @ cs"
  by (auto simp: keeps_def)

lemma keeps_bind_inv:
  assumes "I h" and "\<And>h cs. I h \<Longrightarrow> I (h @ cs)" and "keeps G m h"
    and "\<And>x h. I h \<Longrightarrow> keeps G (f x) h"
  shows "keeps G (State_Monad.bind m f) h"
  using assms(3)
proof (rule keeps_bind)
  fix x h'
  assume "run_state m h = (x, h')"
  then obtain cs where "h' = h @ cs" using keeps_run [OF assms(3)] by auto
  then show "keeps G (f x) h'" using assms(1,2,4) by blast
qed

end
