(* ===== verification/Config_Layers.thy ===== *)
theory Config_Layers
  imports Kube_Model "HOL-Library.Finite_Map"
begin

text \<open>
  Layers of configuration: the merge helpers of \<^verbatim>\<open>pkg/resolver/resolver.go\<close>, \<^verbatim>\<open>shard.go\<close>, \<^verbatim>\<open>cell.go\<close> and \<^verbatim>\<open>cluster.go\<close>,
  which lay an override over a base field by field. What the helpers share is the interface \<^verbatim>\<open>overlay\<close>: merging is
  associative with the empty layer as unit, and a layer that is already on top is not changed by laying it below again.
  Each helper interprets it.
\<close>

subsection \<open>The interface\<close>

locale overlay =
  fixes merge :: "'a \<Rightarrow> 'a \<Rightarrow> 'a" and empty :: 'a
  assumes merge_assoc: "merge (merge a b) c = merge a (merge b c)"
    and empty_left: "merge empty a = a"
    and empty_right: "merge a empty = a"
    and absorb: "merge a (merge b a) = merge b a"
begin

lemma merge_idem: "merge a a = a"
  using absorb [of a empty] by (simp add: empty_left)

lemma absorb_left: "merge a (merge a b) = merge a b"
  using merge_assoc [of a a b] by (simp add: merge_idem)

text \<open>Laying a middle layer below the finished result once more changes nothing.\<close>

lemma absorb_middle: "merge b (merge a (merge b c)) = merge a (merge b c)"
  using merge_assoc [of a b c] merge_assoc [of b "merge a b" c] absorb [of b a] by simp

end

subsection \<open>Single fields\<close>

text \<open>\<^verbatim>\<open>if override != "" { base = override }\<close>, the same for slices, pointers and resource requirements.\<close>

definition set_list :: "'a list \<Rightarrow> 'a list \<Rightarrow> 'a list" where
  "set_list base override = (if override \<noteq> [] then override else base)"

definition set_opt :: "'a option \<Rightarrow> 'a option \<Rightarrow> 'a option" where
  "set_opt base override = (if override \<noteq> None then override else base)"

definition isResourcesZero :: "resources \<Rightarrow> bool" where
  "isResourcesZero res \<longleftrightarrow> r_requests res = None \<and> r_limits res = None \<and> r_claims res = None"

definition set_resources :: "resources \<Rightarrow> resources \<Rightarrow> resources" where
  "set_resources base override = (if \<not> isResourcesZero override then override else base)"

definition zero_resources :: resources where
  "zero_resources = \<lparr>r_requests = None, r_limits = None, r_claims = None\<rparr>"

lemma isResourcesZero_iff: "isResourcesZero res \<longleftrightarrow> res = zero_resources"
  by (cases res) (simp add: isResourcesZero_def zero_resources_def)

lemma set_list_laws:
  "set_list (set_list a b) c = set_list a (set_list b c)" "set_list [] a = a" "set_list a [] = a"
  "set_list a (set_list b a) = set_list b a"
  by (auto simp: set_list_def)

lemma set_opt_laws:
  "set_opt (set_opt a b) c = set_opt a (set_opt b c)" "set_opt None a = a" "set_opt a None = a"
  "set_opt a (set_opt b a) = set_opt b a"
  by (auto simp: set_opt_def)

lemma set_resources_laws:
  "set_resources (set_resources a b) c = set_resources a (set_resources b c)" "set_resources zero_resources a = a"
  "set_resources a zero_resources = a" "set_resources a (set_resources b a) = set_resources b a"
  by (auto simp: set_resources_def isResourcesZero_iff)

lemma map_add_laws: "(a ++ b) ++ a = b ++ a" for a b :: "'k \<Rightarrow> 'v option"
  by (auto simp: map_add_def fun_eq_iff split: option.split)

lemma absorb_laws:
  "set_list s (set_list s t) = set_list s t" "set_opt a (set_opt a b) = set_opt a b"
  "set_resources r (set_resources r q) = set_resources r q" "(m ++ m) ++ n = m ++ n"
  by (auto simp: set_list_def set_opt_def set_resources_def map_add_def fun_eq_iff split: option.split)

lemmas field_laws = set_list_laws set_opt_laws set_resources_laws map_add_laws

text \<open>A nested block that may be absent: an absent override keeps the base, an absent base starts from the empty block.\<close>

definition merge_block :: "('a \<Rightarrow> 'a \<Rightarrow> 'a) \<Rightarrow> 'a \<Rightarrow> 'a option \<Rightarrow> 'a option \<Rightarrow> 'a option" where
  "merge_block f e base override =
     (case override of
        None \<Rightarrow> base
      | Some r \<Rightarrow> Some (f (case base of None \<Rightarrow> e | Some b \<Rightarrow> b) r))"

lemma merge_block_laws:
  assumes "overlay f e"
  shows "merge_block f e (merge_block f e a b) c = merge_block f e a (merge_block f e b c)"
    and "merge_block f e None a = a" and "merge_block f e a None = a"
    and "merge_block f e a (merge_block f e b a) = merge_block f e b a"
proof -
  note laws = overlay.merge_assoc [OF assms] overlay.empty_left [OF assms] overlay.empty_right [OF assms]
    overlay.absorb [OF assms] overlay.merge_idem [OF assms]
  show "merge_block f e (merge_block f e a b) c = merge_block f e a (merge_block f e b c)"
    by (auto simp: merge_block_def laws split: option.splits)
  show "merge_block f e None a = a" "merge_block f e a None = a"
    by (auto simp: merge_block_def laws split: option.splits)
  show "merge_block f e a (merge_block f e b a) = merge_block f e b a"
    by (auto simp: merge_block_def laws split: option.splits)
qed

text \<open>A map whose values are merged where both sides have the key.\<close>

definition merge_fmap :: "('v \<Rightarrow> 'v \<Rightarrow> 'v) \<Rightarrow> ('k, 'v) fmap \<Rightarrow> ('k, 'v) fmap \<Rightarrow> ('k, 'v) fmap" where
  "merge_fmap f base override =
     fmmap_keys (\<lambda>k v. case fmlookup override k of None \<Rightarrow> v | Some w \<Rightarrow> f v w) base
       ++\<^sub>f fmfilter (\<lambda>k. fmlookup base k = None) override"

lemma lookup_merge_fmap:
  "fmlookup (merge_fmap f a b) k =
     (case fmlookup b k of
        None \<Rightarrow> fmlookup a k
      | Some w \<Rightarrow> Some (case fmlookup a k of None \<Rightarrow> w | Some v \<Rightarrow> f v w))"
  by (auto simp: merge_fmap_def option.map_ident fmlookup_dom_iff split: option.splits)

lemma merge_fmap_laws:
  assumes "overlay f e"
  shows "merge_fmap f (merge_fmap f a b) c = merge_fmap f a (merge_fmap f b c)"
    and "merge_fmap f fmempty a = a" and "merge_fmap f a fmempty = a"
    and "merge_fmap f a (merge_fmap f b a) = merge_fmap f b a"
proof -
  note laws = overlay.merge_assoc [OF assms] overlay.absorb [OF assms] overlay.merge_idem [OF assms]
  show "merge_fmap f (merge_fmap f a b) c = merge_fmap f a (merge_fmap f b c)"
    by (rule fmap_ext) (auto simp: lookup_merge_fmap laws split: option.splits)
  show "merge_fmap f fmempty a = a" "merge_fmap f a fmempty = a"
    by (rule fmap_ext, auto simp: lookup_merge_fmap split: option.splits)+
  show "merge_fmap f a (merge_fmap f b a) = merge_fmap f b a"
    by (rule fmap_ext) (auto simp: lookup_merge_fmap laws split: option.splits)
qed

subsection \<open>The blocks of a specification\<close>

text \<open>Tolerations, affinities and placements are carried along unread; each is an opaque text.\<close>

record stateless_spec =
  sl_replicas :: "int option"
  sl_resources :: resources
  sl_affinity :: "string option"
  sl_annotations :: "string \<Rightarrow> string option"
  sl_labels :: "string \<Rightarrow> string option"

definition empty_stateless :: stateless_spec where
  "empty_stateless = \<lparr>sl_replicas = None, sl_resources = zero_resources, sl_affinity = None,
     sl_annotations = Map.empty, sl_labels = Map.empty\<rparr>"

definition mergeStatelessSpec :: "stateless_spec \<Rightarrow> stateless_spec \<Rightarrow> stateless_spec" where
  "mergeStatelessSpec base override =
     \<lparr>sl_replicas = set_opt (sl_replicas base) (sl_replicas override),
      sl_resources = set_resources (sl_resources base) (sl_resources override),
      sl_affinity = set_opt (sl_affinity base) (sl_affinity override),
      sl_annotations = sl_annotations base ++ sl_annotations override,
      sl_labels = sl_labels base ++ sl_labels override\<rparr>"

interpretation stateless: overlay mergeStatelessSpec empty_stateless
  by unfold_locales (simp_all add: mergeStatelessSpec_def empty_stateless_def field_laws)

type_synonym placement = "string list"

definition mergePodPlacementSpec :: "placement option \<Rightarrow> placement option \<Rightarrow> placement option" where
  "mergePodPlacementSpec base override = (case override of None \<Rightarrow> base | Some p \<Rightarrow> Some p)"

lemma mergePodPlacementSpec_eq: "mergePodPlacementSpec = set_opt"
  by (auto simp: mergePodPlacementSpec_def set_opt_def fun_eq_iff split: option.split)

record multiorch_spec =
  mo_stateless :: stateless_spec
  mo_placement :: "placement option"
  mo_cells :: "string list"

definition empty_multiorch :: multiorch_spec where
  "empty_multiorch = \<lparr>mo_stateless = empty_stateless, mo_placement = None, mo_cells = []\<rparr>"

definition mergeMultiorchSpec :: "multiorch_spec \<Rightarrow> multiorch_spec \<Rightarrow> multiorch_spec" where
  "mergeMultiorchSpec base override =
     \<lparr>mo_stateless = mergeStatelessSpec (mo_stateless base) (mo_stateless override),
      mo_placement = mergePodPlacementSpec (mo_placement base) (mo_placement override),
      mo_cells = set_list (mo_cells base) (mo_cells override)\<rparr>"

lemmas stateless_laws = stateless.merge_assoc stateless.empty_left stateless.empty_right stateless.absorb

interpretation multiorch: overlay mergeMultiorchSpec empty_multiorch
  by unfold_locales (simp_all add: mergeMultiorchSpec_def empty_multiorch_def field_laws mergePodPlacementSpec_eq stateless_laws)

text \<open>Storage and container settings are merged in place by the helpers for pools, etcd and backups.\<close>

definition merge_storage :: "storage_spec \<Rightarrow> storage_spec \<Rightarrow> storage_spec" where
  "merge_storage base override =
     \<lparr>st_size = set_list (st_size base) (st_size override), st_class = set_list (st_class base) (st_class override),
      st_access_modes = set_list (st_access_modes base) (st_access_modes override)\<rparr>"

definition merge_container :: "container_config \<Rightarrow> container_config \<Rightarrow> container_config" where
  "merge_container base override =
     \<lparr>cc_resources = set_resources (cc_resources base) (cc_resources override),
      cc_run_as_user = set_opt (cc_run_as_user base) (cc_run_as_user override),
      cc_run_as_group = set_opt (cc_run_as_group base) (cc_run_as_group override)\<rparr>"

definition empty_storage :: storage_spec where
  "empty_storage = \<lparr>st_size = [], st_class = [], st_access_modes = []\<rparr>"

definition empty_container :: container_config where
  "empty_container = \<lparr>cc_resources = zero_resources, cc_run_as_user = None, cc_run_as_group = None\<rparr>"

interpretation storage: overlay merge_storage empty_storage
  by unfold_locales (simp_all add: merge_storage_def empty_storage_def field_laws)

interpretation container: overlay merge_container empty_container
  by unfold_locales (simp_all add: merge_container_def empty_container_def field_laws)

definition empty_pool :: pool_spec where
  "empty_pool = \<lparr>ps_type = [], ps_cells = [], ps_replicas_per_cell = None, ps_storage = empty_storage,
     ps_postgres = empty_container, ps_multipooler = empty_container, ps_affinity = None, ps_tolerations = [],
     ps_fs_group = None, ps_pvc_deletion_policy = None\<rparr>"

definition mergePoolSpec :: "pool_spec \<Rightarrow> pool_spec \<Rightarrow> pool_spec" where
  "mergePoolSpec base override =
     \<lparr>ps_type = set_list (ps_type base) (ps_type override),
      ps_cells = set_list (ps_cells base) (ps_cells override),
      ps_replicas_per_cell = set_opt (ps_replicas_per_cell base) (ps_replicas_per_cell override),
      ps_storage = merge_storage (ps_storage base) (ps_storage override),
      ps_postgres = merge_container (ps_postgres base) (ps_postgres override),
      ps_multipooler = merge_container (ps_multipooler base) (ps_multipooler override),
      ps_affinity = set_opt (ps_affinity base) (ps_affinity override),
      ps_tolerations = set_list (ps_tolerations base) (ps_tolerations override),
      ps_fs_group = set_opt (ps_fs_group base) (ps_fs_group override),
      ps_pvc_deletion_policy = set_opt (ps_pvc_deletion_policy base) (ps_pvc_deletion_policy override)\<rparr>"

lemmas block_laws = storage.merge_assoc storage.empty_left storage.empty_right storage.absorb
  container.merge_assoc container.empty_left container.empty_right container.absorb

interpretation pool: overlay mergePoolSpec empty_pool
  by unfold_locales (simp_all add: mergePoolSpec_def empty_pool_def field_laws block_laws)

type_synonym pool_map = "(string, pool_spec) fmap"

abbreviation merge_pools :: "pool_map \<Rightarrow> pool_map \<Rightarrow> pool_map" where
  "merge_pools \<equiv> merge_fmap mergePoolSpec"

interpretation pools: overlay merge_pools fmempty
  by unfold_locales (simp_all add: merge_fmap_laws [OF pool.overlay_axioms])

text \<open>\<^verbatim>\<open>mergePostgresConfig\<close>: a nil map and an empty one are not told apart by any reader.\<close>

definition mergePostgresConfig :: "(string, string) fmap \<Rightarrow> (string, string) fmap \<Rightarrow> (string, string) fmap" where
  "mergePostgresConfig base override = base ++\<^sub>f override"

interpretation postgres_config: overlay mergePostgresConfig fmempty
  by unfold_locales (auto simp: mergePostgresConfig_def fmlookup_dom_iff intro!: fmap_ext)

subsection \<open>The gateway of a cell\<close>

record gateway_buffer =
  gb_enabled :: "bool option"
  gb_window :: "duration option"
  gb_max_failover :: "duration option"
  gb_min_between :: "duration option"
  gb_size :: "int option"
  gb_drain_concurrency :: "int option"

definition empty_buffer :: gateway_buffer where
  "empty_buffer = \<lparr>gb_enabled = None, gb_window = None, gb_max_failover = None, gb_min_between = None,
     gb_size = None, gb_drain_concurrency = None\<rparr>"

definition merge_buffer :: "gateway_buffer \<Rightarrow> gateway_buffer \<Rightarrow> gateway_buffer" where
  "merge_buffer base ovr =
     \<lparr>gb_enabled = set_opt (gb_enabled base) (gb_enabled ovr),
      gb_window = set_opt (gb_window base) (gb_window ovr),
      gb_max_failover = set_opt (gb_max_failover base) (gb_max_failover ovr),
      gb_min_between = set_opt (gb_min_between base) (gb_min_between ovr),
      gb_size = set_opt (gb_size base) (gb_size ovr),
      gb_drain_concurrency = set_opt (gb_drain_concurrency base) (gb_drain_concurrency ovr)\<rparr>"

interpretation buffer: overlay merge_buffer empty_buffer
  by unfold_locales (simp_all add: merge_buffer_def empty_buffer_def field_laws)

text \<open>\<^verbatim>\<open>GatewayClusterViewsConfig\<close> has the one field \<^verbatim>\<open>Enabled\<close>.\<close>

record gateway_spec =
  gw_stateless :: stateless_spec
  gw_buffer :: "gateway_buffer option"
  gw_cluster_views :: "bool option option"

definition empty_gateway :: gateway_spec where
  "empty_gateway = \<lparr>gw_stateless = empty_stateless, gw_buffer = None, gw_cluster_views = None\<rparr>"

definition mergeGatewayBuffer :: "gateway_buffer option \<Rightarrow> gateway_buffer option \<Rightarrow> gateway_buffer option" where
  "mergeGatewayBuffer = merge_block merge_buffer empty_buffer"

definition mergeGatewayClusterViews :: "bool option option \<Rightarrow> bool option option \<Rightarrow> bool option option" where
  "mergeGatewayClusterViews = merge_block set_opt None"

interpretation views: overlay "set_opt :: bool option \<Rightarrow> bool option \<Rightarrow> bool option" None
  by unfold_locales (simp_all add: field_laws)

definition mergeMultigatewaySpec :: "gateway_spec \<Rightarrow> gateway_spec \<Rightarrow> gateway_spec" where
  "mergeMultigatewaySpec base override =
     \<lparr>gw_stateless = mergeStatelessSpec (gw_stateless base) (gw_stateless override),
      gw_buffer = mergeGatewayBuffer (gw_buffer base) (gw_buffer override),
      gw_cluster_views = mergeGatewayClusterViews (gw_cluster_views base) (gw_cluster_views override)\<rparr>"

lemmas gateway_laws = stateless_laws merge_block_laws [OF buffer.overlay_axioms] merge_block_laws [OF views.overlay_axioms]

interpretation gateway: overlay mergeMultigatewaySpec empty_gateway
  by unfold_locales (simp_all add: mergeMultigatewaySpec_def empty_gateway_def mergeGatewayBuffer_def
      mergeGatewayClusterViews_def gateway_laws)

subsection \<open>etcd\<close>

record etcd_maintenance =
  em_mode :: string
  em_retention :: string
  em_quota :: "int option"
  em_defragmentation :: "bool option"

definition empty_maintenance :: etcd_maintenance where
  "empty_maintenance = \<lparr>em_mode = [], em_retention = [], em_quota = None, em_defragmentation = None\<rparr>"

definition merge_maintenance :: "etcd_maintenance \<Rightarrow> etcd_maintenance \<Rightarrow> etcd_maintenance" where
  "merge_maintenance base m =
     \<lparr>em_mode = set_list (em_mode base) (em_mode m), em_retention = set_list (em_retention base) (em_retention m),
      em_quota = set_opt (em_quota base) (em_quota m),
      em_defragmentation = set_opt (em_defragmentation base) (em_defragmentation m)\<rparr>"

interpretation maintenance: overlay merge_maintenance empty_maintenance
  by unfold_locales (simp_all add: merge_maintenance_def empty_maintenance_def field_laws)

record etcd_spec =
  et_image :: string
  et_replicas :: "int option"
  et_storage :: storage_spec
  et_resources :: resources
  et_maintenance :: "etcd_maintenance option"
  et_root_path :: string
  et_pvc_deletion_policy :: "pvc_deletion_policy option"

definition empty_etcd :: etcd_spec where
  "empty_etcd = \<lparr>et_image = [], et_replicas = None, et_storage = empty_storage, et_resources = zero_resources,
     et_maintenance = None, et_root_path = [], et_pvc_deletion_policy = None\<rparr>"

definition mergeEtcdSpec :: "etcd_spec \<Rightarrow> etcd_spec \<Rightarrow> etcd_spec" where
  "mergeEtcdSpec base override =
     \<lparr>et_image = set_list (et_image base) (et_image override),
      et_replicas = set_opt (et_replicas base) (et_replicas override),
      et_storage = merge_storage (et_storage base) (et_storage override),
      et_resources = set_resources (et_resources base) (et_resources override),
      et_maintenance = merge_block merge_maintenance empty_maintenance (et_maintenance base) (et_maintenance override),
      et_root_path = set_list (et_root_path base) (et_root_path override),
      et_pvc_deletion_policy = set_opt (et_pvc_deletion_policy base) (et_pvc_deletion_policy override)\<rparr>"

interpretation etcd: overlay mergeEtcdSpec empty_etcd
  by unfold_locales (simp_all add: mergeEtcdSpec_def empty_etcd_def field_laws block_laws
      merge_block_laws [OF maintenance.overlay_axioms])

end
