(* ===== verification/Topo_Roots.thy ===== *)
theory Topo_Roots
  imports Go_Prelude
begin

text \<open>
  The topology roots of a cluster (\<^verbatim>\<open>pkg/topology/roots.go\<close>): the path under which everything a cluster keeps in a
  shared topology server lives. The digest of an overlong root (SHA-256 in unpadded base64url) is an argument.
\<close>

text \<open>\<^verbatim>\<open>url.PathEscape\<close>: letters, digits and a few marks stay, every other byte becomes a percent sign and two digits.\<close>

definition path_safe :: "char \<Rightarrow> bool" where
  "path_safe c \<longleftrightarrow> CHR ''a'' \<le> c \<and> c \<le> CHR ''z'' \<or> CHR ''A'' \<le> c \<and> c \<le> CHR ''Z'' \<or> is_digit c
     \<or> c \<in> set ''-_.~$&+=:@''"

definition upper_hex :: "nat \<Rightarrow> char" where
  "upper_hex n = ''0123456789ABCDEF'' ! n"

definition escape_char :: "char \<Rightarrow> string" where
  "escape_char c = (if path_safe c then [c]
     else [CHR ''%'', upper_hex (of_char c div 16), upper_hex (of_char c mod 16)])"

definition path_escape :: "string \<Rightarrow> string" where
  "path_escape s = concat (map escape_char s)"

datatype root_error = EmptySegment string | NulInSegment string

definition encodeSegment :: "string \<Rightarrow> string \<Rightarrow> root_error + string" where
  "encodeSegment kind value =
     (if value = [] then Inl (EmptySegment kind)
      else if CHR 0x00 \<in> set value then Inl (NulInSegment kind)
      else let encoded = path_escape value
           in Inr (if encoded = ''.'' then ''%2E'' else if encoded = ''..'' then ''%2E%2E'' else encoded))"

definition rootPrefix :: string where "rootPrefix = ''/multigres''"
abbreviation AnnotationProjectRef :: string where "AnnotationProjectRef \<equiv> ''multigres.com/project-ref''"

definition maxTLSRootBytes :: nat where "maxTLSRootBytes = 64"

record Roots =
  clusterRoot :: string

definition NewRoots ::
  "(string \<Rightarrow> string) \<Rightarrow> (string \<Rightarrow> string option) \<Rightarrow> string \<Rightarrow> string \<Rightarrow> bool \<Rightarrow> root_error + Roots" where
  "NewRoots digest annotations namespace clusterName topoTLS =
     (let projectRef = str_at annotations AnnotationProjectRef
      in if projectRef \<noteq> []
         then (case encodeSegment ''project reference'' projectRef of
                 Inl err \<Rightarrow> Inl err
               | Inr encoded \<Rightarrow> Inr \<lparr>clusterRoot = rootPrefix @ ''/'' @ encoded\<rparr>)
         else (case encodeSegment ''namespace'' namespace of
                 Inl err \<Rightarrow> Inl err
               | Inr encodedNamespace \<Rightarrow>
                   (case encodeSegment ''cluster name'' clusterName of
                      Inl err \<Rightarrow> Inl err
                    | Inr encodedClusterName \<Rightarrow>
                        let root = rootPrefix @ ''/'' @ encodedNamespace @ ''/'' @ encodedClusterName
                        in Inr \<lparr>clusterRoot =
                             (if topoTLS \<and> maxTLSRootBytes < length root
                              then rootPrefix @ ''-fallback/'' @ digest root else root)\<rparr>)))"

definition ClusterRoot :: "Roots \<Rightarrow> string" where
  "ClusterRoot r = clusterRoot r"

definition KeyPrefix :: "Roots \<Rightarrow> string" where
  "KeyPrefix r = clusterRoot r @ ''/''"

definition Global_root :: "Roots \<Rightarrow> string" where
  "Global_root r = clusterRoot r @ ''/global''"

definition Cell_root :: "Roots \<Rightarrow> string \<Rightarrow> root_error + string" where
  "Cell_root r cellName =
     (case encodeSegment ''cell name'' cellName of
        Inl err \<Rightarrow> Inl err
      | Inr encoded \<Rightarrow> Inr (clusterRoot r @ ''/'' @ encoded))"

subsection \<open>Escaping\<close>

lemma upper_hex_inj: "i < 16 \<Longrightarrow> j < 16 \<Longrightarrow> upper_hex i = upper_hex j \<Longrightarrow> i = j"
  unfolding upper_hex_def by (subst (asm) nth_eq_iff_index_eq) auto

lemma char_halves: "of_char c div 16 < (16 :: nat)" "of_char c mod 16 < (16 :: nat)"
proof -
  have "of_char c < (256 :: nat)" by simp
  then show "of_char c div 16 < (16 :: nat)" by (simp add: less_mult_imp_div_less)
qed simp

lemma escape_char_prefix: "escape_char c @ s = escape_char d @ t \<Longrightarrow> c = d \<and> s = t"
proof -
  assume eq: "escape_char c @ s = escape_char d @ t"
  have percent: "\<not> path_safe (CHR ''%'')" by code_simp
  show ?thesis
  proof (cases "path_safe c \<or> path_safe d")
    case True
    with eq percent show ?thesis by (auto simp: escape_char_def split: if_splits)
  next
    case False
    with eq have st: "s = t" and hi: "upper_hex (of_char c div 16) = upper_hex (of_char d div 16)"
      and lo: "upper_hex (of_char c mod 16) = upper_hex (of_char d mod 16)"
      by (auto simp: escape_char_def)
    from upper_hex_inj [OF char_halves(1) char_halves(1) hi] upper_hex_inj [OF char_halves(2) char_halves(2) lo]
    have "(of_char c :: nat) = of_char d" by (metis div_mult_mod_eq)
    with st show ?thesis by simp
  qed
qed

lemma escape_char_nonempty [simp]: "escape_char c \<noteq> []"
  by (simp add: escape_char_def)

lemma path_escape_simps [simp]:
  "path_escape [] = []" "path_escape (c # s) = escape_char c @ path_escape s"
  by (simp_all add: path_escape_def)

lemma path_escape_inj: "path_escape s = path_escape t \<Longrightarrow> s = t"
proof (induction s arbitrary: t)
  case Nil
  then show ?case by (cases t) auto
next
  case (Cons c s)
  then show ?case by (cases t) (auto dest!: escape_char_prefix)
qed

lemma path_escape_chars: "c \<in> set (path_escape s) \<Longrightarrow> path_safe c \<or> c = CHR ''%''"
proof -
  have "path_safe (upper_hex n)" if "n < 16" for n
  proof -
    have "list_all path_safe ''0123456789ABCDEF''" by code_simp
    moreover have "upper_hex n \<in> set ''0123456789ABCDEF''"
      unfolding upper_hex_def using that by (intro nth_mem) simp
    ultimately show ?thesis by (simp only: list_all_iff)
  qed
  then have "c \<in> set (escape_char d) \<Longrightarrow> path_safe c \<or> c = CHR ''%''" for d
    using char_halves [of d] by (auto simp: escape_char_def split: if_splits)
  then show "c \<in> set (path_escape s) \<Longrightarrow> path_safe c \<or> c = CHR ''%''" by (auto simp: path_escape_def)
qed

lemma dot_only: "path_escape s = replicate n (CHR ''.'') \<Longrightarrow> s = replicate n (CHR ''.'')"
proof -
  have "escape_char (CHR ''.'') = ''.''" by code_simp
  then have "path_escape (replicate n (CHR ''.'')) = replicate n (CHR ''.'')" by (induction n) simp_all
  then show "path_escape s = replicate n (CHR ''.'') \<Longrightarrow> s = replicate n (CHR ''.'')"
    using path_escape_inj by metis
qed

text \<open>No escaped text starts with the code of a dot, since a dot is never escaped.\<close>

lemma no_dot_code: "path_escape s \<noteq> ''%2E'' @ t"
proof (cases s)
  case (Cons c s')
  have "escape_char c @ path_escape s' \<noteq> CHR ''%'' # upper_hex 2 # upper_hex 14 # t"
  proof
    assume eq: "escape_char c @ path_escape s' = CHR ''%'' # upper_hex 2 # upper_hex 14 # t"
    have "\<not> path_safe (CHR ''%'')" "path_safe (CHR ''.'')" "(of_char (CHR ''.'') :: nat) = 2 * 16 + 14" by code_simp+
    with eq have "\<not> path_safe c" and u: "upper_hex (of_char c div 16) = upper_hex 2" "upper_hex (of_char c mod 16) = upper_hex 14"
      by (auto simp: escape_char_def split: if_splits)
    have "of_char c div 16 = (2 :: nat)" "of_char c mod 16 = (14 :: nat)"
      using upper_hex_inj [OF char_halves(1) _ u(1)] upper_hex_inj [OF char_halves(2) _ u(2)] by simp_all
    then have "(of_char c :: nat) = 2 * 16 + 14" using div_mult_mod_eq [of "of_char c :: nat" 16] by simp
    with \<open>(of_char (CHR ''.'') :: nat) = 2 * 16 + 14\<close> have "c = CHR ''.''" by (metis of_char_eq_iff)
    with \<open>\<not> path_safe c\<close> \<open>path_safe (CHR ''.'')\<close> show False by simp
  qed
  moreover have "upper_hex 2 = CHR ''2''" "upper_hex 14 = CHR ''E''" by code_simp+
  ultimately show ?thesis using Cons by simp
qed simp

lemma encodeSegment_inj:
  assumes "encodeSegment k v = Inr e" and "encodeSegment k' w = Inr e"
  shows "v = w"
proof -
  let ?dots = "\<lambda>v. v = ''.'' \<or> v = ''..''"
  have enc: "e = path_escape v \<and> \<not> ?dots (path_escape v) \<or> path_escape v = ''.'' \<and> e = ''%2E'' \<or> path_escape v = ''..'' \<and> e = ''%2E%2E''"
    if "encodeSegment k v = Inr e" for k v
    using that by (auto simp: encodeSegment_def Let_def split: if_splits)
  from enc [OF assms(1)] enc [OF assms(2)] no_dot_code [of v "[]"] no_dot_code [of w "[]"]
    no_dot_code [of v "''%2E''"] no_dot_code [of w "''%2E''"]
  have "path_escape v = path_escape w" by auto
  then show ?thesis by (rule path_escape_inj)
qed

lemma encodeSegment_fun: "encodeSegment k v = Inr e \<Longrightarrow> encodeSegment k' v = Inr e' \<Longrightarrow> e = e'"
  by (auto simp: encodeSegment_def Let_def split: if_splits)

lemma encodeSegment_clean:
  assumes "encodeSegment k v = Inr e"
  shows "CHR ''/'' \<notin> set e" and "e \<noteq> []"
proof -
  have "\<not> path_safe (CHR ''/'')" by code_simp
  then have "CHR ''/'' \<notin> set (path_escape v)" using path_escape_chars [of "CHR ''/''" v] by auto
  moreover from assms have "path_escape v \<noteq> []" by (cases v) (auto simp: encodeSegment_def)
  ultimately show "CHR ''/'' \<notin> set e" and "e \<noteq> []" using assms by (auto simp: encodeSegment_def Let_def split: if_splits)
qed

subsection \<open>Whose keys a prefix encloses\<close>

lemma has_prefix_simps [simp]:
  "has_prefix (p @ s) (p @ t) \<longleftrightarrow> has_prefix s t" "has_prefix (c # s) (d # t) \<longleftrightarrow> c = d \<and> has_prefix s t"
  "has_prefix s []" "has_prefix [] t \<longleftrightarrow> t = []"
  by (auto simp: has_prefix_iff)

lemma segment_eq:
  "CHR ''/'' \<notin> set e \<Longrightarrow> CHR ''/'' \<notin> set e' \<Longrightarrow> e' @ CHR ''/'' # t' = e @ CHR ''/'' # t \<longleftrightarrow> e = e' \<and> t' = t"
proof (induction e arbitrary: e')
  case Nil
  then show ?case by (cases e') auto
next
  case (Cons c e)
  then show ?case by (cases e') auto
qed

lemma prefix_segment:
  "CHR ''/'' \<notin> set e \<Longrightarrow> CHR ''/'' \<notin> set e'
   \<Longrightarrow> has_prefix (e' @ CHR ''/'' # t') (e @ CHR ''/'' # t) \<longleftrightarrow> e = e' \<and> has_prefix t' t"
  by (auto simp: has_prefix_iff segment_eq)

text \<open>The three forms of a root: a project reference, a namespace with a name, or a digest.\<close>

lemma NewRoots_cases:
  assumes "NewRoots digest ann ns nm tls = Inr r" and "NewRoots digest ann ns nm False = Inr u"
  obtains
    (project) e where "str_at ann AnnotationProjectRef \<noteq> []" "r = u"
      "encodeSegment ''project reference'' (str_at ann AnnotationProjectRef) = Inr e"
      "KeyPrefix r = rootPrefix @ ''/'' @ e @ ''/''"
  | (plain) e f where "str_at ann AnnotationProjectRef = []" "r = u" "encodeSegment ''namespace'' ns = Inr e"
      "encodeSegment ''cluster name'' nm = Inr f" "KeyPrefix r = rootPrefix @ ''/'' @ e @ ''/'' @ f @ ''/''"
  | (short) e f where "str_at ann AnnotationProjectRef = []" "r \<noteq> u" "encodeSegment ''namespace'' ns = Inr e"
      "encodeSegment ''cluster name'' nm = Inr f" "clusterRoot u = rootPrefix @ ''/'' @ e @ ''/'' @ f"
      "KeyPrefix r = rootPrefix @ ''-fallback/'' @ digest (clusterRoot u) @ ''/''"
proof (cases "str_at ann AnnotationProjectRef = []")
  case False
  with assms show ?thesis
    by (auto simp: NewRoots_def KeyPrefix_def Let_def split: sum.splits intro!: project)
next
  case True
  from assms(2) True obtain e where e: "encodeSegment ''namespace'' ns = Inr e"
    by (cases "encodeSegment ''namespace'' ns") (simp_all add: NewRoots_def Let_def)
  from assms(2) True e obtain f where f: "encodeSegment ''cluster name'' nm = Inr f"
    by (cases "encodeSegment ''cluster name'' nm") (simp_all add: NewRoots_def Let_def)
  define root where "root = rootPrefix @ ''/'' @ e @ ''/'' @ f"
  have roots: "NewRoots digest ann ns nm t = Inr \<lparr>clusterRoot =
      (if t \<and> maxTLSRootBytes < length root then rootPrefix @ ''-fallback/'' @ digest root else root)\<rparr>" for t
    by (simp add: NewRoots_def Let_def True e f root_def)
  have r: "r = \<lparr>clusterRoot = (if tls \<and> maxTLSRootBytes < length root then rootPrefix @ ''-fallback/'' @ digest root else root)\<rparr>"
    and u: "u = \<lparr>clusterRoot = root\<rparr>"
    using assms unfolding roots by simp_all
  show ?thesis
  proof (cases "r = u")
    case eq: True
    show ?thesis by (rule plain [OF True eq e f]) (simp add: eq u KeyPrefix_def root_def)
  next
    case False
    then have "clusterRoot r = rootPrefix @ ''-fallback/'' @ digest root" using r u by (auto split: if_splits)
    then show ?thesis using False by (intro short [OF True _ e f]) (simp_all add: KeyPrefix_def u root_def)
  qed
qed

text \<open>
  C37: which clusters' keys a cluster's key prefix reaches on a shared topology server: its own, and otherwise exactly
  those of a cluster without a project reference whose namespace is this cluster's project reference and whose root is
  not shortened. Two clusters with project references, or two without, never reach each other, unless the digest
  collides on their paths.
\<close>

theorem KeyPrefix_encloses_iff:
  assumes r: "NewRoots digest ann ns nm tls = Inr r" "NewRoots digest ann ns nm False = Inr u"
    and r': "NewRoots digest ann' ns' nm' tls' = Inr r'" "NewRoots digest ann' ns' nm' False = Inr u'"
    and plain: "\<And>x. CHR ''/'' \<notin> set (digest x)"
    and injective: "digest (clusterRoot u) = digest (clusterRoot u') \<Longrightarrow> clusterRoot u = clusterRoot u'"
  shows "has_prefix (KeyPrefix r') (KeyPrefix r) \<longleftrightarrow>
    (let ref = str_at ann AnnotationProjectRef; ref' = str_at ann' AnnotationProjectRef
     in if ref \<noteq> [] then ref' = ref \<or> ref' = [] \<and> ns' = ref \<and> r' = u'
        else ref' = [] \<and> ns' = ns \<and> nm' = nm \<and> (r = u \<longleftrightarrow> r' = u'))"
proof -
  have digests: "has_prefix (digest x @ [CHR ''/'']) (digest y @ [CHR ''/'']) \<longleftrightarrow> digest y = digest x" for x y
    using prefix_segment [OF plain plain, of x "[]" y "[]"] by simp
  have one: "has_prefix (e' @ [CHR ''/'']) (e @ [CHR ''/'']) \<longleftrightarrow> v = v'"
    and one_two: "has_prefix (e' @ CHR ''/'' # t) (e @ [CHR ''/'']) \<longleftrightarrow> v = v'"
    and two_one: "\<not> has_prefix (e' @ [CHR ''/'']) (e @ CHR ''/'' # f @ [CHR ''/''])"
    and two: "has_prefix (e' @ CHR ''/'' # t) (e @ CHR ''/'' # t') \<longleftrightarrow> v = v' \<and> has_prefix t t'"
    if "encodeSegment k v = Inr e" "encodeSegment k' v' = Inr e'" for k k' v v' e e' f t t'
    using prefix_segment [OF encodeSegment_clean(1) [OF that(1)] encodeSegment_clean(1) [OF that(2)]]
      encodeSegment_inj [of k v e k' v'] that by (auto dest: encodeSegment_fun)
  show ?thesis
    using r
  proof (cases rule: NewRoots_cases)
    case (project e)
    from r' show ?thesis
      by (cases rule: NewRoots_cases) (use project in \<open>auto simp: one one_two\<close>)
  next
    case (plain e f)
    from r' show ?thesis
      by (cases rule: NewRoots_cases) (use plain in \<open>auto simp: one two two_one\<close>)
  next
    case (short e f)
    from r' show ?thesis
    proof (cases rule: NewRoots_cases)
      case inner: (short e' f')
      have "has_prefix (KeyPrefix r') (KeyPrefix r) \<longleftrightarrow> digest (clusterRoot u) = digest (clusterRoot u')"
        using short(6) inner(6) digests by simp
      also have "\<dots> \<longleftrightarrow> clusterRoot u = clusterRoot u'" using injective by auto
      also have "\<dots> \<longleftrightarrow> ns' = ns \<and> nm' = nm"
        using short(3-5) inner(3-5) segment_eq [of e e' f' f] encodeSegment_clean(1)
        by (auto dest: encodeSegment_inj encodeSegment_fun)
      finally show ?thesis using short inner by simp
    qed (use short in simp_all)
  qed
qed

theorem KeyPrefix_encloses_iff_witness:
  "\<exists>r r'. NewRoots (\<lambda>x. replicate (length x) (CHR ''h'')) [AnnotationProjectRef \<mapsto> ''team''] ''a'' ''b'' True = Inr r
     \<and> NewRoots (\<lambda>x. replicate (length x) (CHR ''h'')) Map.empty ''team'' ''db'' True = Inr r'
     \<and> has_prefix (KeyPrefix r') (KeyPrefix r)"
proof -
  let ?d = "\<lambda>x. replicate (length x) (CHR ''h'')"
  have r: "NewRoots ?d [AnnotationProjectRef \<mapsto> ''team''] ''a'' ''b'' True = Inr \<lparr>clusterRoot = ''/multigres/team''\<rparr>"
    "NewRoots ?d [AnnotationProjectRef \<mapsto> ''team''] ''a'' ''b'' False = Inr \<lparr>clusterRoot = ''/multigres/team''\<rparr>"
    by code_simp+
  have r': "NewRoots ?d Map.empty ''team'' ''db'' True = Inr \<lparr>clusterRoot = ''/multigres/team/db''\<rparr>"
    "NewRoots ?d Map.empty ''team'' ''db'' False = Inr \<lparr>clusterRoot = ''/multigres/team/db''\<rparr>"
    by code_simp+
  show ?thesis using KeyPrefix_encloses_iff [OF r r'] r r' by (auto simp: str_at_def)
qed

text \<open>Within a cluster the roots of different cells are apart, and only a cell named \<^verbatim>\<open>global\<close> meets the global root.\<close>

lemma Cell_root_disjoint:
  assumes "Cell_root r c = Inr x" and "Cell_root r c' = Inr x'"
  shows "has_prefix (x' @ ''/'') (x @ ''/'') \<longleftrightarrow> c = c'"
  using assms encodeSegment_inj prefix_segment [OF encodeSegment_clean(1) encodeSegment_clean(1)]
  by (auto simp: Cell_root_def split: sum.splits)

lemma Cell_root_global: "Cell_root r c = Inr (Global_root r) \<longleftrightarrow> c = ''global''"
proof -
  have "encodeSegment ''cell name'' ''global'' = Inr ''global''" by code_simp
  then show ?thesis
    using encodeSegment_inj [of "''cell name''" c "''global''" "''cell name''" "''global''"]
    by (auto simp: Cell_root_def Global_root_def split: sum.splits)
qed

end
