(* ===== verification/Resolver.thy ===== *)
theory Resolver
  imports Config_Layers Topo_Roots
begin

text \<open>
  Resolution of a shard (\<^verbatim>\<open>pkg/resolver/shard.go\<close>, \<^verbatim>\<open>resolver.go\<close>, \<^verbatim>\<open>defaults.go\<close>) and the merge of backup settings
  (\<^verbatim>\<open>api/v1alpha1/common_types.go\<close>): template, overrides and inline specification are laid over one another, then defaults
  fill what is left open. Reading a template is an argument; the cache of one request is modelled.
\<close>

subsection \<open>Backups\<close>

record fs_backup =
  fb_path :: string
  fb_storage :: storage_spec

record s3_backup =
  s3_bucket :: string
  s3_region :: string
  s3_endpoint :: string
  s3_key_prefix :: string
  s3_use_env :: bool
  s3_credentials :: string
  s3_service_account :: string

record backup_config =
  bc_type :: string
  bc_filesystem :: "fs_backup option"
  bc_s3 :: "s3_backup option"
  bc_tls :: "string option"
  bc_encryption :: "string option"

abbreviation TypeFilesystem :: string where "TypeFilesystem \<equiv> ''filesystem''"
abbreviation TypeS3 :: string where "TypeS3 \<equiv> ''s3''"

definition empty_fs :: fs_backup where "empty_fs = \<lparr>fb_path = [], fb_storage = empty_storage\<rparr>"

definition empty_s3 :: s3_backup where
  "empty_s3 = \<lparr>s3_bucket = [], s3_region = [], s3_endpoint = [], s3_key_prefix = [], s3_use_env = False,
     s3_credentials = [], s3_service_account = []\<rparr>"

definition merge_fs :: "fs_backup \<Rightarrow> fs_backup \<Rightarrow> fs_backup" where
  "merge_fs merged child =
     \<lparr>fb_path = set_list (fb_path merged) (fb_path child), fb_storage = merge_storage (fb_storage merged) (fb_storage child)\<rparr>"

definition merge_s3 :: "s3_backup \<Rightarrow> s3_backup \<Rightarrow> s3_backup" where
  "merge_s3 merged child =
     \<lparr>s3_bucket = set_list (s3_bucket merged) (s3_bucket child), s3_region = set_list (s3_region merged) (s3_region child),
      s3_endpoint = set_list (s3_endpoint merged) (s3_endpoint child),
      s3_key_prefix = set_list (s3_key_prefix merged) (s3_key_prefix child), s3_use_env = s3_use_env child,
      s3_credentials = set_list (s3_credentials merged) (s3_credentials child),
      s3_service_account = set_list (s3_service_account merged) (s3_service_account child)\<rparr>"

text \<open>The block of the chosen type is created when absent, then takes what the child sets.\<close>

definition fill_block :: "('a \<Rightarrow> 'a \<Rightarrow> 'a) \<Rightarrow> 'a \<Rightarrow> 'a option \<Rightarrow> 'a option \<Rightarrow> 'a option" where
  "fill_block f e parent child =
     (let merged = (case parent of None \<Rightarrow> e | Some p \<Rightarrow> p)
      in Some (case child of None \<Rightarrow> merged | Some c \<Rightarrow> f merged c))"

definition merge_details :: "backup_config \<Rightarrow> backup_config \<Rightarrow> backup_config" where
  "merge_details c p =
     (let t = (if bc_type c \<noteq> [] then bc_type c else bc_type p)
      in \<lparr>bc_type = t,
          bc_filesystem = (if t = TypeFilesystem
            then fill_block merge_fs empty_fs (bc_filesystem p) (bc_filesystem c) else bc_filesystem p),
          bc_s3 = (if t = TypeS3 then fill_block merge_s3 empty_s3 (bc_s3 p) (bc_s3 c) else bc_s3 p),
          bc_tls = (case bc_tls c of None \<Rightarrow> bc_tls p | Some x \<Rightarrow> Some x),
          bc_encryption = (case bc_encryption c of None \<Rightarrow> bc_encryption p | Some x \<Rightarrow> Some x)\<rparr>)"

definition MergeBackupConfig :: "backup_config option \<Rightarrow> backup_config option \<Rightarrow> backup_config option" where
  "MergeBackupConfig child parent =
     (case (child, parent) of
        (None, None) \<Rightarrow> None
      | (None, Some p) \<Rightarrow> Some p
      | (Some c, None) \<Rightarrow> Some c
      | (Some c, Some p) \<Rightarrow>
          if bc_type c \<noteq> [] \<and> bc_type c \<noteq> bc_type p then Some c else Some (merge_details c p))"

definition MergeDurabilityPolicy :: "string \<Rightarrow> string \<Rightarrow> string" where
  "MergeDurabilityPolicy child parent = (if child \<noteq> [] then child else parent)"

subsection \<open>Defaults\<close>

definition DefaultEtcdReplicas :: int where "DefaultEtcdReplicas = 3"
definition DefaultAdminReplicas :: int where "DefaultAdminReplicas = 1"
definition DefaultMultiadminWebReplicas :: int where "DefaultMultiadminWebReplicas = 1"
definition DefaultPoolReplicasPerCell :: int where "DefaultPoolReplicasPerCell = 1"
definition DefaultPoolName :: string where "DefaultPoolName = ''default''"
definition DefaultBackupPath :: string where "DefaultBackupPath = ''/backups''"
definition DefaultBackupStorageSize :: string where "DefaultBackupStorageSize = ''10Gi''"
definition DefaultEtcdStorageSize :: string where "DefaultEtcdStorageSize = ''1Gi''"
definition FallbackTemplate :: string where "FallbackTemplate = ''default''"
definition ModeLite :: string where "ModeLite = ''lite''"

definition default_resources :: "string \<Rightarrow> string \<Rightarrow> string \<Rightarrow> resources" where
  "default_resources cpu memory limit =
     \<lparr>r_requests = Some [(''cpu'', cpu), (''memory'', memory)], r_limits = Some [(''memory'', limit)], r_claims = None\<rparr>"

definition DefaultResourcesAdmin :: resources where "DefaultResourcesAdmin = default_resources ''100m'' ''128Mi'' ''256Mi''"
definition DefaultResourcesEtcd :: resources where "DefaultResourcesEtcd = default_resources ''100m'' ''256Mi'' ''512Mi''"
definition DefaultResourcesGateway :: resources where "DefaultResourcesGateway = default_resources ''100m'' ''128Mi'' ''256Mi''"
definition DefaultResourcesOrch :: resources where "DefaultResourcesOrch = default_resources ''50m'' ''64Mi'' ''128Mi''"
definition DefaultResourcesPostgres :: resources where "DefaultResourcesPostgres = default_resources ''100m'' ''256Mi'' ''512Mi''"
definition DefaultResourcesPooler :: resources where "DefaultResourcesPooler = default_resources ''100m'' ''128Mi'' ''256Mi''"
definition DefaultResourcesAdminWeb :: resources where "DefaultResourcesAdminWeb = default_resources ''50m'' ''64Mi'' ''128Mi''"

definition or_default :: "'a \<Rightarrow> 'a option \<Rightarrow> 'a option" where
  "or_default d x = (case x of None \<Rightarrow> Some d | Some v \<Rightarrow> Some v)"

definition or_text :: "string \<Rightarrow> string \<Rightarrow> string" where
  "or_text d s = (if s = [] then d else s)"

definition or_resources :: "resources \<Rightarrow> resources \<Rightarrow> resources" where
  "or_resources d res = (if isResourcesZero res then d else res)"

definition defaultStatelessSpec :: "stateless_spec \<Rightarrow> resources \<Rightarrow> int \<Rightarrow> stateless_spec" where
  "defaultStatelessSpec spec defaultRes defaultReplicas =
     spec\<lparr>sl_replicas := or_default defaultReplicas (sl_replicas spec),
          sl_resources := or_resources defaultRes (sl_resources spec)\<rparr>"

definition defaultPoolSpec :: "pool_spec \<Rightarrow> pool_spec" where
  "defaultPoolSpec spec =
     spec\<lparr>ps_replicas_per_cell := or_default DefaultPoolReplicasPerCell (ps_replicas_per_cell spec),
          ps_storage := (ps_storage spec)\<lparr>st_size := or_text DefaultEtcdStorageSize (st_size (ps_storage spec))\<rparr>,
          ps_postgres := (ps_postgres spec)\<lparr>cc_resources := or_resources DefaultResourcesPostgres (cc_resources (ps_postgres spec))\<rparr>,
          ps_multipooler := (ps_multipooler spec)\<lparr>cc_resources := or_resources DefaultResourcesPooler (cc_resources (ps_multipooler spec))\<rparr>\<rparr>"

definition default_fs :: "fs_backup \<Rightarrow> fs_backup" where
  "default_fs f =
     f\<lparr>fb_path := or_text DefaultBackupPath (fb_path f),
       fb_storage := (fb_storage f)\<lparr>st_size := or_text DefaultBackupStorageSize (st_size (fb_storage f))\<rparr>\<rparr>"

definition defaultBackupConfig :: "backup_config \<Rightarrow> backup_config" where
  "defaultBackupConfig cfg0 =
     (let cfg = cfg0\<lparr>bc_type := or_text TypeFilesystem (bc_type cfg0)\<rparr>
      in if bc_type cfg = TypeFilesystem
         then cfg\<lparr>bc_filesystem := Some (default_fs (case bc_filesystem cfg of None \<Rightarrow> empty_fs | Some f \<Rightarrow> f))\<rparr>
         else cfg)"

subsection \<open>The layers of a shard\<close>

record shard_template =
  ts_multiorch :: "multiorch_spec option"
  ts_initdb_args :: string
  ts_config_ref :: "(string \<times> string) option"
  ts_config :: "(string, string) fmap"
  ts_pools :: pool_map
  ts_pvc_deletion_policy :: "pvc_deletion_policy option"

record shard_overrides =
  so_multiorch :: "multiorch_spec option"
  so_initdb_args :: string
  so_config_ref :: "(string \<times> string) option"
  so_config :: "(string, string) fmap"
  so_pools :: pool_map

record shard_inline =
  si_multiorch :: multiorch_spec
  si_initdb_args :: string
  si_config_ref :: "(string \<times> string) option"
  si_config :: "(string, string) fmap"
  si_pools :: pool_map
  si_pvc_deletion_policy :: "pvc_deletion_policy option"

record shard_config =
  sc_name :: string
  sc_template :: string
  sc_overrides :: "shard_overrides option"
  sc_spec :: "shard_inline option"
  sc_backup :: "backup_config option"

record resolved_shard =
  rs_multiorch :: multiorch_spec
  rs_pools :: pool_map
  rs_pvc_deletion_policy :: "pvc_deletion_policy option"
  rs_backup :: "backup_config option"
  rs_initdb_args :: string
  rs_config_ref :: "(string \<times> string) option"
  rs_config :: "(string, string) fmap"

definition empty_template :: shard_template where
  "empty_template = \<lparr>ts_multiorch = None, ts_initdb_args = [], ts_config_ref = None, ts_config = fmempty,
     ts_pools = fmempty, ts_pvc_deletion_policy = None\<rparr>"

definition start_from_template :: "backup_config option \<Rightarrow> shard_template \<Rightarrow> resolved_shard" where
  "start_from_template inheritedBackup tpl =
     \<lparr>rs_multiorch = (case ts_multiorch tpl of None \<Rightarrow> empty_multiorch | Some m \<Rightarrow> m),
      rs_pools = ts_pools tpl, rs_pvc_deletion_policy = ts_pvc_deletion_policy tpl, rs_backup = inheritedBackup,
      rs_initdb_args = ts_initdb_args tpl, rs_config_ref = ts_config_ref tpl,
      rs_config = mergePostgresConfig fmempty (ts_config tpl)\<rparr>"

definition apply_overrides :: "shard_overrides \<Rightarrow> resolved_shard \<Rightarrow> resolved_shard" where
  "apply_overrides ovr res =
     res\<lparr>rs_multiorch := (case so_multiorch ovr of None \<Rightarrow> rs_multiorch res | Some m \<Rightarrow> mergeMultiorchSpec (rs_multiorch res) m),
         rs_pools := merge_pools (rs_pools res) (so_pools ovr),
         rs_initdb_args := set_list (rs_initdb_args res) (so_initdb_args ovr),
         rs_config_ref := set_opt (rs_config_ref res) (so_config_ref ovr),
         rs_config := mergePostgresConfig (rs_config res) (so_config ovr)\<rparr>"

definition apply_inline :: "shard_inline \<Rightarrow> resolved_shard \<Rightarrow> resolved_shard" where
  "apply_inline inl res =
     res\<lparr>rs_multiorch := mergeMultiorchSpec (rs_multiorch res) (si_multiorch inl),
         rs_pools := merge_pools (rs_pools res) (si_pools inl),
         rs_pvc_deletion_policy := set_opt (rs_pvc_deletion_policy res) (si_pvc_deletion_policy inl),
         rs_initdb_args := set_list (rs_initdb_args res) (si_initdb_args inl),
         rs_config_ref := set_opt (rs_config_ref res) (si_config_ref inl),
         rs_config := mergePostgresConfig (rs_config res) (si_config inl)\<rparr>"

definition mergeShardConfig ::
  "shard_template \<Rightarrow> shard_overrides option \<Rightarrow> shard_inline option \<Rightarrow> backup_config option \<Rightarrow> backup_config option \<Rightarrow> resolved_shard" where
  "mergeShardConfig tpl overrides inline backupOverride inheritedBackup =
     (let res = start_from_template inheritedBackup tpl;
          res = (case overrides of None \<Rightarrow> res | Some ovr \<Rightarrow> apply_overrides ovr res);
          res = (case inline of None \<Rightarrow> res | Some inl \<Rightarrow> apply_inline inl res)
      in case backupOverride of
           None \<Rightarrow> res
         | Some b \<Rightarrow> res\<lparr>rs_backup := MergeBackupConfig (Some b) (rs_backup res)\<rparr>)"

subsection \<open>Resolution\<close>

record resolve_options =
  ro_cells :: "string list"
  ro_backup :: "backup_config option"
  ro_materialize :: bool
  ro_mode :: string

definition inject_cells :: "resolve_options \<Rightarrow> string list \<Rightarrow> string list" where
  "inject_cells opts cells = (if ro_materialize opts \<and> cells = [] \<and> ro_cells opts \<noteq> [] then sort (ro_cells opts) else cells)"

definition resolve_pool :: "resolve_options \<Rightarrow> pool_spec \<Rightarrow> pool_spec" where
  "resolve_pool opts p0 =
     (let p = p0\<lparr>ps_cells := inject_cells opts (ps_cells p0)\<rparr>;
          effectiveCells = (if ps_cells p = [] then length (ro_cells opts) else length (ps_cells p));
          p = (if ps_replicas_per_cell p = None \<and> ro_mode opts \<noteq> ModeLite \<and> effectiveCells = 1
               then p\<lparr>ps_replicas_per_cell := Some 2\<rparr> else p)
      in defaultPoolSpec p)"

text \<open>Everything after the template was fetched.\<close>

definition resolve_from :: "shard_template \<Rightarrow> shard_config \<Rightarrow> resolve_options \<Rightarrow> resolved_shard" where
  "resolve_from tpl spec opts =
     (let res = mergeShardConfig tpl (sc_overrides spec) (sc_spec spec) (sc_backup spec) (ro_backup opts);
          orch = rs_multiorch res;
          orch = (if ro_mode opts = ModeLite then orch
                  else orch\<lparr>mo_stateless := defaultStatelessSpec (mo_stateless orch) DefaultResourcesOrch 1\<rparr>);
          backup = (case rs_backup res of
                      None \<Rightarrow> \<lparr>bc_type = TypeFilesystem, bc_filesystem = None, bc_s3 = None, bc_tls = None, bc_encryption = None\<rparr>
                    | Some b \<Rightarrow> b);
          orch = orch\<lparr>mo_cells := inject_cells opts (mo_cells orch)\<rparr>;
          pools = (if rs_pools res = fmempty
                   then fmupd DefaultPoolName (empty_pool\<lparr>ps_type := ''readWrite'', ps_cells := mo_cells orch\<rparr>) fmempty
                   else rs_pools res)
      in res\<lparr>rs_multiorch := orch, rs_backup := Some (defaultBackupConfig backup),
             rs_pools := fmmap (resolve_pool opts) pools\<rparr>)"

subsection \<open>Templates and their cache\<close>

datatype resolve_error =
    TemplateNotFound string | GetTemplateFailed api_error
  | RootFailed root_error | MaintenanceInvalid string

text \<open>
  \<^verbatim>\<open>ResolveShardTemplate\<close>, \<^verbatim>\<open>ResolveCellTemplate\<close> and \<^verbatim>\<open>ResolveCoreTemplate\<close> differ only in the kind they fetch: no name
  means the fallback, a template that was read is kept for the rest of the request, and only the fallback may be missing.
\<close>

definition resolve_template ::
  "(string \<Rightarrow> api_error + 'a) \<Rightarrow> 'a \<Rightarrow> string \<Rightarrow> (string \<Rightarrow> 'a option) \<Rightarrow> (resolve_error + 'a) \<times> (string \<Rightarrow> 'a option)" where
  "resolve_template get blank name cache =
     (let resolvedName = (if name = [] then FallbackTemplate else name)
      in case cache resolvedName of
           Some t \<Rightarrow> (Inr t, cache)
         | None \<Rightarrow>
             (case get resolvedName of
                Inl err \<Rightarrow>
                  ((if err = NotFound
                    then if resolvedName = FallbackTemplate then Inr blank else Inl (TemplateNotFound resolvedName)
                    else Inl (GetTemplateFailed err)), cache)
              | Inr t \<Rightarrow> (Inr t, cache(resolvedName \<mapsto> t))))"

type_synonym 'a template_getter = "string \<Rightarrow> api_error + 'a"

definition ResolveShardTemplate ::
  "shard_template template_getter \<Rightarrow> string \<Rightarrow> (string \<Rightarrow> shard_template option)
   \<Rightarrow> (resolve_error + shard_template) \<times> (string \<Rightarrow> shard_template option)" where
  "ResolveShardTemplate get = resolve_template get empty_template"

definition ResolveShard ::
  "shard_template template_getter \<Rightarrow> shard_config \<Rightarrow> resolve_options \<Rightarrow> (string \<Rightarrow> shard_template option)
   \<Rightarrow> (resolve_error + resolved_shard) \<times> (string \<Rightarrow> shard_template option)" where
  "ResolveShard get shardSpec opts cache =
     (case ResolveShardTemplate get (sc_template shardSpec) cache of
        (Inl err, cache') \<Rightarrow> (Inl err, cache')
      | (Inr tpl, cache') \<Rightarrow> (Inr (resolve_from tpl shardSpec opts), cache'))"

text \<open>A cache only holds what the server answers; then a lookup gives what a lookup without a cache would.\<close>

definition cache_true :: "'a template_getter \<Rightarrow> (string \<Rightarrow> 'a option) \<Rightarrow> bool" where
  "cache_true get cache \<longleftrightarrow> (\<forall>n t. cache n = Some t \<longrightarrow> get n = Inr t)"

definition find_template :: "'a template_getter \<Rightarrow> 'a \<Rightarrow> string \<Rightarrow> resolve_error + 'a" where
  "find_template get blank name = fst (resolve_template get blank name Map.empty)"

lemma resolve_template_cached:
  assumes "cache_true get cache"
  shows "fst (resolve_template get blank name cache) = find_template get blank name"
    and "cache_true get (snd (resolve_template get blank name cache))"
proof -
  let ?n = "if name = [] then FallbackTemplate else name"
  have hit: "cache ?n = Some t \<Longrightarrow> get ?n = Inr t" for t using assms unfolding cache_true_def by blast
  show "fst (resolve_template get blank name cache) = find_template get blank name"
    using hit unfolding find_template_def resolve_template_def Let_def
    by (cases "cache ?n"; cases "get ?n"; simp del: if_split)
  show "cache_true get (snd (resolve_template get blank name cache))"
    using assms unfolding resolve_template_def Let_def
    by (cases "cache ?n"; cases "get ?n"; simp del: if_split; auto simp: cache_true_def)
qed

lemma cache_true_empty [simp]: "cache_true get Map.empty"
  by (simp add: cache_true_def)

definition resolve_shard :: "shard_template template_getter \<Rightarrow> shard_config \<Rightarrow> resolve_options \<Rightarrow> resolve_error + resolved_shard" where
  "resolve_shard get spec opts = map_sum id (\<lambda>tpl. resolve_from tpl spec opts) (find_template get empty_template (sc_template spec))"

lemma ResolveShard_cached:
  assumes "cache_true get cache"
  shows "fst (ResolveShard get spec opts cache) = resolve_shard get spec opts"
    and "cache_true get (snd (ResolveShard get spec opts cache))"
  using resolve_template_cached [OF assms, of empty_template "sc_template spec"]
  by (cases "resolve_template get empty_template (sc_template spec) cache";
      cases "find_template get empty_template (sc_template spec)";
      simp add: ResolveShard_def ResolveShardTemplate_def resolve_shard_def)+

subsection \<open>The layers as one fold\<close>

record shard_layer =
  ly_multiorch :: multiorch_spec
  ly_pools :: pool_map
  ly_initdb_args :: string
  ly_config_ref :: "(string \<times> string) option"
  ly_config :: "(string, string) fmap"
  ly_pvc_deletion_policy :: "pvc_deletion_policy option"

definition empty_layer :: shard_layer where
  "empty_layer = \<lparr>ly_multiorch = empty_multiorch, ly_pools = fmempty, ly_initdb_args = [], ly_config_ref = None,
     ly_config = fmempty, ly_pvc_deletion_policy = None\<rparr>"

definition merge_layer :: "shard_layer \<Rightarrow> shard_layer \<Rightarrow> shard_layer" where
  "merge_layer a b =
     \<lparr>ly_multiorch = mergeMultiorchSpec (ly_multiorch a) (ly_multiorch b), ly_pools = merge_pools (ly_pools a) (ly_pools b),
      ly_initdb_args = set_list (ly_initdb_args a) (ly_initdb_args b),
      ly_config_ref = set_opt (ly_config_ref a) (ly_config_ref b),
      ly_config = mergePostgresConfig (ly_config a) (ly_config b),
      ly_pvc_deletion_policy = set_opt (ly_pvc_deletion_policy a) (ly_pvc_deletion_policy b)\<rparr>"

lemmas shard_laws = field_laws multiorch.merge_assoc multiorch.empty_left multiorch.empty_right multiorch.absorb
  pools.merge_assoc pools.empty_left pools.empty_right pools.absorb
  postgres_config.merge_assoc postgres_config.empty_left postgres_config.empty_right postgres_config.absorb

interpretation layer: overlay merge_layer empty_layer
  by unfold_locales (simp_all add: merge_layer_def empty_layer_def shard_laws)

definition template_layer :: "shard_template \<Rightarrow> shard_layer" where
  "template_layer t =
     \<lparr>ly_multiorch = (case ts_multiorch t of None \<Rightarrow> empty_multiorch | Some m \<Rightarrow> m), ly_pools = ts_pools t,
      ly_initdb_args = ts_initdb_args t, ly_config_ref = ts_config_ref t, ly_config = ts_config t,
      ly_pvc_deletion_policy = ts_pvc_deletion_policy t\<rparr>"

definition overrides_layer :: "shard_overrides \<Rightarrow> shard_layer" where
  "overrides_layer t =
     \<lparr>ly_multiorch = (case so_multiorch t of None \<Rightarrow> empty_multiorch | Some m \<Rightarrow> m), ly_pools = so_pools t,
      ly_initdb_args = so_initdb_args t, ly_config_ref = so_config_ref t, ly_config = so_config t,
      ly_pvc_deletion_policy = None\<rparr>"

definition inline_layer :: "shard_inline \<Rightarrow> shard_layer" where
  "inline_layer t =
     \<lparr>ly_multiorch = si_multiorch t, ly_pools = si_pools t, ly_initdb_args = si_initdb_args t,
      ly_config_ref = si_config_ref t, ly_config = si_config t, ly_pvc_deletion_policy = si_pvc_deletion_policy t\<rparr>"

definition resolved_layer :: "resolved_shard \<Rightarrow> shard_layer" where
  "resolved_layer t =
     \<lparr>ly_multiorch = rs_multiorch t, ly_pools = rs_pools t, ly_initdb_args = rs_initdb_args t,
      ly_config_ref = rs_config_ref t, ly_config = rs_config t, ly_pvc_deletion_policy = rs_pvc_deletion_policy t\<rparr>"

definition layer_or :: "('a \<Rightarrow> shard_layer) \<Rightarrow> 'a option \<Rightarrow> shard_layer" where
  "layer_or f x = (case x of None \<Rightarrow> empty_layer | Some v \<Rightarrow> f v)"

lemma merge_shard_layers:
  "resolved_layer (mergeShardConfig tpl ovr inl backupOverride inherited) =
     merge_layer (merge_layer (template_layer tpl) (layer_or overrides_layer ovr)) (layer_or inline_layer inl)
   \<and> rs_backup (mergeShardConfig tpl ovr inl backupOverride inherited) = MergeBackupConfig backupOverride inherited"
proof -
  have start: "resolved_layer (start_from_template b tpl) = template_layer tpl" for b
    by (simp add: resolved_layer_def start_from_template_def template_layer_def shard_laws)
  have over: "resolved_layer (apply_overrides o' r) = merge_layer (resolved_layer r) (overrides_layer o')" for o' r
    by (simp add: resolved_layer_def apply_overrides_def overrides_layer_def merge_layer_def shard_laws split: option.split)
  have inline: "resolved_layer (apply_inline i r) = merge_layer (resolved_layer r) (inline_layer i)" for i r
    by (simp add: resolved_layer_def apply_inline_def inline_layer_def merge_layer_def)
  have backup: "resolved_layer (r\<lparr>rs_backup := x\<rparr>) = resolved_layer r" for r x by (simp add: resolved_layer_def)
  have b: "rs_backup (start_from_template x tpl) = x" "rs_backup (apply_overrides o' r) = rs_backup r"
    "rs_backup (apply_inline i r) = rs_backup r" for x o' i r
    by (simp_all add: start_from_template_def apply_overrides_def apply_inline_def)
  have none: "MergeBackupConfig None p = p" for p by (simp add: MergeBackupConfig_def split: option.split)
  show ?thesis
    by (cases ovr; cases inl; cases backupOverride)
      (simp_all add: mergeShardConfig_def layer_or_def start over inline backup b none layer.empty_right)
qed

subsection \<open>The topmost layer wins\<close>

text \<open>
  What the merge is to achieve, said without the merge functions: a field takes the value of the topmost layer that sets it,
  and is unset when no layer sets it. The layers are listed from the bottom to the top.
\<close>

definition topmost :: "'a \<Rightarrow> 'a list \<Rightarrow> 'a" where
  "topmost unset xs = (case filter (\<lambda>x. x \<noteq> unset) (rev xs) of [] \<Rightarrow> unset | x # _ \<Rightarrow> x)"

definition list_of :: "'a option \<Rightarrow> 'a list" where
  "list_of x = (case x of None \<Rightarrow> [] | Some v \<Rightarrow> [v])"

definition layers :: "'a \<Rightarrow> ('b \<Rightarrow> 'a) \<Rightarrow> 'b option \<Rightarrow> ('c \<Rightarrow> 'a) \<Rightarrow> 'c option \<Rightarrow> 'a list" where
  "layers bottom f overrides g inline = bottom # map f (list_of overrides) @ map g (list_of inline)"

lemma topmost_simps [simp]:
  "topmost d [] = d" "topmost d (xs @ [x]) = (if x = d then topmost d xs else x)" "topmost d [x] = x"
  "topmost d [x, y] = (if y = d then x else y)" "topmost d [x, y, z] = (if z = d then if y = d then x else y else z)"
  by (simp_all add: topmost_def)

lemma list_of_simps [simp]: "list_of None = []" "list_of (Some v) = [v]"
  by (simp_all add: list_of_def)

definition container_topmost :: "container_config list \<Rightarrow> container_config \<Rightarrow> bool" where
  "container_topmost cs c \<longleftrightarrow>
     cc_resources c = topmost zero_resources (map cc_resources cs)
     \<and> cc_run_as_user c = topmost None (map cc_run_as_user cs) \<and> cc_run_as_group c = topmost None (map cc_run_as_group cs)"

definition pool_topmost :: "pool_spec list \<Rightarrow> pool_spec \<Rightarrow> bool" where
  "pool_topmost ps p \<longleftrightarrow>
     ps_type p = topmost [] (map ps_type ps) \<and> ps_cells p = topmost [] (map ps_cells ps)
     \<and> ps_replicas_per_cell p = topmost None (map ps_replicas_per_cell ps)
     \<and> st_size (ps_storage p) = topmost [] (map (st_size \<circ> ps_storage) ps)
     \<and> st_class (ps_storage p) = topmost [] (map (st_class \<circ> ps_storage) ps)
     \<and> st_access_modes (ps_storage p) = topmost [] (map (st_access_modes \<circ> ps_storage) ps)
     \<and> container_topmost (map ps_postgres ps) (ps_postgres p) \<and> container_topmost (map ps_multipooler ps) (ps_multipooler p)
     \<and> ps_affinity p = topmost None (map ps_affinity ps) \<and> ps_tolerations p = topmost [] (map ps_tolerations ps)
     \<and> ps_fs_group p = topmost None (map ps_fs_group ps)
     \<and> ps_pvc_deletion_policy p = topmost None (map ps_pvc_deletion_policy ps)"

definition multiorch_topmost :: "multiorch_spec list \<Rightarrow> multiorch_spec \<Rightarrow> bool" where
  "multiorch_topmost ms m \<longleftrightarrow>
     mo_cells m = topmost [] (map mo_cells ms) \<and> mo_placement m = topmost None (map mo_placement ms)
     \<and> sl_replicas (mo_stateless m) = topmost None (map (sl_replicas \<circ> mo_stateless) ms)
     \<and> sl_resources (mo_stateless m) = topmost zero_resources (map (sl_resources \<circ> mo_stateless) ms)
     \<and> sl_affinity (mo_stateless m) = topmost None (map (sl_affinity \<circ> mo_stateless) ms)
     \<and> (\<forall>k. sl_annotations (mo_stateless m) k = topmost None (map (\<lambda>m. sl_annotations (mo_stateless m) k) ms))
     \<and> (\<forall>k. sl_labels (mo_stateless m) k = topmost None (map (\<lambda>m. sl_labels (mo_stateless m) k) ms))"

lemma container_topmost_snoc:
  "container_topmost cs c \<Longrightarrow> container_topmost (cs @ [d]) (merge_container c d)"
  by (auto simp: container_topmost_def merge_container_def set_resources_def isResourcesZero_iff set_opt_def)

lemma pool_topmost_snoc: "pool_topmost ps p \<Longrightarrow> pool_topmost (ps @ [q]) (mergePoolSpec p q)"
  by (auto simp: pool_topmost_def mergePoolSpec_def merge_storage_def set_list_def set_opt_def container_topmost_snoc)

lemma pool_topmost_single: "pool_topmost [p] p"
  by (simp add: pool_topmost_def container_topmost_def)

lemma multiorch_topmost_snoc: "multiorch_topmost ms m \<Longrightarrow> multiorch_topmost (ms @ [n]) (mergeMultiorchSpec m n)"
  by (auto simp: multiorch_topmost_def mergeMultiorchSpec_def mergeStatelessSpec_def mergePodPlacementSpec_eq set_list_def
      set_opt_def set_resources_def isResourcesZero_iff map_add_def split: option.split)

lemma multiorch_topmost_Nil: "multiorch_topmost [] empty_multiorch"
  by (simp add: multiorch_topmost_def empty_multiorch_def empty_stateless_def)

definition pool_at :: "pool_spec list \<Rightarrow> pool_spec option \<Rightarrow> bool" where
  "pool_at ps x = (case x of None \<Rightarrow> ps = [] | Some p \<Rightarrow> ps \<noteq> [] \<and> pool_topmost ps p)"

lemma pool_at_merge:
  "pool_at ps (fmlookup m n) \<Longrightarrow> pool_at (ps @ list_of (fmlookup m' n)) (fmlookup (merge_pools m m') n)"
  by (auto simp: pool_at_def lookup_merge_fmap pool_topmost_snoc pool_topmost_single split: option.splits)

lemma pool_at_start: "pool_at (list_of x) x"
  by (cases x) (simp_all add: pool_at_def pool_topmost_single)

text \<open>
  C33: in the merged configuration of a shard the topmost layer that sets a field wins, the template being at the bottom, the
  overrides over it and the inline specification on top: for each of the shard's own fields, for each setting of PostgreSQL, for
  each field of the multiorch (annotations and labels key by key), and for each pool by name, down to the size of its storage
  and the users and resources of its containers. A pool exists exactly when a layer names it.
\<close>

theorem mergeShardConfig_layers:
  fixes tpl overrides inline backup inherited
  defines "res \<equiv> mergeShardConfig tpl overrides inline backup inherited"
  shows "rs_initdb_args res = topmost [] (layers (ts_initdb_args tpl) so_initdb_args overrides si_initdb_args inline)
    \<and> rs_config_ref res = topmost None (layers (ts_config_ref tpl) so_config_ref overrides si_config_ref inline)
    \<and> rs_pvc_deletion_policy res = topmost None (ts_pvc_deletion_policy tpl # map si_pvc_deletion_policy (list_of inline))
    \<and> (\<forall>key. fmlookup (rs_config res) key = topmost None (layers (fmlookup (ts_config tpl) key)
          (\<lambda>l. fmlookup (so_config l) key) overrides (\<lambda>l. fmlookup (si_config l) key) inline))
    \<and> multiorch_topmost (concat (layers (list_of (ts_multiorch tpl))
          (\<lambda>l. list_of (so_multiorch l)) overrides (\<lambda>l. [si_multiorch l]) inline)) (rs_multiorch res)
    \<and> (\<forall>name. pool_at (concat (layers (list_of (fmlookup (ts_pools tpl) name))
          (\<lambda>l. list_of (fmlookup (so_pools l) name)) overrides (\<lambda>l. list_of (fmlookup (si_pools l) name)) inline))
          (fmlookup (rs_pools res) name))"
proof -
  let ?start = "start_from_template inherited tpl"
  let ?mid = "case overrides of None \<Rightarrow> ?start | Some ovr \<Rightarrow> apply_overrides ovr ?start"
  let ?orchs = "list_of (ts_multiorch tpl)" and ?pools = "\<lambda>name. list_of (fmlookup (ts_pools tpl) name)"
  have start: "multiorch_topmost ?orchs (rs_multiorch ?start)" "pool_at (?pools name) (fmlookup (rs_pools ?start) name)" for name
    using multiorch_topmost_snoc [OF multiorch_topmost_Nil]
    by (auto simp: start_from_template_def multiorch_topmost_Nil multiorch.empty_left pool_at_start split: option.split)
  have mid: "multiorch_topmost (?orchs @ concat (map (\<lambda>l. list_of (so_multiorch l)) (list_of overrides))) (rs_multiorch ?mid)"
    "pool_at (?pools name @ concat (map (\<lambda>l. list_of (fmlookup (so_pools l) name)) (list_of overrides))) (fmlookup (rs_pools ?mid) name)"
    for name
    using start multiorch_topmost_snoc [OF start(1)] pool_at_merge [OF start(2)]
    by (auto simp: apply_overrides_def split: option.split)
  have res: "rs_multiorch res = (case inline of None \<Rightarrow> rs_multiorch ?mid | Some l \<Rightarrow> mergeMultiorchSpec (rs_multiorch ?mid) (si_multiorch l))"
    "rs_pools res = (case inline of None \<Rightarrow> rs_pools ?mid | Some l \<Rightarrow> merge_pools (rs_pools ?mid) (si_pools l))"
    unfolding res_def mergeShardConfig_def Let_def by (auto simp: apply_inline_def split: option.split)
  have orch: "multiorch_topmost (concat (layers ?orchs (\<lambda>l. list_of (so_multiorch l)) overrides (\<lambda>l. [si_multiorch l]) inline))
      (rs_multiorch res)"
    using mid(1) multiorch_topmost_snoc [OF mid(1)] by (auto simp: layers_def res split: option.split)
  have pools: "pool_at (concat (layers (?pools name) (\<lambda>l. list_of (fmlookup (so_pools l) name)) overrides
      (\<lambda>l. list_of (fmlookup (si_pools l) name)) inline)) (fmlookup (rs_pools res) name)" for name
    using mid(2) pool_at_merge [OF mid(2)] by (auto simp: layers_def res split: option.split)
  have "rs_initdb_args res = topmost [] (layers (ts_initdb_args tpl) so_initdb_args overrides si_initdb_args inline)"
    "rs_config_ref res = topmost None (layers (ts_config_ref tpl) so_config_ref overrides si_config_ref inline)"
    "rs_pvc_deletion_policy res = topmost None (ts_pvc_deletion_policy tpl # map si_pvc_deletion_policy (list_of inline))"
    "fmlookup (rs_config res) key = topmost None (layers (fmlookup (ts_config tpl) key)
          (\<lambda>l. fmlookup (so_config l) key) overrides (\<lambda>l. fmlookup (si_config l) key) inline)" for key
    unfolding res_def mergeShardConfig_def Let_def layers_def
    by (auto simp: start_from_template_def apply_overrides_def apply_inline_def set_list_def set_opt_def mergePostgresConfig_def
        fmlookup_dom_iff split: option.split)
  with orch pools show ?thesis by blast
qed

subsection \<open>What a resolved shard looks like\<close>

lemma or_laws [simp]:
  "or_text t (or_text t s) = or_text t s" "or_default d (or_default d x) = or_default d x"
  "or_resources r (or_resources r r') = or_resources r r'"
  "or_text t s = [] \<longleftrightarrow> s = [] \<and> t = []" "or_default d x \<noteq> None" "or_default d (Some v) = Some v"
  "or_default d None = Some d" "or_text t t = t"
  by (auto simp: or_text_def or_default_def or_resources_def split: option.splits)

lemma default_resources_set [simp]: "\<not> isResourcesZero (default_resources c m l)"
  by (simp add: default_resources_def isResourcesZero_def)

lemma or_resources_set: "\<not> isResourcesZero d \<Longrightarrow> \<not> isResourcesZero (or_resources d r)"
  by (simp add: or_resources_def)

lemma inject_cells_idem: "inject_cells opts (inject_cells opts cells) = inject_cells opts cells"
  by (auto simp: inject_cells_def)

lemma defaultPoolSpec_cells [simp]: "ps_cells (defaultPoolSpec p) = ps_cells p"
  by (simp add: defaultPoolSpec_def)

lemma resolve_pool_cells [simp]: "ps_cells (resolve_pool opts p) = inject_cells opts (ps_cells p)"
  by (simp add: resolve_pool_def Let_def)

lemma resolve_pool_replicas:
  "ps_replicas_per_cell (resolve_pool opts p) =
     (case ps_replicas_per_cell p of
        Some n \<Rightarrow> Some n
      | None \<Rightarrow>
          let cells = inject_cells opts (ps_cells p)
          in Some (if ro_mode opts \<noteq> ModeLite \<and> (if cells = [] then length (ro_cells opts) else length cells) = 1 then 2
                   else DefaultPoolReplicasPerCell))"
  by (simp add: resolve_pool_def Let_def defaultPoolSpec_def split: option.split)

lemma inject_cells_nonempty:
  assumes "ro_materialize opts" and "ro_cells opts \<noteq> []"
  shows "inject_cells opts cells \<noteq> []"
proof -
  have "sort (ro_cells opts) \<noteq> []" using assms(2) by (metis length_0_conv length_sort)
  with assms show ?thesis by (simp add: inject_cells_def)
qed

lemma fmempty_iff: "m = fmempty \<longleftrightarrow> (\<forall>k. fmlookup m k = None)"
  by (metis fmempty_lookup fmap_ext)

lemma resolve_from_pools:
  "rs_pools (resolve_from tpl spec opts) =
     fmmap (resolve_pool opts)
       (let res = mergeShardConfig tpl (sc_overrides spec) (sc_spec spec) (sc_backup spec) (ro_backup opts)
        in if rs_pools res = fmempty
           then fmupd DefaultPoolName
             (empty_pool\<lparr>ps_type := ''readWrite'', ps_cells := inject_cells opts (mo_cells (rs_multiorch res))\<rparr>) fmempty
           else rs_pools res)"
  by (simp add: resolve_from_def Let_def)

text \<open>
  a shard resolved for a cluster with cells is complete: it has a pool, every pool has cells, a replica count, a
  storage size and resources for both containers, and a backup of some type is set. Where nobody chose the replicas and
  the mode is not Lite, a pool has at least the two poolers that the default durability policy needs.
\<close>

theorem resolve_from_complete:
  fixes tpl :: shard_template and spec :: shard_config and opts :: resolve_options
  assumes "ro_materialize opts" and "ro_cells opts \<noteq> []"
  defines "res \<equiv> resolve_from tpl spec opts"
  shows "rs_pools res \<noteq> fmempty
    \<and> (\<exists>b. rs_backup res = Some b \<and> bc_type b \<noteq> [])
    \<and> (\<forall>name p. fmlookup (rs_pools res) name = Some p \<longrightarrow>
         ps_cells p \<noteq> [] \<and> st_size (ps_storage p) \<noteq> []
         \<and> \<not> isResourcesZero (cc_resources (ps_postgres p)) \<and> \<not> isResourcesZero (cc_resources (ps_multipooler p))
         \<and> (\<exists>n. ps_replicas_per_cell p = Some n
              \<and> (ro_mode opts \<noteq> ModeLite
                  \<and> (\<forall>q. fmlookup (rs_pools (mergeShardConfig tpl (sc_overrides spec) (sc_spec spec) (sc_backup spec) (ro_backup opts))) name = Some q
                        \<longrightarrow> ps_replicas_per_cell q = None)
                  \<longrightarrow> 2 \<le> n * int (length (ps_cells p)))))"
proof (intro conjI allI impI)
  show "rs_pools res \<noteq> fmempty"
    unfolding res_def resolve_from_pools
    by (auto simp: Let_def fmempty_iff split: if_splits)
  show "\<exists>b. rs_backup res = Some b \<and> bc_type b \<noteq> []"
    by (simp add: res_def resolve_from_def Let_def defaultBackupConfig_def)
  fix name p
  let ?m = "mergeShardConfig tpl (sc_overrides spec) (sc_spec spec) (sc_backup spec) (ro_backup opts)"
  assume "fmlookup (rs_pools res) name = Some p"
  then obtain q where p: "p = resolve_pool opts q"
    and q: "rs_pools ?m \<noteq> fmempty \<longrightarrow> fmlookup (rs_pools ?m) name = Some q" "rs_pools ?m = fmempty \<longrightarrow> ps_replicas_per_cell q = None"
    unfolding res_def resolve_from_pools by (auto simp: Let_def empty_pool_def split: if_splits)
  show cells: "ps_cells p \<noteq> []" using inject_cells_nonempty [OF assms(1,2)] by (simp add: p)
  show "st_size (ps_storage p) \<noteq> []" "\<not> isResourcesZero (cc_resources (ps_postgres p))"
    "\<not> isResourcesZero (cc_resources (ps_multipooler p))"
    by (simp_all add: p resolve_pool_def Let_def defaultPoolSpec_def DefaultEtcdStorageSize_def
        DefaultResourcesPostgres_def DefaultResourcesPooler_def or_resources_set)
  show "\<exists>n. ps_replicas_per_cell p = Some n
      \<and> (ro_mode opts \<noteq> ModeLite \<and> (\<forall>q. fmlookup (rs_pools ?m) name = Some q \<longrightarrow> ps_replicas_per_cell q = None)
          \<longrightarrow> 2 \<le> n * int (length (ps_cells p)))"
  proof (cases "ps_replicas_per_cell q")
    case None
    with cells show ?thesis
      by (cases "ps_cells p"; cases "tl (ps_cells p)") (auto simp: p resolve_pool_replicas Let_def DefaultPoolReplicasPerCell_def)
  next
    case (Some n)
    with q show ?thesis by (auto simp: p resolve_pool_replicas)
  qed
qed

definition demo_options :: resolve_options where
  "demo_options = \<lparr>ro_cells = [''z1''], ro_backup = None, ro_materialize = True, ro_mode = []\<rparr>"

definition demo_shard :: shard_config where
  "demo_shard = \<lparr>sc_name = ''0-inf'', sc_template = [], sc_overrides = None, sc_spec = None, sc_backup = None\<rparr>"

theorem resolve_from_complete_witness:
  "rs_pools (resolve_from empty_template demo_shard demo_options) \<noteq> fmempty"
  using resolve_from_complete [of demo_options empty_template demo_shard] by (simp add: demo_options_def)

subsection \<open>Storing a resolved shard\<close>

text \<open>Laying a layer below something resolved over it, the result included, changes nothing.\<close>

lemma fill_absorb:
  "set_opt a (or_default d (set_opt a b)) = or_default d (set_opt a b)"
  "set_list s (or_text t (set_list s u)) = or_text t (set_list s u)"
  "set_resources r (or_resources q (set_resources r w)) = or_resources q (set_resources r w)"
  "set_list cells (inject_cells opts (set_list cells cells')) = inject_cells opts (set_list cells cells')"
  by (auto simp: set_opt_def or_default_def set_list_def or_text_def set_resources_def or_resources_def
      isResourcesZero_iff inject_cells_def split: option.split)

definition finish_orch :: "resolve_options \<Rightarrow> multiorch_spec \<Rightarrow> multiorch_spec" where
  "finish_orch opts orch =
     (let orch = (if ro_mode opts = ModeLite then orch
                  else orch\<lparr>mo_stateless := defaultStatelessSpec (mo_stateless orch) DefaultResourcesOrch 1\<rparr>)
      in orch\<lparr>mo_cells := inject_cells opts (mo_cells orch)\<rparr>)"

lemma finish_orch_absorb:
  "mergeMultiorchSpec a (finish_orch opts (mergeMultiorchSpec a b)) = finish_orch opts (mergeMultiorchSpec a b)"
  "finish_orch opts (finish_orch opts c) = finish_orch opts c"
  by (simp_all add: finish_orch_def Let_def mergeMultiorchSpec_def defaultStatelessSpec_def mergeStatelessSpec_def
      mergePodPlacementSpec_eq fill_absorb field_laws absorb_laws inject_cells_idem)

lemma resolve_pool_fields:
  "ps_type (resolve_pool opts p) = ps_type p"
  "ps_storage (resolve_pool opts p) = (ps_storage p)\<lparr>st_size := or_text DefaultEtcdStorageSize (st_size (ps_storage p))\<rparr>"
  "ps_postgres (resolve_pool opts p) =
     (ps_postgres p)\<lparr>cc_resources := or_resources DefaultResourcesPostgres (cc_resources (ps_postgres p))\<rparr>"
  "ps_multipooler (resolve_pool opts p) =
     (ps_multipooler p)\<lparr>cc_resources := or_resources DefaultResourcesPooler (cc_resources (ps_multipooler p))\<rparr>"
  "ps_affinity (resolve_pool opts p) = ps_affinity p" "ps_tolerations (resolve_pool opts p) = ps_tolerations p"
  "ps_fs_group (resolve_pool opts p) = ps_fs_group p"
  "ps_pvc_deletion_policy (resolve_pool opts p) = ps_pvc_deletion_policy p"
  by (simp_all add: resolve_pool_def Let_def defaultPoolSpec_def)

lemma resolve_pool_absorb:
  "mergePoolSpec a (resolve_pool opts (mergePoolSpec a b)) = resolve_pool opts (mergePoolSpec a b)"
proof (rule pool_spec.equality)
  show "ps_replicas_per_cell (mergePoolSpec a (resolve_pool opts (mergePoolSpec a b)))
      = ps_replicas_per_cell (resolve_pool opts (mergePoolSpec a b))"
    by (simp add: mergePoolSpec_def resolve_pool_replicas set_opt_def Let_def split: option.split)
qed (simp_all add: mergePoolSpec_def resolve_pool_fields merge_storage_def merge_container_def fill_absorb absorb_laws)

lemma resolve_pool_idem: "resolve_pool opts (resolve_pool opts p) = resolve_pool opts p"
proof (rule pool_spec.equality)
  show "ps_replicas_per_cell (resolve_pool opts (resolve_pool opts p)) = ps_replicas_per_cell (resolve_pool opts p)"
    by (simp add: resolve_pool_replicas Let_def split: option.split)
qed (simp_all add: resolve_pool_fields inject_cells_idem)

lemma resolve_pools_absorb:
  "merge_pools o' (fmmap (resolve_pool opts) (merge_pools o' i)) = fmmap (resolve_pool opts) (merge_pools o' i)"
  by (rule fmap_ext) (auto simp: lookup_merge_fmap resolve_pool_absorb resolve_pool_absorb [where b = empty_pool, simplified pool.empty_right]
      split: option.split)

text \<open>Backups: the merged and defaulted settings, merged over the inherited ones again, are what they were.\<close>

definition backup_block_set :: "backup_config \<Rightarrow> bool" where
  "backup_block_set b \<longleftrightarrow> (bc_type b = TypeS3 \<longrightarrow> bc_s3 b \<noteq> None)"

lemma default_fs_idem [simp]: "default_fs (default_fs f) = default_fs f"
  by (simp add: default_fs_def)

lemma defaultBackupConfig_idem: "defaultBackupConfig (defaultBackupConfig b) = defaultBackupConfig b"
  by (simp add: defaultBackupConfig_def Let_def default_fs_def)

lemma set_list_or_text: "set_list s (or_text t s) = or_text t s"
  by (auto simp: set_list_def or_text_def)

lemma merge_fs_absorb:
  "merge_fs p (default_fs (merge_fs p c)) = default_fs (merge_fs p c)" "merge_fs p (default_fs p) = default_fs p"
  by (simp_all add: merge_fs_def default_fs_def merge_storage_def fill_absorb absorb_laws set_list_or_text
      set_list_laws(4) [of _ "[]", simplified set_list_laws])

lemma merge_s3_absorb: "merge_s3 p (merge_s3 p c) = merge_s3 p c" "merge_s3 p p = p"
  by (simp_all add: merge_s3_def absorb_laws set_list_laws(4) [of _ "[]", simplified set_list_laws])

definition default_backup :: "backup_config option \<Rightarrow> backup_config" where
  "default_backup b = defaultBackupConfig (case b of
       None \<Rightarrow> \<lparr>bc_type = TypeFilesystem, bc_filesystem = None, bc_s3 = None, bc_tls = None, bc_encryption = None\<rparr>
     | Some b \<Rightarrow> b)"

lemma default_backup_absorb:
  fixes child inherited :: "backup_config option"
  assumes "\<And>p. inherited = Some p \<Longrightarrow> backup_block_set p"
  defines "m \<equiv> default_backup (MergeBackupConfig child inherited)"
  shows "default_backup (MergeBackupConfig (Some m) inherited) = m"
proof (cases inherited)
  case None
  then show ?thesis by (simp add: m_def default_backup_def MergeBackupConfig_def defaultBackupConfig_idem)
next
  case (Some p)
  with assms(1) have p: "backup_block_set p" by simp
  show ?thesis
  proof (cases child)
    case None
    have m: "m = defaultBackupConfig p" by (simp add: m_def Some None default_backup_def MergeBackupConfig_def)
    show ?thesis unfolding m Some
      using p
      by (intro backup_config.equality)
        (auto simp: MergeBackupConfig_def merge_details_def default_backup_def defaultBackupConfig_def Let_def fill_block_def or_text_def
          merge_fs_absorb merge_s3_absorb backup_block_set_def split: option.splits if_splits)
  next
    case child: (Some c)
    show ?thesis
    proof (cases "bc_type c \<noteq> [] \<and> bc_type c \<noteq> bc_type p")
      case True
      then have "m = defaultBackupConfig c" by (simp add: m_def child Some default_backup_def MergeBackupConfig_def)
      moreover from this True have "bc_type m = bc_type c" by (simp add: defaultBackupConfig_def Let_def or_text_def)
      ultimately show ?thesis
        using True by (simp add: Some default_backup_def MergeBackupConfig_def defaultBackupConfig_idem)
    next
      case False
      then have m: "m = defaultBackupConfig (merge_details c p)"
        by (simp only: m_def child Some default_backup_def MergeBackupConfig_def option.case prod.case if_False)
      show ?thesis
      proof (cases "bc_type p = []")
        case True
        with False have "bc_type m = TypeFilesystem"
          by (simp add: m defaultBackupConfig_def merge_details_def Let_def or_text_def)
        with True show ?thesis by (simp add: Some default_backup_def MergeBackupConfig_def m defaultBackupConfig_idem)
      next
        case typed: False
        with False have t: "bc_type m = bc_type p"
          by (auto simp: m defaultBackupConfig_def merge_details_def Let_def or_text_def)
        have fs: "bc_filesystem m = (if bc_type p = TypeFilesystem
              then Some (default_fs (the (fill_block merge_fs empty_fs (bc_filesystem p) (bc_filesystem c)))) else bc_filesystem p)"
          and s3: "bc_s3 m = (if bc_type p = TypeS3 then fill_block merge_s3 empty_s3 (bc_s3 p) (bc_s3 c) else bc_s3 p)"
          and rest: "bc_tls m = (case bc_tls c of None \<Rightarrow> bc_tls p | Some x \<Rightarrow> Some x)"
            "bc_encryption m = (case bc_encryption c of None \<Rightarrow> bc_encryption p | Some x \<Rightarrow> Some x)"
          using False typed by (auto simp: m defaultBackupConfig_def merge_details_def Let_def or_text_def fill_block_def)
        have "defaultBackupConfig (merge_details m p) = m"
        proof (rule backup_config.equality)
          show "bc_filesystem (defaultBackupConfig (merge_details m p)) = bc_filesystem m"
            using typed by (auto simp: defaultBackupConfig_def merge_details_def Let_def or_text_def t fs fill_block_def
                merge_fs_absorb split: option.split)
          show "bc_s3 (defaultBackupConfig (merge_details m p)) = bc_s3 m"
            using typed by (auto simp: defaultBackupConfig_def merge_details_def Let_def or_text_def t s3 fill_block_def
                merge_s3_absorb split: option.split)
        qed (use typed in \<open>auto simp: defaultBackupConfig_def merge_details_def Let_def or_text_def t rest split: option.split\<close>)
        with t show ?thesis by (simp add: Some default_backup_def MergeBackupConfig_def)
      qed
    qed
  qed
qed

text \<open>
  What the defaulting webhook stores for a shard without a template (\<^verbatim>\<open>pkg/webhook/handlers/defaulter.go\<close>): the resolved
  configuration as the inline specification, and the resolved backup.
\<close>

definition materialize_shard :: "shard_config \<Rightarrow> resolved_shard \<Rightarrow> shard_config" where
  "materialize_shard spec resolved =
     (let pvcPolicy = (case sc_spec spec of
                         None \<Rightarrow> rs_pvc_deletion_policy resolved
                       | Some s \<Rightarrow> if si_pvc_deletion_policy s \<noteq> None then si_pvc_deletion_policy s else rs_pvc_deletion_policy resolved)
      in spec\<lparr>sc_spec := Some \<lparr>si_multiorch = rs_multiorch resolved, si_initdb_args = rs_initdb_args resolved,
                 si_config_ref = rs_config_ref resolved, si_config = rs_config resolved, si_pools = rs_pools resolved,
                 si_pvc_deletion_policy = pvcPolicy\<rparr>,
               sc_backup := rs_backup resolved\<rparr>)"

definition merged_shard :: "shard_template \<Rightarrow> shard_config \<Rightarrow> resolve_options \<Rightarrow> resolved_shard" where
  "merged_shard tpl spec opts = mergeShardConfig tpl (sc_overrides spec) (sc_spec spec) (sc_backup spec) (ro_backup opts)"

lemma resolve_from_fields:
  fixes tpl spec opts
  defines "res \<equiv> merged_shard tpl spec opts"
  shows "rs_multiorch (resolve_from tpl spec opts) = finish_orch opts (rs_multiorch res)"
    and "rs_pools (resolve_from tpl spec opts) = fmmap (resolve_pool opts)
      (if rs_pools res = fmempty
       then fmupd DefaultPoolName (empty_pool\<lparr>ps_type := ''readWrite'', ps_cells := mo_cells (finish_orch opts (rs_multiorch res))\<rparr>) fmempty
       else rs_pools res)"
    and "rs_backup (resolve_from tpl spec opts) = Some (default_backup (rs_backup res))"
    and "rs_pvc_deletion_policy (resolve_from tpl spec opts) = rs_pvc_deletion_policy res"
    and "rs_initdb_args (resolve_from tpl spec opts) = rs_initdb_args res"
    and "rs_config_ref (resolve_from tpl spec opts) = rs_config_ref res"
    and "rs_config (resolve_from tpl spec opts) = rs_config res"
  by (simp_all add: resolve_from_def res_def merged_shard_def Let_def finish_orch_def default_backup_def)

lemma merged_fields:
  fixes spec opts
  defines "ovr \<equiv> layer_or overrides_layer (sc_overrides spec)" and "inl \<equiv> layer_or inline_layer (sc_spec spec)"
    and "res \<equiv> merged_shard empty_template spec opts"
  shows "rs_multiorch res = mergeMultiorchSpec (ly_multiorch ovr) (ly_multiorch inl)"
    and "rs_pools res = merge_pools (ly_pools ovr) (ly_pools inl)"
    and "rs_initdb_args res = set_list (ly_initdb_args ovr) (ly_initdb_args inl)"
    and "rs_config_ref res = set_opt (ly_config_ref ovr) (ly_config_ref inl)"
    and "rs_config res = mergePostgresConfig (ly_config ovr) (ly_config inl)"
    and "rs_pvc_deletion_policy res = ly_pvc_deletion_policy inl"
    and "rs_backup res = MergeBackupConfig (sc_backup spec) (ro_backup opts)"
  proof -
  have blank: "template_layer empty_template = empty_layer"
    by (simp add: template_layer_def empty_template_def empty_layer_def)
  have layers: "resolved_layer res = merge_layer ovr inl" "rs_backup res = MergeBackupConfig (sc_backup spec) (ro_backup opts)"
    using merge_shard_layers [of empty_template "sc_overrides spec" "sc_spec spec" "sc_backup spec" "ro_backup opts"]
    by (simp_all add: res_def merged_shard_def ovr_def inl_def blank layer.empty_left)
  have "ly_pvc_deletion_policy ovr = None"
    by (simp add: ovr_def layer_or_def overrides_layer_def empty_layer_def split: option.split)
  with layers show "rs_multiorch res = mergeMultiorchSpec (ly_multiorch ovr) (ly_multiorch inl)"
    "rs_pools res = merge_pools (ly_pools ovr) (ly_pools inl)"
    "rs_initdb_args res = set_list (ly_initdb_args ovr) (ly_initdb_args inl)"
    "rs_config_ref res = set_opt (ly_config_ref ovr) (ly_config_ref inl)"
    "rs_config res = mergePostgresConfig (ly_config ovr) (ly_config inl)"
    "rs_pvc_deletion_policy res = ly_pvc_deletion_policy inl"
    "rs_backup res = MergeBackupConfig (sc_backup spec) (ro_backup opts)"
    by (simp_all add: resolved_layer_def merge_layer_def set_opt_laws)
qed

lemma merge_pools_empty_iff: "merge_pools a b = fmempty \<longleftrightarrow> a = fmempty \<and> b = fmempty"
  by (auto simp: fmempty_iff lookup_merge_fmap split: option.splits)

text \<open>
  A shard without a template that was resolved and stored resolves to the same configuration again: storing it is
  stable, whatever its overrides say.
\<close>

lemma materialized_stable:
  fixes spec :: shard_config and opts :: resolve_options
  assumes "\<And>p. ro_backup opts = Some p \<Longrightarrow> backup_block_set p"
  defines "res \<equiv> resolve_from empty_template spec opts"
  shows "resolve_from empty_template (materialize_shard spec res) opts = res"
proof -
  define ovr where "ovr = layer_or overrides_layer (sc_overrides spec)"
  define inl where "inl = layer_or inline_layer (sc_spec spec)"
  let ?spec = "materialize_shard spec res"
  have o': "layer_or overrides_layer (sc_overrides ?spec) = ovr"
    by (simp add: ovr_def materialize_shard_def Let_def)
  have policy: "ly_pvc_deletion_policy (layer_or inline_layer (sc_spec ?spec)) = rs_pvc_deletion_policy res"
  proof -
    have "rs_pvc_deletion_policy res = ly_pvc_deletion_policy inl"
      by (simp add: res_def resolve_from_fields merged_fields inl_def)
    then show ?thesis
      by (auto simp: materialize_shard_def Let_def layer_or_def inline_layer_def inl_def split: option.split)
  qed
  have i': "layer_or inline_layer (sc_spec ?spec) = resolved_layer res"
    using policy by (simp add: materialize_shard_def Let_def layer_or_def inline_layer_def resolved_layer_def)
  have b': "sc_backup ?spec = rs_backup res" by (simp add: materialize_shard_def Let_def)
  note again = resolve_from_fields [of empty_template ?spec opts] merged_fields [of ?spec opts, unfolded o' i' b']
  note first = resolve_from_fields [of empty_template spec opts, folded res_def]
    merged_fields [of spec opts, folded ovr_def inl_def]
  have orch: "mergeMultiorchSpec (ly_multiorch ovr) (rs_multiorch res) = rs_multiorch res"
    by (simp add: first finish_orch_absorb)
  have pools: "merge_pools (ly_pools ovr) (rs_pools res) = rs_pools res"
  proof (cases "rs_pools (merged_shard empty_template spec opts) = fmempty")
    case True
    then have "ly_pools ovr = fmempty" by (simp add: first merge_pools_empty_iff)
    then show ?thesis by (simp add: pools.empty_left)
  next
    case False
    then have "rs_pools res = fmmap (resolve_pool opts) (merge_pools (ly_pools ovr) (ly_pools inl))" by (simp add: first)
    then show ?thesis by (simp add: resolve_pools_absorb)
  qed
  have nonempty: "rs_pools res \<noteq> fmempty"
    by (auto simp: first fmempty_iff)
  have idem: "fmmap (resolve_pool opts) (rs_pools res) = rs_pools res"
    unfolding first(2) by (rule fmap_ext) (simp add: option.map_comp comp_def resolve_pool_idem)
  show ?thesis
  proof (rule resolved_shard.equality)
    show "rs_multiorch (resolve_from empty_template ?spec opts) = rs_multiorch res"
      by (simp add: again resolved_layer_def orch) (simp add: first finish_orch_absorb)
    show "rs_pools (resolve_from empty_template ?spec opts) = rs_pools res"
      by (simp add: again resolved_layer_def pools nonempty idem)
    show "rs_backup (resolve_from empty_template ?spec opts) = rs_backup res"
      using default_backup_absorb [where child = "sc_backup spec" and inherited = "ro_backup opts"] assms(1)
      by (simp add: again first)
  qed (simp_all add: again resolved_layer_def, simp_all add: first absorb_laws postgres_config.absorb_left)
qed

end
