(* ===== verification/Cluster_Defaults.thy ===== *)
theory Cluster_Defaults
  imports Resolver
begin

text \<open>
  The cluster resource and its defaults: resolution of cells, the global topology server and the admin components
  (\<^verbatim>\<open>pkg/resolver/cell.go\<close>, \<^verbatim>\<open>cluster.go\<close>), and the defaulting webhook (\<^verbatim>\<open>pkg/webhook/handlers/defaulter.go\<close>).
  \<^verbatim>\<open>time.ParseDuration\<close> rounds fractions in floating point and is an argument, as is the digest of long roots.
\<close>

subsection \<open>The cluster resource\<close>

record external_topo =
  ex_endpoints :: "string list"
  ex_implementation :: string
  ex_ca_secret :: string
  ex_client_cert_secret :: string
  ex_root_path :: string

record local_topo =
  lt_etcd :: "etcd_spec option"
  lt_external :: "external_topo option"

record global_topo =
  gt_etcd :: "etcd_spec option"
  gt_external :: "external_topo option"
  gt_template :: string
  gt_pvc_deletion_policy :: "pvc_deletion_policy option"
  gt_placement :: "string option"

record core_topo =
  kt_etcd :: "etcd_spec option"
  kt_pvc_deletion_policy :: "pvc_deletion_policy option"
  kt_placement :: "string option"

record core_template =
  kt_global_topo :: "core_topo option"
  kt_multiadmin :: "stateless_spec option"
  kt_multiadmin_placement :: "placement option"
  kt_multiadmin_web :: "stateless_spec option"

record cell_template =
  cm_gateway :: "gateway_spec option"
  cm_placement :: "placement option"
  cm_local_topo :: "local_topo option"

record cell_overrides =
  co_gateway :: "gateway_spec option"
  co_placement :: "placement option"

record cell_inline =
  ci_gateway :: gateway_spec
  ci_placement :: "placement option"
  ci_local_topo :: "local_topo option"

record cell_config =
  cl_name :: string
  cl_zone_id :: string
  cl_region :: string
  cl_metadata :: string
  cl_template :: string
  cl_overrides :: "cell_overrides option"
  cl_spec :: "cell_inline option"

record table_group_config =
  tg_name :: string
  tg_default :: bool
  tg_shards :: "shard_config list"
  tg_backup :: "backup_config option"
  tg_pvc_deletion_policy :: "pvc_deletion_policy option"

record database_config =
  db_name :: string
  db_default :: bool
  db_table_groups :: "table_group_config list"
  db_backup :: "backup_config option"
  db_durability_policy :: string

record admin_config =
  ad_spec :: "stateless_spec option"
  ad_template :: string
  ad_placement :: "placement option"

record log_levels =
  ll_pgctld :: string
  ll_multipooler :: string
  ll_multiorch :: string
  ll_multiadmin :: string
  ll_multigateway :: string

record external_service =
  es_enabled :: bool
  es_ips :: "string list"

record cluster =
  mc_name :: string
  mc_namespace :: string
  mc_annotations :: "string \<Rightarrow> string option"
  mc_mode :: string
  mc_image_pull_policy :: string
  mc_topology_pruning :: "bool option option"
  mc_durability_policy :: string
  mc_log_levels :: log_levels
  mc_pvc_deletion_policy :: "pvc_deletion_policy option"
  mc_backup :: "backup_config option"
  mc_core_template :: string
  mc_cell_template :: string
  mc_shard_template :: string
  mc_global_topo :: "global_topo option"
  mc_multiadmin :: "admin_config option"
  mc_multiadmin_web :: "admin_config option"
  mc_cells :: "cell_config list"
  mc_databases :: "database_config list"
  mc_topo_tls :: "bool option option"
  mc_external_gateway :: "external_service option"
  mc_external_admin_web :: "external_service option"

text \<open>What the operator's client answers, by namespace and name, with the other arguments of the model.\<close>

record resolve_env =
  re_shard :: "string \<Rightarrow> shard_template template_getter"
  re_cell :: "string \<Rightarrow> cell_template template_getter"
  re_core :: "string \<Rightarrow> core_template template_getter"
  re_digest :: "string \<Rightarrow> string"
  re_parse_duration :: "string \<Rightarrow> duration option"

definition template_exists :: "'a template_getter \<Rightarrow> string \<Rightarrow> api_error + bool" where
  "template_exists get name =
     (if name = [] then Inr False
      else (case get name of
              Inl err \<Rightarrow> if err = NotFound then Inr False else Inl err
            | Inr _ \<Rightarrow> Inr True))"

subsection \<open>Topology settings\<close>

definition topo_tls_enabled :: "bool option option \<Rightarrow> bool" where
  "topo_tls_enabled c \<longleftrightarrow> c = Some (Some True)"

definition OperatorIssuesTopoClientCert :: "cluster \<Rightarrow> bool" where
  "OperatorIssuesTopoClientCert cluster =
     (if \<not> topo_tls_enabled (mc_topo_tls cluster) then False
      else (case mc_global_topo cluster of
              None \<Rightarrow> True
            | Some g \<Rightarrow>
                (case gt_external g of
                   None \<Rightarrow> True
                 | Some e \<Rightarrow> ex_ca_secret e = [] \<and> ex_client_cert_secret e = [])))"

definition ForCluster :: "resolve_env \<Rightarrow> cluster \<Rightarrow> root_error + Roots" where
  "ForCluster env cluster =
     NewRoots (re_digest env) (mc_annotations cluster) (mc_namespace cluster) (mc_name cluster)
       (OperatorIssuesTopoClientCert cluster)"

abbreviation DefaultEtcdImage :: string where "DefaultEtcdImage \<equiv> ''gcr.io/etcd-development/etcd:v3.6.7''"

definition defaultEtcdSpec :: "etcd_spec \<Rightarrow> string \<Rightarrow> etcd_spec" where
  "defaultEtcdSpec spec defaultRootPath =
     spec\<lparr>et_image := or_text DefaultEtcdImage (et_image spec),
          et_storage := (et_storage spec)\<lparr>st_size := or_text DefaultEtcdStorageSize (st_size (et_storage spec))\<rparr>,
          et_replicas := or_default DefaultEtcdReplicas (et_replicas spec),
          et_root_path := or_text defaultRootPath (et_root_path spec),
          et_resources := or_resources DefaultResourcesEtcd (et_resources spec)\<rparr>"

definition defaultExternalTopoSpec :: "external_topo \<Rightarrow> string \<Rightarrow> external_topo" where
  "defaultExternalTopoSpec spec defaultRootPath =
     spec\<lparr>ex_implementation := or_text ''etcd'' (ex_implementation spec),
          ex_root_path := or_text defaultRootPath (ex_root_path spec)\<rparr>"

definition EffectiveCompaction :: "(string \<Rightarrow> duration option) \<Rightarrow> etcd_maintenance option \<Rightarrow> string + string \<times> string" where
  "EffectiveCompaction parse c =
     (let mode = (case c of None \<Rightarrow> ''periodic'' | Some m \<Rightarrow> or_text ''periodic'' (em_mode m))
      in if mode = ''periodic'' \<or> mode = ''revision''
         then let start = (if mode = ''periodic'' then ''1h'' else ''10000'');
                  retention = (case c of None \<Rightarrow> start | Some m \<Rightarrow> or_text start (em_retention m))
              in if mode = ''periodic''
                 then (case parse retention of
                         None \<Rightarrow> Inl retention
                       | Some d \<Rightarrow> if d \<le> 0 then Inl retention else Inr (mode, retention))
                 else (case atoi retention of
                         None \<Rightarrow> Inl retention
                       | Some n \<Rightarrow> if n \<le> 0 then Inl retention else Inr (mode, retention))
         else Inl mode)"

definition check_compaction :: "resolve_env \<Rightarrow> etcd_spec option \<Rightarrow> resolve_error option" where
  "check_compaction env etcd =
     (case etcd of
        None \<Rightarrow> None
      | Some e \<Rightarrow>
          (case EffectiveCompaction (re_parse_duration env) (et_maintenance e) of
             Inl err \<Rightarrow> Some (MaintenanceInvalid err)
           | Inr _ \<Rightarrow> None))"

subsection \<open>Cells\<close>

definition blank_cell_template :: cell_template where
  "blank_cell_template = \<lparr>cm_gateway = None, cm_placement = None, cm_local_topo = None\<rparr>"

definition mergeCellConfig ::
  "cell_template \<Rightarrow> cell_overrides option \<Rightarrow> cell_inline option \<Rightarrow> gateway_spec \<times> placement option \<times> local_topo option" where
  "mergeCellConfig tpl overrides inline =
     (let gateway = (case cm_gateway tpl of None \<Rightarrow> empty_gateway | Some g \<Rightarrow> g);
          local = cm_local_topo tpl;
          placement = mergePodPlacementSpec None (cm_placement tpl);
          (gateway, placement) = (case overrides of
             None \<Rightarrow> (gateway, placement)
           | Some ovr \<Rightarrow> ((case co_gateway ovr of None \<Rightarrow> gateway | Some g \<Rightarrow> mergeMultigatewaySpec gateway g),
                         mergePodPlacementSpec placement (co_placement ovr)))
      in case inline of
           None \<Rightarrow> (gateway, placement, local)
         | Some inl \<Rightarrow> (mergeMultigatewaySpec gateway (ci_gateway inl), mergePodPlacementSpec placement (ci_placement inl),
                         (case ci_local_topo inl of None \<Rightarrow> local | Some l \<Rightarrow> Some l)))"

definition defaultGatewayBuffer :: "gateway_spec \<Rightarrow> gateway_spec" where
  "defaultGatewayBuffer spec =
     (let b = (case gw_buffer spec of None \<Rightarrow> empty_buffer | Some b \<Rightarrow> b)
      in spec\<lparr>gw_buffer := Some (b\<lparr>gb_enabled := or_default True (gb_enabled b)\<rparr>)\<rparr>)"

definition defaultGatewayClusterViews :: "gateway_spec \<Rightarrow> gateway_spec" where
  "defaultGatewayClusterViews spec =
     (let v = (case gw_cluster_views spec of None \<Rightarrow> None | Some v \<Rightarrow> v)
      in spec\<lparr>gw_cluster_views := Some (or_default False v)\<rparr>)"

definition default_gateway :: "string \<Rightarrow> gateway_spec \<Rightarrow> gateway_spec" where
  "default_gateway mode g0 =
     (let g = (if mode = ModeLite
               then g0\<lparr>gw_stateless := (gw_stateless g0)\<lparr>sl_resources := or_resources DefaultResourcesGateway (sl_resources (gw_stateless g0))\<rparr>\<rparr>
               else g0\<lparr>gw_stateless := defaultStatelessSpec (gw_stateless g0) DefaultResourcesGateway 1\<rparr>)
      in defaultGatewayClusterViews (defaultGatewayBuffer g))"

definition default_local_topo :: "string \<Rightarrow> local_topo \<Rightarrow> local_topo" where
  "default_local_topo root l =
     l\<lparr>lt_etcd := map_option (\<lambda>e. defaultEtcdSpec e root) (lt_etcd l),
       lt_external := map_option (\<lambda>e. defaultExternalTopoSpec e root) (lt_external l)\<rparr>"

definition EffectiveCellTemplateName :: "string \<Rightarrow> string" where
  "EffectiveCellTemplateName ref = (if ref = [] then FallbackTemplate else ref)"

definition ResolveCellTemplate ::
  "cell_template template_getter \<Rightarrow> string \<Rightarrow> (string \<Rightarrow> cell_template option)
   \<Rightarrow> (resolve_error + cell_template) \<times> (string \<Rightarrow> cell_template option)" where
  "ResolveCellTemplate get name cache = resolve_template get blank_cell_template (EffectiveCellTemplateName name) cache"

definition resolve_cell_from ::
  "resolve_env \<Rightarrow> cluster \<Rightarrow> cell_config \<Rightarrow> cell_template \<Rightarrow> resolve_error + gateway_spec \<times> placement option \<times> local_topo option" where
  "resolve_cell_from env cluster cell tpl =
     (let (gateway, placement, local) = mergeCellConfig tpl (cl_overrides cell) (cl_spec cell);
          gateway = default_gateway (mc_mode cluster) gateway
      in case local of
           None \<Rightarrow> Inr (gateway, placement, None)
         | Some l \<Rightarrow>
             (case ForCluster env cluster of
                Inl err \<Rightarrow> Inl (RootFailed err)
              | Inr roots \<Rightarrow>
                  (case Cell_root roots (cl_name cell) of
                     Inl err \<Rightarrow> Inl (RootFailed err)
                   | Inr root \<Rightarrow>
                       let l' = default_local_topo root l
                       in case check_compaction env (lt_etcd l') of
                            Some err \<Rightarrow> Inl err
                          | None \<Rightarrow> Inr (gateway, placement, Some l'))))"

text \<open>\<^verbatim>\<open>ResolveCell\<close>; the cache of the request is the one of \<^const>\<open>resolve_template\<close>.\<close>

definition ResolveCell ::
  "resolve_env \<Rightarrow> cluster \<Rightarrow> cell_config \<Rightarrow> resolve_error + gateway_spec \<times> placement option \<times> local_topo option" where
  "ResolveCell env cluster cell =
     (case fst (ResolveCellTemplate (re_cell env (mc_namespace cluster)) (cl_template cell) Map.empty) of
        Inl err \<Rightarrow> Inl err
      | Inr tpl \<Rightarrow> resolve_cell_from env cluster cell tpl)"

subsection \<open>The global topology server and the admin components\<close>

definition blank_core_template :: core_template where
  "blank_core_template = \<lparr>kt_global_topo = None, kt_multiadmin = None, kt_multiadmin_placement = None, kt_multiadmin_web = None\<rparr>"

definition ResolveCoreTemplate ::
  "core_template template_getter \<Rightarrow> string \<Rightarrow> (string \<Rightarrow> core_template option)
   \<Rightarrow> (resolve_error + core_template) \<times> (string \<Rightarrow> core_template option)" where
  "ResolveCoreTemplate get = resolve_template get blank_core_template"

definition core_for :: "resolve_env \<Rightarrow> cluster \<Rightarrow> string \<Rightarrow> resolve_error + core_template" where
  "core_for env cluster templateName =
     fst (ResolveCoreTemplate (re_core env (mc_namespace cluster)) (or_text (mc_core_template cluster) templateName) Map.empty)"

definition start_global_topo :: "core_template \<Rightarrow> global_topo" where
  "start_global_topo tpl =
     (case kt_global_topo tpl of
        Some t \<Rightarrow> \<lparr>gt_etcd = kt_etcd t, gt_external = None, gt_template = [],
                   gt_pvc_deletion_policy = kt_pvc_deletion_policy t, gt_placement = kt_placement t\<rparr>
      | None \<Rightarrow> \<lparr>gt_etcd = Some empty_etcd, gt_external = None, gt_template = [], gt_pvc_deletion_policy = None,
                 gt_placement = None\<rparr>)"

definition overlay_global_topo :: "global_topo option \<Rightarrow> global_topo \<Rightarrow> global_topo" where
  "overlay_global_topo spec final =
     (case spec of
        None \<Rightarrow> final
      | Some s \<Rightarrow>
          (case gt_external s of
             Some e \<Rightarrow> final\<lparr>gt_external := Some e, gt_etcd := None\<rparr>
           | None \<Rightarrow>
               (case gt_etcd s of
                  None \<Rightarrow> final
                | Some e \<Rightarrow> final\<lparr>gt_etcd := Some (mergeEtcdSpec (case gt_etcd final of None \<Rightarrow> empty_etcd | Some b \<Rightarrow> b) e)\<rparr>)))"

definition ResolveGlobalTopo :: "resolve_env \<Rightarrow> cluster \<Rightarrow> resolve_error + global_topo" where
  "ResolveGlobalTopo env cluster =
     (case ForCluster env cluster of
        Inl err \<Rightarrow> Inl (RootFailed err)
      | Inr roots \<Rightarrow>
          let spec = mc_global_topo cluster
          in case core_for env cluster (case spec of None \<Rightarrow> [] | Some s \<Rightarrow> gt_template s) of
               Inl err \<Rightarrow> Inl err
             | Inr tpl \<Rightarrow>
                 let final = overlay_global_topo spec (start_global_topo tpl);
                     final = final\<lparr>gt_etcd := map_option (\<lambda>e. defaultEtcdSpec e (Global_root roots)) (gt_etcd final)\<rparr>
                 in case check_compaction env (gt_etcd final) of
                      Some err \<Rightarrow> Inl err
                    | None \<Rightarrow>
                        Inr (final\<lparr>gt_external := map_option (\<lambda>e. defaultExternalTopoSpec e (Global_root roots)) (gt_external final),
                               gt_pvc_deletion_policy := set_opt (gt_pvc_deletion_policy final)
                                 (case spec of None \<Rightarrow> None | Some s \<Rightarrow> gt_pvc_deletion_policy s),
                               gt_placement := set_opt (gt_placement final)
                                 (case spec of None \<Rightarrow> None | Some s \<Rightarrow> gt_placement s)\<rparr>))"

definition admin_template :: "admin_config option \<Rightarrow> string" where
  "admin_template spec = (case spec of None \<Rightarrow> [] | Some s \<Rightarrow> ad_template s)"

definition overlay_admin :: "admin_config option \<Rightarrow> stateless_spec \<Rightarrow> stateless_spec" where
  "overlay_admin spec final =
     (case spec of
        None \<Rightarrow> final
      | Some s \<Rightarrow> (case ad_spec s of None \<Rightarrow> final | Some o' \<Rightarrow> mergeStatelessSpec final o'))"

definition ResolveMultiadmin :: "resolve_env \<Rightarrow> cluster \<Rightarrow> resolve_error + stateless_spec \<times> placement option" where
  "ResolveMultiadmin env cluster =
     (let spec = mc_multiadmin cluster
      in case core_for env cluster (admin_template spec) of
           Inl err \<Rightarrow> Inl err
         | Inr tpl \<Rightarrow>
             let final = (case kt_multiadmin tpl of None \<Rightarrow> empty_stateless | Some s \<Rightarrow> s);
                 placement = mergePodPlacementSpec None (kt_multiadmin_placement tpl);
                 placement = (case spec of None \<Rightarrow> placement | Some s \<Rightarrow> mergePodPlacementSpec placement (ad_placement s))
             in Inr (defaultStatelessSpec (overlay_admin spec final) DefaultResourcesAdmin DefaultAdminReplicas, placement))"

definition ResolveMultiadminWeb :: "resolve_env \<Rightarrow> cluster \<Rightarrow> resolve_error + stateless_spec" where
  "ResolveMultiadminWeb env cluster =
     (let spec = mc_multiadmin_web cluster
      in case core_for env cluster (admin_template spec) of
           Inl err \<Rightarrow> Inl err
         | Inr tpl \<Rightarrow>
             let final = (case kt_multiadmin_web tpl of None \<Rightarrow> empty_stateless | Some s \<Rightarrow> s)
             in Inr (defaultStatelessSpec (overlay_admin spec final) DefaultResourcesAdminWeb DefaultMultiadminWebReplicas))"

subsection \<open>Static defaults\<close>

definition DefaultLogLevel :: string where "DefaultLogLevel = ''info''"
definition DefaultDurabilityPolicy :: string where "DefaultDurabilityPolicy = ''AT_LEAST_2''"
definition DefaultSystemDatabaseName :: string where "DefaultSystemDatabaseName = ''postgres''"
definition DefaultSystemTableGroupName :: string where "DefaultSystemTableGroupName = ''default''"
definition DefaultImagePullPolicy :: string where "DefaultImagePullPolicy = ''IfNotPresent''"

definition default_log_levels :: "log_levels \<Rightarrow> log_levels" where
  "default_log_levels l =
     \<lparr>ll_pgctld = or_text DefaultLogLevel (ll_pgctld l), ll_multipooler = or_text DefaultLogLevel (ll_multipooler l),
      ll_multiorch = or_text DefaultLogLevel (ll_multiorch l), ll_multiadmin = or_text DefaultLogLevel (ll_multiadmin l),
      ll_multigateway = or_text DefaultLogLevel (ll_multigateway l)\<rparr>"

definition default_shard :: "bool \<Rightarrow> bool \<Rightarrow> shard_config" where
  "default_shard hasCells inject =
     \<lparr>sc_name = ''0-inf'', sc_template = [], sc_overrides = None,
      sc_spec = (if hasCells
        then Some \<lparr>si_multiorch = empty_multiorch, si_initdb_args = [], si_config_ref = None, si_config = fmempty,
               si_pools = (if inject then fmupd ''default'' (empty_pool\<lparr>ps_type := ''readWrite''\<rparr>) fmempty else fmempty),
               si_pvc_deletion_policy = None\<rparr>
        else None),
      sc_backup = None\<rparr>"

definition default_table_group :: "bool \<Rightarrow> bool \<Rightarrow> table_group_config \<Rightarrow> table_group_config" where
  "default_table_group hasCells inject tg =
     (if tg_shards tg = [] then tg\<lparr>tg_shards := [default_shard hasCells inject]\<rparr> else tg)"

definition default_database :: "bool \<Rightarrow> bool \<Rightarrow> database_config \<Rightarrow> database_config" where
  "default_database hasCells inject db =
     (let groups = (if db_table_groups db = []
                    then [\<lparr>tg_name = DefaultSystemTableGroupName, tg_default = True, tg_shards = [], tg_backup = None,
                           tg_pvc_deletion_policy = None\<rparr>]
                    else db_table_groups db)
      in db\<lparr>db_table_groups := map (default_table_group hasCells inject) groups\<rparr>)"

definition static_defaults :: "cluster \<Rightarrow> cluster" where
  "static_defaults c =
     c\<lparr>mc_image_pull_policy := or_text DefaultImagePullPolicy (mc_image_pull_policy c),
       mc_topology_pruning := or_default (Some True) (mc_topology_pruning c),
       mc_durability_policy := or_text DefaultDurabilityPolicy (mc_durability_policy c),
       mc_log_levels := default_log_levels (mc_log_levels c),
       mc_pvc_deletion_policy := or_default \<lparr>WhenDeleted = ''Delete'', WhenScaled = ''Delete''\<rparr> (mc_pvc_deletion_policy c),
       mc_backup := or_default \<lparr>bc_type = TypeFilesystem,
            bc_filesystem = Some \<lparr>fb_path = DefaultBackupPath, fb_storage = empty_storage\<lparr>st_size := DefaultBackupStorageSize\<rparr>\<rparr>,
            bc_s3 = None, bc_tls = None, bc_encryption = None\<rparr> (mc_backup c),
       mc_databases := (if mc_databases c = []
         then [\<lparr>db_name = DefaultSystemDatabaseName, db_default = True, db_table_groups = [], db_backup = None,
                db_durability_policy = []\<rparr>]
         else mc_databases c)\<rparr>"

text \<open>\<^verbatim>\<open>PopulateClusterDefaults\<close> of a resolver bound to \<^verbatim>\<open>namespace\<close>; the decisions it returns only feed events.\<close>

definition PopulateClusterDefaults :: "resolve_env \<Rightarrow> string \<Rightarrow> cluster \<Rightarrow> api_error + cluster" where
  "PopulateClusterDefaults env namespace cluster =
     (let c = static_defaults cluster;
          inject = (if mc_shard_template c \<noteq> [] then Inr False
                    else map_sum id Not (template_exists (re_shard env namespace) FallbackTemplate))
      in case inject of
           Inl err \<Rightarrow> Inl err
         | Inr b \<Rightarrow> Inr (c\<lparr>mc_databases := map (default_database (mc_cells c \<noteq> []) b) (mc_databases c)\<rparr>))"

subsection \<open>The defaulting webhook\<close>

datatype default_error = PopulateFailed api_error | ResolveFailed string resolve_error

text \<open>An error of the existence check is ignored and reads as absent.\<close>

definition exists_quiet :: "'a template_getter \<Rightarrow> bool" where
  "exists_quiet get = (case template_exists get FallbackTemplate of Inl _ \<Rightarrow> False | Inr b \<Rightarrow> b)"

definition promote :: "'a template_getter \<Rightarrow> string \<Rightarrow> string" where
  "promote get ref = (if ref = [] \<and> exists_quiet get then FallbackTemplate else ref)"

definition promote_templates :: "resolve_env \<Rightarrow> cluster \<Rightarrow> cluster" where
  "promote_templates env c =
     c\<lparr>mc_core_template := promote (re_core env (mc_namespace c)) (mc_core_template c),
       mc_cell_template := promote (re_cell env (mc_namespace c)) (mc_cell_template c),
       mc_shard_template := promote (re_shard env (mc_namespace c)) (mc_shard_template c)\<rparr>"

definition uses_core :: "resolve_env \<Rightarrow> cluster \<Rightarrow> string \<Rightarrow> bool" where
  "uses_core env c ref \<longleftrightarrow> ref \<noteq> [] \<or> mc_core_template c \<noteq> [] \<or> exists_quiet (re_core env (mc_namespace c))"

definition materialize_topo :: "resolve_env \<Rightarrow> cluster \<Rightarrow> default_error + cluster" where
  "materialize_topo env c =
     (if uses_core env c (case mc_global_topo c of None \<Rightarrow> [] | Some g \<Rightarrow> gt_template g) then Inr c
      else (case ResolveGlobalTopo env c of
              Inl err \<Rightarrow> Inl (ResolveFailed ''globalTopoServer'' err)
            | Inr g \<Rightarrow> Inr (c\<lparr>mc_global_topo := Some g\<rparr>)))"

definition blank_admin :: admin_config where
  "blank_admin = \<lparr>ad_spec = None, ad_template = [], ad_placement = None\<rparr>"

definition or_blank :: "admin_config option \<Rightarrow> admin_config" where
  "or_blank a = (case a of None \<Rightarrow> blank_admin | Some x \<Rightarrow> x)"

definition materialize_admin :: "resolve_env \<Rightarrow> cluster \<Rightarrow> default_error + cluster" where
  "materialize_admin env c =
     (if uses_core env c (admin_template (mc_multiadmin c)) then Inr c
      else (case ResolveMultiadmin env c of
              Inl err \<Rightarrow> Inl (ResolveFailed ''multiadmin'' err)
            | Inr (spec, placement) \<Rightarrow>
                Inr (c\<lparr>mc_multiadmin := Some ((or_blank (mc_multiadmin c))\<lparr>ad_spec := Some spec,
                   ad_placement := set_opt (ad_placement (or_blank (mc_multiadmin c))) placement\<rparr>)\<rparr>)))"

definition materialize_web :: "resolve_env \<Rightarrow> cluster \<Rightarrow> default_error + cluster" where
  "materialize_web env c =
     (if uses_core env c (admin_template (mc_multiadmin_web c)) then Inr c
      else (case ResolveMultiadminWeb env c of
              Inl err \<Rightarrow> Inl (ResolveFailed ''multiadmin-web'' err)
            | Inr spec \<Rightarrow> Inr (c\<lparr>mc_multiadmin_web := Some ((or_blank (mc_multiadmin_web c))\<lparr>ad_spec := Some spec\<rparr>)\<rparr>)))"

fun map_err :: "('a \<Rightarrow> 'e + 'b) \<Rightarrow> 'a list \<Rightarrow> 'e + 'b list" where
  "map_err f [] = Inr []"
| "map_err f (x # xs) = (case f x of Inl e \<Rightarrow> Inl e | Inr y \<Rightarrow> map_sum id (Cons y) (map_err f xs))"

definition materialize_cell :: "resolve_env \<Rightarrow> cluster \<Rightarrow> cell_config \<Rightarrow> default_error + cell_config" where
  "materialize_cell env c cell =
     (if cl_template cell \<noteq> [] \<or> mc_cell_template c \<noteq> [] \<or> exists_quiet (re_cell env (mc_namespace c)) then Inr cell
      else (case ResolveCell env c cell of
              Inl err \<Rightarrow> Inl (ResolveFailed (cl_name cell) err)
            | Inr (g, p, l) \<Rightarrow> Inr (cell\<lparr>cl_spec := Some \<lparr>ci_gateway = g, ci_placement = p, ci_local_topo = l\<rparr>\<rparr>)))"

definition materialize_shard_config ::
  "resolve_env \<Rightarrow> cluster \<Rightarrow> backup_config option \<Rightarrow> shard_config \<Rightarrow> default_error + shard_config" where
  "materialize_shard_config env c tgBackup shard =
     (if sc_template shard \<noteq> [] \<or> mc_shard_template c \<noteq> [] \<or> exists_quiet (re_shard env (mc_namespace c)) then Inr shard
      else (case resolve_shard (re_shard env (mc_namespace c)) shard
                   \<lparr>ro_cells = map cl_name (mc_cells c), ro_backup = tgBackup, ro_materialize = False, ro_mode = mc_mode c\<rparr> of
              Inl err \<Rightarrow> Inl (ResolveFailed (sc_name shard) err)
            | Inr resolved \<Rightarrow> Inr (materialize_shard shard resolved)))"

definition materialize_group ::
  "resolve_env \<Rightarrow> cluster \<Rightarrow> backup_config option \<Rightarrow> table_group_config \<Rightarrow> default_error + table_group_config" where
  "materialize_group env c dbBackup tg =
     map_sum id (\<lambda>shards. tg\<lparr>tg_shards := shards\<rparr>)
       (map_err (materialize_shard_config env c (MergeBackupConfig (tg_backup tg) dbBackup)) (tg_shards tg))"

definition materialize_database :: "resolve_env \<Rightarrow> cluster \<Rightarrow> database_config \<Rightarrow> default_error + database_config" where
  "materialize_database env c db =
     map_sum id (\<lambda>groups. db\<lparr>db_table_groups := groups\<rparr>)
       (map_err (materialize_group env c (MergeBackupConfig (db_backup db) (mc_backup c))) (db_table_groups db))"

definition bind_err :: "'e + 'a \<Rightarrow> ('a \<Rightarrow> 'e + 'b) \<Rightarrow> 'e + 'b" where
  "bind_err x f = (case x of Inl e \<Rightarrow> Inl e | Inr v \<Rightarrow> f v)"

text \<open>
  \<^verbatim>\<open>Default\<close>: the static defaults are populated by the webhook's own resolver, bound to the operator's namespace;
  everything after it reads the namespace of the cluster. The trace context put into the annotations is not modelled.
\<close>

definition Default :: "resolve_env \<Rightarrow> string \<Rightarrow> cluster \<Rightarrow> default_error + cluster" where
  "Default env operatorNamespace cluster =
     (case PopulateClusterDefaults env operatorNamespace cluster of
        Inl err \<Rightarrow> Inl (PopulateFailed err)
      | Inr c0 \<Rightarrow>
          bind_err (materialize_topo env (promote_templates env c0)) (\<lambda>c.
          bind_err (materialize_admin env c) (\<lambda>c.
          bind_err (materialize_web env c) (\<lambda>c.
          bind_err (map_err (materialize_cell env c) (mc_cells c)) (\<lambda>cells.
          let c = c\<lparr>mc_cells := cells\<rparr>
          in map_sum id (\<lambda>dbs. c\<lparr>mc_databases := dbs\<rparr>) (map_err (materialize_database env c) (mc_databases c)))))))"

subsection \<open>Defaulting is idempotent\<close>

lemma find_missing:
  assumes "\<not> exists_quiet get" and "fst (resolve_template get blank [] Map.empty) = Inr t"
  shows "t = blank"
  using assms by (auto simp: exists_quiet_def template_exists_def resolve_template_def FallbackTemplate_def Let_def
      split: sum.splits if_splits)

lemma defaultEtcdSpec_idem [simp]: "defaultEtcdSpec (defaultEtcdSpec e r) r = defaultEtcdSpec e r"
  by (simp add: defaultEtcdSpec_def)

lemma defaultExternalTopoSpec_idem [simp]: "defaultExternalTopoSpec (defaultExternalTopoSpec e r) r = defaultExternalTopoSpec e r"
  by (simp add: defaultExternalTopoSpec_def)

lemma maintenance_default [simp]: "et_maintenance (defaultEtcdSpec e r) = et_maintenance e"
  by (simp add: defaultEtcdSpec_def)

lemma defaultStatelessSpec_idem [simp]: "defaultStatelessSpec (defaultStatelessSpec s r n) r n = defaultStatelessSpec s r n"
  by (simp add: defaultStatelessSpec_def)

lemma blank_core_for:
  assumes "\<not> uses_core env c ref" and "core_for env c ref = Inr tpl"
  shows "tpl = blank_core_template"
  using assms find_missing [of "re_core env (mc_namespace c)" blank_core_template tpl]
  by (auto simp: uses_core_def core_for_def ResolveCoreTemplate_def or_text_def)

lemma start_blank: "start_global_topo blank_core_template =
    \<lparr>gt_etcd = Some empty_etcd, gt_external = None, gt_template = [], gt_pvc_deletion_policy = None, gt_placement = None\<rparr>"
  by (simp add: start_global_topo_def blank_core_template_def)

lemma defaultExternal_secrets [simp]:
  "ex_ca_secret (defaultExternalTopoSpec e r) = ex_ca_secret e"
  "ex_client_cert_secret (defaultExternalTopoSpec e r) = ex_client_cert_secret e"
  by (simp_all add: defaultExternalTopoSpec_def)

lemma global_topo_stable:
  assumes unused: "\<not> uses_core env c (case mc_global_topo c of None \<Rightarrow> [] | Some g \<Rightarrow> gt_template g)"
    and res: "ResolveGlobalTopo env c = Inr g"
  shows "ResolveGlobalTopo env (c\<lparr>mc_global_topo := Some g\<rparr>) = Inr g" and "gt_template g = []"
    and "OperatorIssuesTopoClientCert (c\<lparr>mc_global_topo := Some g\<rparr>) = OperatorIssuesTopoClientCert c"
proof -
  let ?ref = "case mc_global_topo c of None \<Rightarrow> [] | Some g \<Rightarrow> gt_template g"
  obtain roots tpl where roots: "ForCluster env c = Inr roots" and tpl: "core_for env c ?ref = Inr tpl"
    using res by (auto simp: ResolveGlobalTopo_def Let_def split: sum.splits)
  have blank: "tpl = blank_core_template" using blank_core_for [OF unused tpl] .
  have ref: "?ref = []" using unused by (simp add: uses_core_def)
  let ?final = "overlay_global_topo (mc_global_topo c) (start_global_topo blank_core_template)"
  let ?etcd = "map_option (\<lambda>e. defaultEtcdSpec e (Global_root roots)) (gt_etcd ?final)"
  have ok: "check_compaction env ?etcd = None"
    and g: "g = ?final\<lparr>gt_etcd := ?etcd,
        gt_external := map_option (\<lambda>e. defaultExternalTopoSpec e (Global_root roots)) (gt_external ?final),
        gt_pvc_deletion_policy := set_opt (gt_pvc_deletion_policy ?final) (case mc_global_topo c of None \<Rightarrow> None | Some s \<Rightarrow> gt_pvc_deletion_policy s),
        gt_placement := set_opt (gt_placement ?final) (case mc_global_topo c of None \<Rightarrow> None | Some s \<Rightarrow> gt_placement s)\<rparr>"
    using res by (auto simp: ResolveGlobalTopo_def roots tpl blank Let_def split: option.splits)
  show template: "gt_template g = []"
    by (simp add: g overlay_global_topo_def start_blank split: option.split)
  show certs: "OperatorIssuesTopoClientCert (c\<lparr>mc_global_topo := Some g\<rparr>) = OperatorIssuesTopoClientCert c"
    by (simp add: OperatorIssuesTopoClientCert_def g overlay_global_topo_def start_blank split: option.split)
  have roots': "ForCluster env (c\<lparr>mc_global_topo := Some g\<rparr>) = Inr roots"
    using roots by (simp add: ForCluster_def certs)
  have core': "core_for env (c\<lparr>mc_global_topo := Some g\<rparr>) [] = Inr blank_core_template"
    using tpl by (simp add: ref blank core_for_def)
  have over: "overlay_global_topo (Some g) (start_global_topo blank_core_template) =
      g\<lparr>gt_pvc_deletion_policy := None, gt_placement := None\<rparr>"
    by (simp add: g overlay_global_topo_def start_blank etcd.empty_left split: option.split)
  have same: "map_option (\<lambda>e. defaultEtcdSpec e (Global_root roots)) (gt_etcd g) = gt_etcd g"
    "map_option (\<lambda>e. defaultExternalTopoSpec e (Global_root roots)) (gt_external g) = gt_external g"
    and ok': "check_compaction env (gt_etcd g) = None"
    using ok by (simp_all add: g option.map_comp comp_def)
  show "ResolveGlobalTopo env (c\<lparr>mc_global_topo := Some g\<rparr>) = Inr g"
    by (simp add: ResolveGlobalTopo_def roots' template core' over Let_def set_opt_laws same ok')
qed

lemma admin_stable:
  assumes unused: "\<not> uses_core env c (admin_template (mc_multiadmin c))" and res: "ResolveMultiadmin env c = Inr (s, p)"
  shows "ResolveMultiadmin env (c\<lparr>mc_multiadmin := Some ((or_blank (mc_multiadmin c))\<lparr>ad_spec := Some s,
        ad_placement := set_opt (ad_placement (or_blank (mc_multiadmin c))) p\<rparr>)\<rparr>) = Inr (s, p)"
    and "ad_template (or_blank (mc_multiadmin c)) = []"
    and "set_opt (set_opt (ad_placement (or_blank (mc_multiadmin c))) p) p = set_opt (ad_placement (or_blank (mc_multiadmin c))) p"
proof -
  obtain tpl where tpl: "core_for env c (admin_template (mc_multiadmin c)) = Inr tpl"
    using res by (auto simp: ResolveMultiadmin_def Let_def split: sum.splits)
  have blank: "tpl = blank_core_template" using blank_core_for [OF unused tpl] .
  have ref: "admin_template (mc_multiadmin c) = []" using unused by (simp add: uses_core_def)
  then show t: "ad_template (or_blank (mc_multiadmin c)) = []"
    by (simp add: admin_template_def or_blank_def blank_admin_def split: option.splits)
  have core: "core_for env (c\<lparr>mc_multiadmin := x\<rparr>) [] = Inr blank_core_template" for x
    using tpl by (simp add: ref blank core_for_def)
  have s: "s = defaultStatelessSpec (overlay_admin (mc_multiadmin c) empty_stateless) DefaultResourcesAdmin DefaultAdminReplicas"
    and p: "p = ad_placement (or_blank (mc_multiadmin c))"
    using res by (auto simp: ResolveMultiadmin_def Let_def tpl blank blank_core_template_def mergePodPlacementSpec_eq
        set_opt_laws or_blank_def blank_admin_def split: option.splits)
  show "ResolveMultiadmin env (c\<lparr>mc_multiadmin := Some ((or_blank (mc_multiadmin c))\<lparr>ad_spec := Some s,
        ad_placement := set_opt (ad_placement (or_blank (mc_multiadmin c))) p\<rparr>)\<rparr>) = Inr (s, p)"
    by (simp add: ResolveMultiadmin_def Let_def admin_template_def t core blank_core_template_def overlay_admin_def
        stateless.empty_left mergePodPlacementSpec_eq set_opt_laws) (simp add: s p set_opt_def)
  show "set_opt (set_opt (ad_placement (or_blank (mc_multiadmin c))) p) p = set_opt (ad_placement (or_blank (mc_multiadmin c))) p"
    by (simp add: set_opt_def)
qed

lemma web_stable:
  assumes unused: "\<not> uses_core env c (admin_template (mc_multiadmin_web c))" and res: "ResolveMultiadminWeb env c = Inr s"
  shows "ResolveMultiadminWeb env (c\<lparr>mc_multiadmin_web := Some ((or_blank (mc_multiadmin_web c))\<lparr>ad_spec := Some s\<rparr>)\<rparr>) = Inr s"
    and "ad_template (or_blank (mc_multiadmin_web c)) = []"
proof -
  obtain tpl where tpl: "core_for env c (admin_template (mc_multiadmin_web c)) = Inr tpl"
    using res by (auto simp: ResolveMultiadminWeb_def Let_def split: sum.splits)
  have blank: "tpl = blank_core_template" using blank_core_for [OF unused tpl] .
  have ref: "admin_template (mc_multiadmin_web c) = []" using unused by (simp add: uses_core_def)
  then show t: "ad_template (or_blank (mc_multiadmin_web c)) = []"
    by (simp add: admin_template_def or_blank_def blank_admin_def split: option.splits)
  have core: "core_for env (c\<lparr>mc_multiadmin_web := x\<rparr>) [] = Inr blank_core_template" for x
    using tpl by (simp add: ref blank core_for_def)
  have s: "s = defaultStatelessSpec (overlay_admin (mc_multiadmin_web c) empty_stateless) DefaultResourcesAdminWeb DefaultMultiadminWebReplicas"
    using res by (auto simp: ResolveMultiadminWeb_def Let_def tpl blank blank_core_template_def)
  show "ResolveMultiadminWeb env (c\<lparr>mc_multiadmin_web := Some ((or_blank (mc_multiadmin_web c))\<lparr>ad_spec := Some s\<rparr>)\<rparr>) = Inr s"
    by (simp add: ResolveMultiadminWeb_def Let_def admin_template_def t core blank_core_template_def overlay_admin_def
        stateless.empty_left) (simp add: s)
qed

lemma default_gateway_fields:
  "gw_stateless (default_gateway m g) = (if m = ModeLite
     then (gw_stateless g)\<lparr>sl_resources := or_resources DefaultResourcesGateway (sl_resources (gw_stateless g))\<rparr>
     else defaultStatelessSpec (gw_stateless g) DefaultResourcesGateway 1)"
  "gw_buffer (default_gateway m g) = (let b = (case gw_buffer g of None \<Rightarrow> empty_buffer | Some b \<Rightarrow> b)
     in Some (b\<lparr>gb_enabled := or_default True (gb_enabled b)\<rparr>))"
  "gw_cluster_views (default_gateway m g) = Some (or_default False (case gw_cluster_views g of None \<Rightarrow> None | Some v \<Rightarrow> v))"
  by (simp_all add: default_gateway_def defaultGatewayBuffer_def defaultGatewayClusterViews_def Let_def)

lemma default_gateway_idem: "default_gateway m (default_gateway m g) = default_gateway m g"
  by (rule gateway_spec.equality) (simp_all add: default_gateway_fields Let_def)

lemma default_gateway_absorb:
  "mergeMultigatewaySpec a (default_gateway m (mergeMultigatewaySpec a b)) = default_gateway m (mergeMultigatewaySpec a b)"
proof (rule gateway_spec.equality)
  show "gw_stateless (mergeMultigatewaySpec a (default_gateway m (mergeMultigatewaySpec a b)))
      = gw_stateless (default_gateway m (mergeMultigatewaySpec a b))"
    by (simp add: mergeMultigatewaySpec_def default_gateway_fields mergeStatelessSpec_def defaultStatelessSpec_def
        fill_absorb absorb_laws)
  show "gw_buffer (mergeMultigatewaySpec a (default_gateway m (mergeMultigatewaySpec a b)))
      = gw_buffer (default_gateway m (mergeMultigatewaySpec a b))"
    by (cases "gw_buffer a"; cases "gw_buffer b")
      (simp_all add: mergeMultigatewaySpec_def default_gateway_fields mergeGatewayBuffer_def merge_block_def Let_def
        merge_buffer_def empty_buffer_def fill_absorb absorb_laws field_laws
        fill_absorb(1) [where b = None, simplified field_laws] set_opt_laws(4) [where b = None, simplified field_laws])
  show "gw_cluster_views (mergeMultigatewaySpec a (default_gateway m (mergeMultigatewaySpec a b)))
      = gw_cluster_views (default_gateway m (mergeMultigatewaySpec a b))"
    by (cases "gw_cluster_views a"; cases "gw_cluster_views b")
      (simp_all add: mergeMultigatewaySpec_def default_gateway_fields mergeGatewayClusterViews_def merge_block_def
        fill_absorb field_laws fill_absorb(1) [where b = None, simplified field_laws])
qed simp

lemma mergeCellConfig_blank:
  "mergeCellConfig blank_cell_template ovr inl =
     (mergeMultigatewaySpec (case ovr of None \<Rightarrow> empty_gateway | Some v \<Rightarrow> (case co_gateway v of None \<Rightarrow> empty_gateway | Some g \<Rightarrow> g))
        (case inl of None \<Rightarrow> empty_gateway | Some i \<Rightarrow> ci_gateway i),
      set_opt (case ovr of None \<Rightarrow> None | Some v \<Rightarrow> co_placement v) (case inl of None \<Rightarrow> None | Some i \<Rightarrow> ci_placement i),
      (case inl of None \<Rightarrow> None | Some i \<Rightarrow> ci_local_topo i))"
  by (simp add: mergeCellConfig_def blank_cell_template_def Let_def mergePodPlacementSpec_eq set_opt_laws
      gateway.empty_left gateway.empty_right split: option.split)

lemma default_local_topo_idem [simp]: "default_local_topo r (default_local_topo r l) = default_local_topo r l"
  by (simp add: default_local_topo_def option.map_comp comp_def)

lemma cell_stable:
  assumes blank: "\<not> exists_quiet (re_cell env (mc_namespace c))" "cl_template cell = []"
    and res: "ResolveCell env c cell = Inr (g, p, l)"
  shows "ResolveCell env c (cell\<lparr>cl_spec := Some \<lparr>ci_gateway = g, ci_placement = p, ci_local_topo = l\<rparr>\<rparr>) = Inr (g, p, l)"
proof -
  let ?cell = "cell\<lparr>cl_spec := Some \<lparr>ci_gateway = g, ci_placement = p, ci_local_topo = l\<rparr>\<rparr>"
  obtain tpl where tpl: "fst (ResolveCellTemplate (re_cell env (mc_namespace c)) (cl_template cell) Map.empty) = Inr tpl"
    using res by (auto simp: ResolveCell_def split: sum.splits)
  have "fst (resolve_template (re_cell env (mc_namespace c)) blank_cell_template [] Map.empty) = Inr tpl"
    using tpl blank(2) by (simp add: ResolveCellTemplate_def EffectiveCellTemplateName_def resolve_template_def FallbackTemplate_def)
  then have t: "tpl = blank_cell_template" using find_missing [OF blank(1)] by blast
  have first: "resolve_cell_from env c cell blank_cell_template = Inr (g, p, l)"
    using res tpl by (simp add: ResolveCell_def t)
  have "resolve_cell_from env c ?cell blank_cell_template = Inr (g, p, l)"
    using first unfolding resolve_cell_from_def mergeCellConfig_blank
    by (auto simp: default_gateway_absorb default_gateway_idem absorb_laws Let_def split: option.splits sum.splits)
  then show ?thesis using tpl by (simp add: ResolveCell_def t)
qed

text \<open>What the resolution of the topology server and the admin components does not read.\<close>

lemma core_for_frame [simp]:
  "core_for env (c\<lparr>mc_multiadmin := a\<rparr>) = core_for env c" "core_for env (c\<lparr>mc_multiadmin_web := w\<rparr>) = core_for env c"
  "core_for env (c\<lparr>mc_cells := cs\<rparr>) = core_for env c" "core_for env (c\<lparr>mc_databases := ds\<rparr>) = core_for env c"
  by (rule ext, simp add: core_for_def)+

lemma ForCluster_frame [simp]:
  "ForCluster env (c\<lparr>mc_multiadmin := a\<rparr>) = ForCluster env c" "ForCluster env (c\<lparr>mc_multiadmin_web := w\<rparr>) = ForCluster env c"
  "ForCluster env (c\<lparr>mc_cells := cs\<rparr>) = ForCluster env c" "ForCluster env (c\<lparr>mc_databases := ds\<rparr>) = ForCluster env c"
  by (simp_all add: ForCluster_def OperatorIssuesTopoClientCert_def)

lemma ResolveGlobalTopo_frame [simp]:
  "ResolveGlobalTopo env (c\<lparr>mc_multiadmin := a\<rparr>) = ResolveGlobalTopo env c"
  "ResolveGlobalTopo env (c\<lparr>mc_multiadmin_web := w\<rparr>) = ResolveGlobalTopo env c"
  "ResolveGlobalTopo env (c\<lparr>mc_cells := cs\<rparr>) = ResolveGlobalTopo env c"
  "ResolveGlobalTopo env (c\<lparr>mc_databases := ds\<rparr>) = ResolveGlobalTopo env c"
  by (simp_all add: ResolveGlobalTopo_def Let_def cong: sum.case_cong)

text \<open>Each stage sets one field, and is at rest afterwards whatever the later stages set.\<close>

lemma topo_stage:
  assumes "materialize_topo env c = Inr d"
  obtains g where "d = c\<lparr>mc_global_topo := g\<rparr>"
    and "\<And>a w cs ds. let e = d\<lparr>mc_multiadmin := a, mc_multiadmin_web := w, mc_cells := cs, mc_databases := ds\<rparr> in materialize_topo env e = Inr e"
proof (cases "uses_core env c (case mc_global_topo c of None \<Rightarrow> [] | Some g \<Rightarrow> gt_template g)")
  case True
  then have "d = c" using assms by (simp add: materialize_topo_def)
  with True show ?thesis by (intro that [of "mc_global_topo c"]) (simp_all add: materialize_topo_def uses_core_def)
next
  case False
  with assms obtain g where g: "ResolveGlobalTopo env c = Inr g" and d: "d = c\<lparr>mc_global_topo := Some g\<rparr>"
    by (auto simp: materialize_topo_def split: sum.splits)
  note stable = global_topo_stable [OF False g]
  have "ResolveGlobalTopo env (d\<lparr>mc_multiadmin := a, mc_multiadmin_web := w, mc_cells := cs, mc_databases := ds\<rparr>) = ResolveGlobalTopo env d" for a w cs ds
    by simp
  with stable False d show ?thesis
    by (intro that [of "Some g"]) (simp_all add: materialize_topo_def uses_core_def)
qed

lemma admin_stage:
  assumes "materialize_admin env c = Inr d"
  obtains a where "d = c\<lparr>mc_multiadmin := a\<rparr>"
    and "\<And>w cs ds. let e = d\<lparr>mc_multiadmin_web := w, mc_cells := cs, mc_databases := ds\<rparr> in materialize_admin env e = Inr e"
proof (cases "uses_core env c (admin_template (mc_multiadmin c))")
  case True
  then have "d = c" using assms by (simp add: materialize_admin_def)
  with True show ?thesis by (intro that [of "mc_multiadmin c"]) (simp_all add: materialize_admin_def uses_core_def)
next
  case False
  with assms obtain s p where r: "ResolveMultiadmin env c = Inr (s, p)"
    and d: "d = c\<lparr>mc_multiadmin := Some ((or_blank (mc_multiadmin c))\<lparr>ad_spec := Some s,
      ad_placement := set_opt (ad_placement (or_blank (mc_multiadmin c))) p\<rparr>)\<rparr>"
    by (auto simp: materialize_admin_def split: sum.splits)
  note stable = admin_stable [OF False r]
  have "ResolveMultiadmin env (d\<lparr>mc_multiadmin_web := w, mc_cells := cs, mc_databases := ds\<rparr>) = ResolveMultiadmin env d" for w cs ds
    by (simp add: ResolveMultiadmin_def Let_def cong: sum.case_cong)
  with stable False show ?thesis
    by (intro that [OF d]) (simp_all add: d materialize_admin_def uses_core_def admin_template_def or_blank_def)
qed

lemma web_stage:
  assumes "materialize_web env c = Inr d"
  obtains a where "d = c\<lparr>mc_multiadmin_web := a\<rparr>"
    and "\<And>cs ds. let e = d\<lparr>mc_cells := cs, mc_databases := ds\<rparr> in materialize_web env e = Inr e"
proof (cases "uses_core env c (admin_template (mc_multiadmin_web c))")
  case True
  then have "d = c" using assms by (simp add: materialize_web_def)
  with True show ?thesis by (intro that [of "mc_multiadmin_web c"]) (simp_all add: materialize_web_def uses_core_def)
next
  case False
  with assms obtain s where r: "ResolveMultiadminWeb env c = Inr s"
    and d: "d = c\<lparr>mc_multiadmin_web := Some ((or_blank (mc_multiadmin_web c))\<lparr>ad_spec := Some s\<rparr>)\<rparr>"
    by (auto simp: materialize_web_def split: sum.splits)
  note stable = web_stable [OF False r]
  have "ResolveMultiadminWeb env (d\<lparr>mc_cells := cs, mc_databases := ds\<rparr>) = ResolveMultiadminWeb env d" for cs ds
    by (simp add: ResolveMultiadminWeb_def Let_def cong: sum.case_cong)
  with stable False show ?thesis
    by (intro that [OF d]) (simp_all add: d materialize_web_def uses_core_def admin_template_def or_blank_def)
qed

lemma map_sum_Inr [simp]: "map_sum f g x = Inr y \<longleftrightarrow> (\<exists>z. x = Inr z \<and> y = g z)"
  by (cases x) auto

lemma map_err_stable:
  assumes "map_err f xs = Inr ys" and "\<And>x y. x \<in> set xs \<Longrightarrow> f x = Inr y \<Longrightarrow> g y = Inr y"
  shows "map_err g ys = Inr ys"
  using assms
proof (induction xs arbitrary: ys)
  case (Cons x xs)
  then obtain y zs where "f x = Inr y" "map_err f xs = Inr zs" "ys = y # zs" by (auto split: sum.splits)
  moreover have "g y = Inr y" using Cons.prems(2) [of x y] \<open>f x = Inr y\<close> by simp
  moreover have "map_err g zs = Inr zs" by (rule Cons.IH [OF \<open>map_err f xs = Inr zs\<close>], rule Cons.prems(2), simp_all)
  ultimately show ?case by simp
qed simp

lemma map_err_length: "map_err f xs = Inr ys \<Longrightarrow> length ys = length xs"
  by (induction xs arbitrary: ys) (auto split: sum.splits)

lemma map_err_map: "map_err f xs = Inr ys \<Longrightarrow> (\<And>x y. f x = Inr y \<Longrightarrow> h y = k x) \<Longrightarrow> map h ys = map k xs"
  by (induction xs arbitrary: ys) (auto split: sum.splits)

lemma map_err_set: "map_err f xs = Inr ys \<Longrightarrow> y \<in> set ys \<Longrightarrow> \<exists>x\<in>set xs. f x = Inr y"
  by (induction xs arbitrary: ys) (auto split: sum.splits)

lemma cell_stage:
  assumes "materialize_cell env c cell = Inr cell'"
  shows "materialize_cell env (c\<lparr>mc_cells := cs, mc_databases := ds\<rparr>) cell' = Inr cell'" and "cl_name cell' = cl_name cell"
proof -
  have same: "ResolveCell env (c\<lparr>mc_cells := cs, mc_databases := ds\<rparr>) x = ResolveCell env c x" for x
    by (simp add: ResolveCell_def resolve_cell_from_def Let_def cong: sum.case_cong option.case_cong)
  show "materialize_cell env (c\<lparr>mc_cells := cs, mc_databases := ds\<rparr>) cell' = Inr cell'"
    using assms cell_stable [of env c cell]
    by (auto simp: materialize_cell_def same split: if_splits sum.splits)
  show "cl_name cell' = cl_name cell"
    using assms by (auto simp: materialize_cell_def split: if_splits sum.splits)
qed

text \<open>The shards read the cells' names, the mode, the namespace, the template default and the backup of the cluster.\<close>

definition same_scope :: "cluster \<Rightarrow> cluster \<Rightarrow> bool" where
  "same_scope c d \<longleftrightarrow> mc_namespace d = mc_namespace c \<and> mc_mode d = mc_mode c \<and> mc_shard_template d = mc_shard_template c
     \<and> map cl_name (mc_cells d) = map cl_name (mc_cells c) \<and> mc_backup d = mc_backup c"

definition backup_ok :: "backup_config option \<Rightarrow> bool" where
  "backup_ok b \<longleftrightarrow> (case b of None \<Rightarrow> True | Some x \<Rightarrow> backup_block_set x)"

lemma MergeBackupConfig_ok: "backup_ok c \<Longrightarrow> backup_ok p \<Longrightarrow> backup_ok (MergeBackupConfig c p)"
  by (auto simp: backup_ok_def MergeBackupConfig_def merge_details_def fill_block_def backup_block_set_def Let_def
      split: option.splits)

lemma shard_stage:
  assumes "materialize_shard_config env c b shard = Inr shard'" and "same_scope c d" and "backup_ok b"
  shows "materialize_shard_config env d b shard' = Inr shard'"
proof (cases "sc_template shard \<noteq> [] \<or> mc_shard_template c \<noteq> [] \<or> exists_quiet (re_shard env (mc_namespace c))")
  case True
  with assms show ?thesis by (auto simp: materialize_shard_config_def same_scope_def)
next
  case False
  let ?get = "re_shard env (mc_namespace c)"
  let ?opts = "\<lparr>ro_cells = map cl_name (mc_cells c), ro_backup = b, ro_materialize = False, ro_mode = mc_mode c\<rparr>"
  from False assms(1) obtain res where r: "resolve_shard ?get shard ?opts = Inr res" and s': "shard' = materialize_shard shard res"
    by (auto simp: materialize_shard_config_def split: sum.splits)
  from r False obtain tpl where t: "find_template ?get empty_template [] = Inr tpl" and res: "res = resolve_from tpl shard ?opts"
    by (auto simp: resolve_shard_def)
  from t False have blank: "tpl = empty_template" using find_missing [of ?get empty_template tpl] by (simp add: find_template_def)
  have template: "sc_template shard' = []" using False by (simp add: s' materialize_shard_def Let_def)
  have "resolve_from empty_template shard' ?opts = res"
    unfolding s' res blank using assms(3) by (intro materialized_stable) (simp add: backup_ok_def)
  then have "resolve_shard ?get shard' ?opts = Inr res" by (simp add: resolve_shard_def template t blank)
  moreover have "materialize_shard shard' res = shard'" by (cases "rs_pvc_deletion_policy res") (simp_all add: s' materialize_shard_def Let_def split: option.split)
  ultimately show ?thesis using assms(2) False template by (simp add: materialize_shard_config_def same_scope_def)
qed

definition group_backups_ok :: "table_group_config \<Rightarrow> bool" where
  "group_backups_ok tg \<longleftrightarrow> backup_ok (tg_backup tg)"

definition database_backups_ok :: "database_config \<Rightarrow> bool" where
  "database_backups_ok db \<longleftrightarrow> backup_ok (db_backup db) \<and> list_all group_backups_ok (db_table_groups db)"

text \<open>The rule of the resource definition that an S3 backup has its S3 block, at every level that is inherited.\<close>

definition cluster_backups_ok :: "cluster \<Rightarrow> bool" where
  "cluster_backups_ok c \<longleftrightarrow> backup_ok (mc_backup c) \<and> list_all database_backups_ok (mc_databases c)"

lemma group_stage:
  assumes "materialize_group env c b tg = Inr tg'" and "same_scope c d" and "backup_ok b" and "group_backups_ok tg"
  shows "materialize_group env d b tg' = Inr tg'"
proof -
  obtain ss where ss: "map_err (materialize_shard_config env c (MergeBackupConfig (tg_backup tg) b)) (tg_shards tg) = Inr ss"
    and tg': "tg' = tg\<lparr>tg_shards := ss\<rparr>"
    using assms(1) by (auto simp: materialize_group_def)
  have "map_err (materialize_shard_config env d (MergeBackupConfig (tg_backup tg) b)) ss = Inr ss"
    using ss by (rule map_err_stable) (use assms in \<open>auto intro: shard_stage MergeBackupConfig_ok simp: group_backups_ok_def\<close>)
  then show ?thesis by (simp add: materialize_group_def tg')
qed

lemma database_stage:
  assumes "materialize_database env c db = Inr db'" and scope: "same_scope c d" and "backup_ok (mc_backup c)" and "database_backups_ok db"
  shows "materialize_database env d db' = Inr db'"
proof -
  let ?b = "MergeBackupConfig (db_backup db) (mc_backup c)"
  obtain gs where gs: "map_err (materialize_group env c ?b) (db_table_groups db) = Inr gs" and db': "db' = db\<lparr>db_table_groups := gs\<rparr>"
    using assms(1) by (auto simp: materialize_database_def)
  have "map_err (materialize_group env d ?b) gs = Inr gs"
    using gs by (rule map_err_stable)
      (use assms in \<open>auto intro: group_stage MergeBackupConfig_ok simp: database_backups_ok_def list_all_iff\<close>)
  then show ?thesis using scope by (simp add: materialize_database_def db' same_scope_def)
qed

text \<open>What the static defaults establish, and every later stage keeps.\<close>

definition full_database :: "database_config \<Rightarrow> bool" where
  "full_database db \<longleftrightarrow> db_table_groups db \<noteq> [] \<and> list_all (\<lambda>tg. tg_shards tg \<noteq> []) (db_table_groups db)"

definition populated :: "cluster \<Rightarrow> bool" where
  "populated c \<longleftrightarrow> mc_image_pull_policy c \<noteq> [] \<and> mc_topology_pruning c \<noteq> None \<and> mc_durability_policy c \<noteq> []
     \<and> default_log_levels (mc_log_levels c) = mc_log_levels c \<and> mc_pvc_deletion_policy c \<noteq> None \<and> mc_backup c \<noteq> None
     \<and> mc_databases c \<noteq> []
     \<and> list_all full_database (mc_databases c)"

lemma default_database_full: "full_database (default_database h i db)"
  by (auto simp: full_database_def default_database_def default_table_group_def list_all_iff)

lemma PopulateClusterDefaults_populated:
  assumes "PopulateClusterDefaults env ns c = Inr d"
  shows "populated d" and "mc_shard_template d = mc_shard_template c" and "cluster_backups_ok c \<Longrightarrow> cluster_backups_ok d"
proof -
  obtain h i where d: "d = (static_defaults c)\<lparr>mc_databases := map (default_database h i) (mc_databases (static_defaults c))\<rparr>"
    using assms by (auto simp: PopulateClusterDefaults_def Let_def split: sum.splits)
  show "mc_shard_template d = mc_shard_template c" by (simp add: d static_defaults_def)
  show "populated d"
    by (simp add: d populated_def default_database_full list_all_iff [of _ "map f xs" for f xs])
      (simp add: static_defaults_def default_log_levels_def DefaultImagePullPolicy_def DefaultDurabilityPolicy_def
        or_default_def split: option.split)
  assume "cluster_backups_ok c"
  then show "cluster_backups_ok d"
    by (auto simp: d cluster_backups_ok_def static_defaults_def backup_ok_def backup_block_set_def or_default_def
        database_backups_ok_def default_database_def default_table_group_def
        group_backups_ok_def list_all_iff split: option.splits)
qed

lemma populated_rest:
  assumes "populated c" and "mc_shard_template c = [] \<Longrightarrow> template_exists (re_shard env ns) FallbackTemplate = Inr b"
  shows "PopulateClusterDefaults env ns c = Inr c"
proof -
  have "static_defaults c = c"
    using assms(1) by (intro cluster.equality) (simp_all add: populated_def static_defaults_def or_text_def or_default_def split: option.splits)
  moreover have "map (default_database h i) (mc_databases c) = mc_databases c" for h i
  proof (rule map_idI)
    fix db assume "db \<in> set (mc_databases c)"
    with assms(1) have "db_table_groups db \<noteq> []" "\<forall>tg\<in>set (db_table_groups db). tg_shards tg \<noteq> []"
      by (auto simp: populated_def full_database_def list_all_iff)
    then have "map (default_table_group h i) (db_table_groups db) = db_table_groups db"
      by (intro map_idI) (simp add: default_table_group_def)
    then show "default_database h i db = db" using \<open>db_table_groups db \<noteq> []\<close> by (simp add: default_database_def)
  qed
  ultimately show ?thesis using assms(2) by (cases "mc_shard_template c") (simp_all add: PopulateClusterDefaults_def Let_def)
qed

lemma map_err_list_all:
  assumes "map_err f xs = Inr ys" and "list_all P xs" and "\<And>x y. f x = Inr y \<Longrightarrow> P x \<Longrightarrow> Q y"
  shows "list_all Q ys"
  using assms(2) map_err_set [OF assms(1)] assms(3) by (metis list_all_iff)

lemma databases_full:
  assumes "map_err (materialize_database env c) dbs = Inr dbs'" and "list_all full_database dbs"
  shows "list_all full_database dbs'"
  using assms
proof (rule map_err_list_all)
  fix db db'
  assume "materialize_database env c db = Inr db'" and full: "full_database db"
  then obtain b gs where gs: "map_err (materialize_group env c b) (db_table_groups db) = Inr gs" and db': "db' = db\<lparr>db_table_groups := gs\<rparr>"
    by (auto simp: materialize_database_def)
  have "list_all (\<lambda>tg. tg_shards tg \<noteq> []) gs"
    using gs by (rule map_err_list_all [where P = "\<lambda>tg. tg_shards tg \<noteq> []"])
      (use full in \<open>auto simp: full_database_def materialize_group_def dest: map_err_length\<close>)
  then show "full_database db'" using map_err_length [OF gs] full by (auto simp: full_database_def db')
qed

lemma Default_stages:
  assumes "Default env ns c = Inr d"
  obtains c0 g a w cells dbs where "PopulateClusterDefaults env ns c = Inr c0"
    and "d = (promote_templates env c0)\<lparr>mc_global_topo := g, mc_multiadmin := a, mc_multiadmin_web := w, mc_cells := cells, mc_databases := dbs\<rparr>"
    and "materialize_topo env d = Inr d" and "materialize_admin env d = Inr d" and "materialize_web env d = Inr d"
    and "map_err (materialize_cell env d) cells = Inr cells" and "map cl_name cells = map cl_name (mc_cells c0)"
    and "map_err (materialize_database env (d\<lparr>mc_databases := mc_databases c0\<rparr>)) (mc_databases c0) = Inr dbs"
proof -
  obtain c0 where c0: "PopulateClusterDefaults env ns c = Inr c0" using assms by (auto simp: Default_def split: sum.splits)
  let ?p = "promote_templates env c0"
  obtain c1 c2 c3 cells dbs where topo: "materialize_topo env ?p = Inr c1" and admin: "materialize_admin env c1 = Inr c2"
    and web: "materialize_web env c2 = Inr c3" and cells: "map_err (materialize_cell env c3) (mc_cells c3) = Inr cells"
    and dbs: "map_err (materialize_database env (c3\<lparr>mc_cells := cells\<rparr>)) (mc_databases c3) = Inr dbs"
    and d: "d = c3\<lparr>mc_cells := cells, mc_databases := dbs\<rparr>"
    using assms c0 by (auto simp: Default_def bind_err_def Let_def split: sum.splits)
  obtain g where c1: "c1 = ?p\<lparr>mc_global_topo := g\<rparr>"
    and t: "\<And>a w cs ds. let e = c1\<lparr>mc_multiadmin := a, mc_multiadmin_web := w, mc_cells := cs, mc_databases := ds\<rparr> in materialize_topo env e = Inr e"
    using topo_stage [OF topo] by metis
  obtain a where c2: "c2 = c1\<lparr>mc_multiadmin := a\<rparr>"
    and a: "\<And>w cs ds. let e = c2\<lparr>mc_multiadmin_web := w, mc_cells := cs, mc_databases := ds\<rparr> in materialize_admin env e = Inr e"
    using admin_stage [OF admin] by metis
  obtain w where c3: "c3 = c2\<lparr>mc_multiadmin_web := w\<rparr>"
    and w: "\<And>cs ds. let e = c3\<lparr>mc_cells := cs, mc_databases := ds\<rparr> in materialize_web env e = Inr e"
    using web_stage [OF web] by metis
  have keep: "mc_cells c3 = mc_cells c0" "mc_databases c3 = mc_databases c0" by (simp_all add: c3 c2 c1 promote_templates_def)
  have t': "materialize_topo env d = Inr d"
    using t [where a = a and w = w and cs = cells and ds = dbs] by (simp only: Let_def d c3 c2)
  have a': "materialize_admin env d = Inr d"
    using a [where w = w and cs = cells and ds = dbs] by (simp only: Let_def d c3)
  have w': "materialize_web env d = Inr d"
    using w [where cs = cells and ds = dbs] by (simp only: Let_def d)
  have cells': "map_err (materialize_cell env d) cells = Inr cells"
    unfolding d using cells by (rule map_err_stable) (rule cell_stage)
  have names: "map cl_name cells = map cl_name (mc_cells c0)"
    using map_err_map [OF cells, of cl_name cl_name] cell_stage(2) keep by auto
  have "d\<lparr>mc_databases := mc_databases c0\<rparr> = c3\<lparr>mc_cells := cells\<rparr>" by (simp add: d flip: keep)
  then have dbs': "map_err (materialize_database env (d\<lparr>mc_databases := mc_databases c0\<rparr>)) (mc_databases c0) = Inr dbs"
    using dbs keep by simp
  have "d = ?p\<lparr>mc_global_topo := g, mc_multiadmin := a, mc_multiadmin_web := w, mc_cells := cells, mc_databases := dbs\<rparr>"
    by (simp add: d c3 c2 c1)
  then show ?thesis using t' a' w' cells' names dbs' by (rule that [OF c0])
qed

text \<open>
  C32: defaulting is idempotent. A cluster that the webhook has defaulted passes through it again unchanged: nothing is
  defaulted twice, no layer overrides what an earlier pass stored, and the second pass cannot fail where the first did not.
\<close>

theorem Default_idempotent:
  assumes "Default env ns c = Inr d" and "cluster_backups_ok c"
  shows "Default env ns d = Inr d"
proof -
  obtain c0 g a w cells dbs where c0: "PopulateClusterDefaults env ns c = Inr c0"
    and d: "d = (promote_templates env c0)\<lparr>mc_global_topo := g, mc_multiadmin := a, mc_multiadmin_web := w, mc_cells := cells, mc_databases := dbs\<rparr>"
    and rest: "materialize_topo env d = Inr d" "materialize_admin env d = Inr d" "materialize_web env d = Inr d"
      "map_err (materialize_cell env d) cells = Inr cells"
    and names: "map cl_name cells = map cl_name (mc_cells c0)"
    and dbs: "map_err (materialize_database env (d\<lparr>mc_databases := mc_databases c0\<rparr>)) (mc_databases c0) = Inr dbs"
    using Default_stages [OF assms(1)] by metis
  note pop = PopulateClusterDefaults_populated [OF c0]
  have "populated d"
    using pop(1) databases_full [OF dbs] map_err_length [OF dbs] by (auto simp: populated_def d promote_templates_def)
  moreover have "mc_shard_template d = [] \<Longrightarrow> \<exists>b. template_exists (re_shard env ns) FallbackTemplate = Inr b"
    using c0 pop(2) by (auto simp: d promote_templates_def promote_def PopulateClusterDefaults_def static_defaults_def Let_def
        split: if_splits sum.splits)
  ultimately have again: "PopulateClusterDefaults env ns d = Inr d" using populated_rest by metis
  have promoted: "promote_templates env d = d" by (simp add: d promote_templates_def promote_def)
  have "map_err (materialize_database env d) dbs = Inr dbs"
    using dbs
  proof (rule map_err_stable)
    fix db db'
    assume db: "db \<in> set (mc_databases c0)" "materialize_database env (d\<lparr>mc_databases := mc_databases c0\<rparr>) db = Inr db'"
    have "backup_ok (mc_backup d)" "database_backups_ok db"
      using pop(3) [OF assms(2)] db(1) by (auto simp: cluster_backups_ok_def list_all_iff d promote_templates_def)
    then show "materialize_database env d db' = Inr db'"
      by (intro database_stage [OF db(2)]) (simp_all add: same_scope_def)
  qed
  moreover have "mc_cells d = cells" "mc_databases d = dbs" and same: "d\<lparr>mc_cells := cells\<rparr> = d" "d\<lparr>mc_databases := dbs\<rparr> = d"
    by (simp_all add: d)
  ultimately show ?thesis using again promoted rest by (simp add: Default_def bind_err_def Let_def same)
qed

text \<open>With a template default for shards nothing is materialized for them.\<close>

lemma map_err_id: "(\<And>x. f x = Inr x) \<Longrightarrow> map_err f xs = Inr xs"
  by (induction xs) simp_all

lemma materialize_database_template: "mc_shard_template c \<noteq> [] \<Longrightarrow> materialize_database env c db = Inr db"
  by (simp add: materialize_database_def materialize_group_def materialize_shard_config_def map_err_id)

lemma inline_pool_stays:
  assumes "sc_spec shard = Some i" and "fmlookup (si_pools i) name \<noteq> None"
  shows "fmlookup (rs_pools (resolve_from tpl shard opts)) name \<noteq> None"
proof -
  let ?m = "merged_shard tpl shard opts"
  have "resolved_layer ?m = merge_layer (merge_layer (template_layer tpl) (layer_or overrides_layer (sc_overrides shard))) (inline_layer i)"
    using merge_shard_layers [of tpl "sc_overrides shard" "sc_spec shard" "sc_backup shard" "ro_backup opts"] assms(1)
    by (simp add: merged_shard_def layer_or_def)
  then have "rs_pools ?m = merge_pools (ly_pools (merge_layer (template_layer tpl) (layer_or overrides_layer (sc_overrides shard)))) (si_pools i)"
    by (simp add: resolved_layer_def merge_layer_def inline_layer_def)
  then have "fmlookup (rs_pools ?m) name \<noteq> None" using assms(2) by (auto simp: lookup_merge_fmap split: option.split)
  then show ?thesis by (auto simp: resolve_from_fields fmempty_iff)
qed

text \<open>
  a cluster that asks for nothing, in a namespace whose own \<^verbatim>\<open>default\<close> ShardTemplate exists, is defaulted to that template
  and still gets the hard-coded inline pool when the operator's namespace has no such template, because the static
  defaults look in the operator's namespace. The pool appears beside the template's pools in every shard.
\<close>

theorem Default_foreign_fallback:
  assumes "mc_databases c = []" and "mc_cells c \<noteq> []" and "mc_shard_template c = []"
    and "re_shard env operatorNamespace FallbackTemplate = Inl NotFound"
    and "re_shard env (mc_namespace c) FallbackTemplate = Inr tpl"
    and "Default env operatorNamespace c = Inr d"
  shows "mc_shard_template d = FallbackTemplate \<and> mc_databases d \<noteq> []
    \<and> (\<forall>db\<in>set (mc_databases d). \<forall>tg\<in>set (db_table_groups db). \<forall>shard\<in>set (tg_shards tg).
          fmlookup (rs_pools (resolve_from tpl shard opts)) DefaultPoolName \<noteq> None)"
proof -
  obtain c0 g a w cells dbs where c0: "PopulateClusterDefaults env operatorNamespace c = Inr c0"
    and d: "d = (promote_templates env c0)\<lparr>mc_global_topo := g, mc_multiadmin := a, mc_multiadmin_web := w, mc_cells := cells, mc_databases := dbs\<rparr>"
    and dbs: "map_err (materialize_database env (d\<lparr>mc_databases := mc_databases c0\<rparr>)) (mc_databases c0) = Inr dbs"
    using Default_stages [OF assms(6)] by metis
  have c0': "mc_namespace c0 = mc_namespace c" "mc_shard_template c0 = []"
    "mc_databases c0 = map (default_database True True) (mc_databases (static_defaults c))"
    using c0 assms(2-4) by (auto simp: PopulateClusterDefaults_def static_defaults_def Let_def template_exists_def FallbackTemplate_def)
  have template: "mc_shard_template d = FallbackTemplate"
    using assms(5) by (simp add: d promote_templates_def promote_def c0' exists_quiet_def template_exists_def FallbackTemplate_def)
  have "map_err (materialize_database env (d\<lparr>mc_databases := mc_databases c0\<rparr>)) (mc_databases c0) = Inr (mc_databases c0)"
    by (rule map_err_id, rule materialize_database_template) (simp add: template FallbackTemplate_def)
  then have "mc_databases d = mc_databases c0" using dbs by (simp add: d)
  then have "mc_databases d = [default_database True True \<lparr>db_name = DefaultSystemDatabaseName, db_default = True, db_table_groups = [],
      db_backup = None, db_durability_policy = []\<rparr>]"
    using assms(1) by (simp add: c0' static_defaults_def)
  then show ?thesis using template
    by (auto simp: default_database_def default_table_group_def default_shard_def DefaultPoolName_def
        intro!: inline_pool_stays [simplified])
qed

subsection \<open>Instances\<close>

definition demo_cluster :: cluster where
  "demo_cluster = \<lparr>mc_name = ''c'', mc_namespace = ''team'', mc_annotations = Map.empty, mc_mode = [], mc_image_pull_policy = [],
     mc_topology_pruning = None, mc_durability_policy = [],
     mc_log_levels = \<lparr>ll_pgctld = [], ll_multipooler = [], ll_multiorch = [], ll_multiadmin = [], ll_multigateway = []\<rparr>,
     mc_pvc_deletion_policy = None, mc_backup = None, mc_core_template = [], mc_cell_template = [], mc_shard_template = [],
     mc_global_topo = None, mc_multiadmin = None, mc_multiadmin_web = None,
     mc_cells = [\<lparr>cl_name = ''z1'', cl_zone_id = ''use1-az1'', cl_region = [], cl_metadata = [], cl_template = [],
       cl_overrides = None, cl_spec = None\<rparr>],
     mc_databases = [], mc_topo_tls = None, mc_external_gateway = None, mc_external_admin_web = None\<rparr>"

definition demo_env :: "(string \<Rightarrow> shard_template template_getter) \<Rightarrow> resolve_env" where
  "demo_env shards = \<lparr>re_shard = shards, re_cell = (\<lambda>_ _. Inl NotFound), re_core = (\<lambda>_ _. Inl NotFound), re_digest = id,
     re_parse_duration = (\<lambda>_. Some 3600000000000)\<rparr>"

definition team_template :: "string \<Rightarrow> shard_template template_getter" where
  "team_template ns name = (if ns = ''team'' \<and> name = ''default'' then Inr empty_template else Inl NotFound)"

lemma demo_backups_ok: "cluster_backups_ok demo_cluster"
  by (simp add: cluster_backups_ok_def demo_cluster_def backup_ok_def)

lemma demo_template: "\<not> isl (Default (demo_env team_template) ''op'' demo_cluster)"
  by code_simp

lemma demo_plain: "\<not> isl (Default (demo_env (\<lambda>_ _. Inl NotFound)) ''op'' demo_cluster)"
  by code_simp
text \<open>Both demonstration clusters are defaulted without an error, and the second pass changes nothing.\<close>

theorem Default_idempotent_witness:
  "\<exists>d. Default (demo_env (\<lambda>_ _. Inl NotFound)) ''op'' demo_cluster = Inr d \<and> Default (demo_env (\<lambda>_ _. Inl NotFound)) ''op'' d = Inr d"
proof -
  obtain d where d: "Default (demo_env (\<lambda>_ _. Inl NotFound)) ''op'' demo_cluster = Inr d"
    using demo_plain by (cases "Default (demo_env (\<lambda>_ _. Inl NotFound)) ''op'' demo_cluster") auto
  then show ?thesis using Default_idempotent [OF d demo_backups_ok] by blast
qed

theorem Default_foreign_fallback_witness:
  "\<exists>d. Default (demo_env team_template) ''op'' demo_cluster = Inr d \<and> mc_shard_template d = FallbackTemplate"
proof -
  obtain d where d: "Default (demo_env team_template) ''op'' demo_cluster = Inr d"
    using demo_template by (cases "Default (demo_env team_template) ''op'' demo_cluster") auto
  have "mc_shard_template d = FallbackTemplate"
    using Default_foreign_fallback [OF _ _ _ _ _ d, of empty_template]
    by (simp add: demo_cluster_def demo_env_def team_template_def FallbackTemplate_def)
  with d show ?thesis by blast
qed

end
