(* ===== verification/Cluster_Validation.thy ===== *)
theory Cluster_Validation
  imports Cluster_Defaults Name_Hash
begin

text \<open>
  What the validating webhook checks of a cluster (\<^verbatim>\<open>pkg/resolver/validation.go\<close>): that the templates it names exist, and
  that what its shards and cells resolve to can run. Comparison of resource quantities and the parser of IP addresses
  are arguments. Go ranges over its maps in any order; the model takes the names in order, which only decides which of
  several errors is reported and how the warnings are sorted.
\<close>

subsection \<open>Checks in sequence\<close>

fun check_all :: "('a \<Rightarrow> 'e option) \<Rightarrow> 'a list \<Rightarrow> 'e option" where
  "check_all f [] = None"
| "check_all f (x # xs) = (case f x of Some e \<Rightarrow> Some e | None \<Rightarrow> check_all f xs)"

definition first_of :: "'e option list \<Rightarrow> 'e option" where
  "first_of = check_all id"

lemma check_all_None [simp]: "check_all f xs = None \<longleftrightarrow> (\<forall>x\<in>set xs. f x = None)"
  by (induction xs) (simp_all split: option.split)

lemma check_if: "(if ok then None else Some e) = None \<longleftrightarrow> ok"
  by simp

lemma first_of_None [simp]: "first_of xs = None \<longleftrightarrow> (\<forall>x\<in>set xs. x = None)"
  by (simp add: first_of_def)

definition pool_list :: "pool_map \<Rightarrow> (string \<times> pool_spec) list" where
  "pool_list m = map (\<lambda>n. (n, the (fmlookup m n))) (sorted_list_of_fset (fmdom m))"

lemma set_pool_list: "(n, p) \<in> set (pool_list m) \<longleftrightarrow> fmlookup m n = Some p"
  by (auto simp: pool_list_def fmlookup_dom_iff)

lemma fmran'_pool_list: "fmran' m = snd ` set (pool_list m)"
proof (rule set_eqI)
  fix p
  show "p \<in> fmran' m \<longleftrightarrow> p \<in> snd ` set (pool_list m)"
    unfolding fmlookup_ran'_iff by (auto simp: image_iff Bex_def set_pool_list)
qed

lemma pool_list_all: "(\<forall>x\<in>set (pool_list m). P x) \<longleftrightarrow> (\<forall>n p. fmlookup m n = Some p \<longrightarrow> P (n, p))"
  using set_pool_list by fastforce

subsection \<open>Errors, warnings and what is read\<close>

datatype validation_error =
    TemplateMissing string | TemplateReadFailed api_error
  | InvalidExternalIP string string | LimitBelowRequest string string
  | CellUnresolved string resolve_error | BufferInvalid string string
  | LiteMode string | OrphanCheckFailed resolve_error | ShardUnresolved string resolve_error
  | InvalidPoolName string string | ShardWithoutCells string | PoolWithoutCells string string
  | ShardInUnknownCell string string | PoolInUnknownCell string string string
  | RunAsUserMismatch string string
  | StorageClassUnreadable api_error | NoDefaultStorageClass "string list"

datatype warning =
    CellWithoutNodes string string string | SingleEtcdReplica | NoExternalIPs string
  | OrphanPoolOverride string string | TooFewCells string nat string | TooFewPoolers string int string
  | BackupVolumeShared string int

record validate_env =
  ve_env :: resolve_env
  ve_cmp :: "string \<Rightarrow> string \<Rightarrow> int"
  ve_parse_ip :: "string \<Rightarrow> bool"
  ve_nodes :: "api_error + labels list"
  ve_storage_classes :: "api_error + labels list"

subsection \<open>References to templates\<close>

definition validate_reference :: "'a template_getter \<Rightarrow> string \<Rightarrow> validation_error option" where
  "validate_reference get name =
     (if name = [] then None
      else (case template_exists get name of
              Inl err \<Rightarrow> Some (TemplateReadFailed err)
            | Inr found \<Rightarrow> if found then None else Some (TemplateMissing name)))"

definition ValidateCoreTemplateReference :: "resolve_env \<Rightarrow> string \<Rightarrow> string \<Rightarrow> validation_error option" where
  "ValidateCoreTemplateReference env ns = validate_reference (re_core env ns)"

definition ValidateCellTemplateReference :: "resolve_env \<Rightarrow> string \<Rightarrow> string \<Rightarrow> validation_error option" where
  "ValidateCellTemplateReference env ns = validate_reference (re_cell env ns)"

definition ValidateShardTemplateReference :: "resolve_env \<Rightarrow> string \<Rightarrow> string \<Rightarrow> validation_error option" where
  "ValidateShardTemplateReference env ns = validate_reference (re_shard env ns)"

definition cluster_shards :: "cluster \<Rightarrow> shard_config list" where
  "cluster_shards c = concat (map (\<lambda>db. concat (map tg_shards (db_table_groups db))) (mc_databases c))"

definition ValidateClusterIntegrity :: "resolve_env \<Rightarrow> cluster \<Rightarrow> validation_error option" where
  "ValidateClusterIntegrity env c =
     (let ns = mc_namespace c
      in first_of
        [ValidateCoreTemplateReference env ns (mc_core_template c),
         ValidateCoreTemplateReference env ns (admin_template (mc_multiadmin c)),
         ValidateCoreTemplateReference env ns (case mc_global_topo c of None \<Rightarrow> [] | Some g \<Rightarrow> gt_template g),
         ValidateCoreTemplateReference env ns (admin_template (mc_multiadmin_web c)),
         ValidateCellTemplateReference env ns (mc_cell_template c),
         check_all (\<lambda>cell. ValidateCellTemplateReference env ns (cl_template cell)) (mc_cells c),
         ValidateShardTemplateReference env ns (mc_shard_template c),
         check_all (\<lambda>shard. ValidateShardTemplateReference env ns (sc_template shard)) (cluster_shards c)])"

subsection \<open>Checks of one component\<close>

definition poolNameMaxLen :: nat where "poolNameMaxLen = 25"

definition dns_label :: "string \<Rightarrow> bool" where
  "dns_label s \<longleftrightarrow> s \<noteq> [] \<and> list_all (\<lambda>c. isLowercaseAlphanumeric c \<or> c = CHR ''-'') s
     \<and> isLowercaseAlphanumeric (hd s) \<and> isLowercaseAlphanumeric (last s)"

definition ValidatePoolName :: "string \<Rightarrow> bool" where
  "ValidatePoolName s \<longleftrightarrow> \<not> (length s = 0 \<or> poolNameMaxLen < length s) \<and> dns_label s"

definition validatePoolRuntimeIdentity :: "string \<Rightarrow> string \<Rightarrow> pool_spec \<Rightarrow> validation_error option" where
  "validatePoolRuntimeIdentity shardName poolName pool =
     (case cc_run_as_user (ps_multipooler pool) of
        None \<Rightarrow> None
      | Some u \<Rightarrow>
          (case cc_run_as_user (ps_postgres pool) of
             None \<Rightarrow> Some (RunAsUserMismatch shardName poolName)
           | Some v \<Rightarrow> if v \<noteq> u then Some (RunAsUserMismatch shardName poolName) else None))"

definition entries :: "(string \<times> string) list option \<Rightarrow> (string \<times> string) list" where
  "entries m = (case m of None \<Rightarrow> [] | Some l \<Rightarrow> l)"

definition ValidateResourceRequirements ::
  "(string \<Rightarrow> string \<Rightarrow> int) \<Rightarrow> resources \<Rightarrow> string \<Rightarrow> validation_error option" where
  "ValidateResourceRequirements cmp res component =
     check_all (\<lambda>(name, limit).
         case map_of (entries (r_requests res)) name of
           None \<Rightarrow> None
         | Some request \<Rightarrow> if cmp limit request < 0 then Some (LimitBelowRequest component name) else None)
       (entries (r_limits res))"

definition defaultBufferWindow :: duration where "defaultBufferWindow = 10 * second"
definition defaultBufferMaxFailoverDuration :: duration where "defaultBufferMaxFailoverDuration = 20 * second"

definition validateGatewayBuffer :: "gateway_buffer option \<Rightarrow> string \<Rightarrow> bool \<Rightarrow> validation_error option" where
  "validateGatewayBuffer buffer subject resolved =
     (case buffer of
        None \<Rightarrow> None
      | Some b \<Rightarrow>
          if gb_enabled b = Some False then None
          else
            let window = (case gb_window b of None \<Rightarrow> defaultBufferWindow | Some d \<Rightarrow> d);
                maxFailover = (case gb_max_failover b of None \<Rightarrow> defaultBufferMaxFailoverDuration | Some d \<Rightarrow> d)
            in if gb_window b \<noteq> None \<and> window \<le> 0 then Some (BufferInvalid subject ''window'')
               else if gb_max_failover b \<noteq> None \<and> maxFailover \<le> 0 then Some (BufferInvalid subject ''maxFailoverDuration'')
               else if (case gb_min_between b of None \<Rightarrow> False | Some d \<Rightarrow> d < 0)
                 then Some (BufferInvalid subject ''minTimeBetweenFailovers'')
               else if \<not> resolved \<and> (gb_window b = None \<or> gb_max_failover b = None) then None
               else if maxFailover < window then Some (BufferInvalid subject ''window above maxFailoverDuration'')
               else None)"

definition ValidateGatewayBuffer :: "gateway_buffer option \<Rightarrow> string \<Rightarrow> validation_error option" where
  "ValidateGatewayBuffer buffer subject = validateGatewayBuffer buffer subject True"

definition ValidateGatewayBufferPartial :: "gateway_buffer option \<Rightarrow> string \<Rightarrow> validation_error option" where
  "ValidateGatewayBufferPartial buffer subject = validateGatewayBuffer buffer subject False"

definition EffectiveCellTemplate :: "cluster \<Rightarrow> string \<Rightarrow> string" where
  "EffectiveCellTemplate c ref = (if ref = [] then mc_cell_template c else ref)"

definition effective_cell :: "cluster \<Rightarrow> cell_config \<Rightarrow> cell_config" where
  "effective_cell c cell = cell\<lparr>cl_template := EffectiveCellTemplate c (cl_template cell)\<rparr>"

definition validate_cell :: "validate_env \<Rightarrow> cluster \<Rightarrow> string \<Rightarrow> string \<Rightarrow> cell_config \<Rightarrow> validation_error option" where
  "validate_cell env c onlyTemplate subjectPrefix cell =
     (let cellCfg = effective_cell c cell
      in if onlyTemplate \<noteq> [] \<and> EffectiveCellTemplateName (cl_template cellCfg) \<noteq> onlyTemplate then None
         else (case ResolveCell (ve_env env) c cellCfg of
                 Inl err \<Rightarrow> Some (CellUnresolved (subjectPrefix @ cl_name cell) err)
               | Inr (gateway, _) \<Rightarrow>
                   let subject = subjectPrefix @ cl_name cell
                   in first_of [ValidateGatewayBuffer (gw_buffer gateway) subject,
                        ValidateResourceRequirements (ve_cmp env) (sl_resources (gw_stateless gateway)) subject]))"

definition ValidateResolvedGateways :: "validate_env \<Rightarrow> cluster \<Rightarrow> string \<Rightarrow> string \<Rightarrow> validation_error option" where
  "ValidateResolvedGateways env c onlyTemplate subjectPrefix =
     check_all (validate_cell env c onlyTemplate subjectPrefix) (mc_cells c)"

subsection \<open>The cells' nodes, the etcd replicas and the storage classes\<close>

definition NodeLabelZoneID :: string where "NodeLabelZoneID = ''topology.k8s.aws/zone-id''"
definition NodeLabelRegion :: string where "NodeLabelRegion = ''topology.kubernetes.io/region''"

definition topo_check :: "cell_config \<Rightarrow> (string \<times> string) option" where
  "topo_check cell =
     (if cl_zone_id cell \<noteq> [] then Some (NodeLabelZoneID, cl_zone_id cell)
      else if cl_region cell \<noteq> [] then Some (NodeLabelRegion, cl_region cell)
      else None)"

definition validateCellTopology :: "(api_error + labels list) \<Rightarrow> cell_config list \<Rightarrow> warning list" where
  "validateCellTopology nodes cells =
     (let checks = remdups (List.map_filter topo_check cells)
      in case nodes of
           Inl _ \<Rightarrow> []
         | Inr ns \<Rightarrow>
             concat (map (\<lambda>(key, value).
                 if list_ex (\<lambda>l. l key = Some value) ns then []
                 else map (\<lambda>cell. CellWithoutNodes (cl_name cell) key value) (filter (\<lambda>cell. topo_check cell = Some (key, value)) cells))
               checks))"

definition getEffectiveEtcdReplicas :: "cluster \<Rightarrow> int" where
  "getEffectiveEtcdReplicas c =
     (case mc_global_topo c of
        None \<Rightarrow> DefaultEtcdReplicas
      | Some g \<Rightarrow>
          if gt_external g \<noteq> None then 0
          else (case gt_etcd g of
                  None \<Rightarrow> DefaultEtcdReplicas
                | Some e \<Rightarrow> (case et_replicas e of None \<Rightarrow> DefaultEtcdReplicas | Some n \<Rightarrow> n)))"

definition hasDefaultStorageClass :: "(api_error + labels list) \<Rightarrow> api_error + bool" where
  "hasDefaultStorageClass classes =
     map_sum id (list_ex (\<lambda>a. str_at a ''storageclass.kubernetes.io/is-default-class'' = ''true''
                        \<or> str_at a ''storageclass.beta.kubernetes.io/is-default-class'' = ''true'')) classes"

subsection \<open>Resolved shards\<close>

definition effective_shard :: "cluster \<Rightarrow> shard_config \<Rightarrow> shard_config" where
  "effective_shard c shard =
     (if sc_template shard = [] \<and> mc_shard_template c \<noteq> [] then shard\<lparr>sc_template := mc_shard_template c\<rparr> else shard)"

definition shard_options :: "cluster \<Rightarrow> backup_config option \<Rightarrow> resolve_options" where
  "shard_options c tgBackup =
     \<lparr>ro_cells = map cl_name (mc_cells c), ro_backup = tgBackup, ro_materialize = True, ro_mode = mc_mode c\<rparr>"

definition group_backup :: "cluster \<Rightarrow> database_config \<Rightarrow> table_group_config \<Rightarrow> backup_config option" where
  "group_backup c db tg = MergeBackupConfig (tg_backup tg) (MergeBackupConfig (db_backup db) (mc_backup c))"

definition effectiveDatabaseDurabilityPolicy :: "database_config \<Rightarrow> cluster \<Rightarrow> string" where
  "effectiveDatabaseDurabilityPolicy db c = MergeDurabilityPolicy (db_durability_policy db) (mc_durability_policy c)"

definition pool_count :: "pool_spec \<Rightarrow> int" where
  "pool_count p = (case ps_replicas_per_cell p of None \<Rightarrow> DefaultPoolReplicasPerCell | Some n \<Rightarrow> n) * int (length (ps_cells p))"

definition total_poolers :: "pool_map \<Rightarrow> int" where
  "total_poolers pools = sum_list (map (pool_count \<circ> snd) (pool_list pools))"

definition pool_cells :: "pool_map \<Rightarrow> string list" where
  "pool_cells pools = remdups (concat (map (ps_cells \<circ> snd) (pool_list pools)))"

definition durability_warnings :: "cluster \<Rightarrow> database_config \<Rightarrow> shard_config \<Rightarrow> pool_map \<Rightarrow> warning list" where
  "durability_warnings c db shard pools =
     (if mc_mode c = ModeLite then []
      else
        let policy = or_text DefaultDurabilityPolicy (effectiveDatabaseDurabilityPolicy db c);
            cells = length (pool_cells pools)
        in if policy = ''MULTI_CELL_AT_LEAST_2''
           then (if cells < 2 then [TooFewCells (sc_name shard) cells policy] else [])
           else (if total_poolers pools < 2 then [TooFewPoolers (sc_name shard) (total_poolers pools) policy] else []))"

definition backup_warnings :: "shard_config \<Rightarrow> pool_map \<Rightarrow> backup_config option \<Rightarrow> warning list" where
  "backup_warnings shard pools backup =
     (case backup of
        None \<Rightarrow> []
      | Some b \<Rightarrow>
          if bc_type b = TypeFilesystem
             \<and> \<not> (case bc_filesystem b of None \<Rightarrow> False | Some f \<Rightarrow> ''ReadWriteMany'' \<in> set (st_access_modes (fb_storage f)))
             \<and> 1 < total_poolers pools
          then [BackupVolumeShared (sc_name shard) (total_poolers pools)]
          else [])"

definition orphan_warnings :: "shard_template template_getter \<Rightarrow> shard_config \<Rightarrow> resolve_error + warning list" where
  "orphan_warnings get shard =
     (case sc_overrides shard of
        None \<Rightarrow> Inr []
      | Some ovr \<Rightarrow>
          if so_pools ovr = fmempty then Inr []
          else map_sum id (\<lambda>tpl. map (\<lambda>(n, _). OrphanPoolOverride n (sc_name shard))
                 (filter (\<lambda>(n, _). fmlookup (ts_pools tpl) n = None) (pool_list (so_pools ovr))))
               (find_template get empty_template (sc_template shard)))"

definition check_pool :: "validate_env \<Rightarrow> string \<Rightarrow> string \<times> pool_spec \<Rightarrow> validation_error option" where
  "check_pool env shardName = (\<lambda>(poolName, pool). first_of
     [validatePoolRuntimeIdentity shardName poolName pool,
      ValidateResourceRequirements (ve_cmp env) (cc_resources (ps_postgres pool)) poolName,
      ValidateResourceRequirements (ve_cmp env) (cc_resources (ps_multipooler pool)) poolName])"

text \<open>The checks on a resolved shard, in the order of the code.\<close>

definition check_resolved :: "validate_env \<Rightarrow> cluster \<Rightarrow> string \<Rightarrow> resolved_shard \<Rightarrow> validation_error option" where
  "check_resolved env c name res =
     (let pools = pool_list (rs_pools res);
          valid = (\<lambda>cell. cell \<in> set (map cl_name (mc_cells c)))
      in first_of
        [check_all (\<lambda>(n, _). if ValidatePoolName n then None else Some (InvalidPoolName name n)) pools,
         (if mo_cells (rs_multiorch res) = [] then Some (ShardWithoutCells name) else None),
         check_all (\<lambda>(n, p). if ps_cells p = [] then Some (PoolWithoutCells n name) else None) pools,
         check_all (\<lambda>cell. if valid cell then None else Some (ShardInUnknownCell name cell)) (mo_cells (rs_multiorch res)),
         check_all (\<lambda>(n, p). check_all (\<lambda>cell. if valid cell then None else Some (PoolInUnknownCell n name cell)) (ps_cells p)) pools,
         ValidateResourceRequirements (ve_cmp env) (sl_resources (mo_stateless (rs_multiorch res))) name,
         check_all (check_pool env name) pools])"

definition validate_shard ::
  "validate_env \<Rightarrow> cluster \<Rightarrow> database_config \<Rightarrow> table_group_config \<Rightarrow> shard_config \<Rightarrow> validation_error + warning list" where
  "validate_shard env c db tg shard0 =
     (let shard = effective_shard c shard0; get = re_shard (ve_env env) (mc_namespace c)
      in case orphan_warnings get shard of
           Inl err \<Rightarrow> Inl (OrphanCheckFailed err)
         | Inr orphans \<Rightarrow>
             (case resolve_shard get shard (shard_options c (group_backup c db tg)) of
                Inl err \<Rightarrow> Inl (ShardUnresolved (sc_name shard) err)
              | Inr res \<Rightarrow>
                  (case check_resolved env c (sc_name shard) res of
                     Some err \<Rightarrow> Inl err
                   | None \<Rightarrow> Inr (orphans @ durability_warnings c db shard (rs_pools res)
                              @ backup_warnings shard (rs_pools res) (rs_backup res)))))"

subsection \<open>Lite mode\<close>

definition lite_unless :: "bool \<Rightarrow> string \<Rightarrow> validation_error option" where
  "lite_unless ok reason = (if ok then None else Some (LiteMode reason))"

definition lite_pool :: "string \<times> pool_spec \<Rightarrow> validation_error option" where
  "lite_pool = (\<lambda>(_, pool). first_of
     [lite_unless (\<not> (ps_replicas_per_cell pool \<noteq> None \<and> ps_replicas_per_cell pool \<noteq> Some 1)) ''replicasPerCell'',
      lite_unless (length (ps_cells pool) = 1) ''pool cells''])"

definition lite_cell :: "validate_env \<Rightarrow> cluster \<Rightarrow> cell_config \<Rightarrow> validation_error option" where
  "lite_cell env c cell =
     (case ResolveCell (ve_env env) c (effective_cell c cell) of
        Inl err \<Rightarrow> Some (CellUnresolved (cl_name cell) err)
      | Inr (gateway, _) \<Rightarrow>
          lite_unless (sl_replicas (gw_stateless gateway) = None \<or> sl_replicas (gw_stateless gateway) = Some 0) ''multigateway replicas'')"

definition lite_policy :: "string \<Rightarrow> validation_error option" where
  "lite_policy policy = lite_unless (policy = [] \<or> policy = DefaultDurabilityPolicy) ''durabilityPolicy''"

definition lite_shard ::
  "validate_env \<Rightarrow> cluster \<Rightarrow> database_config \<Rightarrow> table_group_config \<Rightarrow> shard_config \<Rightarrow> validation_error option" where
  "lite_shard env c db tg shard =
     (case resolve_shard (re_shard (ve_env env) (mc_namespace c)) (effective_shard c shard)
              ((shard_options c (group_backup c db tg))\<lparr>ro_mode := ModeLite\<rparr>) of
        Inl err \<Rightarrow> Some (ShardUnresolved (sc_name shard) err)
      | Inr res \<Rightarrow> first_of
          [lite_unless (length (pool_list (rs_pools res)) = 1) ''pools'',
           check_all lite_pool (pool_list (rs_pools res)),
           check_all (lite_cell env c) (mc_cells c),
           (let replicas = sl_replicas (mo_stateless (rs_multiorch res))
            in lite_unless (replicas = None \<or> replicas = Some 0) ''multiorch replicas''),
           lite_policy (mc_durability_policy c),
           lite_policy (db_durability_policy db)])"

definition validateLiteMode :: "validate_env \<Rightarrow> cluster \<Rightarrow> validation_error option" where
  "validateLiteMode env c =
     (if length (mc_cells c) \<noteq> 1 then Some (LiteMode ''cells'')
      else case mc_databases c of
        [db] \<Rightarrow>
          (case db_table_groups db of
             [tg] \<Rightarrow>
               (case tg_shards tg of
                  [shard] \<Rightarrow> lite_shard env c db tg shard
                | _ \<Rightarrow> Some (LiteMode ''shards''))
           | _ \<Rightarrow> Some (LiteMode ''table groups''))
      | _ \<Rightarrow> Some (LiteMode ''databases''))"

subsection \<open>The whole validation\<close>

definition each_shard :: "cluster \<Rightarrow> (database_config \<times> table_group_config \<times> shard_config) list" where
  "each_shard c = concat (map (\<lambda>db. concat (map (\<lambda>tg. map (\<lambda>s. (db, tg, s)) (tg_shards tg)) (db_table_groups db))) (mc_databases c))"

lemma set_each_shard:
  "(db, tg, s) \<in> set (each_shard c) \<longleftrightarrow> db \<in> set (mc_databases c) \<and> tg \<in> set (db_table_groups db) \<and> s \<in> set (tg_shards tg)"
  by (auto simp: each_shard_def)

definition external_errors :: "validate_env \<Rightarrow> string \<Rightarrow> external_service option \<Rightarrow> validation_error option" where
  "external_errors env field service =
     (case service of
        None \<Rightarrow> None
      | Some s \<Rightarrow>
          if es_enabled s
          then check_all (\<lambda>ip. if ve_parse_ip env ip then None else Some (InvalidExternalIP field ip)) (es_ips s)
          else None)"

definition external_warnings :: "string \<Rightarrow> external_service option \<Rightarrow> warning list" where
  "external_warnings field service =
     (case service of None \<Rightarrow> [] | Some s \<Rightarrow> if es_enabled s \<and> es_ips s = [] then [NoExternalIPs field] else [])"

definition admin_resources :: "validate_env \<Rightarrow> string \<Rightarrow> admin_config option \<Rightarrow> validation_error option" where
  "admin_resources env name a =
     (case a of
        None \<Rightarrow> None
      | Some x \<Rightarrow> (case ad_spec x of None \<Rightarrow> None | Some s \<Rightarrow> ValidateResourceRequirements (ve_cmp env) (sl_resources s) name))"

definition head_errors :: "validate_env \<Rightarrow> cluster \<Rightarrow> validation_error option" where
  "head_errors env c = first_of
     [external_errors env ''externalGateway'' (mc_external_gateway c),
      external_errors env ''externalAdminWeb'' (mc_external_admin_web c),
      (case mc_global_topo c of
         None \<Rightarrow> None
       | Some g \<Rightarrow> (case gt_etcd g of None \<Rightarrow> None | Some e \<Rightarrow> ValidateResourceRequirements (ve_cmp env) (et_resources e) ''etcd'')),
      admin_resources env ''multiadmin'' (mc_multiadmin c),
      admin_resources env ''multiadmin-web'' (mc_multiadmin_web c),
      ValidateResolvedGateways env c [] [],
      (if mc_mode c = ModeLite then validateLiteMode env c else None)]"

definition head_warnings :: "validate_env \<Rightarrow> cluster \<Rightarrow> warning list" where
  "head_warnings env c =
     validateCellTopology (ve_nodes env) (mc_cells c)
     @ (if getEffectiveEtcdReplicas c = 1 then [SingleEtcdReplica] else [])
     @ external_warnings ''externalGateway'' (mc_external_gateway c)
     @ external_warnings ''externalAdminWeb'' (mc_external_admin_web c)"

text \<open>
  The components that would claim storage without naming a class. The shards are resolved as they stand: the template
  default of the cluster is not put in their place here.
\<close>

definition shard_missing_class ::
  "validate_env \<Rightarrow> cluster \<Rightarrow> database_config \<Rightarrow> table_group_config \<Rightarrow> shard_config \<Rightarrow> string list" where
  "shard_missing_class env c db tg shard =
     (case resolve_shard (re_shard (ve_env env) (mc_namespace c)) shard (shard_options c (group_backup c db tg)) of
        Inl _ \<Rightarrow> []
      | Inr res \<Rightarrow>
          map (\<lambda>(n, _). sc_name shard @ '' pool '' @ n) (filter (\<lambda>(_, p). st_class (ps_storage p) = []) (pool_list (rs_pools res)))
          @ (case rs_backup res of
               None \<Rightarrow> []
             | Some b \<Rightarrow>
                 if bc_type b = TypeFilesystem \<and> (case bc_filesystem b of None \<Rightarrow> False | Some f \<Rightarrow> st_class (fb_storage f) = [])
                 then [sc_name shard @ '' backup'']
                 else []))"

definition missing_class :: "validate_env \<Rightarrow> cluster \<Rightarrow> string list" where
  "missing_class env c =
     (case mc_global_topo c of
        None \<Rightarrow> []
      | Some g \<Rightarrow>
          (case gt_etcd g of
             None \<Rightarrow> []
           | Some e \<Rightarrow> if st_class (et_storage e) = [] then [''spec.globalTopoServer.etcd.storage.class''] else []))
     @ concat (map (\<lambda>(db, tg, s). shard_missing_class env c db tg s) (each_shard c))"

definition ValidateClusterLogic :: "validate_env \<Rightarrow> cluster \<Rightarrow> warning list \<times> validation_error option" where
  "ValidateClusterLogic env c =
     (case head_errors env c of
        Some err \<Rightarrow> ([], Some err)
      | None \<Rightarrow>
          (case map_err (\<lambda>(db, tg, s). validate_shard env c db tg s) (each_shard c) of
             Inl err \<Rightarrow> ([], Some err)
           | Inr ws \<Rightarrow>
               let warnings = head_warnings env c @ concat ws; missing = missing_class env c
               in if missing = [] then (warnings, None)
                  else (case hasDefaultStorageClass (ve_storage_classes env) of
                          Inl err \<Rightarrow> (warnings, Some (StorageClassUnreadable err))
                        | Inr found \<Rightarrow> if found then (warnings, None) else ([], Some (NoDefaultStorageClass missing)))))"

subsection \<open>What an accepted cluster is\<close>

definition within_limits :: "(string \<Rightarrow> string \<Rightarrow> int) \<Rightarrow> resources \<Rightarrow> bool" where
  "within_limits cmp res \<longleftrightarrow>
     (\<forall>(name, limit) \<in> set (entries (r_limits res)). \<forall>request.
        map_of (entries (r_requests res)) name = Some request \<longrightarrow> 0 \<le> cmp limit request)"

lemma ValidateResourceRequirements_None [simp]:
  "ValidateResourceRequirements cmp res component = None \<longleftrightarrow> within_limits cmp res"
  by (fastforce simp: ValidateResourceRequirements_def within_limits_def split: option.splits if_splits)

lemma validatePoolRuntimeIdentity_None [simp]:
  "validatePoolRuntimeIdentity s n p = None \<longleftrightarrow>
     cc_run_as_user (ps_multipooler p) = None \<or> cc_run_as_user (ps_multipooler p) = cc_run_as_user (ps_postgres p)"
  by (auto simp: validatePoolRuntimeIdentity_def split: option.splits)

definition pool_runnable :: "validate_env \<Rightarrow> string set \<Rightarrow> string \<Rightarrow> pool_spec \<Rightarrow> bool" where
  "pool_runnable env cells n p \<longleftrightarrow>
     ValidatePoolName n \<and> ps_cells p \<noteq> [] \<and> set (ps_cells p) \<subseteq> cells
     \<and> (cc_run_as_user (ps_multipooler p) = None \<or> cc_run_as_user (ps_multipooler p) = cc_run_as_user (ps_postgres p))
     \<and> within_limits (ve_cmp env) (cc_resources (ps_postgres p)) \<and> within_limits (ve_cmp env) (cc_resources (ps_multipooler p))"

definition shard_runnable :: "validate_env \<Rightarrow> cluster \<Rightarrow> resolved_shard \<Rightarrow> bool" where
  "shard_runnable env c res \<longleftrightarrow>
     (let cells = cl_name ` set (mc_cells c)
      in mo_cells (rs_multiorch res) \<noteq> [] \<and> set (mo_cells (rs_multiorch res)) \<subseteq> cells
         \<and> within_limits (ve_cmp env) (sl_resources (mo_stateless (rs_multiorch res)))
         \<and> (\<forall>n p. fmlookup (rs_pools res) n = Some p \<longrightarrow> pool_runnable env cells n p))"

lemma check_resolved_None: "check_resolved env c name res = None \<longleftrightarrow> shard_runnable env c res"
  unfolding check_resolved_def Let_def shard_runnable_def pool_runnable_def first_of_None check_all_None check_pool_def
  by (simp add: pool_list_all check_if subset_iff image_iff) blast

lemma map_err_Inr: "(\<exists>ys. map_err f xs = Inr ys) \<longleftrightarrow> (\<forall>x\<in>set xs. \<exists>y. f x = Inr y)"
  by (induction xs) (auto split: sum.splits)

definition class_available :: "validate_env \<Rightarrow> cluster \<Rightarrow> bool" where
  "class_available env c \<longleftrightarrow> missing_class env c = [] \<or> hasDefaultStorageClass (ve_storage_classes env) = Inr True"

definition resolved_for :: "validate_env \<Rightarrow> cluster \<Rightarrow> database_config \<Rightarrow> table_group_config \<Rightarrow> shard_config \<Rightarrow> resolve_error + resolved_shard" where
  "resolved_for env c db tg shard =
     resolve_shard (re_shard (ve_env env) (mc_namespace c)) (effective_shard c shard) (shard_options c (group_backup c db tg))"

lemma validate_shard_Inr:
  "(\<exists>ws. validate_shard env c db tg shard = Inr ws) \<longleftrightarrow>
     (\<exists>res. resolved_for env c db tg shard = Inr res \<and> shard_runnable env c res)"
proof -
  let ?get = "re_shard (ve_env env) (mc_namespace c)"
  show ?thesis
  proof (cases "find_template ?get empty_template (sc_template (effective_shard c shard))")
    case (Inl e)
    then show ?thesis
      by (auto simp: validate_shard_def Let_def resolved_for_def resolve_shard_def split: sum.splits)
  next
    case (Inr t)
    then have "\<exists>ws. orphan_warnings ?get (effective_shard c shard) = Inr ws"
      by (simp add: orphan_warnings_def split: option.split)
    then obtain res ws where "resolved_for env c db tg shard = Inr res" "orphan_warnings ?get (effective_shard c shard) = Inr ws"
      using Inr by (auto simp: resolved_for_def resolve_shard_def)
    then show ?thesis using check_resolved_None [of env c "sc_name (effective_shard c shard)" res]
      by (auto simp: validate_shard_def Let_def resolved_for_def split: option.split)
  qed
qed

lemma ValidateClusterLogic_None:
  "snd (ValidateClusterLogic env c) = None \<longleftrightarrow>
     head_errors env c = None \<and> class_available env c
     \<and> (\<forall>(db, tg, shard) \<in> set (each_shard c). \<exists>res. resolved_for env c db tg shard = Inr res \<and> shard_runnable env c res)"
proof -
  let ?m = "map_err (\<lambda>(db, tg, s). validate_shard env c db tg s) (each_shard c)"
  let ?all = "\<forall>(db, tg, shard) \<in> set (each_shard c). \<exists>res. resolved_for env c db tg shard = Inr res \<and> shard_runnable env c res"
  have all: "(\<exists>ws. ?m = Inr ws) \<longleftrightarrow> ?all"
    unfolding map_err_Inr by (intro ball_cong refl) (simp add: validate_shard_Inr split: prod.split)
  show ?thesis
  proof (cases ?m)
    case (Inl e)
    with all have "\<not> ?all" by simp
    with Inl show ?thesis by (simp add: ValidateClusterLogic_def split: option.split)
  next
    case (Inr ws)
    with all have "?all" by blast
    with Inr show ?thesis
      by (auto simp: ValidateClusterLogic_def class_available_def Let_def split: option.split sum.splits if_splits)
  qed
qed

text \<open>
  a Lite cluster that is accepted is the one pod Lite runs: one shard whose resolved pools come to a single pooler,
  with no replicas of the orchestrator and none of the gateway in any cell, whichever layer could have asked for them.
\<close>

theorem accepted_lite_single_pooler:
  assumes "snd (ValidateClusterLogic env c) = None" and "mc_mode c = ModeLite"
  shows "\<exists>db tg shard res. each_shard c = [(db, tg, shard)] \<and> resolved_for env c db tg shard = Inr res
    \<and> total_poolers (rs_pools res) = 1 \<and> sl_replicas (mo_stateless (rs_multiorch res)) \<in> {None, Some 0}
    \<and> (\<forall>cell\<in>set (mc_cells c). \<exists>gateway rest. ResolveCell (ve_env env) c (effective_cell c cell) = Inr (gateway, rest)
          \<and> sl_replicas (gw_stateless gateway) \<in> {None, Some 0})"
proof -
  have "validateLiteMode env c = None"
    using assms by (simp add: ValidateClusterLogic_None head_errors_def)
  then obtain db tg shard where shape: "mc_databases c = [db]" "db_table_groups db = [tg]" "tg_shards tg = [shard]"
    and lite: "lite_shard env c db tg shard = None"
    by (auto simp: validateLiteMode_def split: if_splits list.splits)
  from lite assms(2) obtain res where res: "resolved_for env c db tg shard = Inr res"
    and one: "length (pool_list (rs_pools res)) = 1" "\<forall>x\<in>set (pool_list (rs_pools res)). lite_pool x = None"
    and cells: "\<forall>cell\<in>set (mc_cells c). lite_cell env c cell = None"
    and orch: "sl_replicas (mo_stateless (rs_multiorch res)) \<in> {None, Some 0}"
    by (auto simp: lite_shard_def resolved_for_def lite_unless_def Let_def shard_options_def split: sum.splits if_splits)
  from one(1) obtain n p where l: "pool_list (rs_pools res) = [(n, p)]" by (auto simp: length_Suc_conv)
  have "ps_replicas_per_cell p \<in> {None, Some 1}" "length (ps_cells p) = 1"
    using one(2) by (auto simp: l lite_pool_def lite_unless_def split: if_splits)
  then have "total_poolers (rs_pools res) = 1"
    by (auto simp: total_poolers_def l pool_count_def DefaultPoolReplicasPerCell_def)
  moreover have "\<exists>gateway rest. ResolveCell (ve_env env) c (effective_cell c cell) = Inr (gateway, rest)
      \<and> sl_replicas (gw_stateless gateway) \<in> {None, Some 0}" if "cell \<in> set (mc_cells c)" for cell
    using cells that by (fastforce simp: lite_cell_def lite_unless_def split: sum.splits if_splits)
  moreover have "each_shard c = [(db, tg, shard)]" by (simp add: each_shard_def shape)
  ultimately show ?thesis using res orch by blast
qed

lemma map_err_mem: "map_err f xs = Inr ys \<Longrightarrow> x \<in> set xs \<Longrightarrow> \<exists>y\<in>set ys. f x = Inr y"
  by (induction xs arbitrary: ys) (auto split: sum.splits)

definition durability_warning :: "string \<Rightarrow> warning \<Rightarrow> bool" where
  "durability_warning name w \<longleftrightarrow> (\<exists>n p. w = TooFewCells name n p) \<or> (\<exists>n p. w = TooFewPoolers name n p)"

lemma durability_warnings_kind: "w \<in> set (durability_warnings c db s pools) \<Longrightarrow> durability_warning (sc_name s) w"
  by (auto simp: durability_warnings_def durability_warning_def Let_def split: if_splits)

text \<open>
  C29: an accepted cluster that is not in Lite mode and drew no durability warning for a shard can commit there: with the
  policy that demands two cells the resolved pools of the shard lie in two different cells, and with any other they come to
  two poolers. A Lite cluster has one pooler by design and draws no warning.
\<close>

theorem unwarned_shard_durable:
  assumes "ValidateClusterLogic env c = (ws, None)" and "(db, tg, shard) \<in> set (each_shard c)" and "mc_mode c \<noteq> ModeLite"
    and "\<not> (\<exists>w\<in>set ws. durability_warning (sc_name shard) w)"
  shows "\<exists>res. resolved_for env c db tg shard = Inr res
    \<and> (if effectiveDatabaseDurabilityPolicy db c = ''MULTI_CELL_AT_LEAST_2''
        then 2 \<le> card (\<Union>p\<in>fmran' (rs_pools res). set (ps_cells p)) else 2 \<le> total_poolers (rs_pools res))"
proof -
  from assms(1) obtain ys where ys: "map_err (\<lambda>(db, tg, s). validate_shard env c db tg s) (each_shard c) = Inr ys"
    and ws: "set (concat ys) \<subseteq> set ws"
    by (auto simp: ValidateClusterLogic_def Let_def split: option.splits sum.splits if_splits)
  from map_err_mem [OF ys assms(2)] obtain y where y: "y \<in> set ys" "validate_shard env c db tg shard = Inr y" by auto
  from y(2) have "\<exists>res o' b. resolved_for env c db tg shard = Inr res
      \<and> y = o' @ durability_warnings c db (effective_shard c shard) (rs_pools res) @ b"
    by (auto simp: validate_shard_def Let_def resolved_for_def split: sum.splits option.splits)
  then obtain res where res: "resolved_for env c db tg shard = Inr res"
    and sub: "set (durability_warnings c db (effective_shard c shard) (rs_pools res)) \<subseteq> set ws"
    using ws y(1) by fastforce
  have name: "sc_name (effective_shard c shard) = sc_name shard" by (simp add: effective_shard_def)
  have "durability_warnings c db (effective_shard c shard) (rs_pools res) = []"
  proof (rule ccontr)
    assume "\<not> ?thesis"
    then obtain w where w: "w \<in> set (durability_warnings c db (effective_shard c shard) (rs_pools res))"
      using hd_in_set by blast
    with durability_warnings_kind [OF w] sub assms(4) show False unfolding name by blast
  qed
  moreover have "set (pool_cells (rs_pools res)) = (\<Union>p\<in>fmran' (rs_pools res). set (ps_cells p))"
    by (simp add: pool_cells_def fmran'_pool_list)
  moreover have "length (pool_cells (rs_pools res)) = card (set (pool_cells (rs_pools res)))"
    by (simp add: pool_cells_def length_remdups_card_conv)
  ultimately show ?thesis using res assms(3)
    by (auto simp: durability_warnings_def Let_def or_text_def DefaultDurabilityPolicy_def split: if_splits)
qed

subsection \<open>References that passed are found\<close>

lemma reference_found:
  assumes "validate_reference get name = None"
  shows "find_template get blank name \<noteq> Inl (TemplateNotFound n)"
  using assms by (auto simp: validate_reference_def template_exists_def find_template_def resolve_template_def
      FallbackTemplate_def Let_def split: sum.splits if_splits)

lemma resolve_cell_from_found: "resolve_cell_from env c cell tpl \<noteq> Inl (TemplateNotFound n)"
proof -
  obtain g p l where "mergeCellConfig tpl (cl_overrides cell) (cl_spec cell) = (g, p, l)" by (cases rule: prod_cases3)
  then show ?thesis by (simp add: resolve_cell_from_def Let_def check_compaction_def split: option.split sum.split)
qed

text \<open>
  when the integrity check passed, resolution never fails for a missing template: not for a shard or a cell with the
  cluster's defaults put in, and not for the topology server or the admin components.
\<close>

theorem integrity_templates_found:
  assumes "ValidateClusterIntegrity env c = None"
  shows "(\<forall>shard\<in>set (cluster_shards c). find_template (re_shard env (mc_namespace c)) empty_template (sc_template (effective_shard c shard)) \<noteq> Inl (TemplateNotFound n))
    \<and> (\<forall>cell\<in>set (mc_cells c). ResolveCell env c (effective_cell c cell) \<noteq> Inl (TemplateNotFound n))
    \<and> ResolveGlobalTopo env c \<noteq> Inl (TemplateNotFound n)
    \<and> ResolveMultiadmin env c \<noteq> Inl (TemplateNotFound n) \<and> ResolveMultiadminWeb env c \<noteq> Inl (TemplateNotFound n)"
proof -
  let ?shard = "re_shard env (mc_namespace c)" and ?cell = "re_cell env (mc_namespace c)" and ?core = "re_core env (mc_namespace c)"
  let ?topo = "case mc_global_topo c of None \<Rightarrow> [] | Some g \<Rightarrow> gt_template g"
  have ok: "validate_reference ?core (mc_core_template c) = None"
    "validate_reference ?core (admin_template (mc_multiadmin c)) = None" "validate_reference ?core ?topo = None"
    "validate_reference ?core (admin_template (mc_multiadmin_web c)) = None" "validate_reference ?cell (mc_cell_template c) = None"
    "\<forall>cell\<in>set (mc_cells c). validate_reference ?cell (cl_template cell) = None" "validate_reference ?shard (mc_shard_template c) = None"
    "\<forall>shard\<in>set (cluster_shards c). validate_reference ?shard (sc_template shard) = None"
    using assms unfolding ValidateClusterIntegrity_def Let_def ValidateCoreTemplateReference_def ValidateCellTemplateReference_def
      ValidateShardTemplateReference_def first_of_None
    by (simp_all add: first_of_def)
  have core: "core_for env c ref \<noteq> Inl (TemplateNotFound n)" if "validate_reference ?core ref = None" for ref
    using reference_found [OF that] reference_found [OF ok(1)]
    by (simp add: core_for_def ResolveCoreTemplate_def find_template_def or_text_def)
  have "find_template ?shard empty_template (sc_template (effective_shard c shard)) \<noteq> Inl (TemplateNotFound n)"
    if "shard \<in> set (cluster_shards c)" for shard
    using ok(7,8) that by (intro reference_found) (simp add: effective_shard_def)
  moreover have "ResolveCell env c (effective_cell c cell) \<noteq> Inl (TemplateNotFound n)" if "cell \<in> set (mc_cells c)" for cell
  proof -
    have "validate_reference ?cell (cl_template (effective_cell c cell)) = None"
      using ok(5,6) that by (simp add: effective_cell_def EffectiveCellTemplate_def)
    from reference_found [OF this, of blank_cell_template n]
    have "fst (ResolveCellTemplate ?cell (cl_template (effective_cell c cell)) Map.empty) \<noteq> Inl (TemplateNotFound n)"
      by (simp add: ResolveCellTemplate_def EffectiveCellTemplateName_def find_template_def resolve_template_def FallbackTemplate_def
          split: if_splits)
    then show ?thesis by (auto simp: ResolveCell_def resolve_cell_from_found split: sum.splits)
  qed
  moreover have "ResolveGlobalTopo env c \<noteq> Inl (TemplateNotFound n)"
    using core [OF ok(3)] by (auto simp: ResolveGlobalTopo_def Let_def check_compaction_def split: sum.splits option.splits)
  moreover have "ResolveMultiadmin env c \<noteq> Inl (TemplateNotFound n)" "ResolveMultiadminWeb env c \<noteq> Inl (TemplateNotFound n)"
    using core [OF ok(2)] core [OF ok(4)]
    by (auto simp: ResolveMultiadmin_def ResolveMultiadminWeb_def Let_def split: sum.splits)
  ultimately show ?thesis by blast
qed

subsection \<open>Instances\<close>

definition valid_env :: validate_env where
  "valid_env = \<lparr>ve_env = demo_env (\<lambda>_ _. Inl NotFound), ve_cmp = (\<lambda>_ _. 1), ve_parse_ip = (\<lambda>_. True),
     ve_nodes = Inr [[NodeLabelZoneID \<mapsto> ''use1-az1'']],
     ve_storage_classes = Inr [[''storageclass.kubernetes.io/is-default-class'' \<mapsto> ''true'']]\<rparr>"

definition demo_group :: table_group_config where
  "demo_group = \<lparr>tg_name = ''default'', tg_default = True, tg_shards = [demo_shard], tg_backup = None, tg_pvc_deletion_policy = None\<rparr>"

definition demo_database :: database_config where
  "demo_database = \<lparr>db_name = ''postgres'', db_default = True, db_table_groups = [demo_group], db_backup = None, db_durability_policy = []\<rparr>"

definition full_cluster :: cluster where
  "full_cluster = demo_cluster\<lparr>mc_databases := [demo_database]\<rparr>"

lemma full_valid: "ValidateClusterLogic valid_env full_cluster = ([BackupVolumeShared ''0-inf'' 2], None)"
  by code_simp

lemma full_each: "each_shard full_cluster = [(demo_database, demo_group, demo_shard)]"
  by (simp add: full_cluster_def each_shard_def demo_database_def demo_group_def)

theorem unwarned_shard_durable_witness:
  "\<exists>res. resolved_for valid_env full_cluster demo_database demo_group demo_shard = Inr res"
proof -
  have "(demo_database, demo_group, demo_shard) \<in> set (each_shard full_cluster)" by (simp add: full_each)
  moreover have "mc_mode full_cluster \<noteq> ModeLite" by (simp add: full_cluster_def demo_cluster_def ModeLite_def)
  moreover have "\<not> (\<exists>w\<in>set [BackupVolumeShared ''0-inf'' 2]. durability_warning (sc_name demo_shard) w)"
    by (simp add: durability_warning_def)
  ultimately show ?thesis using unwarned_shard_durable [OF full_valid] by blast
qed

lemma lite_valid: "snd (ValidateClusterLogic valid_env (full_cluster\<lparr>mc_mode := ModeLite\<rparr>)) = None"
  by code_simp

theorem accepted_lite_single_pooler_witness:
  "\<exists>db tg shard res. each_shard (full_cluster\<lparr>mc_mode := ModeLite\<rparr>) = [(db, tg, shard)]
     \<and> resolved_for valid_env (full_cluster\<lparr>mc_mode := ModeLite\<rparr>) db tg shard = Inr res \<and> total_poolers (rs_pools res) = 1"
  using accepted_lite_single_pooler [OF lite_valid] by auto

lemma full_integrity: "ValidateClusterIntegrity (demo_env (\<lambda>_ _. Inl NotFound)) full_cluster = None"
  by code_simp

theorem integrity_templates_found_witness:
  "ResolveGlobalTopo (demo_env (\<lambda>_ _. Inl NotFound)) full_cluster \<noteq> Inl (TemplateNotFound ''default'')"
  using integrity_templates_found [OF full_integrity] by blast

definition gold_template :: "string \<Rightarrow> shard_template template_getter" where
  "gold_template ns name =
     (if ns = ''team'' \<and> name = ''gold''
      then Inr (empty_template\<lparr>ts_pools := fmupd ''main'' (empty_pool\<lparr>ps_type := ''readWrite'', ps_storage := empty_storage\<lparr>st_class := ''fast''\<rparr>\<rparr>) fmempty\<rparr>)
      else Inl NotFound)"

definition gold_env :: validate_env where
  "gold_env = valid_env\<lparr>ve_env := demo_env gold_template, ve_storage_classes := Inr []\<rparr>"

definition gold_cluster :: cluster where
  "gold_cluster = full_cluster\<lparr>mc_shard_template := ''gold'',
     mc_backup := Some \<lparr>bc_type = TypeFilesystem,
       bc_filesystem = Some \<lparr>fb_path = DefaultBackupPath, fb_storage = empty_storage\<lparr>st_class := ''fast''\<rparr>\<rparr>,
       bc_s3 = None, bc_tls = None, bc_encryption = None\<rparr>\<rparr>"

definition classes_set :: "resolve_error + resolved_shard \<Rightarrow> bool" where
  "classes_set r = (case r of Inl _ \<Rightarrow> False | Inr res \<Rightarrow>
     list_all (\<lambda>(_, p). st_class (ps_storage p) \<noteq> []) (pool_list (rs_pools res))
     \<and> (case rs_backup res of None \<Rightarrow> True | Some b \<Rightarrow>
          (case bc_filesystem b of None \<Rightarrow> True | Some f \<Rightarrow> st_class (fb_storage f) \<noteq> [])))"

text \<open>
  the check for a default StorageClass looks at the wrong template. A cluster whose template default names a class for
  every pool is refused for a pool of the fallback template that it would never run.
\<close>

theorem storage_class_wrong_template:
  "snd (ValidateClusterLogic gold_env gold_cluster) = Some (NoDefaultStorageClass [''0-inf pool default''])
   \<and> list_all (\<lambda>(db, tg, s). classes_set (resolved_for gold_env gold_cluster db tg s)) (each_shard gold_cluster)"
  by code_simp

end
