(* ===== verification/Table_Groups.thy ===== *)
theory Table_Groups
  imports Custom_Resources Cluster_Validation
begin

text \<open>
  The TableGroup controller (\<^verbatim>\<open>pkg/cluster-handler/controller/tablegroup\<close>): the shards it builds, the steps of a pass
  with their early ends, the drain of a table group that is to be deleted, and the status it derives from its shards.
  \<^verbatim>\<open>SetControllerReference\<close> and \<^verbatim>\<open>meta.SetStatusCondition\<close> are arguments.
\<close>

subsection \<open>The resource\<close>

record shard_resolved_spec =
  sr_name :: string
  sr_resolved :: resolved_shard
  sr_cluster_views :: "bool option option"

record table_group =
  to_name :: string
  to_namespace :: string
  to_labels :: labels
  to_annotations :: labels
  to_deletion :: "gotime option"
  to_generation :: int
  to_database :: string
  to_group :: string
  to_topo_address :: string
  to_topo_root :: string
  to_shards :: "shard_resolved_spec list"
  to_pvc_deletion_policy :: "pvc_deletion_policy option"
  to_topology_pruning :: "bool option option"
  to_durability_policy :: string
  to_mode :: string
  to_phase :: Phase
  to_message :: string
  to_total :: int
  to_ready :: int
  to_conditions :: "condition list"
  to_observed_generation :: int

datatype tg_error =
    GateFailed api_error | ListShardsFailed api_error | StampShardFailed string api_error | BuildShardFailed string string
  | ApplyShardFailed string api_error | DeleteShardFailed string api_error | StatusFailed api_error

text \<open>What a pass reads besides the children: the library functions, the clock's stamp and the gate's answer.\<close>

record tg_env =
  te_set_owner :: "table_group \<Rightarrow> shard \<Rightarrow> string option"
  te_set_status :: "condition list \<Rightarrow> condition \<Rightarrow> condition list"
  te_stamp :: string
  te_gated :: "api_error + bool"

subsection \<open>The shards it builds\<close>

definition calculateTotalReplicas :: "pool_map \<Rightarrow> int" where
  "calculateTotalReplicas pools =
     foldl (\<lambda>total (_, pool). wrap32 (total
        + wrap32 ((case ps_replicas_per_cell pool of None \<Rightarrow> 1 | Some n \<Rightarrow> n) * wrap32 (int (length (ps_cells pool)))))) 0 (pool_list pools)"

definition backup_of :: "backup_config option \<Rightarrow> backup_spec option" where
  "backup_of = map_option (\<lambda>b. \<lparr>bk_type = bc_type b, bk_filesystem = map_option fb_storage (bc_filesystem b)\<rparr>)"

definition BuildShard :: "tg_env \<Rightarrow> table_group \<Rightarrow> shard_resolved_spec \<Rightarrow> string + shard" where
  "BuildShard env tg spec =
     (let clusterName = str_at (to_labels tg) LabelMultigresCluster;
          ls = BuildStandardLabels clusterName ''shard'';
          ls = AddClusterLabel ls clusterName;
          ls = AddDatabaseLabel ls (to_database tg);
          ls = AddTableGroupLabel ls (to_group tg);
          ls = AddShardLabel ls (sr_name spec);
          res = sr_resolved spec;
          shd = \<lparr>s_name = joined DefaultConstraints [clusterName, to_database tg, to_group tg, sr_name spec],
             s_namespace = to_namespace tg, s_uid = [], s_generation = 0, s_labels = ls, s_database_name = to_database tg,
             s_table_group_name = to_group tg, s_shard_name = sr_name spec, s_topo_address = to_topo_address tg,
             s_topo_root = to_topo_root tg, s_pools = pool_list (rs_pools res),
             s_pvc_deletion_policy = MergePVCDeletionPolicy (rs_pvc_deletion_policy res) (to_pvc_deletion_policy tg),
             s_backup = backup_of (rs_backup res), s_topology_pruning = to_topology_pruning tg,
             s_durability_policy = to_durability_policy tg, s_replicas = Some (calculateTotalReplicas (rs_pools res)),
             s_conditions = [], s_pod_roles = [], s_pod_postures = [], s_last_backup_time = None, s_last_backup_type = []\<rparr>
      in case te_set_owner env tg shd of Some err \<Rightarrow> Inl err | None \<Rightarrow> Inr shd)"

subsection \<open>Steps\<close>

record reconcileContext =
  rc_tg :: table_group
  rc_observed :: "cobject list"
  rc_active :: "string list"
  rc_applied :: "(string \<times> int) list"
  rc_old_phase :: Phase
  rc_pending :: bool

datatype step_out = ContinueStep | DoneStep "duration option" | FailStep tg_error

type_synonym step = "reconcileContext \<Rightarrow> (reconcileContext \<times> step_out) cio"

fun runSteps :: "step list \<Rightarrow> reconcileContext \<Rightarrow> (reconcileContext \<times> (tg_error + duration option)) cio" where
  "runSteps [] rc = State_Monad.return (rc, Inr None)"
| "runSteps (s # ss) rc = do {
     (rc', res) \<leftarrow> s rc;
     case res of
       FailStep err \<Rightarrow> State_Monad.return (rc', Inl err)
     | DoneStep d \<Rightarrow> State_Monad.return (rc', Inr d)
     | ContinueStep \<Rightarrow> runSteps ss rc'
   }"

definition childShardSelector :: "table_group \<Rightarrow> labels" where
  "childShardSelector tg =
     [LabelMultigresCluster \<mapsto> str_at (to_labels tg) LabelMultigresCluster, LabelMultigresDatabase \<mapsto> to_database tg,
      LabelMultigresTableGroup \<mapsto> to_group tg]"

definition list_shards :: "capi \<Rightarrow> bool \<Rightarrow> table_group \<Rightarrow> (api_error + cobject list) cio" where
  "list_shards api live tg = ask (ca_list api) (ListChildren live ''Shard'' (to_namespace tg) (childShardSelector tg))"

definition stepGuardReconcile :: "tg_env \<Rightarrow> step" where
  "stepGuardReconcile env rc = State_Monad.return (rc,
     (case te_gated env of Inl err \<Rightarrow> FailStep (GateFailed err) | Inr g \<Rightarrow> if g then DoneStep None else ContinueStep))"

definition setShardPendingDeletion :: "capi \<Rightarrow> tg_env \<Rightarrow> cobject \<Rightarrow> tg_error option cio" where
  "setShardPendingDeletion api env s = do {
     w \<leftarrow> ask (ca_write api) (StampPending ''Shard'' s (te_stamp env));
     State_Monad.return (map_option (StampShardFailed (co_name s)) w)
   }"

text \<open>The loop of \<^verbatim>\<open>handlePendingDeletion\<close>: an error, or whether every child is ready.\<close>

fun drain_children :: "capi \<Rightarrow> tg_env \<Rightarrow> cobject list \<Rightarrow> bool \<Rightarrow> (tg_error + bool) cio" where
  "drain_children api env [] allReady = State_Monad.return (Inr allReady)"
| "drain_children api env (s # ss) allReady =
     (if co_deletion s \<noteq> None then drain_children api env ss False
      else if co_pending s = [] then do {
        e \<leftarrow> setShardPendingDeletion api env s;
        case e of
          Some err \<Rightarrow> State_Monad.return (Inl err)
        | None \<Rightarrow> do {
            emit (RecordEvent ''PendingDeletion'' (co_name s));
            drain_children api env ss False
          }
      }
      else drain_children api env ss (allReady \<and> ready_for_deletion_child s))"

definition ready_status :: "tg_env \<Rightarrow> table_group \<Rightarrow> table_group" where
  "ready_status env tg = tg\<lparr>to_conditions := te_set_status env (to_conditions tg)
     \<lparr>c_type = ''ReadyForDeletion'', c_status = ConditionTrue, c_observed_generation = to_generation tg, c_last_transition = 0,
      c_reason = ''AllShardsReady'', c_message = ''All child Shards are ready for deletion''\<rparr>\<rparr>"

definition handlePendingDeletion :: "capi \<Rightarrow> tg_env \<Rightarrow> table_group \<Rightarrow> (table_group \<times> (tg_error + duration option)) cio" where
  "handlePendingDeletion api env tg = do {
     r \<leftarrow> list_shards api True tg;
     case r of
       Inl err \<Rightarrow> State_Monad.return (tg, Inl (ListShardsFailed err))
     | Inr shards \<Rightarrow> do {
         d \<leftarrow> drain_children api env shards True;
         case d of
           Inl err \<Rightarrow> State_Monad.return (tg, Inl err)
         | Inr allReady \<Rightarrow>
             if \<not> allReady then State_Monad.return (tg, Inr (Some (5 * second)))
             else do {
               w \<leftarrow> ask (ca_write api) (ApplyStatus ''TableGroup'' (to_name tg));
               case w of
                 Some err \<Rightarrow> State_Monad.return (ready_status env tg, Inl (StatusFailed err))
               | None \<Rightarrow> do {
                   emit (RecordEvent ''ReadyForDeletion'' (to_name tg));
                   State_Monad.return (ready_status env tg, Inr None)
                 }
             }
       }
   }"

definition stepHandlePendingDeletion :: "capi \<Rightarrow> tg_env \<Rightarrow> step" where
  "stepHandlePendingDeletion api env rc =
     (if str_at (to_annotations (rc_tg rc)) AnnotationPendingDeletion = [] then State_Monad.return (rc, ContinueStep)
      else do {
        (tg, r) \<leftarrow> handlePendingDeletion api env (rc_tg rc);
        State_Monad.return (rc\<lparr>rc_tg := tg\<rparr>, (case r of Inl err \<Rightarrow> FailStep err | Inr d \<Rightarrow> DoneStep d))
      })"

definition stepShortCircuitDeletion :: step where
  "stepShortCircuitDeletion rc =
     State_Monad.return (rc, if to_deletion (rc_tg rc) \<noteq> None then DoneStep None else ContinueStep)"

definition stepListChildShards :: "capi \<Rightarrow> step" where
  "stepListChildShards api rc = do {
     r \<leftarrow> list_shards api False (rc_tg rc);
     State_Monad.return (case r of
       Inl err \<Rightarrow> (rc, FailStep (ListShardsFailed err))
     | Inr items \<Rightarrow> (rc\<lparr>rc_observed := items\<rparr>, ContinueStep))
   }"

fun apply_shards :: "capi \<Rightarrow> tg_env \<Rightarrow> shard_resolved_spec list \<Rightarrow> step" where
  "apply_shards api env [] rc = State_Monad.return (rc, ContinueStep)"
| "apply_shards api env (spec # specs) rc =
     (case BuildShard env (rc_tg rc) spec of
        Inl err \<Rightarrow> State_Monad.return (rc, FailStep (BuildShardFailed (sr_name spec) err))
      | Inr desired \<Rightarrow>
          if cleanup_in_progress (rc_observed rc) (s_name desired)
          then apply_shards api env specs (rc\<lparr>rc_pending := True\<rparr>)
          else do {
            r \<leftarrow> ask (ca_apply api) (ApplyChild ''Shard'' (s_name desired));
            let rc' = rc\<lparr>rc_active := s_name desired # rc_active rc\<rparr>;
            case r of
              Inl err \<Rightarrow> State_Monad.return (rc', FailStep (ApplyShardFailed (s_name desired) err))
            | Inr generation \<Rightarrow> do {
                emit (RecordEvent ''Applied'' (s_name desired));
                apply_shards api env specs (rc'\<lparr>rc_applied := (s_name desired, generation) # rc_applied rc\<rparr>)
              }
          })"

definition stepApplyDesiredShards :: "capi \<Rightarrow> tg_env \<Rightarrow> step" where
  "stepApplyDesiredShards api env rc = apply_shards api env (to_shards (rc_tg rc)) (rc\<lparr>rc_active := [], rc_applied := []\<rparr>)"

fun retire_shards :: "capi \<Rightarrow> tg_env \<Rightarrow> cobject list \<Rightarrow> step" where
  "retire_shards api env [] rc = State_Monad.return (rc, ContinueStep)"
| "retire_shards api env (s # ss) rc =
     (if co_name s \<in> set (rc_active rc) then retire_shards api env ss rc
      else if co_deletion s \<noteq> None then retire_shards api env ss (rc\<lparr>rc_pending := True\<rparr>)
      else if co_pending s = [] then do {
        e \<leftarrow> setShardPendingDeletion api env s;
        case e of
          Some err \<Rightarrow> State_Monad.return (rc, FailStep err)
        | None \<Rightarrow> do {
            emit (RecordEvent ''PendingDeletion'' (co_name s));
            retire_shards api env ss (rc\<lparr>rc_pending := True\<rparr>)
          }
      }
      else if \<not> ready_for_deletion_child s then retire_shards api env ss (rc\<lparr>rc_pending := True\<rparr>)
      else do {
        w \<leftarrow> ask (ca_write api) (DeleteChild ''Shard'' s None);
        case w of
          Some err \<Rightarrow>
            if err = NotFound then retire_shards api env ss rc
            else State_Monad.return (rc, FailStep (DeleteShardFailed (co_name s) err))
        | None \<Rightarrow> do {
            emit (RecordEvent ''Deleted'' (co_name s));
            retire_shards api env ss rc
          }
      })"

definition stepReconcileUndesired :: "capi \<Rightarrow> tg_env \<Rightarrow> step" where
  "stepReconcileUndesired api env rc = retire_shards api env (rc_observed rc) rc"

subsection \<open>Status\<close>

text \<open>A child counts once it is wanted and has observed the generation applied in this pass (an absent entry reads as zero).\<close>

definition counted :: "reconcileContext \<Rightarrow> cobject \<Rightarrow> bool" where
  "counted rc s \<longleftrightarrow> co_name s \<in> set (rc_active rc)
     \<and> co_observed_generation s = (case map_of (rc_applied rc) (co_name s) of None \<Rightarrow> 0 | Some g \<Rightarrow> g)"

definition group_phase :: "bool \<Rightarrow> bool \<Rightarrow> int \<Rightarrow> int \<Rightarrow> Phase \<times> string" where
  "group_phase anyDegraded pending tot ready =
     (if anyDegraded then (PhaseDegraded, ''At least one shard is degraded'')
      else if pending then (PhaseProgressing, ''Waiting for shard cleanup to finish'')
      else if tot = 0 then (PhaseInitializing, ''No Shards'')
      else if ready = tot then (PhaseHealthy, ''Ready'')
      else (PhaseProgressing, itoa ready @ ''/'' @ itoa tot @ '' shards ready''))"

definition available_condition :: "table_group \<Rightarrow> bool \<Rightarrow> int \<Rightarrow> int \<Rightarrow> condition" where
  "available_condition tg pending tot ready =
     (let count = itoa ready @ ''/'' @ itoa tot @ '' shards ready'';
          (status, reason, message) =
            (if to_phase tg = PhaseHealthy then (ConditionTrue, ''ShardsReady'', count)
             else if to_phase tg = PhaseDegraded then (ConditionFalse, ''ShardDegraded'', to_message tg)
             else (ConditionFalse, ''ShardsNotReady'', count));
          (status, reason, message) =
            (if tot = 0 \<and> \<not> pending then (ConditionTrue, ''NoShards'', to_message tg) else (status, reason, message));
          (status, reason, message) =
            (if pending \<and> to_phase tg = PhaseProgressing then (status, ''CleanupPending'', to_message tg)
             else (status, reason, message))
      in \<lparr>c_type = ''Available'', c_status = status, c_observed_generation = to_generation tg, c_last_transition = 0,
          c_reason = reason, c_message = message\<rparr>)"

definition compute_status :: "tg_env \<Rightarrow> reconcileContext \<Rightarrow> table_group" where
  "compute_status env rc =
     (let tg = rc_tg rc;
          tot = wrap32 (int (length (to_shards tg)));
          seen_shards = filter (counted rc) (rc_observed rc);
          ready = wrap32 (int (length (filter (\<lambda>s. co_phase s = PhaseHealthy) seen_shards)));
          anyDegraded = list_ex (\<lambda>s. co_phase s = PhaseDegraded) seen_shards;
          (phase, message) = group_phase anyDegraded (rc_pending rc) tot ready;
          tg = tg\<lparr>to_total := tot, to_ready := ready, to_phase := phase, to_message := message\<rparr>
      in tg\<lparr>to_conditions := te_set_status env (to_conditions tg) (available_condition tg (rc_pending rc) tot ready),
            to_observed_generation := to_generation tg\<rparr>)"

definition stepComputeStatus :: "tg_env \<Rightarrow> step" where
  "stepComputeStatus env rc = State_Monad.return (rc\<lparr>rc_tg := compute_status env rc\<rparr>, ContinueStep)"

definition stepPatchStatus :: "capi \<Rightarrow> step" where
  "stepPatchStatus api rc = do {
     (if rc_old_phase rc \<noteq> to_phase (rc_tg rc) then emit (RecordEvent ''PhaseChange'' (to_name (rc_tg rc))) else State_Monad.return ());
     w \<leftarrow> ask (ca_write api) (ApplyStatus ''TableGroup'' (to_name (rc_tg rc)));
     case w of
       Some err \<Rightarrow> State_Monad.return (rc, FailStep (StatusFailed err))
     | None \<Rightarrow> do {
         (if \<not> rc_pending rc then emit (RecordEvent ''Synced'' (to_name (rc_tg rc))) else State_Monad.return ());
         State_Monad.return (rc, ContinueStep)
       }
   }"

definition stepRequeueIfPending :: step where
  "stepRequeueIfPending rc = State_Monad.return (rc, if rc_pending rc then DoneStep (Some (5 * second)) else ContinueStep)"

definition table_group_steps :: "capi \<Rightarrow> tg_env \<Rightarrow> step list" where
  "table_group_steps api env =
     [stepGuardReconcile env, stepHandlePendingDeletion api env, stepShortCircuitDeletion, stepListChildShards api,
      stepApplyDesiredShards api env, stepReconcileUndesired api env, stepComputeStatus env, stepPatchStatus api,
      stepRequeueIfPending]"

text \<open>\<^verbatim>\<open>Reconcile\<close> on the table group that \<^verbatim>\<open>stepFetchTableGroup\<close> read.\<close>

definition Reconcile_table_group :: "tg_env \<Rightarrow> table_group \<Rightarrow> capi \<Rightarrow> (reconcileContext \<times> (tg_error + duration option)) cio" where
  "Reconcile_table_group env tg api =
     runSteps (table_group_steps api env)
       \<lparr>rc_tg = tg, rc_observed = [], rc_active = [], rc_applied = [], rc_old_phase = to_phase tg, rc_pending = False\<rparr>"

subsection \<open>The pass keeps the handshake\<close>

definition pending_group :: "table_group \<Rightarrow> bool" where
  "pending_group tg \<longleftrightarrow> str_at (to_annotations tg) AnnotationPendingDeletion \<noteq> []"

text \<open>A table group to be deleted reads its shards past the cache, any other from it.\<close>

definition group_listing :: "table_group \<Rightarrow> ccall" where
  "group_listing tg = ListChildren (pending_group tg) ''Shard'' (to_namespace tg) (childShardSelector tg)"

definition shard_object_name :: "table_group \<Rightarrow> shard_resolved_spec \<Rightarrow> string" where
  "shard_object_name tg spec = joined DefaultConstraints
     [str_at (to_labels tg) LabelMultigresCluster, to_database tg, to_group tg, sr_name spec]"

lemma BuildShard_name: "BuildShard env tg spec = Inr shd \<Longrightarrow> s_name shd = shard_object_name tg spec"
  by (auto simp: BuildShard_def shard_object_name_def Let_def split: option.splits)

text \<open>A table group that is not to be deleted wants the shards of its specification that are not on their way out.\<close>

definition wants_shard :: "table_group \<Rightarrow> cobject list \<Rightarrow> cobject \<Rightarrow> bool" where
  "wants_shard tg items s \<longleftrightarrow>
     \<not> pending_group tg \<and> co_name s \<in> shard_object_name tg ` set (to_shards tg) \<and> \<not> cleanup_in_progress items (co_name s)"

lemma keeps_runSteps:
  assumes "keeps G (s rc) h"
    and "\<And>rc' h'. run_state (s rc) h = ((rc', ContinueStep), h') \<Longrightarrow> keeps G (runSteps ss rc') h'"
  shows "keeps G (runSteps (s # ss) rc) h"
  unfolding runSteps.simps
proof (rule keeps_bind [OF assms(1)])
  fix x h'
  assume x: "run_state (s rc) h = (x, h')"
  then show "keeps G (case x of (rc', res) \<Rightarrow> case res of FailStep err \<Rightarrow> State_Monad.return (rc', Inl err)
      | DoneStep d \<Rightarrow> State_Monad.return (rc', Inr d) | ContinueStep \<Rightarrow> runSteps ss rc') h'"
    using assms(2) by (cases x; cases "snd x") (auto simp: keeps_return)
qed

lemma runSteps_quiet:
  "keeps G (State_Monad.return (rc, x)) h" "run_state (State_Monad.return (rc, x)) h = ((rc, x), h)"
  by (simp_all add: keeps_return)

definition group_guard :: "capi \<Rightarrow> table_group \<Rightarrow> ccall list \<Rightarrow> ccall \<Rightarrow> bool" where
  "group_guard api tg h c \<longleftrightarrow> handshake_guard api (group_listing tg) (wants_shard tg) h c \<and> fresh_guard api (group_listing tg) h c"

lemma group_guard_easy [simp]:
  "group_guard api tg h (ListChildren b k n l)" "group_guard api tg h (ApplyStatus k n)" "group_guard api tg h (RecordEvent r n)"
  by (simp_all add: group_guard_def handshake_guard_def fresh_guard_def)

lemma group_guard_stamp:
  "seen (ca_list api) h (group_listing tg) (Inr items) \<Longrightarrow> s \<in> set items \<Longrightarrow> \<not> wants_shard tg items s \<Longrightarrow> co_pending s = []
   \<Longrightarrow> group_guard api tg h (StampPending k s stamp)"
  by (auto simp: group_guard_def handshake_guard_def fresh_guard_def)

lemma keeps_stamp:
  "group_guard api tg h (StampPending ''Shard'' s (te_stamp env)) \<Longrightarrow> keeps (group_guard api tg) (setShardPendingDeletion api env s) h"
  unfolding setShardPendingDeletion_def by (auto intro!: keeps_bind keeps_ask keeps_return)

lemma keeps_drain_children:
  assumes "pending_group tg" and "seen (ca_list api) h (group_listing tg) (Inr items)" and "set ss \<subseteq> set items"
  shows "keeps (group_guard api tg) (drain_children api env ss b) h"
  using assms(2,3)
proof (induction ss arbitrary: b h)
  case (Cons s ss)
  have tail: "keeps (group_guard api tg) (drain_children api env ss b') h'" if "seen (ca_list api) h' (group_listing tg) (Inr items)" for b' h'
    using Cons.IH that Cons.prems(2) by simp
  have "keeps (group_guard api tg) (setShardPendingDeletion api env s) h" if "co_pending s = []"
    using Cons.prems that assms(1) by (intro keeps_stamp group_guard_stamp) (auto simp: wants_shard_def)
  then show ?case
    using Cons.prems(1) tail
    by (auto intro!: keeps_bind_inv [where I = "\<lambda>h. seen (ca_list api) h (group_listing tg) (Inr items)"] seen_mono keeps_return keeps_emit
        split: option.split)
qed (simp add: keeps_return)

lemma keeps_group_pending:
  assumes "pending_group tg"
  shows "keeps (group_guard api tg) (handlePendingDeletion api env tg) h"
  unfolding handlePendingDeletion_def list_shards_def
proof (rule keeps_bind)
  let ?l = "ListChildren True ''Shard'' (to_namespace tg) (childShardSelector tg)"
  have l: "?l = group_listing tg" using assms by (simp add: group_listing_def)
  fix r h'
  assume "run_state (ask (ca_list api) ?l) h = (r, h')"
  then have r: "ca_list api h ?l = r" "h' = h @ [?l]" by auto
  have "seen (ca_list api) h' (group_listing tg) (Inr items)" if "r = Inr items" for items
    using r that seen_last [of "ca_list api" h ?l] by (simp add: l)
  then show "keeps (group_guard api tg) (case r of
       Inl err \<Rightarrow> State_Monad.return (tg, Inl (ListShardsFailed err))
     | Inr shards \<Rightarrow> drain_children api env shards True \<bind> (\<lambda>d. case d of
           Inl err \<Rightarrow> State_Monad.return (tg, Inl err)
         | Inr allReady \<Rightarrow> if \<not> allReady then State_Monad.return (tg, Inr (Some (5 * second)))
             else ask (ca_write api) (ApplyStatus ''TableGroup'' (to_name tg)) \<bind> (\<lambda>w. case w of
                 Some err \<Rightarrow> State_Monad.return (ready_status env tg, Inl (StatusFailed err))
               | None \<Rightarrow> emit (RecordEvent ''ReadyForDeletion'' (to_name tg)) \<bind> (\<lambda>_. State_Monad.return (ready_status env tg, Inr None))))) h'"
    by (cases r) (auto intro!: keeps_bind keeps_return keeps_ask keeps_emit keeps_drain_children [OF assms] split: option.split sum.split)
qed (simp add: keeps_ask)

lemma keeps_apply_shards:
  assumes "seen (ca_list api) h (group_listing tg) (Inr (rc_observed rc))"
  shows "keeps (group_guard api tg) (apply_shards api env specs rc) h"
  using assms
proof (induction specs arbitrary: rc h)
  case (Cons spec specs)
  let ?I = "\<lambda>h. seen (ca_list api) h (group_listing tg) (Inr (rc_observed rc))"
  have tail: "keeps (group_guard api tg) (apply_shards api env specs rc') h'" if "?I h'" "rc_observed rc' = rc_observed rc" for rc' h'
    using Cons.IH [of h' rc'] that by simp
  have "group_guard api tg h (ApplyChild ''Shard'' n)" if "\<not> cleanup_in_progress (rc_observed rc) n" for n
    using Cons.prems that by (auto simp: group_guard_def handshake_guard_def fresh_guard_def)
  then show ?case
    using Cons.prems tail
    by (auto intro!: keeps_bind_inv [where I = ?I] seen_mono keeps_return keeps_emit keeps_ask simp: Let_def split: sum.split)
qed (simp add: keeps_return)

lemma apply_shards_result:
  assumes "run_state (apply_shards api env specs rc) h = ((rc', ContinueStep), h')"
  shows "rc_tg rc' = rc_tg rc \<and> rc_observed rc' = rc_observed rc
    \<and> set (rc_active rc') = set (rc_active rc)
        \<union> {n \<in> shard_object_name (rc_tg rc) ` set specs. \<not> cleanup_in_progress (rc_observed rc) n}"
  using assms
proof (induction specs arbitrary: rc h)
  case (Cons spec specs)
  obtain shd where b: "BuildShard env (rc_tg rc) spec = Inr shd"
    using Cons.prems by (cases "BuildShard env (rc_tg rc) spec") auto
  note name = BuildShard_name [OF b]
  show ?case
  proof (cases "cleanup_in_progress (rc_observed rc) (s_name shd)")
    case True
    with Cons.prems b have "run_state (apply_shards api env specs (rc\<lparr>rc_pending := True\<rparr>)) h = ((rc', ContinueStep), h')" by simp
    from Cons.IH [OF this] show ?thesis using True by (auto simp: name)
  next
    case False
    with Cons.prems b obtain g h1 where "run_state (apply_shards api env specs
        (rc\<lparr>rc_active := s_name shd # rc_active rc, rc_applied := (s_name shd, g) # rc_applied rc\<rparr>)) h1 = ((rc', ContinueStep), h')"
      by (auto simp: Let_def split: sum.splits)
    from Cons.IH [OF this] show ?thesis using False by (auto simp: name)
  qed
qed simp

lemma group_guard_delete:
  "seen (ca_list api) h (group_listing tg) (Inr items) \<Longrightarrow> s \<in> set items \<Longrightarrow> \<not> wants_shard tg items s \<Longrightarrow> co_pending s \<noteq> []
   \<Longrightarrow> ready_for_deletion_child s \<Longrightarrow> group_guard api tg h (DeleteChild k s None)"
  by (auto simp: group_guard_def handshake_guard_def fresh_guard_def)

lemma keeps_retire_shards:
  assumes "seen (ca_list api) h (group_listing tg) (Inr items)" and "set ss \<subseteq> set items"
    and "\<And>s. s \<in> set items \<Longrightarrow> co_name s \<notin> set (rc_active rc) \<Longrightarrow> \<not> wants_shard tg items s"
  shows "keeps (group_guard api tg) (retire_shards api env ss rc) h"
  using assms
proof (induction ss arbitrary: rc h)
  case (Cons s ss)
  let ?I = "\<lambda>h. seen (ca_list api) h (group_listing tg) (Inr items)"
  have tail: "keeps (group_guard api tg) (retire_shards api env ss rc') h'" if "?I h'" "rc_active rc' = rc_active rc" for rc' h'
    using Cons.IH [of h' rc'] Cons.prems that by simp
  have stamp: "keeps (group_guard api tg) (setShardPendingDeletion api env s) h" if "co_name s \<notin> set (rc_active rc)" "co_pending s = []"
    using Cons.prems that by (intro keeps_stamp group_guard_stamp) auto
  have delete: "keeps (group_guard api tg) (ask (ca_write api) (DeleteChild ''Shard'' s None)) h"
    if "co_name s \<notin> set (rc_active rc)" "co_pending s \<noteq> []" "ready_for_deletion_child s"
    using Cons.prems that by (intro keeps_ask group_guard_delete) auto
  show ?case
    using Cons.prems(1) tail stamp delete
    by (auto intro!: keeps_bind_inv [where I = ?I] seen_mono keeps_return keeps_emit split: option.split)
qed (simp add: keeps_return)

lemma keeps_patch_status: "keeps (group_guard api tg) (stepPatchStatus api rc) h"
  unfolding stepPatchStatus_def
  by (rule keeps_bind, simp add: keeps_return keeps_emit, rule keeps_bind, simp add: keeps_ask, rename_tac w h2, case_tac w)
    (auto intro!: keeps_bind keeps_return keeps_emit)

lemma keeps_last_steps: "keeps (group_guard api tg) (runSteps [stepComputeStatus env, stepPatchStatus api, stepRequeueIfPending] rc) h"
  by (rule keeps_runSteps, simp add: stepComputeStatus_def keeps_return, rule keeps_runSteps, rule keeps_patch_status,
      rule keeps_runSteps) (simp_all add: stepRequeueIfPending_def keeps_return)

lemma keeps_normal_steps:
  assumes "\<not> pending_group tg" and "rc_tg rc = tg"
  shows "keeps (group_guard api tg) (runSteps [stepListChildShards api, stepApplyDesiredShards api env, stepReconcileUndesired api env,
      stepComputeStatus env, stepPatchStatus api, stepRequeueIfPending] rc) h"
proof (rule keeps_runSteps)
  show "keeps (group_guard api tg) (stepListChildShards api rc) h"
    by (auto simp: stepListChildShards_def list_shards_def intro!: keeps_bind keeps_ask keeps_return)
  fix rc1 h1
  assume "run_state (stepListChildShards api rc) h = ((rc1, ContinueStep), h1)"
  then obtain items where items: "ca_list api h (group_listing tg) = Inr items"
    and rc1: "rc1 = rc\<lparr>rc_observed := items\<rparr>" and h1: "h1 = h @ [group_listing tg]"
    using assms by (auto simp: stepListChildShards_def list_shards_def group_listing_def split: sum.splits)
  have s1: "seen (ca_list api) h1 (group_listing tg) (Inr items)" unfolding h1 by (rule seen_last [of "ca_list api" h]) (rule items)
  show "keeps (group_guard api tg) (runSteps [stepApplyDesiredShards api env, stepReconcileUndesired api env,
      stepComputeStatus env, stepPatchStatus api, stepRequeueIfPending] rc1) h1"
  proof (rule keeps_runSteps)
    show k: "keeps (group_guard api tg) (stepApplyDesiredShards api env rc1) h1"
      unfolding stepApplyDesiredShards_def by (rule keeps_apply_shards) (simp add: rc1 s1)
    fix rc2 h2
    assume a: "run_state (stepApplyDesiredShards api env rc1) h1 = ((rc2, ContinueStep), h2)"
    then obtain cs where h2: "h2 = h1 @ cs" using keeps_run [OF k] by auto
    have res: "rc_observed rc2 = items"
      "set (rc_active rc2) = {n \<in> shard_object_name tg ` set (to_shards tg). \<not> cleanup_in_progress items n}"
      using apply_shards_result [OF a [unfolded stepApplyDesiredShards_def]] assms(2) by (auto simp: rc1)
    show "keeps (group_guard api tg) (runSteps [stepReconcileUndesired api env, stepComputeStatus env, stepPatchStatus api,
        stepRequeueIfPending] rc2) h2"
    proof (rule keeps_runSteps)
      show "keeps (group_guard api tg) (stepReconcileUndesired api env rc2) h2"
        unfolding stepReconcileUndesired_def res(1)
        by (rule keeps_retire_shards [where items = items]) (auto simp: h2 res(2) wants_shard_def intro: seen_mono s1)
    qed (rule keeps_last_steps)
  qed
qed

lemma keeps_Reconcile: "keeps (group_guard api tg) (Reconcile_table_group env tg api) h"
proof -
  let ?rc = "\<lparr>rc_tg = tg, rc_observed = [], rc_active = [], rc_applied = [], rc_old_phase = to_phase tg, rc_pending = False\<rparr>"
  have pending: "keeps (group_guard api tg) (stepHandlePendingDeletion api env ?rc) h" for h
    unfolding stepHandlePendingDeletion_def
    by (auto intro!: keeps_return keeps_bind keeps_group_pending simp: pending_group_def)
  show ?thesis unfolding Reconcile_table_group_def table_group_steps_def
  proof (rule keeps_runSteps)
    show "keeps (group_guard api tg) (stepGuardReconcile env ?rc) h" by (simp add: stepGuardReconcile_def keeps_return)
    fix rc1 h1
    assume "run_state (stepGuardReconcile env ?rc) h = ((rc1, ContinueStep), h1)"
    then have rc1: "rc1 = ?rc" "h1 = h" by (auto simp: stepGuardReconcile_def)
    show "keeps (group_guard api tg) (runSteps [stepHandlePendingDeletion api env, stepShortCircuitDeletion, stepListChildShards api,
        stepApplyDesiredShards api env, stepReconcileUndesired api env, stepComputeStatus env, stepPatchStatus api,
        stepRequeueIfPending] rc1) h1"
      unfolding rc1
    proof (rule keeps_runSteps, rule pending)
      fix rc2 h2
      assume "run_state (stepHandlePendingDeletion api env ?rc) h = ((rc2, ContinueStep), h2)"
      then have rc2: "rc2 = ?rc" "h2 = h" "\<not> pending_group tg"
        by (auto simp: stepHandlePendingDeletion_def pending_group_def split: if_splits sum.splits prod.splits)
      show "keeps (group_guard api tg) (runSteps [stepShortCircuitDeletion, stepListChildShards api,
          stepApplyDesiredShards api env, stepReconcileUndesired api env, stepComputeStatus env, stepPatchStatus api,
          stepRequeueIfPending] rc2) h2"
        unfolding rc2(1,2)
        by (rule keeps_runSteps) (auto simp: stepShortCircuitDeletion_def keeps_return simp del: runSteps.simps
            intro!: keeps_normal_steps rc2(3) split: if_splits)
    qed
  qed
qed

lemma keeps_imp: "keeps G m h \<Longrightarrow> (\<And>h c. G h c \<Longrightarrow> H h c) \<Longrightarrow> keeps H m h"
proof -
  assume k: "keeps G m h" and i: "\<And>h c. G h c \<Longrightarrow> H h c"
  have "guarded G h cs \<Longrightarrow> guarded H h cs" for h cs using i by (induction cs arbitrary: h) auto
  with k show "keeps H m h" by (auto simp: keeps_def)
qed

interpretation table_group: fresh_handshake "Reconcile_table_group env tg" "group_listing tg" "wants_shard tg" for env tg
  by unfold_locales (rule keeps_imp [OF keeps_Reconcile], simp add: group_guard_def)+


subsection \<open>What a finished pass has established\<close>

lemma drain_children_result:
  assumes "run_state (drain_children api env ss b) h = (d, h')"
  shows "ApplyStatus k n \<in> set h' \<longleftrightarrow> ApplyStatus k n \<in> set h"
    and "d = Inr True \<longleftrightarrow> b \<and> list_all (\<lambda>s. co_deletion s = None \<and> co_pending s \<noteq> [] \<and> ready_for_deletion_child s) ss"
proof -
  have "(ApplyStatus k n \<in> set h' \<longleftrightarrow> ApplyStatus k n \<in> set h)
    \<and> (d = Inr True \<longleftrightarrow> b \<and> list_all (\<lambda>s. co_deletion s = None \<and> co_pending s \<noteq> [] \<and> ready_for_deletion_child s) ss)"
    using assms
  proof (induction ss arbitrary: b h)
    case (Cons s ss)
    then show ?case by (fastforce simp: setShardPendingDeletion_def split: if_splits option.splits)
  qed auto
  then show "ApplyStatus k n \<in> set h' \<longleftrightarrow> ApplyStatus k n \<in> set h"
    and "d = Inr True \<longleftrightarrow> b \<and> list_all (\<lambda>s. co_deletion s = None \<and> co_pending s \<noteq> [] \<and> ready_for_deletion_child s) ss" by blast+
qed

lemma apply_shards_step: "snd (fst (run_state (apply_shards api env specs rc) h)) \<noteq> DoneStep d"
proof (induction specs arbitrary: rc h)
  case (Cons spec specs)
  then show ?case by (cases "BuildShard env (rc_tg rc) spec") (auto simp: Let_def split: sum.split)
qed simp

text \<open>Every wanted name carries a generation that an apply of this pass answered.\<close>

lemma apply_shards_applied:
  assumes "run_state (apply_shards api env specs rc) h = ((rc', ContinueStep), h')"
    and "\<And>n. n \<in> set (rc_active rc) \<Longrightarrow> \<exists>g. map_of (rc_applied rc) n = Some g \<and> seen (ca_apply api) h (ApplyChild ''Shard'' n) (Inr g)"
    and "n \<in> set (rc_active rc')"
  shows "\<exists>g. map_of (rc_applied rc') n = Some g \<and> seen (ca_apply api) h' (ApplyChild ''Shard'' n) (Inr g)"
  using assms
proof (induction specs arbitrary: rc h)
  case (Cons spec specs)
  obtain shd where b: "BuildShard env (rc_tg rc) spec = Inr shd"
    using Cons.prems(1) by (cases "BuildShard env (rc_tg rc) spec") auto
  show ?case
  proof (cases "cleanup_in_progress (rc_observed rc) (s_name shd)")
    case True
    with Cons.prems(1) b have "run_state (apply_shards api env specs (rc\<lparr>rc_pending := True\<rparr>)) h = ((rc', ContinueStep), h')" by simp
    from Cons.IH [OF this] Cons.prems(2,3) show ?thesis by simp
  next
    case False
    let ?c = "ApplyChild ''Shard'' (s_name shd)"
    let ?e = "RecordEvent ''Applied'' (s_name shd)"
    from False Cons.prems(1) b obtain g where g: "ca_apply api h ?c = Inr g" and r: "run_state (apply_shards api env specs
        (rc\<lparr>rc_active := s_name shd # rc_active rc, rc_applied := (s_name shd, g) # rc_applied rc\<rparr>)) (h @ [?c, ?e]) = ((rc', ContinueStep), h')"
      by (auto simp: Let_def split: sum.splits)
    have s: "seen (ca_apply api) (h @ [?c, ?e]) ?c (Inr g)"
      using seen_mono [OF seen_last [of "ca_apply api" h ?c, OF g], of "[?e]"] by simp
    have keep: "\<exists>g. map_of ((s_name shd, g') # rc_applied rc) m = Some g \<and> seen (ca_apply api) (h @ [?c, ?e]) (ApplyChild ''Shard'' m) (Inr g)"
      if "m \<in> set (rc_active rc)" "m \<noteq> s_name shd" for m g'
      using Cons.prems(2) [OF that(1)] that(2) by (auto intro: seen_mono)
    show ?thesis by (rule Cons.IH [OF r _ Cons.prems(3)]) (use s keep in auto)
  qed
qed simp

lemma retire_shards_result:
  assumes "run_state (retire_shards api env ss rc) h = ((rc', out), h')"
  shows "rc_tg rc' = rc_tg rc" "rc_observed rc' = rc_observed rc" "rc_active rc' = rc_active rc" "rc_applied rc' = rc_applied rc"
    "out \<noteq> DoneStep d" "rc_pending rc \<Longrightarrow> rc_pending rc'"
proof -
  have "rc_tg rc' = rc_tg rc \<and> rc_observed rc' = rc_observed rc \<and> rc_active rc' = rc_active rc \<and> rc_applied rc' = rc_applied rc
    \<and> out \<noteq> DoneStep d \<and> (rc_pending rc \<longrightarrow> rc_pending rc')"
    using assms
  proof (induction ss arbitrary: rc h)
    case (Cons s ss)
    then show ?case by (fastforce simp: setShardPendingDeletion_def split: if_splits option.splits)
  qed auto
  then show "rc_tg rc' = rc_tg rc" "rc_observed rc' = rc_observed rc" "rc_active rc' = rc_active rc" "rc_applied rc' = rc_applied rc"
    "out \<noteq> DoneStep d" "rc_pending rc \<Longrightarrow> rc_pending rc'" by auto
qed


lemma runSteps_continue:
  "run_state (s rc) h = ((rc', ContinueStep), h') \<Longrightarrow> run_state (runSteps (s # ss) rc) h = run_state (runSteps ss rc') h'"
  by simp

lemma normal_pass:
  assumes run: "run_state (Reconcile_table_group env tg api) [] = ((rc, Inr d), h)"
    and live: "te_gated env = Inr False" "\<not> pending_group tg" "to_deletion tg = None"
  obtains items rc3 where "seen (ca_list api) h (group_listing tg) (Inr items)" and "rc_observed rc3 = items" and "rc_tg rc3 = tg"
    and "set (rc_active rc3) = {n \<in> shard_object_name tg ` set (to_shards tg). \<not> cleanup_in_progress items n}"
    and "rc_tg rc = compute_status env rc3" and "d = (if rc_pending rc3 then Some (5 * second) else None)"
    and "\<And>n. n \<in> set (rc_active rc3) \<Longrightarrow> \<exists>g. map_of (rc_applied rc3) n = Some g \<and> seen (ca_apply api) h (ApplyChild ''Shard'' n) (Inr g)"
proof -
  let ?rc = "\<lparr>rc_tg = tg, rc_observed = [], rc_active = [], rc_applied = [], rc_old_phase = to_phase tg, rc_pending = False\<rparr>"
  let ?last = "[stepComputeStatus env, stepPatchStatus api, stepRequeueIfPending]"
  from run live have r1: "run_state (runSteps (stepListChildShards api # stepApplyDesiredShards api env # stepReconcileUndesired api env # ?last) ?rc) []
      = ((rc, Inr d), h)"
    by (simp add: Reconcile_table_group_def table_group_steps_def stepGuardReconcile_def stepHandlePendingDeletion_def
        pending_group_def stepShortCircuitDeletion_def)
  have l: "ListChildren False ''Shard'' (to_namespace tg) (childShardSelector tg) = group_listing tg" using live(2) by (simp add: group_listing_def)
  from r1 obtain items where items: "ca_list api [] (group_listing tg) = Inr items"
    by (cases "ca_list api [] (group_listing tg)") (auto simp: stepListChildShards_def list_shards_def l)
  let ?rc1 = "?rc\<lparr>rc_observed := items\<rparr>" and ?h1 = "[group_listing tg]"
  have s1: "seen (ca_list api) ?h1 (group_listing tg) (Inr items)" using seen_last [of "ca_list api" "[]", OF items] by simp
  have r2: "run_state (runSteps (stepApplyDesiredShards api env # stepReconcileUndesired api env # ?last) ?rc1) ?h1 = ((rc, Inr d), h)"
    using r1 runSteps_continue [of "stepListChildShards api" ?rc "[]" ?rc1 ?h1]
    by (simp add: stepListChildShards_def list_shards_def l items)
  obtain rc2 o2 h2 where a: "run_state (apply_shards api env (to_shards tg) ?rc1) ?h1 = ((rc2, o2), h2)" by (metis prod.exhaust)
  have o2: "o2 = ContinueStep"
    using r2 a apply_shards_step [of api env "to_shards tg" ?rc1 ?h1] by (cases o2) (auto simp: stepApplyDesiredShards_def)
  note res = apply_shards_result [OF a [unfolded o2]]
  have r3: "run_state (runSteps (stepReconcileUndesired api env # ?last) rc2) h2 = ((rc, Inr d), h)"
    using r2 runSteps_continue [of "stepApplyDesiredShards api env" ?rc1 ?h1 rc2 h2] a o2 by (simp add: stepApplyDesiredShards_def)
  obtain rc3 o3 h3 where b: "run_state (retire_shards api env items rc2) h2 = ((rc3, o3), h3)" by (metis prod.exhaust)
  note keep = retire_shards_result [OF b]
  have o3: "o3 = ContinueStep"
    using r3 b keep(5) res by (cases o3) (auto simp: stepReconcileUndesired_def)
  have r4: "run_state (runSteps ?last rc3) h3 = ((rc, Inr d), h)"
    using r3 runSteps_continue [of "stepReconcileUndesired api env" rc2 h2 rc3 h3] b o3 res by (simp add: stepReconcileUndesired_def)
  obtain c2 where c2: "h2 = ?h1 @ c2" using keeps_run [OF keeps_apply_shards, of api ?h1 tg ?rc1 env "to_shards tg"] s1 a by auto
  obtain c3 where c3: "h3 = h2 @ c3"
    using keeps_run [OF keeps_retire_shards, of api h2 tg items items rc2 env] seen_mono [OF s1, of c2] b res
    by (auto simp: c2 wants_shard_def)
  obtain c4 where c4: "h = h3 @ c4" using keeps_run [OF keeps_last_steps, of env api rc3 h3] r4 by (auto simp del: runSteps.simps)
  have fin: "rc_tg rc = compute_status env rc3 \<and> d = (if rc_pending rc3 then Some (5 * second) else None)"
    using r4 by (auto simp: stepComputeStatus_def stepPatchStatus_def stepRequeueIfPending_def split: option.splits if_splits)
  show thesis
  proof (rule that [of items rc3])
    show "seen (ca_list api) h (group_listing tg) (Inr items)" using seen_mono [OF s1] by (simp add: c2 c3 c4)
    show "\<exists>g. map_of (rc_applied rc3) n = Some g \<and> seen (ca_apply api) h (ApplyChild ''Shard'' n) (Inr g)"
      if "n \<in> set (rc_active rc3)" for n
    proof -
      from that have n: "n \<in> set (rc_active rc2)" by (simp add: keep)
      obtain g where "map_of (rc_applied rc2) n = Some g" "seen (ca_apply api) h2 (ApplyChild ''Shard'' n) (Inr g)"
        using apply_shards_applied [OF a [unfolded o2] _ n] by auto
      then show ?thesis using seen_mono [of "ca_apply api" h2 _ _ "c3 @ c4"] by (auto simp: c3 c4 keep)
    qed
  qed (use res keep fin in auto)
qed


text \<open>As many distinct wanted children as there are names wanted: every name has one.\<close>

lemma all_names_taken:
  assumes "distinct (map co_name items)" and "\<And>s. s \<in> set items \<Longrightarrow> P s \<Longrightarrow> co_name s \<in> f ` set specs"
  shows "length (filter P items) \<le> length specs"
    and "length (filter P items) = length specs \<Longrightarrow> spec \<in> set specs \<Longrightarrow> \<exists>s\<in>set items. P s \<and> co_name s = f spec"
proof -
  let ?N = "co_name ` set (filter P items)"
  have card: "card ?N = length (filter P items)"
    using distinct_card [OF distinct_map_filter [OF assms(1), of P]] by simp
  have sub: "?N \<subseteq> f ` set specs" using assms(2) by auto
  have le: "card (f ` set specs) \<le> length specs" using card_image_le [of "set specs" f] card_length [of specs] by simp
  show "length (filter P items) \<le> length specs" using card_mono [OF _ sub] card le by simp
  assume eq: "length (filter P items) = length specs" and "spec \<in> set specs"
  have "?N = f ` set specs" by (rule card_seteq) (use sub card le eq in auto)
  then have "f spec \<in> ?N" using \<open>spec \<in> set specs\<close> by auto
  then show "\<exists>s\<in>set items. P s \<and> co_name s = f spec" by auto
qed

lemma compute_status_healthy:
  assumes "to_phase (compute_status env rc) = PhaseHealthy"
  shows "\<not> rc_pending rc" and "wrap32 (int (length (filter (\<lambda>s. counted rc s \<and> co_phase s = PhaseHealthy) (rc_observed rc))))
    = wrap32 (int (length (to_shards (rc_tg rc))))"
proof -
  have "\<not> rc_pending rc \<and> wrap32 (int (length (filter (\<lambda>s. co_phase s = PhaseHealthy) (filter (counted rc) (rc_observed rc)))))
    = wrap32 (int (length (to_shards (rc_tg rc))))"
    using assms by (auto simp: compute_status_def group_phase_def Let_def split: if_splits)
  then show "\<not> rc_pending rc" and "wrap32 (int (length (filter (\<lambda>s. counted rc s \<and> co_phase s = PhaseHealthy) (rc_observed rc))))
    = wrap32 (int (length (to_shards (rc_tg rc))))" by (simp_all add: conj_commute)
qed

text \<open>
  C22: A pass that leaves a table group \<^verbatim>\<open>Healthy\<close> saw, for every shard of the specification, a child that is not on its
  way out, reports \<^verbatim>\<open>Healthy\<close>, and has observed the very generation that this pass's apply of it settled on; and it
  waits for nothing. The API server lists no name twice.
\<close>

theorem table_group_healthy:
  assumes "run_state (Reconcile_table_group env tg api) [] = ((rc, Inr d), h)"
    and "te_gated env = Inr False" and "\<not> pending_group tg" and "to_deletion tg = None"
    and "\<forall>h c items. ca_list api h c = Inr items \<longrightarrow> distinct (map co_name items)"
    and "length (to_shards tg) < 2 ^ 31" and "to_phase (rc_tg rc) = PhaseHealthy" and "spec \<in> set (to_shards tg)"
  shows "d = None \<and> (\<exists>items s g. seen (ca_list api) h (group_listing tg) (Inr items) \<and> s \<in> set items
    \<and> co_name s = shard_object_name tg spec \<and> \<not> draining s \<and> co_phase s = PhaseHealthy
    \<and> seen (ca_apply api) h (ApplyChild ''Shard'' (co_name s)) (Inr g) \<and> co_observed_generation s = g)"
proof -
  obtain items rc3 where items: "seen (ca_list api) h (group_listing tg) (Inr items)"
    and rc3: "rc_observed rc3 = items" "rc_tg rc3 = tg" "rc_tg rc = compute_status env rc3"
      "d = (if rc_pending rc3 then Some (5 * second) else None)"
    and active: "set (rc_active rc3) = {n \<in> shard_object_name tg ` set (to_shards tg). \<not> cleanup_in_progress items n}"
    and applied: "\<And>n. n \<in> set (rc_active rc3) \<Longrightarrow> \<exists>g. map_of (rc_applied rc3) n = Some g \<and> seen (ca_apply api) h (ApplyChild ''Shard'' n) (Inr g)"
    by (rule normal_pass [OF assms(1-4)]) blast
  let ?P = "\<lambda>s. counted rc3 s \<and> co_phase s = PhaseHealthy"
  have dist: "distinct (map co_name items)" using items assms(5) by (auto simp: seen_def)
  have names: "co_name s \<in> shard_object_name tg ` set (to_shards tg)" if "?P s" for s
    using that active by (auto simp: counted_def)
  note ph = compute_status_healthy [OF assms(7) [unfolded rc3(3)], unfolded rc3(1,2)]
  have le: "length (filter ?P items) \<le> length (to_shards tg)" by (rule all_names_taken(1) [OF dist]) (rule names)
  have "length (filter ?P items) = length (to_shards tg)" using ph(2) le assms(6) by simp
  then obtain s where s: "s \<in> set items" "?P s" "co_name s = shard_object_name tg spec"
    using all_names_taken(2) [where P = ?P and f = "shard_object_name tg" and specs = "to_shards tg", OF dist names _ assms(8)] by auto
  have "find (\<lambda>o'. co_name o' = co_name s) items = Some s" using find_unique [OF dist s(1)] .
  then have "\<not> draining s" using s(2) active by (auto simp: counted_def cleanup_in_progress_def)
  with s items applied [of "co_name s"] ph(1) show ?thesis by (fastforce simp: rc3(4) counted_def)
qed


definition shard_spec_w :: shard_resolved_spec where
  "shard_spec_w = \<lparr>sr_name = ''0'', sr_resolved = start_from_template None empty_template, sr_cluster_views = None\<rparr>"

definition table_group_w :: table_group where
  "table_group_w = \<lparr>to_name = ''c-db-tg'', to_namespace = ''ns'', to_labels = [LabelMultigresCluster \<mapsto> ''c''], to_annotations = Map.empty,
     to_deletion = None, to_generation = 1, to_database = ''db'', to_group = ''tg'', to_topo_address = [], to_topo_root = [],
     to_shards = [shard_spec_w], to_pvc_deletion_policy = None, to_topology_pruning = None, to_durability_policy = [], to_mode = [],
     to_phase = PhaseInitializing, to_message = [], to_total = 0, to_ready = 0, to_conditions = [], to_observed_generation = 0\<rparr>"

definition child_w :: "string \<Rightarrow> string \<Rightarrow> condition list \<Rightarrow> cobject" where
  "child_w name stamp conditions = \<lparr>co_name = name, co_key = name, co_uid = ''u'', co_version = ''1'', co_generation = 3, co_pending = stamp,
     co_deletion = None, co_conditions = conditions, co_observed_generation = 3, co_phase = PhaseHealthy\<rparr>"

definition ready_w :: "condition list" where
  "ready_w = [\<lparr>c_type = ''ReadyForDeletion'', c_status = ConditionTrue, c_observed_generation = 1, c_last_transition = 0,
     c_reason = [], c_message = []\<rparr>]"

definition api_w :: "cobject list \<Rightarrow> capi" where
  "api_w items = \<lparr>ca_list = (\<lambda>h c. Inr items), ca_apply = (\<lambda>h c. Inr 3), ca_version = (\<lambda>h c. ''1''), ca_write = (\<lambda>h c. None)\<rparr>"

definition tg_env_w :: tg_env where
  "tg_env_w = \<lparr>te_set_owner = (\<lambda>tg s. None), te_set_status = (\<lambda>cs c. [c]), te_stamp = ''now'', te_gated = Inr False\<rparr>"

lemma apply_w:
  "(case run_state (Reconcile_table_group tg_env_w table_group_w (api_w [child_w (shard_object_name table_group_w shard_spec_w) [] []])) []
    of ((rc, out), h) \<Rightarrow> out = Inr None \<and> to_phase (rc_tg rc) = PhaseHealthy)"
  by code_simp

theorem table_group_healthy_witness:
  "case run_state (Reconcile_table_group tg_env_w table_group_w (api_w [child_w (shard_object_name table_group_w shard_spec_w) [] []])) []
   of ((rc, out), h) \<Rightarrow> out = Inr None \<and>
     (\<exists>items s g. seen (ca_list (api_w [child_w (shard_object_name table_group_w shard_spec_w) [] []])) h (group_listing table_group_w) (Inr items)
       \<and> s \<in> set items \<and> co_name s = shard_object_name table_group_w shard_spec_w \<and> \<not> draining s \<and> co_phase s = PhaseHealthy
       \<and> seen (ca_apply (api_w [child_w (shard_object_name table_group_w shard_spec_w) [] []])) h (ApplyChild ''Shard'' (co_name s)) (Inr g)
       \<and> co_observed_generation s = g)"
proof -
  let ?api = "api_w [child_w (shard_object_name table_group_w shard_spec_w) [] []]"
  obtain rc out h where r: "run_state (Reconcile_table_group tg_env_w table_group_w ?api) [] = ((rc, out), h)" by (metis prod.exhaust)
  have o: "out = Inr None" "to_phase (rc_tg rc) = PhaseHealthy" using apply_w by (simp_all add: r)
  show ?thesis
    using table_group_healthy [OF r [unfolded o(1)] _ _ _ _ _ o(2), of shard_spec_w]
    by (simp add: r o(1)) (simp add: tg_env_w_def table_group_w_def pending_group_def str_at_def api_w_def)
qed

text \<open>
  A shard that a pass over a table group deletes had, in the list that pass read before, the stamp and its controller's
  \<^verbatim>\<open>ReadyForDeletion\<close>, and it is not one the table group wants: the table group is itself to be deleted, or the shard
  has left its specification, or it was already on its way out.
\<close>

theorem table_group_deletes_drained:
  assumes "snd (run_state (Reconcile_table_group env tg api) []) = pre @ DeleteChild kind s p # post"
  shows "\<exists>items. seen (ca_list api) pre (group_listing tg) (Inr items) \<and> s \<in> set items \<and> \<not> wants_shard tg items s
    \<and> co_pending s \<noteq> [] \<and> ready_for_deletion_child s"
  by (rule table_group.deletes_drained [OF assms])

definition bare_group_w :: table_group where "bare_group_w = table_group_w\<lparr>to_shards := []\<rparr>"

lemmas pass_w_defs = Reconcile_table_group_def table_group_steps_def stepGuardReconcile_def stepHandlePendingDeletion_def
  stepShortCircuitDeletion_def stepListChildShards_def list_shards_def stepApplyDesiredShards_def stepReconcileUndesired_def
  stepComputeStatus_def stepPatchStatus_def stepRequeueIfPending_def setShardPendingDeletion_def bare_group_w_def table_group_w_def
  tg_env_w_def api_w_def child_w_def ready_w_def str_at_def ready_for_deletion_child_def

lemma delete_w:
  "\<exists>post. snd (run_state (Reconcile_table_group tg_env_w bare_group_w (api_w [child_w ''old'' ''t'' ready_w])) [])
   = [group_listing bare_group_w] @ DeleteChild ''Shard'' (child_w ''old'' ''t'' ready_w) None # post"
  by (simp add: pass_w_defs group_listing_def pending_group_def childShardSelector_def Let_def)

theorem table_group_deletes_drained_witness:
  "\<exists>items. seen (ca_list (api_w [child_w ''old'' ''t'' ready_w])) [group_listing bare_group_w] (group_listing bare_group_w) (Inr items)
    \<and> child_w ''old'' ''t'' ready_w \<in> set items \<and> \<not> wants_shard bare_group_w items (child_w ''old'' ''t'' ready_w)
    \<and> co_pending (child_w ''old'' ''t'' ready_w) \<noteq> [] \<and> ready_for_deletion_child (child_w ''old'' ''t'' ready_w)"
  using delete_w by (elim exE) (rule table_group_deletes_drained)

text \<open>
  A table group that is to be deleted reports \<^verbatim>\<open>ReadyForDeletion\<close> (writes its status on this path) exactly when its
  shards could be listed and each of them is stamped, reports \<^verbatim>\<open>ReadyForDeletion\<close> itself and is not terminating; with no
  shards left that is at once.
\<close>

theorem table_group_ready_iff:
  "ApplyStatus ''TableGroup'' (to_name tg) \<in> set (snd (run_state (handlePendingDeletion api env tg) []))
   \<longleftrightarrow> (\<exists>items. ca_list api [] (ListChildren True ''Shard'' (to_namespace tg) (childShardSelector tg)) = Inr items
        \<and> list_all (\<lambda>s. co_deletion s = None \<and> co_pending s \<noteq> [] \<and> ready_for_deletion_child s) items)"
proof -
  let ?l = "ListChildren True ''Shard'' (to_namespace tg) (childShardSelector tg)"
  let ?w = "ApplyStatus ''TableGroup'' (to_name tg)"
  show ?thesis
  proof (cases "ca_list api [] ?l")
    case (Inr items)
    obtain d h where d: "run_state (drain_children api env items True) [?l] = (d, h)" by force
    note r = drain_children_result [OF d]
    show ?thesis
      using r Inr by (cases d) (auto simp: handlePendingDeletion_def list_shards_def d split: option.split)
  qed (simp add: handlePendingDeletion_def list_shards_def)
qed

end
