(* ===== verification/Cluster_Children.thy ===== *)
theory Cluster_Children
  imports Table_Groups
begin

text \<open>
  The cells and table groups of a cluster (\<^verbatim>\<open>pkg/cluster-handler/controller/multigrescluster\<close>: \<^verbatim>\<open>reconcile_cells.go\<close>,
  \<^verbatim>\<open>reconcile_databases.go\<close>, their builders, and \<^verbatim>\<open>globalTopoRef\<close>): what is built from the specification, and how what it
  no longer names is drained and deleted. The fields that are only copied from the cluster (images, log levels,
  observability, TLS and the names of secrets) are left out of the objects, as they are of the cluster.
\<close>

subsection \<open>The topology every component is given\<close>

record topo_ref =
  tr_address :: string
  tr_root_path :: string
  tr_implementation :: string
  tr_ca_secret :: string
  tr_client_cert_secret :: string

datatype cluster_error =
    ListFailed string api_error | TopoRefFailed resolve_error | LiteNeedsOneCell | LiteGatewayUnresolved resolve_error
  | ResolveShardFailed string resolve_error | ResolveCellFailed string resolve_error | BuildFailed string string
  | ApplyFailed string api_error | StampFailed string api_error | CancelFailed string api_error | DeleteFailed string api_error

record cluster_env =
  cx_env :: resolve_env
  cx_own_group :: "cluster \<Rightarrow> table_group \<Rightarrow> string option"
  cx_own_cell :: "cluster \<Rightarrow> string \<Rightarrow> string option"
  cx_stamp :: string

definition managedGlobalTopoAddress :: "cluster \<Rightarrow> string" where
  "managedGlobalTopoAddress c = mc_name c @ ''-global-topo.'' @ mc_namespace c @ ''.svc:2379''"

definition TopoClientCertSecretName :: "string \<Rightarrow> string" where
  "TopoClientCertSecretName clusterName = (if clusterName = [] then [] else clusterName @ ''-topo-client-tls'')"

definition topo_ref_of :: "cluster \<Rightarrow> global_topo \<Rightarrow> topo_ref" where
  "topo_ref_of c spec =
     (let address =
            (if gt_etcd spec \<noteq> None then managedGlobalTopoAddress c
             else case gt_external spec of
                    Some e \<Rightarrow> (case ex_endpoints e of [] \<Rightarrow> [] | ep # _ \<Rightarrow> ep)
                  | None \<Rightarrow> []);
          (rootPath, implementation, caSecret, clientCertSecret) =
            (case gt_external spec of
               Some e \<Rightarrow> (ex_root_path e, ex_implementation e, ex_ca_secret e, ex_client_cert_secret e)
             | None \<Rightarrow> (case gt_etcd spec of Some e \<Rightarrow> (et_root_path e, ''etcd'', [], []) | None \<Rightarrow> ([], [], [], [])));
          secret = TopoClientCertSecretName (mc_name c);
          issued = OperatorIssuesTopoClientCert c
      in \<lparr>tr_address = address, tr_root_path = rootPath, tr_implementation = implementation,
          tr_ca_secret = (if issued then secret else caSecret),
          tr_client_cert_secret = (if issued then secret else clientCertSecret)\<rparr>)"

definition globalTopoRef :: "cluster_env \<Rightarrow> cluster \<Rightarrow> (resolve_error + topo_ref) cio" where
  "globalTopoRef env c =
     (case ResolveGlobalTopo (cx_env env) c of
        Inl err \<Rightarrow> do { emit (RecordEvent ''TemplateMissing'' (mc_name c)); State_Monad.return (Inl err) }
      | Inr spec \<Rightarrow> State_Monad.return (Inr (topo_ref_of c spec)))"

subsection \<open>The objects\<close>

abbreviation AnnotationProjectRef :: string where "AnnotationProjectRef \<equiv> ''multigres.com/project-ref''"

definition project_annotations :: "cluster \<Rightarrow> labels" where
  "project_annotations c =
     (let projectRef = str_at (mc_annotations c) AnnotationProjectRef
      in if projectRef = [] then Map.empty else [AnnotationProjectRef \<mapsto> projectRef])"

record cell_object =
  ce_name :: string
  ce_namespace :: string
  ce_labels :: labels
  ce_annotations :: labels
  ce_cell :: string
  ce_zone_id :: string
  ce_region :: string
  ce_mode :: string
  ce_metadata :: string
  ce_gateway :: gateway_spec
  ce_placement :: "placement option"
  ce_all_cells :: "string list"
  ce_topo :: topo_ref
  ce_local_topo :: "local_topo option"
  ce_register :: bool
  ce_prune :: bool

definition isPruningEnabled :: "cluster \<Rightarrow> bool" where
  "isPruningEnabled c = (case mc_topology_pruning c of None \<Rightarrow> True | Some None \<Rightarrow> True | Some (Some b) \<Rightarrow> b)"

definition cell_object_name :: "cluster \<Rightarrow> string \<Rightarrow> string" where
  "cell_object_name c cell = joined DefaultConstraints [mc_name c, cell]"

definition BuildCell ::
  "cluster_env \<Rightarrow> cluster \<Rightarrow> cell_config \<Rightarrow> gateway_spec \<times> placement option \<times> local_topo option \<Rightarrow> topo_ref \<Rightarrow> string list
   \<Rightarrow> string + cell_object" where
  "BuildCell env c cellCfg resolved topo allCellNames =
     (let (gateway, placement, localTopo) = resolved;
          ls = BuildStandardLabels (mc_name c) ''cell'';
          ls = AddClusterLabel ls (mc_name c);
          ls = AddCellLabel ls (cl_name cellCfg);
          name = cell_object_name c (cl_name cellCfg)
      in case cx_own_cell env c name of
           Some err \<Rightarrow> Inl err
         | None \<Rightarrow> Inr \<lparr>ce_name = name, ce_namespace = mc_namespace c, ce_labels = ls, ce_annotations = project_annotations c,
             ce_cell = cl_name cellCfg, ce_zone_id = cl_zone_id cellCfg, ce_region = cl_region cellCfg, ce_mode = mc_mode c,
             ce_metadata = cl_metadata cellCfg, ce_gateway = gateway, ce_placement = placement, ce_all_cells = allCellNames,
             ce_topo = topo, ce_local_topo = localTopo, ce_register = True, ce_prune = isPruningEnabled c\<rparr>)"

definition BuildTableGroup ::
  "cluster_env \<Rightarrow> cluster \<Rightarrow> database_config \<Rightarrow> table_group_config \<Rightarrow> shard_resolved_spec list \<Rightarrow> topo_ref \<Rightarrow> string + table_group" where
  "BuildTableGroup env c dbCfg tgCfg resolvedShards topo =
     (let ls = BuildStandardLabels (mc_name c) ''tablegroup'';
          ls = AddClusterLabel ls (mc_name c);
          ls = AddDatabaseLabel ls (db_name dbCfg);
          ls = AddTableGroupLabel ls (tg_name tgCfg);
          tg = \<lparr>to_name = TableGroupName (mc_name c) (db_name dbCfg) (tg_name tgCfg), to_namespace = mc_namespace c, to_labels = ls,
             to_annotations = project_annotations c, to_deletion = None, to_generation = 0, to_database = db_name dbCfg,
             to_group = tg_name tgCfg, to_topo_address = tr_address topo, to_topo_root = tr_root_path topo, to_shards = resolvedShards,
             to_pvc_deletion_policy = MergePVCDeletionPolicy (tg_pvc_deletion_policy tgCfg) (mc_pvc_deletion_policy c),
             to_topology_pruning = mc_topology_pruning c,
             to_durability_policy = MergeDurabilityPolicy (db_durability_policy dbCfg) (mc_durability_policy c), to_mode = mc_mode c,
             to_phase = PhaseUnset, to_message = [], to_total = 0, to_ready = 0, to_conditions = [], to_observed_generation = 0\<rparr>
      in case cx_own_group env c tg of Some err \<Rightarrow> Inl err | None \<Rightarrow> Inr tg)"

definition buildCellTopologyLabels :: "cluster \<Rightarrow> (string \<Rightarrow> labels option) option" where
  "buildCellTopologyLabels c =
     (let add = (\<lambda>m cell. if cl_zone_id cell \<noteq> [] then m(cl_name cell \<mapsto> [NodeLabelZoneID \<mapsto> cl_zone_id cell])
                          else if cl_region cell \<noteq> [] then m(cl_name cell \<mapsto> [NodeLabelRegion \<mapsto> cl_region cell])
                          else m);
          m = foldl add Map.empty (mc_cells c)
      in if list_ex (\<lambda>cell. m (cl_name cell) \<noteq> None) (mc_cells c) then Some m else None)"

subsection \<open>Table groups\<close>

fun resolve_shards ::
  "cluster_env \<Rightarrow> cluster \<Rightarrow> backup_config option \<Rightarrow> bool option option \<Rightarrow> shard_config list
   \<Rightarrow> (string \<times> resolve_error) + shard_resolved_spec list" where
  "resolve_shards env c tgBackup views [] = Inr []"
| "resolve_shards env c tgBackup views (shard # shards) =
     (case resolve_shard (re_shard (cx_env env) (mc_namespace c)) (effective_shard c shard) (shard_options c tgBackup) of
        Inl err \<Rightarrow> Inl (sc_name shard, err)
      | Inr resolved \<Rightarrow>
          map_sum id (Cons \<lparr>sr_name = sc_name shard, sr_resolved = resolved, sr_cluster_views = views\<rparr>)
            (resolve_shards env c tgBackup views shards))"

definition applyTableGroup ::
  "capi \<Rightarrow> cluster_env \<Rightarrow> cluster \<Rightarrow> database_config \<Rightarrow> table_group_config \<Rightarrow> topo_ref \<Rightarrow> bool option option \<Rightarrow> cluster_error option cio" where
  "applyTableGroup api env c db tg topo views =
     (case resolve_shards env c (group_backup c db tg) views (tg_shards tg) of
        Inl (shard, err) \<Rightarrow> do {
          emit (RecordEvent ''ConfigError'' (mc_name c));
          State_Monad.return (Some (ResolveShardFailed shard err))
        }
      | Inr resolvedShards \<Rightarrow>
          (case BuildTableGroup env c db tg resolvedShards topo of
             Inl err \<Rightarrow> State_Monad.return (Some (BuildFailed (tg_name tg) err))
           | Inr desired \<Rightarrow> do {
               r \<leftarrow> ask (ca_apply api) (ApplyChild ''TableGroup'' (to_name desired));
               case r of
                 Inl err \<Rightarrow> State_Monad.return (Some (ApplyFailed (to_name desired) err))
               | Inr _ \<Rightarrow> do {
                   emit (RecordEvent ''Applied'' (to_name desired));
                   State_Monad.return None
                 }
             }))"

definition spec_groups :: "cluster \<Rightarrow> (database_config \<times> table_group_config) list" where
  "spec_groups c = concat (map (\<lambda>db. map (Pair db) (db_table_groups db)) (mc_databases c))"

definition group_name :: "cluster \<Rightarrow> database_config \<times> table_group_config \<Rightarrow> string" where
  "group_name c dt = TableGroupName (mc_name c) (db_name (fst dt)) (tg_name (snd dt))"

text \<open>The loops append to a list of errors, empty for none.\<close>

fun apply_groups ::
  "capi \<Rightarrow> cluster_env \<Rightarrow> cluster \<Rightarrow> string list \<Rightarrow> topo_ref \<Rightarrow> bool option option \<Rightarrow> (database_config \<times> table_group_config) list
   \<Rightarrow> cluster_error list cio" where
  "apply_groups api env c active topo views [] = State_Monad.return []"
| "apply_groups api env c active topo views (dt # dts) =
     (if group_name c dt \<notin> set active then apply_groups api env c active topo views dts
      else do {
        e \<leftarrow> applyTableGroup api env c (fst dt) (snd dt) topo views;
        es \<leftarrow> apply_groups api env c active topo views dts;
        State_Monad.return (case e of None \<Rightarrow> es | Some err \<Rightarrow> err # es)
      })"

text \<open>In Lite mode the shard runs the gateway, so the views of the one cell's gateway go to it.\<close>

definition lite_views :: "cluster_env \<Rightarrow> cluster \<Rightarrow> cluster_error + bool option option" where
  "lite_views env c =
     (if mc_mode c \<noteq> ModeLite then Inr None
      else case mc_cells c of
             [cell] \<Rightarrow>
               (case ResolveCell (cx_env env) c (effective_cell c cell) of
                  Inl err \<Rightarrow> Inl (LiteGatewayUnresolved err)
                | Inr (gateway, _) \<Rightarrow> Inr (gw_cluster_views gateway))
           | _ \<Rightarrow> Inl LiteNeedsOneCell)"

definition applyTableGroups :: "capi \<Rightarrow> cluster_env \<Rightarrow> cluster \<Rightarrow> string list \<Rightarrow> cluster_error list cio" where
  "applyTableGroups api env c active = do {
     t \<leftarrow> globalTopoRef env c;
     case t of
       Inl err \<Rightarrow> State_Monad.return [TopoRefFailed err]
     | Inr topo \<Rightarrow>
         (case lite_views env c of
            Inl err \<Rightarrow> State_Monad.return [err]
          | Inr views \<Rightarrow> apply_groups api env c active topo views (spec_groups c))
   }"

fun await_drains :: "cluster \<Rightarrow> cobject list \<Rightarrow> (database_config \<times> table_group_config) list \<Rightarrow> (string list \<times> bool) cio" where
  "await_drains c existing [] = State_Monad.return ([], False)"
| "await_drains c existing (dt # dts) =
     (if \<not> cleanup_in_progress existing (group_name c dt) then do {
        (active, pending) \<leftarrow> await_drains c existing dts;
        State_Monad.return (group_name c dt # active, pending)
      }
      else do {
        emit (RecordEvent ''AwaitingDrain'' (group_name c dt));
        (active, pending) \<leftarrow> await_drains c existing dts;
        State_Monad.return (active, True)
      })"

definition retire_group :: "capi \<Rightarrow> cluster_env \<Rightarrow> cobject \<Rightarrow> (bool \<times> cluster_error list) cio" where
  "retire_group api env item =
     (if co_pending item = [] then do {
        w \<leftarrow> ask (ca_write api) (StampPending ''TableGroup'' item (cx_stamp env));
        case w of
          Some err \<Rightarrow> State_Monad.return (False, [StampFailed (co_name item) err])
        | None \<Rightarrow> do {
            emit (RecordEvent ''PendingDeletion'' (co_name item));
            State_Monad.return (True, [])
          }
      }
      else if \<not> ready_for_deletion_child item then State_Monad.return (True, [])
      else do {
        w \<leftarrow> ask (ca_write api) (DeleteChild ''TableGroup'' item None);
        case w of
          Some err \<Rightarrow> State_Monad.return (False, if err = NotFound then [] else [DeleteFailed (co_name item) err])
        | None \<Rightarrow> do {
            emit (RecordEvent ''Deleted'' (co_name item));
            State_Monad.return (False, [])
          }
      })"

fun prune_groups :: "capi \<Rightarrow> cluster_env \<Rightarrow> string list \<Rightarrow> cobject list \<Rightarrow> (bool \<times> cluster_error list) cio" where
  "prune_groups api env active [] = State_Monad.return (False, [])"
| "prune_groups api env active (item # items) =
     (if co_name item \<in> set active then prune_groups api env active items
      else do {
        (pending, errs) \<leftarrow> retire_group api env item;
        (pending', errs') \<leftarrow> prune_groups api env active items;
        State_Monad.return (pending \<or> pending', errs @ errs')
      })"

definition cluster_listing :: "string \<Rightarrow> cluster \<Rightarrow> ccall" where
  "cluster_listing kind c = ListChildren False kind (mc_namespace c) [LabelMultigresCluster \<mapsto> mc_name c]"

definition reconcileDatabases :: "cluster_env \<Rightarrow> cluster \<Rightarrow> capi \<Rightarrow> (bool \<times> cluster_error list) cio" where
  "reconcileDatabases env c api = do {
     r \<leftarrow> ask (ca_list api) (cluster_listing ''TableGroup'' c);
     case r of
       Inl err \<Rightarrow> State_Monad.return (False, [ListFailed ''TableGroup'' err])
     | Inr existing \<Rightarrow> do {
         (active, awaiting) \<leftarrow> await_drains c existing (spec_groups c);
         errs \<leftarrow> applyTableGroups api env c active;
         (pending, errs') \<leftarrow> prune_groups api env active existing;
         State_Monad.return (awaiting \<or> pending, errs @ errs')
       }
   }"

subsection \<open>Cells\<close>

definition cancelCellPendingDeletion :: "capi \<Rightarrow> cobject \<Rightarrow> cluster_error option cio" where
  "cancelCellPendingDeletion api cell =
     (if co_pending cell = [] \<or> \<not> is_zero_ptr (co_deletion cell) then State_Monad.return None
      else do {
        w \<leftarrow> ask (ca_write api) (CancelPending ''Cell'' cell);
        case w of
          None \<Rightarrow> do {
            emit (RecordEvent ''PendingDeletionCancelled'' (co_name cell));
            State_Monad.return None
          }
        | Some err \<Rightarrow>
            State_Monad.return (if err = Conflict \<or> err = NotFound then None else Some (CancelFailed (co_name cell) err))
      })"

fun apply_cells ::
  "capi \<Rightarrow> cluster_env \<Rightarrow> cluster \<Rightarrow> cobject list \<Rightarrow> topo_ref \<Rightarrow> cell_config list \<Rightarrow> cluster_error option cio" where
  "apply_cells api env c existing topo [] = State_Monad.return None"
| "apply_cells api env c existing topo (cell # cells) =
     (case ResolveCell (cx_env env) c (effective_cell c cell) of
        Inl err \<Rightarrow> do {
          emit (RecordEvent ''TemplateMissing'' (mc_name c));
          State_Monad.return (Some (ResolveCellFailed (cl_name cell) err))
        }
      | Inr resolved \<Rightarrow>
          (case BuildCell env c (effective_cell c cell) resolved topo (map cl_name (mc_cells c)) of
             Inl err \<Rightarrow> State_Monad.return (Some (BuildFailed (cl_name cell) err))
           | Inr desired \<Rightarrow> do {
               (r, version) \<leftarrow> ask (\<lambda>h a. (ca_apply api h a, ca_version api h a)) (ApplyChild ''Cell'' (ce_name desired));
               case r of
                 Inl err \<Rightarrow> State_Monad.return (Some (ApplyFailed (cl_name cell) err))
               | Inr _ \<Rightarrow> do {
                   (if map_of (rev (map (\<lambda>o'. (co_name o', co_version o')) existing)) (ce_name desired) = Some version
                    then State_Monad.return () else emit (RecordEvent ''Applied'' (ce_name desired)));
                   apply_cells api env c existing topo cells
                 }
             }))"

fun prune_cells :: "capi \<Rightarrow> cluster_env \<Rightarrow> string list \<Rightarrow> cobject list \<Rightarrow> bool \<Rightarrow> (cluster_error + bool) cio" where
  "prune_cells api env active [] pending = State_Monad.return (Inr pending)"
| "prune_cells api env active (item # items) pending =
     (if co_key item \<in> set active then do {
        e \<leftarrow> cancelCellPendingDeletion api item;
        case e of
          Some err \<Rightarrow> State_Monad.return (Inl err)
        | None \<Rightarrow> prune_cells api env active items pending
      }
      else if co_pending item = [] then do {
        w \<leftarrow> ask (ca_write api) (StampPending ''Cell'' item (cx_stamp env));
        case w of
          Some err \<Rightarrow> State_Monad.return (Inl (StampFailed (co_name item) err))
        | None \<Rightarrow> do {
            emit (RecordEvent ''PendingDeletion'' (co_name item));
            prune_cells api env active items True
          }
      }
      else if \<not> ready_for_deletion_child item then prune_cells api env active items True
      else do {
        w \<leftarrow> ask (ca_write api) (DeleteChild ''Cell'' item (Some (co_uid item, co_version item)));
        case w of
          None \<Rightarrow> do {
            emit (RecordEvent ''Deleted'' (co_name item));
            prune_cells api env active items pending
          }
        | Some err \<Rightarrow>
            if err = Conflict then prune_cells api env active items True
            else if err = NotFound then prune_cells api env active items pending
            else State_Monad.return (Inl (DeleteFailed (co_name item) err))
      })"

definition reconcileCells :: "cluster_env \<Rightarrow> cluster \<Rightarrow> capi \<Rightarrow> (cluster_error + bool) cio" where
  "reconcileCells env c api = do {
     r \<leftarrow> ask (ca_list api) (cluster_listing ''Cell'' c);
     case r of
       Inl err \<Rightarrow> State_Monad.return (Inl (ListFailed ''Cell'' err))
     | Inr existing \<Rightarrow> do {
         t \<leftarrow> globalTopoRef env c;
         case t of
           Inl err \<Rightarrow> State_Monad.return (Inl (TopoRefFailed err))
         | Inr topo \<Rightarrow> do {
             e \<leftarrow> apply_cells api env c existing topo (mc_cells c);
             case e of
               Some err \<Rightarrow> State_Monad.return (Inl err)
             | None \<Rightarrow> prune_cells api env (map cl_name (mc_cells c)) existing False
           }
       }
   }"

subsection \<open>The passes keep the handshake\<close>

text \<open>A table group is wanted when the specification names it and it was not seen on its way out; a cell, when it is named.\<close>

definition wants_group :: "cluster \<Rightarrow> cobject list \<Rightarrow> cobject \<Rightarrow> bool" where
  "wants_group c items g \<longleftrightarrow> co_name g \<in> group_name c ` set (spec_groups c) \<and> \<not> cleanup_in_progress items (co_name g)"

definition wants_cell :: "cluster \<Rightarrow> cobject list \<Rightarrow> cobject \<Rightarrow> bool" where
  "wants_cell c items cell \<longleftrightarrow> co_key cell \<in> cl_name ` set (mc_cells c)"

definition child_guard :: "capi \<Rightarrow> ccall \<Rightarrow> (cobject list \<Rightarrow> cobject \<Rightarrow> bool) \<Rightarrow> ccall list \<Rightarrow> ccall \<Rightarrow> bool" where
  "child_guard api l wanted h a \<longleftrightarrow> handshake_guard api l wanted h a \<and> fresh_guard api l h a"

lemma guard_easy [simp]:
  "handshake_guard api l wanted h (RecordEvent r n)" "child_guard api l wanted h (RecordEvent r n)"
  "handshake_guard api l wanted h (ListChildren b k n ls)" "child_guard api l wanted h (ListChildren b k n ls)"
  "handshake_guard api l wanted h (ApplyChild k n)" "handshake_guard api l wanted h (CancelPending k o')"
  by (simp_all add: child_guard_def handshake_guard_def fresh_guard_def)

lemma guard_stamp:
  assumes "seen (ca_list api) h l (Inr items)" and "o' \<in> set items" and "\<not> wanted items o'" and "co_pending o' = []"
  shows "handshake_guard api l wanted h (StampPending k o' t)" "child_guard api l wanted h (StampPending k o' t)"
  using assms by (auto simp: child_guard_def handshake_guard_def fresh_guard_def)

lemma guard_delete:
  assumes "seen (ca_list api) h l (Inr items)" and "o' \<in> set items" and "\<not> wanted items o'" and "co_pending o' \<noteq> []"
    and "ready_for_deletion_child o'"
  shows "handshake_guard api l wanted h (DeleteChild k o' p)" "child_guard api l wanted h (DeleteChild k o' p)"
  using assms by (auto simp: child_guard_def handshake_guard_def fresh_guard_def)

lemma guard_apply:
  assumes "seen (ca_list api) h l (Inr items)" and "\<not> cleanup_in_progress items n"
  shows "child_guard api l wanted h (ApplyChild k n)"
  using assms by (auto simp: child_guard_def handshake_guard_def fresh_guard_def)

lemma keeps_globalTopoRef: "(\<And>n. G h (RecordEvent ''TemplateMissing'' n)) \<Longrightarrow> keeps G (globalTopoRef env c) h"
  by (auto simp: globalTopoRef_def intro!: keeps_bind keeps_emit keeps_return split: sum.split)

lemma BuildTableGroup_name: "BuildTableGroup env c db tg shards topo = Inr g \<Longrightarrow> to_name g = group_name c (db, tg)"
  by (auto simp: BuildTableGroup_def group_name_def Let_def split: option.splits)

lemma keeps_applyTableGroup:
  assumes "child_guard api l wanted h (ApplyChild ''TableGroup'' (group_name c (db, tg)))"
  shows "keeps (child_guard api l wanted) (applyTableGroup api env c db tg topo views) h"
  unfolding applyTableGroup_def
  using assms
  by (auto intro!: keeps_bind keeps_emit keeps_return keeps_ask simp: BuildTableGroup_name split: sum.split)

lemma keeps_apply_groups:
  assumes "seen (ca_list api) h l (Inr items)" and "\<And>n. n \<in> set active \<Longrightarrow> \<not> cleanup_in_progress items n"
  shows "keeps (child_guard api l wanted) (apply_groups api env c active topo views dts) h"
  using assms(1)
proof (induction dts arbitrary: h)
  case (Cons dt dts)
  have "keeps (child_guard api l wanted) (applyTableGroup api env c (fst dt) (snd dt) topo views) h" if "group_name c dt \<in> set active"
    by (rule keeps_applyTableGroup, rule guard_apply [OF Cons.prems]) (use that assms(2) in simp)
  then show ?case
    using Cons by (auto intro!: keeps_bind_inv [where I = "\<lambda>h. seen (ca_list api) h l (Inr items)"] seen_mono keeps_return)
qed (simp add: keeps_return)

lemma keeps_applyTableGroups:
  assumes "seen (ca_list api) h l (Inr items)" and "\<And>n. n \<in> set active \<Longrightarrow> \<not> cleanup_in_progress items n"
  shows "keeps (child_guard api l wanted) (applyTableGroups api env c active) h"
  unfolding applyTableGroups_def using assms
  by (auto intro!: keeps_bind_inv [where I = "\<lambda>h. seen (ca_list api) h l (Inr items)"] seen_mono keeps_return keeps_globalTopoRef
      keeps_apply_groups split: sum.split)

lemma await_drains_run:
  "run_state (await_drains c existing dts) h =
    ((map (group_name c) (filter (\<lambda>dt. \<not> cleanup_in_progress existing (group_name c dt)) dts),
      list_ex (\<lambda>dt. cleanup_in_progress existing (group_name c dt)) dts),
     h @ map (\<lambda>dt. RecordEvent ''AwaitingDrain'' (group_name c dt)) (filter (\<lambda>dt. cleanup_in_progress existing (group_name c dt)) dts))"
  by (induction dts arbitrary: h) simp_all

lemma keeps_prune_groups:
  assumes "seen (ca_list api) h l (Inr all)" and "set items \<subseteq> set all"
    and "\<And>g. g \<in> set all \<Longrightarrow> co_name g \<notin> set active \<Longrightarrow> \<not> wanted all g"
  shows "keeps (child_guard api l wanted) (prune_groups api env active items) h"
  using assms(1,2)
proof (induction items arbitrary: h)
  case (Cons item items)
  let ?I = "\<lambda>h. seen (ca_list api) h l (Inr all)"
  have i: "item \<in> set all" and w: "co_name item \<notin> set active \<Longrightarrow> \<not> wanted all item" using Cons.prems(2) assms(3) by auto
  have tail: "keeps (child_guard api l wanted) (prune_groups api env active items) h'" if "?I h'" for h'
    using Cons.IH that Cons.prems(2) by simp
  show ?case
    using Cons.prems(1) tail i w
    by (auto intro!: keeps_bind_inv [where I = ?I] seen_mono keeps_return keeps_emit keeps_ask guard_stamp guard_delete
        simp: retire_group_def split: option.split)
qed (simp add: keeps_return)

lemma keeps_reconcileDatabases:
  "keeps (child_guard api (cluster_listing ''TableGroup'' c) (wants_group c)) (reconcileDatabases env c api) h"
proof -
  let ?l = "cluster_listing ''TableGroup'' c" and ?G = "child_guard api (cluster_listing ''TableGroup'' c) (wants_group c)"
  have later: "keeps ?G (do { (active, awaiting) \<leftarrow> await_drains c existing (spec_groups c);
         errs \<leftarrow> applyTableGroups api env c active; (pending, errs') \<leftarrow> prune_groups api env active existing;
         State_Monad.return (awaiting \<or> pending, errs @ errs') }) h1"
    if s: "seen (ca_list api) h1 ?l (Inr existing)" for existing h1
  proof (rule keeps_bind)
    let ?drains = "map (\<lambda>dt. RecordEvent ''AwaitingDrain'' (group_name c dt))
      (filter (\<lambda>dt. cleanup_in_progress existing (group_name c dt)) (spec_groups c))"
    have "guarded ?G h (map (\<lambda>dt. RecordEvent ''AwaitingDrain'' (group_name c dt)) dts)" for h dts by (induction dts arbitrary: h) simp_all
    then show "keeps ?G (await_drains c existing (spec_groups c)) h1" by (auto simp: keeps_def await_drains_run)
    fix x h2
    assume r: "run_state (await_drains c existing (spec_groups c)) h1 = (x, h2)"
    obtain active awaiting where x: "x = (active, awaiting)" by force
    have act: "set active = {n \<in> group_name c ` set (spec_groups c). \<not> cleanup_in_progress existing n}" and h2: "h2 = h1 @ ?drains"
      using r by (auto simp: await_drains_run x)
    have s2: "seen (ca_list api) h2 ?l (Inr existing)" using seen_mono [OF s] by (simp add: h2)
    have wanted: "\<not> wants_group c existing g" if "co_name g \<notin> set active" for g using that by (auto simp: act wants_group_def)
    show "keeps ?G (case x of (active, awaiting) \<Rightarrow> do { errs \<leftarrow> applyTableGroups api env c active;
        (pending, errs') \<leftarrow> prune_groups api env active existing; State_Monad.return (awaiting \<or> pending, errs @ errs') }) h2"
      unfolding x prod.case
      by (rule keeps_bind_inv [where I = "\<lambda>h. seen (ca_list api) h ?l (Inr existing)"])
        (auto simp: act dest: wanted intro!: s2 seen_mono keeps_applyTableGroups keeps_bind keeps_prune_groups keeps_return)
  qed
  show ?thesis unfolding reconcileDatabases_def
  proof (rule keeps_bind)
    show "keeps ?G (ask (ca_list api) ?l) h" by (rule keeps_ask) (simp add: cluster_listing_def)
    fix r h1
    assume "run_state (ask (ca_list api) ?l) h = (r, h1)"
    then have r: "ca_list api h ?l = r" "h1 = h @ [?l]" by auto
    show "keeps ?G (case r of Inl err \<Rightarrow> State_Monad.return (False, [ListFailed ''TableGroup'' err])
      | Inr existing \<Rightarrow> do { (active, awaiting) \<leftarrow> await_drains c existing (spec_groups c);
         errs \<leftarrow> applyTableGroups api env c active; (pending, errs') \<leftarrow> prune_groups api env active existing;
         State_Monad.return (awaiting \<or> pending, errs @ errs') }) h1"
      using seen_last [of "ca_list api" h ?l, OF r(1)] by (cases r) (simp_all add: keeps_return later r(2))
  qed
qed

text \<open>A cell is deleted only at the version it was read at.\<close>

definition cell_guard :: "capi \<Rightarrow> cluster \<Rightarrow> ccall list \<Rightarrow> ccall \<Rightarrow> bool" where
  "cell_guard api c h a \<longleftrightarrow> handshake_guard api (cluster_listing ''Cell'' c) (wants_cell c) h a
     \<and> (case a of DeleteChild kind o' p \<Rightarrow> p = Some (co_uid o', co_version o') | _ \<Rightarrow> True)"

lemma cell_guard_easy [simp]:
  "cell_guard api c h (RecordEvent r n)" "cell_guard api c h (ListChildren b k n ls)" "cell_guard api c h (ApplyChild k n)"
  "cell_guard api c h (CancelPending k o')"
  by (simp_all add: cell_guard_def)

lemma keeps_apply_cells: "keeps (cell_guard api c) (apply_cells api env c existing topo cells) h"
proof (induction cells arbitrary: h)
  case (Cons cell cells)
  then show ?case by (auto intro!: keeps_bind keeps_return keeps_emit keeps_ask split: sum.split)
qed (simp add: keeps_return)

lemma keeps_prune_cells:
  assumes "seen (ca_list api) h (cluster_listing ''Cell'' c) (Inr all)" and "set items \<subseteq> set all"
  shows "keeps (cell_guard api c) (prune_cells api env (map cl_name (mc_cells c)) items pending) h"
  using assms
proof (induction items arbitrary: h pending)
  case (Cons item items)
  let ?I = "\<lambda>h. seen (ca_list api) h (cluster_listing ''Cell'' c) (Inr all)"
  have i: "item \<in> set all" using Cons.prems(2) by simp
  have tail: "keeps (cell_guard api c) (prune_cells api env (map cl_name (mc_cells c)) items b) h'" if "?I h'" for b h'
    using Cons.IH that Cons.prems(2) by simp
  have cancel: "keeps (cell_guard api c) (cancelCellPendingDeletion api item) h'" for h'
    by (auto simp: cancelCellPendingDeletion_def intro!: keeps_bind keeps_return keeps_emit keeps_ask split: option.split)
  have stamp: "cell_guard api c h (StampPending ''Cell'' item t)" if "co_key item \<notin> cl_name ` set (mc_cells c)" "co_pending item = []" for t
    using guard_stamp(1) [OF Cons.prems(1) i] that by (simp add: cell_guard_def wants_cell_def)
  have delete: "cell_guard api c h (DeleteChild ''Cell'' item (Some (co_uid item, co_version item)))"
    if "co_key item \<notin> cl_name ` set (mc_cells c)" "co_pending item \<noteq> []" "ready_for_deletion_child item"
    using guard_delete(1) [OF Cons.prems(1) i] that by (simp add: cell_guard_def wants_cell_def)
  show ?case
    using Cons.prems(1) tail cancel stamp delete
    by (auto intro!: keeps_bind_inv [where I = ?I] seen_mono keeps_return keeps_emit keeps_ask split: option.split)
qed (simp add: keeps_return)

lemma keeps_reconcileCells: "keeps (cell_guard api c) (reconcileCells env c api) h"
  unfolding reconcileCells_def
proof (rule keeps_bind)
  let ?l = "cluster_listing ''Cell'' c"
  show "keeps (cell_guard api c) (ask (ca_list api) ?l) h" by (rule keeps_ask) (simp add: cluster_listing_def)
  fix r h1
  assume "run_state (ask (ca_list api) ?l) h = (r, h1)"
  then have r: "ca_list api h ?l = r" "h1 = h @ [?l]" by auto
  show "keeps (cell_guard api c) (case r of Inl err \<Rightarrow> State_Monad.return (Inl (ListFailed ''Cell'' err))
     | Inr existing \<Rightarrow> do { t \<leftarrow> globalTopoRef env c;
         case t of Inl err \<Rightarrow> State_Monad.return (Inl (TopoRefFailed err))
         | Inr topo \<Rightarrow> do { e \<leftarrow> apply_cells api env c existing topo (mc_cells c);
             case e of Some err \<Rightarrow> State_Monad.return (Inl err)
             | None \<Rightarrow> prune_cells api env (map cl_name (mc_cells c)) existing False } }) h1"
  proof (cases r)
    case (Inr existing)
    let ?I = "\<lambda>h. seen (ca_list api) h ?l (Inr existing)"
    have "?I h1" using seen_last [of "ca_list api" h ?l, OF r(1)] by (simp add: r(2) Inr)
    then show ?thesis unfolding Inr sum.case
      by (auto intro!: keeps_bind_inv [where I = ?I] seen_mono keeps_globalTopoRef keeps_apply_cells keeps_prune_cells keeps_return
          split: sum.split option.split)
  qed (simp add: keeps_return)
qed

interpretation databases: fresh_handshake "reconcileDatabases env c" "cluster_listing ''TableGroup'' c" "wants_group c" for env c
  by unfold_locales (rule keeps_imp [OF keeps_reconcileDatabases], simp add: child_guard_def)+

interpretation cells: handshake "reconcileCells env c" "cluster_listing ''Cell'' c" "wants_cell c" for env c
  by unfold_locales (rule keeps_imp [OF keeps_reconcileCells], simp add: cell_guard_def)

subsection \<open>What the passes establish\<close>

definition is_delete :: "ccall \<Rightarrow> bool" where
  "is_delete a = (case a of DeleteChild k o' p \<Rightarrow> True | _ \<Rightarrow> False)"

lemma is_delete_simps [simp]:
  "is_delete (DeleteChild k o' p)" "\<not> is_delete (ListChildren b k n ls)" "\<not> is_delete (ApplyChild k n)"
  "\<not> is_delete (StampPending k o' t)" "\<not> is_delete (RecordEvent e n)"
  by (simp_all add: is_delete_def)

lemma applyTableGroups_deletes: "appends (\<lambda>a. \<not> is_delete a) (applyTableGroups api env c active)"
proof -
  have one: "appends (\<lambda>a. \<not> is_delete a) (applyTableGroup api env c db tg topo views)" for db tg topo views
    unfolding applyTableGroup_def by (auto intro!: appends_intros split: sum.split)
  have "appends (\<lambda>a. \<not> is_delete a) (apply_groups api env c active topo views dts)" for dts topo views
    by (induction dts) (auto intro!: appends_intros one)
  then show ?thesis
    unfolding applyTableGroups_def globalTopoRef_def by (auto intro!: appends_intros split: sum.split)
qed

lemma appends_filter: "appends (\<lambda>a. \<not> P a) m \<Longrightarrow> filter P (snd (run_state m h)) = filter P h"
  unfolding appends_def by (metis (mono_tags, lifting) append_Nil2 filter_append filter_False list_all_iff)

lemma retire_group_deletes:
  "filter is_delete (snd (run_state (retire_group api env g) h)) = filter is_delete h
     @ (if co_pending g \<noteq> [] \<and> ready_for_deletion_child g then [DeleteChild ''TableGroup'' g None] else [])"
  by (auto simp: retire_group_def split: option.split)

lemma prune_groups_deletes:
  "filter is_delete (snd (run_state (prune_groups api env active items) h)) = filter is_delete h
     @ map (\<lambda>g. DeleteChild ''TableGroup'' g None)
         (filter (\<lambda>g. co_name g \<notin> set active \<and> co_pending g \<noteq> [] \<and> ready_for_deletion_child g) items)"
proof (induction items arbitrary: h)
  case (Cons g items)
  obtain p es h1 where r: "run_state (retire_group api env g) h = ((p, es), h1)" by (metis prod.exhaust)
  obtain p' es' h2 where t: "run_state (prune_groups api env active items) h1 = ((p', es'), h2)" by (metis prod.exhaust)
  show ?case using Cons.IH [of h] Cons.IH [of h1] retire_group_deletes [of api env g h] by (simp add: r t)
qed simp

text \<open>
  C21: Whatever becomes of applying the table groups the specification names, be it a template that does not resolve or an
  apply that fails, a pass asks for the deletion of exactly the table groups it listed that are no longer wanted and
  have finished their drain, in the order listed; if they cannot be listed it does nothing else.
\<close>

theorem reconcileDatabases_deletes:
  "case ca_list api [] (cluster_listing ''TableGroup'' c) of
     Inl err \<Rightarrow> snd (run_state (reconcileDatabases env c api) []) = [cluster_listing ''TableGroup'' c]
   | Inr items \<Rightarrow> filter is_delete (snd (run_state (reconcileDatabases env c api) []))
       = map (\<lambda>g. DeleteChild ''TableGroup'' g None)
           (filter (\<lambda>g. \<not> wants_group c items g \<and> co_pending g \<noteq> [] \<and> ready_for_deletion_child g) items)"
proof (cases "ca_list api [] (cluster_listing ''TableGroup'' c)")
  case (Inr items)
  let ?l = "cluster_listing ''TableGroup'' c"
  let ?active = "map (group_name c) (filter (\<lambda>dt. \<not> cleanup_in_progress items (group_name c dt)) (spec_groups c))"
  let ?h1 = "?l # map (\<lambda>dt. RecordEvent ''AwaitingDrain'' (group_name c dt)) (filter (\<lambda>dt. cleanup_in_progress items (group_name c dt)) (spec_groups c))"
  obtain es h2 where a: "run_state (applyTableGroups api env c ?active) ?h1 = (es, h2)" by force
  obtain p es' h3 where b: "run_state (prune_groups api env ?active items) h2 = ((p, es'), h3)" by (metis prod.exhaust)
  have run: "snd (run_state (reconcileDatabases env c api) []) = h3"
    using a b Inr by (simp add: reconcileDatabases_def await_drains_run)
  have "filter is_delete ?h1 = []" by (simp add: cluster_listing_def filter_empty_conv)
  then have "filter is_delete h2 = []" using appends_filter [OF applyTableGroups_deletes, of api env c ?active ?h1] a by simp
  moreover have "co_name g \<notin> set ?active \<longleftrightarrow> \<not> wants_group c items g" for g by (auto simp: wants_group_def)
  ultimately have "filter is_delete h3 = map (\<lambda>g. DeleteChild ''TableGroup'' g None)
      (filter (\<lambda>g. \<not> wants_group c items g \<and> co_pending g \<noteq> [] \<and> ready_for_deletion_child g) items)"
    using prune_groups_deletes [of api env ?active items h2] b by simp
  then show ?thesis unfolding Inr run by simp
qed (simp add: reconcileDatabases_def)

text \<open>
  A cell that a pass deletes is one the specification no longer names, that the pass had listed with the stamp and with
  its controller's \<^verbatim>\<open>ReadyForDeletion\<close>; and the deletion is conditioned on exactly the version read, so that a cell
  that was taken back or stamped again since is left for the next pass.
\<close>

theorem reconcileCells_deletes_drained:
  assumes "snd (run_state (reconcileCells env c api) []) = pre @ DeleteChild kind cell p # post"
  shows "\<exists>items. seen (ca_list api) pre (cluster_listing ''Cell'' c) (Inr items) \<and> cell \<in> set items
    \<and> co_key cell \<notin> cl_name ` set (mc_cells c) \<and> co_pending cell \<noteq> [] \<and> ready_for_deletion_child cell
    \<and> p = Some (co_uid cell, co_version cell)"
proof -
  have "guarded (cell_guard api c) [] (pre @ DeleteChild kind cell p # post)"
    using keeps_reconcileCells [of api c env "[]"] assms by (auto simp: keeps_def)
  then have "p = Some (co_uid cell, co_version cell)" by (simp add: cell_guard_def)
  with cells.deletes_drained [OF assms] show ?thesis by (simp add: wants_cell_def)
qed

lemma resolve_shards_all:
  assumes "\<And>s. s \<in> set shards \<Longrightarrow> \<exists>res. resolve_shard (re_shard (cx_env env) (mc_namespace c)) (effective_shard c s) (shard_options c tb) = Inr res \<and> P res"
  shows "\<exists>specs. resolve_shards env c tb views shards = Inr specs \<and> map sr_name specs = map sc_name shards
    \<and> list_all (\<lambda>spec. P (sr_resolved spec)) specs"
  using assms
proof (induction shards)
  case (Cons s shards)
  obtain specs where "resolve_shards env c tb views shards = Inr specs" "map sr_name specs = map sc_name shards"
    "list_all (\<lambda>spec. P (sr_resolved spec)) specs" using Cons.IH Cons.prems by (metis list.set_intros(2))
  moreover obtain res where "resolve_shard (re_shard (cx_env env) (mc_namespace c)) (effective_shard c s) (shard_options c tb) = Inr res" "P res"
    using Cons.prems by (metis list.set_intros(1))
  ultimately show ?case by simp
qed simp

lemma accepted_resolves:
  assumes "snd (ValidateClusterLogic venv c) = None" and "cx_env env = ve_env venv" and "(db, tg) \<in> set (spec_groups c)"
  shows "\<exists>specs. resolve_shards env c (group_backup c db tg) views (tg_shards tg) = Inr specs
    \<and> map sr_name specs = map sc_name (tg_shards tg) \<and> list_all (\<lambda>spec. shard_runnable venv c (sr_resolved spec)) specs"
proof (rule resolve_shards_all)
  fix s
  assume "s \<in> set (tg_shards tg)"
  with assms(3) have "(db, tg, s) \<in> set (each_shard c)" by (auto simp: spec_groups_def set_each_shard)
  with assms(1) have "\<exists>res. resolved_for venv c db tg s = Inr res \<and> shard_runnable venv c res"
    unfolding ValidateClusterLogic_None by blast
  then show "\<exists>res. resolve_shard (re_shard (cx_env env) (mc_namespace c)) (effective_shard c s) (shard_options c (group_backup c db tg)) = Inr res
      \<and> shard_runnable venv c res" by (simp add: resolved_for_def assms(2))
qed

lemma BuildShard_pools: "BuildShard env tg spec = Inr shd \<Longrightarrow> s_pools shd = pool_list (rs_pools (sr_resolved spec)) \<and> s_shard_name shd = sr_name spec"
  by (auto simp: BuildShard_def Let_def split: option.splits)

text \<open>
  C20: From the webhook to the shard: for a cluster the webhook accepts, with the same templates, the cluster controller
  resolves every shard of every table group, and whatever shard the table group controller then builds has only pools
  with a valid name that run in at least one cell, each of them a cell of the cluster.
\<close>

theorem accepted_shards_placed:
  assumes "snd (ValidateClusterLogic venv c) = None" and "cx_env env = ve_env venv" and "(db, tg) \<in> set (spec_groups c)"
  shows "\<exists>specs. resolve_shards env c (group_backup c db tg) views (tg_shards tg) = Inr specs
    \<and> map sr_name specs = map sc_name (tg_shards tg)
    \<and> (\<forall>topo g tenv spec shd. BuildTableGroup env c db tg specs topo = Inr g \<longrightarrow> spec \<in> set (to_shards g)
        \<longrightarrow> BuildShard tenv g spec = Inr shd
        \<longrightarrow> (\<forall>(n, p) \<in> set (s_pools shd). ValidatePoolName n \<and> ps_cells p \<noteq> [] \<and> set (ps_cells p) \<subseteq> cl_name ` set (mc_cells c)))"
proof -
  obtain specs where s: "resolve_shards env c (group_backup c db tg) views (tg_shards tg) = Inr specs"
    "map sr_name specs = map sc_name (tg_shards tg)" "list_all (\<lambda>spec. shard_runnable venv c (sr_resolved spec)) specs"
    using accepted_resolves [OF assms] by blast
  have "ValidatePoolName n \<and> ps_cells p \<noteq> [] \<and> set (ps_cells p) \<subseteq> cl_name ` set (mc_cells c)"
    if g: "BuildTableGroup env c db tg specs topo = Inr g" and spec: "spec \<in> set (to_shards g)"
      and b: "BuildShard tenv g spec = Inr shd" and n: "(n, p) \<in> set (s_pools shd)" for topo g tenv spec shd n p
  proof -
    have "to_shards g = specs" using g by (auto simp: BuildTableGroup_def Let_def split: option.splits)
    with s(3) spec have run: "shard_runnable venv c (sr_resolved spec)" by (simp add: list_all_iff)
    have "fmlookup (rs_pools (sr_resolved spec)) n = Some p" using n BuildShard_pools [OF b] by (simp add: set_pool_list)
    with run show ?thesis by (simp add: shard_runnable_def pool_runnable_def Let_def)
  qed
  with s show ?thesis by blast
qed

subsection \<open>Instances\<close>

definition cluster_env_w :: cluster_env where
  "cluster_env_w = \<lparr>cx_env = ve_env valid_env, cx_own_group = (\<lambda>c g. None), cx_own_cell = (\<lambda>c n. None), cx_stamp = ''now''\<rparr>"

definition bare_cluster_w :: cluster where
  "bare_cluster_w = full_cluster\<lparr>mc_cells := []\<rparr>"

lemma topo_w: "\<not> isl (ResolveGlobalTopo (cx_env cluster_env_w) bare_cluster_w)"
  by code_simp

lemma delete_cell_w:
  "\<exists>post. snd (run_state (reconcileCells cluster_env_w bare_cluster_w (api_w [child_w ''old'' ''t'' ready_w])) [])
    = [cluster_listing ''Cell'' bare_cluster_w] @ DeleteChild ''Cell'' (child_w ''old'' ''t'' ready_w) (Some (''u'', ''1'')) # post"
proof -
  obtain spec where "ResolveGlobalTopo (cx_env cluster_env_w) bare_cluster_w = Inr spec" using topo_w by (metis sum.collapse(2))
  then show ?thesis
    by (simp add: reconcileCells_def globalTopoRef_def api_w_def child_w_def ready_w_def ready_for_deletion_child_def bare_cluster_w_def)
qed

theorem reconcileCells_deletes_drained_witness:
  "\<exists>items. seen (ca_list (api_w [child_w ''old'' ''t'' ready_w])) [cluster_listing ''Cell'' bare_cluster_w]
      (cluster_listing ''Cell'' bare_cluster_w) (Inr items)
    \<and> child_w ''old'' ''t'' ready_w \<in> set items \<and> co_key (child_w ''old'' ''t'' ready_w) \<notin> cl_name ` set (mc_cells bare_cluster_w)
    \<and> co_pending (child_w ''old'' ''t'' ready_w) \<noteq> [] \<and> ready_for_deletion_child (child_w ''old'' ''t'' ready_w)
    \<and> Some (''u'', ''1'') = Some (co_uid (child_w ''old'' ''t'' ready_w), co_version (child_w ''old'' ''t'' ready_w))"
  using delete_cell_w by (elim exE) (rule reconcileCells_deletes_drained)

theorem accepted_shards_placed_witness:
  "\<exists>specs. resolve_shards cluster_env_w full_cluster (group_backup full_cluster demo_database demo_group) None (tg_shards demo_group) = Inr specs
    \<and> map sr_name specs = [''0-inf'']"
proof -
  have "(demo_database, demo_group) \<in> set (spec_groups full_cluster)"
    by (simp add: spec_groups_def full_cluster_def demo_database_def)
  with accepted_shards_placed [of valid_env full_cluster cluster_env_w demo_database demo_group None]
  show ?thesis by (auto simp: full_valid cluster_env_w_def demo_group_def demo_shard_def)
qed

end
