(* ===== verification/Topo_Retire.thy ===== *)
theory Topo_Retire
  imports Cluster_Children Go_Text
begin

text \<open>
  Retiring the managed global topology of a cluster that moved to an external one
  (\<^verbatim>\<open>pkg/cluster-handler/controller/multigrescluster/retire_global_topo.go\<close>, and the etcd identity of
  \<^verbatim>\<open>pkg/data-handler/topo/etcd_identity.go\<close>): what has to be seen before the etcd server and its volumes are deleted. The
  host name of a URL (\<^verbatim>\<open>url.Parse\<close>, then \<^verbatim>\<open>Hostname\<close>) and what an etcd answers are arguments; what is only logged is left out.
\<close>

subsection \<open>Objects\<close>

record cluster_object =
  cb_cluster :: cluster
  cb_uid :: string
  cb_generation :: int
  cb_observed_generation :: int
  cb_phase :: Phase
  cb_conditions :: "condition list"

record topo_server =
  tp_name :: string
  tp_namespace :: string
  tp_controller :: "string option"
  tp_policy :: "pvc_deletion_policy option"
  tp_tls :: "bool option option"

record pod_container =
  pk_command :: "string list"
  pk_args :: "string list"
  pk_env :: "(string \<times> string) list"

record client_pod =
  cp_name :: string
  cp_namespace :: string
  cp_phase :: pod_phase
  cp_init :: "pod_container list"
  cp_containers :: "pod_container list"
  cp_ips :: "string list"

record etcd_member =
  em_id :: nat
  em_name :: string
  em_peer_urls :: "string list"
  em_client_urls :: "string list"

record etcd_identity =
  ei_cluster :: nat
  ei_members :: "etcd_member list"
  ei_status_cluster :: nat
  ei_status_member :: nat

datatype rcall =
    ListServers string labels | ListClientPods string labels | ListAllPods string | GetService string string
  | ReadIdentity topo_ref | RereadCluster string string | RereadServer string string | ListClaims string
  | DeleteClaim pvc | DeleteServer topo_server | RetireEvent string

type_synonym 'a rio = "(rcall list, 'a) state"

record rapi =
  ra_servers :: "rcall list \<Rightarrow> rcall \<Rightarrow> api_error + topo_server list"
  ra_pods :: "rcall list \<Rightarrow> rcall \<Rightarrow> api_error + client_pod list"
  ra_service :: "rcall list \<Rightarrow> rcall \<Rightarrow> api_error + string list"
  ra_identity :: "rcall list \<Rightarrow> rcall \<Rightarrow> string + etcd_identity"
  ra_cluster :: "rcall list \<Rightarrow> rcall \<Rightarrow> api_error + cluster_object"
  ra_server :: "rcall list \<Rightarrow> rcall \<Rightarrow> api_error + topo_server"
  ra_claims :: "rcall list \<Rightarrow> rcall \<Rightarrow> api_error + pvc list"
  ra_delete :: "rcall list \<Rightarrow> rcall \<Rightarrow> api_error option"

text \<open>The templates as the cache has them and as the API server has them, and the parser of URLs.\<close>

record retire_env =
  rx_env :: resolve_env
  rx_fresh :: resolve_env
  rx_hostname :: "string \<Rightarrow> string option"

datatype retire_error = RetireResolveFailed resolve_error | RetireReadFailed api_error | RetireDeleteFailed string api_error

subsection \<open>Names\<close>

text \<open>\<^verbatim>\<open>strconv.ParseUint(s, 10, 32)\<close> accepts its argument.\<close>

definition parses_uint32 :: "string \<Rightarrow> bool" where
  "parses_uint32 s \<longleftrightarrow> s \<noteq> [] \<and> list_all is_digit s \<and> atou 0 s < 2 ^ 32"

definition has_suffix :: "string \<Rightarrow> string \<Rightarrow> bool" where
  "has_suffix s p \<longleftrightarrow> has_prefix (rev s) (rev p)"

definition is_ordinal_of :: "string \<Rightarrow> string \<Rightarrow> bool" where
  "is_ordinal_of base s = (case cut_prefix s (base @ ''-'') of None \<Rightarrow> False | Some ordinal \<Rightarrow> parses_uint32 ordinal)"

definition normalizeHost :: "string \<Rightarrow> string" where
  "normalizeHost h = (let l = to_lower h in if has_suffix l ''.'' then butlast l else l)"

definition urlHost :: "retire_env \<Rightarrow> string \<Rightarrow> string" where
  "urlHost env raw = (case rx_hostname env raw of None \<Rightarrow> [] | Some h \<Rightarrow> normalizeHost h)"

definition isManagedHost :: "string \<Rightarrow> topo_server \<Rightarrow> string list \<Rightarrow> bool" where
  "isManagedHost host ts ips =
     (if host = [] then False
      else if host \<in> set ips then True
      else list_ex (\<lambda>svc.
        list_ex (\<lambda>name. host = name \<or> (svc \<noteq> tp_name ts \<and> has_suffix host (''.'' @ name)))
          [svc, svc @ ''.'' @ tp_namespace ts, svc @ ''.'' @ tp_namespace ts @ ''.svc'',
           svc @ ''.'' @ tp_namespace ts @ ''.svc.cluster.local''])
        [tp_name ts, tp_name ts @ ''-headless''])"

definition isManagedEtcdPod :: "client_pod \<Rightarrow> topo_server \<Rightarrow> bool" where
  "isManagedEtcdPod pod ts \<longleftrightarrow> is_ordinal_of (tp_name ts) (cp_name pod) \<and> cp_namespace pod = tp_namespace ts"

definition podReferences :: "client_pod \<Rightarrow> string \<Rightarrow> bool" where
  "podReferences pod address =
     list_ex (\<lambda>c. list_ex (\<lambda>s. contains_sub s address) (pk_command c @ pk_args c)
                \<or> list_ex (\<lambda>(_, v). contains_sub v address) (pk_env c))
       (cp_init pod @ cp_containers pod)"

fun managedMember :: "retire_env \<Rightarrow> etcd_member list \<Rightarrow> topo_server \<Rightarrow> string list \<Rightarrow> string" where
  "managedMember env [] ts hosts = []"
| "managedMember env (m # ms) ts hosts =
     (if is_ordinal_of (tp_name ts) (em_name m) then em_name m
      else case find (\<lambda>u. isManagedHost (urlHost env u) ts hosts) (em_peer_urls m @ em_client_urls m) of
             Some u \<Rightarrow> u
           | None \<Rightarrow> managedMember env ms ts hosts)"

subsection \<open>The identity of an etcd\<close>

text \<open>\<^verbatim>\<open>Implausible\<close>, without the text it returns: whether there is a reason.\<close>

definition Implausible :: "etcd_identity \<Rightarrow> bool" where
  "Implausible i \<longleftrightarrow>
     ei_cluster i = 0 \<or> ei_status_cluster i \<noteq> ei_cluster i \<or> ei_members i = []
     \<or> list_ex (\<lambda>m. em_id m = 0 \<or> em_peer_urls m = []) (ei_members i)
     \<or> \<not> list_ex (\<lambda>m. em_id m = ei_status_member i) (ei_members i)"

definition etcdIdentity :: "rapi \<Rightarrow> topo_ref \<Rightarrow> (string + etcd_identity) rio" where
  "etcdIdentity api ref =
     (if tr_implementation ref \<noteq> [] \<and> tr_implementation ref \<noteq> ''etcd'' then State_Monad.return (Inl ''topology implementation has no etcd identity'')
      else ask (ra_identity api) (ReadIdentity ref))"

definition managedTopoRef :: "topo_server \<Rightarrow> topo_ref" where
  "managedTopoRef ts =
     (let tls = topo_tls_enabled (tp_tls ts);
          secret = (if tls \<and> tp_name ts \<noteq> [] then tp_name ts @ ''-topo-server-tls'' else [])
      in \<lparr>tr_address = (if tls then ''https'' else ''http'') @ ''://'' @ tp_name ts @ ''.'' @ tp_namespace ts @ ''.svc:2379'',
          tr_root_path = [], tr_implementation = ''etcd'', tr_ca_secret = secret, tr_client_cert_secret = secret\<rparr>)"

lemma managedTopoRef_implementation [simp]: "tr_implementation (managedTopoRef ts) = ''etcd''"
  by (simp add: managedTopoRef_def Let_def)

definition managedEtcdHosts :: "rapi \<Rightarrow> topo_server \<Rightarrow> (retire_error + string list) rio" where
  "managedEtcdHosts api ts = do {
     r \<leftarrow> ask (ra_pods api) (ListAllPods (tp_namespace ts));
     case r of
       Inl err \<Rightarrow> State_Monad.return (Inl (RetireReadFailed err))
     | Inr pods \<Rightarrow> do {
         s \<leftarrow> ask (ra_service api) (GetService (tp_namespace ts) (tp_name ts));
         let hosts = concat (map (\<lambda>p. map normalizeHost (cp_ips p)) (filter (\<lambda>p. isManagedEtcdPod p ts) pods));
         State_Monad.return (case s of
           Inr ips \<Rightarrow> Inr (hosts @ map normalizeHost (filter (\<lambda>ip. ip \<noteq> ''None'') ips))
         | Inl err \<Rightarrow> if err = NotFound then Inr hosts else Inl (RetireReadFailed err))
       }
   }"

subsection \<open>Whether the move is complete\<close>

record retireWait =
  rw_reason :: string
  rw_blocked :: bool

definition same_etcd :: "etcd_identity \<Rightarrow> etcd_identity \<Rightarrow> bool" where
  "same_etcd managed ext \<longleftrightarrow>
     list_ex (\<lambda>i. i \<noteq> 0 \<and> (i = ei_cluster ext \<or> i = ei_status_cluster ext)) [ei_cluster managed, ei_status_cluster managed]"

definition externalIsAnotherEtcd :: "rapi \<Rightarrow> retire_env \<Rightarrow> topo_server \<Rightarrow> topo_ref \<Rightarrow> (retire_error + retireWait option) rio" where
  "externalIsAnotherEtcd api env ts external = do {
     r \<leftarrow> etcdIdentity api external;
     case r of
       Inl err \<Rightarrow> State_Monad.return (Inr (Some \<lparr>rw_reason = ''the external etcd's membership to be readable'', rw_blocked = True\<rparr>))
     | Inr ext \<Rightarrow>
         if Implausible ext
         then State_Monad.return (Inr (Some \<lparr>rw_reason = ''the external topology to report a genuine etcd membership'', rw_blocked = True\<rparr>))
         else do {
           hs \<leftarrow> managedEtcdHosts api ts;
           case hs of
             Inl err \<Rightarrow> State_Monad.return (Inl err)
           | Inr hosts \<Rightarrow>
               let m = managedMember env (ei_members ext) ts hosts
               in if m \<noteq> []
                  then State_Monad.return (Inr (Some \<lparr>rw_reason = ''the external topology to list no member of '' @ tp_name ts
                         @ '' (it lists '' @ m @ '')'', rw_blocked = True\<rparr>))
                  else do {
                    managed \<leftarrow> etcdIdentity api (managedTopoRef ts);
                    State_Monad.return (case managed of
                      Inl err \<Rightarrow> Inr None
                    | Inr i \<Rightarrow>
                        if same_etcd i ext
                        then Inr (Some \<lparr>rw_reason = ''the external topology to be an etcd other than '' @ tp_name ts, rw_blocked = True\<rparr>)
                        else Inr None)
                  }
         }
   }"

definition cluster_pods :: "cluster \<Rightarrow> rcall" where
  "cluster_pods c = ListClientPods (mc_namespace c) [LabelAppInstance \<mapsto> mc_name c]"

definition still_uses :: "cluster \<Rightarrow> topo_server \<Rightarrow> client_pod \<Rightarrow> bool" where
  "still_uses c ts pod \<longleftrightarrow>
     \<not> (isManagedEtcdPod pod ts \<or> cp_phase pod = PodSucceeded \<or> cp_phase pod = PodFailed)
     \<and> podReferences pod (managedGlobalTopoAddress c)"

definition moveIncomplete :: "rapi \<Rightarrow> retire_env \<Rightarrow> cluster_object \<Rightarrow> topo_server \<Rightarrow> (retire_error + retireWait option) rio" where
  "moveIncomplete api env co ts =
     (let c = cb_cluster co
      in if IsConditionFalse (cb_conditions co) ''TopologyReady''
         then State_Monad.return (Inr (Some \<lparr>rw_reason = ''the external topology to report ready'', rw_blocked = False\<rparr>))
         else if cb_observed_generation co \<noteq> cb_generation co \<or> cb_phase co \<noteq> PhaseHealthy
         then State_Monad.return (Inr (Some \<lparr>rw_reason = ''the cluster to be Healthy'', rw_blocked = False\<rparr>))
         else do {
           r \<leftarrow> ask (ra_pods api) (cluster_pods c);
           case r of
             Inl err \<Rightarrow> State_Monad.return (Inl (RetireReadFailed err))
           | Inr pods \<Rightarrow>
               if list_ex (still_uses c ts) pods
               then State_Monad.return (Inr (Some \<lparr>rw_reason = ''every pod to stop using '' @ managedGlobalTopoAddress c, rw_blocked = False\<rparr>))
               else (case ResolveGlobalTopo (rx_env env) c of
                       Inl err \<Rightarrow> do { emit (RetireEvent ''TemplateMissing''); State_Monad.return (Inl (RetireResolveFailed err)) }
                     | Inr spec \<Rightarrow> externalIsAnotherEtcd api env ts (topo_ref_of c spec))
         })"

subsection \<open>Deletion\<close>

definition managedGlobalTopoServer :: "rapi \<Rightarrow> cluster_object \<Rightarrow> (retire_error + topo_server option) rio" where
  "managedGlobalTopoServer api co = do {
     r \<leftarrow> ask (ra_servers api) (ListServers (mc_namespace (cb_cluster co))
            [LabelMultigresCluster \<mapsto> mc_name (cb_cluster co), LabelAppComponent \<mapsto> ''global-topo'']);
     State_Monad.return (case r of
       Inl err \<Rightarrow> Inl (RetireReadFailed err)
     | Inr items \<Rightarrow> Inr (find (\<lambda>ts. tp_controller ts = Some (cb_uid co)) items))
   }"

definition retireDeletesPVCs :: "global_topo \<Rightarrow> cluster \<Rightarrow> topo_server \<Rightarrow> bool rio" where
  "retireDeletesPVCs spec c ts =
     (case MergePVCDeletionPolicy (gt_pvc_deletion_policy spec) (mc_pvc_deletion_policy c) of
        None \<Rightarrow> State_Monad.return False
      | Some current \<Rightarrow>
          if WhenDeleted current \<noteq> DeletePVCRetentionPolicy then State_Monad.return False
          else if (case tp_policy ts of None \<Rightarrow> False | Some p \<Rightarrow> WhenDeleted p = ''Retain'')
          then do { emit (RetireEvent ''GlobalTopoPVCsKept''); State_Monad.return False }
          else State_Monad.return True)"

text \<open>\<^verbatim>\<open>retirementStillDue\<close>: \<^const>\<open>None\<close> is not to proceed.\<close>

definition retirementStillDue :: "rapi \<Rightarrow> retire_env \<Rightarrow> cluster_object \<Rightarrow> topo_server \<Rightarrow> (retire_error + bool option) rio" where
  "retirementStillDue api env co ts = do {
     r \<leftarrow> ask (ra_cluster api) (RereadCluster (mc_namespace (cb_cluster co)) (mc_name (cb_cluster co)));
     case r of
       Inl err \<Rightarrow> State_Monad.return (Inl (RetireReadFailed err))
     | Inr fresh \<Rightarrow>
         if cb_generation fresh \<noteq> cb_generation co then State_Monad.return (Inr None)
         else (case ResolveGlobalTopo (rx_fresh env) (cb_cluster fresh) of
                 Inl err \<Rightarrow> State_Monad.return (Inl (RetireResolveFailed err))
               | Inr spec \<Rightarrow>
                   if gt_external spec = None then State_Monad.return (Inr None)
                   else do {
                     s \<leftarrow> ask (ra_server api) (RereadServer (tp_namespace ts) (tp_name ts));
                     case s of
                       Inl err \<Rightarrow> State_Monad.return (if err = NotFound then Inr None else Inl (RetireReadFailed err))
                     | Inr freshTS \<Rightarrow> do {
                         b \<leftarrow> retireDeletesPVCs spec (cb_cluster fresh) freshTS;
                         State_Monad.return (Inr (Some b))
                       }
                   })
   }"

definition is_topo_claim :: "topo_server \<Rightarrow> pvc \<Rightarrow> bool" where
  "is_topo_claim ts v \<longleftrightarrow> is_ordinal_of (''data-'' @ tp_name ts) (v_name v) \<and> is_zero_ptr (v_deletion v)"

fun delete_claims :: "rapi \<Rightarrow> pvc list \<Rightarrow> nat \<Rightarrow> (retire_error + nat) rio" where
  "delete_claims api [] deleted = State_Monad.return (Inr deleted)"
| "delete_claims api (v # vs) deleted = do {
     w \<leftarrow> ask (ra_delete api) (DeleteClaim v);
     case w of
       Some err \<Rightarrow> if err = NotFound then delete_claims api vs (deleted + 1)
                   else State_Monad.return (Inl (RetireDeleteFailed (v_name v) err))
     | None \<Rightarrow> delete_claims api vs (deleted + 1)
   }"

definition deleteTopoServerPVCs :: "rapi \<Rightarrow> topo_server \<Rightarrow> (retire_error + nat) rio" where
  "deleteTopoServerPVCs api ts = do {
     r \<leftarrow> ask (ra_claims api) (ListClaims (tp_namespace ts));
     case r of
       Inl err \<Rightarrow> State_Monad.return (Inl (RetireReadFailed err))
     | Inr pvcs \<Rightarrow> delete_claims api (filter (is_topo_claim ts) pvcs) 0
   }"

definition globalTopoRetireRequeue :: duration where "globalTopoRetireRequeue = 15 * second"

definition delete_server :: "rapi \<Rightarrow> topo_server \<Rightarrow> (retire_error + duration option) rio" where
  "delete_server api ts = do {
     w \<leftarrow> ask (ra_delete api) (DeleteServer ts);
     case w of
       Some err \<Rightarrow>
         if err = NotFound then do { emit (RetireEvent ''Deleted''); State_Monad.return (Inr None) }
         else State_Monad.return (Inl (RetireDeleteFailed (tp_name ts) err))
     | None \<Rightarrow> do { emit (RetireEvent ''Deleted''); State_Monad.return (Inr None) }
   }"

definition finish_retirement :: "rapi \<Rightarrow> topo_server \<Rightarrow> bool \<Rightarrow> (retire_error + duration option) rio" where
  "finish_retirement api ts deletePVCs =
     (if deletePVCs then do {
        d \<leftarrow> deleteTopoServerPVCs api ts;
        case d of
          Inl err \<Rightarrow> State_Monad.return (Inl err)
        | Inr deleted \<Rightarrow> do {
            (if 0 < deleted then emit (RetireEvent ''Deleted'') else State_Monad.return ());
            delete_server api ts
          }
      }
      else delete_server api ts)"

definition retire_server :: "rapi \<Rightarrow> retire_env \<Rightarrow> cluster_object \<Rightarrow> topo_server \<Rightarrow> (retire_error + duration option) rio" where
  "retire_server api env co ts = do {
     m \<leftarrow> moveIncomplete api env co ts;
     case m of
       Inl err \<Rightarrow> State_Monad.return (Inl err)
     | Inr (Some w) \<Rightarrow> do {
         emit (RetireEvent (if rw_blocked w then ''GlobalTopoRetireBlocked'' else ''GlobalTopoRetireWaiting''));
         State_Monad.return (Inr (Some globalTopoRetireRequeue))
       }
     | Inr None \<Rightarrow> do {
         s \<leftarrow> retirementStillDue api env co ts;
         case s of
           Inl err \<Rightarrow> State_Monad.return (Inl err)
         | Inr None \<Rightarrow> State_Monad.return (Inr (Some globalTopoRetireRequeue))
         | Inr (Some deletePVCs) \<Rightarrow> finish_retirement api ts deletePVCs
       }
   }"

definition retireManagedGlobalTopo :: "retire_env \<Rightarrow> cluster_object \<Rightarrow> rapi \<Rightarrow> (retire_error + duration option) rio" where
  "retireManagedGlobalTopo env co api =
     (case ResolveGlobalTopo (rx_env env) (cb_cluster co) of
        Inl err \<Rightarrow> State_Monad.return (Inl (RetireResolveFailed err))
      | Inr spec \<Rightarrow>
          if gt_external spec = None then State_Monad.return (Inr None)
          else do {
            r \<leftarrow> managedGlobalTopoServer api co;
            case r of
              Inl err \<Rightarrow> State_Monad.return (Inl err)
            | Inr None \<Rightarrow> State_Monad.return (Inr None)
            | Inr (Some ts) \<Rightarrow> retire_server api env co ts
          })"

subsection \<open>What a deletion rests on\<close>

lemma seen_mid: "f h c = r \<Longrightarrow> seen f (h @ c # cs) c r"
  by (auto simp: seen_def)

definition no_member_managed :: "retire_env \<Rightarrow> topo_server \<Rightarrow> string list \<Rightarrow> etcd_member list \<Rightarrow> bool" where
  "no_member_managed env ts hosts ms \<longleftrightarrow>
     (\<forall>m\<in>set ms. \<not> is_ordinal_of (tp_name ts) (em_name m)
        \<and> (\<forall>u\<in>set (em_peer_urls m) \<union> set (em_client_urls m). \<not> isManagedHost (urlHost env u) ts hosts))"

lemma is_ordinal_of_nonempty: "is_ordinal_of base s \<Longrightarrow> s \<noteq> []"
  by (auto simp: is_ordinal_of_def cut_prefix_def has_prefix_def split: option.splits if_splits)

lemma urlHost_blank: "\<not> isManagedHost [] ts hosts"
  by (simp add: isManagedHost_def)

lemma managedMember_none:
  assumes "rx_hostname env [] = None \<or> rx_hostname env [] = Some []" and "managedMember env ms ts hosts = []"
  shows "no_member_managed env ts hosts ms"
  using assms(2)
proof (induction ms)
  case (Cons m ms)
  have blank: "\<not> isManagedHost (urlHost env []) ts hosts"
    using assms(1) by (auto simp: urlHost_def normalizeHost_def to_lower_def has_suffix_def has_prefix_def urlHost_blank)
  have ord: "\<not> is_ordinal_of (tp_name ts) (em_name m)" using Cons.prems is_ordinal_of_nonempty by (auto split: if_splits)
  show ?case
  proof (cases "find (\<lambda>u. isManagedHost (urlHost env u) ts hosts) (em_peer_urls m @ em_client_urls m)")
    case None
    with Cons ord show ?thesis by (auto simp: no_member_managed_def find_None_iff)
  next
    case (Some u)
    then have "isManagedHost (urlHost env u) ts hosts" by (auto simp: find_Some_iff)
    moreover have "u = []" using Cons.prems ord Some by simp
    ultimately show ?thesis using blank by simp
  qed
qed (simp add: no_member_managed_def)

text \<open>The evidence that the move is complete, as the history of reads has it.\<close>

definition etcd_elsewhere :: "rapi \<Rightarrow> retire_env \<Rightarrow> topo_server \<Rightarrow> topo_ref \<Rightarrow> rcall list \<Rightarrow> bool" where
  "etcd_elsewhere api env ts external h \<longleftrightarrow>
     (\<exists>ext pods hosts. seen (ra_identity api) h (ReadIdentity external) (Inr ext) \<and> \<not> Implausible ext
        \<and> seen (ra_pods api) h (ListAllPods (tp_namespace ts)) (Inr pods)
        \<and> (\<forall>p\<in>set pods. isManagedEtcdPod p ts \<longrightarrow> normalizeHost ` set (cp_ips p) \<subseteq> set hosts)
        \<and> no_member_managed env ts hosts (ei_members ext))"

definition moved :: "rapi \<Rightarrow> retire_env \<Rightarrow> cluster_object \<Rightarrow> topo_server \<Rightarrow> rcall list \<Rightarrow> bool" where
  "moved api env co ts h \<longleftrightarrow>
     cb_phase co = PhaseHealthy \<and> cb_observed_generation co = cb_generation co
     \<and> (\<exists>pods. seen (ra_pods api) h (cluster_pods (cb_cluster co)) (Inr pods) \<and> (\<forall>p\<in>set pods. \<not> still_uses (cb_cluster co) ts p))
     \<and> (\<exists>spec. ResolveGlobalTopo (rx_env env) (cb_cluster co) = Inr spec
          \<and> etcd_elsewhere api env ts (topo_ref_of (cb_cluster co) spec) h)"

definition still_external :: "rapi \<Rightarrow> retire_env \<Rightarrow> cluster_object \<Rightarrow> cluster_object \<Rightarrow> global_topo \<Rightarrow> rcall list \<Rightarrow> bool" where
  "still_external api env co fresh spec h \<longleftrightarrow>
     seen (ra_cluster api) h (RereadCluster (mc_namespace (cb_cluster co)) (mc_name (cb_cluster co))) (Inr fresh)
     \<and> cb_generation fresh = cb_generation co \<and> ResolveGlobalTopo (rx_fresh env) (cb_cluster fresh) = Inr spec
     \<and> gt_external spec \<noteq> None"

definition rechecked :: "rapi \<Rightarrow> retire_env \<Rightarrow> cluster_object \<Rightarrow> rcall list \<Rightarrow> bool" where
  "rechecked api env co h \<longleftrightarrow> (\<exists>fresh spec. still_external api env co fresh spec h)"

definition claims_due :: "rapi \<Rightarrow> retire_env \<Rightarrow> cluster_object \<Rightarrow> topo_server \<Rightarrow> rcall list \<Rightarrow> bool" where
  "claims_due api env co ts h \<longleftrightarrow>
     (\<exists>fresh spec freshTS policy. still_external api env co fresh spec h
        \<and> seen (ra_server api) h (RereadServer (tp_namespace ts) (tp_name ts)) (Inr freshTS)
        \<and> MergePVCDeletionPolicy (gt_pvc_deletion_policy spec) (mc_pvc_deletion_policy (cb_cluster fresh)) = Some policy
        \<and> WhenDeleted policy = DeletePVCRetentionPolicy
        \<and> (\<forall>p. tp_policy freshTS = Some p \<longrightarrow> WhenDeleted p \<noteq> ''Retain''))"

definition owned :: "rapi \<Rightarrow> cluster_object \<Rightarrow> topo_server \<Rightarrow> rcall list \<Rightarrow> bool" where
  "owned api co ts h \<longleftrightarrow>
     (\<exists>items. seen (ra_servers api) h (ListServers (mc_namespace (cb_cluster co))
          [LabelMultigresCluster \<mapsto> mc_name (cb_cluster co), LabelAppComponent \<mapsto> ''global-topo'']) (Inr items)
        \<and> ts \<in> set items \<and> tp_controller ts = Some (cb_uid co))"

lemma evidence_mono:
  "etcd_elsewhere api env ts ref h \<Longrightarrow> etcd_elsewhere api env ts ref (h @ cs)"
  "moved api env co ts h \<Longrightarrow> moved api env co ts (h @ cs)"
  "still_external api env co fresh spec h \<Longrightarrow> still_external api env co fresh spec (h @ cs)"
  "rechecked api env co h \<Longrightarrow> rechecked api env co (h @ cs)"
  "claims_due api env co ts h \<Longrightarrow> claims_due api env co ts (h @ cs)"
  "owned api co ts h \<Longrightarrow> owned api co ts (h @ cs)"
  unfolding etcd_elsewhere_def moved_def rechecked_def still_external_def claims_due_def owned_def by (meson seen_mono)+

lemma managedEtcdHosts_run:
  assumes "run_state (managedEtcdHosts api ts) h = (Inr hosts, h')"
  shows "\<exists>pods cs. h' = h @ ListAllPods (tp_namespace ts) # cs \<and> ra_pods api h (ListAllPods (tp_namespace ts)) = Inr pods
    \<and> (\<forall>p\<in>set pods. isManagedEtcdPod p ts \<longrightarrow> normalizeHost ` set (cp_ips p) \<subseteq> set hosts)"
  using assms by (auto simp: managedEtcdHosts_def Let_def split: sum.splits if_splits) blast+

lemma externalIsAnotherEtcd_reads:
  assumes "\<And>h r. G h (ReadIdentity r)" and "\<And>h n. G h (ListAllPods n)" and "\<And>h n m. G h (GetService n m)"
  shows "keeps G (externalIsAnotherEtcd api env ts ref) h"
  unfolding externalIsAnotherEtcd_def etcdIdentity_def managedEtcdHosts_def
  using assms by (auto intro!: keeps_bind keeps_ask keeps_return simp: Let_def split: sum.split)

lemma externalIsAnotherEtcd_None:
  assumes "rx_hostname env [] = None \<or> rx_hostname env [] = Some []"
    and "run_state (externalIsAnotherEtcd api env ts ref) h = (Inr None, h')"
  shows "etcd_elsewhere api env ts ref h'"
proof -
  let ?c = "ReadIdentity ref"
  from assms(2) obtain ext hosts h1 where ext: "ra_identity api h ?c = Inr ext" "\<not> Implausible ext"
    and hs: "run_state (managedEtcdHosts api ts) (h @ [?c]) = (Inr hosts, h1)" and m: "managedMember env (ei_members ext) ts hosts = []"
    and h': "\<exists>cs. h' = h1 @ cs"
    by (auto simp: externalIsAnotherEtcd_def etcdIdentity_def Let_def split: sum.splits if_splits prod.splits)
  from managedEtcdHosts_run [OF hs] obtain pods cs where "h1 = (h @ [?c]) @ ListAllPods (tp_namespace ts) # cs"
    "ra_pods api (h @ [?c]) (ListAllPods (tp_namespace ts)) = Inr pods"
    "\<forall>p\<in>set pods. isManagedEtcdPod p ts \<longrightarrow> normalizeHost ` set (cp_ips p) \<subseteq> set hosts" by blast
  then have "etcd_elsewhere api env ts ref h1"
    unfolding etcd_elsewhere_def using ext managedMember_none [OF assms(1) m] seen_mid [of "ra_identity api" h ?c] seen_mid [of "ra_pods api"]
    by (metis append.assoc append_Cons append_Nil)
  then show ?thesis using h' evidence_mono(1) by blast
qed

lemma moveIncomplete_None:
  assumes "rx_hostname env [] = None \<or> rx_hostname env [] = Some []"
    and "run_state (moveIncomplete api env co ts) h = (Inr None, h')"
  shows "moved api env co ts h'"
proof -
  let ?c = "cluster_pods (cb_cluster co)"
  from assms(2) obtain pods spec where ph: "cb_phase co = PhaseHealthy" "cb_observed_generation co = cb_generation co"
    and pods: "ra_pods api h ?c = Inr pods" "\<not> list_ex (still_uses (cb_cluster co) ts) pods"
    and spec: "ResolveGlobalTopo (rx_env env) (cb_cluster co) = Inr spec"
    and e: "run_state (externalIsAnotherEtcd api env ts (topo_ref_of (cb_cluster co) spec)) (h @ [?c]) = (Inr None, h')"
    by (auto simp: moveIncomplete_def Let_def split: sum.splits if_splits)
  have "\<exists>cs. h' = (h @ [?c]) @ cs"
    using keeps_run [OF externalIsAnotherEtcd_reads [of "\<lambda>_ _. True"]] e by (metis snd_conv)
  then obtain cs where h': "h' = h @ ?c # cs" by auto
  show ?thesis unfolding moved_def
    using ph spec externalIsAnotherEtcd_None [OF assms(1) e] pods(2) seen_mid [of "ra_pods api" h ?c, OF pods(1), of cs]
    by (auto simp: h' list_ex_iff)
qed

lemma retirementStillDue_run:
  assumes "run_state (retirementStillDue api env co ts) h = (Inr (Some b), h')"
  shows "rechecked api env co h' \<and> (b \<longrightarrow> claims_due api env co ts h')"
proof -
  let ?c = "RereadCluster (mc_namespace (cb_cluster co)) (mc_name (cb_cluster co))"
  let ?s = "RereadServer (tp_namespace ts) (tp_name ts)"
  from assms obtain fresh spec freshTS where f: "ra_cluster api h ?c = Inr fresh" "cb_generation fresh = cb_generation co"
    "ResolveGlobalTopo (rx_fresh env) (cb_cluster fresh) = Inr spec" "gt_external spec \<noteq> None"
    and s: "ra_server api (h @ [?c]) ?s = Inr freshTS"
    and d: "run_state (retireDeletesPVCs spec (cb_cluster fresh) freshTS) ((h @ [?c]) @ [?s]) = (b, h')"
    by (auto simp: retirementStillDue_def split: sum.splits if_splits prod.splits)
  obtain cs where h': "h' = h @ ?c # ?s # cs"
    using d by (auto simp: retireDeletesPVCs_def split: option.splits if_splits)
  have e: "still_external api env co fresh spec h'"
    unfolding still_external_def h' using f seen_mid [of "ra_cluster api" h ?c] by blast
  have "seen (ra_server api) h' ?s (Inr freshTS)" using seen_mid [of "ra_server api" "h @ [?c]" ?s, OF s, of cs] by (simp add: h')
  moreover have "\<exists>policy. MergePVCDeletionPolicy (gt_pvc_deletion_policy spec) (mc_pvc_deletion_policy (cb_cluster fresh)) = Some policy
      \<and> WhenDeleted policy = DeletePVCRetentionPolicy \<and> (\<forall>p. tp_policy freshTS = Some p \<longrightarrow> WhenDeleted p \<noteq> ''Retain'')" if b
    using d that by (auto simp: retireDeletesPVCs_def split: option.splits if_splits)
  ultimately show ?thesis using e unfolding claims_due_def rechecked_def by blast
qed

definition retire_guard :: "rapi \<Rightarrow> retire_env \<Rightarrow> cluster_object \<Rightarrow> rcall list \<Rightarrow> rcall \<Rightarrow> bool" where
  "retire_guard api env co h a =
     (case a of
        DeleteServer ts \<Rightarrow> owned api co ts h \<and> moved api env co ts h \<and> rechecked api env co h
      | DeleteClaim v \<Rightarrow> (\<exists>ts claims. owned api co ts h \<and> moved api env co ts h \<and> claims_due api env co ts h
          \<and> seen (ra_claims api) h (ListClaims (tp_namespace ts)) (Inr claims) \<and> v \<in> set claims \<and> is_topo_claim ts v)
      | _ \<Rightarrow> True)"

lemma retire_guard_easy [simp]:
  "retire_guard api env co h (ListServers n l)" "retire_guard api env co h (ListClientPods n l)" "retire_guard api env co h (ListAllPods n)"
  "retire_guard api env co h (GetService n m)" "retire_guard api env co h (ReadIdentity r)" "retire_guard api env co h (RereadCluster n m)"
  "retire_guard api env co h (RereadServer n m)" "retire_guard api env co h (ListClaims n)" "retire_guard api env co h (RetireEvent e)"
  by (simp_all add: retire_guard_def)

definition due :: "rapi \<Rightarrow> retire_env \<Rightarrow> cluster_object \<Rightarrow> topo_server \<Rightarrow> rcall list \<Rightarrow> bool" where
  "due api env co ts h \<longleftrightarrow> owned api co ts h \<and> moved api env co ts h \<and> rechecked api env co h"

lemma due_mono: "due api env co ts h \<Longrightarrow> due api env co ts (h @ cs)"
  unfolding due_def by (auto intro: evidence_mono)

lemma keeps_delete_server: "due api env co ts h \<Longrightarrow> keeps (retire_guard api env co) (delete_server api ts) h"
  unfolding delete_server_def
  by (auto intro!: keeps_bind keeps_ask keeps_emit keeps_return simp: retire_guard_def due_def split: option.split)

lemma keeps_delete_claims:
  assumes "due api env co ts h" and "claims_due api env co ts h" and "seen (ra_claims api) h (ListClaims (tp_namespace ts)) (Inr claims)"
    and "set vs \<subseteq> {v \<in> set claims. is_topo_claim ts v}"
  shows "keeps (retire_guard api env co) (delete_claims api vs n) h"
  using assms
proof (induction vs arbitrary: h n)
  case (Cons v vs)
  let ?I = "\<lambda>h. due api env co ts h \<and> claims_due api env co ts h \<and> seen (ra_claims api) h (ListClaims (tp_namespace ts)) (Inr claims)"
  have "retire_guard api env co h (DeleteClaim v)" using Cons.prems unfolding retire_guard_def due_def by auto
  moreover have "keeps (retire_guard api env co) (delete_claims api vs m) h'" if "?I h'" for m h' using Cons.IH that Cons.prems(4) by auto
  ultimately show ?case
    using Cons.prems
    by (auto intro!: keeps_bind_inv [where I = ?I] due_mono evidence_mono seen_mono keeps_ask keeps_return split: option.split)
qed (simp add: keeps_return)

lemma keeps_finish_retirement:
  assumes "due api env co ts h" and "b \<Longrightarrow> claims_due api env co ts h"
  shows "keeps (retire_guard api env co) (finish_retirement api ts b) h"
proof (cases b)
  case True
  let ?I = "due api env co ts"
  have claims: "keeps (retire_guard api env co) (deleteTopoServerPVCs api ts) h"
    unfolding deleteTopoServerPVCs_def
  proof (rule keeps_bind)
    let ?c = "ListClaims (tp_namespace ts)"
    show "keeps (retire_guard api env co) (ask (ra_claims api) ?c) h" by (simp add: keeps_ask)
    fix r h1
    assume "run_state (ask (ra_claims api) ?c) h = (r, h1)"
    then have r: "ra_claims api h ?c = r" "h1 = h @ [?c]" by auto
    show "keeps (retire_guard api env co) (case r of Inl err \<Rightarrow> State_Monad.return (Inl (RetireReadFailed err))
        | Inr pvcs \<Rightarrow> delete_claims api (filter (is_topo_claim ts) pvcs) 0) h1"
    proof (cases r)
      case (Inr pvcs)
      then show ?thesis unfolding Inr sum.case r(2)
        using assms True seen_last [of "ra_claims api" h ?c, OF r(1) [unfolded Inr]]
        by (intro keeps_delete_claims [where claims = pvcs]) (auto intro: due_mono evidence_mono)
    qed (simp add: keeps_return)
  qed
  show ?thesis unfolding finish_retirement_def
    using True assms(1) claims
    by (auto intro!: keeps_bind_inv [where I = ?I] due_mono keeps_emit keeps_return keeps_delete_server split: sum.split)
qed (simp add: finish_retirement_def keeps_delete_server assms(1))

lemma moveIncomplete_reads: "keeps (retire_guard api env co) (moveIncomplete api env' co' ts) h"
  unfolding moveIncomplete_def cluster_pods_def
  by (auto intro!: keeps_bind keeps_ask keeps_emit keeps_return externalIsAnotherEtcd_reads simp: Let_def split: sum.split)

lemma retirementStillDue_reads: "keeps (retire_guard api env co) (retirementStillDue api env' co' ts) h"
  unfolding retirementStillDue_def retireDeletesPVCs_def
  by (auto intro!: keeps_bind keeps_ask keeps_emit keeps_return simp: Let_def split: sum.split option.split)

lemma keeps_retire_server:
  assumes "rx_hostname env [] = None \<or> rx_hostname env [] = Some []" and "owned api co ts h"
  shows "keeps (retire_guard api env co) (retire_server api env co ts) h"
  unfolding retire_server_def
proof (rule keeps_bind [OF moveIncomplete_reads])
  fix m h1
  assume m: "run_state (moveIncomplete api env co ts) h = (m, h1)"
  then obtain cs where h1: "h1 = h @ cs" using keeps_run [OF moveIncomplete_reads [of api env co env co ts h]] by auto
  have o: "owned api co ts h1" unfolding h1 by (rule evidence_mono) (rule assms(2))
  have rest: "keeps (retire_guard api env co) (retirementStillDue api env co ts \<bind> (\<lambda>s. case s of
      Inl err \<Rightarrow> State_Monad.return (Inl err) | Inr None \<Rightarrow> State_Monad.return (Inr (Some globalTopoRetireRequeue))
    | Inr (Some deletePVCs) \<Rightarrow> finish_retirement api ts deletePVCs)) h1" if "m = Inr None"
  proof (rule keeps_bind [OF retirementStillDue_reads])
    have mv: "moved api env co ts h1" using moveIncomplete_None [OF assms(1)] m that by blast
    fix s h2
    assume s: "run_state (retirementStillDue api env co ts) h1 = (s, h2)"
    then obtain cs' where h2: "h2 = h1 @ cs'" using keeps_run [OF retirementStillDue_reads [of api env co env co ts h1]] by auto
    have "due api env co ts h2 \<and> (b \<longrightarrow> claims_due api env co ts h2)" if "s = Inr (Some b)" for b
      using retirementStillDue_run [OF s [unfolded that]] evidence_mono(2,6) mv o by (auto simp: due_def h2)
    then show "keeps (retire_guard api env co) (case s of Inl err \<Rightarrow> State_Monad.return (Inl err)
        | Inr None \<Rightarrow> State_Monad.return (Inr (Some globalTopoRetireRequeue)) | Inr (Some deletePVCs) \<Rightarrow> finish_retirement api ts deletePVCs) h2"
      by (auto intro!: keeps_return keeps_finish_retirement split: sum.split option.split)
  qed
  show "keeps (retire_guard api env co) (case m of Inl err \<Rightarrow> State_Monad.return (Inl err)
    | Inr (Some w) \<Rightarrow> do { emit (RetireEvent (if rw_blocked w then ''GlobalTopoRetireBlocked'' else ''GlobalTopoRetireWaiting''));
         State_Monad.return (Inr (Some globalTopoRetireRequeue)) }
    | Inr None \<Rightarrow> retirementStillDue api env co ts \<bind> (\<lambda>s. case s of
      Inl err \<Rightarrow> State_Monad.return (Inl err) | Inr None \<Rightarrow> State_Monad.return (Inr (Some globalTopoRetireRequeue))
    | Inr (Some deletePVCs) \<Rightarrow> finish_retirement api ts deletePVCs)) h1"
    using rest by (auto intro!: keeps_bind keeps_emit keeps_return split: sum.split option.split)
qed

lemma keeps_retireManagedGlobalTopo:
  assumes "rx_hostname env [] = None \<or> rx_hostname env [] = Some []"
  shows "keeps (retire_guard api env co) (retireManagedGlobalTopo env co api) h"
proof -
  let ?c = "ListServers (mc_namespace (cb_cluster co)) [LabelMultigresCluster \<mapsto> mc_name (cb_cluster co), LabelAppComponent \<mapsto> ''global-topo'']"
  have "keeps (retire_guard api env co) (managedGlobalTopoServer api co \<bind> (\<lambda>r. case r of Inl err \<Rightarrow> State_Monad.return (Inl err)
      | Inr None \<Rightarrow> State_Monad.return (Inr None) | Inr (Some ts) \<Rightarrow> retire_server api env co ts)) h"
  proof (rule keeps_bind)
    show "keeps (retire_guard api env co) (managedGlobalTopoServer api co) h"
      by (auto simp: managedGlobalTopoServer_def intro!: keeps_bind keeps_ask keeps_return)
    fix r h1
    assume "run_state (managedGlobalTopoServer api co) h = (r, h1)"
    then have "owned api co ts h1" if "r = Inr (Some ts)" for ts
      using that seen_last [of "ra_servers api" h ?c] unfolding owned_def
      by (auto simp: managedGlobalTopoServer_def find_Some_iff split: sum.splits)
    then show "keeps (retire_guard api env co) (case r of Inl err \<Rightarrow> State_Monad.return (Inl err)
      | Inr None \<Rightarrow> State_Monad.return (Inr None) | Inr (Some ts) \<Rightarrow> retire_server api env co ts) h1"
      by (auto intro!: keeps_return keeps_retire_server assms split: sum.split option.split)
  qed
  then show ?thesis unfolding retireManagedGlobalTopo_def by (auto intro!: keeps_return split: sum.split)
qed

text \<open>
  C12: The managed global topology server is deleted only by a cluster that controls it, that was computed Healthy at its
  current generation, that resolved to an external topology, also when read again past the cache, and only after the
  pass read that no running pod of the cluster is started against the managed address and that the etcd at the external
  address has a genuine membership of which none is a member of the server: not by name, nor by a host of its peer or
  client URLs, be it a service name or the address of one of its pods. The parser of URLs finds no host in the empty text.
\<close>

theorem retired_server_unused:
  assumes "rx_hostname env [] = None \<or> rx_hostname env [] = Some []"
    and "snd (run_state (retireManagedGlobalTopo env co api) []) = pre @ DeleteServer ts # post"
  shows "tp_controller ts = Some (cb_uid co) \<and> cb_phase co = PhaseHealthy \<and> cb_observed_generation co = cb_generation co
    \<and> (\<exists>pods. seen (ra_pods api) pre (cluster_pods (cb_cluster co)) (Inr pods) \<and> (\<forall>p\<in>set pods. \<not> still_uses (cb_cluster co) ts p))
    \<and> (\<exists>spec. ResolveGlobalTopo (rx_env env) (cb_cluster co) = Inr spec
         \<and> etcd_elsewhere api env ts (topo_ref_of (cb_cluster co) spec) pre)
    \<and> rechecked api env co pre"
proof -
  have "guarded (retire_guard api env co) [] (pre @ DeleteServer ts # post)"
    using keeps_retireManagedGlobalTopo [OF assms(1), of api co "[]"] assms(2) by (auto simp: keeps_def)
  then have "owned api co ts pre" "moved api env co ts pre" "rechecked api env co pre" by (simp_all add: retire_guard_def)
  then show ?thesis unfolding moved_def owned_def by blast
qed

text \<open>
  A volume is deleted in the course of a retirement only where all that holds as well, where its name says it is one of
  the server's, and where the policy read again past the cache says Delete and the server's own policy, read again too,
  does not say Retain.
\<close>

theorem retired_claim_due:
  assumes "rx_hostname env [] = None \<or> rx_hostname env [] = Some []"
    and "snd (run_state (retireManagedGlobalTopo env co api) []) = pre @ DeleteClaim v # post"
  shows "\<exists>ts. tp_controller ts = Some (cb_uid co) \<and> is_ordinal_of (''data-'' @ tp_name ts) (v_name v)
    \<and> moved api env co ts pre \<and> claims_due api env co ts pre"
proof -
  have "guarded (retire_guard api env co) [] (pre @ DeleteClaim v # post)"
    using keeps_retireManagedGlobalTopo [OF assms(1), of api co "[]"] assms(2) by (auto simp: keeps_def)
  then obtain ts where "owned api co ts pre" "moved api env co ts pre" "claims_due api env co ts pre" "is_topo_claim ts v"
    by (auto simp: retire_guard_def)
  then show ?thesis unfolding owned_def is_topo_claim_def by blast
qed

subsection \<open>An instance\<close>

definition external_w :: external_topo where
  "external_w = \<lparr>ex_endpoints = [''e0:2379''], ex_implementation = ''etcd'', ex_ca_secret = [], ex_client_cert_secret = [], ex_root_path = []\<rparr>"

definition moved_cluster_w :: cluster where
  "moved_cluster_w = demo_cluster\<lparr>mc_global_topo := Some \<lparr>gt_etcd = None, gt_external = Some external_w, gt_template = [],
     gt_pvc_deletion_policy = Some \<lparr>WhenDeleted = ''Delete'', WhenScaled = ''Delete''\<rparr>, gt_placement = None\<rparr>\<rparr>"

definition moved_w :: cluster_object where
  "moved_w = \<lparr>cb_cluster = moved_cluster_w, cb_uid = ''u1'', cb_generation = 4, cb_observed_generation = 4, cb_phase = PhaseHealthy,
     cb_conditions = []\<rparr>"

definition server_w :: topo_server where
  "server_w = \<lparr>tp_name = ''c-global-topo'', tp_namespace = ''team'', tp_controller = Some ''u1'', tp_policy = None, tp_tls = None\<rparr>"

definition claim_w :: pvc where
  "claim_w = \<lparr>v_name = ''data-c-global-topo-0'', v_namespace = ''team'', v_resource_version = [], v_labels = Map.empty, v_owners = [],
     v_deletion = None, v_request = None, v_bound = True, v_class = None, v_modes = [], v_conditions = []\<rparr>"

definition identity_w :: etcd_identity where
  "identity_w = \<lparr>ei_cluster = 7, ei_members = [\<lparr>em_id = 1, em_name = ''m1'', em_peer_urls = [''http://e0:2380''], em_client_urls = []\<rparr>],
     ei_status_cluster = 7, ei_status_member = 1\<rparr>"

definition retire_env_w :: retire_env where
  "retire_env_w = \<lparr>rx_env = ve_env valid_env, rx_fresh = ve_env valid_env, rx_hostname = (\<lambda>u. if u = [] then None else Some ''e0'')\<rparr>"

definition retire_api_w :: rapi where
  "retire_api_w = \<lparr>ra_servers = (\<lambda>h a. Inr [server_w]), ra_pods = (\<lambda>h a. Inr []), ra_service = (\<lambda>h a. Inl NotFound),
     ra_identity = (\<lambda>h a. if a = ReadIdentity (managedTopoRef server_w) then Inl ''dead'' else Inr identity_w),
     ra_cluster = (\<lambda>h a. Inr moved_w), ra_server = (\<lambda>h a. Inr server_w), ra_claims = (\<lambda>h a. Inr [claim_w]), ra_delete = (\<lambda>h a. None)\<rparr>"

lemma external_resolved_w: "case ResolveGlobalTopo (ve_env valid_env) moved_cluster_w of Inl _ \<Rightarrow> False
    | Inr spec \<Rightarrow> gt_external spec \<noteq> None \<and> gt_pvc_deletion_policy spec = Some \<lparr>WhenDeleted = ''Delete'', WhenScaled = ''Delete''\<rparr>
        \<and> topo_ref_of moved_cluster_w spec \<noteq> managedTopoRef server_w \<and> tr_implementation (topo_ref_of moved_cluster_w spec) = ''etcd''"
  by code_simp

lemma names_w: "\<not> Implausible identity_w" "managedMember retire_env_w (ei_members identity_w) server_w [] = []" "is_topo_claim server_w claim_w"
proof -
  show "\<not> Implausible identity_w" by (simp add: Implausible_def identity_w_def)
  show "managedMember retire_env_w (ei_members identity_w) server_w [] = []" by code_simp
  show "is_topo_claim server_w claim_w"
    by (simp add: is_topo_claim_def is_ordinal_of_def server_w_def claim_w_def cut_prefix_def has_prefix_def parses_uint32_def is_digit_def
        digit_val_def)
qed

lemma retire_w:
  "\<exists>reads post. snd (run_state (retireManagedGlobalTopo retire_env_w moved_w retire_api_w) [])
    = reads @ DeleteClaim claim_w # RetireEvent ''Deleted'' # DeleteServer server_w # post"
proof -
  obtain spec where spec: "ResolveGlobalTopo (ve_env valid_env) moved_cluster_w = Inr spec" "gt_external spec \<noteq> None"
    "gt_pvc_deletion_policy spec = Some \<lparr>WhenDeleted = ''Delete'', WhenScaled = ''Delete''\<rparr>"
    "topo_ref_of moved_cluster_w spec \<noteq> managedTopoRef server_w" "tr_implementation (topo_ref_of moved_cluster_w spec) = ''etcd''"
    using external_resolved_w by (auto split: sum.splits)
  have m: "run_state (moveIncomplete retire_api_w retire_env_w moved_w server_w) h = (Inr None, h @ [cluster_pods moved_cluster_w,
      ReadIdentity (topo_ref_of moved_cluster_w spec), ListAllPods ''team'', GetService ''team'' ''c-global-topo'',
      ReadIdentity (managedTopoRef server_w)])" for h
    using spec names_w
    by (simp add: moveIncomplete_def externalIsAnotherEtcd_def etcdIdentity_def managedEtcdHosts_def retire_api_w_def retire_env_w_def moved_w_def)
      (simp add: server_w_def)
  have d: "run_state (retirementStillDue retire_api_w retire_env_w moved_w server_w) h = (Inr (Some True),
      h @ [RereadCluster ''team'' ''c'', RereadServer ''team'' ''c-global-topo''])" for h
    using spec
    by (simp add: retirementStillDue_def retireDeletesPVCs_def MergePVCDeletionPolicy_def retire_api_w_def retire_env_w_def moved_w_def server_w_def
        moved_cluster_w_def demo_cluster_def split: option.splits)
  have w: "rx_env retire_env_w = ve_env valid_env" "cb_cluster moved_w = moved_cluster_w" "cb_uid moved_w = ''u1''"
    "tp_controller server_w = Some ''u1''" "ra_servers retire_api_w = (\<lambda>h a. Inr [server_w])" "ra_claims retire_api_w = (\<lambda>h a. Inr [claim_w])"
    "ra_delete retire_api_w = (\<lambda>h a. None)"
    by (simp_all add: retire_env_w_def moved_w_def retire_api_w_def server_w_def)
  have "snd (run_state (retireManagedGlobalTopo retire_env_w moved_w retire_api_w) []) =
      [ListServers (mc_namespace moved_cluster_w) [LabelMultigresCluster \<mapsto> mc_name moved_cluster_w, LabelAppComponent \<mapsto> ''global-topo''],
       cluster_pods moved_cluster_w, ReadIdentity (topo_ref_of moved_cluster_w spec), ListAllPods ''team'', GetService ''team'' ''c-global-topo'',
       ReadIdentity (managedTopoRef server_w), RereadCluster ''team'' ''c'', RereadServer ''team'' ''c-global-topo'', ListClaims (tp_namespace server_w)]
      @ DeleteClaim claim_w # RetireEvent ''Deleted'' # DeleteServer server_w # [RetireEvent ''Deleted'']"
    using spec names_w(3)
    by (simp add: retireManagedGlobalTopo_def managedGlobalTopoServer_def retire_server_def finish_retirement_def deleteTopoServerPVCs_def
        delete_server_def m d w)
  then show ?thesis by blast
qed

theorem retired_server_unused_witness:
  "\<exists>pre. etcd_elsewhere retire_api_w retire_env_w server_w
     (topo_ref_of moved_cluster_w (projr (ResolveGlobalTopo (ve_env valid_env) moved_cluster_w))) pre \<and> rechecked retire_api_w retire_env_w moved_w pre"
proof -
  have u: "rx_hostname retire_env_w [] = None \<or> rx_hostname retire_env_w [] = Some []" by (simp add: retire_env_w_def)
  obtain reads post where "snd (run_state (retireManagedGlobalTopo retire_env_w moved_w retire_api_w) [])
    = (reads @ [DeleteClaim claim_w, RetireEvent ''Deleted'']) @ DeleteServer server_w # post" using retire_w by auto
  from retired_server_unused [OF u this] show ?thesis by (auto simp: moved_w_def retire_env_w_def)
qed

theorem retired_claim_due_witness:
  "\<exists>pre ts. is_ordinal_of (''data-'' @ tp_name ts) (v_name claim_w) \<and> claims_due retire_api_w retire_env_w moved_w ts pre"
proof -
  have u: "rx_hostname retire_env_w [] = None \<or> rx_hostname retire_env_w [] = Some []" by (simp add: retire_env_w_def)
  obtain reads post where "snd (run_state (retireManagedGlobalTopo retire_env_w moved_w retire_api_w) []) = reads @ DeleteClaim claim_w # post"
    using retire_w by auto
  from retired_claim_due [OF u this] show ?thesis by blast
qed

end
