(* ===== verification/Cluster_Status.thy ===== *)
theory Cluster_Status
  imports Topo_Retire
begin

text \<open>
  The status of a cluster (\<^verbatim>\<open>pkg/cluster-handler/controller/multigrescluster/status.go\<close>): how the phase is derived from the
  cells, table groups and topology servers listed, the summaries per cell and database, and the conditions of the two
  external endpoints. Each read is made once, so a pass is a function of their answers; \<^verbatim>\<open>meta.SetStatusCondition\<close> and
  \<^verbatim>\<open>meta.RemoveStatusCondition\<close> are arguments.
\<close>

subsection \<open>What is read\<close>

record child =
  ch_name :: string
  ch_controller :: "string option"
  ch_generation :: int
  ch_observed_generation :: int
  ch_phase :: Phase
  ch_conditions :: "condition list"
  ch_pending :: string
  ch_deletion :: "gotime option"

record cell_child = child +
  cd_cell :: string
  cd_gateway_replicas :: int
  cd_gateway_ready :: int

record group_child = child +
  gd_database :: string
  gd_group :: string
  gd_ready :: int
  gd_total :: int

record service =
  sv_external_ips :: "string list"
  sv_ingress :: "(string \<times> string) list"

record status_reads =
  sq_cells :: "api_error + cell_child list"
  sq_groups :: "api_error + group_child list"
  sq_servers :: "api_error + child list"
  sq_gateway_service :: "api_error + service"
  sq_admin_service :: "api_error + service"
  sq_admin_ready :: "api_error + int"
  sq_patch :: "api_error option"

record cluster_status =
  cu_phase :: Phase
  cu_message :: string
  cu_observed_generation :: int
  cu_cells :: "(string \<times> bool \<times> int) list"
  cu_databases :: "(string \<times> int \<times> int) list"
  cu_initialized_at :: "gotime option"
  cu_gateway :: "string option"
  cu_admin_web :: "string option"
  cu_conditions :: "condition list"

datatype status_error = StatusResolveFailed resolve_error | StatusReadFailed string api_error | StatusPatchFailed api_error

record status_env =
  sx_env :: resolve_env
  sx_now :: gotime
  sx_set :: "condition list \<Rightarrow> condition \<Rightarrow> condition list"
  sx_remove :: "condition list \<Rightarrow> string \<Rightarrow> condition list"

subsection \<open>External endpoints\<close>

definition extractExternalEndpoint :: "service option \<Rightarrow> string" where
  "extractExternalEndpoint svc =
     (case svc of
        None \<Rightarrow> []
      | Some s \<Rightarrow>
          if sv_external_ips s \<noteq> [] \<and> hd (sv_external_ips s) \<noteq> [] then hd (sv_external_ips s)
          else (case sv_ingress s of [] \<Rightarrow> [] | (hostname, ip) # _ \<Rightarrow> if hostname \<noteq> [] then hostname else ip))"

definition endpoint_condition :: "string \<Rightarrow> string \<Rightarrow> string \<Rightarrow> string \<Rightarrow> gotime \<Rightarrow> bool \<Rightarrow> string \<Rightarrow> int \<Rightarrow> int \<Rightarrow> condition option" where
  "endpoint_condition ty waiting none_reason none_message now enabled externalEndpoint ready generation =
     (if \<not> enabled then None
      else let (status, reason, message) =
             (if externalEndpoint = [] then (ConditionFalse, ''AwaitingEndpoint'', waiting)
              else if ready = 0 then (ConditionFalse, none_reason, none_message)
              else (ConditionTrue, ''EndpointReady'', ''External endpoint '' @ externalEndpoint @ '' is serving traffic''))
           in Some \<lparr>c_type = ty, c_status = status, c_observed_generation = generation, c_last_transition = now, c_reason = reason,
                c_message = message\<rparr>)"

definition computeGatewayCondition :: "gotime \<Rightarrow> bool \<Rightarrow> string \<Rightarrow> int \<Rightarrow> int \<Rightarrow> condition option" where
  "computeGatewayCondition = endpoint_condition ''GatewayExternalReady'' ''Waiting for gateway service endpoint'' ''NoReadyGateways''
     ''External endpoint assigned but no multigateway pods are ready''"

definition computeAdminWebCondition :: "gotime \<Rightarrow> bool \<Rightarrow> string \<Rightarrow> int \<Rightarrow> int \<Rightarrow> condition option" where
  "computeAdminWebCondition = endpoint_condition ''AdminWebExternalReady'' ''Waiting for admin web service endpoint'' ''NoReadyAdminWeb''
     ''External endpoint assigned but no multiadmin-web pods are ready''"

definition external_enabled :: "external_service option \<Rightarrow> bool" where
  "external_enabled e = (case e of None \<Rightarrow> False | Some s \<Rightarrow> es_enabled s)"

text \<open>A read that is made only when the endpoint is enabled, and whose NotFound is no error.\<close>

definition optional_read :: "string \<Rightarrow> bool \<Rightarrow> (api_error + 'a) \<Rightarrow> status_error + 'a option" where
  "optional_read what enabled r =
     (if \<not> enabled then Inr None
      else case r of Inr x \<Rightarrow> Inr (Some x) | Inl err \<Rightarrow> if err = NotFound then Inr None else Inl (StatusReadFailed what err))"

definition put_condition :: "status_env \<Rightarrow> string \<Rightarrow> condition option \<Rightarrow> condition list \<Rightarrow> condition list" where
  "put_condition env ty cond conditions = (case cond of Some c \<Rightarrow> sx_set env conditions c | None \<Rightarrow> sx_remove env conditions ty)"

subsection \<open>Summaries and phase\<close>

definition current :: "'a child_scheme \<Rightarrow> bool" where
  "current c \<longleftrightarrow> ch_observed_generation c = ch_generation c"

definition cell_ready :: "cell_child \<Rightarrow> bool" where
  "cell_ready c \<longleftrightarrow> list_ex (\<lambda>cond. c_type cond = ''Available'' \<and> c_status cond = ConditionTrue \<and> current c) (ch_conditions c)"

definition cell_summaries :: "cell_child list \<Rightarrow> (string \<times> bool \<times> int) list" where
  "cell_summaries cells = foldl (\<lambda>m c. upd (cd_cell c) (cell_ready c, cd_gateway_replicas c) m) [] cells"

definition tgDraining :: "group_child \<Rightarrow> bool" where
  "tgDraining tg \<longleftrightarrow> ch_pending tg \<noteq> [] \<or> ch_deletion tg \<noteq> None"

definition add_shards :: "(string \<times> int \<times> int) list \<Rightarrow> group_child \<Rightarrow> (string \<times> int \<times> int) list" where
  "add_shards m tg =
     (let (ready, tot) = (case map_of m (gd_database tg) of None \<Rightarrow> (0, 0) | Some s \<Rightarrow> s)
      in upd (gd_database tg) (if current tg then wrap32 (ready + gd_ready tg) else ready, wrap32 (tot + gd_total tg)) m)"

definition healthy_child :: "'a child_scheme \<Rightarrow> bool" where
  "healthy_child c \<longleftrightarrow> current c \<and> ch_phase c = PhaseHealthy"

definition degraded_child :: "'a child_scheme \<Rightarrow> bool" where
  "degraded_child c \<longleftrightarrow> current c \<and> ch_phase c = PhaseDegraded"

definition global_topo_name :: "cluster \<Rightarrow> string" where
  "global_topo_name c = mc_name c @ ''-global-topo''"

text \<open>The servers that count: not the managed global one when it is being retired.\<close>

definition counted_servers :: "cluster_object \<Rightarrow> bool \<Rightarrow> child list \<Rightarrow> child list" where
  "counted_servers co wantsManaged servers =
     filter (\<lambda>ts. \<not> (\<not> wantsManaged \<and> ch_name ts = global_topo_name (cb_cluster co) \<and> ch_controller ts = Some (cb_uid co))) servers"

definition missing_children :: "cluster_object \<Rightarrow> bool \<Rightarrow> cell_child list \<Rightarrow> group_child list \<Rightarrow> child list \<Rightarrow> bool" where
  "missing_children co wantsManaged cells tgs servers \<longleftrightarrow>
     list_ex (\<lambda>cell. cl_name cell \<notin> set (map cd_cell cells)) (mc_cells (cb_cluster co))
     \<or> list_ex (\<lambda>(db, tg). (db_name db, tg_name tg) \<notin> set (map (\<lambda>g. (gd_database g, gd_group g)) tgs)) (spec_groups (cb_cluster co))
     \<or> wantsManaged \<and> global_topo_name (cb_cluster co) \<notin> set (map ch_name servers)"

definition cluster_phase :: "cluster_object \<Rightarrow> bool \<Rightarrow> cell_child list \<Rightarrow> group_child list \<Rightarrow> child list \<Rightarrow> Phase \<times> string" where
  "cluster_phase co wantsManaged cells tgs servers =
     (let anyDegraded = list_ex degraded_child cells \<or> list_ex degraded_child tgs \<or> list_ex degraded_child servers;
          allHealthy = list_all healthy_child cells \<and> list_all healthy_child tgs \<and> list_all healthy_child servers
                       \<and> \<not> missing_children co wantsManaged cells tgs servers
      in if anyDegraded then (PhaseDegraded, ''Cluster is degraded'')
         else if allHealthy then (PhaseHealthy, ''Ready'')
         else (PhaseProgressing, ''Cluster is progressing''))"

subsection \<open>The pass\<close>

definition ready_gateways :: "cell_child list \<Rightarrow> int" where
  "ready_gateways cells = foldl (\<lambda>n c. if current c then wrap32 (n + cd_gateway_ready c) else n) 0 cells"

definition status_from ::
  "status_env \<Rightarrow> cluster_object \<Rightarrow> cluster_status \<Rightarrow> bool \<Rightarrow> cell_child list \<Rightarrow> group_child list \<Rightarrow> child list
   \<Rightarrow> service option \<Rightarrow> service option \<Rightarrow> int option \<Rightarrow> cluster_status" where
  "status_from env co old wantsManaged cells groups servers gwSvc awSvc awReady =
     (let c = cb_cluster co;
          tgs = filter (\<lambda>g. \<not> tgDraining g) groups;
          (phase, message) = cluster_phase co wantsManaged cells tgs (counted_servers co wantsManaged servers);
          summaries = cell_summaries cells;
          available = \<lparr>c_type = ''Available'',
             c_status = (if list_all (\<lambda>(_, ready, _). ready) summaries \<and> summaries \<noteq> [] then ConditionTrue else ConditionFalse),
             c_observed_generation = 0, c_last_transition = sx_now env, c_reason = ''AggregatedStatus'',
             c_message = ''Aggregation of cell availability''\<rparr>;
          gwEnabled = external_enabled (mc_external_gateway c);
          gwEndpoint = extractExternalEndpoint gwSvc;
          awEnabled = external_enabled (mc_external_admin_web c);
          awEndpoint = extractExternalEndpoint awSvc;
          conditions = sx_set env (cu_conditions old) available;
          conditions = put_condition env ''GatewayExternalReady''
             (computeGatewayCondition (sx_now env) gwEnabled gwEndpoint (ready_gateways cells) (cb_generation co)) conditions;
          conditions = put_condition env ''AdminWebExternalReady''
             (computeAdminWebCondition (sx_now env) awEnabled awEndpoint (case awReady of None \<Rightarrow> 0 | Some n \<Rightarrow> n) (cb_generation co)) conditions
      in \<lparr>cu_phase = phase, cu_message = message, cu_observed_generation = cb_generation co, cu_cells = summaries,
          cu_databases = foldl add_shards [] tgs,
          cu_initialized_at = (if phase = PhaseHealthy \<and> cu_initialized_at old = None then Some (sx_now env) else cu_initialized_at old),
          cu_gateway = (if gwEnabled then Some gwEndpoint else None), cu_admin_web = (if awEnabled then Some awEndpoint else None),
          cu_conditions = conditions\<rparr>)"

definition read_list :: "string \<Rightarrow> (api_error + 'a) \<Rightarrow> status_error + 'a" where
  "read_list what r = map_sum (StatusReadFailed what) id r"

text \<open>The status as computed, and the error of its write; a phase that changes is also an event.\<close>

definition updateStatus :: "status_env \<Rightarrow> cluster_object \<Rightarrow> cluster_status \<Rightarrow> status_reads \<Rightarrow> status_error + cluster_status \<times> status_error option" where
  "updateStatus env co old reads =
     bind_err (map_sum StatusResolveFailed id (ResolveGlobalTopo (sx_env env) (cb_cluster co))) (\<lambda>topo.
     bind_err (read_list ''cells'' (sq_cells reads)) (\<lambda>cells.
     bind_err (read_list ''tablegroups'' (sq_groups reads)) (\<lambda>groups.
     bind_err (read_list ''toposervers'' (sq_servers reads)) (\<lambda>servers.
     bind_err (optional_read ''multigateway service'' (external_enabled (mc_external_gateway (cb_cluster co))) (sq_gateway_service reads)) (\<lambda>gwSvc.
     bind_err (optional_read ''multiadmin-web service'' (external_enabled (mc_external_admin_web (cb_cluster co))) (sq_admin_service reads)) (\<lambda>awSvc.
     bind_err (optional_read ''multiadmin-web deployment'' (external_enabled (mc_external_admin_web (cb_cluster co))) (sq_admin_ready reads)) (\<lambda>awReady.
     Inr (status_from env co old (gt_etcd topo \<noteq> None) cells groups servers gwSvc awSvc awReady,
          map_option StatusPatchFailed (sq_patch reads)))))))))"

subsection \<open>What the phase says\<close>

text \<open>The children the phase is about: no table group that drains, and not the server that is being retired.\<close>

definition retiring :: "cluster_object \<Rightarrow> global_topo \<Rightarrow> child \<Rightarrow> bool" where
  "retiring co topo ts \<longleftrightarrow> gt_etcd topo = None \<and> ch_name ts = global_topo_name (cb_cluster co) \<and> ch_controller ts = Some (cb_uid co)"

lemma not_both: "healthy_child c \<Longrightarrow> \<not> degraded_child c"
  by (simp add: healthy_child_def degraded_child_def)

lemma bind_err_Inr: "bind_err r f = Inr y \<longleftrightarrow> (\<exists>x. r = Inr x \<and> f x = Inr y)"
  by (cases r) (simp_all add: bind_err_def)

lemma status_from_fields:
  assumes "st = status_from env co old w cells groups servers g a r"
  shows "cu_phase st = fst (cluster_phase co w cells (filter (\<lambda>g. \<not> tgDraining g) groups) (counted_servers co w servers))"
    and "cu_observed_generation st = cb_generation co"
    and "cu_initialized_at st = (if cu_phase st = PhaseHealthy \<and> cu_initialized_at old = None then Some (sx_now env) else cu_initialized_at old)"
  unfolding assms status_from_def Let_def by (simp_all only: prod.case_eq_if cluster_status.simps)

lemma updateStatus_from:
  assumes "updateStatus env co old reads = Inr (st, e)" and "ResolveGlobalTopo (sx_env env) (cb_cluster co) = Inr topo"
    and "sq_cells reads = Inr cells" and "sq_groups reads = Inr groups" and "sq_servers reads = Inr servers"
  shows "\<exists>g a r. st = status_from env co old (gt_etcd topo \<noteq> None) cells groups servers g a r"
  using assms(1) unfolding updateStatus_def assms(2-5) bind_err_Inr read_list_def by auto

lemma cluster_phase_iff:
  "fst (cluster_phase co w cells tgs servers) = PhaseHealthy \<longleftrightarrow>
     list_all healthy_child cells \<and> list_all healthy_child tgs \<and> list_all healthy_child servers \<and> \<not> missing_children co w cells tgs servers"
  "fst (cluster_phase co w cells tgs servers) = PhaseDegraded \<longleftrightarrow>
     list_ex degraded_child cells \<or> list_ex degraded_child tgs \<or> list_ex degraded_child servers"
  by (auto simp: cluster_phase_def Let_def list_all_iff list_ex_iff dest: not_both)

text \<open>
  C23: A status that could be computed says \<^verbatim>\<open>Healthy\<close> exactly when every cell listed, every table group listed that is not
  draining, and every topology server listed but the one being retired reports Healthy at its current generation, and
  every cell and table group of the specification, and the managed global topology server when one is wanted, is among
  them; and \<^verbatim>\<open>Degraded\<close> exactly when one of them reports Degraded at its current generation. The time of the first
  \<^verbatim>\<open>Healthy\<close> is kept from then on.
\<close>

theorem updateStatus_phase_iff:
  assumes "updateStatus env co old reads = Inr (st, e)" and "ResolveGlobalTopo (sx_env env) (cb_cluster co) = Inr topo"
    and "sq_cells reads = Inr cells" and "sq_groups reads = Inr groups" and "sq_servers reads = Inr servers"
  shows "(cu_phase st = PhaseHealthy \<longleftrightarrow>
      (\<forall>c\<in>set cells. healthy_child c) \<and> (\<forall>g\<in>set groups. tgDraining g \<or> healthy_child g) \<and> (\<forall>ts\<in>set servers. retiring co topo ts \<or> healthy_child ts)
      \<and> (\<forall>cell\<in>set (mc_cells (cb_cluster co)). \<exists>c\<in>set cells. cd_cell c = cl_name cell)
      \<and> (\<forall>(db, tg)\<in>set (spec_groups (cb_cluster co)). \<exists>g\<in>set groups. \<not> tgDraining g \<and> gd_database g = db_name db \<and> gd_group g = tg_name tg)
      \<and> (gt_etcd topo \<noteq> None \<longrightarrow> (\<exists>ts\<in>set servers. ch_name ts = global_topo_name (cb_cluster co))))
    \<and> (cu_phase st = PhaseDegraded \<longleftrightarrow>
      (\<exists>c\<in>set cells. degraded_child c) \<or> (\<exists>g\<in>set groups. \<not> tgDraining g \<and> degraded_child g)
      \<or> (\<exists>ts\<in>set servers. \<not> retiring co topo ts \<and> degraded_child ts))
    \<and> cu_observed_generation st = cb_generation co
    \<and> (cu_initialized_at old \<noteq> None \<longrightarrow> cu_initialized_at st = cu_initialized_at old)
    \<and> (cu_phase st = PhaseHealthy \<longrightarrow> cu_initialized_at st \<noteq> None)"
proof -
  let ?w = "gt_etcd topo \<noteq> None" and ?tgs = "filter (\<lambda>g. \<not> tgDraining g) groups"
  obtain g a r where st: "st = status_from env co old ?w cells groups servers g a r" using updateStatus_from [OF assms] by blast
  note ph = status_from_fields [OF st]
  have servers: "ts \<in> set (counted_servers co ?w servers) \<longleftrightarrow> ts \<in> set servers \<and> \<not> retiring co topo ts" for ts
    by (auto simp: counted_servers_def retiring_def)
  have name: "(global_topo_name (cb_cluster co) \<notin> set (map ch_name (counted_servers co ?w servers)))
      = (\<not> (\<exists>ts\<in>set servers. ch_name ts = global_topo_name (cb_cluster co)))" if ?w
    using that by (auto simp: counted_servers_def image_iff)
  have missing: "\<not> missing_children co ?w cells ?tgs (counted_servers co ?w servers) \<longleftrightarrow>
      (\<forall>cell\<in>set (mc_cells (cb_cluster co)). \<exists>c\<in>set cells. cd_cell c = cl_name cell)
      \<and> (\<forall>(db, tg)\<in>set (spec_groups (cb_cluster co)). \<exists>g\<in>set groups. \<not> tgDraining g \<and> gd_database g = db_name db \<and> gd_group g = tg_name tg)
      \<and> (?w \<longrightarrow> (\<exists>ts\<in>set servers. ch_name ts = global_topo_name (cb_cluster co)))"
  proof -
    have "\<not> list_ex (\<lambda>cell. cl_name cell \<notin> set (map cd_cell cells)) (mc_cells (cb_cluster co))
        \<longleftrightarrow> (\<forall>cell\<in>set (mc_cells (cb_cluster co)). \<exists>c\<in>set cells. cd_cell c = cl_name cell)"
      unfolding list_ex_iff set_map by (auto simp: image_iff eq_commute)
    moreover have "\<not> list_ex (\<lambda>(db, tg). (db_name db, tg_name tg) \<notin> set (map (\<lambda>g. (gd_database g, gd_group g)) ?tgs)) (spec_groups (cb_cluster co))
        \<longleftrightarrow> (\<forall>(db, tg)\<in>set (spec_groups (cb_cluster co)). \<exists>g\<in>set groups. \<not> tgDraining g \<and> gd_database g = db_name db \<and> gd_group g = tg_name tg)"
      (is "_ \<longleftrightarrow> ?all")
    proof -
      have m: "(db_name db, tg_name tg) \<in> set (map (\<lambda>g. (gd_database g, gd_group g)) ?tgs)
          \<longleftrightarrow> (\<exists>g\<in>set groups. \<not> tgDraining g \<and> gd_database g = db_name db \<and> gd_group g = tg_name tg)" for db tg
        unfolding set_map set_filter image_iff by (simp add: eq_commute) blast
      show ?thesis unfolding list_ex_iff Bex_def Ball_def split_paired_Ex split_paired_All prod.case m by blast
    qed
    ultimately show ?thesis unfolding missing_children_def using name by blast
  qed
  have "(\<forall>g\<in>set ?tgs. healthy_child g) \<longleftrightarrow> (\<forall>g\<in>set groups. tgDraining g \<or> healthy_child g)"
    "(\<exists>g\<in>set ?tgs. degraded_child g) \<longleftrightarrow> (\<exists>g\<in>set groups. \<not> tgDraining g \<and> degraded_child g)"
    "(\<forall>ts\<in>set (counted_servers co ?w servers). healthy_child ts) \<longleftrightarrow> (\<forall>ts\<in>set servers. retiring co topo ts \<or> healthy_child ts)"
    "(\<exists>ts\<in>set (counted_servers co ?w servers). degraded_child ts) \<longleftrightarrow> (\<exists>ts\<in>set servers. \<not> retiring co topo ts \<and> degraded_child ts)"
    using servers by (auto simp del: not_None_eq)
  note split = this
  have iff: "cu_phase st = PhaseHealthy \<longleftrightarrow> list_all healthy_child cells \<and> list_all healthy_child ?tgs
      \<and> list_all healthy_child (counted_servers co ?w servers) \<and> \<not> missing_children co ?w cells ?tgs (counted_servers co ?w servers)"
    "cu_phase st = PhaseDegraded \<longleftrightarrow> list_ex degraded_child cells \<or> list_ex degraded_child ?tgs
      \<or> list_ex degraded_child (counted_servers co ?w servers)"
    unfolding ph(1) by (rule cluster_phase_iff)+
  have "cu_initialized_at old \<noteq> None \<longrightarrow> cu_initialized_at st = cu_initialized_at old"
    "cu_phase st = PhaseHealthy \<longrightarrow> cu_initialized_at st \<noteq> None" using ph(3) by simp_all
  then show ?thesis using ph(2) iff [unfolded missing list_all_iff list_ex_iff split] by blast
qed

subsection \<open>An instance\<close>

definition cell_child_w :: cell_child where
  "cell_child_w = \<lparr>ch_name = ''c-z1'', ch_controller = Some ''u1'', ch_generation = 2, ch_observed_generation = 2, ch_phase = PhaseHealthy,
     ch_conditions = [], ch_pending = [], ch_deletion = None, cd_cell = ''z1'', cd_gateway_replicas = 1, cd_gateway_ready = 1\<rparr>"

definition old_server_w :: child where
  "old_server_w = \<lparr>ch_name = ''c-global-topo'', ch_controller = Some ''u1'', ch_generation = 1, ch_observed_generation = 1,
     ch_phase = PhaseDegraded, ch_conditions = [], ch_pending = [], ch_deletion = None\<rparr>"

definition status_reads_w :: status_reads where
  "status_reads_w = \<lparr>sq_cells = Inr [cell_child_w], sq_groups = Inr [], sq_servers = Inr [old_server_w], sq_gateway_service = Inl NotFound,
     sq_admin_service = Inl NotFound, sq_admin_ready = Inl NotFound, sq_patch = None\<rparr>"

definition status_env_w :: status_env where
  "status_env_w = \<lparr>sx_env = ve_env valid_env, sx_now = 9, sx_set = (\<lambda>cs c. [c]), sx_remove = (\<lambda>cs t. cs)\<rparr>"

definition blank_status :: cluster_status where
  "blank_status = \<lparr>cu_phase = PhaseUnset, cu_message = [], cu_observed_generation = 0, cu_cells = [], cu_databases = [], cu_initialized_at = None,
     cu_gateway = None, cu_admin_web = None, cu_conditions = []\<rparr>"

lemma status_w: "case updateStatus status_env_w moved_w blank_status status_reads_w of Inl _ \<Rightarrow> False | Inr (st, e) \<Rightarrow> cu_phase st = PhaseHealthy"
  by code_simp

text \<open>The retired server is degraded, and the cluster is Healthy for the first time.\<close>

theorem updateStatus_phase_iff_witness:
  "\<exists>st e. updateStatus status_env_w moved_w blank_status status_reads_w = Inr (st, e)
     \<and> healthy_child cell_child_w \<and> cu_observed_generation st = 4 \<and> \<not> cu_initialized_at st = None"
proof -
  obtain st e where u: "updateStatus status_env_w moved_w blank_status status_reads_w = Inr (st, e)" "cu_phase st = PhaseHealthy"
    using status_w by (auto split: sum.splits)
  obtain topo where t: "ResolveGlobalTopo (sx_env status_env_w) (cb_cluster moved_w) = Inr topo"
    using external_resolved_w by (auto simp: status_env_w_def moved_w_def split: sum.splits)
  have "sq_cells status_reads_w = Inr [cell_child_w]" "sq_groups status_reads_w = Inr []" "sq_servers status_reads_w = Inr [old_server_w]"
    by (simp_all add: status_reads_w_def)
  from updateStatus_phase_iff [OF u(1) t this] u show ?thesis by (simp add: moved_w_def)
qed

end
