(* ===== verification/Template_Usage.thy ===== *)
theory Template_Usage
  imports Cluster_Validation
begin

text \<open>
  Which templates a cluster uses, as four places of the operator each work it out: the admission of a template's deletion
  (\<^verbatim>\<open>isTemplateInUse\<close>), the labels and the status the cluster controller keeps (\<^verbatim>\<open>collectTrackingLabels\<close>,
  \<^verbatim>\<open>collectResolvedTemplates\<close>) and its watch on templates (\<^verbatim>\<open>enqueueRequestsFromTemplate\<close>). They are shown to agree on the
  references that are written down; none of them knows the fallback template a cluster uses without naming it.
\<close>

subsection \<open>Templates and the references of a cluster\<close>

datatype template_object =
    CoreObject string string core_template
  | CellObject string string cell_template
  | ShardObject string string shard_template

primrec object_name :: "template_object \<Rightarrow> string" where
  "object_name (CoreObject n ns t) = n"
| "object_name (CellObject n ns t) = n"
| "object_name (ShardObject n ns t) = n"

primrec object_namespace :: "template_object \<Rightarrow> string" where
  "object_namespace (CoreObject n ns t) = ns"
| "object_namespace (CellObject n ns t) = ns"
| "object_namespace (ShardObject n ns t) = ns"

primrec templateKindFromObject :: "template_object \<Rightarrow> string" where
  "templateKindFromObject (CoreObject n ns t) = ''CoreTemplate''"
| "templateKindFromObject (CellObject n ns t) = ''CellTemplate''"
| "templateKindFromObject (ShardObject n ns t) = ''ShardTemplate''"

definition topo_template :: "cluster \<Rightarrow> string" where
  "topo_template c = (case mc_global_topo c of None \<Rightarrow> [] | Some g \<Rightarrow> gt_template g)"

definition isTemplateInUse :: "string \<Rightarrow> cluster \<Rightarrow> string \<Rightarrow> bool" where
  "isTemplateInUse kind c name =
     (if kind = ''CoreTemplate''
      then mc_core_template c = name
        \<or> (case mc_multiadmin c of None \<Rightarrow> False | Some a \<Rightarrow> ad_template a = name)
        \<or> (case mc_global_topo c of None \<Rightarrow> False | Some g \<Rightarrow> gt_template g = name)
        \<or> (case mc_multiadmin_web c of None \<Rightarrow> False | Some a \<Rightarrow> ad_template a = name)
      else if kind = ''CellTemplate''
      then mc_cell_template c = name \<or> list_ex (\<lambda>cell. cl_template cell = name) (mc_cells c)
      else if kind = ''ShardTemplate''
      then mc_shard_template c = name
        \<or> list_ex (\<lambda>db. list_ex (\<lambda>tg. list_ex (\<lambda>shard. sc_template shard = name) (tg_shards tg)) (db_table_groups db)) (mc_databases c)
      else False)"

subsection \<open>What the controller records\<close>

definition LabelUsesCoreTemplate :: string where "LabelUsesCoreTemplate = ''multigres.com/uses-core-template''"
definition LabelUsesCellTemplate :: string where "LabelUsesCellTemplate = ''multigres.com/uses-cell-template''"
definition LabelUsesShardTemplate :: string where "LabelUsesShardTemplate = ''multigres.com/uses-shard-template''"

lemma label_distinct [simp]:
  "LabelUsesCoreTemplate \<noteq> LabelUsesCellTemplate" "LabelUsesCoreTemplate \<noteq> LabelUsesShardTemplate"
  "LabelUsesCellTemplate \<noteq> LabelUsesCoreTemplate" "LabelUsesCellTemplate \<noteq> LabelUsesShardTemplate"
  "LabelUsesShardTemplate \<noteq> LabelUsesCoreTemplate" "LabelUsesShardTemplate \<noteq> LabelUsesCellTemplate"
  by (simp_all add: LabelUsesCoreTemplate_def LabelUsesCellTemplate_def LabelUsesShardTemplate_def)

definition collectTrackingLabels :: "cluster \<Rightarrow> labels" where
  "collectTrackingLabels c =
     (let usesCore = (mc_core_template c \<noteq> [] \<or> topo_template c \<noteq> []
            \<or> admin_template (mc_multiadmin c) \<noteq> [] \<or> admin_template (mc_multiadmin_web c) \<noteq> []);
          usesCell = (mc_cell_template c \<noteq> [] \<or> list_ex (\<lambda>cell. cl_template cell \<noteq> []) (mc_cells c));
          usesShard = (mc_shard_template c \<noteq> []
            \<or> list_ex (\<lambda>db. list_ex (\<lambda>tg. list_ex (\<lambda>s. sc_template s \<noteq> []) (tg_shards tg)) (db_table_groups db)) (mc_databases c));
          l = (if usesCore then [LabelUsesCoreTemplate \<mapsto> ''true''] else Map.empty);
          l = (if usesCell then l(LabelUsesCellTemplate \<mapsto> ''true'') else l)
      in if usesShard then l(LabelUsesShardTemplate \<mapsto> ''true'') else l)"

text \<open>The loop over the three keys that brings the labels of the cluster in line; the second component is \<^verbatim>\<open>labelsChanged\<close>.\<close>

definition track_key :: "labels \<Rightarrow> string \<Rightarrow> labels \<times> bool \<Rightarrow> labels \<times> bool" where
  "track_key want key = (\<lambda>(l, changed).
     case want key of
       Some v \<Rightarrow> if str_at l key \<noteq> v then (l(key \<mapsto> v), True) else (l, changed)
     | None \<Rightarrow> if l key \<noteq> None then (l(key := None), True) else (l, changed))"

definition track_labels :: "cluster \<Rightarrow> labels \<Rightarrow> labels \<times> bool" where
  "track_labels c l = fold (track_key (collectTrackingLabels c))
     [LabelUsesCoreTemplate, LabelUsesCellTemplate, LabelUsesShardTemplate] (l, False)"

record resolved_templates =
  rt_core :: "string list"
  rt_cell :: "string list"
  rt_shard :: "string list"

text \<open>The keys of a Go set of references, sorted.\<close>

definition reference_set :: "string list \<Rightarrow> string list" where
  "reference_set refs = sorted_list_of_set (set (filter (\<lambda>ref. ref \<noteq> []) refs))"

definition core_references :: "cluster \<Rightarrow> string list" where
  "core_references c = [mc_core_template c, topo_template c, admin_template (mc_multiadmin c), admin_template (mc_multiadmin_web c)]"

definition cell_references :: "cluster \<Rightarrow> string list" where
  "cell_references c = mc_cell_template c # map cl_template (mc_cells c)"

definition shard_references :: "cluster \<Rightarrow> string list" where
  "shard_references c = mc_shard_template c # map sc_template (cluster_shards c)"

definition collectResolvedTemplates :: "cluster \<Rightarrow> resolved_templates option" where
  "collectResolvedTemplates c =
     (let rt = \<lparr>rt_core = reference_set (core_references c), rt_cell = reference_set (cell_references c),
                rt_shard = reference_set (shard_references c)\<rparr>
      in if length (rt_core rt) + length (rt_cell rt) + length (rt_shard rt) = 0 then None else Some rt)"

definition referencesTemplate :: "resolved_templates option \<Rightarrow> string \<Rightarrow> string \<Rightarrow> bool" where
  "referencesTemplate rt kind name =
     (case rt of
        None \<Rightarrow> True
      | Some t \<Rightarrow>
          if kind = ''CoreTemplate'' then name \<in> set (rt_core t)
          else if kind = ''CellTemplate'' then name \<in> set (rt_cell t)
          else if kind = ''ShardTemplate'' then name \<in> set (rt_shard t)
          else False)"

record watched_cluster =
  wc_name :: string
  wc_namespace :: string
  wc_resolved :: "resolved_templates option"

definition enqueueRequestsFromTemplate ::
  "(string \<Rightarrow> api_error + watched_cluster list) \<Rightarrow> template_object \<Rightarrow> (string \<times> string) list" where
  "enqueueRequestsFromTemplate list o' =
     (case list (object_namespace o') of
        Inl _ \<Rightarrow> []
      | Inr clusters \<Rightarrow>
          map (\<lambda>c. (wc_namespace c, wc_name c))
            (filter (\<lambda>c. referencesTemplate (wc_resolved c) (templateKindFromObject o') (object_name o')) clusters))"

subsection \<open>The four agree on written references\<close>

lemma set_reference_set [simp]: "set (reference_set refs) = set refs - {[]}"
  by (auto simp: reference_set_def)

lemma reference_set_Nil [simp]: "reference_set refs = [] \<longleftrightarrow> set refs \<subseteq> {[]}"
  by (simp flip: set_empty)

lemma admin_template_in:
  "name \<noteq> [] \<Longrightarrow> admin_template a = name \<longleftrightarrow> (case a of None \<Rightarrow> False | Some x \<Rightarrow> ad_template x = name)"
  by (auto simp: admin_template_def split: option.split)

lemma topo_template_in:
  "name \<noteq> [] \<Longrightarrow> topo_template c = name \<longleftrightarrow> (case mc_global_topo c of None \<Rightarrow> False | Some g \<Rightarrow> gt_template g = name)"
  by (auto simp: topo_template_def split: option.split)

definition kind_references :: "string \<Rightarrow> cluster \<Rightarrow> string list" where
  "kind_references kind c =
     (if kind = ''CoreTemplate'' then core_references c else if kind = ''CellTemplate'' then cell_references c
      else if kind = ''ShardTemplate'' then shard_references c else [])"

lemma kind_distinct:
  "''CellTemplate'' \<noteq> ''CoreTemplate''" "''ShardTemplate'' \<noteq> ''CoreTemplate''" "''ShardTemplate'' \<noteq> ''CellTemplate''"
  by simp_all

lemma shards_ex:
  "list_ex (\<lambda>db. list_ex (\<lambda>tg. list_ex P (tg_shards tg)) (db_table_groups db)) (mc_databases c) \<longleftrightarrow> (\<exists>s\<in>set (cluster_shards c). P s)"
  by (auto simp: cluster_shards_def list_ex_iff)

lemma in_use_references:
  assumes "name \<noteq> []"
  shows "isTemplateInUse kind c name \<longleftrightarrow> name \<in> set (kind_references kind c)"
proof -
  have "isTemplateInUse ''CoreTemplate'' c name \<longleftrightarrow> name \<in> set (core_references c)"
    unfolding isTemplateInUse_def core_references_def using assms
    by (auto simp flip: admin_template_in topo_template_in)
  moreover have "isTemplateInUse ''CellTemplate'' c name \<longleftrightarrow> name \<in> set (cell_references c)"
    unfolding isTemplateInUse_def cell_references_def using kind_distinct by (simp add: list_ex_iff image_iff eq_commute [of name])
  moreover have "isTemplateInUse ''ShardTemplate'' c name \<longleftrightarrow> name \<in> set (shard_references c)"
    unfolding isTemplateInUse_def shard_references_def shards_ex using kind_distinct by (simp add: image_iff eq_commute [of name])
  moreover have "kind \<notin> {''CoreTemplate'', ''CellTemplate'', ''ShardTemplate''} \<Longrightarrow> \<not> isTemplateInUse kind c name"
    by (simp add: isTemplateInUse_def)
  ultimately show ?thesis unfolding kind_references_def
    by (cases "kind = ''CoreTemplate''"; cases "kind = ''CellTemplate''"; cases "kind = ''ShardTemplate''"; simp)
qed

lemma references_recorded:
  assumes "collectResolvedTemplates c = Some rt" and "name \<noteq> []"
  shows "referencesTemplate (Some rt) kind name \<longleftrightarrow> name \<in> set (kind_references kind c)"
proof -
  from assms(1) have "rt = \<lparr>rt_core = reference_set (core_references c), rt_cell = reference_set (cell_references c),
      rt_shard = reference_set (shard_references c)\<rparr>"
    by (simp only: collectResolvedTemplates_def Let_def option.inject split: if_splits) simp
  then show ?thesis using assms(2) unfolding referencesTemplate_def kind_references_def
    by (cases "kind = ''CoreTemplate''"; cases "kind = ''CellTemplate''"; cases "kind = ''ShardTemplate''"; simp)
qed

lemma label_references:
  "collectTrackingLabels c LabelUsesCoreTemplate = Some ''true'' \<longleftrightarrow> \<not> set (core_references c) \<subseteq> {[]}"
  "collectTrackingLabels c LabelUsesCellTemplate = Some ''true'' \<longleftrightarrow> \<not> set (cell_references c) \<subseteq> {[]}"
  "collectTrackingLabels c LabelUsesShardTemplate = Some ''true'' \<longleftrightarrow> \<not> set (shard_references c) \<subseteq> {[]}"
  unfolding collectTrackingLabels_def Let_def shards_ex
  by (simp_all add: list_ex_iff core_references_def cell_references_def shard_references_def image_subset_iff)

lemma nothing_recorded:
  "collectResolvedTemplates c = None \<longleftrightarrow> set (core_references c) \<subseteq> {[]} \<and> set (cell_references c) \<subseteq> {[]} \<and> set (shard_references c) \<subseteq> {[]}"
  by (simp add: collectResolvedTemplates_def)

text \<open>The label of a kind, and after the controller patched the cluster, what the cluster carries.\<close>

definition uses_label :: "string \<Rightarrow> string" where
  "uses_label kind = (if kind = ''CoreTemplate'' then LabelUsesCoreTemplate else if kind = ''CellTemplate'' then LabelUsesCellTemplate
     else LabelUsesShardTemplate)"

lemma tracking_values: "collectTrackingLabels c k = None \<or> collectTrackingLabels c k = Some ''true''"
  by (simp add: collectTrackingLabels_def Let_def)

lemma track_key_fst:
  assumes "want key = None \<or> want key = Some v" and "v \<noteq> []"
  shows "fst (track_key want key (l, ch)) = l(key := want key)"
  using assms by (auto simp: track_key_def str_at_def fun_eq_iff split: option.splits)

lemma track_labels_fst:
  "fst (track_labels c l) = l(LabelUsesCoreTemplate := collectTrackingLabels c LabelUsesCoreTemplate,
     LabelUsesCellTemplate := collectTrackingLabels c LabelUsesCellTemplate,
     LabelUsesShardTemplate := collectTrackingLabels c LabelUsesShardTemplate)"
proof -
  have step: "fst (track_key (collectTrackingLabels c) k x) = (fst x)(k := collectTrackingLabels c k)" for k x
    using track_key_fst [OF tracking_values, where l = "fst x" and ch = "snd x"] by simp
  show ?thesis by (simp add: track_labels_def step)
qed

text \<open>
  C28: the three records of the templates a cluster uses agree. For a template with a name, what blocks its deletion is
  what the status lists (unless the status lists nothing, when every template requeues the cluster), and the cluster
  carries the label of a kind exactly if some template of that kind blocks.
\<close>

theorem template_usage_agrees:
  assumes "kind \<in> {''CoreTemplate'', ''CellTemplate'', ''ShardTemplate''}"
  shows "(\<forall>name. name \<noteq> [] \<longrightarrow>
            referencesTemplate (collectResolvedTemplates c) kind name
              \<longleftrightarrow> collectResolvedTemplates c = None \<or> isTemplateInUse kind c name)
       \<and> ((fst (track_labels c l)) (uses_label kind) = Some ''true'' \<longleftrightarrow> (\<exists>name. name \<noteq> [] \<and> isTemplateInUse kind c name))"
proof (intro conjI allI impI)
  fix name :: string
  assume n: "name \<noteq> []"
  show "referencesTemplate (collectResolvedTemplates c) kind name
          \<longleftrightarrow> collectResolvedTemplates c = None \<or> isTemplateInUse kind c name"
  proof (cases "collectResolvedTemplates c")
    case None then show ?thesis by (simp add: referencesTemplate_def)
  next
    case (Some rt)
    then show ?thesis using references_recorded [OF Some n] in_use_references [OF n] by simp
  qed
next
  have used: "(\<exists>name. name \<noteq> [] \<and> isTemplateInUse kind c name) \<longleftrightarrow> \<not> set (kind_references kind c) \<subseteq> {[]}"
    using in_use_references by blast
  from assms show "(fst (track_labels c l)) (uses_label kind) = Some ''true'' \<longleftrightarrow> (\<exists>name. name \<noteq> [] \<and> isTemplateInUse kind c name)"
    unfolding used track_labels_fst
    by (elim insertE emptyE) (simp_all add: uses_label_def kind_references_def label_references)
qed

theorem template_usage_agrees_witness:
  "(fst (track_labels gold_cluster Map.empty)) LabelUsesShardTemplate = Some ''true''"
proof -
  have "isTemplateInUse ''ShardTemplate'' gold_cluster ''gold''" by code_simp
  then show ?thesis using template_usage_agrees [of "''ShardTemplate''" gold_cluster Map.empty] by (auto simp: uses_label_def)
qed

subsection \<open>The fallback is not among them\<close>

definition own_cluster :: cluster where
  "own_cluster = full_cluster\<lparr>mc_core_template := ''platform''\<rparr>"

definition own_watch :: "string \<Rightarrow> api_error + watched_cluster list" where
  "own_watch ns = Inr [\<lparr>wc_name = mc_name own_cluster, wc_namespace = mc_namespace own_cluster,
     wc_resolved = collectResolvedTemplates own_cluster\<rparr>]"

definition default_shard_template :: shard_template where
  "default_shard_template = empty_template\<lparr>ts_pools := fmupd ''main'' (empty_pool\<lparr>ps_type := ''readWrite''\<rparr>) fmempty\<rparr>"

definition resolved_pool_names :: "shard_template template_getter \<Rightarrow> shard_config \<Rightarrow> resolve_error + string list" where
  "resolved_pool_names get s = map_sum id (map fst \<circ> pool_list \<circ> rs_pools) (resolve_shard get s demo_options)"

text \<open>
  the watch on templates misses the fallback. When the fallback template is created, no request is made for a cluster
  that names some template but none for its shards, although its shards resolve to other pools from then on.
\<close>

theorem fallback_change_not_enqueued:
  "enqueueRequestsFromTemplate own_watch (ShardObject FallbackTemplate ''team'' default_shard_template) = []
   \<and> each_shard own_cluster = [(demo_database, demo_group, demo_shard)]
   \<and> resolved_pool_names (\<lambda>_. Inl NotFound) demo_shard = Inr [''default'']
   \<and> resolved_pool_names (\<lambda>n. if n = FallbackTemplate then Inr default_shard_template else Inl NotFound) demo_shard = Inr [''main'']"
proof (intro conjI)
  show "enqueueRequestsFromTemplate own_watch (ShardObject FallbackTemplate ''team'' default_shard_template) = []" by code_simp
  show "each_shard own_cluster = [(demo_database, demo_group, demo_shard)]"
    using full_each by (simp add: own_cluster_def each_shard_def)
  show "resolved_pool_names (\<lambda>_. Inl NotFound) demo_shard = Inr [''default'']" by code_simp
  show "resolved_pool_names (\<lambda>n. if n = FallbackTemplate then Inr default_shard_template else Inl NotFound) demo_shard = Inr [''main'']"
    by code_simp
qed

end
