(* ===== verification/Admission.thy ===== *)
theory Admission
  imports Template_Usage Pg_Catalog
begin

text \<open>
  The validating webhooks (\<^verbatim>\<open>pkg/webhook/handlers/validator.go\<close>, \<^verbatim>\<open>lite_identity.go\<close>): of clusters, of templates and of the
  resources the operator manages itself. The handlers are typed here, so their branches for an object of another type are
  left out. A resolver with a template put into its cache is an environment whose reads of that name answer with it
  (\<^verbatim>\<open>seeded_lookup\<close>). Quantity parsing and the semantic comparison of specifications are arguments.
\<close>

subsection \<open>What the webhooks read and answer\<close>

record listed_cluster =
  lc_cluster :: cluster
  lc_deletion :: "gotime option"

record admission_env =
  ad_validate :: validate_env
  ad_clusters :: "string \<Rightarrow> api_error + listed_cluster list"
  ad_parse_quantity :: "string \<Rightarrow> string + int"
  ad_same_cell :: "cell_template \<Rightarrow> cell_template \<Rightarrow> bool"
  ad_same_shard :: "shard_template \<Rightarrow> shard_template \<Rightarrow> bool"

datatype admission_error =
    Invalid validation_error
  | ConfigInvalid string string string "guc_error list" | TemplateConfigInvalid "guc_error list" | TemplatePoolName string
  | ModeImmutable | LiteShape | LiteUnresolved resolve_error | LitePools | LitePoolCells | LiteIdentityChanged string string
  | StorageShrunk string string string | EtcdReplicasChanged int int
  | ListClustersFailed api_error | TemplateInUse string string string
  | LiteConsumer string string admission_error | ConsumersBroken string admission_error
  | NoAdmissionRequest string | DirectModification string

subsection \<open>The identity of a lite cluster\<close>

definition slash :: "string list \<Rightarrow> string" where
  "slash parts = concat (tl (concat (map (\<lambda>p. [''/'', p]) parts)))"

definition lite_options :: "string \<Rightarrow> resolve_options" where
  "lite_options cell = \<lparr>ro_cells = [cell], ro_backup = None, ro_materialize = True, ro_mode = ModeLite\<rparr>"

definition shard_identity :: "string list \<Rightarrow> resolved_shard \<Rightarrow> admission_error + string" where
  "shard_identity names resolved =
     (case pool_list (rs_pools resolved) of
        [(name, pool)] \<Rightarrow>
          (case ps_cells pool of
             [cell] \<Rightarrow> Inr (slash (names @ [name, cell]))
           | _ \<Rightarrow> Inl LitePoolCells)
      | _ \<Rightarrow> Inl LitePools)"

definition resolvedLiteIdentity :: "shard_template template_getter \<Rightarrow> cluster \<Rightarrow> admission_error + string" where
  "resolvedLiteIdentity get c =
     (case (mc_databases c, mc_cells c) of
        ([db], [cell]) \<Rightarrow>
          (case db_table_groups db of
             [tg] \<Rightarrow>
               (case tg_shards tg of
                  [shard] \<Rightarrow>
                    (case resolve_shard get (shard\<lparr>sc_template := or_text (mc_shard_template c) (sc_template shard)\<rparr>)
                            (lite_options (cl_name cell)) of
                       Inl err \<Rightarrow> Inl (LiteUnresolved err)
                     | Inr resolved \<Rightarrow> shard_identity [db_name db, tg_name tg, sc_name shard] resolved)
                | _ \<Rightarrow> Inl LiteShape)
           | _ \<Rightarrow> Inl LiteShape)
      | _ \<Rightarrow> Inl LiteShape)"

definition validateLiteIdentityUpdate ::
  "shard_template template_getter \<Rightarrow> shard_template template_getter \<Rightarrow> cluster \<Rightarrow> cluster \<Rightarrow> admission_error option" where
  "validateLiteIdentityUpdate oldGet newGet oldCluster newCluster =
     (case resolvedLiteIdentity oldGet oldCluster of
        Inl err \<Rightarrow> Some err
      | Inr oldID \<Rightarrow>
          (case resolvedLiteIdentity newGet newCluster of
             Inl err \<Rightarrow> Some err
           | Inr newID \<Rightarrow> if oldID \<noteq> newID then Some (LiteIdentityChanged oldID newID) else None))"

definition usesResolvedShardTemplate :: "cluster \<Rightarrow> string \<Rightarrow> bool" where
  "usesResolvedShardTemplate c name =
     list_ex (\<lambda>shard. or_text FallbackTemplate (or_text (mc_shard_template c) (sc_template shard)) = name) (cluster_shards c)"

subsection \<open>Clusters\<close>

definition config_list :: "(string, string) fmap \<Rightarrow> (string \<times> string) list" where
  "config_list m = map (\<lambda>k. (k, the (fmlookup m k))) (sorted_list_of_fset (fmdom m))"

definition validatePostgresConfig :: "cluster \<Rightarrow> admission_error option" where
  "validatePostgresConfig c =
     check_all (\<lambda>(db, tg, shard).
         check_all (\<lambda>m. case Validate (config_list m) of
                          [] \<Rightarrow> None
                        | errs \<Rightarrow> Some (ConfigInvalid (db_name db) (tg_name tg) (sc_name shard) errs))
           ((case sc_spec shard of None \<Rightarrow> [] | Some s \<Rightarrow> [si_config s])
            @ (case sc_overrides shard of None \<Rightarrow> [] | Some ovr \<Rightarrow> [so_config ovr])))
       (each_shard c)"

definition validate_cluster :: "validate_env \<Rightarrow> cluster \<Rightarrow> warning list \<times> admission_error option" where
  "validate_cluster env c =
     (case ValidateClusterIntegrity (ve_env env) c of
        Some err \<Rightarrow> ([], Some (Invalid err))
      | None \<Rightarrow>
          (case validatePostgresConfig c of
             Some err \<Rightarrow> ([], Some err)
           | None \<Rightarrow> (case ValidateClusterLogic env c of (warnings, err) \<Rightarrow> (warnings, map_option Invalid err))))"

definition cluster_ValidateCreate :: "admission_env \<Rightarrow> cluster \<Rightarrow> warning list \<times> admission_error option" where
  "cluster_ValidateCreate env c = validate_cluster (ad_validate env) c"

text \<open>The sizes the pools name, by \<^verbatim>\<open>db/tg/shard/pool\<close>; a later entry of the same key replaces an earlier one.\<close>

definition shard_sizes :: "database_config \<times> table_group_config \<times> shard_config \<Rightarrow> (string \<times> string) list" where
  "shard_sizes = (\<lambda>(db, tg, shard).
     let pools = (case sc_spec shard of
                    Some s \<Rightarrow> si_pools s
                  | None \<Rightarrow> (case sc_overrides shard of None \<Rightarrow> fmempty | Some ovr \<Rightarrow> so_pools ovr))
     in map (\<lambda>(n, p). (slash [db_name db, tg_name tg, sc_name shard, n], st_size (ps_storage p)))
          (filter (\<lambda>(n, p). st_size (ps_storage p) \<noteq> []) (pool_list pools)))"

definition collectPoolStorageSizes :: "cluster \<Rightarrow> string \<Rightarrow> string option" where
  "collectPoolStorageSizes c = map_of (rev (concat (map shard_sizes (each_shard c))))"

definition pool_keys :: "cluster \<Rightarrow> string list" where
  "pool_keys c = remdups (map fst (concat (map shard_sizes (each_shard c))))"

definition validateNoStorageShrink :: "(string \<Rightarrow> string + int) \<Rightarrow> cluster \<Rightarrow> cluster \<Rightarrow> admission_error option" where
  "validateNoStorageShrink parse oldCluster newCluster =
     check_all (\<lambda>key.
         case (collectPoolStorageSizes oldCluster key, collectPoolStorageSizes newCluster key) of
           (Some oldSize, Some newSize) \<Rightarrow>
             (case (parse oldSize, parse newSize) of
                (Inr oldQty, Inr newQty) \<Rightarrow> if newQty < oldQty then Some (StorageShrunk key oldSize newSize) else None
              | _ \<Rightarrow> None)
         | _ \<Rightarrow> None)
       (pool_keys oldCluster)"

definition effectiveEtcdReplicas :: "cluster \<Rightarrow> int" where
  "effectiveEtcdReplicas c =
     (case mc_global_topo c of
        None \<Rightarrow> DefaultEtcdReplicas
      | Some g \<Rightarrow>
          if gt_external g \<noteq> None then 0
          else (case gt_etcd g of
                  None \<Rightarrow> DefaultEtcdReplicas
                | Some e \<Rightarrow> (case et_replicas e of None \<Rightarrow> DefaultEtcdReplicas | Some n \<Rightarrow> n)))"

definition validateEtcdReplicasImmutable :: "cluster \<Rightarrow> cluster \<Rightarrow> admission_error option" where
  "validateEtcdReplicasImmutable oldCluster newCluster =
     (let old = effectiveEtcdReplicas oldCluster; new = effectiveEtcdReplicas newCluster
      in if old = 0 \<or> new = 0 then None
         else if old \<noteq> new then Some (EtcdReplicasChanged old new)
         else None)"

definition cluster_ValidateUpdate :: "admission_env \<Rightarrow> cluster \<Rightarrow> cluster \<Rightarrow> warning list \<times> admission_error option" where
  "cluster_ValidateUpdate env old new =
     (let get = re_shard (ve_env (ad_validate env)) (mc_namespace new)
      in if mc_mode old \<noteq> mc_mode new then ([], Some ModeImmutable)
         else case (if mc_mode old = ModeLite then validateLiteIdentityUpdate get get old new else None) of
                Some err \<Rightarrow> ([], Some err)
              | None \<Rightarrow>
                  (case validate_cluster (ad_validate env) new of
                     (warnings, Some err) \<Rightarrow> (warnings, Some err)
                   | (warnings, None) \<Rightarrow>
                       (warnings, first_of [validateNoStorageShrink (ad_parse_quantity env) old new,
                                            validateEtcdReplicasImmutable old new])))"

subsection \<open>Templates\<close>

definition with_shard :: "resolve_env \<Rightarrow> string \<Rightarrow> string \<Rightarrow> api_error + shard_template \<Rightarrow> resolve_env" where
  "with_shard env ns name r = env\<lparr>re_shard := (re_shard env)(ns := (re_shard env ns)(name := r))\<rparr>"

definition with_cell :: "resolve_env \<Rightarrow> string \<Rightarrow> string \<Rightarrow> api_error + cell_template \<Rightarrow> resolve_env" where
  "with_cell env ns name r = env\<lparr>re_cell := (re_cell env)(ns := (re_cell env ns)(name := r))\<rparr>"

definition with_core :: "resolve_env \<Rightarrow> string \<Rightarrow> string \<Rightarrow> api_error + core_template \<Rightarrow> resolve_env" where
  "with_core env ns name r = env\<lparr>re_core := (re_core env)(ns := (re_core env ns)(name := r))\<rparr>"

definition seeded :: "validate_env \<Rightarrow> (resolve_env \<Rightarrow> resolve_env) \<Rightarrow> validate_env" where
  "seeded env f = env\<lparr>ve_env := f (ve_env env)\<rparr>"

definition validateTemplateContent :: "admission_env \<Rightarrow> string \<Rightarrow> template_object \<Rightarrow> admission_error option" where
  "validateTemplateContent env kind obj =
     (case obj of
        ShardObject name ns tpl \<Rightarrow>
          if kind \<noteq> ''ShardTemplate'' then None
          else first_of
            [check_all (\<lambda>(n, _). if ValidatePoolName n then None else Some (TemplatePoolName n)) (pool_list (ts_pools tpl)),
             (case Validate (config_list (ts_config tpl)) of [] \<Rightarrow> None | errs \<Rightarrow> Some (TemplateConfigInvalid errs))]
      | CellObject name ns tpl \<Rightarrow>
          if kind \<noteq> ''CellTemplate'' then None
          else (case cm_gateway tpl of
                  None \<Rightarrow> None
                | Some g \<Rightarrow> map_option Invalid (first_of
                    [ValidateGatewayBufferPartial (gw_buffer g) name,
                     ValidateResourceRequirements (ve_cmp (ad_validate env)) (sl_resources (gw_stateless g)) name]))
      | CoreObject name ns tpl \<Rightarrow> None)"

definition validateCellTemplateConsumers :: "admission_env \<Rightarrow> string \<Rightarrow> template_object \<Rightarrow> admission_error option" where
  "validateCellTemplateConsumers env kind obj =
     (case obj of
        CellObject name ns tpl \<Rightarrow>
          if kind \<noteq> ''CellTemplate'' \<or> name = [] then None
          else (case ad_clusters env ns of
                  Inl err \<Rightarrow> Some (ListClustersFailed err)
                | Inr clusters \<Rightarrow>
                    check_all (\<lambda>l.
                        if lc_deletion l \<noteq> None then None
                        else
                          let c = lc_cluster l; prefix = mc_name c; base = ad_validate env
                          in case ValidateResolvedGateways (seeded base (\<lambda>e. with_cell e ns name (Inr tpl))) c name prefix of
                               None \<Rightarrow> None
                             | Some err \<Rightarrow> if ValidateResolvedGateways base c name prefix \<noteq> None then None else Some (Invalid err))
                      clusters)
      | _ \<Rightarrow> None)"

definition lite_consumer :: "admission_env \<Rightarrow> string \<Rightarrow> string \<Rightarrow> shard_template \<Rightarrow> listed_cluster \<Rightarrow> admission_error option" where
  "lite_consumer env ns name tpl l =
     (let c = lc_cluster l; before = ve_env (ad_validate env); after = with_shard before ns name (Inr tpl)
      in if mc_mode c \<noteq> ModeLite \<or> lc_deletion l \<noteq> None then None
         else if \<not> usesResolvedShardTemplate c name then None
         else (case validateLiteIdentityUpdate (re_shard before ns) (re_shard after ns) c c of
                 Some err \<Rightarrow> Some (LiteConsumer name (mc_name c) err)
               | None \<Rightarrow>
                   (case ValidateClusterLogic (seeded (ad_validate env) (\<lambda>_. after)) c of
                      (_, Some err) \<Rightarrow> Some (LiteConsumer name (mc_name c) (Invalid err))
                    | (_, None) \<Rightarrow> None)))"

definition validateLiteShardTemplateConsumers :: "admission_env \<Rightarrow> string \<Rightarrow> template_object \<Rightarrow> admission_error option" where
  "validateLiteShardTemplateConsumers env kind obj =
     (case obj of
        ShardObject name ns tpl \<Rightarrow>
          if kind \<noteq> ''ShardTemplate'' then None
          else (case ad_clusters env ns of
                  Inl err \<Rightarrow> Some (ListClustersFailed err)
                | Inr clusters \<Rightarrow> check_all (lite_consumer env ns name tpl) clusters)
      | _ \<Rightarrow> None)"

definition validateWrite :: "admission_env \<Rightarrow> string \<Rightarrow> template_object \<Rightarrow> admission_error option" where
  "validateWrite env kind obj = first_of
     [validateTemplateContent env kind obj, validateCellTemplateConsumers env kind obj, validateLiteShardTemplateConsumers env kind obj]"

definition templateSpecUnchanged :: "admission_env \<Rightarrow> template_object \<Rightarrow> template_object \<Rightarrow> bool" where
  "templateSpecUnchanged env old new =
     (case (old, new) of
        (CellObject _ _ a, CellObject _ _ b) \<Rightarrow> ad_same_cell env a b
      | (ShardObject _ _ a, ShardObject _ _ b) \<Rightarrow> ad_same_shard env a b
      | _ \<Rightarrow> False)"

definition template_ValidateCreate :: "admission_env \<Rightarrow> string \<Rightarrow> template_object \<Rightarrow> admission_error option" where
  "template_ValidateCreate env kind obj = validateWrite env kind obj"

definition template_ValidateUpdate :: "admission_env \<Rightarrow> string \<Rightarrow> template_object \<Rightarrow> template_object \<Rightarrow> admission_error option" where
  "template_ValidateUpdate env kind old new = (if templateSpecUnchanged env old new then None else validateWrite env kind new)"

definition template_ValidateDelete :: "admission_env \<Rightarrow> string \<Rightarrow> template_object \<Rightarrow> admission_error option" where
  "template_ValidateDelete env kind obj =
     (let name = object_name obj; ns = object_namespace obj
      in case ad_clusters env ns of
           Inl err \<Rightarrow> Some (ListClustersFailed err)
         | Inr clusters \<Rightarrow> first_of
             [check_all (\<lambda>l. if lc_deletion l \<noteq> None then None
                             else if isTemplateInUse kind (lc_cluster l) name
                             then Some (TemplateInUse kind name (mc_name (lc_cluster l))) else None) clusters,
              (if kind = ''CellTemplate'' \<and> name = FallbackTemplate
               then map_option (ConsumersBroken name) (validateCellTemplateConsumers env kind (CellObject name ns blank_cell_template))
               else None),
              (if kind = ''ShardTemplate'' \<and> name = FallbackTemplate
               then validateLiteShardTemplateConsumers env kind (ShardObject name ns empty_template)
               else None)])"

subsection \<open>Managed resources\<close>

definition child_validate :: "string list \<Rightarrow> (string + string) \<Rightarrow> string \<Rightarrow> admission_error option" where
  "child_validate exemptPrincipals request kind =
     (case request of
        Inl err \<Rightarrow> Some (NoAdmissionRequest err)
      | Inr username \<Rightarrow>
          if username \<in> set exemptPrincipals then None
          else Some (DirectModification (if kind = [] then ''Resource'' else kind)))"

subsection \<open>Reads of other names\<close>

lemma find_template_at: "find_template get blank n = (case get (or_text FallbackTemplate n) of
    Inl err \<Rightarrow> if err = NotFound then if or_text FallbackTemplate n = FallbackTemplate then Inr blank else Inl (TemplateNotFound (or_text FallbackTemplate n))
               else Inl (GetTemplateFailed err)
  | Inr t \<Rightarrow> Inr t)"
  unfolding find_template_def resolve_template_def or_text_def Let_def by (simp split: sum.split)

lemma seeded_lookup: "fst (resolve_template get blank n [m \<mapsto> t]) = find_template (get(m := Inr t)) blank n"
  unfolding find_template_at unfolding resolve_template_def or_text_def Let_def by (simp split: sum.split)

lemma find_template_other: "or_text FallbackTemplate n \<noteq> m \<Longrightarrow> find_template (get(m := r)) blank n = find_template get blank n"
  by (simp add: find_template_at)

lemma find_fallback_gone:
  "find_template (get(FallbackTemplate := Inl NotFound)) blank n = find_template (get(FallbackTemplate := Inr blank)) blank n"
  by (simp add: find_template_at)

lemma validate_reference_other: "n = [] \<or> n \<noteq> m \<Longrightarrow> validate_reference (get(m := r)) n = validate_reference get n"
  by (auto simp: validate_reference_def template_exists_def)

definition without_template :: "string \<Rightarrow> string \<Rightarrow> string \<Rightarrow> resolve_env \<Rightarrow> resolve_env" where
  "without_template kind ns name env =
     (if kind = ''CoreTemplate'' then with_core env ns name (Inl NotFound)
      else if kind = ''CellTemplate'' then with_cell env ns name (Inl NotFound)
      else with_shard env ns name (Inl NotFound))"

lemma integrity_references:
  "ValidateClusterIntegrity env c = None \<longleftrightarrow>
     (\<forall>n\<in>set (core_references c). validate_reference (re_core env (mc_namespace c)) n = None)
     \<and> (\<forall>n\<in>set (cell_references c). validate_reference (re_cell env (mc_namespace c)) n = None)
     \<and> (\<forall>n\<in>set (shard_references c). validate_reference (re_shard env (mc_namespace c)) n = None)"
  by (auto simp: ValidateClusterIntegrity_def Let_def ValidateCoreTemplateReference_def ValidateCellTemplateReference_def
      ValidateShardTemplateReference_def core_references_def cell_references_def shard_references_def topo_template_def)

lemma integrity_without:
  assumes "ValidateClusterIntegrity env c = None" and "\<not> isTemplateInUse kind c name"
    and "kind \<in> {''CoreTemplate'', ''CellTemplate'', ''ShardTemplate''}"
  shows "ValidateClusterIntegrity (without_template kind ns name env) c = None"
proof -
  have free: "n \<in> set (kind_references kind c) \<Longrightarrow> n = [] \<or> n \<noteq> name" for n
    using in_use_references [of n kind c] assms(2) by blast
  from assms(3) consider "kind = ''CoreTemplate''" | "kind = ''CellTemplate''" | "kind = ''ShardTemplate''" by blast
  then show ?thesis
  proof cases
    case 1 then show ?thesis using assms(1) free unfolding integrity_references
      by (auto simp: without_template_def with_core_def kind_references_def validate_reference_other)
  next
    case 2 then show ?thesis using assms(1) free unfolding integrity_references
      by (auto simp: without_template_def with_cell_def kind_references_def validate_reference_other)
  next
    case 3 then show ?thesis using assms(1) free unfolding integrity_references
      by (auto simp: without_template_def with_shard_def kind_references_def validate_reference_other)
  qed
qed

subsection \<open>Gateways\<close>

lemma resolve_cell_from_reads:
  assumes "re_digest env' = re_digest env" and "re_parse_duration env' = re_parse_duration env"
  shows "resolve_cell_from env' c cell tpl = resolve_cell_from env c cell tpl"
proof -
  have "ForCluster env' = ForCluster env" by (simp add: ForCluster_def fun_eq_iff assms)
  moreover have "check_compaction env' = check_compaction env" unfolding check_compaction_def assms ..
  ultimately show ?thesis unfolding resolve_cell_from_def by (simp only:)
qed

lemma ResolveCell_find:
  "ResolveCell env c cell =
     (case find_template (re_cell env (mc_namespace c)) blank_cell_template (EffectiveCellTemplateName (cl_template cell)) of
        Inl err \<Rightarrow> Inl err | Inr tpl \<Rightarrow> resolve_cell_from env c cell tpl)"
  by (simp add: ResolveCell_def ResolveCellTemplate_def find_template_def)

lemma ResolveCell_reads:
  assumes "find_template (re_cell env' (mc_namespace c)) blank_cell_template (EffectiveCellTemplateName (cl_template cell))
         = find_template (re_cell env (mc_namespace c)) blank_cell_template (EffectiveCellTemplateName (cl_template cell))"
    and "re_digest env' = re_digest env" and "re_parse_duration env' = re_parse_duration env"
  shows "ResolveCell env' c cell = ResolveCell env c cell"
  unfolding ResolveCell_find assms(1) using resolve_cell_from_reads [OF assms(2,3)] by (simp split: sum.split)

text \<open>What the check of one resolved cell says, whatever name the messages carry.\<close>

definition gateway_ok :: "validate_env \<Rightarrow> cluster \<Rightarrow> cell_config \<Rightarrow> bool" where
  "gateway_ok env c cell =
     (case ResolveCell (ve_env env) c (effective_cell c cell) of
        Inl _ \<Rightarrow> False
      | Inr (g, _) \<Rightarrow> ValidateGatewayBuffer (gw_buffer g) [] = None \<and> within_limits (ve_cmp env) (sl_resources (gw_stateless g)))"

lemma buffer_subject: "ValidateGatewayBuffer b s = None \<longleftrightarrow> ValidateGatewayBuffer b [] = None"
  by (simp add: ValidateGatewayBuffer_def validateGatewayBuffer_def Let_def split: option.split)

definition used_cell_template :: "cluster \<Rightarrow> cell_config \<Rightarrow> string" where
  "used_cell_template c cell = EffectiveCellTemplateName (cl_template (effective_cell c cell))"

lemma validate_cell_iff:
  "validate_cell env c only pre cell = None \<longleftrightarrow> only \<noteq> [] \<and> used_cell_template c cell \<noteq> only \<or> gateway_ok env c cell"
proof (cases "ResolveCell (ve_env env) c (effective_cell c cell)")
  case (Inl e)
  then show ?thesis by (simp add: validate_cell_def Let_def gateway_ok_def used_cell_template_def)
next
  case (Inr r)
  then show ?thesis using buffer_subject [of _ "pre @ cl_name cell"]
    by (cases r) (simp add: validate_cell_def Let_def gateway_ok_def used_cell_template_def)
qed

lemma gateways_iff:
  "ValidateResolvedGateways env c only pre = None
   \<longleftrightarrow> (\<forall>cell\<in>set (mc_cells c). only = [] \<or> used_cell_template c cell = only \<longrightarrow> gateway_ok env c cell)"
  by (auto simp: ValidateResolvedGateways_def validate_cell_iff)

lemma gateway_ok_with_cell:
  assumes "find_template (re_cell (with_cell (ve_env env) ns name r) (mc_namespace c)) blank_cell_template (used_cell_template c cell)
         = find_template (re_cell (ve_env env') (mc_namespace c)) blank_cell_template (used_cell_template c cell)"
    and "re_digest (ve_env env') = re_digest (ve_env env)" and "re_parse_duration (ve_env env') = re_parse_duration (ve_env env)"
    and "ve_cmp env' = ve_cmp env"
  shows "gateway_ok (seeded env (\<lambda>e. with_cell e ns name r)) c cell = gateway_ok env' c cell"
proof -
  have "ResolveCell (with_cell (ve_env env) ns name r) c (effective_cell c cell) = ResolveCell (ve_env env') c (effective_cell c cell)"
    using assms(1-3) by (intro ResolveCell_reads) (simp_all add: with_cell_def used_cell_template_def)
  then show ?thesis using assms(4) by (simp add: gateway_ok_def seeded_def split: sum.split prod.split)
qed

lemma or_text_used: "or_text FallbackTemplate (used_cell_template c cell) = used_cell_template c cell"
  by (simp add: used_cell_template_def EffectiveCellTemplateName_def or_text_def FallbackTemplate_def)

lemma gateway_ok_other:
  assumes "used_cell_template c cell \<noteq> name \<or> mc_namespace c \<noteq> ns"
  shows "gateway_ok (seeded env (\<lambda>e. with_cell e ns name r)) c cell = gateway_ok env c cell"
  using assms by (intro gateway_ok_with_cell) (auto simp: with_cell_def find_template_other or_text_used)

lemma used_cell_in_use:
  assumes "cell \<in> set (mc_cells c)" and "used_cell_template c cell = name" and "\<not> isTemplateInUse ''CellTemplate'' c name"
  shows "name = FallbackTemplate"
proof -
  have "name \<noteq> []" using assms(2) or_text_used [of c cell] by (auto simp: or_text_def FallbackTemplate_def)
  with in_use_references [OF this] assms(3) have "name \<notin> set (cell_references c)" by (simp add: kind_references_def)
  with assms(1,2) show ?thesis
    by (auto simp: used_cell_template_def EffectiveCellTemplateName_def effective_cell_def EffectiveCellTemplate_def
        cell_references_def split: if_splits)
qed

lemma cell_consumers:
  assumes "validateCellTemplateConsumers env ''CellTemplate'' (CellObject name ns tpl) = None" and "name \<noteq> []"
    and "ad_clusters env ns = Inr cs" and "l \<in> set cs" and "lc_deletion l = None"
    and "ValidateResolvedGateways (ad_validate env) (lc_cluster l) [] [] = None"
  shows "ValidateResolvedGateways (seeded (ad_validate env) (\<lambda>e. with_cell e ns name (Inr tpl))) (lc_cluster l) [] [] = None"
proof -
  let ?v = "ad_validate env" and ?c = "lc_cluster l"
  let ?w = "seeded ?v (\<lambda>e. with_cell e ns name (Inr tpl))"
  have base: "ValidateResolvedGateways ?v ?c name (mc_name ?c) = None"
    using assms(6) unfolding gateways_iff by blast
  have "ValidateResolvedGateways ?w ?c name (mc_name ?c) = None"
  proof (rule ccontr)
    assume "ValidateResolvedGateways ?w ?c name (mc_name ?c) \<noteq> None"
    then obtain e where e: "ValidateResolvedGateways ?w ?c name (mc_name ?c) = Some e" by blast
    from assms(1) have "\<forall>l\<in>set cs. (if lc_deletion l \<noteq> None then None
        else let c = lc_cluster l; prefix = mc_name c; base = ad_validate env
             in case ValidateResolvedGateways (seeded base (\<lambda>e. with_cell e ns name (Inr tpl))) c name prefix of
                  None \<Rightarrow> None
                | Some err \<Rightarrow> if ValidateResolvedGateways base c name prefix \<noteq> None then None else Some (Invalid err)) = None"
      using assms(2,3) by (simp add: validateCellTemplateConsumers_def)
    from bspec [OF this assms(4)] show False using assms(5) base e by (simp add: Let_def)
  qed
  then show ?thesis unfolding gateways_iff
    using assms(6) gateway_ok_other [of ?c _ name ns ?v "Inr tpl"] unfolding gateways_iff by blast
qed

text \<open>
  C16: deleting a template never breaks a cluster. Where the deletion of a template is admitted, every listed cluster that is
  not being deleted itself and whose references resolved still has all its references afterwards, and if its gateways were
  valid they are valid without the template, also where it was used only as the fallback.
\<close>

theorem template_delete_keeps_clusters:
  assumes "template_ValidateDelete env kind obj = None"
    and "kind \<in> {''CoreTemplate'', ''CellTemplate'', ''ShardTemplate''}"
    and "ad_clusters env (object_namespace obj) = Inr cs" and "l \<in> set cs" and "lc_deletion l = None"
    and "ValidateClusterIntegrity (ve_env (ad_validate env)) (lc_cluster l) = None"
    and "ValidateResolvedGateways (ad_validate env) (lc_cluster l) [] [] = None"
  shows "ValidateClusterIntegrity (without_template kind (object_namespace obj) (object_name obj) (ve_env (ad_validate env))) (lc_cluster l) = None
    \<and> ValidateResolvedGateways (seeded (ad_validate env) (without_template kind (object_namespace obj) (object_name obj))) (lc_cluster l) [] [] = None"
proof -
  let ?v = "ad_validate env" and ?c = "lc_cluster l" and ?n = "object_name obj" and ?ns = "object_namespace obj"
  from assms(1,3) have checks: "\<forall>l\<in>set cs. (if lc_deletion l \<noteq> None then None
          else if isTemplateInUse kind (lc_cluster l) ?n then Some (TemplateInUse kind ?n (mc_name (lc_cluster l))) else None) = None"
    and cells: "kind = ''CellTemplate'' \<Longrightarrow> ?n = FallbackTemplate \<Longrightarrow>
          validateCellTemplateConsumers env kind (CellObject ?n ?ns blank_cell_template) = None"
    by (simp_all add: template_ValidateDelete_def Let_def)
  from bspec [OF checks assms(4)] assms(5) have free: "\<not> isTemplateInUse kind ?c ?n" by (simp split: if_splits)
  have "ValidateResolvedGateways (seeded ?v (without_template kind ?ns ?n)) ?c [] [] = None"
  proof (cases "kind = ''CellTemplate''")
    case False
    have "gateway_ok (seeded ?v (without_template kind ?ns ?n)) ?c cell = gateway_ok ?v ?c cell" for cell
    proof -
      have "ResolveCell (without_template kind ?ns ?n (ve_env ?v)) ?c x = ResolveCell (ve_env ?v) ?c x" for x
        using False by (intro ResolveCell_reads) (simp_all add: without_template_def with_core_def with_cell_def with_shard_def)
      then show ?thesis by (simp add: gateway_ok_def seeded_def split: sum.split prod.split)
    qed
    with assms(7) show ?thesis unfolding gateways_iff by blast
  next
    case True
    have w: "without_template kind ?ns ?n = (\<lambda>e. with_cell e ?ns ?n (Inl NotFound))"
      using True by (simp add: without_template_def fun_eq_iff)
    show ?thesis unfolding gateways_iff w
    proof (intro ballI impI)
      fix cell assume cell: "cell \<in> set (mc_cells ?c)"
      have ok: "gateway_ok ?v ?c cell" using assms(7) cell unfolding gateways_iff by blast
      show "gateway_ok (seeded ?v (\<lambda>e. with_cell e ?ns ?n (Inl NotFound))) ?c cell"
      proof (cases "used_cell_template ?c cell = ?n \<and> mc_namespace ?c = ?ns")
        case False with ok show ?thesis using gateway_ok_other by metis
      next
        case used: True
        with used_cell_in_use [OF cell] free True have fb: "?n = FallbackTemplate" by simp
        have "ValidateResolvedGateways (seeded ?v (\<lambda>e. with_cell e ?ns ?n (Inr blank_cell_template))) ?c [] [] = None"
          using cell_consumers [OF _ _ assms(3-5,7)] cells [OF True fb] True fb by (simp add: FallbackTemplate_def)
        then have "gateway_ok (seeded ?v (\<lambda>e. with_cell e ?ns ?n (Inr blank_cell_template))) ?c cell"
          using cell unfolding gateways_iff by blast
        moreover have "gateway_ok (seeded ?v (\<lambda>e. with_cell e ?ns ?n (Inl NotFound))) ?c cell
            = gateway_ok (seeded ?v (\<lambda>e. with_cell e ?ns ?n (Inr blank_cell_template))) ?c cell"
          by (rule gateway_ok_with_cell) (simp_all add: seeded_def with_cell_def fb find_fallback_gone)
        ultimately show ?thesis by blast
      qed
    qed
  qed
  with integrity_without [OF assms(6) free assms(2)] show ?thesis by simp
qed

text \<open>
  a write of a cell template never breaks a cluster. Where the creation or the update of a cell template is admitted,
  every listed cluster that is not being deleted and whose gateways were valid has valid gateways with the new content.
\<close>

theorem cell_template_write_keeps_gateways:
  assumes "template_ValidateCreate env ''CellTemplate'' (CellObject name ns tpl) = None \<or>
           \<not> ad_same_cell env old tpl \<and> template_ValidateUpdate env ''CellTemplate'' (CellObject name ns old) (CellObject name ns tpl) = None"
    and "name \<noteq> []" and "ad_clusters env ns = Inr cs" and "l \<in> set cs" and "lc_deletion l = None"
    and "ValidateResolvedGateways (ad_validate env) (lc_cluster l) [] [] = None"
  shows "ValidateResolvedGateways (seeded (ad_validate env) (\<lambda>e. with_cell e ns name (Inr tpl))) (lc_cluster l) [] [] = None"
proof -
  have "validateWrite env ''CellTemplate'' (CellObject name ns tpl) = None"
    using assms(1) by (auto simp: template_ValidateCreate_def template_ValidateUpdate_def templateSpecUnchanged_def)
  then have "validateCellTemplateConsumers env ''CellTemplate'' (CellObject name ns tpl) = None" by (simp add: validateWrite_def)
  from cell_consumers [OF this assms(2-6)] show ?thesis .
qed

subsection \<open>Updates of clusters\<close>

lemma collectPoolStorageSizes_key: "collectPoolStorageSizes c key = Some v \<Longrightarrow> key \<in> set (pool_keys c)"
  unfolding collectPoolStorageSizes_def pool_keys_def by (drule map_of_SomeD) force

text \<open>
  What a pool is given in the cluster itself, and what the shard that the controllers resolve runs with. Names are as the custom
  resource definition demands: no slash, and no two shards of a table group, table groups of a database or databases of the same name.
\<close>

definition written_pool :: "shard_config \<Rightarrow> string \<Rightarrow> pool_spec option" where
  "written_pool shard n =
     (case sc_spec shard of
        Some s \<Rightarrow> fmlookup (si_pools s) n
      | None \<Rightarrow> (case sc_overrides shard of None \<Rightarrow> None | Some ovr \<Rightarrow> fmlookup (so_pools ovr) n))"

definition shard_names :: "database_config \<times> table_group_config \<times> shard_config \<Rightarrow> string \<times> string \<times> string" where
  "shard_names = (\<lambda>(db, tg, shard). (db_name db, tg_name tg, sc_name shard))"

definition well_named :: "cluster \<Rightarrow> bool" where
  "well_named c \<longleftrightarrow> distinct (map shard_names (each_shard c))
     \<and> (\<forall>(db, tg, shard)\<in>set (each_shard c).
          CHR ''/'' \<notin> set (db_name db) \<and> CHR ''/'' \<notin> set (tg_name tg) \<and> CHR ''/'' \<notin> set (sc_name shard))"

definition resolved_size :: "resolved_shard \<Rightarrow> string \<Rightarrow> string option" where
  "resolved_size res n = map_option (\<lambda>p. st_size (ps_storage p)) (fmlookup (rs_pools res) n)"

definition resolved_replicas :: "resolve_env \<Rightarrow> cluster \<Rightarrow> int option" where
  "resolved_replicas env c =
     (case ResolveGlobalTopo env c of Inl _ \<Rightarrow> None | Inr g \<Rightarrow> (case gt_etcd g of None \<Rightarrow> None | Some e \<Rightarrow> et_replicas e))"

text \<open>The number of etcd members is the cluster's own decision when no template gives one, or the cluster writes one itself.\<close>

definition decides_replicas :: "resolve_env \<Rightarrow> cluster \<Rightarrow> bool" where
  "decides_replicas env c \<longleftrightarrow>
     (\<exists>g e n. mc_global_topo c = Some g \<and> gt_etcd g = Some e \<and> et_replicas e = Some n)
     \<or> (\<forall>tpl t e. core_for env c (case mc_global_topo c of None \<Rightarrow> [] | Some g \<Rightarrow> gt_template g) = Inr tpl
          \<and> kt_global_topo tpl = Some t \<and> kt_etcd t = Some e \<longrightarrow> et_replicas e = None)"

lemma cut_first:
  "x \<notin> set xs \<Longrightarrow> x \<notin> set xs' \<Longrightarrow> xs @ x # ys = xs' @ x # ys' \<longleftrightarrow> xs = xs' \<and> ys = ys'"
proof (induction xs arbitrary: xs')
  case Nil
  then show ?case by (cases xs') auto
next
  case (Cons a xs)
  then show ?case by (cases xs') auto
qed

lemma slash_inject:
  assumes "slash [a, b, c, d] = slash [a', b', c', d']"
    and "CHR ''/'' \<notin> set a \<union> set b \<union> set c" "CHR ''/'' \<notin> set a' \<union> set b' \<union> set c'"
  shows "a = a' \<and> b = b' \<and> c = c' \<and> d = d'"
  using assms by (auto simp: slash_def cut_first)

lemma collected_size:
  assumes "well_named c" and s: "(db, tg, shard) \<in> set (each_shard c)"
    and p: "written_pool shard n = Some p" "st_size (ps_storage p) \<noteq> []"
  shows "collectPoolStorageSizes c (slash [db_name db, tg_name tg, sc_name shard, n]) = Some (st_size (ps_storage p))"
proof -
  let ?key = "slash [db_name db, tg_name tg, sc_name shard, n]"
  let ?sizes = "concat (map shard_sizes (each_shard c))"
  have pools: "shard_sizes (db', tg', s') = map (\<lambda>(n, p). (slash [db_name db', tg_name tg', sc_name s', n], st_size (ps_storage p)))
      (filter (\<lambda>(n, p). st_size (ps_storage p) \<noteq> []) (pool_list (case sc_spec s' of Some s \<Rightarrow> si_pools s
        | None \<Rightarrow> (case sc_overrides s' of None \<Rightarrow> fmempty | Some ovr \<Rightarrow> so_pools ovr))))" for db' tg' s'
    by (simp add: shard_sizes_def Let_def)
  have look: "fmlookup (case sc_spec s' of Some s \<Rightarrow> si_pools s
        | None \<Rightarrow> (case sc_overrides s' of None \<Rightarrow> fmempty | Some ovr \<Rightarrow> so_pools ovr)) m = written_pool s' m" for s' m
    by (simp add: written_pool_def split: option.split)
  have "(?key, st_size (ps_storage p)) \<in> set (shard_sizes (db, tg, shard))"
    unfolding pools using p look [of shard n] by (force simp: set_pool_list)
  then have mem: "(?key, st_size (ps_storage p)) \<in> set ?sizes" using s by auto
  have only: "v = st_size (ps_storage p)" if v: "(?key, v) \<in> set ?sizes" for v
  proof -
    from v obtain db' tg' s' where s': "(db', tg', s') \<in> set (each_shard c)" "(?key, v) \<in> set (shard_sizes (db', tg', s'))" by auto
    then obtain m q where q: "written_pool s' m = Some q" "v = st_size (ps_storage q)"
        "?key = slash [db_name db', tg_name tg', sc_name s', m]"
      unfolding pools by (auto simp: set_pool_list look)
    have free: "CHR ''/'' \<notin> set (db_name x) \<union> set (tg_name y) \<union> set (sc_name z)" if "(x, y, z) \<in> set (each_shard c)" for x y z
      using assms(1) that unfolding well_named_def by fastforce
    from slash_inject [OF q(3) free [OF s] free [OF s'(1)]]
    have "shard_names (db, tg, shard) = shard_names (db', tg', s')" "n = m" by (simp_all add: shard_names_def)
    moreover from this(1) assms(1) s s'(1) have "(db, tg, shard) = (db', tg', s')"
      unfolding well_named_def by (metis distinct_map inj_onD)
    ultimately show ?thesis using q p by simp
  qed
  have "?key \<in> fst ` set (rev ?sizes)" using mem by (metis fst_conv image_eqI set_rev)
  then have "map_of (rev ?sizes) ?key \<noteq> None" by (simp add: map_of_eq_None_iff)
  then obtain v where "map_of (rev ?sizes) ?key = Some v" by blast
  moreover from map_of_SomeD [OF this] only have "v = st_size (ps_storage p)" by simp
  ultimately show ?thesis by (simp add: collectPoolStorageSizes_def)
qed

text \<open>A size written in the cluster is the size the resolved pool has.\<close>

lemma merged_size:
  assumes "written_pool shard n = Some p" "st_size (ps_storage p) \<noteq> []"
  shows "\<exists>q. fmlookup (rs_pools (mergeShardConfig tpl (sc_overrides shard) (sc_spec shard) b i)) n = Some q
    \<and> st_size (ps_storage q) = st_size (ps_storage p)"
proof -
  have top: "\<exists>q. fmlookup (merge_pools m m') n = Some q \<and> st_size (ps_storage q) = st_size (ps_storage p)"
    if "fmlookup m' n = Some p" for m m'
    using that assms(2)
    by (auto simp: lookup_merge_fmap mergePoolSpec_def merge_storage_def set_list_def split: option.split)
  have unread: "rs_pools (case b of None \<Rightarrow> r | Some x \<Rightarrow> r\<lparr>rs_backup := y x\<rparr>) = rs_pools r" for r y
    by (simp split: option.split)
  show ?thesis
    using assms(1) top unfolding mergeShardConfig_def Let_def
    by (auto simp: unread written_pool_def apply_inline_def apply_overrides_def split: option.splits)
qed

lemma written_size_resolved:
  assumes "resolved_for env c db tg shard = Inr res" and "written_pool shard n = Some p" "st_size (ps_storage p) \<noteq> []"
  shows "resolved_size res n = Some (st_size (ps_storage p))"
proof -
  let ?shard = "effective_shard c shard"
  have same: "sc_spec ?shard = sc_spec shard" "sc_overrides ?shard = sc_overrides shard" by (simp_all add: effective_shard_def)
  then have w: "written_pool ?shard n = Some p" using assms(2) unfolding written_pool_def same by simp
  obtain tpl opts where res: "res = resolve_from tpl ?shard opts"
    using assms(1) by (auto simp: resolved_for_def resolve_shard_def map_sum_def split: sum.splits)
  obtain q where q: "fmlookup (rs_pools (mergeShardConfig tpl (sc_overrides ?shard) (sc_spec ?shard) (sc_backup ?shard) (ro_backup opts))) n
      = Some q" "st_size (ps_storage q) = st_size (ps_storage p)"
    using merged_size [OF w assms(3)] by blast
  have "st_size (ps_storage (resolve_pool opts q)) = st_size (ps_storage p)"
    using q(2) assms(3) by (simp add: resolve_pool_def Let_def defaultPoolSpec_def or_text_def)
  with q(1) show ?thesis
    by (auto simp: res resolve_from_def Let_def resolved_size_def split: option.split)
qed

lemma ResolveGlobalTopo_etcd:
  assumes "ResolveGlobalTopo env c = Inr g"
  shows "\<exists>tpl root. core_for env c (case mc_global_topo c of None \<Rightarrow> [] | Some g \<Rightarrow> gt_template g) = Inr tpl
    \<and> gt_etcd g = map_option (\<lambda>e. defaultEtcdSpec e root) (gt_etcd (overlay_global_topo (mc_global_topo c) (start_global_topo tpl)))"
  using assms by (auto simp: ResolveGlobalTopo_def Let_def split: sum.splits option.splits)

lemma decided_replicas:
  assumes "decides_replicas env c" and "resolved_replicas env c = Some n"
  shows "effectiveEtcdReplicas c = n"
proof -
  let ?name = "case mc_global_topo c of None \<Rightarrow> [] | Some g \<Rightarrow> gt_template g"
  from assms(2) obtain g e' where g: "ResolveGlobalTopo env c = Inr g" "gt_etcd g = Some e'" "et_replicas e' = Some n"
    by (auto simp: resolved_replicas_def split: sum.splits option.splits)
  from ResolveGlobalTopo_etcd [OF g(1)] g(2) obtain tpl root where tpl: "core_for env c ?name = Inr tpl"
    and o: "map_option (\<lambda>e. defaultEtcdSpec e root) (gt_etcd (overlay_global_topo (mc_global_topo c) (start_global_topo tpl))) = Some e'"
    by metis
  from o obtain e where e: "gt_etcd (overlay_global_topo (mc_global_topo c) (start_global_topo tpl)) = Some e"
    "e' = defaultEtcdSpec e root" by (auto simp: map_option_eq_Some)
  have n: "n = (case et_replicas e of None \<Rightarrow> DefaultEtcdReplicas | Some k \<Rightarrow> k)"
    using g(3) e(2) by (simp add: defaultEtcdSpec_def or_default_def split: option.splits)
  note e = e(1)
  have base: "et_replicas b = None" if "gt_etcd (start_global_topo tpl) = Some b"
    "\<not> (\<exists>g e n. mc_global_topo c = Some g \<and> gt_etcd g = Some e \<and> et_replicas e = Some n)" for b
    using that assms(1) tpl unfolding decides_replicas_def
    by (auto simp: start_global_topo_def empty_etcd_def split: option.splits)
  show ?thesis
  proof (cases "mc_global_topo c")
    case None
    with e base [of e] n show ?thesis by (simp add: effectiveEtcdReplicas_def overlay_global_topo_def)
  next
    case (Some g)
    have ext: "gt_external g = None" using e Some by (auto simp: overlay_global_topo_def split: option.splits)
    show ?thesis
    proof (cases "gt_etcd g")
      case None
      with Some e ext base [of e] n show ?thesis by (simp add: effectiveEtcdReplicas_def overlay_global_topo_def)
    next
      case (Some w)
      let ?b = "case gt_etcd (start_global_topo tpl) of None \<Rightarrow> empty_etcd | Some b \<Rightarrow> b"
      from Some \<open>mc_global_topo c = Some g\<close> e ext have "e = mergeEtcdSpec ?b w" by (simp add: overlay_global_topo_def)
      then have rep: "et_replicas e = set_opt (et_replicas ?b) (et_replicas w)" by (simp add: mergeEtcdSpec_def)
      have "et_replicas w = None \<Longrightarrow> et_replicas ?b = None"
        using base \<open>mc_global_topo c = Some g\<close> Some by (auto simp: empty_etcd_def split: option.split)
      with rep n Some \<open>mc_global_topo c = Some g\<close> ext show ?thesis
        by (auto simp: effectiveEtcdReplicas_def set_opt_def split: option.splits)
    qed
  qed
qed

text \<open>
  C27: what an update of a cluster keeps. An admitted update keeps the mode. It shrinks no pool: where the size of a pool is
  written in the cluster before and after, for the same pool of the same shard, the resolved shard runs with a size after it
  that is no smaller than before, as far as both can be read. Where the cluster itself decides the number of etcd members before
  and after, the resolved cluster runs the same positive number. And the new cluster is valid.
\<close>

theorem cluster_update_keeps:
  assumes "snd (cluster_ValidateUpdate env old new) = None" and "well_named old" and "well_named new"
  shows "mc_mode new = mc_mode old
    \<and> (\<forall>db tg shard db' tg' shard' n p p' res res' x y.
          (db, tg, shard) \<in> set (each_shard old) \<and> (db', tg', shard') \<in> set (each_shard new)
          \<and> shard_names (db, tg, shard) = shard_names (db', tg', shard')
          \<and> written_pool shard n = Some p \<and> st_size (ps_storage p) \<noteq> []
          \<and> written_pool shard' n = Some p' \<and> st_size (ps_storage p') \<noteq> []
          \<and> resolved_for (ad_validate env) old db tg shard = Inr res
          \<and> resolved_for (ad_validate env) new db' tg' shard' = Inr res'
          \<and> map_option (ad_parse_quantity env) (resolved_size res n) = Some (Inr x)
          \<and> map_option (ad_parse_quantity env) (resolved_size res' n) = Some (Inr y) \<longrightarrow> x \<le> y)
    \<and> (\<forall>a b. decides_replicas (ve_env (ad_validate env)) old \<and> decides_replicas (ve_env (ad_validate env)) new
          \<and> resolved_replicas (ve_env (ad_validate env)) old = Some a \<and> resolved_replicas (ve_env (ad_validate env)) new = Some b
          \<and> a \<noteq> 0 \<and> b \<noteq> 0 \<longrightarrow> b = a)
    \<and> snd (validate_cluster (ad_validate env) new) = None"
proof -
  from assms(1) have mode: "mc_mode new = mc_mode old" by (auto simp: cluster_ValidateUpdate_def Let_def split: if_splits)
  from assms(1) mode have valid: "snd (validate_cluster (ad_validate env) new) = None"
    and shrink: "validateNoStorageShrink (ad_parse_quantity env) old new = None"
    and etcd: "validateEtcdReplicasImmutable old new = None"
    by (simp_all add: cluster_ValidateUpdate_def Let_def split: option.splits prod.splits if_splits)
  have kept: "x \<le> y" if "collectPoolStorageSizes old key = Some a" "collectPoolStorageSizes new key = Some b"
    "ad_parse_quantity env a = Inr x" "ad_parse_quantity env b = Inr y" for key a b x y
  proof (rule ccontr)
    assume "\<not> x \<le> y"
    with shrink collectPoolStorageSizes_key [OF that(1)] that show False by (auto simp: validateNoStorageShrink_def)
  qed
  have sizes: "x \<le> y" if "(db, tg, shard) \<in> set (each_shard old) \<and> (db', tg', shard') \<in> set (each_shard new)
          \<and> shard_names (db, tg, shard) = shard_names (db', tg', shard')
          \<and> written_pool shard n = Some p \<and> st_size (ps_storage p) \<noteq> []
          \<and> written_pool shard' n = Some p' \<and> st_size (ps_storage p') \<noteq> []
          \<and> resolved_for (ad_validate env) old db tg shard = Inr res
          \<and> resolved_for (ad_validate env) new db' tg' shard' = Inr res'
          \<and> map_option (ad_parse_quantity env) (resolved_size res n) = Some (Inr x)
          \<and> map_option (ad_parse_quantity env) (resolved_size res' n) = Some (Inr y)"
    for db tg shard db' tg' shard' n p p' res res' x y
  proof -
    from that have names: "db_name db' = db_name db" "tg_name tg' = tg_name tg" "sc_name shard' = sc_name shard"
      by (auto simp: shard_names_def)
    have "collectPoolStorageSizes old (slash [db_name db, tg_name tg, sc_name shard, n]) = Some (st_size (ps_storage p))"
      "collectPoolStorageSizes new (slash [db_name db, tg_name tg, sc_name shard, n]) = Some (st_size (ps_storage p'))"
      using that collected_size [OF assms(2)] collected_size [OF assms(3), of db' tg' shard'] names by auto
    moreover have "resolved_size res n = Some (st_size (ps_storage p))" "resolved_size res' n = Some (st_size (ps_storage p'))"
      using that written_size_resolved by blast+
    ultimately show ?thesis using that kept by auto
  qed
  have members: "b = a" if "decides_replicas (ve_env (ad_validate env)) old \<and> decides_replicas (ve_env (ad_validate env)) new
          \<and> resolved_replicas (ve_env (ad_validate env)) old = Some a \<and> resolved_replicas (ve_env (ad_validate env)) new = Some b
          \<and> a \<noteq> 0 \<and> b \<noteq> 0" for a b
    using that decided_replicas etcd by (fastforce simp: validateEtcdReplicasImmutable_def Let_def split: if_splits)
  show ?thesis using mode valid sizes members by blast
qed

lemma no_shrink_same: "validateNoStorageShrink parse c (c\<lparr>mc_core_template := t\<rparr>) = None"
proof -
  have same: "collectPoolStorageSizes (c\<lparr>mc_core_template := t\<rparr>) = collectPoolStorageSizes c"
    by (simp add: collectPoolStorageSizes_def each_shard_def)
  show ?thesis unfolding validateNoStorageShrink_def same
    by (auto split: option.split sum.split)
qed

text \<open>
  C40: the check that etcd members cannot be added does not see templates. For every cluster outside Lite mode that says nothing
  about its topology server itself, and every core template that gives a number of etcd members, an update that only names this
  template is admitted whenever the cluster it leads to is valid, whatever number of members the cluster runs before; after it
  the resolved cluster runs the number of the template.
\<close>

theorem etcd_replicas_change_by_template:
  assumes "mc_mode c \<noteq> ModeLite" and "mc_global_topo c = None"
    and "name \<noteq> []" and "re_core (ve_env (ad_validate env)) (mc_namespace c) name = Inr tpl"
    and "kt_global_topo tpl = Some t" and "kt_etcd t = Some e" and "et_replicas e = Some n"
    and "snd (validate_cluster (ad_validate env) (c\<lparr>mc_core_template := name\<rparr>)) = None"
    and "ResolveGlobalTopo (ve_env (ad_validate env)) (c\<lparr>mc_core_template := name\<rparr>) = Inr g"
  shows "snd (cluster_ValidateUpdate env c (c\<lparr>mc_core_template := name\<rparr>)) = None
    \<and> resolved_replicas (ve_env (ad_validate env)) (c\<lparr>mc_core_template := name\<rparr>) = Some n"
proof
  let ?new = "c\<lparr>mc_core_template := name\<rparr>"
  have "validateEtcdReplicasImmutable c ?new = None"
    using assms(2) by (simp add: validateEtcdReplicasImmutable_def effectiveEtcdReplicas_def)
  with assms(1,8) no_shrink_same [of "ad_parse_quantity env" c name]
  show "snd (cluster_ValidateUpdate env c ?new) = None"
    by (auto simp: cluster_ValidateUpdate_def Let_def first_of_def split: prod.split option.split)
  have "core_for (ve_env (ad_validate env)) ?new [] = Inr tpl"
    using assms(3,4) by (simp add: core_for_def ResolveCoreTemplate_def resolve_template_def or_text_def)
  with ResolveGlobalTopo_etcd [OF assms(9)] assms(2) obtain root where
    "gt_etcd g = map_option (\<lambda>e. defaultEtcdSpec e root) (gt_etcd (start_global_topo tpl))"
    by (auto simp: overlay_global_topo_def)
  with assms(5-7,9) show "resolved_replicas (ve_env (ad_validate env)) ?new = Some n"
    by (simp add: resolved_replicas_def start_global_topo_def defaultEtcdSpec_def or_default_def)
qed

subsection \<open>Instances\<close>

definition demo_quantity :: "string \<Rightarrow> string + int" where
  "demo_quantity s = (if s = ''1Gi'' then Inr 1 else if s = ''2Gi'' then Inr 2 else Inl ''unreadable'')"

definition demo_admission :: "resolve_env \<Rightarrow> cluster \<Rightarrow> admission_env" where
  "demo_admission renv c = \<lparr>ad_validate = valid_env\<lparr>ve_env := renv\<rparr>,
     ad_clusters = (\<lambda>_. Inr [\<lparr>lc_cluster = c, lc_deletion = None\<rparr>]), ad_parse_quantity = demo_quantity,
     ad_same_cell = (\<lambda>_ _. False), ad_same_shard = (\<lambda>_ _. False)\<rparr>"

definition sized_cluster :: "string \<Rightarrow> cluster" where
  "sized_cluster sz = full_cluster\<lparr>mc_databases := [demo_database\<lparr>db_table_groups := [demo_group\<lparr>tg_shards := [demo_shard\<lparr>
     sc_spec := Some \<lparr>si_multiorch = empty_multiorch, si_initdb_args = [], si_config_ref = None, si_config = fmempty,
       si_pools = fmupd ''default'' (empty_pool\<lparr>ps_type := ''readWrite'', ps_storage := empty_storage\<lparr>st_size := sz\<rparr>\<rparr>) fmempty,
       si_pvc_deletion_policy = None\<rparr>\<rparr>]\<rparr>]\<rparr>]\<rparr>"

definition plain_admission :: admission_env where
  "plain_admission = demo_admission (demo_env (\<lambda>_ _. Inl NotFound)) full_cluster"

lemma sized_update: "snd (cluster_ValidateUpdate plain_admission (sized_cluster ''1Gi'') (sized_cluster ''2Gi'')) = None"
  by code_simp

definition sized_resolved :: "string \<Rightarrow> resolve_error + resolved_shard" where
  "sized_resolved sz = (case each_shard (sized_cluster sz) of
     (db, tg, shard) # _ \<Rightarrow> resolved_for (ad_validate plain_admission) (sized_cluster sz) db tg shard)"

definition sized_quantity :: "string \<Rightarrow> (string + int) option" where
  "sized_quantity sz = (case sized_resolved sz of
     Inl _ \<Rightarrow> None | Inr res \<Rightarrow> map_option (ad_parse_quantity plain_admission) (resolved_size res ''default''))"

theorem cluster_update_keeps_witness:
  "snd (cluster_ValidateUpdate plain_admission (sized_cluster ''1Gi'') (sized_cluster ''2Gi'')) = None
   \<and> (\<exists>x y. sized_quantity ''1Gi'' = Some (Inr x) \<and> sized_quantity ''2Gi'' = Some (Inr y) \<and> x \<le> y)
   \<and> snd (cluster_ValidateUpdate plain_admission (sized_cluster ''2Gi'') (sized_cluster ''1Gi''))
       = Some (StorageShrunk ''postgres/default/0-inf/default'' ''2Gi'' ''1Gi'')"
proof -
  have refused: "snd (cluster_ValidateUpdate plain_admission (sized_cluster ''2Gi'') (sized_cluster ''1Gi''))
       = Some (StorageShrunk ''postgres/default/0-inf/default'' ''2Gi'' ''1Gi'')" by code_simp
  have "case sized_quantity ''1Gi'' of Some (Inr x) \<Rightarrow> True | _ \<Rightarrow> False" "case sized_quantity ''2Gi'' of Some (Inr y) \<Rightarrow> True | _ \<Rightarrow> False"
    by code_simp+
  then obtain x y where read: "sized_quantity ''1Gi'' = Some (Inr x)" "sized_quantity ''2Gi'' = Some (Inr y)"
    by (auto split: option.splits sum.splits)
  obtain db tg sh where s1: "each_shard (sized_cluster ''1Gi'') = [(db, tg, sh)]" and db: "db_name db = ''postgres''"
      "tg_name tg = ''default''" "sc_name sh = ''0-inf''"
    and w1: "\<exists>p. written_pool sh ''default'' = Some p \<and> st_size (ps_storage p) = ''1Gi''"
    by (simp add: each_shard_def sized_cluster_def written_pool_def demo_database_def demo_group_def demo_shard_def)
  obtain db' tg' sh' where s2: "each_shard (sized_cluster ''2Gi'') = [(db', tg', sh')]" and db': "db_name db' = ''postgres''"
      "tg_name tg' = ''default''" "sc_name sh' = ''0-inf''"
    and w2: "\<exists>p. written_pool sh' ''default'' = Some p \<and> st_size (ps_storage p) = ''2Gi''"
    by (simp add: each_shard_def sized_cluster_def written_pool_def demo_database_def demo_group_def demo_shard_def)
  have named: "well_named (sized_cluster ''1Gi'')" "well_named (sized_cluster ''2Gi'')"
    using db db' by (simp_all add: well_named_def s1 s2)
  note keeps = cluster_update_keeps [OF sized_update named]
  from w1 w2 obtain p p' where p: "written_pool sh ''default'' = Some p" "st_size (ps_storage p) \<noteq> []"
    "written_pool sh' ''default'' = Some p'" "st_size (ps_storage p') \<noteq> []" by auto
  have "x \<le> y" if xy: "sized_quantity ''1Gi'' = Some (Inr x)" "sized_quantity ''2Gi'' = Some (Inr y)" for x y
  proof -
    from xy obtain res res' where
      "resolved_for (ad_validate plain_admission) (sized_cluster ''1Gi'') db tg sh = Inr res"
      "resolved_for (ad_validate plain_admission) (sized_cluster ''2Gi'') db' tg' sh' = Inr res'"
      "map_option (ad_parse_quantity plain_admission) (resolved_size res ''default'') = Some (Inr x)"
      "map_option (ad_parse_quantity plain_admission) (resolved_size res' ''default'') = Some (Inr y)"
      by (auto simp: sized_quantity_def sized_resolved_def s1 s2 split: sum.splits)
    moreover have "shard_names (db, tg, sh) = shard_names (db', tg', sh')" using db db' by (simp add: shard_names_def)
    ultimately show ?thesis using keeps p s1 s2 by (metis list.set_intros(1))
  qed
  with sized_update read refused show ?thesis by blast
qed

lemma fallback_delete: "template_ValidateDelete plain_admission ''CellTemplate'' (CellObject ''default'' ''team'' blank_cell_template) = None"
  by code_simp

lemma full_gateways: "ValidateResolvedGateways valid_env full_cluster [] [] = None"
  by code_simp

theorem template_delete_keeps_clusters_witness:
  "ValidateClusterIntegrity (without_template ''CellTemplate'' ''team'' ''default'' (demo_env (\<lambda>_ _. Inl NotFound))) full_cluster = None"
proof -
  have "ad_validate plain_admission = valid_env" by (simp add: plain_admission_def demo_admission_def valid_env_def)
  moreover have "ve_env valid_env = demo_env (\<lambda>_ _. Inl NotFound)" by (simp add: valid_env_def)
  moreover have "ad_clusters plain_admission ''team'' = Inr [\<lparr>lc_cluster = full_cluster, lc_deletion = None\<rparr>]"
    by (simp add: plain_admission_def demo_admission_def)
  ultimately show ?thesis
    using template_delete_keeps_clusters [OF fallback_delete, of "[\<lparr>lc_cluster = full_cluster, lc_deletion = None\<rparr>]"
        "\<lparr>lc_cluster = full_cluster, lc_deletion = None\<rparr>"] full_integrity full_gateways by simp
qed

lemma cell_write: "template_ValidateCreate plain_admission ''CellTemplate'' (CellObject ''default'' ''team'' blank_cell_template) = None"
  by code_simp

theorem cell_template_write_keeps_gateways_witness:
  "ValidateResolvedGateways (seeded valid_env (\<lambda>e. with_cell e ''team'' ''default'' (Inr blank_cell_template))) full_cluster [] [] = None"
proof -
  have "ad_validate plain_admission = valid_env" by (simp add: plain_admission_def demo_admission_def valid_env_def)
  moreover have "ad_clusters plain_admission ''team'' = Inr [\<lparr>lc_cluster = full_cluster, lc_deletion = None\<rparr>]"
    by (simp add: plain_admission_def demo_admission_def)
  ultimately show ?thesis
    using cell_template_write_keeps_gateways [OF disjI1 [OF cell_write], of "[\<lparr>lc_cluster = full_cluster, lc_deletion = None\<rparr>]"
        "\<lparr>lc_cluster = full_cluster, lc_deletion = None\<rparr>"] full_gateways by simp
qed

definition members_template :: "int \<Rightarrow> core_template" where
  "members_template n = blank_core_template\<lparr>kt_global_topo := Some \<lparr>kt_etcd = Some (empty_etcd\<lparr>et_replicas := Some n\<rparr>),
     kt_pvc_deletion_policy = None, kt_placement = None\<rparr>\<rparr>"

definition sized_env :: resolve_env where
  "sized_env = (demo_env (\<lambda>_ _. Inl NotFound))\<lparr>re_core := (\<lambda>_ n. if n = ''small'' then Inr (members_template 3)
     else if n = ''large'' then Inr (members_template 5) else Inl NotFound)\<rparr>"

definition core_cluster :: "string \<Rightarrow> cluster" where
  "core_cluster name = full_cluster\<lparr>mc_core_template := name\<rparr>"

lemma large_cluster: "core_cluster ''large'' = (core_cluster ''small'')\<lparr>mc_core_template := ''large''\<rparr>"
  by (simp add: core_cluster_def)

lemma sized_valid:
  "snd (validate_cluster (ad_validate (demo_admission sized_env (core_cluster ''small''))) (core_cluster ''large'')) = None"
  "\<not> isl (ResolveGlobalTopo sized_env (core_cluster ''large''))"
  "resolved_replicas sized_env (core_cluster ''small'') = Some 3"
  by code_simp+

theorem etcd_replicas_change_by_template_witness:
  "resolved_replicas sized_env (core_cluster ''small'') = Some 3
   \<and> snd (cluster_ValidateUpdate (demo_admission sized_env (core_cluster ''small'')) (core_cluster ''small'') (core_cluster ''large'')) = None
   \<and> resolved_replicas sized_env (core_cluster ''large'') = Some 5"
proof -
  let ?env = "demo_admission sized_env (core_cluster ''small'')"
  have env: "ve_env (ad_validate ?env) = sized_env" by (simp add: demo_admission_def)
  obtain g where g: "ResolveGlobalTopo sized_env (core_cluster ''large'') = Inr g" using sized_valid(2) by (metis sum.collapse(2))
  have c: "mc_mode (core_cluster ''small'') \<noteq> ModeLite" "mc_global_topo (core_cluster ''small'') = None" by code_simp+
  have t: "re_core (ve_env (ad_validate ?env)) (mc_namespace (core_cluster ''small'')) ''large'' = Inr (members_template 5)"
    by (simp add: demo_admission_def sized_env_def)
  have "snd (cluster_ValidateUpdate ?env (core_cluster ''small'') (core_cluster ''large'')) = None
      \<and> resolved_replicas sized_env (core_cluster ''large'') = Some 5"
    using etcd_replicas_change_by_template [OF c _ t, where g = g] sized_valid(1) g
    by (simp add: env large_cluster [symmetric] members_template_def)
  with sized_valid(3) show ?thesis by blast
qed

end
