(* ===== verification/Lite_Identity.thy ===== *)
theory Lite_Identity
  imports Admission
begin

text \<open>
  A lite cluster keeps its one pool where it is. Its data lives in one volume, named after the database, table group,
  shard, pool and cell that the cluster resolves to, so admission refuses everything that would make it resolve to another
  name: updates of the cluster, and writes and deletions of the shard templates it uses, by name or as the fallback. Here
  admissions of clusters and shard templates are the steps of one machine, each deciding on the state it changes, and the
  name is shown to be the same in every reachable state.
\<close>

subsection \<open>The identity reads one template\<close>

definition lite_reference :: "cluster \<Rightarrow> shard_config \<Rightarrow> string" where
  "lite_reference c shard = or_text FallbackTemplate (or_text (mc_shard_template c) (sc_template shard))"

lemma or_text_idem [simp]: "or_text d (or_text d n) = or_text d n"
  by (simp add: or_text_def)

lemma identity_reads:
  assumes "\<And>shard. shard \<in> set (cluster_shards c) \<Longrightarrow>
      find_template get' empty_template (lite_reference c shard) = find_template get empty_template (lite_reference c shard)"
  shows "resolvedLiteIdentity get' c = resolvedLiteIdentity get c"
proof -
  have f: "find_template g empty_template (or_text FallbackTemplate n) = find_template g empty_template n" for g n
    unfolding find_template_at or_text_idem ..
  show ?thesis
    using assms unfolding resolvedLiteIdentity_def
    by (auto simp: resolve_shard_def lite_reference_def f cluster_shards_def split: list.splits prod.splits)
qed

lemma identity_other:
  assumes "\<not> usesResolvedShardTemplate c name"
  shows "resolvedLiteIdentity (get(name := r)) c = resolvedLiteIdentity get c"
proof (rule identity_reads)
  fix shard assume "shard \<in> set (cluster_shards c)"
  with assms have "lite_reference c shard \<noteq> name" by (auto simp: usesResolvedShardTemplate_def lite_reference_def list_ex_iff)
  then show "find_template (get(name := r)) empty_template (lite_reference c shard) = find_template get empty_template (lite_reference c shard)"
    by (intro find_template_other) (simp add: lite_reference_def)
qed

lemma identity_fallback_gone:
  "resolvedLiteIdentity (get(FallbackTemplate := Inl NotFound)) c = resolvedLiteIdentity (get(FallbackTemplate := Inr empty_template)) c"
  by (rule identity_reads) (rule find_fallback_gone)

text \<open>The identity only depends on where the template places pools.\<close>

definition places :: "shard_template \<Rightarrow> (string, string list) fmap \<times> string list" where
  "places t = (fmmap ps_cells (ts_pools t), case ts_multiorch t of None \<Rightarrow> [] | Some m \<Rightarrow> mo_cells m)"

lemma fmmap_merge:
  assumes "\<And>a b. g (f a b) = h (g a) (g b)"
  shows "fmmap g (merge_fmap f x y) = merge_fmap h (fmmap g x) (fmmap g y)"
  by (rule fmap_ext) (auto simp: lookup_merge_fmap assms split: option.splits)

lemma merged_places:
  assumes "places a = places b"
  shows "fmmap ps_cells (rs_pools (mergeShardConfig a ovr inl bk ib)) = fmmap ps_cells (rs_pools (mergeShardConfig b ovr inl bk ib))"
    and "mo_cells (rs_multiorch (mergeShardConfig a ovr inl bk ib)) = mo_cells (rs_multiorch (mergeShardConfig b ovr inl bk ib))"
proof -
  have pool: "fmmap ps_cells (merge_pools x y) = merge_fmap set_list (fmmap ps_cells x) (fmmap ps_cells y)" for x y
    by (rule fmmap_merge) (simp add: mergePoolSpec_def)
  have cells: "mo_cells (mergeMultiorchSpec x y) = set_list (mo_cells x) (mo_cells y)" for x y
    by (simp add: mergeMultiorchSpec_def)
  have start: "fmmap ps_cells (ts_pools a) = fmmap ps_cells (ts_pools b)"
      "mo_cells (case ts_multiorch a of None \<Rightarrow> empty_multiorch | Some m \<Rightarrow> m) = mo_cells (case ts_multiorch b of None \<Rightarrow> empty_multiorch | Some m \<Rightarrow> m)"
    using assms by (simp_all add: places_def empty_multiorch_def split: option.splits)
  show "fmmap ps_cells (rs_pools (mergeShardConfig a ovr inl bk ib)) = fmmap ps_cells (rs_pools (mergeShardConfig b ovr inl bk ib))"
    using start(1) by (cases ovr; cases inl; cases bk)
      (simp_all add: mergeShardConfig_def Let_def start_from_template_def apply_overrides_def apply_inline_def pool)
  show "mo_cells (rs_multiorch (mergeShardConfig a ovr inl bk ib)) = mo_cells (rs_multiorch (mergeShardConfig b ovr inl bk ib))"
    using start(2) by (cases ovr; cases inl; cases bk)
      (auto simp: mergeShardConfig_def Let_def start_from_template_def apply_overrides_def apply_inline_def cells split: option.splits)
qed

lemma fmmap_empty_iff: "fmmap g m = fmempty \<longleftrightarrow> m = fmempty"
proof
  assume e: "fmmap g m = fmempty"
  show "m = fmempty"
  proof (rule fmap_ext)
    fix k show "fmlookup m k = fmlookup fmempty k" using arg_cong [OF e, of "\<lambda>x. fmlookup x k"] by simp
  qed
qed simp

lemma resolved_places:
  assumes "places a = places b"
  shows "fmmap ps_cells (rs_pools (resolve_from a spec opts)) = fmmap ps_cells (rs_pools (resolve_from b spec opts))"
proof -
  let ?m = "\<lambda>t. mergeShardConfig t (sc_overrides spec) (sc_spec spec) (sc_backup spec) (ro_backup opts)"
  note eq = merged_places [OF assms, of "sc_overrides spec" "sc_spec spec" "sc_backup spec" "ro_backup opts"]
  have none: "rs_pools (?m a) = fmempty \<longleftrightarrow> rs_pools (?m b) = fmempty"
    using eq(1) fmmap_empty_iff by metis
  have r: "fmmap ps_cells (fmmap (resolve_pool opts) p) = fmmap (inject_cells opts) (fmmap ps_cells p)" for p
    by (rule fmap_ext) (simp add: option.map_comp comp_def)
  have c: "mo_cells (rs_multiorch (?m a)) = mo_cells (rs_multiorch (?m b))" by (rule eq(2))
  have s: "mo_cells (x\<lparr>mo_stateless := d\<rparr>) = mo_cells x" for x :: multiorch_spec and d by simp
  show ?thesis
    unfolding resolve_from_def Let_def using none c eq(1)
    by (simp add: r)
qed

lemma identity_places_eq:
  assumes "fmmap ps_cells (rs_pools x) = fmmap ps_cells (rs_pools y)"
  shows "shard_identity names x = shard_identity names y"
proof -
  have dom: "fmdom (rs_pools x) = fmdom (rs_pools y)" using arg_cong [OF assms, of fmdom] by simp
  have at: "map_option ps_cells (fmlookup (rs_pools x) n) = map_option ps_cells (fmlookup (rs_pools y) n)" for n
    using arg_cong [OF assms, of "\<lambda>m. fmlookup m n"] by simp
  have "map (map_prod id ps_cells) (pool_list (rs_pools x)) = map (map_prod id ps_cells) (pool_list (rs_pools y))"
    unfolding pool_list_def map_map dom
  proof (rule map_cong [OF refl])
    fix n assume "n \<in> set (sorted_list_of_fset (fmdom (rs_pools y)))"
    then have "n |\<in>| fmdom (rs_pools y)" by (simp add: sorted_list_of_fset_simps)
    then obtain p q where "fmlookup (rs_pools y) n = Some p" "fmlookup (rs_pools x) n = Some q"
      using dom by (metis fmdomE)
    with at [of n] show "(map_prod id ps_cells \<circ> (\<lambda>n. (n, the (fmlookup (rs_pools x) n)))) n
        = (map_prod id ps_cells \<circ> (\<lambda>n. (n, the (fmlookup (rs_pools y) n)))) n" by simp
  qed
  then show ?thesis unfolding shard_identity_def
    by (auto split: list.splits prod.splits)
qed

lemma identity_same_places:
  assumes "get name = Inr a" and "places a = places b"
  shows "resolvedLiteIdentity (get(name := Inr b)) c = resolvedLiteIdentity get c"
proof -
  have step: "(case resolve_shard (get(name := Inr b)) sp opts of Inl err \<Rightarrow> Inl (LiteUnresolved err) | Inr r \<Rightarrow> shard_identity names r)
      = (case resolve_shard get sp opts of Inl err \<Rightarrow> Inl (LiteUnresolved err) | Inr r \<Rightarrow> shard_identity names r)" for sp opts names
  proof (cases "or_text FallbackTemplate (sc_template sp) = name")
    case False
    then show ?thesis by (simp add: resolve_shard_def find_template_other)
  next
    case True
    then show ?thesis using assms(1) identity_places_eq [OF resolved_places [OF assms(2), of sp opts], of names]
      by (simp add: resolve_shard_def find_template_at)
  qed
  show ?thesis unfolding resolvedLiteIdentity_def step ..
qed

subsection \<open>The machine of admissions\<close>

record admission_state =
  as_templates :: "string \<Rightarrow> string \<Rightarrow> shard_template option"
  as_clusters :: "(string \<times> listed_cluster) list"
  as_used :: "string set"

definition getter_at :: "admission_state \<Rightarrow> string \<Rightarrow> shard_template template_getter" where
  "getter_at st ns n = (case as_templates st ns n of None \<Rightarrow> Inl NotFound | Some t \<Rightarrow> Inr t)"

definition env_at :: "admission_env \<Rightarrow> admission_state \<Rightarrow> admission_env" where
  "env_at base st = base\<lparr>
     ad_validate := seeded (ad_validate base) (\<lambda>e. e\<lparr>re_shard := getter_at st\<rparr>),
     ad_clusters := (\<lambda>ns. Inr (filter (\<lambda>l. mc_namespace (lc_cluster l) = ns) (map snd (as_clusters st))))\<rparr>"

definition put_template :: "string \<Rightarrow> string \<Rightarrow> shard_template option \<Rightarrow> admission_state \<Rightarrow> admission_state" where
  "put_template ns n t st = st\<lparr>as_templates := (as_templates st)(ns := (as_templates st ns)(n := t))\<rparr>"

definition put_cluster :: "string \<Rightarrow> (listed_cluster \<Rightarrow> listed_cluster) \<Rightarrow> admission_state \<Rightarrow> admission_state" where
  "put_cluster u f st = st\<lparr>as_clusters := map (\<lambda>(v, l). (v, if v = u then f l else l)) (as_clusters st)\<rparr>"

text \<open>The server gives every cluster it creates an identifier no cluster had before, and a cluster keeps its namespace.\<close>

inductive admitted :: "admission_env \<Rightarrow> admission_state \<Rightarrow> admission_state \<Rightarrow> bool" for base where
  create_template:
    "as_templates st ns n = None \<Longrightarrow> template_ValidateCreate (env_at base st) ''ShardTemplate'' (ShardObject n ns t) = None
     \<Longrightarrow> admitted base st (put_template ns n (Some t) st)"
| update_template:
    "as_templates st ns n = Some t
     \<Longrightarrow> template_ValidateUpdate (env_at base st) ''ShardTemplate'' (ShardObject n ns t) (ShardObject n ns t') = None
     \<Longrightarrow> admitted base st (put_template ns n (Some t') st)"
| delete_template:
    "as_templates st ns n = Some t \<Longrightarrow> template_ValidateDelete (env_at base st) ''ShardTemplate'' (ShardObject n ns t) = None
     \<Longrightarrow> admitted base st (put_template ns n None st)"
| create_cluster:
    "u \<notin> as_used st \<Longrightarrow> snd (cluster_ValidateCreate (env_at base st) c) = None
     \<Longrightarrow> admitted base st (st\<lparr>as_clusters := (u, \<lparr>lc_cluster = c, lc_deletion = None\<rparr>) # as_clusters st, as_used := insert u (as_used st)\<rparr>)"
| update_cluster:
    "(u, l) \<in> set (as_clusters st) \<Longrightarrow> mc_namespace new = mc_namespace (lc_cluster l)
     \<Longrightarrow> snd (cluster_ValidateUpdate (env_at base st) (lc_cluster l) new) = None
     \<Longrightarrow> admitted base st (put_cluster u (\<lambda>l. l\<lparr>lc_cluster := new\<rparr>) st)"
| delete_cluster:
    "admitted base st (put_cluster u (\<lambda>l. l\<lparr>lc_deletion := Some now\<rparr>) st)"
| remove_cluster:
    "admitted base st (st\<lparr>as_clusters := filter (\<lambda>(v, l). v \<noteq> u) (as_clusters st)\<rparr>)"

definition identity_in :: "admission_state \<Rightarrow> cluster \<Rightarrow> admission_error + string" where
  "identity_in st c = resolvedLiteIdentity (getter_at st (mc_namespace c)) c"

definition uids_known :: "admission_state \<Rightarrow> bool" where
  "uids_known st \<longleftrightarrow> distinct (map fst (as_clusters st)) \<and> fst ` set (as_clusters st) \<subseteq> as_used st"

definition keeps_identity :: "string \<Rightarrow> string \<Rightarrow> admission_state \<Rightarrow> bool" where
  "keeps_identity u ident st \<longleftrightarrow> uids_known st \<and> u \<in> as_used st
     \<and> (\<forall>l. (u, l) \<in> set (as_clusters st) \<and> lc_deletion l = None \<longrightarrow> mc_mode (lc_cluster l) = ModeLite \<and> identity_in st (lc_cluster l) = Inr ident)"

text \<open>What the argument for semantic equality promises: equal specifications place their pools alike.\<close>

definition same_places :: "admission_env \<Rightarrow> bool" where
  "same_places base \<longleftrightarrow> (\<forall>a b. ad_same_shard base a b \<longrightarrow> places a = places b)"

lemma getter_put: "getter_at (put_template ns n r st) ns'
    = (if ns' = ns then (getter_at st ns)(n := (case r of None \<Rightarrow> Inl NotFound | Some t \<Rightarrow> Inr t)) else getter_at st ns')"
  by (auto simp: getter_at_def put_template_def fun_eq_iff)

lemma getter_at_clusters [simp]: "getter_at (as_clusters_update f st) = getter_at st" "getter_at (as_used_update g st) = getter_at st"
  by (simp_all add: getter_at_def fun_eq_iff)

lemma env_at_simps [simp]:
  "ad_same_shard (env_at base st) = ad_same_shard base"
  "ad_clusters (env_at base st) ns = Inr (filter (\<lambda>l. mc_namespace (lc_cluster l) = ns) (map snd (as_clusters st)))"
  "re_shard (ve_env (ad_validate (env_at base st))) = getter_at st"
  by (simp_all add: env_at_def seeded_def)

lemma consumers_keep:
  assumes "validateLiteShardTemplateConsumers (env_at base st) ''ShardTemplate'' (ShardObject n ns t) = None"
    and "l \<in> snd ` set (as_clusters st)" and "lc_deletion l = None" and "mc_mode (lc_cluster l) = ModeLite"
    and "mc_namespace (lc_cluster l) = ns"
  shows "resolvedLiteIdentity ((getter_at st ns)(n := Inr t)) (lc_cluster l) = resolvedLiteIdentity (getter_at st ns) (lc_cluster l)"
proof (cases "usesResolvedShardTemplate (lc_cluster l) n")
  case False then show ?thesis by (rule identity_other)
next
  case True
  from assms(1,2,5) have "lite_consumer (env_at base st) ns n t l = None"
    by (auto simp: validateLiteShardTemplateConsumers_def)
  with assms(3,4) True have
    "validateLiteIdentityUpdate (getter_at st ns) ((getter_at st ns)(n := Inr t)) (lc_cluster l) (lc_cluster l) = None"
    by (simp add: lite_consumer_def Let_def with_shard_def split: option.splits)
  then show ?thesis by (simp add: validateLiteIdentityUpdate_def split: sum.splits if_splits)
qed

lemma delete_keeps:
  assumes "template_ValidateDelete (env_at base st) ''ShardTemplate'' (ShardObject n ns t) = None"
    and "l \<in> snd ` set (as_clusters st)" and "lc_deletion l = None" and "mc_mode (lc_cluster l) = ModeLite"
    and "mc_namespace (lc_cluster l) = ns"
  shows "resolvedLiteIdentity ((getter_at st ns)(n := Inl NotFound)) (lc_cluster l) = resolvedLiteIdentity (getter_at st ns) (lc_cluster l)"
proof (cases "n = FallbackTemplate")
  case True
  with assms(1) have "validateLiteShardTemplateConsumers (env_at base st) ''ShardTemplate'' (ShardObject n ns empty_template) = None"
    by (simp add: template_ValidateDelete_def Let_def)
  from consumers_keep [OF this assms(2-5)] show ?thesis using True identity_fallback_gone by simp
next
  case False
  from assms(1) have "\<forall>l\<in>set (filter (\<lambda>l. mc_namespace (lc_cluster l) = ns) (map snd (as_clusters st))).
      (if lc_deletion l \<noteq> None then None else if isTemplateInUse ''ShardTemplate'' (lc_cluster l) n
       then Some (TemplateInUse ''ShardTemplate'' n (mc_name (lc_cluster l))) else None) = None"
    by (simp add: template_ValidateDelete_def Let_def)
  with assms(2,3,5) have "\<not> isTemplateInUse ''ShardTemplate'' (lc_cluster l) n" by (auto split: if_splits)
  moreover have "isTemplateInUse ''ShardTemplate'' (lc_cluster l) n" if uses: "usesResolvedShardTemplate (lc_cluster l) n"
  proof -
    from uses obtain shard where shard: "shard \<in> set (cluster_shards (lc_cluster l))"
      and ref: "or_text FallbackTemplate (or_text (mc_shard_template (lc_cluster l)) (sc_template shard)) = n"
      by (auto simp: usesResolvedShardTemplate_def list_ex_iff)
    from ref False have n: "n \<noteq> []" and "n = mc_shard_template (lc_cluster l) \<or> n = sc_template shard"
      by (auto simp: or_text_def FallbackTemplate_def split: if_splits)
    with shard show ?thesis unfolding in_use_references [OF n] by (auto simp: kind_references_def shard_references_def)
  qed
  ultimately have "\<not> usesResolvedShardTemplate (lc_cluster l) n" by blast
  then show ?thesis by (rule identity_other)
qed

lemma uids_put [simp]: "uids_known (put_template ns n t st) = uids_known st" "uids_known (put_cluster u f st) = uids_known st"
proof -
  have "map fst (as_clusters (put_cluster u f st)) = map fst (as_clusters st)"
    by (simp add: put_cluster_def case_prod_beta comp_def)
  then show "uids_known (put_cluster u f st) = uids_known st"
    unfolding uids_known_def set_map [symmetric] by (simp only:) (simp add: put_cluster_def)
qed (simp add: uids_known_def put_template_def)

lemma uids_step:
  assumes "admitted base st st'" and "uids_known st"
  shows "uids_known st'" and "as_used st \<subseteq> as_used st'"
proof -
  show "uids_known st'" using assms
  proof (cases rule: admitted.cases)
    case (create_cluster u c) with assms(2) show ?thesis by (auto simp: uids_known_def)
  next
    case (remove_cluster u) with assms(2) show ?thesis by (auto simp: uids_known_def distinct_map_filter)
  qed (simp_all add: assms(2))
  show "as_used st \<subseteq> as_used st'" using assms(1)
    by (cases rule: admitted.cases) (auto simp: put_template_def put_cluster_def)
qed

text \<open>The step: whatever is admitted, a lite cluster that is not being deleted keeps its mode and its identity.\<close>

lemma template_step:
  assumes "keeps_identity u ident st"
    and "\<And>l. l \<in> snd ` set (as_clusters st) \<Longrightarrow> lc_deletion l = None \<Longrightarrow> mc_mode (lc_cluster l) = ModeLite \<Longrightarrow> mc_namespace (lc_cluster l) = ns
      \<Longrightarrow> resolvedLiteIdentity ((getter_at st ns)(n := (case t of None \<Rightarrow> Inl NotFound | Some x \<Rightarrow> Inr x))) (lc_cluster l)
        = resolvedLiteIdentity (getter_at st ns) (lc_cluster l)"
  shows "keeps_identity u ident (put_template ns n t st)"
proof -
  have "mc_mode (lc_cluster l) = ModeLite \<and> identity_in (put_template ns n t st) (lc_cluster l) = Inr ident"
    if l: "(u, l) \<in> set (as_clusters st)" "lc_deletion l = None" for l
  proof -
    from assms(1) l have m: "mc_mode (lc_cluster l) = ModeLite" and i: "identity_in st (lc_cluster l) = Inr ident"
      by (auto simp: keeps_identity_def)
    from l(1) have "l \<in> snd ` set (as_clusters st)" by force
    from assms(2) [OF this l(2) m] i have "identity_in (put_template ns n t st) (lc_cluster l) = Inr ident"
      by (cases "mc_namespace (lc_cluster l) = ns") (simp_all add: identity_in_def getter_put)
    with m show ?thesis by simp
  qed
  with assms(1) show ?thesis by (simp add: keeps_identity_def) (simp add: put_template_def)
qed

lemma update_step:
  assumes k: "keeps_identity u ident st" and upd: "(v, x) \<in> set (as_clusters st)"
    and ns: "mc_namespace new = mc_namespace (lc_cluster x)"
    and ok: "snd (cluster_ValidateUpdate (env_at base st) (lc_cluster x) new) = None"
  shows "keeps_identity u ident (put_cluster v (\<lambda>l. l\<lparr>lc_cluster := new\<rparr>) st)"
proof -
  let ?st = "put_cluster v (\<lambda>l. l\<lparr>lc_cluster := new\<rparr>) st"
  have same: "identity_in ?st = identity_in st"
    by (simp add: identity_in_def put_cluster_def fun_eq_iff)
  have "mc_mode (lc_cluster l) = ModeLite \<and> identity_in st (lc_cluster l) = Inr ident"
    if l: "(u, l) \<in> set (as_clusters ?st)" "lc_deletion l = None" for l
  proof (cases "u = v")
    case False
    then have "(u, l) \<in> set (as_clusters st)" using l(1) by (auto simp: put_cluster_def split: if_splits)
    then show ?thesis using k l(2) by (auto simp: keeps_identity_def)
  next
    case True
    from l(1) True obtain y where y: "(u, y) \<in> set (as_clusters st)" "l = y\<lparr>lc_cluster := new\<rparr>"
      by (auto simp: put_cluster_def split: if_splits)
    have "y = x" using y(1) upd True k unfolding keeps_identity_def uids_known_def by (metis eq_key_imp_eq_value)
    with y l(2) k have m: "mc_mode (lc_cluster x) = ModeLite" and i: "identity_in st (lc_cluster x) = Inr ident"
      by (auto simp: keeps_identity_def)
    from ok m have new: "mc_mode new = ModeLite"
      and "validateLiteIdentityUpdate (getter_at st (mc_namespace new)) (getter_at st (mc_namespace new)) (lc_cluster x) new = None"
      by (auto simp: cluster_ValidateUpdate_def Let_def split: if_splits option.splits)
    then have "identity_in st new = Inr ident"
      using i ns by (auto simp: validateLiteIdentityUpdate_def identity_in_def split: sum.splits if_splits)
    with new y \<open>y = x\<close> show ?thesis by simp
  qed
  with k same show ?thesis by (simp add: keeps_identity_def) (simp add: put_cluster_def)
qed

lemma identity_step:
  assumes "admitted base st st'" and "same_places base" and k: "keeps_identity u ident st"
  shows "keeps_identity u ident st'"
  using assms(1)
proof (cases rule: admitted.cases)
  case (create_template ns n t)
  from create_template(3) have "validateLiteShardTemplateConsumers (env_at base st) ''ShardTemplate'' (ShardObject n ns t) = None"
    by (simp add: template_ValidateCreate_def validateWrite_def)
  from consumers_keep [OF this] show ?thesis unfolding create_template(1) by (intro template_step [OF k]) simp
next
  case (update_template ns n t t')
  have "resolvedLiteIdentity ((getter_at st ns)(n := Inr t')) (lc_cluster l) = resolvedLiteIdentity (getter_at st ns) (lc_cluster l)"
    if "l \<in> snd ` set (as_clusters st)" "lc_deletion l = None" "mc_mode (lc_cluster l) = ModeLite" "mc_namespace (lc_cluster l) = ns" for l
  proof (cases "ad_same_shard base t t'")
    case True
    with assms(2) have "places t = places t'" by (simp add: same_places_def)
    moreover have "getter_at st ns n = Inr t" using update_template(2) by (simp add: getter_at_def)
    ultimately show ?thesis by (rule identity_same_places [rotated])
  next
    case False
    with update_template(3) have "validateLiteShardTemplateConsumers (env_at base st) ''ShardTemplate'' (ShardObject n ns t') = None"
      by (simp add: template_ValidateUpdate_def templateSpecUnchanged_def validateWrite_def)
    from consumers_keep [OF this that] show ?thesis .
  qed
  then show ?thesis unfolding update_template(1) by (intro template_step [OF k]) simp
next
  case (delete_template ns n t)
  from delete_keeps [OF delete_template(3)] show ?thesis unfolding delete_template(1) by (intro template_step [OF k]) simp
next
  case (create_cluster v c)
  have "v \<noteq> u" using k create_cluster(2) by (auto simp: keeps_identity_def)
  moreover have "uids_known st'" using uids_step(1) [OF assms(1)] k by (simp add: keeps_identity_def)
  ultimately show ?thesis using k create_cluster(1) by (auto simp: keeps_identity_def identity_in_def)
next
  case (update_cluster v l new)
  then show ?thesis using update_step [OF k update_cluster(2-4)] by simp
next
  case (delete_cluster v now)
  have "uids_known st'" using uids_step(1) [OF assms(1)] k by (simp add: keeps_identity_def)
  then show ?thesis using k delete_cluster
    by (auto simp: keeps_identity_def identity_in_def put_cluster_def split: if_splits)
next
  case (remove_cluster v)
  have "uids_known st'" using uids_step(1) [OF assms(1)] k by (simp add: keeps_identity_def)
  then show ?thesis using k remove_cluster by (auto simp: keeps_identity_def identity_in_def)
qed

lemma identity_run:
  assumes "(admitted base)\<^sup>*\<^sup>* st st'" and "same_places base" and "keeps_identity u ident st"
  shows "keeps_identity u ident st'"
  using assms(1,3) by (induction rule: rtranclp_induct) (auto intro: identity_step [OF _ assms(2)])

subsection \<open>Every admitted lite cluster has an identity\<close>

lemma resolve_from_backup: "rs_pools (resolve_from tpl sp (opts\<lparr>ro_backup := b\<rparr>)) = rs_pools (resolve_from tpl sp opts)"
proof -
  note defs = mergeShardConfig_def Let_def start_from_template_def apply_overrides_def apply_inline_def
  have pools: "rs_pools (mergeShardConfig tpl ovr inl bk ib) = rs_pools (mergeShardConfig tpl ovr inl bk ib')" for ovr inl bk ib ib'
    by (cases ovr; cases inl; cases bk) (simp_all add: defs)
  have orch: "rs_multiorch (mergeShardConfig tpl ovr inl bk ib) = rs_multiorch (mergeShardConfig tpl ovr inl bk ib')" for ovr inl bk ib ib'
    by (cases ovr; cases inl; cases bk) (simp_all add: defs split: option.split)
  have sel: "ro_cells (opts\<lparr>ro_backup := b\<rparr>) = ro_cells opts" "ro_mode (opts\<lparr>ro_backup := b\<rparr>) = ro_mode opts"
    "ro_materialize (opts\<lparr>ro_backup := b\<rparr>) = ro_materialize opts" by simp_all
  have inj: "inject_cells (opts\<lparr>ro_backup := b\<rparr>) = inject_cells opts" unfolding inject_cells_def sel ..
  have "resolve_pool (opts\<lparr>ro_backup := b\<rparr>) = resolve_pool opts" unfolding resolve_pool_def sel inj ..
  then show ?thesis
    using inj pools [of "sc_overrides sp" "sc_spec sp" "sc_backup sp" b "ro_backup opts"]
      orch [of "sc_overrides sp" "sc_spec sp" "sc_backup sp" b "ro_backup opts"]
    unfolding resolve_from_def Let_def by simp
qed

lemma admitted_lite_identity:
  assumes "snd (validate_cluster env c) = None" and "mc_mode c = ModeLite"
  shows "\<exists>ident. resolvedLiteIdentity (re_shard (ve_env env) (mc_namespace c)) c = Inr ident"
proof -
  let ?get = "re_shard (ve_env env) (mc_namespace c)"
  from assms(1) have "snd (ValidateClusterLogic env c) = None"
    by (simp add: validate_cluster_def case_prod_beta split: option.splits)
  then have "head_errors env c = None" unfolding ValidateClusterLogic_def by (cases "head_errors env c") simp_all
  with assms(2) have "validateLiteMode env c = None" unfolding head_errors_def first_of_None by simp
  then obtain cell db tg shard where shape: "mc_cells c = [cell]" "mc_databases c = [db]" "db_table_groups db = [tg]" "tg_shards tg = [shard]"
    and lite: "lite_shard env c db tg shard = None"
    by (auto simp: validateLiteMode_def length_Suc_conv split: if_splits list.splits)
  let ?sp = "shard\<lparr>sc_template := or_text (mc_shard_template c) (sc_template shard)\<rparr>"
  let ?opts = "(shard_options c (group_backup c db tg))\<lparr>ro_mode := ModeLite\<rparr>"
  have sp: "effective_shard c shard = ?sp" by (simp add: effective_shard_def or_text_def)
  have opts: "lite_options (cl_name cell) = ?opts\<lparr>ro_backup := None\<rparr>"
    using shape(1) by (simp add: lite_options_def shard_options_def)
  from lite sp obtain res where res: "resolve_shard ?get ?sp ?opts = Inr res"
    and one: "length (pool_list (rs_pools res)) = 1" and pool: "\<forall>x\<in>set (pool_list (rs_pools res)). lite_pool x = None"
    by (auto simp: lite_shard_def lite_unless_def split: sum.splits if_splits)
  from one pool obtain n p where np: "pool_list (rs_pools res) = [(n, p)]" and "lite_pool (n, p) = None"
    by (auto simp: length_Suc_conv)
  then obtain z where z: "ps_cells p = [z]" by (auto simp: lite_pool_def lite_unless_def length_Suc_conv split: if_splits)
  from res obtain tpl where tpl: "find_template ?get empty_template (sc_template ?sp) = Inr tpl" and "res = resolve_from tpl ?sp ?opts"
    unfolding resolve_shard_def by (cases "find_template ?get empty_template (sc_template ?sp)") auto
  then have "resolve_shard ?get ?sp (lite_options (cl_name cell)) = Inr (resolve_from tpl ?sp (?opts\<lparr>ro_backup := None\<rparr>))"
    and "rs_pools (resolve_from tpl ?sp (?opts\<lparr>ro_backup := None\<rparr>)) = rs_pools res"
    unfolding resolve_shard_def opts resolve_from_backup by simp_all
  then show ?thesis using np z by (simp add: resolvedLiteIdentity_def shape shard_identity_def)
qed

definition created :: "string \<Rightarrow> cluster \<Rightarrow> admission_state \<Rightarrow> admission_state" where
  "created u c st = st\<lparr>as_clusters := (u, \<lparr>lc_cluster = c, lc_deletion = None\<rparr>) # as_clusters st, as_used := insert u (as_used st)\<rparr>"

text \<open>
  C15: a lite cluster keeps its pool. A lite cluster whose creation is admitted has an identity (a database, table group,
  shard, pool and cell), and whatever sequence of admitted creations, updates and deletions of clusters and of shard
  templates follows, as long as it is there and not being deleted it is lite and has that identity.
\<close>

theorem lite_identity_fixed:
  assumes "snd (cluster_ValidateCreate (env_at base st) c) = None" and "mc_mode c = ModeLite"
    and "u \<notin> as_used st" and "uids_known st" and "same_places base"
  shows "\<exists>ident. identity_in st c = Inr ident \<and>
    (\<forall>st' l. (admitted base)\<^sup>*\<^sup>* (created u c st) st' \<and> (u, l) \<in> set (as_clusters st') \<and> lc_deletion l = None
       \<longrightarrow> mc_mode (lc_cluster l) = ModeLite \<and> identity_in st' (lc_cluster l) = Inr ident)"
proof -
  from admitted_lite_identity [of "ad_validate (env_at base st)" c] assms(1,2) obtain ident where ident: "identity_in st c = Inr ident"
    by (auto simp: cluster_ValidateCreate_def identity_in_def)
  have "admitted base st (created u c st)" unfolding created_def using assms(3,1) by (rule admitted.create_cluster)
  from uids_step(1) [OF this assms(4)] have "keeps_identity u ident (created u c st)"
    using ident assms(2-4) by (auto simp: keeps_identity_def created_def identity_in_def uids_known_def)
  then show ?thesis using ident identity_run [OF _ assms(5)] unfolding keeps_identity_def by blast
qed

subsection \<open>An instance\<close>

definition lite_cluster :: cluster where
  "lite_cluster = full_cluster\<lparr>mc_mode := ModeLite\<rparr>"

definition start_state :: admission_state where
  "start_state = \<lparr>as_templates = (\<lambda>_ _. None), as_clusters = [], as_used = {}\<rparr>"

lemma lite_created: "snd (cluster_ValidateCreate (env_at plain_admission start_state) lite_cluster) = None"
  by code_simp

lemma lite_template:
  "template_ValidateCreate (env_at plain_admission (created ''u'' lite_cluster start_state)) ''ShardTemplate''
     (ShardObject ''default'' ''team'' (empty_template\<lparr>ts_initdb_args := ''-k''\<rparr>)) = None"
  by code_simp

lemma lite_refused:
  "template_ValidateCreate (env_at plain_admission (created ''u'' lite_cluster start_state)) ''ShardTemplate''
     (ShardObject ''default'' ''team'' default_shard_template)
   = Some (LiteConsumer ''default'' ''c''
       (LiteIdentityChanged ''postgres/default/0-inf/default/z1'' ''postgres/default/0-inf/main/z1''))"
  by code_simp

theorem lite_identity_fixed_witness:
  "identity_in (put_template ''team'' ''default'' (Some (empty_template\<lparr>ts_initdb_args := ''-k''\<rparr>)) (created ''u'' lite_cluster start_state)) lite_cluster
   = identity_in start_state lite_cluster"
proof -
  let ?s = "created ''u'' lite_cluster start_state"
  let ?t = "put_template ''team'' ''default'' (Some (empty_template\<lparr>ts_initdb_args := ''-k''\<rparr>)) ?s"
  have "as_templates ?s ''team'' ''default'' = None" by (simp add: created_def start_state_def)
  from admitted.create_template [OF this lite_template] have "(admitted plain_admission)\<^sup>*\<^sup>* ?s ?t" by (rule r_into_rtranclp)
  moreover have "(''u'', \<lparr>lc_cluster = lite_cluster, lc_deletion = None\<rparr>) \<in> set (as_clusters ?t)"
    by (simp add: put_template_def created_def)
  moreover have "mc_mode lite_cluster = ModeLite" "''u'' \<notin> as_used start_state" "uids_known start_state" "same_places plain_admission"
    by (simp_all add: lite_cluster_def start_state_def uids_known_def same_places_def plain_admission_def demo_admission_def)
  ultimately show ?thesis using lite_identity_fixed [OF lite_created, of "''u''"] by fastforce
qed

end
