(* ===== verification/Cluster_Deletion.thy ===== *)
theory Cluster_Deletion
  imports Custom_Resources
begin

text \<open>
  The end of a cluster (\<^verbatim>\<open>handleDeletion\<close> and \<^verbatim>\<open>ensureClusterFinalizer\<close> of
  \<^verbatim>\<open>pkg/cluster-handler/controller/multigrescluster/multigrescluster_controller.go\<close>). The finalizer keeps the deleted cluster
  readable until its cells, table groups and shards are gone, because the shards decide by it whether their volumes go
  too. The second half runs the handler, pass after pass, against a server that answers it and children that each take
  some number of steps to go, and bounds the number of passes.
\<close>

abbreviation FinalizerClusterCleanup :: string where "FinalizerClusterCleanup \<equiv> ''multigres.com/cluster-cleanup''"
definition childDeletionRequeueDelay :: duration where "childDeletionRequeueDelay = 2 * second"

subsection \<open>Calls\<close>

datatype dcall =
    ListKind string labels
  | DeleteOwned string cobject
  | PatchFinalizers "string list"
  | ActivateCluster | ForgetCluster
  | CleanupEvent

type_synonym 'a dio = "(dcall list, 'a) state"

record dapi =
  da_list :: "dcall list \<Rightarrow> dcall \<Rightarrow> api_error + cobject list"
  da_write :: "dcall list \<Rightarrow> dcall \<Rightarrow> api_error option"

datatype end_error =
    EndListFailed string api_error | EndDeleteFailed string string api_error | EndFinalizerFailed api_error | EndAddFailed api_error

subsection \<open>The handler\<close>

definition ensureClusterFinalizer :: "dapi \<Rightarrow> string list \<Rightarrow> (string list \<times> end_error option) dio" where
  "ensureClusterFinalizer api finalizers =
     (if FinalizerClusterCleanup \<in> set finalizers then State_Monad.return (finalizers, None)
      else do {
        let finalizers' = finalizers @ [FinalizerClusterCleanup];
        w \<leftarrow> ask (da_write api) (PatchFinalizers finalizers');
        State_Monad.return (finalizers', map_option EndAddFailed w)
      })"

text \<open>The loop that deletes what is not being deleted yet; an object that is gone is no error.\<close>

fun delete_each :: "dapi \<Rightarrow> string \<Rightarrow> cobject list \<Rightarrow> end_error option dio" where
  "delete_each api kind [] = State_Monad.return None"
| "delete_each api kind (x # xs) =
     (if co_deletion x \<noteq> None then delete_each api kind xs
      else do {
        w \<leftarrow> ask (da_write api) (DeleteOwned kind x);
        case w of
          Some err \<Rightarrow>
            if err = NotFound then delete_each api kind xs
            else State_Monad.return (Some (EndDeleteFailed kind (co_name x) err))
        | None \<Rightarrow> delete_each api kind xs
      })"

definition list_kind :: "dapi \<Rightarrow> string \<Rightarrow> labels \<Rightarrow> (end_error + cobject list) dio" where
  "list_kind api kind ls = do {
     r \<leftarrow> ask (da_list api) (ListKind kind ls);
     State_Monad.return (case r of Inl err \<Rightarrow> Inl (EndListFailed kind err) | Inr items \<Rightarrow> Inr items)
   }"

definition list_and_delete :: "dapi \<Rightarrow> string \<Rightarrow> labels \<Rightarrow> (end_error + cobject list) dio" where
  "list_and_delete api kind ls = do {
     r \<leftarrow> list_kind api kind ls;
     case r of
       Inl err \<Rightarrow> State_Monad.return (Inl err)
     | Inr items \<Rightarrow> do {
         e \<leftarrow> delete_each api kind items;
         State_Monad.return (case e of Some err \<Rightarrow> Inl err | None \<Rightarrow> Inr items)
       }
   }"

definition cluster_labels :: "string \<Rightarrow> labels" where
  "cluster_labels name = [LabelMultigresCluster \<mapsto> name]"

definition topo_claim_labels :: "string \<Rightarrow> labels" where
  "topo_claim_labels name = [LabelMultigresCluster \<mapsto> name, LabelAppComponent \<mapsto> ''toposerver'']"

definition drop_finalizer :: "dapi \<Rightarrow> string list \<Rightarrow> (end_error + duration option) dio" where
  "drop_finalizer api finalizers = do {
     w \<leftarrow> (if FinalizerClusterCleanup \<in> set finalizers
          then ask (da_write api) (PatchFinalizers (filter (\<lambda>f. f \<noteq> FinalizerClusterCleanup) finalizers))
          else State_Monad.return None);
     case w of
       Some err \<Rightarrow> State_Monad.return (Inl (EndFinalizerFailed err))
     | None \<Rightarrow> do {
         emit ForgetCluster;
         emit CleanupEvent;
         State_Monad.return (Inr None)
       }
   }"

definition wait_for_shards :: "dapi \<Rightarrow> string \<Rightarrow> string list \<Rightarrow> cobject list \<Rightarrow> cobject list \<Rightarrow> (end_error + duration option) dio" where
  "wait_for_shards api name finalizers cells tableGroups = do {
     r \<leftarrow> list_kind api ''Shard'' (cluster_labels name);
     case r of
       Inl err \<Rightarrow> State_Monad.return (Inl err)
     | Inr shards \<Rightarrow>
         if shards \<noteq> [] \<or> tableGroups \<noteq> [] \<or> cells \<noteq> []
         then State_Monad.return (Inr (Some childDeletionRequeueDelay))
         else drop_finalizer api finalizers
   }"

definition cluster_handleDeletion :: "dapi \<Rightarrow> string \<Rightarrow> string list \<Rightarrow> (end_error + duration option) dio" where
  "cluster_handleDeletion api name finalizers = do {
     r1 \<leftarrow> list_and_delete api ''Cell'' (cluster_labels name);
     case r1 of
       Inl err \<Rightarrow> State_Monad.return (Inl err)
     | Inr cells \<Rightarrow> do {
         r2 \<leftarrow> list_and_delete api ''TableGroup'' (cluster_labels name);
         case r2 of
           Inl err \<Rightarrow> State_Monad.return (Inl err)
         | Inr tableGroups \<Rightarrow> do {
             r3 \<leftarrow> list_and_delete api ''PersistentVolumeClaim'' (topo_claim_labels name);
             case r3 of
               Inl err \<Rightarrow> State_Monad.return (Inl err)
             | Inr topoPVCs \<Rightarrow> wait_for_shards api name finalizers cells tableGroups
           }
       }
   }"

subsection \<open>The finalizer goes last\<close>

definition none_left :: "dapi \<Rightarrow> string \<Rightarrow> dcall list \<Rightarrow> bool" where
  "none_left api name h \<longleftrightarrow>
     seen (da_list api) h (ListKind ''Cell'' (cluster_labels name)) (Inr [])
     \<and> seen (da_list api) h (ListKind ''TableGroup'' (cluster_labels name)) (Inr [])
     \<and> seen (da_list api) h (ListKind ''Shard'' (cluster_labels name)) (Inr [])"

definition end_guard :: "dapi \<Rightarrow> string \<Rightarrow> dcall list \<Rightarrow> dcall \<Rightarrow> bool" where
  "end_guard api name h c =
     (case c of
        PatchFinalizers fs \<Rightarrow> none_left api name h
      | ForgetCluster \<Rightarrow> none_left api name h
      | DeleteOwned kind x \<Rightarrow> kind \<in> {''Cell'', ''TableGroup'', ''PersistentVolumeClaim''} \<and> co_deletion x = None
          \<and> (\<exists>ls items. seen (da_list api) h (ListKind kind ls) (Inr items) \<and> x \<in> set items)
      | _ \<Rightarrow> True)"

lemma keeps_delete_each:
  assumes "kind \<in> {''Cell'', ''TableGroup'', ''PersistentVolumeClaim''}"
    and "seen (da_list api) h (ListKind kind ls) (Inr items)" and "set xs \<subseteq> set items"
  shows "keeps (end_guard api name) (delete_each api kind xs) h"
  using assms(2,3)
proof (induction xs arbitrary: h)
  case Nil
  then show ?case by (simp add: keeps_return)
next
  case (Cons x xs)
  show ?case
  proof (cases "co_deletion x")
    case (Some t) then show ?thesis using Cons by simp
  next
    case None
    have "end_guard api name h (DeleteOwned kind x)" using None assms(1) Cons.prems by (auto simp: end_guard_def)
    then show ?thesis using None Cons.prems
      by (auto intro!: keeps_bind keeps_ask keeps_return Cons.IH seen_mono split: option.split)
  qed
qed

lemma list_and_delete_run:
  assumes "kind \<in> {''Cell'', ''TableGroup'', ''PersistentVolumeClaim''}"
  shows "keeps (end_guard api name) (list_and_delete api kind ls) h"
    and "run_state (list_and_delete api kind ls) h = (Inr items, h') \<Longrightarrow> seen (da_list api) h' (ListKind kind ls) (Inr items)"
proof -
  let ?c = "ListKind kind ls"
  have loop: "keeps (end_guard api name) (delete_each api kind xs) (h @ [?c])" if "da_list api h ?c = Inr xs" for xs
    using keeps_delete_each [OF assms] seen_last [of "da_list api" h ?c] that by blast
  then show "keeps (end_guard api name) (list_and_delete api kind ls) h"
    unfolding list_and_delete_def list_kind_def
    by (auto intro!: keeps_bind keeps_ask keeps_return simp: end_guard_def split: sum.split)
  assume r: "run_state (list_and_delete api kind ls) h = (Inr items, h')"
  then have l: "da_list api h ?c = Inr items"
    by (auto simp: list_and_delete_def list_kind_def split: sum.splits option.splits prod.splits)
  with r have "h' = snd (run_state (delete_each api kind items) (h @ [?c]))"
    by (auto simp: list_and_delete_def list_kind_def split: option.splits prod.splits)
  with keeps_run [OF loop [OF l]] show "seen (da_list api) h' ?c (Inr items)"
    using seen_mono [OF seen_last [of "da_list api" h ?c, OF l]] by auto
qed

lemma keeps_drop_finalizer: "none_left api name h \<Longrightarrow> keeps (end_guard api name) (drop_finalizer api fs) h"
proof -
  assume n: "none_left api name h"
  have mono: "none_left api name g \<Longrightarrow> none_left api name (g @ cs)" for g cs by (auto simp: none_left_def seen_mono)
  show ?thesis unfolding drop_finalizer_def using n mono
    by (auto intro!: keeps_bind keeps_ask keeps_emit keeps_return simp: end_guard_def split: option.split)
qed

lemma keeps_wait:
  assumes "seen (da_list api) h (ListKind ''Cell'' (cluster_labels name)) (Inr cells)"
    and "seen (da_list api) h (ListKind ''TableGroup'' (cluster_labels name)) (Inr groups)"
  shows "keeps (end_guard api name) (wait_for_shards api name fs cells groups) h"
proof -
  let ?c = "ListKind ''Shard'' (cluster_labels name)"
  have done_: "keeps (end_guard api name) (drop_finalizer api fs) (h @ [?c])"
    if "da_list api h ?c = Inr []" "groups = []" "cells = []"
    by (rule keeps_drop_finalizer)
      (use that seen_mono [OF assms(1)] seen_mono [OF assms(2)] seen_last [of "da_list api" h ?c, OF that(1)] in \<open>simp add: none_left_def\<close>)
  have listed: "keeps (end_guard api name) (list_kind api ''Shard'' (cluster_labels name)) h"
    unfolding list_kind_def by (auto intro!: keeps_bind keeps_ask keeps_return simp: end_guard_def)
  show ?thesis unfolding wait_for_shards_def
  proof (rule keeps_bind [OF listed])
    fix r h' assume "run_state (list_kind api ''Shard'' (cluster_labels name)) h = (r, h')"
    then have h': "h' = h @ [?c]" and r: "r = (case da_list api h ?c of Inl err \<Rightarrow> Inl (EndListFailed ''Shard'' err) | Inr items \<Rightarrow> Inr items)"
      by (simp_all add: list_kind_def)
    show "keeps (end_guard api name) (case r of Inl err \<Rightarrow> State_Monad.return (Inl err)
        | Inr shards \<Rightarrow> if shards \<noteq> [] \<or> groups \<noteq> [] \<or> cells \<noteq> [] then State_Monad.return (Inr (Some childDeletionRequeueDelay))
                        else drop_finalizer api fs) h'"
    proof (cases "da_list api h ?c")
      case (Inl e) then show ?thesis unfolding r by (simp add: keeps_return)
    next
      case (Inr xs)
      show ?thesis
      proof (cases "xs = [] \<and> groups = [] \<and> cells = []")
        case True then show ?thesis unfolding h' r Inr using done_ Inr by simp
      next
        case False then show ?thesis unfolding r Inr by (simp add: keeps_return)
      qed
    qed
  qed
qed

text \<open>What was read before a listing loop is still read after it.\<close>

lemma seen_through:
  assumes "kind \<in> {''Cell'', ''TableGroup'', ''PersistentVolumeClaim''}"
    and "run_state (list_and_delete api kind ls) h = (x, h')" and "seen (da_list api) h q v"
  shows "seen (da_list api) h' q v"
proof -
  obtain cs where "h' = h @ cs" using keeps_run [OF list_and_delete_run(1) [OF assms(1), of api "[]" ls h]] assms(2) by auto
  then show ?thesis using seen_mono [OF assms(3)] by simp
qed

lemma keeps_cluster_deletion: "keeps (end_guard api name) (cluster_handleDeletion api name fs) h"
  unfolding cluster_handleDeletion_def
proof (rule keeps_bind [OF list_and_delete_run(1)])
  let ?G = "end_guard api name" and ?l = "cluster_labels name"
  let ?claims = "list_and_delete api ''PersistentVolumeClaim'' (topo_claim_labels name)"
  have three: "keeps ?G (?claims \<bind> (\<lambda>r3. case r3 of Inl err \<Rightarrow> State_Monad.return (Inl err) | Inr topoPVCs \<Rightarrow> wait_for_shards api name fs cells groups)) h2"
    if "seen (da_list api) h2 (ListKind ''Cell'' ?l) (Inr cells)" "seen (da_list api) h2 (ListKind ''TableGroup'' ?l) (Inr groups)"
    for h2 cells groups
  proof (rule keeps_bind [OF list_and_delete_run(1)])
    fix x h3 assume r: "run_state ?claims h2 = (x, h3)"
    have "keeps ?G (wait_for_shards api name fs cells groups) h3"
      by (rule keeps_wait [OF seen_through [OF _ r that(1)] seen_through [OF _ r that(2)]]) simp_all
    then show "keeps ?G (case x of Inl err \<Rightarrow> State_Monad.return (Inl err) | Inr topoPVCs \<Rightarrow> wait_for_shards api name fs cells groups) h3"
      by (simp add: keeps_return split: sum.split)
  qed simp
  have two: "keeps ?G (list_and_delete api ''TableGroup'' ?l \<bind> (\<lambda>r2. case r2 of Inl err \<Rightarrow> State_Monad.return (Inl err)
       | Inr groups \<Rightarrow> ?claims \<bind> (\<lambda>r3. case r3 of Inl err \<Rightarrow> State_Monad.return (Inl err) | Inr topoPVCs \<Rightarrow> wait_for_shards api name fs cells groups))) h1"
    if "seen (da_list api) h1 (ListKind ''Cell'' ?l) (Inr cells)" for h1 cells
  proof (rule keeps_bind [OF list_and_delete_run(1)])
    fix x h2 assume r: "run_state (list_and_delete api ''TableGroup'' ?l) h1 = (x, h2)"
    show "keeps ?G (case x of Inl err \<Rightarrow> State_Monad.return (Inl err)
       | Inr groups \<Rightarrow> ?claims \<bind> (\<lambda>r3. case r3 of Inl err \<Rightarrow> State_Monad.return (Inl err) | Inr topoPVCs \<Rightarrow> wait_for_shards api name fs cells groups)) h2"
    proof (cases x)
      case (Inl e) then show ?thesis by (simp add: keeps_return)
    next
      case (Inr groups)
      then show ?thesis using three [OF seen_through [OF _ r that] list_and_delete_run(2)] r by simp
    qed
  qed simp
  fix x h1 assume r: "run_state (list_and_delete api ''Cell'' ?l) h = (x, h1)"
  show "keeps ?G (case x of Inl err \<Rightarrow> State_Monad.return (Inl err) | Inr cells \<Rightarrow>
      list_and_delete api ''TableGroup'' ?l \<bind> (\<lambda>r2. case r2 of Inl err \<Rightarrow> State_Monad.return (Inl err)
       | Inr groups \<Rightarrow> ?claims \<bind> (\<lambda>r3. case r3 of Inl err \<Rightarrow> State_Monad.return (Inl err) | Inr topoPVCs \<Rightarrow> wait_for_shards api name fs cells groups))) h1"
  proof (cases x)
    case (Inl e) then show ?thesis by (simp add: keeps_return)
  next
    case (Inr cells)
    then show ?thesis using two [OF list_and_delete_run(2)] r by simp
  qed
qed simp

text \<open>
  C24: the finalizer of a cluster goes last. A pass over a deleted cluster gives up the finalizer (and the cluster's RPC
  clients) only after it read, in this pass, that no cell, no table group and no shard of the cluster is left; and it only
  deletes cells, table groups and topology claims it read and that nobody is deleting.
\<close>

theorem cluster_finalizer_last:
  assumes "snd (run_state (cluster_handleDeletion api name fs) []) = before @ c # after"
  shows "(c = ForgetCluster \<or> c = PatchFinalizers gs \<longrightarrow> none_left api name before)
    \<and> (c = DeleteOwned kind x \<longrightarrow> kind \<in> {''Cell'', ''TableGroup'', ''PersistentVolumeClaim''} \<and> co_deletion x = None
          \<and> (\<exists>ls items. seen (da_list api) before (ListKind kind ls) (Inr items) \<and> x \<in> set items))"
proof -
  have "guarded (end_guard api name) [] (before @ c # after)"
    using keeps_cluster_deletion [of api name fs "[]"] assms by (auto simp: keeps_def)
  then have "end_guard api name before c" by simp
  then show ?thesis by (auto simp: end_guard_def)
qed

subsection \<open>Passes against a server\<close>

text \<open>
  A child with the number of steps it takes to go once somebody deletes it (its own finalizers), and for a shard the table
  group that owns it. The server answers a pass with what there is, stamps what the pass deletes, and between two passes
  every stamped child takes a step; a shard whose owner is gone is deleted by the garbage collector.
\<close>

record child =
  ch_object :: cobject
  ch_work :: nat
  ch_owner :: string

record world =
  w_cells :: "child list"
  w_groups :: "child list"
  w_shards :: "child list"
  w_claims :: "cobject list"
  w_finalizers :: "string list"

definition world_api :: "world \<Rightarrow> dapi" where
  "world_api w = \<lparr>da_list = (\<lambda>h c. case c of
       ListKind kind ls \<Rightarrow> Inr
         (if kind = ''Cell'' then map ch_object (w_cells w)
          else if kind = ''TableGroup'' then map ch_object (w_groups w)
          else if kind = ''Shard'' then map ch_object (w_shards w)
          else w_claims w)
     | _ \<Rightarrow> Inr []),
     da_write = (\<lambda>h c. None)\<rparr>"

definition stamped :: "child \<Rightarrow> bool" where
  "stamped x \<longleftrightarrow> co_deletion (ch_object x) \<noteq> None"

definition stamp :: "child \<Rightarrow> child" where
  "stamp x = (if stamped x then x else x\<lparr>ch_object := (ch_object x)\<lparr>co_deletion := Some 0\<rparr>\<rparr>)"

definition stamp_deleted :: "dcall list \<Rightarrow> string \<Rightarrow> child list \<Rightarrow> child list" where
  "stamp_deleted calls kind xs = map (\<lambda>x. if DeleteOwned kind (ch_object x) \<in> set calls then stamp x else x) xs"

definition finalizers_after :: "dcall list \<Rightarrow> string list \<Rightarrow> string list" where
  "finalizers_after calls fs = fold (\<lambda>c fs. case c of PatchFinalizers gs \<Rightarrow> gs | _ \<Rightarrow> fs) calls fs"

definition take_step :: "child \<Rightarrow> child option" where
  "take_step x = (if \<not> stamped x then Some x else case ch_work x of 0 \<Rightarrow> None | Suc n \<Rightarrow> Some (x\<lparr>ch_work := n\<rparr>))"

definition collect_orphans :: "child list \<Rightarrow> child list \<Rightarrow> child list" where
  "collect_orphans groups shards =
     map (\<lambda>x. if list_ex (\<lambda>g. co_name (ch_object g) = ch_owner x) groups then x else stamp x) shards"

definition deletion_pass :: "string \<Rightarrow> world \<Rightarrow> dcall list" where
  "deletion_pass name w = snd (run_state (cluster_handleDeletion (world_api w) name (w_finalizers w)) [])"

definition deletion_round :: "string \<Rightarrow> world \<Rightarrow> world" where
  "deletion_round name w =
     (let calls = deletion_pass name w
      in \<lparr>w_cells = List.map_filter take_step (stamp_deleted calls ''Cell'' (w_cells w)),
          w_groups = List.map_filter take_step (stamp_deleted calls ''TableGroup'' (w_groups w)),
          w_shards = List.map_filter take_step (collect_orphans (w_groups w) (w_shards w)),
          w_claims = filter (\<lambda>v. DeleteOwned ''PersistentVolumeClaim'' v \<notin> set calls) (w_claims w),
          w_finalizers = finalizers_after calls (w_finalizers w)\<rparr>)"

definition child_size :: "child \<Rightarrow> nat" where
  "child_size x = ch_work x + (if stamped x then 1 else 2)"

definition children_size :: "child list \<Rightarrow> nat" where
  "children_size xs = sum_list (map child_size xs)"

definition world_size :: "world \<Rightarrow> nat" where
  "world_size w = children_size (w_cells w) + children_size (w_groups w) + children_size (w_shards w)"

lemma world_answers [simp]:
  "da_list (world_api w) h (ListKind ''Cell'' ls) = Inr (map ch_object (w_cells w))"
  "da_list (world_api w) h (ListKind ''TableGroup'' ls) = Inr (map ch_object (w_groups w))"
  "da_list (world_api w) h (ListKind ''Shard'' ls) = Inr (map ch_object (w_shards w))"
  "da_list (world_api w) h (ListKind ''PersistentVolumeClaim'' ls) = Inr (w_claims w)"
  "da_write (world_api w) h c = None"
  by (simp_all add: world_api_def)

lemma run_delete_each:
  "run_state (delete_each (world_api w) kind xs) h = (None, h @ map (DeleteOwned kind) (filter (\<lambda>x. co_deletion x = None) xs))"
  by (induction xs arbitrary: h) simp_all

definition deletes :: "string \<Rightarrow> cobject list \<Rightarrow> dcall list" where
  "deletes kind xs = map (DeleteOwned kind) (filter (\<lambda>x. co_deletion x = None) xs)"

text \<open>The calls of a pass against that server, and its answer.\<close>

lemma run_handleDeletion:
  "deletion_pass name w =
     ListKind ''Cell'' (cluster_labels name) # deletes ''Cell'' (map ch_object (w_cells w))
     @ ListKind ''TableGroup'' (cluster_labels name) # deletes ''TableGroup'' (map ch_object (w_groups w))
     @ ListKind ''PersistentVolumeClaim'' (topo_claim_labels name) # deletes ''PersistentVolumeClaim'' (w_claims w)
     @ ListKind ''Shard'' (cluster_labels name)
     # (if w_shards w \<noteq> [] \<or> w_groups w \<noteq> [] \<or> w_cells w \<noteq> [] then []
        else (if FinalizerClusterCleanup \<in> set (w_finalizers w)
              then [PatchFinalizers (filter (\<lambda>f. f \<noteq> FinalizerClusterCleanup) (w_finalizers w))] else [])
          @ [ForgetCluster, CleanupEvent])"
proof -
  have l: "run_state (list_and_delete (world_api w) kind ls) h
      = (case da_list (world_api w) h (ListKind kind ls) of Inl e \<Rightarrow> (Inl (EndListFailed kind e), h @ [ListKind kind ls])
          | Inr items \<Rightarrow> (Inr items, h @ ListKind kind ls # deletes kind items))" for kind ls h
    by (simp add: list_and_delete_def list_kind_def run_delete_each deletes_def split: sum.split)
  show ?thesis
    by (simp add: deletion_pass_def cluster_handleDeletion_def l wait_for_shards_def drop_finalizer_def list_kind_def)
qed

subsection \<open>Every round makes progress\<close>

lemma stamp_simps [simp]: "stamped (stamp x)" "ch_work (stamp x) = ch_work x" "stamped x \<Longrightarrow> stamp x = x"
  by (auto simp: stamp_def stamped_def)

lemma child_size_pos [simp]: "0 < child_size x"
  by (simp add: child_size_def)

lemma stamp_size: "child_size (stamp x) \<le> child_size x"
  by (simp add: child_size_def)

lemma step_size: "take_step x = Some y \<Longrightarrow> child_size y \<le> child_size x \<and> (stamped x \<longrightarrow> child_size y < child_size x)"
  by (auto simp: take_step_def child_size_def stamped_def split: if_splits nat.splits)

lemma steps_size: "children_size (List.map_filter take_step xs) \<le> children_size xs"
  by (induction xs) (auto simp: children_size_def map_filter_simps dest: step_size split: option.split)

lemma steps_progress: "list_ex stamped xs \<Longrightarrow> children_size (List.map_filter take_step xs) < children_size xs"
proof (induction xs)
  case (Cons x xs)
  show ?case
  proof (cases "stamped x")
    case True
    then have "(case take_step x of None \<Rightarrow> 0 | Some y \<Rightarrow> child_size y) < child_size x"
      by (auto split: option.split dest: step_size)
    then show ?thesis using steps_size [of xs]
      by (auto simp: children_size_def map_filter_simps split: option.splits)
  next
    case False
    then have "take_step x = Some x" by (simp add: take_step_def)
    then show ?thesis using Cons False by (simp add: children_size_def map_filter_simps)
  qed
qed simp

lemma map_size: "(\<And>x. child_size (f x) \<le> child_size x) \<Longrightarrow> children_size (map f xs) \<le> children_size xs"
  by (induction xs) (auto simp: children_size_def intro: add_mono)

lemma map_size_less:
  assumes "\<And>x. child_size (f x) \<le> child_size x" and "x \<in> set xs" and "child_size (f x) < child_size x"
  shows "children_size (map f xs) < children_size xs"
  using assms(2)
proof (induction xs)
  case (Cons y ys)
  show ?case using Cons assms(1) [of y] assms(3) map_size [of f ys, OF assms(1)]
    by (cases "x = y") (auto simp: children_size_def)
qed simp

lemma deleted_all: "x \<in> set xs \<Longrightarrow> \<not> stamped x \<Longrightarrow> DeleteOwned kind (ch_object x) \<in> set (deletes kind (map ch_object xs))"
  by (auto simp: deletes_def stamped_def)

text \<open>After a pass every cell and every table group is stamped.\<close>

lemma pass_stamps:
  "list_all stamped (stamp_deleted (deletion_pass name w) ''Cell'' (w_cells w))"
  "list_all stamped (stamp_deleted (deletion_pass name w) ''TableGroup'' (w_groups w))"
proof -
  have "DeleteOwned ''Cell'' (ch_object x) \<in> set (deletion_pass name w)" if "x \<in> set (w_cells w)" "\<not> stamped x" for x
    unfolding run_handleDeletion using deleted_all [OF that] by simp
  then show "list_all stamped (stamp_deleted (deletion_pass name w) ''Cell'' (w_cells w))"
    by (auto simp: list_all_iff stamp_deleted_def)
  have "DeleteOwned ''TableGroup'' (ch_object x) \<in> set (deletion_pass name w)" if "x \<in> set (w_groups w)" "\<not> stamped x" for x
    unfolding run_handleDeletion using deleted_all [OF that] by simp
  then show "list_all stamped (stamp_deleted (deletion_pass name w) ''TableGroup'' (w_groups w))"
    by (auto simp: list_all_iff stamp_deleted_def)
qed

lemma stamp_deleted_size: "children_size (stamp_deleted calls kind xs) \<le> children_size xs"
  unfolding stamp_deleted_def by (rule map_size) (simp add: stamp_size)

lemma collect_size: "children_size (collect_orphans groups xs) \<le> children_size xs"
  unfolding collect_orphans_def by (rule map_size) (simp add: stamp_size)

lemma all_stamped_progress:
  "list_all stamped xs \<Longrightarrow> xs \<noteq> [] \<Longrightarrow> children_size (List.map_filter take_step xs) < children_size xs"
  by (rule steps_progress) (cases xs; simp)

lemma round_size:
  "children_size (w_cells (deletion_round name w)) \<le> children_size (w_cells w)"
  "children_size (w_groups (deletion_round name w)) \<le> children_size (w_groups w)"
  "children_size (w_shards (deletion_round name w)) \<le> children_size (w_shards w)"
proof -
  show "children_size (w_cells (deletion_round name w)) \<le> children_size (w_cells w)"
    using order_trans [OF steps_size stamp_deleted_size] by (simp add: deletion_round_def Let_def)
  show "children_size (w_groups (deletion_round name w)) \<le> children_size (w_groups w)"
    using order_trans [OF steps_size stamp_deleted_size] by (simp add: deletion_round_def Let_def)
  show "children_size (w_shards (deletion_round name w)) \<le> children_size (w_shards w)"
    using order_trans [OF steps_size collect_size] by (simp add: deletion_round_def Let_def)
qed

lemma round_progress:
  assumes "w_shards w \<noteq> [] \<or> w_groups w \<noteq> [] \<or> w_cells w \<noteq> []"
  shows "world_size (deletion_round name w) < world_size w"
proof -
  let ?s = "\<lambda>kind xs. stamp_deleted (deletion_pass name w) kind xs"
  note le = round_size [of name w]
  consider "w_cells w \<noteq> []" | "w_groups w \<noteq> []" | "w_groups w = []" "w_shards w \<noteq> []" using assms by blast
  then show ?thesis
  proof cases
    case 1
    have "?s ''Cell'' (w_cells w) \<noteq> []" using 1 by (simp add: stamp_deleted_def)
    from all_stamped_progress [OF pass_stamps(1) this]
    have "children_size (w_cells (deletion_round name w)) < children_size (w_cells w)"
      using stamp_deleted_size [of "deletion_pass name w" "''Cell''" "w_cells w"] by (simp add: deletion_round_def Let_def)
    then show ?thesis using le by (simp add: world_size_def)
  next
    case 2
    have "?s ''TableGroup'' (w_groups w) \<noteq> []" using 2 by (simp add: stamp_deleted_def)
    from all_stamped_progress [OF pass_stamps(2) this]
    have "children_size (w_groups (deletion_round name w)) < children_size (w_groups w)"
      using stamp_deleted_size [of "deletion_pass name w" "''TableGroup''" "w_groups w"] by (simp add: deletion_round_def Let_def)
    then show ?thesis using le by (simp add: world_size_def)
  next
    case 3
    have "list_all stamped (collect_orphans (w_groups w) (w_shards w))" "collect_orphans (w_groups w) (w_shards w) \<noteq> []"
      using 3 by (simp_all add: collect_orphans_def list_all_iff)
    from all_stamped_progress [OF this]
    have "children_size (w_shards (deletion_round name w)) < children_size (w_shards w)"
      using collect_size [of "w_groups w" "w_shards w"] by (simp add: deletion_round_def Let_def)
    then show ?thesis using le by (simp add: world_size_def)
  qed
qed

lemma finalizers_deletes [simp]: "finalizers_after (deletes kind xs) fs = fs"
  by (induction xs) (simp_all add: finalizers_after_def deletes_def)

lemma finalizers_append [simp]: "finalizers_after (xs @ ys) fs = finalizers_after ys (finalizers_after xs fs)"
  by (simp add: finalizers_after_def)

lemma finalizers_Cons [simp]:
  "finalizers_after (c # ys) fs = finalizers_after ys (case c of PatchFinalizers gs \<Rightarrow> gs | _ \<Rightarrow> fs)" "finalizers_after [] fs = fs"
  by (simp_all add: finalizers_after_def)

lemma round_finalizers:
  "w_finalizers (deletion_round name w) =
     (if w_shards w \<noteq> [] \<or> w_groups w \<noteq> [] \<or> w_cells w \<noteq> [] then w_finalizers w
      else filter (\<lambda>f. f \<noteq> FinalizerClusterCleanup) (w_finalizers w))"
proof -
  have "FinalizerClusterCleanup \<notin> set fs \<Longrightarrow> filter (\<lambda>f. f \<noteq> FinalizerClusterCleanup) fs = fs" for fs
    by (rule filter_True) auto
  then show ?thesis by (simp add: deletion_round_def Let_def run_handleDeletion)
qed

definition emptied :: "world \<Rightarrow> bool" where
  "emptied w \<longleftrightarrow> w_shards w = [] \<and> w_groups w = [] \<and> w_cells w = []"

text \<open>
  C25: the deletion of a cluster ends. However many steps each cell, table group and shard takes to go once it is deleted,
  after at most as many passes as their sizes add up to none is left, and the next pass gives up the finalizer; until then
  no pass gives it up.
\<close>

theorem cluster_deletion_ends:
  "\<exists>n \<le> world_size w. emptied ((deletion_round name ^^ n) w)
     \<and> w_finalizers ((deletion_round name ^^ n) w) = w_finalizers w
     \<and> FinalizerClusterCleanup \<notin> set (w_finalizers ((deletion_round name ^^ Suc n) w))"
proof (induction "world_size w" arbitrary: w rule: less_induct)
  case less
  show ?case
  proof (cases "emptied w")
    case True
    then show ?thesis by (intro exI [of _ 0]) (simp add: emptied_def round_finalizers)
  next
    case False
    then have lt: "world_size (deletion_round name w) < world_size w"
      and fs: "w_finalizers (deletion_round name w) = w_finalizers w"
      by (auto simp: emptied_def round_finalizers intro: round_progress)
    from less [OF lt] obtain n where n: "n \<le> world_size (deletion_round name w)"
      "emptied ((deletion_round name ^^ n) (deletion_round name w))"
      "w_finalizers ((deletion_round name ^^ n) (deletion_round name w)) = w_finalizers (deletion_round name w)"
      "FinalizerClusterCleanup \<notin> set (w_finalizers ((deletion_round name ^^ Suc n) (deletion_round name w)))" by blast
    show ?thesis
      by (rule exI [of _ "Suc n"]) (use n lt fs in \<open>simp add: funpow_swap1 del: funpow.simps add: funpow_Suc_right\<close>)
  qed
qed

subsection \<open>An instance\<close>

definition last_world :: world where
  "last_world = \<lparr>w_cells = [], w_groups = [], w_shards = [], w_claims = [], w_finalizers = [FinalizerClusterCleanup]\<rparr>"

theorem cluster_finalizer_last_witness:
  "none_left (world_api last_world) ''c''
     [ListKind ''Cell'' (cluster_labels ''c''), ListKind ''TableGroup'' (cluster_labels ''c''),
      ListKind ''PersistentVolumeClaim'' (topo_claim_labels ''c''), ListKind ''Shard'' (cluster_labels ''c'')]"
proof -
  let ?b = "[ListKind ''Cell'' (cluster_labels ''c''), ListKind ''TableGroup'' (cluster_labels ''c''),
      ListKind ''PersistentVolumeClaim'' (topo_claim_labels ''c''), ListKind ''Shard'' (cluster_labels ''c'')]"
  have "snd (run_state (cluster_handleDeletion (world_api last_world) ''c'' [FinalizerClusterCleanup]) [])
      = ?b @ PatchFinalizers [] # [ForgetCluster, CleanupEvent]"
    using run_handleDeletion [of "''c''" last_world] by (simp add: deletion_pass_def last_world_def deletes_def)
  from cluster_finalizer_last [OF this, of "[]"] show ?thesis by simp
qed

end
