(* ===== verification/Etcd_Maintenance.thy ===== *)
theory Etcd_Maintenance
  imports Custom_Resources Config_Layers Pg_Sizing
begin

text \<open>
  Defragmentation of the managed etcd (\<^verbatim>\<open>pkg/resource-handler/controller/toposerver/maintenance.go\<close>): one member at a time,
  under a reservation written to the status of the TopoServer with a precondition on its version, with the health of all
  members checked before and after, and never on the leader. Dialing the members, the answers of etcd, the clock and the
  floating point comparison of sizes are arguments; a deadline of a context is a call that fails.
\<close>

subsection \<open>Objects\<close>

record maintenance_state =
  ms_last_attempt :: gotime
  ms_endpoint :: string
  ms_in_progress :: bool

record topo_object =
  tv_name :: string
  tv_namespace :: string
  tv_uid :: string
  tv_version :: string
  tv_generation :: int
  tv_deletion :: "gotime option"
  tv_tls :: bool
  tv_etcd :: "etcd_spec option"
  tv_state :: "maintenance_state option"

record member_status =
  mr_header :: "(64 word \<times> 64 word) option"
  mr_leader :: "64 word"
  mr_learner :: bool
  mr_errors :: "string list"
  mr_db_size :: int
  mr_in_use :: int

record stateful_set =
  ss_uid :: string
  ss_owner :: "string option"
  ss_deletion :: "gotime option"
  ss_replicas :: "int option"
  ss_generation :: int
  ss_observed_generation :: int
  ss_ready_replicas :: int
  ss_updated_replicas :: int
  ss_current_revision :: string
  ss_update_revision :: string

record member_pod =
  mp_owner :: "string option"
  mp_deletion :: "gotime option"
  mp_revision :: string
  mp_conditions :: "pod_condition list"

datatype mcall =
    GetTopo | GetSet | GetMemberPod string | OpenClient
  | ListMembers | MemberStatus string | MemberHealth string
  | MoveLeader string "64 word" | Defragment string
  | SaveState topo_object maintenance_state | DefragmentedEvent string int

type_synonym 'a mio = "(mcall list, 'a) state"

text \<open>A save answers with the version the object got; a member is its identifier and whether it is a learner.\<close>

record mapi =
  ma_topo :: "mcall list \<Rightarrow> mcall \<Rightarrow> api_error + topo_object"
  ma_set :: "mcall list \<Rightarrow> mcall \<Rightarrow> api_error + stateful_set"
  ma_pod :: "mcall list \<Rightarrow> mcall \<Rightarrow> api_error + member_pod"
  ma_members :: "mcall list \<Rightarrow> mcall \<Rightarrow> string + (64 word \<times> bool) list"
  ma_status :: "mcall list \<Rightarrow> mcall \<Rightarrow> string + member_status option"
  ma_do :: "mcall list \<Rightarrow> mcall \<Rightarrow> string option"
  ma_save :: "mcall list \<Rightarrow> mcall \<Rightarrow> api_error + string"
  ma_now :: "mcall list \<Rightarrow> gotime"
  ma_low_ratio :: "int \<Rightarrow> int \<Rightarrow> bool"

datatype maintenance_error =
    MaintenanceReadFailed api_error | ClientFailed string | MembersFailed string | MembershipDiffers | MemberNotVoting
  | MemberStatusFailed string string | MemberUnhealthy string | MembersDisagree | MemberReadFailed string string | LeaderUnknown
  | WorkloadChanged | MoveLeaderFailed string | TransferIncomplete | DefragmentFailed string string | SaveFailed api_error

definition maintenanceInterval :: duration where "maintenanceInterval = hour"
definition maintenanceTimeout :: duration where "maintenanceTimeout = 2 * minute"
definition maintenanceStablePeriod :: duration where "maintenanceStablePeriod = minute"
definition minimumReclaimBytes :: int where "minimumReclaimBytes = 100 * 1024 * 1024"
definition DefaultReplicas :: int where "DefaultReplicas = 3"

definition DefragmentationIsEnabled :: "etcd_maintenance option \<Rightarrow> bool" where
  "DefragmentationIsEnabled c \<longleftrightarrow> (case c of None \<Rightarrow> False | Some m \<Rightarrow> em_defragmentation m = Some True)"

definition maintenanceEnabled :: "topo_object \<Rightarrow> bool" where
  "maintenanceEnabled ts \<longleftrightarrow> (case tv_etcd ts of None \<Rightarrow> False | Some e \<Rightarrow> DefragmentationIsEnabled (et_maintenance e))"

definition clientScheme :: "bool \<Rightarrow> string" where
  "clientScheme tlsEnabled = (if tlsEnabled then ''https'' else ''http'')"

definition maintenance_replicas :: "topo_object \<Rightarrow> int" where
  "maintenance_replicas ts =
     (case tv_etcd ts of None \<Rightarrow> DefaultReplicas | Some e \<Rightarrow> (case et_replicas e of None \<Rightarrow> DefaultReplicas | Some n \<Rightarrow> n))"

definition member_endpoint :: "topo_object \<Rightarrow> nat \<Rightarrow> string" where
  "member_endpoint ts i = clientScheme (tv_tls ts) @ ''://'' @ tv_name ts @ ''-'' @ itoa (int i) @ ''.'' @ tv_name ts
     @ ''-headless.'' @ tv_namespace ts @ ''.svc.cluster.local:2379''"

definition maintenanceEndpoints :: "topo_object \<Rightarrow> string list" where
  "maintenanceEndpoints ts = map (member_endpoint ts) [0..<nat (maintenance_replicas ts)]"

subsection \<open>The health of the members\<close>

definition member_id :: "member_status \<Rightarrow> 64 word" where
  "member_id s = (case mr_header s of None \<Rightarrow> 0 | Some (_, m) \<Rightarrow> m)"

definition cluster_id :: "member_status \<Rightarrow> 64 word" where
  "cluster_id s = (case mr_header s of None \<Rightarrow> 0 | Some (c, _) \<Rightarrow> c)"

definition status_ok :: "64 word list \<Rightarrow> member_status \<Rightarrow> bool" where
  "status_ok ids s \<longleftrightarrow> mr_header s \<noteq> None \<and> cluster_id s \<noteq> 0 \<and> member_id s \<in> set ids \<and> mr_leader s \<noteq> 0
     \<and> \<not> mr_learner s \<and> mr_errors s = []"

text \<open>The loop over the endpoints: the identifiers not seen yet, the leader and cluster agreed on so far (0 before the first).\<close>

fun probe_members ::
  "mapi \<Rightarrow> string list \<Rightarrow> 64 word list \<Rightarrow> 64 word \<times> 64 word \<Rightarrow> (string \<times> member_status) list
   \<Rightarrow> (maintenance_error + 64 word \<times> (string \<times> member_status) list) mio" where
  "probe_members api [] ids agreed statuses = State_Monad.return (Inr (fst agreed, statuses))"
| "probe_members api (ep # eps) ids agreed statuses = do {
     r \<leftarrow> ask (ma_status api) (MemberStatus ep);
     case r of
       Inl err \<Rightarrow> State_Monad.return (Inl (MemberStatusFailed ep err))
     | Inr None \<Rightarrow> State_Monad.return (Inl (MemberUnhealthy ep))
     | Inr (Some s) \<Rightarrow>
         if \<not> status_ok ids s then State_Monad.return (Inl (MemberUnhealthy ep))
         else
           let agreed' = (if fst agreed = 0 then (mr_leader s, cluster_id s) else agreed)
           in if mr_leader s \<noteq> fst agreed' \<or> cluster_id s \<noteq> snd agreed' then State_Monad.return (Inl MembersDisagree)
              else do {
                e \<leftarrow> ask (ma_do api) (MemberHealth ep);
                case e of
                  Some err \<Rightarrow> State_Monad.return (Inl (MemberReadFailed ep err))
                | None \<Rightarrow> probe_members api eps (removeAll (member_id s) ids) agreed' (statuses @ [(ep, s)])
              }
   }"

definition healthyMembers :: "mapi \<Rightarrow> string list \<Rightarrow> (maintenance_error + (string \<times> member_status) list) mio" where
  "healthyMembers api endpoints = do {
     r \<leftarrow> ask (ma_members api) ListMembers;
     case r of
       Inl err \<Rightarrow> State_Monad.return (Inl (MembersFailed err))
     | Inr members \<Rightarrow>
         if length members \<noteq> length endpoints then State_Monad.return (Inl MembershipDiffers)
         else if list_ex (\<lambda>(i, learner). learner \<or> i = 0) members then State_Monad.return (Inl MemberNotVoting)
         else do {
           p \<leftarrow> probe_members api endpoints (map fst members) (0, 0) [];
           State_Monad.return (case p of
             Inl err \<Rightarrow> Inl err
           | Inr (leader, statuses) \<Rightarrow>
               if list_ex (\<lambda>(_, s). member_id s = leader) statuses then Inr statuses else Inl LeaderUnknown)
         }
   }"

subsection \<open>The workload\<close>

definition pod_stable :: "gotime \<Rightarrow> stateful_set \<Rightarrow> member_pod \<Rightarrow> bool" where
  "pod_stable now sts pod \<longleftrightarrow> mp_owner pod = Some (ss_uid sts) \<and> is_zero_ptr (mp_deletion pod)
     \<and> mp_revision pod = ss_update_revision sts
     \<and> list_ex (\<lambda>c. pc_type c = ''Ready'' \<and> pc_status c = ConditionTrue \<and> \<not> is_zero_time (pc_last_transition c)
                   \<and> maintenanceStablePeriod \<le> now - pc_last_transition c) (mp_conditions pod)"

fun pods_stable :: "mapi \<Rightarrow> topo_object \<Rightarrow> stateful_set \<Rightarrow> nat list \<Rightarrow> (maintenance_error + bool) mio" where
  "pods_stable api ts sts [] = State_Monad.return (Inr True)"
| "pods_stable api ts sts (i # is) = do {
     r \<leftarrow> ask (ma_pod api) (GetMemberPod (tv_name ts @ ''-'' @ itoa (int i)));
     h \<leftarrow> State_Monad.get;
     case r of
       Inl err \<Rightarrow> State_Monad.return (Inl (MaintenanceReadFailed err))
     | Inr pod \<Rightarrow> if pod_stable (ma_now api h) sts pod then pods_stable api ts sts is else State_Monad.return (Inr False)
   }"

definition set_settled :: "topo_object \<Rightarrow> stateful_set \<Rightarrow> int \<Rightarrow> bool" where
  "set_settled ts sts n \<longleftrightarrow> \<not> (n < 3 \<or> n \<noteq> int (length (maintenanceEndpoints ts))
     \<or> ss_observed_generation sts \<noteq> ss_generation sts \<or> ss_ready_replicas sts \<noteq> n \<or> ss_updated_replicas sts \<noteq> n
     \<or> ss_current_revision sts = [] \<or> ss_current_revision sts \<noteq> ss_update_revision sts)"

definition maintenanceWorkloadReady :: "mapi \<Rightarrow> topo_object \<Rightarrow> (maintenance_error + bool) mio" where
  "maintenanceWorkloadReady api ts = do {
     r \<leftarrow> ask (ma_set api) GetSet;
     case r of
       Inl err \<Rightarrow> State_Monad.return (Inl (MaintenanceReadFailed err))
     | Inr sts \<Rightarrow>
         if ss_owner sts \<noteq> Some (tv_uid ts) \<or> \<not> is_zero_ptr (ss_deletion sts) then State_Monad.return (Inr False)
         else (case ss_replicas sts of
                 None \<Rightarrow> State_Monad.return (Inr False)
               | Some n \<Rightarrow> if set_settled ts sts n then pods_stable api ts sts [0..<nat n] else State_Monad.return (Inr False))
   }"

subsection \<open>The reservation\<close>

definition saveMaintenance :: "mapi \<Rightarrow> topo_object \<Rightarrow> maintenance_state \<Rightarrow> (topo_object \<times> maintenance_error option) mio" where
  "saveMaintenance api ts state = do {
     r \<leftarrow> ask (ma_save api) (SaveState ts state);
     State_Monad.return (case r of
       Inl err \<Rightarrow> (ts\<lparr>tv_state := Some state\<rparr>, Some (SaveFailed err))
     | Inr v \<Rightarrow> (ts\<lparr>tv_state := Some state, tv_version := v\<rparr>, None))
   }"

definition attempt_blocked :: "gotime \<Rightarrow> topo_object \<Rightarrow> bool" where
  "attempt_blocked now ts \<longleftrightarrow> (case tv_state ts of
     None \<Rightarrow> False
   | Some st \<Rightarrow> ms_in_progress st \<or> now - ms_last_attempt st < maintenanceInterval)"

definition resumeMaintenance :: "mapi \<Rightarrow> topo_object \<Rightarrow> (topo_object \<times> (maintenance_error option \<times> bool)) mio" where
  "resumeMaintenance api ts =
     (if \<not> maintenanceEnabled ts \<and> tv_state ts = None then State_Monad.return (ts, None, False)
      else do {
        r \<leftarrow> ask (ma_topo api) GetTopo;
        h \<leftarrow> State_Monad.get;
        case r of
          Inl err \<Rightarrow> State_Monad.return (ts, Some (MaintenanceReadFailed err), False)
        | Inr fresh \<Rightarrow>
            (case tv_state fresh of
               None \<Rightarrow> State_Monad.return (fresh, None, False)
             | Some st \<Rightarrow>
                 if \<not> ms_in_progress st then State_Monad.return (fresh, None, False)
                 else if ma_now api h - ms_last_attempt st < maintenanceTimeout then State_Monad.return (fresh, None, True)
                 else do {
                   e \<leftarrow> (if \<not> maintenanceEnabled fresh then State_Monad.return None
                        else do {
                          o' \<leftarrow> ask (ma_do api) OpenClient;
                          case o' of
                            Some err \<Rightarrow> State_Monad.return (Some (ClientFailed err))
                          | None \<Rightarrow> do {
                              m \<leftarrow> healthyMembers api (maintenanceEndpoints fresh);
                              State_Monad.return (case m of Inl err \<Rightarrow> Some err | Inr _ \<Rightarrow> None)
                            }
                        });
                   case e of
                     Some err \<Rightarrow> State_Monad.return (fresh, Some err, True)
                   | None \<Rightarrow> do {
                       (saved, e) \<leftarrow> saveMaintenance api fresh (st\<lparr>ms_in_progress := False\<rparr>);
                       State_Monad.return (saved, e, False)
                     }
                 })
      })"

subsection \<open>Defragmentation\<close>

text \<open>The member with most to reclaim, at least the minimum and not below the ratio; the free size is an \<^verbatim>\<open>int64\<close>.\<close>

definition free_bytes :: "member_status \<Rightarrow> int" where
  "free_bytes s = wrap64 (mr_db_size s - mr_in_use s)"

definition reclaimable :: "mapi \<Rightarrow> member_status \<Rightarrow> bool" where
  "reclaimable api s \<longleftrightarrow> \<not> (mr_in_use s \<le> 0 \<or> free_bytes s < minimumReclaimBytes \<or> ma_low_ratio api (free_bytes s) (mr_db_size s))"

definition pick_target :: "mapi \<Rightarrow> (string \<times> member_status) list \<Rightarrow> string \<times> int" where
  "pick_target api statuses = foldl (\<lambda>(target, reclaim) (ep, s).
     if reclaimable api s \<and> reclaim < free_bytes s then (ep, free_bytes s) else (target, reclaim)) ([], 0) statuses"

definition is_leader :: "(string \<times> member_status) list \<Rightarrow> string \<Rightarrow> bool" where
  "is_leader statuses ep \<longleftrightarrow> (case map_of statuses ep of None \<Rightarrow> False | Some s \<Rightarrow> member_id s = mr_leader s)"

definition transfer_leader ::
  "mapi \<Rightarrow> string list \<Rightarrow> string \<Rightarrow> (string \<times> member_status) list \<Rightarrow> maintenance_error option mio" where
  "transfer_leader api endpoints target statuses =
     (if \<not> is_leader statuses target then State_Monad.return None
      else do {
        e \<leftarrow> (case find (\<lambda>ep. ep \<noteq> target) endpoints of
               None \<Rightarrow> State_Monad.return None
             | Some ep \<Rightarrow> ask (ma_do api) (MoveLeader target (case map_of statuses ep of None \<Rightarrow> 0 | Some s \<Rightarrow> member_id s)));
        case e of
          Some err \<Rightarrow> State_Monad.return (Some (MoveLeaderFailed err))
        | None \<Rightarrow> do {
            r \<leftarrow> healthyMembers api endpoints;
            State_Monad.return (case r of
              Inl err \<Rightarrow> Some err
            | Inr statuses' \<Rightarrow> if is_leader statuses' target then Some TransferIncomplete else None)
          }
      })"

text \<open>What follows a reservation; every error leaves the reservation in place.\<close>

definition defragment_member :: "mapi \<Rightarrow> string list \<Rightarrow> string \<Rightarrow> maintenance_error option mio" where
  "defragment_member api endpoints target = do {
     d \<leftarrow> ask (ma_do api) (Defragment target);
     case d of
       Some err \<Rightarrow> State_Monad.return (Some (DefragmentFailed target err))
     | None \<Rightarrow> do {
         after \<leftarrow> healthyMembers api endpoints;
         State_Monad.return (case after of Inl err \<Rightarrow> Some err | Inr _ \<Rightarrow> None)
       }
   }"

definition run_healthy :: "mapi \<Rightarrow> string list \<Rightarrow> string \<Rightarrow> maintenance_error option mio" where
  "run_healthy api endpoints target = do {
     r \<leftarrow> healthyMembers api endpoints;
     case r of
       Inl err \<Rightarrow> State_Monad.return (Some err)
     | Inr statuses \<Rightarrow> do {
         e \<leftarrow> transfer_leader api endpoints target statuses;
         case e of
           Some err \<Rightarrow> State_Monad.return (Some err)
         | None \<Rightarrow> defragment_member api endpoints target
       }
   }"

definition run_reserved :: "mapi \<Rightarrow> string list \<Rightarrow> string \<Rightarrow> topo_object \<Rightarrow> maintenance_error option mio" where
  "run_reserved api endpoints target fresh = do {
     ready \<leftarrow> maintenanceWorkloadReady api fresh;
     case ready of
       Inl err \<Rightarrow> State_Monad.return (Some err)
     | Inr b \<Rightarrow> if \<not> b then State_Monad.return (Some WorkloadChanged) else run_healthy api endpoints target
   }"

definition finish_attempt ::
  "mapi \<Rightarrow> topo_object \<Rightarrow> int \<Rightarrow> maintenance_state \<Rightarrow> topo_object \<Rightarrow> (topo_object \<times> maintenance_error option) mio" where
  "finish_attempt api ts reclaim state fresh = do {
     (_, e) \<leftarrow> saveMaintenance api fresh (state\<lparr>ms_in_progress := False\<rparr>);
     case e of
       Some err \<Rightarrow> State_Monad.return (ts\<lparr>tv_state := Some state\<rparr>, Some err)
     | None \<Rightarrow> do {
         emit (DefragmentedEvent (ms_endpoint state) reclaim);
         State_Monad.return (ts\<lparr>tv_state := Some (state\<lparr>ms_in_progress := False\<rparr>)\<rparr>, None)
       }
   }"

definition run_attempt ::
  "mapi \<Rightarrow> topo_object \<Rightarrow> string list \<Rightarrow> int \<Rightarrow> maintenance_state \<Rightarrow> topo_object \<Rightarrow> (topo_object \<times> maintenance_error option) mio" where
  "run_attempt api ts endpoints reclaim state fresh = do {
     e \<leftarrow> run_reserved api endpoints (ms_endpoint state) fresh;
     case e of
       Some err \<Rightarrow> State_Monad.return (ts\<lparr>tv_state := Some state\<rparr>, Some err)
     | None \<Rightarrow> finish_attempt api ts reclaim state fresh
   }"

definition reserve_and_run ::
  "mapi \<Rightarrow> topo_object \<Rightarrow> string list \<Rightarrow> string \<Rightarrow> int \<Rightarrow> topo_object \<Rightarrow> (topo_object \<times> maintenance_error option) mio" where
  "reserve_and_run api ts endpoints target reclaim fresh = do {
     h \<leftarrow> State_Monad.get;
     let state = \<lparr>ms_last_attempt = ma_now api h, ms_endpoint = target, ms_in_progress = True\<rparr>;
     (fresh', e) \<leftarrow> saveMaintenance api fresh state;
     case e of
       Some err \<Rightarrow> State_Monad.return (ts, Some err)
     | None \<Rightarrow> run_attempt api ts endpoints reclaim state fresh'
   }"

definition choose_and_reserve ::
  "mapi \<Rightarrow> topo_object \<Rightarrow> (string \<times> member_status) list \<Rightarrow> (topo_object \<times> maintenance_error option) mio" where
  "choose_and_reserve api ts statuses =
     (let (target, reclaim) = pick_target api statuses
      in if target = [] then State_Monad.return (ts, None)
         else do {
           r \<leftarrow> ask (ma_topo api) GetTopo;
           h \<leftarrow> State_Monad.get;
           case r of
             Inl err \<Rightarrow> State_Monad.return (ts, Some (MaintenanceReadFailed err))
           | Inr fresh \<Rightarrow>
               if tv_uid fresh \<noteq> tv_uid ts \<or> tv_generation fresh \<noteq> tv_generation ts \<or> \<not> is_zero_ptr (tv_deletion fresh)
                  \<or> attempt_blocked (ma_now api h) fresh
               then State_Monad.return (ts, None)
               else reserve_and_run api ts (maintenanceEndpoints ts) target reclaim fresh
         })"

definition reconcileMaintenance :: "mapi \<Rightarrow> topo_object \<Rightarrow> (topo_object \<times> maintenance_error option) mio" where
  "reconcileMaintenance api ts = do {
     h \<leftarrow> State_Monad.get;
     if \<not> maintenanceEnabled ts \<or> attempt_blocked (ma_now api h) ts then State_Monad.return (ts, None)
     else do {
       ready \<leftarrow> maintenanceWorkloadReady api ts;
       case ready of
         Inl err \<Rightarrow> State_Monad.return (ts, Some err)
       | Inr b \<Rightarrow>
           if \<not> b then State_Monad.return (ts, None)
           else do {
             o' \<leftarrow> ask (ma_do api) OpenClient;
             case o' of
               Some err \<Rightarrow> State_Monad.return (ts, Some (ClientFailed err))
             | None \<Rightarrow> do {
                 r \<leftarrow> healthyMembers api (maintenanceEndpoints ts);
                 case r of
                   Inl err \<Rightarrow> State_Monad.return (ts, Some err)
                 | Inr statuses \<Rightarrow> choose_and_reserve api ts statuses
               }
           }
     }
   }"

subsection \<open>What a successful health check establishes\<close>

lemma probe_sound:
  assumes "run_state (probe_members api eps ids agreed sts) h = (Inr (leader, sts'), h')"
  shows "\<exists>new c. sts' = sts @ new \<and> map fst new = eps \<and> distinct (map (member_id \<circ> snd) new)
    \<and> (\<forall>(ep, s)\<in>set new. member_id s \<in> set ids \<and> mr_leader s = leader \<and> cluster_id s = c \<and> \<not> mr_learner s \<and> mr_errors s = [])
    \<and> (fst agreed \<noteq> 0 \<longrightarrow> leader = fst agreed \<and> (new \<noteq> [] \<longrightarrow> c = snd agreed))"
  using assms
proof (induction eps arbitrary: ids agreed sts h)
  case Nil
  then show ?case by auto
next
  case (Cons ep eps)
  from Cons.prems obtain s where s: "ma_status api h (MemberStatus ep) = Inr (Some s)" and ok: "status_ok ids s"
    by (auto simp: Let_def split: sum.splits option.splits if_splits)
  define a where "a = (if fst agreed = 0 then (mr_leader s, cluster_id s) else agreed)"
  from Cons.prems s ok have agree: "mr_leader s = fst a" "cluster_id s = snd a"
    and run: "run_state (probe_members api eps (removeAll (member_id s) ids) a (sts @ [(ep, s)])) (h @ [MemberStatus ep, MemberHealth ep])
        = (Inr (leader, sts'), h')"
    by (auto simp: Let_def a_def split: option.splits if_splits)
  have nz: "fst a \<noteq> 0" using ok by (auto simp: status_ok_def a_def)
  from Cons.IH [OF run] obtain new c where new: "sts' = (sts @ [(ep, s)]) @ new" "map fst new = eps" "distinct (map (member_id \<circ> snd) new)"
    "\<forall>(ep, s')\<in>set new. member_id s' \<in> set (removeAll (member_id s) ids) \<and> mr_leader s' = leader \<and> cluster_id s' = c \<and> \<not> mr_learner s' \<and> mr_errors s' = []"
    "leader = fst a" "new \<noteq> [] \<longrightarrow> c = snd a" using nz by blast
  let ?new = "(ep, s) # new"
  have "\<forall>(e, x)\<in>set ?new. member_id x \<in> set ids \<and> mr_leader x = leader \<and> cluster_id x = snd a \<and> \<not> mr_learner x \<and> mr_errors x = []"
    using new(4-6) ok agree by (auto simp: status_ok_def)
  moreover have "distinct (map (member_id \<circ> snd) ?new)" using new(3,4) by auto
  moreover have "fst agreed \<noteq> 0 \<longrightarrow> leader = fst agreed \<and> snd a = snd agreed" using new(5) by (simp add: a_def)
  ultimately show ?case using new(1,2) by (intro exI [of _ ?new] exI [of _ "snd a"]) (auto simp: comp_def)
qed

text \<open>
  what a successful health check establishes. Every endpoint answered, as a different voting member without alarms; the
  members that answered are exactly the members of the cluster; they agree on the leader and on the cluster; and the leader
  is one of them.
\<close>

theorem healthyMembers_sound:
  assumes "run_state (healthyMembers api endpoints) h = (Inr statuses, h')"
  shows "\<exists>members leader cluster. ma_members api h ListMembers = Inr members \<and> map fst statuses = endpoints
    \<and> distinct (map (member_id \<circ> snd) statuses) \<and> (member_id \<circ> snd) ` set statuses = fst ` set members
    \<and> leader \<in> (member_id \<circ> snd) ` set statuses
    \<and> (\<forall>(ep, s)\<in>set statuses. mr_leader s = leader \<and> cluster_id s = cluster \<and> \<not> mr_learner s \<and> mr_errors s = [])"
proof -
  from assms obtain members where m: "ma_members api h ListMembers = Inr members" and len: "length members = length endpoints"
    by (auto simp: healthyMembers_def split: sum.splits if_splits prod.splits)
  from assms m len obtain leader where
      run: "run_state (probe_members api endpoints (map fst members) (0, 0) []) (h @ [ListMembers]) = (Inr (leader, statuses), h')"
    and l: "list_ex (\<lambda>(_, s). member_id s = leader) statuses"
    by (auto simp: healthyMembers_def split: sum.splits if_splits prod.splits)
  from probe_sound [OF run] obtain c where st: "map fst statuses = endpoints" "distinct (map (member_id \<circ> snd) statuses)"
    "\<forall>(ep, s)\<in>set statuses. member_id s \<in> fst ` set members \<and> mr_leader s = leader \<and> cluster_id s = c \<and> \<not> mr_learner s \<and> mr_errors s = []"
    by auto
  have "length statuses = length endpoints" using arg_cong [OF st(1), of length] by simp
  then have "card (set (map (member_id \<circ> snd) statuses)) = length members"
    using distinct_card [OF st(2)] len by simp
  moreover have "set (map (member_id \<circ> snd) statuses) \<subseteq> fst ` set members" using st(3) by auto
  moreover have "card (fst ` set members) \<le> length members" by (metis card_length length_map set_map)
  ultimately have "set (map (member_id \<circ> snd) statuses) = fst ` set members"
    by (intro card_seteq) simp_all
  then have "(member_id \<circ> snd) ` set statuses = fst ` set members" by simp
  moreover have "leader \<in> (member_id \<circ> snd) ` set statuses" using l by (force simp: list_ex_iff)
  ultimately show ?thesis using m st by (intro exI [of _ members] exI [of _ leader] exI [of _ c]) auto
qed

subsection \<open>Defragmentation is guarded\<close>

definition quiet :: "mcall \<Rightarrow> bool" where
  "quiet c \<longleftrightarrow> (case c of Defragment ep \<Rightarrow> False | MoveLeader ep i \<Rightarrow> False | SaveState ts st \<Rightarrow> False | _ \<Rightarrow> True)"

lemma quiet_simps [simp]:
  "quiet GetTopo" "quiet GetSet" "quiet (GetMemberPod n)" "quiet OpenClient" "quiet ListMembers" "quiet (MemberStatus ep)"
  "quiet (MemberHealth ep)" "quiet (DefragmentedEvent ep b)"
  by (simp_all add: quiet_def)

lemma appends_get [appends_intros]: "appends P State_Monad.get"
  by (simp add: appends_def State_Monad.get_def)

lemma quiet_probe: "appends quiet (probe_members api eps ids agreed sts)"
proof (induction eps arbitrary: ids agreed sts)
  case (Cons ep eps)
  show ?case unfolding probe_members.simps Let_def by (intro appends_intros Cons.IH) simp_all
qed (simp add: appends_return)

lemma quiet_healthy: "appends quiet (healthyMembers api eps)"
  unfolding healthyMembers_def by (intro appends_intros quiet_probe) simp_all

lemma quiet_pods: "appends quiet (pods_stable api ts sts is)"
proof (induction "is")
  case (Cons i "is")
  show ?case unfolding pods_stable.simps by (intro appends_intros Cons.IH) simp_all
qed (simp add: appends_return)

lemma quiet_workload: "appends quiet (maintenanceWorkloadReady api ts)"
  unfolding maintenanceWorkloadReady_def by (intro appends_intros quiet_pods) simp_all

text \<open>A reservation of the member was saved; and a health check that began after it has just ended, with another leader.\<close>

definition reserved :: "mapi \<Rightarrow> mcall list \<Rightarrow> string \<Rightarrow> bool" where
  "reserved api h ep \<longleftrightarrow> (\<exists>fresh st v. seen (ma_save api) h (SaveState fresh st) (Inr v) \<and> ms_endpoint st = ep \<and> ms_in_progress st)"

definition just_healthy :: "mapi \<Rightarrow> (mcall list \<Rightarrow> (string \<times> member_status) list \<Rightarrow> bool) \<Rightarrow> string list \<Rightarrow> mcall list \<Rightarrow> bool" where
  "just_healthy api P eps h \<longleftrightarrow> (\<exists>g statuses. run_state (healthyMembers api eps) g = (Inr statuses, h) \<and> P g statuses)"

definition maintenance_guard :: "mapi \<Rightarrow> string list \<Rightarrow> mcall list \<Rightarrow> mcall \<Rightarrow> bool" where
  "maintenance_guard api eps h c =
     (case c of
        Defragment ep \<Rightarrow> 3 \<le> length eps \<and> just_healthy api (\<lambda>g statuses. reserved api g ep \<and> \<not> is_leader statuses ep) eps h
      | MoveLeader ep i \<Rightarrow> reserved api h ep
      | SaveState fresh st \<Rightarrow>
          if ms_in_progress st
          then seen (ma_topo api) h GetTopo (Inr fresh) \<and> \<not> attempt_blocked (ma_now api h) fresh
            \<and> ms_last_attempt st = ma_now api h
            \<and> (\<exists>g s. just_healthy api (\<lambda>_ statuses. (ms_endpoint st, s) \<in> set statuses) eps g \<and> reclaimable api s)
          else just_healthy api (\<lambda>g _. seen (ma_do api) g (Defragment (ms_endpoint st)) None) eps h
      | _ \<Rightarrow> True)"

lemma guard_quiet: "quiet c \<Longrightarrow> maintenance_guard api eps h c"
  by (simp add: quiet_def maintenance_guard_def split: mcall.splits)

lemma keeps_quiet: "appends quiet m \<Longrightarrow> keeps (maintenance_guard api eps) m h"
  by (rule keeps_appends [of quiet]) (auto intro: guard_quiet)

lemma reserved_mono: "reserved api h ep \<Longrightarrow> reserved api (h @ cs) ep"
  unfolding reserved_def using seen_mono by metis

lemma quiet_extends: "appends quiet m \<Longrightarrow> run_state m h = (x, h') \<Longrightarrow> \<exists>cs. h' = h @ cs"
  unfolding appends_def by (metis snd_conv)

lemma keeps_transfer:
  assumes "reserved api h target"
  shows "keeps (maintenance_guard api eps) (transfer_leader api eps target statuses) h"
proof (cases "is_leader statuses target")
  case False then show ?thesis by (simp add: transfer_leader_def keeps_return)
next
  case True
  have move: "keeps (maintenance_guard api eps) (case f of None \<Rightarrow> State_Monad.return None
      | Some ep \<Rightarrow> ask (ma_do api) (MoveLeader target (i ep))) h" for f and i :: "string \<Rightarrow> 64 word"
    using assms by (cases f) (auto intro!: keeps_ask keeps_return simp: maintenance_guard_def)
  show ?thesis unfolding transfer_leader_def using True
    by (simp only: not_True_eq_False if_False simp_thms)
      (intro keeps_bind move keeps_quiet appends_intros quiet_healthy)
qed

lemma transfer_healthy:
  assumes "run_state (healthyMembers api eps) g = (Inr statuses, h)" and "reserved api g target"
    and "run_state (transfer_leader api eps target statuses) h = (None, h')"
  shows "just_healthy api (\<lambda>g sts. reserved api g target \<and> \<not> is_leader sts target) eps h'"
proof (cases "is_leader statuses target")
  case False
  with assms show ?thesis unfolding just_healthy_def by (auto simp: transfer_leader_def)
next
  case True
  obtain cs where h: "h = g @ cs" using quiet_extends [OF quiet_healthy assms(1)] by blast
  from assms(3) True obtain k sts where run: "run_state (healthyMembers api eps) k = (Inr sts, h')" and no: "\<not> is_leader sts target"
    and "k = h \<or> (\<exists>i. k = h @ [MoveLeader target i])"
    by (auto simp: transfer_leader_def split: option.splits sum.splits prod.splits if_splits)
  then obtain ds where "k = g @ ds" using h by auto
  then have "reserved api k target" using reserved_mono [OF assms(2)] by simp
  with run no show ?thesis unfolding just_healthy_def by blast
qed

lemma keeps_defragment:
  assumes "just_healthy api (\<lambda>g sts. reserved api g target \<and> \<not> is_leader sts target) eps h" and "3 \<le> length eps"
  shows "keeps (maintenance_guard api eps) (defragment_member api eps target) h"
  unfolding defragment_member_def
  using assms by (intro keeps_bind keeps_quiet appends_intros quiet_healthy keeps_ask) (simp add: maintenance_guard_def)

lemma keeps_run_healthy:
  assumes "reserved api h target" and "3 \<le> length eps"
  shows "keeps (maintenance_guard api eps) (run_healthy api eps target) h"
  unfolding run_healthy_def
proof (rule keeps_bind [OF keeps_quiet [OF quiet_healthy]])
  let ?G = "maintenance_guard api eps"
  fix r h2 assume r2: "run_state (healthyMembers api eps) h = (r, h2)"
  then have res2: "reserved api h2 target" using quiet_extends [OF quiet_healthy r2] reserved_mono [OF assms(1)] by auto
  show "keeps ?G (case r of Inl err \<Rightarrow> State_Monad.return (Some err) | Inr statuses \<Rightarrow>
      transfer_leader api eps target statuses \<bind> (\<lambda>e. case e of Some err \<Rightarrow> State_Monad.return (Some err)
        | None \<Rightarrow> defragment_member api eps target)) h2"
  proof (cases r)
    case (Inl e) then show ?thesis by (simp add: keeps_return)
  next
    case (Inr statuses)
    have "keeps ?G (case e of Some err \<Rightarrow> State_Monad.return (Some err) | None \<Rightarrow> defragment_member api eps target) h3"
      if "run_state (transfer_leader api eps target statuses) h2 = (e, h3)" for e h3
      using keeps_defragment [OF transfer_healthy [OF _ assms(1)] assms(2)] that r2 Inr by (cases e) (simp_all add: keeps_return)
    then show ?thesis unfolding Inr sum.case by (intro keeps_bind [OF keeps_transfer [OF res2]])
  qed
qed

lemma keeps_run_reserved:
  assumes "reserved api h target" and "3 \<le> length eps"
  shows "keeps (maintenance_guard api eps) (run_reserved api eps target fresh) h"
  unfolding run_reserved_def
proof (rule keeps_bind [OF keeps_quiet [OF quiet_workload]])
  fix ready h1 assume r: "run_state (maintenanceWorkloadReady api fresh) h = (ready, h1)"
  then have "reserved api h1 target" using quiet_extends [OF quiet_workload r] reserved_mono [OF assms(1)] by auto
  from keeps_run_healthy [OF this assms(2)]
  show "keeps (maintenance_guard api eps) (case ready of Inl err \<Rightarrow> State_Monad.return (Some err)
      | Inr b \<Rightarrow> if \<not> b then State_Monad.return (Some WorkloadChanged) else run_healthy api eps target) h1"
    by (simp add: keeps_return split: sum.split)
qed

lemma run_reserved_done:
  assumes "run_state (run_reserved api eps target fresh) h = (None, h')"
  shows "just_healthy api (\<lambda>g _. seen (ma_do api) g (Defragment target) None) eps h'"
proof -
  from assms obtain k sts where "run_state (healthyMembers api eps) (k @ [Defragment target]) = (Inr sts, h')"
    and "ma_do api k (Defragment target) = None"
    by (auto simp: run_reserved_def run_healthy_def defragment_member_def split: sum.splits option.splits prod.splits if_splits)
  then show ?thesis
    unfolding just_healthy_def using seen_last [of "ma_do api" k "Defragment target"] by blast
qed

lemma pick_target_found:
  assumes "pick_target api statuses = (target, reclaim)" and "target \<noteq> []"
  shows "\<exists>s. (target, s) \<in> set statuses \<and> reclaimable api s \<and> reclaim = free_bytes s"
proof -
  let ?f = "\<lambda>(target, reclaim) (ep, s). if reclaimable api s \<and> reclaim < free_bytes s then (ep, free_bytes s) else (target, reclaim)"
  have "fst (foldl ?f a xs) = fst a \<and> snd (foldl ?f a xs) = snd a
      \<or> (\<exists>s. (fst (foldl ?f a xs), s) \<in> set xs \<and> reclaimable api s \<and> snd (foldl ?f a xs) = free_bytes s)"
    for a :: "string \<times> int" and xs
  proof (induction xs arbitrary: a)
    case (Cons x xs)
    show ?case using Cons.IH [of "?f a x"] by (auto simp: case_prod_beta split: if_splits) (metis prod.collapse)+
  qed simp
  from this [of "([], 0)" statuses] assms show ?thesis by (auto simp: pick_target_def)
qed

lemma workload_members:
  assumes "run_state (maintenanceWorkloadReady api ts) h = (Inr True, h')"
  shows "3 \<le> length (maintenanceEndpoints ts)"
proof -
  from assms obtain sts n where "set_settled ts sts n"
    by (auto simp: maintenanceWorkloadReady_def split: sum.splits option.splits if_splits)
  then show ?thesis by (simp add: set_settled_def)
qed

lemma keeps_save: "G h (SaveState ts st) \<Longrightarrow> keeps G (saveMaintenance api ts st) h"
  unfolding saveMaintenance_def by (intro keeps_bind keeps_ask keeps_return)

lemma save_run: "run_state (saveMaintenance api ts st) h = ((ts', None), h') \<Longrightarrow>
    h' = h @ [SaveState ts st] \<and> (\<exists>v. ma_save api h (SaveState ts st) = Inr v)"
  by (auto simp: saveMaintenance_def split: sum.splits)

lemma run_get [simp]: "run_state State_Monad.get h = (h, h)"
  by (simp add: State_Monad.get_def)

lemma keeps_get: "keeps G (f h) h \<Longrightarrow> keeps G (State_Monad.bind State_Monad.get f) h"
  by (rule keeps_bind) (auto simp: keeps_def)

lemma keeps_finish_attempt:
  assumes "just_healthy api (\<lambda>g _. seen (ma_do api) g (Defragment (ms_endpoint st)) None) eps h"
  shows "keeps (maintenance_guard api eps) (finish_attempt api ts reclaim st fresh) h"
  unfolding finish_attempt_def
proof (rule keeps_bind)
  show "keeps (maintenance_guard api eps) (saveMaintenance api fresh (st\<lparr>ms_in_progress := False\<rparr>)) h"
    using assms by (intro keeps_save) (simp add: maintenance_guard_def)
  fix x k
  show "keeps (maintenance_guard api eps) (case x of (_, e) \<Rightarrow> case e of
       Some err \<Rightarrow> State_Monad.return (ts\<lparr>tv_state := Some st\<rparr>, Some err)
     | None \<Rightarrow> emit (DefragmentedEvent (ms_endpoint st) reclaim) \<bind>
         (\<lambda>_. State_Monad.return (ts\<lparr>tv_state := Some (st\<lparr>ms_in_progress := False\<rparr>)\<rparr>, None))) k"
    by (cases x; cases "snd x") (auto intro!: keeps_quiet appends_intros)
qed

lemma keeps_attempt:
  assumes "reserved api h (ms_endpoint st)" and "3 \<le> length eps"
  shows "keeps (maintenance_guard api eps) (run_attempt api ts eps reclaim st fresh) h"
  unfolding run_attempt_def
proof (rule keeps_bind [OF keeps_run_reserved [OF assms]])
  fix e k assume "run_state (run_reserved api eps (ms_endpoint st) fresh) h = (e, k)"
  then show "keeps (maintenance_guard api eps) (case e of Some err \<Rightarrow> State_Monad.return (ts\<lparr>tv_state := Some st\<rparr>, Some err)
     | None \<Rightarrow> finish_attempt api ts reclaim st fresh) k"
    using keeps_finish_attempt [OF run_reserved_done] by (cases e) (simp_all add: keeps_return)
qed

lemma keeps_reserve:
  assumes "seen (ma_topo api) h GetTopo (Inr fresh)" and "\<not> attempt_blocked (ma_now api h) fresh"
    and "just_healthy api (\<lambda>_ statuses. (target, s) \<in> set statuses) eps g" and "reclaimable api s" and "3 \<le> length eps"
  shows "keeps (maintenance_guard api eps) (reserve_and_run api ts eps target reclaim fresh) h"
  unfolding reserve_and_run_def Let_def
proof (rule keeps_get, rule keeps_bind)
  let ?G = "maintenance_guard api eps"
  let ?st = "\<lparr>ms_last_attempt = ma_now api h, ms_endpoint = target, ms_in_progress = True\<rparr>"
  show "keeps ?G (saveMaintenance api fresh ?st) h"
    using assms by (intro keeps_save) (auto simp: maintenance_guard_def)
  fix x k assume r: "run_state (saveMaintenance api fresh ?st) h = (x, k)"
  obtain fresh' e where x: "x = (fresh', e)" by force
  show "keeps ?G (case x of (fresh', e) \<Rightarrow> case e of Some err \<Rightarrow> State_Monad.return (ts, Some err)
    | None \<Rightarrow> run_attempt api ts eps reclaim ?st fresh') k"
  proof (cases e)
    case None
    from save_run [of api fresh ?st h fresh' k] r x None obtain v where
      "k = h @ [SaveState fresh ?st]" "ma_save api h (SaveState fresh ?st) = Inr v" by auto
    then have "reserved api k (ms_endpoint ?st)"
      unfolding reserved_def using seen_last [of "ma_save api" h "SaveState fresh ?st" "Inr v"] by force
    from keeps_attempt [OF this assms(5)] show ?thesis using x None by simp
  qed (simp add: x keeps_return)
qed

lemma keeps_choose:
  assumes "run_state (healthyMembers api eps) g = (Inr statuses, h)" and "eps = maintenanceEndpoints ts" and "3 \<le> length eps"
  shows "keeps (maintenance_guard api eps) (choose_and_reserve api ts statuses) h"
proof -
  obtain target reclaim where t: "pick_target api statuses = (target, reclaim)" by force
  show ?thesis
  proof (cases "target = []")
    case True with t show ?thesis by (simp add: choose_and_reserve_def keeps_return)
  next
    case False
    from pick_target_found [OF t False] obtain s where s: "(target, s) \<in> set statuses" "reclaimable api s" by blast
    have evidence: "just_healthy api (\<lambda>_ statuses. (target, s) \<in> set statuses) eps h"
      unfolding just_healthy_def using assms(1) s(1) by blast
    have reserve: "keeps (maintenance_guard api eps) (reserve_and_run api ts eps target reclaim fresh) (h @ [GetTopo])"
      if "ma_topo api h GetTopo = Inr fresh" "\<not> attempt_blocked (ma_now api (h @ [GetTopo])) fresh" for fresh
      using keeps_reserve [OF seen_last [of "ma_topo api" h GetTopo, OF that(1)] that(2) evidence s(2) assms(3)] .
    show ?thesis unfolding choose_and_reserve_def t Let_def case_prod_conv
    proof (simp only: False if_False, rule keeps_bind [OF keeps_ask])
      show "maintenance_guard api eps h GetTopo" by (simp add: guard_quiet)
      fix r k assume r: "run_state (ask (ma_topo api) GetTopo) h = (r, k)"
      show "keeps (maintenance_guard api eps) (State_Monad.get \<bind> (\<lambda>h. case r of
             Inl err \<Rightarrow> State_Monad.return (ts, Some (MaintenanceReadFailed err))
           | Inr fresh \<Rightarrow>
               if tv_uid fresh \<noteq> tv_uid ts \<or> tv_generation fresh \<noteq> tv_generation ts \<or> \<not> is_zero_ptr (tv_deletion fresh)
                  \<or> attempt_blocked (ma_now api h) fresh
               then State_Monad.return (ts, None)
               else reserve_and_run api ts (maintenanceEndpoints ts) target reclaim fresh)) k"
        using r reserve assms(2) by (intro keeps_get) (auto simp: keeps_return split: sum.split)
    qed
  qed
qed

lemma keeps_reconcileMaintenance: "keeps (maintenance_guard api (maintenanceEndpoints ts)) (reconcileMaintenance api ts) h"
proof -
  let ?eps = "maintenanceEndpoints ts"
  let ?G = "maintenance_guard api ?eps"
  have check: "keeps ?G (healthyMembers api ?eps \<bind> (\<lambda>r. case r of Inl err \<Rightarrow> State_Monad.return (ts, Some err)
      | Inr statuses \<Rightarrow> choose_and_reserve api ts statuses)) k" if "3 \<le> length ?eps" for k
  proof (rule keeps_bind [OF keeps_quiet [OF quiet_healthy]])
    fix r k' assume "run_state (healthyMembers api ?eps) k = (r, k')"
    then show "keeps ?G (case r of Inl err \<Rightarrow> State_Monad.return (ts, Some err) | Inr statuses \<Rightarrow> choose_and_reserve api ts statuses) k'"
      using keeps_choose [OF _ HOL.refl that] by (cases r) (simp_all add: keeps_return)
  qed
  have client: "keeps ?G (ask (ma_do api) OpenClient \<bind> (\<lambda>o'. case o' of Some err \<Rightarrow> State_Monad.return (ts, Some (ClientFailed err))
      | None \<Rightarrow> healthyMembers api ?eps \<bind> (\<lambda>r. case r of Inl err \<Rightarrow> State_Monad.return (ts, Some err)
          | Inr statuses \<Rightarrow> choose_and_reserve api ts statuses))) k" if "3 \<le> length ?eps" for k
    using check [OF that] by (intro keeps_bind keeps_ask) (auto simp: guard_quiet keeps_return split: option.split)
  have work: "keeps ?G (maintenanceWorkloadReady api ts \<bind> (\<lambda>ready. case ready of Inl err \<Rightarrow> State_Monad.return (ts, Some err)
      | Inr b \<Rightarrow> if \<not> b then State_Monad.return (ts, None)
          else ask (ma_do api) OpenClient \<bind> (\<lambda>o'. case o' of Some err \<Rightarrow> State_Monad.return (ts, Some (ClientFailed err))
      | None \<Rightarrow> healthyMembers api ?eps \<bind> (\<lambda>r. case r of Inl err \<Rightarrow> State_Monad.return (ts, Some err)
          | Inr statuses \<Rightarrow> choose_and_reserve api ts statuses)))) k" for k
  proof (rule keeps_bind [OF keeps_quiet [OF quiet_workload]])
    fix r k' assume "run_state (maintenanceWorkloadReady api ts) k = (r, k')"
    then show "keeps ?G (case r of Inl err \<Rightarrow> State_Monad.return (ts, Some err)
      | Inr b \<Rightarrow> if \<not> b then State_Monad.return (ts, None)
          else ask (ma_do api) OpenClient \<bind> (\<lambda>o'. case o' of Some err \<Rightarrow> State_Monad.return (ts, Some (ClientFailed err))
      | None \<Rightarrow> healthyMembers api ?eps \<bind> (\<lambda>r. case r of Inl err \<Rightarrow> State_Monad.return (ts, Some err)
          | Inr statuses \<Rightarrow> choose_and_reserve api ts statuses))) k'"
      using client [OF workload_members] by (cases r) (auto simp: keeps_return)
  qed
  show ?thesis unfolding reconcileMaintenance_def by (rule keeps_get) (use work in \<open>simp add: keeps_return\<close>)
qed

text \<open>
  C17: a member is defragmented only when that is safe. In a pass, the call is made on a cluster of at least three members,
  right after a health check of all members that ended well, that began after the member was reserved, and in which it was
  not the leader; the reservation was made on the TopoServer as it was read, when no attempt was in progress or within the
  last hour, for a member a health check had shown to have enough to reclaim; and the reservation is given up only right
  after a health check that ended well and began after the defragmentation had succeeded.
\<close>

theorem defragmentation_guarded:
  assumes "snd (run_state (reconcileMaintenance api ts) []) = before @ c # after"
  shows "maintenance_guard api (maintenanceEndpoints ts) before c"
proof -
  have "guarded (maintenance_guard api (maintenanceEndpoints ts)) [] (before @ c # after)"
    using keeps_reconcileMaintenance [of api ts "[]"] assms by (auto simp: keeps_def)
  then show ?thesis by simp
qed

subsection \<open>Reservations of several controllers\<close>

text \<open>What every save of a pass rests on, of the one that reserves and of the two that release.\<close>

definition save_guard :: "mapi \<Rightarrow> mcall list \<Rightarrow> mcall \<Rightarrow> bool" where
  "save_guard api h c = (case c of
     SaveState ts st \<Rightarrow>
       if ms_in_progress st
       then seen (ma_topo api) h GetTopo (Inr ts) \<and> \<not> attempt_blocked (ma_now api h) ts \<and> ms_last_attempt st = ma_now api h
       else (\<exists>old. seen (ma_topo api) h GetTopo (Inr ts) \<and> tv_state ts = Some old \<and> ms_last_attempt st = ms_last_attempt old)
          \<or> (\<exists>fresh old. seen (ma_save api) h (SaveState fresh old) (Inr (tv_version ts)) \<and> ms_last_attempt st = ms_last_attempt old)
   | _ \<Rightarrow> True)"

definition saves :: "mcall \<Rightarrow> bool" where
  "saves c \<longleftrightarrow> (case c of SaveState ts st \<Rightarrow> True | _ \<Rightarrow> False)"

lemma saves_simps [simp]: "saves (SaveState ts st)" "\<not> saves (MoveLeader ep i)" "\<not> saves (Defragment ep)" "quiet c \<Longrightarrow> \<not> saves c"
  by (simp_all add: saves_def quiet_def split: mcall.splits)

lemma keeps_unsaved: "appends (\<lambda>c. \<not> saves c) m \<Longrightarrow> keeps (save_guard api) m h"
  by (erule keeps_appends) (simp add: saves_def save_guard_def split: mcall.splits)

lemma keeps_if: "(b \<Longrightarrow> keeps G m h) \<Longrightarrow> (\<not> b \<Longrightarrow> keeps G n h) \<Longrightarrow> keeps G (if b then m else n) h"
  by simp

lemma keeps_case:
  "(\<And>e. r = Inl e \<Longrightarrow> keeps G (f e) h) \<Longrightarrow> (\<And>x. r = Inr x \<Longrightarrow> keeps G (g x) h) \<Longrightarrow> keeps G (case r of Inl e \<Rightarrow> f e | Inr x \<Rightarrow> g x) h"
  "(s = None \<Longrightarrow> keeps G m h) \<Longrightarrow> (\<And>x. s = Some x \<Longrightarrow> keeps G (n x) h) \<Longrightarrow> keeps G (case s of None \<Rightarrow> m | Some x \<Rightarrow> n x) h"
  by (simp_all split: sum.split option.split)

lemma keeps_read:
  assumes "\<And>r. ma_topo api h GetTopo = r \<Longrightarrow> keeps (save_guard api) (f r) (h @ [GetTopo])"
  shows "keeps (save_guard api) (ask (ma_topo api) GetTopo \<bind> f) h"
  using assms by (intro keeps_bind keeps_ask) (auto simp: save_guard_def)

lemma unsaved_quiet: "appends quiet m \<Longrightarrow> appends (\<lambda>c. \<not> saves c) m"
  by (erule appends_imp) simp

lemma unsaved_run_reserved: "appends (\<lambda>c. \<not> saves c) (run_reserved api eps target fresh)"
  unfolding run_reserved_def run_healthy_def transfer_leader_def defragment_member_def
  by (intro appends_intros unsaved_quiet quiet_workload quiet_healthy) simp_all

lemma saves_attempt:
  assumes "seen (ma_save api) h (SaveState f st) (Inr (tv_version fresh))"
  shows "keeps (save_guard api) (run_attempt api ts eps reclaim st fresh) h"
  unfolding run_attempt_def
proof (rule keeps_bind [OF keeps_unsaved [OF unsaved_run_reserved]])
  fix e k assume "run_state (run_reserved api eps (ms_endpoint st) fresh) h = (e, k)"
  with unsaved_run_reserved [of api eps "ms_endpoint st" fresh] obtain cs where "k = h @ cs"
    unfolding appends_def by (metis snd_conv)
  with assms have "seen (ma_save api) k (SaveState f st) (Inr (tv_version fresh))" by (simp add: seen_mono)
  then have "save_guard api k (SaveState fresh (st\<lparr>ms_in_progress := False\<rparr>))" by (auto simp: save_guard_def)
  then have "keeps (save_guard api) (finish_attempt api ts reclaim st fresh) k"
    unfolding finish_attempt_def
    by (intro keeps_bind keeps_save) (auto intro!: keeps_unsaved appends_intros split: option.split)
  then show "keeps (save_guard api) (case e of Some err \<Rightarrow> State_Monad.return (ts\<lparr>tv_state := Some st\<rparr>, Some err)
     | None \<Rightarrow> finish_attempt api ts reclaim st fresh) k"
    by (simp add: keeps_return split: option.split)
qed

lemma saves_reserve:
  assumes "seen (ma_topo api) h GetTopo (Inr fresh)" and "\<not> attempt_blocked (ma_now api h) fresh"
  shows "keeps (save_guard api) (reserve_and_run api ts eps target reclaim fresh) h"
  unfolding reserve_and_run_def Let_def
proof (rule keeps_get, rule keeps_bind)
  let ?st = "\<lparr>ms_last_attempt = ma_now api h, ms_endpoint = target, ms_in_progress = True\<rparr>"
  show "keeps (save_guard api) (saveMaintenance api fresh ?st) h"
    using assms by (intro keeps_save) (simp add: save_guard_def)
  fix x k assume "run_state (saveMaintenance api fresh ?st) h = (x, k)"
  then show "keeps (save_guard api) (case x of (fresh', e) \<Rightarrow> case e of Some err \<Rightarrow> State_Monad.return (ts, Some err)
    | None \<Rightarrow> run_attempt api ts eps reclaim ?st fresh') k"
    by (auto simp: saveMaintenance_def keeps_return intro!: saves_attempt [where f = fresh] seen_last split: sum.splits)
qed

lemma saves_reconcileMaintenance: "keeps (save_guard api) (reconcileMaintenance api ts) h"
proof -
  have choose: "keeps (save_guard api) (choose_and_reserve api ts statuses) k" for statuses k
  proof -
    obtain target reclaim where t: "pick_target api statuses = (target, reclaim)" by force
    have "keeps (save_guard api) (reserve_and_run api ts eps target reclaim fresh) (k @ [GetTopo])"
      if "ma_topo api k GetTopo = Inr fresh" "\<not> attempt_blocked (ma_now api (k @ [GetTopo])) fresh" for eps fresh
      using saves_reserve seen_last [of "ma_topo api" k GetTopo] that by blast
    then show ?thesis unfolding choose_and_reserve_def t Let_def case_prod_conv
      by (auto intro!: keeps_if keeps_read keeps_get keeps_return split: sum.split)
  qed
  have client: "keeps (save_guard api) (ask (ma_do api) OpenClient \<bind> (\<lambda>o'. case o' of
         Some err \<Rightarrow> State_Monad.return (ts, Some (ClientFailed err))
       | None \<Rightarrow> healthyMembers api (maintenanceEndpoints ts) \<bind> (\<lambda>r. case r of
             Inl err \<Rightarrow> State_Monad.return (ts, Some err)
           | Inr statuses \<Rightarrow> choose_and_reserve api ts statuses))) k" for k
    by (intro keeps_bind keeps_ask)
      (auto simp: save_guard_def choose keeps_return keeps_unsaved unsaved_quiet quiet_healthy intro!: keeps_bind split: option.split sum.split)
  show ?thesis unfolding reconcileMaintenance_def
    by (rule keeps_get)
      (auto simp: client keeps_return keeps_unsaved unsaved_quiet quiet_workload intro!: keeps_bind split: sum.split)
qed

lemma saves_resumeMaintenance: "keeps (save_guard api) (resumeMaintenance api ts) h"
proof -
  let ?check = "\<lambda>fresh. if \<not> maintenanceEnabled fresh then State_Monad.return None
     else ask (ma_do api) OpenClient \<bind> (\<lambda>o'. case o' of
            Some err \<Rightarrow> State_Monad.return (Some (ClientFailed err))
          | None \<Rightarrow> healthyMembers api (maintenanceEndpoints fresh) \<bind>
              (\<lambda>m. State_Monad.return (case m of Inl err \<Rightarrow> Some err | Inr _ \<Rightarrow> None)))"
  have release: "keeps (save_guard api) (?check fresh \<bind> (\<lambda>e. case e of
         Some err \<Rightarrow> State_Monad.return (fresh, Some err, True)
       | None \<Rightarrow> saveMaintenance api fresh (st\<lparr>ms_in_progress := False\<rparr>) \<bind>
           (\<lambda>(saved, e). State_Monad.return (saved, e, False)))) k"
    if "seen (ma_topo api) k GetTopo (Inr fresh)" "tv_state fresh = Some st" for fresh st k
  proof (rule keeps_bind)
    have quiet: "appends (\<lambda>c. \<not> saves c) (?check fresh)"
      by (intro appends_intros unsaved_quiet quiet_healthy) simp_all
    then show "keeps (save_guard api) (?check fresh) k" by (rule keeps_unsaved)
    fix e k' assume "run_state (?check fresh) k = (e, k')"
    with quiet obtain cs where "k' = k @ cs" unfolding appends_def by (metis snd_conv)
    with that have "save_guard api k' (SaveState fresh (st\<lparr>ms_in_progress := False\<rparr>))"
      by (auto simp: save_guard_def intro: seen_mono)
    then show "keeps (save_guard api) (case e of Some err \<Rightarrow> State_Monad.return (fresh, Some err, True)
       | None \<Rightarrow> saveMaintenance api fresh (st\<lparr>ms_in_progress := False\<rparr>) \<bind> (\<lambda>(saved, e). State_Monad.return (saved, e, False))) k'"
      by (auto intro!: keeps_bind keeps_save keeps_return split: option.split)
  qed
  have "keeps (save_guard api) (?check fresh \<bind> (\<lambda>e. case e of
         Some err \<Rightarrow> State_Monad.return (fresh, Some err, True)
       | None \<Rightarrow> saveMaintenance api fresh (st\<lparr>ms_in_progress := False\<rparr>) \<bind>
           (\<lambda>(saved, e). State_Monad.return (saved, e, False)))) (h @ [GetTopo])"
    if "ma_topo api h GetTopo = Inr fresh" "tv_state fresh = Some st" for fresh st
    using release seen_last [of "ma_topo api" h GetTopo] that by blast
  then show ?thesis unfolding resumeMaintenance_def
    by (intro keeps_if keeps_return keeps_read keeps_get keeps_case) blast
qed

text \<open>
  What the server stores of one TopoServer, the newest object first, and the times of the reservations it took, the newest
  first. A pass of any controller may be anywhere in its course: a save is taken when a run of the code makes it, when what
  that run was answered before, however long ago, came out of this history, and when nobody has written since the version
  the save names. Times are kept to the second. Any other write leaves the maintenance state alone.
\<close>

definition stored_state :: "maintenance_state \<Rightarrow> maintenance_state" where
  "stored_state st = st\<lparr>ms_last_attempt := ms_last_attempt st - ms_last_attempt st mod second\<rparr>"

definition issues :: "mapi \<Rightarrow> mcall list \<Rightarrow> mcall \<Rightarrow> bool" where
  "issues api before c \<longleftrightarrow> (\<exists>ts after. snd (run_state (resumeMaintenance api ts) []) = before @ c # after
     \<or> snd (run_state (reconcileMaintenance api ts) []) = before @ c # after)"

definition answered_from :: "topo_object list \<Rightarrow> mapi \<Rightarrow> mcall list \<Rightarrow> bool" where
  "answered_from objs api h \<longleftrightarrow>
     (\<forall>ts. seen (ma_topo api) h GetTopo (Inr ts) \<longrightarrow> ts \<in> set objs)
     \<and> (\<forall>ts st v. seen (ma_save api) h (SaveState ts st) (Inr v) \<longrightarrow>
          (\<exists>ts'\<in>set objs. tv_version ts' = v \<and> tv_state ts' = Some (stored_state st)))"

inductive topo_history :: "topo_object list \<Rightarrow> gotime list \<Rightarrow> bool" where
  start: "topo_history [ts] []"
| other: "topo_history (cur # objs) taken \<Longrightarrow> tv_state ts = tv_state cur \<Longrightarrow> tv_version ts \<notin> tv_version ` set (cur # objs)
    \<Longrightarrow> topo_history (ts # cur # objs) taken"
| save: "topo_history (cur # objs) taken \<Longrightarrow> issues api before (SaveState ts st) \<Longrightarrow> answered_from (cur # objs) api before
    \<Longrightarrow> ma_save api before (SaveState ts st) = Inr v \<Longrightarrow> tv_version ts = tv_version cur \<Longrightarrow> v \<notin> tv_version ` set (cur # objs)
    \<Longrightarrow> topo_history (cur\<lparr>tv_state := Some (stored_state st), tv_version := v\<rparr> # cur # objs)
          (if ms_in_progress st then ms_last_attempt st # taken else taken)"

definition spaced :: "gotime list \<Rightarrow> bool" where
  "spaced taken \<longleftrightarrow> sorted_wrt (\<lambda>new old. old + maintenanceInterval - second < new) taken"

definition latest_kept :: "topo_object \<Rightarrow> gotime list \<Rightarrow> bool" where
  "latest_kept cur taken \<longleftrightarrow> (\<forall>t rest. taken = t # rest \<longrightarrow>
     (\<exists>st. tv_state cur = Some st \<and> ms_last_attempt st = t - t mod second))"

lemma issues_guarded: "issues api before c \<Longrightarrow> save_guard api before c"
proof -
  assume "issues api before c"
  then obtain ts after where "snd (run_state (resumeMaintenance api ts) []) = before @ c # after
     \<or> snd (run_state (reconcileMaintenance api ts) []) = before @ c # after" unfolding issues_def by blast
  with saves_resumeMaintenance [of api ts "[]"] saves_reconcileMaintenance [of api ts "[]"]
  have "guarded (save_guard api) [] (before @ c # after)" unfolding keeps_def by (metis append_Nil)
  then show ?thesis by simp
qed

lemma spaced_Cons: "spaced (t # taken) \<Longrightarrow> t + maintenanceInterval - second < now \<Longrightarrow> spaced (now # t # taken)"
  by (auto simp: spaced_def maintenanceInterval_def hour_def minute_def second_def)

lemma same_object: "distinct (map tv_version objs) \<Longrightarrow> x \<in> set objs \<Longrightarrow> y \<in> set objs \<Longrightarrow> tv_version x = tv_version y \<Longrightarrow> x = y"
  by (simp add: distinct_map inj_on_def)

lemma reserve_spaced:
  assumes "spaced taken" and "latest_kept cur taken" and "\<not> attempt_blocked now cur"
  shows "spaced (now # taken)"
proof (cases taken)
  case (Cons t rest)
  with assms(2,3) have "maintenanceInterval \<le> now - (t - t mod second)" by (auto simp: latest_kept_def attempt_blocked_def)
  moreover have "t mod second < second" by (simp add: second_def)
  ultimately have "t + maintenanceInterval - second < now" by linarith
  with Cons assms(1) show ?thesis by (simp add: spaced_Cons)
qed (simp add: spaced_def)

lemma release_keeps:
  assumes "save_guard api h (SaveState ts st)" and "\<not> ms_in_progress st" and "answered_from objs api h"
    and "distinct (map tv_version objs)" and "cur \<in> set objs" and "tv_version ts = tv_version cur" and "latest_kept cur taken"
  shows "latest_kept (cur\<lparr>tv_state := Some (stored_state st), tv_version := v\<rparr>) taken"
proof -
  from assms(1,2) consider (read) old where "seen (ma_topo api) h GetTopo (Inr ts)" "tv_state ts = Some old"
      "ms_last_attempt st = ms_last_attempt old"
    | (saved) fresh old where "seen (ma_save api) h (SaveState fresh old) (Inr (tv_version ts))" "ms_last_attempt st = ms_last_attempt old"
    by (auto simp: save_guard_def)
  then have "\<exists>old. tv_state cur = Some old \<and> (ms_last_attempt st = ms_last_attempt old \<or> ms_last_attempt (stored_state st) = ms_last_attempt old)"
  proof cases
    case read
    then have "ts = cur" using assms(3-6) by (auto simp: answered_from_def intro: same_object)
    with read show ?thesis by auto
  next
    case saved
    then obtain ts' where "ts' \<in> set objs" "tv_version ts' = tv_version ts" "tv_state ts' = Some (stored_state old)"
      using assms(3) unfolding answered_from_def by blast
    moreover from this have "ts' = cur" using assms(4-6) by (auto intro: same_object)
    ultimately show ?thesis using saved(2) by (auto simp: stored_state_def)
  qed
  with assms(7) show ?thesis by (auto simp: latest_kept_def stored_state_def mod_diff_left_eq)
qed

lemma topo_history_inv:
  "topo_history objs taken \<Longrightarrow> \<exists>cur rest. objs = cur # rest \<and> distinct (map tv_version objs) \<and> spaced taken \<and> latest_kept cur taken"
proof (induction rule: topo_history.induct)
  case (start ts)
  then show ?case by (simp add: spaced_def latest_kept_def)
next
  case (other cur objs taken ts)
  then show ?case by (auto simp: latest_kept_def)
next
  case (save cur objs taken api before ts st v)
  then have inv: "distinct (map tv_version (cur # objs))" "spaced taken" "latest_kept cur taken" by auto
  have g: "save_guard api before (SaveState ts st)" using save(2) by (rule issues_guarded)
  have versions: "distinct (map tv_version (cur\<lparr>tv_state := Some (stored_state st), tv_version := v\<rparr> # cur # objs))"
    using inv(1) save.hyps(6) by simp
  show ?case
  proof (cases "ms_in_progress st")
    case True
    with g have "seen (ma_topo api) before GetTopo (Inr ts)" "\<not> attempt_blocked (ms_last_attempt st) ts" by (auto simp: save_guard_def)
    moreover from this(1) save.hyps(3) have "ts \<in> set (cur # objs)" unfolding answered_from_def by blast
    with save.hyps(5) have "ts = cur" by (intro same_object [OF inv(1)]) simp_all
    ultimately have "spaced (ms_last_attempt st # taken)" using inv by (simp add: reserve_spaced)
    with True versions show ?thesis by (auto simp: latest_kept_def stored_state_def)
  next
    case False
    from release_keeps [OF g False save.hyps(3) inv(1) _ save.hyps(5) inv(3)] False inv(2) versions show ?thesis by simp
  qed
qed

text \<open>
  C26: two members are never defragmented at once, however many controllers there are. Let their runs of
  \<^const>\<open>resumeMaintenance\<close> and \<^const>\<open>reconcileMaintenance\<close> interleave in any way, each acting on what it has read at any
  earlier time, with a server that takes a save only if the version it names is still the current one and that keeps times to
  the second. Of any two reservations it takes, the later is made, but for that second, at least an hour after the earlier,
  and so after the two minutes given to the earlier are over.
\<close>

theorem reservations_spaced:
  assumes "topo_history objs taken" and "taken = later @ new # between @ old # earlier"
  shows "old + maintenanceInterval - second < new \<and> old + maintenanceTimeout < new"
proof -
  have "spaced taken" using topo_history_inv [OF assms(1)] by blast
  then have "old + maintenanceInterval - second < new"
    using assms(2) by (auto simp: spaced_def sorted_wrt_append)
  then show ?thesis by (simp add: maintenanceInterval_def maintenanceTimeout_def hour_def minute_def second_def)
qed

subsection \<open>An instance\<close>

definition demo_topo :: topo_object where
  "demo_topo = \<lparr>tv_name = ''t'', tv_namespace = ''n'', tv_uid = ''u'', tv_version = ''1'', tv_generation = 1, tv_deletion = None, tv_tls = False,
     tv_etcd = Some (empty_etcd\<lparr>et_maintenance := Some (empty_maintenance\<lparr>em_defragmentation := Some True\<rparr>)\<rparr>), tv_state = None\<rparr>"

definition demo_member :: "64 word \<Rightarrow> member_status" where
  "demo_member i = \<lparr>mr_header = Some (7, i), mr_leader = 1, mr_learner = False, mr_errors = [], mr_db_size = 400000000, mr_in_use = 100000000\<rparr>"

definition demo_status :: "mcall list \<Rightarrow> mcall \<Rightarrow> string + member_status option" where
  "demo_status h c = (case c of
     MemberStatus ep \<Rightarrow> Inr (Some (demo_member (if ep = member_endpoint demo_topo 0 then 2 else if ep = member_endpoint demo_topo 1 then 1 else 3)))
   | _ \<Rightarrow> Inl [])"

definition demo_maintenance :: mapi where
  "demo_maintenance = \<lparr>ma_topo = (\<lambda>_ _. Inr demo_topo),
     ma_set = (\<lambda>_ _. Inr \<lparr>ss_uid = ''s'', ss_owner = Some ''u'', ss_deletion = None, ss_replicas = Some 3, ss_generation = 1,
       ss_observed_generation = 1, ss_ready_replicas = 3, ss_updated_replicas = 3, ss_current_revision = ''r'', ss_update_revision = ''r''\<rparr>),
     ma_pod = (\<lambda>_ _. Inr \<lparr>mp_owner = Some ''s'', mp_deletion = None, mp_revision = ''r'',
       mp_conditions = [\<lparr>pc_type = ''Ready'', pc_status = ConditionTrue, pc_last_transition = 1\<rparr>]\<rparr>),
     ma_members = (\<lambda>_ _. Inr [(1, False), (2, False), (3, False)]), ma_status = demo_status, ma_do = (\<lambda>_ _. None),
     ma_save = (\<lambda>_ _. Inr ''2''), ma_now = (\<lambda>_. 20 * hour), ma_low_ratio = (\<lambda>_ _. False)\<rparr>"

definition demo_calls :: "mcall list" where
  "demo_calls = snd (run_state (reconcileMaintenance demo_maintenance demo_topo) [])"

definition defragments_first :: "mcall \<Rightarrow> bool" where
  "defragments_first c = (case c of Defragment ep \<Rightarrow> ep = member_endpoint demo_topo 0 | _ \<Rightarrow> False)"

lemma demo_defragments: "list_ex defragments_first demo_calls"
  by code_simp

theorem defragmentation_guarded_witness:
  "\<exists>before. maintenance_guard demo_maintenance (maintenanceEndpoints demo_topo) before (Defragment (member_endpoint demo_topo 0))"
proof -
  from demo_defragments obtain before c after where "demo_calls = before @ c # after" and "defragments_first c"
    by (metis list_ex_iff split_list)
  moreover from this(2) have "c = Defragment (member_endpoint demo_topo 0)" by (simp add: defragments_first_def split: mcall.splits)
  ultimately show ?thesis using defragmentation_guarded [of demo_maintenance demo_topo] by (auto simp: demo_calls_def)
qed

lemma demo_healthy: "\<not> isl (fst (run_state (healthyMembers demo_maintenance (maintenanceEndpoints demo_topo)) []))"
  by code_simp

theorem healthyMembers_sound_witness:
  "\<exists>statuses. fst (run_state (healthyMembers demo_maintenance (maintenanceEndpoints demo_topo)) []) = Inr statuses
     \<and> map fst statuses = maintenanceEndpoints demo_topo \<and> distinct (map (member_id \<circ> snd) statuses)"
proof -
  obtain r h where run: "run_state (healthyMembers demo_maintenance (maintenanceEndpoints demo_topo)) [] = (r, h)" by force
  with demo_healthy obtain statuses where "r = Inr statuses" by (cases r) auto
  with run healthyMembers_sound [of demo_maintenance "maintenanceEndpoints demo_topo" "[]" statuses h] show ?thesis by auto
qed

text \<open>
  Two passes, two hours apart, the second on what the first left: the first reserves, defragments and releases, the second
  reserves.
\<close>

definition later_topo :: topo_object where
  "later_topo = demo_topo\<lparr>tv_version := ''3'',
     tv_state := Some \<lparr>ms_last_attempt = 20 * hour, ms_endpoint = member_endpoint demo_topo 0, ms_in_progress = False\<rparr>\<rparr>"

definition first_pass :: mapi where
  "first_pass = demo_maintenance\<lparr>ma_save := (\<lambda>_ c. case c of SaveState ts st \<Rightarrow> Inr (if ms_in_progress st then ''2'' else ''3'') | _ \<Rightarrow> Inl Conflict)\<rparr>"

definition second_pass :: mapi where
  "second_pass = demo_maintenance\<lparr>ma_topo := (\<lambda>_ _. Inr later_topo), ma_now := (\<lambda>_. 22 * hour), ma_save := (\<lambda>_ _. Inr ''4'')\<rparr>"

text \<open>The saves of a list of calls: the place of each, the version it names and what it writes.\<close>

definition save_states :: "mcall list \<Rightarrow> (nat \<times> string \<times> maintenance_state) list" where
  "save_states cs = concat (map (\<lambda>(i, c). case c of SaveState ts st \<Rightarrow> [(i, tv_version ts, st)] | _ \<Rightarrow> []) (List.enumerate 0 cs))"

definition demo_attempt :: "gotime \<Rightarrow> bool \<Rightarrow> maintenance_state" where
  "demo_attempt t b = \<lparr>ms_last_attempt = t, ms_endpoint = member_endpoint demo_topo 0, ms_in_progress = b\<rparr>"

lemma in_save_states:
  "(i, v, st) \<in> set (save_states cs) \<longleftrightarrow> i < length cs \<and> (\<exists>ts. cs ! i = SaveState ts st \<and> tv_version ts = v)"
proof -
  have "x \<in> set (case c of SaveState ts st \<Rightarrow> [(i, tv_version ts, st)] | _ \<Rightarrow> []) \<longleftrightarrow> (\<exists>ts st. c = SaveState ts st \<and> x = (i, tv_version ts, st))"
    for x c i by (cases c) auto
  then show ?thesis by (auto simp: save_states_def in_set_enumerate_eq)
qed

lemma seen_save: "seen f (take n cs) (SaveState ts st) r \<Longrightarrow> \<exists>i<n. (i, tv_version ts, st) \<in> set (save_states cs)"
  unfolding seen_def in_save_states
  by (metis append_take_drop_id length_append length_take less_add_same_cancel1 list.size(4) min.strict_boundedE
      nth_append nth_append_length order_less_le_trans trans_less_add1 zero_less_Suc add_Suc_right min_less_iff_conj)

lemma issues_save:
  assumes "cs = snd (run_state (reconcileMaintenance api ts) [])" and "(i, v, st) \<in> set (save_states cs)"
  shows "\<exists>ts'. tv_version ts' = v \<and> issues api (take i cs) (SaveState ts' st)"
proof -
  from assms(2) obtain ts' where "i < length cs" "cs ! i = SaveState ts' st" "tv_version ts' = v" unfolding in_save_states by blast
  moreover from this have "cs = take i cs @ SaveState ts' st # drop (Suc i) cs" by (metis id_take_nth_drop)
  ultimately show ?thesis unfolding issues_def using assms(1) by metis
qed

lemma first_saves: "save_states (snd (run_state (reconcileMaintenance first_pass demo_topo) []))
    = [(13, ''1'', demo_attempt (20 * hour) True), (33, ''2'', demo_attempt (20 * hour) False)]"
  by code_simp

lemma second_saves: "save_states (snd (run_state (reconcileMaintenance second_pass later_topo) []))
    = [(13, ''3'', demo_attempt (22 * hour) True), (33, ''4'', demo_attempt (22 * hour) False)]"
  by code_simp

lemma demo_stored: "stored_state (demo_attempt (20 * hour) b) = demo_attempt (20 * hour) b"
  by (simp add: stored_state_def demo_attempt_def hour_def minute_def second_def)

lemma demo_history:
  "\<exists>objs. topo_history objs [22 * hour, 20 * hour]"
proof -
  define cs where "cs = snd (run_state (reconcileMaintenance first_pass demo_topo) [])"
  define ds where "ds = snd (run_state (reconcileMaintenance second_pass later_topo) [])"
  let ?two = "demo_topo\<lparr>tv_state := Some (demo_attempt (20 * hour) True), tv_version := ''2''\<rparr>"
  let ?three = "?two\<lparr>tv_state := Some (demo_attempt (20 * hour) False), tv_version := ''3''\<rparr>"
  have cs: "save_states cs = [(13, ''1'', demo_attempt (20 * hour) True), (33, ''2'', demo_attempt (20 * hour) False)]"
    and ds: "save_states ds = [(13, ''3'', demo_attempt (22 * hour) True), (33, ''4'', demo_attempt (22 * hour) False)]"
    unfolding cs_def ds_def by (rule first_saves second_saves)+
  have three: "?three = later_topo" by (simp add: later_topo_def demo_attempt_def)
  obtain t1 where t1: "tv_version t1 = ''1''" "issues first_pass (take 13 cs) (SaveState t1 (demo_attempt (20 * hour) True))"
    using issues_save [OF cs_def, of 13 "''1''"] cs by auto
  obtain t2 where t2: "tv_version t2 = ''2''" "issues first_pass (take 33 cs) (SaveState t2 (demo_attempt (20 * hour) False))"
    using issues_save [OF cs_def, of 33 "''2''"] cs by auto
  obtain t3 where t3: "tv_version t3 = ''3''" "issues second_pass (take 13 ds) (SaveState t3 (demo_attempt (22 * hour) True))"
    using issues_save [OF ds_def, of 13 "''3''"] ds by auto
  have read: "seen (ma_topo first_pass) h GetTopo (Inr ts) \<Longrightarrow> ts = demo_topo" "seen (ma_topo second_pass) h GetTopo (Inr ts) \<Longrightarrow> ts = later_topo"
    for h ts by (simp_all add: seen_def first_pass_def second_pass_def demo_maintenance_def)
  have one: "topo_history [demo_topo] []" by (rule topo_history.start)
  have a1: "answered_from [demo_topo] first_pass (take 13 cs)"
    unfolding answered_from_def using read seen_save [of _ 13 cs] cs by fastforce
  have two: "topo_history [?two, demo_topo] [20 * hour]"
    using topo_history.save [OF one t1(2) a1, of "''2''"] t1(1) demo_stored
    by (simp add: first_pass_def demo_topo_def demo_attempt_def)
  have saved: "v = ''2'' \<and> st = demo_attempt (20 * hour) True" if "seen (ma_save first_pass) (take 33 cs) (SaveState ts st) (Inr v)" for ts st v
  proof -
    from that seen_save [OF that] cs have "st = demo_attempt (20 * hour) True" by auto
    with that show ?thesis by (auto simp: seen_def first_pass_def demo_attempt_def)
  qed
  have a2: "answered_from [?two, demo_topo] first_pass (take 33 cs)"
    unfolding answered_from_def using read(1) saved demo_stored by fastforce
  have "topo_history [?three, ?two, demo_topo] [20 * hour]"
    using topo_history.save [OF two t2(2) a2, of "''3''"] t2(1) demo_stored
    by (simp add: first_pass_def demo_topo_def demo_attempt_def)
  then have last: "topo_history [later_topo, ?two, demo_topo] [20 * hour]" unfolding three .
  have a3: "answered_from [later_topo, ?two, demo_topo] second_pass (take 13 ds)"
    unfolding answered_from_def using read(2) seen_save [of _ 13 ds] ds by fastforce
  show ?thesis
    using topo_history.save [OF last t3(2) a3, of "''4''"] t3(1)
    by (auto simp: second_pass_def later_topo_def demo_topo_def demo_attempt_def)
qed

theorem reservations_spaced_witness:
  "\<exists>objs. topo_history objs [22 * hour, 20 * hour] \<and> 20 * hour + maintenanceTimeout < 22 * hour"
proof -
  from demo_history obtain objs where h: "topo_history objs [22 * hour, 20 * hour]" by blast
  from reservations_spaced [OF h, of "[]" "22 * hour" "[]" "20 * hour" "[]"] h show ?thesis by auto
qed

end
