(* ===== verification/Topo_Registration.thy ===== *)
theory Topo_Registration
  imports Cluster_Status Topo_Poolers
begin

text \<open>
  Registration of cells and databases in the topology (\<^verbatim>\<open>pkg/data-handler/topo\<close>: \<^verbatim>\<open>topology.go\<close>, \<^verbatim>\<open>cell.go\<close>,
  \<^verbatim>\<open>metadata.go\<close>, \<^verbatim>\<open>store.go\<close>, and \<^verbatim>\<open>multigrescluster/reconcile_topology.go\<close>).

  The topology client is a third-party package. Its store is the argument \<^verbatim>\<open>topo_store\<close>, a function per call on a state of
  any type; what the package documents of them is the predicate \<^verbatim>\<open>store_laws\<close>, with a view of the records kept. What a
  call returns as an error carries its text, because the code searches the text for an unavailable server. The reads of
  cells, servers and secrets are answers by name, as each is read once; the deadline of the pass shows as errors of the calls.
\<close>

subsection \<open>Records of the topology\<close>

text \<open>The last field of a record stands for the fields the operator does not manage.\<close>

record cell_record =
  lr_name :: string
  lr_addresses :: "string list"
  lr_root :: string
  lr_metadata :: string
  lr_other :: string

datatype quorum_type = QUORUM_TYPE_UNKNOWN | QUORUM_TYPE_AT_LEAST_N | QUORUM_TYPE_MULTI_CELL_AT_LEAST_N

record durability =
  du_policy :: string
  du_quorum :: quorum_type
  du_required :: int

datatype location = LocationS3 (loc_bucket: string) string string string bool | LocationFilesystem string

record backup_location =
  bl_location :: location
  bl_require_encryption :: bool

record db_record =
  dr_name :: string
  dr_cells :: "string list"
  dr_location :: "backup_location option"
  dr_policy :: "durability option"
  dr_other :: string

record 's topo_store =
  so_create_cell :: "string \<Rightarrow> cell_record \<Rightarrow> 's \<Rightarrow> topo_error option \<times> 's"
  so_update_cell :: "string \<Rightarrow> (cell_record \<Rightarrow> topo_error + cell_record) \<Rightarrow> 's \<Rightarrow> topo_error option \<times> 's"
  so_cell_names :: "'s \<Rightarrow> (topo_error + string list) \<times> 's"
  so_delete_cell :: "string \<Rightarrow> bool \<Rightarrow> 's \<Rightarrow> topo_error option \<times> 's"
  so_create_database :: "string \<Rightarrow> db_record \<Rightarrow> 's \<Rightarrow> topo_error option \<times> 's"
  so_update_database :: "string \<Rightarrow> (db_record \<Rightarrow> topo_error + db_record) \<Rightarrow> 's \<Rightarrow> topo_error option \<times> 's"
  so_database_names :: "'s \<Rightarrow> (topo_error + string list) \<times> 's"
  so_delete_database :: "string \<Rightarrow> bool \<Rightarrow> 's \<Rightarrow> topo_error option \<times> 's"

text \<open>What a pass changes: the store, the events recorded, the cluster's status in memory and the statuses applied.\<close>

record 's topo_world =
  wd_store :: 's
  wd_events :: "(string \<times> string) list"
  wd_status :: cluster_status
  wd_applied :: "cluster_status list"

type_synonym ('s, 'a) tio = "('s topo_world, 'a) state"

definition on_store :: "('s \<Rightarrow> 'a \<times> 's) \<Rightarrow> ('s, 'a) tio" where
  "on_store f = State (\<lambda>w. let (a, s) = f (wd_store w) in (a, w\<lparr>wd_store := s\<rparr>))"

definition topo_event :: "string \<Rightarrow> string \<Rightarrow> ('s, unit) tio" where
  "topo_event reason obj = State (\<lambda>w. ((), w\<lparr>wd_events := wd_events w @ [(reason, obj)]\<rparr>))"

definition set_status :: "(cluster_status \<Rightarrow> cluster_status) \<Rightarrow> bool \<Rightarrow> ('s, unit) tio" where
  "set_status f persist = State (\<lambda>w. let st = f (wd_status w)
     in ((), w\<lparr>wd_status := st, wd_applied := (if persist then wd_applied w @ [st] else wd_applied w)\<rparr>))"

subsection \<open>Errors and their texts\<close>

definition wrap :: "string \<Rightarrow> topo_error \<Rightarrow> topo_error" where
  "wrap context e = e\<lparr>te_message := context @ te_message e\<rparr>"

definition plain_error :: "string \<Rightarrow> topo_error" where
  "plain_error message = \<lparr>te_code = OtherCode, te_message = message\<rparr>"

definition lower_hex :: "nat \<Rightarrow> char" where
  "lower_hex n = ''0123456789abcdef'' ! n"

text \<open>\<^verbatim>\<open>strconv.Quote\<close>, by which the verb \<^verbatim>\<open>%q\<close> prints a string; the bytes above 127 stay.\<close>

definition quote_char :: "char \<Rightarrow> string" where
  "quote_char c =
     (if c = CHR 0x22 \<or> c = CHR 0x5C then [CHR 0x5C, c]
      else if CHR 0x20 \<le> c \<and> c \<noteq> CHR 0x7F then [c]
      else case map_of [(CHR 0x07, CHR ''a''), (CHR 0x08, CHR ''b''), (CHR 0x0C, CHR ''f''), (CHR 0x0A, CHR ''n''),
                        (CHR 0x0D, CHR ''r''), (CHR 0x09, CHR ''t''), (CHR 0x0B, CHR ''v'')] c of
             Some d \<Rightarrow> [CHR 0x5C, d]
           | None \<Rightarrow> [CHR 0x5C, CHR ''x'', lower_hex (of_char c div 16), lower_hex (of_char c mod 16)])"

definition go_quote :: "string \<Rightarrow> string" where
  "go_quote s = [CHR 0x22] @ concat (map quote_char s) @ [CHR 0x22]"

fun root_error_text :: "root_error \<Rightarrow> string" where
  "root_error_text (EmptySegment kind) = kind @ '' must not be empty when deriving topology root''"
| "root_error_text (NulInSegment kind) = kind @ '' must not contain a NUL byte''"

definition isNodeExists :: "topo_error \<Rightarrow> bool" where
  "isNodeExists e \<longleftrightarrow> te_code e = NodeExists"

definition isNoNode :: "topo_error \<Rightarrow> bool" where
  "isNoNode e \<longleftrightarrow> te_code e = NoNode"

definition no_update_needed :: topo_error where
  "no_update_needed = \<lparr>te_code = NoUpdateNeeded, te_message = []\<rparr>"

subsection \<open>Cells\<close>

definition cellMetadataFromTopoRefs ::
  "string \<Rightarrow> local_topo option \<Rightarrow> topo_ref \<Rightarrow> string \<Rightarrow> string \<Rightarrow> cell_record" where
  "cellMetadataFromTopoRefs cellName localTopo globalTopo managedTopoAddress defaultCellRoot =
     (let cell = (\<lambda>addresses root. \<lparr>lr_name = cellName, lr_addresses = addresses, lr_root = root, lr_metadata = [], lr_other = []\<rparr>);
          external = Option.bind localTopo lt_external;
          etcd = Option.bind localTopo lt_etcd
      in case external of
           Some e \<Rightarrow>
             if ex_endpoints e \<noteq> [] then cell (ex_endpoints e) (or_text defaultCellRoot (ex_root_path e))
             else (case etcd of
                     Some d \<Rightarrow> if managedTopoAddress \<noteq> [] then cell [managedTopoAddress] (or_text defaultCellRoot (et_root_path d))
                               else cell [tr_address globalTopo] (tr_root_path globalTopo)
                   | None \<Rightarrow> cell [tr_address globalTopo] (tr_root_path globalTopo))
         | None \<Rightarrow>
             (case etcd of
                Some d \<Rightarrow> if managedTopoAddress \<noteq> [] then cell [managedTopoAddress] (or_text defaultCellRoot (et_root_path d))
                          else cell [tr_address globalTopo] (tr_root_path globalTopo)
              | None \<Rightarrow> cell [tr_address globalTopo] (tr_root_path globalTopo)))"

definition update_cell_metadata :: "cell_record \<Rightarrow> cell_record \<Rightarrow> topo_error + cell_record" where
  "update_cell_metadata desired existing =
     (if lr_name existing = lr_name desired \<and> lr_root existing = lr_root desired
         \<and> lr_metadata existing = lr_metadata desired \<and> lr_addresses existing = lr_addresses desired
      then Inl no_update_needed
      else Inr (existing\<lparr>lr_name := lr_name desired, lr_addresses := lr_addresses desired,
                 lr_root := lr_root desired, lr_metadata := lr_metadata desired\<rparr>))"

definition createOrUpdateCell :: "'s topo_store \<Rightarrow> string \<Rightarrow> cell_record \<Rightarrow> ('s, topo_error + bool) tio" where
  "createOrUpdateCell topo cellName cellMetadata = do {
     created \<leftarrow> on_store (so_create_cell topo cellName cellMetadata);
     case created of
       None \<Rightarrow> State_Monad.return (Inr True)
     | Some err \<Rightarrow>
         if isNodeExists err then do {
           updated \<leftarrow> on_store (so_update_cell topo cellName (update_cell_metadata cellMetadata));
           State_Monad.return (case updated of
               Some err \<Rightarrow> Inl (wrap (''updating existing cell '' @ cellName @ '' in topology: '') err)
             | None \<Rightarrow> Inr False)
         }
         else State_Monad.return (Inl (wrap ''failed to create cell in topology: '' err))
   }"

definition cell_record_for ::
  "resolve_env \<Rightarrow> cluster \<Rightarrow> cell_config \<Rightarrow> local_topo option \<Rightarrow> topo_ref \<Rightarrow> string \<Rightarrow> topo_error + cell_record" where
  "cell_record_for env owner cellConfig localTopo topoRef managedAddress =
     (let cellName = cl_name cellConfig
      in case ForCluster env owner of
           Inl err \<Rightarrow> Inl (plain_error (''deriving topology roots for cell '' @ go_quote cellName @ '': '' @ root_error_text err))
         | Inr roots \<Rightarrow>
             (case Cell_root roots cellName of
                Inl err \<Rightarrow> Inl (plain_error (''deriving topology root for cell '' @ go_quote cellName @ '': '' @ root_error_text err))
              | Inr cellRoot \<Rightarrow>
                  Inr ((cellMetadataFromTopoRefs cellName localTopo topoRef managedAddress cellRoot)
                         \<lparr>lr_metadata := cl_metadata cellConfig\<rparr>)))"

definition RegisterCellFromSpec ::
  "'s topo_store \<Rightarrow> resolve_env \<Rightarrow> cluster \<Rightarrow> cell_config \<Rightarrow> local_topo option \<Rightarrow> topo_ref \<Rightarrow> string \<Rightarrow> ('s, topo_error option) tio" where
  "RegisterCellFromSpec topo env owner cellConfig localTopo topoRef managedAddress =
     (case cell_record_for env owner cellConfig localTopo topoRef managedAddress of
        Inl err \<Rightarrow> State_Monad.return (Some err)
      | Inr cellMetadata \<Rightarrow> do {
          created \<leftarrow> createOrUpdateCell topo (cl_name cellConfig) cellMetadata;
          case created of
            Inl err \<Rightarrow> State_Monad.return (Some err)
          | Inr True \<Rightarrow> do {
              topo_event ''TopoRegistered'' (cl_name cellConfig);
              State_Monad.return None
            }
          | Inr False \<Rightarrow> State_Monad.return None
        })"

subsection \<open>Databases\<close>

definition buildDurabilityPolicy :: "string \<Rightarrow> string + durability" where
  "buildDurabilityPolicy name =
     (let name = (if name = [] then ''AT_LEAST_2'' else name)
      in if name = ''AT_LEAST_2'' then Inr \<lparr>du_policy = name, du_quorum = QUORUM_TYPE_AT_LEAST_N, du_required = 2\<rparr>
         else if name = ''MULTI_CELL_AT_LEAST_2''
         then Inr \<lparr>du_policy = name, du_quorum = QUORUM_TYPE_MULTI_CELL_AT_LEAST_N, du_required = 2\<rparr>
         else Inl (''unsupported durability policy '' @ go_quote name @ '' (supported: AT_LEAST_2, MULTI_CELL_AT_LEAST_2)''))"

definition backup_location_for :: "backup_config option \<Rightarrow> backup_location" where
  "backup_location_for backup =
     (let require = (case backup of None \<Rightarrow> False | Some b \<Rightarrow> bc_encryption b \<noteq> None);
          path = (case backup of
                    None \<Rightarrow> ''/backups''
                  | Some b \<Rightarrow>
                      if bc_type b = TypeFilesystem
                      then (case bc_filesystem b of None \<Rightarrow> ''/backups'' | Some f \<Rightarrow> or_text ''/backups'' (fb_path f))
                      else ''/backups'');
          s3 = (case backup of None \<Rightarrow> None | Some b \<Rightarrow> if bc_type b = TypeS3 then bc_s3 b else None)
      in \<lparr>bl_location = (case s3 of
              Some s \<Rightarrow> LocationS3 (s3_bucket s) (s3_region s) (s3_endpoint s) (s3_key_prefix s) (s3_use_env s)
            | None \<Rightarrow> LocationFilesystem path),
          bl_require_encryption = require\<rparr>)"

definition updateDatabaseMetadata :: "db_record \<Rightarrow> db_record \<Rightarrow> topo_error + db_record" where
  "updateDatabaseMetadata desired existing =
     (if sort (dr_cells existing) = sort (dr_cells desired) \<and> dr_location existing = dr_location desired
         \<and> dr_policy existing = dr_policy desired
      then Inl no_update_needed
      else Inr (existing\<lparr>dr_cells := sort (dr_cells desired), dr_location := dr_location desired, dr_policy := dr_policy desired\<rparr>))"

definition database_record_for ::
  "database_config \<Rightarrow> string list \<Rightarrow> backup_config option \<Rightarrow> string \<Rightarrow> topo_error + db_record" where
  "database_record_for dbConfig allCellNames backup clusterDurabilityPolicy =
     (let durabilityPolicy = (if db_durability_policy dbConfig = [] then clusterDurabilityPolicy else db_durability_policy dbConfig)
      in case buildDurabilityPolicy durabilityPolicy of
           Inl err \<Rightarrow> Inl (plain_error (''building durability policy for database '' @ db_name dbConfig @ '': '' @ err))
         | Inr policy \<Rightarrow> Inr \<lparr>dr_name = db_name dbConfig, dr_cells = allCellNames,
             dr_location = Some (backup_location_for backup), dr_policy = Some policy, dr_other = []\<rparr>)"

definition RegisterDatabaseFromSpec ::
  "'s topo_store \<Rightarrow> database_config \<Rightarrow> string list \<Rightarrow> backup_config option \<Rightarrow> string \<Rightarrow> ('s, topo_error option) tio" where
  "RegisterDatabaseFromSpec topo dbConfig allCellNames backup clusterDurabilityPolicy =
     (case database_record_for dbConfig allCellNames backup clusterDurabilityPolicy of
        Inl err \<Rightarrow> State_Monad.return (Some err)
      | Inr dbMetadata \<Rightarrow> do {
          created \<leftarrow> on_store (so_create_database topo (db_name dbConfig) dbMetadata);
          case created of
            None \<Rightarrow> do {
              topo_event ''TopoRegistered'' (db_name dbConfig);
              State_Monad.return None
            }
          | Some err \<Rightarrow>
              if isNodeExists err then do {
                updated \<leftarrow> on_store (so_update_database topo (db_name dbConfig) (updateDatabaseMetadata dbMetadata));
                State_Monad.return
                  (map_option (wrap (''updating existing database '' @ db_name dbConfig @ '' in topology: '')) updated)
              }
              else State_Monad.return (Some (wrap ''failed to create database in topology: '' err))
        })"

subsection \<open>Pruning\<close>

text \<open>The loop of \<^verbatim>\<open>PruneDatabases\<close> and of \<^verbatim>\<open>PruneCells\<close>, which differ in the call and in the word for the kind.\<close>

fun prune_each ::
  "(string \<Rightarrow> 's \<Rightarrow> topo_error option \<times> 's) \<Rightarrow> string \<Rightarrow> string list \<Rightarrow> string list \<Rightarrow> ('s, topo_error option) tio" where
  "prune_each drop_record kind keep [] = State_Monad.return None"
| "prune_each drop_record kind keep (n # ns) =
     (if n \<in> set keep then prune_each drop_record kind keep ns
      else do {
        deleted \<leftarrow> on_store (drop_record n);
        case deleted of
          None \<Rightarrow> do {
            topo_event ''TopoCleanup'' n;
            prune_each drop_record kind keep ns
          }
        | Some err \<Rightarrow>
            if isNoNode err then prune_each drop_record kind keep ns
            else do {
              topo_event ''TopoCleanupFailed'' n;
              State_Monad.return (Some (wrap (''pruning '' @ kind @ '' '' @ n @ '' from topology: '') err))
            }
      })"

definition prune_listed ::
  "('s \<Rightarrow> (topo_error + string list) \<times> 's) \<Rightarrow> (string \<Rightarrow> 's \<Rightarrow> topo_error option \<times> 's) \<Rightarrow> string \<Rightarrow> string list
   \<Rightarrow> ('s, topo_error option) tio" where
  "prune_listed names drop_record kind keep = do {
     existing \<leftarrow> on_store names;
     case existing of
       Inl err \<Rightarrow> State_Monad.return (Some (wrap (''listing '' @ kind @ ''s from topology: '') err))
     | Inr ns \<Rightarrow> prune_each drop_record kind keep ns
   }"

definition PruneDatabases :: "'s topo_store \<Rightarrow> string list \<Rightarrow> ('s, topo_error option) tio" where
  "PruneDatabases topo specDBNames =
     prune_listed (so_database_names topo) (\<lambda>n. so_delete_database topo n False) ''database'' specDBNames"

definition PruneCells :: "'s topo_store \<Rightarrow> string list \<Rightarrow> ('s, topo_error option) tio" where
  "PruneCells topo specCellNames =
     prune_listed (so_cell_names topo) (\<lambda>n. so_delete_cell topo n False) ''cell'' specCellNames"

subsection \<open>Opening the store\<close>

type_synonym secret = "string \<Rightarrow> string option"

record tls_options =
  tls_cert :: string
  tls_key :: string
  tls_ca :: string

definition requireKey :: "string \<Rightarrow> string \<Rightarrow> secret \<Rightarrow> string \<Rightarrow> topo_error + string" where
  "requireKey namespace name secret key =
     (if str_at secret key = []
      then Inl (plain_error (''topology client TLS Secret '' @ go_quote name @ '' in namespace '' @ go_quote namespace
                             @ '' is missing key '' @ go_quote key))
      else Inr (str_at secret key))"

definition get_secret :: "(string \<Rightarrow> string \<Rightarrow> topo_error + secret) \<Rightarrow> string \<Rightarrow> string \<Rightarrow> topo_error + secret" where
  "get_secret read namespace name =
     (case read namespace name of
        Inl err \<Rightarrow> Inl (wrap (''reading topology client TLS Secret '' @ go_quote name @ '' in namespace '' @ go_quote namespace @ '': '') err)
      | Inr s \<Rightarrow> Inr s)"

definition loadClientTLS ::
  "(string \<Rightarrow> string \<Rightarrow> topo_error + secret) \<Rightarrow> string \<Rightarrow> topo_ref \<Rightarrow> topo_error + tls_options option" where
  "loadClientTLS read namespace ref =
     (let certSecret = tr_client_cert_secret ref; caSecret = tr_ca_secret ref
      in if certSecret = [] \<and> caSecret = [] then Inr None
         else bind_err
           (if certSecret = [] then Inr ([], [])
            else bind_err (get_secret read namespace certSecret) (\<lambda>s.
                 bind_err (requireKey namespace certSecret s ''tls.crt'') (\<lambda>cert.
                 bind_err (requireKey namespace certSecret s ''tls.key'') (\<lambda>key. Inr (cert, key)))))
           (\<lambda>(cert, key). bind_err
              (if caSecret = [] then Inr []
               else bind_err (get_secret read namespace caSecret) (\<lambda>s. requireKey namespace caSecret s ''ca.crt''))
              (\<lambda>ca. Inr (Some \<lparr>tls_cert = cert, tls_key = key, tls_ca = ca\<rparr>))))"

definition newStore ::
  "(string \<Rightarrow> string \<Rightarrow> topo_error + secret) \<Rightarrow> (string \<Rightarrow> string \<Rightarrow> string list \<Rightarrow> tls_options option \<Rightarrow> topo_error option)
   \<Rightarrow> string \<Rightarrow> topo_ref \<Rightarrow> topo_error option" where
  "newStore read openServer namespace ref =
     (case loadClientTLS read namespace ref of
        Inl err \<Rightarrow> Some err
      | Inr tls \<Rightarrow> map_option (wrap ''failed to open topology store: '')
          (openServer (or_text ''etcd'' (tr_implementation ref)) (tr_root_path ref) [tr_address ref] tls))"

subsection \<open>The pass\<close>

definition topoUnavailableGracePeriod :: duration where "topoUnavailableGracePeriod = 2 * minute"
definition clusterTopoRequeueDelay :: duration where "clusterTopoRequeueDelay = 5 * second"
definition localTopoServerRequeueDelay :: duration where "localTopoServerRequeueDelay = 5 * second"
abbreviation conditionTopologyReady :: string where "conditionTopologyReady \<equiv> ''TopologyReady''"

record local_server =
  ls_controller :: "string option"
  ls_generation :: int
  ls_observed_generation :: int
  ls_phase :: Phase

text \<open>The answers a pass reads, by namespace and name: the UID of a cell, a topology server, the cells listed (the name in
  the specification and the annotation), a secret, and whether the server is opened.\<close>

record topo_reads =
  tq_cell :: "string \<Rightarrow> string \<Rightarrow> api_error + string"
  tq_server :: "string \<Rightarrow> string \<Rightarrow> api_error + local_server"
  tq_cells :: "string \<Rightarrow> labels \<Rightarrow> api_error + (string \<times> string) list"
  tq_secret :: "string \<Rightarrow> string \<Rightarrow> topo_error + secret"
  tq_open :: "string \<Rightarrow> string \<Rightarrow> string list \<Rightarrow> tls_options option \<Rightarrow> topo_error option"

record topo_env =
  tx_env :: cluster_env
  tx_now :: gotime
  tx_created :: gotime
  tx_generation :: int
  tx_set :: "condition list \<Rightarrow> condition \<Rightarrow> condition list"

datatype topo_failure =
    GlobalRefFailed resolve_error | LocalTopoUnresolved string resolve_error | LocalServerUnread string api_error
  | OpenStoreFailed topo_error | TopologyDown | CellUnregistered string topo_error
  | DatabaseUnregistered string topo_error | DatabasesUnpruned topo_error | CellsUnlisted api_error | CellsUnpruned topo_error

definition handleTopoUnavailable :: "topo_env \<Rightarrow> cluster \<Rightarrow> ('s, topo_failure + duration option) tio" where
  "handleTopoUnavailable env c =
     (let resourceAge = tx_now env - tx_created env
      in if resourceAge < topoUnavailableGracePeriod then do {
           topo_event ''TopologyWaiting'' (mc_name c);
           State_Monad.return (Inr (Some clusterTopoRequeueDelay))
         }
         else State_Monad.return (Inl TopologyDown))"

text \<open>What every step does with an error of the topology.\<close>

definition topo_error_end :: "topo_env \<Rightarrow> cluster \<Rightarrow> topo_failure \<Rightarrow> topo_error \<Rightarrow> ('s, topo_failure + duration option) tio" where
  "topo_error_end env c failure err =
     (if IsTopoUnavailable (Some err) then handleTopoUnavailable env c else State_Monad.return (Inl failure))"

definition topology_condition :: "topo_env \<Rightarrow> cstatus \<Rightarrow> string \<Rightarrow> string \<Rightarrow> condition" where
  "topology_condition env s reason message =
     \<lparr>c_type = conditionTopologyReady, c_status = s, c_observed_generation = tx_generation env, c_last_transition = tx_now env,
      c_reason = reason, c_message = message\<rparr>"

definition markTopologyFailed :: "topo_env \<Rightarrow> string \<Rightarrow> topo_error \<Rightarrow> ('s, unit) tio" where
  "markTopologyFailed env reason cause =
     set_status (\<lambda>st. st\<lparr>cu_conditions := tx_set env (cu_conditions st) (topology_condition env ConditionFalse reason (te_message cause)),
                        cu_phase := PhaseDegraded, cu_message := te_message cause\<rparr>) True"

definition mark_topology_ready :: "topo_env \<Rightarrow> ('s, unit) tio" where
  "mark_topology_ready env =
     set_status (\<lambda>st. st\<lparr>cu_conditions := tx_set env (cu_conditions st)
        (topology_condition env ConditionTrue ''TopoConnected'' ''Topology server reachable'')\<rparr>) False"

definition specCellNames :: "cluster \<Rightarrow> string list" where
  "specCellNames c = map cl_name (mc_cells c)"

definition cellNamesToKeepInTopology :: "topo_reads \<Rightarrow> cluster \<Rightarrow> api_error + string list" where
  "cellNamesToKeepInTopology reads c =
     (case tq_cells reads (mc_namespace c) [LabelMultigresCluster \<mapsto> mc_name c] of
        Inl err \<Rightarrow> Inl err
      | Inr cells \<Rightarrow>
          Inr (sort (remdups (specCellNames c @ map fst (filter (\<lambda>(_, pending). pending \<noteq> []) cells)))))"

definition managedLocalTopoServerReady :: "topo_reads \<Rightarrow> cluster \<Rightarrow> cell_config \<Rightarrow> api_error + bool" where
  "managedLocalTopoServerReady reads c cellCfg =
     (let cellResourceName = cell_object_name c (cl_name cellCfg)
      in case tq_cell reads (mc_namespace c) cellResourceName of
           Inl err \<Rightarrow> if err = NotFound then Inr False else Inl err
         | Inr uid \<Rightarrow>
             (case tq_server reads (mc_namespace c) (ManagedLocalTopoServerName cellResourceName) of
                Inl err \<Rightarrow> if err = NotFound then Inr False else Inl err
              | Inr ts \<Rightarrow>
                  Inr (ls_controller ts = Some uid
                       \<and> ls_observed_generation ts = ls_generation ts \<and> ls_phase ts = PhaseHealthy)))"

text \<open>The local topology of each cell, or the end of the pass.\<close>

fun resolve_local_topos ::
  "topo_env \<Rightarrow> topo_reads \<Rightarrow> cluster \<Rightarrow> cell_config list
   \<Rightarrow> ('s, (topo_failure + duration option) + (cell_config \<times> local_topo option) list) tio" where
  "resolve_local_topos env reads c [] = State_Monad.return (Inr [])"
| "resolve_local_topos env reads c (cellCfg # cells) =
     (case ResolveCell (cx_env (tx_env env)) c (effective_cell c cellCfg) of
        Inl err \<Rightarrow> do {
          topo_event ''TemplateMissing'' (mc_name c);
          State_Monad.return (Inl (Inl (LocalTopoUnresolved (cl_name cellCfg) err)))
        }
      | Inr (_, _, localTopo) \<Rightarrow>
          (case (if Option.bind localTopo lt_etcd = None then Inr True else managedLocalTopoServerReady reads c cellCfg) of
             Inl err \<Rightarrow> State_Monad.return (Inl (Inl (LocalServerUnread (cl_name cellCfg) err)))
           | Inr False \<Rightarrow> State_Monad.return (Inl (Inr (Some localTopoServerRequeueDelay)))
           | Inr True \<Rightarrow> do {
               rest \<leftarrow> resolve_local_topos env reads c cells;
               State_Monad.return (map_sum id (Cons (cellCfg, localTopo)) rest)
             }))"

definition local_topo_of :: "(cell_config \<times> local_topo option) list \<Rightarrow> string \<Rightarrow> local_topo option" where
  "local_topo_of topos name =
     (case find (\<lambda>(cell, _). cl_name cell = name) (rev topos) of None \<Rightarrow> None | Some (_, t) \<Rightarrow> t)"

fun register_cells ::
  "'s topo_store \<Rightarrow> topo_env \<Rightarrow> cluster \<Rightarrow> topo_ref \<Rightarrow> (string \<Rightarrow> local_topo option) \<Rightarrow> cell_config list \<Rightarrow> ('s, (string \<times> topo_error) option) tio" where
  "register_cells topo env c ref localTopo [] = State_Monad.return None"
| "register_cells topo env c ref localTopo (cellCfg # cells) = do {
     e \<leftarrow> RegisterCellFromSpec topo (cx_env (tx_env env)) c cellCfg (localTopo (cl_name cellCfg)) ref
            (ManagedLocalTopoServerAddress (cell_object_name c (cl_name cellCfg)) (mc_namespace c));
     case e of
       Some err \<Rightarrow> State_Monad.return (Some (cl_name cellCfg, err))
     | None \<Rightarrow> register_cells topo env c ref localTopo cells
   }"

text \<open>A Lite cluster registers no database here: its shard owns the record.\<close>

fun register_databases ::
  "'s topo_store \<Rightarrow> cluster \<Rightarrow> database_config list \<Rightarrow> ('s, (string \<times> topo_error) option) tio" where
  "register_databases topo c [] = State_Monad.return None"
| "register_databases topo c (db # dbs) =
     (if mc_mode c = ModeLite then register_databases topo c dbs
      else do {
        e \<leftarrow> RegisterDatabaseFromSpec topo db (specCellNames c) (MergeBackupConfig (db_backup db) (mc_backup c)) (mc_durability_policy c);
        case e of
          Some err \<Rightarrow> State_Monad.return (Some (db_name db, err))
        | None \<Rightarrow> register_databases topo c dbs
      })"

definition prune_topology ::
  "'s topo_store \<Rightarrow> topo_env \<Rightarrow> topo_reads \<Rightarrow> cluster \<Rightarrow> bool \<Rightarrow> ('s, topo_failure + duration option) tio" where
  "prune_topology topo env reads c preservePendingCells = do {
     e \<leftarrow> PruneDatabases topo (map db_name (mc_databases c));
     case e of
       Some err \<Rightarrow> topo_error_end env c (DatabasesUnpruned err) err
     | None \<Rightarrow>
         (case (if preservePendingCells then cellNamesToKeepInTopology reads c else Inr (specCellNames c)) of
            Inl err \<Rightarrow> State_Monad.return (Inl (CellsUnlisted err))
          | Inr cellNames \<Rightarrow> do {
              e \<leftarrow> PruneCells topo cellNames;
              case e of
                Some err \<Rightarrow> topo_error_end env c (CellsUnpruned err) err
              | None \<Rightarrow> State_Monad.return (Inr None)
            })
   }"

definition register_topology ::
  "'s topo_store \<Rightarrow> topo_env \<Rightarrow> topo_reads \<Rightarrow> cluster \<Rightarrow> bool \<Rightarrow> topo_ref \<Rightarrow> (cell_config \<times> local_topo option) list
   \<Rightarrow> ('s, topo_failure + duration option) tio" where
  "register_topology topo env reads c preservePendingCells ref localTopos = do {
     e \<leftarrow> register_cells topo env c ref (local_topo_of localTopos) (mc_cells c);
     case e of
       Some (name, err) \<Rightarrow> topo_error_end env c (CellUnregistered name err) err
     | None \<Rightarrow> do {
         e \<leftarrow> register_databases topo c (mc_databases c);
         case e of
           Some (name, err) \<Rightarrow> topo_error_end env c (DatabaseUnregistered name err) err
         | None \<Rightarrow>
             if isPruningEnabled c then prune_topology topo env reads c preservePendingCells else State_Monad.return (Inr None)
       }
   }"

definition record_child_events :: "'a cio \<Rightarrow> ('s, 'a) tio" where
  "record_child_events m = State (\<lambda>w.
     let (a, calls) = run_state m []
     in (a, w\<lparr>wd_events := wd_events w @ concat (map (\<lambda>c. case c of RecordEvent reason obj \<Rightarrow> [(reason, obj)] | _ \<Rightarrow> []) calls)\<rparr>))"

definition open_and_register ::
  "'s topo_store \<Rightarrow> topo_env \<Rightarrow> topo_reads \<Rightarrow> cluster \<Rightarrow> bool \<Rightarrow> topo_ref \<Rightarrow> (cell_config \<times> local_topo option) list
   \<Rightarrow> ('s, topo_failure + duration option) tio" where
  "open_and_register topo env reads c preservePendingCells ref localTopos =
     (case newStore (tq_secret reads) (tq_open reads) (mc_namespace c) ref of
        Some err \<Rightarrow>
          if IsTopoUnavailable (Some err) then handleTopoUnavailable env c
          else do {
            topo_event ''TopoConnectFailed'' (mc_name c);
            markTopologyFailed env ''TopoConnectFailed'' err;
            State_Monad.return (Inl (OpenStoreFailed err))
          }
      | None \<Rightarrow> do {
          r \<leftarrow> register_topology topo env reads c preservePendingCells ref localTopos;
          case r of
            Inr None \<Rightarrow> do {
              mark_topology_ready env;
              State_Monad.return (Inr None)
            }
          | _ \<Rightarrow> State_Monad.return r
        })"

definition reconcileTopology ::
  "'s topo_store \<Rightarrow> topo_env \<Rightarrow> topo_reads \<Rightarrow> cluster \<Rightarrow> bool \<Rightarrow> ('s, topo_failure + duration option) tio" where
  "reconcileTopology topo env reads c preservePendingCells = do {
     r \<leftarrow> record_child_events (globalTopoRef (tx_env env) c);
     case r of
       Inl err \<Rightarrow> State_Monad.return (Inl (GlobalRefFailed err))
     | Inr ref \<Rightarrow> do {
         localTopos \<leftarrow> resolve_local_topos env reads c (mc_cells c);
         case localTopos of
           Inl finished \<Rightarrow> State_Monad.return finished
         | Inr topos \<Rightarrow> open_and_register topo env reads c preservePendingCells ref topos
       }
   }"

subsection \<open>What the topology client documents\<close>

text \<open>
  The calls on one kind of record, with \<^verbatim>\<open>view\<close> the records of that kind and \<^verbatim>\<open>frame\<close> those of the other: a call touches
  the record it names; creation and update never remove one; a creation answers \<^verbatim>\<open>NodeExists\<close> and a deletion \<^verbatim>\<open>NoNode\<close>
  truthfully; an update applies its function, and takes \<^verbatim>\<open>NoUpdateNeeded\<close> for a success that writes nothing.
\<close>

definition create_law :: "('s \<Rightarrow> string \<Rightarrow> 'r option) \<Rightarrow> ('s \<Rightarrow> 'f) \<Rightarrow> (string \<Rightarrow> 'r \<Rightarrow> 's \<Rightarrow> topo_error option \<times> 's) \<Rightarrow> bool" where
  "create_law view frame create \<longleftrightarrow>
     (\<forall>n r s e s'. create n r s = (e, s') \<longrightarrow>
        frame s' = frame s \<and> (\<forall>m. m \<noteq> n \<longrightarrow> view s' m = view s m)
        \<and> (view s n \<noteq> None \<longrightarrow> view s' n \<noteq> None) \<and> (e = None \<longrightarrow> view s n = None \<and> view s' n = Some r)
        \<and> (\<forall>err. e = Some err \<and> te_code err = NodeExists \<longrightarrow> view s n \<noteq> None \<and> view s' n = view s n))"

definition update_law ::
  "('s \<Rightarrow> string \<Rightarrow> 'r option) \<Rightarrow> ('s \<Rightarrow> 'f) \<Rightarrow> (string \<Rightarrow> ('r \<Rightarrow> topo_error + 'r) \<Rightarrow> 's \<Rightarrow> topo_error option \<times> 's) \<Rightarrow> bool" where
  "update_law view frame update \<longleftrightarrow>
     (\<forall>n f s e s'. update n f s = (e, s') \<longrightarrow>
        frame s' = frame s \<and> (\<forall>m. m \<noteq> n \<longrightarrow> view s' m = view s m) \<and> (view s n \<noteq> None \<longrightarrow> view s' n \<noteq> None)
        \<and> (\<forall>r. e = None \<and> view s n = Some r \<longrightarrow>
             (case f r of Inr r' \<Rightarrow> view s' n = Some r' | Inl err \<Rightarrow> te_code err = NoUpdateNeeded \<and> view s' n = Some r)))"

definition names_law :: "('s \<Rightarrow> string \<Rightarrow> 'r option) \<Rightarrow> ('s \<Rightarrow> 'f) \<Rightarrow> ('s \<Rightarrow> (topo_error + string list) \<times> 's) \<Rightarrow> bool" where
  "names_law view frame names \<longleftrightarrow>
     (\<forall>s a s'. names s = (a, s') \<longrightarrow> frame s' = frame s \<and> view s' = view s \<and> (\<forall>ns. a = Inr ns \<longrightarrow> set ns = dom (view s)))"

definition delete_law :: "('s \<Rightarrow> string \<Rightarrow> 'r option) \<Rightarrow> ('s \<Rightarrow> 'f) \<Rightarrow> (string \<Rightarrow> 's \<Rightarrow> topo_error option \<times> 's) \<Rightarrow> bool" where
  "delete_law view frame delete \<longleftrightarrow>
     (\<forall>n s e s'. delete n s = (e, s') \<longrightarrow>
        frame s' = frame s \<and> (\<forall>m. m \<noteq> n \<longrightarrow> view s' m = view s m) \<and> (e = None \<longrightarrow> view s' n = None)
        \<and> (\<forall>err. e = Some err \<and> te_code err = NoNode \<longrightarrow> view s' n = None))"

definition store_laws ::
  "'s topo_store \<Rightarrow> ('s \<Rightarrow> string \<Rightarrow> cell_record option) \<Rightarrow> ('s \<Rightarrow> string \<Rightarrow> db_record option) \<Rightarrow> bool" where
  "store_laws topo cells dbs \<longleftrightarrow>
     create_law cells dbs (so_create_cell topo) \<and> update_law cells dbs (so_update_cell topo)
     \<and> names_law cells dbs (so_cell_names topo) \<and> delete_law cells dbs (\<lambda>n. so_delete_cell topo n False)
     \<and> create_law dbs cells (so_create_database topo) \<and> update_law dbs cells (so_update_database topo)
     \<and> names_law dbs cells (so_database_names topo) \<and> delete_law dbs cells (\<lambda>n. so_delete_database topo n False)"

subsection \<open>Steps\<close>

lemma run_on_store [simp]:
  "run_state (on_store f) w = (fst (f (wd_store w)), w\<lparr>wd_store := snd (f (wd_store w))\<rparr>)"
  by (simp add: on_store_def Let_def split: prod.splits)

lemma run_topo_event [simp]: "run_state (topo_event reason obj) w = ((), w\<lparr>wd_events := wd_events w @ [(reason, obj)]\<rparr>)"
  by (simp add: topo_event_def)

lemma run_set_status_store [simp]: "wd_store (snd (run_state (set_status f persist) w)) = wd_store w"
  by (simp add: set_status_def Let_def)

text \<open>A relation between the store before and after that every run of a step is in.\<close>

definition steps :: "('s \<Rightarrow> 's \<Rightarrow> bool) \<Rightarrow> ('s, 'a) tio \<Rightarrow> bool" where
  "steps R m \<longleftrightarrow> (\<forall>w. R (wd_store w) (wd_store (snd (run_state m w))))"

lemma steps_bind:
  assumes "transp R" and "steps R m" and "\<And>a. steps R (k a)"
  shows "steps R (State_Monad.bind m k)"
  using assms unfolding steps_def
  by (auto simp: State_Monad.bind_def split: prod.splits) (metis snd_conv transpD)

lemma steps_return: "reflp R \<Longrightarrow> steps R (State_Monad.return a)"
  by (simp add: steps_def State_Monad.return_def reflpD)

lemma steps_event: "reflp R \<Longrightarrow> steps R (topo_event reason obj)"
  by (simp add: steps_def reflpD)

lemma steps_on_store: "(\<And>s. R s (snd (f s))) \<Longrightarrow> steps R (on_store f)"
  by (simp add: steps_def)

lemma steps_set_status: "reflp R \<Longrightarrow> steps R (set_status f persist)"
  by (simp add: steps_def reflpD)

lemma steps_child_events: "reflp R \<Longrightarrow> steps R (record_child_events m)"
  by (simp add: steps_def record_child_events_def reflpD split: prod.splits)

lemmas steps_rules = steps_bind steps_return steps_event steps_set_status steps_child_events

text \<open>The calls a part of the pass makes are all in the relation.\<close>

definition cell_writes :: "'s topo_store \<Rightarrow> ('s \<Rightarrow> 's \<Rightarrow> bool) \<Rightarrow> string \<Rightarrow> bool" where
  "cell_writes topo R n \<longleftrightarrow> (\<forall>r s. R s (snd (so_create_cell topo n r s))) \<and> (\<forall>f s. R s (snd (so_update_cell topo n f s)))"

definition db_writes :: "'s topo_store \<Rightarrow> ('s \<Rightarrow> 's \<Rightarrow> bool) \<Rightarrow> string \<Rightarrow> bool" where
  "db_writes topo R n \<longleftrightarrow>
     (\<forall>r s. R s (snd (so_create_database topo n r s))) \<and> (\<forall>f s. R s (snd (so_update_database topo n f s)))"

definition prunes :: "('s \<Rightarrow> (topo_error + string list) \<times> 's) \<Rightarrow> (string \<Rightarrow> 's \<Rightarrow> topo_error option \<times> 's) \<Rightarrow> ('s \<Rightarrow> 's \<Rightarrow> bool) \<Rightarrow> string list \<Rightarrow> bool" where
  "prunes names drop_record R keep \<longleftrightarrow>
     (\<forall>s. R s (snd (names s))) \<and> (\<forall>n s. n \<notin> set keep \<longrightarrow> R s (snd (drop_record n s)))"

abbreviation prunes_cells :: "'s topo_store \<Rightarrow> ('s \<Rightarrow> 's \<Rightarrow> bool) \<Rightarrow> string list \<Rightarrow> bool" where
  "prunes_cells topo \<equiv> prunes (so_cell_names topo) (\<lambda>n. so_delete_cell topo n False)"

abbreviation prunes_dbs :: "'s topo_store \<Rightarrow> ('s \<Rightarrow> 's \<Rightarrow> bool) \<Rightarrow> string list \<Rightarrow> bool" where
  "prunes_dbs topo \<equiv> prunes (so_database_names topo) (\<lambda>n. so_delete_database topo n False)"

lemma steps_register_cell:
  assumes "reflp R" and "transp R" and "cell_writes topo R (cl_name cell)"
  shows "steps R (RegisterCellFromSpec topo env c cell localTopo ref address)"
  using assms unfolding RegisterCellFromSpec_def createOrUpdateCell_def cell_writes_def
  by (auto intro!: steps_rules steps_on_store split: sum.splits option.splits bool.splits)

lemma steps_register_cells:
  assumes "reflp R" and "transp R" and "\<And>cell. cell \<in> set cells \<Longrightarrow> cell_writes topo R (cl_name cell)"
  shows "steps R (register_cells topo env c ref localTopo cells)"
  using assms(3)
  by (induction cells) (auto intro!: steps_rules steps_register_cell assms(1,2) split: option.splits)

lemma steps_register_database:
  assumes "reflp R" and "transp R" and "db_writes topo R (db_name db)"
  shows "steps R (RegisterDatabaseFromSpec topo db cells backup policy)"
  using assms unfolding RegisterDatabaseFromSpec_def db_writes_def
  by (auto intro!: steps_rules steps_on_store split: sum.splits option.splits)

lemma steps_register_databases:
  assumes "reflp R" and "transp R" and "\<And>db. mc_mode c \<noteq> ModeLite \<Longrightarrow> db \<in> set dbs \<Longrightarrow> db_writes topo R (db_name db)"
  shows "steps R (register_databases topo c dbs)"
  using assms(3)
  by (induction dbs) (auto intro!: steps_rules steps_register_database assms(1,2) split: option.splits)

lemma steps_prune_listed:
  assumes "reflp R" and "transp R" and "prunes names drop_record R keep"
  shows "steps R (prune_listed names drop_record kind keep)"
proof -
  have "steps R (prune_each drop_record kind keep ns)" for ns
    using assms by (induction ns) (auto intro!: steps_rules steps_on_store simp: prunes_def split: option.splits)
  then show ?thesis
    using assms unfolding prune_listed_def by (auto intro!: steps_rules steps_on_store simp: prunes_def split: sum.splits)
qed

lemma steps_topo_error_end: "reflp R \<Longrightarrow> transp R \<Longrightarrow> steps R (topo_error_end env c failure err)"
  by (auto simp: topo_error_end_def handleTopoUnavailable_def Let_def intro!: steps_rules)

text \<open>The names a pass keeps: those of the specification and, when asked, those of cells on their way out.\<close>

definition cells_kept :: "topo_reads \<Rightarrow> cluster \<Rightarrow> bool \<Rightarrow> string set" where
  "cells_kept reads c preserve =
     set (specCellNames c)
     \<union> (case tq_cells reads (mc_namespace c) [LabelMultigresCluster \<mapsto> mc_name c] of
          Inl _ \<Rightarrow> {}
        | Inr listed \<Rightarrow> {n. preserve \<and> (\<exists>p. (n, p) \<in> set listed \<and> p \<noteq> [])})"

lemma keep_list:
  assumes "(if preserve then cellNamesToKeepInTopology reads c else Inr (specCellNames c)) = Inr names"
  shows "set names = cells_kept reads c preserve"
  using assms by (auto simp: cells_kept_def cellNamesToKeepInTopology_def image_iff split: if_splits sum.splits)

lemma steps_prune_topology:
  assumes "reflp R" and "transp R" and "prunes_dbs topo R (map db_name (mc_databases c))"
    and "\<And>keep. set keep = cells_kept reads c preserve \<Longrightarrow> prunes_cells topo R keep"
  shows "steps R (prune_topology topo env reads c preserve)"
proof (cases "if preserve then cellNamesToKeepInTopology reads c else Inr (specCellNames c)")
  case (Inl err)
  then show ?thesis
    unfolding prune_topology_def PruneDatabases_def Inl
    by (auto intro!: steps_rules steps_prune_listed steps_topo_error_end assms split: option.splits)
next
  case (Inr names)
  show ?thesis
    unfolding prune_topology_def PruneDatabases_def PruneCells_def Inr
    by (auto intro!: steps_rules steps_prune_listed steps_topo_error_end assms keep_list [OF Inr] split: option.splits)
qed

lemma steps_resolve_local_topos: "reflp R \<Longrightarrow> transp R \<Longrightarrow> steps R (resolve_local_topos env reads c cells)"
  by (induction cells) (auto intro!: steps_rules split: sum.splits bool.splits)

lemma steps_reconcileTopology:
  assumes "reflp R" and "transp R" and "\<And>cell. cell \<in> set (mc_cells c) \<Longrightarrow> cell_writes topo R (cl_name cell)"
    and "\<And>db. mc_mode c \<noteq> ModeLite \<Longrightarrow> db \<in> set (mc_databases c) \<Longrightarrow> db_writes topo R (db_name db)"
    and "prunes_dbs topo R (map db_name (mc_databases c))"
    and "\<And>keep. set keep = cells_kept reads c preserve \<Longrightarrow> prunes_cells topo R keep"
  shows "steps R (reconcileTopology topo env reads c preserve)"
proof -
  have "steps R (register_topology topo env reads c preserve ref topos)" for ref topos
    unfolding register_topology_def
    by (auto intro!: steps_rules steps_register_cells steps_register_databases steps_prune_topology steps_topo_error_end assms
        split: option.splits)
  then have "steps R (open_and_register topo env reads c preserve ref topos)" for ref topos
    unfolding open_and_register_def markTopologyFailed_def mark_topology_ready_def
    by (auto intro!: steps_rules assms simp: handleTopoUnavailable_def Let_def split: option.splits sum.splits)
  then show ?thesis
    unfolding reconcileTopology_def
    by (auto intro!: steps_rules steps_resolve_local_topos assms split: sum.splits)
qed

subsection \<open>What no pass touches\<close>

lemma create_law_run:
  assumes "create_law view frame create"
  shows "frame (snd (create n r s)) = frame s" "m \<noteq> n \<Longrightarrow> view (snd (create n r s)) m = view s m"
    "view s m \<noteq> None \<Longrightarrow> view (snd (create n r s)) m \<noteq> None"
  using assms unfolding create_law_def by (metis prod.collapse)+

lemma update_law_run:
  assumes "update_law view frame update"
  shows "frame (snd (update n f s)) = frame s" "m \<noteq> n \<Longrightarrow> view (snd (update n f s)) m = view s m"
    "view s m \<noteq> None \<Longrightarrow> view (snd (update n f s)) m \<noteq> None"
  using assms unfolding update_law_def by (metis prod.collapse)+

lemma names_law_run:
  assumes "names_law view frame names"
  shows "frame (snd (names s)) = frame s" "view (snd (names s)) = view s"
  using assms unfolding names_law_def by (metis prod.collapse)+

lemma delete_law_run:
  assumes "delete_law view frame delete"
  shows "frame (snd (delete n s)) = frame s" "m \<noteq> n \<Longrightarrow> view (snd (delete n s)) m = view s m"
  using assms unfolding delete_law_def by (metis prod.collapse)+

lemma store_lawsD:
  assumes "store_laws topo cells dbs"
  shows "create_law cells dbs (so_create_cell topo)" "update_law cells dbs (so_update_cell topo)"
    "names_law cells dbs (so_cell_names topo)" "delete_law cells dbs (\<lambda>n. so_delete_cell topo n False)"
    "create_law dbs cells (so_create_database topo)" "update_law dbs cells (so_update_database topo)"
    "names_law dbs cells (so_database_names topo)" "delete_law dbs cells (\<lambda>n. so_delete_database topo n False)"
  using assms by (simp_all add: store_laws_def)

text \<open>The records of the given names stay present, or stay as they are.\<close>

definition present :: "('s \<Rightarrow> string \<Rightarrow> 'r option) \<Rightarrow> string set \<Rightarrow> 's \<Rightarrow> 's \<Rightarrow> bool" where
  "present view K s s' \<longleftrightarrow> (\<forall>n\<in>K. view s n \<noteq> None \<longrightarrow> view s' n \<noteq> None)"

definition fixed :: "('s \<Rightarrow> string \<Rightarrow> 'r option) \<Rightarrow> string set \<Rightarrow> 's \<Rightarrow> 's \<Rightarrow> bool" where
  "fixed view K s s' \<longleftrightarrow> (\<forall>n\<in>K. view s' n = view s n)"

lemma present_order: "reflp (present view K)" "transp (present view K)"
  by (auto simp: present_def reflp_def transp_def)

lemma fixed_order: "reflp (fixed view K)" "transp (fixed view K)"
  by (auto simp: fixed_def reflp_def transp_def)

lemma writes_present:
  assumes "store_laws topo cells dbs"
  shows "cell_writes topo (present cells K) n" "db_writes topo (present cells K) n"
    "cell_writes topo (present dbs K) n" "db_writes topo (present dbs K) n"
proof -
  note l = store_lawsD [OF assms]
  note rules = create_law_run(1,3) [OF l(1)] create_law_run(1,3) [OF l(5)] update_law_run(1,3) [OF l(2)] update_law_run(1,3) [OF l(6)]
  show "cell_writes topo (present cells K) n" "db_writes topo (present cells K) n"
    "cell_writes topo (present dbs K) n" "db_writes topo (present dbs K) n"
    unfolding cell_writes_def db_writes_def present_def by (simp_all add: rules del: not_None_eq)
qed

lemma writes_fixed:
  assumes "store_laws topo cells dbs"
  shows "n \<notin> K \<Longrightarrow> cell_writes topo (fixed cells K) n" "db_writes topo (fixed cells K) n"
    "cell_writes topo (fixed dbs K) n" "n \<notin> K \<Longrightarrow> db_writes topo (fixed dbs K) n"
proof -
  note l = store_lawsD [OF assms]
  note frames = create_law_run(1) [OF l(1)] create_law_run(1) [OF l(5)] update_law_run(1) [OF l(2)] update_law_run(1) [OF l(6)]
  note others = create_law_run(2) [OF l(1)] create_law_run(2) [OF l(5)] update_law_run(2) [OF l(2)] update_law_run(2) [OF l(6)]
  show "n \<notin> K \<Longrightarrow> cell_writes topo (fixed cells K) n" "db_writes topo (fixed cells K) n"
    "cell_writes topo (fixed dbs K) n" "n \<notin> K \<Longrightarrow> db_writes topo (fixed dbs K) n"
    unfolding cell_writes_def db_writes_def fixed_def by (auto simp: frames intro!: others)
qed

lemma prunes_fixed:
  assumes "store_laws topo cells dbs"
  shows "K \<subseteq> set keep \<Longrightarrow> prunes_cells topo (fixed cells K) keep" "prunes_dbs topo (fixed cells K) keep"
    "prunes_cells topo (fixed dbs K) keep" "K \<subseteq> set keep \<Longrightarrow> prunes_dbs topo (fixed dbs K) keep"
proof -
  note l = store_lawsD [OF assms]
  note frames = names_law_run [OF l(3)] names_law_run [OF l(7)] delete_law_run(1) [OF l(4)] delete_law_run(1) [OF l(8)]
  note others = delete_law_run(2) [OF l(4)] delete_law_run(2) [OF l(8)]
  show "K \<subseteq> set keep \<Longrightarrow> prunes_cells topo (fixed cells K) keep" "prunes_dbs topo (fixed cells K) keep"
    "prunes_cells topo (fixed dbs K) keep" "K \<subseteq> set keep \<Longrightarrow> prunes_dbs topo (fixed dbs K) keep"
    unfolding prunes_def fixed_def by (auto simp: frames intro!: others)
qed

lemma fixed_imp_present: "fixed view K s s' \<Longrightarrow> present view K s s'"
  by (simp add: fixed_def present_def)

lemma prunes_mono: "prunes names drop_record R keep \<Longrightarrow> (\<And>s s'. R s s' \<Longrightarrow> S s s') \<Longrightarrow> prunes names drop_record S keep"
  by (auto simp: prunes_def)

lemma prunes_present:
  assumes "store_laws topo cells dbs"
  shows "K \<subseteq> set keep \<Longrightarrow> prunes_cells topo (present cells K) keep" "prunes_dbs topo (present cells K) keep"
    "prunes_cells topo (present dbs K) keep" "K \<subseteq> set keep \<Longrightarrow> prunes_dbs topo (present dbs K) keep"
  by (rule prunes_mono, rule prunes_fixed [OF assms], assumption, erule fixed_imp_present
    | rule prunes_mono, rule prunes_fixed [OF assms], erule fixed_imp_present)+

lemma reconcileTopology_present:
  assumes "store_laws topo cells dbs"
  shows "steps (present cells (cells_kept reads c preserve)) (reconcileTopology topo env reads c preserve)"
    and "steps (present dbs (set (map db_name (mc_databases c)))) (reconcileTopology topo env reads c preserve)"
  using assms by (auto intro!: steps_reconcileTopology present_order writes_present prunes_present)

lemma lite_databases_fixed:
  assumes "store_laws topo cells dbs" and "mc_mode c = ModeLite"
  shows "steps (fixed dbs (set (map db_name (mc_databases c)))) (reconcileTopology topo env reads c preserve)"
  using assms by (auto intro!: steps_reconcileTopology fixed_order writes_fixed prunes_fixed)

subsection \<open>What a pass that ends well leaves\<close>

text \<open>The record after registration: the desired one, or the one found with the managed fields brought up to it.\<close>

definition settled :: "('r \<Rightarrow> 'r \<Rightarrow> topo_error + 'r) \<Rightarrow> 'r \<Rightarrow> 'r option \<Rightarrow> 'r" where
  "settled bring d found = (case found of None \<Rightarrow> d | Some r \<Rightarrow> (case bring d r of Inr r' \<Rightarrow> r' | Inl _ \<Rightarrow> r))"

definition desired_cell :: "resolve_env \<Rightarrow> cluster \<Rightarrow> cell_config \<Rightarrow> cell_record option" where
  "desired_cell env c cell =
     (case (ResolveGlobalTopo env c, ResolveCell env c (effective_cell c cell)) of
        (Inr spec, Inr (_, _, localTopo)) \<Rightarrow>
          (case cell_record_for env c cell localTopo (topo_ref_of c spec)
                  (ManagedLocalTopoServerAddress (cell_object_name c (cl_name cell)) (mc_namespace c)) of
             Inr d \<Rightarrow> Some d
           | Inl _ \<Rightarrow> None)
      | _ \<Rightarrow> None)"

definition desired_database :: "cluster \<Rightarrow> database_config \<Rightarrow> db_record option" where
  "desired_database c db =
     (case database_record_for db (specCellNames c) (MergeBackupConfig (db_backup db) (mc_backup c)) (mc_durability_policy c) of
        Inr d \<Rightarrow> Some d
      | Inl _ \<Rightarrow> None)"

definition cells_after ::
  "resolve_env \<Rightarrow> topo_reads \<Rightarrow> cluster \<Rightarrow> bool \<Rightarrow> (string \<Rightarrow> cell_record option) \<Rightarrow> string \<Rightarrow> cell_record option" where
  "cells_after env reads c preserve old n =
     (case find (\<lambda>cell. cl_name cell = n) (mc_cells c) of
        Some cell \<Rightarrow> map_option (\<lambda>d. settled update_cell_metadata d (old n)) (desired_cell env c cell)
      | None \<Rightarrow> if isPruningEnabled c \<and> n \<notin> cells_kept reads c preserve then None else old n)"

definition databases_after :: "cluster \<Rightarrow> (string \<Rightarrow> db_record option) \<Rightarrow> string \<Rightarrow> db_record option" where
  "databases_after c old n =
     (case find (\<lambda>db. db_name db = n) (mc_databases c) of
        Some db \<Rightarrow> if mc_mode c = ModeLite then old n
                   else map_option (\<lambda>d. settled updateDatabaseMetadata d (old n)) (desired_database c db)
      | None \<Rightarrow> if isPruningEnabled c then None else old n)"

lemma upsert_created:
  assumes "create_law view frame create" and "create n d s = (None, s')"
  shows "view s' = (view s)(n \<mapsto> settled bring d (view s n))" "frame s' = frame s"
  using assms unfolding create_law_def settled_def by (auto simp: fun_eq_iff)

lemma upsert_updated:
  assumes "create_law view frame create" and "update_law view frame update" and "create n d s = (Some err, s1)"
    and "isNodeExists err" and "update n (bring d) s1 = (None, s')"
  shows "view s' = (view s)(n \<mapsto> settled bring d (view s n))" "frame s' = frame s"
proof -
  have s1: "frame s1 = frame s" "\<And>m. view s1 m = view s m" "view s n \<noteq> None"
    using assms(1,3,4) unfolding create_law_def isNodeExists_def by metis+
  obtain r where r: "view s n = Some r" using s1(3) by blast
  have s': "frame s' = frame s1" "\<And>m. m \<noteq> n \<Longrightarrow> view s' m = view s1 m"
    "case bring d r of Inr r' \<Rightarrow> view s' n = Some r' | Inl err \<Rightarrow> te_code err = NoUpdateNeeded \<and> view s' n = Some r"
    using assms(2,5) s1(2) r unfolding update_law_def by metis+
  show "frame s' = frame s" using s1(1) s'(1) by simp
  show "view s' = (view s)(n \<mapsto> settled bring d (view s n))"
    using s' s1(2) r by (auto simp: fun_eq_iff settled_def split: sum.splits)
qed

lemma RegisterCellFromSpec_ok:
  assumes laws: "store_laws topo cells dbs"
    and run: "run_state (RegisterCellFromSpec topo env c cell localTopo ref address) w = (None, w')"
  obtains d where "cell_record_for env c cell localTopo ref address = Inr d"
    "cells (wd_store w') = (cells (wd_store w))(cl_name cell \<mapsto> settled update_cell_metadata d (cells (wd_store w) (cl_name cell)))"
    "dbs (wd_store w') = dbs (wd_store w)"
proof -
  note l = store_lawsD [OF laws]
  from run obtain d where d: "cell_record_for env c cell localTopo ref address = Inr d"
    by (auto simp: RegisterCellFromSpec_def split: sum.splits)
  obtain e s1 where create: "so_create_cell topo (cl_name cell) d (wd_store w) = (e, s1)" by fastforce
  obtain e' s2 where update: "so_update_cell topo (cl_name cell) (update_cell_metadata d) s1 = (e', s2)" by fastforce
  have "e = None \<and> wd_store w' = s1 \<or> (\<exists>err. e = Some err \<and> isNodeExists err \<and> e' = None \<and> wd_store w' = s2)"
    using run d create update
    by (auto simp: RegisterCellFromSpec_def createOrUpdateCell_def split: option.splits if_splits)
  then show thesis
    using that [OF d] create update
      upsert_created(1) [OF l(1), of "cl_name cell" d "wd_store w" s1 update_cell_metadata] upsert_created(2) [OF l(1), of "cl_name cell" d "wd_store w" s1]
      upsert_updated [OF l(1,2), of "cl_name cell" d "wd_store w" _ s1 update_cell_metadata s2]
    by auto
qed

lemma RegisterDatabaseFromSpec_ok:
  assumes laws: "store_laws topo cells dbs"
    and run: "run_state (RegisterDatabaseFromSpec topo db names backup policy) w = (None, w')"
  obtains d where "database_record_for db names backup policy = Inr d"
    "dbs (wd_store w') = (dbs (wd_store w))(db_name db \<mapsto> settled updateDatabaseMetadata d (dbs (wd_store w) (db_name db)))"
    "cells (wd_store w') = cells (wd_store w)"
proof -
  note l = store_lawsD [OF laws]
  from run obtain d where d: "database_record_for db names backup policy = Inr d"
    by (auto simp: RegisterDatabaseFromSpec_def split: sum.splits)
  obtain e s1 where create: "so_create_database topo (db_name db) d (wd_store w) = (e, s1)" by fastforce
  obtain e' s2 where update: "so_update_database topo (db_name db) (updateDatabaseMetadata d) s1 = (e', s2)" by fastforce
  have "e = None \<and> wd_store w' = s1 \<or> (\<exists>err. e = Some err \<and> isNodeExists err \<and> e' = None \<and> wd_store w' = s2)"
    using run d create update by (auto simp: RegisterDatabaseFromSpec_def split: option.splits if_splits)
  then show thesis
    using that [OF d] create update
      upsert_created(1) [OF l(5), of "db_name db" d "wd_store w" s1 updateDatabaseMetadata] upsert_created(2) [OF l(5), of "db_name db" d "wd_store w" s1]
      upsert_updated [OF l(5,6), of "db_name db" d "wd_store w" _ s1 updateDatabaseMetadata s2]
    by auto
qed

lemma register_cells_ok:
  assumes laws: "store_laws topo cells dbs"
    and "run_state (register_cells topo env c ref localTopo cfgs) w = (None, w')" and "distinct (map cl_name cfgs)"
  defines "rec \<equiv> \<lambda>cell. cell_record_for (cx_env (tx_env env)) c cell (localTopo (cl_name cell)) ref
      (ManagedLocalTopoServerAddress (cell_object_name c (cl_name cell)) (mc_namespace c))"
  shows "cells (wd_store w') n = (case find (\<lambda>cell. cl_name cell = n) cfgs of
        Some cell \<Rightarrow> map_option (\<lambda>d. settled update_cell_metadata d (cells (wd_store w) n)) (case rec cell of Inr d \<Rightarrow> Some d | Inl _ \<Rightarrow> None)
      | None \<Rightarrow> cells (wd_store w) n)"
    and "dbs (wd_store w') = dbs (wd_store w)"
proof -
  have "cells (wd_store w') n = (case find (\<lambda>cell. cl_name cell = n) cfgs of
        Some cell \<Rightarrow> map_option (\<lambda>d. settled update_cell_metadata d (cells (wd_store w) n)) (case rec cell of Inr d \<Rightarrow> Some d | Inl _ \<Rightarrow> None)
      | None \<Rightarrow> cells (wd_store w) n) \<and> dbs (wd_store w') = dbs (wd_store w)"
    using assms(2,3)
  proof (induction cfgs arbitrary: w)
    case (Cons cell cfgs)
    obtain w1 where run: "run_state (RegisterCellFromSpec topo (cx_env (tx_env env)) c cell (localTopo (cl_name cell)) ref
        (ManagedLocalTopoServerAddress (cell_object_name c (cl_name cell)) (mc_namespace c))) w = (None, w1)"
      and rest: "run_state (register_cells topo env c ref localTopo cfgs) w1 = (None, w')"
      using Cons.prems(1) by (auto simp: State_Monad.bind_def split: option.splits prod.splits)
    from RegisterCellFromSpec_ok [OF laws run] obtain d where "rec cell = Inr d" and
      "cells (wd_store w1) = (cells (wd_store w))(cl_name cell \<mapsto> settled update_cell_metadata d (cells (wd_store w) (cl_name cell)))"
      "dbs (wd_store w1) = dbs (wd_store w)" unfolding rec_def by metis
    moreover have "find (\<lambda>x. cl_name x = cl_name cell) cfgs = None" using Cons.prems(2) by (auto simp: find_None_iff image_iff)
    ultimately show ?case using Cons.IH [OF rest] Cons.prems(2) by (auto split: option.splits)
  qed simp
  then show "cells (wd_store w') n = (case find (\<lambda>cell. cl_name cell = n) cfgs of
        Some cell \<Rightarrow> map_option (\<lambda>d. settled update_cell_metadata d (cells (wd_store w) n)) (case rec cell of Inr d \<Rightarrow> Some d | Inl _ \<Rightarrow> None)
      | None \<Rightarrow> cells (wd_store w) n)" and "dbs (wd_store w') = dbs (wd_store w)" by blast+
qed

lemma register_databases_ok:
  assumes laws: "store_laws topo cells dbs"
    and "run_state (register_databases topo c cfgs) w = (None, w')" and "distinct (map db_name cfgs)"
  shows "cells (wd_store w') = cells (wd_store w) \<and> dbs (wd_store w') n = (case find (\<lambda>db. db_name db = n) cfgs of
        Some db \<Rightarrow> if mc_mode c = ModeLite then dbs (wd_store w) n
                   else map_option (\<lambda>d. settled updateDatabaseMetadata d (dbs (wd_store w) n)) (desired_database c db)
      | None \<Rightarrow> dbs (wd_store w) n)"
  using assms(2,3)
proof (induction cfgs arbitrary: w)
  case (Cons db cfgs)
  show ?case
  proof (cases "mc_mode c = ModeLite")
    case True
    with Cons show ?thesis by (auto split: option.splits)
  next
    case False
    obtain w1 where run: "run_state (RegisterDatabaseFromSpec topo db (specCellNames c) (MergeBackupConfig (db_backup db) (mc_backup c))
        (mc_durability_policy c)) w = (None, w1)" and rest: "run_state (register_databases topo c cfgs) w1 = (None, w')"
      using Cons.prems(1) False by (auto simp: State_Monad.bind_def split: option.splits prod.splits)
    from RegisterDatabaseFromSpec_ok [OF laws run] obtain d where "desired_database c db = Some d" and
      "dbs (wd_store w1) = (dbs (wd_store w))(db_name db \<mapsto> settled updateDatabaseMetadata d (dbs (wd_store w) (db_name db)))"
      "cells (wd_store w1) = cells (wd_store w)" unfolding desired_database_def by (metis sum.simps(6))
    moreover have "find (\<lambda>x. db_name x = db_name db) cfgs = None" using Cons.prems(2) by (auto simp: find_None_iff image_iff)
    ultimately show ?thesis using Cons.IH [OF rest] Cons.prems(2) False by (auto split: option.splits)
  qed
qed simp

lemma prune_each_ok:
  assumes "delete_law view frame drop_record" and "run_state (prune_each drop_record kind keep ns) w = (None, w')"
  shows "frame (wd_store w') = frame (wd_store w)
    \<and> view (wd_store w') n = (if n \<in> set ns \<and> n \<notin> set keep then None else view (wd_store w) n)"
  using assms(2)
proof (induction ns arbitrary: w)
  case (Cons m ns)
  show ?case
  proof (cases "m \<in> set keep")
    case True
    with Cons show ?thesis by auto
  next
    case False
    obtain e s1 where d: "drop_record m (wd_store w) = (e, s1)" by fastforce
    have s1: "frame s1 = frame (wd_store w)" "n \<noteq> m \<Longrightarrow> view s1 n = view (wd_store w) n"
      "e = None \<or> (\<exists>err. e = Some err \<and> isNoNode err) \<Longrightarrow> view s1 m = None"
      using assms(1) d unfolding delete_law_def isNoNode_def by metis+
    obtain w1 where "wd_store w1 = s1" and rest: "run_state (prune_each drop_record kind keep ns) w1 = (None, w')"
      and "e = None \<or> (\<exists>err. e = Some err \<and> isNoNode err)"
    proof (cases e)
      case None
      with Cons.prems False d show thesis
        by (intro that [of "w\<lparr>wd_store := s1, wd_events := wd_events w @ [(''TopoCleanup'', m)]\<rparr>"]) (auto simp: State_Monad.bind_def)
    next
      case (Some err)
      with Cons.prems False d show thesis
        by (intro that [of "w\<lparr>wd_store := s1\<rparr>"]) (auto simp: State_Monad.bind_def split: if_splits)
    qed
    with s1 show ?thesis using Cons.IH [OF rest] False by auto
  qed
qed simp

lemma prune_listed_ok:
  assumes "names_law view frame names" and "delete_law view frame drop_record"
    and "run_state (prune_listed names drop_record kind keep) w = (None, w')"
  shows "frame (wd_store w') = frame (wd_store w)"
    and "view (wd_store w') n = (if n \<in> set keep then view (wd_store w) n else None)"
proof -
  obtain ns s1 where ns: "names (wd_store w) = (Inr ns, s1)" and rest: "run_state (prune_each drop_record kind keep ns) (w\<lparr>wd_store := s1\<rparr>) = (None, w')"
    using assms(3) by (cases "names (wd_store w)") (auto simp: prune_listed_def State_Monad.bind_def split: sum.splits)
  have "frame s1 = frame (wd_store w)" "view s1 = view (wd_store w)" "set ns = dom (view (wd_store w))"
    using assms(1) ns unfolding names_law_def by metis+
  with prune_each_ok [OF assms(2) rest, of n]
  show "frame (wd_store w') = frame (wd_store w)" "view (wd_store w') n = (if n \<in> set keep then view (wd_store w) n else None)"
    by (auto simp: dom_def)
qed

lemma prune_topology_ok:
  assumes laws: "store_laws topo cells dbs"
    and run: "run_state (prune_topology topo env reads c preserve) w = (Inr None, w')"
  shows "cells (wd_store w') n = (if n \<in> cells_kept reads c preserve then cells (wd_store w) n else None)"
    and "dbs (wd_store w') n = (if n \<in> set (map db_name (mc_databases c)) then dbs (wd_store w) n else None)"
proof -
  note l = store_lawsD [OF laws]
  obtain w1 keep where db: "run_state (PruneDatabases topo (map db_name (mc_databases c))) w = (None, w1)"
    and keep: "(if preserve then cellNamesToKeepInTopology reads c else Inr (specCellNames c)) = Inr keep"
    and cell: "run_state (PruneCells topo keep) w1 = (None, w')"
    using run unfolding prune_topology_def topo_error_end_def handleTopoUnavailable_def Let_def
    by (cases "if preserve then cellNamesToKeepInTopology reads c else Inr (specCellNames c)")
      (auto simp: State_Monad.bind_def split: option.splits prod.splits if_splits)
  note d = prune_listed_ok [OF l(7,8) db [unfolded PruneDatabases_def]]
  note e = prune_listed_ok [OF l(3,4) cell [unfolded PruneCells_def]]
  show "cells (wd_store w') n = (if n \<in> cells_kept reads c preserve then cells (wd_store w) n else None)"
    using d(1) e(2) [of n] keep_list [OF keep] by simp
  show "dbs (wd_store w') n = (if n \<in> set (map db_name (mc_databases c)) then dbs (wd_store w) n else None)"
    using d(2) [of n] e(1) by simp
qed

lemma resolve_local_topos_ok:
  assumes "run_state (resolve_local_topos env reads c cfgs) w = (Inr topos, w')"
  shows "wd_store w' = wd_store w \<and> map fst topos = cfgs
    \<and> (\<forall>(cell, localTopo) \<in> set topos. (\<exists>g p. ResolveCell (cx_env (tx_env env)) c (effective_cell c cell) = Inr (g, p, localTopo))
         \<and> (Option.bind localTopo lt_etcd \<noteq> None \<longrightarrow> managedLocalTopoServerReady reads c cell = Inr True))"
  using assms
proof (induction cfgs arbitrary: w topos)
  case (Cons cell cfgs)
  then show ?case
    by (fastforce simp: State_Monad.bind_def split: sum.splits bool.splits if_splits prod.splits)
qed simp

lemma resolve_local_topos_member:
  assumes run: "run_state (resolve_local_topos env reads c cfgs) w = (Inr topos, w')" and cfg: "cell \<in> set cfgs"
  obtains g p t where "(cell, t) \<in> set topos" "ResolveCell (cx_env (tx_env env)) c (effective_cell c cell) = Inr (g, p, t)"
    "Option.bind t lt_etcd \<noteq> None \<Longrightarrow> managedLocalTopoServerReady reads c cell = Inr True"
proof -
  note t = resolve_local_topos_ok [OF run]
  have "map fst topos = cfgs" using t by blast
  then have "cell \<in> fst ` set topos" using cfg by (metis list.set_map)
  then obtain lt where "(cell, lt) \<in> set topos" by auto
  with t show thesis using that by blast
qed

lemma local_topo_of_member:
  assumes "distinct (map (\<lambda>p. cl_name (fst p)) topos)" and "(cell, t) \<in> set topos"
  shows "local_topo_of topos (cl_name cell) = t"
proof -
  have "\<exists>x. find (\<lambda>(cell', _). cl_name cell' = cl_name cell) (rev topos) = Some x"
    using assms(2) by (cases "find (\<lambda>(cell', _). cl_name cell' = cl_name cell) (rev topos)") (auto simp: find_None_iff)
  then obtain x where x: "find (\<lambda>(cell', _). cl_name cell' = cl_name cell) (rev topos) = Some x" ..
  then have "x \<in> set topos" "cl_name (fst x) = cl_name cell"
    by (auto simp: find_Some_iff) (metis length_rev nth_mem set_rev)
  then have "x = (cell, t)" using assms by (metis distinct_map fst_conv inj_onD)
  then show ?thesis using x by (simp add: local_topo_of_def)
qed

lemma map_sum_Inl_iff: "map_sum id f x = Inl y \<longleftrightarrow> x = Inl y"
  by (cases x) auto

lemma resolve_local_topos_end: "run_state (resolve_local_topos env reads c cfgs) w \<noteq> (Inl (Inr None), w')"
proof (induction cfgs arbitrary: w)
  case (Cons cell cfgs)
  then show ?case
    by (auto simp: State_Monad.bind_def map_sum_Inl_iff split: sum.splits bool.splits if_splits prod.splits)
qed simp

text \<open>The parts of a pass that ends well.\<close>

lemma reconcileTopology_parts:
  assumes "run_state (reconcileTopology topo env reads c preserve) w = (Inr None, w')"
  obtains spec w1 topos w2 w3 where
    "ResolveGlobalTopo (cx_env (tx_env env)) c = Inr spec"
    "wd_store w1 = wd_store w" "run_state (resolve_local_topos env reads c (mc_cells c)) w1 = (Inr topos, w2)"
    "run_state (register_topology topo env reads c preserve (topo_ref_of c spec) topos) w2 = (Inr None, w3)"
    "wd_store w' = wd_store w3"
proof -
  obtain spec where spec: "ResolveGlobalTopo (cx_env (tx_env env)) c = Inr spec"
    using assms
    by (auto simp: reconcileTopology_def record_child_events_def globalTopoRef_def State_Monad.bind_def split: sum.splits prod.splits)
  then obtain w1 where w1: "wd_store w1 = wd_store w"
    "run_state (record_child_events (globalTopoRef (tx_env env) c)) w = (Inr (topo_ref_of c spec), w1)"
    by (simp add: record_child_events_def globalTopoRef_def State_Monad.return_def)
  obtain r w2 where r: "run_state (resolve_local_topos env reads c (mc_cells c)) w1 = (r, w2)" by fastforce
  show thesis
  proof (cases r)
    case (Inl finished)
    have "finished = Inr None" using assms w1(2) r Inl by (simp add: reconcileTopology_def State_Monad.bind_def)
    with r Inl show ?thesis using resolve_local_topos_end by fast
  next
    case (Inr topos)
    then have "run_state (open_and_register topo env reads c preserve (topo_ref_of c spec) topos) w2 = (Inr None, w')"
      using assms w1(2) r by (simp add: reconcileTopology_def State_Monad.bind_def)
    then obtain w3 where "run_state (register_topology topo env reads c preserve (topo_ref_of c spec) topos) w2 = (Inr None, w3)"
      and "wd_store w' = wd_store w3"
      unfolding open_and_register_def mark_topology_ready_def set_status_def handleTopoUnavailable_def Let_def
      by (auto simp: State_Monad.bind_def split: option.splits sum.splits prod.splits if_splits)
    then show ?thesis using that [OF spec w1(1)] r Inr by simp
  qed
qed

lemma register_topology_ok:
  assumes laws: "store_laws topo cells dbs" and names: "distinct (specCellNames c)" "distinct (map db_name (mc_databases c))"
    and run: "run_state (register_topology topo env reads c preserve ref topos) w = (Inr None, w')"
  obtains w1 w2 where "run_state (register_cells topo env c ref (local_topo_of topos) (mc_cells c)) w = (None, w1)"
    "run_state (register_databases topo c (mc_databases c)) w1 = (None, w2)"
    "\<And>n. cells (wd_store w') n = (if isPruningEnabled c \<and> n \<notin> cells_kept reads c preserve then None else cells (wd_store w2) n)"
    "\<And>n. dbs (wd_store w') n = (if isPruningEnabled c \<and> n \<notin> set (map db_name (mc_databases c)) then None else dbs (wd_store w2) n)"
proof -
  obtain e w1 where e: "run_state (register_cells topo env c ref (local_topo_of topos) (mc_cells c)) w = (e, w1)" by fastforce
  obtain e' w2 where e': "run_state (register_databases topo c (mc_databases c)) w1 = (e', w2)" by fastforce
  have none: "e = None" "e' = None"
    and rest: "run_state (if isPruningEnabled c then prune_topology topo env reads c preserve else State_Monad.return (Inr None)) w2 = (Inr None, w')"
    using run e e' unfolding register_topology_def topo_error_end_def handleTopoUnavailable_def Let_def
    by (auto simp: State_Monad.bind_def split: option.splits prod.splits if_splits)
  show thesis
  proof (rule that)
    show "run_state (register_cells topo env c ref (local_topo_of topos) (mc_cells c)) w = (None, w1)"
      "run_state (register_databases topo c (mc_databases c)) w1 = (None, w2)" using e e' none by simp_all
    show "cells (wd_store w') n = (if isPruningEnabled c \<and> n \<notin> cells_kept reads c preserve then None else cells (wd_store w2) n)" for n
      using rest prune_topology_ok(1) [OF laws, of env reads c preserve w2 w' n]
      by (auto simp: State_Monad.return_def split: if_splits)
    show "dbs (wd_store w') n = (if isPruningEnabled c \<and> n \<notin> set (map db_name (mc_databases c)) then None else dbs (wd_store w2) n)" for n
      using rest prune_topology_ok(2) [OF laws, of env reads c preserve w2 w' n]
      by (auto simp: State_Monad.return_def split: if_splits)
  qed
qed

definition resolved_cell :: "topo_env \<Rightarrow> cluster \<Rightarrow> topo_ref \<Rightarrow> (cell_config \<times> local_topo option) list \<Rightarrow> cell_config \<Rightarrow> topo_error + cell_record" where
  "resolved_cell env c ref topos cell = cell_record_for (cx_env (tx_env env)) c cell (local_topo_of topos (cl_name cell)) ref
     (ManagedLocalTopoServerAddress (cell_object_name c (cl_name cell)) (mc_namespace c))"

lemma resolved_record:
  assumes names: "distinct (specCellNames c)" and spec: "ResolveGlobalTopo (cx_env (tx_env env)) c = Inr spec"
    and topos: "run_state (resolve_local_topos env reads c (mc_cells c)) w = (Inr topos, w')" and cfg: "cell \<in> set (mc_cells c)"
  shows "(case resolved_cell env c (topo_ref_of c spec) topos cell of Inr d \<Rightarrow> Some d | Inl _ \<Rightarrow> None)
    = desired_cell (cx_env (tx_env env)) c cell"
proof -
  have fst: "map fst topos = mc_cells c" using resolve_local_topos_ok [OF topos] by blast
  obtain g p lt where lt: "(cell, lt) \<in> set topos" and resolved: "ResolveCell (cx_env (tx_env env)) c (effective_cell c cell) = Inr (g, p, lt)"
    using resolve_local_topos_member [OF topos cfg] by metis
  have "distinct (map (\<lambda>p. cl_name (fst p)) topos)" using names [unfolded specCellNames_def, folded fst] by (simp add: comp_def)
  from local_topo_of_member [OF this lt] have l: "local_topo_of topos (cl_name cell) = lt" .
  then show ?thesis using spec resolved by (simp add: desired_cell_def resolved_cell_def)
qed

lemma register_cells_resolved:
  "run_state (register_cells topo env c ref (local_topo_of topos) cfgs) w = (None, w') \<Longrightarrow> cell \<in> set cfgs
   \<Longrightarrow> \<not> isl (resolved_cell env c ref topos cell)"
proof (induction cfgs arbitrary: w)
  case (Cons a cfgs)
  then show ?case
    by (auto simp: State_Monad.bind_def RegisterCellFromSpec_def resolved_cell_def split: option.splits sum.splits prod.splits)
qed simp

lemma register_databases_resolved:
  "run_state (register_databases topo c cfgs) w = (None, w') \<Longrightarrow> mc_mode c \<noteq> ModeLite \<Longrightarrow> db \<in> set cfgs
   \<Longrightarrow> desired_database c db \<noteq> None"
proof (induction cfgs arbitrary: w)
  case (Cons a cfgs)
  then show ?case
    by (auto simp: State_Monad.bind_def RegisterDatabaseFromSpec_def desired_database_def split: option.splits sum.splits prod.splits)
qed simp

lemma reconcileTopology_views:
  assumes laws: "store_laws topo cells dbs" and names: "distinct (specCellNames c)" "distinct (map db_name (mc_databases c))"
    and run: "run_state (reconcileTopology topo env reads c preserve) w = (Inr None, w')"
  shows "cells (wd_store w') n = cells_after (cx_env (tx_env env)) reads c preserve (cells (wd_store w)) n"
    and "dbs (wd_store w') n = databases_after c (dbs (wd_store w)) n"
proof -
  obtain spec w1 topos w2 w3 where spec: "ResolveGlobalTopo (cx_env (tx_env env)) c = Inr spec"
    and w1: "wd_store w1 = wd_store w" and topos: "run_state (resolve_local_topos env reads c (mc_cells c)) w1 = (Inr topos, w2)"
    and reg: "run_state (register_topology topo env reads c preserve (topo_ref_of c spec) topos) w2 = (Inr None, w3)"
    and w3: "wd_store w' = wd_store w3"
    using reconcileTopology_parts [OF run] by metis
  note t = resolve_local_topos_ok [OF topos]
  obtain w4 w5 where cell: "run_state (register_cells topo env c (topo_ref_of c spec) (local_topo_of topos) (mc_cells c)) w2 = (None, w4)"
    and db: "run_state (register_databases topo c (mc_databases c)) w4 = (None, w5)"
    and after: "\<And>n. cells (wd_store w3) n = (if isPruningEnabled c \<and> n \<notin> cells_kept reads c preserve then None else cells (wd_store w5) n)"
      "\<And>n. dbs (wd_store w3) n = (if isPruningEnabled c \<and> n \<notin> set (map db_name (mc_databases c)) then None else dbs (wd_store w5) n)"
    using register_topology_ok [OF laws names reg] by metis
  have distinct: "distinct (map cl_name (mc_cells c))" using names(1) by (simp add: specCellNames_def)
  note rec = resolved_record [OF names(1) spec topos]
  have kept: "n \<in> cells_kept reads c preserve" if "find (\<lambda>cell. cl_name cell = n) (mc_cells c) = Some cell" for cell
    using that by (auto simp: cells_kept_def specCellNames_def find_Some_iff)
  note dbs5 = register_databases_ok [OF laws db names(2), of n]
  have same: "cells (wd_store w2) = cells (wd_store w)" "dbs (wd_store w2) = dbs (wd_store w)" using t w1 by simp_all
  show "cells (wd_store w') n = cells_after (cx_env (tx_env env)) reads c preserve (cells (wd_store w)) n"
  proof (cases "find (\<lambda>cell. cl_name cell = n) (mc_cells c)")
    case None
    then show ?thesis using after(1) [of n] w3 dbs5 register_cells_ok(1) [OF laws cell distinct, of n] same by (auto simp: cells_after_def)
  next
    case (Some cfg)
    then have "cfg \<in> set (mc_cells c)" by (auto simp: find_Some_iff)
    with Some show ?thesis
      using after(1) [of n] w3 dbs5 register_cells_ok(1) [OF laws cell distinct, of n] same kept rec [unfolded resolved_cell_def] by (simp add: cells_after_def)
  qed
  have listed: "n \<in> set (map db_name (mc_databases c)) \<longleftrightarrow> find (\<lambda>db. db_name db = n) (mc_databases c) \<noteq> None"
    by (auto simp: find_None_iff)
  have "dbs (wd_store w4) = dbs (wd_store w)" using register_cells_ok(2) [OF laws cell distinct] same(2) by simp
  then show "dbs (wd_store w') n = databases_after c (dbs (wd_store w)) n"
    using after(2) [of n, unfolded listed] w3 dbs5
    by (cases "find (\<lambda>db. db_name db = n) (mc_databases c)") (simp_all add: databases_after_def)
qed

lemma registered_desired:
  assumes laws: "store_laws topo cells dbs" and names: "distinct (specCellNames c)" "distinct (map db_name (mc_databases c))"
    and run: "run_state (reconcileTopology topo env reads c preserve) w = (Inr None, w')"
  shows "cell \<in> set (mc_cells c) \<Longrightarrow> desired_cell (cx_env (tx_env env)) c cell \<noteq> None"
    and "mc_mode c \<noteq> ModeLite \<Longrightarrow> db \<in> set (mc_databases c) \<Longrightarrow> desired_database c db \<noteq> None"
proof -
  obtain spec w1 topos w2 w3 where spec: "ResolveGlobalTopo (cx_env (tx_env env)) c = Inr spec"
    and topos: "run_state (resolve_local_topos env reads c (mc_cells c)) w1 = (Inr topos, w2)"
    and reg: "run_state (register_topology topo env reads c preserve (topo_ref_of c spec) topos) w2 = (Inr None, w3)"
    using reconcileTopology_parts [OF run] by metis
  obtain w4 w5 where cell: "run_state (register_cells topo env c (topo_ref_of c spec) (local_topo_of topos) (mc_cells c)) w2 = (None, w4)"
    and db: "run_state (register_databases topo c (mc_databases c)) w4 = (None, w5)"
    using register_topology_ok [OF laws names reg] by metis
  show "desired_cell (cx_env (tx_env env)) c cell \<noteq> None" if "cell \<in> set (mc_cells c)"
    using register_cells_resolved [OF cell that] resolved_record [OF names(1) spec topos that, symmetric] by (auto split: sum.splits)
  show "desired_database c db \<noteq> None" if "mc_mode c \<noteq> ModeLite" "db \<in> set (mc_databases c)"
    using register_databases_resolved [OF db that] .
qed

lemma settled_cell_idem: "settled update_cell_metadata d (Some (settled update_cell_metadata d found)) = settled update_cell_metadata d found"
  by (simp add: settled_def update_cell_metadata_def split: option.splits)

lemma settled_database_idem:
  "settled updateDatabaseMetadata d (Some (settled updateDatabaseMetadata d found)) = settled updateDatabaseMetadata d found"
  by (simp add: settled_def updateDatabaseMetadata_def split: option.splits)

lemma map_settled_idem:
  assumes "\<And>d. settled bring d (Some (settled bring d found)) = settled bring d found"
  shows "map_option (\<lambda>d. settled bring d (map_option (\<lambda>d. settled bring d found) x)) x = map_option (\<lambda>d. settled bring d found) x"
  using assms by (cases x) simp_all

lemma cells_after_idem: "cells_after env reads c preserve (cells_after env reads c preserve old) = cells_after env reads c preserve old"
  by (simp add: fun_eq_iff cells_after_def map_settled_idem [OF settled_cell_idem] split: option.split)

lemma databases_after_idem: "databases_after c (databases_after c old) = databases_after c old"
  by (simp add: fun_eq_iff databases_after_def map_settled_idem [OF settled_database_idem] split: option.split)

lemma find_distinct: "distinct (map f xs) \<Longrightarrow> x \<in> set xs \<Longrightarrow> find (\<lambda>y. f y = f x) xs = Some x"
  by (induction xs) (auto simp: image_iff)

text \<open>A registered record has the managed fields of the desired one.\<close>

lemma cells_after_desired:
  assumes "distinct (specCellNames c)" and "cell \<in> set (mc_cells c)" and "desired_cell env c cell = Some d"
  shows "\<exists>r. cells_after env reads c preserve old (cl_name cell) = Some r
    \<and> lr_addresses r = lr_addresses d \<and> lr_root r = lr_root d \<and> lr_metadata r = lr_metadata d"
  using find_distinct [OF assms(1) [unfolded specCellNames_def] assms(2)] assms(3)
  by (auto simp: cells_after_def settled_def update_cell_metadata_def split: option.splits)

lemma databases_after_desired:
  assumes "distinct (map db_name (mc_databases c))" and "db \<in> set (mc_databases c)" and "mc_mode c \<noteq> ModeLite"
    and "desired_database c db = Some d"
  shows "\<exists>r. databases_after c old (db_name db) = Some r \<and> dr_location r = dr_location d \<and> dr_policy r = dr_policy d
    \<and> sort (dr_cells r) = sort (specCellNames c)"
  using find_distinct [OF assms(1,2)] assms(3,4)
  by (auto simp: databases_after_def settled_def updateDatabaseMetadata_def desired_database_def database_record_for_def Let_def
      sort_key_id_if_sorted split: option.splits sum.splits)

subsection \<open>Theorems\<close>

lemma cells_after_named:
  assumes "distinct (specCellNames c)" and "cell \<in> set (mc_cells c)" and "desired_cell env c cell = Some d"
  shows "cells_after env reads c preserve old (cl_name cell) = Some (case old (cl_name cell) of
      None \<Rightarrow> d
    | Some r \<Rightarrow> r\<lparr>lr_name := lr_name d, lr_addresses := lr_addresses d, lr_root := lr_root d, lr_metadata := lr_metadata d\<rparr>)"
proof -
  have "find (\<lambda>x. cl_name x = cl_name cell) (mc_cells c) = Some cell"
    using find_distinct [of cl_name "mc_cells c" cell] assms(1,2) by (simp add: specCellNames_def)
  then show ?thesis
    using assms(3) by (auto simp: cells_after_def settled_def update_cell_metadata_def split: option.split)
qed

lemma databases_after_named:
  assumes "distinct (map db_name (mc_databases c))" and "db \<in> set (mc_databases c)" and "mc_mode c \<noteq> ModeLite"
    and "desired_database c db = Some d" and "databases_after c old (db_name db) = Some r"
  shows "case old (db_name db) of
      None \<Rightarrow> r = d
    | Some o' \<Rightarrow> r = o'\<lparr>dr_cells := dr_cells r, dr_location := dr_location d, dr_policy := dr_policy d\<rparr>"
  using find_distinct [OF assms(1,2)] assms(3-5)
  by (auto simp: databases_after_def settled_def updateDatabaseMetadata_def split: option.splits if_splits)

lemma after_unnamed:
  "n \<notin> set (specCellNames c) \<Longrightarrow>
     cells_after env reads c preserve cells0 n = (if isPruningEnabled c \<and> n \<notin> cells_kept reads c preserve then None else cells0 n)"
  "n \<notin> set (map db_name (mc_databases c)) \<Longrightarrow> databases_after c dbs0 n = (if isPruningEnabled c then None else dbs0 n)"
  by (auto simp: cells_after_def databases_after_def specCellNames_def find_None_iff split: option.split dest: find_SomeD)


text \<open>C14: No pass of topology registration, however it ends, removes the record of a cell the specification names. A pass that is told
  that cells are pending deletion (\<^verbatim>\<open>preserve\<close>) also removes no record of a cell that the listing of cells shows marked for
  deletion; a pass that is not told so, or whose listing fails, gives those no such protection. No pass removes the record of a
  database the specification names, and in Lite mode, where the shard owns them, it leaves those as they are.\<close>

theorem registration_removes_nothing_wanted:
  assumes "store_laws topo cells dbs"
  shows "present cells (cells_kept reads c preserve) (wd_store w) (wd_store (snd (run_state (reconcileTopology topo env reads c preserve) w)))
    \<and> present dbs (set (map db_name (mc_databases c))) (wd_store w) (wd_store (snd (run_state (reconcileTopology topo env reads c preserve) w)))
    \<and> (mc_mode c = ModeLite \<longrightarrow>
        fixed dbs (set (map db_name (mc_databases c))) (wd_store w) (wd_store (snd (run_state (reconcileTopology topo env reads c preserve) w))))"
  using reconcileTopology_present [OF assms] lite_databases_fixed [OF assms] unfolding steps_def by blast

text \<open>A pass writes nothing to the topology while the local topology server it manages for a cell is not ready.\<close>

theorem registration_waits_for_local_servers:
  assumes "cell \<in> set (mc_cells c)" and "ResolveCell (cx_env (tx_env env)) c (effective_cell c cell) = Inr (g, p, Some lt)"
    and "lt_etcd lt \<noteq> None" and "managedLocalTopoServerReady reads c cell \<noteq> Inr True"
  shows "wd_store (snd (run_state (reconcileTopology topo env reads c preserve) w)) = wd_store w"
proof -
  have not_resolved: "run_state (resolve_local_topos env reads c (mc_cells c)) v \<noteq> (Inr topos, v')" for v topos v'
  proof
    assume run: "run_state (resolve_local_topos env reads c (mc_cells c)) v = (Inr topos, v')"
    show False using resolve_local_topos_member [OF run assms(1)] assms(2-4) by auto
  qed
  have untouched: "steps (=) (resolve_local_topos env reads c (mc_cells c) :: ('a, _) tio)"
    by (rule steps_resolve_local_topos) (auto simp: reflp_def transp_def)
  obtain r v where r: "run_state (record_child_events (globalTopoRef (tx_env env) c)) w = (r, v)" by fastforce
  obtain r' v' where r': "run_state (resolve_local_topos env reads c (mc_cells c)) v = (r', v')" by fastforce
  obtain finished where "r' = Inl finished" using r' not_resolved by (cases r') auto
  moreover have "wd_store v = wd_store w"
    using steps_child_events [of "(=)" "globalTopoRef (tx_env env) c"] r unfolding steps_def reflp_def by (metis snd_conv)
  moreover have "wd_store v' = wd_store v" using untouched r' unfolding steps_def by (metis snd_conv)
  ultimately show ?thesis
    using r r' by (cases r) (simp_all add: reconcileTopology_def State_Monad.bind_def State_Monad.return_def)
qed

text \<open>
  The client certificate: without a secret named there is none, and with one the material named is complete. A missing
  secret or key is an error, never a plaintext connection.
\<close>

theorem loadClientTLS_complete:
  assumes "loadClientTLS read namespace ref = Inr tls"
  shows "tls = None \<longleftrightarrow> tr_client_cert_secret ref = [] \<and> tr_ca_secret ref = []"
    and "tls = Some t \<Longrightarrow> tr_client_cert_secret ref \<noteq> [] \<Longrightarrow> tls_cert t \<noteq> [] \<and> tls_key t \<noteq> []"
    and "tls = Some t \<Longrightarrow> tr_ca_secret ref \<noteq> [] \<Longrightarrow> tls_ca t \<noteq> []"
  using assms
  by (auto simp: loadClientTLS_def Let_def bind_err_def get_secret_def requireKey_def split: if_splits sum.splits)

subsection \<open>A store in memory\<close>

definition mem_create :: "string \<Rightarrow> 'r \<Rightarrow> (string \<times> 'r) list \<Rightarrow> topo_error option \<times> (string \<times> 'r) list" where
  "mem_create n r m = (if map_of m n = None then (None, (n, r) # m) else (Some \<lparr>te_code = NodeExists, te_message = []\<rparr>, m))"

definition mem_update :: "string \<Rightarrow> ('r \<Rightarrow> topo_error + 'r) \<Rightarrow> (string \<times> 'r) list \<Rightarrow> topo_error option \<times> (string \<times> 'r) list" where
  "mem_update n f m =
     (case map_of m n of
        None \<Rightarrow> (Some \<lparr>te_code = NoNode, te_message = []\<rparr>, m)
      | Some r \<Rightarrow> (case f r of
                      Inr r' \<Rightarrow> (None, (n, r') # m)
                    | Inl err \<Rightarrow> if te_code err = NoUpdateNeeded then (None, m) else (Some err, m)))"

definition mem_delete :: "string \<Rightarrow> (string \<times> 'r) list \<Rightarrow> topo_error option \<times> (string \<times> 'r) list" where
  "mem_delete n m = (if map_of m n = None then (Some \<lparr>te_code = NoNode, te_message = []\<rparr>, m) else (None, filter (\<lambda>p. fst p \<noteq> n) m))"

type_synonym mem = "(string \<times> cell_record) list \<times> (string \<times> db_record) list"

definition mem_store :: "mem topo_store" where
  "mem_store =
     \<lparr>so_create_cell = (\<lambda>n r (a, b). let (e, a') = mem_create n r a in (e, (a', b))),
      so_update_cell = (\<lambda>n f (a, b). let (e, a') = mem_update n f a in (e, (a', b))),
      so_cell_names = (\<lambda>(a, b). (Inr (map fst a), (a, b))),
      so_delete_cell = (\<lambda>n force (a, b). let (e, a') = mem_delete n a in (e, (a', b))),
      so_create_database = (\<lambda>n r (a, b). let (e, b') = mem_create n r b in (e, (a, b'))),
      so_update_database = (\<lambda>n f (a, b). let (e, b') = mem_update n f b in (e, (a, b'))),
      so_database_names = (\<lambda>(a, b). (Inr (map fst b), (a, b))),
      so_delete_database = (\<lambda>n force (a, b). let (e, b') = mem_delete n b in (e, (a, b')))\<rparr>"

lemma map_of_filter_fst: "map_of (filter (\<lambda>p. fst p \<noteq> n) m) k = (if k = n then None else map_of m k)"
  by (induction m) auto

lemma mem_store_laws: "store_laws mem_store (map_of \<circ> fst) (map_of \<circ> snd)"
  unfolding store_laws_def
  by (intro conjI)
    (auto simp: mem_store_def create_law_def update_law_def names_law_def delete_law_def mem_create_def mem_update_def mem_delete_def
      map_of_filter_fst dom_map_of_conv_image_fst Let_def split: if_splits option.splits sum.splits)

definition reads_w :: topo_reads where
  "reads_w = \<lparr>tq_cell = (\<lambda>_ _. Inl NotFound), tq_server = (\<lambda>_ _. Inl NotFound), tq_cells = (\<lambda>_ _. Inr [(''z2'', ''2024''), (''z3'', [])]),
     tq_secret = (\<lambda>_ _. Inl (plain_error [])), tq_open = (\<lambda>_ _ _ _. None)\<rparr>"

definition topo_env_w :: topo_env where
  "topo_env_w = \<lparr>tx_env = \<lparr>cx_env = demo_env (\<lambda>_ _. Inl NotFound), cx_own_group = (\<lambda>_ _. None), cx_own_cell = (\<lambda>_ _. None), cx_stamp = []\<rparr>,
     tx_now = 0, tx_created = 0, tx_generation = 1, tx_set = (\<lambda>cs c. c # cs)\<rparr>"

definition topo_cluster_w :: cluster where
  "topo_cluster_w = demo_cluster\<lparr>mc_databases := [\<lparr>db_name = ''postgres'', db_default = True, db_table_groups = [], db_backup = None,
     db_durability_policy = []\<rparr>]\<rparr>"

definition old_cell_w :: "string \<Rightarrow> cell_record" where
  "old_cell_w n = \<lparr>lr_name = n, lr_addresses = [''old''], lr_root = ''/'', lr_metadata = [], lr_other = ''kept''\<rparr>"

definition world_w :: "mem topo_world" where
  "world_w = \<lparr>wd_store = (map (\<lambda>n. (n, old_cell_w n)) [''z1'', ''z2'', ''z3''], [(''app'', \<lparr>dr_name = ''app'', dr_cells = [], dr_location = None,
       dr_policy = None, dr_other = []\<rparr>)]), wd_events = [], wd_status = blank_status, wd_applied = []\<rparr>"

lemma registered_w:
  "case run_state (reconcileTopology mem_store topo_env_w reads_w topo_cluster_w True) world_w of
     (r, w') \<Rightarrow> r = Inr None \<and> map fst (fst (wd_store w')) = [''z1'', ''z1'', ''z2''] \<and> map fst (snd (wd_store w')) = [''postgres'']"
  by code_simp


theorem registration_removes_nothing_wanted_witness:
  "map_of (fst (wd_store (snd (run_state (reconcileTopology mem_store topo_env_w reads_w topo_cluster_w True) world_w)))) ''z2'' \<noteq> None"
proof -
  have "''z2'' \<in> cells_kept reads_w topo_cluster_w True" by (simp add: cells_kept_def reads_w_def)
  moreover have "map_of (fst (wd_store world_w)) ''z2'' \<noteq> None" by (simp add: world_w_def)
  ultimately show ?thesis
    using registration_removes_nothing_wanted [OF mem_store_laws, of reads_w topo_cluster_w True world_w topo_env_w]
    by (simp add: present_def comp_def)
qed

end
