(* ===== verification/Spec2Isabelle.thy ===== *)
theory Spec2Isabelle
  imports Condition_Writers Quarantine Drain_Order Pg_Effective Cluster_Status Lite_Identity Cluster_Deletion Etcd_Maintenance Topo_Registration
begin

text \<open>
  This development models the core of the multigres operator, a Kubernetes operator that runs sharded
  PostgreSQL clusters, and proves the properties that keep its data safe. Paths are relative to
  \<^verbatim>\<open>src/\<close>.

  \<^bold>\<open>The program.\<close> The operator reconciles a tree of resources. At the bottom a \<^verbatim>\<open>Shard\<close> is a set of pools
  of pods, each pod with a multipooler process beside PostgreSQL and a data claim. A pass over a shard
  (\<^verbatim>\<open>pkg/resource-handler/controller/shard\<close>) creates missing claims and pods, removes extra ones, rolls
  changes out pod by pod, moves pods that are to go through a drain state machine, replaces quarantined
  ones, and publishes status conditions. Topology (etcd) holds one record per pooler; the poolers answer
  a status RPC. Claims of removed pods are marked and later deleted by a separate collector.

  \<^bold>\<open>How it is modelled.\<close> A pass is a computation in the state monad over the list of API calls made so far
  (theory \<^verbatim>\<open>Kube_Model\<close>); the API server is an argument that answers each call from the calls before it, so
  a theorem holds for every server and for everything other clients do between two calls. The topology
  store, the RPC, the consensus package, quantity parsing, time formats and the pod template are
  arguments too. Errors are values. Go maps are association lists; the loops whose order Go leaves open
  are either insensitive to it or sort first, as the code does. Log lines, metrics and spans are left
  out. No model uses fuel: every recursion is structural or over a list.

  \<^bold>\<open>The theories\<close>, in the order of their imports:

  \<^item> \<^verbatim>\<open>Go_Prelude\<close>: strings, integers, association lists, time. \<^verbatim>\<open>Kube_Model\<close>: pods, claims, shards, label keys
    and builders (\<^verbatim>\<open>pkg/util/metadata/labels.go\<close>), the API server, and the calculus of guarded histories
    (every call satisfies a guard that sees the calls before it). Interface \<^verbatim>\<open>label_adder\<close>.
  \<^item> \<^verbatim>\<open>Status_Conditions\<close> (\<^verbatim>\<open>pkg/util/status\<close>): conditions and phases. Interface \<^verbatim>\<open>condition_store\<close>.
  \<^item> \<^verbatim>\<open>Name_Hash\<close> (\<^verbatim>\<open>pkg/util/name\<close> and the name builders): names are legal, indices can be read back, and two
    different inputs that collide.
  \<^item> \<^verbatim>\<open>Drain_Machine\<close> (\<^verbatim>\<open>pkg/data-handler/drain\<close>, the drain loop of \<^verbatim>\<open>reconcile_data_plane.go\<close>): one state forward
    per pass, and the end of a drain over passes of the drain loop.
  \<^item> \<^verbatim>\<open>Topo_Poolers\<close> (\<^verbatim>\<open>pkg/data-handler/topo/pooler.go\<close>): what is read from topology, and which poolers are
    marked dead.
  \<^item> \<^verbatim>\<open>Posture\<close>, \<^verbatim>\<open>Disruption_Check\<close> (\<^verbatim>\<open>pkg/data-handler/posture\<close>): when an observation is complete, and exactly
    when a pod may be removed.
  \<^item> \<^verbatim>\<open>Backup_Health\<close> (\<^verbatim>\<open>pkg/data-handler/backuphealth\<close>): which backup counts and when it is recent.
  \<^item> \<^verbatim>\<open>Pvc_Lifecycle\<close> (\<^verbatim>\<open>pkg/util/pvc\<close>, \<^verbatim>\<open>pkg/gc\<close>, \<^verbatim>\<open>terminating_pvc.go\<close>): orphan marks, the collector, and the
    collector beside an operator that takes a claim back, both answered out of one history of the claim.
  \<^item> \<^verbatim>\<open>Condition_Writers\<close>: the components that publish a condition on a shard, as interpretations of the
    interfaces \<^verbatim>\<open>condition_writer\<close> and \<^verbatim>\<open>writer_pair\<close>, and what the phases of \<^verbatim>\<open>reconcile_data_plane.go\<close> write to the
    posture and backup conditions.
  \<^item> \<^verbatim>\<open>Pool_Pods\<close>, \<^verbatim>\<open>Scale_Down\<close> (\<^verbatim>\<open>reconcile_pool_pods.go\<close>, \<^verbatim>\<open>maintenance_surge.go\<close>, \<^verbatim>\<open>disruption.go\<close>, \<^verbatim>\<open>shard_pdb.go\<close>):
    health and choice of pods, the preflight, and everything a scale-down may call.
  \<^item> \<^verbatim>\<open>Quarantine\<close> (\<^verbatim>\<open>reconcile_quarantine.go\<close>): the replacement of quarantined pods.
  \<^item> \<^verbatim>\<open>Pool_Storage\<close> (\<^verbatim>\<open>pool_pvc.go\<close>, \<^verbatim>\<open>storage_spec_ignored.go\<close>): building and expanding claims.
  \<^item> \<^verbatim>\<open>Pool_Create\<close>, \<^verbatim>\<open>Rolling_Update\<close>, \<^verbatim>\<open>Pool_Reconcile\<close> (\<^verbatim>\<open>reconcile_pool_pods.go\<close>, \<^verbatim>\<open>maintenance_surge.go\<close>, \<^verbatim>\<open>shard_controller.go\<close>):
    creating what is missing, temporary poolers, rolling changes out, and the pass over the pools.
  \<^item> \<^verbatim>\<open>One_Disruption\<close>: the pass starts at most one drain. A step's contract is a budget (interface \<^verbatim>\<open>drain_budget\<close>),
    closed under the loops over cells and pools (\<^verbatim>\<open>drain_budget_items\<close>), with one interpretation per handler.
  \<^item> \<^verbatim>\<open>Drain_Evidence\<close>: each drain of the pass rests on evidence gathered before it (interface \<^verbatim>\<open>evidenced_items\<close>).
  \<^item> \<^verbatim>\<open>Drain_Order\<close>: no patch of the pass over the pools, of the drain loop or of the drain of a shard to be deleted moves a
    drain back, but for the cancellation of one that was merely requested.
  \<^item> \<^verbatim>\<open>Go_Text\<close>, \<^verbatim>\<open>Pg_Sizing\<close>, \<^verbatim>\<open>Pg_Catalog\<close>, \<^verbatim>\<open>Pg_Settings\<close>, \<^verbatim>\<open>Pg_Effective\<close> (\<^verbatim>\<open>pkg/postgresconfig/\<close>): the string functions the
    package calls; sizing from memory, cores and disk on 64-bit integers; the catalog, validation and classification;
    rendering and reading back; and what the server ends up with, its hashes and its marker.
  \<^item> \<^verbatim>\<open>Topo_Roots\<close> (\<^verbatim>\<open>pkg/topology/roots.go\<close>): the roots of a cluster in a shared topology server and when one encloses another.
  \<^item> \<^verbatim>\<open>Config_Layers\<close>, \<^verbatim>\<open>Resolver\<close>, \<^verbatim>\<open>Cluster_Defaults\<close> (\<^verbatim>\<open>pkg/resolver/\<close>, \<^verbatim>\<open>pkg/webhook/handlers/defaulter.go\<close>): every merge of the
    resolver is an overlay (interface \<^verbatim>\<open>overlay\<close>: associative, with a blank, absorbing), one interpretation per merge, and the topmost layer
    that sets a field wins; shards, cells, the topology server and the admin components are resolved over them; and the defaulting webhook is at rest on
    what it has defaulted.
  \<^item> \<^verbatim>\<open>Cluster_Validation\<close> (\<^verbatim>\<open>pkg/resolver/validation.go\<close>): the checks of the validating webhook, and what an accepted cluster has.
  \<^item> \<^verbatim>\<open>Shard_Deletion\<close> (\<^verbatim>\<open>reconcile_deletion.go\<close>): the drain a parent asks a shard for, with the roles it records on the way, and
    the clean-up behind the finalizer.
  \<^item> \<^verbatim>\<open>Custom_Resources\<close>: how the controllers see each other's objects, the gate that pauses objects (\<^verbatim>\<open>pkg/features\<close>), and the
    interfaces \<^verbatim>\<open>handshake\<close> and \<^verbatim>\<open>fresh_handshake\<close> between a parent and the children it drains, deletes and applies.
  \<^item> \<^verbatim>\<open>Table_Groups\<close>, \<^verbatim>\<open>Cluster_Children\<close> (\<^verbatim>\<open>pkg/cluster-handler/controller/\<close>): the table group controller step by step, and the cells and
    table groups of a cluster; both interfaces are interpreted on their passes.
  \<^item> \<^verbatim>\<open>Topo_Retire\<close>, \<^verbatim>\<open>Cluster_Status\<close> (\<^verbatim>\<open>retire_global_topo.go\<close>, \<^verbatim>\<open>status.go\<close>): retiring the managed topology server of a cluster
    that moved to an external one, and the status that this waits for.
  \<^item> \<^verbatim>\<open>Template_Usage\<close>, \<^verbatim>\<open>Admission\<close>, \<^verbatim>\<open>Lite_Identity\<close> (\<^verbatim>\<open>pkg/webhook/handlers/\<close>): which templates a cluster uses, as four places work it
    out; the validating webhooks; and admissions as the steps of a machine, in which a lite cluster never moves.
  \<^item> \<^verbatim>\<open>Cluster_Deletion\<close> (\<^verbatim>\<open>multigrescluster_controller.go\<close>): the end of a cluster, and a bound on the passes it takes.
  \<^item> \<^verbatim>\<open>Etcd_Maintenance\<close> (\<^verbatim>\<open>toposerver/maintenance.go\<close>): one member defragmented at a time, also among several controllers, whose runs
    interleave on a server that takes a save only at the version it names.
  \<^item> \<^verbatim>\<open>Topo_Registration\<close> (\<^verbatim>\<open>pkg/data-handler/topo/\<close>, \<^verbatim>\<open>reconcile_topology.go\<close>): the records of cells and databases in the topology. The
    client's documented behaviour is the hypothesis \<^verbatim>\<open>store_laws\<close>, which a store in memory satisfies; a pass that ends well refines a
    function on records, and no pass removes a record that is wanted.
  \<^bold>\<open>What the theorems show.\<close> A pod is drained only with evidence that the rest of the shard is settled and
  durable without it, and one at a time; a drain runs to its end; only drained pods are deleted and only
  while none of their claims is being deleted; a claim in use is never collected; data is wiped only
  with a recent backup; capacity stays within the disruption budget; what the operator labels its
  selectors find; a parent deletes a child only once it drained, and its own finalizer goes last; admission keeps
  the references of live clusters and the place of a lite cluster; etcd is maintained one healthy member at a
  time; and the pure judgements (posture, backups, phases, names, selection) are characterised
  exactly.

  \<^bold>\<open>Not modelled.\<close> The construction of Kubernetes objects (pod templates, deployments, services, config maps), the
  cell controller and most of the topology server controller, certificates, RPC connections, metrics, the
  command line programs and the observer tool.
\<close>

section \<open>Properties that span components\<close>

text \<open>What the disruption preflight establishes: a quorum that is durable without the pod.\<close>

lemma preflight_quorum:
  assumes "preflight_passed k env shd h p"
  shows "\<exists>rpc getPoolers pods ob leader rule policy.
      de_clients env = Some (Some rpc) \<and> de_store env = Some getPoolers
      \<and> seen (k_list_pods k) h (ListPods True (s_namespace shd) (pool_selector shd)) (Inr pods)
      \<and> ObserveDisruption (de_lib env) getPoolers rpc shd (map p_name pods) = Inr ob
      \<and> settled_cohort (de_lib env) ob shd (disruption_target env pods p) leader rule
      \<and> cl_new_policy (de_lib env) (ru_policy rule) = Inr policy
      \<and> cl_satisfied_by (de_lib env) policy (survivors ob (disruption_target env pods p) rule) = None
      \<and> cl_sufficient_recruitment (de_lib env) policy (ru_cohort rule)
          (survivors ob (disruption_target env pods p) rule) = None"
proof -
  from assms obtain pods pf where
      pods: "seen (k_list_pods k) h (ListPods True (s_namespace shd) (pool_selector shd)) (Inr pods)"
    and pf: "observe_pods env shd pods [] = Inr pf" and ok: "disruptionCheck env shd pf p = None"
    by (auto simp: preflight_passed_def)
  from observe_pods_Inr [OF pf] obtain rpc getPoolers ob where
      o: "de_clients env = Some (Some rpc)" "de_store env = Some getPoolers"
      "ObserveDisruption (de_lib env) getPoolers rpc shd (map p_name pods) = Inr ob"
      "pf = \<lparr>pf_pods = pods, pf_observation = ob\<rparr>" by blast
  with ok have "Check (de_lib env) ob shd (disruption_target env pods p) = None"
    by (simp add: disruptionCheck_def)
  from Check_None_settled [OF this] pods o(1-3) show ?thesis by blast
qed

text \<open>
  C1: no disruption without a quorum. When a pass over the pools of a shard, in whichever pool and for
  whatever reason (a scale-down, a rolling update, a volume resize, a pod that is not ready), asks a pod
  to drain that nobody is deleting and that is not stranded on an earlier topology, the poolers of the
  shard were observed over a live listing of its pods read earlier in that pass, there were a committed
  leader and rule for which the evidence \<^const>\<open>settled_cohort\<close> held for that pod as the target, and the
  cohort members left without it satisfied the committed durability policy and could recruit a leader.
\<close>

theorem pass_keeps_quorum:
  assumes "run_state (reconcilePools k bl env setStatus shd) h = (r, h @ before @ PatchPod p q # after)"
    and "drain_state p = []" and "drain_state q \<noteq> []"
    and "is_zero_ptr (p_deletion p)" and "\<not> podTopoDrifted (Some p) shd"
  shows "\<exists>rpc getPoolers pods ob leader rule policy.
      de_clients env = Some (Some rpc) \<and> de_store env = Some getPoolers
      \<and> seen (k_list_pods k) (h @ before) (ListPods True (s_namespace shd) (pool_selector shd)) (Inr pods)
      \<and> ObserveDisruption (de_lib env) getPoolers rpc shd (map p_name pods) = Inr ob
      \<and> settled_cohort (de_lib env) ob shd (disruption_target env pods p) leader rule
      \<and> cl_new_policy (de_lib env) (ru_policy rule) = Inr policy
      \<and> cl_satisfied_by (de_lib env) policy (survivors ob (disruption_target env pods p) rule) = None
      \<and> cl_sufficient_recruitment (de_lib env) policy (ru_cohort rule)
          (survivors ob (disruption_target env pods p) rule) = None"
proof -
  have "drain_evidence k env shd (h @ before) p"
    using assms(2,3) by (intro pass_drain_evidence [OF assms(1)]) (simp add: starts_drain_def)
  with assms(4,5) have "preflight_passed k env shd (h @ before) p"
    by (simp add: drain_evidence_def stranded_clear_def)
  then show ?thesis by (rule preflight_quorum)
qed

theorem pass_keeps_quorum_witness:
  "\<exists>ob t leader rule. settled_cohort (sample_lib 2) ob idle_shard t leader rule"
proof -
  from pass_run_drains obtain before p q after where
      run: "run_state (reconcilePools pass_kube sample_builder scale_env (\<lambda>cs c. cs @ [c]) idle_shard) []
        = (fst pass_run, [] @ before @ PatchPod p q # after)"
    and p: "drain_state p = []" "drain_state q \<noteq> []" "is_zero_ptr (p_deletion p)"
      "\<not> podTopoDrifted (Some p) idle_shard" by blast
  from pass_keeps_quorum [OF run p] show ?thesis by (auto simp: scale_env_def)
qed

text \<open>
  C9: no data is wiped without a fresh backup. Take a shard that was not known to have healthy backups, and any
  sequence of writes of the data-plane phase to its conditions: posture observations, accepted or not, failures to build the RPC client,
  and backup evaluations, whether they fail, find no primary and so return nothing, or evaluate the backups of the primary.
  If quarantine remediation on the resulting shard makes any call beyond reads and events, then an evaluation in
  the sequence found, on the primary, a completed backup with a readable time that was no older than the threshold, and
  every write after it was a posture observation or an evaluation that found no primary.
\<close>

theorem quarantine_needs_backup:
  assumes "\<not> IsConditionTrue (s_conditions shd) ConditionHealthy"
    and "run_state (reconcileQuarantineRemediation k getPoolers now (data_plane_writes render errText shd ws)) h
      = (r, h @ cs)"
    and "\<not> list_all reads cs"
  shows "\<exists>before query getBackups at after primary backups b.
    ws = before @ BackupsEvaluated query getBackups at # after
    \<and> FindPrimaryPooler query (CollectCells shd) = Inr (Some primary) \<and> getBackups primary = Inr (Some backups)
    \<and> b \<in> set backups \<and> bm_status b = BACKUP_COMPLETE \<and> ParseTime (bm_id b) \<noteq> 0
    \<and> at - ParseTime (bm_id b) \<le> BackupStaleThreshold
    \<and> (\<forall>x\<in>set after. case x of
          ClientUnavailable t err \<Rightarrow> False
        | PostureObserved t result strikes \<Rightarrow> True
        | BackupsEvaluated query' getBackups' t \<Rightarrow> FindPrimaryPooler query' (CollectCells shd) = Inr None)"
proof -
  have "IsConditionTrue (s_conditions (data_plane_writes render errText shd ws)) ConditionHealthy"
    using reconcileQuarantineRemediation_unhealthy [OF assms(2)] assms(3) by blast
  from writes_healthy [OF assms(1) this] show ?thesis
    unfolding fresh_backup_def no_news_def list_all_iff by blast
qed

definition sample_backup :: backup_metadata where
  "sample_backup = \<lparr>bm_id = ''20240229-120000F'', bm_status = BACKUP_COMPLETE, bm_type = ''full''\<rparr>"

text \<open>The primary is evaluated with a backup of the day before, then topology names no primary, then postures are observed.\<close>

definition sample_writes :: "data_plane_write list" where
  "sample_writes =
     [BackupsEvaluated (\<lambda>c. Inr [sample_pooler ''a'']) (\<lambda>p. Inr (Some [sample_backup])) (ParseTime ''20240301-120000F''),
      BackupsEvaluated (\<lambda>c. Inr []) (\<lambda>p. Inr None) 0, PostureObserved 0 None 0]"

definition sample_remediation :: "(quarantine_error + bool) \<times> history" where
  "sample_remediation = run_state (reconcileQuarantineRemediation (scale_kube [scale_pod 0, scale_pod 1, scale_pod 2])
     (\<lambda>c. Inr [sick_pooler]) (10 * minute) (data_plane_writes (\<lambda>m. []) (\<lambda>e. []) sample_shard sample_writes)) []"

theorem quarantine_needs_backup_witness:
  "\<not> list_all reads (snd sample_remediation)
   \<and> (\<exists>before query getBackups at after primary backups b.
        sample_writes = before @ BackupsEvaluated query getBackups at # after
        \<and> FindPrimaryPooler query (CollectCells sample_shard) = Inr (Some primary)
        \<and> getBackups primary = Inr (Some backups) \<and> b \<in> set backups \<and> bm_status b = BACKUP_COMPLETE
        \<and> ParseTime (bm_id b) \<noteq> 0 \<and> at - ParseTime (bm_id b) \<le> BackupStaleThreshold)"
proof -
  have fresh: "\<not> IsConditionTrue (s_conditions sample_shard) ConditionHealthy" by code_simp
  have acts: "\<not> list_all reads (snd sample_remediation)" by code_simp
  have "run_state (reconcileQuarantineRemediation (scale_kube [scale_pod 0, scale_pod 1, scale_pod 2])
     (\<lambda>c. Inr [sick_pooler]) (10 * minute) (data_plane_writes (\<lambda>m. []) (\<lambda>e. []) sample_shard sample_writes)) []
     = (fst sample_remediation, [] @ snd sample_remediation)" by (simp add: sample_remediation_def)
  from quarantine_needs_backup [OF fresh this acts] acts show ?thesis by blast
qed

text \<open>
  what the operator labels, its selectors find. The labels it puts on the pods and claims of a pool
  satisfy the selector of the drain loop and the preflight, that of the claim watch and of quarantine
  remediation, and that of the disruption budget, whatever other labels the shard carries, as long as
  the shard carries its cluster label.
\<close>

theorem pool_labels_selected:
  assumes "s_labels shd LabelMultigresCluster = Some c"
  shows "pool_selector shd \<subseteq>\<^sub>m buildPoolLabelsWithCell shd poolName cellName
    \<and> shardSelector shd \<subseteq>\<^sub>m buildPoolLabelsWithCell shd poolName cellName
    \<and> GetSelectorLabels (shardPDBLabels shd) \<subseteq>\<^sub>m buildPoolLabelsWithCell shd poolName cellName"
proof -
  note vals = pool_label_values [of shd poolName cellName]
  show ?thesis
    unfolding pool_selector_def shardSelector_def shardPDB_selector
    by (intro conjI map_le_upd map_le_empty) (simp_all only: vals assms str_at_def option.case)
qed

theorem pool_labels_selected_witness:
  "pool_selector sample_shard \<subseteq>\<^sub>m buildPoolLabelsWithCell sample_shard ''main'' ''z1''"
  using pool_labels_selected [of sample_shard "''c''" "''main''" "''z1''"] by (simp add: sample_shard_def)
end
